(* ===== verification/TMC_Prelude.thy ===== *)
theory TMC_Prelude
  imports
    Main
    "HOL-Library.AList"
    "HOL-Library.Char_ord"
    "HOL-Library.List_Lexorder"
    "HOL-Library.Multiset"
begin

text \<open>
  Shared vocabulary of the development: the fragments of Go and of its standard library that the
  controllers use (errors and panics, maps with a nil value, string prefixes, instants and
  durations), the generic lemmas about them, and the two interfaces every component relies on:

  \<^item> \<open>go_store\<close>: what a map lookup returns after an assignment or a \<open>delete\<close>, with the folds of
    both that the controllers' loops perform;
  \<^item> \<open>key_codec\<close>: label and annotation keys of the form \<open>prefix + sync target key\<close>, with the
    decoding loops over a whole label or annotation map.

  The collections \<open>go_simps\<close> (unfolding of the Go primitives) and \<open>key_simps\<close> (facts about encoded
  keys) are extended by the component theories.
\<close>

named_theorems go_simps
named_theorems key_simps

section \<open>Errors\<close>

text \<open>
  Every error value of the sources is one of these. \<open>NotFound\<close>, \<open>AlreadyExists\<close> and \<open>Conflict\<close> are
  the API errors the code tells apart (\<open>apierrors.IsNotFound\<close> and so on), \<open>Failure\<close> is any other
  error with its message, and \<open>Panic\<close> is a run-time panic, which no code under \<^verbatim>\<open>src/\<close> recovers
  from inside a reconcile call.
\<close>

datatype go_error = NotFound | AlreadyExists | Conflict | Failure string | Panic string

text \<open>\<open>err.Error()\<close>; the texts of API errors are abbreviated.\<close>

fun error_text :: "go_error \<Rightarrow> string" where
  "error_text NotFound = ''not found''"
| "error_text AlreadyExists = ''already exists''"
| "error_text Conflict = ''conflict''"
| "error_text (Failure m) = m"
| "error_text (Panic m) = m"

definition is_panic :: "go_error \<Rightarrow> bool" where
  "is_panic e = (case e of Panic _ \<Rightarrow> True | _ \<Rightarrow> False)"

text \<open>Sequencing of fallible calls: the first error is the result.\<close>

definition bindE :: "go_error + 'a \<Rightarrow> ('a \<Rightarrow> go_error + 'b) \<Rightarrow> go_error + 'b" where
  "bindE m f = (case m of Inl e \<Rightarrow> Inl e | Inr x \<Rightarrow> f x)"

text \<open>A loop whose body may fail, left to right, stopping at the first error.\<close>

fun foldE :: "('s \<Rightarrow> 'a \<Rightarrow> go_error + 's) \<Rightarrow> 's \<Rightarrow> 'a list \<Rightarrow> go_error + 's" where
  "foldE f s [] = Inr s"
| "foldE f s (x # xs) = bindE (f s x) (\<lambda>s'. foldE f s' xs)"

section \<open>Maps\<close>

text \<open>
  A Go map with string keys is an association list, in one of its iteration orders, or the nil map
  (\<open>None\<close>). Reading and deleting are defined on the nil map, assigning to it panics.
\<close>

type_synonym 'v gomap = "(string \<times> 'v) list option"
type_synonym smap = "string gomap"

definition entries :: "'v gomap \<Rightarrow> (string \<times> 'v) list" where
  "entries m = (case m of None \<Rightarrow> [] | Some l \<Rightarrow> l)"

definition go_get :: "'v gomap \<Rightarrow> string \<Rightarrow> 'v option" where
  "go_get m k = map_of (entries m) k"

definition go_has :: "'v gomap \<Rightarrow> string \<Rightarrow> bool" where
  "go_has m k = (go_get m k \<noteq> None)"

text \<open>Indexing without the \<open>ok\<close> result: the zero value when the key is missing.\<close>

definition go_str :: "smap \<Rightarrow> string \<Rightarrow> string" where
  "go_str m k = (case go_get m k of None \<Rightarrow> [] | Some v \<Rightarrow> v)"

definition go_put :: "string \<Rightarrow> 'v \<Rightarrow> (string \<times> 'v) list \<Rightarrow> (string \<times> 'v) list" where
  "go_put = AList.update"

definition go_set :: "'v gomap \<Rightarrow> string \<Rightarrow> 'v \<Rightarrow> go_error + 'v gomap" where
  "go_set m k v =
     (case m of None \<Rightarrow> Inl (Panic ''assignment to entry in nil map'')
      | Some l \<Rightarrow> Inr (Some (go_put k v l)))"

definition go_del :: "string \<Rightarrow> 'v gomap \<Rightarrow> 'v gomap" where
  "go_del k m = map_option (AList.delete k) m"

text \<open>\<open>if m == nil { m = make(map[string]string) }\<close>\<close>

definition go_make :: "'v gomap \<Rightarrow> 'v gomap" where
  "go_make m = Some (entries m)"

definition wf_map :: "'v gomap \<Rightarrow> bool" where
  "wf_map m = distinct (map fst (entries m))"

lemma entries_simps [simp]: "entries None = []" "entries (Some l) = l" "entries (go_make m) = entries m"
  by (simp_all add: entries_def go_make_def)

lemma go_get_make [simp]: "go_get (go_make m) = go_get m"
  by (simp add: go_get_def fun_eq_iff)

lemma go_get_entries [simp]: "go_get (Some (entries m)) = go_get m"
  by (simp add: go_get_def fun_eq_iff)

lemma go_get_None [simp]: "go_get None k = None"
  by (simp add: go_get_def)

lemma go_get_Some_Nil [simp]: "go_get (Some []) k = None"
  by (simp add: go_get_def)

lemma go_get_put [simp]: "go_get (Some (go_put k v l)) k' = (if k' = k then Some v else go_get (Some l) k')"
  by (simp add: go_get_def go_put_def update_conv')

lemma go_set_Some [simp]: "go_set (Some l) k v = Inr (Some (go_put k v l))"
  by (simp add: go_set_def)

lemma go_set_make [simp]: "go_set (go_make m) k v = Inr (Some (go_put k v (entries m)))"
  by (simp add: go_set_def go_make_def)

lemma go_set_nil [simp]: "go_set None k v = Inl (Panic ''assignment to entry in nil map'')"
  by (simp add: go_set_def)

lemma go_get_del [simp]: "go_get (go_del k m) k' = (if k' = k then None else go_get m k')"
  by (cases m) (simp_all add: go_get_def go_del_def delete_conv')

lemma go_del_nil [simp]: "go_del k None = None" "go_del k m = None \<longleftrightarrow> m = None"
  by (simp_all add: go_del_def)

lemma wf_map_make [simp]: "wf_map (go_make m) = wf_map m"
  by (simp add: wf_map_def)

lemma wf_map_put [simp]: "wf_map (Some l) \<Longrightarrow> wf_map (Some (go_put k v l))"
  by (simp add: wf_map_def go_put_def distinct_update)

lemma wf_map_del [simp]: "wf_map m \<Longrightarrow> wf_map (go_del k m)"
  by (cases m) (simp_all add: wf_map_def go_del_def distinct_delete)

lemma go_get_in_entries: "go_get m k = Some v \<Longrightarrow> (k, v) \<in> set (entries m)"
  by (simp add: go_get_def map_of_SomeD)

lemma go_get_iff_entries: "wf_map m \<Longrightarrow> go_get m k = Some v \<longleftrightarrow> (k, v) \<in> set (entries m)"
  by (simp add: go_get_def wf_map_def)

lemma go_has_iff_key: "go_has m k \<longleftrightarrow> k \<in> fst ` set (entries m)"
  by (force simp: go_has_def go_get_def map_of_eq_None_iff)

lemma go_del_absent: "\<not> go_has m k \<Longrightarrow> go_del k m = m"
  by (cases m) (auto simp: go_del_def go_has_def go_get_def map_of_eq_None_iff delete_id)

lemma map_of_filter_key:
  "map_of (filter (\<lambda>(k, v). P k) l) k = (if P k then map_of l k else None)"
  by (induction l) auto

section \<open>The store interface\<close>

text \<open>
  What the loops of the controllers need from a map: a lookup, an assignment and a removal. A loop
  that assigns or removes one key per element leaves the other keys as they were.
\<close>

locale go_store =
  fixes lookup :: "'m \<Rightarrow> string \<Rightarrow> 'v option"
    and assign :: "string \<Rightarrow> 'v \<Rightarrow> 'm \<Rightarrow> 'm"
    and remove :: "string \<Rightarrow> 'm \<Rightarrow> 'm"
  assumes lookup_assign: "lookup (assign k v m) k' = (if k' = k then Some v else lookup m k')"
    and lookup_remove: "lookup (remove k m) k' = (if k' = k then None else lookup m k')"
begin

lemma lookup_assign_same [simp]: "lookup (assign k v m) k = Some v"
  by (simp add: lookup_assign)

lemma lookup_assign_other: "k' \<noteq> k \<Longrightarrow> lookup (assign k v m) k' = lookup m k'"
  by (simp add: lookup_assign)

lemma lookup_fold_assign:
  "lookup (fold (\<lambda>x. assign (f x) v) xs m) k = (if k \<in> f ` set xs then Some v else lookup m k)"
  by (induction xs arbitrary: m) (auto simp: lookup_assign)

lemma lookup_fold_remove:
  "lookup (fold (\<lambda>x. remove (f x)) xs m) k = (if k \<in> f ` set xs then None else lookup m k)"
  by (induction xs arbitrary: m) (auto simp: lookup_remove)

lemma lookup_fold_assign_if:
  "lookup (fold (\<lambda>x. if P x then assign (f x) v else id) xs m) k
     = (if k \<in> f ` {x \<in> set xs. P x} then Some v else lookup m k)"
  by (induction xs arbitrary: m) (auto simp: lookup_assign)

lemma lookup_fold_remove_if:
  "lookup (fold (\<lambda>x. if P x then remove (f x) else id) xs m) k
     = (if k \<in> f ` {x \<in> set xs. P x} then None else lookup m k)"
  by (induction xs arbitrary: m) (auto simp: lookup_remove)

lemma remove_assign_lookup: "lookup (remove k (assign k v m)) = lookup (remove k m)"
  by (simp add: fun_eq_iff lookup_remove lookup_assign)

end

interpretation gm: go_store "go_get :: 'v gomap \<Rightarrow> string \<Rightarrow> 'v option"
    "\<lambda>k v m. Some (go_put k v (entries m))" go_del
proof unfold_locales
  fix k k' :: string and v :: 'v and m :: "'v gomap"
  show "go_get (Some (go_put k v (entries m))) k' = (if k' = k then Some v else go_get m k')"
    by (cases m) simp_all
  show "go_get (go_del k m) k' = (if k' = k then None else go_get m k')"
    by simp
qed

section \<open>String prefixes and encoded keys\<close>

text \<open>\<open>strings.HasPrefix\<close> and \<open>strings.TrimPrefix\<close>.\<close>

definition has_prefix :: "string \<Rightarrow> string \<Rightarrow> bool" where
  "has_prefix s p = (take (length p) s = p)"

definition trim_prefix :: "string \<Rightarrow> string \<Rightarrow> string" where
  "trim_prefix s p = (if has_prefix s p then drop (length p) s else s)"

lemma has_prefix_append [simp]: "has_prefix (p @ s) p"
  by (simp add: has_prefix_def)

lemma trim_prefix_append [simp]: "trim_prefix (p @ s) p = s"
  by (simp add: trim_prefix_def)

lemma has_prefix_trim: "has_prefix s p \<Longrightarrow> p @ trim_prefix s p = s"
  by (metis append_take_drop_id has_prefix_def trim_prefix_def)

lemma has_prefix_iff: "has_prefix s p \<longleftrightarrow> (\<exists>t. s = p @ t)"
  by (metis has_prefix_append has_prefix_trim)

text \<open>
  The keys \<open>prefix + t\<close>: an encoder, its inverse and a recogniser. The loops that collect all
  decoded keys of a map, and the map of decoded keys, are characterised once.
\<close>

locale key_codec =
  fixes enc :: "string \<Rightarrow> string"
    and dec :: "string \<Rightarrow> string"
    and is_key :: "string \<Rightarrow> bool"
  assumes is_key_enc [simp]: "is_key (enc t)"
    and dec_enc [simp]: "dec (enc t) = t"
    and enc_dec: "is_key k \<Longrightarrow> enc (dec k) = k"
begin

lemma enc_inject [simp]: "enc s = enc t \<longleftrightarrow> s = t"
  by (metis dec_enc)

lemma enc_in_image [simp]: "enc t \<in> enc ` T \<longleftrightarrow> t \<in> T"
  by auto

lemma is_key_iff: "is_key k \<longleftrightarrow> (\<exists>t. k = enc t)"
  by (metis enc_dec is_key_enc)

lemma decoded_keys: "dec ` {k \<in> K. is_key k} = {t. enc t \<in> K}"
  by (force simp: is_key_iff)

lemma map_of_decoded:
  "map_of (map (\<lambda>(k, v). (dec k, v)) (filter (\<lambda>(k, v). is_key k) l)) t = map_of l (enc t)"
proof (induction l)
  case (Cons a l)
  obtain k v where a: "a = (k, v)" by fastforce
  show ?case
  proof (cases "is_key k")
    case True
    then have "dec k = t \<longleftrightarrow> k = enc t" by (metis dec_enc enc_dec)
    with Cons True a show ?thesis by auto
  next
    case False
    then have "k \<noteq> enc t" by auto
    with Cons False a show ?thesis by simp
  qed
qed simp

lemma distinct_decoded:
  "distinct (map fst l) \<Longrightarrow>
     distinct (map fst (map (\<lambda>(k, v). (dec k, v)) (filter (\<lambda>(k, v). is_key k) l)))"
proof (induction l)
  case (Cons a l)
  obtain k v where a: "a = (k, v)" by fastforce
  have "dec k \<notin> fst ` (\<lambda>(k, v). (dec k, v)) ` {x \<in> set l. case x of (k, v) \<Rightarrow> is_key k}"
    if "is_key k"
  proof
    assume "dec k \<in> fst ` (\<lambda>(k, v). (dec k, v)) ` {x \<in> set l. case x of (k, v) \<Rightarrow> is_key k}"
    then obtain k' v' where "(k', v') \<in> set l" "is_key k'" "dec k' = dec k" by auto
    with that have "k \<in> fst ` set l" by (metis enc_dec fst_conv image_eqI)
    with Cons.prems a show False by simp
  qed
  with Cons a show ?case by (simp add: image_image)
qed simp

text \<open>A loop that assigns the encoded key of each element that passes a test.\<close>

lemma map_of_put_loop:
  "map_of (fold (\<lambda>t m. if c t then go_put (enc t) (v t) m else m) ts m) k =
     (if is_key k \<and> dec k \<in> set ts \<and> c (dec k) then Some (v (dec k)) else map_of m k)"
proof (induction ts arbitrary: m)
  case (Cons t ts)
  have "k = enc t \<longleftrightarrow> is_key k \<and> dec k = t" by (metis dec_enc enc_dec is_key_enc)
  with Cons show ?case by (auto simp: go_put_def update_conv')
qed simp

text \<open>A loop over a map that collects the decoded keys, and one that collects the decoded map.\<close>

lemma set_collect_loop:
  "t \<in> set (fold (\<lambda>(k, v) acc. if is_key k \<and> P v then insert_into (dec k) acc else acc) es acc) \<longleftrightarrow>
     t \<in> set acc \<or> (\<exists>v. (enc t, v) \<in> set es \<and> P v)"
  if "\<And>x xs. set (insert_into x xs) = insert x (set xs)" for insert_into :: "string \<Rightarrow> string list \<Rightarrow> string list"
proof (induction es arbitrary: acc)
  case (Cons kv es)
  obtain k v where kv: "kv = (k, v)" by fastforce
  have "is_key k \<and> dec k = t \<longleftrightarrow> k = enc t" by (metis dec_enc enc_dec is_key_enc)
  with Cons kv that show ?case by auto
qed simp

lemma map_of_collect_loop:
  "distinct (map fst es) \<Longrightarrow>
   map_of (fold (\<lambda>(k, v) m. if is_key k then go_put (dec k) v m else m) es m) t =
     (case map_of es (enc t) of Some v \<Rightarrow> Some v | None \<Rightarrow> map_of m t)"
proof (induction es arbitrary: m)
  case (Cons kv es)
  obtain k v where kv: "kv = (k, v)" by fastforce
  have "is_key k \<and> dec k = t \<longleftrightarrow> k = enc t" by (metis dec_enc enc_dec is_key_enc)
  moreover have "k = enc t \<Longrightarrow> map_of es (enc t) = None" using Cons.prems kv by (simp add: map_of_eq_None_iff)
  ultimately show ?case using Cons kv by (auto simp: go_put_def update_conv' split: option.splits)
qed simp

end

lemma prefix_codec: "key_codec (\<lambda>t. p @ t) (\<lambda>k. trim_prefix k p) (\<lambda>k. has_prefix k p)"
  by unfold_locales (simp_all add: has_prefix_trim)

section \<open>Filters\<close>

lemma find_SomeD: "find P xs = Some x \<Longrightarrow> x \<in> set xs \<and> P x"
  by (auto simp: find_Some_iff in_set_conv_nth)

text \<open>
  The \<open>Filter*\<close> functions of the sources append the elements that pass a test to a fresh slice: they
  keep the order of the input. What their callers rely on is stated once.
\<close>

locale stable_filter =
  fixes flt :: "'a list \<Rightarrow> 'a list"
    and keeps :: "'a \<Rightarrow> bool"
  assumes flt_def: "flt xs = filter keeps xs"
begin

lemma set_flt: "set (flt xs) = {x \<in> set xs. keeps x}"
  by (simp add: flt_def)

lemma flt_empty_iff: "flt xs = [] \<longleftrightarrow> (\<forall>x \<in> set xs. \<not> keeps x)"
  by (simp add: flt_def filter_empty_conv)

lemma flt_idem: "flt (flt xs) = flt xs"
  by (simp add: flt_def)

lemma length_flt: "length (flt xs) \<le> length xs"
  by (simp add: flt_def)

lemma flt_commute: "flt (filter Q xs) = filter Q (flt xs)"
  by (simp add: flt_def conj_commute)

end

text \<open>\<open>strings.Join\<close>.\<close>

fun join :: "string \<Rightarrow> string list \<Rightarrow> string" where
  "join sep [] = []"
| "join sep [x] = x"
| "join sep (x # y # xs) = x @ sep @ join sep (y # xs)"

text \<open>\<open>strings.SplitN\<close> with a separator of one character.\<close>

fun splitN :: "char \<Rightarrow> nat \<Rightarrow> string \<Rightarrow> string list" where
  "splitN sep 0 s = []"
| "splitN sep (Suc 0) s = [s]"
| "splitN sep (Suc (Suc n)) s =
     (case dropWhile (\<lambda>c. c \<noteq> sep) s of [] \<Rightarrow> [s]
      | _ # rest \<Rightarrow> takeWhile (\<lambda>c. c \<noteq> sep) s # splitN sep (Suc n) rest)"

lemma splitN_step: "sep \<notin> set a \<Longrightarrow> splitN sep (Suc (Suc n)) (a @ sep # s) = a # splitN sep (Suc n) s"
proof -
  assume "sep \<notin> set a"
  then have "dropWhile (\<lambda>c. c \<noteq> sep) (a @ sep # s) = sep # s" "takeWhile (\<lambda>c. c \<noteq> sep) (a @ sep # s) = a"
    by (induction a) auto
  then show ?thesis by simp
qed

text \<open>\<open>strings.Split\<close> with a separator of one character.\<close>

fun splitOn :: "char \<Rightarrow> string \<Rightarrow> string list" where
  "splitOn sep [] = [[]]"
| "splitOn sep (c # cs) =
     (if c = sep then [] # splitOn sep cs
      else (case splitOn sep cs of [] \<Rightarrow> [[c]] | p # ps \<Rightarrow> (c # p) # ps))"

section \<open>Sets and random choice\<close>

text \<open>
  A \<open>sets.Set[string]\<close> that is iterated over is a list without duplicates, in one of its iteration
  orders; \<open>rand.Intn(n)\<close> is a draw reduced to the range below \<open>n\<close>, so every value of the range comes
  from some draw.
\<close>

definition set_insert :: "'a \<Rightarrow> 'a list \<Rightarrow> 'a list" where
  "set_insert x xs = (if x \<in> set xs then xs else xs @ [x])"

definition rand_Intn :: "nat \<Rightarrow> nat \<Rightarrow> nat" where
  "rand_Intn draw n = draw mod n"

lemma set_set_insert [simp]: "set (set_insert x xs) = insert x (set xs)"
  by (auto simp: set_insert_def)

lemma distinct_set_insert [simp]: "distinct xs \<Longrightarrow> distinct (set_insert x xs)"
  by (simp add: set_insert_def)

lemma set_fold_insert_if:
  "set (fold (\<lambda>x acc. if P x then set_insert (f x) acc else acc) xs acc) = set acc \<union> f ` {x \<in> set xs. P x}"
  by (induction xs arbitrary: acc) auto

lemma distinct_fold_insert_if:
  "distinct acc \<Longrightarrow> distinct (fold (\<lambda>x acc. if P x then set_insert (f x) acc else acc) xs acc)"
  by (induction xs arbitrary: acc) auto

lemma rand_choice_mem: "xs \<noteq> [] \<Longrightarrow> xs ! rand_Intn draw (length xs) \<in> set xs"
  by (simp add: rand_Intn_def)

section \<open>Instants and durations\<close>

text \<open>
  A \<open>time.Time\<close> is the number of nanoseconds since Go's zero time, so the zero time is 0; a
  \<open>time.Duration\<close> is a signed 64-bit number of nanoseconds. \<open>Sub\<close> saturates at the ends of the
  duration range, as the standard library documents.
\<close>

type_synonym time = int
type_synonym duration = int

definition second :: duration where
  "second = 1000000000"

definition max_duration :: duration where
  "max_duration = 9223372036854775807"

definition time_sub :: "time \<Rightarrow> time \<Rightarrow> duration" where
  "time_sub t u = max (- max_duration - 1) (min max_duration (t - u))"

text \<open>
  \<open>time.RFC3339\<close> formatting and parsing: the two functions of the standard library are parameters
  of the definitions that use them. \<open>rfc3339_laws\<close> is what the code relies on: what one controller
  formats, another parses back to the second, for the years the layout can
  write. \<open>time.Parse\<close> returns the zero time with its error.
\<close>

record rfc3339 =
  fmt_time :: "time \<Rightarrow> string"
  parse_time :: "string \<Rightarrow> go_error + time"

definition year_10000 :: time where
  "year_10000 = 315537897600 * second"

definition rfc3339_laws :: "rfc3339 \<Rightarrow> bool" where
  "rfc3339_laws r \<longleftrightarrow>
     (\<forall>t. 0 \<le> t \<and> t < year_10000 \<longrightarrow> parse_time r (fmt_time r t) = Inr (second * (t div second)))
     \<and> (\<forall>t. 0 \<le> t \<and> t < year_10000 \<longrightarrow> fmt_time r t \<noteq> [])"

definition parsed_or_zero :: "rfc3339 \<Rightarrow> string \<Rightarrow> time" where
  "parsed_or_zero r s = (case parse_time r s of Inl _ \<Rightarrow> 0 | Inr t \<Rightarrow> t)"

lemma time_sub_bounds: "- max_duration - 1 \<le> time_sub t u" "time_sub t u \<le> max_duration"
  by (simp_all add: time_sub_def max_duration_def)

lemma time_sub_pos: "0 < time_sub t u \<longleftrightarrow> u < t"
  by (auto simp: time_sub_def max_duration_def)

lemma bindE_simps [simp]: "bindE (Inl e) f = Inl e" "bindE (Inr x) f = f x"
  by (simp_all add: bindE_def)

lemma bindE_Inr: "bindE m f = Inr y \<longleftrightarrow> (\<exists>x. m = Inr x \<and> f x = Inr y)"
  by (cases m) simp_all

end
