(* ===== verification/API_Types.thy ===== *)
theory API_Types
  imports TMC_Prelude "HOL-Library.Word"
begin

text \<open>
  The API objects of the program, from \<^verbatim>\<open>src/apis\<close>: the label and annotation keys with their
  prefixes, object metadata, conditions, label selectors, \<open>SyncTarget\<close>, \<open>Location\<close>, \<open>Placement\<close> and
  the upstream \<open>Namespace\<close>. The metadata record is extended by every object type, so a function on
  \<open>'a object_meta_scheme\<close> is a function on the \<open>metav1.Object\<close> interface.

  Third-party code is a parameter: the record \<open>cond_lib\<close> stands for the \<open>conditions\<close> helper package
  and \<open>selector_lib\<close> for \<open>metav1.LabelSelectorAsSelector\<close>. The predicates \<open>cond_laws\<close> and
  \<open>summary_laws\<close> state the documented behaviour that some of the theorems rely on.
\<close>

section \<open>Keys\<close>

definition ResourceStatePending :: string where "ResourceStatePending = ''''"
definition ResourceStateSync :: string where "ResourceStateSync = ''Sync''"
definition ResourceStateUpsync :: string where "ResourceStateUpsync = ''Upsync''"

definition InternalClusterDeletionTimestampAnnotationPrefix :: string where
  "InternalClusterDeletionTimestampAnnotationPrefix = ''deletion.internal.workload.kcp.io/''"
definition ClusterFinalizerAnnotationPrefix :: string where
  "ClusterFinalizerAnnotationPrefix = ''finalizers.workload.kcp.io/''"
definition ClusterResourceStateLabelPrefix :: string where
  "ClusterResourceStateLabelPrefix = ''state.workload.kcp.io/''"
definition InternalSyncerViewAnnotationPrefix :: string where
  "InternalSyncerViewAnnotationPrefix = ''diff.syncer.internal.kcp.io/''"
definition InternalClusterStatusAnnotationPrefix :: string where
  "InternalClusterStatusAnnotationPrefix = ''experimental.status.workload.kcp.io/''"
definition ClusterSpecDiffAnnotationPrefix :: string where
  "ClusterSpecDiffAnnotationPrefix = ''experimental.spec-diff.workload.kcp.io/''"
definition InternalDownstreamClusterLabel :: string where
  "InternalDownstreamClusterLabel = ''internal.workload.kcp.io/cluster''"
definition InternalSyncTargetPlacementAnnotationKey :: string where
  "InternalSyncTargetPlacementAnnotationKey = ''internal.workload.kcp.io/synctarget''"
definition InternalSyncTargetKeyLabel :: string where
  "InternalSyncTargetKeyLabel = ''internal.workload.kcp.io/key''"
definition ComputeAPIExportAnnotationKey :: string where
  "ComputeAPIExportAnnotationKey = ''extra.apis.kcp.io/compute.workload.kcp.io''"
definition SyncerFinalizerNamePrefix :: string where
  "SyncerFinalizerNamePrefix = ''workload.kcp.io/syncer-''"
definition PlacementAnnotationKey :: string where
  "PlacementAnnotationKey = ''scheduling.kcp.io/placement''"
definition LocationLabelsStringAnnotationKey :: string where
  "LocationLabelsStringAnnotationKey = ''scheduling.kcp.io/labels''"

text \<open>The keys built from a sync target key.\<close>

abbreviation state_label :: "string \<Rightarrow> string" where
  "state_label loc \<equiv> ClusterResourceStateLabelPrefix @ loc"
abbreviation deletion_annotation :: "string \<Rightarrow> string" where
  "deletion_annotation loc \<equiv> InternalClusterDeletionTimestampAnnotationPrefix @ loc"
abbreviation finalizer_annotation :: "string \<Rightarrow> string" where
  "finalizer_annotation loc \<equiv> ClusterFinalizerAnnotationPrefix @ loc"
abbreviation syncer_finalizer :: "string \<Rightarrow> string" where
  "syncer_finalizer loc \<equiv> SyncerFinalizerNamePrefix @ loc"

section \<open>Metadata, conditions, selectors\<close>

record object_meta =
  Name :: string
  Namespace :: string
  Cluster :: string          \<comment> \<open>what \<open>logicalcluster.From\<close> returns for the object\<close>
  UID :: string
  ResourceVersion :: string
  Labels :: smap
  Annotations :: smap
  Finalizers :: "string list"
  OwnerReferences :: "string list"
  DeletionTimestamp :: "time option"

record condition =
  c_Type :: string
  c_Status :: string
  c_Severity :: string
  c_LastTransitionTime :: time
  c_Reason :: string
  c_Message :: string

type_synonym conditions = "condition list"

definition ConditionSeverityError :: string where "ConditionSeverityError = ''Error''"
definition ConditionSeverityWarning :: string where "ConditionSeverityWarning = ''Warning''"
definition ConditionSeverityNone :: string where "ConditionSeverityNone = ''''"
definition ReadyCondition :: string where "ReadyCondition = ''Ready''"

record cond_lib =
  IsTrue :: "conditions \<Rightarrow> string \<Rightarrow> bool"
  IsFalse :: "conditions \<Rightarrow> string \<Rightarrow> bool"
  MarkTrue :: "string \<Rightarrow> conditions \<Rightarrow> conditions"
  MarkFalse :: "string \<Rightarrow> string \<Rightarrow> string \<Rightarrow> string \<Rightarrow> conditions \<Rightarrow> conditions"
  SetSummary :: "string list \<Rightarrow> conditions \<Rightarrow> conditions"

definition cond_laws :: "cond_lib \<Rightarrow> bool" where
  "cond_laws cl \<longleftrightarrow>
     (\<forall>t cs. IsTrue cl (MarkTrue cl t cs) t \<and> \<not> IsFalse cl (MarkTrue cl t cs) t)
   \<and> (\<forall>t r s m cs. IsFalse cl (MarkFalse cl t r s m cs) t \<and> \<not> IsTrue cl (MarkFalse cl t r s m cs) t)
   \<and> (\<forall>t t' cs. t' \<noteq> t \<longrightarrow> IsTrue cl (MarkTrue cl t cs) t' = IsTrue cl cs t'
        \<and> IsFalse cl (MarkTrue cl t cs) t' = IsFalse cl cs t')
   \<and> (\<forall>t t' r s m cs. t' \<noteq> t \<longrightarrow> IsTrue cl (MarkFalse cl t r s m cs) t' = IsTrue cl cs t'
        \<and> IsFalse cl (MarkFalse cl t r s m cs) t' = IsFalse cl cs t')"

definition summary_laws :: "cond_lib \<Rightarrow> bool" where
  "summary_laws cl \<longleftrightarrow>
     (\<forall>ts cs. (\<exists>t \<in> set ts. IsFalse cl cs t) \<longrightarrow> \<not> IsTrue cl (SetSummary cl ts cs) ReadyCondition)
   \<and> (\<forall>ts cs. ts \<noteq> [] \<and> (\<forall>t \<in> set ts. IsTrue cl cs t) \<longrightarrow> IsTrue cl (SetSummary cl ts cs) ReadyCondition)
   \<and> (\<forall>ts cs t. t \<noteq> ReadyCondition \<longrightarrow> IsTrue cl (SetSummary cl ts cs) t = IsTrue cl cs t
        \<and> IsFalse cl (SetSummary cl ts cs) t = IsFalse cl cs t)"

record label_requirement =
  lr_Key :: string
  lr_Operator :: string
  lr_Values :: "string list"

record label_selector =
  MatchLabels :: smap
  MatchExpressions :: "label_requirement list"

text \<open>\<open>metav1.LabelSelectorAsSelector\<close> on a possibly nil selector: an error or the \<open>Matches\<close> test.\<close>

type_synonym selector_lib = "label_selector option \<Rightarrow> go_error + (smap \<Rightarrow> bool)"

section \<open>Sync targets\<close>

record group_resource =
  gr_Group :: string
  gr_Resource :: string

text \<open>An \<open>APIExport\<close> of kcp, with the fields that are read.\<close>

record api_export = object_meta +
  LatestResourceSchemas :: "string list"
  ae_IdentityHash :: string

definition ResourceSchemaPendingState :: string where "ResourceSchemaPendingState = ''Pending''"
definition ResourceSchemaAcceptedState :: string where "ResourceSchemaAcceptedState = ''Accepted''"
definition ResourceSchemaIncompatibleState :: string where
  "ResourceSchemaIncompatibleState = ''Incompatible''"

record resource_to_sync =
  rs_GroupResource :: group_resource
  rs_Versions :: "string list"
  rs_IdentityHash :: string
  rs_State :: string

record export_reference =
  er_Path :: string
  er_Export :: string

record virtual_workspace =
  SyncerURL :: string
  UpsyncerURL :: string

record sync_target_spec =
  Unschedulable :: bool
  EvictAfter :: "time option"
  SupportedAPIExports :: "export_reference list"
  Cells :: smap

record sync_target_status =
  st_Conditions :: conditions
  SyncedResources :: "resource_to_sync list"
  LastSyncerHeartbeatTime :: "time option"
  VirtualWorkspaces :: "virtual_workspace list"
  TunnelWorkspaces :: "string list"

record sync_target = object_meta +
  st_Spec :: sync_target_spec
  st_Status :: sync_target_status

definition SyncerReady :: string where "SyncerReady = ''SyncerReady''"
definition APIImporterReady :: string where "APIImporterReady = ''APIImporterReady''"
definition HeartbeatHealthy :: string where "HeartbeatHealthy = ''HeartbeatHealthy''"
definition ErrorHeartbeatMissedReason :: string where "ErrorHeartbeatMissedReason = ''ErrorHeartbeat''"

section \<open>Locations and placements\<close>

record gvr =
  gvr_Group :: string
  gvr_Version :: string
  gvr_Resource :: string

record location_spec =
  l_Resource :: gvr
  l_Description :: string
  InstanceSelector :: "label_selector option"

record location_status =
  Instances :: "32 word option"
  AvailableInstances :: "32 word option"

record location = object_meta +
  l_Spec :: location_spec
  l_Status :: location_status

record location_reference =
  lref_Path :: string
  lref_LocationName :: string

datatype placement_phase = PlacementPending | PlacementUnbound | PlacementBound | OtherPhase string

record placement_spec =
  LocationSelectors :: "label_selector list"
  LocationResource :: gvr
  NamespaceSelector :: "label_selector option"
  LocationWorkspace :: string

record placement_status =
  Phase :: placement_phase
  SelectedLocation :: "location_reference option"
  p_Conditions :: conditions

record placement = object_meta +
  p_Spec :: placement_spec
  p_Status :: placement_status

definition PlacementReady :: string where "PlacementReady = ''Ready''"
definition PlacementScheduled :: string where "PlacementScheduled = ''Scheduled''"
definition LocationNotFoundReason :: string where "LocationNotFoundReason = ''LocationNotFound''"
definition LocationInvalidReason :: string where "LocationInvalidReason = ''LocationInvalid''"
definition LocationNotMatchReason :: string where "LocationNotMatchReason = ''LocationNoMatch''"
definition ScheduleLocationNotFound :: string where "ScheduleLocationNotFound = ''ScheduleLocationNotFound''"
definition ScheduleNoValidTargetReason :: string where "ScheduleNoValidTargetReason = ''NoValidTarget''"

text \<open>\<open>SetConditions\<close> composed with \<open>GetConditions\<close>: a helper's change of the condition list.\<close>

definition on_placement_conditions :: "(conditions \<Rightarrow> conditions) \<Rightarrow> placement \<Rightarrow> placement" where
  "on_placement_conditions f p = p\<lparr>p_Status := (p_Status p)\<lparr>p_Conditions := f (p_Conditions (p_Status p))\<rparr>\<rparr>"

definition on_sync_target_conditions :: "(conditions \<Rightarrow> conditions) \<Rightarrow> sync_target \<Rightarrow> sync_target" where
  "on_sync_target_conditions f st = st\<lparr>st_Status := (st_Status st)\<lparr>st_Conditions := f (st_Conditions (st_Status st))\<rparr>\<rparr>"

section \<open>Namespaces\<close>

record namespace_condition =
  nc_Type :: string
  nc_Status :: string
  nc_LastTransitionTime :: time
  nc_Reason :: string
  nc_Message :: string

record namespace_status =
  ns_Phase :: string
  ns_Conditions :: "namespace_condition list"

record namespace = object_meta +
  ns_Spec :: "string list"      \<comment> \<open>\<open>NamespaceSpec.Finalizers\<close>\<close>
  ns_Status :: namespace_status

section \<open>Facts about the keys\<close>

interpretation state_key: key_codec "\<lambda>loc. state_label loc"
    "\<lambda>k. trim_prefix k ClusterResourceStateLabelPrefix" "\<lambda>k. has_prefix k ClusterResourceStateLabelPrefix"
  by (rule prefix_codec)

interpretation deletion_key: key_codec "\<lambda>loc. deletion_annotation loc"
    "\<lambda>k. trim_prefix k InternalClusterDeletionTimestampAnnotationPrefix"
    "\<lambda>k. has_prefix k InternalClusterDeletionTimestampAnnotationPrefix"
  by (rule prefix_codec)

interpretation finalizer_key: key_codec "\<lambda>loc. syncer_finalizer loc"
    "\<lambda>k. trim_prefix k SyncerFinalizerNamePrefix" "\<lambda>k. has_prefix k SyncerFinalizerNamePrefix"
  by (rule prefix_codec)

lemmas key_prefix_defs =
  InternalClusterDeletionTimestampAnnotationPrefix_def ClusterFinalizerAnnotationPrefix_def
  ClusterResourceStateLabelPrefix_def InternalSyncerViewAnnotationPrefix_def
  InternalClusterStatusAnnotationPrefix_def ClusterSpecDiffAnnotationPrefix_def
  InternalDownstreamClusterLabel_def InternalSyncTargetPlacementAnnotationKey_def
  InternalSyncTargetKeyLabel_def SyncerFinalizerNamePrefix_def PlacementAnnotationKey_def
  ComputeAPIExportAnnotationKey_def LocationLabelsStringAnnotationKey_def

lemma deletion_neq_placement [simp, key_simps]:
  "deletion_annotation loc \<noteq> PlacementAnnotationKey" "PlacementAnnotationKey \<noteq> deletion_annotation loc"
  by (simp_all add: key_prefix_defs)

lemma placement_not_deletion_image [simp, key_simps]:
  "PlacementAnnotationKey \<notin> (@) InternalClusterDeletionTimestampAnnotationPrefix ` S"
  by auto

lemma resource_states_distinct [simp]:
  "ResourceStateSync \<noteq> ResourceStateUpsync" "ResourceStateSync \<noteq> []" "ResourceStateUpsync \<noteq> []"
  "ResourceStatePending = []"
  by (simp_all add: ResourceStateSync_def ResourceStateUpsync_def ResourceStatePending_def)

lemma on_placement_conditions_sel [simp]:
  "Annotations (on_placement_conditions f p) = Annotations p"
  "Labels (on_placement_conditions f p) = Labels p"
  "object_meta.truncate (on_placement_conditions f p) = object_meta.truncate p"
  "p_Spec (on_placement_conditions f p) = p_Spec p"
  "Phase (p_Status (on_placement_conditions f p)) = Phase (p_Status p)"
  "SelectedLocation (p_Status (on_placement_conditions f p)) = SelectedLocation (p_Status p)"
  "p_Conditions (p_Status (on_placement_conditions f p)) = f (p_Conditions (p_Status p))"
  by (simp_all add: on_placement_conditions_def object_meta.defs)

lemma on_sync_target_conditions_sel [simp]:
  "object_meta.truncate (on_sync_target_conditions f st) = object_meta.truncate st"
  "st_Spec (on_sync_target_conditions f st) = st_Spec st"
  "st_Conditions (st_Status (on_sync_target_conditions f st)) = f (st_Conditions (st_Status st))"
  "SyncedResources (st_Status (on_sync_target_conditions f st)) = SyncedResources (st_Status st)"
  "LastSyncerHeartbeatTime (st_Status (on_sync_target_conditions f st)) = LastSyncerHeartbeatTime (st_Status st)"
  by (simp_all add: on_sync_target_conditions_def object_meta.defs)

lemma cond_lawsD:
  assumes "cond_laws cl"
  shows "IsTrue cl (MarkTrue cl t cs) t" "\<not> IsFalse cl (MarkTrue cl t cs) t"
    "IsFalse cl (MarkFalse cl t r s m cs) t" "\<not> IsTrue cl (MarkFalse cl t r s m cs) t"
  using assms by (simp_all add: cond_laws_def)

lemma cond_laws_other:
  assumes "cond_laws cl" "t' \<noteq> t"
  shows "IsTrue cl (MarkTrue cl t cs) t' = IsTrue cl cs t'" "IsFalse cl (MarkTrue cl t cs) t' = IsFalse cl cs t'"
    "IsTrue cl (MarkFalse cl t r s m cs) t' = IsTrue cl cs t'"
    "IsFalse cl (MarkFalse cl t r s m cs) t' = IsFalse cl cs t'"
  using assms by (simp_all add: cond_laws_def)

end
