(* ===== verification/Committer.thy ===== *)
theory Committer
  imports API_Types
begin

text \<open>
  \<^verbatim>\<open>src/pkg/reconciler/committer\<close>: the generic function that turns the difference between the object
  a controller read and the object its reconcilers produced into one merge patch. It panics when
  metadata or spec and status changed in the same iteration; \<open>one_sided_reconciler\<close> is the contract
  a controller has to meet to never reach that panic, and every controller theory interprets it.

  Parameters (record \<open>commit_lib\<close>): \<open>equality.Semantic.DeepEqual\<close> on the three parts, \<open>json.Marshal\<close>
  and \<open>jsonpatch.CreateMergePatch\<close>. Messages of wrapped errors leave out the cause. Pointers to spec and status are options, nil is \<open>None\<close>.
\<close>

section \<open>Committing a resource with a status\<close>

record ('sp, 'st) resource =
  r_ObjectMeta :: object_meta
  r_Spec :: "'sp option"
  r_Status :: "'st option"

record ('sp, 'st) commit_lib =
  eq_ObjectMeta :: "object_meta \<Rightarrow> object_meta \<Rightarrow> bool"
  eq_Spec :: "'sp option \<Rightarrow> 'sp option \<Rightarrow> bool"
  eq_Status :: "'st option \<Rightarrow> 'st option \<Rightarrow> bool"
  marshal :: "('sp, 'st) resource \<Rightarrow> go_error + string"
  CreateMergePatch :: "string \<Rightarrow> string \<Rightarrow> go_error + string"

definition eq_laws :: "('sp, 'st) commit_lib \<Rightarrow> bool" where
  "eq_laws L \<longleftrightarrow> (\<forall>x. eq_ObjectMeta L x x) \<and> (\<forall>x. eq_Spec L x x) \<and> (\<forall>x. eq_Status L x x)"

definition empty_meta :: object_meta where
  "empty_meta = \<lparr>Name = [], Namespace = [], Cluster = [], UID = [], ResourceVersion = [], Labels = None,
     Annotations = None, Finalizers = [], OwnerReferences = [], DeletionTimestamp = None\<rparr>"

text \<open>
  The closure \<open>forPatch\<close> of \<open>generatePatchAndSubResources\<close>: metadata and spec, or the status, but
  never both.
\<close>

definition forPatch :: "bool \<Rightarrow> ('sp, 'st) resource \<Rightarrow> ('sp, 'st) resource" where
  "forPatch specOrObjectMetaChanged r =
     (if specOrObjectMetaChanged
      then \<lparr>r_ObjectMeta = r_ObjectMeta r, r_Spec = r_Spec r, r_Status = None\<rparr>
      else \<lparr>r_ObjectMeta = empty_meta, r_Spec = None, r_Status = r_Status r\<rparr>)"

definition with_preconditions :: "string \<Rightarrow> string \<Rightarrow> ('sp, 'st) resource \<Rightarrow> ('sp, 'st) resource" where
  "with_preconditions uid rv r =
     r\<lparr>r_ObjectMeta := (r_ObjectMeta r)\<lparr>UID := uid, ResourceVersion := rv\<rparr>\<rparr>"

definition specOrObjectMetaChanged :: "('sp, 'st) commit_lib \<Rightarrow> ('sp, 'st) resource \<Rightarrow> ('sp, 'st) resource \<Rightarrow> bool" where
  "specOrObjectMetaChanged L old obj =
     (\<not> eq_Spec L (r_Spec old) (r_Spec obj) \<or> \<not> eq_ObjectMeta L (r_ObjectMeta old) (r_ObjectMeta obj))"

definition statusChanged :: "('sp, 'st) commit_lib \<Rightarrow> ('sp, 'st) resource \<Rightarrow> ('sp, 'st) resource \<Rightarrow> bool" where
  "statusChanged L old obj = (\<not> eq_Status L (r_Status old) (r_Status obj))"

text \<open>
  The result is the patch (empty for \<open>nil\<close>) with the list of subresources, which is always empty in
  the sources as they are.
\<close>

definition generatePatchAndSubResources ::
  "('sp, 'st) commit_lib \<Rightarrow> ('sp, 'st) resource \<Rightarrow> ('sp, 'st) resource \<Rightarrow> go_error + (string \<times> string list)" where
  "generatePatchAndSubResources L old obj =
     (let sm = specOrObjectMetaChanged L old obj; st = statusChanged L old obj in
      if sm \<and> st then Inl (Panic ''programmer error: spec and status changed in same reconcile iteration'')
      else if \<not> sm \<and> \<not> st then Inr ([], [])
      else
        bindE (marshal L (with_preconditions [] [] (forPatch sm old))) (\<lambda>oldData.
        bindE (marshal L (with_preconditions (UID (r_ObjectMeta old)) (ResourceVersion (r_ObjectMeta old))
                 (forPatch sm obj))) (\<lambda>newData.
        bindE (CreateMergePatch L oldData newData) (\<lambda>patchBytes. Inr (patchBytes, [])))))"

text \<open>
  The effect of a commit: the patch calls it issues (name, patch, subresources), at most one, and the
  error it returns. \<open>send\<close> is the answer of the API server to the call.
\<close>

type_synonym patch_call = "string \<times> string \<times> string list"

definition withPatchAndSubResources ::
  "('sp, 'st) commit_lib \<Rightarrow> string \<Rightarrow> (patch_call \<Rightarrow> go_error option) \<Rightarrow> ('sp, 'st) resource \<Rightarrow> ('sp, 'st) resource
     \<Rightarrow> patch_call list \<times> go_error option" where
  "withPatchAndSubResources L focusType send old obj =
     (case generatePatchAndSubResources L old obj of
        Inl (Panic m) \<Rightarrow> ([], Some (Panic m))
      | Inl e \<Rightarrow> ([], Some (Failure (''failed to create patch for '' @ focusType @ '' '' @ Name (r_ObjectMeta obj))))
      | Inr (patchBytes, subresources) \<Rightarrow>
          if patchBytes = [] then ([], None)
          else let call = (Name (r_ObjectMeta obj), patchBytes, subresources) in
            ([call], case send call of None \<Rightarrow> None
               | Some e \<Rightarrow> Some (Failure (''failed to patch '' @ focusType @ '' '' @ Name (r_ObjectMeta old)))))"

text \<open>
  \<open>NewCommitter\<close> addresses the cluster of the old object through a cluster-aware patcher,
  \<open>NewCommitterScoped\<close> uses the patcher it is given.
\<close>

definition NewCommitter ::
  "('sp, 'st) commit_lib \<Rightarrow> string \<Rightarrow> (string \<Rightarrow> patch_call \<Rightarrow> go_error option) \<Rightarrow> ('sp, 'st) resource \<Rightarrow> ('sp, 'st) resource
     \<Rightarrow> patch_call list \<times> go_error option" where
  "NewCommitter L focusType patcher old obj =
     withPatchAndSubResources L focusType (patcher (Cluster (r_ObjectMeta old))) old obj"

definition NewCommitterScoped ::
  "('sp, 'st) commit_lib \<Rightarrow> string \<Rightarrow> (patch_call \<Rightarrow> go_error option) \<Rightarrow> ('sp, 'st) resource \<Rightarrow> ('sp, 'st) resource
     \<Rightarrow> patch_call list \<times> go_error option" where
  "NewCommitterScoped L focusType patcher old obj = withPatchAndSubResources L focusType patcher old obj"

section \<open>Committing a resource without a status\<close>

record 'r statusless_lib =
  eq_Object :: "'r \<Rightarrow> 'r \<Rightarrow> bool"
  get_meta :: "'r \<Rightarrow> object_meta"
  set_preconditions :: "string \<Rightarrow> string \<Rightarrow> 'r \<Rightarrow> 'r"   \<comment> \<open>\<open>SetUID\<close> and \<open>SetResourceVersion\<close> on a shallow copy\<close>
  sl_marshal :: "'r \<Rightarrow> go_error + string"
  sl_CreateMergePatch :: "string \<Rightarrow> string \<Rightarrow> go_error + string"

definition generateStatusLessPatchAndSubResources :: "'r statusless_lib \<Rightarrow> 'r \<Rightarrow> 'r \<Rightarrow> go_error + string" where
  "generateStatusLessPatchAndSubResources L old obj =
     (if eq_Object L old obj then Inr []
      else
        bindE (sl_marshal L (set_preconditions L [] [] old)) (\<lambda>oldData.
        bindE (sl_marshal L (set_preconditions L (UID (get_meta L old)) (ResourceVersion (get_meta L old)) obj))
          (\<lambda>newData. sl_CreateMergePatch L oldData newData)))"

definition NewStatuslessCommitterScoped ::
  "'r statusless_lib \<Rightarrow> string \<Rightarrow> (patch_call \<Rightarrow> go_error option) \<Rightarrow> 'r \<Rightarrow> 'r \<Rightarrow> patch_call list \<times> go_error option" where
  "NewStatuslessCommitterScoped L focusType patcher old obj =
     (case generateStatusLessPatchAndSubResources L old obj of
        Inl e \<Rightarrow> ([], Some (Failure (''failed to create patch for '' @ focusType @ '' '' @ Name (get_meta L obj))))
      | Inr patchBytes \<Rightarrow>
          if patchBytes = [] then ([], None)
          else let call = (Name (get_meta L obj), patchBytes, []) in
            ([call], case patcher call of None \<Rightarrow> None
               | Some e \<Rightarrow> Some (Failure (''failed to patch '' @ focusType @ '' '' @ Cluster (get_meta L old)
                   @ ''|'' @ Name (get_meta L old)))))"

definition NewStatuslessCommitter ::
  "'r statusless_lib \<Rightarrow> string \<Rightarrow> (string \<Rightarrow> patch_call \<Rightarrow> go_error option) \<Rightarrow> 'r \<Rightarrow> 'r \<Rightarrow> patch_call list \<times> go_error option" where
  "NewStatuslessCommitter L focusType patcher old obj =
     NewStatuslessCommitterScoped L focusType (patcher (Cluster (get_meta L old))) old obj"

section \<open>Processing a work item\<close>

text \<open>
  The tail of every controller's \<open>process\<close>: the reconciled object is committed whatever error the
  reconcilers returned, and both errors are aggregated. \<open>Inl\<close> of the reconcile result is a panic.
\<close>

definition process_commit ::
  "('r \<Rightarrow> 'r \<Rightarrow> patch_call list \<times> go_error option) \<Rightarrow> ('o \<Rightarrow> 'r) \<Rightarrow> 'o \<Rightarrow> go_error + ('o \<times> go_error list)
     \<Rightarrow> patch_call list \<times> go_error list" where
  "process_commit commit to_resource old reconciled =
     (case reconciled of
        Inl p \<Rightarrow> ([], [p])
      | Inr (obj, errs) \<Rightarrow>
          (case commit (to_resource old) (to_resource obj) of (calls, err) \<Rightarrow>
             (calls, errs @ (case err of None \<Rightarrow> [] | Some e \<Rightarrow> [e]))))"

section \<open>Properties\<close>

lemma generate_panic_iff:
  "(\<forall>r e. marshal L r = Inl e \<longrightarrow> \<not> is_panic e) \<Longrightarrow> (\<forall>a b e. CreateMergePatch L a b = Inl e \<longrightarrow> \<not> is_panic e) \<Longrightarrow>
   (\<exists>m. generatePatchAndSubResources L old obj = Inl (Panic m)) \<longleftrightarrow>
     specOrObjectMetaChanged L old obj \<and> statusChanged L old obj"
  by (force simp: generatePatchAndSubResources_def bindE_def Let_def is_panic_def split: sum.splits)

lemma generate_no_subresources: "generatePatchAndSubResources L old obj = Inr (p, s) \<Longrightarrow> s = []"
  by (auto simp: generatePatchAndSubResources_def Let_def bindE_Inr split: if_splits)

lemma generate_unchanged:
  "\<not> specOrObjectMetaChanged L old obj \<Longrightarrow> \<not> statusChanged L old obj \<Longrightarrow>
     generatePatchAndSubResources L old obj = Inr ([], [])"
  by (simp add: generatePatchAndSubResources_def)

lemma commit_at_most_one: "length (fst (withPatchAndSubResources L ft send old obj)) \<le> 1"
  by (auto simp: withPatchAndSubResources_def Let_def split: sum.splits go_error.splits)

lemma commit_refl:
  "eq_laws L \<Longrightarrow> withPatchAndSubResources L ft send old old = ([], None)"
  by (simp add: withPatchAndSubResources_def generate_unchanged specOrObjectMetaChanged_def
      statusChanged_def eq_laws_def)

text \<open>What the documents of a patch contain: the changed half only, with the old identity.\<close>

lemma generate_documents:
  assumes "generatePatchAndSubResources L old obj = Inr (p, s)" "p \<noteq> []"
  shows "\<exists>o' n' d d'. marshal L o' = Inr d \<and> marshal L n' = Inr d' \<and> CreateMergePatch L d d' = Inr p
     \<and> UID (r_ObjectMeta o') = [] \<and> ResourceVersion (r_ObjectMeta o') = []
     \<and> UID (r_ObjectMeta n') = UID (r_ObjectMeta old)
     \<and> ResourceVersion (r_ObjectMeta n') = ResourceVersion (r_ObjectMeta old)
     \<and> (r_Status o' = None \<and> r_Status n' = None \<and> r_Spec n' = r_Spec obj
          \<and> Labels (r_ObjectMeta n') = Labels (r_ObjectMeta obj)
          \<and> Annotations (r_ObjectMeta n') = Annotations (r_ObjectMeta obj)
        \<or> r_Spec o' = None \<and> r_Spec n' = None \<and> r_Status n' = r_Status obj
          \<and> Labels (r_ObjectMeta n') = None \<and> Annotations (r_ObjectMeta n') = None)"
proof -
  define sm where "sm = specOrObjectMetaChanged L old obj"
  let ?o = "with_preconditions [] [] (forPatch sm old)"
  let ?n = "with_preconditions (UID (r_ObjectMeta old)) (ResourceVersion (r_ObjectMeta old)) (forPatch sm obj)"
  from assms obtain d d' where "marshal L ?o = Inr d" "marshal L ?n = Inr d'" "CreateMergePatch L d d' = Inr p"
    by (auto simp: generatePatchAndSubResources_def Let_def bindE_Inr sm_def split: if_splits)
  then show ?thesis
    by (intro exI [of _ ?o] exI [of _ ?n] exI [of _ d] exI [of _ d'])
       (auto simp: with_preconditions_def forPatch_def empty_meta_def)
qed

text \<open>
  The contract of a reconciler whose result is committed: one call changes the metadata and spec, or
  the status, never both.
\<close>

definition panic_free_lib :: "('sp, 'st) commit_lib \<Rightarrow> bool" where
  "panic_free_lib L \<longleftrightarrow> (\<forall>r e. marshal L r = Inl e \<longrightarrow> \<not> is_panic e)
     \<and> (\<forall>a b e. CreateMergePatch L a b = Inl e \<longrightarrow> \<not> is_panic e)"

locale one_sided_reconciler =
  fixes to_resource :: "'o \<Rightarrow> ('sp, 'st) resource"
    and reconciled :: "'o \<Rightarrow> go_error + ('o \<times> go_error list)"
  assumes one_sided: "reconciled old = Inr (obj, errs) \<Longrightarrow>
      (r_ObjectMeta (to_resource obj) = r_ObjectMeta (to_resource old)
         \<and> r_Spec (to_resource obj) = r_Spec (to_resource old))
      \<or> r_Status (to_resource obj) = r_Status (to_resource old)"
begin

lemma generate_never_panics:
  assumes "eq_laws L" "panic_free_lib L" "reconciled old = Inr (obj, errs)"
  shows "generatePatchAndSubResources L (to_resource old) (to_resource obj) \<noteq> Inl (Panic m)"
proof -
  have "\<not> (specOrObjectMetaChanged L (to_resource old) (to_resource obj)
           \<and> statusChanged L (to_resource old) (to_resource obj))"
    using one_sided [OF assms(3)] assms(1)
    by (auto simp: specOrObjectMetaChanged_def statusChanged_def eq_laws_def)
  moreover have "(\<exists>m. generatePatchAndSubResources L (to_resource old) (to_resource obj) = Inl (Panic m)) \<longleftrightarrow>
      specOrObjectMetaChanged L (to_resource old) (to_resource obj)
      \<and> statusChanged L (to_resource old) (to_resource obj)"
    using assms(2) by (intro generate_panic_iff) (simp_all add: panic_free_lib_def)
  ultimately show ?thesis by blast
qed

lemma commit_never_panics:
  assumes "eq_laws L" "panic_free_lib L" "reconciled old = Inr (obj, errs)"
  shows "snd (withPatchAndSubResources L ft send (to_resource old) (to_resource obj)) \<noteq> Some (Panic m)"
  using generate_never_panics [OF assms]
  by (auto simp: withPatchAndSubResources_def Let_def split: sum.splits go_error.splits option.splits)

lemma process_never_panics:
  assumes "eq_laws L" "panic_free_lib L" "\<And>p. reconciled old \<noteq> Inl p"
    and "\<And>obj errs e. reconciled old = Inr (obj, errs) \<Longrightarrow> e \<in> set errs \<Longrightarrow> \<not> is_panic e"
    and "e \<in> set (snd (process_commit (NewCommitter L ft patcher) to_resource old (reconciled old)))"
  shows "\<not> is_panic e"
proof -
  obtain obj errs where r: "reconciled old = Inr (obj, errs)"
    using assms(3) by (metis surj_pair obj_sumE)
  let ?c = "withPatchAndSubResources L ft (patcher (Cluster (r_ObjectMeta (to_resource old))))
      (to_resource old) (to_resource obj)"
  from assms(5) r consider "e \<in> set errs" | "snd ?c = Some e"
    by (auto simp: process_commit_def NewCommitter_def split: prod.splits option.splits)
  then show ?thesis
  proof cases
    case 1
    with assms(4) r show ?thesis by blast
  next
    case 2
    with commit_never_panics [OF assms(1,2) r] show ?thesis
      by (auto simp: is_panic_def split: go_error.splits)
  qed
qed

end

end
