(* ===== verification/Sync_Target_Key.thy ===== *)
theory Sync_Target_Key
  imports API_Types
begin

text \<open>
  \<^verbatim>\<open>src/apis/workload/v1alpha1/helpers.go\<close>: the sync target key, a SHA-224 hash in base 62. The hash
  function and the joining of workspace paths are parameters (record \<open>hash_lib\<close>); the conversion of
  the 28 bytes to text is modelled digit by digit, as \<open>big.Int.Text(62)\<close> writes it. The lemmas show
  that the text can be used as part of a label key, and that it determines the hash.
\<close>

record hash_lib =
  sha256_Sum224 :: "string \<Rightarrow> 8 word list"
  path_Join :: "string \<Rightarrow> string \<Rightarrow> string"

definition hash_laws :: "hash_lib \<Rightarrow> bool" where
  "hash_laws H \<longleftrightarrow> (\<forall>s. length (sha256_Sum224 H s) = 28)"

text \<open>\<open>big.Int.SetBytes\<close>: a big-endian unsigned number.\<close>

definition set_bytes :: "8 word list \<Rightarrow> nat" where
  "set_bytes bs = foldl (\<lambda>n b. n * 256 + unat b) 0 bs"

definition digits62 :: string where
  "digits62 = ''0123456789abcdefghijklmnopqrstuvwxyzABCDEFGHIJKLMNOPQRSTUVWXYZ''"

fun text62 :: "nat \<Rightarrow> string" where
  "text62 n = (if n < 62 then [digits62 ! n] else text62 (n div 62) @ [digits62 ! (n mod 62)])"

declare text62.simps [simp del]

definition toBase62 :: "8 word list \<Rightarrow> string" where
  "toBase62 hash = text62 (set_bytes hash)"

definition ToSyncTargetKey :: "hash_lib \<Rightarrow> string \<Rightarrow> string \<Rightarrow> string" where
  "ToSyncTargetKey H clusterName syncTargetName =
     toBase62 (sha256_Sum224 H (path_Join H clusterName syncTargetName))"

section \<open>Lemmas\<close>

definition value62 :: "char \<Rightarrow> nat" where
  "value62 c = length (takeWhile (\<lambda>d. d \<noteq> c) digits62)"

lemma value62_digit: "n < 62 \<Longrightarrow> value62 (digits62 ! n) = n"
proof -
  have "list_all (\<lambda>n. value62 (digits62 ! n) = n) [0..<62]" by code_simp
  then show "n < 62 \<Longrightarrow> value62 (digits62 ! n) = n" by (auto simp: list_all_iff)
qed

lemma length_digits62 [simp]: "length digits62 = 62"
  by (simp add: digits62_def)

lemma text62_decode: "foldl (\<lambda>n c. n * 62 + value62 c) 0 (text62 n) = n"
proof (induction n rule: text62.induct)
  case (1 n)
  show ?case
  proof (cases "n < 62")
    case True
    then show ?thesis by (simp add: text62.simps [of n] value62_digit)
  next
    case False
    with 1 have "foldl (\<lambda>n c. n * 62 + value62 c) 0 (text62 (n div 62)) = n div 62" by simp
    moreover have "n div 62 * 62 + n mod 62 = n" by simp
    ultimately show ?thesis using False by (simp add: text62.simps [of n] value62_digit)
  qed
qed

lemma text62_inject: "text62 m = text62 n \<longleftrightarrow> m = n"
  by (metis text62_decode)

lemma text62_chars: "set (text62 n) \<subseteq> set digits62"
proof (induction n rule: text62.induct)
  case (1 n)
  then show ?case by (cases "n < 62") (auto simp: text62.simps [of n])
qed

lemma text62_length: "n < 62 ^ k \<Longrightarrow> 0 < k \<Longrightarrow> length (text62 n) \<le> k"
proof (induction k arbitrary: n)
  case (Suc k)
  show ?case
  proof (cases "n < 62")
    case True
    then show ?thesis by (simp add: text62.simps [of n])
  next
    case False
    with Suc.prems(1) have "0 < k" by (cases k) simp_all
    moreover from Suc.prems(1) have "n div 62 < 62 ^ k" by (simp add: less_mult_imp_div_less mult.commute)
    ultimately have "length (text62 (n div 62)) \<le> k" using Suc.IH by simp
    with False show ?thesis by (simp add: text62.simps [of n])
  qed
qed simp

lemma text62_nonempty: "text62 n \<noteq> []"
  by (simp add: text62.simps [of n])

lemma unat_byte: "unat (b :: 8 word) < 256"
  using unsigned_less [of b] by simp

lemma set_bytes_snoc: "set_bytes (bs @ [b]) = set_bytes bs * 256 + unat b"
  by (simp add: set_bytes_def)

lemma set_bytes_bound: "set_bytes bs < 256 ^ length bs"
proof (induction bs rule: rev_induct)
  case (snoc b bs)
  then have "set_bytes bs * 256 + unat b < (set_bytes bs + 1) * 256" using unat_byte [of b] by simp
  also have "\<dots> \<le> 256 ^ length bs * 256" using snoc by (intro mult_le_mono1) simp
  finally show ?case by (simp add: set_bytes_snoc mult.commute)
qed (simp add: set_bytes_def)

lemma set_bytes_inject: "length bs = length cs \<Longrightarrow> set_bytes bs = set_bytes cs \<Longrightarrow> bs = cs"
proof (induction bs arbitrary: cs rule: rev_induct)
  case (snoc b bs)
  then obtain cs' c where cs: "cs = cs' @ [c]" by (cases cs rule: rev_cases) auto
  with snoc.prems(2) have eq: "set_bytes bs * 256 + unat b = set_bytes cs' * 256 + unat c"
    by (simp add: set_bytes_snoc)
  then have "(set_bytes bs * 256 + unat b) mod 256 = (set_bytes cs' * 256 + unat c) mod 256" by simp
  then have "unat b = unat c" using unat_byte [of b] unat_byte [of c] by simp
  moreover from this eq have "set_bytes bs = set_bytes cs'" by simp
  ultimately show ?case using snoc cs by (simp add: word_unat_eq_iff)
qed simp

section \<open>Properties\<close>

text \<open>
  A sync target key is a non-empty string of at most 38 letters and digits, so that it can stand
  after the prefix of a label or finalizer, and it determines the hash: two sync targets have the same
  key exactly when their hashes are equal.
\<close>

theorem sync_target_key_shape:
  assumes "hash_laws H"
  shows "ToSyncTargetKey H c n \<noteq> [] \<and> length (ToSyncTargetKey H c n) \<le> 38
    \<and> set (ToSyncTargetKey H c n) \<subseteq> set digits62
    \<and> (ToSyncTargetKey H c n = ToSyncTargetKey H c' n' \<longleftrightarrow>
         sha256_Sum224 H (path_Join H c n) = sha256_Sum224 H (path_Join H c' n'))"
proof -
  have len: "length (sha256_Sum224 H s) = 28" for s using assms by (simp add: hash_laws_def)
  have "set_bytes (sha256_Sum224 H s) < 62 ^ 38" for s
    using set_bytes_bound [of "sha256_Sum224 H s"] by (simp add: len)
  then show ?thesis
    by (auto simp: ToSyncTargetKey_def toBase62_def text62_nonempty text62_chars [THEN subsetD] text62_inject
        len intro: text62_length set_bytes_inject)
qed

end
