(* ===== verification/Model_Instances.thy ===== *)
theory Model_Instances
  imports Committer Sync_Target_Key
begin

text \<open>
  Concrete functions for the library parameters of the model, each with the laws the theorems assume
  of it: a condition list helper, a label selector that knows \<open>matchLabels\<close>, a layout of times with a
  resolution of a second, a digest of 28 bytes, and a commit library. The witnesses of the component
  theories evaluate the model at these functions.
\<close>

section \<open>Conditions\<close>

definition set_condition :: "condition \<Rightarrow> conditions \<Rightarrow> conditions" where
  "set_condition c cs = c # filter (\<lambda>d. c_Type d \<noteq> c_Type c) cs"

definition has_status :: "string \<Rightarrow> conditions \<Rightarrow> string \<Rightarrow> bool" where
  "has_status s cs t \<longleftrightarrow> (case find (\<lambda>c. c_Type c = t) cs of None \<Rightarrow> False | Some c \<Rightarrow> c_Status c = s)"

definition mk_condition :: "string \<Rightarrow> string \<Rightarrow> string \<Rightarrow> string \<Rightarrow> string \<Rightarrow> condition" where
  "mk_condition t s sev r m =
     \<lparr>c_Type = t, c_Status = s, c_Severity = sev, c_LastTransitionTime = 0, c_Reason = r, c_Message = m\<rparr>"

definition basic_conditions :: cond_lib where
  "basic_conditions =
     \<lparr>IsTrue = has_status ''True'', IsFalse = has_status ''False'',
      MarkTrue = (\<lambda>t. set_condition (mk_condition t ''True'' [] [] [])),
      MarkFalse = (\<lambda>t r s m. set_condition (mk_condition t ''False'' s r m)),
      SetSummary = (\<lambda>ts cs. set_condition
        (mk_condition ReadyCondition (if \<exists>t \<in> set ts. \<not> has_status ''True'' cs t then ''False'' else ''True'') [] [] []) cs)\<rparr>"

lemma has_status_set [simp]:
  "has_status s (set_condition c cs) t = (if t = c_Type c then c_Status c = s else has_status s cs t)"
proof -
  have "find (\<lambda>d. c_Type d = t) (filter (\<lambda>d. c_Type d \<noteq> c_Type c) cs) = find (\<lambda>d. c_Type d = t) cs"
    if "t \<noteq> c_Type c" using that by (induction cs) auto
  then show ?thesis by (auto simp: has_status_def set_condition_def)
qed

lemma has_status_exclusive: "has_status ''False'' cs t \<Longrightarrow> \<not> has_status ''True'' cs t"
  by (auto simp: has_status_def split: option.splits)

lemma basic_conditions_laws [simp]: "cond_laws basic_conditions" "summary_laws basic_conditions"
  by (auto simp: cond_laws_def summary_laws_def basic_conditions_def mk_condition_def dest: has_status_exclusive)

section \<open>Selectors, times, digests\<close>

definition basic_selector :: selector_lib where
  "basic_selector s =
     (case s of None \<Rightarrow> Inr (\<lambda>_. False)
      | Some sel \<Rightarrow>
          if MatchExpressions sel \<noteq> [] then Inl (Failure ''unsupported expression'')
          else Inr (\<lambda>labels. \<forall>(k, v) \<in> set (entries (MatchLabels sel)). go_get labels k = Some v))"

definition any_label :: label_selector where
  "any_label = \<lparr>MatchLabels = None, MatchExpressions = []\<rparr>"

definition basic_rfc3339 :: rfc3339 where
  "basic_rfc3339 =
     \<lparr>fmt_time = (\<lambda>t. replicate (Suc (nat (t div second))) CHR ''s''),
      parse_time = (\<lambda>s. if s = [] then Inl (Failure ''cannot parse'') else Inr (second * int (length s - 1)))\<rparr>"

lemma basic_rfc3339_laws [simp]: "rfc3339_laws basic_rfc3339"
  by (auto simp: rfc3339_laws_def basic_rfc3339_def second_def pos_imp_zdiv_nonneg_iff)

definition basic_hash :: hash_lib where
  "basic_hash = \<lparr>sha256_Sum224 = (\<lambda>s. replicate 27 0 @ [of_nat (length s)]), path_Join = (\<lambda>a b. a @ ''/'' @ b)\<rparr>"

lemma basic_hash_laws [simp]: "hash_laws basic_hash"
  by (simp add: hash_laws_def basic_hash_def)

theorem sync_target_key_shape_witness:
  "length (ToSyncTargetKey basic_hash ''root'' ''east'') \<le> 38
   \<and> ToSyncTargetKey basic_hash ''root'' ''east'' \<noteq> ToSyncTargetKey basic_hash ''root'' ''eastern''"
  using sync_target_key_shape [OF basic_hash_laws, of "''root''" "''east''" "''root''" "''eastern''"]
  by (simp add: basic_hash_def)

section \<open>Commits\<close>

definition basic_commit :: "('sp, 'st) commit_lib" where
  "basic_commit =
     \<lparr>eq_ObjectMeta = (=), eq_Spec = (=), eq_Status = (=),
      marshal = (\<lambda>r. Inr (Name (r_ObjectMeta r))), CreateMergePatch = (\<lambda>a b. Inr ''{}'')\<rparr>"

lemma basic_commit_laws [simp]: "eq_laws basic_commit" "panic_free_lib basic_commit"
  by (simp_all add: eq_laws_def panic_free_lib_def basic_commit_def)

section \<open>Objects\<close>

definition meta_named :: "string \<Rightarrow> string \<Rightarrow> object_meta" where
  "meta_named c n = empty_meta\<lparr>Cluster := c, Name := n, UID := n, ResourceVersion := ''1''\<rparr>"

definition ex_gvr :: gvr where
  "ex_gvr = \<lparr>gvr_Group = ''workload.kcp.io'', gvr_Version = ''v1alpha1'', gvr_Resource = ''synctargets''\<rparr>"

definition ex_location :: location where
  "ex_location = object_meta.extend (meta_named ''compute'' ''loc'')
     \<lparr>l_Spec = \<lparr>l_Resource = ex_gvr, l_Description = [], InstanceSelector = Some any_label\<rparr>,
      l_Status = \<lparr>Instances = None, AvailableInstances = None\<rparr>\<rparr>"

definition ex_target :: sync_target where
  "ex_target = object_meta.extend (meta_named ''compute'' ''east'')
     \<lparr>st_Spec = \<lparr>Unschedulable = False, EvictAfter = None, SupportedAPIExports = [], Cells = None\<rparr>,
      st_Status = \<lparr>st_Conditions = [mk_condition ReadyCondition ''True'' [] [] []], SyncedResources = [],
        LastSyncerHeartbeatTime = None, VirtualWorkspaces = [], TunnelWorkspaces = []\<rparr>\<rparr>"

definition ex_placement :: "placement_phase \<Rightarrow> location_reference option \<Rightarrow> smap \<Rightarrow> placement" where
  "ex_placement ph ref anns = object_meta.extend ((meta_named ''user'' ''pl'')\<lparr>Annotations := anns\<rparr>)
     \<lparr>p_Spec = \<lparr>LocationSelectors = [any_label], LocationResource = ex_gvr,
        NamespaceSelector = Some any_label, LocationWorkspace = []\<rparr>,
      p_Status = \<lparr>Phase = ph, SelectedLocation = ref, p_Conditions = []\<rparr>\<rparr>"

definition ex_namespace :: "smap \<Rightarrow> smap \<Rightarrow> namespace" where
  "ex_namespace labels anns = object_meta.extend ((meta_named ''user'' ''ns'')\<lparr>Labels := labels, Annotations := anns\<rparr>)
     \<lparr>ns_Spec = [], ns_Status = \<lparr>ns_Phase = ''Active'', ns_Conditions = []\<rparr>\<rparr>"

lemmas ex_object_defs = meta_named_def empty_meta_def ex_gvr_def ex_location_def ex_target_def ex_placement_def
  ex_namespace_def object_meta.defs

lemmas instance_defs = basic_conditions_def basic_selector_def any_label_def mk_condition_def
  basic_rfc3339_def basic_commit_def

end
