(* ===== verification/Location_Status.thy ===== *)
theory Location_Status
  imports Model_Instances
begin

text \<open>
  \<^verbatim>\<open>src/pkg/reconciler/scheduling/location\<close>: which sync targets belong to a location, which of them
  are ready and not evicting, and the controller that publishes the two counts in the location's
  status and the label string in its annotation.

  \<open>location_reconcile\<close> returns the object as the caller of \<open>reconcile\<close> sees it: after a successful
  \<open>updateLocation\<close> the Go variable \<open>location\<close> points to the server's answer, so the status computed
  afterwards is stored in an object that nothing reads.
\<close>

section \<open>Selecting sync targets\<close>

definition LocationSyncTargets :: "selector_lib \<Rightarrow> sync_target list \<Rightarrow> location \<Rightarrow> go_error + sync_target list" where
  "LocationSyncTargets sel syncTargets loc =
     (case sel (InstanceSelector (l_Spec loc)) of
        Inl e \<Rightarrow> Inl (Failure (''failed to parse label selector in location '' @ Name loc))
      | Inr matches \<Rightarrow> Inr (filter (\<lambda>wc. matches (Labels wc)) syncTargets))"

definition is_ready :: "cond_lib \<Rightarrow> sync_target \<Rightarrow> bool" where
  "is_ready cl wc = (IsTrue cl (st_Conditions (st_Status wc)) ReadyCondition \<and> \<not> Unschedulable (st_Spec wc))"

fun FilterReady :: "cond_lib \<Rightarrow> sync_target list \<Rightarrow> sync_target list" where
  "FilterReady cl [] = []"
| "FilterReady cl (wc # wcs) = (if is_ready cl wc then wc # FilterReady cl wcs else FilterReady cl wcs)"

definition non_evicting :: "time \<Rightarrow> sync_target \<Rightarrow> bool" where
  "non_evicting now wc = (case EvictAfter (st_Spec wc) of None \<Rightarrow> True | Some t \<Rightarrow> now < t)"

fun FilterNonEvicting :: "time \<Rightarrow> sync_target list \<Rightarrow> sync_target list" where
  "FilterNonEvicting now [] = []"
| "FilterNonEvicting now (wc # wcs) =
     (if non_evicting now wc then wc # FilterNonEvicting now wcs else FilterNonEvicting now wcs)"

section \<open>The status reconciler\<close>

datatype reconcile_status = Stop | Continue

definition location_label_string :: "smap \<Rightarrow> string" where
  "location_label_string labels =
     join '' '' (map (\<lambda>k. k @ ''='' @ go_str labels k) (sort (map fst (entries labels))))"

definition uInt32 :: "nat \<Rightarrow> 32 word option" where
  "uInt32 n = Some (of_nat n)"

definition with_counts :: "cond_lib \<Rightarrow> sync_target list \<Rightarrow> location \<Rightarrow> location" where
  "with_counts cl locationClusters loc =
     loc\<lparr>l_Status := (l_Status loc)\<lparr>Instances := uInt32 (length locationClusters),
           AvailableInstances := uInt32 (length (FilterReady cl locationClusters))\<rparr>\<rparr>"

text \<open>
  The result: the reconcile status, the caller's object, the locations sent with \<open>Update\<close>, and the
  error.
\<close>

definition statusReconciler_reconcile ::
  "cond_lib \<Rightarrow> selector_lib \<Rightarrow> (string \<Rightarrow> go_error + sync_target list) \<Rightarrow> (location \<Rightarrow> go_error + location)
     \<Rightarrow> location \<Rightarrow> reconcile_status \<times> location \<times> location list \<times> go_error option" where
  "statusReconciler_reconcile cl sel listSyncTargets updateLocation loc =
     (case listSyncTargets (Cluster loc) of
        Inl e \<Rightarrow> (Stop, loc, [], Some e)
      | Inr syncTargets \<Rightarrow>
          (let labelString = location_label_string (Labels loc) in
           if labelString \<noteq> go_str (Annotations loc) LocationLabelsStringAnnotationKey
           then
             (let annotated = loc\<lparr>Annotations :=
                    Some (go_put LocationLabelsStringAnnotationKey labelString (entries (Annotations loc)))\<rparr> in
              case updateLocation annotated of
                Inl e \<Rightarrow> (Stop, annotated, [annotated], Some e)
              | Inr updated \<Rightarrow>
                  (case LocationSyncTargets sel syncTargets updated of
                     Inl e \<Rightarrow> (Stop, annotated, [annotated], Some e)
                   | Inr locationClusters \<Rightarrow> (Continue, annotated, [annotated], None)))
           else
             (case LocationSyncTargets sel syncTargets loc of
                Inl e \<Rightarrow> (Stop, loc, [], Some e)
              | Inr locationClusters \<Rightarrow> (Continue, with_counts cl locationClusters loc, [], None))))"

text \<open>\<open>controller.reconcile\<close>, with its single reconciler, as \<open>process\<close> uses it.\<close>

definition location_reconcile ::
  "cond_lib \<Rightarrow> selector_lib \<Rightarrow> (string \<Rightarrow> go_error + sync_target list) \<Rightarrow> (location \<Rightarrow> go_error + location)
     \<Rightarrow> location \<Rightarrow> go_error + (location \<times> go_error list)" where
  "location_reconcile cl sel listSyncTargets updateLocation loc =
     (case statusReconciler_reconcile cl sel listSyncTargets updateLocation loc of
        (_, loc', _, err) \<Rightarrow> Inr (loc', case err of None \<Rightarrow> [] | Some e \<Rightarrow> [e]))"

definition location_resource :: "location \<Rightarrow> (location_spec, location_status) resource" where
  "location_resource loc =
     \<lparr>r_ObjectMeta = object_meta.truncate loc, r_Spec = Some (l_Spec loc), r_Status = Some (l_Status loc)\<rparr>"

definition location_process ::
  "cond_lib \<Rightarrow> selector_lib \<Rightarrow> (location_spec, location_status) commit_lib
     \<Rightarrow> (string \<Rightarrow> go_error + sync_target list) \<Rightarrow> (location \<Rightarrow> go_error + location)
     \<Rightarrow> (string \<Rightarrow> patch_call \<Rightarrow> go_error option) \<Rightarrow> go_error + location \<Rightarrow> patch_call list \<times> go_error list" where
  "location_process cl sel L listSyncTargets updateLocation patcher lookup =
     (case lookup of
        Inl NotFound \<Rightarrow> ([], [])
      | Inl e \<Rightarrow> ([], [e])
      | Inr obj \<Rightarrow> process_commit (NewCommitter L ''*v1alpha1.Location'' patcher) location_resource obj
                    (location_reconcile cl sel listSyncTargets updateLocation obj))"

section \<open>Lemmas\<close>

interpretation ready: stable_filter "FilterReady cl" "is_ready cl" for cl
proof
  show "FilterReady cl xs = filter (is_ready cl) xs" for xs by (induction xs) simp_all
qed

interpretation nonevict: stable_filter "FilterNonEvicting now" "non_evicting now" for now
proof
  show "FilterNonEvicting now xs = filter (non_evicting now) xs" for xs by (induction xs) simp_all
qed

lemma LocationSyncTargets_subset:
  "LocationSyncTargets sel sts loc = Inr r \<Longrightarrow> set r \<subseteq> set sts"
  by (auto simp: LocationSyncTargets_def split: sum.splits)

lemma statusReconciler_one_sided:
  "statusReconciler_reconcile cl sel lst upd loc = (s, loc', us, err) \<Longrightarrow>
     (object_meta.truncate loc' = object_meta.truncate loc \<and> l_Spec loc' = l_Spec loc)
     \<or> l_Status loc' = l_Status loc"
  by (auto simp: statusReconciler_reconcile_def with_counts_def Let_def object_meta.defs
      split: sum.splits if_splits)

interpretation loc_ctrl: one_sided_reconciler location_resource "location_reconcile cl sel lst upd" for cl sel lst upd
proof
  fix old obj errs
  assume "location_reconcile cl sel lst upd old = Inr (obj, errs)"
  then obtain s us err where "statusReconciler_reconcile cl sel lst upd old = (s, obj, us, err)"
    by (auto simp: location_reconcile_def split: prod.splits)
  then show "(r_ObjectMeta (location_resource obj) = r_ObjectMeta (location_resource old)
       \<and> r_Spec (location_resource obj) = r_Spec (location_resource old))
     \<or> r_Status (location_resource obj) = r_Status (location_resource old)"
    by (auto dest: statusReconciler_one_sided simp: location_resource_def)
qed

lemma go_str_mset:
  assumes "wf_map (Some l)" "mset l' = mset l"
  shows "go_str (Some l') k = go_str (Some l) k"
proof -
  from assms(1) have "distinct (map fst l)" by (simp add: wf_map_def)
  moreover from this assms(2) have "distinct (map fst l')"
    by (metis mset_eq_imp_distinct_iff mset_map)
  ultimately have "map_of l' = map_of l"
    using assms(2) by (metis map_of_inject_set mset_eq_setD)
  then show ?thesis by (simp add: go_str_def go_get_def)
qed

lemma uInt32_value: "n < 2 ^ 32 \<Longrightarrow> map_option unat (uInt32 n) = Some n"
  by (simp add: uInt32_def unat_of_nat take_bit_nat_eq_self)

end
