(* ===== verification/Scheduling_Placement.thy ===== *)
theory Scheduling_Placement
  imports Location_Status
begin

text \<open>
  \<^verbatim>\<open>src/pkg/reconciler/scheduling/placement\<close>: the controller that selects a location for a placement
  and moves the placement between its phases Pending, Unbound and Bound. The listers are parameters
  (\<open>listLocationsByPath\<close>, the namespaces of the workspace); \<open>draw\<close> is the random number of
  \<open>rand.Intn\<close>. The step relation \<open>placement_step\<close> is one reconcile call in an arbitrary environment,
  and the invariant holds in every state reachable by such steps.
\<close>

section \<open>Selecting a location\<close>

text \<open>
  The inner loop over the location selectors, and the outer loop over the locations; the accumulator
  holds the cluster of the last location with the right resource and the set of selected names.
\<close>

definition selects_location :: "selector_lib \<Rightarrow> location \<Rightarrow> label_selector \<Rightarrow> bool" where
  "selects_location sel loc s = (case sel (Some s) of Inl _ \<Rightarrow> False | Inr matches \<Rightarrow> matches (Labels loc))"

definition location_step :: "selector_lib \<Rightarrow> placement \<Rightarrow> location \<Rightarrow> string \<times> string list \<Rightarrow> string \<times> string list" where
  "location_step sel p loc acc =
     (case acc of (locationCluster, selectedLocations) \<Rightarrow>
        if l_Resource (l_Spec loc) \<noteq> LocationResource (p_Spec p) then (locationCluster, selectedLocations)
        else (Cluster loc,
              fold (\<lambda>s names. if selects_location sel loc s then set_insert (Name loc) names else names)
                (LocationSelectors (p_Spec p)) selectedLocations))"

definition validLocationNames ::
  "selector_lib \<Rightarrow> (string \<Rightarrow> go_error + location list) \<Rightarrow> placement \<Rightarrow> string \<Rightarrow> go_error + (string \<times> string list)" where
  "validLocationNames sel listLocationsByPath p locationWorkspace =
     (case listLocationsByPath locationWorkspace of
        Inl e \<Rightarrow> Inl e
      | Inr locations \<Rightarrow> Inr (fold (location_step sel p) locations ([], [])))"

definition isValidLocationSelected :: "placement \<Rightarrow> string \<Rightarrow> string list \<Rightarrow> bool" where
  "isValidLocationSelected p cluster validNames =
     (case SelectedLocation (p_Status p) of
        None \<Rightarrow> False
      | Some ref \<Rightarrow> lref_Path ref = cluster \<and> lref_LocationName ref \<in> set validNames)"

definition set_selection :: "placement_phase \<Rightarrow> location_reference option \<Rightarrow> placement \<Rightarrow> placement" where
  "set_selection ph ref p = p\<lparr>p_Status := (p_Status p)\<lparr>Phase := ph, SelectedLocation := ref\<rparr>\<rparr>"

text \<open>The part of \<open>reconcile\<close> after the phase switch: a (new) selection.\<close>

definition reselect :: "cond_lib \<Rightarrow> nat \<Rightarrow> string \<Rightarrow> string list \<Rightarrow> placement \<Rightarrow> placement" where
  "reselect cl draw locationWorkspace candidates p =
     (if candidates = [] then
        on_placement_conditions
          (MarkFalse cl PlacementReady LocationNotMatchReason ConditionSeverityError ''No valid location is found'')
          (set_selection PlacementPending None p)
      else
        on_placement_conditions (MarkTrue cl PlacementReady)
          (set_selection PlacementUnbound
             (Some \<lparr>lref_Path = locationWorkspace,
                    lref_LocationName = candidates ! rand_Intn draw (length candidates)\<rparr>) p))"

definition placementReconciler_reconcile ::
  "cond_lib \<Rightarrow> selector_lib \<Rightarrow> (string \<Rightarrow> go_error + location list) \<Rightarrow> nat \<Rightarrow> placement
     \<Rightarrow> reconcile_status \<times> placement \<times> go_error option" where
  "placementReconciler_reconcile cl sel listLocationsByPath draw p =
     (case validLocationNames sel listLocationsByPath p (Cluster p) of
        Inl e \<Rightarrow>
          (Continue, on_placement_conditions
             (MarkFalse cl PlacementReady LocationNotFoundReason ConditionSeverityError (error_text e)) p, Some e)
      | Inr (locationWorkspace, validNames) \<Rightarrow>
          (let valid = isValidLocationSelected p locationWorkspace validNames;
               ready = on_placement_conditions (MarkTrue cl PlacementReady) p in
           case Phase (p_Status p) of
             PlacementBound \<Rightarrow>
               if \<not> valid then
                 (Continue, on_placement_conditions
                    (MarkFalse cl PlacementReady LocationInvalidReason ConditionSeverityError
                      ''Selected location is invalid for current placement'') p, None)
               else (Continue, ready, None)
           | PlacementUnbound \<Rightarrow>
               if valid then (Continue, ready, None)
               else (Continue, reselect cl draw locationWorkspace validNames p, None)
           | _ \<Rightarrow> (Continue, reselect cl draw locationWorkspace validNames p, None)))"

section \<open>Binding to namespaces\<close>

definition listNamespacesWithAnnotation :: "go_error + namespace list \<Rightarrow> go_error + namespace list" where
  "listNamespacesWithAnnotation items =
     (case items of Inl e \<Rightarrow> Inl e
      | Inr nss \<Rightarrow> Inr (filter (\<lambda>ns. go_has (Annotations ns) PlacementAnnotationKey) nss))"

definition selectNamespaces ::
  "selector_lib \<Rightarrow> (string \<Rightarrow> go_error + namespace list) \<Rightarrow> placement \<Rightarrow> go_error + namespace list" where
  "selectNamespaces sel namespaceLister p =
     bindE (listNamespacesWithAnnotation (namespaceLister (Cluster p))) (\<lambda>nss.
     bindE (sel (NamespaceSelector (p_Spec p))) (\<lambda>matches.
       Inr (filter (\<lambda>ns. matches (Labels ns)) nss)))"

definition set_phase :: "placement_phase \<Rightarrow> placement \<Rightarrow> placement" where
  "set_phase ph p = p\<lparr>p_Status := (p_Status p)\<lparr>Phase := ph\<rparr>\<rparr>"

definition placementNamespaceReconciler_reconcile ::
  "selector_lib \<Rightarrow> (string \<Rightarrow> go_error + namespace list) \<Rightarrow> placement \<Rightarrow> reconcile_status \<times> placement \<times> go_error option" where
  "placementNamespaceReconciler_reconcile sel namespaceLister p =
     (if Phase (p_Status p) = PlacementPending then (Continue, p, None)
      else if SelectedLocation (p_Status p) = None then (Continue, set_phase PlacementPending p, None)
      else
        (case selectNamespaces sel namespaceLister p of
           Inl e \<Rightarrow> (Continue, p, Some e)
         | Inr nss \<Rightarrow>
             (Continue, set_phase (if nss \<noteq> [] then PlacementBound else PlacementUnbound) p, None)))"

section \<open>The controller\<close>

text \<open>
  \<open>controller.reconcile\<close>: the reconcilers in order, all working on the caller's object, until one
  stops; their errors are collected.
\<close>

fun run_reconcilers ::
  "(placement \<Rightarrow> reconcile_status \<times> placement \<times> go_error option) list \<Rightarrow> placement \<Rightarrow> go_error list
     \<Rightarrow> placement \<times> go_error list" where
  "run_reconcilers [] p errs = (p, errs)"
| "run_reconcilers (r # rs) p errs =
     (case r p of (status, p', err) \<Rightarrow>
        let errs' = errs @ (case err of None \<Rightarrow> [] | Some e \<Rightarrow> [e]) in
        if status = Stop then (p', errs') else run_reconcilers rs p' errs')"

definition scheduling_reconcile ::
  "cond_lib \<Rightarrow> selector_lib \<Rightarrow> (string \<Rightarrow> go_error + location list) \<Rightarrow> (string \<Rightarrow> go_error + namespace list) \<Rightarrow> nat
     \<Rightarrow> placement \<Rightarrow> go_error + (placement \<times> go_error list)" where
  "scheduling_reconcile cl sel listLocationsByPath namespaceLister draw p =
     Inr (run_reconcilers
       [placementReconciler_reconcile cl sel listLocationsByPath draw,
        placementNamespaceReconciler_reconcile sel namespaceLister] p [])"

definition placement_resource :: "placement \<Rightarrow> (placement_spec, placement_status) resource" where
  "placement_resource p =
     \<lparr>r_ObjectMeta = object_meta.truncate p, r_Spec = Some (p_Spec p), r_Status = Some (p_Status p)\<rparr>"

definition scheduling_process ::
  "cond_lib \<Rightarrow> selector_lib \<Rightarrow> (placement_spec, placement_status) commit_lib \<Rightarrow> (string \<Rightarrow> go_error + location list)
     \<Rightarrow> (string \<Rightarrow> go_error + namespace list) \<Rightarrow> nat \<Rightarrow> (string \<Rightarrow> patch_call \<Rightarrow> go_error option)
     \<Rightarrow> go_error + placement \<Rightarrow> patch_call list \<times> go_error list" where
  "scheduling_process cl sel L listLocationsByPath namespaceLister draw patcher lookup =
     (case lookup of
        Inl NotFound \<Rightarrow> ([], [])
      | Inl e \<Rightarrow> ([], [e])
      | Inr obj \<Rightarrow> process_commit (NewCommitter L ''*v1alpha1.Placement'' patcher) placement_resource obj
                    (scheduling_reconcile cl sel listLocationsByPath namespaceLister draw obj))"

section \<open>The step relation and its invariant\<close>

text \<open>
  One reconcile call; the environment (locations, namespaces, their errors, the random draw) may be
  anything. Only the status of the object is written.
\<close>

inductive placement_step :: "cond_lib \<Rightarrow> selector_lib \<Rightarrow> placement \<Rightarrow> placement \<Rightarrow> bool"
  for cl :: cond_lib and sel :: selector_lib where
  reconcile: "scheduling_reconcile cl sel locs nss draw p = Inr (p', errs) \<Longrightarrow> placement_step cl sel p p'"

inductive placement_reachable :: "cond_lib \<Rightarrow> selector_lib \<Rightarrow> placement \<Rightarrow> placement \<Rightarrow> bool"
  for cl :: cond_lib and sel :: selector_lib and p0 :: placement where
  start: "placement_reachable cl sel p0 p0"
| step: "placement_reachable cl sel p0 p \<Longrightarrow> placement_step cl sel p p' \<Longrightarrow> placement_reachable cl sel p0 p'"


section \<open>Lemmas\<close>

inductive_simps placement_step_iff: "placement_step cl sel p p'"

lemma set_selection_sel [simp]:
  "Phase (p_Status (set_selection ph ref p)) = ph" "SelectedLocation (p_Status (set_selection ph ref p)) = ref"
  "p_Conditions (p_Status (set_selection ph ref p)) = p_Conditions (p_Status p)"
  "p_Spec (set_selection ph ref p) = p_Spec p"
  "object_meta.truncate (set_selection ph ref p) = object_meta.truncate p"
  by (simp_all add: set_selection_def object_meta.defs)

lemma set_phase_sel [simp]:
  "Phase (p_Status (set_phase ph p)) = ph"
  "SelectedLocation (p_Status (set_phase ph p)) = SelectedLocation (p_Status p)"
  "p_Conditions (p_Status (set_phase ph p)) = p_Conditions (p_Status p)"
  "p_Spec (set_phase ph p) = p_Spec p" "object_meta.truncate (set_phase ph p) = object_meta.truncate p"
  by (simp_all add: set_phase_def object_meta.defs)

definition location_matches :: "selector_lib \<Rightarrow> placement \<Rightarrow> location \<Rightarrow> bool" where
  "location_matches sel p loc \<longleftrightarrow> l_Resource (l_Spec loc) = LocationResource (p_Spec p)
     \<and> (\<exists>s \<in> set (LocationSelectors (p_Spec p)). selects_location sel loc s)"

lemma location_fold_names:
  "set (snd (fold (location_step sel p) locs (c, names))) =
     set names \<union> Name ` {loc \<in> set locs. location_matches sel p loc}"
proof (induction locs arbitrary: c names)
  case (Cons loc locs)
  obtain c' names' where st: "location_step sel p loc (c, names) = (c', names')" by fastforce
  then have "set names' = set names \<union> (if location_matches sel p loc then {Name loc} else {})"
    by (auto simp: location_step_def location_matches_def set_fold_insert_if split: if_splits)
  with Cons [of c' names'] st show ?case by auto
qed simp

lemma location_fold_distinct:
  "distinct names \<Longrightarrow> distinct (snd (fold (location_step sel p) locs (c, names)))"
proof (induction locs arbitrary: c names)
  case (Cons loc locs)
  obtain c' names' where st: "location_step sel p loc (c, names) = (c', names')" by fastforce
  with Cons.prems have "distinct names'"
    by (auto simp: location_step_def intro: distinct_fold_insert_if split: if_splits)
  with Cons.IH [of names' c'] st show ?case by simp
qed simp

lemma location_fold_cluster:
  "fst (fold (location_step sel p) locs (c, names)) =
     (let ms = filter (\<lambda>loc. l_Resource (l_Spec loc) = LocationResource (p_Spec p)) locs
      in if ms = [] then c else Cluster (last ms))"
proof (induction locs arbitrary: c names)
  case (Cons loc locs)
  obtain c' names' where st: "location_step sel p loc (c, names) = (c', names')" by fastforce
  then have "c' = (if l_Resource (l_Spec loc) = LocationResource (p_Spec p) then Cluster loc else c)"
    by (auto simp: location_step_def split: if_splits)
  with Cons [of c' names'] st show ?case by (auto simp: Let_def)
qed simp

text \<open>One call of each reconciler: what it may change.\<close>

lemma placementReconciler_frame:
  assumes "placementReconciler_reconcile cl sel lst draw p = (s, p', err)"
  shows "s = Continue" "p_Spec p' = p_Spec p" "object_meta.truncate p' = object_meta.truncate p"
  using assms
  by (auto simp: placementReconciler_reconcile_def reselect_def Let_def
      split: sum.splits placement_phase.splits if_splits)

lemma placementNamespaceReconciler_frame:
  assumes "placementNamespaceReconciler_reconcile sel lst p = (s, p', err)"
  shows "s = Continue" "p_Spec p' = p_Spec p" "object_meta.truncate p' = object_meta.truncate p"
    "p_Conditions (p_Status p') = p_Conditions (p_Status p)"
    "SelectedLocation (p_Status p') = SelectedLocation (p_Status p)"
  using assms by (auto simp: placementNamespaceReconciler_reconcile_def split: sum.splits if_splits)

lemma scheduling_reconcile_split:
  assumes "scheduling_reconcile cl sel lst nss draw p = Inr (p', errs)"
  obtains p1 e1 e2 where
    "placementReconciler_reconcile cl sel lst draw p = (Continue, p1, e1)"
    "placementNamespaceReconciler_reconcile sel nss p1 = (Continue, p', e2)"
    "errs = (case e1 of None \<Rightarrow> [] | Some e \<Rightarrow> [e]) @ (case e2 of None \<Rightarrow> [] | Some e \<Rightarrow> [e])"
proof -
  obtain s1 p1 e1 where 1: "placementReconciler_reconcile cl sel lst draw p = (s1, p1, e1)"
    by (cases "placementReconciler_reconcile cl sel lst draw p") auto
  obtain s2 p2 e2 where 2: "placementNamespaceReconciler_reconcile sel nss p1 = (s2, p2, e2)"
    by (cases "placementNamespaceReconciler_reconcile sel nss p1") auto
  from placementReconciler_frame(1) [OF 1] placementNamespaceReconciler_frame(1) [OF 2] 1 2 assms
  show ?thesis by (intro that [of p1 e1 e2]) (auto simp: scheduling_reconcile_def Let_def)
qed




lemma placementReconciler_bound:
  "Phase (p_Status p) = PlacementBound \<Longrightarrow> placementReconciler_reconcile cl sel lst draw p = (s, p', err) \<Longrightarrow>
     SelectedLocation (p_Status p') = SelectedLocation (p_Status p)"
  by (auto simp: placementReconciler_reconcile_def Let_def split: sum.splits if_splits)

lemma reselect_valid:
  "candidates \<noteq> [] \<Longrightarrow> isValidLocationSelected (reselect cl draw ws candidates p) ws candidates"
  by (simp add: reselect_def isValidLocationSelected_def rand_choice_mem)

lemma isValid_conditions [simp]:
  "isValidLocationSelected (on_placement_conditions f p) ws names = isValidLocationSelected p ws names"
  by (simp add: isValidLocationSelected_def)

lemma placementReconciler_ready:
  assumes "cond_laws cl" "validLocationNames sel lst p (Cluster p) = Inr (ws, names)"
    "placementReconciler_reconcile cl sel lst draw p = (s, p', err)"
  shows "IsTrue cl (p_Conditions (p_Status p')) PlacementReady \<longleftrightarrow> isValidLocationSelected p' ws names"
proof (cases "p' = reselect cl draw ws names p")
  case True
  then show ?thesis
    using reselect_valid [of names cl draw ws p] assms(1)
    by (cases "names = []") (simp_all add: reselect_def cond_lawsD isValidLocationSelected_def)
next
  case False
  with assms(2,3) show ?thesis
    by (auto simp: placementReconciler_reconcile_def Let_def cond_lawsD [OF assms(1)]
        split: placement_phase.splits if_splits)
qed

lemma scheduling_reconcile_frame:
  assumes "scheduling_reconcile cl sel lst nss draw p = Inr (p', errs)"
  shows "p_Spec p' = p_Spec p" "object_meta.truncate p' = object_meta.truncate p"
proof -
  obtain p1 e1 e2 where 1: "placementReconciler_reconcile cl sel lst draw p = (Continue, p1, e1)"
    and 2: "placementNamespaceReconciler_reconcile sel nss p1 = (Continue, p', e2)"
    using assms by (rule scheduling_reconcile_split)
  from placementReconciler_frame [OF 1] placementNamespaceReconciler_frame [OF 2]
  show "p_Spec p' = p_Spec p" "object_meta.truncate p' = object_meta.truncate p" by simp_all
qed

interpretation sched_ctrl: one_sided_reconciler placement_resource "scheduling_reconcile cl sel lst nss draw"
  for cl sel lst nss draw
proof
  fix old obj errs
  assume "scheduling_reconcile cl sel lst nss draw old = Inr (obj, errs)"
  then show "(r_ObjectMeta (placement_resource obj) = r_ObjectMeta (placement_resource old)
       \<and> r_Spec (placement_resource obj) = r_Spec (placement_resource old))
     \<or> r_Status (placement_resource obj) = r_Status (placement_resource old)"
    by (simp add: placement_resource_def scheduling_reconcile_frame)
qed

section \<open>Properties\<close>




text \<open>
  A bound placement keeps its location: a reconcile call never selects another location, and never
  drops the selected one, while the phase is Bound, even if the location became invalid.
\<close>

theorem bound_placement_keeps_location:
  assumes "Phase (p_Status p) = PlacementBound" "placement_step cl sel p p'"
  shows "SelectedLocation (p_Status p') = SelectedLocation (p_Status p)"
  using assms by (auto simp: placement_step_iff elim!: scheduling_reconcile_split
      dest!: placementReconciler_bound placementNamespaceReconciler_frame(5))

text \<open>
  After a reconcile call whose listing succeeded, the condition PlacementReady is true exactly when
  the selected location is one of the locations of the workspace that have the placement's resource
  and match one of its selectors, and the recorded path is the one of these locations.
\<close>

theorem placement_ready_iff_valid_location:
  assumes "cond_laws cl" "lst (Cluster p) = Inr locs"
    and "scheduling_reconcile cl sel lst nss draw p = Inr (p', errs)"
  shows "IsTrue cl (p_Conditions (p_Status p')) PlacementReady \<longleftrightarrow>
     (\<exists>loc \<in> set locs. location_matches sel p loc
        \<and> SelectedLocation (p_Status p') = Some \<lparr>lref_Path = Cluster (last (filter
              (\<lambda>l. l_Resource (l_Spec l) = LocationResource (p_Spec p)) locs)), lref_LocationName = Name loc\<rparr>)"
proof -
  obtain p1 e1 e2 where p1: "placementReconciler_reconcile cl sel lst draw p = (Continue, p1, e1)"
    and p2: "placementNamespaceReconciler_reconcile sel nss p1 = (Continue, p', e2)"
    using assms(3) by (rule scheduling_reconcile_split)
  define ws names where "ws = fst (fold (location_step sel p) locs ([], []))"
    and "names = snd (fold (location_step sel p) locs ([], []))"
  have v: "validLocationNames sel lst p (Cluster p) = Inr (ws, names)"
    by (simp add: validLocationNames_def assms(2) ws_def names_def)
  have names: "set names = Name ` {loc \<in> set locs. location_matches sel p loc}"
    by (simp add: names_def location_fold_names)
  have ws: "ws = Cluster (last (filter (\<lambda>l. l_Resource (l_Spec l) = LocationResource (p_Spec p)) locs))"
    if "loc \<in> set locs" "location_matches sel p loc" for loc
  proof -
    from that have "filter (\<lambda>l. l_Resource (l_Spec l) = LocationResource (p_Spec p)) locs \<noteq> []"
      by (auto simp: filter_empty_conv location_matches_def)
    then show ?thesis by (simp add: ws_def location_fold_cluster Let_def)
  qed
  have "IsTrue cl (p_Conditions (p_Status p')) PlacementReady \<longleftrightarrow> isValidLocationSelected p' ws names"
    using placementReconciler_ready [OF assms(1) v p1] placementNamespaceReconciler_frame(4,5) [OF p2]
    by (simp add: isValidLocationSelected_def)
  also have "\<dots> \<longleftrightarrow> (\<exists>loc \<in> set locs. location_matches sel p loc
       \<and> SelectedLocation (p_Status p') = Some \<lparr>lref_Path = ws, lref_LocationName = Name loc\<rparr>)"
    by (auto simp: isValidLocationSelected_def names split: option.splits intro: location_reference.equality)
  finally show ?thesis using ws by blast
qed

lemma ex_reconcile:
  "\<exists>p'. scheduling_reconcile basic_conditions basic_selector (\<lambda>_. Inr [ex_location]) (\<lambda>_. Inr []) 0
       (ex_placement PlacementPending None None) = Inr (p', [])
     \<and> Phase (p_Status p') = PlacementUnbound
     \<and> SelectedLocation (p_Status p') = Some \<lparr>lref_Path = ''compute'', lref_LocationName = ''loc''\<rparr>"
  by (simp add: scheduling_reconcile_def run_reconcilers.simps placementReconciler_reconcile_def validLocationNames_def
      location_step_def selects_location_def reselect_def isValidLocationSelected_def Let_def
      placementNamespaceReconciler_reconcile_def selectNamespaces_def listNamespacesWithAnnotation_def
      instance_defs ex_object_defs set_insert_def rand_Intn_def)



theorem bound_placement_keeps_location_witness:
  "\<exists>p'. placement_step basic_conditions basic_selector
       (ex_placement PlacementBound (Some \<lparr>lref_Path = ''compute'', lref_LocationName = ''gone''\<rparr>) None) p'
     \<and> SelectedLocation (p_Status p') = Some \<lparr>lref_Path = ''compute'', lref_LocationName = ''gone''\<rparr>"
proof -
  let ?p = "ex_placement PlacementBound (Some \<lparr>lref_Path = ''compute'', lref_LocationName = ''gone''\<rparr>) None"
  have "\<exists>p'. scheduling_reconcile basic_conditions basic_selector (\<lambda>_. Inr [ex_location]) (\<lambda>_. Inr []) 0 ?p = Inr (p', [])"
    by (simp add: scheduling_reconcile_def placementReconciler_reconcile_def validLocationNames_def
      location_step_def selects_location_def reselect_def isValidLocationSelected_def Let_def
      placementNamespaceReconciler_reconcile_def selectNamespaces_def listNamespacesWithAnnotation_def
      instance_defs ex_object_defs set_insert_def)
  then obtain p' where "placement_step basic_conditions basic_selector ?p p'"
    by (blast intro: placement_step.reconcile)
  with bound_placement_keeps_location [OF _ this] show ?thesis by (auto simp: ex_object_defs)
qed

theorem placement_ready_iff_valid_location_witness:
  "\<exists>p'. scheduling_reconcile basic_conditions basic_selector (\<lambda>_. Inr [ex_location]) (\<lambda>_. Inr []) 0
       (ex_placement PlacementPending None None) = Inr (p', [])
     \<and> IsTrue basic_conditions (p_Conditions (p_Status p')) PlacementReady"
proof -
  obtain p' where p': "scheduling_reconcile basic_conditions basic_selector (\<lambda>_. Inr [ex_location]) (\<lambda>_. Inr []) 0
       (ex_placement PlacementPending None None) = Inr (p', [])"
     "SelectedLocation (p_Status p') = Some \<lparr>lref_Path = ''compute'', lref_LocationName = ''loc''\<rparr>"
    using ex_reconcile by blast
  from placement_ready_iff_valid_location [OF basic_conditions_laws(1) refl p'(1)] p' show ?thesis
    by (simp add: location_matches_def selects_location_def instance_defs ex_object_defs)
qed

end
