(* ===== verification/Workload_Placement.thy ===== *)
theory Workload_Placement
  imports Scheduling_Placement Sync_Target_Key
begin

text \<open>
  \<^verbatim>\<open>src/pkg/reconciler/workload/placement\<close>: the controller that picks a sync target for a placement
  and stores its key in the annotation \<open>internal.workload.kcp.io/synctarget\<close>. The listers and
  \<open>patchPlacement\<close> are parameters. A reconcile call returns the placement its caller sees, which only
  differs in its conditions: the annotation is written by a patch, and the object the patch returns
  is local to the reconciler.
\<close>

section \<open>API compatibility\<close>

record bound_resource =
  br_Group :: string
  br_Resource :: string
  br_IdentityHash :: string

record api_binding =
  ab_Name :: string
  ab_Annotations :: smap
  ab_BoundResources :: "bound_resource list"

definition listWorkloadAPIBindings :: "go_error + api_binding list \<Rightarrow> go_error + api_binding list" where
  "listWorkloadAPIBindings apiBindings =
     (case apiBindings of Inl e \<Rightarrow> Inl e
      | Inr bs \<Rightarrow> Inr (filter (\<lambda>b. go_has (ab_Annotations b) ComputeAPIExportAnnotationKey) bs))"

text \<open>The map from group and resource to the accepted synced resource; a later entry overwrites an earlier one.\<close>

definition supportedAPIMap :: "sync_target \<Rightarrow> (group_resource \<times> resource_to_sync) list" where
  "supportedAPIMap st =
     fold (\<lambda>r m. if rs_State r = ResourceSchemaAcceptedState then AList.update (rs_GroupResource r) r m else m)
       (SyncedResources (st_Status st)) []"

definition supports_api :: "(group_resource \<times> resource_to_sync) list \<Rightarrow> bound_resource \<Rightarrow> bool" where
  "supports_api m d =
     (case map_of m \<lparr>gr_Group = br_Group d, gr_Resource = br_Resource d\<rparr> of
        None \<Rightarrow> False
      | Some r \<Rightarrow> rs_IdentityHash r = br_IdentityHash d)"

text \<open>The loop over the bindings of one sync target; the inner loop breaks at the first unsupported API.\<close>

fun check_bindings :: "sync_target \<Rightarrow> (group_resource \<times> resource_to_sync) list \<Rightarrow> api_binding list \<Rightarrow> bool \<Rightarrow> string list
     \<Rightarrow> bool \<times> string list" where
  "check_bindings st m [] supported messages = (supported, messages)"
| "check_bindings st m (b # bs) supported messages =
     (if list_all (supports_api m) (ab_BoundResources b) then check_bindings st m bs supported messages
      else check_bindings st m bs False
        (messages @ [''SyncTarget '' @ Name st @ '' does not support APIBinding '' @ ab_Name b]))"

fun filter_compatible :: "api_binding list \<Rightarrow> sync_target list \<Rightarrow> string list \<Rightarrow> sync_target list \<times> string list" where
  "filter_compatible bindings [] messages = ([], messages)"
| "filter_compatible bindings (st # sts) messages =
     (case check_bindings st (supportedAPIMap st) bindings True messages of (supported, messages') \<Rightarrow>
        case filter_compatible bindings sts messages' of (rest, messages'') \<Rightarrow>
          (if supported then st # rest else rest, messages''))"

definition filterAPICompatible ::
  "(string \<Rightarrow> go_error + api_binding list) \<Rightarrow> placement \<Rightarrow> sync_target list
     \<Rightarrow> sync_target list \<times> string \<times> go_error option" where
  "filterAPICompatible apiBindingLister p syncTargets =
     (case listWorkloadAPIBindings (apiBindingLister (Cluster p)) of
        Inl e \<Rightarrow> ([], [], Some e)
      | Inr bindings \<Rightarrow>
          (case filter_compatible bindings syncTargets [] of (sts, messages) \<Rightarrow> (sts, join '', '' messages, None)))"

section \<open>Valid sync targets\<close>

record placement_env =
  env_listSyncTargets :: "string \<Rightarrow> go_error + sync_target list"
  env_apiBindings :: "string \<Rightarrow> go_error + api_binding list"
  env_getLocation :: "string \<Rightarrow> string \<Rightarrow> go_error + location"

definition getAllValidSyncTargetsForPlacement ::
  "cond_lib \<Rightarrow> selector_lib \<Rightarrow> placement_env \<Rightarrow> time \<Rightarrow> placement
     \<Rightarrow> sync_target list \<times> string \<times> string \<times> go_error option" where
  "getAllValidSyncTargetsForPlacement cl sel E now p =
     (if Phase (p_Status p) = PlacementPending \<or> SelectedLocation (p_Status p) = None
      then ([], ScheduleLocationNotFound, ''No selected location is scheduled'', None)
      else
        (let ref = the (SelectedLocation (p_Status p)) in
         case env_getLocation E (lref_Path ref) (lref_LocationName ref) of
           Inl NotFound \<Rightarrow> ([], ScheduleLocationNotFound, ''Selected location is not found'', None)
         | Inl e \<Rightarrow> ([], [], [], Some e)
         | Inr loc \<Rightarrow>
             (case env_listSyncTargets E (Cluster loc) of
                Inl e \<Rightarrow> ([], [], [], Some e)
              | Inr syncTargets \<Rightarrow>
                  (case LocationSyncTargets sel syncTargets loc of
                     Inl e \<Rightarrow> ([], ScheduleNoValidTargetReason, ''No SyncTarget in the selected Location'', Some e)
                   | Inr locationSyncTargets \<Rightarrow>
                       if locationSyncTargets = []
                       then ([], ScheduleNoValidTargetReason, ''No SyncTarget in the selected Location'', None)
                       else
                         (case filterAPICompatible (env_apiBindings E) p locationSyncTargets of
                            (compatible, message, err) \<Rightarrow>
                              if compatible = [] \<or> err \<noteq> None
                              then ([], ScheduleNoValidTargetReason, message, err)
                              else
                                (let valid = FilterNonEvicting now (FilterReady cl compatible) in
                                 if valid = []
                                 then ([], ScheduleNoValidTargetReason, ''No SyncTarget is ready or non evicting'', None)
                                 else (valid, [], [], None)))))))"

section \<open>The scheduling reconciler\<close>

datatype workload_status = StopAndRequeue | WContinue

text \<open>The annotation patches a call sends: a value, or \<open>None\<close> to remove the key.\<close>

type_synonym annotation_patch = "string \<times> string option"

definition patchPlacementAnnotation ::
  "(annotation_patch \<Rightarrow> go_error + placement) \<Rightarrow> annotation_patch \<Rightarrow> annotation_patch list \<times> go_error option" where
  "patchPlacementAnnotation patchPlacement pa =
     ([pa], case patchPlacement pa of Inl e \<Rightarrow> Some e | Inr updated \<Rightarrow> None)"

definition sync_target_key :: "hash_lib \<Rightarrow> sync_target \<Rightarrow> string" where
  "sync_target_key H st = ToSyncTargetKey H (Cluster st) (Name st)"

definition placementSchedulingReconciler_reconcile ::
  "hash_lib \<Rightarrow> cond_lib \<Rightarrow> selector_lib \<Rightarrow> placement_env \<Rightarrow> (annotation_patch \<Rightarrow> go_error + placement) \<Rightarrow> time \<Rightarrow> nat
     \<Rightarrow> placement \<Rightarrow> workload_status \<times> placement \<times> annotation_patch list \<times> go_error option" where
  "placementSchedulingReconciler_reconcile H cl sel E patchPlacement now draw p =
     (let scheduled = go_get (Annotations p) InternalSyncTargetPlacementAnnotationKey in
      case getAllValidSyncTargetsForPlacement cl sel E now p of (valid, reason, message, err) \<Rightarrow>
        if err \<noteq> None then (StopAndRequeue, p, [], err)
        else if valid = [] then
          (if scheduled \<noteq> None then
             (case patchPlacementAnnotation patchPlacement (InternalSyncTargetPlacementAnnotationKey, None) of
                (patches, perr) \<Rightarrow> (WContinue, p, patches, perr))
           else
             (WContinue, on_placement_conditions
                (MarkFalse cl PlacementScheduled reason ConditionSeverityWarning message) p, [], None))
        else if scheduled \<noteq> None \<and> the scheduled \<in> set (map (sync_target_key H) valid) then
          (WContinue, on_placement_conditions (MarkTrue cl PlacementScheduled) p, [], None)
        else
          (case patchPlacementAnnotation patchPlacement
                  (InternalSyncTargetPlacementAnnotationKey,
                   Some (sync_target_key H (valid ! rand_Intn draw (length valid)))) of
             (patches, perr) \<Rightarrow> (StopAndRequeue, p, patches, perr)))"

text \<open>\<open>controller.reconcile\<close>: the requeue flag, the caller's object and the aggregated error.\<close>

definition workload_placement_reconcile ::
  "hash_lib \<Rightarrow> cond_lib \<Rightarrow> selector_lib \<Rightarrow> placement_env \<Rightarrow> (annotation_patch \<Rightarrow> go_error + placement) \<Rightarrow> time \<Rightarrow> nat
     \<Rightarrow> placement \<Rightarrow> bool \<times> placement \<times> annotation_patch list \<times> go_error list" where
  "workload_placement_reconcile H cl sel E patchPlacement now draw p =
     (case placementSchedulingReconciler_reconcile H cl sel E patchPlacement now draw p of
        (status, p', patches, err) \<Rightarrow>
          (status = StopAndRequeue, p', patches, case err of None \<Rightarrow> [] | Some e \<Rightarrow> [e]))"

definition workload_placement_object ::
  "hash_lib \<Rightarrow> cond_lib \<Rightarrow> selector_lib \<Rightarrow> placement_env \<Rightarrow> (annotation_patch \<Rightarrow> go_error + placement) \<Rightarrow> time \<Rightarrow> nat
     \<Rightarrow> placement \<Rightarrow> go_error + (placement \<times> go_error list)" where
  "workload_placement_object H cl sel E patchPlacement now draw p =
     (case workload_placement_reconcile H cl sel E patchPlacement now draw p of (_, p', _, errs) \<Rightarrow> Inr (p', errs))"

definition workload_placement_process ::
  "hash_lib \<Rightarrow> cond_lib \<Rightarrow> selector_lib \<Rightarrow> (placement_spec, placement_status) commit_lib \<Rightarrow> placement_env
     \<Rightarrow> (annotation_patch \<Rightarrow> go_error + placement) \<Rightarrow> (string \<Rightarrow> patch_call \<Rightarrow> go_error option) \<Rightarrow> time \<Rightarrow> nat
     \<Rightarrow> go_error + placement \<Rightarrow> bool \<times> annotation_patch list \<times> patch_call list \<times> go_error list" where
  "workload_placement_process H cl sel L E patchPlacement patcher now draw lookup =
     (case lookup of
        Inl NotFound \<Rightarrow> (False, [], [], [])
      | Inl e \<Rightarrow> (False, [], [], [e])
      | Inr obj \<Rightarrow>
          (case workload_placement_reconcile H cl sel E patchPlacement now draw obj of (requeue, obj', patches, errs) \<Rightarrow>
             case process_commit (NewCommitter L ''*v1alpha1.Placement'' patcher) placement_resource obj (Inr (obj', errs)) of
               (calls, errs') \<Rightarrow> (requeue, patches, calls, errs')))"

section \<open>Lemmas\<close>

definition api_compatible :: "api_binding list \<Rightarrow> sync_target \<Rightarrow> bool" where
  "api_compatible bindings st \<longleftrightarrow>
     (\<forall>b \<in> set bindings. \<forall>d \<in> set (ab_BoundResources b). supports_api (supportedAPIMap st) d)"

lemma check_bindings_supported:
  "fst (check_bindings st m bs supp msgs) \<longleftrightarrow>
     supp \<and> (\<forall>b \<in> set bs. \<forall>d \<in> set (ab_BoundResources b). supports_api m d)"
  by (induction st m bs supp msgs rule: check_bindings.induct) (auto simp: list_all_iff)

lemma filter_compatible_eq: "fst (filter_compatible bs sts msgs) = filter (api_compatible bs) sts"
proof (induction sts arbitrary: msgs)
  case (Cons st sts)
  obtain supp msgs' where c: "check_bindings st (supportedAPIMap st) bs True msgs = (supp, msgs')" by fastforce
  then have "supp = api_compatible bs st"
    using check_bindings_supported [of st "supportedAPIMap st" bs True msgs] by (simp add: api_compatible_def)
  with Cons [of msgs'] c show ?case by (auto split: prod.splits)
qed simp

interpretation compat: stable_filter "\<lambda>sts. fst (filter_compatible bs sts msgs)" "api_compatible bs" for bs msgs
  by unfold_locales (rule filter_compatible_eq)

lemma filterAPICompatible_spec:
  "filterAPICompatible lst p sts = (r, m, None) \<Longrightarrow>
     \<exists>all. lst (Cluster p) = Inr all
       \<and> r = filter (api_compatible (filter (\<lambda>b. go_has (ab_Annotations b) ComputeAPIExportAnnotationKey) all)) sts"
  by (auto simp: filterAPICompatible_def listWorkloadAPIBindings_def split: sum.splits prod.splits)
     (metis filter_compatible_eq fst_conv)

text \<open>The map of accepted resources holds the last accepted entry of each group and resource.\<close>

lemma accepted_fold:
  "map_of (fold (\<lambda>r m. if rs_State r = ResourceSchemaAcceptedState then AList.update (rs_GroupResource r) r m else m) rs m) gr
     = (let as = filter (\<lambda>r. rs_State r = ResourceSchemaAcceptedState \<and> rs_GroupResource r = gr) rs
        in if as = [] then map_of m gr else Some (last as))"
  by (induction rs arbitrary: m) (auto simp: update_conv' Let_def)

lemma supports_api_iff:
  "supports_api (supportedAPIMap st) d \<longleftrightarrow>
     (let as = filter (\<lambda>r. rs_State r = ResourceSchemaAcceptedState
           \<and> rs_GroupResource r = \<lparr>gr_Group = br_Group d, gr_Resource = br_Resource d\<rparr>) (SyncedResources (st_Status st))
      in as \<noteq> [] \<and> rs_IdentityHash (last as) = br_IdentityHash d)"
  by (simp add: supports_api_def supportedAPIMap_def accepted_fold Let_def)

definition valid_target ::
  "cond_lib \<Rightarrow> selector_lib \<Rightarrow> placement_env \<Rightarrow> time \<Rightarrow> placement \<Rightarrow> location \<Rightarrow> sync_target \<Rightarrow> bool" where
  "valid_target cl sel E now p loc st \<longleftrightarrow>
     (\<exists>sts all matches. env_listSyncTargets E (Cluster loc) = Inr sts \<and> st \<in> set sts
        \<and> sel (InstanceSelector (l_Spec loc)) = Inr matches \<and> matches (Labels st)
        \<and> env_apiBindings E (Cluster p) = Inr all
        \<and> api_compatible (filter (\<lambda>b. go_has (ab_Annotations b) ComputeAPIExportAnnotationKey) all) st
        \<and> is_ready cl st \<and> non_evicting now st)"

lemma getAllValid_spec:
  assumes "getAllValidSyncTargetsForPlacement cl sel E now p = (valid, reason, message, None)" "valid \<noteq> []"
  obtains ref loc where "SelectedLocation (p_Status p) = Some ref" "Phase (p_Status p) \<noteq> PlacementPending"
    "env_getLocation E (lref_Path ref) (lref_LocationName ref) = Inr loc"
    "set valid = {st. valid_target cl sel E now p loc st}"
proof -
  from assms obtain ref where ref: "SelectedLocation (p_Status p) = Some ref" "Phase (p_Status p) \<noteq> PlacementPending"
    by (auto simp: getAllValidSyncTargetsForPlacement_def split: if_splits)
  with assms obtain loc where loc: "env_getLocation E (lref_Path ref) (lref_LocationName ref) = Inr loc"
    by (auto simp: getAllValidSyncTargetsForPlacement_def split: sum.splits go_error.splits)
  with assms ref obtain sts where sts: "env_listSyncTargets E (Cluster loc) = Inr sts"
    by (auto simp: getAllValidSyncTargetsForPlacement_def split: sum.splits)
  with assms ref loc obtain matches where m: "sel (InstanceSelector (l_Spec loc)) = Inr matches"
    by (auto simp: getAllValidSyncTargetsForPlacement_def LocationSyncTargets_def split: sum.splits)
  obtain r msg err where f: "filterAPICompatible (env_apiBindings E) p (filter (\<lambda>wc. matches (Labels wc)) sts) = (r, msg, err)"
    by (cases "filterAPICompatible (env_apiBindings E) p (filter (\<lambda>wc. matches (Labels wc)) sts)") auto
  with assms ref loc sts m have e: "err = None" "valid = FilterNonEvicting now (FilterReady cl r)"
    by (auto simp: getAllValidSyncTargetsForPlacement_def LocationSyncTargets_def Let_def split: if_splits)
  with f obtain all where all: "env_apiBindings E (Cluster p) = Inr all"
    "r = filter (api_compatible (filter (\<lambda>b. go_has (ab_Annotations b) ComputeAPIExportAnnotationKey) all))
           (filter (\<lambda>wc. matches (Labels wc)) sts)"
    using filterAPICompatible_spec by blast
  have "set valid = {st. valid_target cl sel E now p loc st}"
    using sts m all e by (auto simp: valid_target_def nonevict.set_flt ready.set_flt)
  with ref loc show ?thesis by (rule that)
qed

text \<open>The server's effect of an annotation merge patch.\<close>

definition apply_annotation_patch :: "annotation_patch \<Rightarrow> placement \<Rightarrow> placement" where
  "apply_annotation_patch pa p =
     (case pa of (k, Some v) \<Rightarrow> p\<lparr>Annotations := Some (go_put k v (entries (Annotations p)))\<rparr>
      | (k, None) \<Rightarrow> p\<lparr>Annotations := go_del k (Annotations p)\<rparr>)"

lemma apply_annotation_patch_frame:
  "p_Status (apply_annotation_patch pa p) = p_Status p" "p_Spec (apply_annotation_patch pa p) = p_Spec p"
  "Cluster (apply_annotation_patch pa p) = Cluster p"
  by (simp_all add: apply_annotation_patch_def split: prod.splits option.splits)

lemma getAllValid_patch [simp]:
  "getAllValidSyncTargetsForPlacement cl sel E now (apply_annotation_patch pa p)
     = getAllValidSyncTargetsForPlacement cl sel E now p"
  unfolding getAllValidSyncTargetsForPlacement_def filterAPICompatible_def apply_annotation_patch_frame
  by (rule refl)

interpretation wp_ctrl: one_sided_reconciler placement_resource "workload_placement_object H cl sel E pp now draw"
  for H cl sel E pp now draw
  by unfold_locales
     (auto simp: workload_placement_object_def workload_placement_reconcile_def placement_resource_def
        placementSchedulingReconciler_reconcile_def Let_def patchPlacementAnnotation_def
        split: prod.splits if_splits)

section \<open>Properties\<close>

text \<open>
  C3: A placement is only ever scheduled onto a valid sync target: every key the controller writes into
  the placement's annotation is the key of a sync target that is in the workspace of the selected
  location, matches the location's instance selector, supports every API of every compute APIBinding
  of the placement's workspace with the right identity, is ready, not marked unschedulable, and not past
  its eviction time. No other annotation is patched.
\<close>

theorem scheduled_target_is_valid:
  assumes "placementSchedulingReconciler_reconcile H cl sel E pp now draw p = (status, p', patches, err)"
    and "(k, Some v) \<in> set patches"
  shows "k = InternalSyncTargetPlacementAnnotationKey \<and>
    (\<exists>ref loc st. SelectedLocation (p_Status p) = Some ref
       \<and> env_getLocation E (lref_Path ref) (lref_LocationName ref) = Inr loc
       \<and> valid_target cl sel E now p loc st \<and> v = sync_target_key H st)"
proof -
  obtain valid reason message e where g:
    "getAllValidSyncTargetsForPlacement cl sel E now p = (valid, reason, message, e)"
    by (cases "getAllValidSyncTargetsForPlacement cl sel E now p") auto
  with assms have k: "k = InternalSyncTargetPlacementAnnotationKey" and e: "e = None" "valid \<noteq> []"
    and v: "v = sync_target_key H (valid ! rand_Intn draw (length valid))"
    by (auto simp: placementSchedulingReconciler_reconcile_def patchPlacementAnnotation_def Let_def split: if_splits)
  obtain ref loc where r: "SelectedLocation (p_Status p) = Some ref"
    "env_getLocation E (lref_Path ref) (lref_LocationName ref) = Inr loc"
    "set valid = {st. valid_target cl sel E now p loc st}"
    using getAllValid_spec [OF g [unfolded e(1)] e(2)] by blast
  with rand_choice_mem [OF e(2), of draw] k v show ?thesis by blast
qed

text \<open>
  C26: Scheduling converges: once the patch a call sent is applied to the placement, the next call in the
  same environment sends no patch, does not requeue, and sets PlacementScheduled to whether there is a
  valid sync target. In particular a placement whose sync target is still valid is never moved.
\<close>

theorem placement_scheduling_converges:
  assumes "cond_laws cl"
    and "placementSchedulingReconciler_reconcile H cl sel E pp now draw p = (status, p', patches, None)"
    and "p2 = fold apply_annotation_patch patches p"
    and "placementSchedulingReconciler_reconcile H cl sel E pp now draw' p2 = (status2, p2', patches2, err2)"
  shows "patches2 = [] \<and> err2 = None \<and> status2 = WContinue \<and>
    (IsTrue cl (p_Conditions (p_Status p2')) PlacementScheduled \<longleftrightarrow>
       fst (getAllValidSyncTargetsForPlacement cl sel E now p) \<noteq> [])"
proof -
  obtain valid reason message e where g:
    "getAllValidSyncTargetsForPlacement cl sel E now p = (valid, reason, message, e)"
    by (cases "getAllValidSyncTargetsForPlacement cl sel E now p") auto
  with assms(2) have e: "e = None"
    by (auto simp: placementSchedulingReconciler_reconcile_def Let_def split: if_splits)
  have mem: "valid \<noteq> [] \<Longrightarrow> valid ! rand_Intn draw (length valid) \<in> set valid" by (rule rand_choice_mem)
  have g2: "getAllValidSyncTargetsForPlacement cl sel E now p2 = (valid, reason, message, None)"
    using assms(2,3) g e
    by (auto simp: placementSchedulingReconciler_reconcile_def patchPlacementAnnotation_def Let_def split: if_splits)
  have s2: "if valid = [] then go_get (Annotations p2) InternalSyncTargetPlacementAnnotationKey = None
     else \<exists>st \<in> set valid. go_get (Annotations p2) InternalSyncTargetPlacementAnnotationKey = Some (sync_target_key H st)"
    using assms(2,3) g e mem
    by (auto simp: placementSchedulingReconciler_reconcile_def patchPlacementAnnotation_def Let_def
        apply_annotation_patch_def gm.lookup_assign split: if_splits)
  show ?thesis
    using assms(4) g g2 s2 cond_lawsD [OF assms(1)]
    by (cases "valid = []") (auto simp: placementSchedulingReconciler_reconcile_def Let_def)
qed

definition ex_env :: placement_env where
  "ex_env = \<lparr>env_listSyncTargets = (\<lambda>_. Inr [ex_target]), env_apiBindings = (\<lambda>_. Inr []),
     env_getLocation = (\<lambda>_ _. Inr ex_location)\<rparr>"

definition ex_bound :: placement where
  "ex_bound = ex_placement PlacementBound (Some \<lparr>lref_Path = ''compute'', lref_LocationName = ''loc''\<rparr>) None"

lemma ex_valid_targets:
  "getAllValidSyncTargetsForPlacement basic_conditions basic_selector ex_env now (ex_bound\<lparr>Annotations := a\<rparr>) = ([ex_target], [], [], None)"
  by (simp add: getAllValidSyncTargetsForPlacement_def ex_env_def ex_bound_def LocationSyncTargets_def filterAPICompatible_def
      listWorkloadAPIBindings_def is_ready_def non_evicting_def has_status_def instance_defs ex_object_defs)

lemma ex_schedule:
  "placementSchedulingReconciler_reconcile basic_hash basic_conditions basic_selector ex_env (\<lambda>_. Inr ex_bound) now draw ex_bound =
     (StopAndRequeue, ex_bound, [(InternalSyncTargetPlacementAnnotationKey, Some (sync_target_key basic_hash ex_target))], None)"
proof -
  have "Annotations ex_bound = None" "ex_bound\<lparr>Annotations := None\<rparr> = ex_bound"
    by (simp_all add: ex_bound_def ex_object_defs)
  with ex_valid_targets [of now None] show ?thesis
  by (simp add: placementSchedulingReconciler_reconcile_def patchPlacementAnnotation_def rand_Intn_def)
qed

theorem scheduled_target_is_valid_witness:
  "valid_target basic_conditions basic_selector ex_env 0 ex_bound ex_location ex_target
   \<and> placementSchedulingReconciler_reconcile basic_hash basic_conditions basic_selector ex_env (\<lambda>_. Inr ex_bound) 0 0 ex_bound
       = (StopAndRequeue, ex_bound, [(InternalSyncTargetPlacementAnnotationKey, Some (sync_target_key basic_hash ex_target))], None)"
proof
  show "valid_target basic_conditions basic_selector ex_env 0 ex_bound ex_location ex_target"
    using scheduled_target_is_valid [OF ex_schedule [of 0 0], of InternalSyncTargetPlacementAnnotationKey]
    by (auto simp: valid_target_def ex_env_def)
qed (rule ex_schedule)

theorem placement_scheduling_converges_witness:
  "\<exists>p2'. placementSchedulingReconciler_reconcile basic_hash basic_conditions basic_selector ex_env (\<lambda>_. Inr ex_bound) 0 1
      (apply_annotation_patch (InternalSyncTargetPlacementAnnotationKey, Some (sync_target_key basic_hash ex_target)) ex_bound)
    = (WContinue, p2', [], None) \<and> IsTrue basic_conditions (p_Conditions (p_Status p2')) PlacementScheduled"
proof -
  let ?p = "apply_annotation_patch (InternalSyncTargetPlacementAnnotationKey, Some (sync_target_key basic_hash ex_target)) ex_bound"
  obtain s2 p2' q2 e2 where r: "placementSchedulingReconciler_reconcile basic_hash basic_conditions basic_selector ex_env
      (\<lambda>_. Inr ex_bound) 0 1 ?p = (s2, p2', q2, e2)"
    by (rule prod_cases4)
  have "ex_bound\<lparr>Annotations := None\<rparr> = ex_bound" by (simp add: ex_bound_def ex_object_defs)
  with ex_valid_targets [of 0 None] have "fst (getAllValidSyncTargetsForPlacement basic_conditions basic_selector ex_env 0 ex_bound) \<noteq> []"
    by simp
  with placement_scheduling_converges [OF basic_conditions_laws(1) ex_schedule [of 0 0] _ r] r show ?thesis by simp
qed

end
