(* ===== verification/Merge_Patch.thy ===== *)
theory Merge_Patch
  imports API_Types
begin

text \<open>
  JSON merge patches of string maps, as the controllers send them: a patch maps a key to a new value,
  or to \<open>null\<close> (\<open>None\<close>), which removes it. \<open>apply_map_patch\<close> is the effect of the API server (RFC 7386)
  on the labels or annotations of an object; the other definitions are set and map operations of the
  sources, \<open>sets.Set\<close> and \<open>reflect.DeepEqual\<close> on maps.
\<close>

type_synonym map_patch = "(string \<times> string option) list"

definition patch_entry :: "string \<times> string option \<Rightarrow> smap \<Rightarrow> smap" where
  "patch_entry e m = (case e of (k, Some v) \<Rightarrow> Some (go_put k v (entries m)) | (k, None) \<Rightarrow> go_del k m)"

definition apply_map_patch :: "map_patch \<Rightarrow> smap \<Rightarrow> smap" where
  "apply_map_patch p m = foldr patch_entry p m"

definition set_equal :: "string list \<Rightarrow> string list \<Rightarrow> bool" where
  "set_equal a b \<longleftrightarrow> set a = set b"

definition set_difference :: "string list \<Rightarrow> string list \<Rightarrow> string list" where
  "set_difference a b = filter (\<lambda>x. x \<notin> set b) a"

definition set_intersection :: "string list \<Rightarrow> string list \<Rightarrow> string list" where
  "set_intersection a b = filter (\<lambda>x. x \<in> set b) a"

text \<open>\<open>sets.List\<close>: the elements in order.\<close>

definition set_list :: "string list \<Rightarrow> string list" where
  "set_list a = sort a"

definition map_equal :: "(string \<times> string) list \<Rightarrow> (string \<times> string) list \<Rightarrow> bool" where
  "map_equal a b \<longleftrightarrow> (\<forall>k \<in> set (map fst (a @ b)). map_of a k = map_of b k)"

lemma go_get_apply_patch:
  "go_get (apply_map_patch p m) k = (case map_of p k of None \<Rightarrow> go_get m k | Some v \<Rightarrow> v)"
proof (induction p)
  case (Cons e p)
  obtain k' v where e: "e = (k', v)" by fastforce
  from Cons show ?case
    by (cases v) (auto simp: apply_map_patch_def patch_entry_def e gm.lookup_assign)
qed (simp add: apply_map_patch_def)

lemma apply_no_patch [simp]: "apply_map_patch [] m = m"
  by (simp add: apply_map_patch_def)

lemma map_equal_iff: "map_equal a b \<longleftrightarrow> map_of a = map_of b"
proof
  assume e: "map_equal a b"
  have "map_of a k = map_of b k" for k
  proof (cases "k \<in> set (map fst (a @ b))")
    case False
    then have "map_of a k = None" "map_of b k = None" by (simp_all add: map_of_eq_None_iff)
    then show ?thesis by simp
  qed (use e in \<open>simp add: map_equal_def\<close>)
  then show "map_of a = map_of b" by blast
qed (simp add: map_equal_def)

lemma set_ops [simp]:
  "set (set_difference a b) = set a - set b" "set (set_intersection a b) = set a \<inter> set b" "set (set_list a) = set a"
  by (auto simp: set_difference_def set_intersection_def set_list_def)

end
