(* ===== verification/Namespace_Scheduler.thy ===== *)
theory Namespace_Scheduler
  imports Scheduling_Placement
begin

text \<open>
  \<^verbatim>\<open>src/pkg/reconciler/workload/namespace\<close>: the controller that labels a namespace with the sync
  targets of its placements. Its three reconcilers bind the namespace to placements, drive one small
  state machine per sync target in the namespace's labels and annotations, and report a condition.

  \<open>Inl\<close> of a result is a panic. The clock is read once per sync target of a loop: \<open>now t\<close> is the
  reading of \<open>c.now()\<close> and \<open>wall t\<close> the one of \<open>time.Until\<close> in the iteration of \<open>t\<close>.
\<close>

section \<open>Binding placements\<close>

record reconcile_result =
  rr_stop :: bool
  rr_requeueAfter :: duration

definition no_result :: reconcile_result where
  "no_result = \<lparr>rr_stop = False, rr_requeueAfter = 0\<rparr>"

definition isPlacementValidForNS :: "selector_lib \<Rightarrow> namespace \<Rightarrow> placement \<Rightarrow> bool" where
  "isPlacementValidForNS sel ns p =
     (case sel (NamespaceSelector (p_Spec p)) of Inl _ \<Rightarrow> False | Inr matches \<Rightarrow> matches (Labels ns))"

definition valid_placement :: "cond_lib \<Rightarrow> selector_lib \<Rightarrow> namespace \<Rightarrow> placement \<Rightarrow> bool" where
  "valid_placement cl sel ns p =
     (Phase (p_Status p) \<noteq> PlacementPending \<and> \<not> IsFalse cl (p_Conditions (p_Status p)) PlacementReady
      \<and> isPlacementValidForNS sel ns p)"

fun filterValidPlacements :: "cond_lib \<Rightarrow> selector_lib \<Rightarrow> namespace \<Rightarrow> placement list \<Rightarrow> placement list" where
  "filterValidPlacements cl sel ns [] = []"
| "filterValidPlacements cl sel ns (p # ps) =
     (if valid_placement cl sel ns p then p # filterValidPlacements cl sel ns ps
      else filterValidPlacements cl sel ns ps)"

definition validPlacements ::
  "cond_lib \<Rightarrow> selector_lib \<Rightarrow> (string \<Rightarrow> go_error + placement list) \<Rightarrow> namespace \<Rightarrow> go_error + placement list" where
  "validPlacements cl sel listPlacements ns =
     (case listPlacements (Cluster ns) of Inl e \<Rightarrow> Inl e | Inr ps \<Rightarrow> Inr (filterValidPlacements cl sel ns ps))"

definition reconcilePlacementBind ::
  "cond_lib \<Rightarrow> selector_lib \<Rightarrow> (string \<Rightarrow> go_error + placement list) \<Rightarrow> namespace
     \<Rightarrow> go_error + (reconcile_result \<times> namespace \<times> go_error option)" where
  "reconcilePlacementBind cl sel listPlacements ns =
     (case validPlacements cl sel listPlacements ns of
        Inl e \<Rightarrow> Inr (no_result\<lparr>rr_stop := True\<rparr>, ns, Some e)
      | Inr valid \<Rightarrow>
          (let hasPlacement = go_has (Annotations ns) PlacementAnnotationKey;
               shouldHavePlacement = (valid \<noteq> []) in
           if shouldHavePlacement = hasPlacement then Inr (no_result, ns, None)
           else if shouldHavePlacement then
             bindE (go_set (go_make (Annotations ns)) PlacementAnnotationKey []) (\<lambda>a.
               Inr (no_result\<lparr>rr_stop := True\<rparr>, ns\<lparr>Annotations := a\<rparr>, None))
           else
             Inr (no_result\<lparr>rr_stop := True\<rparr>, ns\<lparr>Annotations := go_del PlacementAnnotationKey (Annotations ns)\<rparr>, None)))"

section \<open>Scheduling\<close>

definition removingGracePeriod :: duration where
  "removingGracePeriod = 5 * second"

record namespaceSyncStatus =
  ss_active :: "string list"
  ss_pendingRemoval :: "(string \<times> time) list"

definition sync_status_step :: "rfc3339 \<Rightarrow> smap \<Rightarrow> string \<times> string \<Rightarrow> namespaceSyncStatus \<Rightarrow> namespaceSyncStatus" where
  "sync_status_step rfc annotations kv status =
     (if \<not> has_prefix (fst kv) ClusterResourceStateLabelPrefix then status
      else
        (let syncTarget = trim_prefix (fst kv) ClusterResourceStateLabelPrefix in
         case go_get annotations (deletion_annotation syncTarget) of
           Some v \<Rightarrow> status\<lparr>ss_pendingRemoval := go_put syncTarget (parsed_or_zero rfc v) (ss_pendingRemoval status)\<rparr>
         | None \<Rightarrow> status\<lparr>ss_active := set_insert syncTarget (ss_active status)\<rparr>))"

definition syncStatusFor :: "rfc3339 \<Rightarrow> namespace \<Rightarrow> namespaceSyncStatus" where
  "syncStatusFor rfc ns =
     fold (sync_status_step rfc (Annotations ns)) (entries (Labels ns)) \<lparr>ss_active = [], ss_pendingRemoval = []\<rparr>"

text \<open>The sync targets of the valid placements, from the annotation each placement carries.\<close>

definition scheduled_step :: "placement \<Rightarrow> string list \<Rightarrow> string list" where
  "scheduled_step p targets =
     (case go_get (Annotations p) InternalSyncTargetPlacementAnnotationKey of
        None \<Rightarrow> targets | Some currentScheduled \<Rightarrow> set_insert currentScheduled targets)"

definition scheduledSyncTargets :: "placement list \<Rightarrow> string list" where
  "scheduledSyncTargets ps = fold scheduled_step ps []"

text \<open>Step 3: mark the active sync targets that are no longer scheduled as removing.\<close>

definition mark_removing ::
  "rfc3339 \<Rightarrow> (string \<Rightarrow> time) \<Rightarrow> string list \<Rightarrow> smap \<times> bool \<Rightarrow> string \<Rightarrow> go_error + (smap \<times> bool)" where
  "mark_removing rfc now scheduled st syncTarget =
     (case st of (annotations, changed) \<Rightarrow>
        if syncTarget \<notin> set scheduled then
          bindE (go_set annotations (deletion_annotation syncTarget) (fmt_time rfc (now syncTarget)))
            (\<lambda>a. Inr (a, True))
        else Inr (annotations, changed))"

text \<open>Step 4: remove the sync targets whose grace period is over, and find the next one to end.\<close>

type_synonym removal_state = "smap \<times> smap \<times> bool \<times> duration"

definition remove_expired ::
  "(string \<Rightarrow> time) \<Rightarrow> (string \<Rightarrow> time) \<Rightarrow> string \<times> time \<Rightarrow> removal_state \<Rightarrow> removal_state" where
  "remove_expired now wall pr st =
     (case pr of (cluster, removingTime) \<Rightarrow>
      case st of (labels, annotations, changed, minEnqueueDuration) \<Rightarrow>
        if removingTime + removingGracePeriod < now cluster then
          (go_del (state_label cluster) labels, go_del (deletion_annotation cluster) annotations, True, minEnqueueDuration)
        else
          (let enqueueDuration = time_sub (removingTime + removingGracePeriod) (wall cluster) in
           (labels, annotations, changed,
            if enqueueDuration < minEnqueueDuration then enqueueDuration else minEnqueueDuration)))"

text \<open>Step 5: label the scheduled sync targets that are neither active nor being removed.\<close>

definition add_scheduled :: "namespaceSyncStatus \<Rightarrow> string \<Rightarrow> smap \<times> bool \<Rightarrow> smap \<times> bool" where
  "add_scheduled status target st =
     (case st of (labels, changed) \<Rightarrow>
        if target \<in> set (ss_active status) then st
        else if map_of (ss_pendingRemoval status) target \<noteq> None then st
        else (Some (go_put (state_label target) ResourceStateSync (entries labels)), True))"

definition reconcileScheduling ::
  "rfc3339 \<Rightarrow> cond_lib \<Rightarrow> selector_lib \<Rightarrow> (string \<Rightarrow> go_error + placement list) \<Rightarrow> (string \<Rightarrow> time) \<Rightarrow> (string \<Rightarrow> time)
     \<Rightarrow> namespace \<Rightarrow> go_error + (reconcile_result \<times> namespace \<times> go_error option)" where
  "reconcileScheduling rfc cl sel listPlacements now wall ns =
     (case (if go_has (Annotations ns) PlacementAnnotationKey then validPlacements cl sel listPlacements ns else Inr []) of
        Inl e \<Rightarrow> Inr (no_result, ns, Some e)
      | Inr valid \<Rightarrow>
          (let scheduled = scheduledSyncTargets valid; status = syncStatusFor rfc ns in
           bindE (foldE (mark_removing rfc now scheduled) (Annotations ns, False) (ss_active status)) (\<lambda>(annotations, changed).
             case fold (remove_expired now wall) (ss_pendingRemoval status)
                    (Labels ns, annotations, changed, removingGracePeriod + 1) of
               (labels, annotations', changed', minEnqueueDuration) \<Rightarrow>
             case fold (add_scheduled status) scheduled (labels, changed') of (labels', changed'') \<Rightarrow>
               Inr (\<lparr>rr_stop = changed'',
                     rr_requeueAfter = (if minEnqueueDuration \<le> removingGracePeriod then minEnqueueDuration else 0)\<rparr>,
                    ns\<lparr>Labels := labels', Annotations := annotations'\<rparr>, None))))"

section \<open>Status\<close>

definition NamespaceScheduled :: string where "NamespaceScheduled = ''NamespaceScheduled''"
definition NamespaceReasonUnschedulable :: string where "NamespaceReasonUnschedulable = ''Unschedulable''"

text \<open>The adapter between namespace conditions, which have no severity, and the conditions helpers.\<close>

definition NamespaceConditionsAdapter_GetConditions :: "namespace \<Rightarrow> conditions" where
  "NamespaceConditionsAdapter_GetConditions ns =
     map (\<lambda>c. \<lparr>c_Type = nc_Type c, c_Status = nc_Status c, c_Severity = ConditionSeverityNone,
               c_LastTransitionTime = nc_LastTransitionTime c, c_Reason = nc_Reason c, c_Message = nc_Message c\<rparr>)
       (ns_Conditions (ns_Status ns))"

definition NamespaceConditionsAdapter_SetConditions :: "conditions \<Rightarrow> namespace \<Rightarrow> namespace" where
  "NamespaceConditionsAdapter_SetConditions cs ns =
     ns\<lparr>ns_Status := (ns_Status ns)\<lparr>ns_Conditions :=
       map (\<lambda>c. \<lparr>nc_Type = c_Type c, nc_Status = c_Status c, nc_LastTransitionTime = c_LastTransitionTime c,
                 nc_Reason = c_Reason c, nc_Message = c_Message c\<rparr>) cs\<rparr>\<rparr>"

definition on_namespace_conditions :: "(conditions \<Rightarrow> conditions) \<Rightarrow> namespace \<Rightarrow> namespace" where
  "on_namespace_conditions f ns =
     NamespaceConditionsAdapter_SetConditions (f (NamespaceConditionsAdapter_GetConditions ns)) ns"

definition ns_reconcileStatus ::
  "rfc3339 \<Rightarrow> cond_lib \<Rightarrow> namespace \<Rightarrow> go_error + (reconcile_result \<times> namespace \<times> go_error option)" where
  "ns_reconcileStatus rfc cl ns =
     (if \<not> go_has (Annotations ns) PlacementAnnotationKey then
        Inr (no_result, on_namespace_conditions
          (MarkFalse cl NamespaceScheduled NamespaceReasonUnschedulable ConditionSeverityNone ''No available placements'') ns, None)
      else if ss_active (syncStatusFor rfc ns) = [] then
        Inr (no_result, on_namespace_conditions
          (MarkFalse cl NamespaceScheduled NamespaceReasonUnschedulable ConditionSeverityNone ''No available sync targets'') ns, None)
      else Inr (no_result, on_namespace_conditions (MarkTrue cl NamespaceScheduled) ns, None))"

section \<open>The controller\<close>

text \<open>\<open>controller.reconcile\<close>: the result is the object, the delays of \<open>queue.AddAfter\<close>, and the error.\<close>

fun ns_run ::
  "(namespace \<Rightarrow> go_error + (reconcile_result \<times> namespace \<times> go_error option)) list \<Rightarrow> namespace \<Rightarrow> duration list
     \<Rightarrow> go_error + (namespace \<times> duration list \<times> go_error list)" where
  "ns_run [] ns q = Inr (ns, q, [])"
| "ns_run (r # rs) ns q =
     bindE (r ns) (\<lambda>(result, ns', err).
       case err of Some e \<Rightarrow> Inr (ns', q, [e])
       | None \<Rightarrow>
           if rr_stop result then Inr (ns', q, [])
           else ns_run rs ns' (if rr_requeueAfter result > 0 then q @ [rr_requeueAfter result] else q))"

definition namespace_reconcile ::
  "rfc3339 \<Rightarrow> cond_lib \<Rightarrow> selector_lib \<Rightarrow> (string \<Rightarrow> go_error + placement list) \<Rightarrow> (string \<Rightarrow> time) \<Rightarrow> (string \<Rightarrow> time)
     \<Rightarrow> namespace \<Rightarrow> go_error + (namespace \<times> duration list \<times> go_error list)" where
  "namespace_reconcile rfc cl sel listPlacements now wall ns =
     ns_run [reconcilePlacementBind cl sel listPlacements,
             reconcileScheduling rfc cl sel listPlacements now wall,
             ns_reconcileStatus rfc cl] ns []"

definition namespace_object ::
  "rfc3339 \<Rightarrow> cond_lib \<Rightarrow> selector_lib \<Rightarrow> (string \<Rightarrow> go_error + placement list) \<Rightarrow> (string \<Rightarrow> time) \<Rightarrow> (string \<Rightarrow> time)
     \<Rightarrow> namespace \<Rightarrow> go_error + (namespace \<times> go_error list)" where
  "namespace_object rfc cl sel listPlacements now wall ns =
     bindE (namespace_reconcile rfc cl sel listPlacements now wall ns) (\<lambda>(ns', q, errs). Inr (ns', errs))"

definition namespace_resource :: "namespace \<Rightarrow> (string list, namespace_status) resource" where
  "namespace_resource ns =
     \<lparr>r_ObjectMeta = object_meta.truncate ns, r_Spec = Some (ns_Spec ns), r_Status = Some (ns_Status ns)\<rparr>"

definition namespace_process ::
  "rfc3339 \<Rightarrow> cond_lib \<Rightarrow> selector_lib \<Rightarrow> (string list, namespace_status) commit_lib
     \<Rightarrow> (string \<Rightarrow> go_error + placement list) \<Rightarrow> (string \<Rightarrow> patch_call \<Rightarrow> go_error option)
     \<Rightarrow> (string \<Rightarrow> time) \<Rightarrow> (string \<Rightarrow> time) \<Rightarrow> go_error + namespace \<Rightarrow> patch_call list \<times> go_error list" where
  "namespace_process rfc cl sel L listPlacements patcher now wall lookup =
     (case lookup of
        Inl NotFound \<Rightarrow> ([], [])
      | Inl e \<Rightarrow> ([], [e])
      | Inr ns \<Rightarrow> process_commit (NewCommitter L ''*v1.Namespace'' patcher) namespace_resource ns
                   (namespace_object rfc cl sel listPlacements now wall ns))"

section \<open>Lemmas\<close>

interpretation validpl: stable_filter "filterValidPlacements cl sel ns" "valid_placement cl sel ns" for cl sel ns
proof
  show "filterValidPlacements cl sel ns xs = filter (valid_placement cl sel ns) xs" for xs by (induction xs) simp_all
qed

lemma status_fold_active:
  "set (ss_active (fold (sync_status_step rfc a) es st)) =
     set (ss_active st) \<union> {t. state_label t \<in> fst ` set es \<and> go_get a (deletion_annotation t) = None}"
proof (induction es arbitrary: st)
  case (Cons kv es)
  have "set (ss_active (sync_status_step rfc a kv st)) =
      set (ss_active st) \<union> {t. state_label t = fst kv \<and> go_get a (deletion_annotation t) = None}"
  proof (cases "has_prefix (fst kv) ClusterResourceStateLabelPrefix")
    case True
    then obtain t where "fst kv = state_label t" by (auto simp: state_key.is_key_iff)
    then show ?thesis by (auto simp: sync_status_step_def Let_def split: option.splits)
  next
    case False
    then have "state_label t \<noteq> fst kv" for t by (metis state_key.is_key_enc)
    with False show ?thesis by (simp add: sync_status_step_def)
  qed
  with Cons [of "sync_status_step rfc a kv st"] show ?case by auto
qed simp

lemma status_fold_pending:
  "map_of (ss_pendingRemoval (fold (sync_status_step rfc a) es st)) t =
     (if state_label t \<in> fst ` set es \<and> go_has a (deletion_annotation t)
      then map_option (parsed_or_zero rfc) (go_get a (deletion_annotation t))
      else map_of (ss_pendingRemoval st) t)"
proof (induction es arbitrary: st)
  case (Cons kv es)
  have "map_of (ss_pendingRemoval (sync_status_step rfc a kv st)) t =
      (if state_label t = fst kv \<and> go_has a (deletion_annotation t)
       then map_option (parsed_or_zero rfc) (go_get a (deletion_annotation t))
       else map_of (ss_pendingRemoval st) t)"
  proof (cases "has_prefix (fst kv) ClusterResourceStateLabelPrefix")
    case True
    then obtain t where "fst kv = state_label t" by (auto simp: state_key.is_key_iff)
    then show ?thesis
      by (auto simp: sync_status_step_def Let_def go_has_def go_put_def update_conv' split: option.splits)
  next
    case False
    then have "state_label t \<noteq> fst kv" by (metis state_key.is_key_enc)
    with False show ?thesis by (simp add: sync_status_step_def)
  qed
  with Cons [of "sync_status_step rfc a kv st"] show ?case by auto
qed simp

lemma status_fold_distinct:
  "distinct (ss_active st) \<Longrightarrow> distinct (map fst (ss_pendingRemoval st)) \<Longrightarrow>
     distinct (ss_active (fold (sync_status_step rfc a) es st))
     \<and> distinct (map fst (ss_pendingRemoval (fold (sync_status_step rfc a) es st)))"
proof (induction es arbitrary: st)
  case (Cons kv es)
  then have "distinct (ss_active (sync_status_step rfc a kv st))"
    "distinct (map fst (ss_pendingRemoval (sync_status_step rfc a kv st)))"
    by (auto simp: sync_status_step_def Let_def go_put_def distinct_update split: option.splits)
  with Cons.IH show ?case by simp
qed simp

lemma active_iff:
  "t \<in> set (ss_active (syncStatusFor rfc ns)) \<longleftrightarrow>
     go_has (Labels ns) (state_label t) \<and> go_get (Annotations ns) (deletion_annotation t) = None"
  by (auto simp: syncStatusFor_def status_fold_active go_has_iff_key)

lemma pending_iff:
  "map_of (ss_pendingRemoval (syncStatusFor rfc ns)) t =
     (if go_has (Labels ns) (state_label t)
      then map_option (parsed_or_zero rfc) (go_get (Annotations ns) (deletion_annotation t)) else None)"
  by (auto simp: syncStatusFor_def status_fold_pending go_has_iff_key [of "Labels ns"] go_has_def [of "Annotations ns"])

lemma syncStatus_distinct:
  "distinct (ss_active (syncStatusFor rfc ns))" "distinct (map fst (ss_pendingRemoval (syncStatusFor rfc ns)))"
  using status_fold_distinct [of "\<lparr>ss_active = [], ss_pendingRemoval = []\<rparr>" rfc "Annotations ns" "entries (Labels ns)"]
  by (simp_all add: syncStatusFor_def)

lemma pending_mem:
  "(t, rt) \<in> set (ss_pendingRemoval (syncStatusFor rfc ns)) \<longleftrightarrow>
     go_has (Labels ns) (state_label t)
     \<and> (\<exists>v. go_get (Annotations ns) (deletion_annotation t) = Some v \<and> rt = parsed_or_zero rfc v)"
proof -
  have "(t, rt) \<in> set (ss_pendingRemoval (syncStatusFor rfc ns)) \<longleftrightarrow>
      map_of (ss_pendingRemoval (syncStatusFor rfc ns)) t = Some rt"
    by (simp add: syncStatus_distinct)
  then show ?thesis by (auto simp: pending_iff)
qed

lemma set_scheduled:
  "t \<in> set (scheduledSyncTargets ps) \<longleftrightarrow>
     (\<exists>p \<in> set ps. go_get (Annotations p) InternalSyncTargetPlacementAnnotationKey = Some t)"
proof -
  have "t \<in> set (fold scheduled_step ps acc) \<longleftrightarrow> t \<in> set acc \<or>
      (\<exists>p \<in> set ps. go_get (Annotations p) InternalSyncTargetPlacementAnnotationKey = Some t)" for acc
    by (induction ps arbitrary: acc) (auto simp: scheduled_step_def split: option.splits)
  then show ?thesis by (simp add: scheduledSyncTargets_def)
qed

text \<open>The three loops.\<close>

lemma mark_removing_loop:
  "distinct ts \<Longrightarrow> \<exists>l'. foldE (mark_removing rfc now sched) (Some l, c) ts = Inr (Some l', c \<or> (\<exists>t \<in> set ts. t \<notin> set sched))
     \<and> (\<forall>t. go_get (Some l') (deletion_annotation t) =
           (if t \<in> set ts \<and> t \<notin> set sched then Some (fmt_time rfc (now t)) else go_get (Some l) (deletion_annotation t)))
     \<and> (\<forall>k. (\<forall>t. k \<noteq> deletion_annotation t) \<longrightarrow> go_get (Some l') k = go_get (Some l) k)
     \<and> (set ts \<subseteq> set sched \<longrightarrow> l' = l)"
proof (induction ts arbitrary: l c)
  case (Cons t ts)
  then have d: "distinct ts" "t \<notin> set ts" by simp_all
  define l0 where "l0 = (if t \<in> set sched then l else go_put (deletion_annotation t) (fmt_time rfc (now t)) l)"
  have step: "foldE (mark_removing rfc now sched) (Some l, c) (t # ts) =
      foldE (mark_removing rfc now sched) (Some l0, c \<or> t \<notin> set sched) ts"
    by (simp add: mark_removing_def l0_def)
  obtain l' where l': "foldE (mark_removing rfc now sched) (Some l0, c \<or> t \<notin> set sched) ts
       = Inr (Some l', (c \<or> t \<notin> set sched) \<or> (\<exists>t \<in> set ts. t \<notin> set sched))"
    "\<And>s. go_get (Some l') (deletion_annotation s) =
           (if s \<in> set ts \<and> s \<notin> set sched then Some (fmt_time rfc (now s)) else go_get (Some l0) (deletion_annotation s))"
    "\<And>k. (\<forall>t. k \<noteq> deletion_annotation t) \<Longrightarrow> go_get (Some l') k = go_get (Some l0) k"
    "set ts \<subseteq> set sched \<Longrightarrow> l' = l0"
    using Cons.IH [OF d(1), of l0 "c \<or> t \<notin> set sched"] by blast
  show ?case unfolding step l'(1)
    by (intro exI [of _ l']) (use l'(2-4) d in \<open>auto simp: l0_def\<close>)
qed simp

definition expired :: "(string \<Rightarrow> time) \<Rightarrow> (string \<times> time) list \<Rightarrow> string \<Rightarrow> bool" where
  "expired now prs t \<longleftrightarrow> (\<exists>rt. (t, rt) \<in> set prs \<and> rt + removingGracePeriod < now t)"

lemma remove_expired_loop:
  "fold (remove_expired now wall) prs (l, a, c, d) = (l', a', c', d') \<Longrightarrow>
     (\<forall>k. go_get l' k = (if \<exists>t. k = state_label t \<and> expired now prs t then None else go_get l k))
   \<and> (\<forall>k. go_get a' k = (if \<exists>t. k = deletion_annotation t \<and> expired now prs t then None else go_get a k))
   \<and> (c' \<longleftrightarrow> c \<or> (\<exists>t. expired now prs t)) \<and> ((\<forall>t. \<not> expired now prs t) \<longrightarrow> l' = l \<and> a' = a)"
proof (induction prs arbitrary: l a c d)
  case (Cons pr prs)
  obtain t rt where pr: "pr = (t, rt)" by fastforce
  let ?exp = "rt + removingGracePeriod < now t"
  obtain l1 a1 c1 d1 where s1: "remove_expired now wall pr (l, a, c, d) = (l1, a1, c1, d1)"
    by (cases "remove_expired now wall pr (l, a, c, d)") auto
  then have first: "l1 = (if ?exp then go_del (state_label t) l else l)"
    "a1 = (if ?exp then go_del (deletion_annotation t) a else a)" "c1 \<longleftrightarrow> c \<or> ?exp"
    by (auto simp: remove_expired_def pr Let_def split: if_splits)
  have ex: "expired now (pr # prs) s \<longleftrightarrow> (s = t \<and> ?exp) \<or> expired now prs s" for s
    by (auto simp: expired_def pr)
  from Cons.prems s1 have "fold (remove_expired now wall) prs (l1, a1, c1, d1) = (l', a', c', d')" by simp
  from Cons.IH [OF this] first show ?case by (cases ?exp) (auto simp: ex)
qed (auto simp: expired_def)

lemma add_scheduled_loop:
  "fold (add_scheduled status) ts (l, c) = (l', c') \<Longrightarrow>
     (\<forall>k. go_get l' k = (if \<exists>t \<in> set ts. k = state_label t \<and> t \<notin> set (ss_active status) \<and> map_of (ss_pendingRemoval status) t = None
           then Some ResourceStateSync else go_get l k))
   \<and> (c' \<longleftrightarrow> c \<or> (\<exists>t \<in> set ts. t \<notin> set (ss_active status) \<and> map_of (ss_pendingRemoval status) t = None))
   \<and> (c' \<or> l' = l)"
proof (induction ts arbitrary: l c)
  case (Cons t ts)
  obtain l1 c1 where st: "add_scheduled status t (l, c) = (l1, c1)" by fastforce
  with Cons.prems have "fold (add_scheduled status) ts (l1, c1) = (l', c')" by simp
  from Cons.IH [OF this] st show ?case
    by (auto simp: add_scheduled_def gm.lookup_assign split: if_splits)
qed simp

text \<open>
  The state of one sync target in a namespace, and one step of it: \<open>Stale\<close> is a deletion annotation
  left without a label.
\<close>

datatype target_state = Unscheduled | Stale time | Active | Removing time

definition target_state :: "rfc3339 \<Rightarrow> namespace \<Rightarrow> string \<Rightarrow> target_state" where
  "target_state rfc ns t =
     (case (go_get (Labels ns) (state_label t), go_get (Annotations ns) (deletion_annotation t)) of
        (None, None) \<Rightarrow> Unscheduled
      | (None, Some v) \<Rightarrow> Stale (parsed_or_zero rfc v)
      | (Some _, None) \<Rightarrow> Active
      | (Some _, Some v) \<Rightarrow> Removing (parsed_or_zero rfc v))"

fun target_step :: "rfc3339 \<Rightarrow> bool \<Rightarrow> time \<Rightarrow> target_state \<Rightarrow> target_state" where
  "target_step rfc sched now Unscheduled = (if sched then Active else Unscheduled)"
| "target_step rfc sched now (Stale rt) = (if sched then Removing rt else Stale rt)"
| "target_step rfc sched now Active = (if sched then Active else Removing (parsed_or_zero rfc (fmt_time rfc now)))"
| "target_step rfc sched now (Removing rt) = (if rt + removingGracePeriod < now then Unscheduled else Removing rt)"

text \<open>The effect of \<open>reconcileScheduling\<close> on the labels and annotations, key by key.\<close>

definition scheduled_for :: "cond_lib \<Rightarrow> selector_lib \<Rightarrow> placement list \<Rightarrow> namespace \<Rightarrow> string \<Rightarrow> bool" where
  "scheduled_for cl sel ps ns t \<longleftrightarrow> go_has (Annotations ns) PlacementAnnotationKey
     \<and> (\<exists>p \<in> set ps. valid_placement cl sel ns p \<and> go_get (Annotations p) InternalSyncTargetPlacementAnnotationKey = Some t)"

lemma reconcileScheduling_parts:
  assumes "listPlacements (Cluster ns) = Inr ps" "Annotations ns \<noteq> None"
    and "reconcileScheduling rfc cl sel listPlacements now wall ns = Inr (res, ns', err)"
    and st: "st = syncStatusFor rfc ns"
  obtains sched l1 l2 a2 c2 d2 l3 c3 where
    "\<And>t. t \<in> set sched \<longleftrightarrow> scheduled_for cl sel ps ns t"
    "foldE (mark_removing rfc now sched) (Annotations ns, False) (ss_active st)
       = Inr (Some l1, \<exists>t \<in> set (ss_active st). t \<notin> set sched)"
    "fold (remove_expired now wall) (ss_pendingRemoval st)
      (Labels ns, Some l1, \<exists>t \<in> set (ss_active st). t \<notin> set sched, removingGracePeriod + 1) = (l2, a2, c2, d2)"
    "fold (add_scheduled st) sched (l2, c2) = (l3, c3)"
    "res = \<lparr>rr_stop = c3, rr_requeueAfter = (if d2 \<le> removingGracePeriod then d2 else 0)\<rparr>"
    "ns' = ns\<lparr>Labels := l3, Annotations := a2\<rparr>" "err = None"
proof -
  let ?valid = "if go_has (Annotations ns) PlacementAnnotationKey then filterValidPlacements cl sel ns ps else []"
  define sched where "sched = scheduledSyncTargets ?valid"
  have 1: "t \<in> set sched \<longleftrightarrow> scheduled_for cl sel ps ns t" for t
    by (auto simp: sched_def set_scheduled scheduled_for_def validpl.set_flt)
  obtain l where l: "Annotations ns = Some l" using assms(2) by blast
  obtain l1 where 2: "foldE (mark_removing rfc now sched) (Annotations ns, False) (ss_active st)
       = Inr (Some l1, \<exists>t \<in> set (ss_active st). t \<notin> set sched)"
    using mark_removing_loop [OF syncStatus_distinct(1) [of rfc ns], where rfc = rfc and now = now and sched = sched and l = l and c = False]
    unfolding l st simp_thms by blast
  obtain l2 a2 c2 d2 where 3: "fold (remove_expired now wall) (ss_pendingRemoval st)
      (Labels ns, Some l1, \<exists>t \<in> set (ss_active st). t \<notin> set sched, removingGracePeriod + 1) = (l2, a2, c2, d2)"
    by (rule prod_cases4)
  obtain l3 c3 where 4: "fold (add_scheduled st) sched (l2, c2) = (l3, c3)" by fastforce
  have "(if go_has (Annotations ns) PlacementAnnotationKey then validPlacements cl sel listPlacements ns else Inr [])
      = Inr ?valid"
    by (simp add: validPlacements_def assms(1))
  with assms(3) 2 3 4 have
    "res = \<lparr>rr_stop = c3, rr_requeueAfter = (if d2 \<le> removingGracePeriod then d2 else 0)\<rparr>"
    "ns' = ns\<lparr>Labels := l3, Annotations := a2\<rparr>" "err = None"
    by (simp_all add: reconcileScheduling_def Let_def flip: sched_def st)
  with 1 2 3 4 show ?thesis by (rule that)
qed

text \<open>What the loops leave under every key, and when they report a change.\<close>

lemma reconcileScheduling_keys:
  assumes "listPlacements (Cluster ns) = Inr ps" "Annotations ns \<noteq> None"
    and "reconcileScheduling rfc cl sel listPlacements now wall ns = Inr (res, ns', err)"
    and st: "st = syncStatusFor rfc ns"
  obtains l1 l2 a2 d2 l3 where
    "\<And>t. go_get (Some l1) (deletion_annotation t) =
       (if t \<in> set (ss_active st) \<and> \<not> scheduled_for cl sel ps ns t then Some (fmt_time rfc (now t))
        else go_get (Annotations ns) (deletion_annotation t))"
    "\<And>k. (\<forall>t. k \<noteq> deletion_annotation t) \<Longrightarrow> go_get (Some l1) k = go_get (Annotations ns) k"
    "\<And>k. go_get l2 k = (if \<exists>t. k = state_label t \<and> expired now (ss_pendingRemoval st) t then None else go_get (Labels ns) k)"
    "\<And>k. go_get a2 k = (if \<exists>t. k = deletion_annotation t \<and> expired now (ss_pendingRemoval st) t then None else go_get (Some l1) k)"
    "\<And>k. go_get l3 k = (if \<exists>t. scheduled_for cl sel ps ns t \<and> k = state_label t \<and> go_get (Labels ns) k = None
           then Some ResourceStateSync else go_get l2 k)"
    "rr_stop res \<longleftrightarrow> (\<exists>t. expired now (ss_pendingRemoval st) t)
       \<or> (\<exists>t. t \<in> set (ss_active st) \<and> \<not> scheduled_for cl sel ps ns t)
       \<or> (\<exists>t. scheduled_for cl sel ps ns t \<and> go_get (Labels ns) (state_label t) = None)"
    "rr_stop res \<or> (l3 = Labels ns \<and> a2 = Annotations ns)"
    "rr_requeueAfter res = (if d2 \<le> removingGracePeriod then d2 else 0)"
    "ns' = ns\<lparr>Labels := l3, Annotations := a2\<rparr>" "err = None"
proof (rule reconcileScheduling_parts [OF assms])
  fix sched l1 l2 a2 c2 d2 l3 c3
  assume sched: "\<And>t. t \<in> set sched \<longleftrightarrow> scheduled_for cl sel ps ns t"
    and m: "foldE (mark_removing rfc now sched) (Annotations ns, False) (ss_active st)
       = Inr (Some l1, \<exists>t \<in> set (ss_active st). t \<notin> set sched)"
    and r: "fold (remove_expired now wall) (ss_pendingRemoval st)
      (Labels ns, Some l1, \<exists>t \<in> set (ss_active st). t \<notin> set sched, removingGracePeriod + 1) = (l2, a2, c2, d2)"
    and s: "fold (add_scheduled st) sched (l2, c2) = (l3, c3)"
    and res: "res = \<lparr>rr_stop = c3, rr_requeueAfter = (if d2 \<le> removingGracePeriod then d2 else 0)\<rparr>"
    and ns': "ns' = ns\<lparr>Labels := l3, Annotations := a2\<rparr>" "err = None"
  obtain l where l: "Annotations ns = Some l" using assms(2) by blast
  have "distinct (ss_active st)" by (simp add: st syncStatus_distinct)
  from mark_removing_loop [OF this, of rfc now sched l False] m
  have M: "\<And>t. go_get (Some l1) (deletion_annotation t) =
       (if t \<in> set (ss_active st) \<and> t \<notin> set sched then Some (fmt_time rfc (now t)) else go_get (Annotations ns) (deletion_annotation t))"
    "\<And>k. (\<forall>t. k \<noteq> deletion_annotation t) \<Longrightarrow> go_get (Some l1) k = go_get (Annotations ns) k"
    "set (ss_active st) \<subseteq> set sched \<Longrightarrow> l1 = l"
    unfolding l by auto
  note R = remove_expired_loop [OF r, THEN conjunct1] remove_expired_loop [OF r, THEN conjunct2, THEN conjunct1]
    remove_expired_loop [OF r, THEN conjunct2, THEN conjunct2, THEN conjunct1]
    remove_expired_loop [OF r, THEN conjunct2, THEN conjunct2, THEN conjunct2]
  have pend: "t \<notin> set (ss_active st) \<and> map_of (ss_pendingRemoval st) t = None \<longleftrightarrow> go_get (Labels ns) (state_label t) = None" for t
    by (auto simp: st pending_iff active_iff go_has_def)
  note S = add_scheduled_loop [OF s, unfolded pend, THEN conjunct1] add_scheduled_loop [OF s, unfolded pend, THEN conjunct2]
  have stop: "c3 \<longleftrightarrow> (\<exists>t. expired now (ss_pendingRemoval st) t)
       \<or> (\<exists>t. t \<in> set (ss_active st) \<and> \<not> scheduled_for cl sel ps ns t)
       \<or> (\<exists>t. scheduled_for cl sel ps ns t \<and> go_get (Labels ns) (state_label t) = None)"
    using R(3) S(2) by (auto simp: sched)
  have same: "c3 \<or> (l3 = Labels ns \<and> a2 = Annotations ns)"
    using R(4) S(2) M(3) [unfolded subset_iff sched] stop by (auto simp: l)
  have S1: "go_get l3 k = (if \<exists>t. scheduled_for cl sel ps ns t \<and> k = state_label t \<and> go_get (Labels ns) k = None
           then Some ResourceStateSync else go_get l2 k)" for k
    using S(1) [rule_format, of k] unfolding sched [symmetric] Bex_def by metis
  show ?thesis
    by (rule that [OF M(1) [unfolded sched] M(2) R(1,2) [rule_format] S1 _ _ _ ns'])
      (use stop same in \<open>simp_all add: res\<close>)
qed

lemma expired_iff:
  "expired now (ss_pendingRemoval (syncStatusFor rfc ns)) t \<longleftrightarrow>
     (\<exists>rt. target_state rfc ns t = Removing rt \<and> rt + removingGracePeriod < now t)"
  by (auto simp: expired_def pending_mem target_state_def go_has_def split: option.splits)

lemma active_state: "t \<in> set (ss_active (syncStatusFor rfc ns)) \<longleftrightarrow> target_state rfc ns t = Active"
  by (auto simp: active_iff target_state_def go_has_def split: option.splits)

lemma unlabelled_state:
  "go_get (Labels ns) (state_label t) = None \<longleftrightarrow>
     target_state rfc ns t = Unscheduled \<or> (\<exists>rt. target_state rfc ns t = Stale rt)"
  by (auto simp: target_state_def split: option.splits)

lemma reconcileScheduling_step:
  assumes "listPlacements (Cluster ns) = Inr ps" "Annotations ns \<noteq> None"
    and "reconcileScheduling rfc cl sel listPlacements now wall ns = Inr (res, ns', err)"
  shows "target_state rfc ns' t = target_step rfc (scheduled_for cl sel ps ns t) (now t) (target_state rfc ns t)"
proof (rule reconcileScheduling_keys [OF assms refl])
  fix l1 l2 a2 l3
  let ?st = "syncStatusFor rfc ns" and ?sched = "scheduled_for cl sel ps ns t"
  assume l1: "\<And>t. go_get (Some l1) (deletion_annotation t) =
       (if t \<in> set (ss_active ?st) \<and> \<not> scheduled_for cl sel ps ns t then Some (fmt_time rfc (now t))
        else go_get (Annotations ns) (deletion_annotation t))"
    and l2: "\<And>k. go_get l2 k = (if \<exists>t. k = state_label t \<and> expired now (ss_pendingRemoval ?st) t then None else go_get (Labels ns) k)"
    and a2: "\<And>k. go_get a2 k = (if \<exists>t. k = deletion_annotation t \<and> expired now (ss_pendingRemoval ?st) t then None else go_get (Some l1) k)"
    and l3: "\<And>k. go_get l3 k = (if \<exists>t. scheduled_for cl sel ps ns t \<and> k = state_label t \<and> go_get (Labels ns) k = None
           then Some ResourceStateSync else go_get l2 k)"
    and ns': "ns' = ns\<lparr>Labels := l3, Annotations := a2\<rparr>"
  have "go_get (Labels ns') (state_label t) =
      (if ?sched \<and> go_get (Labels ns) (state_label t) = None then Some ResourceStateSync
       else if expired now (ss_pendingRemoval ?st) t then None else go_get (Labels ns) (state_label t))"
    unfolding ns' by (simp add: l3 l2)
  moreover have "go_get (Annotations ns') (deletion_annotation t) =
      (if expired now (ss_pendingRemoval ?st) t then None
       else if target_state rfc ns t = Active \<and> \<not> ?sched then Some (fmt_time rfc (now t))
       else go_get (Annotations ns) (deletion_annotation t))"
    unfolding ns' by (simp add: a2 l1 active_state)
  ultimately show ?thesis
    by (cases "go_get (Labels ns) (state_label t)"; cases "go_get (Annotations ns) (deletion_annotation t)")
       (simp_all add: expired_iff target_state_def [of rfc ns'] target_state_def [of rfc ns])
qed

lemma reconcileScheduling_stop:
  assumes "listPlacements (Cluster ns) = Inr ps" "Annotations ns \<noteq> None"
    and "reconcileScheduling rfc cl sel listPlacements now wall ns = Inr (res, ns', err)"
  shows "rr_stop res \<longleftrightarrow> (\<exists>t. target_step rfc (scheduled_for cl sel ps ns t) (now t) (target_state rfc ns t) \<noteq> target_state rfc ns t)"
    and "\<not> rr_stop res \<Longrightarrow> ns' = ns" and "err = None"
    and "(\<And>t. k \<noteq> state_label t) \<Longrightarrow> go_get (Labels ns') k = go_get (Labels ns) k"
    and "(\<And>t. k \<noteq> deletion_annotation t) \<Longrightarrow> go_get (Annotations ns') k = go_get (Annotations ns) k"
    and "ns_Spec ns' = ns_Spec ns" "ns_Status ns' = ns_Status ns"
proof -
  have change: "target_step rfc b n s \<noteq> s \<longleftrightarrow> (\<exists>rt. s = Removing rt \<and> rt + removingGracePeriod < n) \<or> (s = Active \<and> \<not> b)
      \<or> (b \<and> (s = Unscheduled \<or> (\<exists>rt. s = Stale rt)))" for b n s
    by (cases s) auto
  show "rr_stop res \<longleftrightarrow> (\<exists>t. target_step rfc (scheduled_for cl sel ps ns t) (now t) (target_state rfc ns t) \<noteq> target_state rfc ns t)"
  proof (rule reconcileScheduling_keys [OF assms refl])
    assume "rr_stop res \<longleftrightarrow> (\<exists>t. expired now (ss_pendingRemoval (syncStatusFor rfc ns)) t)
       \<or> (\<exists>t. t \<in> set (ss_active (syncStatusFor rfc ns)) \<and> \<not> scheduled_for cl sel ps ns t)
       \<or> (\<exists>t. scheduled_for cl sel ps ns t \<and> go_get (Labels ns) (state_label t) = None)"
    then show ?thesis unfolding change expired_iff active_state unlabelled_state [of _ _ rfc] by blast
  qed
  obtain l3 a2 where ns': "ns' = ns\<lparr>Labels := l3, Annotations := a2\<rparr>" "err = None"
    "rr_stop res \<or> (l3 = Labels ns \<and> a2 = Annotations ns)"
    by (rule reconcileScheduling_keys [OF assms refl]) (rule that)
  then show "\<not> rr_stop res \<Longrightarrow> ns' = ns" by auto
  show "err = None" "ns_Spec ns' = ns_Spec ns" "ns_Status ns' = ns_Status ns"
    by (simp_all add: ns')
  show "go_get (Labels ns') k = go_get (Labels ns) k" if "\<And>t. k \<noteq> state_label t"
    by (rule reconcileScheduling_keys [OF assms refl]) (simp add: that)
  show "go_get (Annotations ns') k = go_get (Annotations ns) k" if "\<And>t. k \<noteq> deletion_annotation t"
    by (rule reconcileScheduling_keys [OF assms refl]) (simp add: that)
qed

lemma reconcileScheduling_total:
  assumes "Annotations ns \<noteq> None"
  shows "\<exists>r. reconcileScheduling rfc cl sel listPlacements now wall ns = Inr r"
proof -
  obtain l where l: "Annotations ns = Some l" using assms by blast
  have step: "\<exists>x. foldE (mark_removing rfc now sched) (Some l, False) (ss_active (syncStatusFor rfc ns)) = Inr x" for sched
    using mark_removing_loop [OF syncStatus_distinct(1), of rfc now sched l False rfc ns] by blast
  let ?v = "if go_has (Some l) PlacementAnnotationKey then validPlacements cl sel listPlacements ns else Inr []"
  show ?thesis
  proof (cases ?v)
    case (Inr valid)
    from step [of "scheduledSyncTargets valid"] Inr show ?thesis
      by (auto simp: reconcileScheduling_def l case_prod_beta Let_def)
  qed (simp add: reconcileScheduling_def l)
qed

section \<open>Properties\<close>

lemma bind_one_sided:
  "reconcilePlacementBind cl sel lst ns = Inr (r, ns', err) \<Longrightarrow>
     ns_Status ns' = ns_Status ns \<and> ns_Spec ns' = ns_Spec ns \<and> (ns' = ns \<or> rr_stop r)
     \<and> (Annotations ns \<noteq> None \<longrightarrow> Annotations ns' \<noteq> None)"
  by (auto simp: reconcilePlacementBind_def Let_def bindE_Inr no_result_def go_del_def split: sum.splits if_splits)

lemma bind_no_panic: "\<exists>x. reconcilePlacementBind cl sel lst ns = Inr x"
  by (auto simp: reconcilePlacementBind_def Let_def split: sum.splits)

lemma mark_removing_unchanged:
  "foldE (mark_removing rfc now sched) (a, c) ts = Inr (a', c') \<Longrightarrow> (c \<longrightarrow> c') \<and> (c' \<or> a' = a)"
proof (induction ts arbitrary: a c)
  case (Cons t ts)
  from Cons.prems obtain a1 c1 where s: "mark_removing rfc now sched (a, c) t = Inr (a1, c1)"
    and rest: "foldE (mark_removing rfc now sched) (a1, c1) ts = Inr (a', c')"
    by (auto simp: bindE_Inr)
  from s have "(c \<longrightarrow> c1) \<and> (c1 \<or> a1 = a)" by (auto simp: mark_removing_def bindE_Inr split: if_splits)
  with Cons.IH [OF rest] show ?case by blast
qed simp

lemma scheduling_one_sided:
  assumes "reconcileScheduling rfc cl sel lst now wall ns = Inr (r, ns', err)"
  shows "ns_Status ns' = ns_Status ns \<and> ns_Spec ns' = ns_Spec ns \<and> (ns' = ns \<or> rr_stop r)"
proof (cases "if go_has (Annotations ns) PlacementAnnotationKey then validPlacements cl sel lst ns else Inr []")
  case (Inr valid)
  let ?st = "syncStatusFor rfc ns" and ?sched = "scheduledSyncTargets valid"
  from assms Inr obtain a1 c1 where
    1: "foldE (mark_removing rfc now ?sched) (Annotations ns, False) (ss_active ?st) = Inr (a1, c1)"
    by (auto simp: reconcileScheduling_def Let_def bindE_Inr)
  obtain l2 a2 c2 d2 where
    2: "fold (remove_expired now wall) (ss_pendingRemoval ?st) (Labels ns, a1, c1, removingGracePeriod + 1) = (l2, a2, c2, d2)"
    by (rule prod_cases4)
  obtain l3 c3 where 3: "fold (add_scheduled ?st) ?sched (l2, c2) = (l3, c3)" by fastforce
  from assms Inr have r: "rr_stop r = c3" "ns' = ns\<lparr>Labels := l3, Annotations := a2\<rparr>"
    by (auto simp: reconcileScheduling_def Let_def 1 2 3)
  from mark_removing_unchanged [OF 1] remove_expired_loop [OF 2] add_scheduled_loop [OF 3]
  have "c3 \<or> (l3 = Labels ns \<and> a2 = Annotations ns)" by blast
  then show ?thesis by (auto simp: r)
qed (use assms in \<open>simp add: reconcileScheduling_def\<close>)

lemma status_one_sided:
  "ns_reconcileStatus rfc cl ns = Inr (r, ns', err) \<Longrightarrow>
     object_meta.truncate ns' = object_meta.truncate ns \<and> ns_Spec ns' = ns_Spec ns \<and> err = None"
  by (auto simp: ns_reconcileStatus_def on_namespace_conditions_def NamespaceConditionsAdapter_SetConditions_def
      object_meta.defs split: if_splits)

lemma status_total: "\<exists>ns'. ns_reconcileStatus rfc cl ns = Inr (no_result, ns', None)"
  by (simp add: ns_reconcileStatus_def)

text \<open>The reconcilers run in turn: what a complete run and a stopped run leave.\<close>

lemma namespace_reconcile_cases:
  assumes "namespace_reconcile rfc cl sel lst now wall ns = Inr (ns', q, errs)"
  obtains (stopped) "ns_Status ns' = ns_Status ns" "ns_Spec ns' = ns_Spec ns" "q = []"
  | (complete) res res2 where "errs = []"
      "reconcilePlacementBind cl sel lst ns = Inr (no_result, ns, None)"
      "reconcileScheduling rfc cl sel lst now wall ns = Inr (res, ns, None)" "\<not> rr_stop res"
      "ns_reconcileStatus rfc cl ns = Inr (res2, ns', None)"
      "q = (if rr_requeueAfter res > 0 then [rr_requeueAfter res] else [])"
proof -
  obtain r1 n1 e1 where 1: "reconcilePlacementBind cl sel lst ns = Inr (r1, n1, e1)"
    using bind_no_panic by (metis prod_cases3)
  note b = bind_one_sided [OF 1]
  show ?thesis
  proof (cases "e1 = None \<and> \<not> rr_stop r1")
    case False
    with assms 1 b show ?thesis
      by (intro stopped) (auto simp: namespace_reconcile_def split: option.splits if_splits)
  next
    case T1: True
    with b have n1: "n1 = ns" and r1: "r1 = no_result"
      using 1 by (auto simp: reconcilePlacementBind_def Let_def bindE_Inr no_result_def split: sum.splits if_splits)
    have q1: "\<not> 0 < rr_requeueAfter no_result" by (simp add: no_result_def)
    from assms 1 T1 n1 r1 obtain r2 n2 e2 where 2: "reconcileScheduling rfc cl sel lst now wall ns = Inr (r2, n2, e2)"
      by (auto simp: namespace_reconcile_def bindE_Inr)
    note s = scheduling_one_sided [OF 2]
    show ?thesis
    proof (cases "e2 = None \<and> \<not> rr_stop r2")
      case False
      with assms 1 2 T1 s n1 r1 q1 show ?thesis
        by (intro stopped) (auto simp: namespace_reconcile_def split: option.splits if_splits)
    next
      case T2: True
      obtain n3 where "ns_reconcileStatus rfc cl ns = Inr (no_result, n3, None)" using status_total by blast
      with assms 1 2 T1 T2 s n1 r1 q1 show ?thesis
        by (intro complete [of r2 no_result]) (auto simp: namespace_reconcile_def split: if_splits)
    qed
  qed
qed

interpretation ns_ctrl: one_sided_reconciler namespace_resource "namespace_object rfc cl sel lst now wall"
  for rfc cl sel lst now wall
proof
  fix old obj errs
  assume "namespace_object rfc cl sel lst now wall old = Inr (obj, errs)"
  then obtain q where q: "namespace_reconcile rfc cl sel lst now wall old = Inr (obj, q, errs)"
    by (auto simp: namespace_object_def bindE_Inr)
  show "(r_ObjectMeta (namespace_resource obj) = r_ObjectMeta (namespace_resource old)
       \<and> r_Spec (namespace_resource obj) = r_Spec (namespace_resource old))
     \<or> r_Status (namespace_resource obj) = r_Status (namespace_resource old)"
    using q by (rule namespace_reconcile_cases) (auto simp: namespace_resource_def dest: status_one_sided)
qed

lemma bind_error: "reconcilePlacementBind cl sel lst ns = Inr (r, ns', Some e) \<Longrightarrow> lst (Cluster ns) = Inl e"
  by (auto simp: reconcilePlacementBind_def validPlacements_def Let_def bindE_Inr split: sum.splits if_splits)

lemma scheduling_error: "reconcileScheduling rfc cl sel lst now wall ns = Inr (r, ns', Some e) \<Longrightarrow> lst (Cluster ns) = Inl e"
  by (auto simp: reconcileScheduling_def validPlacements_def Let_def bindE_Inr case_prod_beta split: sum.splits if_splits)

lemma namespace_object_no_panic:
  assumes "Annotations ns \<noteq> None" "\<And>c e. lst c = Inl e \<Longrightarrow> \<not> is_panic e"
  shows "\<exists>ns' errs. namespace_object rfc cl sel lst now wall ns = Inr (ns', errs) \<and> (\<forall>e \<in> set errs. \<not> is_panic e)"
proof -
  obtain r1 n1 e1 where 1: "reconcilePlacementBind cl sel lst ns = Inr (r1, n1, e1)"
    using bind_no_panic by (metis prod_cases3)
  with bind_one_sided [OF 1] assms(1) obtain x where "reconcileScheduling rfc cl sel lst now wall n1 = Inr x"
    using reconcileScheduling_total by blast
  then obtain r2 n2 e2 where 2: "reconcileScheduling rfc cl sel lst now wall n1 = Inr (r2, n2, e2)"
    by (cases x) auto
  obtain n3 where 3: "ns_reconcileStatus rfc cl n2 = Inr (no_result, n3, None)" using status_total by blast
  have "e1 = Some e \<Longrightarrow> \<not> is_panic e" "e2 = Some e \<Longrightarrow> \<not> is_panic e" for e
    using 1 2 assms(2) by (blast dest: bind_error scheduling_error)+
  with 1 2 3 show ?thesis
    by (auto simp: namespace_object_def namespace_reconcile_def split: option.splits)
qed

text \<open>
  Processing a namespace that has an annotation map never panics: the reconcilers never write into a
  nil map, and one pass changes the metadata or the status, never both, which is what the committer
  demands of it. Every error it returns is an error of the placement lister or of the patch.
\<close>

theorem namespace_process_never_panics:
  assumes "eq_laws L" "panic_free_lib L" "Annotations ns \<noteq> None" "\<And>c e. lst c = Inl e \<Longrightarrow> \<not> is_panic e"
    and "e \<in> set (snd (namespace_process rfc cl sel L lst patcher now wall (Inr ns)))"
  shows "\<not> is_panic e"
proof -
  obtain ns' errs where "namespace_object rfc cl sel lst now wall ns = Inr (ns', errs)" "\<forall>e \<in> set errs. \<not> is_panic e"
    using namespace_object_no_panic [OF assms(3), of lst rfc cl sel now wall] assms(4) by blast
  then have "namespace_object rfc cl sel lst now wall ns \<noteq> Inl p"
    and "namespace_object rfc cl sel lst now wall ns = Inr (o', es) \<Longrightarrow> x \<in> set es \<Longrightarrow> \<not> is_panic x" for p o' es x
    by auto
  then show ?thesis
    using assms(5) unfolding namespace_process_def sum.case by (rule ns_ctrl.process_never_panics [OF assms(1,2)])
qed

text \<open>
  C1: The scheduling pass refines one small state machine per sync target: whatever the order of the map
  iterations, after the pass each sync target is in the state that \<open>target_step\<close> gives for its old
  state, whether a valid placement of the namespace is scheduled to it, and the clock. No other label
  or annotation and nothing else of the namespace is touched, and the pass reports a change exactly
  when some sync target changes state.
\<close>

theorem namespace_scheduling_refines:
  assumes "lst (Cluster ns) = Inr ps" "Annotations ns \<noteq> None"
  shows "\<exists>res ns'. reconcileScheduling rfc cl sel lst now wall ns = Inr (res, ns', None)
    \<and> (\<forall>t. target_state rfc ns' t = target_step rfc (scheduled_for cl sel ps ns t) (now t) (target_state rfc ns t))
    \<and> (\<forall>k. (\<forall>t. k \<noteq> state_label t) \<longrightarrow> go_get (Labels ns') k = go_get (Labels ns) k)
    \<and> (\<forall>k. (\<forall>t. k \<noteq> deletion_annotation t) \<longrightarrow> go_get (Annotations ns') k = go_get (Annotations ns) k)
    \<and> ns_Spec ns' = ns_Spec ns \<and> ns_Status ns' = ns_Status ns
    \<and> (rr_stop res \<longleftrightarrow> (\<exists>t. target_state rfc ns' t \<noteq> target_state rfc ns t))"
proof -
  obtain res ns' err where r: "reconcileScheduling rfc cl sel lst now wall ns = Inr (res, ns', err)"
    using reconcileScheduling_total [OF assms(2)] by (metis prod_cases3)
  note st = reconcileScheduling_stop [OF assms r] and step = reconcileScheduling_step [OF assms r]
  show ?thesis
    by (intro exI [of _ res] exI [of _ ns']) (simp add: r st step)
qed

text \<open>
  C25: The grace period: when an active sync target is marked as removing at \<open>now1\<close>, a later pass at \<open>now2\<close>
  on a namespace that still has the label and the mark removes it exactly if more than five seconds
  have passed since \<open>now1\<close> cut off to the second, so never within four seconds of the mark, and always
  after five.
\<close>

theorem removal_grace_period:
  assumes "rfc3339_laws rfc" "0 \<le> now1 t" "now1 t < year_10000"
    and "lst1 (Cluster ns) = Inr ps1" "Annotations ns \<noteq> None"
    and "target_state rfc ns t = Active" "\<not> scheduled_for cl sel ps1 ns t"
    and "reconcileScheduling rfc cl sel lst1 now1 wall1 ns = Inr (res1, ns1, err1)"
    and "target_state rfc ns2 t = target_state rfc ns1 t"
    and "lst2 (Cluster ns2) = Inr ps2" "Annotations ns2 \<noteq> None"
    and "reconcileScheduling rfc cl sel lst2 now2 wall2 ns2 = Inr (res2, ns3, err2)"
  shows "(now2 t \<le> now1 t + 4 * second \<longrightarrow> go_has (Labels ns3) (state_label t))
    \<and> (now1 t + 5 * second < now2 t \<longrightarrow> \<not> go_has (Labels ns3) (state_label t))
    \<and> (go_has (Labels ns3) (state_label t) \<longleftrightarrow> now2 t \<le> second * (now1 t div second) + removingGracePeriod)"
proof -
  have "target_state rfc ns1 t = Removing (second * (now1 t div second))"
    using reconcileScheduling_step [OF assms(4,5,8), of t] assms(1-3,6,7)
    by (simp add: parsed_or_zero_def rfc3339_laws_def)
  with reconcileScheduling_step [OF assms(10-12), of t] assms(9)
  have "target_state rfc ns3 t = (if second * (now1 t div second) + removingGracePeriod < now2 t then Unscheduled
      else Removing (second * (now1 t div second)))" by simp
  then have "go_has (Labels ns3) (state_label t) \<longleftrightarrow> now2 t \<le> second * (now1 t div second) + removingGracePeriod"
    by (auto simp: target_state_def go_has_def split: option.splits if_splits)
  moreover have "now1 t - second < second * (now1 t div second)" "second * (now1 t div second) \<le> now1 t"
    by (simp_all add: second_def minus_mod_eq_mult_div [symmetric])
  ultimately show ?thesis by (auto simp: removingGracePeriod_def)
qed

lemma bind_stop:
  "reconcilePlacementBind cl sel lst ns = Inr (r, ns', err) \<Longrightarrow>
     (err = None \<and> rr_stop r \<longrightarrow> go_has (Annotations ns') PlacementAnnotationKey \<noteq> go_has (Annotations ns) PlacementAnnotationKey)
   \<and> (lst (Cluster ns) = Inr ps \<longrightarrow> err = None
        \<and> (\<not> rr_stop r \<longrightarrow> (go_has (Annotations ns) PlacementAnnotationKey \<longleftrightarrow> (\<exists>p \<in> set ps. valid_placement cl sel ns p))))"
  by (auto simp: reconcilePlacementBind_def validPlacements_def validpl.flt_def filter_empty_conv Let_def bindE_Inr no_result_def go_has_def
      split: sum.splits if_splits)

lemma truncate_eq:
  "object_meta.truncate ns' = object_meta.truncate ns \<longleftrightarrow>
     Name ns' = Name ns \<and> Namespace ns' = Namespace ns \<and> Cluster ns' = Cluster ns \<and> UID ns' = UID ns
     \<and> ResourceVersion ns' = ResourceVersion ns \<and> Labels ns' = Labels ns \<and> Annotations ns' = Annotations ns
     \<and> Finalizers ns' = Finalizers ns \<and> OwnerReferences ns' = OwnerReferences ns
     \<and> DeletionTimestamp ns' = DeletionTimestamp ns"
  by (auto simp: object_meta.defs)

lemma namespace_fixpoint:
  assumes "lst (Cluster ns) = Inr ps" "Annotations ns \<noteq> None"
    and "namespace_reconcile rfc cl sel lst now wall ns = Inr (ns', q, errs)"
    and "object_meta.truncate ns' = object_meta.truncate ns"
  obtains res res2 where "errs = []" "reconcilePlacementBind cl sel lst ns = Inr (no_result, ns, None)"
    "reconcileScheduling rfc cl sel lst now wall ns = Inr (res, ns, None)" "\<not> rr_stop res"
    "ns_reconcileStatus rfc cl ns = Inr (res2, ns', None)"
    "q = (if rr_requeueAfter res > 0 then [rr_requeueAfter res] else [])"
proof -
  from assms(4) have same: "Labels ns' = Labels ns" "Annotations ns' = Annotations ns" by (simp_all add: truncate_eq)
  then have ts: "target_state rfc ns' t = target_state rfc ns t" for t by (simp add: target_state_def)
  obtain r1 n1 e1 where 1: "reconcilePlacementBind cl sel lst ns = Inr (r1, n1, e1)"
    using bind_no_panic by (metis prod_cases3)
  note b = bind_one_sided [OF 1] bind_stop [OF 1, of ps]
  have e1: "e1 = None" "\<not> rr_stop r1"
    using b assms(1,3) 1 same by (auto simp: namespace_reconcile_def split: if_splits)
  with b have n1: "n1 = ns" by blast
  obtain r2 n2 e2 where 2: "reconcileScheduling rfc cl sel lst now wall ns = Inr (r2, n2, e2)"
    using reconcileScheduling_total [OF assms(2)] by (metis prod_cases3)
  note st = reconcileScheduling_stop [OF assms(1,2) 2] and step = reconcileScheduling_step [OF assms(1,2) 2]
  have stop: "\<not> rr_stop r2"
    using assms(3) 1 e1 n1 2 st(1,3) step ts by (auto simp: namespace_reconcile_def split: if_splits)
  from status_total obtain n3 where 3: "ns_reconcileStatus rfc cl ns = Inr (no_result, n3, None)" by blast
  have r1: "r1 = no_result" using 1 e1
    by (auto simp: reconcilePlacementBind_def Let_def bindE_Inr no_result_def split: sum.splits if_splits)
  show thesis using assms(3) 1 2 3 e1 n1 st(2,3) stop r1
    by (intro that [of r2 no_result]) (auto simp: namespace_reconcile_def no_result_def split: if_splits)
qed

text \<open>The conditions helpers read the type and the status only.\<close>

definition cond_ignores_severity :: "cond_lib \<Rightarrow> bool" where
  "cond_ignores_severity cl \<longleftrightarrow> (\<forall>cs s t. IsTrue cl (map (c_Severity_update (\<lambda>_. s)) cs) t = IsTrue cl cs t)"

lemma get_on_namespace_conditions:
  "NamespaceConditionsAdapter_GetConditions (on_namespace_conditions f ns) =
     map (c_Severity_update (\<lambda>_. ConditionSeverityNone)) (f (NamespaceConditionsAdapter_GetConditions ns))"
  by (simp add: on_namespace_conditions_def NamespaceConditionsAdapter_SetConditions_def
      NamespaceConditionsAdapter_GetConditions_def)

lemma status_condition:
  assumes "cond_laws cl" "cond_ignores_severity cl" "ns_reconcileStatus rfc cl ns = Inr (r, ns', err)"
  shows "IsTrue cl (NamespaceConditionsAdapter_GetConditions ns') NamespaceScheduled \<longleftrightarrow>
     go_has (Annotations ns) PlacementAnnotationKey \<and> (\<exists>t. target_state rfc ns t = Active)"
proof -
  have "ss_active (syncStatusFor rfc ns) = [] \<longleftrightarrow> \<not> (\<exists>t. target_state rfc ns t = Active)"
    by (auto simp flip: active_state)
  with assms(3) show ?thesis
    using assms(2) cond_lawsD [OF assms(1)]
    by (auto simp: ns_reconcileStatus_def get_on_namespace_conditions cond_ignores_severity_def split: if_splits)
qed

text \<open>
  A namespace that a pass leaves alone is scheduled as its placements ask: the placement annotation is
  there exactly if some placement is valid for the namespace, every active sync target is scheduled by
  a valid placement, every scheduled one is active or still within the grace period of an earlier
  removal, and the condition NamespaceScheduled is true exactly if there is an active sync target.
\<close>

theorem namespace_fixpoint_consistent:
  assumes "cond_laws cl" "cond_ignores_severity cl" "lst (Cluster ns) = Inr ps" "Annotations ns \<noteq> None"
    and "namespace_reconcile rfc cl sel lst now wall ns = Inr (ns', q, errs)"
    and "object_meta.truncate ns' = object_meta.truncate ns"
  shows "errs = []
    \<and> (go_has (Annotations ns) PlacementAnnotationKey \<longleftrightarrow> (\<exists>p \<in> set ps. valid_placement cl sel ns p))
    \<and> (\<forall>t. target_state rfc ns t = Active \<longrightarrow> scheduled_for cl sel ps ns t)
    \<and> (\<forall>t. scheduled_for cl sel ps ns t \<longrightarrow> target_state rfc ns t = Active
          \<or> (\<exists>rt. target_state rfc ns t = Removing rt \<and> now t \<le> rt + removingGracePeriod))
    \<and> (IsTrue cl (NamespaceConditionsAdapter_GetConditions ns') NamespaceScheduled \<longleftrightarrow>
          (\<exists>t. target_state rfc ns t = Active))"
proof (rule namespace_fixpoint [OF assms(3-6)])
  fix res res2
  assume r: "errs = []" "reconcilePlacementBind cl sel lst ns = Inr (no_result, ns, None)"
    "reconcileScheduling rfc cl sel lst now wall ns = Inr (res, ns, None)" "\<not> rr_stop res"
    "ns_reconcileStatus rfc cl ns = Inr (res2, ns', None)"
  have step: "target_step rfc (scheduled_for cl sel ps ns t) (now t) (target_state rfc ns t) = target_state rfc ns t" for t
    using reconcileScheduling_stop(1) [OF assms(3,4) r(3)] r(4) by blast
  have act: "target_state rfc ns t = Active \<Longrightarrow> scheduled_for cl sel ps ns t" for t
    using step [of t] by (auto split: if_splits)
  have "target_state rfc ns t = Active \<or> (\<exists>rt. target_state rfc ns t = Removing rt \<and> now t \<le> rt + removingGracePeriod)"
    if "scheduled_for cl sel ps ns t" for t
    using step [of t] that by (cases "target_state rfc ns t") (auto split: if_splits)
  moreover have "go_has (Annotations ns) PlacementAnnotationKey \<longleftrightarrow> (\<exists>p \<in> set ps. valid_placement cl sel ns p)"
    using bind_stop [OF r(2), of ps] assms(3) by (auto simp: no_result_def)
  moreover have "IsTrue cl (NamespaceConditionsAdapter_GetConditions ns') NamespaceScheduled \<longleftrightarrow> (\<exists>t. target_state rfc ns t = Active)"
    using status_condition [OF assms(1,2) r(5)] act by (auto simp: scheduled_for_def)
  ultimately show ?thesis using r(1) act by blast
qed

lemma remove_expired_delay:
  "fold (remove_expired now wall) prs (l, a, c, d) = (l', a', c', d') \<Longrightarrow>
     d' \<le> d \<and> (\<forall>(t, rt) \<in> set prs. \<not> rt + removingGracePeriod < now t \<longrightarrow> d' \<le> time_sub (rt + removingGracePeriod) (wall t))
   \<and> (d' = d \<or> (\<exists>(t, rt) \<in> set prs. d' = time_sub (rt + removingGracePeriod) (wall t)))"
proof (induction prs arbitrary: l a c d)
  case (Cons pr prs)
  obtain t rt where pr: "pr = (t, rt)" by fastforce
  obtain l1 a1 c1 d1 where s1: "remove_expired now wall pr (l, a, c, d) = (l1, a1, c1, d1)" by (rule prod_cases4)
  then have "d1 \<le> d" "\<not> rt + removingGracePeriod < now t \<longrightarrow> d1 \<le> time_sub (rt + removingGracePeriod) (wall t)"
    "d1 = d \<or> d1 = time_sub (rt + removingGracePeriod) (wall t)"
    by (auto simp: remove_expired_def pr Let_def split: if_splits)
  moreover from Cons.prems s1 have "fold (remove_expired now wall) prs (l1, a1, c1, d1) = (l', a', c', d')" by simp
  note Cons.IH [OF this]
  ultimately show ?case by (auto simp: pr)
qed simp

text \<open>
  A pending removal is not forgotten: when a pass leaves the namespace alone while a sync target waits
  for the end of its grace period, the namespace is put back on the queue with a positive delay that
  ends no later than that period, provided that no mark lies in the future and no grace period ended
  between the two readings of the clock in the pass.
\<close>

theorem pending_removal_requeued:
  assumes "lst (Cluster ns) = Inr ps" "Annotations ns \<noteq> None"
    and "namespace_reconcile rfc cl sel lst now wall ns = Inr (ns', q, errs)"
    and "object_meta.truncate ns' = object_meta.truncate ns"
    and "\<And>s rs. target_state rfc ns s = Removing rs \<Longrightarrow> rs \<le> wall s \<and> wall s < rs + removingGracePeriod"
    and "target_state rfc ns t = Removing rt"
  shows "\<exists>d. q = [d] \<and> 0 < d \<and> d \<le> rt + removingGracePeriod - wall t"
proof (rule namespace_fixpoint [OF assms(1-4)])
  fix res res2
  assume r: "reconcileScheduling rfc cl sel lst now wall ns = Inr (res, ns, None)" "\<not> rr_stop res"
    and q: "q = (if rr_requeueAfter res > 0 then [rr_requeueAfter res] else [])"
  obtain l1 c1 l2 a2 c2 d2 where
    fold: "fold (remove_expired now wall) (ss_pendingRemoval (syncStatusFor rfc ns))
      (Labels ns, Some l1, c1, removingGracePeriod + 1) = (l2, a2, c2, d2)"
    and d2: "rr_requeueAfter res = (if d2 \<le> removingGracePeriod then d2 else 0)"
    by (rule reconcileScheduling_parts [OF assms(1,2) r(1) refl]) (rule that, assumption, simp only: reconcile_result.simps)
  have pend: "(s, rs) \<in> set (ss_pendingRemoval (syncStatusFor rfc ns)) \<longleftrightarrow> target_state rfc ns s = Removing rs" for s rs
    by (auto simp: pending_mem target_state_def go_has_def split: option.splits)
  have sub: "time_sub (rs + removingGracePeriod) (wall s) = rs + removingGracePeriod - wall s"
    if "target_state rfc ns s = Removing rs" for s rs
    using assms(5) [OF that] by (simp add: time_sub_def max_duration_def removingGracePeriod_def second_def)
  have "\<not> rt + removingGracePeriod < now t"
  proof -
    from reconcileScheduling_stop(1) [OF assms(1,2) r(1)] r(2)
    have "target_step rfc (scheduled_for cl sel ps ns t) (now t) (target_state rfc ns t) = target_state rfc ns t" by blast
    with assms(6) show ?thesis by (simp split: if_splits)
  qed
  note d = remove_expired_delay [OF fold]
  then have "d2 \<le> rt + removingGracePeriod - wall t" using pend assms(6) sub \<open>\<not> rt + _ < _\<close> by fastforce
  moreover from this assms(5,6) have "d2 \<le> removingGracePeriod" by fastforce
  moreover have "0 < d2" using d pend sub assms(5) \<open>d2 \<le> removingGracePeriod\<close> by fastforce
  ultimately show ?thesis using q d2 by simp
qed

section \<open>Witnesses\<close>

definition ex_scheduled_placement :: placement where
  "ex_scheduled_placement = ex_placement PlacementBound None (Some [(InternalSyncTargetPlacementAnnotationKey, ''east'')])"

definition ex_synced_namespace :: "(string \<times> string) list \<Rightarrow> (string \<times> string) list \<Rightarrow> namespace" where
  "ex_synced_namespace ls as =
     ex_namespace (Some ((state_label ''east'', ResourceStateSync) # ls)) (Some ((PlacementAnnotationKey, []) # as))"

lemmas ns_eval = ex_scheduled_placement_def ex_synced_namespace_def ex_object_defs instance_defs go_has_def go_get_def
  valid_placement_def isPlacementValidForNS_def target_state_def parsed_or_zero_def has_status_def

lemma ex_valid_placement [simp]:
  "valid_placement basic_conditions basic_selector ns ex_scheduled_placement"
  by (simp add: ns_eval)

lemma ex_scheduled_for [simp]:
  "go_has (Annotations ns) PlacementAnnotationKey \<Longrightarrow>
   scheduled_for basic_conditions basic_selector [ex_scheduled_placement] ns t \<longleftrightarrow> t = ''east''"
  by (auto simp: scheduled_for_def) (simp_all add: ns_eval)

theorem namespace_process_never_panics_witness:
  "filter is_panic (snd (namespace_process basic_rfc3339 basic_conditions basic_selector basic_commit
      (\<lambda>_. Inr [ex_scheduled_placement]) (\<lambda>_ _. None) (\<lambda>_. 0) (\<lambda>_. 0) (Inr (ex_synced_namespace [] [])))) = []"
proof -
  have "\<not> is_panic e" if "e \<in> set (snd (namespace_process basic_rfc3339 basic_conditions basic_selector basic_commit
      (\<lambda>_. Inr [ex_scheduled_placement]) (\<lambda>_ _. None) (\<lambda>_. 0) (\<lambda>_. 0) (Inr (ex_synced_namespace [] []))))" for e
    using namespace_process_never_panics [OF basic_commit_laws _ _ that] by (simp add: ns_eval)
  then show ?thesis by (simp add: filter_empty_conv)
qed

theorem namespace_scheduling_refines_witness:
  "\<exists>res ns'. reconcileScheduling basic_rfc3339 basic_conditions basic_selector (\<lambda>_. Inr [ex_scheduled_placement])
       (\<lambda>_. 3 * second) (\<lambda>_. 3 * second) (ex_synced_namespace [(state_label ''west'', ResourceStateSync)] []) = Inr (res, ns', None)
     \<and> rr_stop res \<and> target_state basic_rfc3339 ns' ''east'' = Active
     \<and> target_state basic_rfc3339 ns' ''west'' = Removing (3 * second)"
proof -
  let ?ns = "ex_synced_namespace [(state_label ''west'', ResourceStateSync)] []"
  have 0: "target_state basic_rfc3339 ?ns ''east'' = Active" "target_state basic_rfc3339 ?ns ''west'' = Active"
    "go_has (Annotations ?ns) PlacementAnnotationKey" "Annotations ?ns \<noteq> None"
    by (simp_all add: ns_eval)
  have w: "parsed_or_zero basic_rfc3339 (fmt_time basic_rfc3339 (3 * second)) = 3 * second"
    by (simp add: parsed_or_zero_def basic_rfc3339_def second_def)
  obtain res ns' where r:
    "reconcileScheduling basic_rfc3339 basic_conditions basic_selector (\<lambda>_. Inr [ex_scheduled_placement])
       (\<lambda>_. 3 * second) (\<lambda>_. 3 * second) ?ns = Inr (res, ns', None)"
    "\<forall>t. target_state basic_rfc3339 ns' t = target_step basic_rfc3339
       (scheduled_for basic_conditions basic_selector [ex_scheduled_placement] ?ns t) (3 * second) (target_state basic_rfc3339 ?ns t)"
    "rr_stop res \<longleftrightarrow> (\<exists>t. target_state basic_rfc3339 ns' t \<noteq> target_state basic_rfc3339 ?ns t)"
    using namespace_scheduling_refines [of "\<lambda>_. Inr [ex_scheduled_placement]" ?ns "[ex_scheduled_placement]" basic_rfc3339
      basic_conditions basic_selector "\<lambda>_. 3 * second" "\<lambda>_. 3 * second", OF refl 0(4)] by blast
  from r(2) [rule_format, of "''east''"] r(2) [rule_format, of "''west''"]
  have "target_state basic_rfc3339 ns' ''east'' = Active" "target_state basic_rfc3339 ns' ''west'' = Removing (3 * second)"
    by (simp_all add: 0 w)
  moreover from this(2) have "rr_stop res" unfolding r(3) using 0(2) by (intro exI [of _ "''west''"]) simp
  ultimately show ?thesis using r(1) by blast
qed

lemma truncate_on_namespace_conditions [simp]:
  "object_meta.truncate (on_namespace_conditions f ns) = object_meta.truncate ns"
  by (simp add: on_namespace_conditions_def NamespaceConditionsAdapter_SetConditions_def object_meta.defs)

lemma ex_kept_fixpoint:
  "\<exists>ns'. namespace_reconcile basic_rfc3339 basic_conditions basic_selector (\<lambda>_. Inr [ex_scheduled_placement])
      (\<lambda>_. 6 * second) (\<lambda>_. 6 * second)
      (ex_synced_namespace [(state_label ''west'', ResourceStateSync)] [(deletion_annotation ''west'', ''ssss'')]) = Inr (ns', [2 * second], [])
    \<and> object_meta.truncate ns' = object_meta.truncate
         (ex_synced_namespace [(state_label ''west'', ResourceStateSync)] [(deletion_annotation ''west'', ''ssss'')])"
proof -
  let ?ns = "ex_synced_namespace [(state_label ''west'', ResourceStateSync)] [(deletion_annotation ''west'', ''ssss'')]"
  have "syncStatusFor basic_rfc3339 ?ns = \<lparr>ss_active = [''east''], ss_pendingRemoval = [(''west'', 3 * second)]\<rparr>"
    by (simp add: syncStatusFor_def sync_status_step_def ns_eval set_insert_def go_put_def)
  moreover have "scheduledSyncTargets [ex_scheduled_placement] = [''east'']"
    by (simp add: scheduledSyncTargets_def scheduled_step_def ns_eval set_insert_def)
  moreover have "filterValidPlacements basic_conditions basic_selector ns [ex_scheduled_placement] = [ex_scheduled_placement]" for ns
    by simp
  moreover have "go_has (Annotations ?ns) PlacementAnnotationKey" "Annotations ?ns = Some [(PlacementAnnotationKey, []), (deletion_annotation ''west'', ''ssss'')]"
    "?ns\<lparr>Annotations := Some [(PlacementAnnotationKey, []), (deletion_annotation ''west'', ''ssss'')]\<rparr> = ?ns"
    by (simp_all add: ns_eval)
  ultimately show ?thesis
    by (simp add: namespace_reconcile_def reconcilePlacementBind_def reconcileScheduling_def ns_reconcileStatus_def
        validPlacements_def no_result_def mark_removing_def remove_expired_def add_scheduled_def Let_def removingGracePeriod_def
        time_sub_def second_def max_duration_def del: filterValidPlacements.simps)
      (simp add: object_meta.defs)
qed

text \<open>The helpers of the model instance ignore the severity.\<close>

lemma basic_conditions_severity [simp]: "cond_ignores_severity basic_conditions"
proof -
  have "has_status u (map (c_Severity_update (\<lambda>_. s)) cs) t = has_status u cs t" for u s cs t
    unfolding has_status_def by (induction cs) auto
  then show ?thesis by (simp add: cond_ignores_severity_def basic_conditions_def)
qed

theorem namespace_fixpoint_consistent_witness:
  "\<exists>ns'. namespace_reconcile basic_rfc3339 basic_conditions basic_selector (\<lambda>_. Inr [ex_scheduled_placement])
      (\<lambda>_. 6 * second) (\<lambda>_. 6 * second)
      (ex_synced_namespace [(state_label ''west'', ResourceStateSync)] [(deletion_annotation ''west'', ''ssss'')]) = Inr (ns', [2 * second], [])
    \<and> IsTrue basic_conditions (NamespaceConditionsAdapter_GetConditions ns') NamespaceScheduled"
proof -
  let ?ns = "ex_synced_namespace [(state_label ''west'', ResourceStateSync)] [(deletion_annotation ''west'', ''ssss'')]"
  obtain ns' where r: "namespace_reconcile basic_rfc3339 basic_conditions basic_selector (\<lambda>_. Inr [ex_scheduled_placement])
      (\<lambda>_. 6 * second) (\<lambda>_. 6 * second) ?ns = Inr (ns', [2 * second], [])"
    "object_meta.truncate ns' = object_meta.truncate ?ns" using ex_kept_fixpoint by blast
  have "Annotations ?ns \<noteq> None" "target_state basic_rfc3339 ?ns ''east'' = Active" by (simp_all add: ns_eval)
  with namespace_fixpoint_consistent [OF basic_conditions_laws(1) basic_conditions_severity refl _ r] r(1) show ?thesis by blast
qed

theorem pending_removal_requeued_witness:
  "\<exists>ns' d. namespace_reconcile basic_rfc3339 basic_conditions basic_selector (\<lambda>_. Inr [ex_scheduled_placement])
      (\<lambda>_. 6 * second) (\<lambda>_. 6 * second)
      (ex_synced_namespace [(state_label ''west'', ResourceStateSync)] [(deletion_annotation ''west'', ''ssss'')]) = Inr (ns', [d], [])
    \<and> 0 < d \<and> d \<le> 2 * second"
proof -
  let ?ns = "ex_synced_namespace [(state_label ''west'', ResourceStateSync)] [(deletion_annotation ''west'', ''ssss'')]"
  obtain ns' where r: "namespace_reconcile basic_rfc3339 basic_conditions basic_selector (\<lambda>_. Inr [ex_scheduled_placement])
      (\<lambda>_. 6 * second) (\<lambda>_. 6 * second) ?ns = Inr (ns', [2 * second], [])"
    "object_meta.truncate ns' = object_meta.truncate ?ns" using ex_kept_fixpoint by blast
  have w: "Annotations ?ns \<noteq> None" "target_state basic_rfc3339 ?ns ''west'' = Removing (3 * second)"
    by (simp_all add: ns_eval)
  have "rs = 3 * second" if "target_state basic_rfc3339 ?ns s = Removing rs" for s rs
    using that by (auto simp: ns_eval split: if_splits)
  then have "rs \<le> 6 * second \<and> 6 * second < rs + removingGracePeriod" if "target_state basic_rfc3339 ?ns s = Removing rs" for s rs
    using that by (fastforce simp: removingGracePeriod_def second_def)
  from pending_removal_requeued [OF refl w(1) r this w(2)] r(1) show ?thesis
    by (auto simp: removingGracePeriod_def)
qed

theorem removal_grace_period_witness:
  "\<exists>res1 ns1 res2 ns2.
     reconcileScheduling basic_rfc3339 basic_conditions basic_selector (\<lambda>_. Inr []) (\<lambda>_. 3 * second + 5) (\<lambda>_. 0)
       (ex_synced_namespace [] []) = Inr (res1, ns1, None)
   \<and> reconcileScheduling basic_rfc3339 basic_conditions basic_selector (\<lambda>_. Inr []) (\<lambda>_. 9 * second) (\<lambda>_. 0) ns1 = Inr (res2, ns2, None)
   \<and> go_has (Labels ns1) (state_label ''east'') \<and> \<not> go_has (Labels ns2) (state_label ''east'')"
proof -
  let ?R = "reconcileScheduling basic_rfc3339 basic_conditions basic_selector (\<lambda>_. Inr [])"
  let ?ns = "ex_synced_namespace [] []"
  have a: "Annotations ?ns \<noteq> None" "target_state basic_rfc3339 ?ns ''east'' = Active" by (simp_all add: ns_eval)
  have none: "\<not> scheduled_for basic_conditions basic_selector [] ns t" for ns t by (simp add: scheduled_for_def)
  have "\<exists>res1 ns1. ?R (\<lambda>_. 3 * second + 5) (\<lambda>_. 0) ?ns = Inr (res1, ns1, None) \<and> Annotations ns1 \<noteq> None
      \<and> go_has (Labels ns1) (state_label ''east'')"
    by (simp add: reconcileScheduling_def validPlacements_def scheduledSyncTargets_def syncStatusFor_def sync_status_step_def
        mark_removing_def Let_def ns_eval set_insert_def)
  then obtain res1 ns1 where 1: "?R (\<lambda>_. 3 * second + 5) (\<lambda>_. 0) ?ns = Inr (res1, ns1, None)" "Annotations ns1 \<noteq> None"
    "go_has (Labels ns1) (state_label ''east'')" by blast
  obtain res2 ns2 err2 where 2: "?R (\<lambda>_. 9 * second) (\<lambda>_. 0) ns1 = Inr (res2, ns2, err2)"
    using reconcileScheduling_total [OF 1(2)] by (metis prod_cases3)
  have "err2 = None" using reconcileScheduling_stop(3) [OF refl 1(2) 2] .
  moreover have "\<not> go_has (Labels ns2) (state_label ''east'')"
    using removal_grace_period [OF basic_rfc3339_laws _ _ refl a none 1(1) refl refl 1(2) 2]
    by (simp add: second_def year_10000_def)
  ultimately show ?thesis using 1 2 by blast
qed

text \<open>
  The nil map: a namespace with a state label but no annotation map at all, for which no placement
  is valid, makes the pass panic when the active sync target is marked as removing.
\<close>

theorem nil_annotations_panic:
  assumes "Annotations ns = None" "go_has (Labels ns) (state_label t)"
  shows "\<exists>m. reconcileScheduling rfc cl sel lst now wall ns = Inl (Panic m)"
proof -
  have "t \<in> set (ss_active (syncStatusFor rfc ns))" using assms by (simp add: active_iff)
  then obtain s ts where "ss_active (syncStatusFor rfc ns) = s # ts" by (cases "ss_active (syncStatusFor rfc ns)") auto
  with assms(1) show ?thesis
    by (simp add: reconcileScheduling_def scheduledSyncTargets_def mark_removing_def Let_def go_has_def)
qed

theorem nil_annotations_panic_witness:
  "\<exists>m. reconcileScheduling basic_rfc3339 basic_conditions basic_selector (\<lambda>_. Inr []) (\<lambda>_. 0) (\<lambda>_. 0)
      (ex_namespace (Some [(state_label ''east'', ResourceStateSync)]) None) = Inl (Panic m)"
  by (rule nil_annotations_panic [of _ "''east''"]) (simp_all add: ns_eval)

end
