(* ===== verification/Resource_Scheduler.thy ===== *)
theory Resource_Scheduler
  imports Merge_Patch Namespace_Scheduler
begin

text \<open>
  \<^verbatim>\<open>src/pkg/reconciler/workload/resource\<close>: the controller that carries the schedule of a namespace (or,
  for the few cluster-wide types, of the workspace's placements) over to the labels and annotations of
  every resource, and \<^verbatim>\<open>src/pkg/indexers\<close>, whose indexes it reads.

  A resource is its metadata. \<open>computePlacement\<close> computes the merge patches of labels and annotations;
  \<open>reconcileResource\<close> is the whole handler, and sends at most one request. The clock is read once per
  sync target: \<open>now loc\<close>. \<open>getSyncTargetFromKey\<close> answers whether a sync target with a key exists.
\<close>

section \<open>Locations of a resource\<close>

definition getLocations :: "smap \<Rightarrow> bool \<Rightarrow> string list" where
  "getLocations labels skipPending =
     fold (\<lambda>(k, v) locations.
        if has_prefix k ClusterResourceStateLabelPrefix \<and> (\<not> skipPending \<or> v = ResourceStateSync)
        then set_insert (trim_prefix k ClusterResourceStateLabelPrefix) locations else locations)
       (entries labels) []"

definition getDeletingLocations :: "smap \<Rightarrow> (string \<times> string) list" where
  "getDeletingLocations annotations =
     fold (\<lambda>(k, v) deletingLocations.
        if has_prefix k InternalClusterDeletionTimestampAnnotationPrefix
        then go_put (trim_prefix k InternalClusterDeletionTimestampAnnotationPrefix) v deletingLocations
        else deletingLocations)
       (entries annotations) []"

definition scheduleStateLabels :: "smap \<Rightarrow> (string \<times> string) list" where
  "scheduleStateLabels ls = filter (\<lambda>(k, v). has_prefix k ClusterResourceStateLabelPrefix) (entries ls)"

definition scheduleStateAnnotations :: "smap \<Rightarrow> (string \<times> string) list" where
  "scheduleStateAnnotations ls =
     filter (\<lambda>(k, v). has_prefix k InternalClusterDeletionTimestampAnnotationPrefix) (entries ls)"

section \<open>Computing the placement\<close>

definition hasSyncerFinalizer :: "object_meta \<Rightarrow> string \<Rightarrow> bool" where
  "hasSyncerFinalizer obj loc \<longleftrightarrow> (\<exists>f \<in> set (Finalizers obj). f = syncer_finalizer loc)"

definition hasClusterFinalizer :: "object_meta \<Rightarrow> string \<Rightarrow> bool" where
  "hasClusterFinalizer obj loc \<longleftrightarrow>
     (case go_get (Annotations obj) (finalizer_annotation loc) of None \<Rightarrow> False | Some val \<Rightarrow> val \<noteq> [])"

type_synonym patches = "map_patch \<times> map_patch"   \<comment> \<open>annotations and labels\<close>

text \<open>The first loop: sync targets that are no longer expected.\<close>

definition unschedule_step :: "rfc3339 \<Rightarrow> (string \<Rightarrow> time) \<Rightarrow> object_meta \<Rightarrow> string \<Rightarrow> patches \<Rightarrow> patches" where
  "unschedule_step rfc now obj loc ps =
     (case ps of (annotationPatch, labelPatch) \<Rightarrow>
        if hasSyncerFinalizer obj loc \<or> hasClusterFinalizer obj loc then
          (if \<not> go_has (Annotations obj) (deletion_annotation loc)
           then go_put (deletion_annotation loc) (Some (fmt_time rfc (now loc))) annotationPatch
           else annotationPatch, labelPatch)
        else
          (if go_has (Annotations obj) (deletion_annotation loc)
           then go_put (deletion_annotation loc) None annotationPatch
           else annotationPatch, go_put (state_label loc) None labelPatch))"

text \<open>The second loop: deletion timestamps of the sync targets that stay.\<close>

definition deletion_step ::
  "(string \<times> string) list \<Rightarrow> (string \<times> string) list \<Rightarrow> string \<Rightarrow> map_patch \<Rightarrow> map_patch" where
  "deletion_step expectedDeleting currentDeleting loc annotationPatch =
     (case map_of expectedDeleting loc of
        Some expectedTimestamp \<Rightarrow>
          if map_of currentDeleting loc = None
          then go_put (deletion_annotation loc) (Some expectedTimestamp) annotationPatch else annotationPatch
      | None \<Rightarrow>
          if map_of currentDeleting loc \<noteq> None
          then go_put (deletion_annotation loc) None annotationPatch else annotationPatch)"

definition initial_state :: "object_meta \<Rightarrow> string" where
  "initial_state obj = (if Namespace obj = [] then ResourceStatePending else ResourceStateSync)"

text \<open>The third loop: newly expected sync targets.\<close>

definition schedule_step :: "(string \<times> string) list \<Rightarrow> object_meta \<Rightarrow> string \<Rightarrow> map_patch \<Rightarrow> map_patch" where
  "schedule_step expectedDeleting obj loc labelPatch =
     (if map_of expectedDeleting loc \<noteq> None then labelPatch
      else go_put (state_label loc) (Some (initial_state obj)) labelPatch)"

definition computePlacement ::
  "rfc3339 \<Rightarrow> (string \<Rightarrow> time) \<Rightarrow> string list \<Rightarrow> (string \<times> string) list \<Rightarrow> object_meta \<Rightarrow> patches" where
  "computePlacement rfc now expectedKeys expectedDeleting obj =
     (let currentKeys = getLocations (Labels obj) False;
          currentDeleting = getDeletingLocations (Annotations obj) in
      if set_equal currentKeys expectedKeys \<and> map_equal currentDeleting expectedDeleting then ([], [])
      else
        (case fold (unschedule_step rfc now obj) (set_list (set_difference currentKeys expectedKeys)) ([], []) of
           (annotationPatch, labelPatch) \<Rightarrow>
             (fold (deletion_step expectedDeleting currentDeleting)
                (set_list (set_intersection expectedKeys currentKeys)) annotationPatch,
              fold (schedule_step expectedDeleting obj)
                (set_list (set_difference expectedKeys currentKeys)) labelPatch)))"

definition propagateDeletionTimestamp :: "rfc3339 \<Rightarrow> object_meta \<Rightarrow> time \<Rightarrow> map_patch" where
  "propagateDeletionTimestamp rfc obj deletionTimestamp =
     fold (\<lambda>location annotationPatch.
        if go_str (Annotations obj) (deletion_annotation location) = []
        then go_put (deletion_annotation location) (Some (fmt_time rfc deletionTimestamp)) annotationPatch
        else annotationPatch)
       (getLocations (Labels obj) False) []"

section \<open>Reconciling a resource\<close>

record resource_lib =
  getNamespace :: "string \<Rightarrow> string \<Rightarrow> go_error + namespace"
  listPlacementsIn :: "string \<Rightarrow> go_error + placement list"
  getSyncTargetFromKey :: "string \<Rightarrow> go_error + bool"
  DefaultIdentitySecretNamespace :: string   \<comment> \<open>a constant of the package \<open>apiexport\<close> of kcp\<close>

text \<open>The closure \<open>getSyncTargetPlacementAnnotations\<close> of \<open>NewController\<close>.\<close>

definition getSyncTargetPlacementAnnotations :: "resource_lib \<Rightarrow> string \<Rightarrow> go_error + string list" where
  "getSyncTargetPlacementAnnotations E cl =
     bindE (listPlacementsIn E cl) (\<lambda>placements.
       Inr (fold (\<lambda>p keys.
          let val = go_str (Annotations p) InternalSyncTargetPlacementAnnotationKey in
          if val \<noteq> [] then set_insert val keys else keys) placements []))"

text \<open>The closure \<open>getSyncTargetFromKey\<close>, over the sync targets that the index returns.\<close>

definition syncTargetExists :: "go_error + sync_target list \<Rightarrow> go_error + bool" where
  "syncTargetExists found =
     bindE found (\<lambda>sts.
       if sts = [] then Inr False
       else if length sts > 1 then Inl (Failure ''possible collision: multiple sync targets found for key'')
       else Inr True)"

definition clean_finalizers :: "resource_lib \<Rightarrow> string list \<Rightarrow> string list" where
  "clean_finalizers E fs =
     filter (\<lambda>f. \<not> has_prefix f SyncerFinalizerNamePrefix
        \<or> getSyncTargetFromKey E (trim_prefix f SyncerFinalizerNamePrefix) = Inr True) fs"

record metadata_patch =
  mp_UID :: string
  mp_ResourceVersion :: string
  mp_labels :: map_patch
  mp_annotations :: map_patch
  mp_finalizers :: "string list option"

datatype resource_request = DeleteResource string string string | PatchResource string string string metadata_patch

definition namespaceBlocklist :: "string \<Rightarrow> string list" where
  "namespaceBlocklist defaultIdentitySecretNamespace =
     [''kube-system'', ''kube-public'', ''kube-node-lease'', defaultIdentitySecretNamespace]"

text \<open>\<open>GroupVersionResource.String\<close>, and the only cluster-wide type that is synced.\<close>

definition gvr_String :: "gvr \<Rightarrow> string" where
  "gvr_String r = gvr_Group r @ ''/'' @ gvr_Version r @ '', Resource='' @ gvr_Resource r"

definition SyncableClusterScopedResources :: "string list" where
  "SyncableClusterScopedResources =
     [gvr_String \<lparr>gvr_Group = [], gvr_Version = ''v1'', gvr_Resource = ''persistentvolumes''\<rparr>]"

text \<open>The first label, in the order of the iteration, that claims the resource for an upsyncer.\<close>

definition upsynced_to :: "smap \<Rightarrow> string option" where
  "upsynced_to labels =
     map_option (\<lambda>(k, v). trim_prefix k ClusterResourceStateLabelPrefix)
       (find (\<lambda>(k, v). has_prefix k ClusterResourceStateLabelPrefix \<and> v = ResourceStateUpsync) (entries labels))"

text \<open>
  What the resource should be scheduled to: the keys and the deletion timestamps, \<open>None\<close> if the
  resource is to be left alone.
\<close>

definition expected_placement ::
  "rfc3339 \<Rightarrow> time \<Rightarrow> resource_lib \<Rightarrow> string \<Rightarrow> object_meta \<Rightarrow> gvr
     \<Rightarrow> go_error + (string list \<times> (string \<times> string) list) option" where
  "expected_placement rfc now0 E lclusterName obj r =
     (if Namespace obj \<noteq> [] then
        (if Namespace obj \<in> set (namespaceBlocklist (DefaultIdentitySecretNamespace E)) then Inr None
         else
           (case getNamespace E lclusterName (Namespace obj) of
              Inl NotFound \<Rightarrow> Inr None
            | Inl e \<Rightarrow> Inl (Failure (''error reconciling resource '' @ lclusterName @ ''|'' @ Namespace obj @ ''/''
                 @ Name obj @ '': error getting namespace: '' @ error_text e))
            | Inr ns \<Rightarrow> Inr (Some (getLocations (Labels ns) False, getDeletingLocations (Annotations ns)))))
      else if gvr_String r \<notin> set SyncableClusterScopedResources then Inr None
      else
        (case getSyncTargetPlacementAnnotations E (Cluster obj) of
           Inl e \<Rightarrow> Inr None
         | Inr expectedKeys \<Rightarrow>
             Inr (Some (expectedKeys,
               fold (\<lambda>location m. go_put location (fmt_time rfc now0) m)
                 (set_list (set_difference (getLocations (Labels obj) False) expectedKeys)) []))))"

definition resource_patch ::
  "rfc3339 \<Rightarrow> (string \<Rightarrow> time) \<Rightarrow> resource_lib \<Rightarrow> string list \<Rightarrow> (string \<times> string) list \<Rightarrow> object_meta \<Rightarrow> metadata_patch option" where
  "resource_patch rfc now E expectedKeys expectedDeleting obj =
     (let (annotationPatch, labelPatch) =
            (case DeletionTimestamp obj of
               Some t \<Rightarrow> (propagateDeletionTimestamp rfc obj t, [])
             | None \<Rightarrow> computePlacement rfc now expectedKeys expectedDeleting obj);
          filteredFinalizers = clean_finalizers E (Finalizers obj) in
      if labelPatch = [] \<and> annotationPatch = [] \<and> length filteredFinalizers = length (Finalizers obj) then None
      else Some \<lparr>mp_UID = UID obj, mp_ResourceVersion = ResourceVersion obj, mp_labels = labelPatch,
                 mp_annotations = annotationPatch,
                 mp_finalizers = (if length filteredFinalizers \<noteq> length (Finalizers obj)
                                  then Some filteredFinalizers else None)\<rparr>)"

text \<open>
  The whole handler: the requests it sends, at most one, and the error. The comparison of the pointer
  \<open>gvr\<close> with the address of a fresh variable in the first lines is never true, so namespaces are not
  left out by it.
\<close>

definition reconcileResource ::
  "rfc3339 \<Rightarrow> time \<Rightarrow> (string \<Rightarrow> time) \<Rightarrow> resource_lib \<Rightarrow> (resource_request \<Rightarrow> go_error option) \<Rightarrow> string \<Rightarrow> object_meta \<Rightarrow> gvr
     \<Rightarrow> resource_request list \<times> go_error option" where
  "reconcileResource rfc now0 now E send lclusterName obj r =
     (case upsynced_to (Labels obj) of
        Some syncTargetKey \<Rightarrow>
          (case getSyncTargetFromKey E syncTargetKey of
             Inl e \<Rightarrow> ([], Some (Failure (''error reconciling resource '' @ lclusterName @ ''|'' @ Namespace obj @ ''/''
                 @ Name obj @ '': error getting synctarget: '' @ error_text e)))
           | Inr exists \<Rightarrow>
               if \<not> exists then
                 (let req = DeleteResource (Cluster obj) (Namespace obj) (Name obj) in ([req], send req))
               else ([], None))
      | None \<Rightarrow>
          (case expected_placement rfc now0 E lclusterName obj r of
             Inl e \<Rightarrow> ([], Some e)
           | Inr None \<Rightarrow> ([], None)
           | Inr (Some (expectedKeys, expectedDeleting)) \<Rightarrow>
               (case resource_patch rfc now E expectedKeys expectedDeleting obj of
                  None \<Rightarrow> ([], None)
                | Some p \<Rightarrow>
                    (let req = PatchResource lclusterName (Namespace obj) (Name obj) p in ([req], send req)))))"

section \<open>Lemmas\<close>

lemma set_getLocations:
  "t \<in> set (getLocations ls sp) \<longleftrightarrow> (\<exists>v. (state_label t, v) \<in> set (entries ls) \<and> (\<not> sp \<or> v = ResourceStateSync))"
  unfolding getLocations_def by (subst state_key.set_collect_loop) simp_all

lemma set_getLocations_all: "t \<in> set (getLocations ls False) \<longleftrightarrow> go_has ls (state_label t)"
  by (force simp: set_getLocations go_has_iff_key)

lemma getLocations_eq: "set (getLocations ls False) = {t. go_has ls (state_label t)}"
  by (auto simp: set_getLocations_all)

lemma map_of_getDeletingLocations:
  "wf_map a \<Longrightarrow> map_of (getDeletingLocations a) t = go_get a (deletion_annotation t)"
  unfolding getDeletingLocations_def wf_map_def go_get_def
  by (subst deletion_key.map_of_collect_loop) (auto split: option.splits)

definition held :: "object_meta \<Rightarrow> string \<Rightarrow> bool" where
  "held obj loc \<longleftrightarrow> hasSyncerFinalizer obj loc \<or> hasClusterFinalizer obj loc"

lemma unschedule_loop:
  "fold (unschedule_step rfc now obj) locs (a, l) =
    (fold (\<lambda>loc m. if held obj loc \<noteq> go_has (Annotations obj) (deletion_annotation loc)
        then go_put (deletion_annotation loc) (if held obj loc then Some (fmt_time rfc (now loc)) else None) m else m) locs a,
     fold (\<lambda>loc m. if \<not> held obj loc then go_put (state_label loc) None m else m) locs l)"
  by (induction locs arbitrary: a l) (auto simp: unschedule_step_def held_def)

lemma deletion_loop:
  "fold (deletion_step ed cd) locs a =
    fold (\<lambda>loc m. if (map_of ed loc = None) \<noteq> (map_of cd loc = None)
        then go_put (deletion_annotation loc) (map_of ed loc) m else m) locs a"
  by (rule fold_cong) (auto simp: deletion_step_def fun_eq_iff split: option.splits)

lemma schedule_loop:
  "fold (schedule_step ed obj) locs l =
    fold (\<lambda>loc m. if map_of ed loc = None then go_put (state_label loc) (Some (initial_state obj)) m else m) locs l"
  by (rule fold_cong) (auto simp: schedule_step_def fun_eq_iff)

text \<open>The specification of \<open>computePlacement\<close>: the new label and deletion timestamp of each sync target.\<close>

definition placed_label :: "string list \<Rightarrow> (string \<times> string) list \<Rightarrow> object_meta \<Rightarrow> string \<Rightarrow> string option" where
  "placed_label expected deleting obj loc =
     (case go_get (Labels obj) (state_label loc) of
        None \<Rightarrow> if loc \<in> set expected \<and> map_of deleting loc = None then Some (initial_state obj) else None
      | Some state \<Rightarrow> if loc \<in> set expected \<or> held obj loc then Some state else None)"

definition placed_deletion ::
  "rfc3339 \<Rightarrow> (string \<Rightarrow> time) \<Rightarrow> string list \<Rightarrow> (string \<times> string) list \<Rightarrow> object_meta \<Rightarrow> string \<Rightarrow> string option" where
  "placed_deletion rfc now expected deleting obj loc =
     (let current = go_get (Annotations obj) (deletion_annotation loc);
          keep_or = (\<lambda>new. if current = None then new else current) in
      if \<not> go_has (Labels obj) (state_label loc) then current
      else if loc \<in> set expected then (if map_of deleting loc = None then None else keep_or (map_of deleting loc))
      else if held obj loc then keep_or (Some (fmt_time rfc (now loc)))
      else None)"

lemma not_key: "(\<And>t. k \<noteq> p @ t) \<Longrightarrow> \<not> has_prefix k p"
  by (auto simp: has_prefix_iff)

text \<open>The patches, key by key, when the resource is not yet correctly assigned.\<close>

lemma computePlacement_maps:
  assumes "wf_map (Annotations obj)" "computePlacement rfc now expected deleting obj = (ap, lp)"
    and "\<not> (set_equal (getLocations (Labels obj) False) expected \<and> map_equal (getDeletingLocations (Annotations obj)) deleting)"
  shows "map_of lp (state_label loc) =
      (if loc \<in> set expected \<and> \<not> go_has (Labels obj) (state_label loc) \<and> map_of deleting loc = None
       then Some (Some (initial_state obj))
       else if go_has (Labels obj) (state_label loc) \<and> loc \<notin> set expected \<and> \<not> held obj loc then Some None else None)"
    and "map_of ap (deletion_annotation loc) =
      (if loc \<in> set expected \<and> go_has (Labels obj) (state_label loc)
           \<and> (map_of deleting loc = None) \<noteq> (go_get (Annotations obj) (deletion_annotation loc) = None)
       then Some (map_of deleting loc)
       else if go_has (Labels obj) (state_label loc) \<and> loc \<notin> set expected
           \<and> held obj loc \<noteq> go_has (Annotations obj) (deletion_annotation loc)
       then Some (if held obj loc then Some (fmt_time rfc (now loc)) else None) else None)"
    and "(\<And>t. k \<noteq> state_label t) \<Longrightarrow> map_of lp k = None" and "(\<And>t. k \<noteq> deletion_annotation t) \<Longrightarrow> map_of ap k = None"
proof -
  let ?cur = "getLocations (Labels obj) False"
  have lp: "lp = fold (\<lambda>loc m. if map_of deleting loc = None then go_put (state_label loc) (Some (initial_state obj)) m else m)
      (set_list (set_difference expected ?cur))
      (fold (\<lambda>loc m. if \<not> held obj loc then go_put (state_label loc) None m else m) (set_list (set_difference ?cur expected)) [])"
    and ap: "ap = fold (\<lambda>loc m. if (map_of deleting loc = None) \<noteq> (go_get (Annotations obj) (deletion_annotation loc) = None)
        then go_put (deletion_annotation loc) (map_of deleting loc) m else m) (set_list (set_intersection expected ?cur))
      (fold (\<lambda>loc m. if held obj loc \<noteq> go_has (Annotations obj) (deletion_annotation loc)
        then go_put (deletion_annotation loc) (if held obj loc then Some (fmt_time rfc (now loc)) else None) m else m)
        (set_list (set_difference ?cur expected)) [])"
    using assms(2,3)
    by (auto simp: computePlacement_def Let_def unschedule_loop deletion_loop schedule_loop map_of_getDeletingLocations [OF assms(1)])
  show "map_of lp (state_label loc) =
      (if loc \<in> set expected \<and> \<not> go_has (Labels obj) (state_label loc) \<and> map_of deleting loc = None
       then Some (Some (initial_state obj))
       else if go_has (Labels obj) (state_label loc) \<and> loc \<notin> set expected \<and> \<not> held obj loc then Some None else None)"
    unfolding lp state_key.map_of_put_loop by (simp add: set_getLocations_all)
  show "map_of ap (deletion_annotation loc) =
      (if loc \<in> set expected \<and> go_has (Labels obj) (state_label loc)
           \<and> (map_of deleting loc = None) \<noteq> (go_get (Annotations obj) (deletion_annotation loc) = None)
       then Some (map_of deleting loc)
       else if go_has (Labels obj) (state_label loc) \<and> loc \<notin> set expected
           \<and> held obj loc \<noteq> go_has (Annotations obj) (deletion_annotation loc)
       then Some (if held obj loc then Some (fmt_time rfc (now loc)) else None) else None)"
    unfolding ap deletion_key.map_of_put_loop by (simp add: set_getLocations_all)
  show "(\<And>t. k \<noteq> state_label t) \<Longrightarrow> map_of lp k = None" unfolding lp state_key.map_of_put_loop by (simp add: not_key)
  show "(\<And>t. k \<noteq> deletion_annotation t) \<Longrightarrow> map_of ap k = None" unfolding ap deletion_key.map_of_put_loop by (simp add: not_key)
qed

lemma computePlacement_same:
  assumes "wf_map (Annotations obj)" "set_equal (getLocations (Labels obj) False) expected"
    "map_equal (getDeletingLocations (Annotations obj)) deleting"
  shows "placed_label expected deleting obj loc = go_get (Labels obj) (state_label loc)"
    and "placed_deletion rfc now expected deleting obj loc = go_get (Annotations obj) (deletion_annotation loc)"
proof -
  have e: "loc \<in> set expected \<longleftrightarrow> go_has (Labels obj) (state_label loc)"
    using assms(2) by (metis set_equal_def set_getLocations_all)
  have d: "map_of deleting loc = go_get (Annotations obj) (deletion_annotation loc)"
    using assms(3) by (metis map_equal_iff map_of_getDeletingLocations [OF assms(1)])
  show "placed_label expected deleting obj loc = go_get (Labels obj) (state_label loc)"
    by (auto simp: placed_label_def e go_has_def split: option.splits)
  show "placed_deletion rfc now expected deleting obj loc = go_get (Annotations obj) (deletion_annotation loc)"
    by (simp add: placed_deletion_def e d Let_def)
qed

definition apply_placement :: "patches \<Rightarrow> object_meta \<Rightarrow> object_meta" where
  "apply_placement ps obj =
     obj\<lparr>Labels := apply_map_patch (snd ps) (Labels obj), Annotations := apply_map_patch (fst ps) (Annotations obj)\<rparr>"

lemma apply_placement_get:
  assumes "wf_map (Annotations obj)" "obj' = apply_placement (computePlacement rfc now expected deleting obj) obj"
  shows "go_get (Labels obj') (state_label loc) = placed_label expected deleting obj loc"
    and "go_get (Annotations obj') (deletion_annotation loc) = placed_deletion rfc now expected deleting obj loc"
    and "(\<And>t. k \<noteq> state_label t) \<Longrightarrow> go_get (Labels obj') k = go_get (Labels obj) k"
    and "(\<And>t. k \<noteq> deletion_annotation t) \<Longrightarrow> go_get (Annotations obj') k = go_get (Annotations obj) k"
proof -
  obtain ap lp where c: "computePlacement rfc now expected deleting obj = (ap, lp)" by fastforce
  have "go_get (Labels obj') (state_label loc) = placed_label expected deleting obj loc
    \<and> go_get (Annotations obj') (deletion_annotation loc) = placed_deletion rfc now expected deleting obj loc
    \<and> ((\<forall>t. k \<noteq> state_label t) \<longrightarrow> go_get (Labels obj') k = go_get (Labels obj) k)
    \<and> ((\<forall>t. k \<noteq> deletion_annotation t) \<longrightarrow> go_get (Annotations obj') k = go_get (Annotations obj) k)"
  proof (cases "set_equal (getLocations (Labels obj) False) expected \<and> map_equal (getDeletingLocations (Annotations obj)) deleting")
    case True
    then have "obj' = obj" using assms(2) by (simp add: apply_placement_def computePlacement_def)
    with True computePlacement_same [OF assms(1)] show ?thesis by simp
  next
    case False
    note maps = computePlacement_maps [OF assms(1) c False]
    have "go_get (Labels obj') (state_label loc) = placed_label expected deleting obj loc"
      by (auto simp: assms(2) c apply_placement_def go_get_apply_patch maps(1) placed_label_def go_has_def split: option.splits)
    moreover have "go_get (Annotations obj') (deletion_annotation loc) = placed_deletion rfc now expected deleting obj loc"
      by (auto simp: assms(2) c apply_placement_def go_get_apply_patch maps(2) placed_deletion_def go_has_def Let_def)
    ultimately show ?thesis using maps(3,4) [of k] by (simp add: assms(2) c apply_placement_def go_get_apply_patch)
  qed
  then show "go_get (Labels obj') (state_label loc) = placed_label expected deleting obj loc"
    "go_get (Annotations obj') (deletion_annotation loc) = placed_deletion rfc now expected deleting obj loc"
    "(\<And>t. k \<noteq> state_label t) \<Longrightarrow> go_get (Labels obj') k = go_get (Labels obj) k"
    "(\<And>t. k \<noteq> deletion_annotation t) \<Longrightarrow> go_get (Annotations obj') k = go_get (Annotations obj) k"
    by blast+
qed

lemma computePlacement_empty_iff:
  assumes "wf_map (Annotations obj)"
  shows "computePlacement rfc now expected deleting obj = ([], []) \<longleftrightarrow>
    (\<forall>loc. placed_label expected deleting obj loc = go_get (Labels obj) (state_label loc)
      \<and> placed_deletion rfc now expected deleting obj loc = go_get (Annotations obj) (deletion_annotation loc))"
    (is "?empty \<longleftrightarrow> ?same")
proof
  assume ?empty
  then have "obj = apply_placement (computePlacement rfc now expected deleting obj) obj" by (simp add: apply_placement_def)
  from apply_placement_get(1,2) [OF assms this] show ?same by simp
next
  assume same: ?same
  obtain ap lp where c: "computePlacement rfc now expected deleting obj = (ap, lp)" by fastforce
  show ?empty
  proof (cases "set_equal (getLocations (Labels obj) False) expected \<and> map_equal (getDeletingLocations (Annotations obj)) deleting")
    case False
    note maps = computePlacement_maps [OF assms c False]
    have "map_of lp (state_label loc) = None" "map_of ap (deletion_annotation loc) = None" for loc
      using same [rule_format, of loc]
      by (auto simp: maps(1,2) placed_label_def placed_deletion_def go_has_def Let_def split: option.splits if_splits)
    with maps(3,4) have "map_of lp k = None" "map_of ap k = None" for k by metis+
    then have "lp = []" "ap = []" by (metis list.set_cases map_of_eq_None_iff image_eqI set_empty ex_in_conv)+
    with c show ?thesis by simp
  qed (simp add: computePlacement_def)
qed

lemma wf_apply_map_patch [simp]: "wf_map m \<Longrightarrow> wf_map (apply_map_patch p m)"
proof (induction p)
  case (Cons e p)
  obtain k v where "e = (k, v)" by fastforce
  moreover have "wf_map (Some (entries m))" if "wf_map m" for m :: smap using that by (simp add: wf_map_def)
  ultimately show ?case using Cons
    by (cases v) (auto simp: apply_map_patch_def patch_entry_def)
qed simp

lemma finalizer_neq_deletion [simp, key_simps]: "finalizer_annotation s \<noteq> deletion_annotation t"
  by (simp add: key_prefix_defs)

lemma apply_placement_frame:
  assumes "wf_map (Annotations obj)" "obj' = apply_placement (computePlacement rfc now expected deleting obj) obj"
  shows "wf_map (Annotations obj')" "held obj' loc = held obj loc" "initial_state obj' = initial_state obj"
  using assms(1) apply_placement_get(4) [OF assms, of "finalizer_annotation loc"]
  by (simp_all add: assms(2) apply_placement_def held_def hasSyncerFinalizer_def hasClusterFinalizer_def initial_state_def)

section \<open>Properties\<close>

text \<open>
  C2: The effect of \<open>computePlacement\<close>: applied to the resource, its patches give every sync target the
  label and the deletion timestamp that the specification functions \<open>placed_label\<close> and
  \<open>placed_deletion\<close> state, and touch no other label or annotation. A new sync target is labelled
  unless it is being deleted, an expected one keeps its state and takes over the timestamp, one that is
  no longer expected is unlabelled if no finalizer holds it and marked for deletion otherwise.
\<close>

theorem computePlacement_refines:
  assumes "wf_map (Annotations obj)" "obj' = apply_placement (computePlacement rfc now expected deleting obj) obj"
  shows "(\<forall>loc. go_get (Labels obj') (state_label loc) = placed_label expected deleting obj loc
      \<and> go_get (Annotations obj') (deletion_annotation loc) = placed_deletion rfc now expected deleting obj loc)
    \<and> (\<forall>k. (\<forall>t. k \<noteq> state_label t) \<longrightarrow> go_get (Labels obj') k = go_get (Labels obj) k)
    \<and> (\<forall>k. (\<forall>t. k \<noteq> deletion_annotation t) \<longrightarrow> go_get (Annotations obj') k = go_get (Annotations obj) k)"
  using apply_placement_get [OF assms] by blast

text \<open>
  Placement converges: after the patches of two passes with the same expectation have been applied,
  a third pass has nothing to patch, whatever labels, annotations, finalizers and stale timestamps the
  resource started with.
\<close>

theorem computePlacement_converges:
  assumes "wf_map (Annotations obj)"
    and "obj1 = apply_placement (computePlacement rfc now1 expected deleting obj) obj"
    and "obj2 = apply_placement (computePlacement rfc now2 expected deleting obj1) obj1"
  shows "computePlacement rfc now3 expected deleting obj2 = ([], [])"
proof -
  note f1 = apply_placement_frame [OF assms(1,2)] and g1 = apply_placement_get(1,2) [OF assms(1,2)]
  note f2 = apply_placement_frame [OF f1(1) assms(3)] and g2 = apply_placement_get(1,2) [OF f1(1) assms(3)]
  have "placed_label expected deleting obj2 loc = go_get (Labels obj2) (state_label loc)
    \<and> placed_deletion rfc now3 expected deleting obj2 loc = go_get (Annotations obj2) (deletion_annotation loc)" for loc
    by (cases "go_get (Labels obj) (state_label loc)"; cases "loc \<in> set expected"; cases "held obj loc";
        cases "map_of deleting loc"; cases "go_get (Annotations obj) (deletion_annotation loc)")
       (simp_all add: placed_label_def placed_deletion_def g1 g2 f1 f2 go_has_def)
  then show ?thesis by (simp add: computePlacement_empty_iff [OF f2(1)])
qed

text \<open>
  C19: A resource is never unlabelled under a finalizer: while the syncer's finalizer or a soft finalizer
  of a sync target is on the resource, a pass keeps the label of that sync target, and if the sync
  target is no longer expected it leaves a deletion timestamp for it.
\<close>

theorem finalizer_keeps_label:
  assumes "wf_map (Annotations obj)" "obj' = apply_placement (computePlacement rfc now expected deleting obj) obj"
    and "go_get (Labels obj) (state_label loc) = Some state"
    and "hasSyncerFinalizer obj loc \<or> hasClusterFinalizer obj loc"
  shows "go_get (Labels obj') (state_label loc) = Some state
    \<and> (loc \<in> set expected \<or> go_has (Annotations obj') (deletion_annotation loc))"
  using apply_placement_get(1,2) [OF assms(1,2), of loc] assms(3,4)
  by (auto simp: placed_label_def placed_deletion_def held_def go_has_def Let_def)

text \<open>
  An upsynced resource is left to its upsyncer: a resource with an Upsync state label is never
  patched; it is deleted exactly if the sync target of that label does not exist any more, and a
  failed lookup is an error that leaves it alone.
\<close>

theorem upsynced_resource_protected:
  assumes "go_get (Labels obj) (state_label t) = Some ResourceStateUpsync"
    and "reconcileResource rfc now0 now E send c obj r = (reqs, err)"
  shows "\<exists>t'. (state_label t', ResourceStateUpsync) \<in> set (entries (Labels obj))
    \<and> (case getSyncTargetFromKey E t' of
        Inl e \<Rightarrow> reqs = [] \<and> err \<noteq> None
      | Inr True \<Rightarrow> reqs = [] \<and> err = None
      | Inr False \<Rightarrow> reqs = [DeleteResource (Cluster obj) (Namespace obj) (Name obj)] \<and> err = send (hd reqs))"
proof -
  have "upsynced_to (Labels obj) \<noteq> None"
    using go_get_in_entries [OF assms(1)] by (auto simp: upsynced_to_def find_None_iff)
  then obtain k v where kv: "find (\<lambda>(k, v). has_prefix k ClusterResourceStateLabelPrefix \<and> v = ResourceStateUpsync) (entries (Labels obj)) = Some (k, v)"
    by (auto simp: upsynced_to_def)
  then have "has_prefix k ClusterResourceStateLabelPrefix" "v = ResourceStateUpsync" "(k, v) \<in> set (entries (Labels obj))"
    by (auto simp: find_Some_iff in_set_conv_nth)
  moreover from this obtain t' where "k = state_label t'" by (auto simp: has_prefix_iff)
  ultimately have t': "upsynced_to (Labels obj) = Some t'" "(state_label t', ResourceStateUpsync) \<in> set (entries (Labels obj))"
    using kv by (simp_all add: upsynced_to_def)
  with assms(2) show ?thesis
    by (intro exI [of _ t']) (auto simp: reconcileResource_def Let_def split: sum.splits bool.splits)
qed

lemma propagate_patch:
  "map_of (propagateDeletionTimestamp rfc obj t) k =
     (if has_prefix k InternalClusterDeletionTimestampAnnotationPrefix
          \<and> go_has (Labels obj) (state_label (trim_prefix k InternalClusterDeletionTimestampAnnotationPrefix))
          \<and> go_str (Annotations obj) k = []
      then Some (Some (fmt_time rfc t)) else None)"
  unfolding propagateDeletionTimestamp_def deletion_key.map_of_put_loop
  by (auto simp: set_getLocations_all has_prefix_trim)

text \<open>The effect of the API server on a request of the handler.\<close>

definition apply_metadata_patch :: "metadata_patch \<Rightarrow> object_meta \<Rightarrow> object_meta" where
  "apply_metadata_patch p obj =
     obj\<lparr>Labels := apply_map_patch (mp_labels p) (Labels obj), Annotations := apply_map_patch (mp_annotations p) (Annotations obj),
         Finalizers := (case mp_finalizers p of None \<Rightarrow> Finalizers obj | Some fs \<Rightarrow> fs)\<rparr>"

text \<open>
  A deleted resource is deleted everywhere: when the resource has a deletion timestamp, then after a
  pass every sync target it is assigned to has a non-empty deletion annotation, a timestamp that was
  there before is kept, and no label changes.
\<close>

theorem deletion_reaches_all_targets:
  assumes "DeletionTimestamp obj = Some dt" "fmt_time rfc dt \<noteq> []"
    and "obj' = (case resource_patch rfc now E expected deleting obj of None \<Rightarrow> obj | Some p \<Rightarrow> apply_metadata_patch p obj)"
  shows "(\<forall>t. go_has (Labels obj) (state_label t) \<longrightarrow>
        go_str (Annotations obj') (deletion_annotation t) =
          (if go_str (Annotations obj) (deletion_annotation t) = [] then fmt_time rfc dt
           else go_str (Annotations obj) (deletion_annotation t)))
    \<and> (\<forall>t. go_has (Labels obj) (state_label t) \<longrightarrow> go_str (Annotations obj') (deletion_annotation t) \<noteq> [])
    \<and> Labels obj' = Labels obj"
proof -
  define ap where "ap = propagateDeletionTimestamp rfc obj dt"
  have "Annotations obj' = apply_map_patch ap (Annotations obj)" "Labels obj' = Labels obj"
    unfolding assms(3) by (auto simp: resource_patch_def assms(1) ap_def Let_def apply_metadata_patch_def)
  moreover have "map_of ap (deletion_annotation t) =
      (if go_has (Labels obj) (state_label t) \<and> go_str (Annotations obj) (deletion_annotation t) = [] then Some (Some (fmt_time rfc dt)) else None)" for t
    by (simp add: ap_def propagate_patch)
  ultimately show ?thesis using assms(2)
    by (auto simp: go_str_def go_get_apply_patch split: option.splits if_splits)
qed

text \<open>
  Finalizers of removed syncers are cleaned: the finalizers that a pass keeps are, in their order, those
  that are not syncer finalizers and those whose sync target is known to exist. A syncer finalizer
  whose lookup fails is dropped too.
\<close>

theorem finalizer_cleaning:
  assumes "resource_patch rfc now E expected deleting obj = Some p"
  shows "(case mp_finalizers p of None \<Rightarrow> Finalizers obj | Some fs \<Rightarrow> fs) = clean_finalizers E (Finalizers obj)
    \<and> (\<forall>f. f \<in> set (clean_finalizers E (Finalizers obj)) \<longleftrightarrow> f \<in> set (Finalizers obj)
          \<and> (\<forall>t. f = syncer_finalizer t \<longrightarrow> getSyncTargetFromKey E t = Inr True))
    \<and> mp_UID p = UID obj \<and> mp_ResourceVersion p = ResourceVersion obj"
proof -
  have len: "length (clean_finalizers E fs) = length fs \<Longrightarrow> clean_finalizers E fs = fs" for fs
    unfolding clean_finalizers_def by (metis filter_id_conv length_filter_less less_irrefl)
  have "(case mp_finalizers p of None \<Rightarrow> Finalizers obj | Some fs \<Rightarrow> fs) = clean_finalizers E (Finalizers obj)"
    using assms len [of "Finalizers obj"] by (auto simp: resource_patch_def Let_def split: prod.splits if_splits)
  moreover have "f \<in> set (clean_finalizers E (Finalizers obj)) \<longleftrightarrow> f \<in> set (Finalizers obj)
          \<and> (\<forall>t. f = syncer_finalizer t \<longrightarrow> getSyncTargetFromKey E t = Inr True)" for f
    by (auto simp: clean_finalizers_def has_prefix_iff)
  ultimately show ?thesis using assms by (auto simp: resource_patch_def Let_def split: prod.splits if_splits)
qed

text \<open>
  One pass sends at most one request, addressed to the resource itself, and a patch carries the UID and
  the resource version the decision was based on, so that it fails if the resource has changed since.
\<close>

theorem reconcileResource_requests:
  "case reconcileResource rfc now0 now E send c obj r of (reqs, err) \<Rightarrow>
     reqs = [] \<or> (\<exists>q. reqs = [q] \<and> err = send q
       \<and> (q = DeleteResource (Cluster obj) (Namespace obj) (Name obj)
          \<or> (\<exists>p. q = PatchResource c (Namespace obj) (Name obj) p \<and> mp_UID p = UID obj \<and> mp_ResourceVersion p = ResourceVersion obj)))"
  by (auto simp: reconcileResource_def resource_patch_def Let_def split: option.splits sum.splits if_splits prod.splits)

section \<open>Witnesses\<close>

definition ex_object :: "smap \<Rightarrow> smap \<Rightarrow> string list \<Rightarrow> time option \<Rightarrow> object_meta" where
  "ex_object ls as fs dt = (meta_named ''user'' ''cm'')\<lparr>Namespace := ''ns'', Labels := ls, Annotations := as, Finalizers := fs,
     DeletionTimestamp := dt\<rparr>"

lemma ex_object_sel [simp]:
  "Labels (ex_object ls as fs dt) = ls" "Annotations (ex_object ls as fs dt) = as" "Finalizers (ex_object ls as fs dt) = fs"
  "Namespace (ex_object ls as fs dt) = ''ns''" "Name (ex_object ls as fs dt) = ''cm''" "DeletionTimestamp (ex_object ls as fs dt) = dt"
  "Cluster (ex_object ls as fs dt) = ''user''"
  by (simp_all add: ex_object_def ex_object_defs)

definition ex_resource_lib :: "go_error + bool \<Rightarrow> resource_lib" where
  "ex_resource_lib found = \<lparr>getNamespace = (\<lambda>_ _. Inl NotFound), listPlacementsIn = (\<lambda>_. Inr []),
     getSyncTargetFromKey = (\<lambda>_. found), DefaultIdentitySecretNamespace = ''kcp-system''\<rparr>"

text \<open>A resource on the sync target east, held there by a syncer, that should move to west.\<close>

definition ex_moving :: object_meta where
  "ex_moving = ex_object (Some [(state_label ''east'', ResourceStateSync)]) None [syncer_finalizer ''east''] None"

lemma ex_moving_facts:
  "wf_map (Annotations ex_moving)" "go_get (Labels ex_moving) (state_label ''east'') = Some ResourceStateSync"
  "hasSyncerFinalizer ex_moving ''east''" "\<not> go_has (Labels ex_moving) (state_label ''west'')"
  "Namespace ex_moving \<noteq> []"
  by (simp_all add: ex_moving_def wf_map_def hasSyncerFinalizer_def go_get_def go_has_def)

theorem computePlacement_refines_witness:
  "\<exists>obj'. obj' = apply_placement (computePlacement basic_rfc3339 (\<lambda>_. 0) [''west''] [] ex_moving) ex_moving
    \<and> go_get (Labels obj') (state_label ''west'') = Some ResourceStateSync
    \<and> go_has (Annotations obj') (deletion_annotation ''east'')"
  using computePlacement_refines [OF ex_moving_facts(1) refl, of basic_rfc3339 "\<lambda>_. 0" "[''west'']" "[]"] ex_moving_facts
  by (simp add: placed_label_def placed_deletion_def held_def initial_state_def go_has_def Let_def split: option.splits)

theorem computePlacement_converges_witness:
  "\<exists>obj1 obj2. obj1 = apply_placement (computePlacement basic_rfc3339 (\<lambda>_. 0) [''west''] [] ex_moving) ex_moving
    \<and> obj2 = apply_placement (computePlacement basic_rfc3339 (\<lambda>_. 0) [''west''] [] obj1) obj1
    \<and> computePlacement basic_rfc3339 (\<lambda>_. 0) [''west''] [] obj2 = ([], [])"
  using computePlacement_converges [OF ex_moving_facts(1) refl refl, of basic_rfc3339 "\<lambda>_. 0"] by blast

theorem finalizer_keeps_label_witness:
  "go_get (Labels (apply_placement (computePlacement basic_rfc3339 (\<lambda>_. 0) [''west''] [] ex_moving) ex_moving)) (state_label ''east'')
    = Some ResourceStateSync"
  using finalizer_keeps_label [OF ex_moving_facts(1) refl ex_moving_facts(2)] ex_moving_facts(3) by blast

theorem upsynced_resource_protected_witness:
  "\<exists>reqs err. reconcileResource basic_rfc3339 0 (\<lambda>_. 0) (ex_resource_lib (Inr False)) (\<lambda>_. None) ''user''
      (ex_object (Some [(state_label ''east'', ResourceStateUpsync)]) None [] None) ex_gvr = (reqs, err)
    \<and> reqs = [DeleteResource ''user'' ''ns'' ''cm'']"
proof -
  let ?obj = "ex_object (Some [(state_label ''east'', ResourceStateUpsync)]) None [] None"
  obtain reqs err where r: "reconcileResource basic_rfc3339 0 (\<lambda>_. 0) (ex_resource_lib (Inr False)) (\<lambda>_. None) ''user'' ?obj ex_gvr = (reqs, err)"
    by fastforce
  have "go_get (Labels ?obj) (state_label ''east'') = Some ResourceStateUpsync" by (simp add: go_get_def)
  from upsynced_resource_protected [OF this r] r show ?thesis by (auto simp: ex_resource_lib_def)
qed

theorem deletion_reaches_all_targets_witness:
  "\<exists>obj'. go_str (Annotations obj') (deletion_annotation ''east'') = ''ssss'' \<and>
    obj' = (case resource_patch basic_rfc3339 (\<lambda>_. 0) (ex_resource_lib (Inr True)) [] []
       (ex_object (Some [(state_label ''east'', ResourceStateSync)]) None [] (Some (3 * second))) of
        None \<Rightarrow> ex_object (Some [(state_label ''east'', ResourceStateSync)]) None [] (Some (3 * second))
      | Some p \<Rightarrow> apply_metadata_patch p (ex_object (Some [(state_label ''east'', ResourceStateSync)]) None [] (Some (3 * second))))"
proof -
  let ?obj = "ex_object (Some [(state_label ''east'', ResourceStateSync)]) None [] (Some (3 * second))"
  have "3 * second div second = 3" by (simp add: second_def)
  then have f: "fmt_time basic_rfc3339 (3 * second) = ''ssss''" by (simp add: basic_rfc3339_def numeral_3_eq_3)
  show ?thesis
    using deletion_reaches_all_targets [of ?obj "3 * second" basic_rfc3339, OF _ _ refl] f
    by (fastforce simp: go_has_def go_get_def go_str_def)
qed

theorem finalizer_cleaning_witness:
  "\<exists>p. resource_patch basic_rfc3339 (\<lambda>_. 0) (ex_resource_lib (Inr False)) [''east''] []
      (ex_object (Some [(state_label ''east'', ResourceStateSync)]) None [syncer_finalizer ''east'', ''other''] None) = Some p
    \<and> mp_finalizers p = Some [''other'']"
proof -
  let ?obj = "ex_object (Some [(state_label ''east'', ResourceStateSync)]) None [syncer_finalizer ''east'', ''other''] None"
  have c: "clean_finalizers (ex_resource_lib (Inr False)) (Finalizers ?obj) = [''other'']"
    by (simp add: clean_finalizers_def ex_resource_lib_def) (simp add: has_prefix_def SyncerFinalizerNamePrefix_def)
  then obtain p where p: "resource_patch basic_rfc3339 (\<lambda>_. 0) (ex_resource_lib (Inr False)) [''east''] [] ?obj = Some p"
    by (cases "computePlacement basic_rfc3339 (\<lambda>_. 0) [''east''] [] ?obj") (simp add: resource_patch_def Let_def)
  with finalizer_cleaning [OF p] c show ?thesis by (auto split: option.splits)
qed

end
