(* ===== verification/Work_Queue.thy ===== *)
theory Work_Queue
  imports TMC_Prelude
begin

text \<open>
  The worker loop that every controller of \<^verbatim>\<open>src/pkg/reconciler\<close> and \<^verbatim>\<open>src/pkg/syncer\<close> has around
  its \<open>process\<close> function (\<open>processNextWorkItem\<close>, \<open>processNext\<close>). The rate-limiting queue is a library:
  the model is the sequence of calls that one iteration makes on it.
\<close>

datatype 'k queue_call = QGet | QDone 'k | QAddRateLimited 'k | QAddAfter 'k duration | QAdd 'k | QForget 'k

text \<open>
  One iteration. \<open>item\<close> is the answer of \<open>Get\<close>, \<open>None\<close> when the queue is shut down; the result is the
  flag that keeps the worker going, the calls in order, and the errors handed to \<open>HandleError\<close>.
  \<open>Done\<close> is deferred, so it is the last call.
\<close>

definition processNext ::
  "('k \<Rightarrow> go_error list) \<Rightarrow> 'k option \<Rightarrow> bool \<times> 'k queue_call list \<times> go_error list" where
  "processNext processFunc item =
     (case item of
        None \<Rightarrow> (False, [QGet], [])
      | Some key \<Rightarrow>
          (case processFunc key of
             [] \<Rightarrow> (True, [QGet, QForget key, QDone key], [])
           | errs \<Rightarrow> (True, [QGet, QAddRateLimited key, QDone key], errs)))"

text \<open>The variant whose \<open>process\<close> also asks for a requeue; a requeue without an error adds the key at once.\<close>

definition processNextRequeue ::
  "('k \<Rightarrow> bool \<times> go_error list) \<Rightarrow> 'k option \<Rightarrow> bool \<times> 'k queue_call list \<times> go_error list" where
  "processNextRequeue processFunc item =
     (case item of
        None \<Rightarrow> (False, [QGet], [])
      | Some key \<Rightarrow>
          (case processFunc key of
             (requeue, e # errs) \<Rightarrow> (True, [QGet, QAddRateLimited key, QDone key], e # errs)
           | (True, []) \<Rightarrow> (True, [QGet, QAdd key, QDone key], [])
           | (False, []) \<Rightarrow> (True, [QGet, QForget key, QDone key], [])))"

text \<open>The variant of the spec syncer, whose \<open>process\<close> may ask for a retry after a delay.\<close>

definition processNextAfter ::
  "('k \<Rightarrow> go_error + duration option) \<Rightarrow> 'k option \<Rightarrow> bool \<times> 'k queue_call list \<times> go_error list" where
  "processNextAfter processFunc item =
     (case item of
        None \<Rightarrow> (False, [QGet], [])
      | Some key \<Rightarrow>
          (case processFunc key of
             Inl e \<Rightarrow> (True, [QGet, QAddRateLimited key, QDone key], [e])
           | Inr (Some retryAfter) \<Rightarrow> (True, [QGet, QAddAfter key retryAfter, QDone key], [])
           | Inr None \<Rightarrow> (True, [QGet, QForget key, QDone key], [])))"

text \<open>
  A worker drains the answers of its queue: it stops at the first shutdown, and only there.
\<close>

fun startWorker :: "('k option \<Rightarrow> bool \<times> 'k queue_call list \<times> go_error list) \<Rightarrow> 'k option list \<Rightarrow> 'k queue_call list" where
  "startWorker iterate [] = []"
| "startWorker iterate (item # items) =
     (case iterate item of (go, calls, errs) \<Rightarrow> calls @ (if go then startWorker iterate items else []))"

section \<open>The contract of an iteration\<close>

definition retried :: "'k \<Rightarrow> 'k queue_call list \<Rightarrow> bool" where
  "retried key calls \<longleftrightarrow> (\<exists>c \<in> set calls. c = QAddRateLimited key \<or> c = QAdd key \<or> (\<exists>d. c = QAddAfter key d))"

definition iteration_ok :: "'k \<Rightarrow> bool \<Rightarrow> 'k queue_call list \<Rightarrow> bool" where
  "iteration_ok key ok calls \<longleftrightarrow> calls \<noteq> [] \<and> last calls = QDone key
     \<and> (\<forall>k. count_list calls (QDone k) = (if k = key then 1 else 0))
     \<and> (retried key calls \<longleftrightarrow> \<not> ok) \<and> (QForget key \<in> set calls \<longleftrightarrow> ok)"

locale worker =
  fixes iterate :: "'k option \<Rightarrow> bool \<times> 'k queue_call list \<times> go_error list"
    and ok :: "'k \<Rightarrow> bool"
  assumes shutdown: "iterate None = (False, [QGet], [])"
    and iteration: "iterate (Some key) = (go, calls, errs) \<Longrightarrow> go \<and> iteration_ok key (ok key) calls"
begin

lemma every_key_done_once:
  "count_list (startWorker iterate items) (QDone k) = count_list (map the (takeWhile (\<lambda>i. i \<noteq> None) items)) k"
proof (induction items)
  case (Cons item items)
  show ?case
  proof (cases item)
    case (Some key)
    obtain go calls errs where it: "iterate (Some key) = (go, calls, errs)" by (rule prod_cases3)
    from iteration [OF it] Cons Some it show ?thesis by (simp add: iteration_ok_def)
  qed (simp add: shutdown)
qed simp

lemma failed_key_retried:
  assumes "iterate (Some key) = (go, calls, errs)" "\<not> ok key"
  shows "retried key calls \<and> QForget key \<notin> set calls"
  using iteration [OF assms(1)] assms(2) by (simp add: iteration_ok_def)

end

interpretation plain: worker "processNext f" "\<lambda>key. f key = []" for f
proof
  fix key go calls errs
  assume "processNext f (Some key) = (go, calls, errs)"
  then show "go \<and> iteration_ok key (f key = []) calls"
    by (cases "f key") (auto simp: processNext_def iteration_ok_def retried_def)
qed (simp add: processNext_def)

interpretation requeueing: worker "processNextRequeue f" "\<lambda>key. f key = (False, [])" for f
proof
  fix key go calls errs
  assume r: "processNextRequeue f (Some key) = (go, calls, errs)"
  obtain rq es where f: "f key = (rq, es)" by fastforce
  from r f show "go \<and> iteration_ok key (f key = (False, [])) calls"
    by (cases es; cases rq) (auto simp: processNextRequeue_def iteration_ok_def retried_def)
qed (simp add: processNextRequeue_def)

interpretation delaying: worker "processNextAfter f" "\<lambda>key. f key = Inr None" for f
proof
  fix key go calls errs
  assume "processNextAfter f (Some key) = (go, calls, errs)"
  then show "go \<and> iteration_ok key (f key = Inr None) calls"
    by (cases "f key") (auto simp: processNextAfter_def iteration_ok_def retried_def split: option.splits)
qed (simp add: processNextAfter_def)

text \<open>
  The worker loop of the controllers loses no key: over any sequence of answers of the queue, each key
  that is taken before the shutdown is marked as done exactly as often as it is taken, and in each
  iteration the key is put back if and only if its processing returned an error, and forgotten
  otherwise.
\<close>

theorem worker_loses_no_key:
  "count_list (startWorker (processNext f) items) (QDone k) = count_list (map the (takeWhile (\<lambda>i. i \<noteq> None) items)) k
   \<and> (\<exists>calls. processNext f (Some k) = (True, calls, f k) \<and> (retried k calls \<longleftrightarrow> f k \<noteq> []) \<and> (QForget k \<in> set calls \<longleftrightarrow> f k = []))"
  using plain.every_key_done_once [of f items k]
  by (cases "f k") (simp_all add: processNext_def retried_def)

end
