(* ===== verification/Resource_Events.thy ===== *)
theory Resource_Events
  imports Resource_Scheduler Work_Queue
begin

text \<open>
  The event side of \<^verbatim>\<open>src/pkg/reconciler/workload/resource/resource_controller.go\<close>: which resources are
  put on the queue when a namespace, a placement or a sync target changes, and how a queue key is taken
  apart again; with the index functions of \<^verbatim>\<open>src/pkg/indexers/indexers.go\<close>.

  Parameters: the key functions of the kcp cache, \<open>schema.ParseResourceArg\<close>, and the dynamic informers
  (record \<open>resource_informer\<close>); \<open>index_laws\<close> is what an informer's index documents, that \<open>ByIndex\<close>
  returns the stored objects whose index function yields the value.
\<close>

section \<open>Indexes\<close>

definition IndexBySyncerFinalizerKey :: "object_meta \<Rightarrow> string list" where
  "IndexBySyncerFinalizerKey obj = filter (\<lambda>f. has_prefix f SyncerFinalizerNamePrefix) (Finalizers obj)"

definition IndexByClusterResourceStateLabelKey :: "object_meta \<Rightarrow> string list" where
  "IndexByClusterResourceStateLabelKey obj =
     filter (\<lambda>k. has_prefix k ClusterResourceStateLabelPrefix) (map fst (entries (Labels obj)))"

definition indexBySyncTargetKey :: "sync_target \<Rightarrow> string list" where
  "indexBySyncTargetKey st =
     (if \<not> go_has (Labels st) InternalSyncTargetKeyLabel then [] else [go_str (Labels st) InternalSyncTargetKeyLabel])"

record resource_informer =
  ri_objects :: "object_meta list"
  ri_list :: "string \<Rightarrow> string \<Rightarrow> go_error + object_meta list"   \<comment> \<open>by cluster and namespace\<close>
  ri_listAll :: "go_error + object_meta list"
  ri_byStateLabel :: "string \<Rightarrow> go_error + object_meta list"     \<comment> \<open>the index \<open>ByClusterResourceStateLabelKey\<close>\<close>
  ri_bySyncerFinalizer :: "string \<Rightarrow> go_error + object_meta list"  \<comment> \<open>the index \<open>BySyncerFinalizerKey\<close>\<close>
  ri_HasSynced :: bool

record dynamic_informers =
  dds_Informers :: "(gvr \<times> resource_informer) list"
  dds_notSynced :: "gvr list"
  dds_ForResource :: "gvr \<Rightarrow> go_error + resource_informer"

definition index_laws :: "resource_informer \<Rightarrow> bool" where
  "index_laws informer \<longleftrightarrow>
     (\<forall>v. ri_byStateLabel informer v = Inr (filter (\<lambda>obj. v \<in> set (IndexByClusterResourceStateLabelKey obj)) (ri_objects informer)))
   \<and> (\<forall>v. ri_bySyncerFinalizer informer v = Inr (filter (\<lambda>obj. v \<in> set (IndexBySyncerFinalizerKey obj)) (ri_objects informer)))"

section \<open>Queue keys\<close>

definition gvr_key :: "gvr \<Rightarrow> string" where
  "gvr_key r = join ''.'' [gvr_Resource r, gvr_Version r, gvr_Group r]"

text \<open>The keys for the resource queue and for the GVR queue, and the errors handed to \<open>HandleError\<close>.\<close>

record resource_events =
  ev_resources :: "string list"
  ev_gvrs :: "string list"
  ev_errors :: "go_error list"

definition no_events :: resource_events where
  "no_events = \<lparr>ev_resources = [], ev_gvrs = [], ev_errors = []\<rparr>"

definition enqueueResource :: "(object_meta \<Rightarrow> go_error + string) \<Rightarrow> gvr \<Rightarrow> object_meta \<Rightarrow> resource_events \<Rightarrow> resource_events" where
  "enqueueResource keyFunc r obj ev =
     (case keyFunc obj of
        Inl e \<Rightarrow> ev\<lparr>ev_errors := ev_errors ev @ [e]\<rparr>
      | Inr key \<Rightarrow> ev\<lparr>ev_resources := ev_resources ev @ [gvr_key r @ ''::'' @ key]\<rparr>)"

definition enqueueGVR :: "gvr \<Rightarrow> resource_events \<Rightarrow> resource_events" where
  "enqueueGVR r ev = ev\<lparr>ev_gvrs := ev_gvrs ev @ [gvr_key r]\<rparr>"

section \<open>Namespace events\<close>

definition filterNamespace :: "string \<Rightarrow> go_error + string \<Rightarrow> bool" where
  "filterNamespace defaultIdentitySecretNamespace name =
     (case name of Inl _ \<Rightarrow> False | Inr n \<Rightarrow> n \<notin> set (namespaceBlocklist defaultIdentitySecretNamespace))"

text \<open>The update handler of namespaces: whether the update is passed on.\<close>

definition namespace_update_relevant :: "namespace \<Rightarrow> namespace \<Rightarrow> bool" where
  "namespace_update_relevant oldNS newNS \<longleftrightarrow>
     \<not> map_equal (scheduleStateLabels (Labels oldNS)) (scheduleStateLabels (Labels newNS))
     \<or> \<not> map_equal (scheduleStateAnnotations (Annotations oldNS)) (scheduleStateAnnotations (Annotations newNS))"

definition needs_scheduling :: "namespace \<Rightarrow> object_meta \<Rightarrow> bool" where
  "needs_scheduling ns u \<longleftrightarrow>
     \<not> set_equal (getLocations (Labels u) False) (getLocations (Labels ns) True)
     \<or> \<not> map_equal (getDeletingLocations (Annotations u)) (getDeletingLocations (Annotations ns))"

definition enqueue_for_gvr ::
  "(object_meta \<Rightarrow> go_error + string) \<Rightarrow> namespace \<Rightarrow> gvr \<times> resource_informer \<Rightarrow> resource_events \<times> go_error list
     \<Rightarrow> resource_events \<times> go_error list" where
  "enqueue_for_gvr keyFunc ns gi st =
     (case gi of (r, informer) \<Rightarrow> case st of (ev, errs) \<Rightarrow>
      case ri_list informer (Cluster ns) (Name ns) of
        Inl e \<Rightarrow> (ev, errs @ [Failure (''error listing '' @ gvr_String r @ '' in '' @ Cluster ns @ ''|'' @ Name ns)])
      | Inr objs \<Rightarrow>
          (fold (\<lambda>u ev. if needs_scheduling ns u then enqueueResource keyFunc r u ev else ev) objs ev, errs))"

definition enqueueResourcesForNamespace ::
  "(object_meta \<Rightarrow> go_error + string) \<Rightarrow> dynamic_informers \<Rightarrow> namespace \<Rightarrow> resource_events \<times> go_error list" where
  "enqueueResourcesForNamespace keyFunc D ns =
     (case fold (enqueue_for_gvr keyFunc ns) (dds_Informers D) (no_events, []) of (ev, errs) \<Rightarrow>
        (fold enqueueGVR (dds_notSynced D) ev, errs))"

definition enqueueNamespace ::
  "(object_meta \<Rightarrow> go_error + string) \<Rightarrow> dynamic_informers \<Rightarrow> go_error + namespace \<Rightarrow> resource_events" where
  "enqueueNamespace keyFunc D lookup =
     (case lookup of
        Inl NotFound \<Rightarrow> no_events
      | Inl e \<Rightarrow> no_events\<lparr>ev_errors := [e]\<rparr>
      | Inr ns \<Rightarrow>
          (case enqueueResourcesForNamespace keyFunc D ns of (ev, errs) \<Rightarrow> ev\<lparr>ev_errors := ev_errors ev @ errs\<rparr>))"

section \<open>Sync target and placement events\<close>

text \<open>The loop that removes duplicates by UID, with the UIDs seen so far.\<close>

fun dedup :: "string list \<Rightarrow> object_meta list \<Rightarrow> object_meta list" where
  "dedup inObjs [] = []"
| "dedup inObjs (obj # objs) =
     (if UID obj \<notin> set inObjs then obj # dedup (UID obj # inObjs) objs else dedup inObjs objs)"

definition enqueue_key_for_gvr ::
  "(object_meta \<Rightarrow> go_error + string) \<Rightarrow> dynamic_informers \<Rightarrow> string \<Rightarrow> gvr \<times> resource_informer \<Rightarrow> resource_events \<Rightarrow> resource_events" where
  "enqueue_key_for_gvr keyFunc D syncTargetKey gi ev =
     (let r = fst gi in
      case dds_ForResource D r of
        Inl e \<Rightarrow> ev\<lparr>ev_errors := ev_errors ev @ [e]\<rparr>
      | Inr informer \<Rightarrow>
          (case ri_byStateLabel informer (state_label syncTargetKey) of
             Inl e \<Rightarrow> ev\<lparr>ev_errors := ev_errors ev @ [e]\<rparr>
           | Inr stateLabelObjs \<Rightarrow>
               (case ri_bySyncerFinalizer informer (syncer_finalizer syncTargetKey) of
                  Inl e \<Rightarrow> ev\<lparr>ev_errors := ev_errors ev @ [e]\<rparr>
                | Inr syncerFinalizerObjs \<Rightarrow>
                    fold (enqueueResource keyFunc r) (dedup [] (stateLabelObjs @ syncerFinalizerObjs)) ev)))"

definition enqueueSyncTargetKey ::
  "(object_meta \<Rightarrow> go_error + string) \<Rightarrow> dynamic_informers \<Rightarrow> string \<Rightarrow> resource_events" where
  "enqueueSyncTargetKey keyFunc D syncTargetKey =
     fold (enqueue_key_for_gvr keyFunc D syncTargetKey) (dds_Informers D) no_events"

definition enqueueSyncTarget ::
  "hash_lib \<Rightarrow> (object_meta \<Rightarrow> go_error + string) \<Rightarrow> dynamic_informers \<Rightarrow> sync_target \<Rightarrow> resource_events" where
  "enqueueSyncTarget H keyFunc D st = enqueueSyncTargetKey keyFunc D (ToSyncTargetKey H (Cluster st) (Name st))"

definition enqueuePlacement ::
  "(object_meta \<Rightarrow> go_error + string) \<Rightarrow> dynamic_informers \<Rightarrow> placement \<Rightarrow> resource_events" where
  "enqueuePlacement keyFunc D p =
     (let syncTargetKey = go_str (Annotations p) InternalSyncTargetPlacementAnnotationKey in
      if syncTargetKey = [] then no_events else enqueueSyncTargetKey keyFunc D syncTargetKey)"

section \<open>Processing\<close>

text \<open>\<open>strings.SplitN(key, "::", 2)\<close>: \<open>None\<close> if there are not two parts.\<close>

fun split_key :: "string \<Rightarrow> (string \<times> string) option" where
  "split_key (a # b # xs) =
     (if a = CHR '':'' \<and> b = CHR '':'' then Some ([], xs)
      else map_option (\<lambda>(l, r). (a # l, r)) (split_key (b # xs)))"
| "split_key _ = None"

record process_lib =
  ParseResourceArg :: "string \<Rightarrow> gvr option"
  SplitMetaClusterNamespaceKey :: "string \<Rightarrow> go_error + (string \<times> string \<times> string)"
  KCPOriginalAPIVersionAnnotation :: string
  ParseGroupVersion :: "string \<Rightarrow> go_error + (string \<times> string)"
  lookupObject :: "gvr \<Rightarrow> string \<Rightarrow> string \<Rightarrow> string \<Rightarrow> go_error + object_meta"

definition actual_gvr :: "process_lib \<Rightarrow> gvr \<Rightarrow> object_meta \<Rightarrow> gvr option" where
  "actual_gvr P r obj =
     (let actualVersion = go_str (Annotations obj) (KCPOriginalAPIVersionAnnotation P) in
      if actualVersion \<noteq> [] then
        (case ParseGroupVersion P actualVersion of
           Inl e \<Rightarrow> None | Inr (g, v) \<Rightarrow> Some (r\<lparr>gvr_Version := v\<rparr>))
      else Some r)"

definition processResource ::
  "process_lib \<Rightarrow> dynamic_informers \<Rightarrow> (string \<Rightarrow> object_meta \<Rightarrow> gvr \<Rightarrow> resource_request list \<times> go_error option) \<Rightarrow> string
     \<Rightarrow> resource_request list \<times> go_error option" where
  "processResource P D reconcile key =
     (case split_key key of
        None \<Rightarrow> ([], None)
      | Some (gvrstr, objKey) \<Rightarrow>
          (case ParseResourceArg P gvrstr of
             None \<Rightarrow> ([], None)
           | Some r \<Rightarrow>
               (case dds_ForResource D r of
                  Inl e \<Rightarrow> ([], Some e)
                | Inr informer \<Rightarrow>
                    (case SplitMetaClusterNamespaceKey P objKey of
                       Inl e \<Rightarrow> ([], None)
                     | Inr (lclusterName, ns, name) \<Rightarrow>
                         (case lookupObject P r lclusterName ns name of
                            Inl NotFound \<Rightarrow> ([], None)
                          | Inl e \<Rightarrow> ([], Some e)
                          | Inr obj \<Rightarrow>
                              (case actual_gvr P r obj of
                                 None \<Rightarrow> ([], None)
                               | Some actualGVR \<Rightarrow> reconcile lclusterName obj actualGVR))))))"

definition reconcileGVR ::
  "(object_meta \<Rightarrow> go_error + string) \<Rightarrow> dynamic_informers \<Rightarrow> gvr \<Rightarrow> resource_events \<times> go_error option" where
  "reconcileGVR keyFunc D r =
     (case dds_ForResource D r of
        Inl e \<Rightarrow> (no_events, Some e)
      | Inr informer \<Rightarrow>
          if \<not> ri_HasSynced informer
          then (no_events, Some (Failure (''informer for '' @ gvr_String r @ '' is not synced; re-enqueueing'')))
          else
            (case ri_listAll informer of
               Inl e \<Rightarrow> (no_events, Some e)
             | Inr objs \<Rightarrow> (fold (enqueueResource keyFunc r) objs no_events, None)))"

definition processGVR ::
  "process_lib \<Rightarrow> (object_meta \<Rightarrow> go_error + string) \<Rightarrow> dynamic_informers \<Rightarrow> string \<Rightarrow> resource_events \<times> go_error option" where
  "processGVR P keyFunc D gvrstr =
     (case ParseResourceArg P gvrstr of None \<Rightarrow> (no_events, None) | Some r \<Rightarrow> reconcileGVR keyFunc D r)"

section \<open>Lemmas\<close>

lemma dedup_subset: "set (dedup seen objs) \<subseteq> set objs"
  by (induction objs arbitrary: seen) auto

lemma dedup_complete:
  "obj \<in> set objs \<Longrightarrow> UID obj \<notin> set seen \<Longrightarrow> \<exists>o' \<in> set (dedup seen objs). UID o' = UID obj"
proof (induction objs arbitrary: seen)
  case (Cons a objs)
  from Cons.prems Cons.IH [of seen] Cons.IH [of "UID a # seen"] show ?case
    by (cases "UID a \<in> set seen"; cases "UID obj = UID a") auto
qed simp

lemma dedup_distinct: "distinct (map UID (dedup seen objs)) \<and> set (map UID (dedup seen objs)) \<inter> set seen = {}"
proof (induction objs arbitrary: seen)
  case (Cons obj objs)
  from Cons [of "UID obj # seen"] Cons [of seen] show ?case by auto
qed simp

lemma set_dedup: "inj_on UID (set objs) \<Longrightarrow> set (dedup [] objs) = set objs"
proof (intro equalityI subsetI)
  fix x assume inj: "inj_on UID (set objs)" and x: "x \<in> set objs"
  obtain y where y: "y \<in> set (dedup [] objs)" "UID y = UID x" using dedup_complete [OF x, of "[]"] by auto
  then have "y \<in> set objs" using dedup_subset by blast
  with inj x y show "x \<in> set (dedup [] objs)" by (metis inj_onD)
qed (use dedup_subset in blast)

lemma enqueue_loop:
  assumes "\<And>obj. keyFunc obj = Inr (key obj)"
  shows "fold (enqueueResource keyFunc r) objs ev =
    ev\<lparr>ev_resources := ev_resources ev @ map (\<lambda>obj. gvr_key r @ ''::'' @ key obj) objs\<rparr>"
  by (induction objs arbitrary: ev) (simp_all add: enqueueResource_def assms)

lemma state_index_iff:
  "state_label t \<in> set (IndexByClusterResourceStateLabelKey obj) \<longleftrightarrow> go_has (Labels obj) (state_label t)"
  by (auto simp: IndexByClusterResourceStateLabelKey_def go_has_iff_key)

lemma finalizer_index_iff:
  "syncer_finalizer t \<in> set (IndexBySyncerFinalizerKey obj) \<longleftrightarrow> hasSyncerFinalizer obj t"
  by (auto simp: IndexBySyncerFinalizerKey_def hasSyncerFinalizer_def)

definition assigned :: "string \<Rightarrow> object_meta \<Rightarrow> bool" where
  "assigned t obj \<longleftrightarrow> go_has (Labels obj) (state_label t) \<or> hasSyncerFinalizer obj t"

lemma enqueue_key_step:
  assumes "\<And>obj. keyFunc obj = Inr (key obj)" "dds_ForResource D r = Inr i" "index_laws i" "inj_on UID (set (ri_objects i))"
    and "enqueue_key_for_gvr keyFunc D t (r, i) ev = ev'"
  shows "set (ev_resources ev') = set (ev_resources ev) \<union> {gvr_key r @ ''::'' @ key obj | obj. obj \<in> set (ri_objects i) \<and> assigned t obj}"
    "ev_errors ev' = ev_errors ev" "ev_gvrs ev' = ev_gvrs ev"
proof -
  let ?a = "filter (\<lambda>obj. go_has (Labels obj) (state_label t)) (ri_objects i)"
  let ?b = "filter (\<lambda>obj. hasSyncerFinalizer obj t) (ri_objects i)"
  have e: "ev' = ev\<lparr>ev_resources := ev_resources ev @ map (\<lambda>obj. gvr_key r @ ''::'' @ key obj) (dedup [] (?a @ ?b))\<rparr>"
    using assms(2,3,5) by (simp add: enqueue_key_for_gvr_def index_laws_def enqueue_loop [OF assms(1)] state_index_iff finalizer_index_iff)
  have "inj_on UID (set (?a @ ?b))" by (rule inj_on_subset [OF assms(4)]) auto
  from set_dedup [OF this] have "set (dedup [] (?a @ ?b)) = {obj \<in> set (ri_objects i). assigned t obj}"
    by (auto simp: assigned_def)
  then show "set (ev_resources ev') = set (ev_resources ev) \<union> {gvr_key r @ ''::'' @ key obj | obj. obj \<in> set (ri_objects i) \<and> assigned t obj}"
    "ev_errors ev' = ev_errors ev" "ev_gvrs ev' = ev_gvrs ev"
    by (auto simp: e)
qed

lemma split_key_append:
  "CHR '':'' \<notin> set g \<Longrightarrow> split_key (g @ ''::'' @ k) = Some (g, k)"
proof (induction g)
  case (Cons a g)
  then show ?case by (cases g) auto
qed simp

section \<open>Properties\<close>

text \<open>
  Deleting a sync target or changing a placement reaches every resource it concerns: the keys put on
  the queue are exactly those of the objects that carry the sync target's state label or its syncer
  finalizer, over all informers, and no object is queued twice for an informer that lists it under
  both indexes.
\<close>

theorem enqueueSyncTargetKey_exact:
  assumes "\<And>obj. keyFunc obj = Inr (key obj)"
    and "\<And>r i. (r, i) \<in> set (dds_Informers D) \<Longrightarrow> dds_ForResource D r = Inr i \<and> index_laws i \<and> inj_on UID (set (ri_objects i))"
  shows "set (ev_resources (enqueueSyncTargetKey keyFunc D t)) =
      {gvr_key r @ ''::'' @ key obj | r i obj. (r, i) \<in> set (dds_Informers D) \<and> obj \<in> set (ri_objects i)
         \<and> (go_has (Labels obj) (state_label t) \<or> syncer_finalizer t \<in> set (Finalizers obj))}
    \<and> ev_errors (enqueueSyncTargetKey keyFunc D t) = []
    \<and> (\<forall>objs. distinct (map UID (dedup [] objs)))"
proof -
  have "set (ev_resources (fold (enqueue_key_for_gvr keyFunc D t) is ev)) = set (ev_resources ev) \<union>
      {gvr_key r @ ''::'' @ key obj | r i obj. (r, i) \<in> set is \<and> obj \<in> set (ri_objects i) \<and> assigned t obj}
    \<and> ev_errors (fold (enqueue_key_for_gvr keyFunc D t) is ev) = ev_errors ev"
    if "set is \<subseteq> set (dds_Informers D)" for "is" ev
    using that
  proof (induction "is" arbitrary: ev)
    case (Cons ri "is")
    obtain r i where ri: "ri = (r, i)" by fastforce
    with Cons.prems assms(2) have "dds_ForResource D r = Inr i" "index_laws i" "inj_on UID (set (ri_objects i))" by auto
    note step = enqueue_key_step [OF assms(1) this refl, where t = t and ev = ev]
    from Cons.IH [of "enqueue_key_for_gvr keyFunc D t ri ev"] Cons.prems step show ?case by (auto simp: ri)
  qed simp
  from this [of "dds_Informers D" no_events] show ?thesis
    by (auto simp: enqueueSyncTargetKey_def no_events_def assigned_def hasSyncerFinalizer_def dedup_distinct)
qed

text \<open>
  A queue key leads back to its object: processing the key that was queued for an object of a resource
  type reconciles that object, in its cluster, with that type, when the object is still in the lister.
\<close>

theorem resource_key_roundtrip:
  assumes "keyFunc obj = Inr key" "SplitMetaClusterNamespaceKey P key = Inr (c, n, name)"
    and "ParseResourceArg P (gvr_key r) = Some r" "CHR '':'' \<notin> set (gvr_key r)"
    and "dds_ForResource D r = Inr i" "lookupObject P r c n name = Inr obj"
    and "go_str (Annotations obj) (KCPOriginalAPIVersionAnnotation P) = []"
  shows "map (processResource P D reconcile) (ev_resources (enqueueResource keyFunc r obj no_events)) = [reconcile c obj r]"
  using assms split_key_append [OF assms(4), of key]
  by (simp add: enqueueResource_def no_events_def processResource_def actual_gvr_def)

lemma irrelevant_update:
  assumes "\<not> namespace_update_relevant old new"
  shows "go_get (Labels new) (state_label t) = go_get (Labels old) (state_label t)"
    and "go_get (Annotations new) (deletion_annotation t) = go_get (Annotations old) (deletion_annotation t)"
proof -
  from assms have "map_of (scheduleStateLabels (Labels old)) = map_of (scheduleStateLabels (Labels new))"
    "map_of (scheduleStateAnnotations (Annotations old)) = map_of (scheduleStateAnnotations (Annotations new))"
    by (simp_all add: namespace_update_relevant_def map_equal_iff)
  from fun_cong [OF this(1), of "state_label t"] fun_cong [OF this(2), of "deletion_annotation t"]
  show "go_get (Labels new) (state_label t) = go_get (Labels old) (state_label t)"
    "go_get (Annotations new) (deletion_annotation t) = go_get (Annotations old) (deletion_annotation t)"
    by (simp_all add: scheduleStateLabels_def scheduleStateAnnotations_def map_of_filter_key go_get_def)
qed

lemma set_getLocations_sync:
  "wf_map ls \<Longrightarrow> t \<in> set (getLocations ls True) \<longleftrightarrow> go_get ls (state_label t) = Some ResourceStateSync"
  by (simp add: set_getLocations go_get_iff_entries)

text \<open>
  No schedule change is missed: an update of a namespace that the event handler drops changes neither
  which resources of the namespace need scheduling, nor the sync targets and deletion timestamps that
  the scheduler would expect for them.
\<close>

theorem dropped_namespace_update_harmless:
  assumes "wf_map (Labels old)" "wf_map (Annotations old)" "wf_map (Labels new)" "wf_map (Annotations new)"
    and "\<not> namespace_update_relevant old new"
  shows "needs_scheduling new u = needs_scheduling old u
    \<and> set (getLocations (Labels new) False) = set (getLocations (Labels old) False)
    \<and> map_of (getDeletingLocations (Annotations new)) = map_of (getDeletingLocations (Annotations old))"
proof -
  note same = irrelevant_update [OF assms(5)]
  have "set (getLocations (Labels new) False) = set (getLocations (Labels old) False)"
    by (auto simp: set_getLocations_all go_has_def same)
  moreover have "set (getLocations (Labels new) True) = set (getLocations (Labels old) True)"
    by (auto simp: set_getLocations_sync assms same)
  moreover have "map_of (getDeletingLocations (Annotations new)) = map_of (getDeletingLocations (Annotations old))"
    by (auto simp: fun_eq_iff map_of_getDeletingLocations assms same)
  ultimately show ?thesis by (simp add: needs_scheduling_def set_equal_def map_equal_iff)
qed

section \<open>Witnesses\<close>

text \<open>One informer of one object, which carries both the label and the finalizer of the sync target east.\<close>

definition ex_synced_object :: object_meta where
  "ex_synced_object = ex_object (Some [(state_label ''east'', ResourceStateSync)]) None [syncer_finalizer ''east''] None"

definition ex_informer :: resource_informer where
  "ex_informer = \<lparr>ri_objects = [ex_synced_object], ri_list = (\<lambda>_ _. Inr [ex_synced_object]), ri_listAll = Inr [ex_synced_object],
     ri_byStateLabel = (\<lambda>v. Inr (filter (\<lambda>obj. v \<in> set (IndexByClusterResourceStateLabelKey obj)) [ex_synced_object])),
     ri_bySyncerFinalizer = (\<lambda>v. Inr (filter (\<lambda>obj. v \<in> set (IndexBySyncerFinalizerKey obj)) [ex_synced_object])),
     ri_HasSynced = True\<rparr>"

definition ex_dds :: dynamic_informers where
  "ex_dds = \<lparr>dds_Informers = [(ex_gvr, ex_informer)], dds_notSynced = [], dds_ForResource = (\<lambda>_. Inr ex_informer)\<rparr>"

definition ex_process_lib :: process_lib where
  "ex_process_lib = \<lparr>ParseResourceArg = (\<lambda>_. Some ex_gvr), SplitMetaClusterNamespaceKey = (\<lambda>k. Inr (''user'', ''ns'', k)),
     KCPOriginalAPIVersionAnnotation = ''original'', ParseGroupVersion = (\<lambda>v. Inr ([], v)),
     lookupObject = (\<lambda>_ _ _ _. Inr ex_synced_object)\<rparr>"

theorem enqueueSyncTargetKey_exact_witness:
  "set (ev_resources (enqueueSyncTargetKey (\<lambda>obj. Inr (Name obj)) ex_dds ''east'')) = {gvr_key ex_gvr @ ''::'' @ ''cm''}"
proof -
  have laws: "dds_ForResource ex_dds r = Inr i \<and> index_laws i \<and> inj_on UID (set (ri_objects i))"
    if "(r, i) \<in> set (dds_Informers ex_dds)" for r i
    using that by (auto simp: ex_dds_def ex_informer_def index_laws_def)
  have "go_has (Labels ex_synced_object) (state_label ''east'')"
    by (simp add: ex_synced_object_def go_has_def go_get_def)
  then show ?thesis
    using enqueueSyncTargetKey_exact [of "\<lambda>obj. Inr (Name obj)" Name ex_dds "''east''", OF refl laws]
    by (auto simp: ex_dds_def ex_informer_def ex_synced_object_def)
qed

theorem resource_key_roundtrip_witness:
  "map (processResource ex_process_lib ex_dds (\<lambda>c obj r. ([DeleteResource c (Namespace obj) (Name obj)], None)))
     (ev_resources (enqueueResource (\<lambda>obj. Inr (Name obj)) ex_gvr ex_synced_object no_events))
   = [([DeleteResource ''user'' ''ns'' ''cm''], None)]"
  using resource_key_roundtrip [of "\<lambda>obj. Inr (Name obj)" ex_synced_object "''cm''" ex_process_lib "''user''" "''ns''" "''cm''" ex_gvr ex_dds ex_informer
      "\<lambda>c obj r. ([DeleteResource c (Namespace obj) (Name obj)], None)"]
  by (simp add: ex_process_lib_def ex_dds_def ex_synced_object_def ex_gvr_def gvr_key_def go_str_def)

theorem dropped_namespace_update_harmless_witness:
  "\<not> namespace_update_relevant (ex_namespace None None) (ex_namespace (Some [(''team'', ''a'')]) None)
   \<and> needs_scheduling (ex_namespace (Some [(''team'', ''a'')]) None) ex_synced_object
       = needs_scheduling (ex_namespace None None) ex_synced_object"
proof -
  have n: "\<not> namespace_update_relevant (ex_namespace None None) (ex_namespace (Some [(''team'', ''a'')]) None)"
    by (simp add: namespace_update_relevant_def scheduleStateLabels_def scheduleStateAnnotations_def map_equal_def
        has_prefix_def ex_object_defs ClusterResourceStateLabelPrefix_def)
  from dropped_namespace_update_harmless [OF _ _ _ _ n] n show ?thesis
    by (simp add: wf_map_def ex_object_defs)
qed

end
