(* ===== verification/Heartbeat.thy ===== *)
theory Heartbeat
  imports Model_Instances Work_Queue
begin

text \<open>
  \<^verbatim>\<open>src/pkg/reconciler/workload/heartbeat\<close>: the controller that turns the time of a syncer's last
  heartbeat into the condition \<open>HeartbeatHealthy\<close>, summarises it with the other conditions into
  \<open>Ready\<close>, and looks again when the heartbeat would become stale. \<open>now\<close> is the reading of
  \<open>time.Since\<close>, \<open>wall\<close> the one of \<open>time.Until\<close>; \<open>timeString\<close> is the text of a time in a message.
\<close>

section \<open>Options\<close>

record heartbeat_options =
  HeartbeatThreshold :: duration

definition NewOptions :: heartbeat_options where
  "NewOptions = \<lparr>HeartbeatThreshold = 60 * second\<rparr>"

definition heartbeat_Validate :: "heartbeat_options option \<Rightarrow> go_error option" where
  "heartbeat_Validate o' =
     (case o' of
        None \<Rightarrow> None
      | Some opts \<Rightarrow> if HeartbeatThreshold opts \<le> 0 then Some (Failure ''--sync-target-heartbeat-threshold must be >0'') else None)"

section \<open>The controller\<close>

definition summary_conditions :: "string list" where
  "summary_conditions = [SyncerReady, APIImporterReady, HeartbeatHealthy]"

definition latest_heartbeat :: "sync_target \<Rightarrow> time" where
  "latest_heartbeat st = (case LastSyncerHeartbeatTime (st_Status st) of None \<Rightarrow> 0 | Some t \<Rightarrow> t)"

text \<open>The result: the object and the delays of \<open>queue.AddAfter\<close>. The summary is deferred, so it comes last.\<close>

definition heartbeat_reconcile ::
  "cond_lib \<Rightarrow> (time \<Rightarrow> string) \<Rightarrow> duration \<Rightarrow> time \<Rightarrow> time \<Rightarrow> sync_target \<Rightarrow> sync_target \<times> duration list" where
  "heartbeat_reconcile cl timeString heartbeatThreshold now wall st =
     (let latestHeartbeat = latest_heartbeat st;
          summary = on_sync_target_conditions (SetSummary cl summary_conditions) in
      if latestHeartbeat = 0 then
        (summary (on_sync_target_conditions
           (MarkFalse cl HeartbeatHealthy ErrorHeartbeatMissedReason ConditionSeverityWarning ''No heartbeat yet seen'') st), [])
      else if time_sub now latestHeartbeat > heartbeatThreshold then
        (summary (on_sync_target_conditions
           (MarkFalse cl HeartbeatHealthy ErrorHeartbeatMissedReason ConditionSeverityWarning
              (''No heartbeat since '' @ timeString latestHeartbeat)) st), [])
      else
        (summary (on_sync_target_conditions (MarkTrue cl HeartbeatHealthy) st),
         [time_sub (latestHeartbeat + heartbeatThreshold) wall]))"

definition heartbeat_object ::
  "cond_lib \<Rightarrow> (time \<Rightarrow> string) \<Rightarrow> duration \<Rightarrow> time \<Rightarrow> time \<Rightarrow> sync_target \<Rightarrow> go_error + (sync_target \<times> go_error list)" where
  "heartbeat_object cl timeString thr now wall st = Inr (fst (heartbeat_reconcile cl timeString thr now wall st), [])"

definition sync_target_resource :: "sync_target \<Rightarrow> (sync_target_spec, sync_target_status) resource" where
  "sync_target_resource st =
     \<lparr>r_ObjectMeta = object_meta.truncate st, r_Spec = Some (st_Spec st), r_Status = Some (st_Status st)\<rparr>"

text \<open>\<open>process\<close>: a failed lookup is logged and dropped, whatever the error.\<close>

definition heartbeat_process ::
  "cond_lib \<Rightarrow> (time \<Rightarrow> string) \<Rightarrow> (sync_target_spec, sync_target_status) commit_lib \<Rightarrow> duration
     \<Rightarrow> (string \<Rightarrow> patch_call \<Rightarrow> go_error option) \<Rightarrow> time \<Rightarrow> time \<Rightarrow> go_error + sync_target
     \<Rightarrow> duration list \<times> patch_call list \<times> go_error list" where
  "heartbeat_process cl timeString L thr patcher now wall lookup =
     (case lookup of
        Inl e \<Rightarrow> ([], [], [])
      | Inr st \<Rightarrow>
          (snd (heartbeat_reconcile cl timeString thr now wall st),
           process_commit (NewCommitter L ''*v1alpha1.SyncTarget'' patcher) sync_target_resource st
             (heartbeat_object cl timeString thr now wall st)))"

definition heartbeat_enqueue :: "go_error + string \<Rightarrow> string queue_call list" where
  "heartbeat_enqueue key = (case key of Inl e \<Rightarrow> [] | Inr k \<Rightarrow> [QAdd k])"

section \<open>Lemmas\<close>

interpretation hb_ctrl: one_sided_reconciler sync_target_resource "heartbeat_object cl timeString thr now wall"
  for cl timeString thr now wall
  by unfold_locales (auto simp: heartbeat_object_def heartbeat_reconcile_def sync_target_resource_def Let_def)

lemma heartbeat_neq_ready [simp]: "HeartbeatHealthy \<noteq> ReadyCondition" "ReadyCondition \<noteq> HeartbeatHealthy"
  by (simp_all add: HeartbeatHealthy_def ReadyCondition_def)

lemma summary_other:
  assumes "summary_laws cl" "t \<noteq> ReadyCondition"
  shows "IsTrue cl (SetSummary cl ts cs) t = IsTrue cl cs t" "IsFalse cl (SetSummary cl ts cs) t = IsFalse cl cs t"
  using assms by (simp_all add: summary_laws_def)

lemma summary_ready:
  assumes "summary_laws cl"
  shows "(\<exists>t \<in> set summary_conditions. IsFalse cl c t) \<Longrightarrow> \<not> IsTrue cl (SetSummary cl summary_conditions c) ReadyCondition"
    and "(\<forall>t \<in> set summary_conditions. IsTrue cl c t) \<Longrightarrow> IsTrue cl (SetSummary cl summary_conditions c) ReadyCondition"
  using assms by (simp_all add: summary_laws_def summary_conditions_def)

lemma heartbeat_healthy:
  assumes "cond_laws cl" "summary_laws cl" "latest_heartbeat st \<noteq> 0" "time_sub now (latest_heartbeat st) \<le> thr"
    and "heartbeat_reconcile cl timeString thr now wall st = (st', q)"
  shows "IsTrue cl (st_Conditions (st_Status st')) HeartbeatHealthy" "\<not> IsFalse cl (st_Conditions (st_Status st')) HeartbeatHealthy"
    and "IsTrue cl (st_Conditions (st_Status st)) SyncerReady \<Longrightarrow> IsTrue cl (st_Conditions (st_Status st)) APIImporterReady
      \<Longrightarrow> IsTrue cl (st_Conditions (st_Status st')) ReadyCondition"
    and "q = [time_sub (latest_heartbeat st + thr) wall]"
proof -
  have other: "SyncerReady \<noteq> HeartbeatHealthy" "APIImporterReady \<noteq> HeartbeatHealthy"
    by (simp_all add: SyncerReady_def HeartbeatHealthy_def APIImporterReady_def)
  let ?c = "MarkTrue cl HeartbeatHealthy (st_Conditions (st_Status st))"
  have cs: "st_Conditions (st_Status st') = SetSummary cl summary_conditions ?c"
    and "q = [time_sub (latest_heartbeat st + thr) wall]"
    using assms(3-5) by (auto simp: heartbeat_reconcile_def Let_def)
  then show "q = [time_sub (latest_heartbeat st + thr) wall]" by simp
  show "IsTrue cl (st_Conditions (st_Status st')) HeartbeatHealthy" "\<not> IsFalse cl (st_Conditions (st_Status st')) HeartbeatHealthy"
    by (simp_all add: cs summary_other [OF assms(2)] cond_lawsD [OF assms(1)])
  show "IsTrue cl (st_Conditions (st_Status st')) ReadyCondition"
    if "IsTrue cl (st_Conditions (st_Status st)) SyncerReady" "IsTrue cl (st_Conditions (st_Status st)) APIImporterReady"
    unfolding cs using that
    by (intro summary_ready(2) [OF assms(2)]) (simp add: summary_conditions_def cond_lawsD [OF assms(1)] cond_laws_other [OF assms(1)] other)
qed

lemma heartbeat_unhealthy:
  assumes "cond_laws cl" "summary_laws cl" "latest_heartbeat st = 0 \<or> thr < time_sub now (latest_heartbeat st)"
    and "heartbeat_reconcile cl timeString thr now wall st = (st', q)"
  shows "IsFalse cl (st_Conditions (st_Status st')) HeartbeatHealthy" "\<not> IsTrue cl (st_Conditions (st_Status st')) HeartbeatHealthy"
    and "\<not> IsTrue cl (st_Conditions (st_Status st')) ReadyCondition" "q = []"
proof -
  obtain m where cs: "st_Conditions (st_Status st') = SetSummary cl summary_conditions
      (MarkFalse cl HeartbeatHealthy ErrorHeartbeatMissedReason ConditionSeverityWarning m (st_Conditions (st_Status st)))" and "q = []"
    using assms(3,4) by (auto simp: heartbeat_reconcile_def Let_def split: if_splits)
  then show "q = []" by simp
  show "IsFalse cl (st_Conditions (st_Status st')) HeartbeatHealthy" "\<not> IsTrue cl (st_Conditions (st_Status st')) HeartbeatHealthy"
    by (simp_all add: cs summary_other [OF assms(2)] cond_lawsD [OF assms(1)])
  show "\<not> IsTrue cl (st_Conditions (st_Status st')) ReadyCondition"
    unfolding cs by (intro summary_ready(1) [OF assms(2)]) (simp add: summary_conditions_def cond_lawsD [OF assms(1)])
qed

section \<open>Properties\<close>

text \<open>
  Heartbeats: after a pass \<open>HeartbeatHealthy\<close> is true exactly if a heartbeat was seen no longer ago
  than the threshold and false otherwise; a sync target with an unhealthy heartbeat is not \<open>Ready\<close>, and
  one whose other summarised conditions are true is \<open>Ready\<close> if its heartbeat is healthy. A healthy
  sync target is looked at again when the threshold ends, an unhealthy one is not.
\<close>

theorem heartbeat_condition:
  assumes "cond_laws cl" "summary_laws cl" "heartbeat_reconcile cl timeString thr now wall st = (st', q)"
    and "cs = st_Conditions (st_Status st')"
    and "healthy \<longleftrightarrow> latest_heartbeat st \<noteq> 0 \<and> time_sub now (latest_heartbeat st) \<le> thr"
  shows "(IsTrue cl cs HeartbeatHealthy \<longleftrightarrow> healthy) \<and> (IsFalse cl cs HeartbeatHealthy \<longleftrightarrow> \<not> healthy)
    \<and> (\<not> healthy \<longrightarrow> \<not> IsTrue cl cs ReadyCondition)
    \<and> (healthy \<and> IsTrue cl (st_Conditions (st_Status st)) SyncerReady \<and> IsTrue cl (st_Conditions (st_Status st)) APIImporterReady
         \<longrightarrow> IsTrue cl cs ReadyCondition)
    \<and> q = (if healthy then [time_sub (latest_heartbeat st + thr) wall] else [])"
proof (cases healthy)
  case True
  with heartbeat_healthy [OF assms(1,2) _ _ assms(3)] assms(4,5) show ?thesis by simp
next
  case False
  then have "latest_heartbeat st = 0 \<or> thr < time_sub now (latest_heartbeat st)" using assms(5) by auto
  from False heartbeat_unhealthy [OF assms(1,2) this assms(3)] assms(4) show ?thesis by simp
qed

theorem heartbeat_condition_witness:
  "\<exists>st' q. heartbeat_reconcile basic_conditions (\<lambda>_. []) (60 * second) (100 * second) (100 * second)
      (ex_target\<lparr>st_Status := (st_Status ex_target)\<lparr>LastSyncerHeartbeatTime := Some (70 * second)\<rparr>\<rparr>) = (st', q)
    \<and> IsTrue basic_conditions (st_Conditions (st_Status st')) HeartbeatHealthy \<and> q = [30 * second]"
proof -
  let ?st = "ex_target\<lparr>st_Status := (st_Status ex_target)\<lparr>LastSyncerHeartbeatTime := Some (70 * second)\<rparr>\<rparr>"
  obtain st' q where r: "heartbeat_reconcile basic_conditions (\<lambda>_. []) (60 * second) (100 * second) (100 * second) ?st = (st', q)"
    by fastforce
  have "latest_heartbeat ?st = 70 * second" by (simp add: latest_heartbeat_def)
  with heartbeat_condition [OF basic_conditions_laws r refl refl] r show ?thesis
    by (simp add: time_sub_def second_def max_duration_def)
qed

text \<open>
  A heartbeat that stops is noticed: a sync target whose last heartbeat stays the same is healthy at
  every pass up to the threshold, its requeue delay ends exactly when the threshold is reached, and
  every pass later than that marks it unhealthy.
\<close>

theorem stale_heartbeat_noticed:
  assumes "cond_laws cl" "summary_laws cl" "0 < latest_heartbeat st" "0 \<le> thr" "thr < max_duration"
    and "latest_heartbeat st \<le> now" "now \<le> latest_heartbeat st + thr" "heartbeat_reconcile cl timeString thr now now st = (st1, q)"
    and "LastSyncerHeartbeatTime (st_Status st2) = LastSyncerHeartbeatTime (st_Status st)"
    and "latest_heartbeat st + thr < later" "heartbeat_reconcile cl timeString thr later wall st2 = (st3, q2)"
  shows "\<exists>d. q = [d] \<and> now + d = latest_heartbeat st + thr
    \<and> IsTrue cl (st_Conditions (st_Status st1)) HeartbeatHealthy
    \<and> IsFalse cl (st_Conditions (st_Status st3)) HeartbeatHealthy \<and> \<not> IsTrue cl (st_Conditions (st_Status st3)) ReadyCondition"
proof -
  have l: "latest_heartbeat st2 = latest_heartbeat st" using assms(9) by (simp add: latest_heartbeat_def)
  have 1: "time_sub now (latest_heartbeat st) \<le> thr" "time_sub (latest_heartbeat st + thr) now = latest_heartbeat st + thr - now"
    using assms(3-7) by (auto simp: time_sub_def max_duration_def)
  have 2: "thr < time_sub later (latest_heartbeat st)" using assms(4,5,10) by (simp add: time_sub_def)
  from heartbeat_healthy [OF assms(1,2) _ 1(1) assms(8)] heartbeat_unhealthy [OF assms(1,2) _ assms(11)] 1 2 l assms(3)
  show ?thesis by auto
qed

theorem stale_heartbeat_noticed_witness:
  "\<exists>st1 q st3 q2. heartbeat_reconcile basic_conditions (\<lambda>_. []) 60 100 100
       (ex_target\<lparr>st_Status := (st_Status ex_target)\<lparr>LastSyncerHeartbeatTime := Some 70\<rparr>\<rparr>) = (st1, q)
    \<and> heartbeat_reconcile basic_conditions (\<lambda>_. []) 60 131 131
       (ex_target\<lparr>st_Status := (st_Status ex_target)\<lparr>LastSyncerHeartbeatTime := Some 70\<rparr>\<rparr>) = (st3, q2)
    \<and> q = [30] \<and> IsFalse basic_conditions (st_Conditions (st_Status st3)) HeartbeatHealthy"
proof -
  let ?st = "ex_target\<lparr>st_Status := (st_Status ex_target)\<lparr>LastSyncerHeartbeatTime := Some 70\<rparr>\<rparr>"
  obtain st1 q st3 q2 where r: "heartbeat_reconcile basic_conditions (\<lambda>_. []) 60 100 100 ?st = (st1, q)"
    "heartbeat_reconcile basic_conditions (\<lambda>_. []) 60 131 131 ?st = (st3, q2)" by fastforce
  from stale_heartbeat_noticed [OF basic_conditions_laws _ _ _ _ _ r(1) refl _ r(2)] r show ?thesis
    by (simp add: latest_heartbeat_def max_duration_def)
qed

end
