(* ===== verification/SyncTarget_Controller.thy ===== *)
theory SyncTarget_Controller
  imports Heartbeat
begin

text \<open>
  \<^verbatim>\<open>src/pkg/reconciler/workload/synctarget\<close>: the controller that labels a sync target with its key and
  publishes the URLs of its virtual workspaces and tunnels on every shard, those of the root shard
  first and the others in lexical order of the shard URLs.

  Parameters (record \<open>url_lib\<close>): the functions of \<open>net/url\<close> and \<open>path\<close> and the constants of kcp.
\<close>

section \<open>The reconciler\<close>

record shard =
  sh_Name :: string
  sh_VirtualWorkspaceURL :: string
  sh_BaseURL :: string

record url =
  url_Path :: string
  url_rest :: string   \<comment> \<open>the other parts of a parsed URL\<close>

record url_lib =
  url_Parse :: "string \<Rightarrow> go_error + url"
  url_String :: "url \<Rightarrow> string"
  path_Join_all :: "string list \<Rightarrow> string"
  url_JoinPath :: "string \<Rightarrow> string \<Rightarrow> go_error + string"
  RequestPath :: "string \<Rightarrow> string"
  DefaultRootPathPrefix :: string
  RootShard :: string

definition SyncerVirtualWorkspaceName :: string where "SyncerVirtualWorkspaceName = ''syncer''"
definition UpsyncerVirtualWorkspaceName :: string where "UpsyncerVirtualWorkspaceName = ''upsyncer''"

definition workspace_url :: "url_lib \<Rightarrow> url \<Rightarrow> string \<Rightarrow> sync_target \<Rightarrow> string" where
  "workspace_url U shardVWURL name st =
     url_String U (shardVWURL\<lparr>url_Path := path_Join_all U
       [url_Path shardVWURL, DefaultRootPathPrefix U, name, Cluster st, Name st, UID st]\<rparr>)"

text \<open>The maps of desired virtual and tunnel workspaces by shard URL, and the key of the root shard.\<close>

record desired_urls =
  du_VW :: "(string \<times> virtual_workspace) list"
  du_Tunnel :: "(string \<times> string) list"
  du_rootShardKey :: string

definition shard_step :: "url_lib \<Rightarrow> sync_target \<Rightarrow> desired_urls \<Rightarrow> shard \<Rightarrow> go_error + desired_urls" where
  "shard_step U st d sh =
     (if sh_VirtualWorkspaceURL sh = [] then Inr d
      else
        bindE (url_Parse U (sh_VirtualWorkspaceURL sh)) (\<lambda>shardVWURL.
          let key = url_String U shardVWURL;
              d1 = d\<lparr>du_rootShardKey := (if sh_Name sh = RootShard U then key else du_rootShardKey d),
                     du_VW := go_put key \<lparr>SyncerURL = workspace_url U shardVWURL SyncerVirtualWorkspaceName st,
                                          UpsyncerURL = workspace_url U shardVWURL UpsyncerVirtualWorkspaceName st\<rparr> (du_VW d)\<rparr> in
          bindE (url_JoinPath U (sh_BaseURL sh) (RequestPath U (Cluster st))) (\<lambda>tunnelWorkspaceURL.
            Inr (d1\<lparr>du_Tunnel := go_put key tunnelWorkspaceURL (du_Tunnel d1)\<rparr>))))"

definition no_urls :: desired_urls where
  "no_urls = \<lparr>du_VW = [], du_Tunnel = [], du_rootShardKey = []\<rparr>"

text \<open>The entry of the root shard first, then the others by key (\<open>sets.StringKeySet(m).List()\<close>).\<close>

definition ordered_values :: "string \<Rightarrow> (string \<times> 'v) list \<Rightarrow> 'v list" where
  "ordered_values rootKey m =
     (case map_of m rootKey of None \<Rightarrow> [] | Some v \<Rightarrow> [v])
     @ map (\<lambda>k. the (map_of m k)) (sort (map fst (AList.delete rootKey m)))"

definition synctarget_reconcile ::
  "hash_lib \<Rightarrow> url_lib \<Rightarrow> sync_target \<Rightarrow> shard list \<Rightarrow> go_error + sync_target" where
  "synctarget_reconcile H U st shards =
     (let labelled = st\<lparr>Labels := Some (go_put InternalSyncTargetKeyLabel (ToSyncTargetKey H (Cluster st) (Name st))
            (entries (Labels st)))\<rparr> in
      bindE (foldE (shard_step U labelled) no_urls shards) (\<lambda>d.
        Inr (labelled\<lparr>st_Status := (st_Status labelled)
           \<lparr>VirtualWorkspaces := ordered_values (du_rootShardKey d) (du_VW d),
            TunnelWorkspaces := ordered_values (du_rootShardKey d) (du_Tunnel d)\<rparr>\<rparr>)))"

section \<open>The controller\<close>

text \<open>
  \<open>process\<close>: the patches it sends, each with its subresource, and the error. The patch is computed once
  from both objects and sent for the metadata and for the status.
\<close>

record 'o patch_lib =
  pl_Marshal :: "'o \<Rightarrow> go_error + string"
  pl_CreateMergePatch :: "string \<Rightarrow> string \<Rightarrow> go_error + string"

definition synctarget_patches ::
  "sync_target patch_lib \<Rightarrow> (patch_call \<Rightarrow> go_error option) \<Rightarrow> sync_target \<Rightarrow> sync_target \<Rightarrow> patch_call list \<times> go_error option" where
  "synctarget_patches L send cur new =
     (if cur = new then ([], None)
      else
        (case bindE (pl_Marshal L cur) (\<lambda>a. bindE (pl_Marshal L new) (\<lambda>b. pl_CreateMergePatch L a b)) of
           Inl e \<Rightarrow> ([], Some e)
         | Inr patchBytes \<Rightarrow>
             (let metaCall = (Name cur, patchBytes, []); statusCall = (Name cur, patchBytes, [''status'']);
                  metaCalls = (if object_meta.truncate cur \<noteq> object_meta.truncate new \<or> st_Spec cur \<noteq> st_Spec new
                               then [metaCall] else []) in
              if metaCalls \<noteq> [] \<and> send metaCall \<noteq> None then (metaCalls, send metaCall)
              else if st_Status cur \<noteq> st_Status new then (metaCalls @ [statusCall], send statusCall)
              else (metaCalls, None))))"

definition synctarget_process ::
  "hash_lib \<Rightarrow> url_lib \<Rightarrow> sync_target patch_lib \<Rightarrow> (patch_call \<Rightarrow> go_error option) \<Rightarrow> go_error + shard list
     \<Rightarrow> go_error + sync_target option \<Rightarrow> patch_call list \<times> go_error option" where
  "synctarget_process H U L send shards lookup =
     (case lookup of
        Inl e \<Rightarrow> ([], None)
      | Inr None \<Rightarrow> ([], None)
      | Inr (Some cur) \<Rightarrow>
          (case shards of
             Inl e \<Rightarrow> ([], Some e)
           | Inr shs \<Rightarrow>
               (case synctarget_reconcile H U cur shs of
                  Inl e \<Rightarrow> ([], Some e)
                | Inr new \<Rightarrow> synctarget_patches L send cur new)))"

text \<open>On a shard event all sync targets are enqueued; the first key error ends the loop.\<close>

fun enqueueWorkspaceShard :: "(go_error + string) list \<Rightarrow> string queue_call list" where
  "enqueueWorkspaceShard [] = []"
| "enqueueWorkspaceShard (Inl e # keys) = []"
| "enqueueWorkspaceShard (Inr k # keys) = QAdd k # enqueueWorkspaceShard keys"

section \<open>Lemmas\<close>

text \<open>The URLs of one shard, if its virtual workspace URL is set and parses.\<close>

definition shard_key :: "url_lib \<Rightarrow> shard \<Rightarrow> string" where
  "shard_key U sh = (case url_Parse U (sh_VirtualWorkspaceURL sh) of Inl _ \<Rightarrow> [] | Inr u \<Rightarrow> url_String U u)"

definition shard_vw :: "url_lib \<Rightarrow> sync_target \<Rightarrow> shard \<Rightarrow> virtual_workspace" where
  "shard_vw U st sh =
     (case url_Parse U (sh_VirtualWorkspaceURL sh) of Inl _ \<Rightarrow> \<lparr>SyncerURL = [], UpsyncerURL = []\<rparr>
      | Inr u \<Rightarrow> \<lparr>SyncerURL = workspace_url U u SyncerVirtualWorkspaceName st,
                  UpsyncerURL = workspace_url U u UpsyncerVirtualWorkspaceName st\<rparr>)"

definition shard_tunnel :: "url_lib \<Rightarrow> sync_target \<Rightarrow> shard \<Rightarrow> string" where
  "shard_tunnel U st sh = (case url_JoinPath U (sh_BaseURL sh) (RequestPath U (Cluster st)) of Inl _ \<Rightarrow> [] | Inr s \<Rightarrow> s)"

definition active_shards :: "shard list \<Rightarrow> shard list" where
  "active_shards shs = filter (\<lambda>sh. sh_VirtualWorkspaceURL sh \<noteq> []) shs"

definition shard_ok :: "url_lib \<Rightarrow> sync_target \<Rightarrow> shard \<Rightarrow> bool" where
  "shard_ok U st sh \<longleftrightarrow> sh_VirtualWorkspaceURL sh = []
     \<or> (\<exists>u s. url_Parse U (sh_VirtualWorkspaceURL sh) = Inr u \<and> url_JoinPath U (sh_BaseURL sh) (RequestPath U (Cluster st)) = Inr s)"

lemma shard_loop:
  assumes "\<forall>sh \<in> set shs. shard_ok U st sh"
  shows "foldE (shard_step U st) d shs = Inr
    (d\<lparr>du_VW := fold (\<lambda>sh. go_put (shard_key U sh) (shard_vw U st sh)) (active_shards shs) (du_VW d),
       du_Tunnel := fold (\<lambda>sh. go_put (shard_key U sh) (shard_tunnel U st sh)) (active_shards shs) (du_Tunnel d),
       du_rootShardKey := fold (\<lambda>sh k. if sh_Name sh = RootShard U then shard_key U sh else k) (active_shards shs) (du_rootShardKey d)\<rparr>)"
  using assms
proof (induction shs arbitrary: d)
  case (Cons sh shs)
  then show ?case
    by (cases "sh_VirtualWorkspaceURL sh = []")
       (auto simp: shard_step_def active_shards_def shard_ok_def shard_key_def shard_vw_def shard_tunnel_def Let_def)
qed (simp add: active_shards_def)

lemma option_ext: "(\<And>w. a = Some w \<longleftrightarrow> b = Some w) \<Longrightarrow> a = b"
  by (cases a; cases b) auto

lemma filter_unique: "distinct (map g xs) \<Longrightarrow> x \<in> set xs \<Longrightarrow> filter (\<lambda>y. g y = g x) xs = [x]"
proof (induction xs)
  case (Cons a xs)
  then show ?case
  proof (cases "x \<in> set xs")
    case True
    with Cons.prems have "g a \<noteq> g x" by auto
    with Cons True show ?thesis by simp
  next
    case False
    with Cons.prems have "x = a" "g x \<notin> g ` set xs" by auto
    then show ?thesis by (auto simp: filter_empty_conv) (metis imageI)
  qed
qed simp

lemma map_of_put_all:
  "distinct (map f xs) \<Longrightarrow> map_of (fold (\<lambda>x. go_put (f x) (v x)) xs m) k = Some w \<longleftrightarrow>
     (\<exists>x \<in> set xs. f x = k \<and> w = v x) \<or> (k \<notin> f ` set xs \<and> map_of m k = Some w)"
proof (induction xs arbitrary: m)
  case (Cons x xs)
  then show ?case by (auto simp: go_put_def update_conv')
qed simp

lemma distinct_put_all:
  "distinct (map fst m) \<Longrightarrow> distinct (map fst (fold (\<lambda>x. go_put (f x) (v x)) xs m))"
  by (induction xs arbitrary: m) (auto simp: go_put_def distinct_update)

lemma ordered_values_eq:
  assumes "distinct (map fst m)"
  shows "ordered_values r m = (case map_of m r of None \<Rightarrow> [] | Some v \<Rightarrow> [v])
    @ map (\<lambda>k. the (map_of m k)) (sorted_list_of_set (dom (map_of m) - {r}))"
proof -
  have "sort (map fst (AList.delete r m)) = sorted_list_of_set (set (map fst (AList.delete r m)))"
    using distinct_delete [OF assms, of r] by (metis distinct_remdups_id sorted_list_of_set_sort_remdups)
  also have "set (map fst (AList.delete r m)) = dom (map_of m) - {r}"
    by (simp add: dom_map_of_conv_image_fst delete_keys)
  finally show ?thesis by (simp add: ordered_values_def)
qed

lemma set_ordered_values:
  assumes "distinct (map fst m)"
  shows "set (ordered_values r m) = ran (map_of m)"
proof -
  have "set (ordered_values r m) = (case map_of m r of None \<Rightarrow> {} | Some v \<Rightarrow> {v}) \<union> (\<lambda>k. the (map_of m k)) ` (dom (map_of m) - {r})"
    by (simp add: ordered_values_eq [OF assms] finite_dom_map_of split: option.split)
  also have "\<dots> = (\<lambda>k. the (map_of m k)) ` dom (map_of m)" by (force split: option.splits)
  finally show ?thesis by (force simp: ran_def image_def dom_def)
qed

lemma ordered_values_cong:
  "distinct (map fst m) \<Longrightarrow> distinct (map fst m') \<Longrightarrow> map_of m = map_of m' \<Longrightarrow> ordered_values r m = ordered_values r m'"
  by (simp add: ordered_values_eq)

lemma put_all_perm:
  assumes "distinct (map f xs)" "mset xs = mset ys"
  shows "map_of (fold (\<lambda>x. go_put (f x) (v x)) xs []) = map_of (fold (\<lambda>x. go_put (f x) (v x)) ys [])"
proof -
  have ys: "distinct (map f ys)" using assms by (metis mset_eq_imp_distinct_iff mset_map)
  have "set xs = set ys" using assms(2) by (rule mset_eq_setD)
  then have "map_of (fold (\<lambda>x. go_put (f x) (v x)) xs []) k = Some w \<longleftrightarrow> map_of (fold (\<lambda>x. go_put (f x) (v x)) ys []) k = Some w" for k w
    by (simp add: map_of_put_all [OF assms(1)] map_of_put_all [OF ys])
  then show ?thesis by (intro ext option_ext)
qed

lemma root_key_fold:
  "fold (\<lambda>sh k. if sh_Name sh = R then g sh else k) shs k0 =
     (case filter (\<lambda>sh. sh_Name sh = R) shs of [] \<Rightarrow> k0 | rs \<Rightarrow> g (last rs))"
  by (induction shs arbitrary: k0) (auto split: list.splits)

lemma one_root:
  assumes "distinct (map sh_Name shs)" "mset shs = mset shs'"
  shows "filter (\<lambda>sh. sh_Name sh = R) shs' = filter (\<lambda>sh. sh_Name sh = R) shs"
proof -
  let ?f = "filter (\<lambda>sh. sh_Name sh = R)"
  have m: "mset (?f shs') = mset (?f shs)" using assms(2) by (metis mset_filter)
  have "distinct (map sh_Name (?f shs))" using assms(1) by (rule distinct_map_filter)
  moreover have "\<forall>n \<in> set (map sh_Name (?f shs)). n = R" by auto
  ultimately have "length (map sh_Name (?f shs)) \<le> 1"
    by (metis card_1_singleton_iff card_mono distinct_card finite.emptyI finite.insertI is_singletonI is_singleton_altdef singletonI subsetI)
  then have "length (?f shs) \<le> 1" by simp
  with m show ?thesis
    by (cases "?f shs"; cases "?f shs'") (auto simp: single_is_union dest: mset_eq_length)
qed

lemma synctarget_reconcile_ok:
  assumes "\<forall>sh \<in> set shs. shard_ok U st sh"
  defines "vw \<equiv> fold (\<lambda>sh. go_put (shard_key U sh) (shard_vw U st sh)) (active_shards shs) []"
    and "tw \<equiv> fold (\<lambda>sh. go_put (shard_key U sh) (shard_tunnel U st sh)) (active_shards shs) []"
    and "rk \<equiv> fold (\<lambda>sh k. if sh_Name sh = RootShard U then shard_key U sh else k) (active_shards shs) []"
  shows "synctarget_reconcile H U st shs = Inr (st\<lparr>
     Labels := Some (go_put InternalSyncTargetKeyLabel (ToSyncTargetKey H (Cluster st) (Name st)) (entries (Labels st))),
     st_Status := (st_Status st)\<lparr>VirtualWorkspaces := ordered_values rk vw, TunnelWorkspaces := ordered_values rk tw\<rparr>\<rparr>)"
proof -
  let ?st = "st\<lparr>Labels := Some (go_put InternalSyncTargetKeyLabel (ToSyncTargetKey H (Cluster st) (Name st)) (entries (Labels st)))\<rparr>"
  have same: "shard_vw U ?st = shard_vw U st" "shard_tunnel U ?st = shard_tunnel U st"
    by (simp_all add: fun_eq_iff shard_vw_def shard_tunnel_def workspace_url_def split: sum.split)
  have "\<forall>sh \<in> set shs. shard_ok U ?st sh" using assms(1) by (simp add: shard_ok_def)
  from shard_loop [OF this, of no_urls] show ?thesis
    by (simp add: synctarget_reconcile_def Let_def no_urls_def same vw_def tw_def rk_def)
qed

section \<open>Properties\<close>

text \<open>
  The URLs a sync target gets do not depend on the order in which the lister returns the shards, so
  that a pass does not rewrite them when nothing changed: for shards with distinct names and distinct
  virtual workspace URLs, every permutation of the shards gives the same sync target.
\<close>

theorem shard_order_irrelevant:
  assumes "mset shs = mset shs'" "\<forall>sh \<in> set shs. shard_ok U st sh"
    and "distinct (map sh_Name shs)" "distinct (map (shard_key U) (active_shards shs))"
  shows "synctarget_reconcile H U st shs' = synctarget_reconcile H U st shs"
proof -
  have a: "mset (active_shards shs) = mset (active_shards shs')" using assms(1) by (metis active_shards_def mset_filter)
  have ok': "\<forall>sh \<in> set shs'. shard_ok U st sh" using assms(1,2) by (metis mset_eq_setD)
  have "distinct (map sh_Name (active_shards shs))" unfolding active_shards_def using assms(3) by (rule distinct_map_filter)
  note root = one_root [OF this a, of "RootShard U"]
  show ?thesis
    unfolding synctarget_reconcile_ok [OF assms(2)] synctarget_reconcile_ok [OF ok'] root_key_fold root
    by (simp add: ordered_values_cong [OF _ _ put_all_perm [OF assms(4) a]] distinct_put_all)
qed

text \<open>
  The sync target gets its key as a label, keeps its other labels, spec and conditions, and has one
  virtual workspace entry for each shard with a virtual workspace URL, that of the root shard first.
\<close>

theorem synctarget_urls:
  assumes "\<forall>sh \<in> set shs. shard_ok U st sh" "distinct (map (shard_key U) (active_shards shs))"
  shows "\<exists>st'. synctarget_reconcile H U st shs = Inr st'
    \<and> go_get (Labels st') InternalSyncTargetKeyLabel = Some (ToSyncTargetKey H (Cluster st) (Name st))
    \<and> (\<forall>k. k = InternalSyncTargetKeyLabel \<or> go_get (Labels st') k = go_get (Labels st) k)
    \<and> st_Spec st' = st_Spec st \<and> st_Conditions (st_Status st') = st_Conditions (st_Status st)
    \<and> set (VirtualWorkspaces (st_Status st')) = shard_vw U st ` set (active_shards shs)
    \<and> (\<forall>sh \<in> set (active_shards shs). sh_Name sh = RootShard U \<and> distinct (map sh_Name shs) \<longrightarrow>
          VirtualWorkspaces (st_Status st') ! 0 = shard_vw U st sh)"
proof -
  define vw where "vw = fold (\<lambda>sh. go_put (shard_key U sh) (shard_vw U st sh)) (active_shards shs) []"
  define rk where "rk = fold (\<lambda>sh k. if sh_Name sh = RootShard U then shard_key U sh else k) (active_shards shs) []"
  have vw: "map_of vw k = Some w \<longleftrightarrow> (\<exists>sh \<in> set (active_shards shs). shard_key U sh = k \<and> w = shard_vw U st sh)" for k w
    unfolding vw_def by (simp add: map_of_put_all [OF assms(2)])
  have d: "distinct (map fst vw)" by (simp add: vw_def distinct_put_all)
  have "set (ordered_values rk vw) = ran (map_of vw)" by (simp add: set_ordered_values d)
  also have "\<dots> = shard_vw U st ` set (active_shards shs)" by (auto simp: ran_def vw)
  finally have vals: "set (ordered_values rk vw) = shard_vw U st ` set (active_shards shs)" .
  have root: "ordered_values rk vw ! 0 = shard_vw U st sh"
    if "sh \<in> set (active_shards shs)" "sh_Name sh = RootShard U" "distinct (map sh_Name shs)" for sh
  proof -
    have dn: "distinct (map sh_Name (active_shards shs))" unfolding active_shards_def using that(3) by (rule distinct_map_filter)
    from filter_unique [OF dn that(1)] have "rk = shard_key U sh" by (simp add: rk_def root_key_fold that(2))
    with vw that(1) have "map_of vw rk = Some (shard_vw U st sh)" by blast
    then show ?thesis by (simp add: ordered_values_def)
  qed
  show ?thesis
    unfolding synctarget_reconcile_ok [OF assms(1)] vw_def [symmetric] rk_def [symmetric]
    using vals root by (auto simp: gm.lookup_assign)
qed

text \<open>Whatever a successful pass publishes are the URLs of a shard whose virtual workspace URL parses.\<close>

lemma published_shards:
  assumes "foldE (shard_step U st) d shs = Inr d'" "distinct (map fst (du_VW d))"
  shows "distinct (map fst (du_VW d')) \<and> ran (map_of (du_VW d')) \<subseteq> ran (map_of (du_VW d))
    \<union> {v. \<exists>sh u. sh \<in> set shs \<and> url_Parse U (sh_VirtualWorkspaceURL sh) = Inr u \<and> v = shard_vw U st sh}"
  using assms
proof (induction shs arbitrary: d)
  case (Cons sh shs)
  then obtain d1 where d1: "shard_step U st d sh = Inr d1" "foldE (shard_step U st) d1 shs = Inr d'" by (auto simp: bindE_Inr)
  have "distinct (map fst (du_VW d1)) \<and> ran (map_of (du_VW d1)) \<subseteq> ran (map_of (du_VW d))
      \<union> {v. \<exists>u. url_Parse U (sh_VirtualWorkspaceURL sh) = Inr u \<and> v = shard_vw U st sh}"
    using d1(1) Cons.prems(2)
    by (auto simp: shard_step_def bindE_Inr Let_def go_put_def distinct_update update_conv' shard_vw_def ran_def split: if_splits)
  with Cons.IH [OF d1(2)] show ?case by (auto simp: subset_iff)
qed auto

lemma published_urls:
  assumes "synctarget_reconcile H U st shards = Inr st'" "v \<in> set (VirtualWorkspaces (st_Status st'))"
  obtains sh u where "sh \<in> set shards" "url_Parse U (sh_VirtualWorkspaceURL sh) = Inr u"
    "SyncerURL v = workspace_url U u SyncerVirtualWorkspaceName st" "UpsyncerURL v = workspace_url U u UpsyncerVirtualWorkspaceName st"
    "go_get (Labels st') InternalSyncTargetKeyLabel = Some (ToSyncTargetKey H (Cluster st) (Name st))"
proof -
  let ?st = "st\<lparr>Labels := Some (go_put InternalSyncTargetKeyLabel (ToSyncTargetKey H (Cluster st) (Name st)) (entries (Labels st)))\<rparr>"
  obtain d where d: "foldE (shard_step U ?st) no_urls shards = Inr d"
    and st': "st' = ?st\<lparr>st_Status := (st_Status ?st)\<lparr>VirtualWorkspaces := ordered_values (du_rootShardKey d) (du_VW d),
        TunnelWorkspaces := ordered_values (du_rootShardKey d) (du_Tunnel d)\<rparr>\<rparr>"
    using assms(1) by (auto simp: synctarget_reconcile_def Let_def bindE_Inr)
  have same: "workspace_url U u n ?st = workspace_url U u n st" for u n by (simp add: workspace_url_def)
  from published_shards [OF d] have P: "distinct (map fst (du_VW d))"
    "ran (map_of (du_VW d)) \<subseteq> {v. \<exists>sh u. sh \<in> set shards \<and> url_Parse U (sh_VirtualWorkspaceURL sh) = Inr u \<and> v = shard_vw U ?st sh}"
    by (simp_all add: no_urls_def)
  have "v \<in> ran (map_of (du_VW d))" using assms(2) by (simp add: st' set_ordered_values [OF P(1)])
  with P(2) obtain sh u where "sh \<in> set shards" "url_Parse U (sh_VirtualWorkspaceURL sh) = Inr u" "v = shard_vw U ?st sh" by blast
  then show thesis by (intro that [of sh u]) (simp_all add: shard_vw_def same st' gm.lookup_assign)
qed

section \<open>Witnesses\<close>

definition ex_url_lib :: url_lib where
  "ex_url_lib = \<lparr>url_Parse = (\<lambda>s. Inr \<lparr>url_Path = [], url_rest = s\<rparr>), url_String = (\<lambda>u. url_rest u @ url_Path u),
     path_Join_all = (\<lambda>ps. ''/'' @ join ''/'' ps), url_JoinPath = (\<lambda>a b. Inr (a @ b)), RequestPath = (\<lambda>c. ''/clusters/'' @ c),
     DefaultRootPathPrefix = ''services'', RootShard = ''root''\<rparr>"

definition ex_shards :: "shard list" where
  "ex_shards = [\<lparr>sh_Name = ''beta'', sh_VirtualWorkspaceURL = ''https://b'', sh_BaseURL = ''https://b''\<rparr>,
     \<lparr>sh_Name = ''root'', sh_VirtualWorkspaceURL = ''https://r'', sh_BaseURL = ''https://r''\<rparr>]"

lemma ex_shards_facts:
  "\<forall>sh \<in> set ex_shards. shard_ok ex_url_lib st sh" "distinct (map sh_Name ex_shards)"
  "distinct (map (shard_key ex_url_lib) (active_shards ex_shards))" "mset ex_shards = mset (rev ex_shards)"
  by (simp_all add: ex_shards_def ex_url_lib_def shard_ok_def shard_key_def active_shards_def)

theorem shard_order_irrelevant_witness:
  "synctarget_reconcile basic_hash ex_url_lib ex_target (rev ex_shards) = synctarget_reconcile basic_hash ex_url_lib ex_target ex_shards"
  by (rule shard_order_irrelevant [OF ex_shards_facts(4,1,2,3)])

theorem synctarget_urls_witness:
  "\<exists>st'. synctarget_reconcile basic_hash ex_url_lib ex_target ex_shards = Inr st'
    \<and> VirtualWorkspaces (st_Status st') ! 0 = shard_vw ex_url_lib ex_target (ex_shards ! 1)"
  using synctarget_urls [OF ex_shards_facts(1,3), of basic_hash ex_target] ex_shards_facts(2)
  by (auto simp: ex_shards_def ex_url_lib_def active_shards_def)

end
