(* ===== verification/SyncTarget_Exports.thy ===== *)
theory SyncTarget_Exports
  imports SyncTarget_Controller Merge_Patch
begin

text \<open>
  \<^verbatim>\<open>src/pkg/reconciler/workload/synctargetexports\<close>: the controller that keeps the list of resources a
  sync target syncs. The first reconciler derives it from the API exports the target supports, the
  second one marks each resource as accepted, incompatible or pending by comparing the schemas of the
  exports with those imported from the cluster.

  Parameters: the getters of exports, schemas and imports, the schema comparison
  (\<open>EnsureStructuralSchemaCompatibility\<close> of kcp, \<open>compatible\<close> here) and \<open>sort.SliceStable\<close>, of which
  only that it permutes is used, since the comparison of the sources is no order. \<open>Inl\<close> of a result is
  a panic. JSON schemas are an abstract type.
\<close>

section \<open>Data\<close>

record 'js schema_version =
  sv_Name :: string
  sv_Served :: bool
  sv_Schema :: "go_error + 'js"   \<comment> \<open>the result of \<open>GetSchema\<close>\<close>

record 'js resource_schema =
  rsch_Group :: string
  rsch_Plural :: string
  rsch_Versions :: "'js schema_version list"

record 'js api_import =
  ai_Location :: string
  ai_Group :: string
  ai_Version :: string
  ai_Plural :: string
  ai_Schema :: "go_error + 'js"

record 'js exports_lib =
  getAPIExport :: "string \<Rightarrow> string \<Rightarrow> go_error + api_export"
  getResourceSchema :: "string \<Rightarrow> string \<Rightarrow> go_error + 'js resource_schema"
  listAPIResourceImports :: "string \<Rightarrow> go_error + 'js api_import list"
  compatible :: "gvr \<Rightarrow> 'js \<Rightarrow> 'js \<Rightarrow> bool"
  SliceStable :: "(resource_to_sync \<Rightarrow> resource_to_sync \<Rightarrow> bool) \<Rightarrow> resource_to_sync list \<Rightarrow> resource_to_sync list"

definition export_path :: "sync_target \<Rightarrow> export_reference \<Rightarrow> string" where
  "export_path st ref = (if er_Path ref = [] then Cluster st else er_Path ref)"

section \<open>The resources of the exports\<close>

definition convertSchemaToSyncedResource ::
  "'js exports_lib \<Rightarrow> string \<Rightarrow> string \<Rightarrow> string \<Rightarrow> go_error + resource_to_sync" where
  "convertSchemaToSyncedResource E clusterName schemaName identityHash =
     bindE (getResourceSchema E clusterName schemaName) (\<lambda>schema.
       Inr \<lparr>rs_GroupResource = \<lparr>gr_Group = rsch_Group schema, gr_Resource = rsch_Plural schema\<rparr>,
            rs_Versions = sort (map sv_Name (filter sv_Served (rsch_Versions schema))),
            rs_IdentityHash = identityHash, rs_State = []\<rparr>)"

definition export_resources :: "'js exports_lib \<Rightarrow> api_export \<Rightarrow> resource_to_sync list" where
  "export_resources E export =
     concat (map (\<lambda>schemaName.
        case convertSchemaToSyncedResource E (Cluster export) schemaName (ae_IdentityHash export) of
          Inl _ \<Rightarrow> [] | Inr r \<Rightarrow> [r]) (LatestResourceSchemas export))"

definition export_step ::
  "'js exports_lib \<Rightarrow> sync_target \<Rightarrow> export_reference \<Rightarrow> resource_to_sync list \<times> go_error list
     \<Rightarrow> resource_to_sync list \<times> go_error list" where
  "export_step E st ref acc =
     (case acc of (syncedResources, errs) \<Rightarrow>
      case getAPIExport E (export_path st ref) (er_Export ref) of
        Inl NotFound \<Rightarrow> (syncedResources, errs)
      | Inl e \<Rightarrow> (syncedResources, errs @ [e])
      | Inr export \<Rightarrow> (syncedResources @ export_resources E export, errs))"

text \<open>The comparison handed to \<open>sort.SliceStable\<close>.\<close>

definition synced_less :: "resource_to_sync \<Rightarrow> resource_to_sync \<Rightarrow> bool" where
  "synced_less a b \<longleftrightarrow>
     gr_Group (rs_GroupResource a) > gr_Group (rs_GroupResource b)
     \<or> gr_Resource (rs_GroupResource a) > gr_Resource (rs_GroupResource b)"

definition same_api :: "resource_to_sync \<Rightarrow> resource_to_sync \<Rightarrow> bool" where
  "same_api a b \<longleftrightarrow> rs_GroupResource a = rs_GroupResource b \<and> rs_IdentityHash a = rs_IdentityHash b"

text \<open>The inner loop of the merge: the first resource of the same API takes the state over.\<close>

fun merge_state :: "resource_to_sync \<Rightarrow> resource_to_sync list \<Rightarrow> resource_to_sync list" where
  "merge_state existing [] = []"
| "merge_state existing (r # rs) =
     (if same_api r existing then r\<lparr>rs_State := rs_State existing\<rparr> # rs else r # merge_state existing rs)"

definition exportReconciler_reconcile ::
  "'js exports_lib \<Rightarrow> sync_target \<Rightarrow> sync_target \<times> go_error list" where
  "exportReconciler_reconcile E st =
     (case fold (export_step E st) (SupportedAPIExports (st_Spec st)) ([], []) of (syncedResources, errs) \<Rightarrow>
        (st\<lparr>st_Status := (st_Status st)\<lparr>SyncedResources :=
            fold merge_state (SyncedResources (st_Status st)) (SliceStable E synced_less syncedResources)\<rparr>\<rparr>, errs))"

section \<open>Their compatibility\<close>

type_synonym 'js schema_map = "(gvr \<times> 'js) list"

definition version_step ::
  "'js resource_schema \<Rightarrow> 'js schema_version \<Rightarrow> 'js schema_map \<times> go_error list \<Rightarrow> 'js schema_map \<times> go_error list" where
  "version_step schema v acc =
     (case acc of (m, errs) \<Rightarrow>
      case sv_Schema v of
        Inl e \<Rightarrow> (m, errs @ [e])
      | Inr js \<Rightarrow> (AList.update \<lparr>gvr_Group = rsch_Group schema, gvr_Version = sv_Name v, gvr_Resource = rsch_Plural schema\<rparr> js m, errs))"

text \<open>
  A schema that cannot be read for another reason than that it does not exist is used all the same,
  and the getter has returned nil.
\<close>

definition schema_step ::
  "'js exports_lib \<Rightarrow> api_export \<Rightarrow> 'js schema_map \<times> go_error list \<Rightarrow> string \<Rightarrow> go_error + ('js schema_map \<times> go_error list)" where
  "schema_step E export acc schemaName =
     (case getResourceSchema E (Cluster export) schemaName of
        Inl NotFound \<Rightarrow> Inr acc
      | Inl e \<Rightarrow> Inl (Panic ''invalid memory address or nil pointer dereference'')
      | Inr schema \<Rightarrow> Inr (fold (version_step schema) (rsch_Versions schema) acc))"

definition compat_export_step ::
  "'js exports_lib \<Rightarrow> sync_target \<Rightarrow> 'js schema_map \<times> go_error list \<Rightarrow> export_reference \<Rightarrow> go_error + ('js schema_map \<times> go_error list)" where
  "compat_export_step E st acc ref =
     (case getAPIExport E (export_path st ref) (er_Export ref) of
        Inl NotFound \<Rightarrow> Inr acc
      | Inl e \<Rightarrow> Inr (fst acc, snd acc @ [e])
      | Inr export \<Rightarrow> foldE (schema_step E export) acc (LatestResourceSchemas export))"

definition import_step :: "'js api_import \<Rightarrow> 'js schema_map \<times> go_error list \<Rightarrow> 'js schema_map \<times> go_error list" where
  "import_step imp acc =
     (case acc of (m, errs) \<Rightarrow>
      case ai_Schema imp of
        Inl e \<Rightarrow> (m, errs @ [e])
      | Inr js \<Rightarrow> (AList.update \<lparr>gvr_Group = ai_Group imp, gvr_Version = ai_Version imp, gvr_Resource = ai_Plural imp\<rparr> js m, errs))"

text \<open>The loop over the versions of a resource, which stops at the first compatible one.\<close>

fun version_state ::
  "'js exports_lib \<Rightarrow> 'js schema_map \<Rightarrow> 'js schema_map \<Rightarrow> group_resource \<Rightarrow> string list \<Rightarrow> string \<Rightarrow> string" where
  "version_state E schemas imports gr [] state = state"
| "version_state E schemas imports gr (v # vs) state =
     (let r = \<lparr>gvr_Group = gr_Group gr, gvr_Version = v, gvr_Resource = gr_Resource gr\<rparr> in
      case map_of schemas r of
        None \<Rightarrow> version_state E schemas imports gr vs ResourceSchemaPendingState
      | Some upstreamSchema \<Rightarrow>
          (case map_of imports r of
             None \<Rightarrow> version_state E schemas imports gr vs ResourceSchemaIncompatibleState
           | Some downStreamSchema \<Rightarrow>
               if \<not> compatible E r upstreamSchema downStreamSchema
               then version_state E schemas imports gr vs ResourceSchemaIncompatibleState
               else ResourceSchemaAcceptedState))"

definition with_state :: "'js exports_lib \<Rightarrow> 'js schema_map \<Rightarrow> 'js schema_map \<Rightarrow> resource_to_sync \<Rightarrow> resource_to_sync" where
  "with_state E schemas imports r =
     r\<lparr>rs_State := version_state E schemas imports (rs_GroupResource r) (rs_Versions r) (rs_State r)\<rparr>"

definition apiCompatibleReconciler_reconcile ::
  "'js exports_lib \<Rightarrow> sync_target \<Rightarrow> go_error + (sync_target \<times> go_error list)" where
  "apiCompatibleReconciler_reconcile E st =
     bindE (foldE (compat_export_step E st) ([], []) (SupportedAPIExports (st_Spec st))) (\<lambda>(schemas, errs).
       case listAPIResourceImports E (Cluster st) of
         Inl e \<Rightarrow> Inr (st, [e])
       | Inr imps \<Rightarrow>
           (case fold import_step imps ([], errs) of (imports, errs') \<Rightarrow>
              Inr (st\<lparr>st_Status := (st_Status st)\<lparr>SyncedResources :=
                   map (with_state E schemas imports) (SyncedResources (st_Status st))\<rparr>\<rparr>, errs')))"

section \<open>The controller\<close>

definition exports_object :: "'js exports_lib \<Rightarrow> sync_target \<Rightarrow> go_error + (sync_target \<times> go_error list)" where
  "exports_object E st =
     (case exportReconciler_reconcile E st of (st1, errs1) \<Rightarrow>
        bindE (apiCompatibleReconciler_reconcile E st1) (\<lambda>(st2, errs2). Inr (st2, errs1 @ errs2)))"

definition exports_process ::
  "'js exports_lib \<Rightarrow> (sync_target_spec, sync_target_status) commit_lib \<Rightarrow> (string \<Rightarrow> patch_call \<Rightarrow> go_error option)
     \<Rightarrow> go_error + sync_target \<Rightarrow> patch_call list \<times> go_error list" where
  "exports_process E L patcher lookup =
     (case lookup of
        Inl e \<Rightarrow> ([], [])
      | Inr st \<Rightarrow> process_commit (NewCommitter L ''*v1alpha1.SyncTarget'' patcher) sync_target_resource st (exports_object E st))"

text \<open>The indexes, and the handlers of export, schema and import events.\<close>

record index_lib =
  ToClusterAwareKey :: "string \<Rightarrow> string \<Rightarrow> string \<Rightarrow> string"
  path_join :: "string \<Rightarrow> string \<Rightarrow> string"     \<comment> \<open>\<open>logicalcluster.Path.Join\<close>\<close>
  LogicalClusterPathAnnotationKey :: string
  targetKeysByExport :: "string \<Rightarrow> go_error + string list"
  exportsBySchema :: "string \<Rightarrow> go_error + api_export list"
  targetKey :: "string \<Rightarrow> go_error + string"     \<comment> \<open>\<open>GetByKey\<close> and the key function\<close>

definition indexAPIExportsByAPIResourceSchemas :: "index_lib \<Rightarrow> api_export \<Rightarrow> string list" where
  "indexAPIExportsByAPIResourceSchemas I export =
     map (\<lambda>s. ToClusterAwareKey I (Cluster export) [] s) (LatestResourceSchemas export)"

definition indexSyncTargetsByExports :: "index_lib \<Rightarrow> sync_target \<Rightarrow> string list" where
  "indexSyncTargetsByExports I st =
     map (\<lambda>ref. path_join I (if length (er_Path ref) = 0 then Cluster st else er_Path ref) (er_Export ref))
       (SupportedAPIExports (st_Spec st))"

definition enqueueAPIExport :: "index_lib \<Rightarrow> api_export \<Rightarrow> string queue_call list \<times> go_error list" where
  "enqueueAPIExport I export =
     (let path = go_str (Annotations export) (LogicalClusterPathAnnotationKey I) in
      case (if path \<noteq> [] then targetKeysByExport I (path_join I path (Name export)) else Inr []) of
        Inl e \<Rightarrow> ([], [e])
      | Inr pathKeys \<Rightarrow>
          (case targetKeysByExport I (path_join I (Cluster export) (Name export)) of
             Inl e \<Rightarrow> ([], [e])
           | Inr clusterKeys \<Rightarrow>
               (let keys = set_list (remdups (pathKeys @ clusterKeys)) in
                (concat (map (\<lambda>k. case targetKey I k of Inl _ \<Rightarrow> [] | Inr key \<Rightarrow> [QAdd key]) keys),
                 concat (map (\<lambda>k. case targetKey I k of Inl e \<Rightarrow> [e] | Inr _ \<Rightarrow> []) keys)))))"

definition enqueueAPIResourceSchema :: "index_lib \<Rightarrow> go_error + string \<Rightarrow> string queue_call list \<times> go_error list" where
  "enqueueAPIResourceSchema I key =
     (case key of
        Inl e \<Rightarrow> ([], [e])
      | Inr k \<Rightarrow>
          (case exportsBySchema I k of
             Inl e \<Rightarrow> ([], [e])
           | Inr exports \<Rightarrow>
               (concat (map (fst \<circ> enqueueAPIExport I) exports), concat (map (snd \<circ> enqueueAPIExport I) exports))))"

definition enqueueAPIResourceImport :: "index_lib \<Rightarrow> string \<Rightarrow> 'js api_import \<Rightarrow> string queue_call list" where
  "enqueueAPIResourceImport I lcluster imp = [QAdd (ToClusterAwareKey I lcluster [] (ai_Location imp))]"

section \<open>Lemmas\<close>

lemma version_state_accepted:
  "version_state E schemas imports gr vs state = ResourceSchemaAcceptedState \<longleftrightarrow>
     (\<exists>v \<in> set vs. \<exists>up down. let r = \<lparr>gvr_Group = gr_Group gr, gvr_Version = v, gvr_Resource = gr_Resource gr\<rparr> in
        map_of schemas r = Some up \<and> map_of imports r = Some down \<and> compatible E r up down)
     \<or> (vs = [] \<and> state = ResourceSchemaAcceptedState)"
proof (induction vs arbitrary: state)
  case (Cons v vs)
  have n: "ResourceSchemaPendingState \<noteq> ResourceSchemaAcceptedState" "ResourceSchemaIncompatibleState \<noteq> ResourceSchemaAcceptedState"
    by (simp_all add: ResourceSchemaPendingState_def ResourceSchemaAcceptedState_def ResourceSchemaIncompatibleState_def)
  show ?case
    using Cons [of ResourceSchemaPendingState] Cons [of ResourceSchemaIncompatibleState] n
    by (auto simp: Let_def split: option.splits)
qed simp

lemma merge_state_map:
  "length (merge_state ex rs) = length rs"
  "map (\<lambda>r. (rs_GroupResource r, rs_Versions r, rs_IdentityHash r)) (merge_state ex rs)
     = map (\<lambda>r. (rs_GroupResource r, rs_Versions r, rs_IdentityHash r)) rs"
  by (induction rs) auto

lemma merge_all_map:
  "map (\<lambda>r. (rs_GroupResource r, rs_Versions r, rs_IdentityHash r)) (fold merge_state exs rs)
     = map (\<lambda>r. (rs_GroupResource r, rs_Versions r, rs_IdentityHash r)) rs"
  by (induction exs arbitrary: rs) (simp_all add: merge_state_map)

text \<open>Where the entries of the two schema maps come from.\<close>

definition schema_source :: "'js exports_lib \<Rightarrow> sync_target \<Rightarrow> gvr \<Rightarrow> 'js \<Rightarrow> bool" where
  "schema_source E st r js \<longleftrightarrow>
     (\<exists>ref \<in> set (SupportedAPIExports (st_Spec st)). \<exists>export schemaName schema v.
        getAPIExport E (export_path st ref) (er_Export ref) = Inr export
        \<and> schemaName \<in> set (LatestResourceSchemas export) \<and> getResourceSchema E (Cluster export) schemaName = Inr schema
        \<and> v \<in> set (rsch_Versions schema) \<and> sv_Schema v = Inr js
        \<and> r = \<lparr>gvr_Group = rsch_Group schema, gvr_Version = sv_Name v, gvr_Resource = rsch_Plural schema\<rparr>)"

definition import_source :: "'js api_import list \<Rightarrow> gvr \<Rightarrow> 'js \<Rightarrow> bool" where
  "import_source imps r js \<longleftrightarrow>
     (\<exists>imp \<in> set imps. ai_Schema imp = Inr js
        \<and> r = \<lparr>gvr_Group = ai_Group imp, gvr_Version = ai_Version imp, gvr_Resource = ai_Plural imp\<rparr>)"

lemma version_loop_source:
  "map_of (fst (fold (version_step schema) vs (m, errs))) r = Some js \<Longrightarrow>
     map_of m r = Some js \<or> (\<exists>v \<in> set vs. sv_Schema v = Inr js
        \<and> r = \<lparr>gvr_Group = rsch_Group schema, gvr_Version = sv_Name v, gvr_Resource = rsch_Plural schema\<rparr>)"
proof (induction vs arbitrary: m errs)
  case (Cons v vs)
  obtain m1 errs1 where s: "version_step schema v (m, errs) = (m1, errs1)" by fastforce
  from Cons.prems s have "map_of (fst (fold (version_step schema) vs (m1, errs1))) r = Some js" by simp
  from Cons.IH [OF this] s show ?case
    by (auto simp: version_step_def update_conv' split: sum.splits if_splits)
qed simp

lemma schema_loop_source:
  "foldE (schema_step E export) acc names = Inr acc' \<Longrightarrow> map_of (fst acc') r = Some js \<Longrightarrow>
     map_of (fst acc) r = Some js \<or> (\<exists>schemaName \<in> set names. \<exists>schema v.
        getResourceSchema E (Cluster export) schemaName = Inr schema \<and> v \<in> set (rsch_Versions schema) \<and> sv_Schema v = Inr js
        \<and> r = \<lparr>gvr_Group = rsch_Group schema, gvr_Version = sv_Name v, gvr_Resource = rsch_Plural schema\<rparr>)"
proof (induction names arbitrary: acc)
  case (Cons n names)
  then obtain acc1 where s: "schema_step E export acc n = Inr acc1" and rest: "foldE (schema_step E export) acc1 names = Inr acc'"
    by (auto simp: bindE_Inr)
  from Cons.IH [OF rest Cons.prems(2)] show ?case
  proof
    assume a: "map_of (fst acc1) r = Some js"
    show ?thesis
    proof (cases "getResourceSchema E (Cluster export) n")
      case (Inr schema)
      with s have "acc1 = fold (version_step schema) (rsch_Versions schema) (fst acc, snd acc)" by (simp add: schema_step_def)
      with a version_loop_source [of schema "rsch_Versions schema" "fst acc" "snd acc" r js] Inr show ?thesis by auto
    qed (use s a in \<open>auto simp: schema_step_def split: go_error.splits\<close>)
  qed auto
qed simp

lemma export_loop_source:
  "foldE (compat_export_step E st) acc refs = Inr acc' \<Longrightarrow> map_of (fst acc') r = Some js \<Longrightarrow>
     map_of (fst acc) r = Some js \<or> (\<exists>ref \<in> set refs. \<exists>export schemaName schema v.
        getAPIExport E (export_path st ref) (er_Export ref) = Inr export
        \<and> schemaName \<in> set (LatestResourceSchemas export) \<and> getResourceSchema E (Cluster export) schemaName = Inr schema
        \<and> v \<in> set (rsch_Versions schema) \<and> sv_Schema v = Inr js
        \<and> r = \<lparr>gvr_Group = rsch_Group schema, gvr_Version = sv_Name v, gvr_Resource = rsch_Plural schema\<rparr>)"
proof (induction refs arbitrary: acc)
  case (Cons ref refs)
  then obtain acc1 where s: "compat_export_step E st acc ref = Inr acc1" and rest: "foldE (compat_export_step E st) acc1 refs = Inr acc'"
    by (auto simp: bindE_Inr)
  from Cons.IH [OF rest Cons.prems(2)] show ?case
  proof
    assume a: "map_of (fst acc1) r = Some js"
    show ?thesis
    proof (cases "getAPIExport E (export_path st ref) (er_Export ref)")
      case (Inr export)
      with s have "foldE (schema_step E export) acc (LatestResourceSchemas export) = Inr acc1" by (simp add: compat_export_step_def)
      from schema_loop_source [OF this a] Inr show ?thesis by auto
    qed (use s a in \<open>auto simp: compat_export_step_def split: go_error.splits\<close>)
  qed auto
qed simp

lemma import_loop_source:
  "map_of (fst (fold import_step imps (m, errs))) r = Some js \<Longrightarrow> map_of m r = Some js \<or> import_source imps r js"
proof (induction imps arbitrary: m errs)
  case (Cons i imps)
  obtain m1 errs1 where s: "import_step i (m, errs) = (m1, errs1)" by fastforce
  from Cons.prems s have "map_of (fst (fold import_step imps (m1, errs1))) r = Some js" by simp
  from Cons.IH [OF this] s show ?case
    by (auto simp: import_step_def import_source_def update_conv' split: sum.splits if_splits)
qed simp

lemma export_resources_state: "r \<in> set (export_resources E export) \<Longrightarrow> rs_State r = []"
proof -
  assume "r \<in> set (export_resources E export)"
  then obtain n where "convertSchemaToSyncedResource E (Cluster export) n (ae_IdentityHash export) = Inr r"
    by (auto simp: export_resources_def split: sum.splits)
  then show ?thesis by (auto simp: convertSchemaToSyncedResource_def bindE_Inr)
qed

section \<open>Properties\<close>

text \<open>
  C28: A resource is only accepted for syncing if the schemas allow it: after a pass of the compatibility
  check, a resource with at least one version that is in the accepted state has a version whose schema
  comes from a schema of one of the exports the sync target supports, whose imported schema comes from
  an import of the sync target's workspace, and the two are compatible.
\<close>

theorem accepted_resource_compatible:
  assumes "apiCompatibleReconciler_reconcile E st = Inr (st', errs)" "listAPIResourceImports E (Cluster st) = Inr imps"
    and "r \<in> set (SyncedResources (st_Status st'))" "rs_State r = ResourceSchemaAcceptedState" "rs_Versions r \<noteq> []"
  shows "\<exists>v \<in> set (rs_Versions r). \<exists>up down. schema_source E st
        \<lparr>gvr_Group = gr_Group (rs_GroupResource r), gvr_Version = v, gvr_Resource = gr_Resource (rs_GroupResource r)\<rparr> up
    \<and> import_source imps \<lparr>gvr_Group = gr_Group (rs_GroupResource r), gvr_Version = v, gvr_Resource = gr_Resource (rs_GroupResource r)\<rparr> down
    \<and> compatible E \<lparr>gvr_Group = gr_Group (rs_GroupResource r), gvr_Version = v, gvr_Resource = gr_Resource (rs_GroupResource r)\<rparr> up down"
proof -
  from assms(1,2) obtain schemas errs0 where
    s: "foldE (compat_export_step E st) ([], []) (SupportedAPIExports (st_Spec st)) = Inr (schemas, errs0)"
    by (auto simp: apiCompatibleReconciler_reconcile_def bindE_Inr)
  obtain importMap errs1 where i: "fold import_step imps ([], errs0) = (importMap, errs1)" by fastforce
  from assms(1,2) s i have "SyncedResources (st_Status st') = map (with_state E schemas importMap) (SyncedResources (st_Status st))"
    by (auto simp: apiCompatibleReconciler_reconcile_def)
  with assms(3) obtain r0 where r0: "r = with_state E schemas importMap r0" by auto
  then have same: "rs_GroupResource r = rs_GroupResource r0" "rs_Versions r = rs_Versions r0" by (simp_all add: with_state_def)
  from assms(4,5) r0 same obtain v up down where v: "v \<in> set (rs_Versions r)"
    and m: "map_of schemas \<lparr>gvr_Group = gr_Group (rs_GroupResource r), gvr_Version = v, gvr_Resource = gr_Resource (rs_GroupResource r)\<rparr> = Some up"
      "map_of importMap \<lparr>gvr_Group = gr_Group (rs_GroupResource r), gvr_Version = v, gvr_Resource = gr_Resource (rs_GroupResource r)\<rparr> = Some down"
      "compatible E \<lparr>gvr_Group = gr_Group (rs_GroupResource r), gvr_Version = v, gvr_Resource = gr_Resource (rs_GroupResource r)\<rparr> up down"
    by (auto simp: with_state_def version_state_accepted Let_def)
  from export_loop_source [OF s, of _ up] m(1) import_loop_source [of imps "[]" errs0 _ down] m(2) i v m(3)
  show ?thesis by (force simp: schema_source_def)
qed

text \<open>
  The list of synced resources is what the supported exports offer: up to the order, it holds one entry
  for each readable schema of each export found, with its served versions and the identity of the
  export, and an entry has no state or the state an entry for the same API had before.
\<close>

theorem synced_resources_of_exports:
  assumes "\<And>less xs. mset (SliceStable E less xs) = mset xs" "exportReconciler_reconcile E st = (st', errs)"
    and "desired = concat (map (\<lambda>ref. case getAPIExport E (export_path st ref) (er_Export ref) of
          Inl _ \<Rightarrow> [] | Inr export \<Rightarrow> export_resources E export) (SupportedAPIExports (st_Spec st)))"
  shows "mset (map (\<lambda>r. (rs_GroupResource r, rs_Versions r, rs_IdentityHash r)) (SyncedResources (st_Status st')))
       = mset (map (\<lambda>r. (rs_GroupResource r, rs_Versions r, rs_IdentityHash r)) desired)
    \<and> (\<forall>r \<in> set (SyncedResources (st_Status st')). rs_State r = []
          \<or> (\<exists>old \<in> set (SyncedResources (st_Status st)). same_api r old \<and> rs_State r = rs_State old))"
proof -
  have "fst (fold (export_step E st) refs (acc, es)) = acc @ concat (map (\<lambda>ref. case getAPIExport E (export_path st ref) (er_Export ref) of
          Inl _ \<Rightarrow> [] | Inr export \<Rightarrow> export_resources E export) refs)" for refs acc es
    by (induction refs arbitrary: acc es) (auto simp: export_step_def split: sum.splits go_error.splits)
  then have d: "fst (fold (export_step E st) (SupportedAPIExports (st_Spec st)) ([], [])) = desired" by (simp add: assms(3))
  then have sr: "SyncedResources (st_Status st') = fold merge_state (SyncedResources (st_Status st)) (SliceStable E synced_less desired)"
    using assms(2) by (auto simp: exportReconciler_reconcile_def split: prod.splits)
  have init: "rs_State r = []" if "r \<in> set (SliceStable E synced_less desired)" for r
  proof -
    have "r \<in> set desired" using that assms(1) by (metis mset_eq_setD)
    then obtain export where "r \<in> set (export_resources E export)" by (auto simp: assms(3) split: sum.splits)
    then show ?thesis by (rule export_resources_state)
  qed
  have one: "r \<in> set (merge_state ex rs) \<Longrightarrow> r \<in> set rs \<or> (same_api r ex \<and> rs_State r = rs_State ex)" for r ex rs
    by (induction rs) (auto simp: same_api_def split: if_splits)
  have "r \<in> set (fold merge_state exs rs) \<Longrightarrow> r \<in> set rs \<or> (\<exists>ex \<in> set exs. same_api r ex \<and> rs_State r = rs_State ex)" for r exs rs
    by (induction exs arbitrary: rs) (auto dest: one)
  then have "\<forall>r \<in> set (SyncedResources (st_Status st')). rs_State r = []
          \<or> (\<exists>old \<in> set (SyncedResources (st_Status st)). same_api r old \<and> rs_State r = rs_State old)"
    unfolding sr using init by blast
  then show ?thesis unfolding sr merge_all_map using assms(1) by (simp add: mset_map)
qed

text \<open>
  The comparison that sorts the synced resources is no order: there are resources each of which counts
  as less than the other, so the result of the sort is not determined by the documentation of
  \<open>sort.SliceStable\<close>.
\<close>

theorem synced_less_not_asymmetric: "\<exists>a b. synced_less a b \<and> synced_less b a"
proof -
  let ?r = "\<lambda>g n. \<lparr>rs_GroupResource = \<lparr>gr_Group = g, gr_Resource = n\<rparr>, rs_Versions = [], rs_IdentityHash = [], rs_State = []\<rparr>"
  have "synced_less (?r ''apps'' ''deployments'') (?r [] ''services'') \<and> synced_less (?r [] ''services'') (?r ''apps'' ''deployments'')"
    by (simp add: synced_less_def less_char_def)
  then show ?thesis by blast
qed

text \<open>
  A schema that cannot be read takes the controller down: if the first supported export exists and
  reading its first schema fails with an error other than not found, the pass panics.
\<close>

theorem schema_error_panics:
  assumes "SupportedAPIExports (st_Spec st) = ref # refs" "getAPIExport E (export_path st ref) (er_Export ref) = Inr export"
    and "LatestResourceSchemas export = s # ss" "getResourceSchema E (Cluster export) s = Inl e" "e \<noteq> NotFound"
  shows "\<exists>m. exports_object E st = Inl (Panic m)"
proof -
  obtain st1 errs1 where r: "exportReconciler_reconcile E st = (st1, errs1)" by fastforce
  then have "SupportedAPIExports (st_Spec st1) = ref # refs" "export_path st1 = export_path st"
    using assms(1) by (auto simp: exportReconciler_reconcile_def export_path_def fun_eq_iff split: prod.splits)
  with assms r show ?thesis
    by (auto simp: exports_object_def apiCompatibleReconciler_reconcile_def compat_export_step_def schema_step_def split: go_error.splits)
qed

interpretation exports_ctrl: one_sided_reconciler sync_target_resource "exports_object E" for E
proof
  fix old obj errs
  assume "exports_object E old = Inr (obj, errs)"
  then obtain st1 errs1 errs2 where 1: "exportReconciler_reconcile E old = (st1, errs1)"
    and 2: "apiCompatibleReconciler_reconcile E st1 = Inr (obj, errs2)"
    by (cases "exportReconciler_reconcile E old") (auto simp: exports_object_def bindE_Inr)
  from 1 have "object_meta.truncate st1 = object_meta.truncate old" "st_Spec st1 = st_Spec old"
    by (auto simp: exportReconciler_reconcile_def object_meta.defs split: prod.splits)
  moreover from 2 have "object_meta.truncate obj = object_meta.truncate st1" "st_Spec obj = st_Spec st1"
    by (cases "listAPIResourceImports E (Cluster st1)";
        auto simp: apiCompatibleReconciler_reconcile_def bindE_Inr object_meta.defs case_prod_beta)+
  ultimately show "(r_ObjectMeta (sync_target_resource obj) = r_ObjectMeta (sync_target_resource old)
       \<and> r_Spec (sync_target_resource obj) = r_Spec (sync_target_resource old))
     \<or> r_Status (sync_target_resource obj) = r_Status (sync_target_resource old)"
    by (simp add: sync_target_resource_def)
qed

section \<open>Witnesses\<close>

definition ex_schema :: "nat resource_schema" where
  "ex_schema = \<lparr>rsch_Group = ''apps'', rsch_Plural = ''deployments'',
     rsch_Versions = [\<lparr>sv_Name = ''v1'', sv_Served = True, sv_Schema = Inr 7\<rparr>]\<rparr>"

definition ex_export :: api_export where
  "ex_export = object_meta.extend (meta_named ''root'' ''kubernetes'') \<lparr>LatestResourceSchemas = [''s''], ae_IdentityHash = ''id''\<rparr>"

definition ex_exports_lib :: "go_error + nat resource_schema \<Rightarrow> nat exports_lib" where
  "ex_exports_lib schema = \<lparr>getAPIExport = (\<lambda>_ _. Inr ex_export), getResourceSchema = (\<lambda>_ _. schema),
     listAPIResourceImports = (\<lambda>_. Inr [\<lparr>ai_Location = ''east'', ai_Group = ''apps'', ai_Version = ''v1'', ai_Plural = ''deployments'', ai_Schema = Inr 7\<rparr>]),
     compatible = (\<lambda>_ a b. a = b), SliceStable = (\<lambda>_ xs. xs)\<rparr>"

definition ex_exporting_target :: "resource_to_sync list \<Rightarrow> sync_target" where
  "ex_exporting_target rs = ex_target\<lparr>st_Spec := (st_Spec ex_target)\<lparr>SupportedAPIExports := [\<lparr>er_Path = ''root'', er_Export = ''kubernetes''\<rparr>]\<rparr>,
     st_Status := (st_Status ex_target)\<lparr>SyncedResources := rs\<rparr>\<rparr>"

definition ex_synced :: "string \<Rightarrow> resource_to_sync" where
  "ex_synced state = \<lparr>rs_GroupResource = \<lparr>gr_Group = ''apps'', gr_Resource = ''deployments''\<rparr>, rs_Versions = [''v1''], rs_IdentityHash = ''id'',
     rs_State = state\<rparr>"

lemmas exports_eval = ex_schema_def ex_export_def ex_exports_lib_def ex_exporting_target_def ex_synced_def ex_object_defs export_path_def

theorem accepted_resource_compatible_witness:
  "\<exists>st'. apiCompatibleReconciler_reconcile (ex_exports_lib (Inr ex_schema)) (ex_exporting_target [ex_synced []]) = Inr (st', [])
    \<and> SyncedResources (st_Status st') = [ex_synced ResourceSchemaAcceptedState]
    \<and> (\<exists>up. schema_source (ex_exports_lib (Inr ex_schema)) (ex_exporting_target [ex_synced []])
          \<lparr>gvr_Group = ''apps'', gvr_Version = ''v1'', gvr_Resource = ''deployments''\<rparr> up)"
proof -
  obtain st' where r: "apiCompatibleReconciler_reconcile (ex_exports_lib (Inr ex_schema)) (ex_exporting_target [ex_synced []]) = Inr (st', [])"
    "SyncedResources (st_Status st') = [ex_synced ResourceSchemaAcceptedState]"
    by (simp add: apiCompatibleReconciler_reconcile_def compat_export_step_def schema_step_def version_step_def import_step_def
        with_state_def exports_eval)
  have i: "\<exists>imps. listAPIResourceImports (ex_exports_lib (Inr ex_schema)) (Cluster (ex_exporting_target [ex_synced []])) = Inr imps"
    by (simp add: ex_exports_lib_def)
  then obtain imps where "listAPIResourceImports (ex_exports_lib (Inr ex_schema)) (Cluster (ex_exporting_target [ex_synced []])) = Inr imps" ..
  from accepted_resource_compatible [OF r(1) this, of "ex_synced ResourceSchemaAcceptedState"] r show ?thesis
    by (auto simp: ex_synced_def)
qed

theorem synced_resources_of_exports_witness:
  "\<exists>st'. exportReconciler_reconcile (ex_exports_lib (Inr ex_schema)) (ex_exporting_target [ex_synced ResourceSchemaAcceptedState]) = (st', [])
    \<and> size (SyncedResources (st_Status st')) = 1"
proof -
  obtain st' where r: "exportReconciler_reconcile (ex_exports_lib (Inr ex_schema)) (ex_exporting_target [ex_synced ResourceSchemaAcceptedState]) = (st', [])"
    by (simp add: exportReconciler_reconcile_def export_step_def exports_eval)
  have "mset (SliceStable (ex_exports_lib (Inr ex_schema)) less xs) = mset xs" for less xs by (simp add: ex_exports_lib_def)
  from arg_cong [OF synced_resources_of_exports [OF this r refl, THEN conjunct1], of size] r show ?thesis
    by (simp add: exports_eval export_resources_def convertSchemaToSyncedResource_def)
qed

theorem schema_error_panics_witness:
  "\<exists>m. exports_object (ex_exports_lib (Inl (Failure ''timeout''))) (ex_exporting_target []) = Inl (Panic m)"
  by (rule schema_error_panics [where e = "Failure ''timeout''" and export = ex_export and s = "''s''" and ss = "[]"]) (simp_all add: exports_eval)

end
