(* ===== verification/API_Calls.thy ===== *)
theory API_Calls
  imports TMC_Prelude
begin

text \<open>
  The writer of API calls in which the reconcile and \<open>process\<close> functions that talk to an API server are
  written: a computation is the list of the calls it sends, in order, and its value or its error. The
  answers of the server are parameters. \<open>sends\<close> is the judgement that every call of a computation has a property;
  its rules follow the structure of the computation.
\<close>

section \<open>Computations\<close>

text \<open>A computation that sends API calls and may fail: the calls sent, and its value or its error.\<close>

type_synonym ('c, 'a) calls = "'c list \<times> (go_error + 'a)"

definition okay :: "'a \<Rightarrow> ('c, 'a) calls" where
  "okay x = ([], Inr x)"

definition fail :: "go_error \<Rightarrow> ('c, 'a) calls" where
  "fail e = ([], Inl e)"

definition andThen :: "('c, 'a) calls \<Rightarrow> ('a \<Rightarrow> ('c, 'b) calls) \<Rightarrow> ('c, 'b) calls" where
  "andThen m f =
     (case m of (cs, Inl e) \<Rightarrow> (cs, Inl e)
      | (cs, Inr x) \<Rightarrow> (case f x of (cs', r) \<Rightarrow> (cs @ cs', r)))"

text \<open>Send one call; the answer of the server is a parameter.\<close>

definition send_call :: "('c \<Rightarrow> go_error option) \<Rightarrow> 'c \<Rightarrow> ('c, unit) calls" where
  "send_call answer c = ([c], case answer c of None \<Rightarrow> Inr () | Some e \<Rightarrow> Inl e)"

definition lift_err :: "go_error + 'a \<Rightarrow> ('c, 'a) calls" where
  "lift_err r = ([], r)"

definition emit :: "'c \<Rightarrow> ('c, unit) calls" where
  "emit c = ([c], Inr ())"

text \<open>A call whose error is looked at by the caller.\<close>

definition attempt :: "('c \<Rightarrow> go_error option) \<Rightarrow> 'c \<Rightarrow> ('c, go_error option) calls" where
  "attempt answer c = ([c], Inr (answer c))"

definition check :: "go_error option \<Rightarrow> ('c, unit) calls" where
  "check e = (case e of None \<Rightarrow> okay () | Some err \<Rightarrow> fail err)"

text \<open>A loop over a slice: the first error ends it. \<open>fold_calls\<close> is the loop that also updates a variable.\<close>

fun fold_calls :: "('s \<Rightarrow> 'a \<Rightarrow> ('c, 's) calls) \<Rightarrow> 's \<Rightarrow> 'a list \<Rightarrow> ('c, 's) calls" where
  "fold_calls f s [] = okay s"
| "fold_calls f s (x # xs) = andThen (f s x) (\<lambda>s'. fold_calls f s' xs)"

definition for_each :: "('a \<Rightarrow> ('c, unit) calls) \<Rightarrow> 'a list \<Rightarrow> ('c, unit) calls" where
  "for_each f xs = fold_calls (\<lambda>_. f) () xs"

section \<open>Calls and results\<close>

lemma andThen_simps [simp]:
  "andThen (okay x) f = f x" "andThen (fail e) f = fail e"
  "andThen (lift_err (Inr x)) f = f x" "andThen (lift_err (Inl e)) f = fail e"
  by (simp_all add: andThen_def okay_def fail_def lift_err_def)

lemma calls_simps [simp]:
  "fst (okay x) = []" "fst (fail e) = []" "snd (okay x) = Inr x" "snd (fail e) = Inl e" "fst (lift_err r) = []" "snd (lift_err r) = r"
  "fst (send_call answer c) = [c]"
  by (simp_all add: okay_def fail_def lift_err_def send_call_def)

lemma fst_andThen: "fst (andThen m f) = fst m @ (case snd m of Inl _ \<Rightarrow> [] | Inr x \<Rightarrow> fst (f x))"
  by (auto simp: andThen_def split: prod.splits sum.splits)

lemma snd_andThen: "snd (andThen m f) = (case snd m of Inl e \<Rightarrow> Inl e | Inr x \<Rightarrow> snd (f x))"
  by (auto simp: andThen_def split: prod.splits sum.splits)

lemma ok_andThen: "snd (andThen m f) = Inr y \<longleftrightarrow> (\<exists>x. snd m = Inr x \<and> snd (f x) = Inr y)"
  by (auto simp: snd_andThen split: sum.splits)

lemma andThen_calls: "snd m = Inr x \<Longrightarrow> fst (andThen m f) = fst m @ fst (f x)"
  by (simp add: fst_andThen)

section \<open>What a computation sends\<close>

lemma in_andThen:
  "c \<in> set (fst (andThen m f)) \<longleftrightarrow> c \<in> set (fst m) \<or> (\<exists>x. snd m = Inr x \<and> c \<in> set (fst (f x)))"
  by (auto simp: fst_andThen split: sum.splits)

lemma step_simps [simp]:
  "fst (emit c) = [c]" "snd (emit c) = Inr ()" "fst (attempt answer c) = [c]" "snd (attempt answer c) = Inr (answer c)"
  "fst (check e) = []" "snd (check e) = Inr () \<longleftrightarrow> e = None"
  by (auto simp: emit_def attempt_def check_def split: option.splits)

lemma send_ok [simp]: "snd (send_call answer c) = Inr u \<longleftrightarrow> answer c = None"
  by (auto simp: send_call_def split: option.splits)

definition sends :: "('c \<Rightarrow> bool) \<Rightarrow> ('c, 'a) calls \<Rightarrow> bool" where
  "sends P m \<longleftrightarrow> (\<forall>c \<in> set (fst m). P c)"

lemma sends_simps [simp]:
  "sends P (okay x)" "sends P (fail e)" "sends P (lift_err r)" "sends P (check err)"
  "sends P (emit c) \<longleftrightarrow> P c" "sends P (attempt answer c) \<longleftrightarrow> P c" "sends P (send_call answer c) \<longleftrightarrow> P c"
  by (simp_all add: sends_def)

lemma sends_andThen: "sends P m \<Longrightarrow> (\<And>x. snd m = Inr x \<Longrightarrow> sends P (f x)) \<Longrightarrow> sends P (andThen m f)"
  by (auto simp: sends_def in_andThen)

lemma sendsD: "sends P m \<Longrightarrow> c \<in> set (fst m) \<Longrightarrow> P c"
  by (simp add: sends_def)

lemma sends_fold_calls: "(\<And>s x. x \<in> set xs \<Longrightarrow> sends P (f s x)) \<Longrightarrow> sends P (fold_calls f s xs)"
  by (induction xs arbitrary: s) (auto intro: sends_andThen)

lemma sends_for_each: "(\<And>x. x \<in> set xs \<Longrightarrow> sends P (f x)) \<Longrightarrow> sends P (for_each f xs)"
  unfolding for_each_def by (rule sends_fold_calls)

lemma for_each_simps [simp]: "for_each f [] = okay ()" "for_each f (x # xs) = andThen (f x) (\<lambda>_. for_each f xs)"
  by (simp_all add: for_each_def)

end
