(* ===== verification/Syncer_Shared.thy ===== *)
theory Syncer_Shared
  imports Model_Instances Merge_Patch API_Calls
begin

text \<open>
  \<^verbatim>\<open>src/pkg/syncer/shared\<close>: namespace locators, the names of downstream namespaces and tenants, the
  renaming of resources and the removal of the syncer's finalizer.

  Parameters (record \<open>json_lib\<close>): JSON encoding and decoding of locators, SHA-224 and base 36. A nil
  pointer is \<open>None\<close>. The fields of an unstructured object besides its metadata are kept as raw JSON.
\<close>

section \<open>Objects\<close>

record unstr = object_meta +
  u_Group :: string
  u_Version :: string
  u_Kind :: string
  u_ManagedFields :: "string list"
  u_DeletionGracePeriodSeconds :: "int option"
  u_content :: "(string \<times> string) list"

section \<open>Locators\<close>

record sync_target_locator =
  stl_ClusterName :: string
  stl_DeprecatedPath :: string
  stl_Name :: string
  stl_UID :: string

record namespace_locator =
  nl_SyncTarget :: sync_target_locator
  nl_ClusterName :: string
  nl_Namespace :: string

record json_lib =
  marshal_locator :: "namespace_locator \<Rightarrow> go_error + string"
  unmarshal_locator :: "string \<Rightarrow> go_error + namespace_locator"
  sum224 :: "string \<Rightarrow> 8 word list"
  base36_lower :: "8 word list \<Rightarrow> string"   \<comment> \<open>\<open>strings.ToLower(base36.EncodeBytes(h))\<close>\<close>

definition json_laws :: "json_lib \<Rightarrow> bool" where
  "json_laws J \<longleftrightarrow> (\<forall>l. \<exists>s. marshal_locator J l = Inr s \<and> unmarshal_locator J s = Inr l)"

definition NamespaceLocatorAnnotation :: string where "NamespaceLocatorAnnotation = ''kcp.io/namespace-locator''"
definition TenantIDLabel :: string where "TenantIDLabel = ''kcp.io/tenant-id''"

definition NewNamespaceLocator :: "string \<Rightarrow> string \<Rightarrow> string \<Rightarrow> string \<Rightarrow> string \<Rightarrow> namespace_locator" where
  "NewNamespaceLocator workspace syncTargetClusterName syncTargetUID syncTargetName upstreamNamespace =
     \<lparr>nl_SyncTarget = \<lparr>stl_ClusterName = syncTargetClusterName, stl_DeprecatedPath = [], stl_Name = syncTargetName,
        stl_UID = syncTargetUID\<rparr>, nl_ClusterName = workspace, nl_Namespace = upstreamNamespace\<rparr>"

definition NewNamespaceLocatorV060 :: "string \<Rightarrow> string \<Rightarrow> string \<Rightarrow> string \<Rightarrow> string \<Rightarrow> namespace_locator" where
  "NewNamespaceLocatorV060 workspace syncTargetClusterName syncTargetUID syncTargetName upstreamNamespace =
     \<lparr>nl_SyncTarget = \<lparr>stl_ClusterName = [], stl_DeprecatedPath = syncTargetClusterName, stl_Name = syncTargetName,
        stl_UID = syncTargetUID\<rparr>, nl_ClusterName = workspace, nl_Namespace = upstreamNamespace\<rparr>"

definition LocatorFromAnnotations :: "json_lib \<Rightarrow> smap \<Rightarrow> go_error + namespace_locator option" where
  "LocatorFromAnnotations J annotations =
     (case go_get annotations NamespaceLocatorAnnotation of
        None \<Rightarrow> Inr None
      | Some annotation \<Rightarrow>
          bindE (unmarshal_locator J annotation) (\<lambda>locator.
            let st = nl_SyncTarget locator;
                st1 = (if stl_ClusterName st = [] then st\<lparr>stl_ClusterName := stl_DeprecatedPath st\<rparr> else st) in
            Inr (Some (locator\<lparr>nl_SyncTarget := st1\<lparr>stl_DeprecatedPath := []\<rparr>\<rparr>))))"

definition PhysicalClusterNamespaceName :: "json_lib \<Rightarrow> namespace_locator \<Rightarrow> go_error + string" where
  "PhysicalClusterNamespaceName J l =
     bindE (marshal_locator J l) (\<lambda>b.
       let base36hash = base36_lower J (sum224 J b) in
       if length base36hash < 12 then Inl (Panic ''slice bounds out of range'')
       else Inr (''kcp-'' @ take 12 base36hash))"

definition GetTenantID :: "json_lib \<Rightarrow> namespace_locator \<Rightarrow> go_error + string" where
  "GetTenantID J l =
     bindE (marshal_locator J \<lparr>nl_SyncTarget = nl_SyncTarget l, nl_ClusterName = nl_ClusterName l, nl_Namespace = []\<rparr>)
       (\<lambda>b. Inr (text62 (set_bytes (sum224 J b))))"

definition GetDNSID :: "json_lib \<Rightarrow> string \<Rightarrow> string \<Rightarrow> string \<Rightarrow> go_error + string" where
  "GetDNSID J clusterName syncTargetUID syncTargetName =
     (let uid36hash = base36_lower J (sum224 J syncTargetUID); workspace36hash = base36_lower J (sum224 J clusterName) in
      if length uid36hash < 8 \<or> length workspace36hash < 8 then Inl (Panic ''slice bounds out of range'')
      else Inr (''kcp-dns-'' @ syncTargetName @ ''-'' @ take 8 uid36hash @ ''-'' @ take 8 workspace36hash))"

section \<open>Names and types\<close>

definition DeprecatedGetAssignedSyncTarget :: "smap \<Rightarrow> string" where
  "DeprecatedGetAssignedSyncTarget labels =
     (case find (\<lambda>(k, v). has_prefix k ClusterResourceStateLabelPrefix \<and> v = ResourceStateSync) (entries labels) of
        None \<Rightarrow> [] | Some (k, v) \<Rightarrow> trim_prefix k ClusterResourceStateLabelPrefix)"

definition configMapGVR :: gvr where "configMapGVR = \<lparr>gvr_Group = [], gvr_Version = ''v1'', gvr_Resource = ''configmaps''\<rparr>"
definition secretGVR :: gvr where "secretGVR = \<lparr>gvr_Group = [], gvr_Version = ''v1'', gvr_Resource = ''secrets''\<rparr>"

definition GetUpstreamResourceName :: "gvr \<Rightarrow> string \<Rightarrow> string" where
  "GetUpstreamResourceName r downstreamResourceName =
     (if r = configMapGVR \<and> downstreamResourceName = ''kcp-root-ca.crt'' then ''kube-root-ca.crt''
      else if r = secretGVR \<and> has_prefix downstreamResourceName ''kcp-default-token'' then trim_prefix downstreamResourceName ''kcp-''
      else downstreamResourceName)"

text \<open>The prefix of the names that the workload command gives to a syncer and its namespace.\<close>

definition SyncerIDPrefix :: string where "SyncerIDPrefix = ''kcp-syncer-''"

definition ServiceAccountNameKey :: string where "ServiceAccountNameKey = ''kubernetes.io/service-account.name''"

definition is_kind :: "string \<Rightarrow> unstr \<Rightarrow> bool" where
  "is_kind kind obj \<longleftrightarrow> u_Group obj = [] \<and> u_Version obj = ''v1'' \<and> u_Kind obj = kind"

definition getTransformedName :: "unstr \<Rightarrow> string" where
  "getTransformedName obj =
     (if is_kind ''ConfigMap'' obj \<and> Name obj = ''kube-root-ca.crt'' then ''kcp-root-ca.crt''
      else if is_kind ''Secret'' obj \<and> has_prefix (Name obj) ''default-token-''
          \<and> go_get (Annotations obj) ServiceAccountNameKey = Some ''default''
      then ''kcp-'' @ Name obj
      else Name obj)"

fun ContainsGVR :: "gvr list \<Rightarrow> gvr \<Rightarrow> bool" where
  "ContainsGVR [] r = False"
| "ContainsGVR (item # gvrs) r = (if r = item then True else ContainsGVR gvrs r)"

section \<open>Removing the syncer's finalizer\<close>

definition without_target :: "string \<Rightarrow> unstr \<Rightarrow> unstr" where
  "without_target syncTargetKey obj =
     obj\<lparr>Finalizers := filter (\<lambda>f. f \<noteq> syncer_finalizer syncTargetKey) (Finalizers obj),
         Annotations := go_del (deletion_annotation syncTargetKey)
           (go_del (InternalClusterStatusAnnotationPrefix @ syncTargetKey) (Annotations obj)),
         Labels := go_del (state_label syncTargetKey) (Labels obj)\<rparr>"

text \<open>The call is the \<open>Update\<close> of the upstream object; \<open>lookup\<close> is the answer of the upstream lister.\<close>

definition EnsureUpstreamFinalizerRemoved ::
  "('c \<Rightarrow> go_error option) \<Rightarrow> (unstr \<Rightarrow> 'c) \<Rightarrow> string \<Rightarrow> go_error + unstr \<Rightarrow> ('c, unit) calls" where
  "EnsureUpstreamFinalizerRemoved answer updateCall syncTargetKey lookup =
     (case lookup of
        Inl NotFound \<Rightarrow> okay ()
      | Inl e \<Rightarrow> fail e
      | Inr upstreamObj \<Rightarrow>
          if go_str (Annotations upstreamObj) (deletion_annotation syncTargetKey) = [] then okay ()
          else send_call answer (updateCall (without_target syncTargetKey upstreamObj)))"

section \<open>Lemmas\<close>

lemma ContainsGVR_iff: "ContainsGVR gvrs r \<longleftrightarrow> r \<in> set gvrs"
  by (induction gvrs) auto


lemma upstream_name_of_transformed:
  assumes "r = configMapGVR \<longleftrightarrow> is_kind ''ConfigMap'' obj" "r = secretGVR \<longleftrightarrow> is_kind ''Secret'' obj"
    and "r = configMapGVR \<longrightarrow> Name obj \<noteq> ''kcp-root-ca.crt''"
    and "r = secretGVR \<longrightarrow> \<not> has_prefix (Name obj) ''kcp-default-token''"
  shows "GetUpstreamResourceName r (getTransformedName obj) = Name obj"
proof -
  have neq: "configMapGVR \<noteq> secretGVR" by (simp add: configMapGVR_def secretGVR_def)
  have cm: "\<not> (is_kind ''ConfigMap'' obj \<and> is_kind ''Secret'' obj)" by (simp add: is_kind_def)
  consider "is_kind ''ConfigMap'' obj \<and> Name obj = ''kube-root-ca.crt''"
    | "is_kind ''Secret'' obj \<and> has_prefix (Name obj) ''default-token-'' \<and> go_get (Annotations obj) ServiceAccountNameKey = Some ''default''"
    | "getTransformedName obj = Name obj" unfolding getTransformedName_def by presburger
  then show ?thesis
  proof cases
    case 1
    then show ?thesis using assms by (simp add: getTransformedName_def GetUpstreamResourceName_def)
  next
    case 2
    then obtain t where "Name obj = ''default-token-'' @ t" by (auto simp: has_prefix_iff)
    with 2 assms neq cm show ?thesis
      by (auto simp: getTransformedName_def GetUpstreamResourceName_def has_prefix_def trim_prefix_def)
  next
    case 3
    with assms show ?thesis by (auto simp: GetUpstreamResourceName_def)
  qed
qed

text \<open>
  The names of renamed objects are read back: for an object whose kind is that of its resource, and
  whose own name is not one of those that the syncer gives (\<open>kcp-root-ca.crt\<close> for a ConfigMap,
  \<open>kcp-default-token...\<close> for a Secret), the upstream name computed from the name of its downstream copy
  is the name of the object. And \<open>getTransformedName\<close> changes a name only for the ConfigMap
  \<open>kube-root-ca.crt\<close> and the token Secrets of the default service account.
\<close>

theorem renaming_roundtrip:
  assumes "r = configMapGVR \<longleftrightarrow> is_kind ''ConfigMap'' obj" "r = secretGVR \<longleftrightarrow> is_kind ''Secret'' obj"
    and "r = configMapGVR \<longrightarrow> Name obj \<noteq> ''kcp-root-ca.crt''"
    and "r = secretGVR \<longrightarrow> \<not> has_prefix (Name obj) ''kcp-default-token''"
  shows "GetUpstreamResourceName r (getTransformedName obj) = Name obj
    \<and> (getTransformedName obj \<noteq> Name obj \<longrightarrow> (is_kind ''ConfigMap'' obj \<and> Name obj = ''kube-root-ca.crt'')
        \<or> (is_kind ''Secret'' obj \<and> go_get (Annotations obj) ServiceAccountNameKey = Some ''default''))"
  using upstream_name_of_transformed [OF assms] by (auto simp: getTransformedName_def)

text \<open>
  A locator annotation is read back as the locator that was written, and an annotation of kcp v0.6.0,
  which has the workspace of the sync target under its old key, is read back as the current locator.
\<close>

theorem locator_readback:
  assumes "json_laws J"
  shows "(\<exists>s. marshal_locator J (NewNamespaceLocator w c u n ns) = Inr s
      \<and> (go_get annotations NamespaceLocatorAnnotation = Some s \<longrightarrow>
          LocatorFromAnnotations J annotations = Inr (Some (NewNamespaceLocator w c u n ns))))
    \<and> (\<exists>s. marshal_locator J (NewNamespaceLocatorV060 w c u n ns) = Inr s
      \<and> (go_get annotations NamespaceLocatorAnnotation = Some s \<longrightarrow>
          LocatorFromAnnotations J annotations = Inr (Some (NewNamespaceLocator w c u n ns))))"
proof -
  obtain s where "marshal_locator J (NewNamespaceLocator w c u n ns) = Inr s" "unmarshal_locator J s = Inr (NewNamespaceLocator w c u n ns)"
    using assms by (metis json_laws_def)
  moreover obtain s' where "marshal_locator J (NewNamespaceLocatorV060 w c u n ns) = Inr s'"
    "unmarshal_locator J s' = Inr (NewNamespaceLocatorV060 w c u n ns)"
    using assms by (metis json_laws_def)
  ultimately show ?thesis
    by (simp add: LocatorFromAnnotations_def) (simp add: NewNamespaceLocator_def NewNamespaceLocatorV060_def Let_def)
qed

section \<open>Concrete encodings\<close>

text \<open>A JSON library for examples: every character is escaped, every field ends with a bar.\<close>

definition escape :: "string \<Rightarrow> string" where
  "escape s = concat (map (\<lambda>c. [CHR ''.'', c]) s) @ ''|''"

fun unescape :: "string \<Rightarrow> string \<times> string" where
  "unescape (a # c # r) = (if a = CHR ''.'' then (case unescape r of (s, rest) \<Rightarrow> (c # s, rest)) else ([], c # r))"
| "unescape _ = ([], [])"

lemma unescape_escape: "unescape (escape s @ r) = (s, r)"
proof (induction s)
  case Nil
  show ?case by (cases r) (simp_all add: escape_def)
qed (simp add: escape_def)

definition basic_json :: json_lib where
  "basic_json =
     \<lparr>marshal_locator = (\<lambda>l. Inr (concat (map escape [stl_ClusterName (nl_SyncTarget l), stl_DeprecatedPath (nl_SyncTarget l),
        stl_Name (nl_SyncTarget l), stl_UID (nl_SyncTarget l), nl_ClusterName l, nl_Namespace l]))),
      unmarshal_locator = (\<lambda>s. case unescape s of (a, s1) \<Rightarrow> case unescape s1 of (b, s2) \<Rightarrow> case unescape s2 of (c, s3) \<Rightarrow>
        case unescape s3 of (d, s4) \<Rightarrow> case unescape s4 of (e, s5) \<Rightarrow>
        Inr \<lparr>nl_SyncTarget = \<lparr>stl_ClusterName = a, stl_DeprecatedPath = b, stl_Name = c, stl_UID = d\<rparr>, nl_ClusterName = e,
             nl_Namespace = fst (unescape s5)\<rparr>),
      sum224 = (\<lambda>s. replicate 27 0 @ [of_nat (length s)]), base36_lower = (\<lambda>h. replicate 44 CHR ''0'')\<rparr>"

lemma basic_json_laws [simp]: "json_laws basic_json"
  using unescape_escape [of _ "[]"] by (simp add: json_laws_def basic_json_def unescape_escape)

definition ex_secret :: unstr where
  "ex_secret = \<lparr>Name = ''default-token-x'', Namespace = ''shop'', Cluster = ''user'', UID = [], ResourceVersion = [], Labels = None,
     Annotations = Some [(ServiceAccountNameKey, ''default'')], Finalizers = [], OwnerReferences = [],
     DeletionTimestamp = None, u_Group = [], u_Version = ''v1'', u_Kind = ''Secret'', u_ManagedFields = [],
     u_DeletionGracePeriodSeconds = None, u_content = []\<rparr>"

theorem renaming_roundtrip_witness:
  "getTransformedName ex_secret = ''kcp-default-token-x'' \<and> GetUpstreamResourceName secretGVR ''kcp-default-token-x'' = ''default-token-x''"
  using renaming_roundtrip [of secretGVR ex_secret]
  by (simp add: ex_secret_def configMapGVR_def secretGVR_def is_kind_def has_prefix_def getTransformedName_def go_get_def)

theorem locator_readback_witness:
  "\<exists>s. LocatorFromAnnotations basic_json (Some [(NamespaceLocatorAnnotation, s)])
     = Inr (Some (NewNamespaceLocator ''user'' ''root'' ''uid'' ''east'' ''shop''))"
proof -
  obtain s where "marshal_locator basic_json (NewNamespaceLocatorV060 ''user'' ''root'' ''uid'' ''east'' ''shop'') = Inr s"
    "go_get (Some [(NamespaceLocatorAnnotation, s)]) NamespaceLocatorAnnotation = Some s"
    by (simp add: basic_json_def go_get_def)
  with locator_readback [OF basic_json_laws, of "''user''" "''root''" "''uid''" "''east''" "''shop''" "Some [(NamespaceLocatorAnnotation, s)]"]
  show ?thesis by auto
qed

end
