(* ===== verification/Downstream_Cleaner.thy ===== *)
theory Downstream_Cleaner
  imports Syncer_Shared Work_Queue
begin

text \<open>
  \<^verbatim>\<open>src/pkg/syncer/namespace\<close>: the syncer's controller of downstream namespaces. It keeps the table of
  namespaces planned for cleaning, deletes an empty one after a delay, cancels a cleaning when the
  namespace is in use again, and maintains the ConfigMap that the DNS server of a workspace reads.

  The interface \<open>shared.Cleaner\<close>, which the spec and status syncers call, is the locale \<open>cleaner\<close>. The
  workers of the two queues and the callers of the interface run concurrently; the table is protected by
  a lock, so the interleaving model below (\<open>clean_step\<close>) has one step per critical section or API call.

  Parameters: the informers, the API clients and \<open>cache.SplitMetaNamespaceKey\<close>.
\<close>

section \<open>The table of planned cleanings\<close>

definition isPlannedForCleaning :: "string \<Rightarrow> time gomap \<Rightarrow> bool" where
  "isPlannedForCleaning key toDeleteMap = go_has toDeleteMap key"

definition CancelCleaning :: "string \<Rightarrow> time gomap \<Rightarrow> time gomap" where
  "CancelCleaning key toDeleteMap = go_del key toDeleteMap"

text \<open>The table and the calls on the delayed queue. The table is never nil (\<open>make\<close> in the constructor).\<close>

definition PlanCleaning :: "duration \<Rightarrow> time \<Rightarrow> string \<Rightarrow> time gomap \<Rightarrow> time gomap \<times> string queue_call list" where
  "PlanCleaning namespaceCleanDelay now key toDeleteMap =
     (if (case go_get toDeleteMap key of None \<Rightarrow> True | Some plannedFor \<Rightarrow> plannedFor < now)
      then (Some (go_put key (now + namespaceCleanDelay) (entries toDeleteMap)), [QAddAfter key namespaceCleanDelay])
      else (toDeleteMap, []))"

section \<open>Deleting an empty namespace\<close>

definition ns_gvr :: gvr where "ns_gvr = \<lparr>gvr_Group = [], gvr_Version = ''v1'', gvr_Resource = ''namespaces''\<rparr>"

text \<open>An informer is the answer of its lister for a namespace.\<close>

fun empty_loop :: "(gvr \<times> (string \<Rightarrow> go_error + unstr list)) list \<Rightarrow> string \<Rightarrow> go_error + bool" where
  "empty_loop [] ns = Inr True"
| "empty_loop ((r, lister) # informers) ns =
     (if r = ns_gvr then empty_loop informers ns
      else bindE (lister ns) (\<lambda>objs. if objs \<noteq> [] then Inr False else empty_loop informers ns))"

definition isDowntreamNamespaceEmpty ::
  "(gvr \<times> (string \<Rightarrow> go_error + unstr list)) list \<Rightarrow> gvr list \<Rightarrow> string \<Rightarrow> go_error + bool" where
  "isDowntreamNamespaceEmpty informers notSynced ns =
     (if notSynced \<noteq> [] then Inl (Failure ''some informers are still not synced in the downstream informer factory'')
      else empty_loop informers ns)"

text \<open>The new table, the namespaces whose deletion was requested, and the error.\<close>

definition processDelayed ::
  "(string \<Rightarrow> go_error + bool) \<Rightarrow> (string \<Rightarrow> go_error option) \<Rightarrow> string \<Rightarrow> time gomap
   \<Rightarrow> time gomap \<times> string list \<times> go_error option" where
  "processDelayed isEmpty deleteDownstreamNamespace key toDeleteMap =
     (if \<not> isPlannedForCleaning key toDeleteMap then (toDeleteMap, [], None)
      else case isEmpty key of
        Inl e \<Rightarrow> (toDeleteMap, [], Some e)
      | Inr False \<Rightarrow> (toDeleteMap, [], None)
      | Inr True \<Rightarrow>
          (case deleteDownstreamNamespace key of
             None \<Rightarrow> (CancelCleaning key toDeleteMap, [key], None)
           | Some NotFound \<Rightarrow> (CancelCleaning key toDeleteMap, [key], None)
           | Some e \<Rightarrow> (toDeleteMap, [key], Some e)))"

section \<open>The DNS table and the reconciliation of a namespace\<close>

record config_map =
  cm_Name :: string
  cm_Namespace :: string
  cm_Data :: "(string \<times> string) list"

datatype namespace_call = CMUpdate config_map | CMCreate config_map | NSDelayed "string queue_call"

text \<open>The entry that one downstream namespace adds to the table.\<close>

definition dns_entry :: "json_lib \<Rightarrow> string \<Rightarrow> unstr \<Rightarrow> (string \<times> string) list \<Rightarrow> (string \<times> string) list" where
  "dns_entry J clusterName ns data =
     (if Annotations ns = None then data
      else case LocatorFromAnnotations J (Annotations ns) of
        Inl e \<Rightarrow> data
      | Inr None \<Rightarrow> data
      | Inr (Some locator) \<Rightarrow>
          if nl_ClusterName locator = clusterName then go_put (nl_Namespace locator) (Name ns) data else data)"

record downstream_env =
  de_json :: json_lib
  de_syncTargetName :: string
  de_syncTargetUID :: string
  de_dnsNamespace :: string
  de_cleanDelay :: duration
  de_split :: "string \<Rightarrow> go_error + (string \<times> string)"         \<comment> \<open>\<open>cache.SplitMetaNamespaceKey\<close>\<close>
  de_getNamespace :: "string \<Rightarrow> go_error + unstr"
  de_listNamespaces :: "go_error + unstr list"
  de_shardAccess :: "string \<Rightarrow> go_error + (go_error + (string \<Rightarrow> go_error + unstr)) option"
    \<comment> \<open>the namespace lister of the shard of a cluster\<close>
  de_answer :: "namespace_call \<Rightarrow> go_error option"

definition updateDNSConfigMap :: "downstream_env \<Rightarrow> string \<Rightarrow> (namespace_call, unit) calls" where
  "updateDNSConfigMap C clusterName =
     andThen (lift_err (de_listNamespaces C)) (\<lambda>namespaces.
     let data = fold (dns_entry (de_json C) clusterName) namespaces [] in
     andThen (lift_err (GetDNSID (de_json C) clusterName (de_syncTargetUID C) (de_syncTargetName C))) (\<lambda>configMapName.
     let cm = \<lparr>cm_Name = configMapName, cm_Namespace = de_dnsNamespace C, cm_Data = data\<rparr> in
     if de_answer C (CMUpdate cm) = Some NotFound
     then andThen ([CMUpdate cm], Inr ()) (\<lambda>_. send_call (de_answer C) (CMCreate cm))
     else send_call (de_answer C) (CMUpdate cm)))"

definition upstreamNamespaceExists :: "downstream_env \<Rightarrow> string \<Rightarrow> string \<Rightarrow> go_error + bool" where
  "upstreamNamespaceExists C clusterName upstreamNamespaceName =
     bindE (de_shardAccess C clusterName) (\<lambda>access.
       case access of
         None \<Rightarrow> Inl (Failure ''shard-related clients not found for cluster'')
       | Some informer \<Rightarrow>
           bindE informer (\<lambda>get.
             case get upstreamNamespaceName of
               Inl NotFound \<Rightarrow> Inr False | Inl e \<Rightarrow> Inl e | Inr _ \<Rightarrow> Inr True))"

text \<open>The new table, the calls and the error; errors that are only logged return nil.\<close>

definition downstream_process ::
  "downstream_env \<Rightarrow> time \<Rightarrow> string \<Rightarrow> time gomap \<Rightarrow> time gomap \<times> namespace_call list \<times> go_error option" where
  "downstream_process C now key toDeleteMap =
     (case de_split C key of
        Inl e \<Rightarrow> (toDeleteMap, [], None)
      | Inr (_, namespaceName) \<Rightarrow>
     (case de_getNamespace C namespaceName of
        Inl e \<Rightarrow> (toDeleteMap, [], None)
      | Inr downstreamNamespace \<Rightarrow>
     let namespaceLocatorJSON = go_str (Annotations downstreamNamespace) NamespaceLocatorAnnotation in
     if namespaceLocatorJSON = [] then (toDeleteMap, [], None)
     else case unmarshal_locator (de_json C) namespaceLocatorJSON of
        Inl e \<Rightarrow> (toDeleteMap, [], None)
      | Inr nsLocator \<Rightarrow>
     if stl_UID (nl_SyncTarget nsLocator) \<noteq> de_syncTargetUID C then (toDeleteMap, [], None)
     else case updateDNSConfigMap C (nl_ClusterName nsLocator) of
        (cs, Inl e) \<Rightarrow> (toDeleteMap, cs, Some e)
      | (cs, Inr _) \<Rightarrow>
     if DeletionTimestamp downstreamNamespace \<noteq> None then (toDeleteMap, cs, None)
     else case upstreamNamespaceExists C (nl_ClusterName nsLocator) (nl_Namespace nsLocator) of
        Inl e \<Rightarrow> (toDeleteMap, cs, None)
      | Inr False \<Rightarrow>
          (case PlanCleaning (de_cleanDelay C) now key toDeleteMap of (m, qs) \<Rightarrow> (m, cs @ map NSDelayed qs, None))
      | Inr True \<Rightarrow> (CancelCleaning key toDeleteMap, cs, None)))"


section \<open>The interface of the cleaner\<close>

datatype cleaner_call = PlanCall string | CancelCall string

fun call_key :: "cleaner_call \<Rightarrow> string" where
  "call_key (PlanCall k) = k"
| "call_key (CancelCall k) = k"

text \<open>A sequence of calls with the instants at which they are made.\<close>

fun run_cleaner ::
  "(time \<Rightarrow> string \<Rightarrow> 's \<Rightarrow> 's) \<Rightarrow> (string \<Rightarrow> 's \<Rightarrow> 's) \<Rightarrow> (time \<times> cleaner_call) list \<Rightarrow> 's \<Rightarrow> 's" where
  "run_cleaner plan cancel [] s = s"
| "run_cleaner plan cancel ((t, PlanCall k) # cs) s = run_cleaner plan cancel cs (plan t k s)"
| "run_cleaner plan cancel ((t, CancelCall k) # cs) s = run_cleaner plan cancel cs (cancel k s)"

locale cleaner =
  fixes plan :: "time \<Rightarrow> string \<Rightarrow> 's \<Rightarrow> 's"
    and cancel :: "string \<Rightarrow> 's \<Rightarrow> 's"
    and planned_for :: "'s \<Rightarrow> string \<Rightarrow> time option"
  assumes plan_same: "planned_for (plan t k s) k \<noteq> None"
    and plan_other: "k' \<noteq> k \<Longrightarrow> planned_for (plan t k s) k' = planned_for s k'"
    and plan_keeps: "planned_for s k = Some u \<Longrightarrow> t \<le> u \<Longrightarrow> planned_for (plan t k s) k = Some u"
    and cancel_same: "planned_for (cancel k s) k = None"
    and cancel_other: "k' \<noteq> k \<Longrightarrow> planned_for (cancel k s) k' = planned_for s k'"
begin

text \<open>The last call about a key decides whether it is planned.\<close>

lemma planned_after_calls:
  "planned_for (run_cleaner plan cancel cs s) k \<noteq> None \<longleftrightarrow>
     (case find (\<lambda>c. call_key (snd c) = k) (rev cs) of
        None \<Rightarrow> planned_for s k \<noteq> None | Some (t, PlanCall _) \<Rightarrow> True | Some (t, CancelCall _) \<Rightarrow> False)"
proof (induction cs arbitrary: s)
  case (Cons c cs)
  obtain t call where c: "c = (t, call)" by fastforce
  have find_snoc: "find P (xs @ [x]) = (case find P xs of None \<Rightarrow> if P x then Some x else None | r \<Rightarrow> r)" for P xs and x :: "time \<times> cleaner_call"
    by (induction xs) auto
  show ?case
    using Cons plan_same plan_other cancel_same cancel_other
    by (cases call; cases "call_key call = k")
      (auto simp: c find_snoc split: option.splits cleaner_call.splits prod.splits)
qed simp

lemma plans_keep_the_first:
  assumes "planned_for s k = Some u" "\<forall>(t, c) \<in> set cs. c = PlanCall k \<and> t \<le> u"
  shows "planned_for (run_cleaner plan cancel cs s) k = Some u"
  using assms
proof (induction cs arbitrary: s)
  case (Cons c cs)
  obtain t call where "c = (t, call)" by fastforce
  with Cons plan_keeps show ?case by auto
qed simp

end

lemma PlanCleaning_get:
  "go_get (fst (PlanCleaning d now key m)) k =
     (if k = key \<and> (case go_get m key of None \<Rightarrow> True | Some t \<Rightarrow> t < now) then Some (now + d) else go_get m k)"
  by (auto simp: PlanCleaning_def split: option.splits)

interpretation downstream_cleaner: cleaner
  "\<lambda>now key m. fst (PlanCleaning d now key m)" CancelCleaning go_get for d
  by unfold_locales (auto simp: PlanCleaning_get CancelCleaning_def split: option.splits)

section \<open>Concurrent cleaning\<close>

text \<open>
  A worker of the delayed queue is between two of the calls of \<open>processDelayed\<close>: it has taken a key,
  has seen it planned, has seen the namespace empty, or has deleted the namespace.
\<close>

datatype worker_pc = Idle | Taken string | Planned string | Empty string | Deleted string

record clean_state =
  cl_now :: time
  cl_map :: "time gomap"
  cl_queue :: "(string \<times> time) list"      \<comment> \<open>delayed queue: keys and the instants from which they are due\<close>
  cl_worker :: "nat \<Rightarrow> worker_pc"
  cl_plans :: "(string \<times> time) list"      \<comment> \<open>history: the calls of \<open>PlanCleaning\<close> that started a delay\<close>
  cl_deleted :: "(string \<times> time) list"    \<comment> \<open>history: the deletions requested\<close>

text \<open>What a call on the delayed queue adds to it: the key and the instant from which it is due.\<close>

fun queue_due :: "time \<Rightarrow> string queue_call \<Rightarrow> (string \<times> time) list" where
  "queue_due now (QAddAfter key delay) = [(key, now + delay)]"
| "queue_due now (QAddRateLimited key) = [(key, now)]"
| "queue_due now (QAdd key) = [(key, now)]"
| "queue_due now _ = []"

definition plan_state :: "duration \<Rightarrow> string \<Rightarrow> clean_state \<Rightarrow> clean_state" where
  "plan_state d key s =
     (case PlanCleaning d (cl_now s) key (cl_map s) of (m, qs) \<Rightarrow>
        s\<lparr>cl_map := m, cl_queue := concat (map (queue_due (cl_now s)) qs) @ cl_queue s,
          cl_plans := map (\<lambda>_. (key, cl_now s)) qs @ cl_plans s\<rparr>)"

inductive clean_step :: "duration \<Rightarrow> clean_state \<Rightarrow> clean_state \<Rightarrow> bool" for d where
  Tick: "0 \<le> e \<Longrightarrow> clean_step d s (s\<lparr>cl_now := cl_now s + e\<rparr>)"
| Plan: "clean_step d s (plan_state d key s)"
| Cancel: "clean_step d s (s\<lparr>cl_map := CancelCleaning key (cl_map s)\<rparr>)"
| Take: "cl_worker s w = Idle \<Longrightarrow> (key, due) \<in> set (cl_queue s) \<Longrightarrow> due \<le> cl_now s \<Longrightarrow>
    clean_step d s (s\<lparr>cl_queue := remove1 (key, due) (cl_queue s), cl_worker := (cl_worker s)(w := Taken key)\<rparr>)"
| Check: "cl_worker s w = Taken key \<Longrightarrow>
    clean_step d s (s\<lparr>cl_worker := (cl_worker s)(w := if isPlannedForCleaning key (cl_map s) then Planned key else Idle)\<rparr>)"
| IsEmpty: "cl_worker s w = Planned key \<Longrightarrow>
    clean_step d s (s\<lparr>cl_worker := (cl_worker s)(w := if nothing_left then Empty key else Idle)\<rparr>)"
| EmptyError: "cl_worker s w = Planned key \<Longrightarrow>
    clean_step d s (s\<lparr>cl_queue := (key, cl_now s) # cl_queue s, cl_worker := (cl_worker s)(w := Idle)\<rparr>)"
| Delete: "cl_worker s w = Empty key \<Longrightarrow>
    clean_step d s (s\<lparr>cl_deleted := (key, cl_now s) # cl_deleted s, cl_worker := (cl_worker s)(w := Deleted key)\<rparr>)"
| DeleteError: "cl_worker s w = Empty key \<Longrightarrow>
    clean_step d s (s\<lparr>cl_deleted := (key, cl_now s) # cl_deleted s, cl_queue := (key, cl_now s) # cl_queue s,
      cl_worker := (cl_worker s)(w := Idle)\<rparr>)"
| Finish: "cl_worker s w = Deleted key \<Longrightarrow>
    clean_step d s (s\<lparr>cl_map := CancelCleaning key (cl_map s), cl_worker := (cl_worker s)(w := Idle)\<rparr>)"

definition clean_init :: "time \<Rightarrow> clean_state" where
  "clean_init t = \<lparr>cl_now = t, cl_map = Some [], cl_queue = [], cl_worker = (\<lambda>_. Idle), cl_plans = [], cl_deleted = []\<rparr>"

abbreviation clean_reachable :: "duration \<Rightarrow> time \<Rightarrow> clean_state \<Rightarrow> bool" where
  "clean_reachable d t s \<equiv> (clean_step d)\<^sup>*\<^sup>* (clean_init t) s"


lemma clean_reach: "(clean_step d)\<^sup>*\<^sup>* s s1 \<Longrightarrow> clean_step d s1 s2 \<Longrightarrow> (clean_step d)\<^sup>*\<^sup>* s s2"
  by (rule rtranclp.rtrancl_into_rtrancl)

text \<open>Without interference, the steps of a worker compute \<open>processDelayed\<close>.\<close>

lemma uninterrupted_processDelayed:
  assumes w: "cl_worker s w = Taken key"
    and p: "processDelayed isEmpty delete key (cl_map s) = (m, ds, err)"
  shows "\<exists>s'. (clean_step d)\<^sup>*\<^sup>* s s' \<and> cl_map s' = m \<and> cl_worker s' w = Idle
    \<and> cl_deleted s' = map (\<lambda>k. (k, cl_now s)) ds @ cl_deleted s
    \<and> cl_queue s' = (if err = None then [] else [(key, cl_now s)]) @ cl_queue s"
proof (cases "isPlannedForCleaning key (cl_map s)")
  case False
  with p Check [OF w, of d] show ?thesis
    by (intro exI [of _ "s\<lparr>cl_worker := (cl_worker s)(w := Idle)\<rparr>"]) (auto simp: processDelayed_def)
next
  case planned: True
  define s1 where "s1 = s\<lparr>cl_worker := (cl_worker s)(w := Planned key)\<rparr>"
  from Check [OF w, of d] planned have one: "(clean_step d)\<^sup>*\<^sup>* s s1" by (auto simp: s1_def)
  have w1: "cl_worker s1 w = Planned key" by (simp add: s1_def)
  note two = clean_reach [OF one]
  show ?thesis
  proof (cases "isEmpty key")
    case (Inl e)
    with planned p have "m = cl_map s" "ds = []" "err = Some e" by (simp_all add: processDelayed_def)
    with two [OF EmptyError [OF w1]] show ?thesis by - (rule exI, rule conjI, assumption, simp add: s1_def)
  next
    case (Inr nothing_left)
    define s2 where "s2 = s1\<lparr>cl_worker := (cl_worker s1)(w := Empty key)\<rparr>"
    from two [OF IsEmpty [OF w1, of _ True]] have at2: "(clean_step d)\<^sup>*\<^sup>* s s2" by (simp add: s2_def)
    have w2: "cl_worker s2 w = Empty key" by (simp add: s2_def)
    note three = clean_reach [OF at2]
    define s3 where "s3 = s2\<lparr>cl_deleted := (key, cl_now s2) # cl_deleted s2, cl_worker := (cl_worker s2)(w := Deleted key)\<rparr>"
    from three [OF Delete [OF w2]] have at3: "(clean_step d)\<^sup>*\<^sup>* s s3" by (simp add: s3_def)
    have w3: "cl_worker s3 w = Deleted key" by (simp add: s3_def)
    note four = clean_reach [OF at3 Finish [OF w3]]
    show ?thesis
    proof (cases nothing_left)
      case False
      with planned Inr p have "m = cl_map s" "ds = []" "err = None" by (simp_all add: processDelayed_def)
      with two [OF IsEmpty [OF w1, of _ False]] show ?thesis by - (rule exI, rule conjI, assumption, simp add: s1_def)
    next
      case True
      show ?thesis
      proof (cases "delete key = None \<or> delete key = Some NotFound")
        case True
        with planned Inr p \<open>nothing_left\<close> have "m = CancelCleaning key (cl_map s)" "ds = [key]" "err = None"
          by (auto simp: processDelayed_def)
        with four show ?thesis by - (rule exI, rule conjI, assumption, simp add: s1_def s2_def s3_def)
      next
        case False
        with planned Inr p \<open>nothing_left\<close> have "m = cl_map s" "ds = [key]" "err = delete key" "delete key \<noteq> None"
          by (auto simp: processDelayed_def split: option.splits go_error.splits)
        with three [OF DeleteError [OF w2]] show ?thesis by - (rule exI, rule conjI, assumption, simp add: s1_def s2_def)
      qed
    qed
  qed
qed

fun held :: "worker_pc \<Rightarrow> string option" where
  "held Idle = None"
| "held (Taken k) = Some k"
| "held (Planned k) = Some k"
| "held (Empty k) = Some k"
| "held (Deleted k) = Some k"

text \<open>A delay that started at least \<open>d\<close> before an instant.\<close>

definition waited :: "duration \<Rightarrow> clean_state \<Rightarrow> string \<Rightarrow> time \<Rightarrow> bool" where
  "waited d s k t \<longleftrightarrow> (\<exists>u. (k, u) \<in> set (cl_plans s) \<and> u + d \<le> t)"

definition clean_inv :: "duration \<Rightarrow> clean_state \<Rightarrow> bool" where
  "clean_inv d s \<longleftrightarrow>
     (\<forall>(k, due) \<in> set (cl_queue s). waited d s k due)
   \<and> (\<forall>w k. held (cl_worker s w) = Some k \<longrightarrow> waited d s k (cl_now s))
   \<and> (\<forall>(k, t) \<in> set (cl_deleted s). waited d s k t)"

lemma waited_mono: "waited d s k t \<Longrightarrow> set (cl_plans s) \<subseteq> set (cl_plans s') \<Longrightarrow> t \<le> t' \<Longrightarrow> waited d s' k t'"
  by (fastforce simp: waited_def)

lemma held_worker [intro]:
  "cl_worker s w = Taken k \<Longrightarrow> \<exists>w. held (cl_worker s w) = Some k"
  "cl_worker s w = Planned k \<Longrightarrow> \<exists>w. held (cl_worker s w) = Some k"
  "cl_worker s w = Empty k \<Longrightarrow> \<exists>w. held (cl_worker s w) = Some k"
  "cl_worker s w = Deleted k \<Longrightarrow> \<exists>w. held (cl_worker s w) = Some k"
  by (rule exI [of _ w], simp)+

lemma clean_inv_next:
  assumes inv: "clean_inv d s" and sub: "set (cl_plans s) \<subseteq> set (cl_plans s')" and now: "cl_now s \<le> cl_now s'"
    and queue: "\<And>k due. (k, due) \<in> set (cl_queue s') \<Longrightarrow> (k, due) \<in> set (cl_queue s)
      \<or> (due = cl_now s \<and> (\<exists>w. held (cl_worker s w) = Some k)) \<or> (k, due - d) \<in> set (cl_plans s')"
    and worker: "\<And>w k. held (cl_worker s' w) = Some k \<Longrightarrow> (\<exists>w. held (cl_worker s w) = Some k)
      \<or> (\<exists>due \<le> cl_now s. (k, due) \<in> set (cl_queue s))"
    and deleted: "\<And>k t. (k, t) \<in> set (cl_deleted s') \<Longrightarrow> (k, t) \<in> set (cl_deleted s)
      \<or> (t = cl_now s \<and> (\<exists>w. held (cl_worker s w) = Some k))"
  shows "clean_inv d s'"
proof -
  have q: "waited d s k due" if "(k, due) \<in> set (cl_queue s)" for k due using that inv by (auto simp: clean_inv_def)
  have h: "waited d s k (cl_now s)" if "held (cl_worker s w) = Some k" for k w using that inv by (auto simp: clean_inv_def)
  have dl: "waited d s k t" if "(k, t) \<in> set (cl_deleted s)" for k t using that inv by (auto simp: clean_inv_def)
  have new: "waited d s' k due" if "(k, due - d) \<in> set (cl_plans s')" for k due using that by (force simp: waited_def)
  note up = waited_mono [OF _ sub]
  have "waited d s' k due" if "(k, due) \<in> set (cl_queue s')" for k due
    using queue [OF that] q h new up [OF _ order_refl] by blast
  moreover have "waited d s' k (cl_now s')" if "held (cl_worker s' w) = Some k" for k w
    using worker [OF that] up [OF h now] up [OF q] now by (meson order_trans)
  moreover have "waited d s' k t" if "(k, t) \<in> set (cl_deleted s')" for k t
    using deleted [OF that] dl h up [OF _ order_refl] by blast
  ultimately show ?thesis by (auto simp: clean_inv_def)
qed

lemma clean_inv_step:
  assumes step: "clean_step d s s'" and inv: "clean_inv d s"
  shows "clean_inv d s'"
proof (rule clean_inv_next [OF inv])
  show "set (cl_plans s) \<subseteq> set (cl_plans s')" "cl_now s \<le> cl_now s'"
    using step by (cases rule: clean_step.cases; auto simp: plan_state_def split: prod.splits)+
  show "(k, due) \<in> set (cl_queue s) \<or> (due = cl_now s \<and> (\<exists>w. held (cl_worker s w) = Some k)) \<or> (k, due - d) \<in> set (cl_plans s')"
    if "(k, due) \<in> set (cl_queue s')" for k due
    using step that
    by (cases rule: clean_step.cases)
      (auto simp: plan_state_def PlanCleaning_def split: if_splits dest: notin_set_remove1)
  show "(\<exists>w. held (cl_worker s w) = Some k) \<or> (\<exists>due \<le> cl_now s. (k, due) \<in> set (cl_queue s))"
    if "held (cl_worker s' w) = Some k" for w k
    using step that
    by (cases rule: clean_step.cases) (auto simp: plan_state_def split: if_splits prod.splits intro: exI [where x = w])
  show "(k, t) \<in> set (cl_deleted s) \<or> (t = cl_now s \<and> (\<exists>w. held (cl_worker s w) = Some k))"
    if "(k, t) \<in> set (cl_deleted s')" for k t
    using step that
    by (cases rule: clean_step.cases) (auto simp: plan_state_def split: if_splits prod.splits)
qed

lemma clean_inv_reachable: "clean_reachable d t s \<Longrightarrow> clean_inv d s"
proof (induction rule: rtranclp_induct)
  case base
  show ?case by (simp add: clean_init_def clean_inv_def)
qed (rule clean_inv_step)


lemma empty_loop_true: "empty_loop informers ns = Inr True \<Longrightarrow> \<forall>(r, lister) \<in> set informers. r \<noteq> ns_gvr \<longrightarrow> lister ns = Inr []"
  by (induction informers ns rule: empty_loop.induct) (auto simp: bindE_Inr split: if_splits)

text \<open>
  C11: A downstream namespace is deleted only if its cleaning was planned and the clean delay has passed
  since: in every state that the planners, the cancellers and any number of delayed workers can reach
  together, each requested deletion was preceded by a \<open>PlanCleaning\<close> of that namespace at least
  \<open>namespaceCleanDelay\<close> earlier. And a single run of a worker requests the deletion only of its own key,
  only when the key is planned, and only if every informer but that of the namespaces has answered that
  the namespace is empty.
\<close>

theorem cleaning_waits_delay:
  assumes "clean_reachable d start s"
  shows "(\<forall>(key, t) \<in> set (cl_deleted s). \<exists>u. (key, u) \<in> set (cl_plans s) \<and> u + d \<le> t)
    \<and> (k \<in> set (fst (snd (processDelayed (isDowntreamNamespaceEmpty informers notSynced) delete key m)))
       \<longrightarrow> k = key \<and> isPlannedForCleaning key m \<and> notSynced = []
         \<and> (\<forall>(r, lister) \<in> set informers. r \<noteq> ns_gvr \<longrightarrow> lister key = Inr []))"
proof
  show "\<forall>(key, t) \<in> set (cl_deleted s). \<exists>u. (key, u) \<in> set (cl_plans s) \<and> u + d \<le> t"
    using clean_inv_reachable [OF assms] by (auto simp: clean_inv_def waited_def)
next
  show "k \<in> set (fst (snd (processDelayed (isDowntreamNamespaceEmpty informers notSynced) delete key m)))
      \<longrightarrow> k = key \<and> isPlannedForCleaning key m \<and> notSynced = []
        \<and> (\<forall>(r, lister) \<in> set informers. r \<noteq> ns_gvr \<longrightarrow> lister key = Inr [])"
    using empty_loop_true [of informers key]
    by (auto simp: processDelayed_def isDowntreamNamespaceEmpty_def split: if_splits sum.splits bool.splits option.splits go_error.splits)
qed

lemma dns_table_sound:
  assumes "map_of (fold (dns_entry J clusterName) nss data) n = Some name"
  shows "map_of data n = Some name \<or> (\<exists>ns \<in> set nss. Name ns = name \<and>
    (\<exists>l. LocatorFromAnnotations J (Annotations ns) = Inr (Some l) \<and> nl_ClusterName l = clusterName \<and> nl_Namespace l = n))"
  using assms
proof (induction nss arbitrary: data)
  case (Cons ns nss)
  from Cons.IH [of "dns_entry J clusterName ns data"] Cons.prems
  consider "map_of (dns_entry J clusterName ns data) n = Some name"
    | "\<exists>ns \<in> set nss. Name ns = name \<and>
        (\<exists>l. LocatorFromAnnotations J (Annotations ns) = Inr (Some l) \<and> nl_ClusterName l = clusterName \<and> nl_Namespace l = n)"
    by auto
  then show ?case
  proof cases
    case 1
    then show ?thesis
      by (auto simp: dns_entry_def go_put_def update_conv' split: if_splits sum.splits option.splits)
  qed auto
qed simp

lemma updateDNSConfigMap_calls:
  assumes "c \<in> set (fst (updateDNSConfigMap C clusterName))"
  shows "\<exists>nss cm. de_listNamespaces C = Inr nss \<and> (c = CMUpdate cm \<or> c = CMCreate cm)
    \<and> cm_Data cm = fold (dns_entry (de_json C) clusterName) nss []
    \<and> GetDNSID (de_json C) clusterName (de_syncTargetUID C) (de_syncTargetName C) = Inr (cm_Name cm)"
proof (cases "de_listNamespaces C")
  case (Inr nss)
  show ?thesis
  proof (cases "GetDNSID (de_json C) clusterName (de_syncTargetUID C) (de_syncTargetName C)")
    case name: (Inr name)
    from assms Inr name show ?thesis
      by (auto simp: updateDNSConfigMap_def fst_andThen Let_def split: sum.splits if_splits)
  qed (use assms Inr in \<open>simp add: updateDNSConfigMap_def\<close>)
qed (use assms in \<open>simp add: updateDNSConfigMap_def\<close>)

lemma downstream_process_calls:
  assumes "downstream_process C now key m = (m', cs, err)" "c \<in> set cs" "\<forall>q. c \<noteq> NSDelayed q"
  shows "\<exists>clusterName. c \<in> set (fst (updateDNSConfigMap C clusterName))"
  using assms
  by (auto simp: downstream_process_def Let_def split: sum.splits prod.splits if_splits bool.splits) (metis fst_conv)+

lemma downstream_process_table:
  assumes "downstream_process C now key m = (m', cs, err)" "go_get m' k \<noteq> go_get m k"
  shows "k = key \<and> (\<exists>p ns l upstream. de_split C key = Inr p \<and> de_getNamespace C (snd p) = Inr ns \<and> DeletionTimestamp ns = None
    \<and> unmarshal_locator (de_json C) (go_str (Annotations ns) NamespaceLocatorAnnotation) = Inr l
    \<and> stl_UID (nl_SyncTarget l) = de_syncTargetUID C
    \<and> upstreamNamespaceExists C (nl_ClusterName l) (nl_Namespace l) = Inr upstream
    \<and> isPlannedForCleaning key m' = (\<not> upstream))"
  using assms PlanCleaning_get [of "de_cleanDelay C" now key m] 
  by (auto simp: downstream_process_def CancelCleaning_def isPlannedForCleaning_def go_has_def Let_def
      split: sum.splits prod.splits if_splits bool.splits option.splits)

text \<open>
  A reconciliation of a downstream namespace touches the table of planned cleanings only at its own
  key and only for a namespace that carries a locator with the UID of this sync target and is not being
  deleted itself; afterwards the key is planned if the upstream namespace does not exist, and not planned
  if it exists. A namespace of another sync target is never planned. Every table of names written to a
  DNS ConfigMap maps an upstream namespace only to a downstream namespace whose locator names it, and
  names the workspace that the ConfigMap is for.
\<close>

theorem namespace_cleaning_decision:
  assumes run: "downstream_process C now key m = (m', cs, err)"
  shows "(\<forall>k. go_get m' k \<noteq> go_get m k \<longrightarrow> k = key \<and>
      (\<exists>p ns l upstream. de_split C key = Inr p \<and> de_getNamespace C (snd p) = Inr ns \<and> DeletionTimestamp ns = None
        \<and> unmarshal_locator (de_json C) (go_str (Annotations ns) NamespaceLocatorAnnotation) = Inr l
        \<and> stl_UID (nl_SyncTarget l) = de_syncTargetUID C
        \<and> upstreamNamespaceExists C (nl_ClusterName l) (nl_Namespace l) = Inr upstream
        \<and> isPlannedForCleaning key m' = (\<not> upstream)))
    \<and> (\<forall>cm n name. (CMUpdate cm \<in> set cs \<or> CMCreate cm \<in> set cs) \<and> map_of (cm_Data cm) n = Some name \<longrightarrow>
          (\<exists>nss ns l. de_listNamespaces C = Inr nss \<and> ns \<in> set nss \<and> Name ns = name
            \<and> LocatorFromAnnotations (de_json C) (Annotations ns) = Inr (Some l) \<and> nl_Namespace l = n
            \<and> GetDNSID (de_json C) (nl_ClusterName l) (de_syncTargetUID C) (de_syncTargetName C) = Inr (cm_Name cm)))"
proof (intro conjI allI impI; (elim conjE)?)
  fix cm n name
  assume cm: "CMUpdate cm \<in> set cs \<or> CMCreate cm \<in> set cs" and n: "map_of (cm_Data cm) n = Some name"
  from cm obtain clusterName where
    "CMUpdate cm \<in> set (fst (updateDNSConfigMap C clusterName)) \<or> CMCreate cm \<in> set (fst (updateDNSConfigMap C clusterName))"
    using downstream_process_calls [OF run] by blast
  then obtain nss where "de_listNamespaces C = Inr nss" "cm_Data cm = fold (dns_entry (de_json C) clusterName) nss []"
    "GetDNSID (de_json C) clusterName (de_syncTargetUID C) (de_syncTargetName C) = Inr (cm_Name cm)"
    by (auto dest: updateDNSConfigMap_calls)
  with n dns_table_sound [of "de_json C" clusterName nss "[]" n name]
  show "\<exists>nss ns l. de_listNamespaces C = Inr nss \<and> ns \<in> set nss \<and> Name ns = name
      \<and> LocatorFromAnnotations (de_json C) (Annotations ns) = Inr (Some l) \<and> nl_Namespace l = n
      \<and> GetDNSID (de_json C) (nl_ClusterName l) (de_syncTargetUID C) (de_syncTargetName C) = Inr (cm_Name cm)"
    by auto
qed (use downstream_process_table [OF run] in blast)+

section \<open>Examples and races\<close>

text \<open>The clock after a plan, a cancellation and a full delay; then the second plan, and the worker.\<close>

definition replanned :: "duration \<Rightarrow> string \<Rightarrow> clean_state" where
  "replanned d k = plan_state d k ((plan_state d k (clean_init 0))
     \<lparr>cl_map := CancelCleaning k (cl_map (plan_state d k (clean_init 0))), cl_now := d\<rparr>)"

definition at_worker :: "worker_pc \<Rightarrow> (string \<times> time) list \<Rightarrow> clean_state \<Rightarrow> clean_state" where
  "at_worker pc q s = s\<lparr>cl_queue := q, cl_worker := (cl_worker s)(0 := pc)\<rparr>"

lemma replanned_state:
  "replanned d k = \<lparr>cl_now = d, cl_map = Some [(k, d + d)], cl_queue = [(k, d + d), (k, d)], cl_worker = (\<lambda>_. Idle),
     cl_plans = [(k, d), (k, 0)], cl_deleted = []\<rparr>"
  by (simp add: replanned_def plan_state_def PlanCleaning_def clean_init_def CancelCleaning_def go_put_def go_get_def go_del_def)

lemma replanned_reachable: "0 \<le> d \<Longrightarrow> clean_reachable d 0 (replanned d k)"
proof -
  assume d: "0 \<le> d"
  let ?p = "plan_state d k (clean_init 0)"
  let ?c = "?p\<lparr>cl_map := CancelCleaning k (cl_map ?p)\<rparr>"
  have now: "cl_now ?c = 0" by (simp add: plan_state_def PlanCleaning_def clean_init_def)
  have "clean_reachable d 0 ?p" by (rule clean_reach [OF rtranclp.rtrancl_refl Plan])
  from clean_reach [OF this Cancel] have "clean_reachable d 0 ?c" .
  from clean_reach [OF this Tick [OF d]] now
  have "clean_reachable d 0 (?c\<lparr>cl_now := d\<rparr>)" by simp
  from clean_reach [OF this Plan [of d _ k]] show ?thesis by (simp add: replanned_def)
qed

lemma worker_reachable:
  assumes "0 < d"
  shows "clean_reachable d 0 (at_worker (Empty k) [(k, d + d)] (replanned d k))"
proof -
  let ?at = "\<lambda>pc. at_worker pc [(k, d + d)] (replanned d k)"
  have "clean_step d (replanned d k) (?at (Taken k))"
    using Take [of "replanned d k" 0 k d d] assms by (auto simp: replanned_state at_worker_def)
  moreover have "clean_step d (?at (Taken k)) (?at (Planned k))"
    using Check [of "?at (Taken k)" 0 k d] by (simp add: replanned_state at_worker_def isPlannedForCleaning_def go_has_def go_get_def)
  moreover have "clean_step d (?at (Planned k)) (?at (Empty k))"
    using IsEmpty [of "?at (Planned k)" 0 k d True] by (simp add: replanned_state at_worker_def)
  ultimately show ?thesis
    using replanned_reachable [of d k] assms by (meson less_imp_le clean_reach)
qed

text \<open>
  The table is consulted once, and the planned instant is never compared with the clock. For every
  positive delay there is a run in which a namespace is deleted before the instant that the table
  holds for it (planned, cancelled and planned again: the entry of the first plan is still in the
  delayed queue), and a run in which it is deleted although its cleaning has been cancelled by the time
  of the deletion (the cancellation falls between the check of the worker and its delete call).
\<close>

theorem cleaning_races:
  assumes "0 < d"
  shows "(\<exists>s s' t. clean_reachable d 0 s \<and> clean_step d s s' \<and> cl_deleted s' = (k, cl_now s) # cl_deleted s
      \<and> go_get (cl_map s) k = Some t \<and> cl_now s < t)
    \<and> (\<exists>s s'. clean_reachable d 0 s \<and> clean_step d s s' \<and> cl_deleted s' = (k, cl_now s) # cl_deleted s
      \<and> \<not> isPlannedForCleaning k (cl_map s))"
proof -
  let ?s = "at_worker (Empty k) [(k, d + d)] (replanned d k)"
  let ?c = "?s\<lparr>cl_map := CancelCleaning k (cl_map ?s)\<rparr>"
  have w: "cl_worker ?s 0 = Empty k" "cl_worker ?c 0 = Empty k" by (simp_all add: at_worker_def)
  have c: "clean_reachable d 0 ?c"
    by (rule clean_reach [OF worker_reachable [OF assms] Cancel])
  have "\<exists>s'. clean_step d ?s s' \<and> cl_deleted s' = (k, cl_now ?s) # cl_deleted ?s"
    by (rule exI, rule conjI, rule Delete [where w = 0], rule w, simp)
  moreover have "\<exists>s'. clean_step d ?c s' \<and> cl_deleted s' = (k, cl_now ?c) # cl_deleted ?c"
    by (rule exI, rule conjI, rule Delete [where w = 0], rule w, simp)
  moreover have "go_get (cl_map ?s) k = Some (d + d)" "cl_now ?s < d + d" "\<not> isPlannedForCleaning k (cl_map ?c)"
    using assms by (simp_all add: at_worker_def replanned_state go_get_def isPlannedForCleaning_def CancelCleaning_def go_has_def go_del_def)
  ultimately show ?thesis using worker_reachable [OF assms] c by blast
qed

theorem cleaning_waits_delay_witness:
  "(\<exists>u. (''ns'', u) \<in> set (cl_plans (at_worker (Empty ''ns'') [(''ns'', 10)] (replanned 5 ''ns''))) \<and> u + 5 \<le> 5)
   \<and> processDelayed (isDowntreamNamespaceEmpty [(ns_gvr, \<lambda>_. Inl Conflict)] []) (\<lambda>_. None) ''ns'' (Some [(''ns'', 3)])
     = (Some [], [''ns''], None)"
proof -
  let ?s = "at_worker (Empty ''ns'') [(''ns'', 10)] (replanned 5 ''ns'')"
  have w: "cl_worker ?s 0 = Empty ''ns''" by (simp add: at_worker_def)
  have r: "clean_reachable 5 0 ?s" using worker_reachable [of 5 "''ns''"] by simp
  show ?thesis
    using cleaning_waits_delay [OF clean_reach [OF r Delete [of _ 0, OF w]],
        of "''ns''" "[(ns_gvr, \<lambda>_. Inl Conflict)]" "[]" "\<lambda>_. None" "''ns''" "Some [(''ns'', 3)]"]
    by (simp add: at_worker_def replanned_state processDelayed_def isDowntreamNamespaceEmpty_def isPlannedForCleaning_def
        go_has_def go_get_def go_del_def CancelCleaning_def)
qed

theorem cleaning_races_witness:
  "\<exists>s s'. clean_step 30 s s' \<and> cl_deleted s' = (''ns'', cl_now s) # cl_deleted s \<and> \<not> isPlannedForCleaning ''ns'' (cl_map s)"
  using cleaning_races [of 30 "''ns''"] by auto


definition ex_locator :: namespace_locator where
  "ex_locator = NewNamespaceLocator ''user'' ''root'' ''uid'' ''east'' ''shop''"

definition ex_json :: json_lib where
  "ex_json = \<lparr>marshal_locator = (\<lambda>_. Inr ''locator''),
     unmarshal_locator = (\<lambda>s. if s = ''locator'' then Inr ex_locator else Inl (Failure ''invalid'')),
     sum224 = (\<lambda>_. replicate 28 7), base36_lower = (\<lambda>_. ''0123456789abcdef'')\<rparr>"

definition ex_downstream_ns :: unstr where
  "ex_downstream_ns = \<lparr>Name = ''kcp-1'', Namespace = [], Cluster = [], UID = [], ResourceVersion = [], Labels = None,
     Annotations = Some [(NamespaceLocatorAnnotation, ''locator'')], Finalizers = [], OwnerReferences = [],
     DeletionTimestamp = None, u_Group = [], u_Version = ''v1'', u_Kind = ''Namespace'', u_ManagedFields = [],
     u_DeletionGracePeriodSeconds = None, u_content = []\<rparr>"

definition ex_downstream_env :: downstream_env where
  "ex_downstream_env = \<lparr>de_json = ex_json, de_syncTargetName = ''east'', de_syncTargetUID = ''uid'', de_dnsNamespace = ''dns'',
     de_cleanDelay = 30, de_split = (\<lambda>k. Inr ([], k)), de_getNamespace = (\<lambda>_. Inr ex_downstream_ns),
     de_listNamespaces = Inr [ex_downstream_ns], de_shardAccess = (\<lambda>_. Inr (Some (Inr (\<lambda>_. Inl NotFound)))),
     de_answer = (\<lambda>_. None)\<rparr>"

definition ex_dns_table :: config_map where
  "ex_dns_table = \<lparr>cm_Name = ''kcp-dns-east-01234567-01234567'', cm_Namespace = ''dns'', cm_Data = [(''shop'', ''kcp-1'')]\<rparr>"

lemmas ex_downstream_defs = ex_locator_def ex_json_def ex_downstream_ns_def ex_downstream_env_def ex_dns_table_def

lemma ex_downstream_process:
  "downstream_process ex_downstream_env 100 ''kcp-1'' (Some [])
   = (Some [(''kcp-1'', 130)], [CMUpdate ex_dns_table, NSDelayed (QAddAfter ''kcp-1'' 30)], None)"
  by (simp add: ex_downstream_defs downstream_process_def updateDNSConfigMap_def dns_entry_def LocatorFromAnnotations_def
      NewNamespaceLocator_def GetDNSID_def send_call_def andThen_def lift_err_def go_str_def go_get_def go_put_def Let_def
      upstreamNamespaceExists_def PlanCleaning_def)

theorem namespace_cleaning_decision_witness:
  "(\<exists>upstream. upstreamNamespaceExists ex_downstream_env ''user'' ''shop'' = Inr upstream
      \<and> isPlannedForCleaning ''kcp-1'' (Some [(''kcp-1'', 130)]) = (\<not> upstream))
   \<and> (\<exists>nss ns l. de_listNamespaces ex_downstream_env = Inr nss \<and> ns \<in> set nss \<and> Name ns = ''kcp-1'' \<and> nl_Namespace (l :: namespace_locator) = ''shop'')"
proof -
  have "unmarshal_locator (de_json ex_downstream_env) (go_str (Annotations ex_downstream_ns) NamespaceLocatorAnnotation)
      = Inr ex_locator" "nl_ClusterName ex_locator = ''user''" "nl_Namespace ex_locator = ''shop''"
      "de_split ex_downstream_env ''kcp-1'' = Inr ([], ''kcp-1'')" "de_getNamespace ex_downstream_env ''kcp-1'' = Inr ex_downstream_ns"
    by (simp_all add: ex_downstream_defs go_str_def go_get_def NewNamespaceLocator_def)
  note at = this
  note decision = namespace_cleaning_decision [OF ex_downstream_process]
  have "go_get (Some [(''kcp-1'', 130 :: time)]) ''kcp-1'' \<noteq> go_get (Some []) ''kcp-1''" by (simp add: go_get_def)
  from decision [THEN conjunct1, rule_format, OF this] at
  have "\<exists>upstream. upstreamNamespaceExists ex_downstream_env ''user'' ''shop'' = Inr upstream
      \<and> isPlannedForCleaning ''kcp-1'' (Some [(''kcp-1'', 130)]) = (\<not> upstream)" by auto
  moreover have "map_of (cm_Data ex_dns_table) ''shop'' = Some ''kcp-1''" by (simp add: ex_dns_table_def)
  with decision [THEN conjunct2, rule_format, of ex_dns_table "''shop''" "''kcp-1''"]
  have "\<exists>nss ns l. de_listNamespaces ex_downstream_env = Inr nss \<and> ns \<in> set nss \<and> Name ns = ''kcp-1'' \<and> nl_Namespace (l :: namespace_locator) = ''shop''"
    by auto
  ultimately show ?thesis by blast
qed

end
