(* ===== verification/DNS_Processor.thy ===== *)
theory DNS_Processor
  imports Syncer_Shared
begin

text \<open>
  \<^verbatim>\<open>src/pkg/syncer/spec/dns\<close>: the DNS name server that the syncer runs downstream for every workspace.
  \<open>EnsureDNSUpAndReady\<close> brings an existing Deployment to the configured image once per process, then
  reports whether the server is reachable, and creates its six objects if it has no Endpoints yet.

  The objects are records of the fields that \<open>resources.go\<close> sets in the embedded templates. Parameters:
  the listers and the answers of the API server (record \<open>dns_env\<close>).
\<close>

record endpoint_subset =
  es_Addresses :: "string list"          \<comment> \<open>IP addresses\<close>
  es_Ports :: "(int \<times> string) list"

record dns_deployment =
  dd_Name :: string
  dd_Namespace :: string
  dd_MatchLabels_app :: string
  dd_Labels_app :: string
  dd_Containers :: "(string \<times> string \<times> string list) list"   \<comment> \<open>name, image, arguments\<close>
  dd_ServiceAccountName :: string

record dns_network_policy =
  np_Name :: string
  np_Namespace :: string
  np_PodSelector_app :: string
  np_Ingress_TenantID :: string
  np_Egress_CIDRs :: "string list"
  np_Egress_Ports :: "(int \<times> string) list"

datatype dns_object =
    DnsServiceAccount (so_Name: string) string
  | DnsRole string string (ro_ResourceName: string)
  | DnsRoleBinding string string (rb_RoleRef: string) (rb_SubjectName: string) (rb_SubjectNamespace: string)
  | DnsDeployment dns_deployment
  | DnsService string string (sv_app: string) (sv_Selector_app: string)
  | DnsNetworkPolicy dns_network_policy

datatype dns_kind = KServiceAccount | KRole | KRoleBinding | KService | KNetworkPolicy

datatype dns_call = DnsCreate dns_object | DnsUpdate dns_deployment

record dns_env =
  dn_json :: json_lib
  dn_syncTargetUID :: string
  dn_syncTargetName :: string
  dn_dnsNamespace :: string
  dn_dnsImage :: string
  dn_lister :: "dns_kind \<Rightarrow> string \<Rightarrow> go_error option"       \<comment> \<open>error of \<open>Get\<close>, \<open>None\<close> if the object is found\<close>
  dn_deployment :: "string \<Rightarrow> go_error + dns_deployment"
  dn_endpoints :: "string \<Rightarrow> go_error + endpoint_subset list"
  dn_kubeEndpoints :: "go_error + endpoint_subset list"
  dn_answer :: "dns_call \<Rightarrow> go_error option"

section \<open>The objects\<close>

definition MakeServiceAccount :: "string \<Rightarrow> string \<Rightarrow> dns_object" where
  "MakeServiceAccount name ns = DnsServiceAccount name ns"

definition MakeRole :: "string \<Rightarrow> string \<Rightarrow> dns_object" where
  "MakeRole name ns = DnsRole name ns name"

definition MakeRoleBinding :: "string \<Rightarrow> string \<Rightarrow> dns_object" where
  "MakeRoleBinding name ns = DnsRoleBinding name ns name name ns"

definition MakeDeployment :: "string \<Rightarrow> string \<Rightarrow> string \<Rightarrow> dns_deployment" where
  "MakeDeployment name ns img =
     \<lparr>dd_Name = name, dd_Namespace = ns, dd_MatchLabels_app = name, dd_Labels_app = name,
      dd_Containers = [(''kcp-dns'', img, [''dns'', ''start'', ''--configmap-name'', name])],
      dd_ServiceAccountName = name\<rparr>"

definition MakeService :: "string \<Rightarrow> string \<Rightarrow> dns_object" where
  "MakeService name ns = DnsService name ns name name"

definition MakeNetworkPolicy :: "string \<Rightarrow> string \<Rightarrow> string \<Rightarrow> endpoint_subset \<Rightarrow> dns_object" where
  "MakeNetworkPolicy name ns tenantID kubeEndpoints =
     DnsNetworkPolicy \<lparr>np_Name = name, np_Namespace = ns, np_PodSelector_app = name, np_Ingress_TenantID = tenantID,
       np_Egress_CIDRs = map (\<lambda>ip. ip @ ''/32'') (es_Addresses kubeEndpoints), np_Egress_Ports = es_Ports kubeEndpoints\<rparr>"

section \<open>Creating the objects\<close>

text \<open>The common shape: look the object up, create it if it is missing, ignore that it exists already.\<close>

definition ensure_created :: "(dns_call \<Rightarrow> go_error option) \<Rightarrow> go_error option \<Rightarrow> dns_call \<Rightarrow> (dns_call, unit) calls" where
  "ensure_created answer lookup c =
     (let (cs, err) = (if lookup = Some NotFound then ([c], answer c) else ([], lookup)) in
      case err of None \<Rightarrow> (cs, Inr ()) | Some AlreadyExists \<Rightarrow> (cs, Inr ()) | Some e \<Rightarrow> (cs, Inl e))"

definition processServiceAccount :: "dns_env \<Rightarrow> string \<Rightarrow> (dns_call, unit) calls" where
  "processServiceAccount D name =
     ensure_created (dn_answer D) (dn_lister D KServiceAccount name) (DnsCreate (MakeServiceAccount name (dn_dnsNamespace D)))"

definition processRole :: "dns_env \<Rightarrow> string \<Rightarrow> (dns_call, unit) calls" where
  "processRole D name = ensure_created (dn_answer D) (dn_lister D KRole name) (DnsCreate (MakeRole name (dn_dnsNamespace D)))"

definition processRoleBinding :: "dns_env \<Rightarrow> string \<Rightarrow> (dns_call, unit) calls" where
  "processRoleBinding D name =
     ensure_created (dn_answer D) (dn_lister D KRoleBinding name) (DnsCreate (MakeRoleBinding name (dn_dnsNamespace D)))"

definition get_error :: "go_error + 'a \<Rightarrow> go_error option" where
  "get_error r = (case r of Inl e \<Rightarrow> Some e | Inr _ \<Rightarrow> None)"

definition processDeployment :: "dns_env \<Rightarrow> string \<Rightarrow> (dns_call, unit) calls" where
  "processDeployment D name =
     ensure_created (dn_answer D) (get_error (dn_deployment D name))
       (DnsCreate (DnsDeployment (MakeDeployment name (dn_dnsNamespace D) (dn_dnsImage D))))"

definition processService :: "dns_env \<Rightarrow> string \<Rightarrow> (dns_call, unit) calls" where
  "processService D name = ensure_created (dn_answer D) (dn_lister D KService name) (DnsCreate (MakeService name (dn_dnsNamespace D)))"

text \<open>
  The error of \<open>Create\<close> is assigned to the variable that \<open>tenantID, err :=\<close> declares inside the block, so
  the \<open>err\<close> tested after the block is still the nil of the successful \<open>Get\<close> of the endpoints.
\<close>

definition processNetworkPolicy :: "dns_env \<Rightarrow> string \<Rightarrow> namespace_locator \<Rightarrow> (dns_call, unit) calls" where
  "processNetworkPolicy D name namespaceLocator =
     (case dn_lister D KNetworkPolicy name of
        Some NotFound \<Rightarrow>
          andThen (lift_err (dn_kubeEndpoints D)) (\<lambda>subsets.
            case subsets of
              [] \<Rightarrow> fail (Failure ''missing kubernetes API endpoints'')
            | sub # _ \<Rightarrow>
                if es_Addresses sub = [] then fail (Failure ''missing kubernetes API endpoints'')
                else andThen (lift_err (GetTenantID (dn_json D) namespaceLocator)) (\<lambda>tenantID.
                  ([DnsCreate (MakeNetworkPolicy name (dn_dnsNamespace D) tenantID sub)], Inr ())))
      | None \<Rightarrow> okay ()
      | Some AlreadyExists \<Rightarrow> okay ()
      | Some e \<Rightarrow> fail e)"

section \<open>Updating and readiness\<close>

definition hasAtLeastOneReadyAddress :: "endpoint_subset list \<Rightarrow> bool" where
  "hasAtLeastOneReadyAddress endpoints =
     list_ex (\<lambda>s. case es_Addresses s of [] \<Rightarrow> False | ip # _ \<Rightarrow> ip \<noteq> []) endpoints"

text \<open>The index of the container, \<open>None\<close> for nil; writing through the pointer is an update at the index.\<close>

fun findContainer :: "(string \<times> string \<times> string list) list \<Rightarrow> string \<Rightarrow> nat option" where
  "findContainer [] name = None"
| "findContainer (c # containers) name = (if fst c = name then Some 0 else map_option Suc (findContainer containers name))"

definition set_image :: "string \<Rightarrow> string \<times> string \<times> string list \<Rightarrow> string \<times> string \<times> string list" where
  "set_image img c = (fst c, img, snd (snd c))"

definition mayUpdate :: "dns_env \<Rightarrow> string \<Rightarrow> (dns_call, bool) calls" where
  "mayUpdate D name =
     (case dn_deployment D name of
        Inl NotFound \<Rightarrow> okay False
      | Inl e \<Rightarrow> fail (Panic ''nil pointer dereference'')
      | Inr deployment \<Rightarrow>
          (case findContainer (dd_Containers deployment) ''kcp-dns'' of
             None \<Rightarrow>
               let expected = MakeDeployment name (dn_dnsNamespace D) (dn_dnsImage D);
                   updated = expected\<lparr>dd_Name := dd_Name deployment, dd_Namespace := dd_Namespace deployment\<rparr> in
               andThen (send_call (dn_answer D) (DnsUpdate updated)) (\<lambda>_. okay True)
           | Some i \<Rightarrow>
               let c = dd_Containers deployment ! i in
               if fst (snd c) \<noteq> dn_dnsImage D
               then andThen (send_call (dn_answer D)
                      (DnsUpdate (deployment\<lparr>dd_Containers := (dd_Containers deployment)[i := set_image (dn_dnsImage D) c]\<rparr>)))
                      (\<lambda>_. okay True)
               else okay False))"

definition is_initialized :: "bool gomap \<Rightarrow> string \<Rightarrow> bool" where
  "is_initialized initialized dnsID = (go_get initialized dnsID = Some True)"

text \<open>The result pair \<open>(updated, err)\<close> and the new \<open>initialized\<close> map.\<close>

definition lockMayUpdate :: "dns_env \<Rightarrow> string \<Rightarrow> bool gomap \<Rightarrow> bool gomap \<times> dns_call list \<times> bool \<times> go_error option" where
  "lockMayUpdate D dnsID initialized =
     (if is_initialized initialized dnsID then (initialized, [], False, None)
      else case mayUpdate D dnsID of
        (cs, Inl e) \<Rightarrow> (initialized, cs, True, Some e)
      | (cs, Inr updated) \<Rightarrow> (Some (go_put dnsID True (entries initialized)), cs, updated, None))"

definition create_all :: "dns_env \<Rightarrow> string \<Rightarrow> namespace_locator \<Rightarrow> (dns_call, bool) calls" where
  "create_all D dnsID namespaceLocator =
     andThen (processServiceAccount D dnsID) (\<lambda>_.
     andThen (processRole D dnsID) (\<lambda>_.
     andThen (processRoleBinding D dnsID) (\<lambda>_.
     andThen (processDeployment D dnsID) (\<lambda>_.
     andThen (processService D dnsID) (\<lambda>_.
     andThen (processNetworkPolicy D dnsID namespaceLocator) (\<lambda>_. okay False))))))"

definition check_endpoints :: "dns_env \<Rightarrow> string \<Rightarrow> namespace_locator \<Rightarrow> (dns_call, bool) calls" where
  "check_endpoints D dnsID namespaceLocator =
     (case dn_endpoints D dnsID of
        Inr endpoints \<Rightarrow> okay (hasAtLeastOneReadyAddress endpoints)
      | Inl NotFound \<Rightarrow> create_all D dnsID namespaceLocator
      | Inl e \<Rightarrow> fail e)"

definition EnsureDNSUpAndReady :: "dns_env \<Rightarrow> namespace_locator \<Rightarrow> bool gomap \<Rightarrow> bool gomap \<times> (dns_call, bool) calls" where
  "EnsureDNSUpAndReady D namespaceLocator initialized =
     (case GetDNSID (dn_json D) (nl_ClusterName namespaceLocator) (dn_syncTargetUID D) (dn_syncTargetName D) of
        Inl e \<Rightarrow> (initialized, fail e)
      | Inr dnsID \<Rightarrow>
          if is_initialized initialized dnsID then (initialized, check_endpoints D dnsID namespaceLocator)
          else case lockMayUpdate D dnsID initialized of
            (initialized', cs, True, None) \<Rightarrow> (initialized', cs, Inr False)
          | (initialized', cs, True, Some e) \<Rightarrow> (initialized', cs, Inl e)
          | (initialized', cs, False, _) \<Rightarrow> (initialized', andThen (cs, Inr ()) (\<lambda>_. check_endpoints D dnsID namespaceLocator)))"


section \<open>Properties\<close>

text \<open>An object is there: the lister has it, or the API server was asked to create it and has it now.\<close>

definition object_there :: "dns_env \<Rightarrow> dns_call list \<Rightarrow> go_error option \<Rightarrow> dns_call \<Rightarrow> bool" where
  "object_there D cs lookup c \<longleftrightarrow> lookup = None \<or> lookup = Some AlreadyExists
     \<or> (lookup = Some NotFound \<and> c \<in> set cs \<and> (dn_answer D c = None \<or> dn_answer D c = Some AlreadyExists))"

lemma ensure_created_ok:
  "snd (ensure_created (dn_answer D) lookup c) = Inr u \<Longrightarrow> object_there D (fst (ensure_created (dn_answer D) lookup c)) lookup c"
  by (auto simp: ensure_created_def object_there_def split: if_splits option.splits go_error.splits)

lemma object_there_mono: "object_there D cs lookup c \<Longrightarrow> set cs \<subseteq> set cs' \<Longrightarrow> object_there D cs' lookup c"
  by (auto simp: object_there_def)

lemmas dns_process_defs = processServiceAccount_def processRole_def processRoleBinding_def processDeployment_def processService_def

lemma create_all_ok:
  assumes ok: "snd (create_all D dnsID l) = Inr ready"
  shows "\<not> ready"
    and "object_there D (fst (create_all D dnsID l)) (dn_lister D KServiceAccount dnsID) (DnsCreate (MakeServiceAccount dnsID (dn_dnsNamespace D)))"
    and "object_there D (fst (create_all D dnsID l)) (dn_lister D KRole dnsID) (DnsCreate (MakeRole dnsID (dn_dnsNamespace D)))"
    and "object_there D (fst (create_all D dnsID l)) (dn_lister D KRoleBinding dnsID) (DnsCreate (MakeRoleBinding dnsID (dn_dnsNamespace D)))"
    and "object_there D (fst (create_all D dnsID l)) (get_error (dn_deployment D dnsID))
      (DnsCreate (DnsDeployment (MakeDeployment dnsID (dn_dnsNamespace D) (dn_dnsImage D))))"
    and "object_there D (fst (create_all D dnsID l)) (dn_lister D KService dnsID) (DnsCreate (MakeService dnsID (dn_dnsNamespace D)))"
proof -
  from ok obtain a b c d e f where r: "snd (processServiceAccount D dnsID) = Inr a" "snd (processRole D dnsID) = Inr b"
    "snd (processRoleBinding D dnsID) = Inr c" "snd (processDeployment D dnsID) = Inr d" "snd (processService D dnsID) = Inr e"
    "snd (processNetworkPolicy D dnsID l) = Inr f" and n: "\<not> ready"
    by (auto simp: create_all_def ok_andThen)
  show "\<not> ready" by (rule n)
  have cs: "fst (create_all D dnsID l) = fst (processServiceAccount D dnsID) @ fst (processRole D dnsID) @ fst (processRoleBinding D dnsID)
      @ fst (processDeployment D dnsID) @ fst (processService D dnsID) @ fst (processNetworkPolicy D dnsID l)"
    using r by (simp add: create_all_def andThen_calls)
  note there = object_there_mono [OF ensure_created_ok]
  show "object_there D (fst (create_all D dnsID l)) (dn_lister D KServiceAccount dnsID) (DnsCreate (MakeServiceAccount dnsID (dn_dnsNamespace D)))"
    "object_there D (fst (create_all D dnsID l)) (dn_lister D KRole dnsID) (DnsCreate (MakeRole dnsID (dn_dnsNamespace D)))"
    "object_there D (fst (create_all D dnsID l)) (dn_lister D KRoleBinding dnsID) (DnsCreate (MakeRoleBinding dnsID (dn_dnsNamespace D)))"
    "object_there D (fst (create_all D dnsID l)) (get_error (dn_deployment D dnsID))
      (DnsCreate (DnsDeployment (MakeDeployment dnsID (dn_dnsNamespace D) (dn_dnsImage D))))"
    "object_there D (fst (create_all D dnsID l)) (dn_lister D KService dnsID) (DnsCreate (MakeService dnsID (dn_dnsNamespace D)))"
    unfolding cs by (rule there; use r in \<open>auto simp: dns_process_defs\<close>)+
qed

lemma check_endpoints_ready: "snd (check_endpoints D dnsID l) = Inr True \<Longrightarrow>
    \<exists>endpoints. dn_endpoints D dnsID = Inr endpoints \<and> hasAtLeastOneReadyAddress endpoints \<and> fst (check_endpoints D dnsID l) = []"
  using create_all_ok(1) [of D dnsID l True]
  by (auto simp: check_endpoints_def split: sum.splits go_error.splits)

lemma EnsureDNS_initialized:
  assumes "GetDNSID (dn_json D) (nl_ClusterName l) (dn_syncTargetUID D) (dn_syncTargetName D) = Inr dnsID"
    and "EnsureDNSUpAndReady D l m = (m', cs, Inr ready)"
  shows "is_initialized m' dnsID"
  using assms
  by (auto simp: EnsureDNSUpAndReady_def lockMayUpdate_def is_initialized_def andThen_def
      split: if_splits prod.splits sum.splits bool.splits)

lemma mayUpdate_calls: "c \<in> set (fst (mayUpdate D dnsID)) \<Longrightarrow> \<exists>dep. c = DnsUpdate dep"
  by (auto simp: mayUpdate_def fst_andThen Let_def split: sum.splits option.splits if_splits go_error.splits)

lemma mayUpdate_updated: "mayUpdate D dnsID = (cs, Inr True) \<Longrightarrow> \<exists>dep. DnsUpdate dep \<in> set cs"
  by (auto simp: mayUpdate_def Let_def okay_def fail_def andThen_def send_call_def
      split: sum.splits option.splits if_splits go_error.splits prod.splits)

lemma EnsureDNS_cases:
  assumes run: "EnsureDNSUpAndReady D l m = (m', cs, Inr ready)"
    and dnsID: "GetDNSID (dn_json D) (nl_ClusterName l) (dn_syncTargetUID D) (dn_syncTargetName D) = Inr dnsID"
  obtains (checked) cs1 where "cs = cs1 @ fst (check_endpoints D dnsID l)" "snd (check_endpoints D dnsID l) = Inr ready"
      "set cs1 \<subseteq> set (fst (mayUpdate D dnsID))"
    | (updated) "\<not> ready" "mayUpdate D dnsID = (cs, Inr True)"
proof (cases "is_initialized m dnsID")
  case True
  with run dnsID checked [of "[]"] show thesis by (simp add: EnsureDNSUpAndReady_def)
next
  case False
  obtain cs1 r where m: "mayUpdate D dnsID = (cs1, r)" by fastforce
  show thesis
  proof (cases r)
    case (Inl e)
    with run dnsID False m show thesis by (simp add: EnsureDNSUpAndReady_def lockMayUpdate_def)
  next
    case (Inr u)
    with run dnsID False m updated checked [of cs1] show thesis
      by (cases u) (auto simp: EnsureDNSUpAndReady_def lockMayUpdate_def andThen_def split: prod.splits)
  qed
qed

text \<open>
  The DNS server of a workspace is reported ready only if its Endpoints have a ready address, and
  then no object is created. After a call without an error the process remembers the server as
  updated, so the Deployment is compared with the configured image once. And if the Endpoints are
  missing, a call that returns no error and made no update has found or created the ServiceAccount, the
  Role, the RoleBinding, the Deployment and the Service of the server.
\<close>

theorem dns_ready_or_created:
  assumes run: "EnsureDNSUpAndReady D l m = (m', cs, Inr ready)"
    and dnsID: "GetDNSID (dn_json D) (nl_ClusterName l) (dn_syncTargetUID D) (dn_syncTargetName D) = Inr dnsID"
  shows "is_initialized m' dnsID
    \<and> (ready \<longrightarrow> (\<exists>endpoints. dn_endpoints D dnsID = Inr endpoints \<and> hasAtLeastOneReadyAddress endpoints)
         \<and> (\<forall>obj. DnsCreate obj \<notin> set cs))
    \<and> (dn_endpoints D dnsID = Inl NotFound \<and> (\<forall>dep. DnsUpdate dep \<notin> set cs) \<longrightarrow>
         object_there D cs (dn_lister D KServiceAccount dnsID) (DnsCreate (MakeServiceAccount dnsID (dn_dnsNamespace D)))
       \<and> object_there D cs (dn_lister D KRole dnsID) (DnsCreate (MakeRole dnsID (dn_dnsNamespace D)))
       \<and> object_there D cs (dn_lister D KRoleBinding dnsID) (DnsCreate (MakeRoleBinding dnsID (dn_dnsNamespace D)))
       \<and> object_there D cs (get_error (dn_deployment D dnsID))
           (DnsCreate (DnsDeployment (MakeDeployment dnsID (dn_dnsNamespace D) (dn_dnsImage D))))
       \<and> object_there D cs (dn_lister D KService dnsID) (DnsCreate (MakeService dnsID (dn_dnsNamespace D))))"
proof (intro conjI)
  show "is_initialized m' dnsID" by (rule EnsureDNS_initialized [OF dnsID run])
  from run dnsID show "ready \<longrightarrow> (\<exists>endpoints. dn_endpoints D dnsID = Inr endpoints \<and> hasAtLeastOneReadyAddress endpoints)
      \<and> (\<forall>obj. DnsCreate obj \<notin> set cs)"
  proof (cases rule: EnsureDNS_cases)
    case (checked cs1)
    then show ?thesis using check_endpoints_ready [of D dnsID l] mayUpdate_calls [of _ D dnsID] by auto
  qed simp
  from run dnsID show "dn_endpoints D dnsID = Inl NotFound \<and> (\<forall>dep. DnsUpdate dep \<notin> set cs) \<longrightarrow>
         object_there D cs (dn_lister D KServiceAccount dnsID) (DnsCreate (MakeServiceAccount dnsID (dn_dnsNamespace D)))
       \<and> object_there D cs (dn_lister D KRole dnsID) (DnsCreate (MakeRole dnsID (dn_dnsNamespace D)))
       \<and> object_there D cs (dn_lister D KRoleBinding dnsID) (DnsCreate (MakeRoleBinding dnsID (dn_dnsNamespace D)))
       \<and> object_there D cs (get_error (dn_deployment D dnsID))
           (DnsCreate (DnsDeployment (MakeDeployment dnsID (dn_dnsNamespace D) (dn_dnsImage D))))
       \<and> object_there D cs (dn_lister D KService dnsID) (DnsCreate (MakeService dnsID (dn_dnsNamespace D)))"
  proof (cases rule: EnsureDNS_cases)
    case (checked cs1)
    show ?thesis
    proof (cases "dn_endpoints D dnsID = Inl NotFound")
      case True
      then have e: "check_endpoints D dnsID l = create_all D dnsID l" by (simp add: check_endpoints_def)
      then have "set (fst (create_all D dnsID l)) \<subseteq> set cs" and "snd (create_all D dnsID l) = Inr ready" using checked by auto
      with create_all_ok(2-6) [of D dnsID l ready] show ?thesis by (blast intro: object_there_mono)
    qed simp
  next
    case updated
    then show ?thesis using mayUpdate_updated by blast
  qed
qed


text \<open>
  A failed creation of the NetworkPolicy is lost: whatever error the API server answers,
  \<open>processNetworkPolicy\<close> returns none, while the same error of the Service is returned. The policy
  restricts the server to the namespaces of its tenant, and it is asked for again only as long as the
  Endpoints are missing.
\<close>

theorem network_policy_error_lost:
  assumes "dn_lister D KNetworkPolicy name = Some NotFound" "dn_lister D KService name = Some NotFound"
    and "dn_kubeEndpoints D = Inr (sub # rest)" "es_Addresses sub \<noteq> []" "GetTenantID (dn_json D) l = Inr tenantID"
    and "dn_answer D = (\<lambda>_. Some e)" "e \<noteq> AlreadyExists"
  shows "processNetworkPolicy D name l = ([DnsCreate (MakeNetworkPolicy name (dn_dnsNamespace D) tenantID sub)], Inr ())
    \<and> processService D name = ([DnsCreate (MakeService name (dn_dnsNamespace D))], Inl e)"
  using assms
  by (simp add: processNetworkPolicy_def processService_def ensure_created_def split: go_error.splits)

lemma deployment_error_panics:
  assumes "GetDNSID (dn_json D) (nl_ClusterName l) (dn_syncTargetUID D) (dn_syncTargetName D) = Inr dnsID"
    and "\<not> is_initialized m dnsID" "dn_deployment D dnsID = Inl e" "e \<noteq> NotFound"
  shows "EnsureDNSUpAndReady D l m = (m, [], Inl (Panic ''nil pointer dereference''))"
  using assms
  by (simp add: EnsureDNSUpAndReady_def lockMayUpdate_def mayUpdate_def fail_def split: go_error.splits)

section \<open>Examples\<close>

definition ex_dns :: "go_error option \<Rightarrow> dns_env" where
  "ex_dns err = \<lparr>dn_json = basic_json, dn_syncTargetUID = ''uid'', dn_syncTargetName = ''east'', dn_dnsNamespace = ''dns'',
     dn_dnsImage = ''img'', dn_lister = (\<lambda>_ _. Some NotFound), dn_deployment = (\<lambda>_. Inl NotFound),
     dn_endpoints = (\<lambda>_. Inl NotFound), dn_kubeEndpoints = Inr [\<lparr>es_Addresses = [''10.0.0.1''], es_Ports = [(443, ''TCP'')]\<rparr>],
     dn_answer = (\<lambda>_. err)\<rparr>"

definition ex_dns_locator :: namespace_locator where
  "ex_dns_locator = NewNamespaceLocator ''user'' ''root'' ''uid'' ''east'' ''shop''"

definition ex_dns_id :: string where "ex_dns_id = ''kcp-dns-east-00000000-00000000''"

lemma ex_dns_id: "GetDNSID (dn_json (ex_dns err)) (nl_ClusterName ex_dns_locator) (dn_syncTargetUID (ex_dns err)) (dn_syncTargetName (ex_dns err))
    = Inr ex_dns_id"
  by (simp add: GetDNSID_def ex_dns_def basic_json_def ex_dns_id_def numeral_eq_Suc)

lemma ex_dns_tenant: "\<exists>tenantID. GetTenantID (dn_json (ex_dns err)) ex_dns_locator = Inr tenantID"
  by (simp add: GetTenantID_def ex_dns_def basic_json_def)

lemma ex_dns_run: "\<exists>m' cs. EnsureDNSUpAndReady (ex_dns None) ex_dns_locator (Some []) = (m', cs, Inr False) \<and> (\<forall>dep. DnsUpdate dep \<notin> set cs)"
proof -
  obtain tenantID where t: "GetTenantID basic_json ex_dns_locator = Inr tenantID" by (simp add: GetTenantID_def basic_json_def)
  show ?thesis
    using ex_dns_id [of None]
    by (simp add: EnsureDNSUpAndReady_def is_initialized_def lockMayUpdate_def mayUpdate_def okay_def)
       (simp add: ex_dns_def dns_process_defs ensure_created_def processNetworkPolicy_def t andThen_def lift_err_def okay_def get_error_def check_endpoints_def create_all_def)
qed

theorem dns_ready_or_created_witness:
  "\<exists>m' cs. EnsureDNSUpAndReady (ex_dns None) ex_dns_locator (Some []) = (m', cs, Inr False) \<and> is_initialized m' ex_dns_id
    \<and> object_there (ex_dns None) cs (dn_lister (ex_dns None) KService ex_dns_id) (DnsCreate (MakeService ex_dns_id (dn_dnsNamespace (ex_dns None))))"
proof -
  obtain m' cs where r: "EnsureDNSUpAndReady (ex_dns None) ex_dns_locator (Some []) = (m', cs, Inr False)"
    "\<forall>dep. DnsUpdate dep \<notin> set cs" using ex_dns_run by blast
  have "dn_endpoints (ex_dns None) ex_dns_id = Inl NotFound" by (simp add: ex_dns_def)
  with dns_ready_or_created [OF r(1) ex_dns_id] r show ?thesis by blast
qed

theorem network_policy_error_lost_witness:
  "snd (processNetworkPolicy (ex_dns (Some Conflict)) ex_dns_id ex_dns_locator) = Inr ()
   \<and> snd (processService (ex_dns (Some Conflict)) ex_dns_id) = Inl Conflict"
proof -
  obtain tenantID where t: "GetTenantID (dn_json (ex_dns (Some Conflict))) ex_dns_locator = Inr tenantID"
    using ex_dns_tenant by blast
  have "dn_kubeEndpoints (ex_dns (Some Conflict)) = Inr [\<lparr>es_Addresses = [''10.0.0.1''], es_Ports = [(443, ''TCP'')]\<rparr>]"
    by (simp add: ex_dns_def)
  from network_policy_error_lost [OF _ _ this _ t, of ex_dns_id Conflict] show ?thesis by (simp add: ex_dns_def)
qed

end
