(* ===== verification/Spec_Syncer.thy ===== *)
theory Spec_Syncer
  imports Downstream_Cleaner DNS_Processor
begin

text \<open>
  \<^verbatim>\<open>src/pkg/syncer/spec\<close>: the syncer from upstream to downstream. \<open>process\<close> looks an upstream object up,
  makes sure that its downstream namespace exists and belongs to it, that the DNS server of its workspace
  runs, and that the object carries the syncer's finalizer, and applies the transformed object
  downstream, or deletes the downstream object and gives the upstream object free.

  A run is the list of API calls and of calls of the namespace cleaner that it makes, in order, with its
  result. Parameters (record \<open>spec_env\<close>): listers, answers of the API servers, the mutators (a Go
  interface), the JSON patch library, key splitting and the version annotation of the kcp API server.
\<close>

section \<open>State and calls\<close>

datatype spec_call =
    DownDelete gvr string string            \<comment> \<open>resource, namespace, name\<close>
  | DownApply gvr string unstr              \<comment> \<open>server-side apply patch\<close>
  | UpUpdate gvr unstr
  | NSCreate unstr
  | NSGet string
  | NSUpdate unstr
  | SPlan string
  | SCancel string
  | SDns dns_call
  | SInitialized "bool gomap"               \<comment> \<open>the table of the DNS processor after the check\<close>

record spec_env =
  se_syncTargetName :: string
  se_syncTargetClusterName :: string
  se_syncTargetUID :: string
  se_syncTargetKey :: string
  se_advancedSchedulingEnabled :: bool
  se_json :: json_lib
  se_dns :: dns_env
  se_mutators :: "gvr \<Rightarrow> (unstr \<Rightarrow> go_error + unstr) option"
  se_split :: "string \<Rightarrow> go_error + (string \<times> string \<times> string)"        \<comment> \<open>cluster, namespace, name\<close>
  se_originalVersionKey :: string                                       \<comment> \<open>\<open>handlers.KCPOriginalAPIVersionAnnotation\<close>\<close>
  se_parseGroupVersion :: "string \<Rightarrow> go_error + (string \<times> string)"
  se_decodePatch :: "string \<Rightarrow> go_error + (string \<Rightarrow> go_error + string)"  \<comment> \<open>decode, apply and re-decode as an object\<close>
  se_namespacesByLocator :: "string \<Rightarrow> go_error + unstr list"
  se_upLister :: "string \<Rightarrow> gvr \<Rightarrow> go_error + (string \<Rightarrow> string \<Rightarrow> go_error + unstr)"
  se_downLister :: "gvr \<Rightarrow> go_error + (string \<Rightarrow> go_error + unstr)"
  se_upClient :: "string \<Rightarrow> go_error option"                             \<comment> \<open>error of \<open>getUpstreamClient\<close>\<close>
  se_nsGet :: "string \<Rightarrow> go_error + unstr"
  se_answer :: "spec_call \<Rightarrow> go_error option"

definition spec_namespaceGVR :: gvr where
  "spec_namespaceGVR = \<lparr>gvr_Group = [], gvr_Version = ''v1'', gvr_Resource = ''namespaces''\<rparr>"
definition deploymentGVR :: gvr where
  "deploymentGVR = \<lparr>gvr_Group = ''apps'', gvr_Version = ''v1'', gvr_Resource = ''deployments''\<rparr>"
definition clusterAnnotationKey :: string where "clusterAnnotationKey = ''kcp.io/cluster''"   \<comment> \<open>\<open>logicalcluster.AnnotationKey\<close>\<close>

section \<open>Which updates are processed\<close>

definition without_status_annotations :: "smap \<Rightarrow> (string \<times> string) list" where
  "without_status_annotations m = filter (\<lambda>(k, v). \<not> has_prefix k InternalClusterStatusAnnotationPrefix) (entries m)"

text \<open>\<open>equality.Semantic.DeepEqual\<close> treats a nil and an empty map or list as equal.\<close>

definition deepEqualApartFromStatus :: "unstr \<Rightarrow> unstr \<Rightarrow> bool" where
  "deepEqualApartFromStatus oldObj newObj \<longleftrightarrow>
     map_equal (without_status_annotations (Annotations oldObj)) (without_status_annotations (Annotations newObj))
   \<and> map_equal (entries (Labels oldObj)) (entries (Labels newObj))
   \<and> Finalizers oldObj = Finalizers newObj
   \<and> (DeletionTimestamp oldObj \<noteq> None \<longleftrightarrow> DeletionTimestamp newObj \<noteq> None)
   \<and> u_Group oldObj = u_Group newObj \<and> u_Version oldObj = u_Version newObj \<and> u_Kind oldObj = u_Kind newObj
   \<and> (\<forall>key \<in> set (map fst (u_content oldObj) @ map fst (u_content newObj)).
        key = ''status'' \<or> map_of (u_content oldObj) key = map_of (u_content newObj) key)"

section \<open>The downstream namespace\<close>

definition desired_locator :: "spec_env \<Rightarrow> string \<Rightarrow> string \<Rightarrow> namespace_locator" where
  "desired_locator C cluster ns =
     NewNamespaceLocator cluster (se_syncTargetClusterName C) (se_syncTargetUID C) (se_syncTargetName C) ns"

definition new_namespace :: "string \<Rightarrow> string \<Rightarrow> string \<Rightarrow> string \<Rightarrow> unstr" where
  "new_namespace name locatorJSON syncTargetKey tenantID =
     \<lparr>Name = name, Namespace = [], Cluster = [], UID = [], ResourceVersion = [],
      Labels = Some [(InternalDownstreamClusterLabel, syncTargetKey), (TenantIDLabel, tenantID)],
      Annotations = Some [(NamespaceLocatorAnnotation, locatorJSON)], Finalizers = [], OwnerReferences = [],
      DeletionTimestamp = None, u_Group = [], u_Version = ''v1'', u_Kind = ''Namespace'', u_ManagedFields = [],
      u_DeletionGracePeriodSeconds = None, u_content = []\<rparr>"

text \<open>The checks on a namespace that exists already.\<close>

definition check_namespace :: "spec_env \<Rightarrow> namespace_locator \<Rightarrow> string \<Rightarrow> unstr \<Rightarrow> (spec_call, unit) calls" where
  "check_namespace C desiredNSLocator desiredTenantID ns =
     andThen (lift_err (LocatorFromAnnotations (se_json C) (Annotations ns))) (\<lambda>found.
       case found of
         None \<Rightarrow> fail (Failure ''(namespace collision) namespace has no namespace locator'')
       | Some nsLocator \<Rightarrow>
           if desiredNSLocator \<noteq> nsLocator
           then fail (Failure ''(namespace collision) namespace already exists, but has a different namespace locator annotation'')
           else if go_get (Labels ns) TenantIDLabel \<noteq> Some desiredTenantID
           then andThen (lift_err (go_set (Labels ns) TenantIDLabel desiredTenantID)) (\<lambda>labels.
                  send_call (se_answer C) (NSUpdate (ns\<lparr>Labels := labels\<rparr>)))
           else okay ())"

definition ensureDownstreamNamespaceExists :: "spec_env \<Rightarrow> string \<Rightarrow> unstr \<Rightarrow> (spec_call, unit) calls" where
  "ensureDownstreamNamespaceExists C downstreamNamespace upstreamObj =
     andThen (emit (SCancel downstreamNamespace)) (\<lambda>_.
     let desiredNSLocator = desired_locator C (Cluster upstreamObj) (Namespace upstreamObj) in
     andThen (lift_err (marshal_locator (se_json C) desiredNSLocator)) (\<lambda>b.
     andThen (lift_err (GetTenantID (se_json C) desiredNSLocator)) (\<lambda>desiredTenantID.
     let newNamespace = new_namespace downstreamNamespace b (se_syncTargetKey C) desiredTenantID;
         get_existing = andThen (emit (NSGet downstreamNamespace)) (\<lambda>_.
           andThen (lift_err (se_nsGet C downstreamNamespace)) (check_namespace C desiredNSLocator desiredTenantID)) in
     andThen (lift_err (se_downLister C spec_namespaceGVR)) (\<lambda>lister.
     case lister downstreamNamespace of
       Inr ns \<Rightarrow> check_namespace C desiredNSLocator desiredTenantID ns
     | Inl NotFound \<Rightarrow>
         andThen (attempt (se_answer C) (NSCreate newNamespace)) (\<lambda>err.
           case err of None \<Rightarrow> okay () | Some AlreadyExists \<Rightarrow> get_existing | Some e \<Rightarrow> fail e)
     | Inl AlreadyExists \<Rightarrow> get_existing
     | Inl e \<Rightarrow> fail e))))"

definition clusterWideCollisionCheck :: "spec_env \<Rightarrow> gvr \<Rightarrow> unstr \<Rightarrow> (spec_call, unit) calls" where
  "clusterWideCollisionCheck C r upstreamObj =
     andThen (lift_err (se_downLister C r)) (\<lambda>lister.
       case lister (Name upstreamObj) of
         Inl NotFound \<Rightarrow> okay ()
       | Inl e \<Rightarrow> fail e
       | Inr resource \<Rightarrow>
           andThen (lift_err (LocatorFromAnnotations (se_json C) (Annotations resource))) (\<lambda>found.
             case found of
               None \<Rightarrow> fail (Failure ''(cluster-wide resource collision) resource has no namespace locator'')
             | Some nsLocator \<Rightarrow>
                 if nl_ClusterName nsLocator \<noteq> se_syncTargetClusterName C
                 then fail (Failure ''(cluster-wide resource collision) resource already exists, but has a different namespace locator annotation'')
                 else okay ()))"

section \<open>The finalizer\<close>

definition intendedToBeRemoved :: "spec_env \<Rightarrow> unstr \<Rightarrow> bool" where
  "intendedToBeRemoved C obj = (go_str (Annotations obj) (deletion_annotation (se_syncTargetKey C)) \<noteq> [])"

definition stillOwned :: "spec_env \<Rightarrow> unstr \<Rightarrow> bool" where
  "stillOwned C obj = (go_str (Annotations obj) (finalizer_annotation (se_syncTargetKey C)) \<noteq> [])"

definition hasFinalizer :: "spec_env \<Rightarrow> unstr \<Rightarrow> bool" where
  "hasFinalizer C obj = (syncer_finalizer (se_syncTargetKey C) \<in> set (Finalizers obj))"

definition ensureSyncerFinalizer :: "spec_env \<Rightarrow> gvr \<Rightarrow> unstr \<Rightarrow> (spec_call, bool) calls" where
  "ensureSyncerFinalizer C r upstreamObj =
     (if \<not> hasFinalizer C upstreamObj \<and> (\<not> intendedToBeRemoved C upstreamObj \<or> stillOwned C upstreamObj)
      then andThen (check (se_upClient C (Cluster upstreamObj))) (\<lambda>_.
           andThen (send_call (se_answer C)
             (UpUpdate r (upstreamObj\<lparr>Finalizers := Finalizers upstreamObj @ [syncer_finalizer (se_syncTargetKey C)]\<rparr>)))
             (\<lambda>_. okay True))
      else okay False)"

section \<open>Applying downstream\<close>

text \<open>The metadata of the downstream object; \<open>downstreamObj\<close> is the mutated copy.\<close>

definition downstream_object :: "spec_env \<Rightarrow> string \<Rightarrow> unstr \<Rightarrow> unstr \<Rightarrow> go_error + unstr" where
  "downstream_object C downstreamNamespace upstreamObj downstreamObj =
     (let annotations0 = go_del (InternalClusterStatusAnnotationPrefix @ se_syncTargetKey C)
            (go_del clusterAnnotationKey (Annotations downstreamObj)) in
      bindE (if downstreamNamespace = []
             then bindE (marshal_locator (se_json C) (desired_locator C (Cluster upstreamObj) [])) (\<lambda>json.
                    go_set annotations0 NamespaceLocatorAnnotation json)
             else Inr annotations0) (\<lambda>annotations1.
      bindE (go_set (go_del (state_label (se_syncTargetKey C)) (Labels downstreamObj)) InternalDownstreamClusterLabel (se_syncTargetKey C)) (\<lambda>labels.
      Inr (downstreamObj\<lparr>Name := getTransformedName upstreamObj, UID := [], ResourceVersion := [],
             Namespace := downstreamNamespace, Cluster := [], u_ManagedFields := [],
             Annotations := (if entries annotations1 = [] then None else annotations1),
             DeletionTimestamp := None, u_DeletionGracePeriodSeconds := None, OwnerReferences := [], Finalizers := [],
             Labels := labels\<rparr>))))"

text \<open>The JSON patch that an external scheduler may store for the spec at this location.\<close>

definition patch_spec :: "spec_env \<Rightarrow> unstr \<Rightarrow> unstr \<Rightarrow> go_error + unstr" where
  "patch_spec C upstreamObj downstreamObj =
     (if \<not> se_advancedSchedulingEnabled C then Inr downstreamObj
      else let specDiffPatch = go_str (Annotations upstreamObj) (ClusterSpecDiffAnnotationPrefix @ se_syncTargetKey C) in
        if specDiffPatch = [] then Inr downstreamObj
        else case map_of (u_content upstreamObj) ''spec'' of
          None \<Rightarrow> Inr downstreamObj
        | Some upstreamSpec \<Rightarrow>
            bindE (se_decodePatch C specDiffPatch) (\<lambda>patch.
            bindE (patch upstreamSpec) (\<lambda>newSpec.
            Inr (downstreamObj\<lparr>u_content := go_put ''spec'' newSpec (u_content downstreamObj)\<rparr>))))"

definition applyToDownstream :: "spec_env \<Rightarrow> gvr \<Rightarrow> string \<Rightarrow> unstr \<Rightarrow> (spec_call, unit) calls" where
  "applyToDownstream C r downstreamNamespace upstreamObj =
     andThen (lift_err (se_upLister C (Cluster upstreamObj) r)) (\<lambda>upstreamLister.
     if intendedToBeRemoved C upstreamObj \<and> \<not> stillOwned C upstreamObj
     then andThen (attempt (se_answer C) (DownDelete r downstreamNamespace (getTransformedName upstreamObj))) (\<lambda>err.
       case err of
         None \<Rightarrow> if downstreamNamespace \<noteq> [] then emit (SPlan downstreamNamespace) else okay ()
       | Some NotFound \<Rightarrow>
           andThen (check (se_upClient C (Cluster upstreamObj))) (\<lambda>_.
             EnsureUpstreamFinalizerRemoved (se_answer C) (UpUpdate r) (se_syncTargetKey C)
               (upstreamLister (Namespace upstreamObj) (Name upstreamObj)))
       | Some e \<Rightarrow> fail e)
     else
     andThen (lift_err (case se_mutators C r of None \<Rightarrow> Inr upstreamObj | Some mutate \<Rightarrow> mutate upstreamObj)) (\<lambda>mutated.
     andThen (lift_err (downstream_object C downstreamNamespace upstreamObj mutated)) (\<lambda>downstreamObj.
     andThen (lift_err (patch_spec C upstreamObj downstreamObj)) (\<lambda>patched.
     send_call (se_answer C) (DownApply r downstreamNamespace patched)))))"

section \<open>Processing a key\<close>

definition downstream_namespace_of :: "spec_env \<Rightarrow> namespace_locator \<Rightarrow> string \<Rightarrow> string \<Rightarrow> go_error + string option" where
  "downstream_namespace_of C locator jsonNSLocator upstreamNamespace =
     (if upstreamNamespace = [] then Inr (Some [])
      else bindE (se_namespacesByLocator C jsonNSLocator) (\<lambda>namespaces.
        case namespaces of
          [ns] \<Rightarrow> Inr (Some (Name ns))
        | _ # _ # _ \<Rightarrow> Inl (Failure ''(namespace collision) found multiple downstream namespaces'')
        | [] \<Rightarrow> (case PhysicalClusterNamespaceName (se_json C) locator of
                  Inr name \<Rightarrow> Inr (Some name)
                | Inl (Panic m) \<Rightarrow> Inl (Panic m)
                | Inl e \<Rightarrow> Inr None)))"

definition delete_downstream :: "spec_env \<Rightarrow> gvr \<Rightarrow> string \<Rightarrow> string \<Rightarrow> (spec_call, duration option) calls" where
  "delete_downstream C r downstreamNamespace name =
     andThen (attempt (se_answer C) (DownDelete r downstreamNamespace name)) (\<lambda>err.
       if err \<noteq> None \<and> err \<noteq> Some NotFound then fail (the err)
       else if downstreamNamespace \<noteq> [] then andThen (emit (SPlan downstreamNamespace)) (\<lambda>_. okay None)
       else okay None)"

definition retryDelay :: duration where "retryDelay = second div 2"

text \<open>The finalizer, then the object: the update of the finalizer triggers a new reconcile.\<close>

definition sync_object :: "spec_env \<Rightarrow> gvr \<Rightarrow> string \<Rightarrow> unstr \<Rightarrow> (spec_call, duration option) calls" where
  "sync_object C r downstreamNamespace upstreamObj =
     andThen (ensureSyncerFinalizer C r upstreamObj) (\<lambda>added.
       if added then okay None
       else andThen (applyToDownstream C r downstreamNamespace upstreamObj) (\<lambda>_. okay None))"

text \<open>The second half: the namespace or collision check, the DNS server, and the object.\<close>

definition upsert_downstream ::
  "spec_env \<Rightarrow> gvr \<Rightarrow> string \<Rightarrow> namespace_locator \<Rightarrow> unstr \<Rightarrow> bool gomap \<Rightarrow> (spec_call, duration option) calls" where
  "upsert_downstream C r downstreamNamespace desiredNSLocator upstreamObj initialized =
     andThen (if downstreamNamespace \<noteq> [] then ensureDownstreamNamespaceExists C downstreamNamespace upstreamObj
              else clusterWideCollisionCheck C r upstreamObj) (\<lambda>_.
     let (initialized', dnsCalls, dnsResult) = EnsureDNSUpAndReady (se_dns C) desiredNSLocator initialized in
     andThen (map SDns dnsCalls @ [SInitialized initialized'], dnsResult) (\<lambda>dnsUpAndReady.
     if \<not> dnsUpAndReady \<and> r = deploymentGVR then okay (Some retryDelay)
     else sync_object C r downstreamNamespace upstreamObj))"

definition spec_process :: "spec_env \<Rightarrow> gvr \<Rightarrow> string \<Rightarrow> bool gomap \<Rightarrow> (spec_call, duration option) calls" where
  "spec_process C r key initialized =
     (case se_split C key of
        Inl e \<Rightarrow> okay None
      | Inr (clusterName, upstreamNamespace, name) \<Rightarrow>
          let desiredNSLocator = desired_locator C clusterName upstreamNamespace in
          andThen (lift_err (marshal_locator (se_json C) desiredNSLocator)) (\<lambda>jsonNSLocator.
          andThen (lift_err (downstream_namespace_of C desiredNSLocator jsonNSLocator upstreamNamespace)) (\<lambda>found.
          case found of None \<Rightarrow> okay None | Some downstreamNamespace \<Rightarrow>
          andThen (lift_err (se_upLister C clusterName r)) (\<lambda>lister.
          case lister upstreamNamespace name of
            Inl NotFound \<Rightarrow> delete_downstream C r downstreamNamespace name
          | Inl e \<Rightarrow> fail e
          | Inr upstreamObj \<Rightarrow>
              let actualVersion = go_str (Annotations upstreamObj) (se_originalVersionKey C) in
              if actualVersion = [] then upsert_downstream C r downstreamNamespace desiredNSLocator upstreamObj initialized
              else (case se_parseGroupVersion C actualVersion of
                Inl e \<Rightarrow> okay None
              | Inr (_, version) \<Rightarrow>
                  upsert_downstream C (r\<lparr>gvr_Version := version\<rparr>) downstreamNamespace desiredNSLocator upstreamObj initialized)))))"


section \<open>Calls of a run\<close>

text \<open>What the parts of a run can send.\<close>

definition touches_object :: "spec_call \<Rightarrow> bool" where
  "touches_object c = (case c of DownDelete _ _ _ \<Rightarrow> True | DownApply _ _ _ \<Rightarrow> True | UpUpdate _ _ \<Rightarrow> True | _ \<Rightarrow> False)"

lemma touches_simps [simp]:
  "touches_object (DownDelete r n m)" "touches_object (DownApply r n obj)" "touches_object (UpUpdate r obj)"
  "\<not> touches_object (NSCreate obj)" "\<not> touches_object (NSGet n)" "\<not> touches_object (NSUpdate obj)"
  "\<not> touches_object (SPlan n)" "\<not> touches_object (SCancel n)" "\<not> touches_object (SDns d)" "\<not> touches_object (SInitialized i)"
  by (simp_all add: touches_object_def)

lemma check_namespace_calls: "sends (\<lambda>c. \<not> touches_object c) (check_namespace C l t ns)"
  by (auto simp: check_namespace_def intro!: sends_andThen split: option.split)

lemma ensureNamespace_calls: "sends (\<lambda>c. \<not> touches_object c) (ensureDownstreamNamespaceExists C ns up)"
  by (auto simp: ensureDownstreamNamespaceExists_def Let_def check_namespace_calls intro!: sends_andThen
      split: sum.split go_error.split option.split)

lemma collisionCheck_calls: "sends (\<lambda>c. \<not> touches_object c) (clusterWideCollisionCheck C r up)"
  by (auto simp: clusterWideCollisionCheck_def intro!: sends_andThen split: sum.split go_error.split option.split)

lemma ensureSyncerFinalizer_calls:
  "c \<in> set (fst (ensureSyncerFinalizer C r up)) \<Longrightarrow>
     c = UpUpdate r (up\<lparr>Finalizers := Finalizers up @ [syncer_finalizer (se_syncTargetKey C)]\<rparr>)"
  by (auto simp: ensureSyncerFinalizer_def in_andThen split: if_splits)

lemma ensureSyncerFinalizer_present:
  "snd (ensureSyncerFinalizer C r up) = Inr False \<longleftrightarrow> hasFinalizer C up \<or> (intendedToBeRemoved C up \<and> \<not> stillOwned C up)"
  by (auto simp: ensureSyncerFinalizer_def ok_andThen)

lemma upsert_calls:
  assumes "EnsureDNSUpAndReady (se_dns C) l init = (init', dcs, dr)"
    and "guard = (if ns \<noteq> [] then ensureDownstreamNamespaceExists C ns up else clusterWideCollisionCheck C r up)"
  shows "fst (upsert_downstream C r ns l up init) = fst guard @ (case snd guard of Inl _ \<Rightarrow> [] | Inr _ \<Rightarrow>
    map SDns dcs @ [SInitialized init'] @ (case dr of Inl _ \<Rightarrow> [] | Inr ready \<Rightarrow>
      if \<not> ready \<and> r = deploymentGVR then [] else fst (sync_object C r ns up)))"
  using assms by (simp add: upsert_downstream_def fst_andThen split: sum.split)

lemma sync_object_calls:
  "fst (sync_object C r ns up) = fst (ensureSyncerFinalizer C r up) @
     (if snd (ensureSyncerFinalizer C r up) = Inr False then fst (applyToDownstream C r ns up) else [])"
  by (auto simp: sync_object_def fst_andThen split: sum.split)

lemma upsert_object_calls:
  assumes "c \<in> set (fst (upsert_downstream C r ns l up init))" "touches_object c"
  shows "(ns \<noteq> [] \<longrightarrow> snd (ensureDownstreamNamespaceExists C ns up) = Inr ())
    \<and> (ns = [] \<longrightarrow> snd (clusterWideCollisionCheck C r up) = Inr ())
    \<and> c \<in> set (fst (sync_object C r ns up))
    \<and> (\<exists>pre. fst (upsert_downstream C r ns l up init) = fst (if ns \<noteq> [] then ensureDownstreamNamespaceExists C ns up
          else clusterWideCollisionCheck C r up) @ pre @ fst (sync_object C r ns up) \<and> (\<forall>c \<in> set pre. (\<exists>d. c = SDns d) \<or> (\<exists>i. c = SInitialized i)))"
proof -
  obtain guard where g: "guard = (if ns \<noteq> [] then ensureDownstreamNamespaceExists C ns up else clusterWideCollisionCheck C r up)" by simp
  obtain init' dcs dr where dns: "EnsureDNSUpAndReady (se_dns C) l init = (init', dcs, dr)" by (rule prod_cases3)
  note calls = upsert_calls [OF dns g]
  have "sends (\<lambda>c. \<not> touches_object c) guard" by (simp add: g ensureNamespace_calls collisionCheck_calls)
  with assms have "snd guard = Inr () \<and> (\<exists>ready. dr = Inr ready \<and> \<not> (\<not> ready \<and> r = deploymentGVR)) \<and> c \<in> set (fst (sync_object C r ns up))"
    by (auto simp: calls sends_def split: sum.splits if_splits)
  with calls g show ?thesis
    by (intro conjI exI [of _ "map SDns dcs @ [SInitialized init']"]) auto
qed

text \<open>The three ends of \<open>applyToDownstream\<close>.\<close>

lemma apply_calls:
  assumes "c \<in> set (fst (applyToDownstream C r ns up))" "touches_object c"
  shows "(\<not> (intendedToBeRemoved C up \<and> \<not> stillOwned C up) \<and> (\<exists>mutated d obj. c = DownApply r ns obj
        \<and> downstream_object C ns up mutated = Inr d \<and> patch_spec C up d = Inr obj))
    \<or> (intendedToBeRemoved C up \<and> \<not> stillOwned C up \<and> (c = DownDelete r ns (getTransformedName up)
       \<or> (se_answer C (DownDelete r ns (getTransformedName up)) = Some NotFound
          \<and> DownDelete r ns (getTransformedName up) \<in> set (fst (applyToDownstream C r ns up))
          \<and> (\<exists>lister obj. se_upLister C (Cluster up) r = Inr lister \<and> lister (Namespace up) (Name up) = Inr obj
               \<and> intendedToBeRemoved C obj \<and> c = UpUpdate r (without_target (se_syncTargetKey C) obj)))))"
proof (cases "se_upLister C (Cluster up) r")
  case (Inl e)
  with assms show ?thesis by (simp add: applyToDownstream_def)
next
  case (Inr lister)
  show ?thesis
  proof (cases "intendedToBeRemoved C up \<and> \<not> stillOwned C up")
    case False
    with assms Inr show ?thesis by (auto simp: applyToDownstream_def in_andThen)
  next
    case True
    then have m: "applyToDownstream C r ns up = andThen (attempt (se_answer C) (DownDelete r ns (getTransformedName up))) (\<lambda>err.
       case err of
         None \<Rightarrow> if ns \<noteq> [] then emit (SPlan ns) else okay ()
       | Some NotFound \<Rightarrow> andThen (check (se_upClient C (Cluster up))) (\<lambda>_.
             EnsureUpstreamFinalizerRemoved (se_answer C) (UpUpdate r) (se_syncTargetKey C) (lister (Namespace up) (Name up)))
       | Some e \<Rightarrow> fail e)"
      using Inr by (simp add: applyToDownstream_def)
    show ?thesis
    proof (cases "c = DownDelete r ns (getTransformedName up)")
      case False
      with assms m have n: "se_answer C (DownDelete r ns (getTransformedName up)) = Some NotFound"
        by (auto simp: in_andThen split: option.splits go_error.splits if_splits)
      with m assms False have "c \<in> set (fst (EnsureUpstreamFinalizerRemoved (se_answer C) (UpUpdate r) (se_syncTargetKey C)
          (lister (Namespace up) (Name up))))"
        by (auto simp: in_andThen)
      then have "\<exists>obj. lister (Namespace up) (Name up) = Inr obj \<and> intendedToBeRemoved C obj
          \<and> c = UpUpdate r (without_target (se_syncTargetKey C) obj)"
        by (cases "lister (Namespace up) (Name up)")
          (auto simp: EnsureUpstreamFinalizerRemoved_def intendedToBeRemoved_def split: if_splits go_error.splits)
      with True n Inr show ?thesis by (auto simp: m in_andThen)
    qed (use True in simp)
  qed
qed

text \<open>The downstream namespace of a key, stated apart from the code.\<close>

definition is_downstream_namespace :: "spec_env \<Rightarrow> string \<Rightarrow> string \<Rightarrow> string \<Rightarrow> bool" where
  "is_downstream_namespace C cluster upNs ns \<longleftrightarrow>
     (if upNs = [] then ns = []
      else \<exists>json found. marshal_locator (se_json C) (desired_locator C cluster upNs) = Inr json
        \<and> se_namespacesByLocator C json = Inr found
        \<and> (found = [] \<and> PhysicalClusterNamespaceName (se_json C) (desired_locator C cluster upNs) = Inr ns
           \<or> (\<exists>obj. found = [obj] \<and> ns = Name obj)))"

lemma downstream_namespace_found:
  assumes "marshal_locator (se_json C) (desired_locator C cluster upNs) = Inr json"
    "downstream_namespace_of C (desired_locator C cluster upNs) json upNs = Inr (Some ns)"
  shows "is_downstream_namespace C cluster upNs ns"
proof (cases "upNs = []")
  case False
  with assms(2) obtain found where found: "se_namespacesByLocator C json = Inr found"
    by (auto simp: downstream_namespace_of_def bindE_Inr)
  consider "found = []" | obj where "found = [obj]" | a b more where "found = a # b # more"
    by (metis list.exhaust)
  then show ?thesis
    using assms False found
    by cases (auto simp: is_downstream_namespace_def downstream_namespace_of_def split: sum.splits go_error.splits)
qed (use assms in \<open>simp add: is_downstream_namespace_def downstream_namespace_of_def\<close>)

lemma process_object_calls:
  assumes c: "c \<in> set (fst (spec_process C r key init))" "touches_object c"
  shows "\<exists>cluster upNs name lister v ns. se_split C key = Inr (cluster, upNs, name) \<and> se_upLister C cluster r = Inr lister
    \<and> is_downstream_namespace C cluster upNs ns
    \<and> ((lister upNs name = Inl NotFound \<and> c = DownDelete r ns name \<and> spec_process C r key init = delete_downstream C r ns name)
       \<or> (\<exists>up. lister upNs name = Inr up
            \<and> spec_process C r key init = upsert_downstream C (r\<lparr>gvr_Version := v\<rparr>) ns (desired_locator C cluster upNs) up init))"
proof -
  obtain cluster upNs name where sp: "se_split C key = Inr (cluster, upNs, name)"
    using c by (cases "se_split C key") (auto simp: spec_process_def)
  let ?l = "desired_locator C cluster upNs"
  obtain json where json: "marshal_locator (se_json C) ?l = Inr json"
    using c sp by (cases "marshal_locator (se_json C) ?l") (auto simp: spec_process_def Let_def)
  obtain found where found: "downstream_namespace_of C ?l json upNs = Inr found"
    using c sp json by (cases "downstream_namespace_of C ?l json upNs") (auto simp: spec_process_def Let_def)
  then obtain ns where ns: "found = Some ns"
    using c sp json by (cases found) (auto simp: spec_process_def Let_def)
  obtain lister where lister: "se_upLister C cluster r = Inr lister"
    using c sp json found ns by (cases "se_upLister C cluster r") (auto simp: spec_process_def Let_def)
  note known = sp json found ns lister
  have d: "is_downstream_namespace C cluster upNs ns" using json found ns by (blast intro: downstream_namespace_found)
  show ?thesis
  proof (cases "lister upNs name")
    case (Inl e)
    with c known have e: "e = NotFound" by (cases e) (auto simp: spec_process_def Let_def)
    with Inl known have p: "spec_process C r key init = delete_downstream C r ns name" by (simp add: spec_process_def)
    with c have "c = DownDelete r ns name" by (auto simp: delete_downstream_def in_andThen split: if_splits)
    with Inl e p known d show ?thesis by blast
  next
    case (Inr up)
    have "\<exists>v. spec_process C r key init = upsert_downstream C (r\<lparr>gvr_Version := v\<rparr>) ns ?l up init"
    proof (cases "go_str (Annotations up) (se_originalVersionKey C) = []")
      case True
      with Inr known show ?thesis by (intro exI [of _ "gvr_Version r"]) (auto simp: spec_process_def)
    next
      case False
      then show ?thesis
        using c Inr known by (cases "se_parseGroupVersion C (go_str (Annotations up) (se_originalVersionKey C))") (auto simp: spec_process_def)
    qed
    with Inr known d show ?thesis by blast
  qed
qed


section \<open>What is written downstream\<close>

text \<open>The namespace was created for the locator of the object, or exists and carries that locator.\<close>

definition namespace_owned :: "spec_env \<Rightarrow> string \<Rightarrow> unstr \<Rightarrow> bool" where
  "namespace_owned C ns up \<longleftrightarrow>
     (\<exists>json tenantID. marshal_locator (se_json C) (desired_locator C (Cluster up) (Namespace up)) = Inr json
        \<and> se_answer C (NSCreate (new_namespace ns json (se_syncTargetKey C) tenantID)) = None)
   \<or> (\<exists>obj. (se_nsGet C ns = Inr obj \<or> (\<exists>lister. se_downLister C spec_namespaceGVR = Inr lister \<and> lister ns = Inr obj))
        \<and> LocatorFromAnnotations (se_json C) (Annotations obj) = Inr (Some (desired_locator C (Cluster up) (Namespace up))))"

lemma check_namespace_ok:
  "snd (check_namespace C l t ns) = Inr u \<Longrightarrow> LocatorFromAnnotations (se_json C) (Annotations ns) = Inr (Some l)"
  by (auto simp: check_namespace_def ok_andThen split: option.splits if_splits)

lemma ensureNamespace_owned:
  assumes "snd (ensureDownstreamNamespaceExists C ns up) = Inr u"
  shows "namespace_owned C ns up"
proof -
  let ?l = "desired_locator C (Cluster up) (Namespace up)"
  obtain json tenantID lister where k: "marshal_locator (se_json C) ?l = Inr json" "GetTenantID (se_json C) ?l = Inr tenantID"
    "se_downLister C spec_namespaceGVR = Inr lister"
    using assms by (auto simp: ensureDownstreamNamespaceExists_def ok_andThen Let_def)
  show ?thesis
  proof (cases "lister ns")
    case (Inr obj)
    with assms k have "snd (check_namespace C ?l tenantID obj) = Inr u"
      by (simp add: ensureDownstreamNamespaceExists_def ok_andThen Let_def)
    with k Inr show ?thesis by (auto simp: namespace_owned_def dest!: check_namespace_ok)
  next
    case (Inl e)
    let ?create = "NSCreate (new_namespace ns json (se_syncTargetKey C) tenantID)"
    have "se_answer C ?create = None \<or> (\<exists>obj. se_nsGet C ns = Inr obj \<and> snd (check_namespace C ?l tenantID obj) = Inr u)"
      using assms k Inl
      by (cases e; cases "se_answer C ?create")
        (auto simp: ensureDownstreamNamespaceExists_def ok_andThen Let_def split: go_error.splits)
    with k show ?thesis by (auto simp: namespace_owned_def dest!: check_namespace_ok)
  qed
qed

lemma process_apply:
  assumes "DownApply r' ns obj \<in> set (fst (spec_process C r key init))"
  obtains cluster upNs name lister up mutated d where "se_split C key = Inr (cluster, upNs, name)"
    "se_upLister C cluster r = Inr lister" "lister upNs name = Inr up" "hasFinalizer C up"
    "\<not> (intendedToBeRemoved C up \<and> \<not> stillOwned C up)" "ns \<noteq> [] \<longrightarrow> namespace_owned C ns up"
    "downstream_object C ns up mutated = Inr d" "patch_spec C up d = Inr obj"
    "spec_process C r key init = upsert_downstream C r' ns (desired_locator C cluster upNs) up init"
proof -
  from process_object_calls [OF assms] obtain cluster upNs name lister r1 ns1 up where
    p: "se_split C key = Inr (cluster, upNs, name)" "se_upLister C cluster r = Inr lister" "lister upNs name = Inr up"
      "spec_process C r key init = upsert_downstream C r1 ns1 (desired_locator C cluster upNs) up init"
    by auto
  from assms p(4) have "DownApply r' ns obj \<in> set (fst (upsert_downstream C r1 ns1 (desired_locator C cluster upNs) up init))" by simp
  from upsert_object_calls [OF this] have u: "ns1 \<noteq> [] \<longrightarrow> snd (ensureDownstreamNamespaceExists C ns1 up) = Inr ()"
    "snd (ensureSyncerFinalizer C r1 up) = Inr False" "DownApply r' ns obj \<in> set (fst (applyToDownstream C r1 ns1 up))"
    by (auto simp: sync_object_calls dest: ensureSyncerFinalizer_calls split: if_splits)
  from apply_calls [OF u(3)] obtain mutated d where a: "r' = r1" "ns = ns1" "\<not> (intendedToBeRemoved C up \<and> \<not> stillOwned C up)"
    "downstream_object C ns up mutated = Inr d" "patch_spec C up d = Inr obj" by auto
  from u(2) a(3) have "hasFinalizer C up" by (simp add: ensureSyncerFinalizer_present)
  with p a u(1) show thesis by (intro that [of cluster upNs name lister up mutated d]) (auto intro: ensureNamespace_owned)
qed

text \<open>
  C6: The spec syncer writes to the downstream cluster only under its guards. Whenever a run applies an
  object, the upstream object is in the lister under the processed key, already carries the finalizer of
  this sync target, and is not to be removed from it (or an external finalizer still holds it). If the
  object is namespaced, the target namespace was created in this run with the locator of the object's
  workspace and namespace, or exists with exactly this locator, so that no object is written into the
  namespace of another workspace or of another sync target.
\<close>

theorem downstream_write_guarded:
  assumes "DownApply r' ns obj \<in> set (fst (spec_process C r key init))"
  shows "\<exists>cluster upNs name lister up. se_split C key = Inr (cluster, upNs, name) \<and> se_upLister C cluster r = Inr lister
    \<and> lister upNs name = Inr up \<and> hasFinalizer C up \<and> \<not> (intendedToBeRemoved C up \<and> \<not> stillOwned C up)
    \<and> (ns \<noteq> [] \<longrightarrow> namespace_owned C ns up)"
  using assms by (rule process_apply) blast

lemma label_keys_distinct [simp]:
  "InternalDownstreamClusterLabel \<noteq> state_label k" "state_label k \<noteq> InternalDownstreamClusterLabel"
  "NamespaceLocatorAnnotation \<noteq> InternalClusterStatusAnnotationPrefix @ k" "InternalClusterStatusAnnotationPrefix @ k \<noteq> NamespaceLocatorAnnotation"
  "clusterAnnotationKey \<noteq> NamespaceLocatorAnnotation" "NamespaceLocatorAnnotation \<noteq> clusterAnnotationKey"
  by (simp_all add: InternalDownstreamClusterLabel_def ClusterResourceStateLabelPrefix_def NamespaceLocatorAnnotation_def
      InternalClusterStatusAnnotationPrefix_def clusterAnnotationKey_def)

lemma go_set_get: "go_set m k v = Inr m' \<Longrightarrow> go_get m' k' = (if k' = k then Some v else go_get m k')"
  by (cases m) auto

lemma empty_map_get: "entries m = [] \<Longrightarrow> go_get m k = None"
  by (simp add: go_get_def)

text \<open>The metadata of an object that is written downstream.\<close>

definition sanitised :: "spec_env \<Rightarrow> string \<Rightarrow> unstr \<Rightarrow> unstr \<Rightarrow> bool" where
  "sanitised C ns up obj \<longleftrightarrow>
     Name obj = getTransformedName up \<and> Namespace obj = ns \<and> UID obj = [] \<and> ResourceVersion obj = []
   \<and> Finalizers obj = [] \<and> OwnerReferences obj = [] \<and> DeletionTimestamp obj = None
   \<and> u_ManagedFields obj = [] \<and> u_DeletionGracePeriodSeconds obj = None
   \<and> go_get (Labels obj) (state_label (se_syncTargetKey C)) = None
   \<and> go_get (Labels obj) InternalDownstreamClusterLabel = Some (se_syncTargetKey C)
   \<and> go_get (Annotations obj) clusterAnnotationKey = None
   \<and> go_get (Annotations obj) (InternalClusterStatusAnnotationPrefix @ se_syncTargetKey C) = None
   \<and> (ns = [] \<longrightarrow> (\<exists>json. marshal_locator (se_json C) (desired_locator C (Cluster up) []) = Inr json
        \<and> go_get (Annotations obj) NamespaceLocatorAnnotation = Some json))"

lemma downstream_object_sanitised:
  assumes "downstream_object C ns up mutated = Inr d"
  shows "sanitised C ns up d"
proof -
  let ?a0 = "go_del (InternalClusterStatusAnnotationPrefix @ se_syncTargetKey C) (go_del clusterAnnotationKey (Annotations mutated))"
  from assms obtain a1 labels where
    a1: "(if ns = [] then bindE (marshal_locator (se_json C) (desired_locator C (Cluster up) [])) (\<lambda>json. go_set ?a0 NamespaceLocatorAnnotation json)
         else Inr ?a0) = Inr a1"
    and labels: "go_set (go_del (state_label (se_syncTargetKey C)) (Labels mutated)) InternalDownstreamClusterLabel (se_syncTargetKey C) = Inr labels"
    and d: "d = mutated\<lparr>Name := getTransformedName up, UID := [], ResourceVersion := [], Namespace := ns, Cluster := [], u_ManagedFields := [],
             Annotations := (if entries a1 = [] then None else a1),
             DeletionTimestamp := None, u_DeletionGracePeriodSeconds := None, OwnerReferences := [], Finalizers := [], Labels := labels\<rparr>"
    by (auto simp: downstream_object_def Let_def bindE_Inr)
  have get: "go_get (Annotations d) k = go_get a1 k" for k by (simp add: d empty_map_get)
  have "go_get a1 clusterAnnotationKey = None" "go_get a1 (InternalClusterStatusAnnotationPrefix @ se_syncTargetKey C) = None"
    using a1 by (auto simp: bindE_Inr go_set_get split: if_splits)
  moreover have "\<exists>json. marshal_locator (se_json C) (desired_locator C (Cluster up) []) = Inr json
      \<and> go_get a1 NamespaceLocatorAnnotation = Some json" if "ns = []"
    using a1 that by (auto simp: bindE_Inr go_set_get)
  ultimately show ?thesis
    using go_set_get [OF labels] by (simp add: sanitised_def get) (simp add: d)
qed

lemma patch_spec_meta: "patch_spec C up d = Inr obj \<Longrightarrow> sanitised C ns up d \<Longrightarrow> sanitised C ns up obj"
  by (auto simp: patch_spec_def Let_def bindE_Inr sanitised_def split: if_splits option.splits)

text \<open>
  The object that the spec syncer applies downstream is stripped of everything that belongs to the
  upstream side, whatever the mutators do: it has the transformed name and the downstream namespace, no
  UID, resource version, managed fields, owner references, finalizers or deletion fields, neither the
  cluster annotation nor the status annotation of the sync target, the label of the downstream cluster
  in place of the state label; and if it is cluster-scoped, the locator annotation of the workspace of
  the upstream object.
\<close>

theorem downstream_object_stripped:
  assumes "DownApply r' ns obj \<in> set (fst (spec_process C r key init))"
  shows "\<exists>cluster upNs name lister up. se_split C key = Inr (cluster, upNs, name) \<and> se_upLister C cluster r = Inr lister
    \<and> lister upNs name = Inr up \<and> sanitised C ns up obj"
  using assms by (rule process_apply) (blast intro: patch_spec_meta downstream_object_sanitised)

lemma apply_release:
  assumes "UpUpdate r' obj \<in> set (fst (applyToDownstream C r ns up))"
  shows "r' = r \<and> intendedToBeRemoved C up \<and> \<not> stillOwned C up
    \<and> se_answer C (DownDelete r ns (getTransformedName up)) = Some NotFound
    \<and> fst (applyToDownstream C r ns up) = [DownDelete r ns (getTransformedName up), UpUpdate r obj]
    \<and> (\<exists>lister old. se_upLister C (Cluster up) r = Inr lister \<and> lister (Namespace up) (Name up) = Inr old
        \<and> intendedToBeRemoved C old \<and> obj = without_target (se_syncTargetKey C) old)"
proof -
  from apply_calls [OF assms] obtain lister old where
    f: "intendedToBeRemoved C up" "\<not> stillOwned C up" "se_answer C (DownDelete r ns (getTransformedName up)) = Some NotFound"
      "se_upLister C (Cluster up) r = Inr lister" "lister (Namespace up) (Name up) = Inr old" "intendedToBeRemoved C old"
      "obj = without_target (se_syncTargetKey C) old" "r' = r" by auto
  from f have m: "applyToDownstream C r ns up = andThen (attempt (se_answer C) (DownDelete r ns (getTransformedName up))) (\<lambda>err.
       case err of
         None \<Rightarrow> if ns \<noteq> [] then emit (SPlan ns) else okay ()
       | Some NotFound \<Rightarrow> andThen (check (se_upClient C (Cluster up))) (\<lambda>_.
             EnsureUpstreamFinalizerRemoved (se_answer C) (UpUpdate r) (se_syncTargetKey C) (Inr old))
       | Some e \<Rightarrow> fail e)"
    by (simp add: applyToDownstream_def)
  have "\<exists>c. fst (EnsureUpstreamFinalizerRemoved (se_answer C) (UpUpdate r) (se_syncTargetKey C) (Inr old)) = [c] \<or>
      fst (EnsureUpstreamFinalizerRemoved (se_answer C) (UpUpdate r) (se_syncTargetKey C) (Inr old)) = []"
    by (auto simp: EnsureUpstreamFinalizerRemoved_def fst_andThen)
  with assms f have "fst (applyToDownstream C r ns up) = [DownDelete r ns (getTransformedName up), UpUpdate r obj]"
    by (auto simp: m fst_andThen split: sum.splits)
  with f show ?thesis by blast
qed

text \<open>
  C7: The spec syncer gives an upstream object free only when its downstream object is gone. Every update of
  an upstream object that a run sends is for the object that the upstream lister holds under the
  processed key, in the processed resource (or the version of it that the object is annotated with). It
  either appends the finalizer of the sync target to this object, which does not have it and is not to be
  removed; or the object is to be removed from the sync target and no other finalizer holds it there, and
  the update is the last call of the run, straight after a deletion of the object's transformed name in
  its own downstream namespace, which the downstream API server has answered with NotFound. Then the
  update writes the object, as the lister holds it under its own cluster, namespace and name, without the
  marks of this sync target. The downstream namespace is the one that the namespace
  lister has for the locator of the key, or the one with the generated name if there is none.
\<close>

theorem finalizer_released_last:
  assumes "UpUpdate r' obj \<in> set (fst (spec_process C r key init))"
  shows "\<exists>cluster upNs name lister up ns v. se_split C key = Inr (cluster, upNs, name)
    \<and> se_upLister C cluster r = Inr lister \<and> lister upNs name = Inr up
    \<and> is_downstream_namespace C cluster upNs ns \<and> r' = r\<lparr>gvr_Version := v\<rparr>
    \<and> ((obj = up\<lparr>Finalizers := Finalizers up @ [syncer_finalizer (se_syncTargetKey C)]\<rparr>
          \<and> \<not> hasFinalizer C up \<and> (\<not> intendedToBeRemoved C up \<or> stillOwned C up))
       \<or> (intendedToBeRemoved C up \<and> \<not> stillOwned C up
          \<and> (\<exists>pre. fst (spec_process C r key init) = pre @ [DownDelete r' ns (getTransformedName up), UpUpdate r' obj])
          \<and> se_answer C (DownDelete r' ns (getTransformedName up)) = Some NotFound
          \<and> (\<exists>lister' old. se_upLister C (Cluster up) r' = Inr lister' \<and> lister' (Namespace up) (Name up) = Inr old
               \<and> intendedToBeRemoved C old \<and> obj = without_target (se_syncTargetKey C) old)))"
proof -
  from process_object_calls [OF assms] obtain cluster upNs name lister v ns up where
    p: "se_split C key = Inr (cluster, upNs, name)" "se_upLister C cluster r = Inr lister" "lister upNs name = Inr up"
      "is_downstream_namespace C cluster upNs ns"
      "spec_process C r key init = upsert_downstream C (r\<lparr>gvr_Version := v\<rparr>) ns (desired_locator C cluster upNs) up init"
    by auto
  let ?r = "r\<lparr>gvr_Version := v\<rparr>"
  from assms p(5) have c: "UpUpdate r' obj \<in> set (fst (upsert_downstream C ?r ns (desired_locator C cluster upNs) up init))" by simp
  note u = upsert_object_calls [OF c, simplified]
  show ?thesis
  proof (cases "UpUpdate r' obj \<in> set (fst (ensureSyncerFinalizer C ?r up))")
    case True
    moreover from True have "\<not> hasFinalizer C up \<and> (\<not> intendedToBeRemoved C up \<or> stillOwned C up)"
      by (auto simp: ensureSyncerFinalizer_def in_andThen split: if_splits)
    ultimately show ?thesis using p by (auto dest!: ensureSyncerFinalizer_calls)
  next
    case False
    with u have k: "snd (ensureSyncerFinalizer C ?r up) = Inr False" "UpUpdate r' obj \<in> set (fst (applyToDownstream C ?r ns up))"
      by (auto simp: sync_object_calls split: if_splits)
    note a = apply_release [OF k(2)]
    from u obtain pre where "fst (upsert_downstream C ?r ns (desired_locator C cluster upNs) up init) = pre @ fst (sync_object C ?r ns up)"
      by (metis append.assoc)
    with a k(1) p(5) have "\<exists>pre. fst (spec_process C r key init) = pre @ [DownDelete r' ns (getTransformedName up), UpUpdate r' obj]"
      by (simp add: sync_object_calls)
    with a p show ?thesis by blast
  qed
qed

section \<open>Cleaning of namespaces\<close>

fun cleaner_of :: "spec_call \<Rightarrow> cleaner_call list" where
  "cleaner_of (SPlan ns) = [PlanCall ns]"
| "cleaner_of (SCancel ns) = [CancelCall ns]"
| "cleaner_of _ = []"

abbreviation cleaner_calls :: "(spec_call, 'a) calls \<Rightarrow> cleaner_call list" where
  "cleaner_calls m \<equiv> concat (map cleaner_of (fst m))"

lemma no_cleaner_calls: "sends (\<lambda>c. cleaner_of c = []) m \<Longrightarrow> cleaner_calls m = []"
  by (simp add: sends_def)

lemma check_namespace_no_cleaner: "sends (\<lambda>c. cleaner_of c = []) (check_namespace C l t ns)"
  by (auto simp: check_namespace_def intro!: sends_andThen split: option.split)

lemma ensureNamespace_cleaner: "cleaner_calls (ensureDownstreamNamespaceExists C ns up) = [CancelCall ns]"
proof -
  have "\<exists>rest. ensureDownstreamNamespaceExists C ns up = andThen (emit (SCancel ns)) (\<lambda>_. rest) \<and> sends (\<lambda>c. cleaner_of c = []) rest"
    unfolding ensureDownstreamNamespaceExists_def
    by (rule exI, rule conjI, rule refl)
      (auto simp: Let_def check_namespace_no_cleaner intro!: sends_andThen split: sum.split go_error.split option.split)
  then obtain rest where "ensureDownstreamNamespaceExists C ns up = andThen (emit (SCancel ns)) (\<lambda>_. rest)" "sends (\<lambda>c. cleaner_of c = []) rest"
    by blast
  then show ?thesis using no_cleaner_calls [of rest] by (simp add: fst_andThen)
qed

lemma ensureSyncerFinalizer_no_cleaner: "cleaner_calls (ensureSyncerFinalizer C r up) = []"
  by (auto dest: ensureSyncerFinalizer_calls)

lemma finalizerRemoved_no_cleaner:
  "c \<in> set (fst (EnsureUpstreamFinalizerRemoved answer (UpUpdate r) k lookup)) \<Longrightarrow> cleaner_of c = []"
proof -
  have "sends (\<lambda>c. cleaner_of c = []) (EnsureUpstreamFinalizerRemoved answer (UpUpdate r) k lookup)"
    by (auto simp: EnsureUpstreamFinalizerRemoved_def split: sum.split go_error.split)
  then show "c \<in> set (fst (EnsureUpstreamFinalizerRemoved answer (UpUpdate r) k lookup)) \<Longrightarrow> cleaner_of c = []"
    by (rule sendsD)
qed

lemma apply_cleaner:
  "cleaner_calls (applyToDownstream C r ns up) =
     (if (\<exists>lister. se_upLister C (Cluster up) r = Inr lister) \<and> intendedToBeRemoved C up \<and> \<not> stillOwned C up
        \<and> se_answer C (DownDelete r ns (getTransformedName up)) = None \<and> ns \<noteq> [] then [PlanCall ns] else [])"
proof (cases "se_upLister C (Cluster up) r")
  case (Inr lister)
  show ?thesis
  proof (cases "intendedToBeRemoved C up \<and> \<not> stillOwned C up")
    case True
    with Inr show ?thesis
      by (cases "se_answer C (DownDelete r ns (getTransformedName up))")
        (auto simp: applyToDownstream_def fst_andThen dest: finalizerRemoved_no_cleaner split: go_error.split sum.split)
  next
    case False
    have "applyToDownstream C r ns up = andThen (lift_err (case se_mutators C r of None \<Rightarrow> Inr up | Some mutate \<Rightarrow> mutate up)) (\<lambda>mutated.
        andThen (lift_err (downstream_object C ns up mutated)) (\<lambda>d. andThen (lift_err (patch_spec C up d)) (\<lambda>patched.
        send_call (se_answer C) (DownApply r ns patched))))"
      by (simp only: applyToDownstream_def Inr andThen_simps if_not_P [OF False])
    then have "sends (\<lambda>c. cleaner_of c = []) (applyToDownstream C r ns up)" by (auto intro!: sends_andThen)
    from no_cleaner_calls [OF this] False show ?thesis by auto
  qed
qed (simp add: applyToDownstream_def)

lemma upsert_cleaner:
  assumes ns: "ns \<noteq> []" and c: "c \<in> set (fst (upsert_downstream C r ns l up init))" "touches_object c"
  shows "cleaner_calls (upsert_downstream C r ns l up init) =
    CancelCall ns # (if snd (ensureSyncerFinalizer C r up) = Inr False then cleaner_calls (applyToDownstream C r ns up) else [])"
proof -
  from upsert_object_calls [OF c] ns obtain pre where
    "fst (upsert_downstream C r ns l up init) = fst (ensureDownstreamNamespaceExists C ns up) @ pre @ fst (sync_object C r ns up)"
    and pre: "\<forall>c \<in> set pre. (\<exists>d. c = SDns d) \<or> (\<exists>i. c = SInitialized i)" by auto
  moreover from pre have "concat (map cleaner_of pre) = []" by (induction pre) auto
  ultimately show ?thesis
    using ensureNamespace_cleaner [of C ns up] ensureSyncerFinalizer_no_cleaner [of C r up] by (simp add: sync_object_calls)
qed

text \<open>
  The spec syncer tells the cleaner of namespaces the truth. Replay, at whatever instants, the calls
  that a run makes on the cleaner, on the tables of the namespace controller: if the run has applied
  an object in a namespace, the namespace is not planned for cleaning afterwards, even if it was planned
  before; if the run has successfully deleted an object from a namespace, the namespace is planned
  afterwards.
\<close>

theorem cleaner_follows_use:
  assumes timed: "map snd timed = cleaner_calls (spec_process C r key init)" and ns: "ns \<noteq> []"
  shows "(DownApply r' ns obj \<in> set (fst (spec_process C r key init)) \<longrightarrow>
      \<not> isPlannedForCleaning ns (run_cleaner (\<lambda>now k m. fst (PlanCleaning d now k m)) CancelCleaning timed m))
    \<and> (DownDelete r' ns name \<in> set (fst (spec_process C r key init)) \<and> se_answer C (DownDelete r' ns name) = None \<longrightarrow>
      isPlannedForCleaning ns (run_cleaner (\<lambda>now k m. fst (PlanCleaning d now k m)) CancelCleaning timed m))"
proof -
  have planned: "isPlannedForCleaning ns (run_cleaner (\<lambda>now k m. fst (PlanCleaning d now k m)) CancelCleaning timed m) = b"
    if "cleaner_calls (spec_process C r key init) = pre @ [if b then PlanCall ns else CancelCall ns]" for pre b
  proof -
    from timed that obtain tpre t where "timed = tpre @ [(t, if b then PlanCall ns else CancelCall ns)]"
      by (cases timed rule: rev_cases) auto
    then show ?thesis
      using downstream_cleaner.planned_after_calls [of d timed m ns] by (auto simp: isPlannedForCleaning_def go_has_def)
  qed
  have "cleaner_calls (spec_process C r key init) = [] @ [if False then PlanCall ns else CancelCall ns]"
    if "DownApply r' ns obj \<in> set (fst (spec_process C r key init))"
    using that
  proof (rule process_apply)
    fix l up
    assume p: "spec_process C r key init = upsert_downstream C r' ns l up init" "\<not> (intendedToBeRemoved C up \<and> \<not> stillOwned C up)"
    with upsert_cleaner [OF ns, of _ C r' l up init] that show ?thesis by (auto simp: apply_cleaner)
  qed
  moreover have "\<exists>pre. cleaner_calls (spec_process C r key init) = pre @ [if True then PlanCall ns else CancelCall ns]"
    if del: "DownDelete r' ns name \<in> set (fst (spec_process C r key init))" "se_answer C (DownDelete r' ns name) = None"
  proof -
    from process_object_calls [OF del(1)] consider "spec_process C r key init = delete_downstream C r' ns name"
      | r1 ns1 l up where "spec_process C r key init = upsert_downstream C r1 ns1 l up init" by auto
    then show ?thesis
    proof cases
      case 1
      with del ns show ?thesis by (simp add: delete_downstream_def fst_andThen)
    next
      case 2
      with del(1) have c: "DownDelete r' ns name \<in> set (fst (upsert_downstream C r1 ns1 l up init))" by simp
      from upsert_object_calls [OF c] have a: "snd (ensureSyncerFinalizer C r1 up) = Inr False"
        "DownDelete r' ns name \<in> set (fst (applyToDownstream C r1 ns1 up))"
        by (auto simp: sync_object_calls dest: ensureSyncerFinalizer_calls split: if_splits)
      from apply_calls [OF a(2)] have "r' = r1" "ns = ns1" "name = getTransformedName up" "intendedToBeRemoved C up" "\<not> stillOwned C up"
        by auto
      moreover have "\<exists>lister. se_upLister C (Cluster up) r1 = Inr lister"
        using a(2) by (cases "se_upLister C (Cluster up) r1") (auto simp: applyToDownstream_def)
      ultimately show ?thesis
        using upsert_cleaner [OF ns c [folded \<open>ns = ns1\<close>]] del(2) ns a(1) 2 by (simp add: apply_cleaner)
    qed
  qed
  ultimately show ?thesis using planned [of "[]" False] planned [of _ True] by blast
qed


text \<open>
  The collision check of cluster-scoped objects refuses the syncer's own objects. The locator that
  \<open>applyToDownstream\<close> writes on a cluster-scoped object names the workspace of the upstream object,
  while the check compares it with the workspace of the sync target: once the object is in the downstream
  lister, every further run for it passes the check if and only if the two workspaces are the same.
\<close>

theorem cluster_wide_self_collision:
  assumes laws: "json_laws (se_json C)"
    and written: "DownApply r [] obj \<in> set (fst (applyToDownstream C r [] up))"
    and cached: "se_downLister C r = Inr lister" "lister (Name up) = Inr obj"
  shows "snd (clusterWideCollisionCheck C r up) = Inr () \<longleftrightarrow> Cluster up = se_syncTargetClusterName C"
proof -
  from apply_calls [OF written] obtain mutated d where "downstream_object C [] up mutated = Inr d" "patch_spec C up d = Inr obj" by auto
  then have "sanitised C [] up obj" by (blast intro: patch_spec_meta downstream_object_sanitised)
  then obtain json where json: "marshal_locator (se_json C) (desired_locator C (Cluster up) []) = Inr json"
    "go_get (Annotations obj) NamespaceLocatorAnnotation = Some json" by (auto simp: sanitised_def)
  with laws have "unmarshal_locator (se_json C) json = Inr (desired_locator C (Cluster up) [])"
    by (metis json_laws_def sum.inject(2))
  with json have "\<exists>l. LocatorFromAnnotations (se_json C) (Annotations obj) = Inr (Some l) \<and> nl_ClusterName l = Cluster up"
    by (simp add: LocatorFromAnnotations_def desired_locator_def NewNamespaceLocator_def Let_def)
  with cached show ?thesis by (auto simp: clusterWideCollisionCheck_def ok_andThen split: if_splits)
qed

section \<open>Examples\<close>

definition ex_cm_gvr :: gvr where "ex_cm_gvr = configMapGVR"

definition ex_upstream :: "string \<Rightarrow> string \<Rightarrow> smap \<Rightarrow> unstr" where
  "ex_upstream ns name annotations =
     \<lparr>Name = name, Namespace = ns, Cluster = ''user'', UID = ''u1'', ResourceVersion = ''7'',
      Labels = Some [(state_label ''key'', ''Sync'')], Annotations = annotations, Finalizers = [syncer_finalizer ''key''],
      OwnerReferences = [''owner''], DeletionTimestamp = None, u_Group = [], u_Version = ''v1'', u_Kind = ''ConfigMap'',
      u_ManagedFields = [''kubectl''], u_DeletionGracePeriodSeconds = None, u_content = [(''data'', ''{}'')]\<rparr>"

definition ex_ready_dns :: dns_env where
  "ex_ready_dns = (ex_dns None)\<lparr>dn_endpoints := (\<lambda>_. Inr [\<lparr>es_Addresses = [''10.0.0.9''], es_Ports = []\<rparr>])\<rparr>"

definition ex_spec :: "unstr \<Rightarrow> (spec_call \<Rightarrow> go_error option) \<Rightarrow> spec_env" where
  "ex_spec up answer = \<lparr>se_syncTargetName = ''east'', se_syncTargetClusterName = ''root'', se_syncTargetUID = ''uid'',
     se_syncTargetKey = ''key'', se_advancedSchedulingEnabled = False, se_json = basic_json, se_dns = ex_ready_dns,
     se_mutators = (\<lambda>_. None), se_split = (\<lambda>_. Inr (''user'', Namespace up, Name up)), se_originalVersionKey = ''original'',
     se_parseGroupVersion = (\<lambda>_. Inl NotFound), se_decodePatch = (\<lambda>_. Inl NotFound),
     se_namespacesByLocator = (\<lambda>_. Inr []), se_upLister = (\<lambda>_ _. Inr (\<lambda>_ _. Inr up)),
     se_downLister = (\<lambda>_. Inr (\<lambda>_. Inl NotFound)), se_upClient = (\<lambda>_. None), se_nsGet = (\<lambda>_. Inl NotFound), se_answer = answer\<rparr>"

definition ex_config :: unstr where
  "ex_config = ex_upstream ''shop'' ''settings'' (Some [(clusterAnnotationKey, ''user'')])"

definition ex_removed :: unstr where
  "ex_removed = ex_upstream ''shop'' ''settings'' (Some [(deletion_annotation ''key'', ''now'')])"

abbreviation ex_ns_name :: string where "ex_ns_name \<equiv> ''kcp-'' @ replicate 12 (CHR ''0'')"

lemmas ex_spec_defs = ex_upstream_def ex_ready_dns_def ex_spec_def ex_config_def ex_removed_def

lemma ex_tenant: "\<exists>t. GetTenantID basic_json l = Inr t"
  by (simp add: GetTenantID_def basic_json_def)

lemma ex_dns_ready:
  "EnsureDNSUpAndReady ex_ready_dns (NewNamespaceLocator ''user'' ''root'' ''uid'' ''east'' ns) (Some [(ex_dns_id, True)])
   = (Some [(ex_dns_id, True)], [], Inr True)"
proof -
  have "GetDNSID (dn_json ex_ready_dns) ''user'' (dn_syncTargetUID ex_ready_dns) (dn_syncTargetName ex_ready_dns) = Inr ex_dns_id"
    using ex_dns_id [of None] by (simp add: ex_ready_dns_def ex_dns_locator_def NewNamespaceLocator_def)
  then show ?thesis
    by (simp add: EnsureDNSUpAndReady_def NewNamespaceLocator_def is_initialized_def go_get_def check_endpoints_def okay_def)
       (simp add: ex_ready_dns_def hasAtLeastOneReadyAddress_def okay_def)
qed

lemma ex_run:
  assumes "up = ex_config \<or> up = ex_removed" "\<forall>ns. answer (NSCreate ns) = None"
  shows "\<exists>pre. spec_process (ex_spec up answer) configMapGVR k (Some [(ex_dns_id, True)]) =
    andThen (SCancel ex_ns_name # pre, Inr ()) (\<lambda>_. sync_object (ex_spec up answer) configMapGVR ex_ns_name up)
    \<and> concat (map cleaner_of pre) = []"
proof -
  obtain t where t: "GetTenantID basic_json (NewNamespaceLocator ''user'' ''root'' ''uid'' ''east'' ''shop'') = Inr t" using ex_tenant by blast
  obtain j where j: "marshal_locator basic_json (NewNamespaceLocator ''user'' ''root'' ''uid'' ''east'' ''shop'') = Inr j"
    by (simp add: basic_json_def)
  have n: "PhysicalClusterNamespaceName basic_json (NewNamespaceLocator ''user'' ''root'' ''uid'' ''east'' ''shop'') = Inr ex_ns_name"
    using j by (simp add: PhysicalClusterNamespaceName_def Let_def) (simp add: basic_json_def)
  have v: "go_str (Annotations up) ''original'' = []" "Namespace up = ''shop''" "Cluster up = ''user''"
    using assms(1) by (auto simp: ex_config_def ex_removed_def ex_upstream_def go_str_def go_get_def clusterAnnotationKey_def
        InternalClusterDeletionTimestampAnnotationPrefix_def)
  have "spec_process (ex_spec up answer) configMapGVR k (Some [(ex_dns_id, True)])
      = upsert_downstream (ex_spec up answer) configMapGVR ex_ns_name (NewNamespaceLocator ''user'' ''root'' ''uid'' ''east'' ''shop'') up
          (Some [(ex_dns_id, True)])"
    using j n v by (simp add: spec_process_def desired_locator_def downstream_namespace_of_def ex_spec_def)
  moreover have "ensureDownstreamNamespaceExists (ex_spec up answer) ex_ns_name up
      = ([SCancel ex_ns_name, NSCreate (new_namespace ex_ns_name j ''key'' t)], Inr ())"
    using j t v assms(2) by (simp add: ensureDownstreamNamespaceExists_def desired_locator_def ex_spec_def emit_def attempt_def andThen_def lift_err_def okay_def)
  ultimately show ?thesis
    using ex_dns_ready [of "''shop''"]
    by (intro exI [of _ "[NSCreate (new_namespace ex_ns_name j ''key'' t), SInitialized (Some [(ex_dns_id, True)])]"])
       (simp add: upsert_downstream_def andThen_def ex_spec_def configMapGVR_def deploymentGVR_def split: prod.split)
qed


lemma ex_flags:
  "hasFinalizer (ex_spec up answer) ex_config" "\<not> intendedToBeRemoved (ex_spec up answer) ex_config"
  "hasFinalizer (ex_spec up answer) ex_removed" "intendedToBeRemoved (ex_spec up answer) ex_removed" "\<not> stillOwned (ex_spec up answer) ex_removed"
  by (simp_all add: ex_spec_defs hasFinalizer_def intendedToBeRemoved_def stillOwned_def go_str_def go_get_def clusterAnnotationKey_def
      InternalClusterDeletionTimestampAnnotationPrefix_def ClusterFinalizerAnnotationPrefix_def)

lemma ex_apply: "\<exists>obj. fst (sync_object (ex_spec ex_config answer) configMapGVR ex_ns_name ex_config) = [DownApply configMapGVR ex_ns_name obj]"
proof -
  let ?C = "ex_spec ex_config answer"
  have "\<exists>d. downstream_object ?C ex_ns_name ex_config ex_config = Inr d"
    by (simp add: downstream_object_def Let_def) (simp add: ex_config_def ex_upstream_def go_del_def)
  then obtain d where "downstream_object ?C ex_ns_name ex_config ex_config = Inr d" by blast
  moreover have "patch_spec ?C ex_config d = Inr d" for d by (simp add: patch_spec_def ex_spec_def)
  moreover have "se_upLister ?C c r = Inr (\<lambda>_ _. Inr ex_config)" "se_mutators ?C r = None" for c r by (simp_all add: ex_spec_def)
  ultimately have "fst (applyToDownstream ?C configMapGVR ex_ns_name ex_config) = [DownApply configMapGVR ex_ns_name d]"
    by (simp add: applyToDownstream_def ex_flags)
  then show ?thesis by (simp add: sync_object_calls ensureSyncerFinalizer_def ex_flags)
qed

lemma ex_delete:
  "fst (sync_object (ex_spec ex_removed answer) configMapGVR ex_ns_name ex_removed) =
     DownDelete configMapGVR ex_ns_name ''settings'' #
     (case answer (DownDelete configMapGVR ex_ns_name ''settings'') of
        None \<Rightarrow> [SPlan ex_ns_name] | Some NotFound \<Rightarrow> [UpUpdate configMapGVR (without_target ''key'' ex_removed)] | Some e \<Rightarrow> [])"
proof -
  let ?C = "ex_spec ex_removed answer"
  have n: "getTransformedName ex_removed = ''settings''"
    by (simp add: getTransformedName_def ex_removed_def ex_upstream_def is_kind_def)
  have "go_str (Annotations ex_removed) (deletion_annotation ''key'') \<noteq> []" by (simp add: ex_removed_def ex_upstream_def go_str_def go_get_def)
  moreover have "se_upLister ?C c r = Inr (\<lambda>_ _. Inr ex_removed)" "se_upClient ?C c = None" "se_answer ?C = answer" "se_syncTargetKey ?C = ''key''"
    for c r by (simp_all add: ex_spec_def)
  ultimately show ?thesis
    by (simp add: sync_object_calls ensureSyncerFinalizer_def ex_flags applyToDownstream_def n fst_andThen EnsureUpstreamFinalizerRemoved_def
        check_def split: option.split go_error.split)
qed

lemma ex_run_apply: "\<exists>obj. DownApply configMapGVR ex_ns_name obj
    \<in> set (fst (spec_process (ex_spec ex_config (\<lambda>_. None)) configMapGVR k (Some [(ex_dns_id, True)])))"
  using ex_run [of ex_config "\<lambda>_. None" k] ex_apply [of "\<lambda>_. None"] by (auto simp: in_andThen)

theorem downstream_write_guarded_witness:
  "\<exists>up. hasFinalizer (ex_spec ex_config (\<lambda>_. None)) up \<and> namespace_owned (ex_spec ex_config (\<lambda>_. None)) ex_ns_name up"
proof -
  obtain obj where "DownApply configMapGVR ex_ns_name obj
    \<in> set (fst (spec_process (ex_spec ex_config (\<lambda>_. None)) configMapGVR ''k'' (Some [(ex_dns_id, True)])))" using ex_run_apply by blast
  from downstream_write_guarded [OF this] show ?thesis by auto
qed

theorem downstream_object_stripped_witness:
  "\<exists>obj up. sanitised (ex_spec ex_config (\<lambda>_. None)) ex_ns_name up obj"
proof -
  obtain obj where "DownApply configMapGVR ex_ns_name obj
    \<in> set (fst (spec_process (ex_spec ex_config (\<lambda>_. None)) configMapGVR ''k'' (Some [(ex_dns_id, True)])))" using ex_run_apply by blast
  from downstream_object_stripped [OF this] show ?thesis by blast
qed

definition ex_answer :: "spec_call \<Rightarrow> go_error option" where
  "ex_answer c = (case c of DownDelete _ _ _ \<Rightarrow> Some NotFound | _ \<Rightarrow> None)"

theorem finalizer_released_last_witness:
  "\<exists>pre ns. fst (spec_process (ex_spec ex_removed ex_answer) configMapGVR ''k'' (Some [(ex_dns_id, True)])) =
     pre @ [DownDelete configMapGVR ns (getTransformedName ex_removed), UpUpdate configMapGVR (without_target ''key'' ex_removed)]"
proof -
  let ?run = "spec_process (ex_spec ex_removed ex_answer) configMapGVR ''k'' (Some [(ex_dns_id, True)])"
  have "UpUpdate configMapGVR (without_target ''key'' ex_removed) \<in> set (fst ?run)"
    using ex_run [of ex_removed ex_answer "''k''"] ex_delete [of ex_answer] by (auto simp: in_andThen ex_answer_def)
  from finalizer_released_last [OF this] show ?thesis
    using ex_flags(3) [of ex_removed ex_answer] by (auto simp: ex_spec_def)
qed

theorem cleaner_follows_use_witness:
  "\<not> isPlannedForCleaning ex_ns_name (run_cleaner (\<lambda>now k m. fst (PlanCleaning 30 now k m)) CancelCleaning
      [(100, CancelCall ex_ns_name)] (Some [(ex_ns_name, 90)]))"
proof -
  let ?run = "spec_process (ex_spec ex_config (\<lambda>_. None)) configMapGVR ''k'' (Some [(ex_dns_id, True)])"
  obtain obj where a: "DownApply configMapGVR ex_ns_name obj \<in> set (fst ?run)" using ex_run_apply by blast
  have "map snd [(100 :: time, CancelCall ex_ns_name)] = cleaner_calls ?run"
    using ex_run [of ex_config "\<lambda>_. None" "''k''"] ex_apply [of "\<lambda>_. None"] by (auto simp: fst_andThen)
  from cleaner_follows_use [OF this] a show ?thesis by auto
qed

theorem cluster_wide_self_collision_witness:
  "\<exists>obj. snd (clusterWideCollisionCheck
      ((ex_spec (ex_upstream [] ''pv'' (Some [(clusterAnnotationKey, ''user'')])) (\<lambda>_. None))\<lparr>se_downLister := (\<lambda>_. Inr (\<lambda>_. Inr obj))\<rparr>)
      ex_cm_gvr (ex_upstream [] ''pv'' (Some [(clusterAnnotationKey, ''user'')]))) \<noteq> Inr ()"
proof -
  let ?up = "ex_upstream [] ''pv'' (Some [(clusterAnnotationKey, ''user'')])"
  let ?C = "\<lambda>obj. (ex_spec ?up (\<lambda>_. None))\<lparr>se_downLister := (\<lambda>_. Inr (\<lambda>_. Inr obj))\<rparr>"
  have f: "\<not> intendedToBeRemoved (?C o0) ?up" for o0
    by (simp add: intendedToBeRemoved_def ex_spec_def ex_upstream_def go_str_def go_get_def clusterAnnotationKey_def
        InternalClusterDeletionTimestampAnnotationPrefix_def)
  have "\<exists>obj. \<forall>o0. fst (applyToDownstream (?C o0) ex_cm_gvr [] ?up) = [DownApply ex_cm_gvr [] obj]"
    by (simp add: applyToDownstream_def f)
       (simp add: ex_spec_def downstream_object_def patch_spec_def desired_locator_def basic_json_def ex_upstream_def go_del_def Let_def)
  then obtain obj where "DownApply ex_cm_gvr [] obj \<in> set (fst (applyToDownstream (?C obj) ex_cm_gvr [] ?up))" by auto
  from cluster_wide_self_collision [OF _ this, of "\<lambda>_. Inr obj"] show ?thesis
    by (auto simp: ex_spec_def ex_upstream_def intro!: exI [of _ obj])
qed

end
