(* ===== verification/Spec_Events.thy ===== *)
theory Spec_Events
  imports Spec_Syncer
begin

text \<open>
  The event side of \<^verbatim>\<open>src/pkg/syncer/spec/spec_controller.go\<close>: which objects are queued when an upstream
  object changes or a downstream object is deleted, how the listers are found in the informer factories,
  and the worker loop. The informer factories, the shard access and the key functions are parameters.
\<close>

section \<open>Access to the informers\<close>

text \<open>An informer factory: its synced informers, each with its lister, and the types not synced yet.\<close>

record 'l informer_factory =
  if_Informers :: "(gvr \<times> 'l) list"
  if_notSynced :: "gvr list"

definition getDownstreamLister :: "'l informer_factory \<Rightarrow> gvr \<Rightarrow> go_error + 'l" where
  "getDownstreamLister factory r =
     (case map_of (if_Informers factory) r of
        Some lister \<Rightarrow> Inr lister
      | None \<Rightarrow>
          if ContainsGVR (if_notSynced factory) r
          then Inl (Failure ''informer for gvr not synced in the downstream informer factory'')
          else Inl (Failure ''gvr should be known in the downstream informer factory''))"

text \<open>\<open>GetShardAccessFunc\<close>: the clients and informers of the shard that serves a logical cluster.\<close>

type_synonym 'l shard_access = "string \<Rightarrow> go_error + (string \<Rightarrow> 'l) informer_factory option"

definition getUpstreamClient :: "'l shard_access \<Rightarrow> string \<Rightarrow> go_error option" where
  "getUpstreamClient getShardAccess clusterName =
     (case getShardAccess clusterName of
        Inl e \<Rightarrow> Some e
      | Inr None \<Rightarrow> Some (Failure ''shard-related clients not found for cluster'')
      | Inr (Some _) \<Rightarrow> None)"

definition getUpstreamLister :: "'l shard_access \<Rightarrow> string \<Rightarrow> gvr \<Rightarrow> go_error + 'l" where
  "getUpstreamLister getShardAccess clusterName r =
     bindE (getShardAccess clusterName) (\<lambda>access.
       case access of
         None \<Rightarrow> Inl (Failure ''shard-related clients not found for cluster'')
       | Some factory \<Rightarrow>
           (case map_of (if_Informers factory) r of
              Some byCluster \<Rightarrow> Inr (byCluster clusterName)
            | None \<Rightarrow>
                if ContainsGVR (if_notSynced factory) r
                then Inl (Failure ''informer for gvr not synced in the upstream syncer informer factory'')
                else Inl (Failure ''gvr should be known in the upstream syncer informer factory'')))"


section \<open>Upstream events\<close>

definition AddToQueue :: "(unstr \<Rightarrow> go_error + string) \<Rightarrow> gvr \<Rightarrow> unstr \<Rightarrow> (gvr \<times> string) list" where
  "AddToQueue keyFunc r obj = (case keyFunc obj of Inl e \<Rightarrow> [] | Inr key \<Rightarrow> [(r, key)])"


definition spec_added :: "(unstr \<Rightarrow> go_error + string) \<Rightarrow> gvr \<Rightarrow> unstr \<Rightarrow> (gvr \<times> string) list" where
  "spec_added keyFunc r obj = (if r = spec_namespaceGVR then [] else AddToQueue keyFunc r obj)"

definition spec_updated :: "(unstr \<Rightarrow> go_error + string) \<Rightarrow> gvr \<Rightarrow> unstr \<Rightarrow> unstr \<Rightarrow> (gvr \<times> string) list" where
  "spec_updated keyFunc r oldObj newObj =
     (if r = spec_namespaceGVR then []
      else if \<not> deepEqualApartFromStatus oldObj newObj then AddToQueue keyFunc r newObj else [])"

definition spec_deleted :: "(unstr \<Rightarrow> go_error + string) \<Rightarrow> gvr \<Rightarrow> unstr \<Rightarrow> (gvr \<times> string) list" where
  "spec_deleted keyFunc r obj = (if r = spec_namespaceGVR then [] else AddToQueue keyFunc r obj)"

section \<open>Deletion of a downstream object\<close>

definition is_upsynced :: "string \<Rightarrow> unstr \<Rightarrow> bool" where
  "is_upsynced syncTargetKey obj \<longleftrightarrow> go_str (Labels obj) (state_label syncTargetKey) = ResourceStateUpsync"

text \<open>The object whose key is queued: metadata only.\<close>

definition upstream_meta :: "string \<Rightarrow> string \<Rightarrow> string \<Rightarrow> object_meta" where
  "upstream_meta cluster ns name =
     \<lparr>Name = name, Namespace = ns, Cluster = cluster, UID = [], ResourceVersion = [], Labels = None,
      Annotations = Some [(clusterAnnotationKey, cluster)], Finalizers = [], OwnerReferences = [], DeletionTimestamp = None\<rparr>"

record deletion_env =
  dl_json :: json_lib
  dl_syncTargetKey :: string
  dl_downKey :: "unstr \<Rightarrow> go_error + string"                     \<comment> \<open>\<open>cache.DeletionHandlingMetaNamespaceKeyFunc\<close>\<close>
  dl_split :: "string \<Rightarrow> go_error + (string \<times> string)"
  dl_namespaceLister :: "go_error + (string \<Rightarrow> go_error + unstr)"
  dl_upKey :: "object_meta \<Rightarrow> go_error + string"                 \<comment> \<open>the cluster-aware key function of kcp\<close>

text \<open>The calls on the cleaner, the keys queued and the errors handled.\<close>

definition enqueue_upstream :: "deletion_env \<Rightarrow> gvr \<Rightarrow> string \<Rightarrow> unstr \<Rightarrow> (gvr \<times> string) list \<times> go_error list" where
  "enqueue_upstream E r name nsLocatorHolder =
     (case go_get (Annotations nsLocatorHolder) NamespaceLocatorAnnotation of
        None \<Rightarrow> ([], [Failure ''unable to find the locator annotation in resource''])
      | Some locator \<Rightarrow>
          (case unmarshal_locator (dl_json E) locator of
             Inl e \<Rightarrow> ([], [e])
           | Inr nsLocator \<Rightarrow>
               (case dl_upKey E (upstream_meta (nl_ClusterName nsLocator) (nl_Namespace nsLocator) (GetUpstreamResourceName r name)) of
                  Inl e \<Rightarrow> ([], [e]) | Inr key \<Rightarrow> ([(r, key)], []))))"

text \<open>An error of \<open>SplitMetaNamespaceKey\<close> is reported, but the handler goes on with empty names.\<close>

definition downstream_deleted :: "deletion_env \<Rightarrow> gvr \<Rightarrow> unstr \<Rightarrow> cleaner_call list \<times> (gvr \<times> string) list \<times> go_error list" where
  "downstream_deleted E r obj =
     (if r = spec_namespaceGVR \<or> is_upsynced (dl_syncTargetKey E) obj then ([], [], [])
      else case dl_downKey E obj of
        Inl e \<Rightarrow> ([], [], [e])
      | Inr key \<Rightarrow>
          let (ns, name, errs) = (case dl_split E key of Inr (ns, name) \<Rightarrow> (ns, name, []) | Inl e \<Rightarrow> ([], [], [e])) in
          if ns \<noteq> []
          then (case dl_namespaceLister E of
                  Inl e \<Rightarrow> ([], [], errs @ [e])
                | Inr lister \<Rightarrow>
                    (case lister ns of
                       Inl NotFound \<Rightarrow> ([], [], errs)
                     | Inl e \<Rightarrow> ([], [], errs @ [e])
                     | Inr nsObj \<Rightarrow> (case enqueue_upstream E r name nsObj of (items, es) \<Rightarrow> ([PlanCall ns], items, errs @ es))))
          else (case enqueue_upstream E r name obj of (items, es) \<Rightarrow> ([], items, errs @ es)))"

section \<open>The worker\<close>

definition spec_processNextWorkItem ::
  "spec_env \<Rightarrow> bool gomap \<Rightarrow> (gvr \<times> string) option \<Rightarrow> bool \<times> (gvr \<times> string) queue_call list \<times> go_error list" where
  "spec_processNextWorkItem C initialized = processNextAfter (\<lambda>(r, key). snd (spec_process C r key initialized))"

section \<open>Properties\<close>

text \<open>
  When the downstream copy of an object is deleted, the syncer queues the original, and plans the
  cleaning of the namespace: for a copy that the spec syncer has named, in a namespace with the locator
  that the spec syncer gives it, the handler queues exactly the key of the upstream workspace, namespace
  and name, so that the copy is made again if the original is still there.
\<close>

theorem deleted_copy_requeues_original:
  assumes laws: "json_laws (se_json C)"
    and env: "dl_json E = se_json C" "dl_downKey E copy = Inr k" "dl_split E k = Inr (ns, getTransformedName up)"
      "dl_namespaceLister E = Inr lister" "lister ns = Inr nsObj"
    and copy: "r \<noteq> spec_namespaceGVR" "\<not> is_upsynced (dl_syncTargetKey E) copy" "ns \<noteq> []"
    and owner: "marshal_locator (se_json C) (desired_locator C (Cluster up) (Namespace up)) = Inr json"
      "go_get (Annotations nsObj) NamespaceLocatorAnnotation = Some json"
    and kind: "r = configMapGVR \<longleftrightarrow> is_kind ''ConfigMap'' up" "r = secretGVR \<longleftrightarrow> is_kind ''Secret'' up"
      "r = configMapGVR \<longrightarrow> Name up \<noteq> ''kcp-root-ca.crt''" "r = secretGVR \<longrightarrow> \<not> has_prefix (Name up) ''kcp-default-token''"
    and key: "dl_upKey E (upstream_meta (Cluster up) (Namespace up) (Name up)) = Inr key"
  shows "downstream_deleted E r copy = ([PlanCall ns], [(r, key)], [])"
proof -
  have "unmarshal_locator (dl_json E) json = Inr (desired_locator C (Cluster up) (Namespace up))"
    using laws owner(1) env(1) by (metis json_laws_def sum.inject(2))
  then have "enqueue_upstream E r (getTransformedName up) nsObj = ([(r, key)], [])"
    using owner(2) key upstream_name_of_transformed [OF kind]
    by (simp add: enqueue_upstream_def desired_locator_def NewNamespaceLocator_def)
  with env copy show ?thesis by (simp add: downstream_deleted_def)
qed

theorem deleted_copy_requeues_original_witness:
  "\<exists>E copy. downstream_deleted E configMapGVR copy = ([PlanCall ''ns''], [(configMapGVR, ''user|shop/settings'')], [])"
proof -
  let ?C = "ex_spec ex_config (\<lambda>_. None)"
  obtain json where json: "marshal_locator (se_json ?C) (desired_locator ?C (Cluster ex_config) (Namespace ex_config)) = Inr json"
    by (simp add: ex_spec_def basic_json_def)
  let ?ns = "ex_upstream [] ''ns'' (Some [(NamespaceLocatorAnnotation, json)])"
  let ?E = "\<lparr>dl_json = basic_json, dl_syncTargetKey = ''key'', dl_downKey = (\<lambda>_. Inr ''k''), dl_split = (\<lambda>_. Inr (''ns'', getTransformedName ex_config)),
      dl_namespaceLister = Inr (\<lambda>_. Inr ?ns), dl_upKey = (\<lambda>m. Inr (Cluster m @ ''|'' @ Namespace m @ ''/'' @ Name m))\<rparr>"
  have "downstream_deleted ?E configMapGVR ex_config = ([PlanCall ''ns''], [(configMapGVR, ''user|shop/settings'')], [])"
    by (rule deleted_copy_requeues_original [of ?C ?E _ "''k''" "''ns''" ex_config "\<lambda>_. Inr ?ns" ?ns _ json])
      (use json in \<open>auto simp: ex_spec_def ex_config_def ex_upstream_def go_get_def go_str_def configMapGVR_def secretGVR_def spec_namespaceGVR_def
        is_upsynced_def ResourceStateUpsync_def is_kind_def upstream_meta_def\<close>)
  then show ?thesis by blast
qed

end
