(* ===== verification/Status_Syncer.thy ===== *)
theory Status_Syncer
  imports Spec_Events
begin

text \<open>
  \<^verbatim>\<open>src/pkg/syncer/status\<close>: the syncer from downstream to upstream. \<open>process\<close> finds, through the locator of
  its namespace, the upstream object of a downstream object, and copies the status upstream, or, if the
  downstream object does not exist, removes the syncer's finalizer from the upstream object.

  The last section shows that the two syncers do not trigger each other: what the status syncer writes
  upstream is not an update that the spec syncer processes.

  Parameters (record \<open>status_env\<close>): listers, answers of the upstream API server, key splitting, the JSON
  encoding of a status. The listers and clients are the function-typed fields of the controller; the access
  functions of \<^verbatim>\<open>Spec_Events\<close> are what the constructor puts there.
\<close>

section \<open>State and calls\<close>

type_synonym lister = "string \<Rightarrow> string \<Rightarrow> go_error + unstr"   \<comment> \<open>namespace (empty if cluster-scoped) and name\<close>

datatype status_call = StUpdate gvr unstr | StUpdateStatus gvr unstr

record status_env =
  ss_syncTargetWorkspace :: string
  ss_syncTargetUID :: string
  ss_syncTargetKey :: string
  ss_advancedSchedulingEnabled :: bool
  ss_json :: json_lib
  ss_marshalStatus :: "string \<Rightarrow> go_error + string"
  ss_split :: "string \<Rightarrow> go_error + (string \<times> string)"
  ss_downLister :: "gvr \<Rightarrow> go_error + lister"
  ss_upLister :: "string \<Rightarrow> gvr \<Rightarrow> go_error + lister"
  ss_upClient :: "string \<Rightarrow> go_error option"
  ss_answer :: "status_call \<Rightarrow> go_error option"

section \<open>Events\<close>

definition deepEqualFinalizersAndStatus :: "unstr \<Rightarrow> unstr \<Rightarrow> bool" where
  "deepEqualFinalizersAndStatus oldObj newObj \<longleftrightarrow>
     Finalizers oldObj = Finalizers newObj \<and> map_of (u_content oldObj) ''status'' = map_of (u_content newObj) ''status''"

definition status_added :: "string \<Rightarrow> (unstr \<Rightarrow> go_error + string) \<Rightarrow> gvr \<Rightarrow> unstr \<Rightarrow> (gvr \<times> string) list" where
  "status_added syncTargetKey keyFunc r obj =
     (if r = spec_namespaceGVR \<or> is_upsynced syncTargetKey obj then [] else AddToQueue keyFunc r obj)"

definition status_updated :: "string \<Rightarrow> (unstr \<Rightarrow> go_error + string) \<Rightarrow> gvr \<Rightarrow> unstr \<Rightarrow> unstr \<Rightarrow> (gvr \<times> string) list" where
  "status_updated syncTargetKey keyFunc r oldObj newObj =
     (if r = spec_namespaceGVR \<or> is_upsynced syncTargetKey newObj \<or> deepEqualFinalizersAndStatus oldObj newObj then []
      else AddToQueue keyFunc r newObj)"

definition status_deleted :: "string \<Rightarrow> (unstr \<Rightarrow> go_error + string) \<Rightarrow> gvr \<Rightarrow> unstr \<Rightarrow> (gvr \<times> string) list" where
  "status_deleted syncTargetKey keyFunc r obj =
     (if r = spec_namespaceGVR \<or> is_upsynced syncTargetKey obj then [] else AddToQueue keyFunc r obj)"

section \<open>Copying the status\<close>

definition with_status_annotation :: "string \<Rightarrow> string \<Rightarrow> unstr \<Rightarrow> unstr" where
  "with_status_annotation syncTargetKey statusJSON existing =
     existing\<lparr>Annotations := Some (go_put (InternalClusterStatusAnnotationPrefix @ syncTargetKey) statusJSON (entries (Annotations existing)))\<rparr>"

definition with_status :: "string \<Rightarrow> unstr \<Rightarrow> unstr" where
  "with_status status existing = existing\<lparr>u_content := go_put ''status'' status (u_content existing)\<rparr>"

definition updateStatusInUpstream :: "status_env \<Rightarrow> gvr \<Rightarrow> lister \<Rightarrow> string \<Rightarrow> string \<Rightarrow> unstr \<Rightarrow> (status_call, unit) calls" where
  "updateStatusInUpstream C r upstreamLister upstreamNamespace upstreamName downstreamObj =
     (case map_of (u_content downstreamObj) ''status'' of
        None \<Rightarrow> okay ()
      | Some downstreamStatus \<Rightarrow>
          andThen (lift_err (upstreamLister upstreamNamespace upstreamName)) (\<lambda>existing.
          if ss_advancedSchedulingEnabled C
          then andThen (lift_err (ss_marshalStatus C downstreamStatus)) (\<lambda>statusAnnotationValue.
            let newUpstream = with_status_annotation (ss_syncTargetKey C) statusAnnotationValue existing in
            if existing = newUpstream then okay () else send_call (ss_answer C) (StUpdate r newUpstream))
          else send_call (ss_answer C) (StUpdateStatus r (with_status downstreamStatus existing))))"

section \<open>Processing a key\<close>

text \<open>The locator of a namespace or of a cluster-scoped object; \<open>None\<close> if the key is to be ignored.\<close>

definition locator_of :: "status_env \<Rightarrow> go_error + unstr \<Rightarrow> namespace_locator option" where
  "locator_of C holder =
     (case holder of
        Inl e \<Rightarrow> None
      | Inr obj \<Rightarrow> (case LocatorFromAnnotations (ss_json C) (Annotations obj) of Inr (Some l) \<Rightarrow> Some l | _ \<Rightarrow> None))"

definition is_own :: "status_env \<Rightarrow> namespace_locator \<Rightarrow> bool" where
  "is_own C l \<longleftrightarrow> stl_UID (nl_SyncTarget l) = ss_syncTargetUID C \<and> stl_ClusterName (nl_SyncTarget l) = ss_syncTargetWorkspace C"

text \<open>The part after the locator is known.\<close>

definition sync_status :: "status_env \<Rightarrow> gvr \<Rightarrow> string \<Rightarrow> namespace_locator \<Rightarrow> unstr option \<Rightarrow> (status_call, unit) calls" where
  "sync_status C r downstreamName l downstreamObj =
     (if \<not> is_own C l then okay ()
      else
      let upstreamNamespace = nl_Namespace l; upstreamName = GetUpstreamResourceName r downstreamName in
      andThen (lift_err (ss_upLister C (nl_ClusterName l) r)) (\<lambda>upstreamLister.
      andThen (check (ss_upClient C (nl_ClusterName l))) (\<lambda>_.
      case downstreamObj of
        None \<Rightarrow> EnsureUpstreamFinalizerRemoved (ss_answer C) (StUpdate r) (ss_syncTargetKey C) (upstreamLister upstreamNamespace upstreamName)
      | Some u \<Rightarrow>
          if is_upsynced (ss_syncTargetKey C) u then okay ()
          else updateStatusInUpstream C r upstreamLister upstreamNamespace upstreamName u)))"

definition status_process :: "status_env \<Rightarrow> gvr \<Rightarrow> string \<Rightarrow> (status_call, unit) calls" where
  "status_process C r key =
     (case ss_split C key of
        Inl e \<Rightarrow> okay ()
      | Inr (downstreamNamespace, downstreamName) \<Rightarrow>
          if has_prefix downstreamNamespace SyncerIDPrefix then okay ()
          else
          andThen (lift_err (ss_downLister C r)) (\<lambda>downstreamLister.
          if downstreamNamespace \<noteq> []
          then andThen (lift_err (ss_downLister C spec_namespaceGVR)) (\<lambda>namespaceLister.
            case locator_of C (namespaceLister [] downstreamNamespace) of
              None \<Rightarrow> okay ()
            | Some l \<Rightarrow>
                (case downstreamLister downstreamNamespace downstreamName of
                   Inr obj \<Rightarrow> sync_status C r downstreamName l (Some obj)
                 | Inl NotFound \<Rightarrow> sync_status C r downstreamName l None
                 | Inl e \<Rightarrow> fail e))
          else
            (case downstreamLister [] downstreamName of
               Inl NotFound \<Rightarrow> okay ()
             | Inl e \<Rightarrow> fail e
             | Inr obj \<Rightarrow>
                 (case locator_of C (Inr obj) of
                    None \<Rightarrow> okay ()
                  | Some l \<Rightarrow> sync_status C r downstreamName l (Some obj)))))"

section \<open>Properties\<close>

lemma update_status_calls:
  assumes "c \<in> set (fst (updateStatusInUpstream C r lister ns name obj))"
  shows "\<exists>existing status. lister ns name = Inr existing \<and> map_of (u_content obj) ''status'' = Some status
    \<and> (if ss_advancedSchedulingEnabled C
       then \<exists>json. ss_marshalStatus C status = Inr json \<and> c = StUpdate r (with_status_annotation (ss_syncTargetKey C) json existing)
          \<and> existing \<noteq> with_status_annotation (ss_syncTargetKey C) json existing
       else c = StUpdateStatus r (with_status status existing))"
  using assms
  by (auto simp: updateStatusInUpstream_def in_andThen Let_def split: option.splits if_splits)

text \<open>Every call of a run, with the objects it is about.\<close>

lemma status_calls:
  assumes "c \<in> set (fst (status_process C r key))"
  obtains ns name downLister l upLister where "ss_split C key = Inr (ns, name)" "\<not> has_prefix ns SyncerIDPrefix"
    "ss_downLister C r = Inr downLister" "is_own C l" "ss_upLister C (nl_ClusterName l) r = Inr upLister"
    "ns \<noteq> [] \<Longrightarrow> \<exists>nsLister. ss_downLister C spec_namespaceGVR = Inr nsLister \<and> locator_of C (nsLister [] ns) = Some l"
    "ns = [] \<Longrightarrow> locator_of C (downLister [] name) = Some l"
    "(ns \<noteq> [] \<and> downLister ns name = Inl NotFound
        \<and> c \<in> set (fst (EnsureUpstreamFinalizerRemoved (ss_answer C) (StUpdate r) (ss_syncTargetKey C)
            (upLister (nl_Namespace l) (GetUpstreamResourceName r name)))))
     \<or> (\<exists>obj. downLister ns name = Inr obj \<and> \<not> is_upsynced (ss_syncTargetKey C) obj
        \<and> c \<in> set (fst (updateStatusInUpstream C r upLister (nl_Namespace l) (GetUpstreamResourceName r name) obj)))"
proof -
  obtain ns name where sp: "ss_split C key = Inr (ns, name)" "\<not> has_prefix ns SyncerIDPrefix"
    using assms by (cases "ss_split C key") (auto simp: status_process_def split: if_splits)
  obtain downLister where down: "ss_downLister C r = Inr downLister"
    using assms sp by (cases "ss_downLister C r") (auto simp: status_process_def)
  have run: "\<exists>l dobj. c \<in> set (fst (sync_status C r name l dobj))
      \<and> (ns \<noteq> [] \<longrightarrow> (\<exists>nsLister. ss_downLister C spec_namespaceGVR = Inr nsLister \<and> locator_of C (nsLister [] ns) = Some l))
      \<and> (ns = [] \<longrightarrow> locator_of C (downLister [] name) = Some l)
      \<and> ((dobj = None \<and> ns \<noteq> [] \<and> downLister ns name = Inl NotFound) \<or> (\<exists>obj. dobj = Some obj \<and> downLister ns name = Inr obj))"
  proof (cases "ns = []")
    case True
    show ?thesis
    proof (cases "downLister [] name")
      case (Inl e)
      with assms sp down True show ?thesis by (cases e) (auto simp: status_process_def)
    next
      case (Inr obj)
      with assms sp down True show ?thesis by (auto simp: status_process_def split: option.splits)
    qed
  next
    case False
    obtain nsLister where nsl: "ss_downLister C spec_namespaceGVR = Inr nsLister"
      using assms sp down False by (cases "ss_downLister C spec_namespaceGVR") (auto simp: status_process_def)
    obtain l where l: "locator_of C (nsLister [] ns) = Some l"
      using assms sp down False nsl by (cases "locator_of C (nsLister [] ns)") (auto simp: status_process_def)
    show ?thesis
    proof (cases "downLister ns name")
      case (Inl e)
      with assms sp down False nsl l show ?thesis by (cases e) (auto simp: status_process_def)
    next
      case (Inr obj)
      with assms sp down False nsl l show ?thesis by (auto simp: status_process_def)
    qed
  qed
  then obtain l dobj where s: "c \<in> set (fst (sync_status C r name l dobj))"
    "ns \<noteq> [] \<Longrightarrow> \<exists>nsLister. ss_downLister C spec_namespaceGVR = Inr nsLister \<and> locator_of C (nsLister [] ns) = Some l"
    "ns = [] \<Longrightarrow> locator_of C (downLister [] name) = Some l"
    "(dobj = None \<and> ns \<noteq> [] \<and> downLister ns name = Inl NotFound) \<or> (\<exists>obj. dobj = Some obj \<and> downLister ns name = Inr obj)"
    by auto
  have own: "is_own C l" using s(1) by (auto simp: sync_status_def split: if_splits)
  obtain upLister where up: "ss_upLister C (nl_ClusterName l) r = Inr upLister"
    using s(1) own by (cases "ss_upLister C (nl_ClusterName l) r") (auto simp: sync_status_def Let_def)
  have "(dobj = None \<and> c \<in> set (fst (EnsureUpstreamFinalizerRemoved (ss_answer C) (StUpdate r) (ss_syncTargetKey C)
            (upLister (nl_Namespace l) (GetUpstreamResourceName r name)))))
     \<or> (\<exists>obj. dobj = Some obj \<and> \<not> is_upsynced (ss_syncTargetKey C) obj
        \<and> c \<in> set (fst (updateStatusInUpstream C r upLister (nl_Namespace l) (GetUpstreamResourceName r name) obj)))"
    using s(1) own up by (cases dobj) (auto simp: sync_status_def Let_def in_andThen split: if_splits)
  with s(4) have "(ns \<noteq> [] \<and> downLister ns name = Inl NotFound
        \<and> c \<in> set (fst (EnsureUpstreamFinalizerRemoved (ss_answer C) (StUpdate r) (ss_syncTargetKey C)
            (upLister (nl_Namespace l) (GetUpstreamResourceName r name)))))
     \<or> (\<exists>obj. downLister ns name = Inr obj \<and> \<not> is_upsynced (ss_syncTargetKey C) obj
        \<and> c \<in> set (fst (updateStatusInUpstream C r upLister (nl_Namespace l) (GetUpstreamResourceName r name) obj)))" by auto
  with sp down own up s(2,3) show thesis by (rule that)
qed


lemma finalizerRemoved_calls:
  "c \<in> set (fst (EnsureUpstreamFinalizerRemoved answer mk key lookup)) \<Longrightarrow>
     \<exists>obj. lookup = Inr obj \<and> go_str (Annotations obj) (deletion_annotation key) \<noteq> [] \<and> c = mk (without_target key obj)"
  by (cases lookup) (auto simp: EnsureUpstreamFinalizerRemoved_def split: if_splits go_error.splits)

lemma map_of_put: "map_of (go_put k v l) k' = (if k' = k then Some v else map_of l k')"
  by (simp add: go_put_def update_conv')

lemma status_annotation_filtered:
  "map_of (without_status_annotations m) k = (if has_prefix k InternalClusterStatusAnnotationPrefix then None else map_of (entries m) k)"
proof -
  have "map_of (filter (\<lambda>(k, v). \<not> has_prefix k InternalClusterStatusAnnotationPrefix) l) k
      = (if has_prefix k InternalClusterStatusAnnotationPrefix then None else map_of l k)" for l :: "(string \<times> string) list"
    by (induction l) auto
  then show ?thesis by (simp add: without_status_annotations_def)
qed

lemma status_writes_invisible:
  "deepEqualApartFromStatus existing (with_status_annotation key json existing)"
  "deepEqualApartFromStatus existing (with_status status existing)"
  by (auto simp: deepEqualApartFromStatus_def with_status_annotation_def with_status_def map_equal_iff status_annotation_filtered
      map_of_put fun_eq_iff)

lemma locator_ofD:
  "locator_of C holder = Some l \<longleftrightarrow> (\<exists>obj. holder = Inr obj \<and> LocatorFromAnnotations (ss_json C) (Annotations obj) = Inr (Some l))"
  by (auto simp: locator_of_def split: sum.splits option.splits)

text \<open>
  C29: The status syncer writes upstream only for its own objects. For a write of a run, let the holder be the downstream
  namespace of the key, or the downstream object itself if it is cluster-scoped. The locator annotation of the holder carries the UID
  and the workspace of this sync target and names the upstream object that is written. If the downstream object is absent, then
  it is a namespaced one, the upstream object has the deletion annotation of this target, and the call is the update that
  removes exactly the finalizer, the state label and the two annotations of this target. If it exists, it is not upsynced and has a status, and
  the call changes exactly the status of the upstream object or, with advanced scheduling, the status annotation of this target.
\<close>

theorem status_writes_guarded:
  assumes "c \<in> set (fst (status_process C r key))"
  shows "\<exists>ns name down holder l up existing. ss_split C key = Inr (ns, name) \<and> ss_downLister C r = Inr down
    \<and> (if ns = [] then down [] name = Inr holder
       else \<exists>namespaces. ss_downLister C spec_namespaceGVR = Inr namespaces \<and> namespaces [] ns = Inr holder)
    \<and> LocatorFromAnnotations (ss_json C) (Annotations holder) = Inr (Some l)
    \<and> stl_UID (nl_SyncTarget l) = ss_syncTargetUID C \<and> stl_ClusterName (nl_SyncTarget l) = ss_syncTargetWorkspace C
    \<and> ss_upLister C (nl_ClusterName l) r = Inr up \<and> up (nl_Namespace l) (GetUpstreamResourceName r name) = Inr existing
    \<and> (case down ns name of
         Inl e \<Rightarrow> e = NotFound \<and> ns \<noteq> [] \<and> go_str (Annotations existing) (deletion_annotation (ss_syncTargetKey C)) \<noteq> []
           \<and> c = StUpdate r (existing\<lparr>Finalizers := filter (\<lambda>f. f \<noteq> syncer_finalizer (ss_syncTargetKey C)) (Finalizers existing),
               Annotations := go_del (deletion_annotation (ss_syncTargetKey C))
                 (go_del (InternalClusterStatusAnnotationPrefix @ ss_syncTargetKey C) (Annotations existing)),
               Labels := go_del (state_label (ss_syncTargetKey C)) (Labels existing)\<rparr>)
       | Inr obj \<Rightarrow> \<not> is_upsynced (ss_syncTargetKey C) obj \<and> (\<exists>status. map_of (u_content obj) ''status'' = Some status
           \<and> (if ss_advancedSchedulingEnabled C
              then \<exists>json. ss_marshalStatus C status = Inr json
                \<and> c = StUpdate r (existing\<lparr>Annotations := Some (go_put (InternalClusterStatusAnnotationPrefix @ ss_syncTargetKey C)
                    json (entries (Annotations existing)))\<rparr>)
              else c = StUpdateStatus r (existing\<lparr>u_content := go_put ''status'' status (u_content existing)\<rparr>))))"
  using assms
proof (rule status_calls)
  fix ns name down l up
  assume k: "ss_split C key = Inr (ns, name)" "ss_downLister C r = Inr down" "is_own C l" "ss_upLister C (nl_ClusterName l) r = Inr up"
    and h: "ns \<noteq> [] \<Longrightarrow> \<exists>nsLister. ss_downLister C spec_namespaceGVR = Inr nsLister \<and> locator_of C (nsLister [] ns) = Some l"
      "ns = [] \<Longrightarrow> locator_of C (down [] name) = Some l"
    and "(ns \<noteq> [] \<and> down ns name = Inl NotFound
        \<and> c \<in> set (fst (EnsureUpstreamFinalizerRemoved (ss_answer C) (StUpdate r) (ss_syncTargetKey C)
            (up (nl_Namespace l) (GetUpstreamResourceName r name)))))
     \<or> (\<exists>obj. down ns name = Inr obj \<and> \<not> is_upsynced (ss_syncTargetKey C) obj
        \<and> c \<in> set (fst (updateStatusInUpstream C r up (nl_Namespace l) (GetUpstreamResourceName r name) obj)))"
  then consider (gone) existing where "ns \<noteq> []" "down ns name = Inl NotFound" "up (nl_Namespace l) (GetUpstreamResourceName r name) = Inr existing"
      "go_str (Annotations existing) (deletion_annotation (ss_syncTargetKey C)) \<noteq> []"
      "c = StUpdate r (without_target (ss_syncTargetKey C) existing)"
    | (status) obj existing status where "down ns name = Inr obj" "\<not> is_upsynced (ss_syncTargetKey C) obj"
      "up (nl_Namespace l) (GetUpstreamResourceName r name) = Inr existing" "map_of (u_content obj) ''status'' = Some status"
      "if ss_advancedSchedulingEnabled C
       then \<exists>json. ss_marshalStatus C status = Inr json \<and> c = StUpdate r (with_status_annotation (ss_syncTargetKey C) json existing)
       else c = StUpdateStatus r (with_status status existing)"
    by (fastforce dest: finalizerRemoved_calls update_status_calls split: if_splits)
  note cases = this
  obtain holder where "if ns = [] then down [] name = Inr holder
       else \<exists>namespaces. ss_downLister C spec_namespaceGVR = Inr namespaces \<and> namespaces [] ns = Inr holder"
    "LocatorFromAnnotations (ss_json C) (Annotations holder) = Inr (Some l)"
    using h by (cases "ns = []") (auto simp: locator_ofD)
  note K = k(1,2,4) k(3) [unfolded is_own_def] this
  from cases show ?thesis
  proof cases
    case gone
    then show ?thesis using K
      by - (rule exI [of _ ns], rule exI [of _ name], rule exI [of _ down], rule exI [of _ holder], rule exI [of _ l], rule exI [of _ up], rule exI [of _ existing],
        simp add: without_target_def)
  next
    case status
    then show ?thesis using K
      by - (rule exI [of _ ns], rule exI [of _ name], rule exI [of _ down], rule exI [of _ holder], rule exI [of _ l], rule exI [of _ up], rule exI [of _ existing],
        auto simp: with_status_annotation_def with_status_def)
  qed
qed

section \<open>No feedback\<close>

text \<open>The upstream lister once it has seen a write.\<close>

definition seen_upstream :: "status_env \<Rightarrow> string \<Rightarrow> gvr \<Rightarrow> string \<Rightarrow> string \<Rightarrow> unstr \<Rightarrow> status_env" where
  "seen_upstream C cluster r ns name new =
     C\<lparr>ss_upLister := (\<lambda>cluster' r'. case ss_upLister C cluster' r' of
         Inl e \<Rightarrow> Inl e
       | Inr up \<Rightarrow> Inr (\<lambda>ns' name'. if cluster' = cluster \<and> r' = r \<and> ns' = ns \<and> name' = name then Inr new else up ns' name'))\<rparr>"

lemma seen_upstream_simps [simp]:
  "ss_syncTargetWorkspace (seen_upstream C cl r ns n new) = ss_syncTargetWorkspace C" "ss_syncTargetUID (seen_upstream C cl r ns n new) = ss_syncTargetUID C"
  "ss_syncTargetKey (seen_upstream C cl r ns n new) = ss_syncTargetKey C" "ss_json (seen_upstream C cl r ns n new) = ss_json C"
  "ss_advancedSchedulingEnabled (seen_upstream C cl r ns n new) = ss_advancedSchedulingEnabled C"
  "ss_marshalStatus (seen_upstream C cl r ns n new) = ss_marshalStatus C" "ss_split (seen_upstream C cl r ns n new) = ss_split C"
  "ss_downLister (seen_upstream C cl r ns n new) = ss_downLister C" "ss_upClient (seen_upstream C cl r ns n new) = ss_upClient C"
  "ss_answer (seen_upstream C cl r ns n new) = ss_answer C"
  by (simp_all add: seen_upstream_def)

lemma seen_upstream_lister:
  "ss_upLister (seen_upstream C cl r ns n new) cl r = Inr up \<Longrightarrow> up ns n = Inr new"
  by (auto simp: seen_upstream_def split: sum.splits)

lemma rerun_silent:
  assumes "ss_split C key = Inr (ns, name)" "ss_downLister C r = Inr down" "ss_upLister C (nl_ClusterName l) r = Inr up"
    and "ns \<noteq> [] \<Longrightarrow> \<exists>nsLister. ss_downLister C spec_namespaceGVR = Inr nsLister \<and> locator_of C (nsLister [] ns) = Some l"
    and "ns = [] \<Longrightarrow> locator_of C (down [] name) = Some l"
    and "ns \<noteq> [] \<Longrightarrow> down ns name = Inl NotFound \<Longrightarrow> go_str (Annotations new) (deletion_annotation (ss_syncTargetKey C)) = []"
    and "\<And>obj. down ns name = Inr obj \<Longrightarrow> updateStatusInUpstream C r (\<lambda>_ _. Inr new) (nl_Namespace l) (GetUpstreamResourceName r name) obj = okay ()"
  shows "fst (status_process (seen_upstream C (nl_ClusterName l) r (nl_Namespace l) (GetUpstreamResourceName r name) new) r key) = []"
    (is "fst (status_process ?C r key) = []")
proof (rule ccontr)
  assume "\<not> ?thesis"
  then obtain c where "c \<in> set (fst (status_process ?C r key))" by (cases "fst (status_process ?C r key)") auto
  then show False
  proof (rule status_calls)
    fix ns' name' down' l' up'
    assume k: "ss_split ?C key = Inr (ns', name')" "ss_downLister ?C r = Inr down'" "ss_upLister ?C (nl_ClusterName l') r = Inr up'"
      and h: "ns' \<noteq> [] \<Longrightarrow> \<exists>nsLister. ss_downLister ?C spec_namespaceGVR = Inr nsLister \<and> locator_of ?C (nsLister [] ns') = Some l'"
        "ns' = [] \<Longrightarrow> locator_of ?C (down' [] name') = Some l'"
      and c: "(ns' \<noteq> [] \<and> down' ns' name' = Inl NotFound
          \<and> c \<in> set (fst (EnsureUpstreamFinalizerRemoved (ss_answer ?C) (StUpdate r) (ss_syncTargetKey ?C)
              (up' (nl_Namespace l') (GetUpstreamResourceName r name')))))
       \<or> (\<exists>obj. down' ns' name' = Inr obj \<and> \<not> is_upsynced (ss_syncTargetKey ?C) obj
          \<and> c \<in> set (fst (updateStatusInUpstream ?C r up' (nl_Namespace l') (GetUpstreamResourceName r name') obj)))"
    have same: "ns' = ns" "name' = name" "down' = down" using k(1,2) assms(1,2) by simp_all
    have "locator_of ?C h = locator_of C h" for h unfolding locator_of_def seen_upstream_simps ..
    with h assms(4,5) same have l: "l' = l" by (cases "ns = []") auto
    have up: "up' (nl_Namespace l) (GetUpstreamResourceName r name) = Inr new"
      using k(3) unfolding l by (rule seen_upstream_lister)
    have "updateStatusInUpstream ?C r up' (nl_Namespace l) (GetUpstreamResourceName r name) obj
        = updateStatusInUpstream C r (\<lambda>_ _. Inr new) (nl_Namespace l) (GetUpstreamResourceName r name) obj" for obj
      unfolding updateStatusInUpstream_def seen_upstream_simps up ..
    with c assms(6,7) show False
      unfolding same l by (auto simp: up EnsureUpstreamFinalizerRemoved_def okay_def)
  qed
qed

lemma go_str_deleted [simp]: "go_str (go_del k m) k = []"
  by (simp add: go_str_def)

lemma release_visible:
  assumes "go_str (Annotations existing) (deletion_annotation key) \<noteq> []"
  shows "\<not> deepEqualApartFromStatus existing (without_target key existing)"
proof
  assume "deepEqualApartFromStatus existing (without_target key existing)"
  then have "map_of (without_status_annotations (Annotations existing)) (deletion_annotation key)
      = map_of (without_status_annotations (Annotations (without_target key existing))) (deletion_annotation key)"
    by (simp add: deepEqualApartFromStatus_def map_equal_iff)
  moreover have "\<not> has_prefix (deletion_annotation key) InternalClusterStatusAnnotationPrefix"
    by (simp add: has_prefix_def InternalClusterStatusAnnotationPrefix_def InternalClusterDeletionTimestampAnnotationPrefix_def)
  ultimately have "go_get (Annotations existing) (deletion_annotation key) = None"
    by (simp add: status_annotation_filtered without_target_def flip: go_get_def)
  with assms show False by (simp add: go_str_def)
qed

lemma write_invisible:
  assumes "c \<in> set (fst (updateStatusInUpstream C r lister ns name obj))"
  shows "\<exists>existing new. lister ns name = Inr existing \<and> (c = StUpdate r new \<or> c = StUpdateStatus r new)
    \<and> spec_updated keyFunc r existing new = []
    \<and> (c = StUpdate r new \<longrightarrow> updateStatusInUpstream C r (\<lambda>_ _. Inr new) ns name obj = okay ())"
proof -
  from update_status_calls [OF assms] obtain existing status where e: "lister ns name = Inr existing"
    "map_of (u_content obj) ''status'' = Some status" and
    c: "if ss_advancedSchedulingEnabled C
       then \<exists>json. ss_marshalStatus C status = Inr json \<and> c = StUpdate r (with_status_annotation (ss_syncTargetKey C) json existing)
          \<and> existing \<noteq> with_status_annotation (ss_syncTargetKey C) json existing
       else c = StUpdateStatus r (with_status status existing)" by blast
  show ?thesis
  proof (cases "ss_advancedSchedulingEnabled C")
    case True
    with c obtain json where j: "ss_marshalStatus C status = Inr json" "c = StUpdate r (with_status_annotation (ss_syncTargetKey C) json existing)"
      by auto
    have twice: "with_status_annotation k json (with_status_annotation k json existing) = with_status_annotation k json existing" for k
      by (simp add: with_status_annotation_def go_put_def)
    from True j e have "updateStatusInUpstream C r (\<lambda>_ _. Inr (with_status_annotation (ss_syncTargetKey C) json existing)) ns name obj = okay ()"
      by (simp add: updateStatusInUpstream_def twice)
    with e j show ?thesis by (auto simp: spec_updated_def status_writes_invisible)
  next
    case False
    with c e show ?thesis by (auto simp: spec_updated_def status_writes_invisible)
  qed
qed

text \<open>
  C30: The two syncers do not chase each other. A write of the status syncer for an existing downstream object is an update that the
  event handler of the spec syncer drops. The update that frees the upstream object of a missing downstream object is one that it
  queues (the spec syncer has to see that the object is gone). Neither update is repeated: once the upstream lister has it, a run for
  the same key and the same downstream state sends nothing. (A write to the status subresource has no such check.)
\<close>

theorem status_sync_no_feedback:
  assumes "c \<in> set (fst (status_process C r key))" "ss_split C key = Inr (ns, name)" "ss_downLister C r = Inr down"
  shows "\<exists>cluster up upNs existing new. ss_upLister C cluster r = Inr up \<and> up upNs (GetUpstreamResourceName r name) = Inr existing
    \<and> (c = StUpdate r new \<or> c = StUpdateStatus r new)
    \<and> spec_updated keyFunc r existing new = (if down ns name = Inl NotFound \<and> r \<noteq> spec_namespaceGVR then AddToQueue keyFunc r new else [])
    \<and> (case c of
         StUpdate _ _ \<Rightarrow> fst (status_process (seen_upstream C cluster r upNs (GetUpstreamResourceName r name) new) r key) = []
       | StUpdateStatus _ _ \<Rightarrow> True)"
  using assms(1)
proof (rule status_calls)
  fix ns' name' down' l up
  assume k: "ss_split C key = Inr (ns', name')" "ss_downLister C r = Inr down'" "ss_upLister C (nl_ClusterName l) r = Inr up"
    and h: "ns' \<noteq> [] \<Longrightarrow> \<exists>nsLister. ss_downLister C spec_namespaceGVR = Inr nsLister \<and> locator_of C (nsLister [] ns') = Some l"
      "ns' = [] \<Longrightarrow> locator_of C (down' [] name') = Some l"
    and c: "(ns' \<noteq> [] \<and> down' ns' name' = Inl NotFound
        \<and> c \<in> set (fst (EnsureUpstreamFinalizerRemoved (ss_answer C) (StUpdate r) (ss_syncTargetKey C)
            (up (nl_Namespace l) (GetUpstreamResourceName r name')))))
     \<or> (\<exists>obj. down' ns' name' = Inr obj \<and> \<not> is_upsynced (ss_syncTargetKey C) obj
        \<and> c \<in> set (fst (updateStatusInUpstream C r up (nl_Namespace l) (GetUpstreamResourceName r name') obj)))"
  have [simp]: "ns' = ns" "name' = name" "down' = down" using k(1,2) assms(2,3) by simp_all
  note silent = rerun_silent [OF k(1,2,3) h, simplified]
  let ?name = "GetUpstreamResourceName r name"
  from c consider (gone) existing where "down ns name = Inl NotFound" "up (nl_Namespace l) ?name = Inr existing"
      "go_str (Annotations existing) (deletion_annotation (ss_syncTargetKey C)) \<noteq> []"
      "c = StUpdate r (without_target (ss_syncTargetKey C) existing)"
    | (status) obj where "down ns name = Inr obj" "c \<in> set (fst (updateStatusInUpstream C r up (nl_Namespace l) ?name obj))"
    by (auto dest: finalizerRemoved_calls)
  then show ?thesis
  proof cases
    case gone
    let ?new = "without_target (ss_syncTargetKey C) existing"
    have "fst (status_process (seen_upstream C (nl_ClusterName l) r (nl_Namespace l) ?name ?new) r key) = []"
      using gone(1) by (intro silent) (simp_all add: without_target_def)
    with gone k(3) show ?thesis
      by - (rule exI [of _ "nl_ClusterName l"], rule exI [of _ up], rule exI [of _ "nl_Namespace l"], rule exI [of _ existing], rule exI [of _ ?new],
        simp add: spec_updated_def release_visible)
  next
    case status
    from write_invisible [OF status(2), of keyFunc] obtain existing new where w: "up (nl_Namespace l) ?name = Inr existing"
      "c = StUpdate r new \<or> c = StUpdateStatus r new" "spec_updated keyFunc r existing new = []"
      "c = StUpdate r new \<Longrightarrow> updateStatusInUpstream C r (\<lambda>_ _. Inr new) (nl_Namespace l) ?name obj = okay ()" by blast
    have "c = StUpdate r new \<Longrightarrow> fst (status_process (seen_upstream C (nl_ClusterName l) r (nl_Namespace l) ?name new) r key) = []"
      using status(1) w(4) by (intro silent) auto
    with status(1) w(1-3) k(3) show ?thesis
      by - (rule exI [of _ "nl_ClusterName l"], rule exI [of _ up], rule exI [of _ "nl_Namespace l"], rule exI [of _ existing], rule exI [of _ new], auto)
  qed
qed

section \<open>Examples\<close>

definition ex_copy :: unstr where
  "ex_copy = (ex_upstream ex_ns_name ''settings'' None)\<lparr>Labels := None, u_content := [(''status'', ''ready'')]\<rparr>"

definition ex_status :: "bool \<Rightarrow> status_env" where
  "ex_status advanced = \<lparr>ss_syncTargetWorkspace = ''root'', ss_syncTargetUID = ''uid'', ss_syncTargetKey = ''key'',
     ss_advancedSchedulingEnabled = advanced, ss_json = ex_json, ss_marshalStatus = Inr, ss_split = (\<lambda>_. Inr (''ns'', ''settings'')),
     ss_downLister = (\<lambda>r. Inr (\<lambda>ns name. if ns = [] then Inr ex_downstream_ns else Inr ex_copy)),
     ss_upLister = (\<lambda>_ _. Inr (\<lambda>_ _. Inr ex_config)), ss_upClient = (\<lambda>_. None), ss_answer = (\<lambda>_. None)\<rparr>"

lemma ex_status_run: "status_process (ex_status False) configMapGVR k = ([StUpdateStatus configMapGVR (with_status ''ready'' ex_config)], Inr ())"
proof -
  have l: "LocatorFromAnnotations ex_json (Annotations ex_downstream_ns) = Inr (Some ex_locator)"
    by (simp add: LocatorFromAnnotations_def ex_downstream_defs go_get_def NewNamespaceLocator_def Let_def)
  have o: "is_own (ex_status False) ex_locator" by (simp add: is_own_def ex_status_def ex_locator_def NewNamespaceLocator_def)
  have u: "\<not> is_upsynced ''key'' ex_copy" by (simp add: is_upsynced_def ex_copy_def go_str_def go_get_def ResourceStateUpsync_def)
  have c: "map_of (u_content ex_copy) ''status'' = Some ''ready''" by (simp add: ex_copy_def)
  have lo: "locator_of (ex_status False) (Inr ex_downstream_ns) = Some ex_locator" by (simp add: locator_of_def ex_status_def l)
  have sel: "ss_split (ex_status False) k = Inr (''ns'', ''settings'')" "ss_upLister (ex_status False) cl r = Inr (\<lambda>_ _. Inr ex_config)"
    "ss_downLister (ex_status False) r = Inr (\<lambda>ns name. if ns = [] then Inr ex_downstream_ns else Inr ex_copy)"
    "ss_upClient (ex_status False) cl = None" "ss_syncTargetKey (ex_status False) = ''key''" "ss_answer (ex_status False) = (\<lambda>_. None)"
    "\<not> ss_advancedSchedulingEnabled (ex_status False)" for cl r
    by (simp_all add: ex_status_def)
  show ?thesis
    by (simp add: status_process_def sel lo o u c has_prefix_def SyncerIDPrefix_def sync_status_def updateStatusInUpstream_def check_def send_call_def)
qed

theorem status_writes_guarded_witness:
  "\<exists>existing holder l. ex_config = existing \<and> ex_downstream_ns = holder
     \<and> LocatorFromAnnotations ex_json (Annotations holder) = Inr (Some l) \<and> stl_UID (nl_SyncTarget l) = ''uid''
     \<and> StUpdateStatus configMapGVR (with_status ''ready'' ex_config)
         = StUpdateStatus configMapGVR (existing\<lparr>u_content := go_put ''status'' ''ready'' (u_content existing)\<rparr>)"
proof -
  have "StUpdateStatus configMapGVR (with_status ''ready'' ex_config) \<in> set (fst (status_process (ex_status False) configMapGVR ''k''))"
    by (simp add: ex_status_run)
  from status_writes_guarded [OF this] show ?thesis by (auto simp: ex_status_def ex_copy_def with_status_def)
qed

text \<open>With advanced scheduling, and a run that frees an upstream object.\<close>

definition ex_status_gone :: status_env where
  "ex_status_gone = (ex_status False)\<lparr>ss_downLister := (\<lambda>r. Inr (\<lambda>ns name. if ns = [] then Inr ex_downstream_ns else Inl NotFound)),
     ss_upLister := (\<lambda>_ _. Inr (\<lambda>_ _. Inr ex_removed))\<rparr>"

lemma ex_locator_found:
  "locator_of (ex_status a) (Inr ex_downstream_ns) = Some ex_locator" "is_own (ex_status a) ex_locator"
  "locator_of ex_status_gone (Inr ex_downstream_ns) = Some ex_locator" "is_own ex_status_gone ex_locator"
  by (simp_all add: locator_of_def LocatorFromAnnotations_def ex_downstream_defs go_get_def NewNamespaceLocator_def Let_def is_own_def
      ex_status_def ex_status_gone_def ex_locator_def)

lemma ex_annotation_run: "StUpdate configMapGVR (with_status_annotation ''key'' ''ready'' ex_config) \<in> set (fst (status_process (ex_status True) configMapGVR k))"
proof -
  have "ex_config \<noteq> with_status_annotation ''key'' ''ready'' ex_config"
    by (simp add: ex_config_def ex_upstream_def with_status_annotation_def go_put_def clusterAnnotationKey_def InternalClusterStatusAnnotationPrefix_def)
  moreover have "\<not> is_upsynced ''key'' ex_copy" by (simp add: is_upsynced_def ex_copy_def go_str_def go_get_def ResourceStateUpsync_def)
  moreover have "map_of (u_content ex_copy) ''status'' = Some ''ready''" by (simp add: ex_copy_def)
  moreover have sel: "ss_split (ex_status True) k = Inr (''ns'', ''settings'')" "ss_upLister (ex_status True) cl r = Inr (\<lambda>_ _. Inr ex_config)"
    "ss_downLister (ex_status True) r = Inr (\<lambda>ns name. if ns = [] then Inr ex_downstream_ns else Inr ex_copy)"
    "ss_upClient (ex_status True) cl = None" "ss_syncTargetKey (ex_status True) = ''key''" "ss_answer (ex_status True) = (\<lambda>_. None)"
    "ss_advancedSchedulingEnabled (ex_status True)" "ss_marshalStatus (ex_status True) = Inr" for cl r
    by (simp_all add: ex_status_def)
  ultimately show ?thesis
    by (simp add: status_process_def sel ex_locator_found has_prefix_def SyncerIDPrefix_def sync_status_def updateStatusInUpstream_def check_def send_call_def)
qed

lemma ex_release_run: "StUpdate configMapGVR (without_target ''key'' ex_removed) \<in> set (fst (status_process ex_status_gone configMapGVR k))"
proof -
  have "go_str (Annotations ex_removed) (deletion_annotation ''key'') \<noteq> []" by (simp add: ex_removed_def ex_upstream_def go_str_def go_get_def)
  moreover have sel: "ss_split ex_status_gone k = Inr (''ns'', ''settings'')" "ss_upLister ex_status_gone cl r = Inr (\<lambda>_ _. Inr ex_removed)"
    "ss_downLister ex_status_gone r = Inr (\<lambda>ns name. if ns = [] then Inr ex_downstream_ns else Inl NotFound)"
    "ss_upClient ex_status_gone cl = None" "ss_syncTargetKey ex_status_gone = ''key''" "ss_answer ex_status_gone = (\<lambda>_. None)" for cl r
    by (simp_all add: ex_status_def ex_status_gone_def)
  ultimately show ?thesis
    by (simp add: status_process_def sel ex_locator_found has_prefix_def SyncerIDPrefix_def sync_status_def EnsureUpstreamFinalizerRemoved_def
        check_def send_call_def)
qed

theorem status_sync_no_feedback_witness:
  "spec_updated (\<lambda>_. Inr ''k'') configMapGVR ex_config (with_status_annotation ''key'' ''ready'' ex_config) = []
   \<and> spec_updated (\<lambda>_. Inr ''k'') configMapGVR ex_removed (without_target ''key'' ex_removed) = [(configMapGVR, ''k'')]
   \<and> (\<exists>cluster ns. fst (status_process (seen_upstream ex_status_gone cluster configMapGVR ns ''settings'' (without_target ''key'' ex_removed)) configMapGVR ''k'') = [])"
proof -
  have n: "configMapGVR \<noteq> spec_namespaceGVR" "GetUpstreamResourceName configMapGVR ''settings'' = ''settings''"
    by (simp_all add: configMapGVR_def secretGVR_def spec_namespaceGVR_def GetUpstreamResourceName_def)
  note A = status_sync_no_feedback [where key = "''k''" and ns = "''ns''" and name = "''settings''" and keyFunc = "\<lambda>_. Inr ''k''"
      and down = "\<lambda>ns name. if ns = [] then Inr ex_downstream_ns else Inr ex_copy", OF ex_annotation_run]
  note B = status_sync_no_feedback [where key = "''k''" and ns = "''ns''" and name = "''settings''" and keyFunc = "\<lambda>_. Inr ''k''"
      and down = "\<lambda>ns name. if ns = [] then Inr ex_downstream_ns else Inl NotFound", OF ex_release_run]
  have "spec_updated (\<lambda>_. Inr ''k'') configMapGVR ex_config (with_status_annotation ''key'' ''ready'' ex_config) = []"
    using A by (auto simp: ex_status_def)
  moreover have "spec_updated (\<lambda>_. Inr ''k'') configMapGVR ex_removed (without_target ''key'' ex_removed) = [(configMapGVR, ''k'')]"
    using B n by (auto simp: ex_status_gone_def ex_status_def AddToQueue_def)
  moreover have "\<exists>cluster ns. fst (status_process (seen_upstream ex_status_gone cluster configMapGVR ns ''settings'' (without_target ''key'' ex_removed)) configMapGVR ''k'') = []"
    using B n by (auto simp: ex_status_gone_def ex_status_def)
  ultimately show ?thesis by blast
qed

end
