(* ===== verification/Upsyncer.thy ===== *)
theory Upsyncer
  imports Status_Syncer
begin

text \<open>
  \<^verbatim>\<open>src/pkg/syncer/upsync\<close>: the syncer of downstream objects in the state \<open>Upsync\<close> (persistent volumes, for
  example) to the upstream workspace, and the controller that removes upstream objects whose downstream
  original is gone. The upstream copy carries the resource version of the original in an annotation; an
  object whose status has changed is written in three requests, the annotation last.

  A request returns the resource version that the server gives the object (\<open>ue_answer\<close>). Parameters:
  listers, answers of the upstream API server, key functions.
\<close>

section \<open>State and calls\<close>

datatype upsync_call =
    UsCreate gvr unstr
  | UsUpdate gvr unstr
  | UsUpdateStatus gvr unstr
  | UsGet gvr string string
  | UsDelete gvr string string

record upsync_env =
  ue_syncTargetName :: string
  ue_syncTargetClusterName :: string
  ue_syncTargetUID :: string
  ue_syncTargetKey :: string
  ue_json :: json_lib
  ue_namespacesByLocator :: "string \<Rightarrow> go_error + unstr list"
  ue_downLister :: "gvr \<Rightarrow> go_error + lister"
  ue_upLister :: "string \<Rightarrow> gvr \<Rightarrow> go_error + lister"
  ue_upList :: "string \<Rightarrow> gvr \<Rightarrow> string \<Rightarrow> go_error + unstr list"   \<comment> \<open>\<open>List\<close> of that lister in a namespace\<close>
  ue_upsyncedGVRs :: "string \<Rightarrow> go_error + gvr list"
  ue_upClient :: "string \<Rightarrow> go_error option"
  ue_get :: "gvr \<Rightarrow> string \<Rightarrow> string \<Rightarrow> go_error + unstr"
  ue_answer :: "upsync_call \<Rightarrow> go_error + string"
  ue_split :: "string \<Rightarrow> go_error + (string \<times> string \<times> string)"
  ue_upKey :: "object_meta \<Rightarrow> go_error + string"

definition request :: "('c \<Rightarrow> go_error + 'a) \<Rightarrow> 'c \<Rightarrow> ('c, 'a) calls" where
  "request answer c = ([c], answer c)"

definition ResourceVersionAnnotation :: string where "ResourceVersionAnnotation = ''workload.kcp.io/rv''"

section \<open>The downstream original\<close>

definition upsync_locator :: "upsync_env \<Rightarrow> string \<Rightarrow> string \<Rightarrow> namespace_locator" where
  "upsync_locator C cluster ns =
     NewNamespaceLocator cluster (ue_syncTargetClusterName C) (ue_syncTargetUID C) (ue_syncTargetName C) ns"

definition getDownstreamResource :: "upsync_env \<Rightarrow> gvr \<Rightarrow> string \<Rightarrow> string \<Rightarrow> string \<Rightarrow> go_error + unstr option" where
  "getDownstreamResource C r upstreamClusterName upstreamNamespace upstreamName =
     (let get = (\<lambda>downstreamNamespace.
        bindE (ue_downLister C r) (\<lambda>lister. bindE (lister downstreamNamespace upstreamName) (\<lambda>obj. Inr (Some obj)))) in
      if upstreamNamespace = [] then get []
      else bindE (marshal_locator (ue_json C) (upsync_locator C upstreamClusterName upstreamNamespace)) (\<lambda>locatorValue.
           bindE (ue_namespacesByLocator C locatorValue) (\<lambda>namespaces.
             case namespaces of
               [ns] \<Rightarrow> get (Name ns)
             | _ # _ # _ \<Rightarrow> Inl (Failure ''(namespace collision) found multiple downstream namespaces'')
             | [] \<Rightarrow> Inr None)))"

text \<open>The caller's reading of the result: an object that is not found is nil.\<close>

definition downstream_original :: "upsync_env \<Rightarrow> gvr \<Rightarrow> string \<Rightarrow> string \<Rightarrow> string \<Rightarrow> go_error + unstr option" where
  "downstream_original C r cluster ns name =
     (case getDownstreamResource C r cluster ns name of Inl NotFound \<Rightarrow> Inr None | res \<Rightarrow> res)"

section \<open>Removing an orphan\<close>

definition removeUpstreamResourceFinalizers :: "upsync_env \<Rightarrow> gvr \<Rightarrow> string \<Rightarrow> string \<Rightarrow> (upsync_call, unit) calls" where
  "removeUpstreamResourceFinalizers C r ns name =
     andThen ([UsGet r ns name], ue_get C r ns name) (\<lambda>existing.
       if Finalizers existing \<noteq> []
       then andThen (request (ue_answer C) (UsUpdate r (existing\<lparr>Finalizers := []\<rparr>))) (\<lambda>_. okay ())
       else okay ())"

definition deleteOrphanUpstreamResource :: "upsync_env \<Rightarrow> gvr \<Rightarrow> string \<Rightarrow> string \<Rightarrow> string \<Rightarrow> (upsync_call, unit) calls" where
  "deleteOrphanUpstreamResource C r cluster ns name =
     andThen (check (ue_upClient C cluster)) (\<lambda>_.
     andThen (removeUpstreamResourceFinalizers C r ns name) (\<lambda>_.
     andThen (request (ue_answer C) (UsDelete r ns name)) (\<lambda>_. okay ())))"

text \<open>\<open>NotFound\<close> as the outcome is not an error.\<close>

definition ignore_not_found :: "('c, unit) calls \<Rightarrow> ('c, bool) calls" where
  "ignore_not_found m = (fst m, case snd m of Inr _ \<Rightarrow> Inr False | Inl NotFound \<Rightarrow> Inr False | Inl e \<Rightarrow> Inl e)"

definition cleanup_reconcile :: "upsync_env \<Rightarrow> gvr \<Rightarrow> string \<Rightarrow> string \<Rightarrow> string \<Rightarrow> (upsync_call, bool) calls" where
  "cleanup_reconcile C r cluster ns name =
     andThen (lift_err (downstream_original C r cluster ns name)) (\<lambda>original.
       case original of
         Some _ \<Rightarrow> okay False
       | None \<Rightarrow> ignore_not_found (deleteOrphanUpstreamResource C r cluster ns name))"

section \<open>Writing the copy\<close>

definition prepareResourceForUpstream :: "upsync_env \<Rightarrow> string \<Rightarrow> unstr \<Rightarrow> unstr" where
  "prepareResourceForUpstream C upstreamNS downstreamObj =
     downstreamObj\<lparr>Annotations := go_del NamespaceLocatorAnnotation (Annotations downstreamObj),
       Labels := go_del InternalDownstreamClusterLabel (Labels downstreamObj),
       Namespace := upstreamNS, UID := [], ResourceVersion := [], u_ManagedFields := [], DeletionTimestamp := None,
       u_DeletionGracePeriodSeconds := None, OwnerReferences := [], Finalizers := [syncer_finalizer (ue_syncTargetKey C)]\<rparr>"

definition addResourceVersionAnnotation :: "string \<Rightarrow> smap \<Rightarrow> smap" where
  "addResourceVersionAnnotation resourceVersion annotations =
     Some (go_put ResourceVersionAnnotation resourceVersion (entries annotations))"

definition with_rv :: "string \<Rightarrow> unstr \<Rightarrow> unstr" where
  "with_rv rv obj = obj\<lparr>Annotations := addResourceVersionAnnotation rv (Annotations obj)\<rparr>"

text \<open>The three requests for an object with a new status: \<open>first\<close> writes the main content.\<close>

definition three_steps :: "upsync_env \<Rightarrow> gvr \<Rightarrow> string \<Rightarrow> (unstr \<Rightarrow> upsync_call) \<Rightarrow> unstr \<Rightarrow> (upsync_call, unit) calls" where
  "three_steps C r downstreamRV first prepared =
     andThen (request (ue_answer C) (first prepared)) (\<lambda>rv1.
     let prepared1 = prepared\<lparr>ResourceVersion := rv1\<rparr> in
     andThen (request (ue_answer C) (UsUpdateStatus r prepared1)) (\<lambda>rv2.
     andThen (request (ue_answer C) (UsUpdate r ((with_rv downstreamRV prepared1)\<lparr>ResourceVersion := rv2\<rparr>))) (\<lambda>_. okay ())))"

definition create_upstream :: "upsync_env \<Rightarrow> gvr \<Rightarrow> string \<Rightarrow> unstr \<Rightarrow> bool \<Rightarrow> (upsync_call, bool) calls" where
  "create_upstream C r upstreamNamespace original dirtyStatus =
     (let prepared = prepareResourceForUpstream C upstreamNamespace original in
      if \<not> dirtyStatus
      then andThen (request (ue_answer C) (UsCreate r (with_rv (ResourceVersion original) prepared))) (\<lambda>_. okay False)
      else andThen (three_steps C r (ResourceVersion original) (UsCreate r) prepared) (\<lambda>_. okay False))"

definition update_upstream :: "upsync_env \<Rightarrow> gvr \<Rightarrow> string \<Rightarrow> string \<Rightarrow> unstr \<Rightarrow> bool \<Rightarrow> (upsync_call, bool) calls" where
  "update_upstream C r upstreamNamespace resourceVersionUpstream original dirtyStatus =
     (let prepared = prepareResourceForUpstream C upstreamNamespace original;
          markedForDeletion = (DeletionTimestamp original \<noteq> None);
          get = andThen ([UsGet r upstreamNamespace (Name prepared)], ue_get C r upstreamNamespace (Name prepared)) in
      if \<not> dirtyStatus
      then get (\<lambda>existing.
        andThen (request (ue_answer C) (UsUpdate r ((with_rv (ResourceVersion original) prepared)\<lparr>ResourceVersion := ResourceVersion existing\<rparr>)))
          (\<lambda>_. okay markedForDeletion))
      else get (\<lambda>existing.
        andThen (three_steps C r (ResourceVersion original) (UsUpdate r)
            ((with_rv resourceVersionUpstream prepared)\<lparr>ResourceVersion := ResourceVersion existing\<rparr>))
          (\<lambda>_. okay markedForDeletion)))"

definition delete_upstream :: "upsync_env \<Rightarrow> gvr \<Rightarrow> string \<Rightarrow> string \<Rightarrow> (upsync_call, bool) calls" where
  "delete_upstream C r upstreamNamespace upstreamName =
     ignore_not_found (andThen (request (ue_answer C) (UsDelete r upstreamNamespace upstreamName)) (\<lambda>_. okay ()))"

definition upsync_reconcile ::
  "upsync_env \<Rightarrow> unstr option \<Rightarrow> gvr \<Rightarrow> string \<Rightarrow> string \<Rightarrow> string \<Rightarrow> bool \<Rightarrow> (upsync_call, bool) calls" where
  "upsync_reconcile C upstreamObject r cluster ns name dirtyStatus =
     andThen (lift_err (downstream_original C r cluster ns name)) (\<lambda>found.
       case found of
         None \<Rightarrow> ignore_not_found (deleteOrphanUpstreamResource C r cluster ns name)
       | Some original \<Rightarrow>
           andThen (check (ue_upClient C cluster)) (\<lambda>_.
           case upstreamObject of
             None \<Rightarrow>
               if DeletionTimestamp original \<noteq> None then okay False
               else create_upstream C r ns original dirtyStatus
           | Some upstream \<Rightarrow>
               let resourceVersionUpstream = go_str (Annotations upstream) ResourceVersionAnnotation in
               if ResourceVersion original \<noteq> resourceVersionUpstream
               then update_upstream C r ns resourceVersionUpstream original dirtyStatus
               else if DeletionTimestamp original \<noteq> None then delete_upstream C r ns name
               else okay False))"

section \<open>Queueing and processing\<close>

text \<open>\<open>dirtyStatusKeys\<close> is the list of the keys it maps to true.\<close>

type_synonym dirty_keys = "(gvr \<times> string) list"

definition enqueueUpstream :: "upsync_env \<Rightarrow> gvr \<Rightarrow> object_meta \<Rightarrow> bool \<Rightarrow> dirty_keys \<Rightarrow> dirty_keys \<times> (gvr \<times> string) list" where
  "enqueueUpstream C r obj dirtyStatus dirty =
     (case ue_upKey C obj of
        Inl e \<Rightarrow> (dirty, [])
      | Inr key \<Rightarrow> (if dirtyStatus then List.insert (r, key) dirty else dirty, [(r, key)]))"

definition upsync_own :: "upsync_env \<Rightarrow> namespace_locator \<Rightarrow> bool" where
  "upsync_own C l \<longleftrightarrow> stl_UID (nl_SyncTarget l) = ue_syncTargetUID C \<and> stl_ClusterName (nl_SyncTarget l) = ue_syncTargetClusterName C"

definition enqueueDownstream :: "upsync_env \<Rightarrow> gvr \<Rightarrow> unstr \<Rightarrow> bool \<Rightarrow> dirty_keys \<Rightarrow> dirty_keys \<times> (gvr \<times> string) list" where
  "enqueueDownstream C r downstreamObj dirtyStatus dirty =
     (let holder = (if Namespace downstreamObj = [] then Inr downstreamObj
        else bindE (ue_downLister C spec_namespaceGVR) (\<lambda>lister. lister [] (Namespace downstreamObj))) in
      case holder of
        Inl e \<Rightarrow> (dirty, [])
      | Inr locatorHolder \<Rightarrow>
          (case LocatorFromAnnotations (ue_json C) (Annotations locatorHolder) of
             Inr (Some l) \<Rightarrow>
               if upsync_own C l
               then enqueueUpstream C r (upstream_meta (nl_ClusterName l) (nl_Namespace l) (Name downstreamObj)) dirtyStatus dirty
               else (dirty, [])
           | _ \<Rightarrow> (dirty, [])))"

text \<open>The loops stop at the first error of a lister; the keys queued before stay queued.\<close>

fun enqueue_listed :: "upsync_env \<Rightarrow> namespace_locator \<Rightarrow> gvr list \<Rightarrow> (gvr \<times> string) list" where
  "enqueue_listed C l [] = []"
| "enqueue_listed C l (r # gvrs) =
     (case ue_upLister C (nl_ClusterName l) r of
        Inl e \<Rightarrow> []
      | Inr _ \<Rightarrow>
          (case ue_upList C (nl_ClusterName l) r (nl_Namespace l) of
             Inl e \<Rightarrow> []
           | Inr objs \<Rightarrow> concat (map (\<lambda>obj. snd (enqueueUpstream C r (object_meta.truncate obj) False [])) objs) @ enqueue_listed C l gvrs))"

definition enqueueDeletedDownstreamNamespace :: "upsync_env \<Rightarrow> unstr \<Rightarrow> (gvr \<times> string) list" where
  "enqueueDeletedDownstreamNamespace C deletedNamespace =
     (case LocatorFromAnnotations (ue_json C) (Annotations deletedNamespace) of
        Inr (Some l) \<Rightarrow>
          if upsync_own C l
          then (case ue_upsyncedGVRs C (nl_ClusterName l) of Inl e \<Rightarrow> [] | Inr gvrs \<Rightarrow> enqueue_listed C l gvrs)
          else []
      | _ \<Rightarrow> [])"

definition upsync_added :: "upsync_env \<Rightarrow> gvr \<Rightarrow> unstr \<Rightarrow> dirty_keys \<Rightarrow> dirty_keys \<times> (gvr \<times> string) list" where
  "upsync_added C r new dirty =
     (if r = spec_namespaceGVR \<or> \<not> is_upsynced (ue_syncTargetKey C) new then (dirty, [])
      else enqueueDownstream C r new (map_of (u_content new) ''status'' \<noteq> None) dirty)"

definition upsync_updated :: "upsync_env \<Rightarrow> gvr \<Rightarrow> unstr \<Rightarrow> unstr \<Rightarrow> dirty_keys \<Rightarrow> dirty_keys \<times> (gvr \<times> string) list" where
  "upsync_updated C r old new dirty =
     (if r = spec_namespaceGVR \<or> \<not> is_upsynced (ue_syncTargetKey C) new then (dirty, [])
      else enqueueDownstream C r new (map_of (u_content new) ''status'' \<noteq> None
             \<and> map_of (u_content old) ''status'' \<noteq> map_of (u_content new) ''status'') dirty)"

definition upsync_deleted :: "upsync_env \<Rightarrow> gvr \<Rightarrow> unstr \<Rightarrow> dirty_keys \<Rightarrow> dirty_keys \<times> (gvr \<times> string) list" where
  "upsync_deleted C r obj dirty =
     (if r = spec_namespaceGVR then (dirty, enqueueDeletedDownstreamNamespace C obj)
      else if \<not> is_upsynced (ue_syncTargetKey C) obj then (dirty, [])
      else enqueueDownstream C r obj False dirty)"

definition upsync_process :: "upsync_env \<Rightarrow> gvr \<Rightarrow> string \<Rightarrow> dirty_keys \<Rightarrow> dirty_keys \<times> (upsync_call, bool) calls" where
  "upsync_process C r key dirty =
     (case ue_split C key of
        Inl e \<Rightarrow> (dirty, okay False)
      | Inr (cluster, ns, name) \<Rightarrow>
          let dirtyStatus = ((r, key) \<in> set dirty);
              taken = removeAll (r, key) dirty;
              run = andThen (lift_err (ue_upLister C cluster r)) (\<lambda>lister.
                case lister ns name of
                  Inr obj \<Rightarrow> upsync_reconcile C (Some obj) r cluster ns name dirtyStatus
                | Inl NotFound \<Rightarrow> upsync_reconcile C None r cluster ns name dirtyStatus
                | Inl e \<Rightarrow> fail e) in
          (case snd run of
             Inl e \<Rightarrow> (if dirtyStatus then List.insert (r, key) taken else taken, run)
           | Inr _ \<Rightarrow> (taken, run)))"

definition cleanup_process :: "upsync_env \<Rightarrow> gvr \<Rightarrow> string \<Rightarrow> (upsync_call, bool) calls" where
  "cleanup_process C r key =
     (case ue_split C key of
        Inl e \<Rightarrow> okay False
      | Inr (cluster, ns, name) \<Rightarrow> cleanup_reconcile C r cluster ns name)"


section \<open>The order of the requests\<close>

lemma fst_request [simp]: "fst (request answer c) = [c]" "snd (request answer c) = answer c"
  by (simp_all add: request_def)

lemma three_steps_calls:
  "fst (three_steps C r rv first p) = first p # (case ue_answer C (first p) of Inl _ \<Rightarrow> [] | Inr rv1 \<Rightarrow>
     UsUpdateStatus r (p\<lparr>ResourceVersion := rv1\<rparr>) # (case ue_answer C (UsUpdateStatus r (p\<lparr>ResourceVersion := rv1\<rparr>)) of Inl _ \<Rightarrow> []
       | Inr rv2 \<Rightarrow> [UsUpdate r ((with_rv rv (p\<lparr>ResourceVersion := rv1\<rparr>))\<lparr>ResourceVersion := rv2\<rparr>)]))"
  by (simp add: three_steps_def fst_andThen Let_def split: sum.split)

lemma with_rv_get: "go_get (Annotations (with_rv rv obj)) ResourceVersionAnnotation = Some rv"
  by (simp add: with_rv_def addResourceVersionAnnotation_def)

lemma three_steps_ok:
  assumes "snd (three_steps C r rv first p) = Inr u"
  shows "\<exists>obj. last (fst (three_steps C r rv first p)) = UsUpdate r obj \<and> go_get (Annotations obj) ResourceVersionAnnotation = Some rv"
proof -
  from assms obtain rv1 rv2 where "ue_answer C (first p) = Inr rv1" "ue_answer C (UsUpdateStatus r (p\<lparr>ResourceVersion := rv1\<rparr>)) = Inr rv2"
    by (auto simp: three_steps_def ok_andThen Let_def)
  then show ?thesis by (simp add: three_steps_calls with_rv_get)
qed

lemma prepared_annotations:
  "go_get (Annotations (prepareResourceForUpstream C ns original)) k = (if k = NamespaceLocatorAnnotation then None else go_get (Annotations original) k)"
  by (simp add: prepareResourceForUpstream_def)

lemma prepared_content: "u_content (prepareResourceForUpstream C ns original) = u_content original"
  by (simp add: prepareResourceForUpstream_def)

text \<open>A write of the main content with the resource version of the original.\<close>

definition writes_version :: "gvr \<Rightarrow> string \<Rightarrow> upsync_call \<Rightarrow> bool" where
  "writes_version r rv c = (case c of
     UsCreate r' obj \<Rightarrow> r' = r \<and> go_get (Annotations obj) ResourceVersionAnnotation = Some rv
   | UsUpdate r' obj \<Rightarrow> r' = r \<and> go_get (Annotations obj) ResourceVersionAnnotation = Some rv
   | _ \<Rightarrow> False)"

text \<open>The last call of a list, after a status update that succeeded.\<close>

definition after_status :: "upsync_env \<Rightarrow> gvr \<Rightarrow> unstr \<Rightarrow> upsync_call list \<Rightarrow> upsync_call \<Rightarrow> bool" where
  "after_status C r original cs c \<longleftrightarrow> (\<exists>pre st rv. cs = pre @ [c] \<and> UsUpdateStatus r st \<in> set pre
     \<and> ue_answer C (UsUpdateStatus r st) = Inr rv \<and> u_content st = u_content original)"

lemma three_steps_version_last:
  assumes "c \<in> set (fst (three_steps C r rv first p))" "writes_version r rv c" "\<not> writes_version r rv (first p)"
    and "u_content p = u_content original"
  shows "after_status C r original (fst (three_steps C r rv first p)) c"
proof -
  obtain rv1 where 1: "ue_answer C (first p) = Inr rv1"
    using assms(1-3) by (cases "ue_answer C (first p)") (auto simp: three_steps_calls)
  obtain rv2 where 2: "ue_answer C (UsUpdateStatus r (p\<lparr>ResourceVersion := rv1\<rparr>)) = Inr rv2"
    using assms(1-3) 1 by (cases "ue_answer C (UsUpdateStatus r (p\<lparr>ResourceVersion := rv1\<rparr>))") (auto simp: three_steps_calls writes_version_def)
  from assms(1-3) 1 2 have c: "c = UsUpdate r ((with_rv rv (p\<lparr>ResourceVersion := rv1\<rparr>))\<lparr>ResourceVersion := rv2\<rparr>)"
    by (auto simp: three_steps_calls writes_version_def)
  from 1 2 c have "fst (three_steps C r rv first p) = [first p, UsUpdateStatus r (p\<lparr>ResourceVersion := rv1\<rparr>)] @ [c]"
    "ue_answer C (UsUpdateStatus r (p\<lparr>ResourceVersion := rv1\<rparr>)) = Inr rv2" by (simp_all add: three_steps_calls)
  with assms(4) show ?thesis unfolding after_status_def
    by (intro exI [of _ "[first p, UsUpdateStatus r (p\<lparr>ResourceVersion := rv1\<rparr>)]"] exI [of _ "p\<lparr>ResourceVersion := rv1\<rparr>"] exI [of _ rv2]) simp
qed

lemma after_status_append: "after_status C r original cs c \<Longrightarrow> after_status C r original (pre @ cs) c"
  unfolding after_status_def
proof (elim exE conjE)
  fix pre' st rv
  assume "cs = pre' @ [c]" "UsUpdateStatus r st \<in> set pre'" "ue_answer C (UsUpdateStatus r st) = Inr rv" "u_content st = u_content original"
  then show "\<exists>pre'' st rv. pre @ cs = pre'' @ [c] \<and> UsUpdateStatus r st \<in> set pre'' \<and> ue_answer C (UsUpdateStatus r st) = Inr rv
      \<and> u_content st = u_content original"
    by (intro exI [of _ "pre @ pre'"] exI [of _ st] exI [of _ rv]) simp
qed

lemma create_version_last:
  assumes "c \<in> set (fst (create_upstream C r ns original True))" "writes_version r (ResourceVersion original) c"
    and "go_get (Annotations original) ResourceVersionAnnotation \<noteq> Some (ResourceVersion original)"
  shows "after_status C r original (fst (create_upstream C r ns original True)) c"
proof -
  let ?p = "prepareResourceForUpstream C ns original"
  have f: "fst (create_upstream C r ns original True) = fst (three_steps C r (ResourceVersion original) (UsCreate r) ?p)"
    by (simp add: create_upstream_def fst_andThen split: sum.split)
  have "\<not> writes_version r (ResourceVersion original) (UsCreate r ?p)"
    using assms(3) by (simp add: writes_version_def prepared_annotations)
  with three_steps_version_last [of c C r "ResourceVersion original" "UsCreate r" ?p original] assms(1,2) show ?thesis
    by (simp add: f prepared_content)
qed

lemma update_version_last:
  assumes "c \<in> set (fst (update_upstream C r ns old original True))" "writes_version r (ResourceVersion original) c"
    and "old \<noteq> ResourceVersion original"
  shows "after_status C r original (fst (update_upstream C r ns old original True)) c"
proof -
  let ?n = "Name (prepareResourceForUpstream C ns original)"
  obtain existing where e: "ue_get C r ns ?n = Inr existing"
    using assms(1,2) by (cases "ue_get C r ns ?n") (auto simp: update_upstream_def Let_def fst_andThen writes_version_def)
  let ?p = "(with_rv old (prepareResourceForUpstream C ns original))\<lparr>ResourceVersion := ResourceVersion existing\<rparr>"
  have f: "fst (update_upstream C r ns old original True) = [UsGet r ns ?n] @ fst (three_steps C r (ResourceVersion original) (UsUpdate r) ?p)"
    using e by (simp add: update_upstream_def Let_def fst_andThen split: sum.split)
  have "c \<noteq> UsGet r ns ?n" using assms(2) by (auto simp: writes_version_def)
  moreover have "go_get (Annotations ?p) ResourceVersionAnnotation = Some old"
    by (simp add: with_rv_get)
  then have "\<not> writes_version r (ResourceVersion original) (UsUpdate r ?p)"
    using assms(3) by (simp add: writes_version_def)
  moreover have "u_content ?p = u_content original" by (simp add: with_rv_def prepared_content)
  ultimately show ?thesis
    using three_steps_version_last [of c C r "ResourceVersion original" "UsUpdate r" ?p original] assms(1,2)
    by (auto simp: f intro: after_status_append [of _ _ _ _ _ "[UsGet r ns ?n]", simplified])
qed

text \<open>
  An upsynced copy is never marked as up to date before its status is. When the status of the original
  has changed, a run writes the resource version of the original into the annotation of the copy only in
  its last request, after an update of the status with the content of the original that the server has
  accepted; so if the syncer stops or a request fails anywhere in between, the versions still differ and
  a later run writes the object again.
\<close>

theorem upsync_version_written_last:
  assumes original: "downstream_original C r cluster ns name = Inr (Some original)"
    and fresh: "go_get (Annotations original) ResourceVersionAnnotation \<noteq> Some (ResourceVersion original)"
    and c: "c \<in> set (fst (upsync_reconcile C upstream r cluster ns name True))" "writes_version r (ResourceVersion original) c"
  shows "after_status C r original (fst (upsync_reconcile C upstream r cluster ns name True)) c"
proof (cases "ue_upClient C cluster")
  case (Some e)
  with original c show ?thesis by (simp add: upsync_reconcile_def check_def)
next
  case None
  note run = upsync_reconcile_def original None
  show ?thesis
  proof (cases upstream)
    case n: None
    with c have d: "DeletionTimestamp original = None" by (auto simp: run check_def split: if_splits)
    with n have r: "fst (upsync_reconcile C upstream r cluster ns name True) = fst (create_upstream C r ns original True)"
      by (simp add: run check_def)
    from c show ?thesis unfolding r using create_version_last fresh by blast
  next
    case (Some obj)
    let ?old = "go_str (Annotations obj) ResourceVersionAnnotation"
    show ?thesis
    proof (cases "?old = ResourceVersion original")
      case True
      with Some c show ?thesis
        by (auto simp: run check_def delete_upstream_def ignore_not_found_def fst_andThen writes_version_def split: if_splits sum.splits)
    next
      case False
      with Some have r: "fst (upsync_reconcile C upstream r cluster ns name True) = fst (update_upstream C r ns ?old original True)"
        by (auto simp: run check_def Let_def)
      from c show ?thesis unfolding r using update_version_last [OF _ _ False] by blast
    qed
  qed
qed


text \<open>The copy of an original: its content and metadata, less what belongs to the downstream side, with its version.\<close>

definition upsynced_copy :: "upsync_env \<Rightarrow> string \<Rightarrow> unstr \<Rightarrow> unstr \<Rightarrow> bool" where
  "upsynced_copy C ns original obj \<longleftrightarrow>
     Name obj = Name original \<and> Namespace obj = ns \<and> u_content obj = u_content original
   \<and> u_Group obj = u_Group original \<and> u_Version obj = u_Version original \<and> u_Kind obj = u_Kind original
   \<and> (\<forall>k. go_get (Labels obj) k = (if k = InternalDownstreamClusterLabel then None else go_get (Labels original) k))
   \<and> (\<forall>k. go_get (Annotations obj) k = (if k = ResourceVersionAnnotation then Some (ResourceVersion original)
        else if k = NamespaceLocatorAnnotation then None else go_get (Annotations original) k))
   \<and> Finalizers obj = [syncer_finalizer (ue_syncTargetKey C)] \<and> OwnerReferences obj = []
   \<and> DeletionTimestamp obj = None \<and> UID obj = [] \<and> u_ManagedFields obj = [] \<and> u_DeletionGracePeriodSeconds obj = None"

lemma prepared_copy:
  "upsynced_copy C ns original (with_rv (ResourceVersion original) (prepareResourceForUpstream C ns original))"
  by (simp add: upsynced_copy_def with_rv_def addResourceVersionAnnotation_def prepareResourceForUpstream_def)

lemma upsynced_copy_version [simp]:
  "upsynced_copy C ns original (obj\<lparr>ResourceVersion := rv\<rparr>) = upsynced_copy C ns original obj"
  by (simp add: upsynced_copy_def)

lemma with_rv_update:
  "with_rv rv (obj\<lparr>ResourceVersion := v\<rparr>) = (with_rv rv obj)\<lparr>ResourceVersion := v\<rparr>"
  "upsynced_copy C ns original (with_rv rv (with_rv rv' obj)) = upsynced_copy C ns original (with_rv rv obj)"
  by (simp_all add: with_rv_def upsynced_copy_def addResourceVersionAnnotation_def)

definition status_sent :: "upsync_env \<Rightarrow> gvr \<Rightarrow> unstr \<Rightarrow> upsync_call list \<Rightarrow> bool" where
  "status_sent C r original calls \<longleftrightarrow>
     (\<exists>st rv. UsUpdateStatus r st \<in> set calls \<and> ue_answer C (UsUpdateStatus r st) = Inr rv \<and> u_content st = u_content original)"

lemma three_steps_converge:
  assumes "snd (three_steps C r (ResourceVersion original) first p) = Inr u"
    and "upsynced_copy C ns original (with_rv (ResourceVersion original) p)"
  shows "\<exists>pre obj rv. fst (three_steps C r (ResourceVersion original) first p) = pre @ [UsUpdate r obj]
    \<and> upsynced_copy C ns original obj \<and> ue_answer C (UsUpdate r obj) = Inr rv \<and> status_sent C r original pre"
proof -
  from assms(1) obtain rv1 rv2 rv3 where a: "ue_answer C (first p) = Inr rv1"
    "ue_answer C (UsUpdateStatus r (p\<lparr>ResourceVersion := rv1\<rparr>)) = Inr rv2"
    "ue_answer C (UsUpdate r ((with_rv (ResourceVersion original) (p\<lparr>ResourceVersion := rv1\<rparr>))\<lparr>ResourceVersion := rv2\<rparr>)) = Inr rv3"
    by (auto simp: three_steps_def ok_andThen Let_def)
  have "u_content p = u_content original" using assms(2) by (simp add: upsynced_copy_def with_rv_def)
  moreover from this a have "status_sent C r original [first p, UsUpdateStatus r (p\<lparr>ResourceVersion := rv1\<rparr>)]"
    unfolding status_sent_def by (intro exI [of _ "p\<lparr>ResourceVersion := rv1\<rparr>"] exI [of _ rv2]) simp
  ultimately show ?thesis using a assms(2)
    by (intro exI [of _ "[first p, UsUpdateStatus r (p\<lparr>ResourceVersion := rv1\<rparr>)]"]
        exI [of _ "(with_rv (ResourceVersion original) (p\<lparr>ResourceVersion := rv1\<rparr>))\<lparr>ResourceVersion := rv2\<rparr>"] exI [of _ rv3])
      (simp add: three_steps_calls with_rv_update)
qed

text \<open>A run that ends with an accepted write of the copy.\<close>

definition ends_with_copy :: "upsync_env \<Rightarrow> gvr \<Rightarrow> string \<Rightarrow> unstr option \<Rightarrow> unstr \<Rightarrow> bool \<Rightarrow> upsync_call list \<Rightarrow> bool" where
  "ends_with_copy C r ns upstream original dirty calls \<longleftrightarrow>
     (\<exists>pre c obj rv. calls = pre @ [c] \<and> (c = UsUpdate r obj \<or> upstream = None \<and> c = UsCreate r obj)
        \<and> upsynced_copy C ns original obj \<and> ue_answer C c = Inr rv \<and> (dirty \<longrightarrow> status_sent C r original pre))"

lemma create_converges:
  assumes "snd (create_upstream C r ns original dirty) = Inr requeue"
  shows "\<not> requeue \<and> ends_with_copy C r ns None original dirty (fst (create_upstream C r ns original dirty))"
proof (cases dirty)
  case False
  let ?c = "UsCreate r (with_rv (ResourceVersion original) (prepareResourceForUpstream C ns original))"
  from False assms have "fst (create_upstream C r ns original dirty) = [] @ [?c]" "\<not> requeue" "\<exists>rv. ue_answer C ?c = Inr rv"
    by (auto simp: create_upstream_def Let_def ok_andThen fst_andThen)
  with False prepared_copy show ?thesis unfolding ends_with_copy_def by blast
next
  case True
  let ?t = "three_steps C r (ResourceVersion original) (UsCreate r) (prepareResourceForUpstream C ns original)"
  from True assms obtain u where u: "snd ?t = Inr u" "\<not> requeue" "fst (create_upstream C r ns original dirty) = fst ?t"
    by (auto simp: create_upstream_def Let_def ok_andThen fst_andThen)
  with three_steps_converge [OF u(1) prepared_copy] show ?thesis unfolding ends_with_copy_def by metis
qed

lemma update_converges:
  assumes "snd (update_upstream C r ns old original dirty) = Inr requeue" "DeletionTimestamp original = None"
  shows "\<not> requeue \<and> ends_with_copy C r ns upstream original dirty (fst (update_upstream C r ns old original dirty))"
proof -
  let ?p = "prepareResourceForUpstream C ns original"
  obtain existing where e: "ue_get C r ns (Name ?p) = Inr existing"
    using assms by (cases "ue_get C r ns (Name ?p)") (auto simp: update_upstream_def Let_def snd_andThen split: if_splits)
  show ?thesis
  proof (cases dirty)
    case False
    let ?c = "UsUpdate r ((with_rv (ResourceVersion original) ?p)\<lparr>ResourceVersion := ResourceVersion existing\<rparr>)"
    from False assms e have "fst (update_upstream C r ns old original dirty) = [UsGet r ns (Name ?p)] @ [?c]" "\<not> requeue" "\<exists>rv. ue_answer C ?c = Inr rv"
      by (auto simp: update_upstream_def Let_def ok_andThen fst_andThen)
    moreover have "upsynced_copy C ns original ((with_rv (ResourceVersion original) ?p)\<lparr>ResourceVersion := ResourceVersion existing\<rparr>)"
      by (simp add: prepared_copy)
    ultimately show ?thesis using False unfolding ends_with_copy_def by metis
  next
    case True
    let ?q = "(with_rv old ?p)\<lparr>ResourceVersion := ResourceVersion existing\<rparr>"
    let ?t = "three_steps C r (ResourceVersion original) (UsUpdate r) ?q"
    from True assms e obtain u where u: "snd ?t = Inr u" "\<not> requeue"
        "fst (update_upstream C r ns old original dirty) = UsGet r ns (Name ?p) # fst ?t"
      by (auto simp: update_upstream_def Let_def ok_andThen fst_andThen)
    have "upsynced_copy C ns original (with_rv (ResourceVersion original) ?q)" by (simp add: with_rv_update prepared_copy)
    from three_steps_converge [OF u(1) this] obtain pre obj rv where "fst ?t = pre @ [UsUpdate r obj]"
      "upsynced_copy C ns original obj" "ue_answer C (UsUpdate r obj) = Inr rv" "status_sent C r original pre" by blast
    with u(2,3) show ?thesis unfolding ends_with_copy_def
      by (intro conjI exI [of _ "UsGet r ns (Name ?p) # pre"] exI [of _ "UsUpdate r obj"] exI [of _ obj] exI [of _ rv])
        (auto simp: status_sent_def)
  qed
qed

text \<open>
  C12: The copy follows the original. If the original exists and is not being deleted, a run without an error asks
  for no requeue. If the copy in the lister carries the version of the original, the run sends nothing. Otherwise
  its last call is an accepted write of the copy: content, name, kind, labels and annotations of the original
  without what belongs to the downstream side, with the version of the original and exactly the finalizer of this
  sync target; and if the status has changed, an update of the status with the content of the original was
  accepted before. A run that finds such a copy in the lister sends nothing, whatever the status flag says. So one
  run without an error is enough until the original changes.
\<close>

theorem upsync_converges:
  assumes original: "downstream_original C r cluster ns name = Inr (Some original)" "DeletionTimestamp original = None"
    and ok: "snd (upsync_reconcile C upstream r cluster ns name dirty) = Inr requeue"
  shows "\<not> requeue
    \<and> (if \<exists>copy. upstream = Some copy \<and> go_str (Annotations copy) ResourceVersionAnnotation = ResourceVersion original
       then fst (upsync_reconcile C upstream r cluster ns name dirty) = []
       else ends_with_copy C r ns upstream original dirty (fst (upsync_reconcile C upstream r cluster ns name dirty)))
    \<and> (upsynced_copy C ns original copy \<longrightarrow> upsync_reconcile C (Some copy) r cluster ns name dirty' = okay False)"
proof -
  from ok original have cl: "ue_upClient C cluster = None"
    by (auto simp: upsync_reconcile_def ok_andThen)
  note run = upsync_reconcile_def original cl check_def
  have "upsync_reconcile C (Some copy) r cluster ns name dirty' = okay False" if "upsynced_copy C ns original copy"
    using that by (simp add: run upsynced_copy_def go_str_def)
  moreover have "\<not> requeue \<and> (if \<exists>copy. upstream = Some copy \<and> go_str (Annotations copy) ResourceVersionAnnotation = ResourceVersion original
       then fst (upsync_reconcile C upstream r cluster ns name dirty) = []
       else ends_with_copy C r ns upstream original dirty (fst (upsync_reconcile C upstream r cluster ns name dirty)))"
  proof (cases upstream)
    case None
    then have "upsync_reconcile C upstream r cluster ns name dirty = create_upstream C r ns original dirty" by (simp add: run)
    with ok None create_converges [of C r ns original dirty requeue] show ?thesis by simp
  next
    case (Some obj)
    let ?old = "go_str (Annotations obj) ResourceVersionAnnotation"
    show ?thesis
    proof (cases "?old = ResourceVersion original")
      case True
      with Some ok show ?thesis by (auto simp: run)
    next
      case False
      then have "upsync_reconcile C upstream r cluster ns name dirty = update_upstream C r ns ?old original dirty"
        using Some by (auto simp: run Let_def)
      with ok Some False update_converges [of C r ns ?old original dirty requeue upstream] original(2) show ?thesis by auto
    qed
  qed
  ultimately show ?thesis by blast
qed

text \<open>A call that writes or reads a copy, with the shape of the objects that are created.\<close>

definition plain_write :: "upsync_env \<Rightarrow> string \<Rightarrow> upsync_call \<Rightarrow> bool" where
  "plain_write C ns c \<longleftrightarrow> (case c of
     UsDelete _ _ _ \<Rightarrow> False
   | UsCreate _ obj \<Rightarrow> Finalizers obj = [syncer_finalizer (ue_syncTargetKey C)] \<and> Namespace obj = ns
       \<and> go_get (Annotations obj) NamespaceLocatorAnnotation = None \<and> go_get (Labels obj) InternalDownstreamClusterLabel = None
   | _ \<Rightarrow> True)"

lemma rv_not_locator [simp]: "NamespaceLocatorAnnotation \<noteq> ResourceVersionAnnotation"
  by (simp add: ResourceVersionAnnotation_def NamespaceLocatorAnnotation_def)

lemma sends_request [simp]: "sends P (request answer c) \<longleftrightarrow> P c"
  by (simp add: sends_def)

lemma sends_get [simp]: "sends P ([c], res) \<longleftrightarrow> P c"
  by (simp add: sends_def)

lemma three_steps_plain:
  "plain_write C ns (first p) \<Longrightarrow> sends (plain_write C ns) (three_steps C r rv first p)"
  by (auto simp: three_steps_def Let_def plain_write_def intro!: sends_andThen)

lemma create_plain: "sends (plain_write C ns) (create_upstream C r ns original dirty)"
  by (auto simp: create_upstream_def Let_def plain_write_def prepareResourceForUpstream_def with_rv_def addResourceVersionAnnotation_def
      intro!: sends_andThen three_steps_plain)

lemma update_plain: "sends (plain_write C ns) (update_upstream C r ns old original dirty)"
  by (auto simp: update_upstream_def Let_def plain_write_def intro!: sends_andThen three_steps_plain)

lemma orphan_calls:
  "c \<in> set (fst (deleteOrphanUpstreamResource C r cluster ns name)) \<Longrightarrow>
     c = UsDelete r ns name \<or> c = UsGet r ns name \<or> (\<exists>obj. c = UsUpdate r obj)"
  by (auto simp: deleteOrphanUpstreamResource_def removeUpstreamResourceFinalizers_def in_andThen split: if_splits)

lemma upsync_calls:
  assumes "c \<in> set (fst (upsync_reconcile C upstream r cluster ns name dirty))"
  shows "(downstream_original C r cluster ns name = Inr None \<and> (c = UsDelete r ns name \<or> c = UsGet r ns name \<or> (\<exists>obj. c = UsUpdate r obj)))
    \<or> plain_write C ns c
    \<or> (c = UsDelete r ns name \<and> (\<exists>original copy. downstream_original C r cluster ns name = Inr (Some original)
         \<and> DeletionTimestamp original \<noteq> None \<and> upstream = Some copy
         \<and> go_str (Annotations copy) ResourceVersionAnnotation = ResourceVersion original))"
proof (cases "downstream_original C r cluster ns name")
  case (Inl e)
  with assms show ?thesis by (simp add: upsync_reconcile_def)
next
  case (Inr found)
  show ?thesis
  proof (cases found)
    case None
    with Inr assms show ?thesis by (auto simp: upsync_reconcile_def ignore_not_found_def dest!: orphan_calls)
  next
    case (Some original)
    have cl: "ue_upClient C cluster = None"
      using assms Inr Some by (cases "ue_upClient C cluster") (auto simp: upsync_reconcile_def check_def)
    show ?thesis
    proof (cases upstream)
      case None
      with Inr Some cl assms show ?thesis
        using sendsD [OF create_plain] by (auto simp: upsync_reconcile_def check_def split: if_splits)
    next
      case up: (Some copy)
      with Inr Some cl assms show ?thesis
        using sendsD [OF update_plain]
        by (auto simp: upsync_reconcile_def check_def Let_def delete_upstream_def ignore_not_found_def fst_andThen split: if_splits sum.splits)
    qed
  qed
qed

text \<open>
  The upsyncer deletes an upstream copy, or strips its finalizers, only for an orphan, or after the last
  state of an original that is being deleted has been written: whenever a run of the upsyncer or of its
  cleanup controller sends a deletion, the original is absent, or it has a deletion timestamp and the
  copy in the lister carries its version. Every object that a run creates upstream has exactly the
  finalizer of this sync target, the upstream namespace, and neither the locator annotation nor the label of the downstream
  cluster. And the flag of a changed status survives a failed run.
\<close>

theorem upsync_deletes_orphans_only:
  "(UsDelete r' ns' name' \<in> set (fst (upsync_reconcile C upstream r cluster ns name dirty)) \<longrightarrow>
      r' = r \<and> ns' = ns \<and> name' = name \<and>
      (downstream_original C r cluster ns name = Inr None \<or>
       (\<exists>original copy. downstream_original C r cluster ns name = Inr (Some original) \<and> DeletionTimestamp original \<noteq> None
          \<and> upstream = Some copy \<and> go_str (Annotations copy) ResourceVersionAnnotation = ResourceVersion original)))
   \<and> (fst (cleanup_reconcile C r cluster ns name) \<noteq> [] \<longrightarrow> downstream_original C r cluster ns name = Inr None)
   \<and> (UsCreate r' obj \<in> set (fst (upsync_reconcile C upstream r cluster ns name dirty)) \<longrightarrow>
      Finalizers obj = [syncer_finalizer (ue_syncTargetKey C)] \<and> Namespace obj = ns
      \<and> go_get (Annotations obj) NamespaceLocatorAnnotation = None \<and> go_get (Labels obj) InternalDownstreamClusterLabel = None)
   \<and> (upsync_process C r key keys = (keys', cs, Inl e) \<longrightarrow> (q \<in> set keys' \<longleftrightarrow> q \<in> set keys))"
proof (intro conjI)
  show "UsDelete r' ns' name' \<in> set (fst (upsync_reconcile C upstream r cluster ns name dirty)) \<longrightarrow>
      r' = r \<and> ns' = ns \<and> name' = name \<and>
      (downstream_original C r cluster ns name = Inr None \<or>
       (\<exists>original copy. downstream_original C r cluster ns name = Inr (Some original) \<and> DeletionTimestamp original \<noteq> None
          \<and> upstream = Some copy \<and> go_str (Annotations copy) ResourceVersionAnnotation = ResourceVersion original))"
    using upsync_calls [of "UsDelete r' ns' name'" C upstream r cluster ns name dirty] by (auto simp: plain_write_def)
next
  show "fst (cleanup_reconcile C r cluster ns name) \<noteq> [] \<longrightarrow> downstream_original C r cluster ns name = Inr None"
    by (auto simp: cleanup_reconcile_def fst_andThen split: sum.splits option.splits)
next
  show "UsCreate r' obj \<in> set (fst (upsync_reconcile C upstream r cluster ns name dirty)) \<longrightarrow>
      Finalizers obj = [syncer_finalizer (ue_syncTargetKey C)] \<and> Namespace obj = ns
      \<and> go_get (Annotations obj) NamespaceLocatorAnnotation = None \<and> go_get (Labels obj) InternalDownstreamClusterLabel = None"
    using upsync_calls [of "UsCreate r' obj" C upstream r cluster ns name dirty] by (auto simp: plain_write_def)
next
  show "upsync_process C r key keys = (keys', cs, Inl e) \<longrightarrow> (q \<in> set keys' \<longleftrightarrow> q \<in> set keys)"
    by (auto simp: upsync_process_def okay_def Let_def split: sum.splits prod.splits if_splits)
qed


section \<open>Examples\<close>

definition ex_pv :: unstr where
  "ex_pv = (ex_upstream [] ''pv'' None)\<lparr>ResourceVersion := ''42'', u_content := [(''status'', ''bound'')]\<rparr>"

definition ex_pv_gvr :: gvr where "ex_pv_gvr = \<lparr>gvr_Group = [], gvr_Version = ''v1'', gvr_Resource = ''persistentvolumes''\<rparr>"

definition ex_upsync :: "unstr option \<Rightarrow> upsync_env" where
  "ex_upsync original = \<lparr>ue_syncTargetName = ''east'', ue_syncTargetClusterName = ''root'', ue_syncTargetUID = ''uid'', ue_syncTargetKey = ''key'',
     ue_json = basic_json, ue_namespacesByLocator = (\<lambda>_. Inr []),
     ue_downLister = (\<lambda>_. Inr (\<lambda>_ _. case original of None \<Rightarrow> Inl NotFound | Some obj \<Rightarrow> Inr obj)),
     ue_upLister = (\<lambda>_ _. Inr (\<lambda>_ _. Inl NotFound)), ue_upList = (\<lambda>_ _ _. Inr []), ue_upsyncedGVRs = (\<lambda>_. Inr []),
     ue_upClient = (\<lambda>_. None), ue_get = (\<lambda>_ _ _. Inr ex_pv), ue_answer = (\<lambda>_. Inr ''7''),
     ue_split = (\<lambda>_. Inr (''user'', [], ''pv'')), ue_upKey = (\<lambda>_. Inr ''k'')\<rparr>"

lemma ex_original: "downstream_original (ex_upsync o0) r cluster [] name = Inr o0"
  by (cases o0) (simp_all add: downstream_original_def getDownstreamResource_def ex_upsync_def)

lemma ex_upsync_run:
  "\<exists>a b c. upsync_reconcile (ex_upsync (Some ex_pv)) None r ''user'' [] ''pv'' True = ([UsCreate r a, UsUpdateStatus r b, UsUpdate r c], Inr False)
     \<and> go_get (Annotations c) ResourceVersionAnnotation = Some ''42''"
proof -
  have d: "DeletionTimestamp ex_pv = None" "ResourceVersion ex_pv = ''42''" by (simp_all add: ex_pv_def ex_upstream_def)
  have a: "ue_answer (ex_upsync o0) c = Inr ''7''" "ue_upClient (ex_upsync o0) cl = None" for o0 c cl by (simp_all add: ex_upsync_def)
  show ?thesis
    by (simp add: upsync_reconcile_def ex_original a check_def d create_upstream_def)
       (simp add: three_steps_def request_def a andThen_def okay_def Let_def with_rv_get)
qed

theorem upsync_version_written_last_witness:
  "\<exists>a b c. after_status (ex_upsync (Some ex_pv)) ex_pv_gvr ex_pv [UsCreate ex_pv_gvr a, UsUpdateStatus ex_pv_gvr b, UsUpdate ex_pv_gvr c] (UsUpdate ex_pv_gvr c)"
proof -
  obtain a b c where r: "upsync_reconcile (ex_upsync (Some ex_pv)) None ex_pv_gvr ''user'' [] ''pv'' True
      = ([UsCreate ex_pv_gvr a, UsUpdateStatus ex_pv_gvr b, UsUpdate ex_pv_gvr c], Inr False)"
    "go_get (Annotations c) ResourceVersionAnnotation = Some ''42''" using ex_upsync_run by blast
  have "go_get (Annotations ex_pv) ResourceVersionAnnotation \<noteq> Some (ResourceVersion ex_pv)"
    "writes_version ex_pv_gvr (ResourceVersion ex_pv) (UsUpdate ex_pv_gvr c)"
    using r(2) by (simp_all add: ex_pv_def ex_upstream_def writes_version_def)
  from upsync_version_written_last [OF ex_original [of "Some ex_pv" ex_pv_gvr "''user''" "''pv''"] this(1) _ this(2), of None] r show ?thesis by auto
qed

theorem upsync_converges_witness:
  "\<exists>a b c. upsync_reconcile (ex_upsync (Some ex_pv)) None ex_pv_gvr ''user'' [] ''pv'' True
      = ([UsCreate ex_pv_gvr a, UsUpdateStatus ex_pv_gvr b, UsUpdate ex_pv_gvr c], Inr False)
     \<and> upsynced_copy (ex_upsync (Some ex_pv)) [] ex_pv c
     \<and> upsync_reconcile (ex_upsync (Some ex_pv)) (Some c) ex_pv_gvr ''user'' [] ''pv'' False = okay False"
proof -
  obtain a b c where r: "upsync_reconcile (ex_upsync (Some ex_pv)) None ex_pv_gvr ''user'' [] ''pv'' True
      = ([UsCreate ex_pv_gvr a, UsUpdateStatus ex_pv_gvr b, UsUpdate ex_pv_gvr c], Inr False)" using ex_upsync_run by blast
  have d: "DeletionTimestamp ex_pv = None" by (simp add: ex_pv_def ex_upstream_def)
  have "snd (upsync_reconcile (ex_upsync (Some ex_pv)) None ex_pv_gvr ''user'' [] ''pv'' True) = Inr False" using r by simp
  note conv = upsync_converges [OF ex_original d this]
  from conv r have "upsynced_copy (ex_upsync (Some ex_pv)) [] ex_pv c"
    by (auto simp: ends_with_copy_def append_eq_Cons_conv)
  with conv r show ?thesis by blast
qed
theorem upsync_deletes_orphans_only_witness:
  "fst (cleanup_reconcile (ex_upsync None) ex_pv_gvr ''user'' [] ''pv'') \<noteq> []
   \<and> downstream_original (ex_upsync None) ex_pv_gvr ''user'' [] ''pv'' = Inr None"
proof -
  have a: "ue_answer (ex_upsync None) c = Inr ''7''" "ue_upClient (ex_upsync None) cl = None" "ue_get (ex_upsync None) r n m = Inr ex_pv"
    for c cl r n m by (simp_all add: ex_upsync_def)
  have "fst (cleanup_reconcile (ex_upsync None) ex_pv_gvr ''user'' [] ''pv'') \<noteq> []"
    by (simp add: cleanup_reconcile_def ex_original ignore_not_found_def deleteOrphanUpstreamResource_def removeUpstreamResourceFinalizers_def
        a check_def fst_andThen)
  with upsync_deletes_orphans_only [of ex_pv_gvr "[]" "''pv''" "ex_upsync None" None ex_pv_gvr "''user''" "[]" "''pv''"] show ?thesis by blast
qed

end
