(* ===== verification/Syncer_View.thy ===== *)
theory Syncer_View
  imports Syncer_Shared
begin

text \<open>
  \<^verbatim>\<open>src/tmc/virtual/syncer/transformations\<close> and \<^verbatim>\<open>src/apis/workload/helpers\<close>: the view that a syncer has of an
  upstream object through the syncer virtual workspace. \<open>AfterRead\<close> computes the view from the upstream
  object; \<open>BeforeWrite\<close> turns a write to the view into a write of the upstream object, in which every sync
  target has its own copy of the summarized fields in an annotation, and the fields of the only sync target
  are promoted to the object itself.

  Parameters (record \<open>view_lib\<close>): the JSON and JSON patch packages, the nested field access of the
  package \<open>unstructured\<close> and the URL functions. A value of a field is a JSON string or some other JSON text.
\<close>

section \<open>Sync intents\<close>

record sync_intent =
  si_ResourceState :: string
  si_DeletionTimestamp :: "time option"
  si_Finalizers :: string

definition intent_step :: "rfc3339 \<Rightarrow> smap \<Rightarrow> (string \<times> sync_intent) list \<Rightarrow> string \<times> string \<Rightarrow> go_error + (string \<times> sync_intent) list" where
  "intent_step rfc annotations syncing e =
     (case e of (labelName, labelValue) \<Rightarrow>
        if has_prefix labelName ClusterResourceStateLabelPrefix then
          (let syncTarget = trim_prefix labelName ClusterResourceStateLabelPrefix in
           bindE (case go_get annotations (deletion_annotation syncTarget) of
                    None \<Rightarrow> Inr None
                  | Some deletionAnnotation \<Rightarrow>
                      (case parse_time rfc deletionAnnotation of
                         Inl _ \<Rightarrow> Inl (Failure ''parsing of the deletion annotation failed'')
                       | Inr t \<Rightarrow> Inr (Some t))) (\<lambda>deletionTimestamp.
             Inr (go_put syncTarget
               \<lparr>si_ResourceState = labelValue, si_DeletionTimestamp = deletionTimestamp,
                si_Finalizers = go_str annotations (ClusterFinalizerAnnotationPrefix @ syncTarget)\<rparr> syncing)))
        else Inr syncing)"

definition GetSyncIntents :: "rfc3339 \<Rightarrow> 'a object_meta_scheme \<Rightarrow> go_error + (string \<times> sync_intent) list" where
  "GetSyncIntents rfc obj = foldE (intent_step rfc (Annotations obj)) [] (entries (Labels obj))"

section \<open>Fields and rules\<close>

datatype jvalue = JNull | JString string | JOther string

definition promotedToUpstream :: jvalue where "promotedToUpstream = JString ''##promoted##''"

record view_field =
  FieldPath :: string
  PromoteToUpstream :: bool

record view_lib =
  vl_marshal :: "jvalue gomap \<Rightarrow> go_error + string"
  vl_unmarshal :: "string \<Rightarrow> go_error + jvalue gomap"
  vl_unmarshalRules :: "string \<Rightarrow> go_error + view_field list"
  vl_NestedField :: "unstr \<Rightarrow> string list \<Rightarrow> go_error + jvalue option"
  vl_SetNestedField :: "unstr \<Rightarrow> jvalue \<Rightarrow> string list \<Rightarrow> go_error + unstr"
  vl_RemoveNestedField :: "unstr \<Rightarrow> string list \<Rightarrow> unstr"
  vl_DecodePatch :: "string \<Rightarrow> go_error + (jvalue \<Rightarrow> go_error + jvalue)"
  vl_asMap :: "jvalue \<Rightarrow> go_error + jvalue"          \<comment> \<open>decoding into a \<open>map[string]interface{}\<close>\<close>
  vl_workspaceURL :: "string \<Rightarrow> string \<Rightarrow> go_error + string"

definition pathElements :: "view_field \<Rightarrow> string list" where
  "pathElements f = splitOn (CHR ''.'') (FieldPath f)"

definition field_Set :: "view_lib \<Rightarrow> view_field \<Rightarrow> unstr \<Rightarrow> jvalue \<Rightarrow> go_error + unstr" where
  "field_Set L f resource v = vl_SetNestedField L resource v (pathElements f)"

definition field_Get :: "view_lib \<Rightarrow> view_field \<Rightarrow> unstr \<Rightarrow> go_error + jvalue option" where
  "field_Get L f resource = vl_NestedField L resource (pathElements f)"

definition field_Delete :: "view_lib \<Rightarrow> view_field \<Rightarrow> unstr \<Rightarrow> unstr" where
  "field_Delete L f resource = vl_RemoveNestedField L resource (pathElements f)"

definition IsStatus :: "view_field \<Rightarrow> bool" where
  "IsStatus f = (pathElements f = [''status''])"

type_synonym rules = "gvr \<Rightarrow> view_field list"
type_synonym transformation =
  "string \<Rightarrow> gvr \<Rightarrow> unstr \<Rightarrow> jvalue gomap \<Rightarrow> (string \<times> sync_intent) list \<Rightarrow> go_error + unstr"

definition canPromoteStatusToUpstream :: "gvr \<Rightarrow> bool" where
  "canPromoteStatusToUpstream r = True"

definition DefaultSummarizingRules_FieldsToSummarize :: rules where
  "DefaultSummarizingRules_FieldsToSummarize r =
     [\<lparr>FieldPath = ''status'', PromoteToUpstream = canPromoteStatusToUpstream r\<rparr>]"

definition fields_FieldsToSummarize :: "view_field list \<Rightarrow> rules" where
  "fields_FieldsToSummarize fs r = fs"

definition ExperimentalSummarizingRulesAnnotation :: string where
  "ExperimentalSummarizingRulesAnnotation = ''experimental.summarizing.workload.kcp.io''"

definition DefaultSummarizingRules_SummarizingRulesFor :: "view_lib \<Rightarrow> unstr \<Rightarrow> go_error + rules option" where
  "DefaultSummarizingRules_SummarizingRulesFor L resource =
     (let encoded = go_str (Annotations resource) ExperimentalSummarizingRulesAnnotation in
      if encoded \<noteq> [] then bindE (vl_unmarshalRules L encoded) (\<lambda>decoded. Inr (Some (fields_FieldsToSummarize decoded)))
      else Inr (Some DefaultSummarizingRules_FieldsToSummarize))"

definition ToSyncerView :: "view_lib \<Rightarrow> transformation" where
  "ToSyncerView L syncTargetKey r resource overridden requested =
     (let specDiffPatch = go_str (Annotations resource) (ClusterSpecDiffAnnotationPrefix @ syncTargetKey) in
      if specDiffPatch = [] then Inr resource
      else bindE (vl_NestedField L resource [''spec'']) (\<lambda>spec.
        case spec of None \<Rightarrow> Inr resource
        | Some upstreamSpec \<Rightarrow>
            bindE (vl_DecodePatch L specDiffPatch) (\<lambda>apply_patch.
            bindE (apply_patch upstreamSpec) (\<lambda>patched.
            bindE (vl_asMap L patched) (\<lambda>newSpec.
            vl_SetNestedField L resource newSpec [''spec''])))))"

section \<open>The transformer\<close>

text \<open>The providers are nil (\<open>None\<close>) or a function, whose result may be nil too.\<close>

record transformer =
  ShardExternalURL :: string
  TransformationProvider :: "(unstr \<Rightarrow> go_error + transformation option) option"
  SummarizingRulesProvider :: "(unstr \<Rightarrow> go_error + rules option) option"

definition TransformationFor :: "transformer \<Rightarrow> unstr \<Rightarrow> go_error + transformation option" where
  "TransformationFor srt resource = (case TransformationProvider srt of None \<Rightarrow> Inr None | Some p \<Rightarrow> p resource)"

definition SummarizingRulesFor :: "transformer \<Rightarrow> unstr \<Rightarrow> go_error + rules option" where
  "SummarizingRulesFor srt resource =
     (case SummarizingRulesProvider srt of
        None \<Rightarrow> Inr (Some DefaultSummarizingRules_FieldsToSummarize) | Some p \<Rightarrow> p resource)"

definition SpecDiffTransformation_TransformationFor :: "view_lib \<Rightarrow> unstr \<Rightarrow> go_error + transformation option" where
  "SpecDiffTransformation_TransformationFor L resource = Inr (Some (ToSyncerView L))"

text \<open>The transformer of the syncer virtual workspace.\<close>

definition syncer_transformer :: "view_lib \<Rightarrow> string \<Rightarrow> transformer" where
  "syncer_transformer L shardExternalURL =
     \<lparr>ShardExternalURL = shardExternalURL, TransformationProvider = Some (SpecDiffTransformation_TransformationFor L),
      SummarizingRulesProvider = Some (DefaultSummarizingRules_SummarizingRulesFor L)\<rparr>"

definition SyncTargetKeyFrom :: "string option \<Rightarrow> go_error + string" where
  "SyncTargetKeyFrom value =
     (case value of None \<Rightarrow> Inl (Failure ''context must contain a valid non-empty SyncTarget key'') | Some k \<Rightarrow> Inr k)"

abbreviation view_annotation :: "string \<Rightarrow> string" where
  "view_annotation key \<equiv> InternalSyncerViewAnnotationPrefix @ key"

definition getSyncerViewFields :: "view_lib \<Rightarrow> unstr \<Rightarrow> string \<Rightarrow> go_error + jvalue gomap" where
  "getSyncerViewFields L resource syncTargetKey =
     (case find (\<lambda>(name, value). has_prefix name InternalSyncerViewAnnotationPrefix
                   \<and> syncTargetKey = trim_prefix name InternalSyncerViewAnnotationPrefix) (entries (Annotations resource)) of
        None \<Rightarrow> Inr None
      | Some (name, value) \<Rightarrow> vl_unmarshal L value)"

definition setSyncerViewFields :: "view_lib \<Rightarrow> unstr \<Rightarrow> string \<Rightarrow> jvalue gomap \<Rightarrow> go_error + unstr" where
  "setSyncerViewFields L resource syncTargetKey values =
     bindE (vl_marshal L values) (\<lambda>annotationValue.
     bindE (go_set (go_make (Annotations resource)) (view_annotation syncTargetKey) annotationValue) (\<lambda>annotations.
     Inr (resource\<lparr>Annotations := annotations\<rparr>)))"

text \<open>\<open>kerrors.NewInternalError\<close> of a wrapped error; a panic is not caught.\<close>

definition internal :: "string \<Rightarrow> go_error + 'a \<Rightarrow> go_error + 'a" where
  "internal message r = (case r of Inr x \<Rightarrow> Inr x | Inl e \<Rightarrow> Inl (if is_panic e then e else Failure message))"

definition fieldsFor :: "transformer \<Rightarrow> gvr \<Rightarrow> unstr \<Rightarrow> go_error + view_field list" where
  "fieldsFor srt r resource =
     bindE (internal ''unable to get summarizing rules'' (SummarizingRulesFor srt resource)) (\<lambda>summarizingRules.
       Inr (case summarizingRules of None \<Rightarrow> [] | Some rs \<Rightarrow> rs r))"

section \<open>Writing\<close>

datatype view_call = VGet string string | VUpdateStatus unstr

record view_env =
  ve_lib :: view_lib
  ve_srt :: transformer
  ve_rfc :: rfc3339
  ve_domainKey :: "go_error option"            \<comment> \<open>error of splitting the API domain key\<close>
  ve_syncTargetKey :: "string option"          \<comment> \<open>the value in the context\<close>
  ve_get :: "string \<Rightarrow> string \<Rightarrow> go_error + unstr"
  ve_updateStatus :: "unstr \<Rightarrow> go_error + unstr"

type_synonym promotion_state = "unstr \<times> jvalue gomap \<times> bool \<times> bool"

text \<open>The loop that promotes the fields of the remaining sync target; the flags are \<open>promoted\<close> and \<open>statusPromoted\<close>.\<close>

definition promote_field :: "view_lib \<Rightarrow> promotion_state \<Rightarrow> view_field \<Rightarrow> go_error + promotion_state" where
  "promote_field L st f =
     (case st of (resource, values, promoted, statusPromoted) \<Rightarrow>
        if \<not> PromoteToUpstream f then Inr st
        else
          (let v = (case go_get values (FieldPath f) of None \<Rightarrow> JNull | Some v \<Rightarrow> v) in
           if v \<noteq> promotedToUpstream then
             bindE (internal ''unable to set promoted syncer view field'' (field_Set L f resource v)) (\<lambda>resource'.
             bindE (go_set values (FieldPath f) promotedToUpstream) (\<lambda>values'.
             Inr (resource', values', True, statusPromoted \<or> IsStatus f)))
           else Inr st))"

definition promote_remaining :: "view_env \<Rightarrow> view_field list \<Rightarrow> unstr \<Rightarrow> string \<Rightarrow> (view_call, unstr) calls" where
  "promote_remaining E summarized resource singleSyncTarget =
     (let L = ve_lib E in
      andThen (lift_err (internal ''unable to get syncer view fields'' (getSyncerViewFields L resource singleSyncTarget))) (\<lambda>existing.
      andThen (lift_err (if existing \<noteq> None then foldE (promote_field L) (resource, existing, False, False) summarized
                         else Inr (resource, existing, False, False))) (\<lambda>(resource', values, promoted, statusPromoted).
      andThen (lift_err (if promoted
                         then internal ''unable to set syncer view fields'' (setSyncerViewFields L resource' singleSyncTarget values)
                         else Inr resource')) (\<lambda>resource''.
      if statusPromoted then ([VUpdateStatus resource''], ve_updateStatus E resource'') else okay resource''))))"

text \<open>The marks of a sync target are taken from the object.\<close>

definition remove_target :: "string \<Rightarrow> unstr \<Rightarrow> unstr" where
  "remove_target syncTargetKey resource =
     (let finalizers = remdups (Finalizers resource); fin = syncer_finalizer syncTargetKey in
      resource\<lparr>Labels := go_del (state_label syncTargetKey) (Labels resource),
        Finalizers := (if fin \<in> set finalizers then set_list (removeAll fin finalizers) else Finalizers resource),
        Annotations := go_del ClusterSpecDiffAnnotationPrefix
          (go_del (deletion_annotation syncTargetKey) (go_del (view_annotation syncTargetKey) (Annotations resource)))\<rparr>)"

definition removed_write :: "view_env \<Rightarrow> string \<Rightarrow> view_field list \<Rightarrow> unstr \<Rightarrow> (view_call, unstr) calls" where
  "removed_write E syncTargetKey summarized resource =
     andThen (lift_err (internal ''parsing of the deletion annotation failed'' (GetSyncIntents (ve_rfc E) resource))) (\<lambda>syncing.
     andThen (case AList.delete syncTargetKey syncing of
                [(singleSyncTarget, intent)] \<Rightarrow>
                  if si_ResourceState intent = ''Sync'' \<and> syncer_finalizer singleSyncTarget \<in> set (Finalizers resource)
                  then promote_remaining E summarized resource singleSyncTarget else okay resource
              | _ \<Rightarrow> okay resource) (\<lambda>resource'.
     okay (remove_target syncTargetKey resource')))"

text \<open>The loop that gives the single owner its promoted fields back.\<close>

definition unpromote_field :: "view_lib \<Rightarrow> unstr \<Rightarrow> jvalue gomap \<times> bool \<Rightarrow> view_field \<Rightarrow> go_error + (jvalue gomap \<times> bool)" where
  "unpromote_field L resource st f =
     (case st of (values, unpromoted) \<Rightarrow>
        if \<not> PromoteToUpstream f \<or> go_get values (FieldPath f) \<noteq> Some promotedToUpstream then Inr st
        else bindE (internal ''unable to get promoted syncer view field'' (field_Get L f resource)) (\<lambda>found.
          case found of None \<Rightarrow> Inr st
          | Some v \<Rightarrow> bindE (go_set values (FieldPath f) v) (\<lambda>values'. Inr (values', True))))"

definition unpromote :: "view_lib \<Rightarrow> view_field list \<Rightarrow> unstr \<Rightarrow> string \<Rightarrow> go_error + unstr" where
  "unpromote L summarized resource owner =
     bindE (internal ''unable to get syncer view fields'' (getSyncerViewFields L resource owner)) (\<lambda>existing.
     bindE (foldE (unpromote_field L resource) (existing, False) summarized) (\<lambda>(values, unpromoted).
     if unpromoted then internal ''unable to set syncer view fields'' (setSyncerViewFields L resource owner values)
     else Inr resource))"

text \<open>The loop over the fields of a write; the state is the upstream object and the new syncer view fields.\<close>

definition write_field ::
  "view_lib \<Rightarrow> bool \<Rightarrow> bool \<Rightarrow> unstr \<Rightarrow> jvalue gomap \<Rightarrow> unstr \<times> jvalue gomap \<Rightarrow> view_field \<Rightarrow> go_error + (unstr \<times> jvalue gomap)" where
  "write_field L statusSubresource single view existing st f =
     (case st of (resource, values) \<Rightarrow>
        if IsStatus f \<noteq> statusSubresource then
          (case go_get existing (FieldPath f) of None \<Rightarrow> Inr st
           | Some v \<Rightarrow> bindE (go_set values (FieldPath f) v) (\<lambda>values'. Inr (resource, values')))
        else bindE (internal ''unable to get syncer view field'' (field_Get L f view)) (\<lambda>found.
          case found of None \<Rightarrow> Inr st
          | Some v \<Rightarrow>
              if PromoteToUpstream f \<and> single then
                bindE (internal ''unable to promote syncer view field'' (field_Set L f resource v)) (\<lambda>resource'.
                bindE (go_set values (FieldPath f) promotedToUpstream) (\<lambda>values'. Inr (resource', values')))
              else bindE (go_set values (FieldPath f) v) (\<lambda>values'. Inr (resource, values'))))"

definition upstream_syncer_finalizers :: "unstr \<Rightarrow> string list" where
  "upstream_syncer_finalizers resource = remdups (filter (\<lambda>f. has_prefix f SyncerFinalizerNamePrefix) (Finalizers resource))"

definition owned_write ::
  "view_env \<Rightarrow> string \<Rightarrow> view_field list \<Rightarrow> unstr \<Rightarrow> string list \<Rightarrow> unstr \<Rightarrow> go_error + unstr" where
  "owned_write E syncTargetKey summarized view subresources resource =
     (let L = ve_lib E; fin = syncer_finalizer syncTargetKey in
      bindE (internal ''parsing of the deletion annotation failed'' (GetSyncIntents (ve_rfc E) resource)) (\<lambda>newSyncing.
      if (case map_of newSyncing syncTargetKey of None \<Rightarrow> True | Some intent \<Rightarrow> si_ResourceState intent \<noteq> ''Sync'')
      then Inl (Failure ''tried to write resource though it is not assigned to the current SyncTarget'')
      else if fin \<notin> set (Finalizers view)
      then Inl (Failure ''tried to write resource though it is not owning it'')
      else
        (let owners = upstream_syncer_finalizers resource in
         bindE (if 1 < length newSyncing \<and> length owners = 1
                then unpromote L summarized resource (trim_prefix (hd owners) SyncerFinalizerNamePrefix)
                else Inr resource) (\<lambda>resource1.
         bindE (internal ''unable to get syncer view fields'' (getSyncerViewFields L resource1 syncTargetKey)) (\<lambda>existing.
         bindE (foldE (write_field L (subresources = [''status'']) (length newSyncing = 1) view existing)
                  (resource1, Some []) summarized) (\<lambda>(resource2, values).
         bindE (internal ''unable to set syncer view fields'' (setSyncerViewFields L resource2 syncTargetKey values)) (\<lambda>resource3.
         Inr (if fin \<notin> set owners
              then resource3\<lparr>Finalizers := set_list (remdups (Finalizers resource3 @ [fin]))\<rparr> else resource3)))))))) "

definition removedFromSyncer :: "string \<Rightarrow> unstr \<Rightarrow> string list \<Rightarrow> bool" where
  "removedFromSyncer syncTargetKey view subresources \<longleftrightarrow>
     DeletionTimestamp view \<noteq> None \<and> syncer_finalizer syncTargetKey \<notin> set (Finalizers view) \<and> subresources = []"

definition BeforeWrite :: "view_env \<Rightarrow> gvr \<Rightarrow> unstr \<Rightarrow> string list \<Rightarrow> (view_call, unstr) calls" where
  "BeforeWrite E r view subresources =
     andThen (lift_err (case ve_domainKey E of None \<Rightarrow> Inr () | Some e \<Rightarrow> Inl e)) (\<lambda>_.
     andThen (lift_err (SyncTargetKeyFrom (ve_syncTargetKey E))) (\<lambda>syncTargetKey.
     andThen ([VGet (Name view) (ResourceVersion view)], ve_get E (Name view) (ResourceVersion view)) (\<lambda>upstream.
     if ResourceVersion upstream \<noteq> ResourceVersion view then fail Conflict
     else
       andThen (lift_err (fieldsFor (ve_srt E) r upstream)) (\<lambda>summarized.
       if removedFromSyncer syncTargetKey view subresources then removed_write E syncTargetKey summarized upstream
       else lift_err (owned_write E syncTargetKey summarized view subresources upstream)))))"

section \<open>Reading\<close>

definition read_field ::
  "view_lib \<Rightarrow> unstr \<Rightarrow> jvalue gomap \<Rightarrow> unstr \<Rightarrow> view_field \<Rightarrow> go_error + unstr" where
  "read_field L upstream values view f =
     (case go_get values (FieldPath f) of
        None \<Rightarrow> Inr (if PromoteToUpstream f then field_Delete L f view else view)
      | Some v \<Rightarrow>
          if PromoteToUpstream f \<and> v = promotedToUpstream then
            bindE (internal ''unable to get promoted syncer view field'' (field_Get L f upstream)) (\<lambda>found.
              case found of None \<Rightarrow> Inr (field_Delete L f view)
              | Some w \<Rightarrow> internal ''unable to override field'' (field_Set L f view w))
          else internal ''unable to override field'' (field_Set L f view v))"

definition InternalWorkspaceURLAnnotationKey :: string where
  "InternalWorkspaceURLAnnotationKey = ''internal.workload.kcp.io/workspace-url''"

definition cleaned :: "unstr \<Rightarrow> unstr" where
  "cleaned upstream =
     upstream\<lparr>Finalizers := [], DeletionTimestamp := None,
       Annotations := map_option (filter (\<lambda>(name, _). \<not> has_prefix name InternalSyncerViewAnnotationPrefix)) (Annotations upstream)\<rparr>"

definition finish_view :: "view_env \<Rightarrow> string \<Rightarrow> unstr \<Rightarrow> (string \<times> sync_intent) list \<Rightarrow> unstr \<Rightarrow> go_error + unstr" where
  "finish_view E syncTargetKey upstream syncing view =
     (let fin = syncer_finalizer syncTargetKey;
          view1 = (if fin \<in> set (Finalizers upstream)
                   then view\<lparr>Finalizers := set_list (remdups (Finalizers view @ [fin]))\<rparr> else view);
          view2 = (case map_of syncing syncTargetKey of
                     Some intent \<Rightarrow>
                       if si_DeletionTimestamp intent \<noteq> None \<and> si_Finalizers intent = []
                       then view1\<lparr>DeletionTimestamp := si_DeletionTimestamp intent\<rparr> else view1
                   | None \<Rightarrow> view1) in
      bindE (internal ''unable to build workspace URL''
        (vl_workspaceURL (ve_lib E) (ShardExternalURL (ve_srt E)) (Cluster upstream))) (\<lambda>workspaceURL.
      Inr (view2\<lparr>Annotations := Some (go_put InternalWorkspaceURLAnnotationKey workspaceURL (entries (Annotations view2)))\<rparr>)))"

definition AfterRead :: "view_env \<Rightarrow> gvr \<Rightarrow> unstr \<Rightarrow> go_error + unstr" where
  "AfterRead E r upstream =
     bindE (SyncTargetKeyFrom (ve_syncTargetKey E)) (\<lambda>syncTargetKey.
     bindE (internal ''parsing of the deletion annotation failed'' (GetSyncIntents (ve_rfc E) upstream)) (\<lambda>syncing.
     bindE (internal ''unable to get syncer view fields'' (getSyncerViewFields (ve_lib E) upstream syncTargetKey)) (\<lambda>values.
     bindE (internal ''unable to get transformation'' (TransformationFor (ve_srt E) upstream)) (\<lambda>found.
     bindE (case found of None \<Rightarrow> Inr (cleaned upstream)
            | Some t \<Rightarrow> t syncTargetKey r (cleaned upstream) values syncing) (\<lambda>transformed.
     bindE (fieldsFor (ve_srt E) r upstream) (\<lambda>summarized.
     bindE (foldE (read_field (ve_lib E) upstream values) transformed summarized) (\<lambda>view.
     finish_view E syncTargetKey upstream syncing view)))))))"

section \<open>Lemmas\<close>

lemma internal_Inr [simp]: "internal m r = Inr x \<longleftrightarrow> r = Inr x"
  by (auto simp: internal_def split: sum.splits)

lemma internal_Inr_eq [simp]: "internal m (Inr x) = Inr x"
  by (simp add: internal_def)

lemma getSyncerViewFields_get:
  "getSyncerViewFields L o' k = (case go_get (Annotations o') (view_annotation k) of None \<Rightarrow> Inr None | Some v \<Rightarrow> vl_unmarshal L v)"
proof -
  have "find (\<lambda>(name, value). has_prefix name InternalSyncerViewAnnotationPrefix
           \<and> k = trim_prefix name InternalSyncerViewAnnotationPrefix) l
        = map_option (\<lambda>v. (view_annotation k, v)) (map_of l (view_annotation k))" for l :: "(string \<times> string) list"
    by (induction l) (auto simp: has_prefix_iff split: prod.splits)
  then show ?thesis by (simp add: getSyncerViewFields_def go_get_def split: option.splits)
qed

lemma foldE_cong: "(\<And>s x. x \<in> set xs \<Longrightarrow> f s x = g s x) \<Longrightarrow> foldE f s xs = foldE g s xs"
  by (induction xs arbitrary: s) (auto simp: bindE_def split: sum.splits)

lemma intent_step_cong:
  assumes "\<And>k. go_get a (deletion_annotation k) = go_get b (deletion_annotation k)"
    and "\<And>k. go_get a (ClusterFinalizerAnnotationPrefix @ k) = go_get b (ClusterFinalizerAnnotationPrefix @ k)"
  shows "intent_step rfc a = intent_step rfc b"
  using assms by (simp add: fun_eq_iff intent_step_def go_str_def)

lemma GetSyncIntents_cong:
  assumes "Labels x = Labels y"
    and "\<And>k. \<not> has_prefix k InternalSyncerViewAnnotationPrefix \<Longrightarrow> go_get (Annotations x) k = go_get (Annotations y) k"
  shows "GetSyncIntents rfc x = GetSyncIntents rfc y"
proof -
  have "\<not> has_prefix (deletion_annotation k) InternalSyncerViewAnnotationPrefix"
    "\<not> has_prefix (ClusterFinalizerAnnotationPrefix @ k) InternalSyncerViewAnnotationPrefix" for k
    by (simp_all add: has_prefix_def InternalClusterDeletionTimestampAnnotationPrefix_def
         ClusterFinalizerAnnotationPrefix_def InternalSyncerViewAnnotationPrefix_def)
  then show ?thesis
    using assms by (simp add: GetSyncIntents_def intent_step_cong [of "Annotations x" "Annotations y"])
qed

lemma setSyncerViewFields_Inr:
  "setSyncerViewFields L res k values = Inr res' \<longleftrightarrow>
     (\<exists>s. vl_marshal L values = Inr s
        \<and> res' = res\<lparr>Annotations := Some (go_put (view_annotation k) s (entries (Annotations res)))\<rparr>)"
  by (auto simp: setSyncerViewFields_def bindE_Inr)

lemma filter_put:
  "\<not> P k \<Longrightarrow> filter (\<lambda>(n, _). P n) (go_put k v l) = filter (\<lambda>(n, _). P n) l"
  unfolding go_put_def by (induction l) auto

definition content_path :: "string list \<Rightarrow> bool" where
  "content_path p \<longleftrightarrow> p \<noteq> [] \<and> hd p \<notin> {''metadata'', ''apiVersion'', ''kind''}"

definition good_rules :: "view_field list \<Rightarrow> bool" where
  "good_rules fs \<longleftrightarrow> distinct (map FieldPath fs) \<and> (\<forall>f \<in> set fs. content_path (pathElements f))"

definition view_laws :: "view_lib \<Rightarrow> bool" where
  "view_laws L \<longleftrightarrow>
     (\<forall>m. \<exists>s m'. vl_marshal L m = Inr s \<and> vl_unmarshal L s = Inr m' \<and> go_get m' = go_get m)
   \<and> (\<forall>o1 o2 p. content_path p \<and> u_content o1 = u_content o2 \<longrightarrow> vl_NestedField L o1 p = vl_NestedField L o2 p)
   \<and> (\<forall>obj v p obj'. content_path p \<and> vl_SetNestedField L obj v p = Inr obj'
        \<longrightarrow> obj' = obj\<lparr>u_content := u_content obj'\<rparr> \<and> vl_NestedField L obj' p = Inr (Some v)
          \<and> (\<forall>q. content_path q \<and> hd q \<noteq> hd p \<longrightarrow> vl_NestedField L obj' q = vl_NestedField L obj q))
   \<and> (\<forall>obj p. content_path p \<longrightarrow> vl_RemoveNestedField L obj p = obj\<lparr>u_content := u_content (vl_RemoveNestedField L obj p)\<rparr>)
   \<and> (\<forall>obj k. content_path [k] \<longrightarrow> (\<forall>v. \<exists>obj'. vl_SetNestedField L obj v [k] = Inr obj')
        \<and> (\<exists>x. vl_NestedField L obj [k] = Inr x) \<and> vl_NestedField L (vl_RemoveNestedField L obj [k]) [k] = Inr None)
   \<and> (\<forall>obj p q. content_path p \<and> content_path q \<and> hd q \<noteq> hd p
        \<longrightarrow> vl_NestedField L (vl_RemoveNestedField L obj p) q = vl_NestedField L obj q)
   \<and> (\<forall>o1 o2 v p. content_path p \<and> u_content o1 = u_content o2
        \<longrightarrow> map_sum id u_content (vl_SetNestedField L o1 v p) = map_sum id u_content (vl_SetNestedField L o2 v p)
          \<and> u_content (vl_RemoveNestedField L o1 p) = u_content (vl_RemoveNestedField L o2 p))"

lemma view_lawsD:
  assumes "view_laws L"
  shows "\<exists>s m'. vl_marshal L m = Inr s \<and> vl_unmarshal L s = Inr m' \<and> go_get m' = go_get m"
    and "content_path p \<Longrightarrow> u_content o1 = u_content o2 \<Longrightarrow> vl_NestedField L o1 p = vl_NestedField L o2 p"
    and "content_path p \<Longrightarrow> vl_SetNestedField L obj v p = Inr obj' \<Longrightarrow> obj' = obj\<lparr>u_content := u_content obj'\<rparr>"
    and "content_path p \<Longrightarrow> vl_SetNestedField L obj v p = Inr obj' \<Longrightarrow> vl_NestedField L obj' p = Inr (Some v)"
    and "content_path p \<Longrightarrow> vl_SetNestedField L obj v p = Inr obj' \<Longrightarrow> content_path q \<Longrightarrow> hd q \<noteq> hd p
           \<Longrightarrow> vl_NestedField L obj' q = vl_NestedField L obj q"
    and "content_path p \<Longrightarrow> vl_RemoveNestedField L obj p = obj\<lparr>u_content := u_content (vl_RemoveNestedField L obj p)\<rparr>"
    and "content_path [k] \<Longrightarrow> \<exists>obj'. vl_SetNestedField L obj v [k] = Inr obj'"
    and "content_path [k] \<Longrightarrow> \<exists>x. vl_NestedField L obj [k] = Inr x"
    and "content_path [k] \<Longrightarrow> vl_NestedField L (vl_RemoveNestedField L obj [k]) [k] = Inr None"
    and "content_path p \<Longrightarrow> content_path q \<Longrightarrow> hd q \<noteq> hd p \<Longrightarrow> vl_NestedField L (vl_RemoveNestedField L obj p) q = vl_NestedField L obj q"
    and "content_path p \<Longrightarrow> u_content o1 = u_content o2
           \<Longrightarrow> map_sum id u_content (vl_SetNestedField L o1 v p) = map_sum id u_content (vl_SetNestedField L o2 v p)"
    and "content_path p \<Longrightarrow> u_content o1 = u_content o2
           \<Longrightarrow> u_content (vl_RemoveNestedField L o1 p) = u_content (vl_RemoveNestedField L o2 p)"
  using assms unfolding view_laws_def by (meson | blast)+

lemma write_loop_shared:
  "foldE (write_field L s False view ex) (res, vs) fs = Inr (res', vs') \<Longrightarrow> res' = res"
proof (induction fs arbitrary: res vs)
  case (Cons f fs)
  then obtain r1 v1 where step: "write_field L s False view ex (res, vs) f = Inr (r1, v1)"
    and rest: "foldE (write_field L s False view ex) (r1, v1) fs = Inr (res', vs')"
    by (auto simp: bindE_Inr)
  have "r1 = res" using step by (auto simp: write_field_def bindE_Inr split: if_splits option.splits)
  then show ?case using Cons.IH rest by blast
qed simp

text \<open>What the unpromotion does to the values of the owner.\<close>

definition unpromoted_from :: "view_lib \<Rightarrow> unstr \<Rightarrow> view_field list \<Rightarrow> jvalue gomap \<Rightarrow> jvalue gomap \<Rightarrow> bool" where
  "unpromoted_from L res fs old new \<longleftrightarrow>
     (\<forall>p. go_get new p = go_get old p
        \<or> (\<exists>f v. f \<in> set fs \<and> FieldPath f = p \<and> PromoteToUpstream f \<and> go_get old p = Some promotedToUpstream
             \<and> go_get new p = Some v \<and> field_Get L f res = Inr (Some v)))"

lemma unpromote_loop:
  "foldE (unpromote_field L res) (vs, b) fs = Inr (vs', b') \<Longrightarrow> unpromoted_from L res fs vs vs'"
proof (induction fs arbitrary: vs b)
  case (Cons f fs)
  then obtain v1 b1 where step: "unpromote_field L res (vs, b) f = Inr (v1, b1)"
    and rest: "foldE (unpromote_field L res) (v1, b1) fs = Inr (vs', b')"
    by (auto simp: bindE_Inr)
  have old: "go_get v1 p = go_get vs p
      \<or> p = FieldPath f \<and> PromoteToUpstream f \<and> go_get vs p = Some promotedToUpstream
        \<and> (\<exists>v. go_get v1 p = Some v \<and> field_Get L f res = Inr (Some v))" for p
    using step by (cases vs) (auto simp: unpromote_field_def bindE_Inr split: if_splits option.splits)
  have same: "FieldPath g = FieldPath f \<Longrightarrow> field_Get L g res = field_Get L f res" for g
    by (simp add: field_Get_def pathElements_def)
  show ?case
    unfolding unpromoted_from_def
  proof
    fix p
    from Cons.IH [OF rest] have "go_get vs' p = go_get v1 p
        \<or> (\<exists>g v. g \<in> set fs \<and> FieldPath g = p \<and> PromoteToUpstream g \<and> go_get v1 p = Some promotedToUpstream
             \<and> go_get vs' p = Some v \<and> field_Get L g res = Inr (Some v))"
      by (simp add: unpromoted_from_def)
    then show "go_get vs' p = go_get vs p
        \<or> (\<exists>g v. g \<in> set (f # fs) \<and> FieldPath g = p \<and> PromoteToUpstream g \<and> go_get vs p = Some promotedToUpstream
             \<and> go_get vs' p = Some v \<and> field_Get L g res = Inr (Some v))"
      using old [of p] same by (metis list.set_intros(1,2))
  qed
qed (simp add: unpromoted_from_def)

lemma read_field_unpromoted:
  assumes "good_rules fs" "f \<in> set fs" "unpromoted_from L res fs old new"
    and get: "\<And>g. g \<in> set fs \<Longrightarrow> field_Get L g res' = field_Get L g res"
  shows "read_field L res' new view f = read_field L res old view f"
proof -
  have inj: "g = f" if "g \<in> set fs" "FieldPath g = FieldPath f" for g
    using assms(1,2) that by (auto simp: good_rules_def distinct_map inj_on_def)
  from assms(3) have "go_get new (FieldPath f) = go_get old (FieldPath f)
      \<or> PromoteToUpstream f \<and> go_get old (FieldPath f) = Some promotedToUpstream
        \<and> (\<exists>v. go_get new (FieldPath f) = Some v \<and> field_Get L f res = Inr (Some v))"
    unfolding unpromoted_from_def using inj by metis
  then show ?thesis
    using get [OF assms(2)] by (auto simp: read_field_def split: option.splits)
qed

definition nonviews :: "unstr \<Rightarrow> (string \<times> string) list" where
  "nonviews obj = filter (\<lambda>(name, _). \<not> has_prefix name InternalSyncerViewAnnotationPrefix) (entries (Annotations obj))"

lemma nonviews_set: "setSyncerViewFields L res k values = Inr res' \<Longrightarrow> nonviews res' = nonviews res"
  by (auto simp: setSyncerViewFields_Inr nonviews_def filter_put)

lemma nonviews_get:
  "nonviews x = nonviews y \<Longrightarrow> \<not> has_prefix k InternalSyncerViewAnnotationPrefix \<Longrightarrow> go_get (Annotations x) k = go_get (Annotations y) k"
  using map_of_filter_key [of "\<lambda>n. \<not> has_prefix n InternalSyncerViewAnnotationPrefix" "entries (Annotations x)" k]
    map_of_filter_key [of "\<lambda>n. \<not> has_prefix n InternalSyncerViewAnnotationPrefix" "entries (Annotations y)" k]
  by (simp add: nonviews_def go_get_def)

lemma view_fields_set_same:
  assumes "view_laws L" "setSyncerViewFields L res k values = Inr res'"
  shows "\<exists>m. getSyncerViewFields L res' k = Inr m \<and> go_get m = go_get values"
proof -
  obtain s where "vl_marshal L values = Inr s" "res' = res\<lparr>Annotations := Some (go_put (view_annotation k) s (entries (Annotations res)))\<rparr>"
    using assms(2) by (auto simp: setSyncerViewFields_Inr)
  moreover obtain m where "vl_unmarshal L s = Inr m" "go_get m = go_get values"
    using view_lawsD(1) [OF assms(1), of "values"] calculation(1) by auto
  ultimately show ?thesis by (simp add: getSyncerViewFields_get)
qed

lemma view_fields_set_other:
  "setSyncerViewFields L res k values = Inr res' \<Longrightarrow> k' \<noteq> k \<Longrightarrow> getSyncerViewFields L res' k' = getSyncerViewFields L res k'"
  by (auto simp: setSyncerViewFields_Inr getSyncerViewFields_get)

lemma set_frame: "setSyncerViewFields L res k values = Inr res' \<Longrightarrow> res' = res\<lparr>Annotations := Annotations res'\<rparr> \<and> Annotations res' \<noteq> None"
  by (auto simp: setSyncerViewFields_Inr)

definition view_kept :: "view_lib \<Rightarrow> view_field list \<Rightarrow> unstr \<Rightarrow> unstr \<Rightarrow> string \<Rightarrow> bool" where
  "view_kept L fs res res' k \<longleftrightarrow>
     (case getSyncerViewFields L res k of Inl e \<Rightarrow> getSyncerViewFields L res' k = Inl e
      | Inr old \<Rightarrow> \<exists>new. getSyncerViewFields L res' k = Inr new \<and> unpromoted_from L res fs old new)"

lemma view_kept_refl: "getSyncerViewFields L res' k = getSyncerViewFields L res k \<Longrightarrow> view_kept L fs res res' k"
  by (auto simp: view_kept_def unpromoted_from_def split: sum.splits)

lemma unpromote_frame:
  assumes "view_laws L" "unpromote L fs res owner = Inr res'"
  shows "res' = res\<lparr>Annotations := Annotations res'\<rparr> \<and> nonviews res' = nonviews res \<and> (Annotations res \<noteq> None \<longrightarrow> Annotations res' \<noteq> None)
    \<and> view_kept L fs res res' k"
proof -
  obtain old vs b where old: "getSyncerViewFields L res owner = Inr old"
    and loop: "foldE (unpromote_field L res) (old, False) fs = Inr (vs, b)"
    and set: "b \<Longrightarrow> setSyncerViewFields L res owner vs = Inr res'" "\<not> b \<Longrightarrow> res' = res"
    using assms(2) by (auto simp: unpromote_def bindE_Inr split: if_splits)
  show ?thesis
  proof (cases b)
    case True
    note s = set(1) [OF True]
    obtain m where m: "getSyncerViewFields L res' owner = Inr m" "go_get m = go_get vs"
      using view_fields_set_same [OF assms(1) s] by blast
    have "view_kept L fs res res' k"
    proof (cases "k = owner")
      case True
      then show ?thesis
        using old m unpromote_loop [OF loop] by (simp add: view_kept_def unpromoted_from_def)
    qed (use view_kept_refl view_fields_set_other [OF s] in blast)
    then show ?thesis using set_frame [OF s] nonviews_set [OF s] by blast
  qed (use set(2) view_kept_refl in auto)
qed

lemma view_kept_trans:
  assumes "view_kept L fs res res1 k" "getSyncerViewFields L res2 k = getSyncerViewFields L res1 k"
  shows "view_kept L fs res res2 k"
  using assms by (auto simp: view_kept_def split: sum.splits)

lemma set_list_remdups [simp]: "set (set_list (remdups xs)) = set xs"
  by (simp add: set_list_def)

lemma owned_writeE:
  assumes "owned_write E key fs view subs res = Inr res'"
  obtains syncing intent res1 existing res2 vals res3 where
    "GetSyncIntents (ve_rfc E) res = Inr syncing" "map_of syncing key = Some intent" "si_ResourceState intent = ''Sync''"
    "syncer_finalizer key \<in> set (Finalizers view)"
    "(if 1 < length syncing \<and> length (upstream_syncer_finalizers res) = 1
      then unpromote (ve_lib E) fs res (trim_prefix (hd (upstream_syncer_finalizers res)) SyncerFinalizerNamePrefix) else Inr res) = Inr res1"
    "getSyncerViewFields (ve_lib E) res1 key = Inr existing"
    "foldE (write_field (ve_lib E) (subs = [''status'']) (length syncing = 1) view existing) (res1, Some []) fs = Inr (res2, vals)"
    "setSyncerViewFields (ve_lib E) res2 key vals = Inr res3"
    "res' = (if syncer_finalizer key \<notin> set (upstream_syncer_finalizers res)
              then res3\<lparr>Finalizers := set_list (remdups (Finalizers res3 @ [syncer_finalizer key]))\<rparr> else res3)"
  using assms that
  by (auto simp: owned_write_def Let_def bindE_Inr simp del: set_list_remdups split: if_splits option.splits)

lemma upstream_finalizers_mem: "syncer_finalizer key \<in> set (upstream_syncer_finalizers res) \<longleftrightarrow> syncer_finalizer key \<in> set (Finalizers res)"
  by (simp add: upstream_syncer_finalizers_def)

lemma owned_write_shared:
  assumes laws: "view_laws (ve_lib E)" and w: "owned_write E key fs view subs res = Inr res'"
    and intents: "GetSyncIntents (ve_rfc E) res = Inr syncing" "1 < length syncing" and "Annotations res \<noteq> None"
  shows "res' = res\<lparr>Annotations := Annotations res', Finalizers := Finalizers res'\<rparr>" "nonviews res' = nonviews res"
    "Annotations res' \<noteq> None" "set (Finalizers res') = insert (syncer_finalizer key) (set (Finalizers res))"
    "k \<noteq> key \<Longrightarrow> view_kept (ve_lib E) fs res res' k"
proof -
  let ?L = "ve_lib E"
  from w obtain syncing' res1 existing res2 vals res3 where "GetSyncIntents (ve_rfc E) res = Inr syncing'"
    and r1': "(if 1 < length syncing' \<and> length (upstream_syncer_finalizers res) = 1
          then unpromote ?L fs res (trim_prefix (hd (upstream_syncer_finalizers res)) SyncerFinalizerNamePrefix) else Inr res) = Inr res1"
    and r2': "foldE (write_field ?L (subs = [''status'']) (length syncing' = 1) view existing) (res1, Some []) fs = Inr (res2, vals)"
    and r3: "setSyncerViewFields ?L res2 key vals = Inr res3"
    and res': "res' = (if syncer_finalizer key \<notin> set (upstream_syncer_finalizers res)
              then res3\<lparr>Finalizers := set_list (remdups (Finalizers res3 @ [syncer_finalizer key]))\<rparr> else res3)"
    by (rule owned_writeE)
  then have sy: "syncing' = syncing" using intents(1) by simp
  note r1 = r1' [unfolded sy] and r2 = r2' [unfolded sy]
  have f1: "res1 = res\<lparr>Annotations := Annotations res1\<rparr>" "nonviews res1 = nonviews res" "view_kept ?L fs res res1 k" for k
    using r1 unpromote_frame [OF laws, of fs res] view_kept_refl by (auto split: if_splits)
  have f2: "res2 = res1" using r2 write_loop_shared intents(2) by simp
  note s = r3 [unfolded f2]
  have f3: "res3 = res1\<lparr>Annotations := Annotations res3\<rparr>" "Annotations res3 \<noteq> None" using set_frame [OF s] by auto
  have an: "Annotations res' = Annotations res3" by (simp add: res')
  have fin: "Finalizers res3 = Finalizers res" by (subst f3(1), subst f1(1)) simp
  show "res' = res\<lparr>Annotations := Annotations res', Finalizers := Finalizers res'\<rparr>"
    using f1(1) f3(1) unfolding res' by (cases res; cases res1; cases res3) simp
  show "nonviews res' = nonviews res"
    using nonviews_set [OF s] f1(2) by (simp add: nonviews_def an)
  show "Annotations res' \<noteq> None" by (simp add: an f3(2))
  show "set (Finalizers res') = insert (syncer_finalizer key) (set (Finalizers res))"
    unfolding res' using fin by (auto simp: upstream_finalizers_mem)
  show "view_kept ?L fs res res' k" if "k \<noteq> key"
  proof (rule view_kept_trans [OF f1(3) [of k]])
    show "getSyncerViewFields ?L res' k = getSyncerViewFields ?L res1 k"
      using view_fields_set_other [OF s that] by (simp add: getSyncerViewFields_get an)
  qed
qed

lemma cleaned_cong:
  assumes "res' = res\<lparr>Annotations := Annotations res', Finalizers := Finalizers res'\<rparr>" "nonviews res' = nonviews res"
    "Annotations res' \<noteq> None" "Annotations res \<noteq> None"
  shows "cleaned res' = cleaned res"
proof -
  have "map_option (filter (\<lambda>(name, _). \<not> has_prefix name InternalSyncerViewAnnotationPrefix)) (Annotations res')
      = map_option (filter (\<lambda>(name, _). \<not> has_prefix name InternalSyncerViewAnnotationPrefix)) (Annotations res)"
    using assms(2-4) by (auto simp: nonviews_def)
  then show ?thesis
    using assms(1) unfolding cleaned_def by (cases res; cases res') simp
qed

lemma fieldsFor_cong:
  assumes "nonviews res' = nonviews res"
  shows "fieldsFor (syncer_transformer L url) r res' = fieldsFor (syncer_transformer L url) r res"
proof -
  have "\<not> has_prefix ExperimentalSummarizingRulesAnnotation InternalSyncerViewAnnotationPrefix"
    by (simp add: has_prefix_def ExperimentalSummarizingRulesAnnotation_def InternalSyncerViewAnnotationPrefix_def)
  then show ?thesis
    using nonviews_get [OF assms]
    by (simp add: fieldsFor_def SummarizingRulesFor_def syncer_transformer_def DefaultSummarizingRules_SummarizingRulesFor_def go_str_def)
qed

lemma AfterRead_cong:
  assumes laws: "view_laws (ve_lib E)" and srt: "ve_srt E = syncer_transformer (ve_lib E) url"
    and key: "ve_syncTargetKey E = Some k"
    and frame: "res' = res\<lparr>Annotations := Annotations res', Finalizers := Finalizers res'\<rparr>" "nonviews res' = nonviews res"
      "Annotations res' \<noteq> None" "Annotations res \<noteq> None"
    and fin: "syncer_finalizer k \<in> set (Finalizers res') \<longleftrightarrow> syncer_finalizer k \<in> set (Finalizers res)"
    and fs: "fieldsFor (ve_srt E) r res = Inr fs" "good_rules fs" and kept: "view_kept (ve_lib E) fs res res' k"
  shows "AfterRead E r res' = AfterRead E r res"
proof -
  let ?L = "ve_lib E"
  have content: "u_content res' = u_content res" and labels: "Labels res' = Labels res" and cluster: "Cluster res' = Cluster res"
    by (subst frame(1), simp)+
  have intents: "GetSyncIntents (ve_rfc E) res' = GetSyncIntents (ve_rfc E) res"
    using GetSyncIntents_cong [OF labels] nonviews_get [OF frame(2)] by blast
  have fs': "fieldsFor (ve_srt E) r res' = Inr fs" using fs(1) fieldsFor_cong [OF frame(2)] by (simp add: srt)
  have tr: "TransformationFor (ve_srt E) x = Inr (Some (ToSyncerView ?L))" for x
    by (simp add: TransformationFor_def srt syncer_transformer_def SpecDiffTransformation_TransformationFor_def)
  have get: "field_Get ?L g res' = field_Get ?L g res" if "g \<in> set fs" for g
    using fs(2) that view_lawsD(2) [OF laws _ content] by (simp add: field_Get_def good_rules_def)
  show ?thesis
  proof (cases "getSyncerViewFields ?L res k")
    case (Inl e)
    then have "getSyncerViewFields ?L res' k = Inl e" using kept by (simp add: view_kept_def)
    then show ?thesis 
      using Inl by (cases "GetSyncIntents (ve_rfc E) res") (simp_all add: AfterRead_def Let_def key SyncTargetKeyFrom_def intents internal_def)
  next
    case (Inr old)
    then obtain new where new: "getSyncerViewFields ?L res' k = Inr new" "unpromoted_from ?L res fs old new"
      using kept by (auto simp: view_kept_def)
    have loop: "foldE (read_field ?L res' new) t fs = foldE (read_field ?L res old) t fs" for t
      by (rule foldE_cong) (rule read_field_unpromoted [OF fs(2) _ new(2) get])
    have spec: "ToSyncerView ?L k r x new sy = ToSyncerView ?L k r x old sy" for x sy
      by (simp add: ToSyncerView_def)
    have finish: "finish_view E k res' = finish_view E k res"
      by (simp add: fun_eq_iff finish_view_def fin cluster)
    show ?thesis
      by (cases "GetSyncIntents (ve_rfc E) res")
        (simp_all add: AfterRead_def key SyncTargetKeyFrom_def intents Inr new(1) tr fs(1) fs' cleaned_cong [OF frame]
          loop finish spec internal_def)
  qed
qed

section \<open>Writing through the virtual workspace\<close>

lemma BeforeWriteE:
  assumes "snd (BeforeWrite E r view subs) = Inr res'"
  obtains key res fs where "ve_syncTargetKey E = Some key" "ve_get E (Name view) (ResourceVersion view) = Inr res"
    "ResourceVersion res = ResourceVersion view" "fieldsFor (ve_srt E) r res = Inr fs"
    "removedFromSyncer key view subs \<Longrightarrow> snd (removed_write E key fs res) = Inr res'"
    "\<not> removedFromSyncer key view subs \<Longrightarrow> owned_write E key fs view subs res = Inr res'"
  using assms that
  by (auto simp: BeforeWrite_def snd_andThen SyncTargetKeyFrom_def lift_err_def fail_def split: sum.splits option.splits if_splits)

section \<open>The view of another sync target\<close>

lemma remove_target_marks:
  "go_get (Labels (remove_target key res)) k = (if k = state_label key then None else go_get (Labels res) k)"
  "set (Finalizers (remove_target key res)) = set (Finalizers res) - {syncer_finalizer key}"
  "go_get (Annotations (remove_target key res)) k =
     (if k \<in> {view_annotation key, deletion_annotation key, ClusterSpecDiffAnnotationPrefix} then None else go_get (Annotations res) k)"
  by (auto simp: remove_target_def Let_def set_list_def)

text \<open>What a removed sync target leaves in the views of the others: its label and its deletion annotation are gone.\<close>

definition forget_target :: "string \<Rightarrow> unstr \<Rightarrow> unstr" where
  "forget_target key view = view\<lparr>Labels := go_del (state_label key) (Labels view),
     Annotations := go_del ClusterSpecDiffAnnotationPrefix (go_del (deletion_annotation key) (Annotations view))\<rparr>"

lemma forget_target_sel [simp]:
  "u_content (forget_target key v) = u_content v" "Finalizers (forget_target key v) = Finalizers v"
  "forget_target key (v\<lparr>u_content := c\<rparr>) = (forget_target key v)\<lparr>u_content := c\<rparr>"
  "forget_target key (v\<lparr>Finalizers := fins\<rparr>) = (forget_target key v)\<lparr>Finalizers := fins\<rparr>"
  "forget_target key (v\<lparr>DeletionTimestamp := t\<rparr>) = (forget_target key v)\<lparr>DeletionTimestamp := t\<rparr>"
  by (simp_all add: forget_target_def)

lemma marks_distinct:
  "deletion_annotation k \<noteq> ClusterSpecDiffAnnotationPrefix" "\<not> has_prefix (deletion_annotation k) InternalSyncerViewAnnotationPrefix"
  "\<not> has_prefix ClusterSpecDiffAnnotationPrefix InternalSyncerViewAnnotationPrefix"
  "ExperimentalSummarizingRulesAnnotation \<noteq> ClusterSpecDiffAnnotationPrefix" "ExperimentalSummarizingRulesAnnotation \<noteq> deletion_annotation k"
  "ExperimentalSummarizingRulesAnnotation \<noteq> view_annotation k"
  "\<not> has_prefix ExperimentalSummarizingRulesAnnotation InternalSyncerViewAnnotationPrefix"
  "ClusterSpecDiffAnnotationPrefix @ k \<noteq> deletion_annotation k'" "ClusterSpecDiffAnnotationPrefix @ k \<noteq> view_annotation k'"
  "InternalWorkspaceURLAnnotationKey \<noteq> ClusterSpecDiffAnnotationPrefix" "InternalWorkspaceURLAnnotationKey \<noteq> deletion_annotation k"
  "ClusterFinalizerAnnotationPrefix @ k \<noteq> deletion_annotation k'" "ClusterFinalizerAnnotationPrefix @ k \<noteq> view_annotation k'"
  "ClusterFinalizerAnnotationPrefix @ k \<noteq> ClusterSpecDiffAnnotationPrefix" "view_annotation k \<noteq> deletion_annotation k'"
  "view_annotation k \<noteq> ClusterSpecDiffAnnotationPrefix" "deletion_annotation k \<noteq> view_annotation k'"
  by (simp_all add: has_prefix_def ExperimentalSummarizingRulesAnnotation_def InternalSyncerViewAnnotationPrefix_def
      ClusterSpecDiffAnnotationPrefix_def InternalClusterDeletionTimestampAnnotationPrefix_def
      InternalWorkspaceURLAnnotationKey_def ClusterFinalizerAnnotationPrefix_def)

lemma cleaned_removed: "cleaned (remove_target key res) = forget_target key (cleaned res)"
  by (cases res; cases "Annotations res")
    (auto simp: cleaned_def remove_target_def forget_target_def Let_def go_del_def AList.delete_eq has_prefix_iff
      intro!: filter_cong)

lemma set_forget:
  assumes "view_laws L" "content_path p"
  shows "vl_SetNestedField L (forget_target key x) v p = map_sum id (forget_target key) (vl_SetNestedField L x v p)"
proof -
  have eq: "map_sum id u_content (vl_SetNestedField L (forget_target key x) v p) = map_sum id u_content (vl_SetNestedField L x v p)"
    by (rule view_lawsD(11) [OF assms]) simp
  show ?thesis
  proof (cases "vl_SetNestedField L x v p")
    case (Inl e)
    with eq show ?thesis by (cases "vl_SetNestedField L (forget_target key x) v p") simp_all
  next
    case (Inr y)
    with eq obtain z where z: "vl_SetNestedField L (forget_target key x) v p = Inr z" "u_content z = u_content y"
      by (cases "vl_SetNestedField L (forget_target key x) v p") simp_all
    have "z = (forget_target key x)\<lparr>u_content := u_content y\<rparr>" using view_lawsD(3) [OF assms z(1)] z(2) by simp
    moreover have "forget_target key y = (forget_target key x)\<lparr>u_content := u_content y\<rparr>"
      by (subst view_lawsD(3) [OF assms Inr]) simp
    ultimately show ?thesis using Inr z by simp
  qed
qed

lemma remove_forget:
  assumes "view_laws L" "content_path p"
  shows "vl_RemoveNestedField L (forget_target key x) p = forget_target key (vl_RemoveNestedField L x p)"
proof -
  have "u_content (vl_RemoveNestedField L (forget_target key x) p) = u_content (vl_RemoveNestedField L x p)"
    by (rule view_lawsD(12) [OF assms]) simp
  moreover have "forget_target key (vl_RemoveNestedField L x p) = (forget_target key x)\<lparr>u_content := u_content (vl_RemoveNestedField L x p)\<rparr>"
    by (subst view_lawsD(6) [OF assms]) simp
  ultimately show ?thesis by (subst view_lawsD(6) [OF assms]) simp
qed

lemma internal_map: "internal m (map_sum id g r) = map_sum id g (internal m r)"
  by (cases r) (simp_all add: internal_def)

lemma foldE_map:
  "(\<And>s x. x \<in> set xs \<Longrightarrow> f' (g s) x = map_sum id g (f s x)) \<Longrightarrow> foldE f' (g s) xs = map_sum id g (foldE f s xs)"
proof (induction xs arbitrary: s)
  case (Cons x xs)
  then show ?case by (cases "f s x") (simp_all add: bindE_def)
qed simp

lemma read_field_forget:
  assumes "view_laws L" "content_path (pathElements f)" "field_Get L f up' = field_Get L f up"
  shows "read_field L up' vals (forget_target key view) f = map_sum id (forget_target key) (read_field L up vals view f)"
  using assms(3)
  by (auto simp: read_field_def field_Delete_def field_Set_def remove_forget [OF assms(1,2)] set_forget [OF assms(1,2)] internal_map
      bindE_def split: option.splits sum.splits)

lemma spec_forget:
  assumes "view_laws L" "other \<noteq> []"
  shows "ToSyncerView L other r (forget_target key x) vals sy' = map_sum id (forget_target key) (ToSyncerView L other r x vals sy)"
proof -
  have p: "content_path [''spec'']" by (simp add: content_path_def)
  have "go_get (Annotations (forget_target key x)) (ClusterSpecDiffAnnotationPrefix @ other) = go_get (Annotations x) (ClusterSpecDiffAnnotationPrefix @ other)"
    using assms(2) by (simp add: forget_target_def marks_distinct)
  moreover have "vl_NestedField L (forget_target key x) [''spec''] = vl_NestedField L x [''spec'']"
    by (rule view_lawsD(2) [OF assms(1) p]) simp
  ultimately show ?thesis
    by (auto simp: ToSyncerView_def go_str_def Let_def set_forget [OF assms(1) p] bindE_def split: option.splits sum.splits)
qed

lemma intents_total:
  "(\<exists>y. foldE (intent_step rfc a) s xs = Inr y) \<longleftrightarrow> (\<forall>x \<in> set xs. \<exists>y. intent_step rfc a [] x = Inr y)"
proof (induction xs arbitrary: s)
  case (Cons x xs)
  have "(\<exists>y. intent_step rfc a s x = Inr y) \<longleftrightarrow> (\<exists>y. intent_step rfc a [] x = Inr y)"
    by (auto simp: intent_step_def Let_def bindE_def split: prod.splits sum.splits option.splits)
  then show ?case using Cons.IH by (auto simp: bindE_Inr)
qed simp

lemma removed_intents:
  assumes "GetSyncIntents rfc res = Inr sy" "Labels res' = go_del (state_label key) (Labels res)"
    and "\<And>k. k \<noteq> key \<Longrightarrow> go_get (Annotations res') (deletion_annotation k) = go_get (Annotations res) (deletion_annotation k)"
  shows "\<exists>sy'. GetSyncIntents rfc res' = Inr sy'"
  unfolding GetSyncIntents_def intents_total
proof
  fix x assume x: "x \<in> set (entries (Labels res'))"
  then have "x \<in> set (entries (Labels res))" "fst x \<noteq> state_label key"
    using assms(2) by (cases "Labels res"; auto simp: go_del_def AList.delete_eq)+
  moreover have "\<exists>y. intent_step rfc (Annotations res) [] x = Inr y"
    using assms(1) calculation(1) intents_total [of rfc "Annotations res" "[]" "entries (Labels res)"] by (auto simp: GetSyncIntents_def)
  ultimately show "\<exists>y. intent_step rfc (Annotations res') [] x = Inr y"
    using assms(3)
    by (fastforce simp: intent_step_def Let_def has_prefix_iff bindE_Inr split: prod.splits option.splits sum.splits)
qed


lemma intents_other:
  assumes "foldE (intent_step rfc a) s xs = Inr sy" "foldE (intent_step rfc a') s' (filter (\<lambda>x. fst x \<noteq> state_label key) xs) = Inr sy'"
    and "map_of s' other = map_of s other" "other \<noteq> key"
    and "go_get a' (deletion_annotation other) = go_get a (deletion_annotation other)"
      "go_get a' (ClusterFinalizerAnnotationPrefix @ other) = go_get a (ClusterFinalizerAnnotationPrefix @ other)"
  shows "map_of sy' other = map_of sy other"
  using assms(1-3)
proof (induction xs arbitrary: s s')
  case (Cons x xs)
  obtain n v where x: "x = (n, v)" by (cases x)
  obtain s1 where s1: "intent_step rfc a s x = Inr s1" and rest: "foldE (intent_step rfc a) s1 xs = Inr sy"
    using Cons.prems(1) by (auto simp: bindE_Inr)
  show ?case
  proof (cases "n = state_label key")
    case True
    with s1 assms(4) have "map_of s1 other = map_of s other"
      by (auto simp: x intent_step_def Let_def has_prefix_iff bindE_Inr go_put_def update_conv')
    with Cons.IH [OF rest] Cons.prems(2,3) True show ?thesis by (simp add: x)
  next
    case False
    then obtain s2 where s2: "intent_step rfc a' s' x = Inr s2"
      "foldE (intent_step rfc a') s2 (filter (\<lambda>x. fst x \<noteq> state_label key) xs) = Inr sy'"
      using Cons.prems(2) by (auto simp: x bindE_Inr)
    have "map_of s2 other = map_of s1 other"
      using s1 s2(1) Cons.prems(3) assms(5,6)
      by (cases "n = state_label other")
        (auto simp: x intent_step_def Let_def has_prefix_iff bindE_Inr go_put_def update_conv' go_str_def
          split: if_splits option.splits sum.splits)
    with Cons.IH [OF rest s2(2)] show ?thesis by blast
  qed
qed simp

lemma removed_intents_other:
  assumes "GetSyncIntents rfc res = Inr sy" "other \<noteq> key"
  shows "\<exists>sy'. GetSyncIntents rfc (remove_target key res) = Inr sy' \<and> map_of sy' other = map_of sy other"
proof -
  let ?r = "remove_target key res"
  have labels: "Labels ?r = go_del (state_label key) (Labels res)" by (simp add: remove_target_def Let_def)
  have ann: "go_get (Annotations ?r) (deletion_annotation k) = go_get (Annotations res) (deletion_annotation k)"
    "go_get (Annotations ?r) (ClusterFinalizerAnnotationPrefix @ k') = go_get (Annotations res) (ClusterFinalizerAnnotationPrefix @ k')"
    if "k \<noteq> key" for k k' using that by (simp_all add: remove_target_marks marks_distinct)
  obtain sy' where sy': "GetSyncIntents rfc ?r = Inr sy'"
    using removed_intents [OF assms(1) labels ann(1)] by blast
  moreover have "entries (Labels ?r) = filter (\<lambda>x. fst x \<noteq> state_label key) (entries (Labels res))"
    by (cases "Labels res") (auto simp: labels go_del_def AList.delete_eq intro!: filter_cong)
  ultimately show ?thesis
    using intents_other [OF assms(1) [unfolded GetSyncIntents_def], of "Annotations ?r" "[]" key sy' other] assms(2) ann [of other]
    by (auto simp: GetSyncIntents_def)
qed

lemma finish_forget:
  assumes "map_of sy' other = map_of sy other" "other \<noteq> key" "Cluster up' = Cluster up"
    "syncer_finalizer other \<in> set (Finalizers up') \<longleftrightarrow> syncer_finalizer other \<in> set (Finalizers up)"
  shows "finish_view E other up' sy' (forget_target key v) = map_sum id (forget_target key) (finish_view E other up sy v)"
proof -
  have url: "(forget_target key w)\<lparr>Annotations := Some (go_put InternalWorkspaceURLAnnotationKey u (entries (Annotations (forget_target key w))))\<rparr>
      = forget_target key (w\<lparr>Annotations := Some (go_put InternalWorkspaceURLAnnotationKey u (entries (Annotations w)))\<rparr>)" for w u
    using marks_distinct(10) [THEN not_sym] marks_distinct(11) [of key, THEN not_sym]
    by (cases "Annotations w") (simp_all add: forget_target_def go_del_def go_put_def delete_update marks_distinct(10,11))
  show ?thesis
    using assms by (cases "internal ''unable to build workspace URL'' (vl_workspaceURL (ve_lib E) (ShardExternalURL (ve_srt E)) (Cluster up))")
      (auto simp: finish_view_def Let_def bindE_def url [symmetric] split: option.splits)
qed

lemma removed_fields:
  "fieldsFor (syncer_transformer L url) r (remove_target key res) = fieldsFor (syncer_transformer L url) r res"
  by (simp add: fieldsFor_def SummarizingRulesFor_def syncer_transformer_def DefaultSummarizingRules_SummarizingRulesFor_def
      go_str_def remove_target_marks marks_distinct)

lemma removed_view_fields:
  "other \<noteq> key \<Longrightarrow> getSyncerViewFields L (remove_target key res) other = getSyncerViewFields L res other"
  by (simp add: getSyncerViewFields_get remove_target_marks marks_distinct)

lemma AfterRead_removed:
  assumes laws: "view_laws (ve_lib E)" and srt: "ve_srt E = syncer_transformer (ve_lib E) url"
    and key: "ve_syncTargetKey E = Some other" "other \<noteq> key" "other \<noteq> []"
    and fs: "fieldsFor (ve_srt E) r res = Inr fs" "good_rules fs" and sy: "GetSyncIntents (ve_rfc E) res = Inr sy"
  shows "AfterRead E r (remove_target key res) = map_sum id (forget_target key) (AfterRead E r res)"
proof -
  let ?L = "ve_lib E" and ?r = "remove_target key res"
  obtain sy' where sy': "GetSyncIntents (ve_rfc E) ?r = Inr sy'" "map_of sy' other = map_of sy other"
    using removed_intents_other [OF sy key(2)] by blast
  have fs': "fieldsFor (ve_srt E) r ?r = Inr fs" using fs(1) by (simp add: srt removed_fields)
  have tr: "TransformationFor (ve_srt E) x = Inr (Some (ToSyncerView ?L))" for x
    by (simp add: TransformationFor_def srt syncer_transformer_def SpecDiffTransformation_TransformationFor_def)
  have content: "u_content ?r = u_content res" "Cluster ?r = Cluster res" by (simp_all add: remove_target_def Let_def)
  have fin: "syncer_finalizer other \<in> set (Finalizers ?r) \<longleftrightarrow> syncer_finalizer other \<in> set (Finalizers res)"
    using key(2) by (simp add: remove_target_marks)
  note finish = finish_forget [OF sy'(2) key(2) content(2) fin]
  have loop: "foldE (read_field ?L ?r vals) (forget_target key t) fs = map_sum id (forget_target key) (foldE (read_field ?L res vals) t fs)"
    for vals t
    by (rule foldE_map, rule read_field_forget [OF laws])
      (use fs(2) view_lawsD(2) [OF laws _ content(1)] in \<open>auto simp: good_rules_def field_Get_def\<close>)
  note spec = spec_forget [OF laws key(3), of r key _ _ sy' sy]
  have tail: "bindE (foldE (read_field ?L ?r vals) (forget_target key t) fs) (finish_view E other ?r sy')
      = map_sum id (forget_target key) (bindE (foldE (read_field ?L res vals) t fs) (finish_view E other res sy))" for vals t
    unfolding loop by (cases "foldE (read_field ?L res vals) t fs") (simp_all add: bindE_def finish)
  have body: "bindE (ToSyncerView ?L other r (cleaned ?r) vals sy') (\<lambda>t. bindE (foldE (read_field ?L ?r vals) t fs) (finish_view E other ?r sy'))
      = map_sum id (forget_target key) (bindE (ToSyncerView ?L other r (cleaned res) vals sy)
          (\<lambda>t. bindE (foldE (read_field ?L res vals) t fs) (finish_view E other res sy)))" for vals
    unfolding cleaned_removed spec by (cases "ToSyncerView ?L other r (cleaned res) vals sy") (simp_all add: bindE_def [of "Inr _"] bindE_def [of "Inl _"] tail)
  have head: "AfterRead E r x = bindE (internal ''parsing of the deletion annotation failed'' (GetSyncIntents (ve_rfc E) x)) (\<lambda>sy.
      bindE (internal ''unable to get syncer view fields'' (getSyncerViewFields ?L x other)) (\<lambda>vals.
      bindE (ToSyncerView ?L other r (cleaned x) vals sy) (\<lambda>t. bindE (fieldsFor (ve_srt E) r x) (\<lambda>fs.
      bindE (foldE (read_field ?L x vals) t fs) (finish_view E other x sy)))))" for x
    by (simp add: AfterRead_def key(1) SyncTargetKeyFrom_def tr)
  show ?thesis
  proof (cases "internal ''unable to get syncer view fields'' (getSyncerViewFields ?L res other)")
    case (Inl e)
    then show ?thesis by (simp add: head sy sy'(1) removed_view_fields [OF key(2)])
  next
    case (Inr vals)
    have "bindE (ToSyncerView ?L other r t vals s) (\<lambda>t. bindE (Inr fs) (g t)) = bindE (ToSyncerView ?L other r t vals s) (\<lambda>t. g t fs)"
      for t s and g :: "unstr \<Rightarrow> view_field list \<Rightarrow> go_error + unstr" by simp
    with Inr body [of vals] show ?thesis by (simp add: head sy sy'(1) removed_view_fields [OF key(2)] fs(1) fs')
  qed
qed

text \<open>
  The release of a target promotes the fields of the only other sync target, if that target is to be synced to
  and owns the object.
\<close>

definition one_owner_left :: "string \<Rightarrow> (string \<times> sync_intent) list \<Rightarrow> unstr \<Rightarrow> bool" where
  "one_owner_left key syncing upstream \<longleftrightarrow>
     (\<exists>other intent. AList.delete key syncing = [(other, intent)] \<and> si_ResourceState intent = ''Sync''
        \<and> syncer_finalizer other \<in> set (Finalizers upstream))"

lemma removed_writeE:
  assumes "snd (removed_write E key fs upstream) = Inr upstream'" "GetSyncIntents (ve_rfc E) upstream = Inr syncing"
  obtains base where "upstream' = remove_target key base"
    "base = upstream \<or> one_owner_left key syncing upstream \<and> (\<exists>other. other \<noteq> key \<and> snd (promote_remaining E fs upstream other) = Inr base)"
proof -
  have ne: "other \<noteq> key" if "AList.delete key syncing = [(other, intent)]" for other intent
  proof -
    have "key \<notin> fst ` set (AList.delete key syncing)" by (auto simp: AList.delete_eq)
    then show ?thesis using that by auto
  qed
  from assms obtain base where "upstream' = remove_target key base"
    "snd (case AList.delete key syncing of
                [(singleSyncTarget, intent)] \<Rightarrow>
                  if si_ResourceState intent = ''Sync'' \<and> syncer_finalizer singleSyncTarget \<in> set (Finalizers upstream)
                  then promote_remaining E fs upstream singleSyncTarget else okay upstream
              | _ \<Rightarrow> okay upstream) = Inr base"
    by (auto simp: removed_write_def snd_andThen lift_err_def okay_def split: sum.splits)
  then show thesis
    by (intro that [of base]) (auto simp: one_owner_left_def okay_def split: list.splits if_splits dest!: ne)
qed

text \<open>
  C8: With two or more sync targets on an object (that has annotations, as every object of kcp), a write of one
  syncer does not disturb what another one reads. After a write that does not give the object free, the view of
  every other sync target is the same object as before; the promoted fields of a single owner are kept too, since
  they are moved into its annotation first. After the write that gives the object free, the view of every other sync
  target is the one before less the state label and the deletion annotation of the released target (and the
  annotation whose name is the bare prefix of the spec diffs). The one exception is a release that leaves exactly
  one other sync target that is to be synced to and owns the object: then its fields are promoted. The rules are any
  without repeated fields and fields of the metadata.
\<close>

theorem syncer_view_isolation:
  assumes "view_laws (ve_lib E)" "ve_srt E = syncer_transformer (ve_lib E) url" "ve_syncTargetKey E = Some key"
    and "ve_get E (Name view) (ResourceVersion view) = Inr upstream" "Annotations upstream \<noteq> None"
    and "fieldsFor (ve_srt E) r upstream = Inr fs" "good_rules fs"
    and "snd (BeforeWrite E r view subs) = Inr upstream'"
    and "GetSyncIntents (ve_rfc E) upstream = Inr syncing" "1 < length syncing" and "other \<noteq> key" "other \<noteq> []"
  shows "let before = AfterRead (E\<lparr>ve_syncTargetKey := Some other\<rparr>) r upstream;
             after = AfterRead (E\<lparr>ve_syncTargetKey := Some other\<rparr>) r upstream' in
    if removedFromSyncer key view subs
    then one_owner_left key syncing upstream \<or> after = map_sum id (forget_target key) before
    else after = before"
proof (cases "removedFromSyncer key view subs")
  case False
  have w: "owned_write E key fs view subs upstream = Inr upstream'"
    using assms(8) by (rule BeforeWriteE) (use assms(3,4,6) False in auto)
  note shared = owned_write_shared [OF assms(1) w assms(9,10,5)]
  have "AfterRead (E\<lparr>ve_syncTargetKey := Some other\<rparr>) r upstream' = AfterRead (E\<lparr>ve_syncTargetKey := Some other\<rparr>) r upstream"
    by (rule AfterRead_cong [where fs = fs and url = url and k = other])
      (use assms shared(1-3) shared(5) [OF assms(11)] in \<open>simp_all add: shared(4)\<close>)
  with False show ?thesis by simp
next
  case True
  have "snd (removed_write E key fs upstream) = Inr upstream'"
    using assms(8) by (rule BeforeWriteE) (use assms(3,4,6) True in auto)
  then obtain base where "upstream' = remove_target key base" "base = upstream \<or> one_owner_left key syncing upstream"
    by (rule removed_writeE [OF _ assms(9)]) blast
  moreover have "AfterRead (E\<lparr>ve_syncTargetKey := Some other\<rparr>) r (remove_target key upstream)
      = map_sum id (forget_target key) (AfterRead (E\<lparr>ve_syncTargetKey := Some other\<rparr>) r upstream)"
    by (rule AfterRead_removed [where url = url and fs = fs and sy = syncing]) (use assms in simp_all)
  ultimately show ?thesis using True by (auto simp: Let_def)
qed

text \<open>The top-level fields that a write may change upstream.\<close>

definition written_heads :: "string list \<Rightarrow> view_field list \<Rightarrow> string set" where
  "written_heads subs fs = (\<lambda>f. hd (pathElements f)) ` {f \<in> set fs. PromoteToUpstream f \<and> IsStatus f = (subs = [''status''])}"

lemma write_step_frame:
  assumes "view_laws L" "content_path (pathElements f)" "write_field L s single view ex (res, vs) f = Inr (res', vs')"
  shows "res' = res\<lparr>u_content := u_content res'\<rparr>"
    and "content_path q \<Longrightarrow> PromoteToUpstream f \<and> IsStatus f = s \<longrightarrow> hd q \<noteq> hd (pathElements f)
           \<Longrightarrow> vl_NestedField L res' q = vl_NestedField L res q"
  using assms(3) view_lawsD(3,5) [OF assms(1,2)]
  by (fastforce simp: write_field_def bindE_Inr field_Set_def split: if_splits option.splits)+

lemma write_loop_frame:
  assumes "view_laws L" "\<forall>f \<in> set fs. content_path (pathElements f)"
    and "foldE (write_field L s single view ex) (res, vs) fs = Inr (res', vs')"
  shows "res' = res\<lparr>u_content := u_content res'\<rparr>
    \<and> (\<forall>q. content_path q \<and> hd q \<notin> (\<lambda>f. hd (pathElements f)) ` {f \<in> set fs. PromoteToUpstream f \<and> IsStatus f = s}
         \<longrightarrow> vl_NestedField L res' q = vl_NestedField L res q)"
  using assms(2,3)
proof (induction fs arbitrary: res vs)
  case (Cons f fs)
  then obtain r1 v1 where step: "write_field L s single view ex (res, vs) f = Inr (r1, v1)"
    and rest: "foldE (write_field L s single view ex) (r1, v1) fs = Inr (res', vs')"
    by (auto simp: bindE_Inr)
  have f: "content_path (pathElements f)" using Cons.prems(1) by simp
  have r1: "r1 = res\<lparr>u_content := u_content r1\<rparr>" by (rule write_step_frame(1) [OF assms(1) f step])
  have ih: "res' = r1\<lparr>u_content := u_content res'\<rparr>"
    "\<And>q. content_path q \<Longrightarrow> hd q \<notin> (\<lambda>f. hd (pathElements f)) ` {f \<in> set fs. PromoteToUpstream f \<and> IsStatus f = s}
       \<Longrightarrow> vl_NestedField L res' q = vl_NestedField L r1 q"
    using Cons.IH [OF _ rest] Cons.prems(1) by auto
  have "res' = res\<lparr>u_content := u_content res'\<rparr>"
    by (subst ih(1), subst r1) simp
  moreover have "vl_NestedField L res' q = vl_NestedField L res q"
    if "content_path q" "hd q \<notin> (\<lambda>f. hd (pathElements f)) ` {g \<in> set (f # fs). PromoteToUpstream g \<and> IsStatus g = s}" for q
  proof -
    have "vl_NestedField L res' q = vl_NestedField L r1 q" by (rule ih(2)) (use that in auto)
    also have "\<dots> = vl_NestedField L res q" by (rule write_step_frame(2) [OF assms(1) f step]) (use that in auto)
    finally show ?thesis .
  qed
  ultimately show ?case by blast
qed simp

lemma owned_write_frame:
  assumes laws: "view_laws (ve_lib E)" and rules: "good_rules fs" and w: "owned_write E key fs view subs res = Inr res'"
  shows "res' = res\<lparr>Annotations := Annotations res', Finalizers := Finalizers res', u_content := u_content res'\<rparr>"
    "nonviews res' = nonviews res" "set (Finalizers res') = insert (syncer_finalizer key) (set (Finalizers res))"
    "content_path q \<Longrightarrow> hd q \<notin> written_heads subs fs \<Longrightarrow> vl_NestedField (ve_lib E) res' q = vl_NestedField (ve_lib E) res q"
proof -
  let ?L = "ve_lib E"
  from w obtain syncing res1 existing res2 vals res3 where "GetSyncIntents (ve_rfc E) res = Inr syncing"
    and r1: "(if 1 < length syncing \<and> length (upstream_syncer_finalizers res) = 1
          then unpromote ?L fs res (trim_prefix (hd (upstream_syncer_finalizers res)) SyncerFinalizerNamePrefix) else Inr res) = Inr res1"
    and r2: "foldE (write_field ?L (subs = [''status'']) (length syncing = 1) view existing) (res1, Some []) fs = Inr (res2, vals)"
    and r3: "setSyncerViewFields ?L res2 key vals = Inr res3"
    and res': "res' = (if syncer_finalizer key \<notin> set (upstream_syncer_finalizers res)
              then res3\<lparr>Finalizers := set_list (remdups (Finalizers res3 @ [syncer_finalizer key]))\<rparr> else res3)"
    by (rule owned_writeE)
  have f1: "res1 = res\<lparr>Annotations := Annotations res1\<rparr>" "nonviews res1 = nonviews res"
    using r1 unpromote_frame [OF laws, of fs res] by (auto split: if_splits)
  have f2: "res2 = res1\<lparr>u_content := u_content res2\<rparr>"
    "\<And>q. content_path q \<Longrightarrow> hd q \<notin> written_heads subs fs \<Longrightarrow> vl_NestedField ?L res2 q = vl_NestedField ?L res1 q"
    using write_loop_frame [OF laws _ r2] rules by (auto simp: good_rules_def written_heads_def)
  have f3: "res3 = res2\<lparr>Annotations := Annotations res3\<rparr>" using set_frame [OF r3] by simp
  have all: "res3 = res\<lparr>Annotations := Annotations res3, u_content := u_content res3\<rparr>" "u_content res3 = u_content res2"
    using f1(1) f2(1) f3 by (cases res; cases res1; cases res2; cases res3; simp)+
  have content: "u_content res' = u_content res2" "u_content res1 = u_content res"
    by (simp add: res' all(2)) (subst f1(1), simp)
  show "res' = res\<lparr>Annotations := Annotations res', Finalizers := Finalizers res', u_content := u_content res'\<rparr>"
    using all(1) unfolding res' by (cases res; cases res3) simp
  show "nonviews res' = nonviews res"
  proof -
    have "nonviews res' = nonviews res3" by (simp add: nonviews_def res')
    moreover have "nonviews res2 = nonviews res1" unfolding nonviews_def by (subst f2(1)) simp
    ultimately show ?thesis using nonviews_set [OF r3] f1(2) by simp
  qed
  have "Finalizers res3 = Finalizers res" by (subst all(1)) simp
  then show "set (Finalizers res') = insert (syncer_finalizer key) (set (Finalizers res))"
    unfolding res' by (auto simp: upstream_finalizers_mem)
  show "vl_NestedField ?L res' q = vl_NestedField ?L res q" if "content_path q" "hd q \<notin> written_heads subs fs"
    using f2(2) [OF that] view_lawsD(2) [OF laws that(1)] content by metis
qed


definition server_keeps :: "view_env \<Rightarrow> bool" where
  "server_keeps E \<longleftrightarrow> (\<forall>obj obj'. ve_updateStatus E obj = Inr obj' \<longrightarrow> obj' = obj\<lparr>ResourceVersion := ResourceVersion obj'\<rparr>)"


lemma promote_loop_frame:
  assumes "view_laws L" "\<forall>f \<in> set fs. content_path (pathElements f)"
    and "foldE (promote_field L) (res, vs, b, c) fs = Inr (res', vs', b', c')"
  shows "res' = res\<lparr>u_content := u_content res'\<rparr> \<and> (\<forall>q. content_path q \<and> hd q \<notin> (\<lambda>f. hd (pathElements f)) ` {f \<in> set fs. PromoteToUpstream f}
        \<longrightarrow> vl_NestedField L res' q = vl_NestedField L res q)"
  using assms(2,3)
proof (induction fs arbitrary: res vs b c)
  case (Cons f fs)
  then obtain r1 v1 b1 c1 where step: "promote_field L (res, vs, b, c) f = Inr (r1, v1, b1, c1)"
    and rest: "foldE (promote_field L) (r1, v1, b1, c1) fs = Inr (res', vs', b', c')"
    by (auto simp: bindE_Inr)
  have r1: "r1 = res \<or> PromoteToUpstream f \<and> (\<exists>v. vl_SetNestedField L res v (pathElements f) = Inr r1)"
    using step by (auto simp: promote_field_def bindE_Inr field_Set_def Let_def split: if_splits)
  have f: "content_path (pathElements f)" using Cons.prems(1) by simp
  have r1c: "r1 = res\<lparr>u_content := u_content r1\<rparr>" using r1 view_lawsD(3) [OF assms(1) f] by auto
  have r1q: "vl_NestedField L r1 q = vl_NestedField L res q" if "content_path q" "PromoteToUpstream f \<longrightarrow> hd q \<noteq> hd (pathElements f)" for q
    using r1 that view_lawsD(5) [OF assms(1) f] by auto
  have ih: "res' = r1\<lparr>u_content := u_content res'\<rparr>"
    "\<And>q. content_path q \<Longrightarrow> hd q \<notin> (\<lambda>f. hd (pathElements f)) ` {f \<in> set fs. PromoteToUpstream f} \<Longrightarrow> vl_NestedField L res' q = vl_NestedField L r1 q"
    using Cons.IH [OF _ rest] Cons.prems(1) by auto
  have "vl_NestedField L res' q = vl_NestedField L res q"
    if "content_path q" "hd q \<notin> (\<lambda>f. hd (pathElements f)) ` {g \<in> set (f # fs). PromoteToUpstream g}" for q
  proof -
    have "vl_NestedField L res' q = vl_NestedField L r1 q" by (rule ih(2)) (use that in auto)
    also have "\<dots> = vl_NestedField L res q" by (rule r1q) (use that in auto)
    finally show ?thesis .
  qed
  moreover have "res' = res\<lparr>u_content := u_content res'\<rparr>" using r1c ih(1) by (cases res; cases r1; cases res') simp
  ultimately show ?case by blast
qed simp



abbreviation status_field :: "gvr \<Rightarrow> view_field" where
  "status_field r \<equiv> \<lparr>FieldPath = ''status'', PromoteToUpstream = canPromoteStatusToUpstream r\<rparr>"

lemma status_path [simp]:
  "pathElements \<lparr>FieldPath = ''status'', PromoteToUpstream = b\<rparr> = [''status'']"
  "IsStatus \<lparr>FieldPath = ''status'', PromoteToUpstream = b\<rparr>" "content_path [''status'']"
  by (simp_all add: pathElements_def IsStatus_def content_path_def)

lemma good_status_rules [simp]: "good_rules [status_field r]"
  by (simp add: good_rules_def)

text \<open>The status that a sync target sees, from its view annotation and the upstream object.\<close>

definition seen_status :: "view_lib \<Rightarrow> unstr \<Rightarrow> jvalue gomap \<Rightarrow> go_error + jvalue option" where
  "seen_status L upstream vals =
     (case go_get vals ''status'' of None \<Rightarrow> Inr None
      | Some v \<Rightarrow> if v = promotedToUpstream then vl_NestedField L upstream [''status''] else Inr (Some v))"

lemma finish_view_content:
  "vl_workspaceURL (ve_lib E) (ShardExternalURL (ve_srt E)) (Cluster res) = Inr u
     \<Longrightarrow> \<exists>v'. finish_view E k res sy v = Inr v' \<and> u_content v' = u_content v"
  by (auto simp: finish_view_def Let_def split: option.splits)

lemma AfterRead_status:
  assumes laws: "view_laws (ve_lib E)" and key: "ve_syncTargetKey E = Some k" and srt: "ve_srt E = syncer_transformer (ve_lib E) url"
    and fs: "fieldsFor (ve_srt E) r res = Inr [status_field r]"
    and diff: "go_str (Annotations (cleaned res)) (ClusterSpecDiffAnnotationPrefix @ k) = []"
    and ok: "GetSyncIntents (ve_rfc E) res = Inr sy" "getSyncerViewFields (ve_lib E) res k = Inr vals"
      "vl_workspaceURL (ve_lib E) url (Cluster res) = Inr u"
  shows "\<exists>view. AfterRead E r res = Inr view \<and> vl_NestedField (ve_lib E) view [''status''] = seen_status (ve_lib E) res vals"
proof -
  let ?L = "ve_lib E"
  note get_law = view_lawsD(2) [OF laws] and set_law = view_lawsD(4,7) [OF laws] and some_law = view_lawsD(8) [OF laws]
    and del_law = view_lawsD(9) [OF laws]
  have tr: "TransformationFor (ve_srt E) res = Inr (Some (ToSyncerView ?L))"
    by (simp add: TransformationFor_def srt syncer_transformer_def SpecDiffTransformation_TransformationFor_def)
  obtain x where x: "vl_NestedField ?L res [''status''] = Inr x" using some_law [of "''status''" res] by auto
  have "\<exists>v. read_field ?L res vals (cleaned res) (status_field r) = Inr v \<and> vl_NestedField ?L v [''status''] = seen_status ?L res vals"
  proof (cases "go_get vals ''status''")
    case None
    then show ?thesis using del_law
      by (simp add: read_field_def seen_status_def field_Delete_def canPromoteStatusToUpstream_def)
  next
    case (Some w)
    have set: "\<exists>v. field_Set ?L (status_field r) (cleaned res) y = Inr v \<and> vl_NestedField ?L v [''status''] = Inr (Some y)" for y
      using set_law(1) [of "[''status'']"] set_law(2) [of "''status''" "cleaned res" y] by (auto simp: field_Set_def)
    show ?thesis
      using Some x set [of w] set [of "the x"] del_law
      by (auto simp: read_field_def seen_status_def field_Get_def field_Delete_def canPromoteStatusToUpstream_def split: option.splits)
  qed
  then obtain v where v: "read_field ?L res vals (cleaned res) (status_field r) = Inr v" "vl_NestedField ?L v [''status''] = seen_status ?L res vals"
    by blast
  obtain v' where v': "finish_view E k res sy v = Inr v'" "u_content v' = u_content v"
    using finish_view_content [of E res u k sy v] ok(3) by (auto simp: srt syncer_transformer_def)
  have "AfterRead E r res = Inr v'"
    using v(1) v'(1) diff by (simp add: AfterRead_def key SyncTargetKeyFrom_def ok tr fs ToSyncerView_def)
  moreover have "vl_NestedField ?L v' [''status''] = seen_status ?L res vals"
    using get_law [OF _ v'(2)] v(2) by simp
  ultimately show ?thesis by blast
qed

lemma cleaned_annotation:
  "\<not> has_prefix k InternalSyncerViewAnnotationPrefix \<Longrightarrow> go_get (Annotations (cleaned res)) k = go_get (Annotations res) k"
  using map_of_filter_key [of "\<lambda>n. \<not> has_prefix n InternalSyncerViewAnnotationPrefix" _ k]
  by (cases "Annotations res") (simp_all add: cleaned_def go_get_def)

lemma spec_diff_no_view: "\<not> has_prefix (ClusterSpecDiffAnnotationPrefix @ k) InternalSyncerViewAnnotationPrefix"
  by (simp add: has_prefix_def ClusterSpecDiffAnnotationPrefix_def InternalSyncerViewAnnotationPrefix_def)


lemma read_loop_head:
  assumes laws: "view_laws L" and q: "content_path q" and fs: "\<forall>f \<in> set fs. content_path (pathElements f) \<and> hd q \<noteq> hd (pathElements f)"
    and run: "foldE (read_field L up vals) t fs = Inr view"
  shows "vl_NestedField L view q = vl_NestedField L t q"
  using fs run
proof (induction fs arbitrary: t)
  case (Cons f fs)
  then obtain t1 where step: "read_field L up vals t f = Inr t1" and rest: "foldE (read_field L up vals) t1 fs = Inr view"
    by (auto simp: bindE_Inr)
  have f: "content_path (pathElements f)" "hd q \<noteq> hd (pathElements f)" using Cons.prems(1) by auto
  have "t1 = t \<or> t1 = vl_RemoveNestedField L t (pathElements f) \<or> (\<exists>v. vl_SetNestedField L t v (pathElements f) = Inr t1)"
    using step by (auto simp: read_field_def bindE_Inr field_Set_def field_Delete_def split: option.splits if_splits)
  then have "vl_NestedField L t1 q = vl_NestedField L t q"
    using view_lawsD(5) [OF laws f(1) _ q f(2)] view_lawsD(10) [OF laws f(1) q f(2)] by auto
  with Cons.IH [OF _ rest] Cons.prems(1) show ?case by simp
qed simp

text \<open>Rules that summarize the whole status in one field.\<close>

definition status_rules :: "view_field list \<Rightarrow> bool" where
  "status_rules fs \<longleftrightarrow> good_rules fs \<and> (\<exists>f \<in> set fs. IsStatus f \<and> (\<forall>g \<in> set fs. g \<noteq> f \<longrightarrow> hd (pathElements g) \<noteq> ''status''))"

lemma status_rulesE:
  assumes "status_rules fs"
  obtains pre f post where "fs = pre @ f # post" "pathElements f = [''status'']"
    "\<forall>g \<in> set pre \<union> set post. content_path (pathElements g) \<and> ''status'' \<noteq> hd (pathElements g) \<and> FieldPath g \<noteq> FieldPath f"
proof -
  from assms obtain f where f: "f \<in> set fs" "IsStatus f" "\<forall>g \<in> set fs. g \<noteq> f \<longrightarrow> hd (pathElements g) \<noteq> ''status''" and good: "good_rules fs"
    by (auto simp: status_rules_def)
  then obtain pre post where fs: "fs = pre @ f # post" by (auto dest: split_list)
  show thesis
  proof (rule that [OF fs])
    show "pathElements f = [''status'']" using f(2) by (simp add: IsStatus_def)
    show "\<forall>g \<in> set pre \<union> set post. content_path (pathElements g) \<and> ''status'' \<noteq> hd (pathElements g) \<and> FieldPath g \<noteq> FieldPath f"
    proof
      fix g assume g: "g \<in> set pre \<union> set post"
      have "FieldPath f \<notin> FieldPath ` (set pre \<union> set post)" using good by (auto simp: good_rules_def fs)
      with g have "FieldPath g \<noteq> FieldPath f" by (metis image_eqI)
      with f(3) good g show "content_path (pathElements g) \<and> ''status'' \<noteq> hd (pathElements g) \<and> FieldPath g \<noteq> FieldPath f"
        by (auto simp: good_rules_def fs)
    qed
  qed
qed

lemma foldE_append: "foldE f s (xs @ ys) = bindE (foldE f s xs) (\<lambda>s'. foldE f s' ys)"
proof (induction xs arbitrary: s)
  case (Cons x xs)
  then show ?case by (cases "f s x") simp_all
qed simp

lemma write_loop_values:
  assumes "\<forall>g \<in> set fs. FieldPath g \<noteq> p" "foldE (write_field L s single view ex) (res, vs) fs = Inr (res', vs')"
  shows "go_get vs' p = go_get vs p"
  using assms
proof (induction fs arbitrary: res vs)
  case (Cons f fs)
  then obtain r1 v1 where step: "write_field L s single view ex (res, vs) f = Inr (r1, v1)"
    and rest: "foldE (write_field L s single view ex) (r1, v1) fs = Inr (res', vs')"
    by (auto simp: bindE_Inr)
  have "go_get v1 p = go_get vs p"
    using step Cons.prems(1) by (cases vs) (auto simp: write_field_def bindE_Inr split: if_splits option.splits)
  with Cons.IH [OF _ rest] Cons.prems(1) show ?case by simp
qed simp

lemma status_written:
  assumes laws: "view_laws L" and fs: "status_rules fs"
    and status: "vl_NestedField L view [''status''] = Inr (Some status)"
    and run: "foldE (write_field L True single view ex) (res, vs) fs = Inr (res', vs')"
  shows "\<exists>f pre post. fs = pre @ f # post \<and> pathElements f = [''status'']
    \<and> (\<forall>g \<in> set post. content_path (pathElements g) \<and> ''status'' \<noteq> hd (pathElements g))
    \<and> (if PromoteToUpstream f \<and> single then go_get vs' (FieldPath f) = Some promotedToUpstream \<and> vl_NestedField L res' [''status''] = Inr (Some status)
       else go_get vs' (FieldPath f) = Some status)"
proof -
  obtain pre f post where s: "fs = pre @ f # post" "pathElements f = [''status'']"
    "\<forall>g \<in> set pre \<union> set post. content_path (pathElements g) \<and> ''status'' \<noteq> hd (pathElements g) \<and> FieldPath g \<noteq> FieldPath f"
    using fs by (rule status_rulesE)
  obtain r1 v1 r2 v2 where step: "write_field L True single view ex (r1, v1) f = Inr (r2, v2)"
    and rest: "foldE (write_field L True single view ex) (r2, v2) post = Inr (res', vs')"
    using run unfolding s(1) foldE_append by (auto simp: bindE_Inr)
  have path: "content_path [''status'']" by simp
  have "go_get vs' (FieldPath f) = go_get v2 (FieldPath f)"
    by (rule write_loop_values [OF _ rest]) (use s(3) in auto)
  moreover have "''status'' \<notin> (\<lambda>f. hd (pathElements f)) ` {f \<in> set post. PromoteToUpstream f \<and> IsStatus f = True}" using s(3) by auto
  then have "vl_NestedField L res' [''status''] = vl_NestedField L r2 [''status'']"
    using write_loop_frame [OF laws _ rest] path s(3) by (metis (no_types, lifting) UnCI list.sel(1))
  moreover have "if PromoteToUpstream f \<and> single
      then go_get v2 (FieldPath f) = Some promotedToUpstream \<and> vl_NestedField L r2 [''status''] = Inr (Some status)
      else go_get v2 (FieldPath f) = Some status"
    using step status s(2) view_lawsD(4) [OF laws path]
    by (cases v1) (auto simp: write_field_def IsStatus_def field_Get_def field_Set_def bindE_Inr split: if_splits)
  ultimately show ?thesis using s by (intro exI [of _ f] exI [of _ pre] exI [of _ post]) auto
qed

text \<open>
  C10: A status that a syncer writes through the virtual workspace is the status it reads back, whether it is kept in
  the annotation of its sync target or promoted to the upstream object, with any summarizing rules that have the
  whole status as one field: every successful read of the written object shows it. With the default rules and
  without a spec diff the read does succeed if the URL of the workspace can be built. The status is not the text
  that marks a promoted field.
\<close>

theorem syncer_status_roundtrip:
  assumes "view_laws (ve_lib E)" "ve_srt E = syncer_transformer (ve_lib E) url" "ve_syncTargetKey E = Some key"
    and "ve_get E (Name view) (ResourceVersion view) = Inr upstream"
    and "fieldsFor (ve_srt E) r upstream = Inr fs" "status_rules fs"
    and "vl_NestedField (ve_lib E) view [''status''] = Inr (Some status)" "status \<noteq> promotedToUpstream"
    and "snd (BeforeWrite E r view [''status'']) = Inr upstream'"
  shows "(\<forall>view'. AfterRead E r upstream' = Inr view' \<longrightarrow> vl_NestedField (ve_lib E) view' [''status''] = Inr (Some status))
    \<and> (go_str (Annotations upstream) ExperimentalSummarizingRulesAnnotation = []
       \<and> go_str (Annotations upstream) (ClusterSpecDiffAnnotationPrefix @ key) = []
       \<and> \<not> isl (vl_workspaceURL (ve_lib E) url (Cluster upstream)) \<longrightarrow> (\<exists>view'. AfterRead E r upstream' = Inr view'))"
proof -
  let ?L = "ve_lib E"
  have good: "good_rules fs" using assms(6) by (simp add: status_rules_def)
  have w: "owned_write E key fs view [''status''] upstream = Inr upstream'"
    using assms(9) by (rule BeforeWriteE) (use assms(3-5) in \<open>auto simp: removedFromSyncer_def\<close>)
  note frame = owned_write_frame [OF assms(1) good w]
  have meta: "Labels upstream' = Labels upstream" "Cluster upstream' = Cluster upstream"
    by (subst frame(1), simp)+
  have get: "go_get (Annotations upstream') k = go_get (Annotations upstream) k" if "\<not> has_prefix k InternalSyncerViewAnnotationPrefix" for k
    by (rule nonviews_get [OF frame(2) that])
  from w obtain syncing res1 existing res2 vals res3 where s: "GetSyncIntents (ve_rfc E) upstream = Inr syncing"
    and loop: "foldE (write_field ?L ([''status''] = [''status'']) (length syncing = 1) view existing) (res1, Some []) fs = Inr (res2, vals)"
    and r3: "setSyncerViewFields ?L res2 key vals = Inr res3"
    and up': "upstream' = (if syncer_finalizer key \<notin> set (upstream_syncer_finalizers upstream)
              then res3\<lparr>Finalizers := set_list (remdups (Finalizers res3 @ [syncer_finalizer key]))\<rparr> else res3)"
    by (rule owned_writeE)
  obtain m where m: "getSyncerViewFields ?L res3 key = Inr m" "go_get m = go_get vals"
    using view_fields_set_same [OF assms(1) r3] by blast
  have m': "getSyncerViewFields ?L upstream' key = Inr m" using m(1) by (simp add: up' getSyncerViewFields_get)
  have content: "u_content upstream' = u_content res2"
    using set_frame [OF r3] unfolding up' by (cases res2; cases res3) simp
  have path: "content_path [''status'']" by simp
  have loop': "foldE (write_field ?L True (length syncing = 1) view existing) (res1, Some []) fs = Inr (res2, vals)"
    using loop by (simp only: refl)
  obtain f pre post where f: "fs = pre @ f # post" "pathElements f = [''status'']"
    "\<forall>g \<in> set post. content_path (pathElements g) \<and> ''status'' \<noteq> hd (pathElements g)"
    and written: "if PromoteToUpstream f \<and> length syncing = 1
       then go_get vals (FieldPath f) = Some promotedToUpstream \<and> vl_NestedField ?L res2 [''status''] = Inr (Some status)
       else go_get vals (FieldPath f) = Some status"
    using status_written [OF assms(1,6,7) loop'] by (elim exE conjE)
  have step: "vl_NestedField ?L t2 [''status''] = Inr (Some status)" if "read_field ?L upstream' m t1 f = Inr t2" for t1 t2
  proof -
    have "vl_NestedField ?L upstream' [''status''] = vl_NestedField ?L res2 [''status'']" by (rule view_lawsD(2) [OF assms(1) path content])
    then have up: "PromoteToUpstream f \<and> length syncing = 1 \<Longrightarrow> vl_NestedField ?L upstream' [''status''] = Inr (Some status)"
      using written by simp
    have "vl_SetNestedField ?L t1 status [''status''] = Inr t2"
    proof (cases "PromoteToUpstream f \<and> length syncing = 1")
      case True
      with that written up show ?thesis by (simp add: read_field_def m(2) f(2) field_Get_def field_Set_def)
    next
      case False
      then have "go_get vals (FieldPath f) = Some status" using written by (simp only: if_False)
      with that assms(8) show ?thesis by (simp add: read_field_def m(2) f(2) field_Get_def field_Set_def)
    qed
    then show ?thesis by (rule view_lawsD(4) [OF assms(1) path])
  qed
  have fs': "fieldsFor (ve_srt E) r upstream' = Inr fs" using assms(5) fieldsFor_cong [OF frame(2)] by (simp add: assms(2))
  have "vl_NestedField ?L view' [''status''] = Inr (Some status)" if after: "AfterRead E r upstream' = Inr view'" for view'
  proof -
    from after obtain t v sy where t: "foldE (read_field ?L upstream' m) t fs = Inr v" "finish_view E key upstream' sy v = Inr view'"
      by (auto simp: AfterRead_def assms(3) SyncTargetKeyFrom_def bindE_Inr m' fs')
    then obtain t1 t2 where "read_field ?L upstream' m t1 f = Inr t2" "foldE (read_field ?L upstream' m) t2 post = Inr v"
      unfolding f(1) foldE_append by (auto simp: bindE_Inr)
    with step read_loop_head [OF assms(1) path] f(3) have "vl_NestedField ?L v [''status''] = Inr (Some status)" by simp
    moreover have "u_content view' = u_content v"
      using t(2) by (auto simp: finish_view_def Let_def bindE_Inr split: option.splits)
    ultimately show ?thesis using view_lawsD(2) [OF assms(1) path] by metis
  qed
  moreover have "\<exists>view'. AfterRead E r upstream' = Inr view'"
    if plain: "go_str (Annotations upstream) ExperimentalSummarizingRulesAnnotation = []"
      "go_str (Annotations upstream) (ClusterSpecDiffAnnotationPrefix @ key) = []" "\<not> isl (vl_workspaceURL ?L url (Cluster upstream))"
  proof -
    obtain u where u: "vl_workspaceURL ?L url (Cluster upstream') = Inr u" using plain(3) by (cases "vl_workspaceURL ?L url (Cluster upstream)") (simp_all add: meta(2))
    have "fs = [status_field r]"
      using assms(5) plain(1) by (simp add: assms(2) fieldsFor_def SummarizingRulesFor_def syncer_transformer_def
        DefaultSummarizingRules_SummarizingRulesFor_def DefaultSummarizingRules_FieldsToSummarize_def)
    then have "fieldsFor (ve_srt E) r upstream' = Inr [status_field r]" using fs' by simp
    moreover have "go_str (Annotations (cleaned upstream')) (ClusterSpecDiffAnnotationPrefix @ key) = []"
      using plain(2) by (simp add: go_str_def cleaned_annotation get spec_diff_no_view)
    moreover have "GetSyncIntents (ve_rfc E) upstream' = Inr syncing" using GetSyncIntents_cong [OF meta(1) get] s by simp
    ultimately show ?thesis using AfterRead_status [OF assms(1,3,2) _ _ _ m' u] by blast
  qed
  ultimately show ?thesis by blast
qed

lemma promote_remaining_frame:
  assumes "view_laws (ve_lib E)" "good_rules fs" "server_keeps E" "snd (promote_remaining E fs res other) = Inr res'"
  shows "Labels res' = Labels res \<and> Finalizers res' = Finalizers res \<and> nonviews res' = nonviews res"
proof -
  let ?L = "ve_lib E"
  from assms(4) obtain existing t where
    t: "(if existing \<noteq> None then foldE (promote_field ?L) (res, existing, False, False) fs else Inr (res, existing, False, False)) = Inr t"
    and rest: "snd (case t of (res1, vs, b, c) \<Rightarrow>
        andThen (lift_err (if b then internal ''unable to set syncer view fields'' (setSyncerViewFields ?L res1 other vs) else Inr res1))
          (\<lambda>res2. if c then ([VUpdateStatus res2], ve_updateStatus E res2) else okay res2)) = Inr res'"
    unfolding promote_remaining_def Let_def ok_andThen by (auto simp: lift_err_def)
  obtain res1 vs b c where tt: "t = (res1, vs, b, c)" by (cases t) auto
  note loop = t [unfolded tt]
  from rest obtain res2 where set: "(if b then setSyncerViewFields ?L res1 other vs else Inr res1) = Inr res2"
    and upd: "if c then ve_updateStatus E res2 = Inr res' else res' = res2"
    by (auto simp: tt ok_andThen lift_err_def okay_def split: if_splits)
  have r1: "res1 = res\<lparr>u_content := u_content res1\<rparr>"
    using loop promote_loop_frame [OF assms(1)] assms(2) by (auto simp: good_rules_def split: if_splits)
  have r2: "res2 = res1\<lparr>Annotations := Annotations res2\<rparr>" "nonviews res2 = nonviews res1"
    using set set_frame nonviews_set by (auto split: if_splits)
  have r3: "res' = res2\<lparr>ResourceVersion := ResourceVersion res'\<rparr>"
    using upd assms(3) by (auto simp: server_keeps_def split: if_splits)
  have "Labels res' = Labels res" "Finalizers res' = Finalizers res" "Annotations res' = Annotations res2"
    by (subst r3, subst r2(1), subst r1, simp)+
  moreover have "nonviews res1 = nonviews res" unfolding nonviews_def by (subst r1) simp
  ultimately show ?thesis using r2(2) by (simp add: nonviews_def)
qed

text \<open>
  When a syncer gives an object free (the view has a deletion timestamp and no finalizer), the upstream object
  loses the label, the finalizer, the view annotation and the deletion annotation of its sync target, and keeps the
  labels and finalizers of all others. The spec diff of the sync target stays: the code deletes the annotation
  whose name is the bare prefix.
\<close>

theorem removed_target_forgotten:
  assumes "view_laws (ve_lib E)" "server_keeps E" "ve_syncTargetKey E = Some key" "key \<noteq> []"
    and "ve_get E (Name view) (ResourceVersion view) = Inr upstream"
    and "fieldsFor (ve_srt E) r upstream = Inr fs" "good_rules fs"
    and "removedFromSyncer key view subs" "snd (BeforeWrite E r view subs) = Inr upstream'"
  shows "(\<forall>k. go_get (Labels upstream') k = (if k = state_label key then None else go_get (Labels upstream) k))
    \<and> set (Finalizers upstream') = set (Finalizers upstream) - {syncer_finalizer key}
    \<and> \<not> go_has (Annotations upstream') (view_annotation key) \<and> \<not> go_has (Annotations upstream') (deletion_annotation key)
    \<and> go_get (Annotations upstream') (ClusterSpecDiffAnnotationPrefix @ key) = go_get (Annotations upstream) (ClusterSpecDiffAnnotationPrefix @ key)"
proof -
  have "snd (removed_write E key fs upstream) = Inr upstream'"
    using assms(9) by (rule BeforeWriteE) (use assms(3,5,6,8) in auto)
  then obtain res where res: "upstream' = remove_target key res"
    and mid: "res = upstream \<or> (\<exists>other. snd (promote_remaining E fs upstream other) = Inr res)"
    by (auto simp: removed_write_def snd_andThen lift_err_def okay_def split: sum.splits list.splits prod.splits if_splits)
  have frame: "Labels res = Labels upstream" "Finalizers res = Finalizers upstream" "nonviews res = nonviews upstream"
    using mid promote_remaining_frame [OF assms(1,7,2)] by auto
  have "ClusterSpecDiffAnnotationPrefix @ key \<notin> {view_annotation key, deletion_annotation key, ClusterSpecDiffAnnotationPrefix}"
    using assms(4) by (simp add: ClusterSpecDiffAnnotationPrefix_def InternalSyncerViewAnnotationPrefix_def
      InternalClusterDeletionTimestampAnnotationPrefix_def)
  then show ?thesis
    using nonviews_get [OF frame(3) spec_diff_no_view] frame(1,2)
    by (simp add: res remove_target_marks go_has_def)
qed

lemma fieldsFor_default:
  "go_str (Annotations res) ExperimentalSummarizingRulesAnnotation = []
     \<Longrightarrow> fieldsFor (syncer_transformer L url) r res = Inr [status_field r]"
  by (simp add: fieldsFor_def SummarizingRulesFor_def syncer_transformer_def
    DefaultSummarizingRules_SummarizingRulesFor_def DefaultSummarizingRules_FieldsToSummarize_def)

lemma promote_remaining_status:
  assumes laws: "view_laws (ve_lib E)" and server: "\<And>obj. ve_updateStatus E obj = Inr (obj\<lparr>ResourceVersion := rv\<rparr>)"
    and seen: "getSyncerViewFields (ve_lib E) upstream other = Inr vals" "seen_status (ve_lib E) upstream vals = Inr (Some status)"
  shows "\<exists>res m. snd (promote_remaining E [status_field r] upstream other) = Inr res
      \<and> Labels res = Labels upstream \<and> nonviews res = nonviews upstream \<and> Cluster res = Cluster upstream
      \<and> getSyncerViewFields (ve_lib E) res other = Inr m \<and> go_get m ''status'' = Some promotedToUpstream
      \<and> vl_NestedField (ve_lib E) res [''status''] = Inr (Some status)"
proof (cases "go_get vals ''status'' = Some promotedToUpstream")
  case True
  then have "vals \<noteq> None" by (cases vals) auto
  with True show ?thesis using seen
    by (auto simp: promote_remaining_def Let_def ok_andThen lift_err_def okay_def promote_field_def seen_status_def)
next
  case False
  then have v: "go_get vals ''status'' = Some status" "status \<noteq> promotedToUpstream"
    using seen(2) by (auto simp: seen_status_def split: option.splits if_splits)
  then obtain l where l: "vals = Some l" by (cases vals) auto
  obtain res1 where res1: "vl_SetNestedField (ve_lib E) upstream status [''status''] = Inr res1"
    using view_lawsD(7) [OF laws, of "''status''"] by auto
  let ?vs = "Some (go_put ''status'' promotedToUpstream l)"
  obtain s where s: "vl_marshal (ve_lib E) ?vs = Inr s" using view_lawsD(1) [OF laws, of ?vs] by blast
  define res2 where "res2 = res1\<lparr>Annotations := Some (go_put (view_annotation other) s (entries (Annotations res1)))\<rparr>"
  have set: "setSyncerViewFields (ve_lib E) res1 other ?vs = Inr res2" using s by (simp add: setSyncerViewFields_Inr res2_def)
  have run: "snd (promote_remaining E [status_field r] upstream other) = Inr (res2\<lparr>ResourceVersion := rv\<rparr>)"
    using v res1 set seen(1) server
    by (auto simp: promote_remaining_def Let_def ok_andThen lift_err_def promote_field_def field_Set_def l canPromoteStatusToUpstream_def)
  have frame: "res1 = upstream\<lparr>u_content := u_content res1\<rparr>" using view_lawsD(3) [OF laws _ res1] by simp
  have "Labels res1 = Labels upstream" "Cluster res1 = Cluster upstream" "nonviews res1 = nonviews upstream"
    unfolding nonviews_def by (subst frame, simp)+
  moreover obtain m where "getSyncerViewFields (ve_lib E) res2 other = Inr m" "go_get m = go_get ?vs"
    using view_fields_set_same [OF laws set] by blast
  moreover have "vl_NestedField (ve_lib E) (res2\<lparr>ResourceVersion := rv\<rparr>) [''status''] = vl_NestedField (ve_lib E) res1 [''status'']"
    by (rule view_lawsD(2) [OF laws]) (simp_all add: res2_def)
  ultimately show ?thesis
    using run nonviews_set [OF set] view_lawsD(4) [OF laws _ res1]
    by (intro exI [of _ "res2\<lparr>ResourceVersion := rv\<rparr>"] exI [of _ m])
      (simp add: res2_def nonviews_def getSyncerViewFields_get)
qed
text \<open>
  When a sync target is removed and one owning sync target remains, the status that the remaining one sees is
  promoted: it is the status of the upstream object, and the view of the remaining syncer still shows it.
\<close>

theorem remaining_status_promoted:
  assumes laws: "view_laws (ve_lib E)" and srt: "ve_srt E = syncer_transformer (ve_lib E) url" and "ve_domainKey E = None"
    and key: "ve_syncTargetKey E = Some key" "removedFromSyncer key view subs"
    and get: "ve_get E (Name view) (ResourceVersion view) = Inr upstream" "ResourceVersion upstream = ResourceVersion view"
    and server: "\<And>obj. ve_updateStatus E obj = Inr (obj\<lparr>ResourceVersion := rv\<rparr>)"
    and rules: "go_str (Annotations upstream) ExperimentalSummarizingRulesAnnotation = []"
      "go_str (Annotations upstream) (ClusterSpecDiffAnnotationPrefix @ other) = []"
      "vl_workspaceURL (ve_lib E) url (Cluster upstream) = Inr u"
    and single: "GetSyncIntents (ve_rfc E) upstream = Inr syncing" "AList.delete key syncing = [(other, intent)]" "other \<noteq> key"
      "si_ResourceState intent = ''Sync''" "syncer_finalizer other \<in> set (Finalizers upstream)"
    and seen: "getSyncerViewFields (ve_lib E) upstream other = Inr vals" "seen_status (ve_lib E) upstream vals = Inr (Some status)"
  shows "\<exists>upstream' view'. snd (BeforeWrite E r view subs) = Inr upstream'
    \<and> vl_NestedField (ve_lib E) upstream' [''status''] = Inr (Some status)
    \<and> AfterRead (E\<lparr>ve_syncTargetKey := Some other\<rparr>) r upstream' = Inr view'
    \<and> vl_NestedField (ve_lib E) view' [''status''] = Inr (Some status)"
proof -
  let ?L = "ve_lib E" and ?E = "E\<lparr>ve_syncTargetKey := Some other\<rparr>"
  have fs: "fieldsFor (ve_srt E) r upstream = Inr [status_field r]" using fieldsFor_default [OF rules(1)] by (simp add: srt)
  obtain res m where res: "snd (promote_remaining E [status_field r] upstream other) = Inr res"
      "Labels res = Labels upstream" "nonviews res = nonviews upstream" "Cluster res = Cluster upstream"
      "getSyncerViewFields ?L res other = Inr m" "go_get m ''status'' = Some promotedToUpstream"
      "vl_NestedField ?L res [''status''] = Inr (Some status)"
    using promote_remaining_status [OF laws server seen] by blast
  let ?up = "remove_target key res"
  have run: "snd (BeforeWrite E r view subs) = Inr ?up"
    using res(1) assms(3) key get fs single
    by (simp add: BeforeWrite_def removed_write_def ok_andThen lift_err_def SyncTargetKeyFrom_def okay_def)
  have st: "vl_NestedField ?L ?up [''status''] = Inr (Some status)"
    using res(7) view_lawsD(2) [OF laws, of "[''status'']" ?up res] by (simp add: remove_target_def Let_def)
  have ann: "go_get (Annotations ?up) k = go_get (Annotations upstream) k"
    if "\<not> has_prefix k InternalSyncerViewAnnotationPrefix" "k \<noteq> deletion_annotation key" "k \<noteq> ClusterSpecDiffAnnotationPrefix" for k
    using nonviews_get [OF res(3) that(1)] that by (auto simp: remove_target_marks)
  have keys: "deletion_annotation k \<noteq> ClusterSpecDiffAnnotationPrefix" "\<not> has_prefix (deletion_annotation k) InternalSyncerViewAnnotationPrefix"
    "ExperimentalSummarizingRulesAnnotation \<noteq> ClusterSpecDiffAnnotationPrefix" "ExperimentalSummarizingRulesAnnotation \<noteq> deletion_annotation k"
    "\<not> has_prefix ExperimentalSummarizingRulesAnnotation InternalSyncerViewAnnotationPrefix"
    "ClusterSpecDiffAnnotationPrefix @ k \<noteq> deletion_annotation key" for k
    by (simp_all add: has_prefix_def ExperimentalSummarizingRulesAnnotation_def InternalSyncerViewAnnotationPrefix_def
      ClusterSpecDiffAnnotationPrefix_def InternalClusterDeletionTimestampAnnotationPrefix_def)
  have "\<exists>sy. GetSyncIntents (ve_rfc E) ?up = Inr sy"
    by (rule removed_intents [OF single(1), where key = key]) (use ann keys in \<open>simp_all add: remove_target_def Let_def res(2)\<close>)
  then obtain sy where sy: "GetSyncIntents (ve_rfc E) ?up = Inr sy" by blast
  have "\<exists>view'. AfterRead ?E r ?up = Inr view' \<and> vl_NestedField (ve_lib ?E) view' [''status''] = seen_status (ve_lib ?E) ?up m"
  proof (rule AfterRead_status [where k = other and url = url and sy = sy and u = u])
    show "fieldsFor (ve_srt ?E) r ?up = Inr [status_field r]"
      using fieldsFor_default [of ?up] rules(1) ann keys by (simp add: srt go_str_def)
    show "go_str (Annotations (cleaned ?up)) (ClusterSpecDiffAnnotationPrefix @ other) = []"
      using rules(2) ann [OF spec_diff_no_view [of other]] keys(6) [of other] cleaned_annotation [OF spec_diff_no_view, of ?up other]
      by (cases "other = []") (simp_all add: go_str_def remove_target_marks)
    show "getSyncerViewFields (ve_lib ?E) ?up other = Inr m"
      using res(5) single(3) by (simp add: getSyncerViewFields_get remove_target_marks InternalSyncerViewAnnotationPrefix_def
        ClusterSpecDiffAnnotationPrefix_def InternalClusterDeletionTimestampAnnotationPrefix_def)
  qed (use laws srt sy rules(3) res(4) in \<open>simp_all add: remove_target_def Let_def\<close>)
  then show ?thesis using run st res(6) by (simp add: seen_status_def)
qed

section \<open>Examples\<close>

fun jvalue_text :: "jvalue \<Rightarrow> string" where
  "jvalue_text JNull = ''n''"
| "jvalue_text (JString s) = CHR ''s'' # s"
| "jvalue_text (JOther t) = CHR ''o'' # t"

fun text_jvalue :: "string \<Rightarrow> jvalue" where
  "text_jvalue (c # t) = (if c = CHR ''s'' then JString t else if c = CHR ''o'' then JOther t else JNull)"
| "text_jvalue [] = JNull"

lemma text_jvalue_text [simp]: "text_jvalue (jvalue_text v) = v"
  by (cases v) simp_all

fun decode_pairs :: "nat \<Rightarrow> string \<Rightarrow> (string \<times> jvalue) list" where
  "decode_pairs 0 s = []"
| "decode_pairs (Suc n) s =
     (case unescape s of (k, s1) \<Rightarrow> case unescape s1 of (v, s2) \<Rightarrow> (k, text_jvalue v) # decode_pairs n s2)"

definition encode_pairs :: "(string \<times> jvalue) list \<Rightarrow> string" where
  "encode_pairs l = concat (map (\<lambda>(k, v). escape k @ escape (jvalue_text v)) l)"

lemma decode_encode_pairs: "decode_pairs (length l) (encode_pairs l) = l"
  by (induction l) (auto simp: encode_pairs_def unescape_escape)

definition basic_view :: view_lib where
  "basic_view =
     \<lparr>vl_marshal = (\<lambda>m. Inr (case m of None \<Rightarrow> ''-'' | Some l \<Rightarrow> replicate (length l) CHR ''x'' @ ''|'' @ encode_pairs l)),
      vl_unmarshal = (\<lambda>s. Inr (if s = ''-'' then None else
        Some (decode_pairs (length (takeWhile (\<lambda>c. c = CHR ''x'') s)) (drop 1 (dropWhile (\<lambda>c. c = CHR ''x'') s))))),
      vl_unmarshalRules = (\<lambda>s. Inr [\<lparr>FieldPath = s, PromoteToUpstream = True\<rparr>]),
      vl_NestedField = (\<lambda>obj p. case p of [k] \<Rightarrow> Inr (map_option text_jvalue (map_of (u_content obj) k))
        | _ \<Rightarrow> Inl (Failure ''not a top-level field'')),
      vl_SetNestedField = (\<lambda>obj v p. case p of [k] \<Rightarrow> Inr (obj\<lparr>u_content := go_put k (jvalue_text v) (u_content obj)\<rparr>)
        | _ \<Rightarrow> Inl (Failure ''not a top-level field'')),
      vl_RemoveNestedField = (\<lambda>obj p. case p of [k] \<Rightarrow> obj\<lparr>u_content := AList.delete k (u_content obj)\<rparr> | _ \<Rightarrow> obj),
      vl_DecodePatch = (\<lambda>s. Inr (\<lambda>v. Inr (JOther s))), vl_asMap = Inr, vl_workspaceURL = (\<lambda>u c. Inr (u @ c))\<rparr>"

lemma basic_view_laws [simp]: "view_laws basic_view"
proof -
  have "drop 1 (dropWhile (\<lambda>c. c = CHR ''x'') (replicate n CHR ''x'' @ ''|'' @ s)) = s"
    "takeWhile (\<lambda>c. c = CHR ''x'') (replicate n CHR ''x'' @ ''|'' @ s) = replicate n CHR ''x''"
    "replicate n CHR ''x'' @ ''|'' @ s \<noteq> ''-''" for n s
    by (induction n) auto
  then show ?thesis
    by (auto simp: view_laws_def basic_view_def content_path_def decode_encode_pairs go_put_def update_conv' delete_conv'
        split: list.splits option.splits)
qed

definition ex_shared :: unstr where
  "ex_shared =
     \<lparr>Name = ''web'', Namespace = ''shop'', Cluster = ''user'', UID = ''u1'', ResourceVersion = ''7'',
      Labels = Some [(state_label ''a'', ''Sync''), (state_label ''b'', ''Sync'')],
      Annotations = Some [(view_annotation ''a'', ''x|'' @ escape ''status'' @ escape (jvalue_text promotedToUpstream))],
      Finalizers = [syncer_finalizer ''a''], OwnerReferences = [], DeletionTimestamp = None, u_Group = ''apps'', u_Version = ''v1'',
      u_Kind = ''Deployment'', u_ManagedFields = [], u_DeletionGracePeriodSeconds = None,
      u_content = [(''spec'', ''oS''), (''status'', ''oA'')]\<rparr>"

definition ex_view :: unstr where
  "ex_view = ex_shared\<lparr>Annotations := Some [], Finalizers := [syncer_finalizer ''b''], u_content := [(''spec'', ''oS''), (''status'', ''oB'')]\<rparr>"

definition ex_view_env :: "unstr \<Rightarrow> string \<Rightarrow> view_env" where
  "ex_view_env upstream key =
     \<lparr>ve_lib = basic_view, ve_srt = syncer_transformer basic_view ''https://kcp/'', ve_rfc = basic_rfc3339, ve_domainKey = None,
      ve_syncTargetKey = Some key, ve_get = (\<lambda>_ _. Inr upstream), ve_updateStatus = (\<lambda>obj. Inr (obj\<lparr>ResourceVersion := ''8''\<rparr>))\<rparr>"

definition ex_deployments :: gvr where
  "ex_deployments = \<lparr>gvr_Group = ''apps'', gvr_Version = ''v1'', gvr_Resource = ''deployments''\<rparr>"

definition ex_removed_view :: unstr where
  "ex_removed_view = ex_view\<lparr>Finalizers := [], DeletionTimestamp := Some 0\<rparr>"

definition ex_owned :: unstr where
  "ex_owned = ex_shared\<lparr>Annotations := Some [(view_annotation ''a'', ''x|'' @ escape ''status'' @ escape (jvalue_text (JOther ''A2''))),
     (deletion_annotation ''b'', ''1970-01-01T00:00:00Z''), (ClusterSpecDiffAnnotationPrefix @ ''b'', ''[]'')],
     Finalizers := [syncer_finalizer ''a'', syncer_finalizer ''b'']\<rparr>"

lemma ex_view_env_sel [simp]:
  "ve_lib (ex_view_env u k) = basic_view" "ve_srt (ex_view_env u k) = syncer_transformer basic_view ''https://kcp/''"
  "ve_syncTargetKey (ex_view_env u k) = Some k" "ve_get (ex_view_env u k) n v = Inr u" "ve_domainKey (ex_view_env u k) = None"
  "ve_updateStatus (ex_view_env u k) obj = Inr (obj\<lparr>ResourceVersion := ''8''\<rparr>)"
  "(ex_view_env u k)\<lparr>ve_syncTargetKey := Some k'\<rparr> = ex_view_env u k'"
  by (simp_all add: ex_view_env_def)

lemma ex_shared_write: "\<not> isl (snd (BeforeWrite (ex_view_env ex_shared ''b'') ex_deployments ex_view [''status'']))"
  by code_simp

lemma ex_shared_intents:
  "\<exists>sy. GetSyncIntents (ve_rfc (ex_view_env ex_shared ''b'')) ex_shared = Inr sy \<and> 1 < length sy"
proof -
  have "case GetSyncIntents (ve_rfc (ex_view_env ex_shared ''b'')) ex_shared of Inl _ \<Rightarrow> False | Inr sy \<Rightarrow> 1 < length sy" by code_simp
  then show ?thesis by (auto split: sum.splits)
qed

lemma ex_shared_facts:
  "fieldsFor (syncer_transformer basic_view ''https://kcp/'') r ex_shared = Inr [status_field r]"
  "fieldsFor (syncer_transformer basic_view ''https://kcp/'') r ex_owned = Inr [status_field r]"
  "Annotations ex_shared \<noteq> None" "\<not> removedFromSyncer ''b'' ex_view [''status'']" "removedFromSyncer ''b'' ex_removed_view []"
  by (rule fieldsFor_default, code_simp, rule fieldsFor_default, code_simp, code_simp+)

lemma ex_removal: "\<not> isl (snd (BeforeWrite (ex_view_env ex_owned ''b'') ex_deployments ex_removed_view []))"
  by code_simp

definition ex_third :: unstr where
  "ex_third = ex_owned\<lparr>Labels := Some [(state_label ''a'', ''Sync''), (state_label ''b'', ''Sync''), (state_label ''c'', ''Sync'')]\<rparr>"

lemma ex_third_facts:
  "\<not> isl (snd (BeforeWrite (ex_view_env ex_third ''b'') ex_deployments ex_removed_view []))"
  "fieldsFor (syncer_transformer basic_view ''https://kcp/'') r ex_third = Inr [status_field r]" "Annotations ex_third \<noteq> None"
  "\<exists>sy. GetSyncIntents (ve_rfc (ex_view_env ex_third ''b'')) ex_third = Inr sy \<and> 1 < length sy \<and> \<not> one_owner_left ''b'' sy ex_third"
proof -
  show "\<not> isl (snd (BeforeWrite (ex_view_env ex_third ''b'') ex_deployments ex_removed_view []))" by code_simp
  show "fieldsFor (syncer_transformer basic_view ''https://kcp/'') r ex_third = Inr [status_field r]" by (rule fieldsFor_default) code_simp
  show "Annotations ex_third \<noteq> None" by code_simp
  have "case GetSyncIntents (ve_rfc (ex_view_env ex_third ''b'')) ex_third of Inl _ \<Rightarrow> False
      | Inr sy \<Rightarrow> 1 < length sy \<and> 1 < length (AList.delete ''b'' sy)" by code_simp
  then show "\<exists>sy. GetSyncIntents (ve_rfc (ex_view_env ex_third ''b'')) ex_third = Inr sy \<and> 1 < length sy \<and> \<not> one_owner_left ''b'' sy ex_third"
    by (auto simp: one_owner_left_def split: sum.splits)
qed

theorem syncer_view_isolation_witness:
  "(\<exists>up'. snd (BeforeWrite (ex_view_env ex_shared ''b'') ex_deployments ex_view [''status'']) = Inr up'
     \<and> AfterRead (ex_view_env ex_shared ''a'') ex_deployments up' = AfterRead (ex_view_env ex_shared ''a'') ex_deployments ex_shared)
   \<and> (\<exists>up'. snd (BeforeWrite (ex_view_env ex_third ''b'') ex_deployments ex_removed_view []) = Inr up'
     \<and> AfterRead (ex_view_env ex_third ''a'') ex_deployments up'
       = map_sum id (forget_target ''b'') (AfterRead (ex_view_env ex_third ''a'') ex_deployments ex_third))"
proof (rule conjI)
  obtain up' where up': "snd (BeforeWrite (ex_view_env ex_shared ''b'') ex_deployments ex_view [''status'']) = Inr up'"
    using ex_shared_write by (metis isl_def obj_sumE sum.disc(1))
  then show "\<exists>up'. snd (BeforeWrite (ex_view_env ex_shared ''b'') ex_deployments ex_view [''status'']) = Inr up'
     \<and> AfterRead (ex_view_env ex_shared ''a'') ex_deployments up' = AfterRead (ex_view_env ex_shared ''a'') ex_deployments ex_shared"
    using syncer_view_isolation [of "ex_view_env ex_shared ''b''" "''https://kcp/''" "''b''" ex_view ex_shared ex_deployments
        "[status_field ex_deployments]" "[''status'']" up' _ "''a''"] ex_shared_intents ex_shared_facts by (auto simp: Let_def)
next
  obtain up' where up': "snd (BeforeWrite (ex_view_env ex_third ''b'') ex_deployments ex_removed_view []) = Inr up'"
    using ex_third_facts(1) by (metis isl_def obj_sumE sum.disc(1))
  obtain sy where "GetSyncIntents (ve_rfc (ex_view_env ex_third ''b'')) ex_third = Inr sy" "1 < length sy" "\<not> one_owner_left ''b'' sy ex_third"
    using ex_third_facts(4) by blast
  with up' show "\<exists>up'. snd (BeforeWrite (ex_view_env ex_third ''b'') ex_deployments ex_removed_view []) = Inr up'
     \<and> AfterRead (ex_view_env ex_third ''a'') ex_deployments up'
       = map_sum id (forget_target ''b'') (AfterRead (ex_view_env ex_third ''a'') ex_deployments ex_third)"
    using syncer_view_isolation [of "ex_view_env ex_third ''b''" "''https://kcp/''" "''b''" ex_removed_view ex_third ex_deployments
        "[status_field ex_deployments]" "[]" up' sy "''a''"] ex_third_facts(2,3) ex_shared_facts(5) by (auto simp: Let_def)
qed


theorem syncer_status_roundtrip_witness:
  "\<exists>up' view'. snd (BeforeWrite (ex_view_env ex_shared ''b'') ex_deployments ex_view [''status'']) = Inr up'
     \<and> AfterRead (ex_view_env ex_shared ''b'') ex_deployments up' = Inr view'
     \<and> vl_NestedField basic_view view' [''status''] = Inr (Some (JOther ''B''))"
proof -
  obtain up' where up': "snd (BeforeWrite (ex_view_env ex_shared ''b'') ex_deployments ex_view [''status'']) = Inr up'"
    using ex_shared_write by (metis isl_def obj_sumE sum.disc(1))
  have "go_str (Annotations ex_shared) ExperimentalSummarizingRulesAnnotation = []"
    "go_str (Annotations ex_shared) (ClusterSpecDiffAnnotationPrefix @ ''b'') = []"
    "vl_NestedField basic_view ex_view [''status''] = Inr (Some (JOther ''B''))" "JOther ''B'' \<noteq> promotedToUpstream"
    by code_simp+
  moreover have "vl_workspaceURL basic_view u c = Inr (u @ c)" for u c by (simp add: basic_view_def)
  moreover have "status_rules [status_field ex_deployments]" by (simp add: status_rules_def)
  ultimately show ?thesis
    using syncer_status_roundtrip [of "ex_view_env ex_shared ''b''" "''https://kcp/''" "''b''" ex_view ex_shared ex_deployments
        "[status_field ex_deployments]" "JOther ''B''" up'] up' ex_shared_facts(1) by auto
qed

theorem removed_target_forgotten_witness:
  "\<exists>up'. snd (BeforeWrite (ex_view_env ex_owned ''b'') ex_deployments ex_removed_view []) = Inr up'
     \<and> go_get (Labels up') (state_label ''b'') = None \<and> go_get (Annotations up') (ClusterSpecDiffAnnotationPrefix @ ''b'') = Some ''[]''"
proof -
  obtain up' where up': "snd (BeforeWrite (ex_view_env ex_owned ''b'') ex_deployments ex_removed_view []) = Inr up'"
    using ex_removal by (metis isl_def obj_sumE sum.disc(1))
  have "go_get (Annotations ex_owned) (ClusterSpecDiffAnnotationPrefix @ ''b'') = Some ''[]''" by code_simp
  moreover have "server_keeps (ex_view_env ex_owned ''b'')" by (simp add: server_keeps_def)
  ultimately show ?thesis
    using removed_target_forgotten [of "ex_view_env ex_owned ''b''" "''b''" ex_removed_view ex_owned ex_deployments
        "[status_field ex_deployments]" "[]" up'] ex_shared_facts up' by simp
qed

theorem remaining_status_promoted_witness:
  "\<exists>up'. snd (BeforeWrite (ex_view_env ex_owned ''b'') ex_deployments ex_removed_view []) = Inr up'
     \<and> vl_NestedField basic_view up' [''status''] = Inr (Some (JOther ''A2''))"
proof -
  obtain syncing intent where sy: "GetSyncIntents (ve_rfc (ex_view_env ex_owned ''b'')) ex_owned = Inr syncing"
    "AList.delete ''b'' syncing = [(''a'', intent)]" "si_ResourceState intent = ''Sync''"
  proof -
    have "case GetSyncIntents (ve_rfc (ex_view_env ex_owned ''b'')) ex_owned of Inl _ \<Rightarrow> False
        | Inr sy \<Rightarrow> length (AList.delete ''b'' sy) = 1 \<and> fst (hd (AList.delete ''b'' sy)) = ''a''
            \<and> si_ResourceState (snd (hd (AList.delete ''b'' sy))) = ''Sync''" by code_simp
    then show ?thesis using that by (auto simp: length_Suc_conv split: sum.splits)
  qed
  have ex: "go_str (Annotations ex_owned) ExperimentalSummarizingRulesAnnotation = []"
    "go_str (Annotations ex_owned) (ClusterSpecDiffAnnotationPrefix @ ''a'') = []"
    "syncer_finalizer ''a'' \<in> set (Finalizers ex_owned)" "ResourceVersion ex_owned = ResourceVersion ex_removed_view"
    "getSyncerViewFields basic_view ex_owned ''a'' = Inr (Some [(''status'', JOther ''A2'')])"
    "seen_status basic_view ex_owned (Some [(''status'', JOther ''A2'')]) = Inr (Some (JOther ''A2''))"
    by code_simp+
  moreover have "vl_workspaceURL basic_view u c = Inr (u @ c)" for u c by (simp add: basic_view_def)
  ultimately show ?thesis
    using remaining_status_promoted [of "ex_view_env ex_owned ''b''" "''https://kcp/''" "''b''" ex_removed_view "[]" ex_owned "''8''" "''a''" _
        syncing intent "Some [(''status'', JOther ''A2'')]" "JOther ''A2''" ex_deployments] sy ex_shared_facts by auto
qed

end
