(* ===== verification/Coordination.thy ===== *)
theory Coordination
  imports Syncer_View Work_Queue "HOL-Library.Signed_Division"
begin

text \<open>
  \<^verbatim>\<open>src/tmc/coordination\<close> and \<^verbatim>\<open>src/pkg/reconciler/coordination/deployment\<close>: the controller that spreads the
  replicas of a Deployment over the sync targets it is synced to, by writing one spec diff per sync target, and
  that sums the status of the syncer views up into the status of the Deployment.

  Parameters: the conversion of typed objects (\<open>DefaultUnstructuredConverter\<close>), the semantic equality of maps,
  key functions, listers and the commit library. Numbers of replicas are 32 bit words, read as signed integers;
  the quotient and the remainder are those of Go's \<open>int64\<close>, which truncate towards zero.
\<close>

section \<open>Syncer views\<close>

fun view_annotations :: "(string \<Rightarrow> bool) \<Rightarrow> (string \<times> string) list \<Rightarrow> (string \<times> string) list" where
  "view_annotations keep [] = []"
| "view_annotations keep ((name, v) # rest) =
     (if has_prefix name InternalSyncerViewAnnotationPrefix \<and> keep (trim_prefix name InternalSyncerViewAnnotationPrefix)
      then (name, v) # view_annotations keep rest else view_annotations keep rest)"

text \<open>\<open>reflect.DeepEqual\<close> on two maps made by \<open>make\<close>.\<close>

definition FilteredSyncerViewsChanged :: "'a object_meta_scheme \<Rightarrow> 'a object_meta_scheme \<Rightarrow> (string \<Rightarrow> bool) \<Rightarrow> bool" where
  "FilteredSyncerViewsChanged old new keep =
     (\<not> map_equal (view_annotations keep (entries (Annotations old))) (view_annotations keep (entries (Annotations new))))"

definition AnySyncerViewChanged :: "'a object_meta_scheme \<Rightarrow> 'a object_meta_scheme \<Rightarrow> bool" where
  "AnySyncerViewChanged old new = FilteredSyncerViewsChanged old new (\<lambda>_. True)"

definition SyncerViewChanged :: "'a object_meta_scheme \<Rightarrow> 'a object_meta_scheme \<Rightarrow> string \<Rightarrow> bool" where
  "SyncerViewChanged old new syncTargetKey = FilteredSyncerViewsChanged old new (\<lambda>key. syncTargetKey = key)"

text \<open>The two loops as they are written: the second one has no negation.\<close>

definition UpstreamViewChanged ::
  "'a object_meta_scheme \<Rightarrow> 'a object_meta_scheme \<Rightarrow> ('a object_meta_scheme \<Rightarrow> 'a object_meta_scheme \<Rightarrow> bool) \<Rightarrow> bool" where
  "UpstreamViewChanged old new equality =
     (let old' = old\<lparr>Annotations := Some (filter (\<lambda>(name, _). \<not> has_prefix name InternalSyncerViewAnnotationPrefix) (entries (Annotations old)))\<rparr>;
          new' = new\<lparr>Annotations := Some (filter (\<lambda>(name, _). has_prefix name InternalSyncerViewAnnotationPrefix) (entries (Annotations new)))\<rparr> in
      \<not> equality old' new')"

record 'd retriever =
  rt_env :: view_env
  rt_toUnstructured :: "'d \<Rightarrow> go_error + unstr"
  rt_fromUnstructured :: "unstr \<Rightarrow> go_error + 'd"

definition view_step ::
  "('a object_meta_scheme) retriever \<Rightarrow> gvr \<Rightarrow> 'a object_meta_scheme \<Rightarrow> (string \<Rightarrow> bool)
     \<Rightarrow> (string \<times> 'a object_meta_scheme) list \<Rightarrow> string \<Rightarrow> go_error + (string \<times> 'a object_meta_scheme) list" where
  "view_step R r upstream keep views name =
     (let syncTargetKey = trim_prefix name InternalSyncerViewAnnotationPrefix in
      if \<not> has_prefix name InternalSyncerViewAnnotationPrefix \<or> \<not> keep syncTargetKey then Inr views
      else bindE (rt_toUnstructured R upstream) (\<lambda>unstrResource.
           bindE (AfterRead ((rt_env R)\<lparr>ve_syncTargetKey := Some syncTargetKey\<rparr>) r unstrResource) (\<lambda>unstrSyncerView.
           bindE (rt_fromUnstructured R unstrSyncerView) (\<lambda>syncerView.
           Inr (go_put syncTargetKey syncerView views)))))"

definition GetFilteredSyncerViews ::
  "('a object_meta_scheme) retriever \<Rightarrow> gvr \<Rightarrow> 'a object_meta_scheme \<Rightarrow> (string \<Rightarrow> bool) \<Rightarrow> go_error + (string \<times> 'a object_meta_scheme) list" where
  "GetFilteredSyncerViews R r upstream keep =
     foldE (view_step R r upstream keep) [] (map fst (entries (Annotations upstream)))"

definition GetAllSyncerViews ::
  "('a object_meta_scheme) retriever \<Rightarrow> gvr \<Rightarrow> 'a object_meta_scheme \<Rightarrow> go_error + (string \<times> 'a object_meta_scheme) list" where
  "GetAllSyncerViews R r upstream = GetFilteredSyncerViews R r upstream (\<lambda>_. True)"

text \<open>\<open>None\<close> is the zero value of the type.\<close>

definition GetSyncerView ::
  "('a object_meta_scheme) retriever \<Rightarrow> gvr \<Rightarrow> 'a object_meta_scheme \<Rightarrow> string \<Rightarrow> go_error + 'a object_meta_scheme option" where
  "GetSyncerView R r upstream syncTargetKey =
     bindE (GetFilteredSyncerViews R r upstream (\<lambda>key. syncTargetKey = key)) (\<lambda>views. Inr (map_of views syncTargetKey))"

section \<open>Deployments\<close>

record deployment_condition =
  dc_Type :: string
  dc_Status :: string
  dc_Rest :: string          \<comment> \<open>times, reason and message\<close>

record deployment_status =
  ds_ObservedGeneration :: int
  ds_Replicas :: "32 word"
  ds_UpdatedReplicas :: "32 word"
  ds_ReadyReplicas :: "32 word"
  ds_AvailableReplicas :: "32 word"
  ds_UnavailableReplicas :: "32 word"
  ds_Conditions :: "deployment_condition list"
  ds_CollisionCount :: "int option"

record deployment = object_meta +
  d_Replicas :: "32 word option"       \<comment> \<open>\<open>Spec.Replicas\<close>\<close>
  d_Template :: string                 \<comment> \<open>the rest of the spec\<close>
  d_Status :: deployment_status

record coordination_env =
  ce_rfc :: rfc3339
  ce_semEqual :: "smap \<Rightarrow> smap \<Rightarrow> bool"
  ce_keyFunc :: "deployment \<Rightarrow> go_error + string"
  ce_splitKey :: "string \<Rightarrow> go_error + (string \<times> string \<times> string)"
  ce_getDeployment :: "string \<Rightarrow> string \<Rightarrow> string \<Rightarrow> go_error + deployment"
  ce_commit :: "(string, deployment_status) commit_lib"
  ce_patcher :: "string \<Rightarrow> string \<Rightarrow> patch_call \<Rightarrow> go_error option"
  ce_retriever :: "deployment retriever"
  ce_gvr :: gvr

definition filter_annotations :: "(string \<Rightarrow> bool) \<Rightarrow> smap \<Rightarrow> smap" where
  "filter_annotations keep m = Some (filter (\<lambda>(k, _). keep k) (entries m))"

definition deploymentContentsEqual :: "coordination_env \<Rightarrow> deployment \<Rightarrow> deployment \<Rightarrow> bool" where
  "deploymentContentsEqual C old new =
     (if \<not> ce_semEqual C (Labels old) (Labels new) then False
      else if \<not> ce_semEqual C (filter_annotations (\<lambda>k. \<not> has_prefix k ClusterSpecDiffAnnotationPrefix) (Annotations old))
                (filter_annotations (\<lambda>k. \<not> has_prefix k ClusterSpecDiffAnnotationPrefix) (Annotations new)) then False
      else d_Replicas old = d_Replicas new)"

text \<open>The keys that go to the upstream view queue and to the syncer view queue.\<close>

definition coordination_enqueue :: "coordination_env \<Rightarrow> deployment \<Rightarrow> string list" where
  "coordination_enqueue C obj = (case ce_keyFunc C obj of Inl _ \<Rightarrow> [] | Inr key \<Rightarrow> [key])"

definition deployment_added :: "coordination_env \<Rightarrow> deployment \<Rightarrow> string list \<times> string list" where
  "deployment_added C obj = (coordination_enqueue C obj, coordination_enqueue C obj)"

definition deployment_updated :: "coordination_env \<Rightarrow> deployment \<Rightarrow> deployment \<Rightarrow> string list \<times> string list" where
  "deployment_updated C old new =
     (if UpstreamViewChanged old new (deploymentContentsEqual C) then coordination_enqueue C new else [],
      if AnySyncerViewChanged old new then coordination_enqueue C new else [])"

section \<open>The upstream view: spreading the replicas\<close>

fun nat_text :: "nat \<Rightarrow> string" where
  "nat_text n = (if n < 10 then [char_of (48 + n)] else nat_text (n div 10) @ [char_of (48 + n mod 10)])"

declare nat_text.simps [simp del]

definition int_text :: "int \<Rightarrow> string" where
  "int_text i = (if i < 0 then CHR ''-'' # nat_text (nat (- i)) else nat_text (nat i))"

definition replicas_patch :: "int \<Rightarrow> string" where
  "replicas_patch n =
     (let q = [CHR 0x22] in
      ''[{ '' @ q @ ''op'' @ q @ '': '' @ q @ ''replace'' @ q @ '', '' @ q @ ''path'' @ q @ '': '' @ q @ ''/replicas'' @ q
        @ '', '' @ q @ ''value'' @ q @ '': '' @ int_text n @ '' }]'')"

text \<open>The sync targets that get replicas.\<close>

definition scheduled_views :: "(string \<times> sync_intent) list \<Rightarrow> string list" where
  "scheduled_views intents =
     map fst (filter (\<lambda>(_, i). si_ResourceState i = ResourceStateSync \<and> si_DeletionTimestamp i = None) intents)"

definition replicas_for :: "int \<Rightarrow> nat \<Rightarrow> nat \<Rightarrow> int" where
  "replicas_for amount n index = amount sdiv int n + (if index = 0 then amount smod int n else 0)"

definition newSpecDiffAnnotation :: "32 word option \<Rightarrow> string list \<Rightarrow> go_error + (string \<times> string) list" where
  "newSpecDiffAnnotation replicas views =
     (if views = [] then Inr []
      else (case replicas of
              None \<Rightarrow> Inl (Panic ''nil pointer dereference'')
            | Some w \<Rightarrow>
                Inr (map (\<lambda>(index, key). (ClusterSpecDiffAnnotationPrefix @ key, replicas_patch (replicas_for (sint w) (length views) index)))
                  (enumerate 0 (set_list views)))))"

definition coordinated_annotations :: "(string \<times> string) list \<Rightarrow> smap \<Rightarrow> smap" where
  "coordinated_annotations diffs annotations =
     Some (fold (\<lambda>(k, v). go_put k v) diffs
       (filter (\<lambda>(k, _). \<not> (map_of diffs k = None \<and> has_prefix k ClusterSpecDiffAnnotationPrefix)) (entries annotations)))"

definition meta_resource :: "object_meta \<Rightarrow> deployment_status option \<Rightarrow> (string, deployment_status) resource" where
  "meta_resource m st = \<lparr>r_ObjectMeta = m, r_Spec = None, r_Status = st\<rparr>"

definition processUpstreamView :: "coordination_env \<Rightarrow> string \<Rightarrow> patch_call list \<times> go_error option" where
  "processUpstreamView C key =
     (case ce_splitKey C key of
        Inl _ \<Rightarrow> ([], None)
      | Inr (clusterName, namespace, name) \<Rightarrow>
          (case bindE (ce_getDeployment C clusterName namespace name) (\<lambda>deployment.
                bindE (GetSyncIntents (ce_rfc C) deployment) (\<lambda>syncIntents.
                bindE (newSpecDiffAnnotation (d_Replicas deployment) (scheduled_views syncIntents)) (\<lambda>diffs.
                Inr (deployment, diffs)))) of
             Inl e \<Rightarrow> ([], Some e)
           | Inr (deployment, diffs) \<Rightarrow>
               NewCommitterScoped (ce_commit C) ''Deployment'' (ce_patcher C clusterName namespace)
                 (meta_resource (object_meta.truncate deployment) None)
                 (meta_resource ((object_meta.truncate deployment)\<lparr>Annotations :=
                    coordinated_annotations diffs (Annotations deployment)\<rparr>) None)))"

section \<open>The syncer views: summing the status up\<close>

definition emptyStatus :: deployment_status where
  "emptyStatus = \<lparr>ds_ObservedGeneration = 0, ds_Replicas = 0, ds_UpdatedReplicas = 0, ds_ReadyReplicas = 0,
     ds_AvailableReplicas = 0, ds_UnavailableReplicas = 0, ds_Conditions = [], ds_CollisionCount = None\<rparr>"

definition consolidate :: "deployment_condition \<Rightarrow> (string \<times> deployment_condition) list \<Rightarrow> (string \<times> deployment_condition) list" where
  "consolidate c m =
     (case map_of m (dc_Type c) of
        None \<Rightarrow> go_put (dc_Type c) c m
      | Some old \<Rightarrow>
          if dc_Status old = ''Unknown'' then go_put (dc_Type c) c m
          else if dc_Status old = ''False'' \<and> dc_Status c = ''True'' then go_put (dc_Type c) c m
          else m)"

definition summarize_step ::
  "deployment_status \<Rightarrow> deployment_status \<times> (string \<times> deployment_condition) list
     \<Rightarrow> deployment_status \<times> (string \<times> deployment_condition) list" where
  "summarize_step st acc =
     (if st = emptyStatus then acc
      else (case acc of (s, m) \<Rightarrow>
        (s\<lparr>ds_Replicas := ds_Replicas s + ds_Replicas st, ds_UpdatedReplicas := ds_UpdatedReplicas s + ds_UpdatedReplicas st,
          ds_ReadyReplicas := ds_ReadyReplicas s + ds_ReadyReplicas st, ds_AvailableReplicas := ds_AvailableReplicas s + ds_AvailableReplicas st,
          ds_UnavailableReplicas := ds_UnavailableReplicas s + ds_UnavailableReplicas st\<rparr>,
         fold consolidate (ds_Conditions st) m)))"

definition summarizedStatus :: "deployment_status list \<Rightarrow> deployment_status" where
  "summarizedStatus statuses =
     (case fold summarize_step statuses (emptyStatus, []) of (s, m) \<Rightarrow>
        s\<lparr>ds_Conditions := map (\<lambda>t. the (map_of m t)) (set_list (map fst m))\<rparr>)"

definition processSyncerView :: "coordination_env \<Rightarrow> string \<Rightarrow> patch_call list \<times> go_error option" where
  "processSyncerView C key =
     (case ce_splitKey C key of
        Inl _ \<Rightarrow> ([], None)
      | Inr (clusterName, namespace, name) \<Rightarrow>
          (case bindE (ce_getDeployment C clusterName namespace name) (\<lambda>deployment.
                bindE (GetAllSyncerViews (ce_retriever C) (ce_gvr C) deployment) (\<lambda>views. Inr (deployment, views))) of
             Inl e \<Rightarrow> ([], Some e)
           | Inr (deployment, views) \<Rightarrow>
               NewCommitterScoped (ce_commit C) ''Deployment'' (ce_patcher C clusterName namespace)
                 (meta_resource (object_meta.truncate deployment) (Some (d_Status deployment)))
                 (meta_resource (object_meta.truncate deployment)
                    (Some (summarizedStatus (map (d_Status \<circ> snd) views))))))"

section \<open>Lemmas and properties\<close>

lemma intents_distinct: "GetSyncIntents rfc obj = Inr sy \<Longrightarrow> distinct (map fst sy)"
proof -
  have "foldE (intent_step rfc a) s xs = Inr sy \<Longrightarrow> distinct (map fst s) \<Longrightarrow> distinct (map fst sy)" for a s xs
  proof (induction xs arbitrary: s)
    case (Cons x xs)
    then obtain s1 where s1: "intent_step rfc a s x = Inr s1" "foldE (intent_step rfc a) s1 xs = Inr sy" by (auto simp: bindE_Inr)
    have "distinct (map fst s1)"
      using s1(1) Cons.prems(2)
      by (auto simp: intent_step_def Let_def bindE_Inr go_put_def distinct_update split: prod.splits if_splits)
    then show ?case using Cons.IH s1(2) by blast
  qed simp
  then show "GetSyncIntents rfc obj = Inr sy \<Longrightarrow> distinct (map fst sy)" by (simp add: GetSyncIntents_def)
qed

definition share :: "int \<Rightarrow> string list \<Rightarrow> string \<Rightarrow> int" where
  "share amount views t = amount sdiv int (length views) + (if t = hd (set_list views) then amount smod int (length views) else 0)"

lemma length_set_list [simp]: "length (set_list xs) = length xs" "distinct (set_list xs) = distinct xs" "set_list xs = [] \<longleftrightarrow> xs = []"
  by (simp_all add: set_list_def flip: length_0_conv)

lemma newSpecDiff_shares:
  assumes "distinct views" "views \<noteq> []"
  shows "newSpecDiffAnnotation (Some w) views
    = Inr (map (\<lambda>t. (ClusterSpecDiffAnnotationPrefix @ t, replicas_patch (share (sint w) views t))) (set_list views))"
proof -
  obtain x xs where l: "set_list views = x # xs" using assms(2) by (cases "set_list views") auto
  then have "x \<notin> set xs" using assms(1) by (metis distinct.simps(2) length_set_list(2))
  moreover have "map (\<lambda>(i, k). (ClusterSpecDiffAnnotationPrefix @ k, replicas_patch (replicas_for (sint w) (length views) i))) (enumerate (Suc n) ys)
     = map (\<lambda>t. (ClusterSpecDiffAnnotationPrefix @ t, replicas_patch (share (sint w) views t))) ys" if "x \<notin> set ys" for n ys
    using that by (induction ys arbitrary: n) (auto simp: share_def replicas_for_def l)
  ultimately show ?thesis
    using assms(2) by (simp add: newSpecDiffAnnotation_def l) (simp add: share_def replicas_for_def l)
qed

lemma shares_sum:
  assumes "distinct views" "views \<noteq> []"
  shows "(\<Sum>t \<in> set views. share amount views t) = amount"
proof -
  have h: "hd (set_list views) \<in> set views"
    using assms(2) hd_in_set [of "set_list views"] by simp
  have "(\<Sum>t \<in> set views. share amount views t)
      = int (card (set views)) * (amount sdiv int (length views)) + amount smod int (length views)"
    using h by (simp add: share_def sum.distrib)
  also have "\<dots> = amount"
    using assms(1) by (simp add: distinct_card mult_sdiv_smod_eq)
  finally show ?thesis .
qed

lemma share_nonneg: "0 \<le> amount \<Longrightarrow> 0 \<le> share amount views t"
  by (cases "length views = 0")
    (auto simp: share_def signed_divide_int_def signed_modulo_int_def sgn_if pos_imp_zdiv_nonneg_iff)

lemma get_fold_put:
  "distinct (map fst ds) \<Longrightarrow> map_of (fold (\<lambda>(k, v). go_put k v) ds l) k = (case map_of ds k of None \<Rightarrow> map_of l k | Some v \<Rightarrow> Some v)"
proof (induction ds arbitrary: l)
  case (Cons d ds)
  then have "map_of ds (fst d) = None" by (simp add: map_of_eq_None_iff)
  with Cons show ?case by (cases d) (auto simp: go_put_def update_conv' split: option.splits)
qed simp

lemma coordinated_get:
  assumes "distinct (map fst ds)"
  shows "go_get (coordinated_annotations ds a) k =
    (case map_of ds k of Some v \<Rightarrow> Some v
     | None \<Rightarrow> if has_prefix k ClusterSpecDiffAnnotationPrefix then None else go_get a k)"
proof -
  have "map_of (filter (\<lambda>(k, _). \<not> (map_of ds k = None \<and> has_prefix k ClusterSpecDiffAnnotationPrefix)) l) k
      = (if map_of ds k = None \<and> has_prefix k ClusterSpecDiffAnnotationPrefix then None else map_of l k)" for l
    by (induction l) auto
  then show ?thesis
    using assms by (auto simp: coordinated_annotations_def go_get_def get_fold_put split: option.splits)
qed

abbreviation spec_diff :: "string \<Rightarrow> string" where
  "spec_diff key \<equiv> ClusterSpecDiffAnnotationPrefix @ key"

lemma coordinated_spread:
  assumes "distinct views" "views \<noteq> []" "newSpecDiffAnnotation (Some w) views = Inr ds"
  shows "distinct (map fst ds)"
    "map_of ds (spec_diff t) = (if t \<in> set views then Some (replicas_patch (share (sint w) views t)) else None)"
    "\<not> has_prefix k ClusterSpecDiffAnnotationPrefix \<Longrightarrow> map_of ds k = None"
proof -
  have ds: "ds = map (\<lambda>t. (spec_diff t, replicas_patch (share (sint w) views t))) (set_list views)"
    using assms(3) newSpecDiff_shares [OF assms(1,2)] by simp
  show "distinct (map fst ds)" using assms(1) by (simp add: ds comp_def distinct_map inj_on_def)
  have "map_of (map (\<lambda>t. (spec_diff t, f t)) xs) (spec_diff t) = (if t \<in> set xs then Some (f t) else None)" for f :: "string \<Rightarrow> string" and xs
    by (induction xs) auto
  then show "map_of ds (spec_diff t) = (if t \<in> set views then Some (replicas_patch (share (sint w) views t)) else None)"
    by (simp add: ds)
  show "\<not> has_prefix k ClusterSpecDiffAnnotationPrefix \<Longrightarrow> map_of ds k = None"
    by (auto simp: ds map_of_eq_None_iff)
qed

lemma scheduled_views_mem:
  "distinct (map fst sy) \<Longrightarrow> t \<in> set (scheduled_views sy) \<longleftrightarrow>
     (\<exists>i. map_of sy t = Some i \<and> si_ResourceState i = ResourceStateSync \<and> si_DeletionTimestamp i = None)"
  by (force simp: scheduled_views_def)

lemma scheduled_views_distinct: "distinct (map fst sy) \<Longrightarrow> distinct (scheduled_views sy)"
  by (induction sy) (auto simp: scheduled_views_def)

text \<open>
  C31: The replicas of a Deployment are spread over exactly the sync targets it is synced to and that are not being
  removed: each of them gets one spec diff, the numbers in the diffs sum up to the replicas of the Deployment, none is
  negative, the diffs of all other sync targets are dropped and no other annotation changes. The annotations are
  committed as a metadata change only.
\<close>

theorem replicas_spread:
  assumes "ce_splitKey C key = Inr (cluster, namespace, name)" "ce_getDeployment C cluster namespace name = Inr d"
    and "GetSyncIntents (ce_rfc C) d = Inr intents" "d_Replicas d = Some w" "scheduled_views intents \<noteq> []"
  shows "\<exists>annotations part. processUpstreamView C key =
      NewCommitterScoped (ce_commit C) ''Deployment'' (ce_patcher C cluster namespace) (meta_resource (object_meta.truncate d) None)
        (meta_resource ((object_meta.truncate d)\<lparr>Annotations := annotations\<rparr>) None)
    \<and> (\<forall>t. go_get annotations (spec_diff t) =
          (if \<exists>i. map_of intents t = Some i \<and> si_ResourceState i = ResourceStateSync \<and> si_DeletionTimestamp i = None
           then Some (replicas_patch (part t)) else None))
    \<and> (\<Sum>t \<in> set (scheduled_views intents). part t) = sint w
    \<and> (0 \<le> sint w \<longrightarrow> (\<forall>t. 0 \<le> part t))
    \<and> (\<forall>k. \<not> has_prefix k ClusterSpecDiffAnnotationPrefix \<longrightarrow> go_get annotations k = go_get (Annotations d) k)"
proof -
  let ?views = "scheduled_views intents" and ?part = "share (sint w) (scheduled_views intents)"
  have dist: "distinct (map fst intents)" by (rule intents_distinct [OF assms(3)])
  note views = scheduled_views_distinct [OF dist]
  obtain ds where ds: "newSpecDiffAnnotation (Some w) ?views = Inr ds" using newSpecDiff_shares [OF views assms(5)] by blast
  note spread = coordinated_spread [OF views assms(5) ds]
  have "processUpstreamView C key =
      NewCommitterScoped (ce_commit C) ''Deployment'' (ce_patcher C cluster namespace) (meta_resource (object_meta.truncate d) None)
        (meta_resource ((object_meta.truncate d)\<lparr>Annotations := coordinated_annotations ds (Annotations d)\<rparr>) None)"
    using assms ds by (simp add: processUpstreamView_def)
  moreover have "\<forall>t. go_get (coordinated_annotations ds (Annotations d)) (spec_diff t) =
          (if \<exists>i. map_of intents t = Some i \<and> si_ResourceState i = ResourceStateSync \<and> si_DeletionTimestamp i = None
           then Some (replicas_patch (?part t)) else None)"
    using scheduled_views_mem [OF dist] by (auto simp: coordinated_get [OF spread(1)] spread(2))
  moreover have "\<forall>k. \<not> has_prefix k ClusterSpecDiffAnnotationPrefix
      \<longrightarrow> go_get (coordinated_annotations ds (Annotations d)) k = go_get (Annotations d) k"
    by (simp add: coordinated_get [OF spread(1)] spread(3))
  ultimately show ?thesis
    using shares_sum [OF views assms(5), of "sint w"] share_nonneg by blast
qed

lemma coordinated_idem:
  assumes "distinct (map fst ds)"
  shows "coordinated_annotations ds (coordinated_annotations ds a) = coordinated_annotations ds a"
proof -
  define Q where "Q k \<longleftrightarrow> \<not> (map_of ds k = None \<and> has_prefix k ClusterSpecDiffAnnotationPrefix)" for k
  define l where "l = fold (\<lambda>(k, v). go_put k v) ds (filter (\<lambda>(k, _). Q k) (entries a))"
  have keys: "fst ` set (fold (\<lambda>(k, v). go_put k v) es l) = fst ` set es \<union> fst ` set l" for es :: "(string \<times> string) list" and l
    by (induction es arbitrary: l) (simp_all add: go_put_def dom_update case_prod_beta)
  have "Q (fst x)" if "x \<in> set l" for x
  proof -
    have "fst x \<in> fst ` set ds \<union> fst ` set (filter (\<lambda>(k, _). Q k) (entries a))" using keys that unfolding l_def by blast
    moreover have "Q k" if "k \<in> fst ` set ds" for k using that by (simp add: Q_def map_of_eq_None_iff)
    ultimately show ?thesis by auto
  qed
  then have f: "filter (\<lambda>(k, _). Q k) l = l" by (auto intro: filter_True)
  have put: "fold (\<lambda>(k, v). go_put k v) es l = l" if "\<And>k v. (k, v) \<in> set es \<Longrightarrow> map_of l k = Some v" for es and l :: "(string \<times> string) list"
    using that by (induction es) (auto simp: go_put_def update_triv)
  have "fold (\<lambda>(k, v). go_put k v) ds l = l"
    by (rule put) (simp add: l_def get_fold_put [OF assms] assms)
  then show ?thesis using f unfolding l_def Q_def by (simp add: coordinated_annotations_def)
qed

lemma intents_coordinated:
  assumes "\<And>k. \<not> has_prefix k ClusterSpecDiffAnnotationPrefix \<Longrightarrow> go_get a k = go_get (Annotations d) k"
  shows "GetSyncIntents rfc (d\<lparr>Annotations := a\<rparr>) = GetSyncIntents rfc (d :: deployment)"
proof -
  have "intent_step rfc a = intent_step rfc (Annotations d)"
    by (rule intent_step_cong; rule assms)
      (simp_all add: has_prefix_def InternalClusterDeletionTimestampAnnotationPrefix_def ClusterFinalizerAnnotationPrefix_def
        ClusterSpecDiffAnnotationPrefix_def)
  then show ?thesis by (simp add: GetSyncIntents_def)
qed

text \<open>
  Coordination converges: once the annotations of a pass are written, the next pass computes the same ones and
  sends nothing.
\<close>

theorem coordination_converges:
  assumes "eq_laws (ce_commit C)" "ce_splitKey C key = Inr (cluster, namespace, name)"
    and "GetSyncIntents (ce_rfc C) d = Inr intents" "newSpecDiffAnnotation (d_Replicas d) (scheduled_views intents) = Inr diffs"
    and "ce_getDeployment C cluster namespace name = Inr (d\<lparr>Annotations := coordinated_annotations diffs (Annotations d)\<rparr>)"
  shows "processUpstreamView C key = ([], None)"
proof -
  let ?a = "coordinated_annotations diffs (Annotations d)"
  have dist: "distinct (map fst intents)" by (rule intents_distinct [OF assms(3)])
  have diffs: "distinct (map fst diffs)" "\<And>k. \<not> has_prefix k ClusterSpecDiffAnnotationPrefix \<Longrightarrow> map_of diffs k = None"
    using assms(4) coordinated_spread [OF scheduled_views_distinct [OF dist], of _ diffs]
    by (auto simp: newSpecDiffAnnotation_def split: if_splits option.splits)
  have "GetSyncIntents (ce_rfc C) (d\<lparr>Annotations := ?a\<rparr>) = Inr intents"
    using intents_coordinated [of ?a d] assms(3) diffs(2) by (simp add: coordinated_get [OF diffs(1)])
  then show ?thesis
    using assms coordinated_idem [OF diffs(1), of "Annotations d"]
    by (simp add: processUpstreamView_def NewCommitterScoped_def object_meta.truncate_def commit_refl)
qed

section \<open>The summary\<close>

definition rank :: "string \<Rightarrow> nat" where
  "rank s = (if s = ''True'' then 2 else if s = ''False'' then 1 else 0)"

definition all_conditions :: "deployment_status list \<Rightarrow> deployment_condition list" where
  "all_conditions sts = concat (map ds_Conditions sts)"

lemma consolidate_get:
  "map_of (consolidate c m) t = (if t = dc_Type c \<and> (map_of m t = None \<or> (\<exists>old. map_of m t = Some old
      \<and> (dc_Status old = ''Unknown'' \<or> dc_Status old = ''False'' \<and> dc_Status c = ''True''))) then Some c else map_of m t)"
  by (auto simp: consolidate_def go_put_def update_conv' split: option.splits)

lemma summarize_fold:
  "fold summarize_step sts (s, m) =
     (s\<lparr>ds_Replicas := ds_Replicas s + sum_list (map ds_Replicas sts),
        ds_UpdatedReplicas := ds_UpdatedReplicas s + sum_list (map ds_UpdatedReplicas sts),
        ds_ReadyReplicas := ds_ReadyReplicas s + sum_list (map ds_ReadyReplicas sts),
        ds_AvailableReplicas := ds_AvailableReplicas s + sum_list (map ds_AvailableReplicas sts),
        ds_UnavailableReplicas := ds_UnavailableReplicas s + sum_list (map ds_UnavailableReplicas sts)\<rparr>,
      fold consolidate (all_conditions sts) m)"
proof (induction sts arbitrary: s m)
  case (Cons st sts)
  show ?case
  proof (cases "st = emptyStatus")
    case True
    then show ?thesis using Cons by (simp add: summarize_step_def all_conditions_def) (simp add: emptyStatus_def)
  next
    case False
    then show ?thesis using Cons by (simp add: summarize_step_def all_conditions_def algebra_simps)
  qed
qed (simp add: all_conditions_def)

definition known :: "deployment_condition \<Rightarrow> bool" where
  "known c \<longleftrightarrow> dc_Status c \<in> {''True'', ''False'', ''Unknown''}"

lemma consolidate_rank:
  assumes "known c" "\<And>old. map_of m t = Some old \<Longrightarrow> known old"
  shows "map_of (consolidate c m) t =
    (if t = dc_Type c \<and> (\<forall>old. map_of m t = Some old \<longrightarrow> rank (dc_Status old) = 0 \<or> rank (dc_Status old) < rank (dc_Status c))
     then Some c else map_of m t)"
proof -
  have "(dc_Status old = ''Unknown'' \<or> dc_Status old = ''False'' \<and> dc_Status c = ''True'')
      \<longleftrightarrow> rank (dc_Status old) = 0 \<or> rank (dc_Status old) < rank (dc_Status c)" if "known old" for old
    using that assms(1) unfolding known_def rank_def by (elim insertE emptyE; simp)
  then show ?thesis using assms(2) by (cases "map_of m t") (simp_all add: consolidate_get)
qed

definition best_of :: "deployment_condition list \<Rightarrow> deployment_condition option \<Rightarrow> string \<Rightarrow> deployment_condition option \<Rightarrow> bool" where
  "best_of cs old t r = (case r of
      None \<Rightarrow> old = None \<and> (\<forall>c \<in> set cs. dc_Type c \<noteq> t)
    | Some best \<Rightarrow> dc_Type best = t \<and> (old = Some best \<or> best \<in> set cs)
        \<and> (\<forall>c. old = Some c \<or> c \<in> set cs \<and> dc_Type c = t \<longrightarrow> rank (dc_Status c) \<le> rank (dc_Status best)))"

lemma best_of_step:
  assumes "best_of cs (if t = dc_Type x \<and> (\<forall>c. old = Some c \<longrightarrow> rank (dc_Status c) = 0 \<or> rank (dc_Status c) < rank (dc_Status x))
     then Some x else old) t r"
  shows "best_of (x # cs) old t r"
proof (cases r)
  case None
  then show ?thesis using assms by (auto simp: best_of_def split: if_splits)
next
  case (Some best)
  have "rank (dc_Status x) \<le> rank (dc_Status best)" if "dc_Type x = t"
    using assms Some that by (cases old) (auto simp: best_of_def split: if_splits intro: order.trans)
  moreover have "rank (dc_Status c) \<le> rank (dc_Status best)" if "old = Some c" for c
    using assms Some that by (auto simp: best_of_def split: if_splits)
  ultimately show ?thesis using assms Some by (auto simp: best_of_def split: if_splits)
qed

lemma consolidate_best:
  assumes "\<forall>c \<in> set cs. known c" "\<And>t c. map_of m t = Some c \<Longrightarrow> known c \<and> dc_Type c = t"
  shows "best_of cs (map_of m t) t (map_of (fold consolidate cs m) t)"
  using assms
proof (induction cs arbitrary: m)
  case Nil
  then show ?case by (auto simp: best_of_def split: option.splits)
next
  case (Cons x cs)
  have get: "map_of (consolidate x m) t' = (if t' = dc_Type x \<and> (\<forall>old. map_of m t' = Some old \<longrightarrow> rank (dc_Status old) = 0
       \<or> rank (dc_Status old) < rank (dc_Status x)) then Some x else map_of m t')" for t'
    by (rule consolidate_rank) (use Cons.prems in auto)
  have "best_of cs (map_of (consolidate x m) t) t (map_of (fold consolidate cs (consolidate x m)) t)"
    by (rule Cons.IH) (use Cons.prems in \<open>auto simp: get split: if_splits\<close>)
  then show ?case using best_of_step [of cs t x "map_of m t"] by (simp add: get)
qed

lemma consolidate_keys: "distinct (map fst m) \<Longrightarrow> distinct (map fst (fold consolidate cs m))"
  by (induction cs arbitrary: m) (simp_all add: consolidate_def go_put_def distinct_update split: option.splits)

text \<open>
  The status of a coordinated Deployment is the sum of the status of its syncer views (modulo the width of the
  counters), and it has one condition per condition type of the views, sorted by type, which is a condition of one of the
  views with the best status: True before False before Unknown.
\<close>

theorem status_summary:
  assumes "\<forall>c \<in> set (all_conditions sts). known c"
  shows "ds_Replicas (summarizedStatus sts) = sum_list (map ds_Replicas sts)
    \<and> ds_UpdatedReplicas (summarizedStatus sts) = sum_list (map ds_UpdatedReplicas sts)
    \<and> ds_ReadyReplicas (summarizedStatus sts) = sum_list (map ds_ReadyReplicas sts)
    \<and> ds_AvailableReplicas (summarizedStatus sts) = sum_list (map ds_AvailableReplicas sts)
    \<and> ds_UnavailableReplicas (summarizedStatus sts) = sum_list (map ds_UnavailableReplicas sts)
    \<and> map dc_Type (ds_Conditions (summarizedStatus sts)) = sorted_list_of_set (dc_Type ` set (all_conditions sts))
    \<and> (\<forall>c \<in> set (ds_Conditions (summarizedStatus sts)). c \<in> set (all_conditions sts)
        \<and> (\<forall>c' \<in> set (all_conditions sts). dc_Type c' = dc_Type c \<longrightarrow> rank (dc_Status c') \<le> rank (dc_Status c)))"
proof -
  define m where "m = fold consolidate (all_conditions sts) []"
  have best: "best_of (all_conditions sts) None t (map_of m t)" for t
    using consolidate_best [OF assms, of "[]" t] by (simp add: m_def)
  have conds: "ds_Conditions (summarizedStatus sts) = map (\<lambda>t. the (map_of m t)) (set_list (map fst m))"
    by (simp add: summarizedStatus_def summarize_fold m_def)
  have get: "dc_Type (the (map_of m t)) = t \<and> the (map_of m t) \<in> set (all_conditions sts)
      \<and> (\<forall>c \<in> set (all_conditions sts). dc_Type c = t \<longrightarrow> rank (dc_Status c) \<le> rank (dc_Status (the (map_of m t))))"
    if "t \<in> set (map fst m)" for t
    using best [of t] that by (auto simp: best_of_def map_of_eq_None_iff split: option.splits)
  have types: "set (map fst m) = dc_Type ` set (all_conditions sts)"
  proof (intro equalityI subsetI)
    fix t assume "t \<in> set (map fst m)"
    then show "t \<in> dc_Type ` set (all_conditions sts)" using get by (metis imageI)
  next
    fix t assume "t \<in> dc_Type ` set (all_conditions sts)"
    then have "map_of m t \<noteq> None" using best [of t] by (auto simp: best_of_def split: option.splits)
    then show "t \<in> set (map fst m)" by (simp add: map_of_eq_None_iff)
  qed
  have "map dc_Type (ds_Conditions (summarizedStatus sts)) = set_list (map fst m)"
    unfolding conds map_map by (rule map_idI) (use get in simp)
  moreover have "set_list (map fst m) = sorted_list_of_set (dc_Type ` set (all_conditions sts))"
    using consolidate_keys [of "[]" "all_conditions sts"] types
    by (metis distinct_remdups_id list.simps(8) distinct.simps(1) m_def set_list_def sorted_list_of_set_sort_remdups)
  moreover have "\<forall>c \<in> set (ds_Conditions (summarizedStatus sts)). c \<in> set (all_conditions sts)
        \<and> (\<forall>c' \<in> set (all_conditions sts). dc_Type c' = dc_Type c \<longrightarrow> rank (dc_Status c') \<le> rank (dc_Status c))"
    using get by (auto simp: conds)
  ultimately show ?thesis
    by (simp add: summarizedStatus_def summarize_fold emptyStatus_def)
qed

text \<open>
  The check for a changed upstream view reports every Deployment that has an annotation other than a syncer view or a
  spec diff as changed, even if the old and the new object are the same, so each resynchronization queues it again.
\<close>

theorem unchanged_deployment_queued:
  assumes "\<And>a b. ce_semEqual C a b \<longleftrightarrow> go_get a = go_get b"
    and "go_has (Annotations d) k" "\<not> has_prefix k InternalSyncerViewAnnotationPrefix" "\<not> has_prefix k ClusterSpecDiffAnnotationPrefix"
  shows "UpstreamViewChanged d d (deploymentContentsEqual C) \<and> fst (deployment_updated C d d) = coordination_enqueue C d"
proof -
  have filt: "map_of (filter (\<lambda>(n, _). P n) l) k = (if P k then map_of l k else None)" for P and l :: "(string \<times> string) list"
    by (induction l) auto
  have "UpstreamViewChanged d d (deploymentContentsEqual C)"
  proof -
    let ?old = "filter_annotations (\<lambda>k. \<not> has_prefix k ClusterSpecDiffAnnotationPrefix)
        (Some (filter (\<lambda>(name, _). \<not> has_prefix name InternalSyncerViewAnnotationPrefix) (entries (Annotations d))))"
    let ?new = "filter_annotations (\<lambda>k. \<not> has_prefix k ClusterSpecDiffAnnotationPrefix)
        (Some (filter (\<lambda>(name, _). has_prefix name InternalSyncerViewAnnotationPrefix) (entries (Annotations d))))"
    have "go_get ?old k = go_get (Annotations d) k" "go_get ?new k = None"
      using assms(3,4) by (simp_all add: filter_annotations_def go_get_def filt del: filter_filter)
    then have "go_get ?old \<noteq> go_get ?new" using assms(2) by (metis go_has_def)
    then show ?thesis by (simp add: UpstreamViewChanged_def deploymentContentsEqual_def assms(1))
  qed
  then show ?thesis by (simp add: deployment_updated_def)
qed

section \<open>Examples\<close>

definition ex_deployment :: deployment where
  "ex_deployment =
     \<lparr>Name = ''web'', Namespace = ''shop'', Cluster = ''user'', UID = ''u1'', ResourceVersion = ''7'',
      Labels = Some [(state_label ''b'', ''Sync''), (state_label ''a'', ''Sync''), (state_label ''c'', ''Sync'')],
      Annotations = Some [(''note'', ''x''), (deletion_annotation ''c'', ''1970-01-01T00:00:00Z''), (ClusterSpecDiffAnnotationPrefix @ ''c'', ''[]'')],
      Finalizers = [], OwnerReferences = [], DeletionTimestamp = None, d_Replicas = Some 7, d_Template = [], d_Status = emptyStatus\<rparr>"

definition ex_coordination :: "deployment \<Rightarrow> coordination_env" where
  "ex_coordination d =
     \<lparr>ce_rfc = basic_rfc3339, ce_semEqual = (\<lambda>a b. map_equal (entries a) (entries b)), ce_keyFunc = (\<lambda>d. Inr (Name d)),
      ce_splitKey = (\<lambda>key. Inr (''user'', ''shop'', key)), ce_getDeployment = (\<lambda>_ _ _. Inr d), ce_commit = basic_commit,
      ce_patcher = (\<lambda>_ _ _. None),
      ce_retriever = \<lparr>rt_env = ex_view_env ex_shared ''a'', rt_toUnstructured = (\<lambda>_. Inl NotFound), rt_fromUnstructured = (\<lambda>_. Inl NotFound)\<rparr>,
      ce_gvr = ex_deployments\<rparr>"

lemma ex_coordination_sel [simp]:
  "ce_rfc (ex_coordination d) = basic_rfc3339" "ce_splitKey (ex_coordination d) key = Inr (''user'', ''shop'', key)"
  "ce_getDeployment (ex_coordination d) a b c = Inr d" "ce_commit (ex_coordination d) = basic_commit"
  "ce_semEqual (ex_coordination d) x y \<longleftrightarrow> go_get x = go_get y"
  by (simp_all add: ex_coordination_def map_equal_iff go_get_def fun_eq_iff)

lemma ex_deployment_intents:
  "\<exists>sy. GetSyncIntents basic_rfc3339 ex_deployment = Inr sy \<and> scheduled_views sy = [''b'', ''a'']
     \<and> (\<exists>i. map_of sy ''a'' = Some i \<and> si_ResourceState i = ResourceStateSync \<and> si_DeletionTimestamp i = None)"
proof -
  have "case GetSyncIntents basic_rfc3339 ex_deployment of Inl _ \<Rightarrow> False
    | Inr sy \<Rightarrow> scheduled_views sy = [''b'', ''a'']" by code_simp
  then obtain sy where sy: "GetSyncIntents basic_rfc3339 ex_deployment = Inr sy" "scheduled_views sy = [''b'', ''a'']"
    by (auto split: sum.splits)
  then show ?thesis using scheduled_views_mem [OF intents_distinct [OF sy(1)], of "''a''"] by simp
qed

theorem replicas_spread_witness:
  "\<exists>annotations part. processUpstreamView (ex_coordination ex_deployment) ''web'' =
      NewCommitterScoped basic_commit ''Deployment'' (ce_patcher (ex_coordination ex_deployment) ''user'' ''shop'')
        (meta_resource (object_meta.truncate ex_deployment) None)
        (meta_resource ((object_meta.truncate ex_deployment)\<lparr>Annotations := annotations\<rparr>) None)
    \<and> go_get annotations (spec_diff ''a'') = Some (replicas_patch (part ''a'')) \<and> part ''a'' + part ''b'' = 7"
proof -
  obtain sy i where sy: "GetSyncIntents basic_rfc3339 ex_deployment = Inr sy" "scheduled_views sy = [''b'', ''a'']"
    "map_of sy ''a'' = Some i" "si_ResourceState i = ResourceStateSync" "si_DeletionTimestamp i = None"
    using ex_deployment_intents by blast
  have r: "d_Replicas ex_deployment = Some 7" by (simp add: ex_deployment_def)
  obtain annotations part where *: "processUpstreamView (ex_coordination ex_deployment) ''web'' =
      NewCommitterScoped (ce_commit (ex_coordination ex_deployment)) ''Deployment'' (ce_patcher (ex_coordination ex_deployment) ''user'' ''shop'')
        (meta_resource (object_meta.truncate ex_deployment) None)
        (meta_resource ((object_meta.truncate ex_deployment)\<lparr>Annotations := annotations\<rparr>) None)"
    "\<forall>t. go_get annotations (spec_diff t) =
          (if \<exists>i. map_of sy t = Some i \<and> si_ResourceState i = ResourceStateSync \<and> si_DeletionTimestamp i = None
           then Some (replicas_patch (part t)) else None)"
    "(\<Sum>t \<in> set (scheduled_views sy). part t) = sint (7 :: 32 word)"
    using replicas_spread [of "ex_coordination ex_deployment" "''web''" "''user''" "''shop''" "''web''" ex_deployment sy 7] sy(1,2) r by auto
  have "part ''a'' + part ''b'' = 7" using *(3) sy(2) by simp
  moreover have "go_get annotations (spec_diff ''a'') = Some (replicas_patch (part ''a''))" using *(2) sy(3-5) by auto
  ultimately show ?thesis using *(1) by auto
qed

theorem coordination_converges_witness:
  "\<exists>diffs. newSpecDiffAnnotation (Some 7) [''b'', ''a''] = Inr diffs \<and> processUpstreamView (ex_coordination
     (ex_deployment\<lparr>Annotations := coordinated_annotations diffs (Annotations ex_deployment)\<rparr>)) ''web'' = ([], None)"
proof -
  obtain sy where sy: "GetSyncIntents basic_rfc3339 ex_deployment = Inr sy" "scheduled_views sy = [''b'', ''a'']"
    using ex_deployment_intents by blast
  obtain diffs where diffs: "newSpecDiffAnnotation (Some 7) [''b'', ''a''] = Inr diffs"
    using newSpecDiff_shares [of "[''b'', ''a'']" 7] by simp
  have r: "d_Replicas ex_deployment = Some 7" by (simp add: ex_deployment_def)
  show ?thesis
    using coordination_converges [of "ex_coordination (ex_deployment\<lparr>Annotations := coordinated_annotations diffs (Annotations ex_deployment)\<rparr>)"
        "''web''" "''user''" "''shop''" "''web''" ex_deployment sy diffs] sy diffs r by auto
qed

theorem unchanged_deployment_queued_witness:
  "UpstreamViewChanged ex_deployment ex_deployment (deploymentContentsEqual (ex_coordination ex_deployment))"
proof -
  have "go_has (Annotations ex_deployment) ''note''" "\<not> has_prefix ''note'' InternalSyncerViewAnnotationPrefix"
    "\<not> has_prefix ''note'' ClusterSpecDiffAnnotationPrefix" by code_simp+
  then show ?thesis using unchanged_deployment_queued [of "ex_coordination ex_deployment" ex_deployment "''note''"] by simp
qed

definition ex_statuses :: "deployment_status list" where
  "ex_statuses =
     [emptyStatus\<lparr>ds_Replicas := 4, ds_Conditions := [\<lparr>dc_Type = ''Available'', dc_Status = ''False'', dc_Rest = []\<rparr>]\<rparr>, emptyStatus,
      emptyStatus\<lparr>ds_Replicas := 3, ds_Conditions := [\<lparr>dc_Type = ''Available'', dc_Status = ''True'', dc_Rest = []\<rparr>]\<rparr>]"

theorem status_summary_witness:
  "ds_Replicas (summarizedStatus ex_statuses) = 7 \<and> map dc_Type (ds_Conditions (summarizedStatus ex_statuses)) = [''Available'']"
  using status_summary [of ex_statuses]
  by (simp add: ex_statuses_def all_conditions_def known_def emptyStatus_def)

end
