(* ===== verification/Virtual_Workspace.thy ===== *)
theory Virtual_Workspace
  imports Syncer_View SyncTarget_Exports
begin

text \<open>
  \<^verbatim>\<open>src/tmc/virtual/syncer\<close>: the two virtual workspaces through which a syncer talks to kcp. Modelled are the
  resolution of the request path to a sync target (\<^verbatim>\<open>builder/template.go\<close>), the controller that keeps the set of
  served APIs per sync target (\<^verbatim>\<open>controllers/apireconciler\<close>), the filters of the two workspaces
  (\<^verbatim>\<open>builder/build.go\<close>), and the transformer and the write check of the upsyncer workspace (\<^verbatim>\<open>upsyncer\<close>).

  Parameters: logical cluster paths, key functions, listers, the creation of an API definition (a storage object of
  the API server) and JSON patches.
\<close>

section \<open>Request paths\<close>

definition trim_suffix :: "string \<Rightarrow> string \<Rightarrow> string" where
  "trim_suffix s suffix =
     (if length suffix \<le> length s \<and> drop (length s - length suffix) s = suffix then take (length s - length suffix) s else s)"

datatype req_cluster = Wildcard | ReqCluster string

record path_lib =
  pl_Name :: "string \<Rightarrow> string option"               \<comment> \<open>\<open>logicalcluster.Path.Name\<close>\<close>
  pl_ToClusterAwareKey :: "string \<Rightarrow> string \<Rightarrow> string"
  pl_hash :: hash_lib

record template =
  tp_ready :: bool
  tp_rootPathPrefix :: string
  tp_virtualWorkspaceName :: string
  tp_lib :: path_lib
  tp_getSyncTarget :: "string \<Rightarrow> string \<Rightarrow> go_error + sync_target"

record request_context =
  rq_cluster :: req_cluster
  rq_syncTargetKey :: string
  rq_apiDomainKey :: string

text \<open>\<open>None\<close>: the path is not accepted.\<close>

definition parse_cluster :: "path_lib \<Rightarrow> string \<Rightarrow> req_cluster option" where
  "parse_cluster P reqPath = (if reqPath = ''*'' then Some Wildcard else map_option ReqCluster (pl_Name P reqPath))"

definition resolveRootPath :: "template \<Rightarrow> string \<Rightarrow> (string \<times> request_context) option" where
  "resolveRootPath t urlPath =
     (let P = tp_lib t; rootPathPrefix = tp_rootPathPrefix t @ tp_virtualWorkspaceName t @ ''/'' in
      if \<not> tp_ready t \<or> \<not> has_prefix urlPath rootPathPrefix then None
      else
        (let parts = splitN (CHR ''/'') 4 (trim_prefix urlPath rootPathPrefix) in
         if length parts < 3 \<or> parts ! 0 = [] \<or> parts ! 1 = [] \<or> parts ! 2 = [] then None
         else
           (case pl_Name P (parts ! 0) of None \<Rightarrow> None
            | Some clusterName \<Rightarrow>
                (case tp_getSyncTarget t clusterName (parts ! 1) of
                   Inl _ \<Rightarrow> None
                 | Inr syncTarget \<Rightarrow>
                     if UID syncTarget \<noteq> parts ! 2 then None
                     else
                       (let realPath = ''/'' @ (if length parts > 3 then parts ! 3 else []) in
                        if \<not> has_prefix realPath ''/clusters/'' then None
                        else
                          (let parts2 = splitN (CHR ''/'') 2 (trim_prefix realPath ''/clusters/'');
                               realPath2 = ''/'' @ (if length parts2 > 1 then parts2 ! 1 else []) in
                           case parse_cluster P (parts2 ! 0) of None \<Rightarrow> None
                           | Some cluster \<Rightarrow>
                               Some (trim_suffix urlPath realPath2,
                                 \<lparr>rq_cluster = cluster, rq_syncTargetKey = ToSyncTargetKey (pl_hash P) clusterName (parts ! 1),
                                  rq_apiDomainKey = pl_ToClusterAwareKey P clusterName (parts ! 1)\<rparr>)))))))"

section \<open>Authorization and storage\<close>

text \<open>
  Every request is delegated to the authorizer of the workspace of the sync target, as a request to \<open>sync\<close> it. \<open>newAuthorizer\<close> is the
  delegated authorizer of a workspace.
\<close>

datatype decision = DecisionAllow | DecisionDeny | DecisionNoOpinion

record authz_attributes =
  az_User :: string
  az_Verb :: string
  az_Name :: string
  az_APIGroup :: string
  az_APIVersion :: string
  az_Resource :: string

definition sync_attributes :: "string \<Rightarrow> string \<Rightarrow> authz_attributes" where
  "sync_attributes user syncTargetName =
     \<lparr>az_User = user, az_Verb = ''sync'', az_Name = syncTargetName, az_APIGroup = ''workload.kcp.io'', az_APIVersion = ''v1alpha1'',
      az_Resource = ''synctargets''\<rparr>"

definition authorize ::
  "(string \<Rightarrow> go_error + (string \<times> string)) \<Rightarrow> (string \<Rightarrow> go_error + (authz_attributes \<Rightarrow> go_error + decision)) \<Rightarrow> string \<Rightarrow> string \<Rightarrow> go_error + decision" where
  "authorize splitKey newAuthorizer syncTargetKey user =
     bindE (splitKey syncTargetKey) (\<lambda>(negotiationWorkspaceName, syncTargetName).
     bindE (newAuthorizer negotiationWorkspaceName) (\<lambda>authz. authz (sync_attributes user syncTargetName)))"

text \<open>The label that an object must have to be visible, and the operations of the two kinds of storage, by subresource.\<close>

definition storage_requirement :: "hash_lib \<Rightarrow> string \<Rightarrow> string \<Rightarrow> string \<Rightarrow> string \<times> string" where
  "storage_requirement H syncTargetClusterName syncTargetName filteredResourceState =
     (ClusterResourceStateLabelPrefix @ ToSyncTargetKey H syncTargetClusterName syncTargetName, filteredResourceState)"

datatype storage_verb = GetVerb | ListVerb | WatchVerb | CreateVerb | UpdateVerb | DeleteVerb

definition syncer_storage :: "bool \<Rightarrow> string \<Rightarrow> storage_verb list" where
  "syncer_storage statusEnabled subresource =
     (if subresource = [] then [GetVerb, ListVerb, UpdateVerb, WatchVerb]
      else if subresource = ''status'' \<and> statusEnabled then [GetVerb, UpdateVerb] else [])"

definition upsyncer_storage :: "bool \<Rightarrow> string \<Rightarrow> storage_verb list" where
  "upsyncer_storage statusEnabled subresource =
     (if subresource = [] then [GetVerb, ListVerb, CreateVerb, UpdateVerb, WatchVerb, DeleteVerb]
      else if subresource = ''status'' \<and> statusEnabled then [GetVerb, UpdateVerb] else [])"

section \<open>Served APIs\<close>

record vw_schema =
  vs_Cluster :: string                         \<comment> \<open>the annotation \<open>kcp.io/cluster\<close>\<close>
  vs_UID :: string
  vs_Group :: string
  vs_Plural :: string
  vs_Versions :: "(string \<times> bool) list"      \<comment> \<open>name, served\<close>

record 'd api_definition =
  ad_def :: 'd
  ad_UID :: string
  ad_IdentityHash :: string

type_synonym 'd api_set = "(gvr \<times> 'd api_definition) list"

record 'd api_env =
  av_getAPIExport :: "string \<Rightarrow> string \<Rightarrow> go_error + api_export"
  av_getResourceSchema :: "string \<Rightarrow> string \<Rightarrow> go_error + vw_schema"
  av_SyncerSchemas :: "vw_schema list"
  av_createAPIDefinition :: "string \<Rightarrow> string \<Rightarrow> vw_schema \<Rightarrow> string \<Rightarrow> string \<Rightarrow> go_error + 'd"
  av_allowed :: "(string \<times> string \<Rightarrow> bool) option"
  av_splitKey :: "string \<Rightarrow> go_error + (string \<times> string)"
  av_getSyncTarget :: "string \<Rightarrow> string \<Rightarrow> go_error + sync_target"

definition syncer_allowed :: "string \<times> string \<Rightarrow> bool" where
  "syncer_allowed gr = (if fst gr = [] \<and> snd gr = ''pods'' then False else True)"

definition upsyncer_allowed :: "string \<times> string \<Rightarrow> bool" where
  "upsyncer_allowed gr \<longleftrightarrow> fst gr = [] \<and> (snd gr = ''persistentvolumes'' \<or> snd gr = ''pods'' \<or> snd gr = ''endpoints'')"

definition accepted_identities :: "sync_target \<Rightarrow> ((string \<times> string) \<times> string) list" where
  "accepted_identities st =
     fold (\<lambda>r m. if rs_State r = ResourceSchemaAcceptedState
              then AList.update (gr_Group (rs_GroupResource r), gr_Resource (rs_GroupResource r)) (rs_IdentityHash r) m else m)
       (SyncedResources (st_Status st)) []"

type_synonym schemas = "((string \<times> string) \<times> vw_schema) list"

abbreviation schema_gr :: "vw_schema \<Rightarrow> string \<times> string" where
  "schema_gr sch \<equiv> (vs_Group sch, vs_Plural sch)"

definition accept_schema ::
  "'d api_env \<Rightarrow> ((string \<times> string) \<times> string) list \<Rightarrow> string \<Rightarrow> string \<Rightarrow> schemas \<times> go_error list \<Rightarrow> schemas \<times> go_error list" where
  "accept_schema E identities cluster schemaName acc =
     (case av_getResourceSchema E cluster schemaName of
        Inl NotFound \<Rightarrow> acc
      | Inl e \<Rightarrow> (fst acc, snd acc @ [e])
      | Inr sch \<Rightarrow> if map_of identities (schema_gr sch) \<noteq> None then (AList.update (schema_gr sch) sch (fst acc), snd acc) else acc)"

definition accept_export ::
  "'d api_env \<Rightarrow> sync_target \<Rightarrow> ((string \<times> string) \<times> string) list \<Rightarrow> export_reference \<Rightarrow> schemas \<times> go_error list \<Rightarrow> schemas \<times> go_error list" where
  "accept_export E st identities ref acc =
     (case av_getAPIExport E (export_path st ref) (er_Export ref) of
        Inl e \<Rightarrow> (fst acc, snd acc @ [e])
      | Inr export \<Rightarrow> fold (accept_schema E identities (Cluster export)) (LatestResourceSchemas export) acc)"

definition getAllAcceptedResourceSchemas ::
  "'d api_env \<Rightarrow> sync_target \<Rightarrow> schemas \<times> ((string \<times> string) \<times> string) list \<times> go_error list" where
  "getAllAcceptedResourceSchemas E st =
     (let identities = accepted_identities st in
      case fold (accept_export E st identities) (SupportedAPIExports (st_Spec st)) ([], []) of
        (schemas, errs) \<Rightarrow> (schemas, identities, errs))"

definition identity_of :: "((string \<times> string) \<times> string) list \<Rightarrow> string \<times> string \<Rightarrow> string" where
  "identity_of identities gr = (case map_of identities gr of None \<Rightarrow> [] | Some h \<Rightarrow> h)"

definition define_version ::
  "'d api_env \<Rightarrow> 'd api_set \<Rightarrow> sync_target \<Rightarrow> string \<Rightarrow> string \<times> string \<Rightarrow> vw_schema \<Rightarrow> string \<times> bool \<Rightarrow> 'd api_set \<Rightarrow> 'd api_set" where
  "define_version E oldSet st hash gr sch v newSet =
     (if \<not> snd v then newSet
      else
        (let r = \<lparr>gvr_Group = fst gr, gvr_Version = fst v, gvr_Resource = snd gr\<rparr>;
             create = (case av_createAPIDefinition E (Cluster st) (Name st) sch (fst v) hash of
                         Inl _ \<Rightarrow> newSet
                       | Inr d \<Rightarrow> AList.update r \<lparr>ad_def = d, ad_UID = vs_UID sch, ad_IdentityHash = hash\<rparr> newSet) in
         case map_of oldSet r of
           Some oldDef \<Rightarrow> if ad_UID oldDef = vs_UID sch \<and> ad_IdentityHash oldDef = hash then AList.update r oldDef newSet else create
         | None \<Rightarrow> create))"

definition define_resource ::
  "'d api_env \<Rightarrow> 'd api_set \<Rightarrow> sync_target \<Rightarrow> ((string \<times> string) \<times> string) list \<Rightarrow> (string \<times> string) \<times> vw_schema \<Rightarrow> 'd api_set \<Rightarrow> 'd api_set" where
  "define_resource E oldSet st identities e newSet =
     (case e of (gr, sch) \<Rightarrow>
        if (case av_allowed E of None \<Rightarrow> False | Some allowed \<Rightarrow> \<not> allowed gr) then newSet
        else fold (define_version E oldSet st (identity_of identities gr) gr sch) (vs_Versions sch) newSet)"

text \<open>The new set and the definitions that are torn down, or the errors.\<close>

definition api_reconcile :: "'d api_env \<Rightarrow> 'd api_set \<Rightarrow> sync_target \<Rightarrow> go_error list + ('d api_set \<times> 'd api_definition list)" where
  "api_reconcile E oldSet st =
     (case getAllAcceptedResourceSchemas E st of (schemas, identities, errs) \<Rightarrow>
        if errs \<noteq> [] then Inl errs
        else
          (let schemas' = fold (\<lambda>sch. AList.update (schema_gr sch) (sch\<lparr>vs_Cluster := Cluster st\<rparr>)) (av_SyncerSchemas E) schemas;
               newSet = fold (define_resource E oldSet st identities) schemas' [] in
           Inr (newSet, map snd (filter (\<lambda>(r, oldDef). map_of newSet r \<noteq> Some oldDef) oldSet))))"

type_synonym 'd api_sets = "(string \<times> 'd api_set) list"

definition removeAPIDefinitionSet :: "string \<Rightarrow> 'd api_sets \<Rightarrow> 'd api_sets" where
  "removeAPIDefinitionSet key apiSets = AList.delete key apiSets"

definition GetAPIDefinitionSet :: "string \<Rightarrow> 'd api_sets \<Rightarrow> 'd api_set option" where
  "GetAPIDefinitionSet key apiSets = map_of apiSets key"

definition api_process :: "'d api_env \<Rightarrow> string \<Rightarrow> 'd api_sets \<Rightarrow> 'd api_sets \<times> 'd api_definition list \<times> go_error list" where
  "api_process E key apiSets =
     (case av_splitKey E key of
        Inl _ \<Rightarrow> (apiSets, [], [])
      | Inr (clusterName, syncTargetName) \<Rightarrow>
          (case av_getSyncTarget E clusterName syncTargetName of
             Inl NotFound \<Rightarrow> (removeAPIDefinitionSet key apiSets, [], [])
           | Inl e \<Rightarrow> (apiSets, [], [e])
           | Inr st \<Rightarrow>
               (case api_reconcile E (case map_of apiSets key of None \<Rightarrow> [] | Some old \<Rightarrow> old) st of
                  Inl errs \<Rightarrow> (apiSets, [], errs)
                | Inr (newSet, torn) \<Rightarrow> (AList.update key newSet apiSets, torn, []))))"

text \<open>
  The event handlers, as the keys they queue and the errors they report: the indexes are computed from the objects
  of the informer caches; \<open>ax_metaKey\<close> is \<open>DeletionHandlingMetaClusterNamespaceKeyFunc\<close> on a cluster and a name.
\<close>

record api_index =
  ax_metaKey :: "string \<Rightarrow> string \<Rightarrow> go_error + string"
  ax_ToClusterAwareKey :: "string \<Rightarrow> string \<Rightarrow> string"
  ax_SyncTargets :: "sync_target list"
  ax_APIExports :: "api_export list"

definition IndexAPIExportsByAPIResourceSchemas :: "api_index \<Rightarrow> api_export \<Rightarrow> string list" where
  "IndexAPIExportsByAPIResourceSchemas X export = map (ax_ToClusterAwareKey X (Cluster export)) (LatestResourceSchemas export)"

definition IndexSyncTargetsByExports :: "api_index \<Rightarrow> sync_target \<Rightarrow> string list" where
  "IndexSyncTargetsByExports X st =
     map (\<lambda>ref. ax_ToClusterAwareKey X (export_path st ref) (er_Export ref)) (SupportedAPIExports (st_Spec st))"

definition api_enqueueSyncTarget :: "api_index \<Rightarrow> sync_target \<Rightarrow> string queue_call list \<times> go_error list" where
  "api_enqueueSyncTarget X st = (case ax_metaKey X (Cluster st) (Name st) of Inl e \<Rightarrow> ([], [e]) | Inr key \<Rightarrow> ([QAdd key], []))"

definition api_updateSyncTarget :: "api_index \<Rightarrow> sync_target \<Rightarrow> sync_target \<Rightarrow> string queue_call list \<times> go_error list" where
  "api_updateSyncTarget X old new =
     (if SyncedResources (st_Status old) \<noteq> SyncedResources (st_Status new) then api_enqueueSyncTarget X new else ([], []))"

definition append_calls :: "('a list \<times> 'b list) list \<Rightarrow> 'a list \<times> 'b list" where
  "append_calls cs = (concat (map fst cs), concat (map snd cs))"

definition api_enqueueAPIExport :: "api_index \<Rightarrow> string \<Rightarrow> string \<Rightarrow> string queue_call list \<times> go_error list" where
  "api_enqueueAPIExport X cluster name =
     (case ax_metaKey X cluster name of
        Inl e \<Rightarrow> ([], [e])
      | Inr key \<Rightarrow> append_calls (map (api_enqueueSyncTarget X) (filter (\<lambda>st. key \<in> set (IndexSyncTargetsByExports X st)) (ax_SyncTargets X))))"

definition api_enqueueAPIResourceSchema :: "api_index \<Rightarrow> string \<Rightarrow> string \<Rightarrow> string queue_call list \<times> go_error list" where
  "api_enqueueAPIResourceSchema X cluster name =
     (case ax_metaKey X cluster name of
        Inl e \<Rightarrow> ([], [e])
      | Inr key \<Rightarrow> append_calls (map (\<lambda>export. api_enqueueAPIExport X (Cluster export) (Name export))
                     (filter (\<lambda>export. key \<in> set (IndexAPIExportsByAPIResourceSchemas X export)) (ax_APIExports X))))"

section \<open>The upsyncer workspace\<close>

definition to_lower :: "string \<Rightarrow> string" where
  "to_lower = map (\<lambda>c. if 65 \<le> (of_char c :: nat) \<and> (of_char c :: nat) \<le> 90 then char_of ((of_char c :: nat) + 32) else c)"

fun contains :: "string \<Rightarrow> string \<Rightarrow> bool" where
  "contains [] sub = (sub = [])"
| "contains (c # s) sub = (has_prefix (c # s) sub \<or> contains s sub)"

definition UpsyncDiffAnnotationPrefix :: string where
  "UpsyncDiffAnnotationPrefix = ''internal.workload.kcp.io/upsyncdiff''"

text \<open>\<open>decodePatch\<close> gives the effect of a JSON patch on an object.\<close>

definition upsyncer_BeforeWrite ::
  "(string \<Rightarrow> go_error + (unstr \<Rightarrow> go_error + unstr)) \<Rightarrow> string option \<Rightarrow> unstr \<Rightarrow> go_error + unstr" where
  "upsyncer_BeforeWrite decodePatch ctxKey view =
     bindE (SyncTargetKeyFrom ctxKey) (\<lambda>syncTargetKey.
       let diffPatch = go_str (Annotations view) (UpsyncDiffAnnotationPrefix @ syncTargetKey); lowerPatch = to_lower diffPatch in
       if diffPatch = [] then Inr view
       else if contains lowerPatch ''/metadata'' \<or> contains lowerPatch ''/apiversion'' \<or> contains lowerPatch ''/kind''
       then Inl (Failure ''metadata, apiversion or kind cannot be modified by a transformation'')
       else bindE (decodePatch diffPatch) (\<lambda>apply_patch.
            bindE (apply_patch view) (\<lambda>new.
            Inr (new\<lparr>Annotations := go_del (UpsyncDiffAnnotationPrefix @ syncTargetKey) (Annotations new)\<rparr>))))"

definition upsyncer_AfterRead :: "unstr \<Rightarrow> go_error + unstr" where
  "upsyncer_AfterRead resource = Inr resource"

text \<open>
  The storage wrapper: \<open>matches\<close> is the test of the label selector; \<open>updated\<close> is the answer of \<open>UpdatedObject\<close>. The
  result is the object handed to the wrapped storage, or the error.
\<close>

definition upsyncer_matches :: "string \<Rightarrow> smap \<Rightarrow> bool" where
  "upsyncer_matches syncTargetKey labels \<longleftrightarrow> go_get labels (state_label syncTargetKey) = Some ResourceStateUpsync"

definition checked_create :: "(smap \<Rightarrow> bool) \<Rightarrow> (unstr \<Rightarrow> go_error + unstr) \<Rightarrow> unstr \<Rightarrow> go_error + unstr" where
  "checked_create matches delegate obj =
     (if \<not> matches (Labels obj) then Inl (Failure ''label selector does not match labels'') else delegate obj)"

definition checked_update :: "(smap \<Rightarrow> bool) \<Rightarrow> (go_error + unstr \<Rightarrow> go_error + unstr) \<Rightarrow> go_error + unstr \<Rightarrow> go_error + unstr" where
  "checked_update matches delegate updated =
     (case updated of
        Inl NotFound \<Rightarrow> delegate updated
      | Inl e \<Rightarrow> Inl e
      | Inr obj \<Rightarrow> if \<not> matches (Labels obj) then Inl (Failure ''label selector does not match labels'') else delegate updated)"

section \<open>Properties\<close>

lemma trim_suffix_append [simp]: "trim_suffix (a @ b) b = a"
  by (simp add: trim_suffix_def)

definition segment :: "string \<Rightarrow> bool" where
  "segment s \<longleftrightarrow> s \<noteq> [] \<and> CHR ''/'' \<notin> set s"

lemma resolve_segments:
  assumes "segment p" "segment name" "segment uid" "segment c"
  shows "resolveRootPath t (tp_rootPathPrefix t @ tp_virtualWorkspaceName t @ ''/'' @ p @ ''/'' @ name @ ''/'' @ uid @ ''/clusters/'' @ c @ ''/'' @ rest)
    = (if \<not> tp_ready t then None
       else case pl_Name (tp_lib t) p of None \<Rightarrow> None
         | Some cluster \<Rightarrow> (case tp_getSyncTarget t cluster name of Inl _ \<Rightarrow> None
           | Inr st \<Rightarrow> if UID st \<noteq> uid then None
               else map_option (\<lambda>rc.
                 (tp_rootPathPrefix t @ tp_virtualWorkspaceName t @ ''/'' @ p @ ''/'' @ name @ ''/'' @ uid @ ''/clusters/'' @ c,
                  \<lparr>rq_cluster = rc, rq_syncTargetKey = ToSyncTargetKey (pl_hash (tp_lib t)) cluster name,
                   rq_apiDomainKey = pl_ToClusterAwareKey (tp_lib t) cluster name\<rparr>)) (parse_cluster (tp_lib t) c)))"
proof -
  define root where "root = tp_rootPathPrefix t @ tp_virtualWorkspaceName t @ ''/''"
  define tail where "tail = p @ ''/'' @ name @ ''/'' @ uid @ ''/clusters/'' @ c @ ''/'' @ rest"
  define path where "path = root @ tail"
  have ns: "CHR ''/'' \<notin> set p" "CHR ''/'' \<notin> set name" "CHR ''/'' \<notin> set uid" "CHR ''/'' \<notin> set c"
    and ne: "p \<noteq> []" "name \<noteq> []" "uid \<noteq> []" using assms by (auto simp: segment_def)
  have "splitN (CHR ''/'') (Suc (Suc (Suc (Suc 0)))) tail = [p, name, uid, ''clusters/'' @ c @ ''/'' @ rest]"
    using splitN_step [OF ns(1)] splitN_step [OF ns(2)] splitN_step [OF ns(3)] by (simp add: tail_def)
  then have parts: "splitN (CHR ''/'') 4 tail = [p, name, uid, ''clusters/'' @ c @ ''/'' @ rest]" by (simp add: eval_nat_numeral)
  have "splitN (CHR ''/'') (Suc (Suc 0)) (c @ ''/'' @ rest) = [c, rest]" using splitN_step [OF ns(4)] by simp
  then have parts2: "splitN (CHR ''/'') 2 (c @ ''/'' @ rest) = [c, rest]" by (simp add: eval_nat_numeral)
  have cl: "has_prefix (''/'' @ ''clusters/'' @ c @ ''/'' @ rest) ''/clusters/''"
    "trim_prefix (''/'' @ ''clusters/'' @ c @ ''/'' @ rest) ''/clusters/'' = c @ ''/'' @ rest"
    by (simp_all add: has_prefix_def trim_prefix_def)
  have root: "has_prefix path root" "trim_prefix path root = tail" by (simp_all add: path_def)
  have suffix: "trim_suffix path (''/'' @ rest) = root @ p @ ''/'' @ name @ ''/'' @ uid @ ''/clusters/'' @ c"
    using trim_suffix_append [of "root @ p @ ''/'' @ name @ ''/'' @ uid @ ''/clusters/'' @ c" "''/'' @ rest"]
    by (simp add: path_def tail_def)
  have "resolveRootPath t path = (if \<not> tp_ready t then None
       else case pl_Name (tp_lib t) p of None \<Rightarrow> None
         | Some cluster \<Rightarrow> (case tp_getSyncTarget t cluster name of Inl _ \<Rightarrow> None
           | Inr st \<Rightarrow> if UID st \<noteq> uid then None
               else map_option (\<lambda>rc. (root @ p @ ''/'' @ name @ ''/'' @ uid @ ''/clusters/'' @ c,
                  \<lparr>rq_cluster = rc, rq_syncTargetKey = ToSyncTargetKey (pl_hash (tp_lib t)) cluster name,
                   rq_apiDomainKey = pl_ToClusterAwareKey (tp_lib t) cluster name\<rparr>)) (parse_cluster (tp_lib t) c)))"
    unfolding resolveRootPath_def Let_def root_def [symmetric] root parts
    using root ne cl parts2 suffix by (auto split: option.splits sum.splits)
  then show ?thesis unfolding path_def root_def tail_def append_assoc .
qed

text \<open>
  What the next property uses of \<open>path.Join\<close> and of \<open>net/url\<close>. Elements that are plain segments are joined with a slash behind the root path
  if nothing or the root comes before it. The URLs of the shards have no path of their own, and printing such a URL with another path and parsing it again gives that path.
\<close>

definition plain_segment :: "string \<Rightarrow> bool" where
  "plain_segment s \<longleftrightarrow> segment s \<and> s \<noteq> ''.'' \<and> s \<noteq> ''..''"

definition joins_segments :: "url_lib \<Rightarrow> bool" where
  "joins_segments U \<longleftrightarrow> (\<forall>base ps. base \<in> {[], ''/''} \<longrightarrow> (\<forall>p \<in> set ps. plain_segment p) \<longrightarrow>
     path_Join_all U (base # DefaultRootPathPrefix U # ps) = DefaultRootPathPrefix U @ concat (map (\<lambda>p. ''/'' @ p) ps))"

definition host_url :: "url_lib \<Rightarrow> string \<Rightarrow> bool" where
  "host_url U s \<longleftrightarrow> (\<forall>u. url_Parse U s = Inr u \<longrightarrow> url_Path u \<in> {[], ''/''}
     \<and> (\<forall>path. has_prefix path ''/'' \<longrightarrow> (\<exists>v. url_Parse U (url_String U (u\<lparr>url_Path := path\<rparr>)) = Inr v \<and> url_Path v = path)))"

lemma published_path:
  assumes "joins_segments U" "host_url U s" "url_Parse U s = Inr u" "has_prefix (DefaultRootPathPrefix U) ''/''"
    and "plain_segment vw" "plain_segment (Cluster st)" "plain_segment (Name st)" "plain_segment (UID st)"
  shows "\<exists>v. url_Parse U (workspace_url U u vw st) = Inr v
    \<and> url_Path v = DefaultRootPathPrefix U @ ''/'' @ vw @ ''/'' @ Cluster st @ ''/'' @ Name st @ ''/'' @ UID st"
proof -
  let ?path = "DefaultRootPathPrefix U @ ''/'' @ vw @ ''/'' @ Cluster st @ ''/'' @ Name st @ ''/'' @ UID st"
  have base: "url_Path u \<in> {[], ''/''}"
    and parse: "\<And>path. has_prefix path ''/'' \<Longrightarrow> \<exists>v. url_Parse U (url_String U (u\<lparr>url_Path := path\<rparr>)) = Inr v \<and> url_Path v = path"
    using assms(2,3) by (auto simp: host_url_def)
  have "\<forall>p \<in> set [vw, Cluster st, Name st, UID st]. plain_segment p" using assms(5-8) by simp
  with assms(1) base have "path_Join_all U (url_Path u # DefaultRootPathPrefix U # [vw, Cluster st, Name st, UID st])
      = DefaultRootPathPrefix U @ concat (map (\<lambda>p. ''/'' @ p) [vw, Cluster st, Name st, UID st])"
    unfolding joins_segments_def by blast
  then have join: "path_Join_all U [url_Path u, DefaultRootPathPrefix U, vw, Cluster st, Name st, UID st] = ?path" by simp
  have "has_prefix ?path ''/''" using assms(4) by (auto simp: has_prefix_iff)
  from parse [OF this] show ?thesis by (simp add: workspace_url_def join)
qed

text \<open>
  C35: The URLs that the SyncTarget controller publishes for the two virtual workspaces lead a syncer to its own sync target.
  Take any URL in the status of a reconciled sync target and the virtual workspace it is for: a request below the path of the URL is accepted, with
  the key that labels the sync target, and the prefix up to the cluster is stripped. If the sync target has been replaced by one with the
  same name, its UID differs and every such request is refused. The URLs of the shards have no path, and cluster, name and UID are plain path segments.
\<close>

theorem published_url_resolves:
  assumes "synctarget_reconcile (pl_hash (tp_lib t)) U st shards = Inr st'" "vw \<in> set (VirtualWorkspaces (st_Status st'))"
    and "(tp_virtualWorkspaceName t, published) \<in> {(SyncerVirtualWorkspaceName, SyncerURL vw), (UpsyncerVirtualWorkspaceName, UpsyncerURL vw)}"
    and "joins_segments U" "\<forall>sh \<in> set shards. host_url U (sh_VirtualWorkspaceURL sh)" "has_prefix (DefaultRootPathPrefix U) ''/''"
    and "tp_ready t" "tp_rootPathPrefix t = DefaultRootPathPrefix U @ ''/''"
    and "plain_segment (Cluster st)" "plain_segment (Name st)" "plain_segment (UID st)" "pl_Name (tp_lib t) (Cluster st) = Some (Cluster st)"
    and "tp_getSyncTarget t (Cluster st) (Name st) = Inr current"
  shows "\<exists>key u. go_get (Labels st') InternalSyncTargetKeyLabel = Some key \<and> url_Parse U published = Inr u
    \<and> resolveRootPath t (url_Path u @ ''/clusters/*/'' @ rest)
      = (if UID current = UID st
         then Some (url_Path u @ ''/clusters/*'',
                \<lparr>rq_cluster = Wildcard, rq_syncTargetKey = key, rq_apiDomainKey = pl_ToClusterAwareKey (tp_lib t) (Cluster st) (Name st)\<rparr>)
         else None)"
proof (rule published_urls [OF assms(1,2)])
  fix sh u0
  assume sh: "sh \<in> set shards" "url_Parse U (sh_VirtualWorkspaceURL sh) = Inr u0"
    and urls: "SyncerURL vw = workspace_url U u0 SyncerVirtualWorkspaceName st" "UpsyncerURL vw = workspace_url U u0 UpsyncerVirtualWorkspaceName st"
    and key: "go_get (Labels st') InternalSyncTargetKeyLabel = Some (ToSyncTargetKey (pl_hash (tp_lib t)) (Cluster st) (Name st))"
  have names: "plain_segment SyncerVirtualWorkspaceName" "plain_segment UpsyncerVirtualWorkspaceName"
    by (simp_all add: plain_segment_def segment_def SyncerVirtualWorkspaceName_def UpsyncerVirtualWorkspaceName_def)
  have "published = workspace_url U u0 (tp_virtualWorkspaceName t) st" "plain_segment (tp_virtualWorkspaceName t)"
    using assms(3) urls names by auto
  with published_path [OF assms(4) _ sh(2) assms(6) _ assms(9-11)] assms(5) sh(1) obtain u where u: "url_Parse U published = Inr u"
    "url_Path u = DefaultRootPathPrefix U @ ''/'' @ tp_virtualWorkspaceName t @ ''/'' @ Cluster st @ ''/'' @ Name st @ ''/'' @ UID st"
    by blast
  have "segment ''*''" "segment (Cluster st)" "segment (Name st)" "segment (UID st)"
    using assms(9-11) by (simp_all add: plain_segment_def segment_def)
  then show ?thesis
    using resolve_segments [of "Cluster st" "Name st" "UID st" "''*''" t rest] assms(7,8,12,13) key u by (simp add: parse_cluster_def)
qed

lemma resolve_accepted:
  assumes "resolveRootPath t urlPath = Some (prefix, rc)"
  shows "\<exists>p cluster name st. pl_Name (tp_lib t) p = Some cluster \<and> tp_getSyncTarget t cluster name = Inr st
    \<and> rq_syncTargetKey rc = ToSyncTargetKey (pl_hash (tp_lib t)) cluster name \<and> rq_apiDomainKey rc = pl_ToClusterAwareKey (tp_lib t) cluster name
    \<and> UID st = splitN (CHR ''/'') 4 (trim_prefix urlPath (tp_rootPathPrefix t @ tp_virtualWorkspaceName t @ ''/'')) ! 2"
proof -
  define parts where "parts = splitN (CHR ''/'') 4 (trim_prefix urlPath (tp_rootPathPrefix t @ tp_virtualWorkspaceName t @ ''/''))"
  obtain cluster where c: "pl_Name (tp_lib t) (parts ! 0) = Some cluster"
    using assms by (auto simp: resolveRootPath_def Let_def parts_def [symmetric] split: if_splits option.splits)
  obtain st where st: "tp_getSyncTarget t cluster (parts ! 1) = Inr st"
    using assms c by (auto simp: resolveRootPath_def Let_def parts_def [symmetric] split: if_splits sum.splits)
  have "UID st = parts ! 2 \<and> rq_syncTargetKey rc = ToSyncTargetKey (pl_hash (tp_lib t)) cluster (parts ! 1)
      \<and> rq_apiDomainKey rc = pl_ToClusterAwareKey (tp_lib t) cluster (parts ! 1)"
    using assms c st by (auto simp: resolveRootPath_def Let_def parts_def [symmetric] split: if_splits option.splits)
  then show ?thesis using c st unfolding parts_def [symmetric] by blast
qed

lemma identities_accepted:
  assumes "map_of (accepted_identities st) gr \<noteq> None"
  shows "\<exists>r \<in> set (SyncedResources (st_Status st)). rs_State r = ResourceSchemaAcceptedState
    \<and> gr = (gr_Group (rs_GroupResource r), gr_Resource (rs_GroupResource r))"
proof -
  define f where "f = (\<lambda>(r :: resource_to_sync) m. if rs_State r = ResourceSchemaAcceptedState
    then AList.update (gr_Group (rs_GroupResource r), gr_Resource (rs_GroupResource r)) (rs_IdentityHash r) m else m)"
  have "map_of (fold f rs m) gr \<noteq> None \<Longrightarrow> map_of m gr \<noteq> None \<or> (\<exists>r \<in> set rs. rs_State r = ResourceSchemaAcceptedState
        \<and> gr = (gr_Group (rs_GroupResource r), gr_Resource (rs_GroupResource r)))" for rs m
  proof (induction rs arbitrary: m)
    case (Cons r rs)
    have "map_of (f r m) gr \<noteq> None \<Longrightarrow> map_of m gr \<noteq> None \<or> rs_State r = ResourceSchemaAcceptedState
        \<and> gr = (gr_Group (rs_GroupResource r), gr_Resource (rs_GroupResource r))"
      by (auto simp: f_def update_conv' split: if_splits)
    then show ?case using Cons.IH [of "f r m"] Cons.prems by auto
  qed simp
  from this [of "SyncedResources (st_Status st)" "[]"] assms show ?thesis by (simp add: accepted_identities_def f_def)
qed

text \<open>Where a schema can come from: an accepted resource of a supported export.\<close>

definition accepted_source :: "'d api_env \<Rightarrow> sync_target \<Rightarrow> (string \<times> string) \<times> vw_schema \<Rightarrow> bool" where
  "accepted_source E st e \<longleftrightarrow> (case e of (gr, sch) \<Rightarrow> gr = schema_gr sch
     \<and> (\<exists>r \<in> set (SyncedResources (st_Status st)). rs_State r = ResourceSchemaAcceptedState
          \<and> gr = (gr_Group (rs_GroupResource r), gr_Resource (rs_GroupResource r)))
     \<and> (\<exists>ref \<in> set (SupportedAPIExports (st_Spec st)). \<exists>export name. av_getAPIExport E (export_path st ref) (er_Export ref) = Inr export
          \<and> name \<in> set (LatestResourceSchemas export) \<and> av_getResourceSchema E (Cluster export) name = Inr sch))"

lemma set_update_subset: "set (AList.update k v l) \<subseteq> insert (k, v) (set l)"
  by (induction l) auto

lemma accept_schema_source:
  assumes "e \<in> set (fst (accept_schema E (accepted_identities st) (Cluster export) name acc))" "e \<notin> set (fst acc)"
    and "ref \<in> set (SupportedAPIExports (st_Spec st))" "av_getAPIExport E (export_path st ref) (er_Export ref) = Inr export"
    and "name \<in> set (LatestResourceSchemas export)"
  shows "accepted_source E st e"
proof (cases "av_getResourceSchema E (Cluster export) name")
  case (Inl err)
  then show ?thesis using assms(1,2) by (cases err) (simp_all add: accept_schema_def)
next
  case (Inr sch)
  then have id: "map_of (accepted_identities st) (schema_gr sch) \<noteq> None" and e: "e = (schema_gr sch, sch)"
    using assms(1,2) set_update_subset [of "schema_gr sch" sch "fst acc"] by (auto simp: accept_schema_def split: if_splits)
  show ?thesis using identities_accepted [OF id] assms(3-5) Inr by (auto simp: accepted_source_def e)
qed

lemma fold_source:
  assumes "\<And>x acc e. x \<in> set xs \<Longrightarrow> e \<in> set (fst (f x acc)) \<Longrightarrow> e \<in> set (fst acc) \<or> P e"
    and "e \<in> set (fst (fold f xs acc))"
  shows "e \<in> set (fst acc) \<or> P e"
  using assms
proof (induction xs arbitrary: acc)
  case (Cons x xs)
  have "e \<in> set (fst (f x acc)) \<or> P e"
    by (rule Cons.IH) (use Cons.prems in auto)
  then show ?case using Cons.prems(1) [of x e acc] by auto
qed simp

lemma accepted_schemas_source:
  assumes "getAllAcceptedResourceSchemas E st = (schemas, identities, errs)" "e \<in> set schemas"
  shows "accepted_source E st e"
proof -
  have step: "e \<in> set (fst acc) \<or> accepted_source E st e"
    if "ref \<in> set (SupportedAPIExports (st_Spec st))" "e \<in> set (fst (accept_export E st (accepted_identities st) ref acc))" for ref acc e
  proof (cases "av_getAPIExport E (export_path st ref) (er_Export ref)")
    case (Inr export)
    have "e' \<in> set (fst a) \<or> accepted_source E st e'" if "name \<in> set (LatestResourceSchemas export)"
      "e' \<in> set (fst (accept_schema E (accepted_identities st) (Cluster export) name a))" for name a e'
      using accept_schema_source [OF that(2) _ \<open>ref \<in> _\<close> Inr that(1)] by blast
    from fold_source [OF this] show ?thesis using that(2) Inr by (simp add: accept_export_def)
  qed (use that in \<open>simp add: accept_export_def\<close>)
  have "e \<in> set (fst (fold (accept_export E st (accepted_identities st)) (SupportedAPIExports (st_Spec st)) ([], [])))"
    using assms by (auto simp: getAllAcceptedResourceSchemas_def Let_def split: prod.splits)
  from fold_source [OF step this] show ?thesis by simp
qed

text \<open>What a served definition stands for.\<close>

definition serves :: "'d api_env \<Rightarrow> schemas \<Rightarrow> gvr \<Rightarrow> 'd api_definition \<Rightarrow> bool" where
  "serves E schemas r d \<longleftrightarrow> (\<exists>gr sch. (gr, sch) \<in> set schemas \<and> (case av_allowed E of None \<Rightarrow> True | Some allowed \<Rightarrow> allowed gr)
     \<and> gvr_Group r = fst gr \<and> gvr_Resource r = snd gr \<and> (gvr_Version r, True) \<in> set (vs_Versions sch) \<and> ad_UID d = vs_UID sch)"

lemma define_version_serves:
  assumes "map_of (define_version E old st hash gr sch v newSet) r = Some d" "v \<in> set (vs_Versions sch)"
  shows "map_of newSet r = Some d \<or> (gvr_Group r = fst gr \<and> gvr_Resource r = snd gr
    \<and> (gvr_Version r, True) \<in> set (vs_Versions sch) \<and> ad_UID d = vs_UID sch)"
  using assms by (cases v) (auto simp: define_version_def Let_def update_conv' split: if_splits option.splits sum.splits)

lemma define_resource_serves:
  assumes "map_of (define_resource E old st identities e newSet) r = Some d" "e \<in> set schemas"
  shows "map_of newSet r = Some d \<or> serves E schemas r d"
proof -
  obtain gr sch where e: "e = (gr, sch)" by (cases e) auto
  have "map_of (fold (define_version E old st hash gr sch) vs s) r = Some d \<Longrightarrow> set vs \<subseteq> set (vs_Versions sch)
      \<Longrightarrow> map_of s r = Some d \<or> (gvr_Group r = fst gr \<and> gvr_Resource r = snd gr
        \<and> (gvr_Version r, True) \<in> set (vs_Versions sch) \<and> ad_UID d = vs_UID sch)" for hash vs s
  proof (induction vs arbitrary: s)
    case (Cons v vs)
    then show ?case using define_version_serves [of E old st hash gr sch v s r d] by auto
  qed simp
  note loop = this [of "identity_of identities gr" "vs_Versions sch" newSet, OF _ subset_refl]
  show ?thesis
  proof (cases "case av_allowed E of None \<Rightarrow> False | Some allowed \<Rightarrow> \<not> allowed gr")
    case False
    then have "map_of newSet r = Some d \<or> (gvr_Group r = fst gr \<and> gvr_Resource r = snd gr
        \<and> (gvr_Version r, True) \<in> set (vs_Versions sch) \<and> ad_UID d = vs_UID sch)"
      using assms(1) loop by (simp add: define_resource_def e)
    moreover have "case av_allowed E of None \<Rightarrow> True | Some allowed \<Rightarrow> allowed gr" using False by (simp split: option.splits)
    ultimately show ?thesis using assms(2) unfolding serves_def e by blast
  qed (use assms(1) in \<open>simp add: define_resource_def e\<close>)
qed

lemma new_set_serves:
  assumes "map_of (fold (define_resource E old st identities) es newSet) r = Some d" "set es \<subseteq> set schemas"
  shows "map_of newSet r = Some d \<or> serves E schemas r d"
  using assms
proof (induction es arbitrary: newSet)
  case (Cons e es)
  then have "map_of (define_resource E old st identities e newSet) r = Some d \<or> serves E schemas r d" by simp
  then show ?case using define_resource_serves [of E old st identities e newSet r d schemas] Cons.prems(2) by auto
qed simp

lemma builtin_schemas:
  "e \<in> set (fold (\<lambda>sch. AList.update (schema_gr sch) (sch\<lparr>vs_Cluster := c\<rparr>)) bs schemas)
    \<Longrightarrow> e \<in> set schemas \<or> (\<exists>sch \<in> set bs. e = (schema_gr sch, sch\<lparr>vs_Cluster := c\<rparr>))"
proof (induction bs arbitrary: schemas)
  case (Cons b bs)
  then show ?case using set_update_subset [of "schema_gr b" "b\<lparr>vs_Cluster := c\<rparr>" schemas] by fastforce
qed simp

text \<open>
  C34: Every API that a virtual workspace serves for a sync target passes the filter of the workspace, is a served version
  of a schema with the UID of the definition, and the schema is built in or that of a resource which the sync target has
  accepted and a supported export offers. The definitions that the pass tears down are exactly the old ones that
  are not served any more; all others are kept.
\<close>

theorem served_apis_accepted:
  assumes "api_reconcile E oldSet st = Inr (newSet, torn)"
  shows "(\<forall>r d. map_of newSet r = Some d \<longrightarrow> (\<exists>sch.
        (case av_allowed E of None \<Rightarrow> True | Some allowed \<Rightarrow> allowed (gvr_Group r, gvr_Resource r))
        \<and> (gvr_Group r, gvr_Resource r) = schema_gr sch \<and> (gvr_Version r, True) \<in> set (vs_Versions sch) \<and> ad_UID d = vs_UID sch
        \<and> ((\<exists>b \<in> set (av_SyncerSchemas E). sch = b\<lparr>vs_Cluster := Cluster st\<rparr>) \<or> accepted_source E st (schema_gr sch, sch))))
    \<and> (\<forall>r old. (r, old) \<in> set oldSet \<longrightarrow> map_of newSet r = Some old \<or> old \<in> set torn)
    \<and> (\<forall>old \<in> set torn. \<exists>r. (r, old) \<in> set oldSet \<and> map_of newSet r \<noteq> Some old)"
proof -
  obtain schemas identities where get: "getAllAcceptedResourceSchemas E st = (schemas, identities, [])"
    and new: "newSet = fold (define_resource E oldSet st identities) (fold (\<lambda>sch. AList.update (schema_gr sch) (sch\<lparr>vs_Cluster := Cluster st\<rparr>)) (av_SyncerSchemas E) schemas) []"
    and torn: "torn = map snd (filter (\<lambda>(r, oldDef). map_of newSet r \<noteq> Some oldDef) oldSet)"
    using assms by (auto simp: api_reconcile_def Let_def split: prod.splits if_splits)
  let ?all = "fold (\<lambda>sch. AList.update (schema_gr sch) (sch\<lparr>vs_Cluster := Cluster st\<rparr>)) (av_SyncerSchemas E) schemas"
  have "\<exists>sch. (case av_allowed E of None \<Rightarrow> True | Some allowed \<Rightarrow> allowed (gvr_Group r, gvr_Resource r))
        \<and> (gvr_Group r, gvr_Resource r) = schema_gr sch \<and> (gvr_Version r, True) \<in> set (vs_Versions sch) \<and> ad_UID d = vs_UID sch
        \<and> ((\<exists>b \<in> set (av_SyncerSchemas E). sch = b\<lparr>vs_Cluster := Cluster st\<rparr>) \<or> accepted_source E st (schema_gr sch, sch))" if "map_of newSet r = Some d" for r d
  proof -
    have "serves E ?all r d" using new_set_serves [of E oldSet st identities ?all "[]" r d ?all] that new by simp
    then obtain gr sch where s: "(gr, sch) \<in> set ?all" "case av_allowed E of None \<Rightarrow> True | Some allowed \<Rightarrow> allowed gr"
      "gr = (gvr_Group r, gvr_Resource r)" "(gvr_Version r, True) \<in> set (vs_Versions sch)" "ad_UID d = vs_UID sch"
      unfolding serves_def by force
    have "(gr, sch) \<in> set schemas \<or> (\<exists>sch' \<in> set (av_SyncerSchemas E). (gr, sch) = (schema_gr sch', sch'\<lparr>vs_Cluster := Cluster st\<rparr>))"
      using builtin_schemas s(1) by blast
    then have "gr = schema_gr sch \<and> ((\<exists>b \<in> set (av_SyncerSchemas E). sch = b\<lparr>vs_Cluster := Cluster st\<rparr>) \<or> accepted_source E st (schema_gr sch, sch))"
      using accepted_schemas_source [OF get, of "(gr, sch)"] by (auto simp: accepted_source_def)
    then show ?thesis using s(2,4,5) unfolding s(3) by blast
  qed
  moreover have "map_of newSet r = Some old \<or> old \<in> set torn" if "(r, old) \<in> set oldSet" for r old
    using that by (force simp: torn)
  moreover have "\<exists>r. (r, old) \<in> set oldSet \<and> map_of newSet r \<noteq> Some old" if "old \<in> set torn" for old
    using that by (auto simp: torn)
  ultimately show ?thesis by blast
qed

text \<open>
  The definitions of a deleted sync target are not torn down: the set is dropped from the table, and nothing of it
  is torn down in that step, although the table was the only reference to them.
\<close>

theorem deleted_target_apis_leak:
  assumes "av_splitKey E key = Inr (cluster, name)" "av_getSyncTarget E cluster name = Inl NotFound"
  shows "api_process E key apiSets = (removeAPIDefinitionSet key apiSets, [], [])
    \<and> GetAPIDefinitionSet key (fst (api_process E key apiSets)) = None
    \<and> (\<forall>k. k \<noteq> key \<longrightarrow> GetAPIDefinitionSet k (fst (api_process E key apiSets)) = GetAPIDefinitionSet k apiSets)"
  using assms by (simp add: api_process_def removeAPIDefinitionSet_def GetAPIDefinitionSet_def delete_conv')

text \<open>
  The event of an APIExport queues exactly the sync targets that refer to it by the name of its logical cluster
  or, with an empty path, live in that cluster. A sync target that refers to it by a workspace path is never queued.
\<close>

theorem export_event_targets:
  assumes "\<And>c n. ax_metaKey X c n = Inr (ax_ToClusterAwareKey X c n)"
    and "\<And>c n c' n'. ax_ToClusterAwareKey X c n = ax_ToClusterAwareKey X c' n' \<Longrightarrow> c = c' \<and> n = n'"
  shows "set (fst (api_enqueueAPIExport X cluster name)) = {QAdd (ax_ToClusterAwareKey X (Cluster st) (Name st)) | st.
      st \<in> set (ax_SyncTargets X) \<and> (\<exists>ref \<in> set (SupportedAPIExports (st_Spec st)).
        er_Export ref = name \<and> export_path st ref = cluster)}
    \<and> snd (api_enqueueAPIExport X cluster name) = []"
proof -
  have inj: "ax_ToClusterAwareKey X c n = ax_ToClusterAwareKey X c' n' \<longleftrightarrow> c = c' \<and> n = n'" for c n c' n'
    using assms(2) by blast
  have idx: "ax_ToClusterAwareKey X cluster name \<in> set (IndexSyncTargetsByExports X st) \<longleftrightarrow> (\<exists>ref \<in> set (SupportedAPIExports (st_Spec st)).
        er_Export ref = name \<and> export_path st ref = cluster)" for st
    by (auto simp: IndexSyncTargetsByExports_def inj)
  show ?thesis
    by (auto simp: api_enqueueAPIExport_def assms(1) append_calls_def api_enqueueSyncTarget_def idx)
qed

section \<open>Examples\<close>

definition ex_vw_schema :: vw_schema where
  "ex_vw_schema = \<lparr>vs_Cluster = ''root'', vs_UID = ''s1'', vs_Group = ''apps'', vs_Plural = ''deployments'', vs_Versions = [(''v1'', True), (''v0'', False)]\<rparr>"

definition ex_api_env :: "nat api_env" where
  "ex_api_env =
     \<lparr>av_getAPIExport = (\<lambda>_ _. Inr ex_export), av_getResourceSchema = (\<lambda>_ _. Inr ex_vw_schema), av_SyncerSchemas = [],
      av_createAPIDefinition = (\<lambda>_ _ _ _ _. Inr 1), av_allowed = Some syncer_allowed,
      av_splitKey = (\<lambda>key. Inr (''user'', key)), av_getSyncTarget = (\<lambda>_ _. Inl NotFound)\<rparr>"

definition ex_accepting_target :: sync_target where
  "ex_accepting_target = ex_exporting_target [\<lparr>rs_GroupResource = \<lparr>gr_Group = ''apps'', gr_Resource = ''deployments''\<rparr>, rs_Versions = [''v1''],
     rs_IdentityHash = ''h'', rs_State = ResourceSchemaAcceptedState\<rparr>]"

lemmas api_eval = ex_vw_schema_def ex_api_env_def ex_accepting_target_def exports_eval

definition ex_vw_url :: url_lib where
  "ex_vw_url = ex_url_lib\<lparr>DefaultRootPathPrefix := ''/services'',
     url_Parse := (\<lambda>s. Inr \<lparr>url_Path = dropWhile (\<lambda>c. c \<noteq> CHR ''/'') (drop 8 s), url_rest = take 8 s @ takeWhile (\<lambda>c. c \<noteq> CHR ''/'') (drop 8 s)\<rparr>),
     path_Join_all := (\<lambda>ps. concat (map (\<lambda>p. ''/'' @ p) (filter (\<lambda>p. p \<noteq> []) (map (dropWhile (\<lambda>c. c = CHR ''/'')) ps))))\<rparr>"

definition ex_path_lib :: path_lib where
  "ex_path_lib = \<lparr>pl_Name = (\<lambda>p. if p = [] then None else Some p), pl_ToClusterAwareKey = (\<lambda>c n. c @ ''|'' @ n), pl_hash = basic_hash\<rparr>"

definition ex_uid_target :: sync_target where
  "ex_uid_target = ex_target\<lparr>UID := ''u1''\<rparr>"

definition ex_template :: template where
  "ex_template = \<lparr>tp_ready = True, tp_rootPathPrefix = ''/services/'', tp_virtualWorkspaceName = ''syncer'', tp_lib = ex_path_lib,
     tp_getSyncTarget = (\<lambda>_ _. Inr ex_uid_target)\<rparr>"

definition ex_vw_shards :: "shard list" where
  "ex_vw_shards = [\<lparr>sh_Name = ''root'', sh_VirtualWorkspaceURL = ''https://r'', sh_BaseURL = ''https://r''\<rparr>]"

lemma ex_joins: "joins_segments ex_vw_url"
proof -
  have one: "dropWhile (\<lambda>c. c = CHR ''/'') p = p \<and> p \<noteq> []" if "plain_segment p" for p
    using that by (cases p) (auto simp: plain_segment_def segment_def)
  have "path_Join_all ex_vw_url ps = concat (map (\<lambda>p. ''/'' @ p) ps)" if "\<forall>p \<in> set ps. plain_segment p" for ps
    using that by (induction ps) (simp_all add: ex_vw_url_def one)
  moreover have "path_Join_all ex_vw_url (base # ''/services'' # ps) = ''/services'' @ path_Join_all ex_vw_url ps" if "base \<in> {[], ''/''}" for base ps
    using that by (auto simp: ex_vw_url_def)
  ultimately show ?thesis by (auto simp: joins_segments_def ex_vw_url_def ex_url_lib_def)
qed

lemma ex_vw_parse: "url_Parse ex_vw_url (''https://r'' @ path) = Inr \<lparr>url_Path = path, url_rest = ''https://r''\<rparr>" if "path = [] \<or> has_prefix path ''/''"
  using that by (auto simp: ex_vw_url_def has_prefix_iff)

lemma ex_host: "host_url ex_vw_url ''https://r''"
proof -
  have "url_Parse ex_vw_url ''https://r'' = Inr \<lparr>url_Path = [], url_rest = ''https://r''\<rparr>" using ex_vw_parse [of "[]"] by simp
  moreover have "url_String ex_vw_url u = url_rest u @ url_Path u" for u by (simp add: ex_vw_url_def ex_url_lib_def)
  ultimately show ?thesis using ex_vw_parse by (auto simp: host_url_def)
qed

definition ex_vw_published :: virtual_workspace where
  "ex_vw_published = \<lparr>SyncerURL = ''https://r/services/syncer/compute/east/u1'', UpsyncerURL = ''https://r/services/upsyncer/compute/east/u1''\<rparr>"

lemma ex_vw_reconciled:
  "\<exists>st'. synctarget_reconcile basic_hash ex_vw_url ex_uid_target ex_vw_shards = Inr st' \<and> VirtualWorkspaces (st_Status st') = [ex_vw_published]"
  by (simp add: synctarget_reconcile_def Let_def ex_vw_shards_def shard_step_def no_urls_def ordered_values_def workspace_url_def ex_vw_url_def
      ex_url_lib_def ex_uid_target_def ex_object_defs SyncerVirtualWorkspaceName_def UpsyncerVirtualWorkspaceName_def go_put_def ex_vw_published_def)

theorem published_url_resolves_witness:
  "resolveRootPath ex_template ''/services/syncer/compute/east/u1/clusters/*/api/v1/pods''
   = Some (''/services/syncer/compute/east/u1/clusters/*'',
       \<lparr>rq_cluster = Wildcard, rq_syncTargetKey = ToSyncTargetKey basic_hash ''compute'' ''east'', rq_apiDomainKey = ''compute|east''\<rparr>)
   \<and> resolveRootPath (ex_template\<lparr>tp_getSyncTarget := (\<lambda>_ _. Inr ex_target)\<rparr>) ''/services/syncer/compute/east/u1/clusters/*/api/v1/pods'' = None"
proof -
  from ex_vw_reconciled obtain st' where st': "synctarget_reconcile basic_hash ex_vw_url ex_uid_target ex_vw_shards = Inr st'"
    "VirtualWorkspaces (st_Status st') = [ex_vw_published]" by blast
  have key: "go_get (Labels st') InternalSyncTargetKeyLabel = Some (ToSyncTargetKey basic_hash ''compute'' ''east'')"
    using published_urls [OF st'(1), of ex_vw_published] st'(2) by (force simp: ex_uid_target_def ex_object_defs)
  have parse: "url_Parse ex_vw_url (SyncerURL ex_vw_published) = Inr \<lparr>url_Path = ''/services/syncer/compute/east/u1'', url_rest = ''https://r''\<rparr>"
    using ex_vw_parse [of "''/services/syncer/compute/east/u1''"] by (simp add: ex_vw_published_def has_prefix_def)
  have st: "Cluster ex_uid_target = ''compute''" "Name ex_uid_target = ''east''" "UID ex_uid_target = ''u1''" "UID ex_target \<noteq> ''u1''"
    by (simp_all add: ex_uid_target_def ex_object_defs)
  note R = published_url_resolves [where U = ex_vw_url and st = ex_uid_target and shards = ex_vw_shards and st' = st' and vw = ex_vw_published
      and published = "SyncerURL ex_vw_published" and rest = "''api/v1/pods''"]
  have common: "joins_segments ex_vw_url" "\<forall>sh \<in> set ex_vw_shards. host_url ex_vw_url (sh_VirtualWorkspaceURL sh)"
    "DefaultRootPathPrefix ex_vw_url = ''/services''" "plain_segment ''compute''" "plain_segment ''east''" "plain_segment ''u1''"
    using ex_joins ex_host by (simp_all add: ex_vw_shards_def ex_vw_url_def plain_segment_def segment_def)
  show ?thesis
    using R [of ex_template ex_uid_target] R [of "ex_template\<lparr>tp_getSyncTarget := (\<lambda>_ _. Inr ex_target)\<rparr>" ex_target]
    by (simp add: st st' key parse common ex_template_def ex_path_lib_def SyncerVirtualWorkspaceName_def has_prefix_def)
qed

theorem served_apis_accepted_witness:
  "\<exists>newSet. api_reconcile ex_api_env [] ex_accepting_target = Inr (newSet, [])
    \<and> map_of newSet \<lparr>gvr_Group = ''apps'', gvr_Version = ''v1'', gvr_Resource = ''deployments''\<rparr> \<noteq> None
    \<and> (\<exists>sch. accepted_source ex_api_env ex_accepting_target (schema_gr sch, sch) \<and> (''v1'', True) \<in> set (vs_Versions sch))"
proof -
  obtain newSet where r: "api_reconcile ex_api_env [] ex_accepting_target = Inr (newSet, [])"
    and m: "map_of newSet \<lparr>gvr_Group = ''apps'', gvr_Version = ''v1'', gvr_Resource = ''deployments''\<rparr>
      = Some \<lparr>ad_def = 1, ad_UID = ''s1'', ad_IdentityHash = ''h''\<rparr>"
    by (simp add: api_reconcile_def getAllAcceptedResourceSchemas_def accept_export_def accept_schema_def accepted_identities_def
        define_resource_def define_version_def identity_of_def syncer_allowed_def api_eval)
  from conjunct1 [OF served_apis_accepted [OF r], rule_format, OF m] obtain sch where "(''v1'', True) \<in> set (vs_Versions sch)"
    "(\<exists>b \<in> set (av_SyncerSchemas ex_api_env). sch = b\<lparr>vs_Cluster := Cluster ex_accepting_target\<rparr>)
      \<or> accepted_source ex_api_env ex_accepting_target (schema_gr sch, sch)" by auto
  moreover have "av_SyncerSchemas ex_api_env = []" by (simp add: ex_api_env_def)
  ultimately show ?thesis using r m by auto
qed

theorem deleted_target_apis_leak_witness:
  "fst (api_process ex_api_env ''east'' [(''east'', [(\<lparr>gvr_Group = ''apps'', gvr_Version = ''v1'', gvr_Resource = ''deployments''\<rparr>,
      \<lparr>ad_def = 1, ad_UID = ''s1'', ad_IdentityHash = ''h''\<rparr>)])]) = []
   \<and> fst (snd (api_process ex_api_env ''east'' [(''east'', [(\<lparr>gvr_Group = ''apps'', gvr_Version = ''v1'', gvr_Resource = ''deployments''\<rparr>,
      \<lparr>ad_def = 1, ad_UID = ''s1'', ad_IdentityHash = ''h''\<rparr>)])])) = []"
  using deleted_target_apis_leak [of ex_api_env "''east''" "''user''" "''east''" "[(''east'', [(\<lparr>gvr_Group = ''apps'', gvr_Version = ''v1'',
    gvr_Resource = ''deployments''\<rparr>, \<lparr>ad_def = 1, ad_UID = ''s1'', ad_IdentityHash = ''h''\<rparr>)])]"]
  by (simp add: ex_api_env_def removeAPIDefinitionSet_def)

text \<open>An injective key of a cluster and a name: the length of the cluster comes first, in unary.\<close>

definition ax_key :: "string \<Rightarrow> string \<Rightarrow> string" where
  "ax_key c n = replicate (length c) (CHR ''1'') @ ''|'' @ c @ n"

lemma ax_key_inj: "ax_key c n = ax_key c' n' \<longleftrightarrow> c = c' \<and> n = n'"
proof
  assume eq: "ax_key c n = ax_key c' n'"
  have "takeWhile (\<lambda>x. x = CHR ''1'') (ax_key c n) = replicate (length c) (CHR ''1'')" for c n
    by (simp add: ax_key_def takeWhile_append)
  then have len: "length c = length c'" using eq by (metis length_replicate)
  then show "c = c' \<and> n = n'" using eq by (simp add: ax_key_def)
qed simp

definition ex_api_index :: api_index where
  "ex_api_index = \<lparr>ax_metaKey = (\<lambda>c n. Inr (ax_key c n)), ax_ToClusterAwareKey = ax_key,
     ax_SyncTargets = [ex_exporting_target []], ax_APIExports = [ex_export]\<rparr>"

theorem export_event_targets_witness:
  "set (fst (api_enqueueAPIExport ex_api_index ''root'' ''kubernetes'')) = {QAdd (ax_key ''compute'' ''east'')}
   \<and> set (fst (api_enqueueAPIExport ex_api_index ''1gfxj'' ''kubernetes'')) = {}"
proof -
  have *: "set (fst (api_enqueueAPIExport ex_api_index cluster ''kubernetes'')) = {QAdd (ax_key (Cluster st) (Name st)) | st.
      st \<in> {ex_exporting_target []} \<and> (\<exists>ref \<in> set (SupportedAPIExports (st_Spec st)). er_Export ref = ''kubernetes'' \<and> export_path st ref = cluster)}" for cluster
    using export_event_targets [of ex_api_index cluster "''kubernetes''"] by (simp add: ex_api_index_def ax_key_inj)
  show ?thesis unfolding * by (auto simp: exports_eval)
qed

end
