(* ===== verification/Mutators.thy ===== *)
theory Mutators
  imports Spec_Events Syncer_View
begin

text \<open>
  \<^verbatim>\<open>src/pkg/syncer/spec/mutators\<close>: the spec syncer rewrites an object before it is applied downstream. The pod templates of
  Deployments, StatefulSets and ReplicaSets are turned to the kcp workspace: its API server, the token of the service
  account, its name server. The tokens themselves become opaque secrets.

  Parameters: the conversion between JSON and the typed pod template, URL parsing, listers, and the sorting of
  \<open>sort.Slice\<close>, which is not stable.
\<close>

section \<open>Pod templates\<close>

record env_source =
  es_FieldRef :: "string option"           \<comment> \<open>the \<open>FieldPath\<close>\<close>
  es_Rest :: string

record env_var =
  ev_Name :: string
  ev_Value :: string
  ev_ValueFrom :: "env_source option"

record volume_mount =
  vm_Name :: string
  vm_MountPath :: string
  vm_ReadOnly :: bool
  vm_Rest :: string

record container =
  ct_Name :: string
  ct_Env :: "env_var list"
  ct_VolumeMounts :: "volume_mount list"
  ct_Rest :: string

datatype projection = SecretProjection string "(string \<times> string) list" | ConfigMapProjection string "(string \<times> string) list"

datatype volume_source = Projected int "projection list" | OtherSource string

record volume =
  vo_Name :: string
  vo_Source :: volume_source

record dns_config =
  dg_Nameservers :: "string list"
  dg_Searches :: "string list"
  dg_Options :: "(string \<times> string) list"

record pod_template =
  pt_Labels :: smap
  pt_Containers :: "container list"
  pt_InitContainers :: "container list"
  pt_EphemeralContainers :: "container list"
  pt_Volumes :: "volume list"
  pt_ServiceAccountName :: string
  pt_AutomountServiceAccountToken :: "bool option"
  pt_DNSPolicy :: string
  pt_DNSConfig :: "dns_config option"
  pt_Rest :: string

section \<open>Environment variables and mounts\<close>

fun find_index :: "('a \<Rightarrow> string) \<Rightarrow> 'a list \<Rightarrow> string \<Rightarrow> nat \<Rightarrow> bool \<times> nat" where
  "find_index name_of [] name i = (False, 0)"
| "find_index name_of (x # xs) name i = (if name_of x = name then (True, i) else find_index name_of xs name (Suc i))"

definition findEnv :: "env_var list \<Rightarrow> string \<Rightarrow> bool \<times> nat" where
  "findEnv envs name = find_index ev_Name envs name 0"

definition updateEnv :: "env_var list \<Rightarrow> env_var \<Rightarrow> env_var list" where
  "updateEnv envs overrideEnv =
     (case findEnv envs (ev_Name overrideEnv) of (found, i) \<Rightarrow>
        if found then envs[i := (envs ! i)\<lparr>ev_Value := ev_Value overrideEnv\<rparr>] else envs @ [overrideEnv])"

definition findVolumeMount :: "volume_mount list \<Rightarrow> string \<Rightarrow> bool \<times> nat" where
  "findVolumeMount volumeMounts name = find_index vm_Name volumeMounts name 0"

definition updateVolumeMount :: "volume_mount list \<Rightarrow> volume_mount \<Rightarrow> volume_mount list" where
  "updateVolumeMount volumeMounts overrideVolumeMount =
     (case findVolumeMount volumeMounts (vm_Name overrideVolumeMount) of (found, i) \<Rightarrow>
        if found then volumeMounts[i := overrideVolumeMount] else volumeMounts @ [overrideVolumeMount])"

definition namespace_ref :: "env_var \<Rightarrow> bool" where
  "namespace_ref env \<longleftrightarrow> (case ev_ValueFrom env of None \<Rightarrow> False | Some src \<Rightarrow> es_FieldRef src = Some ''metadata.namespace'')"

definition resolveDownwardAPIFieldRefEnv :: "env_var list \<Rightarrow> string \<Rightarrow> env_var list" where
  "resolveDownwardAPIFieldRefEnv envs namespace =
     map (\<lambda>env. if namespace_ref env then \<lparr>ev_Name = ev_Name env, ev_Value = namespace, ev_ValueFrom = None\<rparr> else env) envs"

definition plain_env :: "string \<Rightarrow> string \<Rightarrow> env_var" where
  "plain_env name val = \<lparr>ev_Name = name, ev_Value = val, ev_ValueFrom = None\<rparr>"

definition overrideEnvs :: "string \<Rightarrow> string \<Rightarrow> env_var list" where
  "overrideEnvs kcpExternalHost kcpExternalPort =
     [plain_env ''KUBERNETES_SERVICE_PORT'' kcpExternalPort, plain_env ''KUBERNETES_SERVICE_PORT_HTTPS'' kcpExternalPort,
      plain_env ''KUBERNETES_SERVICE_HOST'' kcpExternalHost]"

definition serviceAccountMount :: volume_mount where
  "serviceAccountMount = \<lparr>vm_Name = ''kcp-api-access'', vm_MountPath = ''/var/run/secrets/kubernetes.io/serviceaccount'',
     vm_ReadOnly = True, vm_Rest = []\<rparr>"

definition serviceAccountVolume :: "string \<Rightarrow> volume" where
  "serviceAccountVolume desiredSecretName = \<lparr>vo_Name = ''kcp-api-access'', vo_Source = Projected 420
     [SecretProjection desiredSecretName [(''token'', ''token''), (''namespace'', ''namespace'')],
      ConfigMapProjection ''kcp-root-ca.crt'' [(''ca.crt'', ''ca.crt'')]]\<rparr>"

definition mutate_container :: "env_var list \<Rightarrow> string \<Rightarrow> container \<Rightarrow> container" where
  "mutate_container overrides namespace c =
     c\<lparr>ct_Env := resolveDownwardAPIFieldRefEnv (fold (\<lambda>o' envs. updateEnv envs o') overrides (ct_Env c)) namespace,
       ct_VolumeMounts := updateVolumeMount (ct_VolumeMounts c) serviceAccountMount\<rparr>"

definition update_volumes :: "volume \<Rightarrow> volume list \<Rightarrow> volume list" where
  "update_volumes new volumes =
     (if \<exists>v \<in> set volumes. vo_Name v = ''kcp-api-access''
      then map (\<lambda>v. if vo_Name v = ''kcp-api-access'' then new else v) volumes else volumes @ [new])"

section \<open>The pod template mutator\<close>

text \<open>A listed secret comes with its creation timestamp.\<close>

type_synonym dated = "time \<times> unstr"

record mutator_env =
  me_NestedMap :: "unstr \<Rightarrow> string list \<Rightarrow> go_error + string option"
  me_SetNestedMap :: "unstr \<Rightarrow> string \<Rightarrow> string list \<Rightarrow> go_error + unstr"
  me_FromUnstructured :: "string \<Rightarrow> go_error + pod_template"
  me_ToUnstructured :: "pod_template \<Rightarrow> go_error + string"
  me_ddsif :: "string \<Rightarrow> go_error + (string \<Rightarrow> string \<Rightarrow> go_error + dated list) informer_factory"
  me_Slice :: "(dated \<Rightarrow> dated \<Rightarrow> bool) \<Rightarrow> dated list \<Rightarrow> dated list"
  me_Parse :: "string \<Rightarrow> go_error + (string \<times> string)"           \<comment> \<open>\<open>url.Parse\<close>: host name and port\<close>
  me_serviceIP :: "string \<Rightarrow> string \<Rightarrow> go_error + string"          \<comment> \<open>lister: namespace, name to \<open>Spec.ClusterIP\<close>\<close>
  me_json :: json_lib
  me_hash :: hash_lib
  me_syncTargetClusterName :: string
  me_syncTargetUID :: string
  me_syncTargetName :: string
  me_dnsNamespace :: string
  me_upsyncPods :: bool

definition podspecable_GVRs :: "gvr list" where
  "podspecable_GVRs = map (\<lambda>r. \<lparr>gvr_Group = ''apps'', gvr_Version = ''v1'', gvr_Resource = r\<rparr>) [''deployments'', ''statefulsets'', ''replicasets'']"

definition getWorkspaceURL :: "mutator_env \<Rightarrow> unstr \<Rightarrow> go_error + (string \<times> string)" where
  "getWorkspaceURL M obj =
     (case go_get (Annotations obj) InternalWorkspaceURLAnnotationKey of
        None \<Rightarrow> Inl (Failure ''annotation not found'')
      | Some workspaceURL \<Rightarrow> me_Parse M workspaceURL)"

definition listSecrets :: "mutator_env \<Rightarrow> string \<Rightarrow> string \<Rightarrow> go_error + dated list" where
  "listSecrets M clusterName namespace =
     bindE (me_ddsif M clusterName) (\<lambda>ddsif.
       case map_of (if_Informers ddsif) secretGVR of
         Some lister \<Rightarrow> lister clusterName namespace
       | None \<Rightarrow>
           if ContainsGVR (if_notSynced ddsif) secretGVR
           then Inl (Failure ''informer for gvr not synced in the upstream syncer informer factory'')
           else Inl (Failure ''gvr should be known in the upstream syncer informer factory''))"

definition desiredServiceAccountName :: "pod_template \<Rightarrow> string" where
  "desiredServiceAccountName t =
     (if pt_ServiceAccountName t \<noteq> [] \<and> pt_ServiceAccountName t \<noteq> ''default'' then pt_ServiceAccountName t else ''default'')"

definition desiredSecretName :: "string \<Rightarrow> dated list \<Rightarrow> string" where
  "desiredSecretName sa secretList =
     (case find (\<lambda>(_, secret). go_get (Annotations secret) ServiceAccountNameKey = Some sa) secretList of
        None \<Rightarrow> []
      | Some (_, secret) \<Rightarrow> if sa = ''default'' then ''kcp-'' @ Name secret else Name secret)"

definition getDNSIPForWorkspace :: "mutator_env \<Rightarrow> string \<Rightarrow> go_error + string" where
  "getDNSIPForWorkspace M workspace =
     bindE (GetDNSID (me_json M) workspace (me_syncTargetUID M) (me_syncTargetName M)) (\<lambda>dnsServiceName.
       case me_serviceIP M (me_dnsNamespace M) dnsServiceName of
         Inl _ \<Rightarrow> Inl (Failure ''failed to get DNS service'')
       | Inr ip \<Rightarrow> if ip = [] then Inl (Failure ''DNS service IP address not found'') else Inr ip)"

definition workspace_dns :: "string \<Rightarrow> string \<Rightarrow> dns_config" where
  "workspace_dns dnsIP namespace = \<lparr>dg_Nameservers = [dnsIP],
     dg_Searches = [namespace @ ''.svc.cluster.local'', ''svc.cluster.local'', ''cluster.local''], dg_Options = [(''ndots'', ''5'')]\<rparr>"

definition upsync_labels :: "mutator_env \<Rightarrow> smap \<Rightarrow> smap" where
  "upsync_labels M labels =
     (if me_upsyncPods M then
        (let syncTargetKey = ToSyncTargetKey (me_hash M) (me_syncTargetClusterName M) (me_syncTargetName M) in
         Some (go_put InternalDownstreamClusterLabel syncTargetKey
           (go_put (ClusterResourceStateLabelPrefix @ syncTargetKey) ResourceStateUpsync (entries labels))))
      else labels)"

definition redirect_template :: "mutator_env \<Rightarrow> string \<Rightarrow> string \<Rightarrow> string \<times> string \<Rightarrow> string \<Rightarrow> pod_template \<Rightarrow> pod_template" where
  "redirect_template M namespace secretName workspaceURL dnsIP t =
     (let overrides = overrideEnvs (fst workspaceURL) (snd workspaceURL) in
      t\<lparr>pt_AutomountServiceAccountToken := Some False, pt_ServiceAccountName := [],
        pt_Containers := map (mutate_container overrides namespace) (pt_Containers t),
        pt_InitContainers := map (mutate_container overrides namespace) (pt_InitContainers t),
        pt_EphemeralContainers := map (mutate_container overrides namespace) (pt_EphemeralContainers t),
        pt_Volumes := update_volumes (serviceAccountVolume secretName) (pt_Volumes t),
        pt_DNSPolicy := ''None'', pt_DNSConfig := Some (workspace_dns dnsIP namespace),
        pt_Labels := upsync_labels M (pt_Labels t)\<rparr>)"

definition podspecable_Mutate :: "mutator_env \<Rightarrow> unstr \<Rightarrow> go_error + unstr" where
  "podspecable_Mutate M obj =
     bindE (me_NestedMap M obj [''spec'', ''template'']) (\<lambda>found.
     case found of None \<Rightarrow> Inl (Failure ''object should have a PodTemplate.Spec spec.template'')
     | Some podTemplateUnstr \<Rightarrow>
     bindE (me_FromUnstructured M podTemplateUnstr) (\<lambda>podTemplate.
     bindE (case listSecrets M (Cluster obj) (Namespace obj) of Inl _ \<Rightarrow> Inl (Failure ''error listing secrets'') | Inr l \<Rightarrow> Inr l) (\<lambda>rawSecretList.
     let secretList = me_Slice M (\<lambda>a b. fst a < fst b) rawSecretList;
         secretName = desiredSecretName (desiredServiceAccountName podTemplate) secretList in
     if secretName = [] then Inl (Failure ''no token upstream for the serviceaccount'')
     else
     bindE (getWorkspaceURL M obj) (\<lambda>workspaceURL.
     bindE (getDNSIPForWorkspace M (Cluster obj)) (\<lambda>dnsIP.
     bindE (me_ToUnstructured M (redirect_template M (Namespace obj) secretName workspaceURL dnsIP podTemplate)) (\<lambda>newPodTemplateUnstr.
     me_SetNestedMap M obj newPodTemplateUnstr [''spec'', ''template'']))))))"

section \<open>The secret mutator\<close>

definition ServiceAccountUIDKey :: string where "ServiceAccountUIDKey = ''kubernetes.io/service-account.uid''"

definition secret_GVRs :: "gvr list" where "secret_GVRs = [secretGVR]"

text \<open>\<open>setType\<close> assigns the top-level field \<open>type\<close>.\<close>

definition secret_Mutate :: "(string \<Rightarrow> unstr \<Rightarrow> unstr) \<Rightarrow> unstr \<Rightarrow> go_error + unstr" where
  "secret_Mutate setType obj =
     (if go_has (Annotations obj) ServiceAccountNameKey then
        (let obj1 = setType ''Opaque'' obj;
             annotations = go_del ServiceAccountUIDKey (go_del ServiceAccountNameKey (Annotations obj1)) in
         Inr (obj1\<lparr>Annotations := (if entries annotations = [] then None else annotations)\<rparr>))
      else Inr obj)"

section \<open>Reference definitions\<close>

text \<open>Update of the first element with a name, or append.\<close>

fun update_first :: "('a \<Rightarrow> string) \<Rightarrow> ('a \<Rightarrow> 'a) \<Rightarrow> 'a \<Rightarrow> string \<Rightarrow> 'a list \<Rightarrow> 'a list" where
  "update_first name_of g d name [] = [d]"
| "update_first name_of g d name (x # xs) = (if name_of x = name then g x # xs else x # update_first name_of g d name xs)"

lemma find_index_Suc: "find_index f xs n (Suc i) = (case find_index f xs n i of (found, j) \<Rightarrow> (found, if found then Suc j else j))"
  by (induction xs arbitrary: i) auto

lemma update_first_index:
  fixes f :: "'a \<Rightarrow> string"
  shows "(case find_index f xs n 0 of (found, i) \<Rightarrow> if found then xs[i := g (xs ! i)] else xs @ [d]) = update_first f g d n xs"
  by (induction xs) (auto simp: find_index_Suc split: prod.splits if_splits)

lemma updateEnv_first: "updateEnv envs o' = update_first ev_Name (\<lambda>e. e\<lparr>ev_Value := ev_Value o'\<rparr>) o' (ev_Name o') envs"
  unfolding updateEnv_def findEnv_def using update_first_index [where f = ev_Name and g = "\<lambda>e. e\<lparr>ev_Value := ev_Value o'\<rparr>"] .

lemma updateVolumeMount_first: "updateVolumeMount ms m = update_first vm_Name (\<lambda>_. m) m (vm_Name m) ms"
  unfolding updateVolumeMount_def findVolumeMount_def using update_first_index [where f = vm_Name and g = "\<lambda>_. m"] .

lemma update_first_others:
  assumes "f d = n" "\<And>x. f (g x) = f x" "n \<in> N"
  shows "filter (\<lambda>x. f x \<notin> N) (update_first f g d n xs) = filter (\<lambda>x. f x \<notin> N) xs"
  by (induction xs) (auto simp: assms)

lemma update_first_replace:
  assumes "f d = n"
  shows "d \<in> set (update_first f (\<lambda>_. d) d n xs)" "filter (\<lambda>x. f x \<noteq> n) (update_first f (\<lambda>_. d) d n xs) = filter (\<lambda>x. f x \<noteq> n) xs"
  by (induction xs) (auto simp: assms)

section \<open>The environment of a container\<close>

definition env_value :: "env_var list \<Rightarrow> string \<Rightarrow> string option" where
  "env_value envs name = map_option ev_Value (find (\<lambda>e. ev_Name e = name) envs)"

abbreviation service_env :: "string list" where
  "service_env \<equiv> [''KUBERNETES_SERVICE_PORT'', ''KUBERNETES_SERVICE_PORT_HTTPS'', ''KUBERNETES_SERVICE_HOST'']"

lemma env_value_update: "env_value (updateEnv envs o') name = (if name = ev_Name o' then Some (ev_Value o') else env_value envs name)"
  unfolding updateEnv_first env_value_def by (induction envs) auto

text \<open>No variable of the API server is computed from elsewhere.\<close>

definition plain_service_env :: "env_var list \<Rightarrow> bool" where
  "plain_service_env envs \<longleftrightarrow> (\<forall>e \<in> set envs. ev_Name e \<in> set service_env \<longrightarrow> ev_ValueFrom e = None)"

lemma plain_update:
  assumes "plain_service_env envs" "ev_ValueFrom o' = None"
  shows "plain_service_env (updateEnv envs o')"
  using assms unfolding updateEnv_first plain_service_env_def by (induction envs) auto

lemma env_value_resolve:
  assumes "plain_service_env envs" "name \<in> set service_env"
  shows "env_value (resolveDownwardAPIFieldRefEnv envs ns) name = env_value envs name"
  using assms unfolding env_value_def resolveDownwardAPIFieldRefEnv_def plain_service_env_def
  by (induction envs) (auto simp: namespace_ref_def)

definition redirected :: "string \<Rightarrow> string \<Rightarrow> string \<Rightarrow> container \<Rightarrow> container \<Rightarrow> bool" where
  "redirected host port namespace c c' \<longleftrightarrow>
     c' = c\<lparr>ct_Env := ct_Env c', ct_VolumeMounts := ct_VolumeMounts c'\<rparr>
   \<and> (plain_service_env (ct_Env c) \<longrightarrow> map (env_value (ct_Env c')) service_env = [Some port, Some port, Some host])
   \<and> filter (\<lambda>e. ev_Name e \<notin> set service_env) (ct_Env c')
     = resolveDownwardAPIFieldRefEnv (filter (\<lambda>e. ev_Name e \<notin> set service_env) (ct_Env c)) namespace
   \<and> (\<forall>e \<in> set (ct_Env c'). \<not> namespace_ref e)
   \<and> serviceAccountMount \<in> set (ct_VolumeMounts c')
   \<and> filter (\<lambda>m. vm_Name m \<noteq> ''kcp-api-access'') (ct_VolumeMounts c') = filter (\<lambda>m. vm_Name m \<noteq> ''kcp-api-access'') (ct_VolumeMounts c)"

lemma updateEnv_others:
  assumes "ev_Name o' \<in> N"
  shows "filter (\<lambda>e. ev_Name e \<notin> N) (updateEnv envs o') = filter (\<lambda>e. ev_Name e \<notin> N) envs"
  unfolding updateEnv_first by (rule update_first_others) (auto simp: assms)

lemma fold_updateEnv_others:
  assumes "\<forall>o' \<in> set os. ev_Name o' \<in> N"
  shows "filter (\<lambda>e. ev_Name e \<notin> N) (fold (\<lambda>o' envs. updateEnv envs o') os envs) = filter (\<lambda>e. ev_Name e \<notin> N) envs"
  using assms by (induction os arbitrary: envs) (simp_all add: updateEnv_others)

lemma resolve_filter:
  "filter (\<lambda>e. ev_Name e \<notin> N) (resolveDownwardAPIFieldRefEnv envs ns) = resolveDownwardAPIFieldRefEnv (filter (\<lambda>e. ev_Name e \<notin> N) envs) ns"
  unfolding resolveDownwardAPIFieldRefEnv_def by (induction envs) auto

lemma container_redirected: "redirected host port ns c (mutate_container (overrideEnvs host port) ns c)"
proof -
  let ?envs = "fold (\<lambda>o' envs. updateEnv envs o') (overrideEnvs host port) (ct_Env c)"
  have vals: "map (env_value ?envs) service_env = [Some port, Some port, Some host]"
    by (simp add: overrideEnvs_def plain_env_def env_value_update)
  have plain: "plain_service_env (ct_Env c) \<Longrightarrow> plain_service_env ?envs"
    by (simp add: overrideEnvs_def plain_env_def plain_update)
  have others: "filter (\<lambda>e. ev_Name e \<notin> set service_env) ?envs = filter (\<lambda>e. ev_Name e \<notin> set service_env) (ct_Env c)"
    by (rule fold_updateEnv_others) (simp add: overrideEnvs_def plain_env_def)
  have resolved: "\<not> namespace_ref e" if "e \<in> set (resolveDownwardAPIFieldRefEnv envs ns)" for e envs
    using that by (auto simp: resolveDownwardAPIFieldRefEnv_def namespace_ref_def split: if_splits)
  have mounts: "serviceAccountMount \<in> set (updateVolumeMount ms serviceAccountMount)"
    "filter (\<lambda>m. vm_Name m \<noteq> ''kcp-api-access'') (updateVolumeMount ms serviceAccountMount) = filter (\<lambda>m. vm_Name m \<noteq> ''kcp-api-access'') ms" for ms
    unfolding updateVolumeMount_first using update_first_replace [of vm_Name serviceAccountMount "''kcp-api-access''" ms]
    by (simp_all add: serviceAccountMount_def)
  have rest: "filter (\<lambda>e. ev_Name e \<notin> set service_env) (resolveDownwardAPIFieldRefEnv ?envs ns)
      = resolveDownwardAPIFieldRefEnv (filter (\<lambda>e. ev_Name e \<notin> set service_env) (ct_Env c)) ns"
    unfolding resolve_filter others ..
  show ?thesis
    unfolding redirected_def mutate_container_def
    using vals plain rest resolved mounts env_value_resolve [of ?envs _ ns] by simp
qed

section \<open>The template\<close>

text \<open>The volume of the token, with every other volume in place.\<close>

lemma update_volumes_others:
  assumes "vo_Name v = ''kcp-api-access''"
  shows "v \<in> set (update_volumes v vs)" "\<forall>w \<in> set (update_volumes v vs). vo_Name w = ''kcp-api-access'' \<longrightarrow> w = v"
    "filter (\<lambda>w. vo_Name w \<noteq> ''kcp-api-access'') (update_volumes v vs) = filter (\<lambda>w. vo_Name w \<noteq> ''kcp-api-access'') vs"
proof -
  have "filter (\<lambda>w. vo_Name w \<noteq> ''kcp-api-access'') (map (\<lambda>w. if vo_Name w = ''kcp-api-access'' then v else w) vs)
      = filter (\<lambda>w. vo_Name w \<noteq> ''kcp-api-access'') vs"
    using assms by (induction vs) auto
  then show "filter (\<lambda>w. vo_Name w \<noteq> ''kcp-api-access'') (update_volumes v vs) = filter (\<lambda>w. vo_Name w \<noteq> ''kcp-api-access'') vs"
    using assms by (simp add: update_volumes_def)
qed (use assms in \<open>auto simp: update_volumes_def\<close>)

lemma desiredSecret_cases:
  assumes "desiredSecretName sa secrets \<noteq> []"
  shows "\<exists>ts secret. (ts, secret) \<in> set secrets \<and> go_get (Annotations secret) ServiceAccountNameKey = Some sa
    \<and> desiredSecretName sa secrets = (if sa = ''default'' then ''kcp-'' @ Name secret else Name secret)"
proof -
  obtain e where "find (\<lambda>(_, secret). go_get (Annotations secret) ServiceAccountNameKey = Some sa) secrets = Some e"
    using assms by (auto simp: desiredSecretName_def split: option.splits)
  moreover from find_SomeD [OF this] have "e \<in> set secrets" "go_get (Annotations (snd e)) ServiceAccountNameKey = Some sa"
    by (auto split: prod.splits)
  ultimately show ?thesis by (cases e) (auto simp: desiredSecretName_def)
qed

lemma podspecable_MutateE:
  assumes "podspecable_Mutate M obj = Inr obj'"
  obtains raw t secrets url ip raw' where "me_NestedMap M obj [''spec'', ''template''] = Inr (Some raw)" "me_FromUnstructured M raw = Inr t"
    "listSecrets M (Cluster obj) (Namespace obj) = Inr secrets"
    "desiredSecretName (desiredServiceAccountName t) (me_Slice M (\<lambda>a b. fst a < fst b) secrets) \<noteq> []"
    "getWorkspaceURL M obj = Inr url" "getDNSIPForWorkspace M (Cluster obj) = Inr ip"
    "me_ToUnstructured M (redirect_template M (Namespace obj)
       (desiredSecretName (desiredServiceAccountName t) (me_Slice M (\<lambda>a b. fst a < fst b) secrets)) url ip t) = Inr raw'"
    "me_SetNestedMap M obj raw' [''spec'', ''template''] = Inr obj'"
  using assms unfolding podspecable_Mutate_def Let_def
  by (auto simp: bindE_Inr split: option.splits sum.splits if_splits)

text \<open>
  C32: A successful mutation redirects every container of the pod template, of all three kinds, to the workspace: unless a
  variable of the API server is computed from elsewhere, the first variable of each of the three names has the host or the port
  of the workspace URL; no reference to the namespace is left; the volume of the token is mounted; every other variable, mount and volume
  is kept. The volume projects a listed token of the service account, and pods use the name server of the workspace
  and neither the service account nor the token of the downstream cluster. If pods are upsynced, the two labels of the sync
  target are put over the labels of the template; every other label is kept, and so are all labels if pods are not upsynced.
  Nothing else of the template changes.
\<close>

theorem pod_template_redirected:
  assumes "podspecable_Mutate M obj = Inr obj'"
    and perm: "\<And>lt xs. mset (me_Slice M lt xs) = mset xs"
  shows "\<exists>raw t raw' t' host port ip secrets ts secret.
      me_NestedMap M obj [''spec'', ''template''] = Inr (Some raw) \<and> me_FromUnstructured M raw = Inr t
    \<and> me_ToUnstructured M t' = Inr raw' \<and> me_SetNestedMap M obj raw' [''spec'', ''template''] = Inr obj'
    \<and> getWorkspaceURL M obj = Inr (host, port) \<and> getDNSIPForWorkspace M (Cluster obj) = Inr ip
    \<and> list_all2 (redirected host port (Namespace obj)) (pt_Containers t) (pt_Containers t')
    \<and> list_all2 (redirected host port (Namespace obj)) (pt_InitContainers t) (pt_InitContainers t')
    \<and> list_all2 (redirected host port (Namespace obj)) (pt_EphemeralContainers t) (pt_EphemeralContainers t')
    \<and> listSecrets M (Cluster obj) (Namespace obj) = Inr secrets \<and> (ts, secret) \<in> set secrets
    \<and> go_get (Annotations secret) ServiceAccountNameKey = Some (desiredServiceAccountName t)
    \<and> serviceAccountVolume (if desiredServiceAccountName t = ''default'' then ''kcp-'' @ Name secret else Name secret) \<in> set (pt_Volumes t')
    \<and> filter (\<lambda>v. vo_Name v \<noteq> ''kcp-api-access'') (pt_Volumes t') = filter (\<lambda>v. vo_Name v \<noteq> ''kcp-api-access'') (pt_Volumes t)
    \<and> pt_ServiceAccountName t' = [] \<and> pt_AutomountServiceAccountToken t' = Some False
    \<and> pt_DNSPolicy t' = ''None'' \<and> pt_DNSConfig t' = Some (workspace_dns ip (Namespace obj))
    \<and> pt_Labels t' = (if me_upsyncPods M
        then (let key = ToSyncTargetKey (me_hash M) (me_syncTargetClusterName M) (me_syncTargetName M) in
          Some (go_put InternalDownstreamClusterLabel key (go_put (state_label key) ResourceStateUpsync (entries (pt_Labels t)))))
        else pt_Labels t)
    \<and> pt_Rest t' = pt_Rest t"
proof -
  obtain raw t secrets url ip raw' where m: "me_NestedMap M obj [''spec'', ''template''] = Inr (Some raw)" "me_FromUnstructured M raw = Inr t"
    "listSecrets M (Cluster obj) (Namespace obj) = Inr secrets"
    "getWorkspaceURL M obj = Inr url" "getDNSIPForWorkspace M (Cluster obj) = Inr ip" "me_SetNestedMap M obj raw' [''spec'', ''template''] = Inr obj'"
    and ne: "desiredSecretName (desiredServiceAccountName t) (me_Slice M (\<lambda>a b. fst a < fst b) secrets) \<noteq> []"
    and to: "me_ToUnstructured M (redirect_template M (Namespace obj)
       (desiredSecretName (desiredServiceAccountName t) (me_Slice M (\<lambda>a b. fst a < fst b) secrets)) url ip t) = Inr raw'"
    using podspecable_MutateE [OF assms(1)] by metis
  obtain ts secret where s: "(ts, secret) \<in> set secrets" "go_get (Annotations secret) ServiceAccountNameKey = Some (desiredServiceAccountName t)"
    "desiredSecretName (desiredServiceAccountName t) (me_Slice M (\<lambda>a b. fst a < fst b) secrets)
      = (if desiredServiceAccountName t = ''default'' then ''kcp-'' @ Name secret else Name secret)"
    using desiredSecret_cases [OF ne] mset_eq_setD [OF perm] by blast
  define nm where "nm = (if desiredServiceAccountName t = ''default'' then ''kcp-'' @ Name secret else Name secret)"
  have vol: "vo_Name (serviceAccountVolume nm) = ''kcp-api-access''" by (simp add: serviceAccountVolume_def)
  obtain host port where url: "url = (host, port)" by (cases url)
  have all: "list_all2 (redirected host port ns) cs (map (mutate_container (overrideEnvs host port) ns) cs)" for ns cs
    by (simp add: list_all2_conv_all_nth container_redirected)
  have t': "me_ToUnstructured M (redirect_template M (Namespace obj) nm (host, port) ip t) = Inr raw'"
    using to by (simp add: s(3) nm_def [symmetric] url)
  let ?t' = "redirect_template M (Namespace obj) nm (host, port) ip t"
  have c: "list_all2 (redirected host port (Namespace obj)) (pt_Containers t) (pt_Containers ?t')"
    "list_all2 (redirected host port (Namespace obj)) (pt_InitContainers t) (pt_InitContainers ?t')"
    "list_all2 (redirected host port (Namespace obj)) (pt_EphemeralContainers t) (pt_EphemeralContainers ?t')"
    and v: "serviceAccountVolume nm \<in> set (pt_Volumes ?t')"
    "filter (\<lambda>v. vo_Name v \<noteq> ''kcp-api-access'') (pt_Volumes ?t') = filter (\<lambda>v. vo_Name v \<noteq> ''kcp-api-access'') (pt_Volumes t)"
    by (simp_all add: redirect_template_def Let_def all update_volumes_others [OF vol])
  have v1: "serviceAccountVolume (if desiredServiceAccountName t = ''default'' then ''kcp-'' @ Name secret else Name secret) \<in> set (pt_Volumes ?t')"
    by (subst nm_def [symmetric]) (rule v(1))
  show ?thesis
    by (intro exI conjI, rule m(1), rule m(2), rule t', rule m(6), rule m(4) [unfolded url], rule m(5), rule c(1), rule c(2), rule c(3),
        rule m(3), rule s(1), rule s(2), rule v1, rule v(2)) (simp_all add: redirect_template_def upsync_labels_def Let_def)
qed

lemma find_sorted:
  assumes "mset xs = mset ys" "sorted (map fst xs)" "sorted (map fst ys)"
    and "inj_on fst {e \<in> set xs. P e}"
  shows "find P xs = find P (ys :: (int \<times> 'a) list)"
proof -
  have first: "find P l = Some e \<Longrightarrow> e \<in> set l \<and> P e \<and> (\<forall>e' \<in> set l. P e' \<longrightarrow> fst e \<le> fst e')" if "sorted (map fst l)" for l e
    using that by (induction l) (auto split: if_splits)
  have none: "find P l = None \<longleftrightarrow> (\<forall>e \<in> set l. \<not> P e)" for l by (auto simp: find_None_iff)
  have eq: "set xs = set ys" using assms(1) by (rule mset_eq_setD)
  show ?thesis
  proof (cases "find P xs")
    case None
    then show ?thesis using none [of xs] none [of ys] eq by auto
  next
    case (Some e)
    then have "find P ys \<noteq> None" using first [OF assms(2)] none [of ys] eq by auto
    then obtain e' where e': "find P ys = Some e'" by auto
    have "fst e = fst e'" using first [OF assms(2) Some] first [OF assms(3) e'] eq by (auto intro: antisym)
    then have "e = e'" using first [OF assms(2) Some] first [OF assms(3) e'] eq by (auto intro: inj_onD [OF assms(4)])
    then show ?thesis using Some e' by simp
  qed
qed

text \<open>
  The pod template does not depend on the order in which the secrets are listed nor on the choices of the
  sorting, as long as no two tokens of the service account have the same creation timestamp: the oldest token is used.
\<close>

theorem token_choice_stable:
  assumes "listSecrets M (Cluster obj) (Namespace obj) = Inr secrets" "listSecrets M' (Cluster obj) (Namespace obj) = Inr secrets'"
    and "mset secrets = mset secrets'" and M': "M' = M\<lparr>me_ddsif := d, me_Slice := s\<rparr>"
    and slice: "\<And>xs. mset (me_Slice M (\<lambda>a b. fst a < fst b) xs) = mset xs \<and> sorted (map fst (me_Slice M (\<lambda>a b. fst a < fst b) xs))"
      "\<And>xs. mset (s (\<lambda>a b. fst a < fst b) xs) = mset xs \<and> sorted (map fst (s (\<lambda>a b. fst a < fst b) xs))"
    and distinct: "\<And>sa. inj_on fst {e \<in> set secrets. go_get (Annotations (snd e)) ServiceAccountNameKey = Some sa}"
  shows "podspecable_Mutate M' obj = podspecable_Mutate M obj"
proof -
  have sets: "set (me_Slice M (\<lambda>a b. fst a < fst b) secrets) = set secrets" using slice(1) by (metis mset_eq_setD)
  have nm: "desiredSecretName sa (s (\<lambda>a b. fst a < fst b) secrets') = desiredSecretName sa (me_Slice M (\<lambda>a b. fst a < fst b) secrets)" for sa
    unfolding desiredSecretName_def
    using find_sorted [of "me_Slice M (\<lambda>a b. fst a < fst b) secrets" "s (\<lambda>a b. fst a < fst b) secrets'"
        "\<lambda>(_, secret). go_get (Annotations secret) ServiceAccountNameKey = Some sa"] slice assms(3) distinct [of sa] sets
    by (simp add: case_prod_unfold)
  have rt: "redirect_template M' ns n u i t = redirect_template M ns n u i t" for ns n u i t
    by (simp add: M' redirect_template_def upsync_labels_def)
  have ui: "getWorkspaceURL M' obj = getWorkspaceURL M obj" "getDNSIPForWorkspace M' w = getDNSIPForWorkspace M w" for w
    by (simp_all add: M' getWorkspaceURL_def getDNSIPForWorkspace_def split: option.splits)
  have sel: "me_NestedMap M' = me_NestedMap M" "me_FromUnstructured M' = me_FromUnstructured M" "me_ToUnstructured M' = me_ToUnstructured M"
    "me_SetNestedMap M' = me_SetNestedMap M" "me_Slice M' = s"
    by (simp_all add: M')
  show ?thesis unfolding podspecable_Mutate_def assms(1,2) Let_def sum.case bindE_simps rt ui sel nm ..
qed

text \<open>
  The volume refers to the token by the name that the spec syncer gives its downstream copy, unless the token of
  the default service account has a name without the prefix \<open>default-token-\<close>: its copy keeps the name,
  and the volume refers to a secret that does not exist.
\<close>

theorem token_reference_matches_copy:
  assumes "desiredSecretName sa secrets = (if sa = ''default'' then ''kcp-'' @ Name secret else Name secret)"
    and "go_get (Annotations secret) ServiceAccountNameKey = Some sa" "is_kind ''Secret'' secret"
  shows "desiredSecretName sa secrets = getTransformedName secret \<longleftrightarrow> sa \<noteq> ''default'' \<or> has_prefix (Name secret) ''default-token-''"
  using assms by (auto simp: getTransformedName_def is_kind_def)

text \<open>
  A variable of the API server that is computed from elsewhere keeps its source next to the new value, which the API
  server refuses, and if the source is the namespace then the value is replaced by the namespace.
\<close>

theorem computed_service_env:
  assumes "ct_Env c = [e]" "ev_Name e = ''KUBERNETES_SERVICE_HOST''" "ev_ValueFrom e = Some src"
  shows "env_value (ct_Env (mutate_container (overrideEnvs host port) ns c)) ''KUBERNETES_SERVICE_HOST''
      = Some (if es_FieldRef src = Some ''metadata.namespace'' then ns else host)
    \<and> (es_FieldRef src \<noteq> Some ''metadata.namespace'' \<longrightarrow>
         (\<exists>e' \<in> set (ct_Env (mutate_container (overrideEnvs host port) ns c)). ev_Value e' = host \<and> ev_ValueFrom e' = Some src))"
  using assms by (simp add: mutate_container_def overrideEnvs_def plain_env_def updateEnv_first resolveDownwardAPIFieldRefEnv_def
      namespace_ref_def env_value_def)


section \<open>Examples\<close>

definition ex_container :: container where
  "ex_container = \<lparr>ct_Name = ''web'', ct_Env = [plain_env ''KUBERNETES_SERVICE_HOST'' ''10.0.0.1'', plain_env ''MODE'' ''fast''],
     ct_VolumeMounts = [], ct_Rest = []\<rparr>"

definition ex_pod_template :: pod_template where
  "ex_pod_template = \<lparr>pt_Labels = Some [(''app'', ''web'')], pt_Containers = [ex_container], pt_InitContainers = [], pt_EphemeralContainers = [], pt_Volumes = [],
     pt_ServiceAccountName = [], pt_AutomountServiceAccountToken = None, pt_DNSPolicy = ''ClusterFirst'', pt_DNSConfig = None, pt_Rest = []\<rparr>"

definition ex_mutator :: "dated list \<Rightarrow> mutator_env" where
  "ex_mutator secrets = \<lparr>me_NestedMap = (\<lambda>_ _. Inr (Some ''t'')), me_SetNestedMap = (\<lambda>obj _ _. Inr obj), me_FromUnstructured = (\<lambda>_. Inr ex_pod_template),
     me_ToUnstructured = (\<lambda>_. Inr ''t''), me_ddsif = (\<lambda>_. Inr \<lparr>if_Informers = [(secretGVR, \<lambda>_ _. Inr secrets)], if_notSynced = []\<rparr>),
     me_Slice = (\<lambda>_ xs. sort_key fst xs), me_Parse = (\<lambda>_. Inr (''kcp.example'', ''6443'')), me_serviceIP = (\<lambda>_ _. Inr ''10.0.0.10''),
     me_json = basic_json, me_hash = basic_hash, me_syncTargetClusterName = ''compute'', me_syncTargetUID = ''u1'', me_syncTargetName = ''east'',
     me_dnsNamespace = ''dns'', me_upsyncPods = False\<rparr>"

definition ex_workload :: unstr where
  "ex_workload = ex_secret\<lparr>Annotations := Some [(InternalWorkspaceURLAnnotationKey, ''https://kcp.example:6443/clusters/user'')]\<rparr>"

lemma ex_mutator_secrets: "listSecrets (ex_mutator secrets) c ns = Inr secrets"
  by (simp add: listSecrets_def ex_mutator_def)

lemma ex_mutator_sel [simp]:
  "me_NestedMap (ex_mutator ss) obj path = Inr (Some ''t'')" "me_SetNestedMap (ex_mutator ss) obj x path = Inr obj"
  "me_FromUnstructured (ex_mutator ss) raw = Inr ex_pod_template" "me_ToUnstructured (ex_mutator ss) t = Inr ''t''"
  "me_Slice (ex_mutator ss) lt xs = sort_key fst xs"
  by (simp_all add: ex_mutator_def)

lemma ex_mutator_url: "getWorkspaceURL (ex_mutator ss) ex_workload = Inr (''kcp.example'', ''6443'')"
  by (simp add: getWorkspaceURL_def ex_workload_def ex_mutator_def go_get_def)

lemma ex_mutator_ip: "getDNSIPForWorkspace (ex_mutator ss) w = Inr ''10.0.0.10''"
  by (simp add: getDNSIPForWorkspace_def ex_mutator_def GetDNSID_def basic_json_def)

lemma ex_account: "desiredServiceAccountName ex_pod_template = ''default''" "Name ex_secret = ''default-token-x''" "Namespace ex_workload = ''shop''"
  "go_get (Annotations ex_secret) ServiceAccountNameKey = Some ''default''"
  by (simp_all add: desiredServiceAccountName_def ex_pod_template_def ex_secret_def ex_workload_def go_get_def)

lemma ex_mutation: "podspecable_Mutate (ex_mutator [(7, ex_secret)]) ex_workload = Inr ex_workload"
  by (simp add: podspecable_Mutate_def ex_mutator_secrets ex_mutator_url ex_mutator_ip desiredSecretName_def ex_account)

theorem pod_template_redirected_witness:
  "\<exists>t' :: pod_template. list_all2 (redirected ''kcp.example'' ''6443'' ''shop'') [ex_container] (pt_Containers t')
    \<and> serviceAccountVolume ''kcp-default-token-x'' \<in> set (pt_Volumes t') \<and> pt_Labels t' = Some [(''app'', ''web'')]"
proof -
  have perm: "mset (me_Slice (ex_mutator [(7, ex_secret)]) lt xs) = mset xs" for lt xs by simp
  have c: "pt_Containers ex_pod_template = [ex_container]" "pt_Labels ex_pod_template = Some [(''app'', ''web'')]"
    "\<not> me_upsyncPods (ex_mutator ss)" for ss
    by (simp_all add: ex_pod_template_def ex_mutator_def)
  show ?thesis
    using pod_template_redirected [OF ex_mutation perm] by (simp add: ex_mutator_secrets ex_mutator_url ex_account c) blast
qed

theorem token_choice_stable_witness:
  "podspecable_Mutate ((ex_mutator [(7, ex_secret), (9, ex_secret\<lparr>Name := ''second''\<rparr>)])\<lparr>me_ddsif :=
      me_ddsif (ex_mutator [(9, ex_secret\<lparr>Name := ''second''\<rparr>), (7, ex_secret)]), me_Slice := (\<lambda>_ xs. sort_key fst (rev xs))\<rparr>) ex_workload
   = podspecable_Mutate (ex_mutator [(7, ex_secret), (9, ex_secret\<lparr>Name := ''second''\<rparr>)]) ex_workload"
proof (rule token_choice_stable)
  show "listSecrets (ex_mutator [(7, ex_secret), (9, ex_secret\<lparr>Name := ''second''\<rparr>)]) (Cluster ex_workload) (Namespace ex_workload)
    = Inr [(7, ex_secret), (9, ex_secret\<lparr>Name := ''second''\<rparr>)]" by (rule ex_mutator_secrets)
  show "listSecrets ((ex_mutator [(7, ex_secret), (9, ex_secret\<lparr>Name := ''second''\<rparr>)])\<lparr>me_ddsif :=
      me_ddsif (ex_mutator [(9, ex_secret\<lparr>Name := ''second''\<rparr>), (7, ex_secret)]), me_Slice := (\<lambda>_ xs. sort_key fst (rev xs))\<rparr>)
      (Cluster ex_workload) (Namespace ex_workload) = Inr [(9, ex_secret\<lparr>Name := ''second''\<rparr>), (7, ex_secret)]"
    by (simp add: listSecrets_def ex_mutator_def)
qed (auto simp: ex_mutator_def inj_on_def)

theorem token_reference_matches_copy_witness:
  "desiredSecretName ''default'' [(7, ex_secret)] = getTransformedName ex_secret
   \<and> desiredSecretName ''default'' [(7, ex_secret\<lparr>Name := ''my-token''\<rparr>)] \<noteq> getTransformedName (ex_secret\<lparr>Name := ''my-token''\<rparr>)"
  using token_reference_matches_copy [of "''default''" "[(7, ex_secret)]" ex_secret]
    token_reference_matches_copy [of "''default''" "[(7, ex_secret\<lparr>Name := ''my-token''\<rparr>)]" "ex_secret\<lparr>Name := ''my-token''\<rparr>"]
  by (simp add: desiredSecretName_def ex_account is_kind_def has_prefix_def) (simp add: ex_secret_def)

theorem computed_service_env_witness:
  "env_value (ct_Env (mutate_container (overrideEnvs ''kcp.example'' ''6443'') ''shop'' (ex_container\<lparr>ct_Env :=
      [\<lparr>ev_Name = ''KUBERNETES_SERVICE_HOST'', ev_Value = [], ev_ValueFrom = Some \<lparr>es_FieldRef = Some ''metadata.namespace'', es_Rest = []\<rparr>\<rparr>]\<rparr>)))
     ''KUBERNETES_SERVICE_HOST'' = Some ''shop''"
  using computed_service_env [of "ex_container\<lparr>ct_Env :=
      [\<lparr>ev_Name = ''KUBERNETES_SERVICE_HOST'', ev_Value = [], ev_ValueFrom = Some \<lparr>es_FieldRef = Some ''metadata.namespace'', es_Rest = []\<rparr>\<rparr>]\<rparr>"]
  by simp

end
