(* ===== verification/Endpoints.thy ===== *)
theory Endpoints
  imports Spec_Events Syncer_View
begin

text \<open>
  \<^verbatim>\<open>src/pkg/syncer/endpoints\<close>: a downstream controller that labels the Endpoints of a synced Service for upsyncing when the Service
  asks for it in an annotation. Informer factories, key functions and the API client are parameters.
\<close>

section \<open>The controller\<close>

definition endpointsGVR :: gvr where "endpointsGVR = \<lparr>gvr_Group = [], gvr_Version = ''v1'', gvr_Resource = ''endpoints''\<rparr>"
definition servicesGVR :: gvr where "servicesGVR = \<lparr>gvr_Group = [], gvr_Version = ''v1'', gvr_Resource = ''services''\<rparr>"
definition namespacesGVR :: gvr where "namespacesGVR = \<lparr>gvr_Group = [], gvr_Version = ''v1'', gvr_Resource = ''namespaces''\<rparr>"

definition ExperimentalUpsyncDerivedResourcesAnnotationKey :: string where
  "ExperimentalUpsyncDerivedResourcesAnnotationKey = ''experimental.workload.kcp.io/upsync-derived-resources''"

text \<open>A lister of the downstream factory; the namespace is empty for cluster-scoped types.\<close>

type_synonym down_lister = "string \<Rightarrow> string \<Rightarrow> go_error + unstr"

datatype endpoint_call = PatchEndpoint string string string   \<comment> \<open>namespace, name, strategic merge patch\<close>

record endpoint_env =
  en_factory :: "down_lister informer_factory"
  en_answer :: "endpoint_call \<Rightarrow> go_error option"
  en_json :: json_lib
  en_keyFunc :: "unstr \<Rightarrow> go_error + string"
  en_SplitMetaNamespaceKey :: "string \<Rightarrow> string \<times> string \<times> go_error option"
  en_syncTargetClusterName :: string
  en_syncTargetName :: string
  en_syncTargetUID :: string
  en_syncTargetKey :: string

definition getDownstreamResource :: "endpoint_env \<Rightarrow> gvr \<Rightarrow> string \<Rightarrow> string \<Rightarrow> go_error + unstr" where
  "getDownstreamResource E r namespace name = bindE (getDownstreamLister (en_factory E) r) (\<lambda>lister. lister namespace name)"

definition getDownstreamNamespace :: "endpoint_env \<Rightarrow> string \<Rightarrow> go_error + unstr" where
  "getDownstreamNamespace E name = bindE (getDownstreamLister (en_factory E) namespacesGVR) (\<lambda>lister. lister [] name)"

text \<open>\<open>NewEndpointController\<close> needs both informers.\<close>

definition NewEndpointController :: "endpoint_env \<Rightarrow> go_error option" where
  "NewEndpointController E =
     (if map_of (if_Informers (en_factory E)) endpointsGVR = None \<or> map_of (if_Informers (en_factory E)) servicesGVR = None
      then Some (Failure ''endpoints informer should be available'') else None)"

definition enqueueEndpoints :: "endpoint_env \<Rightarrow> unstr \<Rightarrow> string list" where
  "enqueueEndpoints E obj = (case en_keyFunc E obj of Inl _ \<Rightarrow> [] | Inr key \<Rightarrow> [key])"

text \<open>Errors of the key split and of the lister are logged and the key is queued all the same.\<close>

definition enqueueService :: "endpoint_env \<Rightarrow> unstr \<Rightarrow> string list" where
  "enqueueService E obj =
     (case en_keyFunc E obj of
        Inl _ \<Rightarrow> []
      | Inr key \<Rightarrow>
          (case en_SplitMetaNamespaceKey E key of (namespace, name, _) \<Rightarrow>
             case getDownstreamResource E endpointsGVR namespace name of
               Inl NotFound \<Rightarrow> []
             | _ \<Rightarrow> [key]))"

definition upsync_patch :: "string \<Rightarrow> string" where
  "upsync_patch syncTargetKey =
     (let q = [CHR 0x22] in
      ''{'' @ q @ ''metadata'' @ q @ '': {'' @ q @ ''labels'' @ q @ '': {'' @ q @ ClusterResourceStateLabelPrefix @ syncTargetKey @ q @ '':'' @ q
        @ ResourceStateUpsync @ q @ ''}}}'')"

definition own_locator :: "endpoint_env \<Rightarrow> namespace_locator \<Rightarrow> bool" where
  "own_locator E locator \<longleftrightarrow> \<not> (stl_UID (nl_SyncTarget locator) \<noteq> en_syncTargetUID E
     \<or> stl_Name (nl_SyncTarget locator) \<noteq> en_syncTargetName E \<or> stl_ClusterName (nl_SyncTarget locator) \<noteq> en_syncTargetClusterName E)"

definition derivedResourcesToUpsync :: "unstr \<Rightarrow> string list" where
  "derivedResourcesToUpsync service = splitOn (CHR '','') (go_str (Annotations service) ExperimentalUpsyncDerivedResourcesAnnotationKey)"

text \<open>A lookup whose \<open>NotFound\<close> ends the run without an error.\<close>

definition if_found :: "go_error + 'a \<Rightarrow> ('a \<Rightarrow> ('c, unit) calls) \<Rightarrow> ('c, unit) calls" where
  "if_found r f = (case r of Inl NotFound \<Rightarrow> okay () | Inl e \<Rightarrow> fail e | Inr x \<Rightarrow> f x)"

definition endpoint_process :: "endpoint_env \<Rightarrow> string \<Rightarrow> (endpoint_call, unit) calls" where
  "endpoint_process E key =
     (case en_SplitMetaNamespaceKey E key of
        (namespace, name, Some e) \<Rightarrow> fail e
      | (namespace, name, None) \<Rightarrow>
          if_found (getDownstreamNamespace E namespace) (\<lambda>namespaceObj.
          andThen (lift_err (LocatorFromAnnotations (en_json E) (Annotations namespaceObj))) (\<lambda>found.
          case found of None \<Rightarrow> okay ()
          | Some locator \<Rightarrow>
              if \<not> own_locator E locator then okay ()
              else
                if_found (getDownstreamResource E endpointsGVR namespace name) (\<lambda>endpoints.
                if go_str (Labels endpoints) (ClusterResourceStateLabelPrefix @ en_syncTargetKey E) = ResourceStateUpsync then okay ()
                else
                  if_found (getDownstreamResource E servicesGVR namespace name) (\<lambda>service.
                  if OwnerReferences service \<noteq> [] then okay ()
                  else if derivedResourcesToUpsync service = [] \<or> ''endpoints'' \<notin> set (derivedResourcesToUpsync service) then okay ()
                  else
                    andThen (attempt (en_answer E) (PatchEndpoint namespace name (upsync_patch (en_syncTargetKey E)))) (\<lambda>err.
                    case err of None \<Rightarrow> okay () | Some NotFound \<Rightarrow> okay () | Some e \<Rightarrow> fail e))))))"

section \<open>Properties\<close>

lemma splitOn_nonempty: "splitOn sep s \<noteq> []"
  by (induction s) (auto split: list.splits)

lemma if_found_simps [simp]: "if_found (Inr x) f = f x" "if_found (Inl NotFound) f = okay ()" "e \<noteq> NotFound \<Longrightarrow> if_found (Inl e) f = fail e"
  by (auto simp: if_found_def split: go_error.splits)

lemma fst_if_found: "fst (if_found r f) = (case r of Inl _ \<Rightarrow> [] | Inr x \<Rightarrow> fst (f x))"
  by (simp add: if_found_def split: sum.splits go_error.splits)

text \<open>When the Endpoints of a Service are to be upsynced.\<close>

definition wants_upsync :: "endpoint_env \<Rightarrow> string \<Rightarrow> string \<Rightarrow> bool" where
  "wants_upsync E namespace name \<longleftrightarrow> (\<exists>nsObj locator service.
     getDownstreamNamespace E namespace = Inr nsObj \<and> LocatorFromAnnotations (en_json E) (Annotations nsObj) = Inr (Some locator)
   \<and> nl_SyncTarget locator = \<lparr>stl_ClusterName = en_syncTargetClusterName E, stl_DeprecatedPath = stl_DeprecatedPath (nl_SyncTarget locator),
       stl_Name = en_syncTargetName E, stl_UID = en_syncTargetUID E\<rparr>
   \<and> getDownstreamResource E servicesGVR namespace name = Inr service \<and> OwnerReferences service = []
   \<and> ''endpoints'' \<in> set (derivedResourcesToUpsync service))"

lemma own_locator_iff: "own_locator E l \<longleftrightarrow> nl_SyncTarget l = \<lparr>stl_ClusterName = en_syncTargetClusterName E,
    stl_DeprecatedPath = stl_DeprecatedPath (nl_SyncTarget l), stl_Name = en_syncTargetName E, stl_UID = en_syncTargetUID E\<rparr>"
  by (cases "nl_SyncTarget l") (auto simp: own_locator_def)

text \<open>
  The controller sends at most one request: the patch that labels the Endpoints for upsyncing, exactly if they
  are not labelled yet and lie in a namespace of this sync target next to a Service without owners that asks for it.
  Once the label is there, nothing more is sent.
\<close>

theorem endpoints_labelled_exactly:
  assumes "en_SplitMetaNamespaceKey E key = (namespace, name, None)"
  shows "fst (endpoint_process E key) =
    (if wants_upsync E namespace name \<and> (\<exists>endpoints. getDownstreamResource E endpointsGVR namespace name = Inr endpoints
        \<and> go_str (Labels endpoints) (state_label (en_syncTargetKey E)) \<noteq> ResourceStateUpsync)
     then [PatchEndpoint namespace name (upsync_patch (en_syncTargetKey E))] else [])"
proof -
  have "derivedResourcesToUpsync s \<noteq> []" for s by (simp add: derivedResourcesToUpsync_def splitOn_nonempty)
  then show ?thesis
    unfolding endpoint_process_def assms wants_upsync_def own_locator_iff [symmetric]
    by (auto simp: fst_if_found fst_andThen attempt_def split: sum.splits option.splits go_error.splits)
qed


definition ex_endpoints_env :: "smap \<Rightarrow> endpoint_env" where
  "ex_endpoints_env labels =
     (let obj = ex_secret\<lparr>Annotations := None\<rparr>;
          nsObj = obj\<lparr>Annotations := Some [(NamespaceLocatorAnnotation, projr (marshal_locator basic_json (NewNamespaceLocator ''user'' ''compute'' ''u1'' ''east'' ''shop'')))]\<rparr>;
          service = obj\<lparr>Annotations := Some [(ExperimentalUpsyncDerivedResourcesAnnotationKey, ''pods,endpoints'')]\<rparr> in
      \<lparr>en_factory = \<lparr>if_Informers = [(namespacesGVR, \<lambda>_ _. Inr nsObj), (endpointsGVR, \<lambda>_ _. Inr (obj\<lparr>Labels := labels\<rparr>)), (servicesGVR, \<lambda>_ _. Inr service)],
         if_notSynced = []\<rparr>, en_answer = (\<lambda>_. None), en_json = basic_json, en_keyFunc = (\<lambda>_. Inr ''k''), en_SplitMetaNamespaceKey = (\<lambda>_. (''kcp-1'', ''web'', None)),
       en_syncTargetClusterName = ''compute'', en_syncTargetName = ''east'', en_syncTargetUID = ''u1'', en_syncTargetKey = ''key''\<rparr>)"

lemma ex_endpoints_wants: "wants_upsync (ex_endpoints_env labels) ''kcp-1'' ''web''"
  unfolding wants_upsync_def
  by (rule exI [of _ "ex_secret\<lparr>Annotations := Some [(NamespaceLocatorAnnotation, projr (marshal_locator basic_json (NewNamespaceLocator ''user'' ''compute'' ''u1'' ''east'' ''shop'')))]\<rparr>"]
      , rule exI [of _ "NewNamespaceLocator ''user'' ''compute'' ''u1'' ''east'' ''shop''"]
      , rule exI [of _ "ex_secret\<lparr>Annotations := Some [(ExperimentalUpsyncDerivedResourcesAnnotationKey, ''pods,endpoints'')]\<rparr>"])
    (simp add: ex_endpoints_env_def getDownstreamNamespace_def getDownstreamResource_def getDownstreamLister_def namespacesGVR_def endpointsGVR_def
      servicesGVR_def LocatorFromAnnotations_def NewNamespaceLocator_def basic_json_def unescape_escape unescape_escape [of _ "[]", simplified] ex_secret_def derivedResourcesToUpsync_def
      go_get_def go_str_def Let_def)

theorem endpoints_labelled_exactly_witness:
  "fst (endpoint_process (ex_endpoints_env None) ''k'') = [PatchEndpoint ''kcp-1'' ''web'' (upsync_patch ''key'')]
   \<and> fst (endpoint_process (ex_endpoints_env (Some [(state_label ''key'', ResourceStateUpsync)])) ''k'') = []"
proof -
  have "en_SplitMetaNamespaceKey (ex_endpoints_env labels) key = (''kcp-1'', ''web'', None)" "en_syncTargetKey (ex_endpoints_env labels) = ''key''"
    "getDownstreamResource (ex_endpoints_env labels) endpointsGVR ''kcp-1'' ''web'' = Inr (ex_secret\<lparr>Annotations := None, Labels := labels\<rparr>)" for labels key
    by (simp_all add: ex_endpoints_env_def getDownstreamResource_def getDownstreamLister_def namespacesGVR_def endpointsGVR_def Let_def)
  with endpoints_labelled_exactly [of "ex_endpoints_env None" "''k''" "''kcp-1''" "''web''"]
    endpoints_labelled_exactly [of "ex_endpoints_env (Some [(state_label ''key'', ResourceStateUpsync)])" "''k''" "''kcp-1''" "''web''"]
  show ?thesis by (simp add: ex_endpoints_wants go_str_def go_get_def ResourceStateUpsync_def)
qed

end
