(* ===== verification/Syncer_Target.thy ===== *)
theory Syncer_Target
  imports Heartbeat Spec_Events
begin

text \<open>
  \<^verbatim>\<open>src/pkg/syncer/synctarget\<close> and \<^verbatim>\<open>src/pkg/syncer/controllermanager\<close>: the syncer follows its own SyncTarget. It keeps the
  list of resource types to watch (\<^verbatim>\<open>gvr_source.go\<close>), the controllers of every shard (\<^verbatim>\<open>shard_manager.go\<close>) with an index of the logical
  clusters a shard serves, the tunnels (\<^verbatim>\<open>tunneler_reconciler.go\<close>), and starts controllers when their resource types are available.

  The order in which Go iterates over a map is a parameter (a function on lists), as are access reviews, discovery,
  the creation of controllers and the condition helpers. A context is a number; it is cancelled when it is in the list
  of cancelled ones. A goroutine that runs the start function of a shard is an entry of a list until it ends.
\<close>

section \<open>The resource types to watch\<close>

datatype resource_scope = NamespaceScoped | ClusterScoped

record partial_metadata =
  pm_Scope :: resource_scope
  pm_Singular :: string
  pm_Kind :: string

record api_resource =
  ar_Name :: string
  ar_Namespaced :: bool
  ar_Kind :: string
  ar_SingularName :: string

record gvr_env =
  ge_isGVRAllowed :: "gvr \<Rightarrow> go_error + bool"
  ge_ServerResources :: "string \<Rightarrow> string \<Rightarrow> go_error + api_resource list"   \<comment> \<open>group and version\<close>
  ge_String :: "gvr \<Rightarrow> string"
  ge_order :: "gvr list \<Rightarrow> gvr list"                                   \<comment> \<open>iteration over a map\<close>
  ge_cond :: cond_lib
  ge_Get :: "conditions \<Rightarrow> string \<Rightarrow> condition option"

text \<open>A subscriber is a channel with a buffer of one: \<open>True\<close> if it holds a notification.\<close>

record gvr_source =
  gs_gvrsToWatch :: "(gvr \<times> partial_metadata) list"
  gs_subscribers :: "bool list"

definition builtinGVRs :: "(gvr \<times> partial_metadata) list" where
  "builtinGVRs =
     [(\<lparr>gvr_Group = [], gvr_Version = ''v1'', gvr_Resource = ''configmaps''\<rparr>, \<lparr>pm_Scope = NamespaceScoped, pm_Singular = ''configMap'', pm_Kind = ''configmap''\<rparr>),
      (\<lparr>gvr_Group = [], gvr_Version = ''v1'', gvr_Resource = ''secrets''\<rparr>, \<lparr>pm_Scope = NamespaceScoped, pm_Singular = ''secret'', pm_Kind = ''Secret''\<rparr>)]"

definition source_GVRs :: "gvr_source \<Rightarrow> (gvr \<times> partial_metadata) list" where
  "source_GVRs S =
     fold (\<lambda>(k, v). AList.update k v) (gs_gvrsToWatch S)
       (fold (\<lambda>(k, v). AList.update k v) builtinGVRs
         [(\<lparr>gvr_Group = [], gvr_Version = ''v1'', gvr_Resource = ''namespaces''\<rparr>,
           \<lparr>pm_Scope = ClusterScoped, pm_Singular = ''namespace'', pm_Kind = ''Namespace''\<rparr>)])"

definition Subscribe :: "gvr_source \<Rightarrow> gvr_source" where
  "Subscribe S = S\<lparr>gs_subscribers := gs_subscribers S @ [False]\<rparr>"

definition notifySubscribers :: "gvr_source \<Rightarrow> gvr_source" where
  "notifySubscribers S = S\<lparr>gs_subscribers := map (\<lambda>_. True) (gs_subscribers S)\<rparr>"

definition removeUnusedGVRs :: "gvr list \<Rightarrow> gvr_source \<Rightarrow> gvr_source \<times> bool" where
  "removeUnusedGVRs requiredGVRs S =
     (S\<lparr>gs_gvrsToWatch := filter (\<lambda>(g, _). g \<in> set requiredGVRs) (gs_gvrsToWatch S)\<rparr>,
      \<exists>(g, _) \<in> set (gs_gvrsToWatch S). g \<notin> set requiredGVRs)"

definition getGVRPartialMetadata :: "gvr_env \<Rightarrow> gvr \<Rightarrow> go_error + partial_metadata" where
  "getGVRPartialMetadata E g =
     bindE (ge_ServerResources E (gvr_Group g) (gvr_Version g)) (\<lambda>apiResources.
       case find (\<lambda>r. ar_Name r = gvr_Resource g) apiResources of
         Some r \<Rightarrow> Inr \<lparr>pm_Scope = (if ar_Namespaced r then NamespaceScoped else ClusterScoped), pm_Singular = ar_SingularName r, pm_Kind = ar_Kind r\<rparr>
       | None \<Rightarrow> Inl (Failure ''unable to retrieve discovery for GVR''))"

definition addGVR :: "gvr_env \<Rightarrow> gvr \<Rightarrow> gvr_source \<Rightarrow> go_error + (gvr_source \<times> bool)" where
  "addGVR E g S =
     (if map_of (gs_gvrsToWatch S) g \<noteq> None then Inr (S, False)
      else bindE (getGVRPartialMetadata E g) (\<lambda>partialMetadata.
           Inr (S\<lparr>gs_gvrsToWatch := AList.update g partialMetadata (gs_gvrsToWatch S)\<rparr>, True)))"

definition insert_gvr :: "gvr \<Rightarrow> gvr list \<Rightarrow> gvr list" where
  "insert_gvr g gs = (if g \<in> set gs then gs else gs @ [g])"

definition resource_gvrs :: "resource_to_sync \<Rightarrow> gvr list" where
  "resource_gvrs r =
     (if rs_State r \<noteq> ResourceSchemaAcceptedState then []
      else map (\<lambda>v. \<lparr>gvr_Group = gr_Group (rs_GroupResource r), gvr_Version = v, gvr_Resource = gr_Resource (rs_GroupResource r)\<rparr>) (rs_Versions r))"

definition getAllGVRs :: "sync_target option \<Rightarrow> gvr list" where
  "getAllGVRs synctarget =
     (case synctarget of
        None \<Rightarrow> map fst builtinGVRs
      | Some st \<Rightarrow> fold insert_gvr (concat (map resource_gvrs (SyncedResources (st_Status st)))) (map fst builtinGVRs))"

text \<open>The loop over the required types: source, required types, notify flag, unauthorized types, errors.\<close>

type_synonym gvr_loop = "gvr_source \<times> gvr list \<times> bool \<times> string list \<times> go_error list"

definition gvr_step :: "gvr_env \<Rightarrow> gvr \<Rightarrow> gvr_loop \<Rightarrow> gvr_loop" where
  "gvr_step E g acc =
     (case acc of (S, required, notify, unauthorized, errs) \<Rightarrow>
        (case ge_isGVRAllowed E g of
           Inl e \<Rightarrow> (S, required, notify, unauthorized @ [ge_String E g], errs @ [e])
         | Inr False \<Rightarrow> (S, removeAll g required, notify, unauthorized @ [ge_String E g], errs)
         | Inr True \<Rightarrow>
             (case addGVR E g S of
                Inl e \<Rightarrow> (S, required, notify, unauthorized, errs @ [e])
              | Inr (S', updated) \<Rightarrow> (S', required, notify \<or> updated, unauthorized, errs))))"

datatype syncer_status = StopRequeue | Go_on

definition SyncerAuthorized :: string where "SyncerAuthorized = ''SyncerAuthorized''"

definition mark_authorized :: "gvr_env \<Rightarrow> string list \<Rightarrow> conditions \<Rightarrow> conditions" where
  "mark_authorized E unauthorized =
     (if unauthorized \<noteq> []
      then MarkFalse (ge_cond E) SyncerAuthorized ''SyncerUnauthorized'' ConditionSeverityError
             (''SSAR check failed for gvrs: '' @ join '';'' unauthorized)
      else MarkTrue (ge_cond E) SyncerAuthorized)"

definition gvr_reconcile ::
  "gvr_env \<Rightarrow> sync_target option \<Rightarrow> gvr_source \<Rightarrow> syncer_status \<times> sync_target option \<times> gvr_source \<times> go_error list" where
  "gvr_reconcile E target S =
     (let required = getAllGVRs target in
      case fold (gvr_step E) (ge_order E required) (S, required, False, [], []) of
        (S1, required', notify, unauthorized, errs) \<Rightarrow>
          (case removeUnusedGVRs required' S1 of (S2, removed) \<Rightarrow>
             let S3 = (if notify \<or> removed then notifySubscribers S2 else S2) in
             case target of
               None \<Rightarrow> (Go_on, None, S3, errs)
             | Some st \<Rightarrow>
                 (let st' = on_sync_target_conditions (mark_authorized E unauthorized) st;
                      oldCondition = ge_Get E (st_Conditions (st_Status st)) SyncerAuthorized;
                      newCondition = ge_Get E (st_Conditions (st_Status st')) SyncerAuthorized in
                  (if oldCondition = newCondition then Go_on else StopRequeue, Some st', S3, errs))))"

section \<open>The logical clusters of a shard\<close>

type_synonym cluster_index = "(string \<times> string list) list"

definition clusterNameAndKey :: "(unstr \<Rightarrow> go_error + string) \<Rightarrow> string \<Rightarrow> gvr \<Rightarrow> unstr \<Rightarrow> go_error + (string \<times> string)" where
  "clusterNameAndKey keyFunc syncerSource r obj =
     bindE (keyFunc obj) (\<lambda>key.
       Inr (Cluster obj, syncerSource @ ''$$'' @ gvr_Resource r @ ''.'' @ gvr_Group r @ ''.'' @ gvr_Version r @ ''##'' @ key))"

definition index_add :: "(unstr \<Rightarrow> go_error + string) \<Rightarrow> string \<Rightarrow> gvr \<Rightarrow> unstr \<Rightarrow> cluster_index \<Rightarrow> cluster_index" where
  "index_add keyFunc syncerSource r obj index =
     (case clusterNameAndKey keyFunc syncerSource r obj of
        Inl _ \<Rightarrow> index
      | Inr (clusterName, clusterKey) \<Rightarrow>
          AList.update clusterName (set_insert clusterKey (case map_of index clusterName of None \<Rightarrow> [] | Some keys \<Rightarrow> keys)) index)"

definition index_delete :: "(unstr \<Rightarrow> go_error + string) \<Rightarrow> string \<Rightarrow> gvr \<Rightarrow> unstr \<Rightarrow> cluster_index \<Rightarrow> cluster_index" where
  "index_delete keyFunc syncerSource r obj index =
     (case clusterNameAndKey keyFunc syncerSource r obj of
        Inl _ \<Rightarrow> index
      | Inr (clusterName, clusterKey) \<Rightarrow>
          (case map_of index clusterName of
             None \<Rightarrow> index
           | Some keys \<Rightarrow>
               if removeAll clusterKey keys = [] then AList.delete clusterName index
               else AList.update clusterName (removeAll clusterKey keys) index))"

text \<open>The four event handlers, as they are registered.\<close>

datatype index_event = SyncerAdd gvr unstr | SyncerDelete gvr unstr | UpsyncerAdd gvr unstr | UpsyncerDelete gvr unstr

fun index_handle :: "(unstr \<Rightarrow> go_error + string) \<Rightarrow> index_event \<Rightarrow> cluster_index \<Rightarrow> cluster_index" where
  "index_handle keyFunc (SyncerAdd r obj) index = index_add keyFunc ''S'' r obj index"
| "index_handle keyFunc (SyncerDelete r obj) index = index_add keyFunc ''S'' r obj index"
| "index_handle keyFunc (UpsyncerAdd r obj) index = index_delete keyFunc ''U'' r obj index"
| "index_handle keyFunc (UpsyncerDelete r obj) index = index_delete keyFunc ''U'' r obj index"

definition index_Exists :: "cluster_index \<Rightarrow> string \<Rightarrow> bool" where
  "index_Exists index clusterName \<longleftrightarrow> map_of index clusterName \<noteq> None"

section \<open>The shards\<close>

text \<open>The zero value has no access and no stop function.\<close>

record 'a shard_controllers =
  sc_access :: "'a option"
  sc_stop :: "nat option"
  sc_ready :: bool

definition zero_controllers :: "'a shard_controllers" where
  "zero_controllers = \<lparr>sc_access = None, sc_stop = None, sc_ready = False\<rparr>"

record 'a shard_manager =
  sm_controllers :: "(virtual_workspace \<times> 'a shard_controllers) list"
  sm_cancelled :: "nat list"
  sm_starting :: "(virtual_workspace \<times> nat) list"
  sm_next :: nat

record 'a shard_env =
  sv_new :: "nat \<Rightarrow> virtual_workspace \<Rightarrow> go_error + 'a"
  sv_Exists :: "'a \<Rightarrow> string \<Rightarrow> bool"
  sv_order :: "virtual_workspace list \<Rightarrow> virtual_workspace list"

fun find_shard :: "('a \<Rightarrow> bool) \<Rightarrow> (virtual_workspace \<times> 'a shard_controllers) list \<Rightarrow> go_error + 'a option" where
  "find_shard serves [] = Inr None"
| "find_shard serves ((u, c) # cs) =
     (case sc_access c of
        None \<Rightarrow> Inl (Panic ''nil pointer dereference'')
      | Some a \<Rightarrow> if serves a then Inr (Some a) else find_shard serves cs)"

definition ShardAccessForCluster :: "'a shard_env \<Rightarrow> 'a shard_manager \<Rightarrow> string \<Rightarrow> go_error + 'a option" where
  "ShardAccessForCluster V M clusterName = find_shard (\<lambda>a. sv_Exists V a clusterName) (sm_controllers M)"

definition requiredShards :: "sync_target option \<Rightarrow> virtual_workspace list" where
  "requiredShards target = (case target of None \<Rightarrow> [] | Some st \<Rightarrow> remdups (VirtualWorkspaces (st_Status st)))"

definition stop_step :: "virtual_workspace list \<Rightarrow> 'a shard_manager \<Rightarrow> virtual_workspace \<times> 'a shard_controllers \<Rightarrow> go_error + 'a shard_manager" where
  "stop_step required M e =
     (case e of (u, c) \<Rightarrow>
        if u \<in> set required then Inr M
        else (case sc_stop c of
                None \<Rightarrow> Inl (Panic ''call of a nil function'')
              | Some n \<Rightarrow> Inr (M\<lparr>sm_cancelled := sm_cancelled M @ [n], sm_controllers := AList.delete u (sm_controllers M)\<rparr>)))"

definition start_step :: "'a shard_env \<Rightarrow> virtual_workspace \<Rightarrow> 'a shard_manager \<times> go_error list \<Rightarrow> 'a shard_manager \<times> go_error list" where
  "start_step V u acc =
     (case acc of (M, errs) \<Rightarrow>
        if map_of (sm_controllers M) u \<noteq> None then (M, errs)
        else
          (let n = sm_next M; M1 = M\<lparr>sm_next := Suc n\<rparr> in
           case sv_new V n u of
             Inl e \<Rightarrow> (M1\<lparr>sm_cancelled := sm_cancelled M1 @ [n]\<rparr>, errs @ [e])
           | Inr a \<Rightarrow>
               (M1\<lparr>sm_controllers := AList.update u \<lparr>sc_access = Some a, sc_stop = Some n, sc_ready = False\<rparr> (sm_controllers M1),
                   sm_starting := sm_starting M1 @ [(u, n)]\<rparr>, errs)))"

definition shard_reconcile :: "'a shard_env \<Rightarrow> sync_target option \<Rightarrow> 'a shard_manager \<Rightarrow> go_error + ('a shard_manager \<times> go_error list)" where
  "shard_reconcile V target M =
     (let required = requiredShards target in
      bindE (foldE (stop_step required) M (sm_controllers M)) (\<lambda>M1.
      Inr (fold (start_step V) (sv_order V required) (M1, []))))"

text \<open>The end of the goroutine that runs \<open>start\<close>.\<close>

definition start_done :: "virtual_workspace \<Rightarrow> nat \<Rightarrow> go_error option \<Rightarrow> 'a shard_manager \<Rightarrow> 'a shard_manager" where
  "start_done u n err M =
     (let M1 = M\<lparr>sm_starting := removeAll (u, n) (sm_starting M)\<rparr> in
      case err of
        Some _ \<Rightarrow> M1\<lparr>sm_controllers := AList.delete u (sm_controllers M1), sm_cancelled := sm_cancelled M1 @ [n]\<rparr>
      | None \<Rightarrow>
          (let c = (case map_of (sm_controllers M1) u of None \<Rightarrow> zero_controllers | Some c \<Rightarrow> c) in
           M1\<lparr>sm_controllers := AList.update u (c\<lparr>sc_ready := True\<rparr>) (sm_controllers M1)\<rparr>))"

inductive shard_step :: "'a shard_env \<Rightarrow> 'a shard_manager \<Rightarrow> 'a shard_manager \<Rightarrow> bool" for V where
  reconcile: "shard_reconcile V target M = Inr (M', errs) \<Longrightarrow> shard_step V M M'"
| finish: "(u, n) \<in> set (sm_starting M) \<Longrightarrow> shard_step V M (start_done u n err M)"

section \<open>The tunnels\<close>

record tunnels =
  tn_started :: "(string \<times> nat) list"
  tn_cancelled :: "nat list"
  tn_next :: nat

definition start_tunnel :: "string \<Rightarrow> tunnels \<Rightarrow> tunnels" where
  "start_tunnel u T =
     (if map_of (tn_started T) u \<noteq> None then T
      else T\<lparr>tn_started := AList.update u (tn_next T) (tn_started T), tn_next := Suc (tn_next T)\<rparr>)"

definition tunneler_reconcile :: "(string list \<Rightarrow> string list) \<Rightarrow> sync_target option \<Rightarrow> tunnels \<Rightarrow> tunnels" where
  "tunneler_reconcile order target T =
     (let required = (case target of None \<Rightarrow> [] | Some st \<Rightarrow> remdups (TunnelWorkspaces (st_Status st)));
          T1 = T\<lparr>tn_cancelled := tn_cancelled T @ map snd (filter (\<lambda>(u, _). u \<notin> set required) (tn_started T)),
                 tn_started := filter (\<lambda>(u, _). u \<in> set required) (tn_started T)\<rparr> in
      fold start_tunnel (order required) T1)"

section \<open>The controller\<close>

record 'a syncer_state =
  sy_gvrs :: gvr_source
  sy_shards :: "'a shard_manager"
  sy_tunnels :: tunnels

record 'a syncer_env =
  sx_gvr :: gvr_env
  sx_shard :: "'a shard_env"
  sx_tunnel_order :: "string list \<Rightarrow> string list"
  sx_UID :: string
  sx_commit :: "(sync_target_spec, sync_target_status) commit_lib"
  sx_patcher :: "patch_call \<Rightarrow> go_error option"
  sx_split :: "string \<Rightarrow> go_error + (string \<times> string)"
  sx_lister :: "string \<Rightarrow> go_error + sync_target"

text \<open>\<open>controller.reconcile\<close>: the requeue flag, the object, the state and the errors.\<close>

definition syncer_reconcile ::
  "'a syncer_env \<Rightarrow> sync_target option \<Rightarrow> 'a syncer_state \<Rightarrow> go_error + (bool \<times> sync_target option \<times> 'a syncer_state \<times> go_error list)" where
  "syncer_reconcile X target S =
     (case gvr_reconcile (sx_gvr X) target (sy_gvrs S) of (status, target', gvrs, errs) \<Rightarrow>
        if status = StopRequeue then Inr (True, target', S\<lparr>sy_gvrs := gvrs\<rparr>, errs)
        else
          bindE (shard_reconcile (sx_shard X) target' (sy_shards S)) (\<lambda>(shards, errs2).
          Inr (False, target', S\<lparr>sy_gvrs := gvrs, sy_shards := shards,
                 sy_tunnels := tunneler_reconcile (sx_tunnel_order X) target' (sy_tunnels S)\<rparr>, errs @ errs2)))"

text \<open>\<open>process\<close>: requeue flag, state, requests and errors.\<close>

definition syncer_process ::
  "'a syncer_env \<Rightarrow> string \<Rightarrow> 'a syncer_state \<Rightarrow> go_error + (bool \<times> 'a syncer_state \<times> patch_call list \<times> go_error list)" where
  "syncer_process X key S =
     (case sx_split X key of
        Inl _ \<Rightarrow> Inr (False, S, [], [])
      | Inr (_, name) \<Rightarrow>
          (let gone = bindE (syncer_reconcile X None S) (\<lambda>(requeue, _, S', errs). Inr (requeue, S', [], errs)) in
           case sx_lister X name of
             Inl NotFound \<Rightarrow> gone
           | Inl e \<Rightarrow> Inr (False, S, [], [e])
           | Inr st \<Rightarrow>
               if UID st \<noteq> sx_UID X then gone
               else
                 bindE (syncer_reconcile X (Some st) S) (\<lambda>(requeue, target', S', errs).
                   let st' = (case target' of Some t \<Rightarrow> t | None \<Rightarrow> st) in
                   case NewCommitterScoped (sx_commit X) ''*v1alpha1.SyncTarget'' (sx_patcher X) (sync_target_resource st) (sync_target_resource st') of
                     (calls, err) \<Rightarrow> Inr (requeue, S', calls, errs @ (case err of None \<Rightarrow> [] | Some e \<Rightarrow> [e])))))"

text \<open>The event handler with its filter: only the sync target of this syncer is queued. One iteration of the worker.\<close>

definition syncer_event :: "(unstr \<Rightarrow> go_error + string) \<Rightarrow> 'a syncer_env \<Rightarrow> string \<Rightarrow> unstr \<Rightarrow> string queue_call list" where
  "syncer_event keyFunc X syncTargetName obj =
     (case keyFunc obj of
        Inl _ \<Rightarrow> []
      | Inr key \<Rightarrow> (case sx_split X key of Inl _ \<Rightarrow> [] | Inr (_, name) \<Rightarrow> if name = syncTargetName then [QAdd key] else []))"

definition syncer_next :: "'a syncer_env \<Rightarrow> 'a syncer_state \<Rightarrow> string option \<Rightarrow> go_error + (bool \<times> string queue_call list \<times> go_error list)" where
  "syncer_next X S item =
     (case item of
        None \<Rightarrow> Inr (processNextRequeue (\<lambda>_. (False, [])) None)
      | Some key \<Rightarrow> bindE (syncer_process X key S) (\<lambda>(requeue, _, _, errs). Inr (processNextRequeue (\<lambda>_. (requeue, errs)) (Some key))))"

section \<open>The controller manager\<close>

record managed_controller =
  mc_RequiredGVRs :: "gvr list"
  mc_Create :: "go_error option"              \<comment> \<open>the answer of \<open>Create\<close>\<close>

record manager_state =
  mg_started :: "(string \<times> nat) list"
  mg_cancelled :: "nat list"
  mg_next :: nat

text \<open>\<open>Inl True\<close>: a required type is not synced yet; \<open>Inl False\<close>: it has no informer; \<open>Inr ()\<close>: all are there.\<close>

fun gvrs_synced :: "gvr list \<Rightarrow> gvr list \<Rightarrow> gvr list \<Rightarrow> bool + unit" where
  "gvrs_synced synced notSynced [] = Inr ()"
| "gvrs_synced synced notSynced (g # gs) =
     (if g \<notin> set synced then Inl (ContainsGVR notSynced g) else gvrs_synced synced notSynced gs)"

definition controllersToStart :: "gvr list \<Rightarrow> gvr list \<Rightarrow> (string \<times> managed_controller) list \<Rightarrow> (string \<times> managed_controller) list" where
  "controllersToStart synced notSynced managed = filter (\<lambda>(_, c). gvrs_synced synced notSynced (mc_RequiredGVRs c) = Inr ()) managed"

definition manager_start :: "string \<times> managed_controller \<Rightarrow> manager_state \<Rightarrow> manager_state" where
  "manager_start e G =
     (case e of (name, c) \<Rightarrow>
        if map_of (mg_started G) name \<noteq> None then G
        else (case mc_Create c of
                Some _ \<Rightarrow> G
              | None \<Rightarrow> G\<lparr>mg_started := AList.update name (mg_next G) (mg_started G), mg_next := Suc (mg_next G)\<rparr>))"

definition manager_process ::
  "gvr list \<Rightarrow> gvr list \<Rightarrow> (string \<times> managed_controller) list \<Rightarrow> manager_state \<Rightarrow> manager_state \<times> string queue_call list" where
  "manager_process synced notSynced managed G =
     (let toStart = controllersToStart synced notSynced managed;
          waiting = filter (\<lambda>(_, c). gvrs_synced synced notSynced (mc_RequiredGVRs c) = Inl True) managed;
          G1 = G\<lparr>mg_cancelled := mg_cancelled G @ map snd (filter (\<lambda>(name, _). name \<notin> fst ` set toStart) (mg_started G)),
                 mg_started := filter (\<lambda>(name, _). name \<in> fst ` set toStart) (mg_started G)\<rparr> in
      (fold manager_start toStart G1, map (\<lambda>_. QAddAfter ''resync'' second) waiting))"

section \<open>The resource types to watch\<close>

abbreviation watched :: "gvr_source \<Rightarrow> gvr set" where
  "watched S \<equiv> dom (map_of (gs_gvrsToWatch S))"

definition discovered :: "gvr_env \<Rightarrow> gvr \<Rightarrow> bool" where
  "discovered E g \<longleftrightarrow> ge_isGVRAllowed E g = Inr True \<and> (\<exists>pm. getGVRPartialMetadata E g = Inr pm)"

lemma addGVR_watched:
  assumes "addGVR E g S = Inr (S', updated)"
  shows "watched S' = insert g (watched S)" "updated \<longleftrightarrow> g \<notin> watched S" "gs_subscribers S' = gs_subscribers S"
  using assms by (auto simp: addGVR_def bindE_Inr update_conv' split: if_splits)

lemma addGVR_error: "addGVR E g S = Inl e \<Longrightarrow> g \<notin> watched S \<and> (\<forall>pm. getGVRPartialMetadata E g \<noteq> Inr pm)"
  by (cases "getGVRPartialMetadata E g") (auto simp: addGVR_def split: if_splits)

definition unauthorized_names :: "gvr_env \<Rightarrow> gvr list \<Rightarrow> string list" where
  "unauthorized_names E gs = map (ge_String E) (filter (\<lambda>g. ge_isGVRAllowed E g \<noteq> Inr True) gs)"

lemma gvr_step_spec:
  assumes "gvr_step E g (S, req, n, u, errs) = (S', req', n', u', errs')"
  shows "watched S' = watched S \<union> (if discovered E g then {g} else {}) \<and> set req' = set req - (if ge_isGVRAllowed E g = Inr False then {g} else {})
    \<and> (n' \<longleftrightarrow> n \<or> (discovered E g \<and> g \<notin> watched S)) \<and> u' = u @ unauthorized_names E [g] \<and> gs_subscribers S' = gs_subscribers S"
proof (cases "ge_isGVRAllowed E g")
  case (Inl e)
  then show ?thesis using assms by (auto simp: gvr_step_def discovered_def unauthorized_names_def)
next
  case (Inr allowed)
  show ?thesis
  proof (cases allowed)
    case False
    then show ?thesis using assms Inr by (auto simp: gvr_step_def discovered_def unauthorized_names_def)
  next
    case True
    show ?thesis
    proof (cases "addGVR E g S")
      case (Inl e)
      then show ?thesis using assms Inr True addGVR_error [OF Inl] by (auto simp: gvr_step_def discovered_def unauthorized_names_def)
    next
      case (Inr x)
      obtain S1 updated where x: "x = (S1, updated)" by (cases x)
      have d: "discovered E g \<or> g \<in> watched S"
        using Inr x True \<open>ge_isGVRAllowed E g = Inr allowed\<close> by (auto simp: addGVR_def discovered_def bindE_Inr split: if_splits)
      have "S' = S1" "req' = req" "n' = (n \<or> updated)" "u' = u"
        using assms Inr x True \<open>ge_isGVRAllowed E g = Inr allowed\<close> by (auto simp: gvr_step_def)
      then show ?thesis
        using addGVR_watched [OF Inr [unfolded x]] d True \<open>ge_isGVRAllowed E g = Inr allowed\<close>
        by (auto simp: unauthorized_names_def)
    qed
  qed
qed

lemma gvr_loop_spec:
  assumes "fold (gvr_step E) gs (S, req, n, u, errs) = (S', req', n', u', errs')"
  shows "watched S' = watched S \<union> {g \<in> set gs. discovered E g} \<and> set req' = set req - {g \<in> set gs. ge_isGVRAllowed E g = Inr False}
    \<and> (n' \<longleftrightarrow> n \<or> watched S' \<noteq> watched S) \<and> u' = u @ unauthorized_names E gs \<and> gs_subscribers S' = gs_subscribers S"
  using assms
proof (induction gs arbitrary: S req n u errs)
  case Nil
  then show ?case by (simp add: unauthorized_names_def)
next
  case (Cons g gs)
  obtain S1 req1 n1 u1 errs1 where s: "gvr_step E g (S, req, n, u, errs) = (S1, req1, n1, u1, errs1)" by (cases "gvr_step E g (S, req, n, u, errs)")
  note step = gvr_step_spec [OF s]
  have "fold (gvr_step E) gs (S1, req1, n1, u1, errs1) = (S', req', n', u', errs')" using Cons.prems s by simp
  note ih = Cons.IH [OF this]
  have w: "watched S' = watched S \<union> {h \<in> set (g # gs). discovered E h}" using step ih by auto
  have r: "set req' = set req - {h \<in> set (g # gs). ge_isGVRAllowed E h = Inr False}" using step ih by auto
  have "n1 \<longleftrightarrow> n \<or> watched S1 \<noteq> watched S" "watched S \<subseteq> watched S1" "watched S1 \<subseteq> watched S'" using step ih by auto
  then have n: "n' \<longleftrightarrow> n \<or> watched S' \<noteq> watched S" using ih by blast
  have "u' = u @ unauthorized_names E (g # gs)" using step ih by (simp add: unauthorized_names_def)
  then show ?case using w r n step ih by simp
qed

lemma gvr_reconcile_watched:
  assumes order: "\<And>gs. mset (ge_order E gs) = mset gs" and r: "gvr_reconcile E target S = (status, target', S', errs)"
  shows "(\<forall>g. g \<in> watched S' \<longleftrightarrow> g \<in> set (getAllGVRs target) \<and>
        (discovered E g \<or> g \<in> watched S \<and> ge_isGVRAllowed E g \<noteq> Inr False))
    \<and> gs_subscribers S' = (if watched S' = watched S then gs_subscribers S else map (\<lambda>_. True) (gs_subscribers S))"
proof -
  let ?req = "getAllGVRs target"
  obtain S1 req1 n u es where l: "fold (gvr_step E) (ge_order E ?req) (S, ?req, False, [], []) = (S1, req1, n, u, es)"
    by (cases "fold (gvr_step E) (ge_order E ?req) (S, ?req, False, [], [])")
  have set: "set (ge_order E ?req) = set ?req" using order by (metis mset_eq_setD)
  note spec = gvr_loop_spec [OF l, unfolded set]
  define S2 where "S2 = fst (removeUnusedGVRs req1 S1)"
  have w2: "watched S2 = watched S1 \<inter> set req1" "snd (removeUnusedGVRs req1 S1) \<longleftrightarrow> \<not> watched S1 \<subseteq> set req1" "gs_subscribers S2 = gs_subscribers S1"
    by (auto simp: S2_def removeUnusedGVRs_def map_of_filter_key dom_map_of_conv_image_fst)
  have "S' = (if n \<or> snd (removeUnusedGVRs req1 S1) then notifySubscribers S2 else S2)"
    using r l by (auto simp: gvr_reconcile_def Let_def S2_def split: prod.splits option.splits)
  then have S': "watched S' = watched S2" "gs_subscribers S' = (if n \<or> \<not> watched S1 \<subseteq> set req1 then map (\<lambda>_. True) (gs_subscribers S) else gs_subscribers S)"
    using w2 spec by (auto simp: notifySubscribers_def)
  have ch: "n \<or> \<not> watched S1 \<subseteq> set req1 \<longleftrightarrow> watched S' \<noteq> watched S"
    using spec unfolding S'(1) w2(1) by (auto simp: discovered_def)
  have "g \<in> watched S' \<longleftrightarrow> g \<in> set ?req \<and> (discovered E g \<or> g \<in> watched S \<and> ge_isGVRAllowed E g \<noteq> Inr False)" for g
    using spec unfolding S'(1) w2(1) by (auto simp: discovered_def)
  then show ?thesis using S'(2) ch by auto
qed

lemma gvr_reconcile_target:
  assumes "gvr_reconcile E (Some st) S = (status, target', S', errs)"
  shows "target' = Some (on_sync_target_conditions (mark_authorized E (unauthorized_names E (ge_order E (getAllGVRs (Some st))))) st)"
    "status = Go_on \<longleftrightarrow> ge_Get E (st_Conditions (st_Status st)) SyncerAuthorized
       = ge_Get E (mark_authorized E (unauthorized_names E (ge_order E (getAllGVRs (Some st)))) (st_Conditions (st_Status st))) SyncerAuthorized"
proof -
  let ?req = "getAllGVRs (Some st)"
  obtain S1 req1 n u es where l: "fold (gvr_step E) (ge_order E ?req) (S, ?req, False, [], []) = (S1, req1, n, u, es)"
    by (cases "fold (gvr_step E) (ge_order E ?req) (S, ?req, False, [], [])")
  have "u = unauthorized_names E (ge_order E ?req)" using gvr_loop_spec [OF l] by simp
  with assms l show "target' = Some (on_sync_target_conditions (mark_authorized E (unauthorized_names E (ge_order E ?req))) st)"
    "status = Go_on \<longleftrightarrow> ge_Get E (st_Conditions (st_Status st)) SyncerAuthorized
       = ge_Get E (mark_authorized E (unauthorized_names E (ge_order E ?req)) (st_Conditions (st_Status st))) SyncerAuthorized"
    by (auto simp: gvr_reconcile_def Let_def split: prod.splits if_splits)
qed

text \<open>
  The message of the condition lists the unauthorized types in the order of a map iteration. If a pass lists
  them in another order than the one before, it asks for a requeue and leaves shards and tunnels alone, although nothing
  has changed.
\<close>

theorem unauthorized_order_requeues:
  assumes pass: "gvr_reconcile (sx_gvr X) (Some st) (sy_gvrs S0) = (status, Some st1, gvrs1, errs1)"
    and again: "sx_gvr X' = (sx_gvr X)\<lparr>ge_order := ord\<rparr>" "sy_gvrs S = gvrs1"
    and names: "unauthorized_names (sx_gvr X) (ge_order (sx_gvr X) (getAllGVRs (Some st))) \<noteq> []" "unauthorized_names (sx_gvr X) (ord (getAllGVRs (Some st))) \<noteq> []"
      "join '';'' (unauthorized_names (sx_gvr X) (ge_order (sx_gvr X) (getAllGVRs (Some st)))) \<noteq> join '';'' (unauthorized_names (sx_gvr X) (ord (getAllGVRs (Some st))))"
    and get: "\<And>t r s m m' cs cs'. ge_Get (sx_gvr X) (MarkFalse (ge_cond (sx_gvr X)) t r s m cs) t = ge_Get (sx_gvr X) (MarkFalse (ge_cond (sx_gvr X)) t r s m' cs') t
      \<Longrightarrow> m = m'"
  shows "\<exists>target' gvrs' errs'. syncer_reconcile X' (Some st1) S = Inr (True, target', S\<lparr>sy_gvrs := gvrs'\<rparr>, errs')"
proof -
  let ?E = "sx_gvr X"
  have st1: "st1 = on_sync_target_conditions (mark_authorized ?E (unauthorized_names ?E (ge_order ?E (getAllGVRs (Some st))))) st"
    using gvr_reconcile_target(1) [OF pass] by simp
  have req: "getAllGVRs (Some st1) = getAllGVRs (Some st)" by (simp add: st1 getAllGVRs_def)
  obtain status' target' gvrs' errs' where r: "gvr_reconcile (sx_gvr X') (Some st1) (sy_gvrs S) = (status', target', gvrs', errs')"
    by (cases "gvr_reconcile (sx_gvr X') (Some st1) (sy_gvrs S)")
  have same: "unauthorized_names (?E\<lparr>ge_order := ord\<rparr>) gs = unauthorized_names ?E gs" "mark_authorized (?E\<lparr>ge_order := ord\<rparr>) = mark_authorized ?E" for gs
    by (simp_all add: unauthorized_names_def mark_authorized_def fun_eq_iff)
  have "status' \<noteq> Go_on"
    using gvr_reconcile_target(2) [OF r] get names unfolding req again same by (simp add: st1 mark_authorized_def) blast
  then have "status' = StopRequeue" by (cases status') auto
  with r show ?thesis by (auto simp: syncer_reconcile_def)
qed

section \<open>The index of logical clusters\<close>

definition syncer_keys :: "cluster_index \<Rightarrow> bool" where
  "syncer_keys ix \<longleftrightarrow> (\<forall>c keys. map_of ix c = Some keys \<longrightarrow> keys \<noteq> [] \<and> (\<forall>k \<in> set keys. has_prefix k ''S''))"

lemma set_insert_nonempty [simp]: "set_insert x xs \<noteq> []"
  using set_set_insert [of x xs] by (metis insert_not_empty set_empty)

lemma index_add_spec:
  assumes "syncer_keys ix"
  shows "syncer_keys (index_add kf ''S'' r obj ix)"
    "index_Exists (index_add kf ''S'' r obj ix) c \<longleftrightarrow> index_Exists ix c \<or> Cluster obj = c \<and> (\<exists>k. kf obj = Inr k)"
  using assms
  by (cases "kf obj"; force simp: syncer_keys_def index_add_def clusterNameAndKey_def index_Exists_def update_conv' has_prefix_def
      split: option.splits if_splits)+

lemma index_delete_other:
  assumes "syncer_keys ix"
  shows "index_Exists (index_delete kf ''U'' r obj ix) c = index_Exists ix c" "syncer_keys (index_delete kf ''U'' r obj ix)"
proof -
  have "removeAll (''U'' @ x) keys = keys" if "map_of ix d = Some keys" for x d keys
    using assms that by (intro removeAll_id) (fastforce simp: syncer_keys_def has_prefix_def)
  then have "map_of (index_delete kf ''U'' r obj ix) = map_of ix"
    using assms by (cases "kf obj") (auto simp: index_delete_def clusterNameAndKey_def syncer_keys_def update_conv' fun_upd_idem split: option.splits)
  then show "index_Exists (index_delete kf ''U'' r obj ix) c = index_Exists ix c" "syncer_keys (index_delete kf ''U'' r obj ix)"
    using assms by (simp_all add: index_Exists_def syncer_keys_def)
qed

definition reports :: "(unstr \<Rightarrow> go_error + string) \<Rightarrow> string \<Rightarrow> index_event \<Rightarrow> bool" where
  "reports kf c ev \<longleftrightarrow> (case ev of SyncerAdd _ obj \<Rightarrow> Cluster obj = c \<and> (\<exists>k. kf obj = Inr k)
     | SyncerDelete _ obj \<Rightarrow> Cluster obj = c \<and> (\<exists>k. kf obj = Inr k) | _ \<Rightarrow> False)"

lemma reports_iff:
  "reports kf c ev \<longleftrightarrow> (\<exists>r obj k. (ev = SyncerAdd r obj \<or> ev = SyncerDelete r obj) \<and> Cluster obj = c \<and> kf obj = Inr k)"
  by (cases ev) (auto simp: reports_def)

lemma index_handle_spec:
  assumes "syncer_keys ix"
  shows "syncer_keys (index_handle kf ev ix)" "index_Exists (index_handle kf ev ix) c \<longleftrightarrow> index_Exists ix c \<or> reports kf c ev"
  using assms by (cases ev; simp add: index_add_spec index_delete_other reports_def)+

text \<open>
  After any sequence of events, the index of a shard contains exactly the logical clusters for which the syncer
  informers have ever reported an object, added or deleted: it never forgets a cluster, and upsynced objects do not count.
\<close>

theorem index_never_forgets:
  "index_Exists (fold (index_handle kf) evs []) c \<longleftrightarrow>
     (\<exists>r obj k. (SyncerAdd r obj \<in> set evs \<or> SyncerDelete r obj \<in> set evs) \<and> Cluster obj = c \<and> kf obj = Inr k)"
proof -
  have "syncer_keys ix \<Longrightarrow> index_Exists (fold (index_handle kf) evs ix) c \<longleftrightarrow> index_Exists ix c \<or> (\<exists>ev \<in> set evs. reports kf c ev)" for ix
    by (induction evs arbitrary: ix) (simp_all add: index_handle_spec disj_assoc)
  from this [of "[]"] have "index_Exists (fold (index_handle kf) evs []) c \<longleftrightarrow> (\<exists>ev \<in> set evs. reports kf c ev)"
    by (simp add: syncer_keys_def index_Exists_def)
  also have "\<dots> \<longleftrightarrow> (\<exists>r obj k. (SyncerAdd r obj \<in> set evs \<or> SyncerDelete r obj \<in> set evs) \<and> Cluster obj = c \<and> kf obj = Inr k)"
    unfolding reports_iff by blast
  finally show ?thesis .
qed

section \<open>The shards\<close>

abbreviation shard_at :: "'a shard_manager \<Rightarrow> virtual_workspace \<Rightarrow> 'a shard_controllers option" where
  "shard_at M u \<equiv> map_of (sm_controllers M) u"

definition stoppable :: "'a shard_manager \<Rightarrow> bool" where
  "stoppable M \<longleftrightarrow> (\<forall>(u, c) \<in> set (sm_controllers M). sc_stop c \<noteq> None)"

lemma stop_loop:
  assumes "\<forall>(u, c) \<in> set cs. u \<notin> set req \<longrightarrow> sc_stop c \<noteq> None"
  shows "\<exists>M'. foldE (stop_step req) M cs = Inr M' \<and> (\<forall>u. shard_at M' u = (if u \<in> fst ` set cs - set req then None else shard_at M u))
    \<and> sm_cancelled M' = sm_cancelled M @ [the (sc_stop c). (u, c) \<leftarrow> cs, u \<notin> set req] \<and> sm_starting M' = sm_starting M \<and> sm_next M' = sm_next M
    \<and> (distinct (map fst (sm_controllers M)) \<longrightarrow> distinct (map fst (sm_controllers M')))"
  using assms
proof (induction cs arbitrary: M)
  case (Cons e cs)
  obtain u c where e: "e = (u, c)" by (cases e)
  show ?case
  proof (cases "u \<in> set req")
    case True
    then have "stop_step req M e = Inr M" by (simp add: stop_step_def e)
    then show ?thesis using Cons.IH [of M] Cons.prems True by (auto simp: e)
  next
    case False
    then obtain n where n: "sc_stop c = Some n" using Cons.prems e by auto
    let ?M = "M\<lparr>sm_cancelled := sm_cancelled M @ [n], sm_controllers := AList.delete u (sm_controllers M)\<rparr>"
    have "stop_step req M e = Inr ?M" using False n by (simp add: stop_step_def e)
    moreover obtain M' where "foldE (stop_step req) ?M cs = Inr M'" "\<forall>v. shard_at M' v = (if v \<in> fst ` set cs - set req then None else shard_at ?M v)"
      "sm_cancelled M' = sm_cancelled ?M @ [the (sc_stop c). (u, c) \<leftarrow> cs, u \<notin> set req]" "sm_starting M' = sm_starting ?M" "sm_next M' = sm_next ?M"
      "distinct (map fst (sm_controllers ?M)) \<longrightarrow> distinct (map fst (sm_controllers M'))"
      using Cons.IH [of ?M] Cons.prems by auto
    ultimately show ?thesis using False n by (auto simp: e delete_conv' distinct_delete)
  qed
qed simp

text \<open>New controllers, with a context from \<open>k\<close> on; or none, and an error.\<close>

definition fresh_shard :: "nat \<Rightarrow> 'a shard_manager \<Rightarrow> go_error list \<Rightarrow> virtual_workspace \<Rightarrow> bool" where
  "fresh_shard k M errs u \<longleftrightarrow> (case shard_at M u of None \<Rightarrow> errs \<noteq> []
     | Some c \<Rightarrow> \<exists>n \<ge> k. sc_stop c = Some n \<and> sc_access c \<noteq> None \<and> (u, n) \<in> set (sm_starting M))"

lemma fresh_shard_mono: "fresh_shard k' M errs u \<Longrightarrow> k \<le> k' \<Longrightarrow> fresh_shard k M errs u"
  by (auto simp: fresh_shard_def split: option.splits intro: order_trans)

definition start_frame :: "'a shard_manager \<Rightarrow> go_error list \<Rightarrow> 'a shard_manager \<Rightarrow> go_error list \<Rightarrow> bool" where
  "start_frame M es M' errs \<longleftrightarrow> set (sm_cancelled M) \<subseteq> set (sm_cancelled M') \<and> set (sm_starting M) \<subseteq> set (sm_starting M')
     \<and> sm_next M \<le> sm_next M' \<and> set es \<subseteq> set errs"

lemma start_step_cases:
  assumes "start_step V u (M, es) = (M1, es1)"
  obtains (there) "shard_at M u \<noteq> None" "M1 = M" "es1 = es"
    | (err) "shard_at M u = None" "sm_controllers M1 = sm_controllers M" "es1 \<noteq> []" "start_frame M es M1 es1"
    | (new) a where "shard_at M u = None" "start_frame M es M1 es1"
        "sm_controllers M1 = AList.update u \<lparr>sc_access = Some a, sc_stop = Some (sm_next M), sc_ready = False\<rparr> (sm_controllers M)"
        "(u, sm_next M) \<in> set (sm_starting M1)"
  using assms by (cases "sv_new V (sm_next M) u") (auto simp: start_step_def start_frame_def Let_def subset_insertI split: if_splits)

lemma start_loop:
  assumes "fold (start_step V) us (M, es) = (M', errs)"
  shows "(\<forall>u. u \<notin> set us \<or> shard_at M u \<noteq> None \<longrightarrow> shard_at M' u = shard_at M u)
    \<and> (\<forall>u \<in> set us. shard_at M u = None \<longrightarrow> fresh_shard (sm_next M) M' errs u) \<and> start_frame M es M' errs"
  using assms
proof (induction us arbitrary: M es)
  case (Cons u us)
  obtain M1 es1 where s: "start_step V u (M, es) = (M1, es1)" by (cases "start_step V u (M, es)")
  have keep: "\<And>v. v \<notin> set us \<or> shard_at M1 v \<noteq> None \<Longrightarrow> shard_at M' v = shard_at M1 v"
    and fresh: "\<And>v. v \<in> set us \<Longrightarrow> shard_at M1 v = None \<Longrightarrow> fresh_shard (sm_next M1) M' errs v" and fr: "start_frame M1 es1 M' errs"
    using Cons.IH [of M1 es1] Cons.prems s by auto
  from s show ?case
  proof (cases rule: start_step_cases)
    case there
    then show ?thesis using keep fresh fr by auto
  next
    case err
    have "fresh_shard (sm_next M) M' errs v" if "v \<in> set (u # us)" "shard_at M v = None" for v
    proof (cases "v \<in> set us")
      case True
      then show ?thesis using fresh [of v] that err(2,4) by (auto intro: fresh_shard_mono simp: start_frame_def)
    next
      case False
      then show ?thesis using keep [of v] that err(2,3) fr by (auto simp: fresh_shard_def start_frame_def)
    qed
    then show ?thesis using keep err fr by (auto simp: start_frame_def)
  next
    case (new a)
    have at: "shard_at M1 v = (if v = u then Some \<lparr>sc_access = Some a, sc_stop = Some (sm_next M), sc_ready = False\<rparr> else shard_at M v)" for v
      using new(3) by (simp add: update_conv')
    have "fresh_shard (sm_next M) M' errs v" if "v \<in> set (u # us)" "shard_at M v = None" for v
    proof (cases "v = u")
      case True
      then show ?thesis using keep [of u] at new(4) fr by (auto simp: fresh_shard_def start_frame_def)
    next
      case False
      then show ?thesis using fresh [of v] that at new(2) by (auto intro: fresh_shard_mono simp: start_frame_def)
    qed
    then show ?thesis using keep at new(1,2) fr by (auto simp: start_frame_def)
  qed
qed (simp add: start_frame_def)

lemma shard_reconcile_spec:
  assumes order: "\<And>us. mset (sv_order V us) = mset us" and dist: "distinct (map fst (sm_controllers M))" and stop: "stoppable M"
  shows "\<exists>M' errs. shard_reconcile V target M = Inr (M', errs)
    \<and> (\<forall>u c. shard_at M u = Some c \<longrightarrow> (if u \<in> set (requiredShards target) then shard_at M' u = Some c
          else shard_at M' u = None \<and> the (sc_stop c) \<in> set (sm_cancelled M')))
    \<and> (\<forall>u. shard_at M u = None \<longrightarrow> (if u \<in> set (requiredShards target) then fresh_shard (sm_next M) M' errs u else shard_at M' u = None))
    \<and> set (sm_starting M) \<subseteq> set (sm_starting M')"
proof -
  let ?req = "requiredShards target"
  have "\<forall>(u, c) \<in> set (sm_controllers M). u \<notin> set ?req \<longrightarrow> sc_stop c \<noteq> None" using stop by (auto simp: stoppable_def)
  from stop_loop [OF this, of M] obtain M1 where M1: "foldE (stop_step ?req) M (sm_controllers M) = Inr M1"
    and at1: "\<And>u. shard_at M1 u = (if u \<in> fst ` set (sm_controllers M) - set ?req then None else shard_at M u)"
    and rest: "sm_cancelled M1 = sm_cancelled M @ [the (sc_stop c). (u, c) \<leftarrow> sm_controllers M, u \<notin> set ?req]" "sm_starting M1 = sm_starting M" "sm_next M1 = sm_next M"
    by blast
  obtain M' errs where f: "fold (start_step V) (sv_order V ?req) (M1, []) = (M', errs)" by (cases "fold (start_step V) (sv_order V ?req) (M1, [])")
  have set: "set (sv_order V ?req) = set ?req" using order by (metis mset_eq_setD)
  note loop = start_loop [OF f, unfolded set]
  have r: "shard_reconcile V target M = Inr (M', errs)" by (simp add: shard_reconcile_def M1 f)
  have old: "if u \<in> set ?req then shard_at M' u = Some c else shard_at M' u = None \<and> the (sc_stop c) \<in> set (sm_cancelled M')"
    if "shard_at M u = Some c" for u c
  proof -
    have mem: "(u, c) \<in> set (sm_controllers M)" using that by (rule map_of_SomeD)
    then have "u \<notin> set ?req \<Longrightarrow> the (sc_stop c) \<in> set (sm_cancelled M1)" by (force simp: rest)
    moreover have "u \<in> fst ` set (sm_controllers M)" using mem by force
    then have "shard_at M1 u = (if u \<in> set ?req then Some c else None)" using at1 [of u] that by simp
    then have "shard_at M' u = (if u \<in> set ?req then Some c else None)" using loop by (simp split: if_splits)
    ultimately show ?thesis using loop by (auto simp: start_frame_def)
  qed
  have new: "if u \<in> set ?req then fresh_shard (sm_next M) M' errs u else shard_at M' u = None" if "shard_at M u = None" for u
    using loop at1 [of u] that rest(3) by auto
  show ?thesis using r old new loop rest(2) by (intro exI conjI) (auto simp: start_frame_def)
qed

section \<open>Interleavings of shard starts\<close>

definition no_shards :: "'a shard_manager" where
  "no_shards = \<lparr>sm_controllers = [], sm_cancelled = [], sm_starting = [], sm_next = 0\<rparr>"

definition shard_inv :: "'a shard_manager \<Rightarrow> bool" where
  "shard_inv M \<longleftrightarrow> distinct (map fst (sm_controllers M))
     \<and> (\<forall>u c n. shard_at M u = Some c \<and> sc_stop c = Some n \<longrightarrow> n < sm_next M \<and> n \<notin> set (sm_cancelled M))
     \<and> (\<forall>u c u' c' n. shard_at M u = Some c \<and> sc_stop c = Some n \<and> shard_at M u' = Some c' \<and> sc_stop c' = Some n \<longrightarrow> u = u')
     \<and> (\<forall>u n. (u, n) \<in> set (sm_starting M) \<longrightarrow> n < sm_next M)
     \<and> (\<forall>u u' c n. (u, n) \<in> set (sm_starting M) \<and> shard_at M u' = Some c \<and> sc_stop c = Some n \<longrightarrow> u' = u)
     \<and> (\<forall>n \<in> set (sm_cancelled M). n < sm_next M)"

lemma shard_inv_shrink:
  assumes inv: "shard_inv M" and "distinct (map fst (sm_controllers M'))" "sm_next M \<le> sm_next M'"
    and old: "\<And>u c n. shard_at M' u = Some c \<Longrightarrow> sc_stop c = Some n \<Longrightarrow> n \<notin> set (sm_cancelled M') \<and> (\<exists>c'. shard_at M u = Some c' \<and> sc_stop c' = Some n)"
    and "set (sm_starting M') \<subseteq> set (sm_starting M)" and "\<forall>n \<in> set (sm_cancelled M'). n < sm_next M'"
  shows "shard_inv M'"
proof -
  have "n < sm_next M' \<and> n \<notin> set (sm_cancelled M')" if "shard_at M' u = Some c" "sc_stop c = Some n" for u c n
    using old [OF that] inv assms(3) unfolding shard_inv_def by (meson less_le_trans)
  moreover have "u = u'" if "shard_at M' u = Some c" "sc_stop c = Some n" "shard_at M' u' = Some c'" "sc_stop c' = Some n" for u c u' c' n
    using old [OF that(1,2)] old [OF that(3,4)] inv unfolding shard_inv_def by blast
  moreover have "n < sm_next M'" if "(u, n) \<in> set (sm_starting M')" for u n
    using that assms(3,5) inv unfolding shard_inv_def by (meson less_le_trans subsetD)
  moreover have "u' = u" if "(u, n) \<in> set (sm_starting M')" "shard_at M' u' = Some c" "sc_stop c = Some n" for u u' c n
    using that(1) old [OF that(2,3)] assms(5) inv unfolding shard_inv_def by blast
  ultimately show ?thesis unfolding shard_inv_def using assms(2,6) by blast
qed

lemma shard_invD:
  assumes "shard_inv M"
  shows "distinct (map fst (sm_controllers M))" "n \<in> set (sm_cancelled M) \<Longrightarrow> n < sm_next M" "(u, n) \<in> set (sm_starting M) \<Longrightarrow> n < sm_next M"
    "shard_at M u = Some c \<Longrightarrow> sc_stop c = Some n \<Longrightarrow> n < sm_next M \<and> n \<notin> set (sm_cancelled M)"
    "shard_at M u = Some c \<Longrightarrow> sc_stop c = Some n \<Longrightarrow> shard_at M u' = Some c' \<Longrightarrow> sc_stop c' = Some n \<Longrightarrow> u = u'"
    "(u, n) \<in> set (sm_starting M) \<Longrightarrow> shard_at M u' = Some c \<Longrightarrow> sc_stop c = Some n \<Longrightarrow> u' = u"
  using assms unfolding shard_inv_def by blast+

lemma shard_inv_stop:
  assumes inv: "shard_inv M" and "stop_step req M (u, c) = Inr M'" "shard_at M u = Some c"
  shows "shard_inv M'"
proof (cases "u \<in> set req")
  case False
  then obtain n where n: "sc_stop c = Some n" and M': "M' = M\<lparr>sm_cancelled := sm_cancelled M @ [n], sm_controllers := AList.delete u (sm_controllers M)\<rparr>"
    using assms(2) by (auto simp: stop_step_def split: option.splits)
  show ?thesis
  proof (rule shard_inv_shrink [OF inv])
    show "m \<notin> set (sm_cancelled M') \<and> (\<exists>c'. shard_at M v = Some c' \<and> sc_stop c' = Some m)" if "shard_at M' v = Some d" "sc_stop d = Some m" for v d m
      using that shard_invD(4) [OF inv, of v d m] shard_invD(5) [OF inv assms(3) n, of v d] by (auto simp: M' delete_conv' split: if_splits)
    show "\<forall>m \<in> set (sm_cancelled M'). m < sm_next M'"
      using shard_invD(2) [OF inv] shard_invD(4) [OF inv assms(3) n] by (auto simp: M')
  qed (use shard_invD(1) [OF inv] in \<open>simp_all add: M' distinct_delete\<close>)
qed (use assms in \<open>simp add: stop_step_def\<close>)

lemma stop_at_other:
  assumes "stop_step req M (u, c) = Inr M'" "v \<noteq> u"
  shows "shard_at M' v = shard_at M v"
  using assms by (auto simp: stop_step_def delete_conv' split: if_splits option.splits)

lemma shard_inv_stop_loop:
  assumes "shard_inv M" "foldE (stop_step req) M cs = Inr M'" "distinct (map fst cs)" "\<forall>(u, c) \<in> set cs. shard_at M u = Some c"
  shows "shard_inv M'"
  using assms
proof (induction cs arbitrary: M)
  case (Cons e cs)
  obtain u c where e: "e = (u, c)" by (cases e)
  obtain M1 where s: "stop_step req M (u, c) = Inr M1" "foldE (stop_step req) M1 cs = Inr M'" using Cons.prems(2) by (auto simp: e bindE_Inr)
  have "shard_inv M1" using Cons.prems s(1) shard_inv_stop e by auto
  moreover have "\<forall>(v, d) \<in> set cs. shard_at M1 v = Some d" using Cons.prems(3,4) stop_at_other [OF s(1)] e by force
  ultimately show ?case using Cons.IH s(2) Cons.prems(3) e by auto
qed simp

lemma shard_inv_start:
  assumes "shard_inv M" "start_step V u (M, es) = (M', es')"
  shows "shard_inv M'"
proof (cases "shard_at M u")
  case None
  show ?thesis
  proof (cases "sv_new V (sm_next M) u")
    case (Inl e)
    then have M': "M' = M\<lparr>sm_next := Suc (sm_next M), sm_cancelled := sm_cancelled M @ [sm_next M]\<rparr>"
      using assms(2) None by (auto simp: start_step_def Let_def)
    show ?thesis
      by (rule shard_inv_shrink [OF assms(1)]) (use shard_invD(1,2,4) [OF assms(1)] in \<open>force simp: M'\<close>)+
  next
    case (Inr a)
    have M': "sm_controllers M' = AList.update u \<lparr>sc_access = Some a, sc_stop = Some (sm_next M), sc_ready = False\<rparr> (sm_controllers M)"
      "sm_cancelled M' = sm_cancelled M" "sm_next M' = Suc (sm_next M)" "sm_starting M' = sm_starting M @ [(u, sm_next M)]"
      using assms(2) None Inr by (auto simp: start_step_def Let_def)
    show ?thesis
      unfolding shard_inv_def
    proof (intro conjI allI impI ballI)
      have at: "shard_at M' v = Some d \<Longrightarrow> sc_stop d = Some m \<Longrightarrow> (v = u \<and> m = sm_next M) \<or> (v \<noteq> u \<and> shard_at M v = Some d \<and> m < sm_next M \<and> m \<notin> set (sm_cancelled M))" for v d m
        using shard_invD(4) [OF assms(1)] unfolding M' by (auto simp: update_conv' split: if_splits)
      show "n < sm_next M'" "n \<notin> set (sm_cancelled M')" if "shard_at M' v = Some c \<and> sc_stop c = Some n" for v c n
        using at that shard_invD(2) [OF assms(1)] by (auto simp: M' less_Suc_eq)
      show "v = v'" if "shard_at M' v = Some c \<and> sc_stop c = Some n \<and> shard_at M' v' = Some c' \<and> sc_stop c' = Some n" for v v' c c' n
        using at [of v c n] at [of v' c' n] that shard_invD(5) [OF assms(1)] by blast
      show "n < sm_next M'" if "(v, n) \<in> set (sm_starting M')" for v n
        using that shard_invD(3) [OF assms(1)] by (auto simp: M' less_Suc_eq)
      show "v' = v" if "(v, n) \<in> set (sm_starting M') \<and> shard_at M' v' = Some c \<and> sc_stop c = Some n" for v v' c n
        using at [of v' c n] that shard_invD(6) [OF assms(1), of v n v' c] shard_invD(3) [OF assms(1), of v n] by (auto simp: M')
    qed (use shard_invD(1,2) [OF assms(1)] in \<open>auto simp: M' distinct_update less_Suc_eq\<close>)
  qed
next
  case (Some c)
  then show ?thesis using assms by (simp add: start_step_def)
qed

lemma shard_inv_start_loop:
  assumes "shard_inv M" "fold (start_step V) us (M, es) = (M', errs)"
  shows "shard_inv M'"
  using assms
proof (induction us arbitrary: M es)
  case (Cons u us)
  then show ?case by (cases "start_step V u (M, es)") (auto intro: shard_inv_start)
qed simp

lemma shard_inv_done:
  assumes "shard_inv M" "(u, n) \<in> set (sm_starting M)"
  shows "shard_inv (start_done u n err M)"
proof (cases err)
  case None
  let ?M = "start_done u n None M"
  have at: "shard_at ?M v = (if v = u then Some ((case shard_at M u of None \<Rightarrow> zero_controllers | Some c \<Rightarrow> c)\<lparr>sc_ready := True\<rparr>) else shard_at M v)" for v
    by (simp add: start_done_def Let_def update_conv')
  have rest: "sm_next ?M = sm_next M" "sm_cancelled ?M = sm_cancelled M" "set (sm_starting ?M) \<subseteq> set (sm_starting M)"
    "distinct (map fst (sm_controllers ?M))"
    using shard_invD(1) [OF assms(1)] by (auto simp: start_done_def Let_def distinct_update)
  show ?thesis unfolding None
  proof (rule shard_inv_shrink [OF assms(1)])
    show "m \<notin> set (sm_cancelled ?M) \<and> (\<exists>c'. shard_at M v = Some c' \<and> sc_stop c' = Some m)" if "shard_at ?M v = Some d" "sc_stop d = Some m" for v d m
      using that shard_invD(4) [OF assms(1), of v _ m] unfolding rest at by (auto simp: zero_controllers_def split: if_splits option.splits)
  qed (use rest shard_invD(2) [OF assms(1)] in auto)
next
  case (Some e)
  let ?M = "start_done u n (Some e) M"
  have M: "?M = M\<lparr>sm_starting := removeAll (u, n) (sm_starting M), sm_controllers := AList.delete u (sm_controllers M), sm_cancelled := sm_cancelled M @ [n]\<rparr>"
    by (simp add: start_done_def)
  show ?thesis unfolding Some
  proof (rule shard_inv_shrink [OF assms(1)])
    show "m \<notin> set (sm_cancelled ?M) \<and> (\<exists>c'. shard_at M v = Some c' \<and> sc_stop c' = Some m)" if "shard_at ?M v = Some d" "sc_stop d = Some m" for v d m
      using that shard_invD(4) [OF assms(1), of v d m] shard_invD(6) [OF assms(1,2), of v d] unfolding M by (auto simp: delete_conv' split: if_splits)
    show "\<forall>m \<in> set (sm_cancelled ?M). m < sm_next ?M" using shard_invD(2) [OF assms(1)] shard_invD(3) [OF assms] by (auto simp: M)
  qed (use shard_invD(1) [OF assms(1)] in \<open>auto simp: M distinct_delete\<close>)
qed

inductive_cases shard_stepE: "shard_step V M M'"

lemma shard_inv_reconcile:
  assumes "shard_inv M" "shard_reconcile V target M = Inr (M', errs)"
  shows "shard_inv M'"
proof -
  obtain M1 where M1: "foldE (stop_step (requiredShards target)) M (sm_controllers M) = Inr M1"
    "fold (start_step V) (sv_order V (requiredShards target)) (M1, []) = (M', errs)"
    using assms(2) by (auto simp: shard_reconcile_def Let_def bindE_Inr)
  have "\<forall>(u, c) \<in> set (sm_controllers M). shard_at M u = Some c" using shard_invD(1) [OF assms(1)] by (auto intro: map_of_is_SomeI)
  then have "shard_inv M1" using shard_inv_stop_loop [OF assms(1) M1(1) shard_invD(1) [OF assms(1)]] by blast
  then show ?thesis using M1(2) by (rule shard_inv_start_loop)
qed

lemma shard_inv_step: "shard_step V M M' \<Longrightarrow> shard_inv M \<Longrightarrow> shard_inv M'"
  by (elim shard_stepE) (auto intro: shard_inv_reconcile shard_inv_done)

text \<open>
  C15: Under every interleaving of reconciliations and ending start goroutines, no shard is registered with a cancelled
  context, and no two shards share a context.
\<close>

theorem registered_shards_live:
  assumes "(shard_step V)\<^sup>*\<^sup>* no_shards M" "shard_at M u = Some c" "sc_stop c = Some n"
  shows "n \<notin> set (sm_cancelled M) \<and> (\<forall>u' c'. shard_at M u' = Some c' \<and> sc_stop c' = Some n \<longrightarrow> u' = u)"
proof -
  have "shard_inv no_shards" by (simp add: shard_inv_def no_shards_def)
  with assms(1) have "shard_inv M" by (induction rule: rtranclp_induct) (blast intro: shard_inv_step)+
  from shard_invD(4,5) [OF this] assms(2,3) show ?thesis by blast
qed

section \<open>Races\<close>

definition wanting :: "virtual_workspace list \<Rightarrow> sync_target" where
  "wanting us = ex_target\<lparr>st_Status := (st_Status ex_target)\<lparr>VirtualWorkspaces := us\<rparr>\<rparr>"

lemma requiredShards_wanting [simp]: "requiredShards (Some (wanting us)) = remdups us" "requiredShards None = []"
  by (simp_all add: requiredShards_def wanting_def)

lemma one_shard:
  assumes "\<And>us. mset (sv_order V us) = mset us"
  shows "sv_order V [u] = [u]" "sv_order V [] = []"
  using assms [of "[u]"] assms [of "[]"] by simp_all

lemma race_reachable:
  fixes a :: "nat \<Rightarrow> 'a" and u :: virtual_workspace
  assumes "\<And>us. mset (sv_order V us) = mset us" and new: "\<And>n u. sv_new V n u = Inr (a n)"
  defines "M2 \<equiv> \<lparr>sm_controllers = [], sm_cancelled = [0], sm_starting = [(u, 0)], sm_next = 1\<rparr>"
  shows "(shard_step V)\<^sup>*\<^sup>* no_shards M2"
    "shard_step V M2 \<lparr>sm_controllers = [(u, \<lparr>sc_access = Some (a 1), sc_stop = Some 1, sc_ready = False\<rparr>)], sm_cancelled = [0],
       sm_starting = [(u, 0), (u, 1)], sm_next = 2\<rparr>"
proof -
  let ?M1 = "\<lparr>sm_controllers = [(u, \<lparr>sc_access = Some (a 0), sc_stop = Some 0, sc_ready = False\<rparr>)], sm_cancelled = [], sm_starting = [(u, 0)], sm_next = 1\<rparr>"
  have "shard_reconcile V (Some (wanting [u])) no_shards = Inr (?M1, [])"
    by (simp add: shard_reconcile_def no_shards_def one_shard [OF assms(1)] start_step_def new)
  moreover have "shard_reconcile V None ?M1 = Inr (M2, [])"
    by (simp add: shard_reconcile_def one_shard [OF assms(1)] stop_step_def M2_def)
  ultimately show "(shard_step V)\<^sup>*\<^sup>* no_shards M2" by (meson shard_step.reconcile converse_rtranclp_into_rtranclp r_into_rtranclp)
  have "shard_reconcile V (Some (wanting [u])) M2 = Inr (\<lparr>sm_controllers = [(u, \<lparr>sc_access = Some (a 1), sc_stop = Some 1, sc_ready = False\<rparr>)],
      sm_cancelled = [0], sm_starting = [(u, 0), (u, 1)], sm_next = 2\<rparr>, [])"
    by (simp add: shard_reconcile_def M2_def one_shard [OF assms(1)] start_step_def new numeral_2_eq_2)
  then show "shard_step V M2 \<lparr>sm_controllers = [(u, \<lparr>sc_access = Some (a 1), sc_stop = Some 1, sc_ready = False\<rparr>)], sm_cancelled = [0],
       sm_starting = [(u, 0), (u, 1)], sm_next = 2\<rparr>"
    by (rule shard_step.reconcile)
qed

text \<open>
  A start that ends after its shard has been removed corrupts the table. If it succeeds, an empty entry is stored: every
  lookup that meets it panics, and so does the reconciliation that removes it. If it fails and the shard has been added again in the
  meantime, the entry of the new controllers is dropped although their context is not cancelled, so nothing stops them any more.
\<close>

theorem late_shard_start:
  fixes a :: "nat \<Rightarrow> 'a" and u :: virtual_workspace
  assumes "\<And>us. mset (sv_order V us) = mset us" "\<And>n u. sv_new V n u = Inr (a n)"
  shows "(\<exists>M. (shard_step V)\<^sup>*\<^sup>* no_shards M \<and> (\<forall>cluster. ShardAccessForCluster V M cluster = Inl (Panic ''nil pointer dereference''))
      \<and> shard_reconcile V None M = Inl (Panic ''call of a nil function''))
    \<and> (\<exists>M. (shard_step V)\<^sup>*\<^sup>* no_shards M \<and> sm_controllers M = [] \<and> (u, 1) \<in> set (sm_starting M) \<and> 1 \<notin> set (sm_cancelled M))"
proof
  note race = race_reachable [OF assms, of u]
  let ?M2 = "\<lparr>sm_controllers = [], sm_cancelled = [0], sm_starting = [(u, 0)], sm_next = 1\<rparr> :: 'a shard_manager"
  let ?M3 = "\<lparr>sm_controllers = [(u, \<lparr>sc_access = Some (a 1), sc_stop = Some 1, sc_ready = False\<rparr>)], sm_cancelled = [0],
       sm_starting = [(u, 0), (u, 1)], sm_next = 2\<rparr>"
  have "shard_step V ?M2 (start_done u 0 None ?M2)" by (rule shard_step.finish) simp
  with race(1) have "(shard_step V)\<^sup>*\<^sup>* no_shards (start_done u 0 None ?M2)" by (rule rtranclp.rtrancl_into_rtrancl)
  moreover have "ShardAccessForCluster V (start_done u 0 None ?M2) cluster = Inl (Panic ''nil pointer dereference'')" for cluster
    by (simp add: ShardAccessForCluster_def start_done_def zero_controllers_def)
  moreover have "shard_reconcile V None (start_done u 0 None ?M2) = Inl (Panic ''call of a nil function'')"
    by (simp add: shard_reconcile_def start_done_def stop_step_def zero_controllers_def)
  ultimately show "\<exists>M. (shard_step V)\<^sup>*\<^sup>* no_shards M \<and> (\<forall>cluster. ShardAccessForCluster V M cluster = Inl (Panic ''nil pointer dereference''))
      \<and> shard_reconcile V None M = Inl (Panic ''call of a nil function'')" by blast
  have "shard_step V ?M3 (start_done u 0 (Some NotFound) ?M3)" by (rule shard_step.finish) simp
  then have "(shard_step V)\<^sup>*\<^sup>* no_shards (start_done u 0 (Some NotFound) ?M3)"
    using race by (meson rtranclp.rtrancl_into_rtrancl)
  then show "\<exists>M. (shard_step V)\<^sup>*\<^sup>* no_shards M \<and> sm_controllers M = [] \<and> (u, 1) \<in> set (sm_starting M) \<and> 1 \<notin> set (sm_cancelled M)"
    by (intro exI [of _ "start_done u 0 (Some NotFound) ?M3"]) (simp add: start_done_def)
qed

section \<open>Tunnels and the controller\<close>

lemma tunnels_none:
  assumes "\<And>us. mset (order us) = mset us"
  shows "tunneler_reconcile order None T = T\<lparr>tn_started := [], tn_cancelled := tn_cancelled T @ map snd (tn_started T)\<rparr>"
  using assms [of "[]"] by (simp add: tunneler_reconcile_def)

text \<open>
  When the sync target is gone or has been replaced by another one with the same name, the syncer stops: every shard
  and every tunnel is stopped, at most the built-in types stay watched, and nothing is written to the server.
\<close>

theorem replaced_target_stops_syncer:
  assumes order: "\<And>gs. mset (ge_order (sx_gvr X) gs) = mset gs" "\<And>us. mset (sv_order (sx_shard X) us) = mset us" "\<And>us. mset (sx_tunnel_order X us) = mset us"
    and key: "sx_split X key = Inr (ns, name)" and gone: "sx_lister X name = Inl NotFound \<or> (\<exists>st. sx_lister X name = Inr st \<and> UID st \<noteq> sx_UID X)"
    and good: "distinct (map fst (sm_controllers (sy_shards S)))" "stoppable (sy_shards S)"
  shows "\<exists>S' errs. syncer_process X key S = Inr (False, S', [], errs)
    \<and> sm_controllers (sy_shards S') = [] \<and> (\<forall>(u, c) \<in> set (sm_controllers (sy_shards S)). the (sc_stop c) \<in> set (sm_cancelled (sy_shards S')))
    \<and> tn_started (sy_tunnels S') = [] \<and> snd ` set (tn_started (sy_tunnels S)) \<subseteq> set (tn_cancelled (sy_tunnels S'))
    \<and> watched (sy_gvrs S') \<subseteq> fst ` set builtinGVRs"
proof -
  obtain status target' gvrs errs where g: "gvr_reconcile (sx_gvr X) None (sy_gvrs S) = (status, target', gvrs, errs)"
    by (cases "gvr_reconcile (sx_gvr X) None (sy_gvrs S)")
  then have go: "status = Go_on" "target' = None" by (auto simp: gvr_reconcile_def Let_def split: prod.splits)
  have w: "watched gvrs \<subseteq> fst ` set builtinGVRs"
    using gvr_reconcile_watched [OF order(1) g] by (auto simp: getAllGVRs_def)
  obtain M' errs2 where M': "shard_reconcile (sx_shard X) None (sy_shards S) = Inr (M', errs2)"
    and old: "\<And>u c. shard_at (sy_shards S) u = Some c \<Longrightarrow> shard_at M' u = None \<and> the (sc_stop c) \<in> set (sm_cancelled M')"
    and new: "\<And>u. shard_at (sy_shards S) u = None \<Longrightarrow> shard_at M' u = None"
    using shard_reconcile_spec [OF order(2) good, of None] by auto
  have "shard_at M' u = None" for u using old new by (cases "shard_at (sy_shards S) u") auto
  then have none: "sm_controllers M' = []" by (simp add: map_of_eq_None_iff) (metis list.set_intros(1) list.map_disc_iff neq_Nil_conv list.set_map)
  have stopped: "the (sc_stop c) \<in> set (sm_cancelled M')" if "(u, c) \<in> set (sm_controllers (sy_shards S))" for u c
    using old good(1) that by (auto intro: map_of_is_SomeI)
  let ?S' = "S\<lparr>sy_gvrs := gvrs, sy_shards := M', sy_tunnels := tunneler_reconcile (sx_tunnel_order X) None (sy_tunnels S)\<rparr>"
  have "syncer_process X key S = Inr (False, ?S', [], errs @ errs2)"
    using gone by (auto simp: syncer_process_def key syncer_reconcile_def g go M' Let_def)
  then show ?thesis using none stopped w
    by (intro exI [of _ ?S'] exI [of _ "errs @ errs2"]) (auto simp: tunnels_none [OF order(3)])
qed

section \<open>The controller manager\<close>

lemma gvrs_synced_iff: "gvrs_synced synced notSynced gs = Inr () \<longleftrightarrow> set gs \<subseteq> set synced"
  by (induction gs) auto

lemma set_controllersToStart: "(name, c) \<in> set (controllersToStart synced notSynced managed) \<longleftrightarrow> (name, c) \<in> set managed \<and> set (mc_RequiredGVRs c) \<subseteq> set synced"
  by (auto simp: controllersToStart_def gvrs_synced_iff)

lemma manager_start_loop:
  "(\<forall>name n. map_of (mg_started G) name = Some n \<longrightarrow> map_of (mg_started (fold manager_start es G)) name = Some n)
   \<and> (\<forall>name. map_of (mg_started G) name = None \<longrightarrow>
        (map_of (mg_started (fold manager_start es G)) name \<noteq> None \<longleftrightarrow> (\<exists>c. (name, c) \<in> set es \<and> mc_Create c = None)))
   \<and> mg_cancelled (fold manager_start es G) = mg_cancelled G"
proof (induction es arbitrary: G)
  case (Cons e es)
  obtain name c where e: "e = (name, c)" by (cases e)
  let ?G = "manager_start e G"
  have cancelled: "mg_cancelled ?G = mg_cancelled G" by (simp add: manager_start_def e split: option.splits)
  have at: "map_of (mg_started ?G) v = (if v = name \<and> map_of (mg_started G) name = None \<and> mc_Create c = None then Some (mg_next G) else map_of (mg_started G) v)" for v
    by (auto simp: manager_start_def e update_conv' split: option.splits)
  have "map_of (mg_started (fold manager_start es ?G)) v \<noteq> None \<longleftrightarrow> (\<exists>d. (v, d) \<in> set (e # es) \<and> mc_Create d = None)"
    if "map_of (mg_started G) v = None" for v
  proof (cases "map_of (mg_started ?G) v")
    case None
    then show ?thesis using Cons.IH [of ?G] that at [of v] by (auto simp: e split: if_splits)
  next
    case (Some n)
    then show ?thesis using Cons.IH [of ?G] that at [of v] by (auto simp: e split: if_splits)
  qed
  moreover have "map_of (mg_started ?G) v = Some n" if "map_of (mg_started G) v = Some n" for v n using that at [of v] by (auto split: if_splits)
  ultimately show ?case using Cons.IH [of ?G] cancelled by simp
qed simp

text \<open>
  After a run of the controller manager exactly the managed controllers run whose required types all have a synced
  informer and that run already or could be created; a running one is never started twice, the others are cancelled. The
  run is repeated after a second exactly if the first missing type of some controller is known but not synced.
\<close>

theorem managed_controllers_exact:
  assumes "distinct (map fst managed)" "distinct (map fst (mg_started G))" "manager_process synced notSynced managed G = (G', calls)"
  shows "(\<forall>name. (case map_of managed name of
        Some c \<Rightarrow> set (mc_RequiredGVRs c) \<subseteq> set synced \<longrightarrow> (case map_of (mg_started G) name of
            Some n \<Rightarrow> map_of (mg_started G') name = Some n
          | None \<Rightarrow> map_of (mg_started G') name \<noteq> None \<longleftrightarrow> mc_Create c = None)
      | None \<Rightarrow> True))
    \<and> (\<forall>name. map_of (mg_started G') name \<noteq> None \<longrightarrow> (\<exists>c. map_of managed name = Some c \<and> set (mc_RequiredGVRs c) \<subseteq> set synced))
    \<and> (\<forall>name n. map_of (mg_started G) name = Some n \<and> map_of (mg_started G') name = None \<longrightarrow> n \<in> set (mg_cancelled G'))
    \<and> (calls \<noteq> [] \<longleftrightarrow> (\<exists>(name, c) \<in> set managed. gvrs_synced synced notSynced (mc_RequiredGVRs c) = Inl True))"
proof -
  let ?start = "controllersToStart synced notSynced managed"
  define G1 where "G1 = G\<lparr>mg_cancelled := mg_cancelled G @ map snd (filter (\<lambda>(name, _). name \<notin> fst ` set ?start) (mg_started G)),
      mg_started := filter (\<lambda>(name, _). name \<in> fst ` set ?start) (mg_started G)\<rparr>"
  have G': "G' = fold manager_start ?start G1" and calls: "calls \<noteq> [] \<longleftrightarrow> (\<exists>(name, c) \<in> set managed. gvrs_synced synced notSynced (mc_RequiredGVRs c) = Inl True)"
    using assms(3) by (auto simp: manager_process_def Let_def G1_def filter_empty_conv)
  have at1: "map_of (mg_started G1) name = (if name \<in> fst ` set ?start then map_of (mg_started G) name else None)" for name
    by (simp add: G1_def map_of_filter_key)
  have start: "name \<in> fst ` set ?start \<longleftrightarrow> (\<exists>c. map_of managed name = Some c \<and> set (mc_RequiredGVRs c) \<subseteq> set synced)" for name
  proof -
    have "name \<in> fst ` set ?start \<longleftrightarrow> (\<exists>c. (name, c) \<in> set ?start)" by force
    then show ?thesis by (simp add: set_controllersToStart map_of_eq_Some_iff [OF assms(1)])
  qed
  have create: "(\<exists>c. (name, c) \<in> set ?start \<and> mc_Create c = None) \<longleftrightarrow>
      (\<exists>c. map_of managed name = Some c \<and> set (mc_RequiredGVRs c) \<subseteq> set synced \<and> mc_Create c = None)" for name
    using assms(1) by (auto simp: set_controllersToStart)
  note loop = manager_start_loop [of G1 ?start, folded G']
  have 1: "case map_of managed name of Some c \<Rightarrow> set (mc_RequiredGVRs c) \<subseteq> set synced \<longrightarrow> (case map_of (mg_started G) name of
            Some n \<Rightarrow> map_of (mg_started G') name = Some n
          | None \<Rightarrow> map_of (mg_started G') name \<noteq> None \<longleftrightarrow> mc_Create c = None) | None \<Rightarrow> True" for name
    using loop at1 [of name] start [of name] create [of name] by (auto split: option.splits)
  have 2: "\<exists>c. map_of managed name = Some c \<and> set (mc_RequiredGVRs c) \<subseteq> set synced" if "map_of (mg_started G') name \<noteq> None" for name
    using loop at1 [of name] start [of name] create [of name] that by (cases "map_of (mg_started G1) name") (auto split: if_splits)
  have 3: "n \<in> set (mg_cancelled G')" if "map_of (mg_started G) name = Some n" "map_of (mg_started G') name = None" for name n
  proof -
    have "name \<notin> fst ` set ?start" using loop at1 [of name] that by (auto split: if_splits)
    moreover have "(name, n) \<in> set (mg_started G)" using that(1) by (rule map_of_SomeD)
    ultimately have "(name, n) \<in> set (filter (\<lambda>(name, _). name \<notin> fst ` set ?start) (mg_started G))" by simp
    from imageI [OF this, of snd] have "n \<in> snd ` set (filter (\<lambda>(name, _). name \<notin> fst ` set ?start) (mg_started G))" by simp
    moreover have "mg_cancelled G1 = mg_cancelled G @ map snd (filter (\<lambda>(name, _). name \<notin> fst ` set ?start) (mg_started G))" by (simp add: G1_def)
    ultimately have "n \<in> set (mg_cancelled G1)" by (simp only: set_append set_map) (rule UnI2)
    then show ?thesis using loop by simp
  qed
  show ?thesis using 1 2 3 calls by (intro conjI allI impI) (blast | assumption)+
qed

section \<open>Properties and witnesses\<close>

text \<open>
  The syncer watches exactly the resource types that its sync target has accepted (and the built-in ones) and that it may
  access and discover; a type whose access cannot be checked stays as it was. The subscribers are notified exactly
  when the set of watched types changes, whatever the order of the map iterations.
\<close>

theorem watched_types_follow_target:
  assumes order: "\<And>gs. mset (ge_order E gs) = mset gs" and r: "gvr_reconcile E target S = (status, target', S', errs)"
  shows "(\<forall>g. g \<in> watched S' \<longleftrightarrow> g \<in> set (getAllGVRs target) \<and>
        (discovered E g \<or> g \<in> watched S \<and> ge_isGVRAllowed E g \<noteq> Inr False))
    \<and> gs_subscribers S' = (if watched S' = watched S then gs_subscribers S else map (\<lambda>_. True) (gs_subscribers S))"
  using assms by (rule gvr_reconcile_watched)

definition ex_watched_gvr :: gvr where
  "ex_watched_gvr = \<lparr>gvr_Group = ''apps'', gvr_Version = ''v1'', gvr_Resource = ''deployments''\<rparr>"

definition ex_resource :: "string \<Rightarrow> api_resource" where
  "ex_resource r = \<lparr>ar_Name = r, ar_Namespaced = True, ar_Kind = r, ar_SingularName = r\<rparr>"

definition ex_gvr_env :: "(gvr \<Rightarrow> go_error + bool) \<Rightarrow> gvr_env" where
  "ex_gvr_env allowed =
     \<lparr>ge_isGVRAllowed = allowed,
      ge_ServerResources = (\<lambda>g _. Inr (if g = [] then [ex_resource ''configmaps'', ex_resource ''secrets''] else [ex_resource ''deployments''])),
      ge_String = gvr_Resource, ge_order = (\<lambda>gs. gs), ge_cond = basic_conditions, ge_Get = (\<lambda>cs t. find (\<lambda>c. c_Type c = t) cs)\<rparr>"

definition deploying :: sync_target where
  "deploying = ex_target\<lparr>st_Status := (st_Status ex_target)\<lparr>SyncedResources :=
     [\<lparr>rs_GroupResource = \<lparr>gr_Group = ''apps'', gr_Resource = ''deployments''\<rparr>, rs_Versions = [''v1''], rs_IdentityHash = [], rs_State = ResourceSchemaAcceptedState\<rparr>]\<rparr>\<rparr>"

theorem watched_types_follow_target_witness:
  "\<exists>status target' S' errs. gvr_reconcile (ex_gvr_env (\<lambda>_. Inr True)) (Some deploying) \<lparr>gs_gvrsToWatch = [], gs_subscribers = [False]\<rparr> = (status, target', S', errs)
    \<and> ex_watched_gvr \<in> watched S' \<and> gs_subscribers S' = [True]"
proof -
  let ?E = "ex_gvr_env (\<lambda>_. Inr True)" and ?S = "\<lparr>gs_gvrsToWatch = [], gs_subscribers = [False]\<rparr>"
  obtain status target' S' errs where r: "gvr_reconcile ?E (Some deploying) ?S = (status, target', S', errs)" by (metis prod_cases4)
  have "ex_watched_gvr \<in> set (getAllGVRs (Some deploying))" "discovered ?E ex_watched_gvr"
    by (simp_all add: getAllGVRs_def deploying_def resource_gvrs_def ex_watched_gvr_def insert_gvr_def builtinGVRs_def discovered_def ex_gvr_env_def
        getGVRPartialMetadata_def ex_resource_def)
  with watched_types_follow_target [OF _ r] r show ?thesis by (auto simp: ex_gvr_env_def)
qed

text \<open>
  A reconciliation brings the shards to those of the sync target: the controllers of every other shard are stopped and
  forgotten, those of a required shard that are there are kept as they are, and for every missing one new controllers
  are created under a fresh context and their start is begun; a required shard is missing afterwards only with an error.
\<close>

theorem shards_follow_target:
  assumes order: "\<And>us. mset (sv_order V us) = mset us" and dist: "distinct (map fst (sm_controllers M))" and stop: "stoppable M"
  shows "\<exists>M' errs. shard_reconcile V target M = Inr (M', errs)
    \<and> (\<forall>u c. shard_at M u = Some c \<longrightarrow> (if u \<in> set (requiredShards target) then shard_at M' u = Some c
          else shard_at M' u = None \<and> the (sc_stop c) \<in> set (sm_cancelled M')))
    \<and> (\<forall>u. shard_at M u = None \<longrightarrow> (if u \<in> set (requiredShards target) then fresh_shard (sm_next M) M' errs u else shard_at M' u = None))
    \<and> set (sm_starting M) \<subseteq> set (sm_starting M')"
  using assms by (rule shard_reconcile_spec)

definition ex_url :: "string \<Rightarrow> virtual_workspace" where
  "ex_url u = \<lparr>SyncerURL = u, UpsyncerURL = u\<rparr>"

definition ex_shard_lib :: "nat shard_env" where
  "ex_shard_lib = \<lparr>sv_new = (\<lambda>n _. Inr n), sv_Exists = (\<lambda>_ _. True), sv_order = (\<lambda>us. us)\<rparr>"

definition one_started :: "nat shard_manager" where
  "one_started = \<lparr>sm_controllers = [(ex_url ''a'', \<lparr>sc_access = Some 0, sc_stop = Some 0, sc_ready = True\<rparr>)], sm_cancelled = [], sm_starting = [], sm_next = 1\<rparr>"

theorem shards_follow_target_witness:
  "\<exists>M' errs. shard_reconcile ex_shard_lib (Some (wanting [ex_url ''b''])) one_started = Inr (M', errs)
    \<and> shard_at M' (ex_url ''a'') = None \<and> 0 \<in> set (sm_cancelled M') \<and> fresh_shard 1 M' errs (ex_url ''b'')"
proof -
  have at: "shard_at one_started (ex_url ''a'') = Some \<lparr>sc_access = Some 0, sc_stop = Some 0, sc_ready = True\<rparr>" "shard_at one_started (ex_url ''b'') = None"
    "sm_next one_started = 1" and ne: "ex_url ''a'' \<noteq> ex_url ''b''"
    by (simp_all add: one_started_def ex_url_def)
  have ok: "mset (sv_order ex_shard_lib us) = mset us" "distinct (map fst (sm_controllers one_started))" "stoppable one_started" for us
    by (simp_all add: ex_shard_lib_def one_started_def stoppable_def)
  from shards_follow_target [OF ok, of "Some (wanting [ex_url ''b''])"] obtain M' errs where
    r: "shard_reconcile ex_shard_lib (Some (wanting [ex_url ''b''])) one_started = Inr (M', errs)"
    and old: "\<And>u c. shard_at one_started u = Some c \<Longrightarrow> u \<noteq> ex_url ''b'' \<Longrightarrow> shard_at M' u = None \<and> the (sc_stop c) \<in> set (sm_cancelled M')"
    and new: "\<And>u. shard_at one_started u = None \<Longrightarrow> u = ex_url ''b'' \<Longrightarrow> fresh_shard (sm_next one_started) M' errs u"
    by auto
  show ?thesis using r old [OF at(1) ne] new [OF at(2) refl] at(3) by (intro exI conjI) auto
qed

theorem registered_shards_live_witness:
  "\<exists>M c. (shard_step ex_shard_lib)\<^sup>*\<^sup>* no_shards M \<and> shard_at M (ex_url ''a'') = Some c \<and> sc_stop c = Some 0 \<and> 0 \<notin> set (sm_cancelled M)"
proof -
  let ?c = "\<lparr>sc_access = Some 0, sc_stop = Some 0, sc_ready = False\<rparr>" and ?u = "ex_url ''a''"
  let ?M = "\<lparr>sm_controllers = [(?u, ?c)], sm_cancelled = [], sm_starting = [(?u, 0)], sm_next = 1\<rparr> :: nat shard_manager"
  have "shard_reconcile ex_shard_lib (Some (wanting [?u])) no_shards = Inr (?M, [])"
    by (simp add: shard_reconcile_def no_shards_def ex_shard_lib_def start_step_def)
  then have "(shard_step ex_shard_lib)\<^sup>*\<^sup>* no_shards ?M" by (blast intro: shard_step.reconcile)
  moreover have "shard_at ?M ?u = Some ?c" "sc_stop ?c = Some 0" by simp_all
  ultimately show ?thesis using registered_shards_live [of ex_shard_lib ?M ?u ?c 0] by blast
qed

theorem late_shard_start_witness:
  "\<exists>M. (shard_step ex_shard_lib)\<^sup>*\<^sup>* no_shards M \<and> shard_reconcile ex_shard_lib None M = Inl (Panic ''call of a nil function'')"
  using late_shard_start [of ex_shard_lib "\<lambda>n. n"] by (auto simp: ex_shard_lib_def)

definition ex_syncer :: "go_error + sync_target \<Rightarrow> gvr_env \<Rightarrow> nat syncer_env" where
  "ex_syncer st E = \<lparr>sx_gvr = E, sx_shard = ex_shard_lib, sx_tunnel_order = (\<lambda>us. us), sx_UID = ''uid'', sx_commit = basic_commit,
     sx_patcher = (\<lambda>_. None), sx_split = (\<lambda>key. Inr ([], key)), sx_lister = (\<lambda>_. st)\<rparr>"

definition ex_running :: "nat syncer_state" where
  "ex_running = \<lparr>sy_gvrs = \<lparr>gs_gvrsToWatch = [(ex_watched_gvr, \<lparr>pm_Scope = NamespaceScoped, pm_Singular = [], pm_Kind = []\<rparr>)], gs_subscribers = []\<rparr>,
     sy_shards = one_started, sy_tunnels = \<lparr>tn_started = [(''t'', 0)], tn_cancelled = [], tn_next = 1\<rparr>\<rparr>"

theorem replaced_target_stops_syncer_witness:
  "\<exists>S' errs. syncer_process (ex_syncer (Inr ex_target) (ex_gvr_env (\<lambda>_. Inr True))) ''east'' ex_running = Inr (False, S', [], errs)
    \<and> sm_controllers (sy_shards S') = [] \<and> 0 \<in> set (sm_cancelled (sy_shards S')) \<and> tn_started (sy_tunnels S') = []"
proof -
  let ?X = "ex_syncer (Inr ex_target) (ex_gvr_env (\<lambda>_. Inr True))"
  have "UID ex_target \<noteq> sx_UID ?X" by (simp add: ex_syncer_def ex_object_defs)
  then have "\<exists>S' errs. syncer_process ?X ''east'' ex_running = Inr (False, S', [], errs)
    \<and> sm_controllers (sy_shards S') = [] \<and> (\<forall>(u, c) \<in> set (sm_controllers (sy_shards ex_running)). the (sc_stop c) \<in> set (sm_cancelled (sy_shards S')))
    \<and> tn_started (sy_tunnels S') = [] \<and> snd ` set (tn_started (sy_tunnels ex_running)) \<subseteq> set (tn_cancelled (sy_tunnels S'))
    \<and> watched (sy_gvrs S') \<subseteq> fst ` set builtinGVRs"
    by (intro replaced_target_stops_syncer [of ?X "''east''" "[]" "''east''"])
       (simp_all add: ex_syncer_def ex_gvr_env_def ex_shard_lib_def ex_running_def one_started_def stoppable_def)
  then show ?thesis by (force simp: ex_running_def one_started_def)
qed

theorem managed_controllers_exact_witness:
  "\<exists>G' calls. manager_process [ex_watched_gvr] [] [(''a'', \<lparr>mc_RequiredGVRs = [ex_watched_gvr], mc_Create = None\<rparr>)]
       \<lparr>mg_started = [(''b'', 0)], mg_cancelled = [], mg_next = 1\<rparr> = (G', calls)
     \<and> map_of (mg_started G') ''a'' \<noteq> None \<and> map_of (mg_started G') ''b'' = None \<and> 0 \<in> set (mg_cancelled G') \<and> calls = []"
proof -
  let ?m = "[(''a'', \<lparr>mc_RequiredGVRs = [ex_watched_gvr], mc_Create = None\<rparr>)]" and ?G = "\<lparr>mg_started = [(''b'', 0)], mg_cancelled = [], mg_next = 1\<rparr>"
  obtain G' calls where r: "manager_process [ex_watched_gvr] [] ?m ?G = (G', calls)" by fastforce
  have "distinct (map fst ?m)" "distinct (map fst (mg_started ?G))" by simp_all
  note ok = managed_controllers_exact [OF this r]
  have a: "map_of (mg_started G') ''a'' \<noteq> None" using spec [OF conjunct1 [OF ok], of "''a''"] by simp
  have b: "map_of (mg_started G') ''b'' = None" using spec [OF conjunct1 [OF conjunct2 [OF ok]], of "''b''"] by auto
  have "0 \<in> set (mg_cancelled G')" using spec [OF spec [OF conjunct1 [OF conjunct2 [OF conjunct2 [OF ok]]]], of "''b''" 0] b by simp
  moreover have "calls = []" using conjunct2 [OF conjunct2 [OF conjunct2 [OF ok]]] by simp
  ultimately show ?thesis using a b r by blast
qed

theorem unauthorized_order_requeues_witness:
  "\<exists>st1 gvrs1 target' S' errs'. gvr_reconcile (ex_gvr_env (\<lambda>_. Inr False)) (Some ex_target) (sy_gvrs ex_running) = (StopRequeue, Some st1, gvrs1, [])
     \<and> syncer_reconcile (ex_syncer (Inr st1) ((ex_gvr_env (\<lambda>_. Inr False))\<lparr>ge_order := rev\<rparr>)) (Some st1) (ex_running\<lparr>sy_gvrs := gvrs1\<rparr>)
         = Inr (True, target', S', errs')"
proof -
  let ?E = "ex_gvr_env (\<lambda>_. Inr False)"
  have "\<exists>st1 gvrs1. gvr_reconcile ?E (Some ex_target) (sy_gvrs ex_running) = (StopRequeue, Some st1, gvrs1, [])"
    by (simp add: gvr_reconcile_def getAllGVRs_def builtinGVRs_def ex_gvr_env_def gvr_step_def removeUnusedGVRs_def ex_running_def ex_watched_gvr_def
        notifySubscribers_def mark_authorized_def ex_object_defs SyncerAuthorized_def ReadyCondition_def instance_defs set_condition_def
        on_sync_target_conditions_def)
  then obtain st1 gvrs1 where r: "gvr_reconcile ?E (Some ex_target) (sy_gvrs ex_running) = (StopRequeue, Some st1, gvrs1, [])" by blast
  let ?X' = "ex_syncer (Inr st1) (?E\<lparr>ge_order := rev\<rparr>)"
  let ?X = "ex_syncer (Inr ex_target) ?E"
  have X: "sx_gvr ?X = ?E" "sx_gvr ?X' = (sx_gvr ?X)\<lparr>ge_order := rev\<rparr>" "sy_gvrs (ex_running\<lparr>sy_gvrs := gvrs1\<rparr>) = gvrs1" by (simp_all add: ex_syncer_def)
  have names: "unauthorized_names ?E gs = map gvr_Resource gs" "ge_order ?E gs = gs" for gs
    by (simp_all add: unauthorized_names_def ex_gvr_env_def)
  have req: "map gvr_Resource (getAllGVRs (Some ex_target)) = [''configmaps'', ''secrets'']"
    by (simp add: getAllGVRs_def builtinGVRs_def ex_object_defs)
  have r': "gvr_reconcile (sx_gvr ?X) (Some ex_target) (sy_gvrs ex_running) = (StopRequeue, Some st1, gvrs1, [])" using r unfolding X(1) .
  have get: "ge_Get ?E (MarkFalse (ge_cond ?E) t r s m cs) t = ge_Get ?E (MarkFalse (ge_cond ?E) t r s m' cs') t \<Longrightarrow> m = m'" for t r s m m' cs cs'
    by (simp add: ex_gvr_env_def instance_defs set_condition_def)
  have "\<exists>target' gvrs' errs'. syncer_reconcile ?X' (Some st1) (ex_running\<lparr>sy_gvrs := gvrs1\<rparr>) = Inr (True, target', ex_running\<lparr>sy_gvrs := gvrs1, sy_gvrs := gvrs'\<rparr>, errs')"
  proof (rule unauthorized_order_requeues [OF r' X(2,3)])
    fix t r s m m' cs cs'
    assume "ge_Get (sx_gvr ?X) (MarkFalse (ge_cond (sx_gvr ?X)) t r s m cs) t = ge_Get (sx_gvr ?X) (MarkFalse (ge_cond (sx_gvr ?X)) t r s m' cs') t"
    then show "m = m'" unfolding X(1) by (rule get)
  qed (simp_all add: X(1) names req rev_map [symmetric])
  with r show ?thesis by blast
qed

end
