(* ===== verification/API_Resource.thy ===== *)
theory API_Resource
  imports API_Types API_Calls
begin

text \<open>
  The API group of imported and negotiated resource types, \<^verbatim>\<open>src/apis/apiresource/v1alpha1\<close>: \<open>APIResourceImport\<close>,
  \<open>NegotiatedAPIResource\<close>, their conditions, column definitions and subresources; and the part of a
  \<open>CustomResourceDefinition\<close> that the negotiation reads and writes.

  A schema is a value of the type parameter \<open>'s\<close>; an object carries it as JSON text. The conditions
  of an object form a store, which the interpretation of \<open>go_store\<close> states.
\<close>

section \<open>Conditions\<close>

record api_condition =
  ac_Type :: string
  ac_Status :: string
  ac_LastTransitionTime :: time
  ac_Reason :: string
  ac_Message :: string

definition FindCondition :: "api_condition list \<Rightarrow> string \<Rightarrow> api_condition option" where
  "FindCondition cs t = find (\<lambda>c. ac_Type c = t) cs"

text \<open>An assignment through the pointer that \<open>FindCondition\<close> returns.\<close>

fun map_first :: "('a \<Rightarrow> bool) \<Rightarrow> ('a \<Rightarrow> 'a) \<Rightarrow> 'a list \<Rightarrow> 'a list" where
  "map_first P f [] = []"
| "map_first P f (x # xs) = (if P x then f x # xs else x # map_first P f xs)"

definition overwrite_condition :: "api_condition \<Rightarrow> api_condition \<Rightarrow> api_condition" where
  "overwrite_condition newCondition existingCondition =
     existingCondition\<lparr>
       ac_LastTransitionTime := (if ac_Status existingCondition \<noteq> ac_Status newCondition \<or> ac_LastTransitionTime existingCondition = 0
         then ac_LastTransitionTime newCondition else ac_LastTransitionTime existingCondition),
       ac_Status := ac_Status newCondition, ac_Reason := ac_Reason newCondition, ac_Message := ac_Message newCondition\<rparr>"

definition SetCondition :: "time \<Rightarrow> api_condition \<Rightarrow> api_condition list \<Rightarrow> api_condition list" where
  "SetCondition now newCondition cs =
     (let newCondition = newCondition\<lparr>ac_LastTransitionTime := now\<rparr> in
      case FindCondition cs (ac_Type newCondition) of
        None \<Rightarrow> cs @ [newCondition]
      | Some _ \<Rightarrow> map_first (\<lambda>c. ac_Type c = ac_Type newCondition) (overwrite_condition newCondition) cs)"

definition RemoveCondition :: "string \<Rightarrow> api_condition list \<Rightarrow> api_condition list" where
  "RemoveCondition t cs = filter (\<lambda>c. ac_Type c \<noteq> t) cs"

fun IsConditionPresentAndEqual :: "api_condition list \<Rightarrow> string \<Rightarrow> string \<Rightarrow> bool" where
  "IsConditionPresentAndEqual [] t s = False"
| "IsConditionPresentAndEqual (c # cs) t s = (if ac_Type c = t then ac_Status c = s else IsConditionPresentAndEqual cs t s)"

definition IsConditionTrue :: "api_condition list \<Rightarrow> string \<Rightarrow> bool" where
  "IsConditionTrue cs t = IsConditionPresentAndEqual cs t ''True''"

definition IsConditionFalse :: "api_condition list \<Rightarrow> string \<Rightarrow> bool" where
  "IsConditionFalse cs t = IsConditionPresentAndEqual cs t ''False''"

definition ConditionEquivalent :: "api_condition option \<Rightarrow> api_condition option \<Rightarrow> bool" where
  "ConditionEquivalent lhs rhs =
     (case (lhs, rhs) of
        (None, None) \<Rightarrow> True
      | (Some l, Some r) \<Rightarrow> ac_Message l = ac_Message r \<and> ac_Reason l = ac_Reason r \<and> ac_Status l = ac_Status r \<and> ac_Type l = ac_Type r
      | _ \<Rightarrow> False)"

definition new_condition :: "string \<Rightarrow> string \<Rightarrow> string \<Rightarrow> string \<Rightarrow> api_condition" where
  "new_condition t s r m = \<lparr>ac_Type = t, ac_Status = s, ac_LastTransitionTime = 0, ac_Reason = r, ac_Message = m\<rparr>"

definition Compatible :: string where "Compatible = ''Compatible''"
definition Available :: string where "Available = ''Available''"
definition Submitted :: string where "Submitted = ''Submitted''"
definition Published :: string where "Published = ''Published''"
definition Enforced :: string where "Enforced = ''Enforced''"

section \<open>Columns, subresources, versions\<close>

record column_definition =
  cd_Name :: string
  cd_Type :: string
  cd_Format :: string
  cd_Description :: string
  cd_Priority :: int
  cd_JSONPath :: "string option"

record crd_column =
  cc_Name :: string
  cc_Type :: string
  cc_Format :: string
  cc_Description :: string
  cc_Priority :: int
  cc_JSONPath :: string

record crd_subresources =
  sub_Scale :: "(string \<times> string) option"    \<comment> \<open>the paths of the replicas in spec and status\<close>
  sub_Status :: bool

record 's crd_version =
  cv_Name :: string
  cv_Served :: bool
  cv_Storage :: bool
  cv_Schema :: "'s option option"              \<comment> \<open>two pointers: \<open>Schema\<close> and \<open>OpenAPIV3Schema\<close>\<close>
  cv_Subresources :: "crd_subresources option"
  cv_Columns :: "crd_column list"

definition column_of :: "crd_column \<Rightarrow> column_definition" where
  "column_of apc = \<lparr>cd_Name = cc_Name apc, cd_Type = cc_Type apc, cd_Format = cc_Format apc, cd_Description = cc_Description apc,
     cd_Priority = cc_Priority apc, cd_JSONPath = Some (cc_JSONPath apc)\<rparr>"

definition columns_ImportFromCRDVersion :: "'s crd_version \<Rightarrow> column_definition list \<Rightarrow> column_definition list" where
  "columns_ImportFromCRDVersion crdVersion cd =
     fold (\<lambda>apc cd. if \<exists>colDef \<in> set cd. cd_Name colDef = cc_Name apc then cd else cd @ [column_of apc]) (cv_Columns crdVersion) cd"

fun ToCustomResourceColumnDefinitions :: "column_definition list \<Rightarrow> crd_column list" where
  "ToCustomResourceColumnDefinitions [] = []"
| "ToCustomResourceColumnDefinitions (cd # cds) =
     (case cd_JSONPath cd of
        None \<Rightarrow> ToCustomResourceColumnDefinitions cds
      | Some path \<Rightarrow> \<lparr>cc_Name = cd_Name cd, cc_Type = cd_Type cd, cc_Format = cd_Format cd, cc_Description = cd_Description cd,
            cc_Priority = cd_Priority cd, cc_JSONPath = path\<rparr> # ToCustomResourceColumnDefinitions cds)"

definition ScaleSubResourceName :: string where "ScaleSubResourceName = ''scale''"
definition StatusSubResourceName :: string where "StatusSubResourceName = ''status''"

definition SubResources_Contains :: "string list \<Rightarrow> string \<Rightarrow> bool" where
  "SubResources_Contains sr name = (\<exists>r \<in> set sr. r = name)"

definition subresources_ImportFromCRDVersion :: "'s crd_version \<Rightarrow> string list \<Rightarrow> string list" where
  "subresources_ImportFromCRDVersion crdVersion sr =
     (case cv_Subresources crdVersion of
        None \<Rightarrow> sr
      | Some subs \<Rightarrow>
          (let sr1 = (if sub_Scale subs \<noteq> None \<and> \<not> SubResources_Contains sr ScaleSubResourceName then sr @ [ScaleSubResourceName] else sr) in
           if sub_Status subs \<and> \<not> SubResources_Contains sr1 StatusSubResourceName then sr1 @ [StatusSubResourceName] else sr1))"

section \<open>Objects\<close>

record crd_names =
  nm_Plural :: string
  nm_Singular :: string
  nm_ShortNames :: "string list"
  nm_Kind :: string
  nm_ListKind :: string
  nm_Categories :: "string list"

record api_spec =
  as_Group :: string
  as_Version :: string
  as_Scope :: string
  as_Names :: crd_names
  as_Schema :: string
  as_SubResources :: "string list"
  as_Columns :: "column_definition list"

definition APIGroup :: "string \<Rightarrow> string" where
  "APIGroup g = (if g = ''core'' then [] else g)"

text \<open>\<open>metav1.GroupVersion.String\<close> writes the version alone for the empty group.\<close>

definition APIVersion :: "string \<Rightarrow> string \<Rightarrow> string" where
  "APIVersion g v = (if APIGroup g = [] then v else APIGroup g @ ''/'' @ v)"

record api_import = object_meta +
  ai_Generation :: int
  ai_Spec :: api_spec
  ai_SchemaUpdateStrategy :: string
  ai_Location :: string
  ai_Conditions :: "api_condition list"

record negotiated = object_meta +
  na_Generation :: int
  na_Spec :: api_spec
  na_Publish :: bool
  na_Conditions :: "api_condition list"

record owner_reference =
  or_APIVersion :: string
  or_Kind :: string
  or_Name :: string
  or_UID :: string

record 's crd = object_meta +
  crd_Generation :: int
  crd_Owners :: "owner_reference list"
  crd_Group :: string
  crd_Names :: crd_names
  crd_Scope :: string
  crd_Versions :: "'s crd_version list"
  crd_Conditions :: "(string \<times> string) list"

definition spec_GVR :: "api_spec \<Rightarrow> gvr" where
  "spec_GVR s = \<lparr>gvr_Group = as_Group s, gvr_Version = as_Version s, gvr_Resource = nm_Plural (as_Names s)\<rparr>"

definition import_GVR :: "api_import \<Rightarrow> gvr" where "import_GVR i = spec_GVR (ai_Spec i)"
definition negotiated_GVR :: "negotiated \<Rightarrow> gvr" where "negotiated_GVR n = spec_GVR (na_Spec n)"

definition UpdateNever :: string where "UpdateNever = ''UpdateNever''"
definition UpdateUnpublished :: string where "UpdateUnpublished = ''UpdateUnpublished''"
definition UpdatePublished :: string where "UpdatePublished = ''UpdatePublished''"

definition CanUpdate :: "string \<Rightarrow> bool \<Rightarrow> bool" where
  "CanUpdate strategy negotiatedAPIResourceIsPublished =
     (if strategy = UpdateNever then False
      else if strategy = UpdateUnpublished then \<not> negotiatedAPIResourceIsPublished
      else if strategy = UpdatePublished then True
      else False)"

definition APIVersionAnnotation :: string where "APIVersionAnnotation = ''apiresource.kcp.io/apiVersion''"
definition KubeAPIApprovedAnnotation :: string where "KubeAPIApprovedAnnotation = ''api-approved.kubernetes.io''"

text \<open>JSON encoding of schemas: \<open>json.Unmarshal\<close> into a fresh schema, \<open>json.Marshal\<close> of a pointer.\<close>

definition GetSchema :: "(string \<Rightarrow> go_error + 's) \<Rightarrow> api_spec \<Rightarrow> go_error + 's" where
  "GetSchema decode spec = decode (as_Schema spec)"

definition SetSchema :: "('s option \<Rightarrow> go_error + string) \<Rightarrow> 's option \<Rightarrow> api_spec \<Rightarrow> go_error + api_spec" where
  "SetSchema encode s spec = bindE (encode s) (\<lambda>bytes. Inr (spec\<lparr>as_Schema := bytes\<rparr>))"

text \<open>\<open>version.Schema.OpenAPIV3Schema\<close>.\<close>

definition version_schema :: "'s crd_version \<Rightarrow> go_error + 's option" where
  "version_schema v = (case cv_Schema v of None \<Rightarrow> Inl (Panic ''nil pointer dereference'') | Some s \<Rightarrow> Inr s)"

section \<open>Lemmas\<close>

lemma find_map_first: "(\<And>x. P (f x) = P x) \<Longrightarrow> find P (map_first P f xs) = map_option f (find P xs)"
  by (induction xs) auto

lemma find_map_first_other: "(\<And>x. P x \<Longrightarrow> \<not> Q x \<and> \<not> Q (f x)) \<Longrightarrow> find Q (map_first P f xs) = find Q xs"
  by (induction xs) auto

lemma overwrite_type [simp]: "ac_Type (overwrite_condition n e) = ac_Type e"
  by (simp add: overwrite_condition_def)

lemma find_append_one: "find P (xs @ [x]) = (case find P xs of None \<Rightarrow> (if P x then Some x else None) | Some y \<Rightarrow> Some y)"
  by (induction xs) auto

lemma IsConditionPresentAndEqual_iff: "IsConditionPresentAndEqual cs t s \<longleftrightarrow> (\<exists>c. FindCondition cs t = Some c \<and> ac_Status c = s)"
  by (induction cs) (auto simp: FindCondition_def)

text \<open>What a condition says, apart from the time.\<close>

definition condition_content :: "api_condition list \<Rightarrow> string \<Rightarrow> (string \<times> string \<times> string) option" where
  "condition_content cs t = map_option (\<lambda>c. (ac_Status c, ac_Reason c, ac_Message c)) (FindCondition cs t)"

lemma IsCondition_content:
  "IsConditionTrue cs t \<longleftrightarrow> (\<exists>r m. condition_content cs t = Some (''True'', r, m))"
  "IsConditionFalse cs t \<longleftrightarrow> (\<exists>r m. condition_content cs t = Some (''False'', r, m))"
  by (auto simp: IsConditionTrue_def IsConditionFalse_def IsConditionPresentAndEqual_iff condition_content_def)

lemma condition_content_set [simp]:
  "condition_content (SetCondition now c cs) t =
     (if t = ac_Type c then Some (ac_Status c, ac_Reason c, ac_Message c) else condition_content cs t)"
proof (cases "FindCondition cs (ac_Type c)")
  case None
  then show ?thesis
    by (auto simp: SetCondition_def condition_content_def FindCondition_def find_append_one split: option.split)
next
  case (Some e)
  let ?c = "c\<lparr>ac_LastTransitionTime := now\<rparr>"
  have set: "SetCondition now c cs = map_first (\<lambda>d. ac_Type d = ac_Type c) (overwrite_condition ?c) cs"
    using Some by (simp add: SetCondition_def)
  show ?thesis
  proof (cases "t = ac_Type c")
    case True
    have "FindCondition (SetCondition now c cs) t = Some (overwrite_condition ?c e)"
      using Some unfolding set True FindCondition_def by (simp add: find_map_first)
    then show ?thesis using True by (simp add: condition_content_def overwrite_condition_def)
  next
    case False
    then have "FindCondition (SetCondition now c cs) t = FindCondition cs t"
      unfolding set FindCondition_def by (intro find_map_first_other) auto
    then show ?thesis using False by (simp add: condition_content_def)
  qed
qed

lemma find_filter_neq: "find (\<lambda>c. ac_Type c = t') (filter (\<lambda>c. ac_Type c \<noteq> t) cs) = (if t' = t then None else find (\<lambda>c. ac_Type c = t') cs)"
  by (induction cs) auto

lemma condition_content_remove [simp]:
  "condition_content (RemoveCondition t cs) t' = (if t' = t then None else condition_content cs t')"
  by (simp add: condition_content_def RemoveCondition_def FindCondition_def find_filter_neq)

interpretation condition_store: go_store condition_content
    "\<lambda>t (s, r, m). SetCondition now (new_condition t s r m)" RemoveCondition for now
  by unfold_locales (auto simp: new_condition_def split: prod.splits)

lemma new_condition_simps [simp]:
  "ac_Type (new_condition t s r m) = t" "ac_Status (new_condition t s r m) = s"
  "ac_Reason (new_condition t s r m) = r" "ac_Message (new_condition t s r m) = m"
  by (simp_all add: new_condition_def)

lemma condition_names [simp]:
  "Compatible \<noteq> Available" "Available \<noteq> Compatible" "Published \<noteq> Enforced" "Enforced \<noteq> Published"
  "Submitted \<noteq> Published" "Published \<noteq> Submitted" "Submitted \<noteq> Enforced" "Enforced \<noteq> Submitted"
  by (simp_all add: Compatible_def Available_def Published_def Enforced_def Submitted_def)

end
