(* ===== verification/Negotiation.thy ===== *)
theory Negotiation
  imports API_Resource Merge_Patch Work_Queue
begin

text \<open>
  \<^verbatim>\<open>src/pkg/reconciler/apiresource\<close>: the schemas that physical clusters offer for a resource type are negotiated into one
  schema, which is published as a CRD. An \<open>APIResourceImport\<close> is the offer of one location, a \<open>NegotiatedAPIResource\<close>
  the result, and a CRD that was created by hand enforces its own schema.

  Parameters (record \<open>nego_env\<close>): JSON coding of schemas, the comparison of two schemas with its largest common denominator
  (\<^verbatim>\<open>schemacompat\<close>, a package outside the repository), the helpers for CRDs, the order of version names, the indexes and listers, and
  the answers of the servers. All conditions of one run get the same time.
\<close>

section \<open>Queue elements\<close>

datatype element_type = CRDType | NegotiatedType | ImportType | NoType

datatype element_action = SpecChanged | StatusOnlyChanged | AnnotationOrLabelsOnlyChanged | Deleted | Created

datatype 's api_object = CRDObject "'s crd" | ImportObject api_import | NegotiatedObject negotiated | Tombstone "'s api_object" | OtherObject

record 's queue_element =
  qe_Action :: element_action
  qe_Type :: element_type
  qe_Key :: string
  qe_GVR :: gvr
  qe_ClusterName :: string
  qe_Deleted :: "'s api_object option"

datatype 's object_status = CRDStatus "(string \<times> string) list" | ConditionsStatus "api_condition list"

text \<open>Type, GVR, and for the old and the new object the metadata, the generation and the status.\<close>

type_synonym 's object_view = "object_meta \<times> int \<times> 's object_status"

definition crd_view :: "'s crd \<Rightarrow> 's object_view" where
  "crd_view c = (object_meta.truncate c, crd_Generation c, CRDStatus (crd_Conditions c))"
definition import_view :: "api_import \<Rightarrow> 's object_view" where
  "import_view i = (object_meta.truncate i, ai_Generation i, ConditionsStatus (ai_Conditions i))"
definition negotiated_view :: "negotiated \<Rightarrow> 's object_view" where
  "negotiated_view n = (object_meta.truncate n, na_Generation n, ConditionsStatus (na_Conditions n))"

fun toQueueElementType ::
  "'s api_object option \<Rightarrow> 's api_object \<Rightarrow> go_error + (element_type \<times> gvr \<times> 's object_view option \<times> 's object_view option)" where
  "toQueueElementType oldObj (CRDObject c) =
     (let r = \<lparr>gvr_Group = crd_Group c, gvr_Version = [], gvr_Resource = nm_Plural (crd_Names c)\<rparr> in
      case oldObj of
        None \<Rightarrow> Inr (CRDType, r, None, Some (crd_view c))
      | Some (CRDObject old) \<Rightarrow> Inr (CRDType, r, Some (crd_view old), Some (crd_view c))
      | Some _ \<Rightarrow> Inl (Panic ''interface conversion''))"
| "toQueueElementType oldObj (ImportObject i) =
     (case oldObj of
        None \<Rightarrow> Inr (ImportType, import_GVR i, None, Some (import_view i))
      | Some (ImportObject old) \<Rightarrow> Inr (ImportType, import_GVR i, Some (import_view old), Some (import_view i))
      | Some _ \<Rightarrow> Inl (Panic ''interface conversion''))"
| "toQueueElementType oldObj (NegotiatedObject n) =
     (case oldObj of
        None \<Rightarrow> Inr (NegotiatedType, negotiated_GVR n, None, Some (negotiated_view n))
      | Some (NegotiatedObject old) \<Rightarrow> Inr (NegotiatedType, negotiated_GVR n, Some (negotiated_view old), Some (negotiated_view n))
      | Some _ \<Rightarrow> Inl (Panic ''interface conversion''))"
| "toQueueElementType oldObj (Tombstone obj) = toQueueElementType None obj"
| "toQueueElementType oldObj OtherObject = Inr (NoType, \<lparr>gvr_Group = [], gvr_Version = [], gvr_Resource = []\<rparr>, None, None)"

datatype handler_action = AddHandler | UpdateHandler | DeleteHandler

text \<open>The action of an update event, \<open>None\<close> if the event is ignored.\<close>

definition update_action :: "'s object_view option \<Rightarrow> 's object_view option \<Rightarrow> go_error + element_action option" where
  "update_action old new =
     (case (old, new) of
        (None, _) \<Rightarrow> Inr (Some Created)
      | (Some _, None) \<Rightarrow> Inl (Panic ''nil pointer dereference'')
      | (Some (oldMeta, oldGeneration, oldStatus), Some (newMeta, newGeneration, newStatus)) \<Rightarrow>
          if ResourceVersion oldMeta = ResourceVersion newMeta then Inr None
          else if oldGeneration \<noteq> newGeneration then Inr (Some SpecChanged)
          else if oldStatus \<noteq> newStatus then Inr (Some StatusOnlyChanged)
          else if \<not> map_equal (entries (Annotations oldMeta)) (entries (Annotations newMeta))
            \<or> map_equal (entries (Labels oldMeta)) (entries (Labels newMeta)) then Inr (Some AnnotationOrLabelsOnlyChanged)
          else Inr None)"

definition nego_enqueue ::
  "('s api_object \<Rightarrow> go_error + string) \<Rightarrow> handler_action \<Rightarrow> 's api_object option \<Rightarrow> 's api_object \<Rightarrow> go_error + 's queue_element list" where
  "nego_enqueue keyFunc action oldObj obj =
     (case keyFunc obj of
        Inl _ \<Rightarrow> Inr []
      | Inr key \<Rightarrow>
          bindE (toQueueElementType oldObj obj) (\<lambda>(theType, r, old, new).
          bindE (case action of AddHandler \<Rightarrow> Inr (Some Created) | DeleteHandler \<Rightarrow> Inr (Some Deleted) | UpdateHandler \<Rightarrow> update_action old new) (\<lambda>theAction.
          case theAction of None \<Rightarrow> Inr []
          | Some a \<Rightarrow>
              (case new of None \<Rightarrow> Inl (Panic ''nil pointer dereference'')
               | Some (newMeta, _, _) \<Rightarrow>
                   Inr [\<lparr>qe_Action = a, qe_Type = theType, qe_Key = key, qe_GVR = r, qe_ClusterName = Cluster newMeta,
                     qe_Deleted = (if action = DeleteHandler then Some obj else None)\<rparr>]))))"

section \<open>Environment\<close>

datatype 's nego_call =
    NegotiatedUpdate string negotiated | NegotiatedCreate string negotiated | NegotiatedGet string string | NegotiatedDelete string string
  | ImportUpdate string api_import | CRDCreate string "'s crd" | CRDUpdate string "'s crd" | CRDDelete string string

record 's nego_env =
  nv_now :: time
  nv_decode :: "string \<Rightarrow> go_error + 's"
  nv_encode :: "'s option \<Rightarrow> go_error + string"
  nv_compat :: "string \<Rightarrow> 's \<Rightarrow> 's \<Rightarrow> bool \<Rightarrow> go_error + 's"       \<comment> \<open>\<open>EnsureStructuralSchemaCompatibility\<close>\<close>
  nv_IsCRDConditionTrue :: "(string \<times> string) list \<Rightarrow> string \<Rightarrow> bool"
  nv_IsCRDConditionFalse :: "(string \<times> string) list \<Rightarrow> string \<Rightarrow> bool"
  nv_compareVersions :: "string \<Rightarrow> string \<Rightarrow> int"                       \<comment> \<open>\<open>CompareKubeAwareVersionStrings\<close>\<close>
  nv_IsProtectedCommunityGroup :: "string \<Rightarrow> bool"
  nv_SetDefaults :: "'s crd \<Rightarrow> 's crd"
  nv_gvrString :: "gvr \<Rightarrow> string"
  nv_SplitKey :: "string \<Rightarrow> go_error + (string \<times> string)"               \<comment> \<open>cluster and name\<close>
  nv_negotiatedIndex :: "string \<Rightarrow> go_error + negotiated list"
  nv_importIndex :: "string \<Rightarrow> go_error + api_import list"
  nv_negotiatedLister :: "string \<Rightarrow> string \<Rightarrow> go_error + negotiated"
  nv_importLister :: "string \<Rightarrow> string \<Rightarrow> go_error + api_import"
  nv_crdLister :: "string \<Rightarrow> string \<Rightarrow> go_error + 's crd"
  nv_created :: "negotiated \<Rightarrow> negotiated"                              \<comment> \<open>the object that \<open>Create\<close> returns\<close>
  nv_negotiatedGet :: "string \<Rightarrow> string \<Rightarrow> go_error + negotiated"
  nv_answer :: "'s nego_call \<Rightarrow> go_error option"

definition GetClusterNameAndGVRIndexKey :: "'s nego_env \<Rightarrow> string \<Rightarrow> gvr \<Rightarrow> string" where
  "GetClusterNameAndGVRIndexKey E clusterName r = clusterName @ ''$'' @ nv_gvrString E r"

definition IndexNegotiated :: "'s nego_env \<Rightarrow> negotiated \<Rightarrow> string list" where
  "IndexNegotiated E n = [GetClusterNameAndGVRIndexKey E (Cluster n) (negotiated_GVR n)]"
definition IndexImport :: "'s nego_env \<Rightarrow> api_import \<Rightarrow> string list" where
  "IndexImport E i = [GetClusterNameAndGVRIndexKey E (Cluster i) (import_GVR i)]"
definition IndexCRD :: "'s nego_env \<Rightarrow> 's crd \<Rightarrow> string list" where
  "IndexCRD E c = [GetClusterNameAndGVRIndexKey E (Cluster c) \<lparr>gvr_Group = crd_Group c, gvr_Version = [], gvr_Resource = nm_Plural (crd_Names c)\<rparr>]"

definition negotiated_for :: "'s nego_env \<Rightarrow> string \<Rightarrow> gvr \<Rightarrow> go_error + negotiated list" where
  "negotiated_for E clusterName r = nv_negotiatedIndex E (GetClusterNameAndGVRIndexKey E clusterName r)"
definition imports_for :: "'s nego_env \<Rightarrow> string \<Rightarrow> gvr \<Rightarrow> go_error + api_import list" where
  "imports_for E clusterName r = nv_importIndex E (GetClusterNameAndGVRIndexKey E clusterName r)"

definition apiresource_groupVersion :: string where "apiresource_groupVersion = ''apiresource.kcp.io/v1alpha1''"
definition negotiatedAPIResourceKind :: string where "negotiatedAPIResourceKind = ''NegotiatedAPIResource''"
definition clusterKey :: string where "clusterKey = ''kcp.io/cluster''"       \<comment> \<open>\<open>logicalcluster.AnnotationKey\<close>\<close>

definition NegotiatedAPIResourceAsOwnerReference :: "negotiated \<Rightarrow> owner_reference" where
  "NegotiatedAPIResourceAsOwnerReference obj =
     \<lparr>or_APIVersion = apiresource_groupVersion, or_Kind = negotiatedAPIResourceKind, or_Name = Name obj, or_UID = UID obj\<rparr>"

definition isManuallyCreatedCRD :: "'s crd \<Rightarrow> bool" where
  "isManuallyCreatedCRD c = (\<not> (\<exists>reference \<in> set (crd_Owners c).
     or_APIVersion reference = apiresource_groupVersion \<and> or_Kind reference = negotiatedAPIResourceKind))"

definition crdName_of :: "gvr \<Rightarrow> string" where
  "crdName_of r = gvr_Resource r @ ''.'' @ (if gvr_Group r = [] then ''core'' else gvr_Group r)"
definition negotiatedName_of :: "gvr \<Rightarrow> string" where
  "negotiatedName_of r = gvr_Resource r @ ''.'' @ gvr_Version r @ ''.'' @ (if gvr_Group r = [] then ''core'' else gvr_Group r)"

definition set_negotiated :: "'s nego_env \<Rightarrow> string \<Rightarrow> string \<Rightarrow> negotiated \<Rightarrow> negotiated" where
  "set_negotiated E t s n = n\<lparr>na_Conditions := SetCondition (nv_now E) (new_condition t s [] []) (na_Conditions n)\<rparr>"
definition set_import :: "'s nego_env \<Rightarrow> string \<Rightarrow> string \<Rightarrow> string \<Rightarrow> string \<Rightarrow> api_import \<Rightarrow> api_import" where
  "set_import E t s r m i = i\<lparr>ai_Conditions := SetCondition (nv_now E) (new_condition t s r m) (ai_Conditions i)\<rparr>"

definition negotiated_is :: "negotiated \<Rightarrow> string \<Rightarrow> bool" where
  "negotiated_is n t = IsConditionTrue (na_Conditions n) t"

definition SetSchema_negotiated :: "'s nego_env \<Rightarrow> 's option \<Rightarrow> negotiated \<Rightarrow> go_error + negotiated" where
  "SetSchema_negotiated E s n = bindE (SetSchema (nv_encode E) s (na_Spec n)) (\<lambda>spec. Inr (n\<lparr>na_Spec := spec\<rparr>))"

definition NegotiatedUpdateOf :: "negotiated \<Rightarrow> 's nego_call" where "NegotiatedUpdateOf n = NegotiatedUpdate (Cluster n) n"
definition ImportUpdateOf :: "api_import \<Rightarrow> 's nego_call" where "ImportUpdateOf i = ImportUpdate (Cluster i) i"

section \<open>Enforcing the schema of a CRD\<close>

definition at_version :: "gvr \<Rightarrow> 's crd_version \<Rightarrow> gvr" where
  "at_version r v = r\<lparr>gvr_Version := cv_Name v\<rparr>"

definition enforce_one :: "'s nego_env \<Rightarrow> 's crd_version \<Rightarrow> negotiated \<Rightarrow> ('s nego_call, unit) calls" where
  "enforce_one E v n =
     (let n1 = set_negotiated E Enforced ''True'' n in
      andThen (send_call (nv_answer E) (NegotiatedUpdateOf n1)) (\<lambda>_.
      andThen (lift_err (bindE (version_schema v) (\<lambda>s. SetSchema_negotiated E s n1))) (\<lambda>n2.
      send_call (nv_answer E) (NegotiatedUpdateOf n2))))"

definition enforceCRDToNegotiatedAPIResource :: "'s nego_env \<Rightarrow> string \<Rightarrow> gvr \<Rightarrow> 's crd \<Rightarrow> ('s nego_call, unit) calls" where
  "enforceCRDToNegotiatedAPIResource E clusterName r c =
     for_each (\<lambda>v. andThen (lift_err (negotiated_for E clusterName (at_version r v))) (\<lambda>objects. for_each (enforce_one E v) objects)) (crd_Versions c)"

definition setPublishingStatusOnNegotiatedAPIResource :: "'s nego_env \<Rightarrow> 's crd \<Rightarrow> negotiated \<Rightarrow> negotiated" where
  "setPublishingStatusOnNegotiatedAPIResource E c n =
     (let t = nv_IsCRDConditionTrue E (crd_Conditions c); f = nv_IsCRDConditionFalse E (crd_Conditions c);
          n1 = (if t ''Established'' \<and> t ''NamesAccepted'' \<and> \<not> t ''NonStructuralSchema'' \<and> \<not> t ''Terminating''
                then set_negotiated E Published ''True'' n
                else if f ''Established'' \<or> f ''NamesAccepted'' \<or> t ''NonStructuralSchema'' \<or> t ''Terminating''
                then set_negotiated E Published ''False'' n
                else n) in
      set_negotiated E Enforced (if isManuallyCreatedCRD c then ''True'' else ''False'') n1)"

definition updatePublishingStatusOnNegotiatedAPIResources :: "'s nego_env \<Rightarrow> string \<Rightarrow> gvr \<Rightarrow> 's crd \<Rightarrow> ('s nego_call, unit) calls" where
  "updatePublishingStatusOnNegotiatedAPIResources E clusterName r c =
     for_each (\<lambda>v. andThen (lift_err (negotiated_for E clusterName (at_version r v))) (\<lambda>objects.
       for_each (\<lambda>n. send_call (nv_answer E) (NegotiatedUpdateOf (setPublishingStatusOnNegotiatedAPIResource E c n))) objects)) (crd_Versions c)"

text \<open>An index error is logged; the lookup then counts as empty.\<close>

definition deleteNegotiatedAPIResource :: "'s nego_env \<Rightarrow> string \<Rightarrow> gvr \<Rightarrow> 's crd option \<Rightarrow> ('s nego_call, unit) calls" where
  "deleteNegotiatedAPIResource E clusterName r c =
     (if gvr_Version r = [] \<and> c = None then okay ()
      else
        for_each (\<lambda>r'.
          case negotiated_for E clusterName r' of
            Inr (toDelete # _) \<Rightarrow> send_call (nv_answer E) (NegotiatedDelete (Cluster toDelete) (Name toDelete))
          | _ \<Rightarrow> okay ())
        (if gvr_Version r \<noteq> [] then [r] else map (at_version r) (case c of None \<Rightarrow> [] | Some c \<Rightarrow> crd_Versions c)))"

section \<open>Negotiation\<close>

definition empty_meta_named :: "string \<Rightarrow> string \<Rightarrow> smap \<Rightarrow> object_meta" where
  "empty_meta_named clusterName name annotations =
     \<lparr>Name = name, Namespace = [], Cluster = clusterName, UID = [], ResourceVersion = [], Labels = None, Annotations = annotations,
      Finalizers = [], OwnerReferences = [], DeletionTimestamp = None\<rparr>"

definition new_negotiated :: "string \<Rightarrow> gvr \<Rightarrow> string \<Rightarrow> api_spec \<Rightarrow> bool \<Rightarrow> negotiated" where
  "new_negotiated clusterName r apiVersion spec publish =
     object_meta.extend (empty_meta_named clusterName (negotiatedName_of r) (Some [(clusterKey, clusterName), (APIVersionAnnotation, apiVersion)]))
       \<lparr>na_Generation = 0, na_Spec = spec, na_Publish = publish, na_Conditions = []\<rparr>"

text \<open>The resource that a CRD created by hand enforces. The loop over the versions keeps the last one with the name.\<close>

definition enforced_by_crd :: "'s nego_env \<Rightarrow> string \<Rightarrow> gvr \<Rightarrow> 's crd \<Rightarrow> 's crd_version \<Rightarrow> go_error + negotiated" where
  "enforced_by_crd E clusterName r c v =
     (let spec = \<lparr>as_Group = gvr_Group r, as_Version = gvr_Version r, as_Scope = crd_Scope c, as_Names = crd_Names c, as_Schema = [],
            as_SubResources = subresources_ImportFromCRDVersion v [], as_Columns = columns_ImportFromCRDVersion v []\<rparr> in
      bindE (version_schema v) (\<lambda>s.
      bindE (SetSchema_negotiated E s (new_negotiated clusterName r (APIVersion (gvr_Group r) (gvr_Version r)) spec True)) (\<lambda>n.
      Inr (set_negotiated E Enforced ''True'' (set_negotiated E Published ''True'' n)))))"

definition based_on_crd :: "'s nego_env \<Rightarrow> string \<Rightarrow> gvr \<Rightarrow> negotiated option \<Rightarrow> go_error + negotiated option" where
  "based_on_crd E clusterName r start =
     (case nv_crdLister E clusterName (crdName_of r) of
        Inl NotFound \<Rightarrow> Inr start
      | Inl e \<Rightarrow> Inl e
      | Inr c \<Rightarrow>
          if \<not> isManuallyCreatedCRD c then Inr start
          else (case find (\<lambda>v. cv_Name v = gvr_Version r) (rev (crd_Versions c)) of
                  None \<Rightarrow> Inr start
                | Some v \<Rightarrow> bindE (enforced_by_crd E clusterName r c v) (\<lambda>n. Inr (Some n))))"

text \<open>The loop over the imports: the negotiated resource, whether its schema was updated, and the imports with their conditions.\<close>

type_synonym nego_state = "negotiated option \<times> bool \<times> api_import list"

definition first_import :: "'s nego_env \<Rightarrow> string \<Rightarrow> gvr \<Rightarrow> negotiated option \<Rightarrow> api_import \<Rightarrow> negotiated" where
  "first_import E clusterName r existing i =
     (let n = new_negotiated clusterName r (APIVersion (as_Group (ai_Spec i)) (as_Version (ai_Spec i))) (ai_Spec i) False;
          n1 = (case existing of None \<Rightarrow> n | Some old \<Rightarrow> n\<lparr>ResourceVersion := ResourceVersion old, na_Publish := na_Publish old\<rparr>) in
      case go_get (Annotations i) KubeAPIApprovedAnnotation of
        None \<Rightarrow> n1
      | Some v \<Rightarrow> n1\<lparr>Annotations := Some (go_put KubeAPIApprovedAnnotation v (entries (Annotations n1)))\<rparr>)"

definition compatible_import :: "'s nego_env \<Rightarrow> negotiated \<Rightarrow> api_import \<Rightarrow> api_import" where
  "compatible_import E n i =
     (let i1 = set_import E Compatible ''True'' [] [] i in
      if negotiated_is n Published then set_import E Available ''True'' [] [] i1 else i1)"

definition compare_import :: "'s nego_env \<Rightarrow> bool \<Rightarrow> negotiated \<Rightarrow> bool \<Rightarrow> api_import list \<Rightarrow> api_import \<Rightarrow> 's \<Rightarrow> 's \<Rightarrow> go_error + nego_state" where
  "compare_import E allowUpdate n updated out i negotiatedSchema importSchema =
     (case nv_compat E (nm_Kind (as_Names (na_Spec n))) negotiatedSchema importSchema allowUpdate of
        Inl e \<Rightarrow> Inr (Some n, updated, out @ [set_import E Compatible ''False'' ''IncompatibleSchema'' (error_text e) i])
      | Inr lcd \<Rightarrow>
          if allowUpdate then bindE (SetSchema_negotiated E (Some lcd) n) (\<lambda>n'. Inr (Some n', True, out @ [compatible_import E n i]))
          else Inr (Some n, updated, out @ [compatible_import E n i]))"

definition allow_update :: "negotiated \<Rightarrow> api_import \<Rightarrow> bool" where
  "allow_update n i \<longleftrightarrow> \<not> negotiated_is n Enforced \<and> CanUpdate (ai_SchemaUpdateStrategy i) (negotiated_is n Published)"

definition import_step :: "'s nego_env \<Rightarrow> string \<Rightarrow> gvr \<Rightarrow> negotiated option \<Rightarrow> nego_state \<Rightarrow> api_import \<Rightarrow> go_error + nego_state" where
  "import_step E clusterName r existing acc i =
     (case acc of
        (None, updated, out) \<Rightarrow> Inr (Some (first_import E clusterName r existing i), True, out @ [set_import E Compatible ''True'' [] [] i])
      | (Some n, updated, out) \<Rightarrow>
           bindE (GetSchema (nv_decode E) (ai_Spec i)) (\<lambda>importSchema.
           bindE (GetSchema (nv_decode E) (na_Spec n)) (\<lambda>negotiatedSchema.
           compare_import E (allow_update n i) n updated out i negotiatedSchema importSchema)))"

definition import_loop :: "'s nego_env \<Rightarrow> string \<Rightarrow> gvr \<Rightarrow> negotiated option \<Rightarrow> negotiated option \<Rightarrow> api_import list \<Rightarrow> go_error + nego_state" where
  "import_loop E clusterName r existing start is = foldE (import_step E clusterName r existing) (start, False, []) is"

definition write_import :: "'s nego_env \<Rightarrow> api_import \<Rightarrow> ('s nego_call, unit) calls" where
  "write_import E i =
     andThen (lift_err (nv_importLister E (Cluster i) (Name i))) (\<lambda>lastOne.
     send_call (nv_answer E) (ImportUpdateOf (i\<lparr>ResourceVersion := ResourceVersion lastOne\<rparr>)))"

definition create_negotiated :: "'s nego_env \<Rightarrow> negotiated \<Rightarrow> ('s nego_call, unit) calls" where
  "create_negotiated E n =
     andThen (attempt (nv_answer E) (NegotiatedCreate (Cluster n) n)) (\<lambda>err.
     andThen (case err of
         None \<Rightarrow> okay (nv_created E n)
       | Some AlreadyExists \<Rightarrow> andThen (emit (NegotiatedGet (Cluster n) (Name n))) (\<lambda>_. lift_err (nv_negotiatedGet E (Cluster n) (Name n)))
       | Some e \<Rightarrow> fail e) (\<lambda>existing.
     if na_Conditions n \<noteq> [] then send_call (nv_answer E) (NegotiatedUpdateOf (existing\<lparr>na_Conditions := na_Conditions n\<rparr>)) else okay ()))"

definition write_negotiated :: "'s nego_env \<Rightarrow> negotiated option \<Rightarrow> negotiated option \<Rightarrow> bool \<Rightarrow> ('s nego_call, unit) calls" where
  "write_negotiated E existing new updated =
     (case (existing, new) of
        (None, None) \<Rightarrow> fail (Panic ''nil pointer dereference'')
      | (None, Some n) \<Rightarrow> create_negotiated E n
      | (Some _, Some n) \<Rightarrow> if updated then send_call (nv_answer E) (NegotiatedUpdateOf n) else okay ()
      | (Some _, None) \<Rightarrow> if updated then fail (Panic ''nil pointer dereference'') else okay ())"

text \<open>\<open>overrideStrategy\<close> is a parameter that the code never reads.\<close>

definition ensureAPIResourceCompatibility ::
  "'s nego_env \<Rightarrow> string \<Rightarrow> gvr \<Rightarrow> api_import option \<Rightarrow> string \<Rightarrow> ('s nego_call, unit) calls" where
  "ensureAPIResourceCompatibility E clusterName r apiResourceImport overrideStrategy =
     andThen (lift_err (negotiated_for E clusterName r)) (\<lambda>objs.
     let existing = (case objs of [] \<Rightarrow> None | n # _ \<Rightarrow> Some n) in
     andThen (case apiResourceImport of Some i \<Rightarrow> okay [i] | None \<Rightarrow> lift_err (imports_for E clusterName r)) (\<lambda>iis.
     if iis = [] then okay ()
     else
       andThen (lift_err (based_on_crd E clusterName r (if apiResourceImport \<noteq> None then existing else None))) (\<lambda>start.
       andThen (lift_err (import_loop E clusterName r existing start iis)) (\<lambda>(new, updated, out).
       andThen (write_negotiated E existing new updated) (\<lambda>_.
       for_each (write_import E) out)))))"

definition negotiatedAPIResourceIsOrphan :: "'s nego_env \<Rightarrow> string \<Rightarrow> gvr \<Rightarrow> go_error + bool" where
  "negotiatedAPIResourceIsOrphan E clusterName r =
     bindE (imports_for E clusterName r) (\<lambda>is.
     if is \<noteq> [] then Inr False
     else bindE (negotiated_for E clusterName r) (\<lambda>objs.
       case objs of [n] \<Rightarrow> Inr (\<not> negotiated_is n Enforced) | _ \<Rightarrow> Inr False))"

section \<open>Publishing\<close>

definition published_version :: "gvr \<Rightarrow> 's \<Rightarrow> negotiated \<Rightarrow> 's crd_version" where
  "published_version r schema n =
     \<lparr>cv_Name = gvr_Version r, cv_Served = True, cv_Storage = True, cv_Schema = Some (Some schema),
      cv_Subresources = Some \<lparr>sub_Scale = (if \<exists>s \<in> set (as_SubResources (na_Spec n)). s = ''scale'' then Some (''.spec.replicas'', ''.status.replicas'') else None),
        sub_Status = False\<rparr>,
      cv_Columns = ToCustomResourceColumnDefinitions (as_Columns (na_Spec n))\<rparr>"

text \<open>The last index with a property, as a loop that overwrites its variable finds it.\<close>

fun last_index :: "('a \<Rightarrow> bool) \<Rightarrow> 'a list \<Rightarrow> nat option" where
  "last_index P [] = None"
| "last_index P (x # xs) = (case last_index P xs of Some i \<Rightarrow> Some (Suc i) | None \<Rightarrow> if P x then Some 0 else None)"

definition merge_version :: "(string \<Rightarrow> string \<Rightarrow> int) \<Rightarrow> 's crd_version \<Rightarrow> 's crd_version list \<Rightarrow> 's crd_version list" where
  "merge_version compareVersions v versions =
     (let newest = (\<not> (\<exists>existing \<in> set versions. compareVersions (cv_Name existing) (cv_Name v) > 0));
          v1 = (if newest then v else v\<lparr>cv_Storage := False\<rparr>);
          versions1 = (case last_index cv_Storage versions of
             Some i \<Rightarrow> if newest then versions[i := (versions ! i)\<lparr>cv_Storage := False\<rparr>] else versions
           | None \<Rightarrow> versions) in
      case last_index (\<lambda>existing. cv_Name existing = cv_Name v) versions of
        None \<Rightarrow> versions1 @ [v1]
      | Some i \<Rightarrow> versions1[i := v1])"

definition owned_by :: "negotiated \<Rightarrow> owner_reference \<Rightarrow> bool" where
  "owned_by n ownerRef \<longleftrightarrow> or_Name ownerRef = Name n \<and> or_UID ownerRef = UID n"

definition updated_crd :: "'s nego_env \<Rightarrow> 's crd_version \<Rightarrow> negotiated \<Rightarrow> 's crd \<Rightarrow> 's crd" where
  "updated_crd E v n c =
     c\<lparr>crd_Versions := merge_version (nv_compareVersions E) v (crd_Versions c),
       crd_Owners := (if \<exists>ownerRef \<in> set (crd_Owners c). owned_by n ownerRef then crd_Owners c
                      else crd_Owners c @ [NegotiatedAPIResourceAsOwnerReference n])\<rparr>"

definition created_crd :: "'s nego_env \<Rightarrow> gvr \<Rightarrow> 's crd_version \<Rightarrow> negotiated \<Rightarrow> 's crd" where
  "created_crd E r v n =
     (let cr = nv_SetDefaults E (object_meta.extend (empty_meta_named (Cluster n) (crdName_of r) (Some [(clusterKey, Cluster n)]))
            \<lparr>crd_Generation = 0, crd_Owners = [NegotiatedAPIResourceAsOwnerReference n], crd_Group = as_Group (na_Spec n), crd_Names = as_Names (na_Spec n),
             crd_Scope = as_Scope (na_Spec n), crd_Versions = [v], crd_Conditions = []\<rparr>) in
      if nv_IsProtectedCommunityGroup E (gvr_Group r)
      then cr\<lparr>Annotations := Some (go_put KubeAPIApprovedAnnotation ''https://github.com/kcp-dev/kubernetes/pull/4'' (entries (Annotations cr)))\<rparr>
      else cr)"

definition publishNegotiatedResource :: "'s nego_env \<Rightarrow> string \<Rightarrow> gvr \<Rightarrow> negotiated \<Rightarrow> ('s nego_call, unit) calls" where
  "publishNegotiatedResource E clusterName r n =
     andThen (lift_err (GetSchema (nv_decode E) (na_Spec n))) (\<lambda>schema.
     let v = published_version r schema n;
         submit = (\<lambda>_. send_call (nv_answer E) (NegotiatedUpdateOf (set_negotiated E Submitted ''True'' n))) in
     case nv_crdLister E clusterName (crdName_of r) of
       Inl NotFound \<Rightarrow> andThen (send_call (nv_answer E) (CRDCreate clusterName (created_crd E r v n))) submit
     | Inl e \<Rightarrow> fail e
     | Inr c \<Rightarrow> if isManuallyCreatedCRD c then submit ()
                else andThen (send_call (nv_answer E) (CRDUpdate clusterName (updated_crd E v n c))) submit)"

definition updateStatusOnRelatedAPIResourceImports :: "'s nego_env \<Rightarrow> string \<Rightarrow> gvr \<Rightarrow> negotiated \<Rightarrow> ('s nego_call, unit) calls" where
  "updateStatusOnRelatedAPIResourceImports E clusterName r n =
     (case FindCondition (na_Conditions n) Published of
        None \<Rightarrow> okay ()
      | Some published \<Rightarrow>
          andThen (lift_err (imports_for E clusterName r)) (\<lambda>objs.
          for_each (\<lambda>i. send_call (nv_answer E) (ImportUpdateOf (set_import E Available (ac_Status published) [] [] i))) objs))"

section \<open>Cleaning up\<close>

definition forget_conditions :: "api_import \<Rightarrow> api_import" where
  "forget_conditions i = i\<lparr>ai_Conditions := RemoveCondition Compatible (RemoveCondition Available (ai_Conditions i))\<rparr>"

definition cleanup_crd :: "'s nego_env \<Rightarrow> string \<Rightarrow> gvr \<Rightarrow> negotiated \<Rightarrow> 's crd \<Rightarrow> ('s nego_call, unit) calls" where
  "cleanup_crd E clusterName r n c =
     (let cleanedOwnerReferences = filter (\<lambda>ownerRef. \<not> owned_by n ownerRef) (crd_Owners c);
          cleanedVersions = filter (\<lambda>v. cv_Name v \<noteq> gvr_Version r) (crd_Versions c) in
      if \<not> (\<exists>ownerRef \<in> set (crd_Owners c). owned_by n ownerRef) then okay ()
      else if length cleanedVersions = length (crd_Versions c) then okay ()
      else if cleanedVersions = [] then send_call (nv_answer E) (CRDDelete clusterName (Name c))
      else send_call (nv_answer E) (CRDUpdate clusterName (c\<lparr>crd_Versions := cleanedVersions, crd_Owners := cleanedOwnerReferences\<rparr>)))"

definition cleanupNegotiatedAPIResource :: "'s nego_env \<Rightarrow> string \<Rightarrow> gvr \<Rightarrow> negotiated \<Rightarrow> ('s nego_call, unit) calls" where
  "cleanupNegotiatedAPIResource E clusterName r n =
     andThen (lift_err (imports_for E clusterName r)) (\<lambda>objs.
     andThen (for_each (\<lambda>i. send_call (nv_answer E) (ImportUpdateOf (forget_conditions i))) objs) (\<lambda>_.
     case nv_crdLister E clusterName (crdName_of r) of
       Inl NotFound \<Rightarrow> okay ()
     | Inl e \<Rightarrow> fail e
     | Inr c \<Rightarrow> cleanup_crd E clusterName r n c))"

section \<open>Processing\<close>

text \<open>The object of the lister, or the deleted object of the event if the lister has none.\<close>

definition found_or_deleted :: "go_error + 'a \<Rightarrow> 'a option \<Rightarrow> go_error + 'a" where
  "found_or_deleted found deleted =
     (case found of Inr x \<Rightarrow> Inr x | Inl e \<Rightarrow> (case deleted of Some x \<Rightarrow> if e = NotFound then Inr x else Inl e | None \<Rightarrow> Inl e))"

fun as_crd :: "'s api_object option \<Rightarrow> 's crd option" where
  "as_crd (Some (CRDObject c)) = Some c" | "as_crd _ = None"
fun as_import :: "'s api_object option \<Rightarrow> api_import option" where
  "as_import (Some (ImportObject i)) = Some i" | "as_import _ = None"
fun as_negotiated :: "'s api_object option \<Rightarrow> negotiated option" where
  "as_negotiated (Some (NegotiatedObject n)) = Some n" | "as_negotiated _ = None"

definition process_crd :: "'s nego_env \<Rightarrow> element_action \<Rightarrow> gvr \<Rightarrow> 's crd \<Rightarrow> ('s nego_call, unit) calls" where
  "process_crd E action r c =
     (let publishing = (\<lambda>_. updatePublishingStatusOnNegotiatedAPIResources E (Cluster c) r c) in
      case action of
        AnnotationOrLabelsOnlyChanged \<Rightarrow> okay ()
      | StatusOnlyChanged \<Rightarrow> publishing ()
      | Deleted \<Rightarrow> if isManuallyCreatedCRD c then deleteNegotiatedAPIResource E (Cluster c) r (Some c) else publishing ()
      | _ \<Rightarrow> if isManuallyCreatedCRD c then andThen (enforceCRDToNegotiatedAPIResource E (Cluster c) r c) publishing else publishing ())"

definition process_import :: "'s nego_env \<Rightarrow> element_action \<Rightarrow> gvr \<Rightarrow> api_import \<Rightarrow> ('s nego_call, unit) calls" where
  "process_import E action r i =
     (case action of
        AnnotationOrLabelsOnlyChanged \<Rightarrow> okay ()
      | StatusOnlyChanged \<Rightarrow>
          if FindCondition (ai_Conditions i) Compatible = None \<and> FindCondition (ai_Conditions i) Available = None
          then ensureAPIResourceCompatibility E (Cluster i) r (Some i) [] else okay ()
      | Deleted \<Rightarrow>
          andThen (lift_err (negotiatedAPIResourceIsOrphan E (Cluster i) r)) (\<lambda>isOrphan.
          if isOrphan then deleteNegotiatedAPIResource E (Cluster i) r None
          else ensureAPIResourceCompatibility E (Cluster i) r None UpdatePublished)
      | _ \<Rightarrow> ensureAPIResourceCompatibility E (Cluster i) r (Some i) [])"

definition process_negotiated :: "'s nego_env \<Rightarrow> element_action \<Rightarrow> gvr \<Rightarrow> negotiated \<Rightarrow> ('s nego_call, unit) calls" where
  "process_negotiated E action r n =
     (let update_imports = (\<lambda>_. updateStatusOnRelatedAPIResourceImports E (Cluster n) r n) in
      case action of
        AnnotationOrLabelsOnlyChanged \<Rightarrow> okay ()
      | StatusOnlyChanged \<Rightarrow> update_imports ()
      | Deleted \<Rightarrow> cleanupNegotiatedAPIResource E (Cluster n) r n
      | _ \<Rightarrow>
          andThen (if negotiated_is n Enforced then ensureAPIResourceCompatibility E (Cluster n) r None UpdateNever else okay ()) (\<lambda>_.
          andThen (if na_Publish n \<and> \<not> negotiated_is n Enforced then publishNegotiatedResource E (Cluster n) r n else okay ()) update_imports))"

text \<open>A key that cannot be split is reported and dropped.\<close>

definition nego_process :: "'s nego_env \<Rightarrow> 's queue_element \<Rightarrow> ('s nego_call, unit) calls" where
  "nego_process E key =
     (case nv_SplitKey E (qe_Key key) of
        Inl _ \<Rightarrow> okay ()
      | Inr (clusterName, name) \<Rightarrow>
          (case qe_Type key of
             CRDType \<Rightarrow> andThen (lift_err (found_or_deleted (nv_crdLister E clusterName name) (as_crd (qe_Deleted key)))) (process_crd E (qe_Action key) (qe_GVR key))
           | ImportType \<Rightarrow> andThen (lift_err (found_or_deleted (nv_importLister E clusterName name) (as_import (qe_Deleted key)))) (process_import E (qe_Action key) (qe_GVR key))
           | NegotiatedType \<Rightarrow> andThen (lift_err (found_or_deleted (nv_negotiatedLister E clusterName name) (as_negotiated (qe_Deleted key)))) (process_negotiated E (qe_Action key) (qe_GVR key))
           | NoType \<Rightarrow> okay ()))"

definition nego_next :: "'s nego_env \<Rightarrow> 's queue_element option \<Rightarrow> bool \<times> 's queue_element queue_call list \<times> go_error list" where
  "nego_next E item = processNext (\<lambda>key. case snd (nego_process E key) of Inl e \<Rightarrow> [e] | Inr _ \<Rightarrow> []) item"

end
