(* ===== verification/Negotiated_Schemas.thy ===== *)
theory Negotiated_Schemas
  imports Negotiation
begin

text \<open>
  What the negotiation of \<^verbatim>\<open>src/pkg/reconciler/apiresource/negotiation.go\<close> makes of the schemas: the invariant of its loop over the
  imports, the order of its requests, and what happens to a schema that a CRD enforces.
\<close>

section \<open>The negotiated schema\<close>



abbreviation import_schema :: "'s nego_env \<Rightarrow> api_import \<Rightarrow> go_error + 's" where
  "import_schema E i \<equiv> nv_decode E (as_Schema (ai_Spec i))"
abbreviation negotiated_schema :: "'s nego_env \<Rightarrow> negotiated \<Rightarrow> go_error + 's" where
  "negotiated_schema E n \<equiv> nv_decode E (as_Schema (na_Spec n))"


lemma set_import_simps [simp]:
  "ai_Spec (set_import E t s r m i) = ai_Spec i" "Cluster (set_import E t s r m i) = Cluster i" "Name (set_import E t s r m i) = Name i"
  "condition_content (ai_Conditions (set_import E t s r m i)) t' = (if t' = t then Some (s, r, m) else condition_content (ai_Conditions i) t')"
  by (simp_all add: set_import_def)

lemma set_negotiated_simps [simp]:
  "na_Spec (set_negotiated E t s n) = na_Spec n" "Cluster (set_negotiated E t s n) = Cluster n" "Name (set_negotiated E t s n) = Name n"
  "na_Publish (set_negotiated E t s n) = na_Publish n"
  "condition_content (na_Conditions (set_negotiated E t s n)) t' = (if t' = t then Some (s, [], []) else condition_content (na_Conditions n) t')"
  by (simp_all add: set_negotiated_def)

lemma SetSchema_negotiated_Inr:
  "SetSchema_negotiated E s n = Inr n' \<longleftrightarrow> (\<exists>t. nv_encode E s = Inr t \<and> n' = n\<lparr>na_Spec := (na_Spec n)\<lparr>as_Schema := t\<rparr>\<rparr>)"
  by (auto simp: SetSchema_negotiated_def SetSchema_def bindE_Inr)

lemma first_import_simps [simp]: "na_Spec (first_import E cl r existing i) = ai_Spec i" "na_Conditions (first_import E cl r existing i) = []"
  by (auto simp: first_import_def new_negotiated_def object_meta.defs Let_def split: option.splits)

text \<open>One iteration, by cases.\<close>

lemma compatible_import_spec [simp]: "ai_Spec (compatible_import E n i) = ai_Spec i"
  by (simp add: compatible_import_def Let_def)

lemma import_step_cases:
  assumes "import_step E cl r existing (nopt, updated, out) i = Inr (new, updated', out')"
  obtains (first) "nopt = None" "new = Some (first_import E cl r existing i)" "updated'" "out' = out @ [set_import E Compatible ''True'' [] [] i]"
  | (bad) n e where "nopt = Some n" "new = nopt" "updated' = updated" "out' = out @ [set_import E Compatible ''False'' ''IncompatibleSchema'' (error_text e) i]"
  | (kept) n a b s where "nopt = Some n" "new = nopt" "updated' = updated" "out' = out @ [compatible_import E n i]"
      "negotiated_schema E n = Inr a" "import_schema E i = Inr b" "nv_compat E (nm_Kind (as_Names (na_Spec n))) a b False = Inr s"
  | (narrowed) n a b s t where "nopt = Some n" "\<not> negotiated_is n Enforced" "new = Some (n\<lparr>na_Spec := (na_Spec n)\<lparr>as_Schema := t\<rparr>\<rparr>)" "updated'"
      "out' = out @ [compatible_import E n i]" "negotiated_schema E n = Inr a" "import_schema E i = Inr b"
      "nv_compat E (nm_Kind (as_Names (na_Spec n))) a b True = Inr s" "nv_encode E (Some s) = Inr t"
proof (cases nopt)
  case None
  with assms first show ?thesis by (simp add: import_step_def)
next
  case (Some n)
  from assms Some obtain b a where s: "import_schema E i = Inr b" "negotiated_schema E n = Inr a"
    and step: "compare_import E (allow_update n i) n updated out i a b = Inr (new, updated', out')"
    by (auto simp: import_step_def bindE_Inr GetSchema_def)
  show ?thesis
  proof (cases "nv_compat E (nm_Kind (as_Names (na_Spec n))) a b (allow_update n i)")
    case (Inl e)
    with step have "new = Some n" "updated' = updated" "out' = out @ [set_import E Compatible ''False'' ''IncompatibleSchema'' (error_text e) i]"
      by (simp_all add: compare_import_def)
    with Some show ?thesis by (intro bad) simp_all
  next
    case (Inr lcd)
    show ?thesis
    proof (cases "allow_update n i")
      case True
      with step Inr obtain n' where n': "SetSchema_negotiated E (Some lcd) n = Inr n'" "new = Some n'" "updated'" "out' = out @ [compatible_import E n i]"
        by (auto simp: compare_import_def bindE_Inr)
      from n'(1) obtain t where t: "nv_encode E (Some lcd) = Inr t" "n' = n\<lparr>na_Spec := (na_Spec n)\<lparr>as_Schema := t\<rparr>\<rparr>"
        unfolding SetSchema_negotiated_Inr by blast
      have "\<not> negotiated_is n Enforced" "nv_compat E (nm_Kind (as_Names (na_Spec n))) a b True = Inr lcd" using True Inr by (simp_all add: allow_update_def)
      then show ?thesis using Some s n' t by (intro narrowed [of n t a b lcd]) simp_all
    next
      case False
      with step Inr have r: "new = Some n" "updated' = updated" "out' = out @ [compatible_import E n i]" by (simp_all add: compare_import_def)
      from Inr False have "nv_compat E (nm_Kind (as_Names (na_Spec n))) a b False = Inr lcd" by simp
      with Some r s show ?thesis by (intro kept [of n a b lcd]) simp_all
    qed
  qed
qed



text \<open>What a negotiation computes: the resource it starts from, and the one the imports lead to.\<close>

definition negotiate :: "'s nego_env \<Rightarrow> string \<Rightarrow> gvr \<Rightarrow> api_import option \<Rightarrow> go_error + nego_state" where
  "negotiate E cl r imp =
     bindE (negotiated_for E cl r) (\<lambda>objs.
     let existing = (case objs of [] \<Rightarrow> None | n # _ \<Rightarrow> Some n) in
     bindE (case imp of Some i \<Rightarrow> Inr [i] | None \<Rightarrow> imports_for E cl r) (\<lambda>iis.
     if iis = [] then Inr (None, False, [])
     else bindE (based_on_crd E cl r (if imp \<noteq> None then existing else None)) (\<lambda>start. import_loop E cl r existing start iis)))"

lemma ensure_calls:
  assumes "fst (ensureAPIResourceCompatibility E cl r imp s) \<noteq> []"
  obtains objs new updated out where "negotiated_for E cl r = Inr objs" "negotiate E cl r imp = Inr (new, updated, out)"
    "fst (ensureAPIResourceCompatibility E cl r imp s) = fst (andThen (write_negotiated E (case objs of [] \<Rightarrow> None | n # _ \<Rightarrow> Some n) new updated)
       (\<lambda>_. for_each (write_import E) out))"
proof -
  obtain objs where o: "negotiated_for E cl r = Inr objs"
    using assms by (cases "negotiated_for E cl r") (simp_all add: ensureAPIResourceCompatibility_def)
  define existing where "existing = (case objs of [] \<Rightarrow> None | n # _ \<Rightarrow> Some n)"
  obtain iis where i: "(case imp of Some i \<Rightarrow> Inr [i] | None \<Rightarrow> imports_for E cl r) = Inr iis" "iis \<noteq> []"
    using assms o by (cases imp; cases "imports_for E cl r") (auto simp: ensureAPIResourceCompatibility_def Let_def split: if_splits)
  have lift: "(case imp of Some i \<Rightarrow> okay [i] | None \<Rightarrow> lift_err (imports_for E cl r)) = (lift_err (Inr iis) :: (_ nego_call, _) calls)"
    using i by (cases imp) (simp_all add: lift_err_def okay_def)
  have eq: "ensureAPIResourceCompatibility E cl r imp s =
      andThen (lift_err (based_on_crd E cl r (if imp \<noteq> None then existing else None))) (\<lambda>start.
      andThen (lift_err (import_loop E cl r existing start iis)) (\<lambda>(new, updated, out).
      andThen (write_negotiated E existing new updated) (\<lambda>_. for_each (write_import E) out)))"
    by (simp only: ensureAPIResourceCompatibility_def o andThen_simps Let_def existing_def [symmetric] lift i(2) if_False)
  obtain start where st: "based_on_crd E cl r (if imp \<noteq> None then existing else None) = Inr start"
    using assms unfolding eq by (cases "based_on_crd E cl r (if imp \<noteq> None then existing else None)") simp_all
  obtain new updated out where l: "import_loop E cl r existing start iis = Inr (new, updated, out)"
    using assms unfolding eq st by (cases "import_loop E cl r existing start iis") auto
  have "fst (ensureAPIResourceCompatibility E cl r imp s) = fst (andThen (write_negotiated E existing new updated) (\<lambda>_. for_each (write_import E) out))"
    by (simp only: eq st andThen_simps l prod.case)
  moreover have "negotiate E cl r imp = Inr (new, updated, out)"
    using i st l by (simp only: negotiate_def o bindE_simps Let_def existing_def [symmetric] if_False)
  ultimately show ?thesis by (intro that [OF o]) (simp_all add: existing_def)
qed



lemma write_import_calls: "sends (\<lambda>c. \<exists>rv. c = ImportUpdateOf (i\<lparr>ResourceVersion := rv\<rparr>)) (write_import E i)"
  by (auto simp: write_import_def intro!: sends_andThen)

definition import_call :: "'s nego_call \<Rightarrow> bool" where
  "import_call c \<longleftrightarrow> (\<exists>cl i. c = ImportUpdate cl i)"

lemma import_call_simps [simp]: "import_call (ImportUpdate cl i)" "import_call (ImportUpdateOf i)" "\<not> import_call (NegotiatedUpdateOf n)"
  "\<not> import_call (NegotiatedCreate cl n)" "\<not> import_call (NegotiatedGet cl m)"
  by (simp_all add: import_call_def ImportUpdateOf_def NegotiatedUpdateOf_def)


lemma write_imports_calls: "c \<in> set (fst (for_each (write_import E) out)) \<Longrightarrow> \<exists>i \<in> set out. \<exists>rv. c = ImportUpdateOf (i\<lparr>ResourceVersion := rv\<rparr>)"
proof -
  have "sends (\<lambda>c. \<exists>i \<in> set out. \<exists>rv. c = ImportUpdateOf (i\<lparr>ResourceVersion := rv\<rparr>)) (for_each (write_import E) out)"
    by (rule sends_for_each) (use write_import_calls in \<open>fastforce simp: sends_def\<close>)
  then show "c \<in> set (fst (for_each (write_import E) out)) \<Longrightarrow> \<exists>i \<in> set out. \<exists>rv. c = ImportUpdateOf (i\<lparr>ResourceVersion := rv\<rparr>)" by (rule sendsD)
qed

section \<open>Enforced schemas\<close>

lemma import_step_enforced:
  assumes "import_step E cl r existing (Some n, updated, out) i = Inr st" "negotiated_is n Enforced"
  shows "\<exists>out'. st = (Some n, updated, out')"
proof -
  obtain new updated' out' where st: "st = (new, updated', out')" by (cases st)
  from assms(1) [unfolded st] show ?thesis by (cases rule: import_step_cases) (use assms(2) st in auto)
qed

lemma import_loop_enforced:
  "foldE (import_step E cl r existing) (Some n, updated, out) is = Inr st \<Longrightarrow> negotiated_is n Enforced \<Longrightarrow> \<exists>out'. st = (Some n, updated, out')"
  by (induction "is" arbitrary: out) (auto simp: bindE_Inr dest!: import_step_enforced)

lemma enforced_by_crd_Enforced: "enforced_by_crd E cl r c v = Inr n \<Longrightarrow> negotiated_is n Enforced"
  by (auto simp: enforced_by_crd_def bindE_Inr negotiated_is_def IsCondition_content Let_def)

text \<open>Whether a negotiation starts from an enforced resource.\<close>

definition crd_enforces :: "'s nego_env \<Rightarrow> string \<Rightarrow> gvr \<Rightarrow> bool" where
  "crd_enforces E cl r \<longleftrightarrow> (\<exists>c. nv_crdLister E cl (crdName_of r) = Inr c \<and> isManuallyCreatedCRD c \<and> gvr_Version r \<in> cv_Name ` set (crd_Versions c))"

lemma based_on_crd_enforced:
  assumes "based_on_crd E cl r start = Inr start'"
  shows "if crd_enforces E cl r then \<exists>n. start' = Some n \<and> negotiated_is n Enforced else start' = start"
proof (cases "nv_crdLister E cl (crdName_of r)")
  case (Inl e)
  with assms show ?thesis by (cases e) (simp_all add: based_on_crd_def crd_enforces_def)
next
  case (Inr c)
  show ?thesis
  proof (cases "isManuallyCreatedCRD c \<and> gvr_Version r \<in> cv_Name ` set (crd_Versions c)")
    case True
    then obtain v where "find (\<lambda>v. cv_Name v = gvr_Version r) (rev (crd_Versions c)) = Some v"
      by (cases "find (\<lambda>v. cv_Name v = gvr_Version r) (rev (crd_Versions c))") (auto simp: find_None_iff)
    with True Inr assms show ?thesis by (auto simp: based_on_crd_def crd_enforces_def bindE_Inr dest: enforced_by_crd_Enforced)
  next
    case False
    then have "isManuallyCreatedCRD c \<Longrightarrow> find (\<lambda>v. cv_Name v = gvr_Version r) (rev (crd_Versions c)) = None" by (intro find_None_iff [THEN iffD2]) (metis image_eqI set_rev)
    then have "start' = start" using assms Inr by (cases "isManuallyCreatedCRD c") (auto simp: based_on_crd_def)
    moreover have "\<not> crd_enforces E cl r" using False Inr by (auto simp: crd_enforces_def)
    ultimately show ?thesis by simp
  qed
qed







text \<open>
  An enforced schema is not touched by the offers of locations: if the negotiated resource exists, and either it is enforced and the
  negotiation is for one import, or a CRD created by hand has the version, then the negotiation writes conditions of imports only.
\<close>

theorem enforced_schema_untouched:
  assumes "negotiated_for E cl r = Inr (n # ns)" "(imp \<noteq> None \<and> negotiated_is n Enforced) \<or> crd_enforces E cl r"
    and "c \<in> set (fst (ensureAPIResourceCompatibility E cl r imp s))"
  shows "\<exists>cluster i. c = ImportUpdate cluster i"
proof -
  from assms(3) have "fst (ensureAPIResourceCompatibility E cl r imp s) \<noteq> []" by auto
  then obtain objs new updated out where o: "negotiated_for E cl r = Inr objs" and g: "negotiate E cl r imp = Inr (new, updated, out)"
    and c: "fst (ensureAPIResourceCompatibility E cl r imp s) = fst (andThen (write_negotiated E (case objs of [] \<Rightarrow> None | n # _ \<Rightarrow> Some n) new updated)
       (\<lambda>_. for_each (write_import E) out))" by (rule ensure_calls)
  have updated: "\<not> updated"
  proof
    assume u: "updated"
    from g assms(1) u obtain start iis where st: "based_on_crd E cl r (if imp \<noteq> None then Some n else None) = Inr start"
      "foldE (import_step E cl r (Some n)) (start, False, []) iis = Inr (new, updated, out)"
      by (auto simp: negotiate_def bindE_Inr Let_def import_loop_def split: if_splits)
    have "\<exists>m. start = Some m \<and> negotiated_is m Enforced" using based_on_crd_enforced [OF st(1)] assms(2) by (auto split: if_splits)
    then show False using import_loop_enforced st(2) u by blast
  qed
  then have "write_negotiated E (case objs of [] \<Rightarrow> None | n # _ \<Rightarrow> Some n) new updated = okay ()"
    using o assms(1) by (cases new) (auto simp: write_negotiated_def)
  with c assms(3) have "c \<in> set (fst (for_each (write_import E) out))" by simp
  from write_imports_calls [OF this] show ?thesis by (auto simp: ImportUpdateOf_def)
qed

text \<open>
  The argument \<open>UpdateNever\<close> has no effect: if no CRD in the cache has the version, the event of an enforced resource replaces
  it by a new one, built from the imports, that has no conditions any more, so it is not enforced.
\<close>

theorem enforced_schema_replaced:
  assumes "nv_crdLister E (Cluster n) (crdName_of r) = Inl NotFound" "negotiated_for E (Cluster n) r = Inr [n]" "negotiated_is n Enforced"
    and "imports_for E (Cluster n) r = Inr (i # is)" "import_loop E (Cluster n) r (Some n) None (i # is) = Inr (Some n', updated, out)"
  shows "NegotiatedUpdate (Cluster n') n' \<in> set (fst (process_negotiated E SpecChanged r n)) \<and> na_Conditions n' = []"
proof
  have "import_step E (Cluster n) r (Some n) (None, False, []) i
      = Inr (Some (first_import E (Cluster n) r (Some n) i), True, [set_import E Compatible ''True'' [] [] i])"
    by (simp add: import_step_def)
  with assms(5) have l: "foldE (import_step E (Cluster n) r (Some n)) (Some (first_import E (Cluster n) r (Some n) i), True, [set_import E Compatible ''True'' [] [] i]) is
      = Inr (Some n', updated, out)" by (simp add: import_loop_def)
  have keep: "updated \<and> na_Conditions n' = na_Conditions m"
    if "foldE (import_step E cl r existing) (Some m, True, out0) is = Inr (Some n', updated, out)" for cl existing m out0
    using that
  proof (induction "is" arbitrary: m out0)
    case (Cons j "is")
    from Cons.prems obtain new1 upd1 out1 where st: "import_step E cl r existing (Some m, True, out0) j = Inr (new1, upd1, out1)"
      "foldE (import_step E cl r existing) (new1, upd1, out1) is = Inr (Some n', updated, out)" by (auto simp: bindE_Inr)
    from st(1) obtain m1 where "new1 = Some m1" "upd1" "na_Conditions m1 = na_Conditions m"
      by (cases rule: import_step_cases) auto
    with Cons.IH [of m1 out1] st(2) show ?case by simp
  qed simp
  have u: "updated" "na_Conditions n' = []" using keep [OF l] by simp_all
  show "na_Conditions n' = []" by (rule u(2))
  have "fst (ensureAPIResourceCompatibility E (Cluster n) r None UpdateNever)
      = fst (andThen (send_call (nv_answer E) (NegotiatedUpdateOf n')) (\<lambda>_. for_each (write_import E) out))"
    using assms u(1) by (simp add: ensureAPIResourceCompatibility_def Let_def based_on_crd_def write_negotiated_def)
  then have "NegotiatedUpdateOf n' \<in> set (fst (ensureAPIResourceCompatibility E (Cluster n) r None UpdateNever))" by (simp add: in_andThen)
  then show "NegotiatedUpdate (Cluster n') n' \<in> set (fst (process_negotiated E SpecChanged r n))"
    using assms(3) by (simp add: process_negotiated_def in_andThen NegotiatedUpdateOf_def)
qed

end
