(* ===== verification/Negotiated_CRDs.thy ===== *)
theory Negotiated_CRDs
  imports Negotiated_Schemas
begin

text \<open>
  What the controller of \<^verbatim>\<open>src/pkg/reconciler/apiresource\<close> does to CRDs and their versions, what it deletes, which events it
  queues, and the concrete instances for the theorems on negotiation.
\<close>

section \<open>The versions of a CRD\<close>

lemma last_index_None: "last_index P xs = None \<longleftrightarrow> (\<forall>x \<in> set xs. \<not> P x)"
  by (induction xs) (auto split: option.splits)

lemma last_index_Some: "last_index P xs = Some i \<Longrightarrow> i < length xs \<and> P (xs ! i)"
  by (induction xs arbitrary: i) (auto split: option.splits if_splits)

text \<open>What the code needs from the order of version names.\<close>

definition version_order :: "(string \<Rightarrow> string \<Rightarrow> int) \<Rightarrow> bool" where
  "version_order cmp \<longleftrightarrow> (\<forall>a. cmp a a \<le> 0) \<and> (\<forall>a b c. 0 < cmp a b \<and> cmp a c \<le> 0 \<longrightarrow> cmp b c \<le> 0)"

text \<open>What the API server demands of a CRD, and that the stored version is the newest.\<close>

definition one_storage :: "'s crd_version list \<Rightarrow> bool" where
  "one_storage vs \<longleftrightarrow> distinct (map cv_Name vs) \<and> (\<exists>!s. s \<in> set vs \<and> cv_Storage s)"

definition newest_stored :: "(string \<Rightarrow> string \<Rightarrow> int) \<Rightarrow> 's crd_version list \<Rightarrow> bool" where
  "newest_stored cmp vs \<longleftrightarrow> (\<forall>v \<in> set vs. \<forall>w \<in> set vs. cv_Storage v \<longrightarrow> cmp (cv_Name w) (cv_Name v) \<le> 0)"

text \<open>Replacing the version with a name, or appending it.\<close>

definition put_version :: "'s crd_version \<Rightarrow> 's crd_version list \<Rightarrow> 's crd_version list" where
  "put_version v vs = (case last_index (\<lambda>w. cv_Name w = cv_Name v) vs of None \<Rightarrow> vs @ [v] | Some i \<Rightarrow> vs[i := v])"

lemma put_version:
  assumes "distinct (map cv_Name vs)"
  shows "set (put_version v vs) = {w \<in> set vs. cv_Name w \<noteq> cv_Name v} \<union> {v}" "distinct (map cv_Name (put_version v vs))"
proof -
  show "set (put_version v vs) = {w \<in> set vs. cv_Name w \<noteq> cv_Name v} \<union> {v}"
  proof (cases "last_index (\<lambda>w. cv_Name w = cv_Name v) vs")
    case None
    then have "\<forall>w \<in> set vs. cv_Name w \<noteq> cv_Name v" by (simp only: last_index_None)
    with None show ?thesis by (auto simp: put_version_def)
  next
    case (Some i)
    then have i: "i < length vs" "cv_Name (vs ! i) = cv_Name v" using last_index_Some by blast+
    have inj: "distinct vs" "inj_on cv_Name (set vs)" using assms by (simp_all add: distinct_map)
    have mem: "vs ! i \<in> set vs" using i(1) by simp
    have "w = vs ! i" if "w \<in> set vs" "cv_Name w = cv_Name v" for w
      using inj_onD [OF inj(2) _ that(1) mem] that(2) i(2) by simp
    then have "{w \<in> set vs. cv_Name w \<noteq> cv_Name v} = set vs - {vs ! i}" using i(2) by blast
    moreover have "set (vs[i := v]) = insert v (set vs - {vs ! i})" using inj(1) i(1) by (rule set_update_distinct)
    ultimately show ?thesis using Some by (simp add: put_version_def)
  qed
  show "distinct (map cv_Name (put_version v vs))"
  proof (cases "last_index (\<lambda>w. cv_Name w = cv_Name v) vs")
    case None
    then have "\<forall>w \<in> set vs. cv_Name w \<noteq> cv_Name v" by (simp only: last_index_None)
    with None assms show ?thesis by (auto simp: put_version_def)
  next
    case (Some i)
    then have i: "i < length vs" "cv_Name (vs ! i) = cv_Name v" using last_index_Some by blast+
    then have "map cv_Name (vs[i := v]) = map cv_Name vs" by (simp add: list_eq_iff_nth_eq nth_list_update)
    then show ?thesis using assms Some by (simp add: put_version_def)
  qed
qed

definition not_stored :: "'s crd_version \<Rightarrow> 's crd_version" where
  "not_stored w = w\<lparr>cv_Storage := False\<rparr>"

lemma not_stored [simp]: "cv_Name (not_stored w) = cv_Name w" "\<not> cv_Storage (not_stored w)" "\<not> cv_Storage w \<Longrightarrow> not_stored w = w"
  by (simp_all add: not_stored_def)

lemma merge_version_put:
  assumes "one_storage vs"
  shows "merge_version cmp v vs = (if \<exists>w \<in> set vs. cmp (cv_Name w) (cv_Name v) > 0 then put_version (not_stored v) vs else put_version v (map not_stored vs))"
proof -
  obtain s where s: "last_index cv_Storage vs = Some s" using assms by (cases "last_index cv_Storage vs") (auto simp: one_storage_def last_index_None)
  then have s': "s < length vs" "cv_Storage (vs ! s)" using last_index_Some by blast+
  have d: "distinct (map cv_Name vs)" and u: "\<exists>!w. w \<in> set vs \<and> cv_Storage w" using assms by (simp_all add: one_storage_def)
  have "j = s" if j: "j < length vs" "cv_Storage (vs ! j)" for j
  proof -
    have "vs ! j = vs ! s" using u s' j nth_mem by blast
    then show ?thesis using d j(1) s'(1) by (simp add: distinct_map nth_eq_iff_index_eq)
  qed
  then have other: "\<not> cv_Storage (vs ! j)" if "j < length vs" "j \<noteq> s" for j using that by blast
  have lu: "vs[s := (vs ! s)\<lparr>cv_Storage := False\<rparr>] = map not_stored vs"
  proof (rule nth_equalityI)
    fix j
    assume "j < length (vs[s := (vs ! s)\<lparr>cv_Storage := False\<rparr>])"
    then show "vs[s := (vs ! s)\<lparr>cv_Storage := False\<rparr>] ! j = map not_stored vs ! j"
      using other [of j] by (cases "j = s") (simp_all add: not_stored_def)
  qed simp
  have at: "last_index (\<lambda>w. cv_Name w = cv_Name v) (map not_stored vs) = last_index (\<lambda>w. cv_Name w = cv_Name v) vs"
    by (induction vs) (simp_all split: option.split)
  have v': "v\<lparr>cv_Storage := False\<rparr> = not_stored v" by (simp add: not_stored_def)
  show ?thesis
  proof (cases "\<exists>w \<in> set vs. cmp (cv_Name w) (cv_Name v) > 0")
    case True
    then show ?thesis by (simp only: merge_version_def put_version_def Let_def s v' not_stored simp_thms if_True if_False option.case)
  next
    case False
    then show ?thesis by (simp only: merge_version_def put_version_def Let_def s lu at not_stored simp_thms if_True if_False option.case)
  qed
qed

text \<open>A version that is not the newest does not take the place of the stored one.\<close>

lemma put_older_version:
  assumes order: "version_order cmp" and ok: "one_storage vs" "newest_stored cmp vs" and u: "u \<in> set vs" "cmp (cv_Name u) (cv_Name v) > 0"
  shows "one_storage (put_version (not_stored v) vs)" "newest_stored cmp (put_version (not_stored v) vs)"
proof -
  have d: "distinct (map cv_Name vs)" using ok(1) by (simp add: one_storage_def)
  obtain s where s: "s \<in> set vs" "cv_Storage s" "\<And>w. w \<in> set vs \<Longrightarrow> cv_Storage w \<Longrightarrow> w = s" using ok(1) by (auto simp: one_storage_def)
  have us: "cmp (cv_Name u) (cv_Name s) \<le> 0" using ok(2) s(1,2) u(1) unfolding newest_stored_def by blast
  then have ne: "cv_Name s \<noteq> cv_Name v" using u(2) by auto
  have vs': "cmp (cv_Name v) (cv_Name s) \<le> 0" using u(2) us order unfolding version_order_def by blast
  let ?m = "put_version (not_stored v) vs"
  note put = put_version [OF d, of "not_stored v", unfolded not_stored]
  have stored: "w \<in> set ?m \<and> cv_Storage w \<longleftrightarrow> w = s" for w
    unfolding put(1) using s ne not_stored(2) [of v] by blast
  have "\<exists>!w. w \<in> set ?m \<and> cv_Storage w" unfolding stored by simp
  then show "one_storage (put_version (not_stored v) vs)" using put(2) by (simp add: one_storage_def)
  show "newest_stored cmp (put_version (not_stored v) vs)"
  proof -
    have le: "cmp (cv_Name w) (cv_Name s) \<le> 0" if "w \<in> set ?m" for w
    proof (cases "w = not_stored v")
      case True
      then show ?thesis using vs' by simp
    next
      case False
      then have "w \<in> set vs" using that unfolding put(1) by blast
      then show ?thesis using ok(2) s(1,2) unfolding newest_stored_def by blast
    qed
    show ?thesis unfolding newest_stored_def
    proof (intro ballI impI)
      fix x w
      assume x: "x \<in> set ?m" "w \<in> set ?m" "cv_Storage x"
      have "x = s" using stored [of x] x(1,3) by simp
      then show "cmp (cv_Name w) (cv_Name x) \<le> 0" using le [OF x(2)] by simp
    qed
  qed
qed

text \<open>
  C13: Publishing a version keeps a CRD acceptable: if its version names are distinct, exactly one version is stored and this is the
  newest one, then the same holds after the version has been merged, and the version is there, stored if and only if no newer one exists.
\<close>

theorem publishing_keeps_storage_version:
  assumes order: "version_order cmp" and ok: "one_storage vs" "newest_stored cmp vs" and v: "cv_Storage v"
  shows "one_storage (merge_version cmp v vs) \<and> newest_stored cmp (merge_version cmp v vs)
    \<and> (\<exists>w \<in> set (merge_version cmp v vs). w\<lparr>cv_Storage := True\<rparr> = v \<and> (cv_Storage w \<longleftrightarrow> \<not> (\<exists>u \<in> set vs. cmp (cv_Name u) (cv_Name v) > 0)))"
proof -
  have d: "distinct (map cv_Name vs)" "distinct (map cv_Name (map not_stored vs))" using ok(1) by (auto simp: one_storage_def comp_def)
  show ?thesis
  proof (cases "\<exists>u \<in> set vs. cmp (cv_Name u) (cv_Name v) > 0")
    case True
    then obtain u where u: "u \<in> set vs" "cmp (cv_Name u) (cv_Name v) > 0" by blast
    have m: "merge_version cmp v vs = put_version (not_stored v) vs" using merge_version_put [OF ok(1)] True by simp
    have "one_storage (put_version (not_stored v) vs)" "newest_stored cmp (put_version (not_stored v) vs)"
      using put_older_version [OF order ok u] by simp_all
    moreover have "not_stored v \<in> set (put_version (not_stored v) vs)" "(not_stored v)\<lparr>cv_Storage := True\<rparr> = v"
      using put_version(1) [OF d(1), of "not_stored v"] v by (auto simp: not_stored_def)
    ultimately show ?thesis using m True by (intro conjI bexI [of _ "not_stored v"]) auto
  next
    case False
    have m: "merge_version cmp v vs = put_version v (map not_stored vs)" using merge_version_put [OF ok(1)] False by simp
    have "one_storage (put_version v (map not_stored vs))" "newest_stored cmp (put_version v (map not_stored vs))"
      using put_version [OF d(2), of v] v False order by (auto simp: one_storage_def newest_stored_def version_order_def not_less)
    moreover have "v \<in> set (put_version v (map not_stored vs))" using put_version(1) [OF d(2), of v] by simp
    ultimately show ?thesis using m False v by (intro conjI bexI [of _ v]) auto
  qed
qed

text \<open>
  Deleting the negotiated resource of the stored version leaves the CRD without a stored version: the update that is sent has the other
  versions, none of which is stored, so the API server has to refuse it.
\<close>

theorem cleanup_drops_storage_version:
  assumes "one_storage (crd_Versions c)" "v \<in> set (crd_Versions c)" "cv_Storage v" "w \<in> set (crd_Versions c)" "cv_Name w \<noteq> cv_Name v"
    and "ref \<in> set (crd_Owners c)" "or_Name ref = Name n" "or_UID ref = UID n" "cv_Name v = gvr_Version r"
  shows "\<exists>c'. fst (cleanup_crd E cl r n c) = [CRDUpdate cl c'] \<and> crd_Versions c' \<noteq> [] \<and> (\<forall>u \<in> set (crd_Versions c'). \<not> cv_Storage u)"
proof -
  let ?vs = "filter (\<lambda>v. cv_Name v \<noteq> gvr_Version r) (crd_Versions c)"
  have w: "w \<in> set ?vs" using assms by simp
  have "length ?vs < length (crd_Versions c)" using assms(2,9) by (intro length_filter_less) auto
  moreover have "?vs \<noteq> []" using w by (metis empty_iff list.set(1))
  moreover have "\<exists>ref \<in> set (crd_Owners c). owned_by n ref" using assms by (auto simp: owned_by_def)
  moreover have "\<forall>u \<in> set ?vs. \<not> cv_Storage u" using assms by (auto simp: one_storage_def)
  ultimately show ?thesis by (auto simp: cleanup_crd_def Let_def)
qed

section \<open>Dispatching\<close>

lemma fst_lift: "fst (andThen (lift_err m) f) = (case m of Inl _ \<Rightarrow> [] | Inr x \<Rightarrow> fst (f x))"
  by (simp add: fst_andThen split: sum.split)

text \<open>
  When an import is gone, the negotiated resource is deleted only if no import of the type is left and it is not enforced; then it is
  the one of the type, and the deletion is the only request. In all other cases the negotiation runs again over the imports that are left.
\<close>

theorem negotiated_deleted_as_orphan:
  assumes "gvr_Version r \<noteq> []" "NegotiatedDelete cl name \<in> set (fst (process_import E Deleted r i))"
  shows "imports_for E (Cluster i) r = Inr [] \<and> (\<exists>n. negotiated_for E (Cluster i) r = Inr [n] \<and> \<not> negotiated_is n Enforced
      \<and> fst (process_import E Deleted r i) = [NegotiatedDelete (Cluster n) (Name n)])"
proof -
  have no_delete: "NegotiatedDelete cl name \<notin> set (fst (ensureAPIResourceCompatibility E c r imp s))" for c imp s
  proof
    assume d: "NegotiatedDelete cl name \<in> set (fst (ensureAPIResourceCompatibility E c r imp s))"
    then have "fst (ensureAPIResourceCompatibility E c r imp s) \<noteq> []" by auto
    then obtain objs new updated out where "fst (ensureAPIResourceCompatibility E c r imp s) =
        fst (andThen (write_negotiated E (case objs of [] \<Rightarrow> None | n # _ \<Rightarrow> Some n) new updated) (\<lambda>_. for_each (write_import E) out))"
      by (rule ensure_calls)
    moreover have "sends (\<lambda>c. c \<noteq> NegotiatedDelete cl name) (write_negotiated E existing new updated)" for existing
      by (auto simp: write_negotiated_def create_negotiated_def NegotiatedUpdateOf_def intro!: sends_andThen split: option.split go_error.split)
    ultimately have "NegotiatedDelete cl name \<in> set (fst (for_each (write_import E) out))" using d by (auto simp: in_andThen sends_def)
    then show False by (auto dest!: write_imports_calls simp: ImportUpdateOf_def)
  qed
  obtain orphan where o: "negotiatedAPIResourceIsOrphan E (Cluster i) r = Inr orphan" "orphan"
    using assms(2) no_delete by (cases "negotiatedAPIResourceIsOrphan E (Cluster i) r") (auto simp: process_import_def split: if_splits)
  then obtain objs where n0: "imports_for E (Cluster i) r = Inr []" "negotiated_for E (Cluster i) r = Inr objs"
      "(case objs of [n] \<Rightarrow> Inr (\<not> negotiated_is n Enforced) | _ \<Rightarrow> Inr False) = (Inr True :: go_error + bool)"
    by (auto simp: negotiatedAPIResourceIsOrphan_def bindE_Inr split: if_splits)
  then obtain n where n: "imports_for E (Cluster i) r = Inr []" "negotiated_for E (Cluster i) r = Inr [n]" "\<not> negotiated_is n Enforced"
    by (cases objs rule: list.exhaust; cases "tl objs") auto
  then have "fst (process_import E Deleted r i) = [NegotiatedDelete (Cluster n) (Name n)]"
    using o assms(1) by (simp add: process_import_def deleteNegotiatedAPIResource_def fst_andThen split: sum.split)
  with n show ?thesis by blast
qed

text \<open>Requests for CRDs.\<close>

definition crd_call :: "'s nego_call \<Rightarrow> bool" where
  "crd_call c = (case c of CRDCreate _ _ \<Rightarrow> True | CRDUpdate _ _ \<Rightarrow> True | CRDDelete _ _ \<Rightarrow> True | _ \<Rightarrow> False)"

lemma crd_call_simps [simp]:
  "\<not> crd_call (NegotiatedUpdateOf n)" "\<not> crd_call (ImportUpdateOf i)" "\<not> crd_call (NegotiatedCreate cl n)" "\<not> crd_call (NegotiatedGet cl m)"
  "\<not> crd_call (NegotiatedDelete cl m)"
  by (simp_all add: crd_call_def NegotiatedUpdateOf_def ImportUpdateOf_def)

abbreviation no_crd :: "('s nego_call, 'a) calls \<Rightarrow> bool" where
  "no_crd m \<equiv> sends (\<lambda>c. \<not> crd_call c) m"

lemma ensure_no_crd: "no_crd (ensureAPIResourceCompatibility E cl r imp s)"
  by (auto simp: ensureAPIResourceCompatibility_def Let_def write_negotiated_def create_negotiated_def write_import_def
      intro!: sends_andThen sends_for_each split: option.split go_error.split)

lemma other_no_crd:
  "no_crd (enforceCRDToNegotiatedAPIResource E cl r c)" "no_crd (updatePublishingStatusOnNegotiatedAPIResources E cl r c)"
  "no_crd (deleteNegotiatedAPIResource E cl r co)" "no_crd (updateStatusOnRelatedAPIResourceImports E cl r n)"
  by (auto simp: enforceCRDToNegotiatedAPIResource_def enforce_one_def updatePublishingStatusOnNegotiatedAPIResources_def deleteNegotiatedAPIResource_def
      updateStatusOnRelatedAPIResourceImports_def Let_def intro!: sends_andThen sends_for_each split: option.split sum.split list.split)

lemma process_no_crd: "no_crd (process_crd E action r c)" "no_crd (process_import E action r i)"
  by (auto simp: process_crd_def process_import_def Let_def ensure_no_crd other_no_crd intro!: sends_andThen split: element_action.split)

text \<open>
  A CRD that was created by hand is never written: if the cache has a CRD for the type that no negotiated resource owns, then no event
  of a negotiated resource sends a request that creates, updates or deletes a CRD.
\<close>

theorem manual_crd_untouched:
  assumes "nv_crdLister E (Cluster n) (crdName_of r) = Inr c" "isManuallyCreatedCRD c" "\<not> (\<exists>ref \<in> set (crd_Owners c). owned_by n ref)"
    and "call \<in> set (fst (process_negotiated E action r n))"
  shows "\<not> crd_call call"
proof -
  have p: "no_crd (publishNegotiatedResource E (Cluster n) r n)"
    using assms(1,2) by (auto simp: publishNegotiatedResource_def Let_def intro!: sends_andThen)
  have "no_crd (cleanupNegotiatedAPIResource E (Cluster n) r n)"
    using assms(1,3) by (auto simp: cleanupNegotiatedAPIResource_def cleanup_crd_def Let_def intro!: sends_andThen sends_for_each)
  with p have "no_crd (process_negotiated E action r n)"
    by (auto simp: process_negotiated_def Let_def ensure_no_crd other_no_crd intro!: sends_andThen split: element_action.split)
  with assms(4) show ?thesis by (simp add: sends_def)
qed

text \<open>
  Publishing makes every import of the type available, also those that are known to be incompatible.
\<close>

theorem incompatible_import_available:
  assumes "imports_for E (Cluster n) r = Inr [i]" "IsConditionFalse (ai_Conditions i) Compatible" "negotiated_is n Published"
  shows "\<exists>i'. fst (process_negotiated E StatusOnlyChanged r n) = [ImportUpdate (Cluster i) i']
    \<and> IsConditionFalse (ai_Conditions i') Compatible \<and> IsConditionTrue (ai_Conditions i') Available"
proof -
  obtain c where c: "FindCondition (na_Conditions n) Published = Some c" "ac_Status c = ''True''"
    using assms(3) by (auto simp: negotiated_is_def IsConditionTrue_def IsConditionPresentAndEqual_iff)
  let ?i = "set_import E Available (ac_Status c) [] [] i"
  have "fst (process_negotiated E StatusOnlyChanged r n) = [ImportUpdate (Cluster i) ?i]"
    using assms(1) c(1) by (simp add: process_negotiated_def updateStatusOnRelatedAPIResourceImports_def fst_andThen ImportUpdateOf_def split: sum.split)
  moreover have "IsConditionFalse (ai_Conditions ?i) Compatible \<and> IsConditionTrue (ai_Conditions ?i) Available"
    using assms(2) c(2) by (simp add: IsCondition_content)
  ultimately show ?thesis by blast
qed

section \<open>Events\<close>

text \<open>
  Which updates are queued: for the three types, one whose resource version is the same is ignored; else a change of the
  generation is one of the spec and a change of the status one of the status. Of the other updates exactly those are ignored
  that change the labels and not the annotations, while an update that changes neither is queued.
\<close>

theorem queued_updates:
  "update_action (Some (oldMeta, oldGeneration, oldStatus)) (Some (newMeta, newGeneration, newStatus)) = Inr (
     if ResourceVersion oldMeta = ResourceVersion newMeta then None
     else if oldGeneration \<noteq> newGeneration then Some SpecChanged
     else if oldStatus \<noteq> newStatus then Some StatusOnlyChanged
     else if (\<forall>k. go_get (Annotations oldMeta) k = go_get (Annotations newMeta) k) \<and> (\<exists>k. go_get (Labels oldMeta) k \<noteq> go_get (Labels newMeta) k) then None
     else Some AnnotationOrLabelsOnlyChanged)"
  by (auto simp: update_action_def map_equal_iff go_get_def fun_eq_iff)

section \<open>Columns\<close>

lemma import_columns:
  "columns_ImportFromCRDVersion v cd = cd @ map column_of (cv_Columns v)" if "distinct (map cd_Name cd @ map cc_Name (cv_Columns v))"
proof -
  have "fold (\<lambda>apc cd. if \<exists>colDef \<in> set cd. cd_Name colDef = cc_Name apc then cd else cd @ [column_of apc]) cols cd = cd @ map column_of cols"
    if "distinct (map cd_Name cd @ map cc_Name cols)" for cols
    using that
  proof (induction cols arbitrary: cd)
    case (Cons c cols)
    then have "\<not> (\<exists>colDef \<in> set cd. cd_Name colDef = cc_Name c)" by force
    moreover have "distinct (map cd_Name (cd @ [column_of c]) @ map cc_Name cols)" using Cons.prems by (auto simp: column_of_def)
    ultimately show ?case using Cons.IH [of "cd @ [column_of c]"] by simp
  qed simp
  with that show ?thesis by (simp add: columns_ImportFromCRDVersion_def)
qed

lemma export_columns: "ToCustomResourceColumnDefinitions (map column_of cols) = cols"
  by (induction cols) (simp_all add: column_of_def)

text \<open>
  The printer columns of a CRD version, whose names are distinct, survive the negotiation: imported into the column definitions of a
  negotiated resource and published again, they are the same, in the same order.
\<close>

theorem columns_roundtrip:
  assumes "distinct (map cc_Name (cv_Columns v))" "as_Columns (na_Spec n) = columns_ImportFromCRDVersion v []"
  shows "cv_Columns (published_version r schema n) = cv_Columns v"
  using assms by (simp add: published_version_def import_columns export_columns)

section \<open>Witnesses\<close>

text \<open>Schemas are numbers, smaller ones are more narrow.\<close>

definition ex_nego :: "negotiated list \<Rightarrow> api_import list \<Rightarrow> go_error + nat crd \<Rightarrow> nat nego_env" where
  "ex_nego ns iis crd_found =
     \<lparr>nv_now = 1, nv_decode = (\<lambda>t. Inr (length t)),
      nv_encode = (\<lambda>s. case s of None \<Rightarrow> Inr [] | Some k \<Rightarrow> Inr (replicate k CHR ''x'')),
      nv_compat = (\<lambda>_ a b narrow. if narrow then Inr (min a b) else if a \<le> b then Inr a else Inl (Failure ''incompatible'')),
      nv_IsCRDConditionTrue = (\<lambda>cs t. map_of cs t = Some ''True''), nv_IsCRDConditionFalse = (\<lambda>cs t. map_of cs t = Some ''False''),
      nv_compareVersions = (\<lambda>a b. int (length a) - int (length b)), nv_IsProtectedCommunityGroup = (\<lambda>_. False), nv_SetDefaults = (\<lambda>c. c),
      nv_gvrString = gvr_Resource, nv_SplitKey = (\<lambda>k. Inr ([], k)), nv_negotiatedIndex = (\<lambda>_. Inr ns), nv_importIndex = (\<lambda>_. Inr iis),
      nv_negotiatedLister = (\<lambda>_ _. Inl NotFound), nv_importLister = (\<lambda>_ _. case iis of [] \<Rightarrow> Inl NotFound | i # _ \<Rightarrow> Inr i),
      nv_crdLister = (\<lambda>_ _. crd_found), nv_created = (\<lambda>n. n), nv_negotiatedGet = (\<lambda>_ _. Inl NotFound), nv_answer = (\<lambda>_. None)\<rparr>"


definition ex_names :: crd_names where
  "ex_names = \<lparr>nm_Plural = ''widgets'', nm_Singular = ''widget'', nm_ShortNames = [], nm_Kind = ''Widget'', nm_ListKind = ''WidgetList'', nm_Categories = []\<rparr>"

definition ex_spec :: "string \<Rightarrow> api_spec" where
  "ex_spec s = \<lparr>as_Group = ''g'', as_Version = ''v1'', as_Scope = ''Cluster'', as_Names = ex_names, as_Schema = s, as_SubResources = [], as_Columns = []\<rparr>"

definition ex_widgets :: gvr where "ex_widgets = \<lparr>gvr_Group = ''g'', gvr_Version = ''v1'', gvr_Resource = ''widgets''\<rparr>"

definition ex_offer :: "string \<Rightarrow> api_condition list \<Rightarrow> api_import" where
  "ex_offer s cs = object_meta.extend (empty_meta_named ''ws'' ''offer'' None)
     \<lparr>ai_Generation = 1, ai_Spec = ex_spec s, ai_SchemaUpdateStrategy = UpdateUnpublished, ai_Location = ''east'', ai_Conditions = cs\<rparr>"

definition ex_negotiated :: "string \<Rightarrow> api_condition list \<Rightarrow> negotiated" where
  "ex_negotiated s cs = object_meta.extend (empty_meta_named ''ws'' ''widgets.v1.g'' None)
     \<lparr>na_Generation = 1, na_Spec = ex_spec s, na_Publish = False, na_Conditions = cs\<rparr>"

definition ex_crd :: "nat crd_version list \<Rightarrow> owner_reference list \<Rightarrow> nat crd" where
  "ex_crd vs owners = object_meta.extend (empty_meta_named ''ws'' ''widgets.g'' None)
     \<lparr>crd_Generation = 1, crd_Owners = owners, crd_Group = ''g'', crd_Names = ex_names, crd_Scope = ''Cluster'', crd_Versions = vs, crd_Conditions = []\<rparr>"

definition ex_version :: "string \<Rightarrow> bool \<Rightarrow> nat crd_version" where
  "ex_version name stored = \<lparr>cv_Name = name, cv_Served = True, cv_Storage = stored, cv_Schema = Some (Some 1), cv_Subresources = None,
     cv_Columns = [\<lparr>cc_Name = ''Age'', cc_Type = ''date'', cc_Format = [], cc_Description = [], cc_Priority = 0, cc_JSONPath = ''.age''\<rparr>]\<rparr>"

lemma ex_nego_simps [simp]:
  "nv_answer (ex_nego ns iis cf) c = None" "nv_crdLister (ex_nego ns iis cf) cl m = cf" "nv_decode (ex_nego ns iis cf) t = Inr (length t)"
  "negotiated_for (ex_nego ns iis cf) cl r = Inr ns" "imports_for (ex_nego ns iis cf) cl r = Inr iis" "nv_created (ex_nego ns iis cf) n = n"
  "nv_importLister (ex_nego ns (i # iis) cf) cl m = Inr i" "GetSchema (nv_decode (ex_nego ns iis cf)) spec = Inr (length (as_Schema spec))"
  by (simp_all add: ex_nego_def negotiated_for_def imports_for_def GetSchema_def)

lemma ex_object_simps [simp]:
  "Cluster (ex_offer s cs) = ''ws''" "Name (ex_offer s cs) = ''offer''" "ResourceVersion (ex_offer s cs) = []" "ai_Spec (ex_offer s cs) = ex_spec s"
  "ai_Conditions (ex_offer s cs) = cs" "Cluster (ex_negotiated s cs) = ''ws''" "na_Spec (ex_negotiated s cs) = ex_spec s" "na_Conditions (ex_negotiated s cs) = cs"
  "as_Schema (ex_spec s) = s" "na_Publish (ex_negotiated s cs) = False" "Annotations (ex_offer s cs) = None" "gvr_Version ex_widgets = ''v1''"
  "crd_Owners (ex_crd vs os) = os" "crd_Versions (ex_crd vs os) = vs"
  by (simp_all add: ex_offer_def ex_negotiated_def ex_spec_def ex_widgets_def ex_crd_def object_meta.defs empty_meta_named_def)

lemma ex_version_simps [simp]: "cv_Name (ex_version name st) = name" "cv_Storage (ex_version name st) = st"
  by (simp_all add: ex_version_def)

lemma one_condition [simp]: "IsConditionTrue [new_condition t s r m] t' \<longleftrightarrow> t = t' \<and> s = ''True''"
  "IsConditionFalse [new_condition t s r m] t' \<longleftrightarrow> t = t' \<and> s = ''False''" "IsConditionTrue [] t' = False"
  by (simp_all add: IsConditionTrue_def IsConditionFalse_def)

lemmas ex_nego_defs = ex_nego_def ex_names_def ex_spec_def ex_widgets_def ex_offer_def ex_negotiated_def ex_crd_def ex_version_def empty_meta_named_def
  object_meta.defs


theorem enforced_schema_untouched_witness:
  "\<exists>c. c \<in> set (fst (ensureAPIResourceCompatibility (ex_nego [ex_negotiated ''x'' [new_condition Enforced ''True'' [] []]] [ex_offer ''xx'' []] (Inl NotFound))
       ''ws'' ex_widgets (Some (ex_offer ''xx'' [])) [])) \<and> (\<exists>cluster i. c = ImportUpdate cluster i)"
proof -
  let ?n = "ex_negotiated ''x'' [new_condition Enforced ''True'' [] []]" and ?i = "ex_offer ''xx'' []"
  let ?E = "ex_nego [?n] [?i] (Inl NotFound)"
  let ?r = "ensureAPIResourceCompatibility ?E ''ws'' ex_widgets (Some ?i) []"
  have e: "negotiated_is ?n Enforced" by (simp add: negotiated_is_def)
  have "nv_compat ?E k (length ''x'') (length ''xx'') False = Inr 1" for k by (simp add: ex_nego_def)
  then have "compare_import ?E False ?n False [] ?i (length ''x'') (length ''xx'') = Inr (Some ?n, False, [compatible_import ?E ?n ?i])"
    unfolding compare_import_def by simp
  then have "import_loop ?E ''ws'' ex_widgets (Some ?n) (Some ?n) [?i] = Inr (Some ?n, False, [compatible_import ?E ?n ?i])"
    using e by (simp add: import_loop_def import_step_def allow_update_def)
  then have "fst ?r = [ImportUpdateOf ((compatible_import ?E ?n ?i)\<lparr>ResourceVersion := []\<rparr>)]"
    by (simp add: ensureAPIResourceCompatibility_def based_on_crd_def write_negotiated_def write_import_def fst_andThen Let_def split: sum.split)
  then have c: "ImportUpdateOf ((compatible_import ?E ?n ?i)\<lparr>ResourceVersion := []\<rparr>) \<in> set (fst ?r)" by simp
  have "negotiated_for ?E ''ws'' ex_widgets = Inr (?n # [])" by simp
  from enforced_schema_untouched [OF this _ c] e c show ?thesis by blast
qed

theorem enforced_schema_replaced_witness:
  "\<exists>n'. NegotiatedUpdate (Cluster n') n' \<in> set (fst (process_negotiated (ex_nego [ex_negotiated ''x'' [new_condition Enforced ''True'' [] []]] [ex_offer ''xx'' []]
      (Inl NotFound)) SpecChanged ex_widgets (ex_negotiated ''x'' [new_condition Enforced ''True'' [] []]))) \<and> na_Conditions n' = []"
proof -
  let ?n = "ex_negotiated ''x'' [new_condition Enforced ''True'' [] []]" and ?i = "ex_offer ''xx'' []"
  let ?E = "ex_nego [?n] [?i] (Inl NotFound)"
  have "import_loop ?E (Cluster ?n) ex_widgets (Some ?n) None [?i]
      = Inr (Some (first_import ?E (Cluster ?n) ex_widgets (Some ?n) ?i), True, [set_import ?E Compatible ''True'' [] [] ?i])"
    by (simp add: import_loop_def import_step_def)
  from enforced_schema_replaced [OF _ _ _ _ this] show ?thesis by (auto simp: negotiated_is_def)
qed

theorem publishing_keeps_storage_version_witness:
  "one_storage (merge_version (\<lambda>a b. int (length a) - int (length b)) (ex_version ''v10'' True) [ex_version ''v1'' True])"
proof -
  have "version_order (\<lambda>a b. int (length a) - int (length b))" by (simp add: version_order_def)
  moreover have "one_storage [ex_version ''v1'' True]" by (auto simp: one_storage_def)
  moreover have "newest_stored (\<lambda>a b. int (length a) - int (length b)) [ex_version ''v1'' True]" by (simp add: newest_stored_def)
  ultimately show ?thesis using publishing_keeps_storage_version [of "\<lambda>a b. int (length a) - int (length b)" "[ex_version ''v1'' True]" "ex_version ''v10'' True"]
    by simp
qed

theorem cleanup_drops_storage_version_witness:
  "\<exists>c'. fst (cleanup_crd (ex_nego [] [] (Inl NotFound)) ''ws'' ex_widgets (ex_negotiated ''x'' [])
       (ex_crd [ex_version ''v1'' True, ex_version ''v1beta1'' False] [NegotiatedAPIResourceAsOwnerReference (ex_negotiated ''x'' [])])) = [CRDUpdate ''ws'' c']
     \<and> (\<nexists>u. u \<in> set (crd_Versions c') \<and> cv_Storage u)"
proof -
  let ?n = "ex_negotiated ''x'' []" and ?v = "ex_version ''v1'' True" and ?w = "ex_version ''v1beta1'' False"
  let ?c = "ex_crd [?v, ?w] [NegotiatedAPIResourceAsOwnerReference ?n]"
  have "one_storage (crd_Versions ?c)" by (auto simp: one_storage_def)
  from cleanup_drops_storage_version [OF this, of ?v ?w "NegotiatedAPIResourceAsOwnerReference ?n" ?n ex_widgets "ex_nego [] [] (Inl NotFound)" "''ws''"]
  show ?thesis by (force simp: NegotiatedAPIResourceAsOwnerReference_def)
qed

theorem negotiated_deleted_as_orphan_witness:
  "\<exists>n :: negotiated. fst (process_import (ex_nego [ex_negotiated ''x'' []] [] (Inl NotFound)) Deleted ex_widgets (ex_offer ''xx'' [])) = [NegotiatedDelete (Cluster n) (Name n)]"
proof -
  let ?E = "ex_nego [ex_negotiated ''x'' []] [] (Inl NotFound)"
  have "negotiatedAPIResourceIsOrphan ?E ''ws'' ex_widgets = Inr True" by (simp add: negotiatedAPIResourceIsOrphan_def negotiated_is_def)
  then have "NegotiatedDelete ''ws'' (Name (ex_negotiated ''x'' [])) \<in> set (fst (process_import ?E Deleted ex_widgets (ex_offer ''xx'' [])))"
    by (simp add: process_import_def deleteNegotiatedAPIResource_def fst_andThen split: sum.split)
  moreover have "gvr_Version ex_widgets \<noteq> []" by simp
  ultimately show ?thesis using negotiated_deleted_as_orphan by blast
qed

theorem manual_crd_untouched_witness:
  "\<exists>call. call \<in> set (fst (process_negotiated (ex_nego [] [] (Inr (ex_crd [ex_version ''v1'' True] []))) Created ex_widgets ((ex_negotiated ''x'' [])\<lparr>na_Publish := True\<rparr>)))
     \<and> \<not> crd_call call"
proof -
  let ?c = "ex_crd [ex_version ''v1'' True] []" and ?n = "(ex_negotiated ''x'' [])\<lparr>na_Publish := True\<rparr>"
  let ?E = "ex_nego [] [] (Inr ?c)"
  have m: "isManuallyCreatedCRD ?c" by (simp add: isManuallyCreatedCRD_def)
  have c: "NegotiatedUpdateOf (set_negotiated ?E Submitted ''True'' ?n) \<in> set (fst (process_negotiated ?E Created ex_widgets ?n))"
    using m by (simp add: process_negotiated_def negotiated_is_def publishNegotiatedResource_def Let_def in_andThen)
  have "nv_crdLister ?E (Cluster ?n) (crdName_of ex_widgets) = Inr ?c" by simp
  from manual_crd_untouched [OF this m _ c] c show ?thesis by auto
qed

theorem incompatible_import_available_witness:
  "\<exists>i'. fst (process_negotiated (ex_nego [] [ex_offer ''x'' [new_condition Compatible ''False'' [] []]] (Inl NotFound)) StatusOnlyChanged ex_widgets
       (ex_negotiated ''xx'' [new_condition Published ''True'' [] []])) = [ImportUpdate ''ws'' i']
     \<and> IsConditionFalse (ai_Conditions i') Compatible \<and> IsConditionTrue (ai_Conditions i') Available"
  using incompatible_import_available [of "ex_nego [] [ex_offer ''x'' [new_condition Compatible ''False'' [] []]] (Inl NotFound)"
      "ex_negotiated ''xx'' [new_condition Published ''True'' [] []]" ex_widgets "ex_offer ''x'' [new_condition Compatible ''False'' [] []]"]
  by (simp add: negotiated_is_def)

theorem columns_roundtrip_witness:
  "cv_Columns (published_version ex_widgets (1::nat) ((ex_negotiated ''x'' [])\<lparr>na_Spec := (ex_spec ''x'')\<lparr>as_Columns := columns_ImportFromCRDVersion (ex_version ''v1'' True) []\<rparr>\<rparr>))
     = cv_Columns (ex_version ''v1'' True)"
  by (rule columns_roundtrip) (simp_all add: ex_version_def)

end
