(* ===== verification/API_Exports.thy ===== *)
theory API_Exports
  imports API_Resource Work_Queue
begin

text \<open>
  \<^verbatim>\<open>src/pkg/reconciler/workload/apiexport\<close>: the controller that keeps the schemas of the export \<open>imported-apis\<close> in step with the
  negotiated resources of its workspace. Every schema the export lists that is missing or outdated is created under a name
  that carries the resource version, the export is updated with the new names, and the replaced schemas are deleted.

  Parameters (record \<open>exports_env\<close>): the listers and the server, the text of a group resource and its parser (of the
  Kubernetes libraries), the controller reference, and the two orders in which the run iterates over its maps. A lister or a
  read may answer differently the second time it is asked, so both take the number of the request.
\<close>

section \<open>Schemas\<close>

record schema_serving =
  av_Name :: string
  av_Served :: bool
  av_Storage :: bool
  av_Schema :: string                       \<comment> \<open>the raw JSON\<close>
  av_Subresources :: crd_subresources
  av_Columns :: "crd_column list"

record schema_spec =
  ss_Group :: string
  ss_Names :: crd_names
  ss_Scope :: string
  ss_Versions :: "schema_serving list"

record api_schema = object_meta +
  sch_Owners :: "owner_reference list"
  sch_Spec :: schema_spec

definition ImportedAPISExportName :: string where "ImportedAPISExportName = ''imported-apis''"

text \<open>The loop over the subresources: unknown names are passed over.\<close>

definition subresource_step :: "string \<Rightarrow> crd_subresources \<Rightarrow> crd_subresources" where
  "subresource_step sr subs =
     (if sr = ScaleSubResourceName then subs\<lparr>sub_Scale := Some (''.spec.replicas'', ''.status.replicas'')\<rparr>
      else if sr = StatusSubResourceName then subs\<lparr>sub_Status := True\<rparr>
      else subs)"

definition toAPIResourceSchema :: "negotiated \<Rightarrow> string \<Rightarrow> api_schema" where
  "toAPIResourceSchema r name =
     (let s = na_Spec r in
      \<lparr>Name = name, Namespace = [], Cluster = [], UID = [], ResourceVersion = [], Labels = None,
       Annotations = (case go_get (Annotations r) KubeAPIApprovedAnnotation of
           None \<Rightarrow> None | Some value \<Rightarrow> Some [(KubeAPIApprovedAnnotation, value)]),
       Finalizers = [], OwnerReferences = [], DeletionTimestamp = None,
       sch_Owners = [],
       sch_Spec = \<lparr>ss_Group = (if as_Group s = ''core'' then [] else as_Group s), ss_Names = as_Names s, ss_Scope = as_Scope s,
         ss_Versions = [\<lparr>av_Name = as_Version s, av_Served = True, av_Storage = True, av_Schema = as_Schema s,
           av_Subresources = fold subresource_step (as_SubResources s) \<lparr>sub_Scale = None, sub_Status = False\<rparr>,
           av_Columns = ToCustomResourceColumnDefinitions (as_Columns s)\<rparr>]\<rparr>\<rparr>)"

definition ParseAPIResourceSchemaName :: "string \<Rightarrow> group_resource option" where
  "ParseAPIResourceSchemaName name =
     (let comps = splitN (CHR ''.'') 3 name in
      if length comps < 3 then None else Some \<lparr>gr_Group = comps ! 2, gr_Resource = comps ! 1\<rparr>)"

text \<open>The name of a new schema.\<close>

definition core_group :: "string \<Rightarrow> string" where
  "core_group g = (if g = [] then ''core'' else g)"

definition revision_name :: "negotiated \<Rightarrow> string" where
  "revision_name r = ''rev-'' @ ResourceVersion r @ ''.'' @ nm_Plural (as_Names (na_Spec r)) @ ''.'' @ core_group (as_Group (na_Spec r))"

definition resource_key :: "negotiated \<Rightarrow> group_resource" where
  "resource_key r = \<lparr>gr_Group = core_group (as_Group (na_Spec r)), gr_Resource = nm_Plural (as_Names (na_Spec r))\<rparr>"

section \<open>Environment\<close>

datatype export_call =
    SchemaGet string string | SchemaCreate string api_schema | SchemaDelete string string | ExportUpdate string api_export

record exports_env =
  xe_listNegotiated :: "string \<Rightarrow> go_error + negotiated list"
  xe_schemaLister :: "nat \<Rightarrow> string \<Rightarrow> string \<Rightarrow> go_error + api_schema"
  xe_schemaGet :: "nat \<Rightarrow> string \<Rightarrow> string \<Rightarrow> go_error + api_schema"
  xe_created :: "api_schema \<Rightarrow> api_schema"                                \<comment> \<open>the object that \<open>Create\<close> returns\<close>
  xe_answer :: "export_call \<Rightarrow> go_error option"
  xe_grString :: "group_resource \<Rightarrow> string"
  xe_ParseGroupResource :: "string \<Rightarrow> group_resource"
  xe_NewControllerRef :: "api_export \<Rightarrow> owner_reference"
  xe_map_order :: "(group_resource \<times> string) list \<Rightarrow> (group_resource \<times> string) list"
  xe_set_order :: "string list \<Rightarrow> string list"

definition getAPIResourceSchema :: "exports_env \<Rightarrow> nat \<Rightarrow> string \<Rightarrow> string \<Rightarrow> (export_call, go_error + api_schema) calls" where
  "getAPIResourceSchema E n clusterName name =
     (if xe_schemaLister E n clusterName name = Inl NotFound
      then andThen (emit (SchemaGet clusterName name)) (\<lambda>_. okay (xe_schemaGet E n clusterName name))
      else okay (xe_schemaLister E n clusterName name))"

section \<open>Reconciliation\<close>

datatype export_status = ExportStop | ExportContinue

definition resourcesByResourceGroup :: "negotiated list \<Rightarrow> (group_resource \<times> negotiated) list" where
  "resourcesByResourceGroup resources = fold (\<lambda>r. AList.update (resource_key r) r) resources []"

text \<open>The three variables of the loops: the expected and the up-to-date groups, and the names by group.\<close>

record export_scan =
  xs_expected :: "string list"
  xs_upToDate :: "string list"
  xs_names :: "(group_resource \<times> string) list"

definition mark_current :: "exports_env \<Rightarrow> (group_resource \<times> negotiated) list \<Rightarrow> group_resource \<Rightarrow> api_schema \<Rightarrow> export_scan \<Rightarrow> export_scan" where
  "mark_current E byGroup gr existingSchema s =
     (case map_of byGroup gr of
        None \<Rightarrow> s
      | Some n \<Rightarrow>
          if sch_Spec existingSchema = sch_Spec (toAPIResourceSchema n [])
          then s\<lparr>xs_upToDate := set_insert (xe_grString E gr) (xs_upToDate s)\<rparr> else s)"

definition scan_name ::
  "exports_env \<Rightarrow> string \<Rightarrow> (group_resource \<times> negotiated) list \<Rightarrow> export_scan \<Rightarrow> string \<Rightarrow> (export_call, export_scan) calls" where
  "scan_name E clusterName byGroup s schemaName =
     (case ParseAPIResourceSchemaName schemaName of
        None \<Rightarrow> okay s
      | Some gr \<Rightarrow>
          (let s1 = s\<lparr>xs_expected := set_insert (xe_grString E gr) (xs_expected s), xs_names := AList.update gr schemaName (xs_names s)\<rparr> in
           andThen (getAPIResourceSchema E 0 clusterName schemaName) (\<lambda>found.
           case found of
             Inl NotFound \<Rightarrow> okay s1
           | Inl e \<Rightarrow> fail e
           | Inr existingSchema \<Rightarrow> okay (mark_current E byGroup gr existingSchema s1))))"

text \<open>The names by group, and the names to delete.\<close>

type_synonym export_plan = "(group_resource \<times> string) list \<times> string list"

definition new_schema :: "exports_env \<Rightarrow> api_export \<Rightarrow> negotiated \<Rightarrow> api_schema" where
  "new_schema E export r = (toAPIResourceSchema r (revision_name r))\<lparr>sch_Owners := [xe_NewControllerRef E export]\<rparr>"

definition create_schema :: "exports_env \<Rightarrow> string \<Rightarrow> api_schema \<Rightarrow> (export_call, api_schema) calls" where
  "create_schema E clusterName schema =
     andThen (attempt (xe_answer E) (SchemaCreate clusterName schema)) (\<lambda>err.
     case err of
       None \<Rightarrow> okay (xe_created E schema)
     | Some AlreadyExists \<Rightarrow> andThen (getAPIResourceSchema E 1 clusterName (Name schema)) lift_err
     | Some e \<Rightarrow> fail e)"

definition replace_schema ::
  "exports_env \<Rightarrow> api_export \<Rightarrow> (group_resource \<times> negotiated) list \<Rightarrow> export_plan \<Rightarrow> string \<Rightarrow> (export_call, export_plan) calls" where
  "replace_schema E export byGroup plan resourceGroup =
     (let gr = xe_ParseGroupResource E resourceGroup in
      case map_of byGroup gr of
        None \<Rightarrow> okay plan
      | Some r \<Rightarrow>
          andThen (create_schema E (Cluster export) (new_schema E export r)) (\<lambda>schema.
          okay (AList.update gr (Name schema) (fst plan),
                (case map_of (fst plan) gr of None \<Rightarrow> snd plan | Some old \<Rightarrow> set_insert old (snd plan)))))"

text \<open>\<open>Difference\<close>, then the sorted list.\<close>

definition outdatedOrMissing :: "export_scan \<Rightarrow> string list" where
  "outdatedOrMissing s = sort (filter (\<lambda>g. g \<notin> set (xs_upToDate s)) (xs_expected s))"

text \<open>
  An empty list of the export is the nil slice (the field is left out of its JSON), which \<open>reflect.DeepEqual\<close> tells from the
  empty slice of the run.
\<close>

definition update_names :: "exports_env \<Rightarrow> api_export \<Rightarrow> (group_resource \<times> string) list \<Rightarrow> (export_call, unit) calls" where
  "update_names E export names =
     (let latest = map snd (xe_map_order E names) in
      if LatestResourceSchemas export \<noteq> latest \<or> LatestResourceSchemas export = []
      then send_call (xe_answer E) (ExportUpdate (Cluster export) (export\<lparr>LatestResourceSchemas := latest\<rparr>)) else okay ())"

definition delete_schema :: "exports_env \<Rightarrow> string \<Rightarrow> string \<Rightarrow> (export_call, unit) calls" where
  "delete_schema E clusterName schemaName =
     andThen (attempt (xe_answer E) (SchemaDelete clusterName schemaName)) (\<lambda>err.
     case err of None \<Rightarrow> okay () | Some NotFound \<Rightarrow> okay () | Some e \<Rightarrow> fail e)"

definition finish_export :: "exports_env \<Rightarrow> api_export \<Rightarrow> export_plan \<Rightarrow> (export_call, export_status) calls" where
  "finish_export E export plan =
     andThen (update_names E export (fst plan)) (\<lambda>_.
     andThen (for_each (delete_schema E (Cluster export)) (xe_set_order E (snd plan))) (\<lambda>_.
     okay ExportContinue))"

definition schemaReconciler_reconcile :: "exports_env \<Rightarrow> api_export \<Rightarrow> (export_call, export_status) calls" where
  "schemaReconciler_reconcile E export =
     (if Name export \<noteq> ImportedAPISExportName then okay ExportStop
      else andThen (lift_err (xe_listNegotiated E (Cluster export))) (\<lambda>resources.
        if resources = [] then okay ExportStop
        else
          (let byGroup = resourcesByResourceGroup resources in
           andThen (fold_calls (scan_name E (Cluster export) byGroup)
             \<lparr>xs_expected = [], xs_upToDate = [], xs_names = []\<rparr> (LatestResourceSchemas export)) (\<lambda>s.
           andThen (fold_calls (replace_schema E export byGroup) (xs_names s, []) (outdatedOrMissing s)) (\<lambda>plan.
           finish_export E export plan)))))"

text \<open>The loop over the one reconciler: its error is the only one of the aggregate.\<close>

definition export_reconcile :: "exports_env \<Rightarrow> api_export \<Rightarrow> export_call list \<times> go_error list" where
  "export_reconcile E export =
     (case schemaReconciler_reconcile E export of (cs, Inl e) \<Rightarrow> (cs, [e]) | (cs, Inr _) \<Rightarrow> (cs, []))"

section \<open>Queue\<close>

datatype export_object = ExportObject api_export | NegotiatedObj negotiated | TargetObj sync_target | Unknown

type_synonym export_lister = "string \<Rightarrow> string \<Rightarrow> go_error + api_export"

definition export_filter :: "export_object \<Rightarrow> bool" where
  "export_filter obj = (case obj of ExportObject t \<Rightarrow> Name t = ImportedAPISExportName | _ \<Rightarrow> False)"

text \<open>The key of the export of a workspace, if there is one; every error is reported and dropped.\<close>

definition enqueue_export_of :: "export_lister \<Rightarrow> (api_export \<Rightarrow> go_error + string) \<Rightarrow> string \<Rightarrow> string list" where
  "enqueue_export_of lister keyFunc clusterName =
     (case lister clusterName ImportedAPISExportName of
        Inl _ \<Rightarrow> []
      | Inr export \<Rightarrow> (case keyFunc export of Inl _ \<Rightarrow> [] | Inr key \<Rightarrow> [key]))"

definition enqueueNegotiatedAPIResource :: "export_lister \<Rightarrow> (api_export \<Rightarrow> go_error + string) \<Rightarrow> export_object \<Rightarrow> string list" where
  "enqueueNegotiatedAPIResource lister keyFunc obj =
     (case obj of NegotiatedObj resource \<Rightarrow> enqueue_export_of lister keyFunc (Cluster resource) | _ \<Rightarrow> [])"

definition export_enqueueSyncTarget :: "export_lister \<Rightarrow> (api_export \<Rightarrow> go_error + string) \<Rightarrow> export_object \<Rightarrow> string list" where
  "export_enqueueSyncTarget lister keyFunc obj =
     (case obj of TargetObj resource \<Rightarrow> enqueue_export_of lister keyFunc (Cluster resource) | _ \<Rightarrow> [])"

definition enqueueAPIExport :: "(export_object \<Rightarrow> go_error + string) \<Rightarrow> export_object \<Rightarrow> string list" where
  "enqueueAPIExport keyFunc obj = (case keyFunc obj of Inl _ \<Rightarrow> [] | Inr key \<Rightarrow> [key])"

definition export_process ::
  "exports_env \<Rightarrow> (string \<Rightarrow> go_error + (string \<times> string)) \<Rightarrow> export_lister \<Rightarrow> string \<Rightarrow> export_call list \<times> go_error list" where
  "export_process E splitKey lister key =
     (case splitKey key of
        Inl _ \<Rightarrow> ([], [])
      | Inr (clusterName, name) \<Rightarrow>
          (case lister clusterName name of
             Inl NotFound \<Rightarrow> ([], [])
           | Inl e \<Rightarrow> ([], [e])
           | Inr obj \<Rightarrow> export_reconcile E obj))"

definition export_next ::
  "exports_env \<Rightarrow> (string \<Rightarrow> go_error + (string \<times> string)) \<Rightarrow> export_lister \<Rightarrow> string option \<Rightarrow> bool \<times> string queue_call list \<times> go_error list" where
  "export_next E splitKey lister item = processNext (\<lambda>key. snd (export_process E splitKey lister key)) item"

section \<open>Names\<close>

lemma parse_name_iff:
  assumes "CHR ''.'' \<notin> set a" "CHR ''.'' \<notin> set b"
  shows "ParseAPIResourceSchemaName (a @ ''.'' @ b @ ''.'' @ c) = Some \<lparr>gr_Group = c, gr_Resource = b\<rparr>"
  using splitN_step [OF assms(1), of 1 "b @ ''.'' @ c"] splitN_step [OF assms(2), of 0 c]
  by (simp add: ParseAPIResourceSchemaName_def numeral_3_eq_3)

lemma parsed_resource_no_dot: "ParseAPIResourceSchemaName name = Some gr \<Longrightarrow> CHR ''.'' \<notin> set (gr_Resource gr)"
  by (auto simp: ParseAPIResourceSchemaName_def numeral_3_eq_3 Let_def dest: set_takeWhileD split: if_splits list.splits)

text \<open>The text of a group resource can be parsed back, if the resource has no dot.\<close>

definition gr_laws :: "exports_env \<Rightarrow> bool" where
  "gr_laws E \<longleftrightarrow> (\<forall>gr. CHR ''.'' \<notin> set (gr_Resource gr) \<longrightarrow> xe_ParseGroupResource E (xe_grString E gr) = gr)"

definition dotless :: "negotiated \<Rightarrow> bool" where
  "dotless r \<longleftrightarrow> CHR ''.'' \<notin> set (ResourceVersion r) \<and> CHR ''.'' \<notin> set (nm_Plural (as_Names (na_Spec r)))"

lemma parse_revision_name: "dotless r \<Longrightarrow> ParseAPIResourceSchemaName (revision_name r) = Some (resource_key r)"
  using parse_name_iff [of "''rev-'' @ ResourceVersion r" "nm_Plural (as_Names (na_Spec r))" "core_group (as_Group (na_Spec r))"]
  by (simp add: dotless_def revision_name_def resource_key_def)

lemma byGroup_key: "map_of (resourcesByResourceGroup rs) gr = Some r \<Longrightarrow> r \<in> set rs \<and> resource_key r = gr"
proof -
  have "map_of (fold (\<lambda>r. AList.update (resource_key r) r) rs m) gr = Some r \<Longrightarrow> map_of m gr = Some r \<or> r \<in> set rs \<and> resource_key r = gr" for m
    by (induction rs arbitrary: m) (fastforce simp: update_conv' split: if_splits)+
  then show "map_of (resourcesByResourceGroup rs) gr = Some r \<Longrightarrow> r \<in> set rs \<and> resource_key r = gr"
    by (fastforce simp: resourcesByResourceGroup_def)
qed

lemma map_update_order: "distinct (map fst m) \<Longrightarrow> distinct (map fst (AList.update k v m))"
  by (simp add: distinct_update)

section \<open>The scan of the listed names\<close>

text \<open>What the run finds out about a name.\<close>

definition found_schema :: "exports_env \<Rightarrow> string \<Rightarrow> string \<Rightarrow> go_error + api_schema" where
  "found_schema E clusterName name =
     (if xe_schemaLister E 0 clusterName name = Inl NotFound then xe_schemaGet E 0 clusterName name else xe_schemaLister E 0 clusterName name)"

definition is_current :: "exports_env \<Rightarrow> string \<Rightarrow> negotiated \<Rightarrow> string \<Rightarrow> bool" where
  "is_current E clusterName r name \<longleftrightarrow>
     (\<exists>x :: api_schema. found_schema E clusterName name = Inr x \<and> sch_Spec x = sch_Spec (toAPIResourceSchema r []))"

lemma get_schema [simp]:
  "snd (getAPIResourceSchema E 0 c name) = Inr (found_schema E c name)"
  "sends P (getAPIResourceSchema E n c name) \<longleftrightarrow> (xe_schemaLister E n c name = Inl NotFound \<longrightarrow> P (SchemaGet c name))"
  by (simp_all add: getAPIResourceSchema_def found_schema_def snd_andThen sends_def fst_andThen)

lemma spec_any_name: "sch_Spec (toAPIResourceSchema r name) = sch_Spec (toAPIResourceSchema r name')"
  by (simp add: toAPIResourceSchema_def Let_def)

definition scan_inv :: "exports_env \<Rightarrow> string \<Rightarrow> (group_resource \<times> negotiated) list \<Rightarrow> string list \<Rightarrow> export_scan \<Rightarrow> bool" where
  "scan_inv E c byGroup names s \<longleftrightarrow>
     distinct (xs_expected s) \<and> distinct (map fst (xs_names s))
     \<and> set (xs_expected s) = xe_grString E ` {gr. \<exists>n \<in> set names. ParseAPIResourceSchemaName n = Some gr}
     \<and> set (xs_upToDate s) = xe_grString E ` {gr. \<exists>n \<in> set names. ParseAPIResourceSchemaName n = Some gr
          \<and> (\<exists>r. map_of byGroup gr = Some r \<and> is_current E c r n)}
     \<and> (\<forall>gr. map_of (xs_names s) gr = find (\<lambda>n. ParseAPIResourceSchemaName n = Some gr) (rev names))"

lemma scan_step:
  assumes "scan_inv E c byGroup names s" "snd (scan_name E c byGroup s name) = Inr s'"
  shows "scan_inv E c byGroup (names @ [name]) s'"
proof (cases "ParseAPIResourceSchemaName name")
  case None
  with assms show ?thesis by (auto simp: scan_inv_def scan_name_def)
next
  case (Some gr)
  define s1 where "s1 = s\<lparr>xs_expected := set_insert (xe_grString E gr) (xs_expected s), xs_names := AList.update gr name (xs_names s)\<rparr>"
  have s1: "xs_expected s1 = set_insert (xe_grString E gr) (xs_expected s)" "xs_upToDate s1 = xs_upToDate s"
    "xs_names s1 = AList.update gr name (xs_names s)"
    by (simp_all add: s1_def)
  have new: "{g. \<exists>n \<in> set (names @ [name]). ParseAPIResourceSchemaName n = Some g \<and> Q g n} =
      (if Q gr name then insert gr else id) {g. \<exists>n \<in> set names. ParseAPIResourceSchemaName n = Some g \<and> Q g n}" for Q
    using Some by auto
  have run: "snd ((case found_schema E c name of Inl NotFound \<Rightarrow> okay s1 | Inl e \<Rightarrow> fail e | Inr x \<Rightarrow> okay (mark_current E byGroup gr x s1)) :: (export_call, export_scan) calls) = Inr s'"
    using assms(2) by (simp add: scan_name_def Some Let_def snd_andThen flip: s1_def)
  have "found_schema E c name = Inl NotFound \<and> s' = s1
      \<or> (\<exists>x :: api_schema. found_schema E c name = Inr x \<and> s' = mark_current E byGroup gr x s1)"
  proof (cases "found_schema E c name")
    case (Inl e)
    with run show ?thesis by (cases e) simp_all
  next
    case (Inr x)
    with run show ?thesis by simp
  qed
  then have s': "s' = s1 \<and> \<not> (\<exists>r. map_of byGroup gr = Some r \<and> is_current E c r name)
      \<or> s' = s1\<lparr>xs_upToDate := set_insert (xe_grString E gr) (xs_upToDate s1)\<rparr> \<and> (\<exists>r. map_of byGroup gr = Some r \<and> is_current E c r name)"
  proof
    assume "found_schema E c name = Inl NotFound \<and> s' = s1"
    then show ?thesis by (simp add: is_current_def)
  next
    assume "\<exists>x :: api_schema. found_schema E c name = Inr x \<and> s' = mark_current E byGroup gr x s1"
    then obtain x :: api_schema where "found_schema E c name = Inr x" "s' = mark_current E byGroup gr x s1" by blast
    then show ?thesis by (cases "map_of byGroup gr") (simp_all add: mark_current_def is_current_def)
  qed
  note E = new [of "\<lambda>_ _. True"]
  note C = new [of "\<lambda>g n. \<exists>r. map_of byGroup g = Some r \<and> is_current E c r n"]
  have inv1: "distinct (xs_expected s1) \<and> distinct (map fst (xs_names s1))
      \<and> set (xs_expected s1) = xe_grString E ` {g. \<exists>n \<in> set (names @ [name]). ParseAPIResourceSchemaName n = Some g}
      \<and> (\<forall>g. map_of (xs_names s1) g = find (\<lambda>n. ParseAPIResourceSchemaName n = Some g) (rev (names @ [name])))"
    using assms(1) E by (simp add: s1 scan_inv_def Some update_conv' distinct_update)
  from s' show ?thesis
  proof
    assume "s' = s1 \<and> \<not> (\<exists>r. map_of byGroup gr = Some r \<and> is_current E c r name)"
    with inv1 C assms(1) show ?thesis by (simp add: s1 scan_inv_def)
  next
    assume "s' = s1\<lparr>xs_upToDate := set_insert (xe_grString E gr) (xs_upToDate s1)\<rparr> \<and> (\<exists>r. map_of byGroup gr = Some r \<and> is_current E c r name)"
    with inv1 C assms(1) show ?thesis by (simp add: s1 scan_inv_def)
  qed
qed

lemma scan_all:
  assumes "scan_inv E c byGroup names s" "snd (fold_calls (scan_name E c byGroup) s rest) = Inr s'"
  shows "scan_inv E c byGroup (names @ rest) s'"
  using assms
proof (induction rest arbitrary: names s)
  case (Cons name rest)
  then obtain t where t: "snd (scan_name E c byGroup s name) = Inr t" "snd (fold_calls (scan_name E c byGroup) t rest) = Inr s'"
    by (auto simp: ok_andThen)
  from Cons.IH [OF scan_step [OF Cons.prems(1) t(1)] t(2)] show ?case by simp
qed simp

definition is_get :: "export_call \<Rightarrow> bool" where
  "is_get c \<longleftrightarrow> (\<exists>cl n. c = SchemaGet cl n)"

lemma scan_sends: "sends is_get (fold_calls (scan_name E c byGroup) s names)"
  by (intro sends_fold_calls)
    (auto simp: scan_name_def Let_def is_get_def intro!: sends_andThen split: option.split sum.split go_error.split)

lemma scanned:
  "snd (fold_calls (scan_name E c byGroup) \<lparr>xs_expected = [], xs_upToDate = [], xs_names = []\<rparr> names) = Inr s
     \<Longrightarrow> scan_inv E c byGroup names s"
  using scan_all [of E c byGroup "[]" "\<lparr>xs_expected = [], xs_upToDate = [], xs_names = []\<rparr>" names s] by (simp add: scan_inv_def)

end
