(* ===== verification/Exported_Schemas.thy ===== *)
theory Exported_Schemas
  imports API_Exports
begin

text \<open>
  What a run of the export controller leaves behind: the calls of the run are applied to the schemas of the workspace and to the
  list of the export. The scan and the creations are characterised first, then the whole run for one group resource.
\<close>

section \<open>Creating the missing schemas\<close>

lemma fold_calls_state: "snd m = Inr s \<Longrightarrow> snd (andThen m f) = snd (f s) \<and> fst (andThen m f) = fst m @ fst (f s)"
  by (simp add: snd_andThen fst_andThen)

text \<open>A run in which the server accepts every call.\<close>

definition accepting :: "exports_env \<Rightarrow> bool" where
  "accepting E \<longleftrightarrow> (\<forall>c. xe_answer E c = None) \<and> (\<forall>s :: api_schema. Name (xe_created E s) = Name s)"

lemma create_accepted:
  "accepting E \<Longrightarrow> create_schema E c s = ([SchemaCreate c s], Inr (xe_created E s))"
  by (simp add: create_schema_def accepting_def attempt_def andThen_def okay_def)

lemma new_schema_name [simp]: "Name (new_schema E export r) = revision_name r"
  by (simp add: new_schema_def toAPIResourceSchema_def Let_def)

definition replaced :: "exports_env \<Rightarrow> (group_resource \<times> negotiated) list \<Rightarrow> string list \<Rightarrow> group_resource \<Rightarrow> negotiated option" where
  "replaced E byGroup gs gr = (if gr \<in> xe_ParseGroupResource E ` set gs then map_of byGroup gr else None)"

definition created_for :: "exports_env \<Rightarrow> (group_resource \<times> negotiated) list \<Rightarrow> string list \<Rightarrow> negotiated list" where
  "created_for E byGroup gs = List.map_filter (\<lambda>g. map_of byGroup (xe_ParseGroupResource E g)) gs"

lemma set_created_for: "r \<in> set (created_for E byGroup gs) \<longleftrightarrow> (\<exists>gr. replaced E byGroup gs gr = Some r)"
  by (force simp: created_for_def replaced_def List.map_filter_def)

definition plan_after :: "exports_env \<Rightarrow> (group_resource \<times> negotiated) list \<Rightarrow> string list \<Rightarrow> export_plan \<Rightarrow> export_plan \<Rightarrow> bool" where
  "plan_after E byGroup gs plan plan' \<longleftrightarrow>
     distinct (map fst (fst plan'))
     \<and> (\<forall>gr. map_of (fst plan') gr = (case replaced E byGroup gs gr of Some r \<Rightarrow> Some (revision_name r) | None \<Rightarrow> map_of (fst plan) gr))
     \<and> set (snd plan') = set (snd plan) \<union> {old. \<exists>gr r. replaced E byGroup gs gr = Some r \<and> map_of (fst plan) gr = Some old}"

lemma replace_one:
  assumes "accepting E"
  shows "replace_schema E export byGroup plan g =
     (case map_of byGroup (xe_ParseGroupResource E g) of
        None \<Rightarrow> okay plan
      | Some r \<Rightarrow> ([SchemaCreate (Cluster export) (new_schema E export r)],
          Inr (AList.update (xe_ParseGroupResource E g) (revision_name r) (fst plan),
               case map_of (fst plan) (xe_ParseGroupResource E g) of None \<Rightarrow> snd plan | Some old \<Rightarrow> set_insert old (snd plan))))"
  using assms by (simp add: replace_schema_def Let_def create_accepted andThen_def okay_def accepting_def split: option.split)

lemma replace_all:
  assumes "accepting E" "distinct (map (xe_ParseGroupResource E) gs)" "distinct (map fst (fst plan))"
  shows "\<exists>plan'. fold_calls (replace_schema E export byGroup) plan gs
       = (map (\<lambda>r. SchemaCreate (Cluster export) (new_schema E export r)) (created_for E byGroup gs), Inr plan')
     \<and> plan_after E byGroup gs plan plan'"
  using assms(2,3)
proof (induction gs arbitrary: plan)
  case Nil
  then show ?case by (simp add: okay_def created_for_def List.map_filter_def plan_after_def replaced_def)
next
  case (Cons g gs)
  let ?gr = "xe_ParseGroupResource E g"
  from Cons.prems have new: "?gr \<notin> xe_ParseGroupResource E ` set gs" "distinct (map (xe_ParseGroupResource E) gs)" by auto
  show ?case
  proof (cases "map_of byGroup ?gr")
    case None
    from Cons.IH [OF new(2) Cons.prems(2)] obtain plan' where
      "fold_calls (replace_schema E export byGroup) plan gs
         = (map (\<lambda>r. SchemaCreate (Cluster export) (new_schema E export r)) (created_for E byGroup gs), Inr plan')"
      "plan_after E byGroup gs plan plan'" by blast
    moreover from None have "replaced E byGroup (g # gs) = replaced E byGroup gs"
      by (auto simp: replaced_def fun_eq_iff)
    moreover from None have "created_for E byGroup (g # gs) = created_for E byGroup gs"
      by (simp add: created_for_def List.map_filter_def)
    ultimately show ?thesis using None replace_one [OF assms(1), of export byGroup plan g]
      by (simp add: plan_after_def)
  next
    case (Some r)
    let ?plan1 = "(AList.update ?gr (revision_name r) (fst plan), case map_of (fst plan) ?gr of None \<Rightarrow> snd plan | Some old \<Rightarrow> set_insert old (snd plan))"
    have "distinct (map fst (fst ?plan1))" using Cons.prems(2) by (simp add: distinct_update)
    from Cons.IH [OF new(2) this] obtain plan' where p:
      "fold_calls (replace_schema E export byGroup) ?plan1 gs
         = (map (\<lambda>r. SchemaCreate (Cluster export) (new_schema E export r)) (created_for E byGroup gs), Inr plan')"
      "plan_after E byGroup gs ?plan1 plan'" by blast
    have r: "replaced E byGroup (g # gs) gr = (if gr = ?gr then Some r else replaced E byGroup gs gr)" for gr
      using Some by (auto simp: replaced_def)
    have n: "replaced E byGroup gs ?gr = None" using new(1) by (simp add: replaced_def)
    have c: "created_for E byGroup (g # gs) = r # created_for E byGroup gs"
      using Some by (simp add: created_for_def List.map_filter_def)
    have "plan_after E byGroup (g # gs) plan plan'"
      using p(2) n unfolding plan_after_def
      by (auto simp: r update_conv' split: option.splits if_splits)
    with p(1) Some c replace_one [OF assms(1), of export byGroup plan g] show ?thesis
      by (simp add: andThen_def)
  qed
qed

section \<open>What the run leaves behind\<close>

fun schema_effect :: "export_call \<Rightarrow> (string \<Rightarrow> api_schema option) \<Rightarrow> string \<Rightarrow> api_schema option" where
  "schema_effect (SchemaCreate c s) st = st(Name s := Some s)"
| "schema_effect (SchemaDelete c n) st = st(n := None)"
| "schema_effect _ st = st"

definition schemas_after :: "export_call list \<Rightarrow> (string \<Rightarrow> api_schema option) \<Rightarrow> string \<Rightarrow> api_schema option" where
  "schemas_after cs st = fold schema_effect cs st"

definition listed_after :: "export_call list \<Rightarrow> string list \<Rightarrow> string list" where
  "listed_after cs names = fold (\<lambda>c l. case c of ExportUpdate _ e \<Rightarrow> LatestResourceSchemas e | _ \<Rightarrow> l) cs names"

lemma after_append:
  "schemas_after (a @ b) st = schemas_after b (schemas_after a st)" "listed_after (a @ b) l = listed_after b (listed_after a l)"
  by (simp_all add: schemas_after_def listed_after_def)

lemma after_gets: "\<forall>c \<in> set cs. is_get c \<Longrightarrow> schemas_after cs st = st \<and> listed_after cs l = l"
  by (induction cs arbitrary: st l) (auto simp: schemas_after_def listed_after_def is_get_def)

lemma after_creates:
  assumes "inj_on revision_name (set rs)"
  shows "schemas_after (map (\<lambda>r. SchemaCreate c (new_schema E export r)) rs) st n =
      (case find (\<lambda>r. revision_name r = n) rs of Some r \<Rightarrow> Some (new_schema E export r) | None \<Rightarrow> st n)"
  using assms
proof (induction rs arbitrary: st)
  case (Cons r rs)
  have "find (\<lambda>r'. revision_name r' = n) rs = Some q \<Longrightarrow> revision_name r = n \<Longrightarrow> q = r" for q
    using Cons.prems find_SomeD [of _ rs q] by (fastforce simp: inj_on_def)
  then show ?case using Cons by (auto simp: schemas_after_def inj_on_def split: option.splits)
qed (simp add: schemas_after_def)

lemma listed_after_creates: "listed_after (map (\<lambda>r. SchemaCreate c (f r)) rs) l = l"
  by (induction rs) (simp_all add: listed_after_def)

lemma after_deletes:
  "schemas_after (map (SchemaDelete c) ns) st n = (if n \<in> set ns then None else st n)"
  "listed_after (map (SchemaDelete c) ns) l = l"
  by (induction ns arbitrary: st) (auto simp: schemas_after_def listed_after_def)

lemma deletes_accepted: "accepting E \<Longrightarrow> for_each (delete_schema E c) ns = (map (SchemaDelete c) ns, Inr ())"
  by (induction ns) (simp_all add: okay_def delete_schema_def accepting_def attempt_def andThen_def)

lemma finish_accepted:
  assumes "accepting E"
  shows "snd (finish_export E export plan) = Inr ExportContinue"
    "listed_after (fst (finish_export E export plan)) (LatestResourceSchemas export) = map snd (xe_map_order E (fst plan))"
    "schemas_after (fst (finish_export E export plan)) st n = (if n \<in> set (xe_set_order E (snd plan)) then None else st n)"
  using assms after_deletes [of "Cluster export" "xe_set_order E (snd plan)"]
  by (auto simp: finish_export_def update_names_def Let_def deletes_accepted andThen_def send_call_def okay_def accepting_def
      schemas_after_def listed_after_def)

section \<open>The run as a whole\<close>

text \<open>
  A run in a settled environment: the server accepts the calls, the reads agree with the schemas \<open>st\<close> of the workspace, no
  resource or version of a negotiated resource has a dot, and the two iteration orders visit every entry.
\<close>

definition settled_run :: "exports_env \<Rightarrow> api_export \<Rightarrow> (string \<Rightarrow> api_schema option) \<Rightarrow> negotiated list \<Rightarrow> bool" where
  "settled_run E export st resources \<longleftrightarrow>
     gr_laws E \<and> accepting E \<and> Name export = ImportedAPISExportName
     \<and> xe_listNegotiated E (Cluster export) = Inr resources \<and> (\<forall>r \<in> set resources. dotless r)
     \<and> (\<forall>n. found_schema E (Cluster export) n = (case st n of None \<Rightarrow> Inl NotFound | Some x \<Rightarrow> Inr x))
     \<and> (\<forall>m. set (xe_map_order E m) = set m) \<and> (\<forall>l. set (xe_set_order E l) = set l)"

definition export_groups :: "exports_env \<Rightarrow> api_export \<Rightarrow> (group_resource \<times> negotiated) list" where
  "export_groups E export = (case xe_listNegotiated E (Cluster export) of Inl _ \<Rightarrow> [] | Inr rs \<Rightarrow> resourcesByResourceGroup rs)"

lemma scan_succeeds:
  assumes "\<forall>n. found_schema E c n = (case st n of None \<Rightarrow> Inl NotFound | Some x \<Rightarrow> Inr x)"
  shows "\<exists>s'. snd (fold_calls (scan_name E c byGroup) s names) = Inr s'"
proof (induction names arbitrary: s)
  case (Cons name names)
  have "\<exists>t. snd (scan_name E c byGroup s name) = Inr t"
    using assms by (cases "st name") (auto simp: scan_name_def Let_def snd_andThen split: option.split)
  then obtain t where "snd (scan_name E c byGroup s name) = Inr t" ..
  with Cons.IH show ?case by (simp add: snd_andThen)
qed (simp add: okay_def)

text \<open>The groups that are replaced: listed, negotiated, and not up to date under any listed name.\<close>

definition needs_schema :: "exports_env \<Rightarrow> api_export \<Rightarrow> group_resource \<Rightarrow> negotiated \<Rightarrow> bool" where
  "needs_schema E export gr r \<longleftrightarrow> map_of (export_groups E export) gr = Some r
     \<and> (\<exists>n \<in> set (LatestResourceSchemas export). ParseAPIResourceSchemaName n = Some gr)
     \<and> (\<forall>n \<in> set (LatestResourceSchemas export). ParseAPIResourceSchemaName n = Some gr \<longrightarrow> \<not> is_current E (Cluster export) r n)"

lemma decode_diff:
  assumes "\<And>g. g \<in> A \<Longrightarrow> p (f g) = g" "B \<subseteq> A"
  shows "inj_on p (f ` A - f ` B)" "p ` (f ` A - f ` B) = A - B"
proof -
  have inj: "inj_on f A" using assms(1) by (rule inj_on_inverseI)
  then have D: "f ` A - f ` B = f ` (A - B)" using assms(2) by (simp add: inj_on_image_set_diff)
  show "inj_on p (f ` A - f ` B)" unfolding D using assms(1) by (auto simp: inj_on_def)
  show "p ` (f ` A - f ` B) = A - B" unfolding D image_image using assms(1) by force
qed

definition listed_groups :: "string list \<Rightarrow> group_resource set" where
  "listed_groups names = {g. \<exists>n \<in> set names. ParseAPIResourceSchemaName n = Some g}"

definition current_groups :: "exports_env \<Rightarrow> string \<Rightarrow> (group_resource \<times> negotiated) list \<Rightarrow> string list \<Rightarrow> group_resource set" where
  "current_groups E c byGroup names =
     {g. \<exists>n \<in> set names. ParseAPIResourceSchemaName n = Some g \<and> (\<exists>r. map_of byGroup g = Some r \<and> is_current E c r n)}"

lemma outdated_groups:
  assumes "gr_laws E" "scan_inv E c byGroup names s"
  shows "distinct (map (xe_ParseGroupResource E) (outdatedOrMissing s))"
    and "xe_ParseGroupResource E ` set (outdatedOrMissing s) = listed_groups names - current_groups E c byGroup names"
proof -
  have law: "g \<in> listed_groups names \<Longrightarrow> xe_ParseGroupResource E (xe_grString E g) = g" for g
    using assms(1) parsed_resource_no_dot by (auto simp: gr_laws_def listed_groups_def)
  have sub: "current_groups E c byGroup names \<subseteq> listed_groups names" by (auto simp: listed_groups_def current_groups_def)
  have S: "set (outdatedOrMissing s) = xe_grString E ` listed_groups names - xe_grString E ` current_groups E c byGroup names"
    using assms(2) by (auto simp: outdatedOrMissing_def scan_inv_def listed_groups_def current_groups_def)
  note D = decode_diff [of "listed_groups names" "xe_ParseGroupResource E" "xe_grString E" "current_groups E c byGroup names", OF law sub]
  have "distinct (outdatedOrMissing s)" using assms(2) by (simp add: outdatedOrMissing_def scan_inv_def)
  with D(1) S show "distinct (map (xe_ParseGroupResource E) (outdatedOrMissing s))" by (simp add: distinct_map)
  show "xe_ParseGroupResource E ` set (outdatedOrMissing s) = listed_groups names - current_groups E c byGroup names"
    unfolding S by (rule D(2))
qed

text \<open>The one name of a group.\<close>

definition only_name :: "string list \<Rightarrow> group_resource \<Rightarrow> string \<Rightarrow> bool" where
  "only_name names gr name \<longleftrightarrow> name \<in> set names \<and> ParseAPIResourceSchemaName name = Some gr
     \<and> (\<forall>n \<in> set names. ParseAPIResourceSchemaName n = Some gr \<longrightarrow> n = name)"

lemma find_only:
  assumes "only_name names gr name"
  shows "find (\<lambda>n. ParseAPIResourceSchemaName n = Some gr) (rev names) = Some name"
proof (cases "find (\<lambda>n. ParseAPIResourceSchemaName n = Some gr) (rev names)")
  case None
  with assms show ?thesis by (auto simp: only_name_def find_None_iff)
next
  case (Some n)
  from find_SomeD [OF Some] assms have "n = name" by (simp add: only_name_def)
  with Some show ?thesis by simp
qed

text \<open>The calls of the run: reads, one creation per replaced group, then the end of the run.\<close>

definition outdated_group :: "exports_env \<Rightarrow> api_export \<Rightarrow> group_resource \<Rightarrow> negotiated option" where
  "outdated_group E export gr =
     (if gr \<in> listed_groups (LatestResourceSchemas export) - current_groups E (Cluster export) (export_groups E export) (LatestResourceSchemas export)
      then map_of (export_groups E export) gr else None)"

lemma run_shape:
  assumes settled: "settled_run E export st resources" and some: "export_groups E export \<noteq> []"
  obtains gets rs plan where
    "schemaReconciler_reconcile E export
       = (gets @ map (\<lambda>r. SchemaCreate (Cluster export) (new_schema E export r)) rs @ fst (finish_export E export plan), Inr ExportContinue)"
    "\<forall>c \<in> set gets. is_get c"
    "set rs = {r. \<exists>gr. outdated_group E export gr = Some r}"
    "distinct (map fst (fst plan))"
    "\<And>gr. map_of (fst plan) gr = (case outdated_group E export gr of Some r \<Rightarrow> Some (revision_name r)
        | None \<Rightarrow> find (\<lambda>n. ParseAPIResourceSchemaName n = Some gr) (rev (LatestResourceSchemas export)))"
    "set (snd plan) = {old. \<exists>gr r. outdated_group E export gr = Some r
        \<and> find (\<lambda>n. ParseAPIResourceSchemaName n = Some gr) (rev (LatestResourceSchemas export)) = Some old}"
proof -
  let ?names = "LatestResourceSchemas export" and ?c = "Cluster export" and ?byGroup = "export_groups E export"
  let ?scan = "fold_calls (scan_name E ?c ?byGroup) \<lparr>xs_expected = [], xs_upToDate = [], xs_names = []\<rparr> ?names"
  from settled have acc: "accepting E" and law: "gr_laws E" and list: "xe_listNegotiated E ?c = Inr resources"
    and byGroup: "?byGroup = resourcesByResourceGroup resources"
    by (simp_all add: settled_run_def export_groups_def)
  from some byGroup have "resources \<noteq> []" by (auto simp: resourcesByResourceGroup_def)
  have F: "\<forall>n. found_schema E ?c n = (case st n of None \<Rightarrow> Inl NotFound | Some x \<Rightarrow> Inr x)"
    using settled unfolding settled_run_def by blast
  from scan_succeeds [OF F] obtain s where s: "snd ?scan = Inr s" by blast
  note inv = scanned [OF s]
  note G = outdated_groups [OF law inv]
  let ?gs = "outdatedOrMissing s"
  from inv have "distinct (map fst (xs_names s))" by (simp add: scan_inv_def)
  from replace_all [OF acc G(1), of "(xs_names s, [])" export ?byGroup] this obtain plan where
    plan: "fold_calls (replace_schema E export ?byGroup) (xs_names s, []) ?gs
       = (map (\<lambda>r. SchemaCreate ?c (new_schema E export r)) (created_for E ?byGroup ?gs), Inr plan)"
    "plan_after E ?byGroup ?gs (xs_names s, []) plan" by auto
  have repl: "replaced E ?byGroup ?gs = outdated_group E export"
    by (simp add: fun_eq_iff replaced_def outdated_group_def G(2))
  show thesis
  proof (rule that)
    show "schemaReconciler_reconcile E export = (fst ?scan @ map (\<lambda>r. SchemaCreate ?c (new_schema E export r)) (created_for E ?byGroup ?gs)
        @ fst (finish_export E export plan), Inr ExportContinue)"
      using settled \<open>resources \<noteq> []\<close> s plan(1) byGroup finish_accepted(1) [OF acc, of export plan]
      by (simp add: prod_eq_iff schemaReconciler_reconcile_def settled_run_def list fst_andThen snd_andThen Let_def)
    show "\<forall>c \<in> set (fst ?scan). is_get c" using scan_sends by (simp add: sends_def)
    show "set (created_for E ?byGroup ?gs) = {r. \<exists>gr. outdated_group E export gr = Some r}"
      by (auto simp: set_created_for repl)
  qed (use plan(2) inv in \<open>simp_all add: plan_after_def repl scan_inv_def split: option.split\<close>)
qed

lemma outdated_key: 
  assumes "settled_run E export st resources" "outdated_group E export gr = Some r"
  shows "ParseAPIResourceSchemaName (revision_name r) = Some gr"
proof -
  from assms have "map_of (resourcesByResourceGroup resources) gr = Some r"
    by (auto simp: outdated_group_def settled_run_def export_groups_def split: if_splits)
  from byGroup_key [OF this] assms(1) parse_revision_name [of r] show ?thesis by (auto simp: settled_run_def)
qed

lemma distinct_map_set: "distinct (map fst m) \<Longrightarrow> map_of m k = Some v \<Longrightarrow> set m' = set m \<Longrightarrow> v \<in> set (map snd m')"
  by (force dest: map_of_SomeD)

text \<open>
  The result for a group with one listed name. An up-to-date schema is left alone; otherwise the export lists the new name,
  and the new schema exists unless its name is the old one.
\<close>

lemma run_outcome:
  assumes settled: "settled_run E export st resources" and r: "map_of (export_groups E export) gr = Some r"
    and name: "only_name (LatestResourceSchemas export) gr name"
  shows "snd (schemaReconciler_reconcile E export) = Inr ExportContinue"
    and "is_current E (Cluster export) r name \<Longrightarrow>
      name \<in> set (listed_after (fst (schemaReconciler_reconcile E export)) (LatestResourceSchemas export))
      \<and> schemas_after (fst (schemaReconciler_reconcile E export)) st name = st name"
    and "\<not> is_current E (Cluster export) r name \<Longrightarrow>
      revision_name r \<in> set (listed_after (fst (schemaReconciler_reconcile E export)) (LatestResourceSchemas export))
      \<and> schemas_after (fst (schemaReconciler_reconcile E export)) st (revision_name r)
          = (if name = revision_name r then None else Some (new_schema E export r))
      \<and> schemas_after (fst (schemaReconciler_reconcile E export)) st name = None"
proof -
  from r have some: "export_groups E export \<noteq> []" by auto
  obtain gets rs plan where
    run: "schemaReconciler_reconcile E export
       = (gets @ map (\<lambda>r. SchemaCreate (Cluster export) (new_schema E export r)) rs @ fst (finish_export E export plan), Inr ExportContinue)"
    and gets: "\<forall>c \<in> set gets. is_get c" and rs: "set rs = {r. \<exists>gr. outdated_group E export gr = Some r}"
    and dist: "distinct (map fst (fst plan))"
    and names: "\<And>gr. map_of (fst plan) gr = (case outdated_group E export gr of Some r \<Rightarrow> Some (revision_name r)
        | None \<Rightarrow> find (\<lambda>n. ParseAPIResourceSchemaName n = Some gr) (rev (LatestResourceSchemas export)))"
    and dels: "set (snd plan) = {old. \<exists>gr r. outdated_group E export gr = Some r
        \<and> find (\<lambda>n. ParseAPIResourceSchemaName n = Some gr) (rev (LatestResourceSchemas export)) = Some old}"
    by (rule run_shape [OF settled some]) blast
  show "snd (schemaReconciler_reconcile E export) = Inr ExportContinue" by (simp add: run)
  from settled have acc: "accepting E" by (simp add: settled_run_def)
  have inj: "inj_on revision_name (set rs)"
    unfolding rs using outdated_key [OF settled] by (auto simp: inj_on_def) (metis option.inject)
  have listed: "listed_after (fst (schemaReconciler_reconcile E export)) (LatestResourceSchemas export) = map snd (xe_map_order E (fst plan))"
    using after_gets [OF gets] by (simp add: run after_append listed_after_creates finish_accepted(2) [OF acc])
  have after: "schemas_after (fst (schemaReconciler_reconcile E export)) st n =
      (if n \<in> set (snd plan) then None else case find (\<lambda>r. revision_name r = n) rs of Some r \<Rightarrow> Some (new_schema E export r) | None \<Rightarrow> st n)" for n
    using after_gets [OF gets] settled
    by (simp add: run after_append after_creates [OF inj] finish_accepted(3) [OF acc] settled_run_def)
  have in_names: "v \<in> set (map snd (xe_map_order E (fst plan)))" if "map_of (fst plan) gr = Some v" for v
    using distinct_map_set [OF dist that] settled by (simp add: settled_run_def)
  note f = find_only [OF name]
  show "name \<in> set (listed_after (fst (schemaReconciler_reconcile E export)) (LatestResourceSchemas export))
      \<and> schemas_after (fst (schemaReconciler_reconcile E export)) st name = st name" if cur: "is_current E (Cluster export) r name"
  proof -
    have kept: "outdated_group E export gr = None"
      using cur r name by (auto simp: outdated_group_def current_groups_def only_name_def)
    have "name \<notin> set (snd plan)"
    proof
      assume "name \<in> set (snd plan)"
      then obtain g q where g: "outdated_group E export g = Some q" "find (\<lambda>n. ParseAPIResourceSchemaName n = Some g) (rev (LatestResourceSchemas export)) = Some name"
        unfolding dels by blast
      from find_SomeD [OF g(2)] name have "g = gr" by (simp add: only_name_def)
      with g(1) kept show False by simp
    qed
    moreover have "find (\<lambda>q. revision_name q = name) rs = None"
    proof (rule ccontr)
      assume "find (\<lambda>q. revision_name q = name) rs \<noteq> None"
      then obtain q where "find (\<lambda>q. revision_name q = name) rs = Some q" by blast
      from find_SomeD [OF this] obtain g where g: "outdated_group E export g = Some q" "revision_name q = name" unfolding rs by blast
      from outdated_key [OF settled g(1)] g(2) name have "g = gr" by (simp add: only_name_def)
      with g(1) kept show False by simp
    qed
    moreover have "map_of (fst plan) gr = Some name" by (simp add: names kept f)
    ultimately show ?thesis using in_names by (simp add: after listed)
  qed
  show "revision_name r \<in> set (listed_after (fst (schemaReconciler_reconcile E export)) (LatestResourceSchemas export))
      \<and> schemas_after (fst (schemaReconciler_reconcile E export)) st (revision_name r)
          = (if name = revision_name r then None else Some (new_schema E export r))
      \<and> schemas_after (fst (schemaReconciler_reconcile E export)) st name = None" if cur: "\<not> is_current E (Cluster export) r name"
  proof -
    have outdated: "outdated_group E export gr = Some r"
    proof -
      have "gr \<in> listed_groups (LatestResourceSchemas export)" using name by (auto simp: listed_groups_def only_name_def)
      moreover have "gr \<notin> current_groups E (Cluster export) (export_groups E export) (LatestResourceSchemas export)"
proof
        assume "gr \<in> current_groups E (Cluster export) (export_groups E export) (LatestResourceSchemas export)"
        then obtain n q where n: "n \<in> set (LatestResourceSchemas export)" "ParseAPIResourceSchemaName n = Some gr"
            "map_of (export_groups E export) gr = Some q" "is_current E (Cluster export) q n"
          unfolding current_groups_def by blast
        from n(1,2) name have "n = name" by (simp add: only_name_def)
        with n(3,4) r cur show False by simp
      qed
      ultimately show ?thesis using r by (simp add: outdated_group_def)
    qed
    have deleted: "revision_name r \<in> set (snd plan) \<longleftrightarrow> name = revision_name r"
    proof
      assume "revision_name r \<in> set (snd plan)"
      then obtain g q where g: "outdated_group E export g = Some q"
        "find (\<lambda>n. ParseAPIResourceSchemaName n = Some g) (rev (LatestResourceSchemas export)) = Some (revision_name r)"
        unfolding dels by blast
      from find_SomeD [OF g(2)] outdated_key [OF settled outdated] have "g = gr" by simp
      with g(2) f show "name = revision_name r" by simp
    next
      assume "name = revision_name r"
      with outdated f show "revision_name r \<in> set (snd plan)" unfolding dels by blast
    qed
    have "find (\<lambda>q. revision_name q = revision_name r) rs = Some r"
    proof (cases "find (\<lambda>q. revision_name q = revision_name r) rs")
      case None
      with outdated show ?thesis by (auto simp: find_None_iff rs)
    next
      case (Some q)
      from find_SomeD [OF Some] inj outdated rs show ?thesis by (metis (mono_tags, lifting) Some inj_onD mem_Collect_eq)
    qed
    moreover have "map_of (fst plan) gr = Some (revision_name r)" by (simp add: names outdated)
    moreover have "name \<in> set (snd plan)" using outdated f unfolding dels by blast
    ultimately show ?thesis using in_names deleted by (simp add: after listed)
  qed
qed

section \<open>Properties\<close>

lemma current_stored:
  assumes "settled_run E export st resources"
  shows "is_current E (Cluster export) r name \<longleftrightarrow> map_option sch_Spec (st name) = Some (sch_Spec (toAPIResourceSchema r name))"
proof -
  have "found_schema E (Cluster export) name = (case st name of None \<Rightarrow> Inl NotFound | Some x \<Rightarrow> Inr x)"
    using assms by (simp add: settled_run_def)
  then show ?thesis unfolding spec_any_name [of r name "[]"] by (simp add: is_current_def split: option.split)
qed

text \<open>
  C23: The schemas of the export follow the negotiation. In a run that the server accepts, for a group resource that the export
  lists under one name and that has a negotiated resource: if the schema stored under that name has the negotiated content, the
  name stays listed and the schema is untouched; if it is missing or outdated, and the name is not yet that of the present
  revision, the name of the present revision is listed, its schema is there with the negotiated content, and the old one is gone.
\<close>

theorem imported_export_converges:
  assumes "settled_run E export st resources" "map_of (export_groups E export) gr = Some r"
    "only_name (LatestResourceSchemas export) gr name"
    "map_option sch_Spec (st name) = Some (sch_Spec (toAPIResourceSchema r name)) \<or> name \<noteq> revision_name r"
  shows "snd (schemaReconciler_reconcile E export) = Inr ExportContinue
    \<and> (let listed = set (listed_after (fst (schemaReconciler_reconcile E export)) (LatestResourceSchemas export));
          stored = schemas_after (fst (schemaReconciler_reconcile E export)) st in
        if map_option sch_Spec (st name) = Some (sch_Spec (toAPIResourceSchema r name))
        then name \<in> listed \<and> stored name = st name
        else revision_name r \<in> listed \<and> ParseAPIResourceSchemaName (revision_name r) = Some gr
          \<and> map_option sch_Spec (stored (revision_name r)) = Some (sch_Spec (toAPIResourceSchema r (revision_name r)))
          \<and> stored name = None)"
proof -
  from assms(1,2) have "map_of (resourcesByResourceGroup resources) gr = Some r"
    by (simp add: settled_run_def export_groups_def)
  from byGroup_key [OF this] assms(1) parse_revision_name [of r]
  have "ParseAPIResourceSchemaName (revision_name r) = Some gr" by (auto simp: settled_run_def)
  moreover have "sch_Spec (new_schema E export r) = sch_Spec (toAPIResourceSchema r (revision_name r))" by (simp add: new_schema_def)
  ultimately show ?thesis using run_outcome [OF assms(1-3)] assms(4)
    unfolding current_stored [OF assms(1)] by (auto simp: Let_def)
qed

text \<open>
  C24: A schema that is missing while the export lists it under the name of the present revision is created and deleted again
  in the same run, because the old name it replaces is the new one. The export still lists it and the schema does not exist.
\<close>

theorem recreated_schema_deleted:
  assumes "settled_run E export st resources" "map_of (export_groups E export) gr = Some r"
    "only_name (LatestResourceSchemas export) gr (revision_name r)" "st (revision_name r) = None"
  shows "revision_name r \<in> set (listed_after (fst (schemaReconciler_reconcile E export)) (LatestResourceSchemas export))
    \<and> schemas_after (fst (schemaReconciler_reconcile E export)) st (revision_name r) = None"
proof -
  have "found_schema E (Cluster export) (revision_name r) = Inl NotFound"
    using assms(1,4) by (simp add: settled_run_def)
  then have "\<not> is_current E (Cluster export) r (revision_name r)" by (simp add: is_current_def)
  from run_outcome(3) [OF assms(1-3) this] show ?thesis by simp
qed

section \<open>Examples\<close>

definition ex_spec :: api_spec where
  "ex_spec = \<lparr>as_Group = ''apps'', as_Version = ''v1'', as_Scope = ''Namespaced'',
     as_Names = \<lparr>nm_Plural = ''deployments'', nm_Singular = [], nm_ShortNames = [], nm_Kind = ''Deployment'', nm_ListKind = [], nm_Categories = []\<rparr>,
     as_Schema = ''{}'', as_SubResources = [''status''], as_Columns = []\<rparr>"

definition ex_negotiated :: negotiated where
  "ex_negotiated = \<lparr>Name = ''deployments.v1.apps'', Namespace = [], Cluster = ''ws'', UID = [], ResourceVersion = ''7'', Labels = None,
     Annotations = None, Finalizers = [], OwnerReferences = [], DeletionTimestamp = None,
     na_Generation = 1, na_Spec = ex_spec, na_Publish = True, na_Conditions = []\<rparr>"

definition ex_export :: "string \<Rightarrow> api_export" where
  "ex_export name = \<lparr>Name = ''imported-apis'', Namespace = [], Cluster = ''ws'', UID = [], ResourceVersion = [], Labels = None,
     Annotations = None, Finalizers = [], OwnerReferences = [], DeletionTimestamp = None,
     LatestResourceSchemas = [name], ae_IdentityHash = []\<rparr>"

text \<open>A parser and a printer of group resources as the Kubernetes libraries document them: the first dot separates.\<close>

definition ex_parse :: "string \<Rightarrow> group_resource" where
  "ex_parse s = (if CHR ''.'' \<in> set s then \<lparr>gr_Group = tl (dropWhile (\<lambda>c. c \<noteq> CHR ''.'') s), gr_Resource = takeWhile (\<lambda>c. c \<noteq> CHR ''.'') s\<rparr>
     else \<lparr>gr_Group = [], gr_Resource = s\<rparr>)"

definition ex_string :: "group_resource \<Rightarrow> string" where
  "ex_string gr = (if gr_Group gr = [] then gr_Resource gr else gr_Resource gr @ ''.'' @ gr_Group gr)"

definition ex_exports_env :: "exports_env" where
  "ex_exports_env = \<lparr>xe_listNegotiated = (\<lambda>_. Inr [ex_negotiated]), xe_schemaLister = (\<lambda>_ _ _. Inl NotFound),
     xe_schemaGet = (\<lambda>_ _ _. Inl NotFound), xe_created = (\<lambda>s. s), xe_answer = (\<lambda>_. None), xe_grString = ex_string,
     xe_ParseGroupResource = ex_parse,
     xe_NewControllerRef = (\<lambda>e. \<lparr>or_APIVersion = ''apis.kcp.io/v1alpha1'', or_Kind = ''APIExport'', or_Name = Name e, or_UID = UID e\<rparr>),
     xe_map_order = rev, xe_set_order = (\<lambda>l. l)\<rparr>"

lemma cut_at: "c \<notin> set a \<Longrightarrow> dropWhile (\<lambda>x. x \<noteq> c) (a @ c # b) = c # b \<and> takeWhile (\<lambda>x. x \<noteq> c) (a @ c # b) = a"
  by (induction a) auto

lemma ex_parse_string: "CHR ''.'' \<notin> set (gr_Resource gr) \<Longrightarrow> ex_parse (ex_string gr) = gr"
  using cut_at [of "CHR ''.''" "gr_Resource gr" "gr_Group gr"] by (cases gr) (simp add: ex_parse_def ex_string_def)

lemma ex_settled: "settled_run ex_exports_env (ex_export name) (\<lambda>_. None) [ex_negotiated]"
  by (simp add: settled_run_def gr_laws_def accepting_def found_schema_def ex_exports_env_def ex_export_def ImportedAPISExportName_def
      ex_parse_string dotless_def ex_negotiated_def ex_spec_def)

lemma ex_group: "map_of (export_groups ex_exports_env (ex_export name)) \<lparr>gr_Group = ''apps'', gr_Resource = ''deployments''\<rparr> = Some ex_negotiated"
  by (simp add: export_groups_def ex_exports_env_def resourcesByResourceGroup_def resource_key_def ex_negotiated_def ex_spec_def core_group_def)

lemma ex_only: "only_name (LatestResourceSchemas (ex_export (''rev-'' @ [c] @ ''.deployments.apps''))) \<lparr>gr_Group = ''apps'', gr_Resource = ''deployments''\<rparr>
    (''rev-'' @ [c] @ ''.deployments.apps'')" if "c \<noteq> CHR ''.''"
  using parse_name_iff [of "''rev-'' @ [c]" "''deployments''" "''apps''"] that by (simp add: only_name_def ex_export_def)

lemma ex_revision: "revision_name ex_negotiated = ''rev-7.deployments.apps''"
  by (simp add: revision_name_def ex_negotiated_def ex_spec_def core_group_def)

theorem imported_export_converges_witness:
  "let calls = fst (schemaReconciler_reconcile ex_exports_env (ex_export ''rev-6.deployments.apps'')) in
    ''rev-7.deployments.apps'' \<in> set (listed_after calls [''rev-6.deployments.apps''])
    \<and> map_option sch_Spec (schemas_after calls (\<lambda>_. None) ''rev-7.deployments.apps'')
        = Some (sch_Spec (toAPIResourceSchema ex_negotiated ''rev-7.deployments.apps''))"
  using imported_export_converges [OF ex_settled ex_group, of "''rev-6.deployments.apps''" "''rev-6.deployments.apps''"]
    ex_only [of "CHR ''6''"] by (simp add: ex_revision Let_def) (simp add: ex_export_def)

theorem recreated_schema_deleted_witness:
  "''rev-7.deployments.apps'' \<in> set (listed_after (fst (schemaReconciler_reconcile ex_exports_env (ex_export ''rev-7.deployments.apps''))) [''rev-7.deployments.apps''])
    \<and> schemas_after (fst (schemaReconciler_reconcile ex_exports_env (ex_export ''rev-7.deployments.apps''))) (\<lambda>_. None) ''rev-7.deployments.apps'' = None"
  using recreated_schema_deleted [OF ex_settled ex_group, of "''rev-7.deployments.apps''"]
    ex_only [of "CHR ''7''"] by (simp add: ex_revision) (simp add: ex_export_def)

section \<open>The order of the names\<close>

definition name_entry :: "string \<Rightarrow> (group_resource \<times> string) list \<Rightarrow> (group_resource \<times> string) list" where
  "name_entry n m = (case ParseAPIResourceSchemaName n of None \<Rightarrow> m | Some gr \<Rightarrow> AList.update gr n m)"

lemma mark_names [simp]: "xs_names (mark_current E byGroup gr x s) = xs_names s"
  by (simp add: mark_current_def split: option.split)

lemma scan_names:
  assumes "\<forall>n. found_schema E c n = (case st n of None \<Rightarrow> Inl NotFound | Some x \<Rightarrow> Inr x)"
    "snd (fold_calls (scan_name E c byGroup) s names) = Inr s'"
  shows "xs_names s' = fold name_entry names (xs_names s)"
  using assms(2)
proof (induction names arbitrary: s)
  case (Cons n names)
  then obtain t where t: "snd (scan_name E c byGroup s n) = Inr t" "snd (fold_calls (scan_name E c byGroup) t names) = Inr s'"
    by (auto simp: ok_andThen)
  have "xs_names t = name_entry n (xs_names s)"
    using t(1) assms(1) by (cases "st n") (auto simp: scan_name_def name_entry_def Let_def snd_andThen split: option.splits)
  with Cons.IH [OF t(2)] show ?case by simp
qed (simp add: okay_def)

lemma update_append_new: "k \<notin> fst ` set m \<Longrightarrow> AList.update k v m = m @ [(k, v)]"
  by (induction m) auto

lemma name_entries:
  assumes "\<forall>n \<in> set names. ParseAPIResourceSchemaName n = Some (g n)" "distinct (map g names)" "fst ` set m \<inter> g ` set names = {}"
  shows "fold name_entry names m = m @ map (\<lambda>n. (g n, n)) names"
  using assms
proof (induction names arbitrary: m)
  case (Cons n names)
  then have "name_entry n m = m @ [(g n, n)]"
    using update_append_new [of "g n" m n] by (auto simp: name_entry_def)
  with Cons show ?case by auto
qed simp

text \<open>
  An export all of whose schemas are up to date causes no writes if and only if the iteration over the map of names happens to
  return the names in the order in which the export lists them. In every other order the export is updated, although nothing
  has changed, and the update queues it again.
\<close>

theorem unchanged_export_updated:
  assumes settled: "settled_run E export st resources" and listed: "LatestResourceSchemas export \<noteq> []"
    and current: "\<forall>n \<in> set (LatestResourceSchemas export). ParseAPIResourceSchemaName n = Some (g n)
      \<and> (\<exists>r. map_of (export_groups E export) (g n) = Some r \<and> is_current E (Cluster export) r n)"
    and dist: "distinct (map g (LatestResourceSchemas export))"
  shows "filter (\<lambda>c. \<not> is_get c) (fst (schemaReconciler_reconcile E export))
     = (let latest = map snd (xe_map_order E (map (\<lambda>n. (g n, n)) (LatestResourceSchemas export))) in
        if latest = LatestResourceSchemas export then [] else [ExportUpdate (Cluster export) (export\<lparr>LatestResourceSchemas := latest\<rparr>)])"
proof -
  let ?names = "LatestResourceSchemas export" and ?c = "Cluster export" and ?byGroup = "export_groups E export"
  let ?scan = "fold_calls (scan_name E ?c ?byGroup) \<lparr>xs_expected = [], xs_upToDate = [], xs_names = []\<rparr> ?names"
  from settled have acc: "accepting E" and list: "xe_listNegotiated E ?c = Inr resources" and set_order: "xe_set_order E [] = []"
    and byGroup: "?byGroup = resourcesByResourceGroup resources"
    by (simp_all add: settled_run_def export_groups_def) (metis list.set(1) set_empty)
  have F: "\<forall>n. found_schema E ?c n = (case st n of None \<Rightarrow> Inl NotFound | Some x \<Rightarrow> Inr x)"
    using settled unfolding settled_run_def by blast
  from scan_succeeds [OF F] obtain s where s: "snd ?scan = Inr s" by blast
  have names: "xs_names s = map (\<lambda>n. (g n, n)) ?names"
    using scan_names [OF F s] name_entries [of ?names g "[]"] current dist by simp
  have "set (xs_expected s) \<subseteq> set (xs_upToDate s)"
    using scanned [OF s] current by (fastforce simp: scan_inv_def)
  then have "filter (\<lambda>g. g \<notin> set (xs_upToDate s)) (xs_expected s) = []" by (auto simp: filter_empty_conv)
  then have none: "outdatedOrMissing s = []" by (simp add: outdatedOrMissing_def)
  have "resources \<noteq> []" using current listed byGroup by (cases ?names) (auto simp: resourcesByResourceGroup_def)
  then have "fst (schemaReconciler_reconcile E export) = fst ?scan @ fst (finish_export E export (xs_names s, []))"
    using settled s byGroup none
    by (simp add: schemaReconciler_reconcile_def settled_run_def list fst_andThen Let_def)
  moreover have "filter (\<lambda>c. \<not> is_get c) (fst ?scan) = []"
    using scan_sends by (simp add: sends_def filter_empty_conv)
  moreover have "fst (finish_export E export (xs_names s, [])) =
      (let latest = map snd (xe_map_order E (map (\<lambda>n. (g n, n)) ?names)) in
        if latest = ?names then [] else [ExportUpdate ?c (export\<lparr>LatestResourceSchemas := latest\<rparr>)])"
    using acc listed set_order by (auto simp: finish_export_def update_names_def names Let_def andThen_def okay_def send_call_def accepting_def)
  ultimately show ?thesis by (simp add: Let_def is_get_def)
qed

text \<open>Two schemas that are both up to date, with an iteration in the reverse order.\<close>

definition ex_other :: negotiated where
  "ex_other = ex_negotiated\<lparr>na_Spec := ex_spec\<lparr>as_Names := (as_Names ex_spec)\<lparr>nm_Plural := ''daemonsets''\<rparr>\<rparr>\<rparr>"

definition ex_names :: "string list" where
  "ex_names = [''rev-7.deployments.apps'', ''rev-7.daemonsets.apps'']"

definition ex_group_of :: "string \<Rightarrow> group_resource" where
  "ex_group_of n = \<lparr>gr_Group = ''apps'', gr_Resource = (if n = ''rev-7.deployments.apps'' then ''deployments'' else ''daemonsets'')\<rparr>"

definition ex_stored :: "string \<Rightarrow> api_schema option" where
  "ex_stored n = (if n = ''rev-7.deployments.apps'' then Some (toAPIResourceSchema ex_negotiated n)
     else if n = ''rev-7.daemonsets.apps'' then Some (toAPIResourceSchema ex_other n) else None)"

definition ex_steady_env :: exports_env where
  "ex_steady_env = ex_exports_env\<lparr>xe_listNegotiated := (\<lambda>_. Inr [ex_negotiated, ex_other]),
     xe_schemaLister := (\<lambda>_ _ n. case ex_stored n of None \<Rightarrow> Inl NotFound | Some x \<Rightarrow> Inr x)\<rparr>"

lemma ex_found: "found_schema ex_steady_env c n = (case ex_stored n of None \<Rightarrow> Inl NotFound | Some x \<Rightarrow> Inr x)"
  by (cases "ex_stored n") (simp_all add: found_schema_def ex_steady_env_def ex_exports_env_def)

lemma ex_steady_env_simps:
  "gr_laws ex_steady_env" "accepting ex_steady_env" "xe_listNegotiated ex_steady_env c = Inr [ex_negotiated, ex_other]"
  "xe_map_order ex_steady_env = rev" "xe_set_order ex_steady_env l = l"
  by (simp_all add: gr_laws_def accepting_def ex_steady_env_def ex_exports_env_def ex_parse_string)

lemma ex_dotless: "dotless ex_negotiated" "dotless ex_other"
  by (simp_all add: dotless_def ex_other_def ex_negotiated_def ex_spec_def)

lemma ex_export_simps [simp]: "Name (ex_export n) = ImportedAPISExportName" "Cluster (ex_export n) = ''ws''"
  by (simp_all add: ex_export_def ImportedAPISExportName_def)

lemma ex_steady: "settled_run ex_steady_env ((ex_export [])\<lparr>LatestResourceSchemas := ex_names\<rparr>) ex_stored [ex_negotiated, ex_other]"
  by (simp add: settled_run_def ex_steady_env_simps ex_found ex_dotless)

lemma ex_keys:
  "resource_key ex_negotiated = \<lparr>gr_Group = ''apps'', gr_Resource = ''deployments''\<rparr>"
  "resource_key ex_other = \<lparr>gr_Group = ''apps'', gr_Resource = ''daemonsets''\<rparr>"
  by (simp_all add: resource_key_def core_group_def ex_other_def ex_negotiated_def ex_spec_def)

lemma ex_steady_groups:
  "map_of (export_groups ex_steady_env ((ex_export [])\<lparr>LatestResourceSchemas := ex_names\<rparr>)) (ex_group_of n)
     = Some (if n = ''rev-7.deployments.apps'' then ex_negotiated else ex_other)"
  by (simp add: export_groups_def ex_steady_env_simps resourcesByResourceGroup_def ex_keys ex_group_of_def)

lemma ex_steady_names:
  "ParseAPIResourceSchemaName ''rev-7.deployments.apps'' = Some (ex_group_of ''rev-7.deployments.apps'')"
  "ParseAPIResourceSchemaName ''rev-7.daemonsets.apps'' = Some (ex_group_of ''rev-7.daemonsets.apps'')"
  using parse_name_iff [of "''rev-7''" "''deployments''" "''apps''"] parse_name_iff [of "''rev-7''" "''daemonsets''" "''apps''"]
  by (simp_all add: ex_group_of_def)

lemma ex_steady_current:
  "is_current ex_steady_env c ex_negotiated ''rev-7.deployments.apps''" "is_current ex_steady_env c ex_other ''rev-7.daemonsets.apps''"
  by (simp_all add: is_current_def ex_found ex_stored_def) (rule spec_any_name)+

theorem unchanged_export_updated_witness:
  "filter (\<lambda>c. \<not> is_get c) (fst (schemaReconciler_reconcile ex_steady_env ((ex_export [])\<lparr>LatestResourceSchemas := ex_names\<rparr>)))
     = [ExportUpdate ''ws'' ((ex_export [])\<lparr>LatestResourceSchemas := rev ex_names\<rparr>)]"
proof -
  let ?e = "(ex_export [])\<lparr>LatestResourceSchemas := ex_names\<rparr>"
  have names: "LatestResourceSchemas ?e = [''rev-7.deployments.apps'', ''rev-7.daemonsets.apps'']" by (simp add: ex_names_def)
  have "\<forall>n \<in> set (LatestResourceSchemas ?e). ParseAPIResourceSchemaName n = Some (ex_group_of n)
      \<and> (\<exists>r. map_of (export_groups ex_steady_env ?e) (ex_group_of n) = Some r \<and> is_current ex_steady_env (Cluster ?e) r n)"
    unfolding names by (simp add: ex_steady_names ex_steady_groups ex_steady_current)
  from unchanged_export_updated [OF ex_steady _ this] show ?thesis
    unfolding names by (simp add: ex_group_of_def ex_steady_env_simps) (simp add: ex_names_def ex_export_def)
qed

end
