(* ===== verification/Controller_Events.thy ===== *)
theory Controller_Events
  imports Workload_Placement Namespace_Scheduler Merge_Patch
begin

text \<open>
  The event side of four controllers: which keys the location, the placement scheduling, the workload placement and the
  namespace controller queue when an object in the cache changes (\<open>NewController\<close> and the \<open>enqueue\<close> functions of
  \<^verbatim>\<open>src/pkg/reconciler/scheduling\<close> and \<^verbatim>\<open>src/pkg/reconciler/workload\<close>). Errors that a handler reports and drops are the
  empty list of keys; \<open>Inl\<close> is a panic of the handler.

  Parameters (record \<open>event_env\<close>): the key functions, the listers and indexes of the caches, deep equality, and two names
  that kcp defines.
\<close>

section \<open>Events\<close>

text \<open>
  The object of an event: an object of the type of the informer, the tombstone of one whose deletion was missed, or anything else.
\<close>

datatype 'a event_object = Known 'a | DeletedFinalStateUnknown string 'a | Unexpected

record event_env =
  ev_Key :: "object_meta \<Rightarrow> go_error + string"                    \<comment> \<open>\<open>MetaClusterNamespaceKeyFunc\<close>\<close>
  ev_SplitCluster :: "string \<Rightarrow> go_error + string"                \<comment> \<open>the cluster of a key\<close>
  ev_PathAnnotation :: string                                       \<comment> \<open>\<open>LogicalClusterPathAnnotationKey\<close>\<close>
  ev_IdentityNamespace :: string                                    \<comment> \<open>\<open>DefaultIdentitySecretNamespace\<close>\<close>
  ev_Locations :: "string \<Rightarrow> go_error + location list"
  ev_Placements :: "string \<Rightarrow> go_error + placement list"
  ev_Namespaces :: "string \<Rightarrow> go_error + namespace list"
  ev_ByLocationWorkspace :: "string \<Rightarrow> go_error + placement list"
  ev_BySelectedPath :: "string \<Rightarrow> go_error + placement list"
  ev_SemanticEqual :: "sync_target \<Rightarrow> sync_target \<Rightarrow> bool"
  ev_DeepEqual :: "sync_target \<Rightarrow> sync_target \<Rightarrow> bool"
  ev_SpecEqual :: "location_spec \<Rightarrow> location_spec \<Rightarrow> bool"

text \<open>\<open>reflect.DeepEqual\<close> on maps, which tells nil from an empty map.\<close>

definition maps_DeepEqual :: "smap \<Rightarrow> smap \<Rightarrow> bool" where
  "maps_DeepEqual m n = (case (m, n) of (None, None) \<Rightarrow> True | (Some a, Some b) \<Rightarrow> map_equal a b | _ \<Rightarrow> False)"

text \<open>\<open>DeletionHandlingMetaClusterNamespaceKeyFunc\<close>; a tombstone carries its key.\<close>

definition deletion_handling_key :: "event_env \<Rightarrow> 'a object_meta_scheme event_object \<Rightarrow> go_error + string" where
  "deletion_handling_key E obj =
     (case obj of Known x \<Rightarrow> ev_Key E (object_meta.truncate x) | DeletedFinalStateUnknown key _ \<Rightarrow> Inr key
      | Unexpected \<Rightarrow> Inl (Failure ''object has no meta''))"

definition enqueue_key :: "event_env \<Rightarrow> 'a object_meta_scheme event_object \<Rightarrow> string list" where
  "enqueue_key E obj = (case deletion_handling_key E obj of Inl _ \<Rightarrow> [] | Inr key \<Rightarrow> [key])"

text \<open>The cluster of the object of an event.\<close>

definition event_cluster :: "event_env \<Rightarrow> 'a object_meta_scheme event_object \<Rightarrow> go_error + string" where
  "event_cluster E obj = bindE (deletion_handling_key E obj) (ev_SplitCluster E)"

text \<open>Keys of a list of objects: one loop passes over errors, the other one returns at the first.\<close>

definition keys_of :: "event_env \<Rightarrow> 'a object_meta_scheme list \<Rightarrow> string list" where
  "keys_of E xs = concat (map (\<lambda>x. case ev_Key E (object_meta.truncate x) of Inl _ \<Rightarrow> [] | Inr key \<Rightarrow> [key]) xs)"

fun keys_until_error :: "event_env \<Rightarrow> 'a object_meta_scheme list \<Rightarrow> string list" where
  "keys_until_error E [] = []"
| "keys_until_error E (x # xs) =
     (case ev_Key E (object_meta.truncate x) of Inl _ \<Rightarrow> [] | Inr key \<Rightarrow> key # keys_until_error E xs)"

text \<open>The object of an event with the tombstone taken off.\<close>

definition final_object :: "'a event_object \<Rightarrow> 'a option" where
  "final_object obj = (case obj of Known x \<Rightarrow> Some x | DeletedFinalStateUnknown _ x \<Rightarrow> Some x | Unexpected \<Rightarrow> None)"

text \<open>\<open>FilterFunc\<close> of the two controllers that watch namespaces.\<close>

definition namespace_filter :: "string list \<Rightarrow> namespace event_object \<Rightarrow> bool" where
  "namespace_filter blocklist obj =
     (case obj of Known ns \<Rightarrow> Name ns \<notin> set blocklist | DeletedFinalStateUnknown _ _ \<Rightarrow> True | Unexpected \<Rightarrow> False)"

definition without_heartbeat :: "sync_target \<Rightarrow> sync_target" where
  "without_heartbeat st = st\<lparr>ResourceVersion := ''0'', st_Status := (st_Status st)\<lparr>LastSyncerHeartbeatTime := None, VirtualWorkspaces := []\<rparr>\<rparr>"

section \<open>Location controller\<close>

definition location_enqueueSyncTarget :: "event_env \<Rightarrow> sync_target event_object \<Rightarrow> string list" where
  "location_enqueueSyncTarget E obj =
     (case event_cluster E obj of
        Inl _ \<Rightarrow> []
      | Inr lcluster \<Rightarrow> (case ev_Locations E lcluster of Inl _ \<Rightarrow> [] | Inr domains \<Rightarrow> keys_until_error E domains))"

text \<open>The update handler takes the heartbeat of the new object over into the old one (and two fields that are not modelled).\<close>

definition location_updateSyncTarget :: "event_env \<Rightarrow> sync_target event_object \<Rightarrow> sync_target event_object \<Rightarrow> string list" where
  "location_updateSyncTarget E old obj =
     (case (old, obj) of
        (Known oldCluster, Known objCluster) \<Rightarrow>
          (let oldCopy = oldCluster\<lparr>st_Status := (st_Status oldCluster)\<lparr>LastSyncerHeartbeatTime := LastSyncerHeartbeatTime (st_Status objCluster)\<rparr>\<rparr> in
           if \<not> ev_SemanticEqual E oldCopy objCluster then location_enqueueSyncTarget E obj else [])
      | _ \<Rightarrow> [])"

section \<open>Placement scheduling controller\<close>

definition indexByLocationWorkspace :: "placement \<Rightarrow> string list" where
  "indexByLocationWorkspace p = (if LocationWorkspace (p_Spec p) = [] then [Cluster p] else [LocationWorkspace (p_Spec p)])"

definition scheduling_blocklist :: "string list" where
  "scheduling_blocklist = [''kube-system'', ''kube-public'', ''kube-node-lease'']"

definition scheduling_enqueueNamespace :: "event_env \<Rightarrow> namespace event_object \<Rightarrow> string list" where
  "scheduling_enqueueNamespace E obj =
     (case event_cluster E obj of
        Inl _ \<Rightarrow> []
      | Inr clusterName \<Rightarrow> (case ev_Placements E clusterName of Inl _ \<Rightarrow> [] | Inr placements \<Rightarrow> keys_of E placements))"

definition scheduling_updateNamespace :: "event_env \<Rightarrow> namespace \<Rightarrow> namespace \<Rightarrow> string list" where
  "scheduling_updateNamespace E oldNs newNs =
     (if namespace_filter scheduling_blocklist (Known newNs) \<and> \<not> maps_DeepEqual (Annotations oldNs) (Annotations newNs)
      then scheduling_enqueueNamespace E (Known newNs) else [])"

text \<open>Both lookups of the handlers of locations: by the name of the cluster, and by the path if there is one.\<close>

definition placements_for :: "event_env \<Rightarrow> (string \<Rightarrow> go_error + placement list) \<Rightarrow> location \<Rightarrow> go_error + placement list" where
  "placements_for E byIndex location =
     bindE (byIndex (Cluster location)) (\<lambda>placements.
       let path = go_str (Annotations location) (ev_PathAnnotation E) in
       if path \<noteq> [] then bindE (byIndex path) (\<lambda>placementsByPath. Inr (placements @ placementsByPath)) else Inr placements)"

definition enqueue_placements_for :: "event_env \<Rightarrow> (string \<Rightarrow> go_error + placement list) \<Rightarrow> location event_object \<Rightarrow> string list" where
  "enqueue_placements_for E byIndex obj =
     (case final_object obj of
        None \<Rightarrow> []
      | Some location \<Rightarrow> (case placements_for E byIndex location of Inl _ \<Rightarrow> [] | Inr placements \<Rightarrow> keys_of E placements))"

definition scheduling_enqueueLocation :: "event_env \<Rightarrow> location event_object \<Rightarrow> string list" where
  "scheduling_enqueueLocation E obj = enqueue_placements_for E (ev_ByLocationWorkspace E) obj"

definition location_changed :: "event_env \<Rightarrow> location \<Rightarrow> location \<Rightarrow> bool" where
  "location_changed E oldLoc newLoc \<longleftrightarrow> \<not> ev_SpecEqual E (l_Spec oldLoc) (l_Spec newLoc) \<or> \<not> maps_DeepEqual (Labels oldLoc) (Labels newLoc)"

definition scheduling_updateLocation :: "event_env \<Rightarrow> location \<Rightarrow> location \<Rightarrow> string list" where
  "scheduling_updateLocation E oldLoc newLoc = (if location_changed E oldLoc newLoc then scheduling_enqueueLocation E (Known newLoc) else [])"

section \<open>Workload placement controller\<close>

definition indexBySelectedLocationPath :: "placement \<Rightarrow> string list" where
  "indexBySelectedLocationPath p = (case SelectedLocation (p_Status p) of None \<Rightarrow> [] | Some ref \<Rightarrow> [lref_Path ref])"

definition workload_enqueueLocation :: "event_env \<Rightarrow> location event_object \<Rightarrow> string list" where
  "workload_enqueueLocation E obj = enqueue_placements_for E (ev_BySelectedPath E) obj"

definition workload_updateLocation :: "event_env \<Rightarrow> location \<Rightarrow> location \<Rightarrow> string list" where
  "workload_updateLocation E oldLoc newLoc = (if location_changed E oldLoc newLoc then workload_enqueueLocation E (Known newLoc) else [])"

definition workload_enqueueSyncTarget :: "event_env \<Rightarrow> sync_target event_object \<Rightarrow> string list" where
  "workload_enqueueSyncTarget E obj =
     (case final_object obj of
        None \<Rightarrow> []
      | Some syncTarget \<Rightarrow>
          (case ev_Locations E (Cluster syncTarget) of
             Inl _ \<Rightarrow> []
           | Inr locations \<Rightarrow> concat (map (\<lambda>location. workload_enqueueLocation E (Known location)) locations)))"

definition workload_updateSyncTarget :: "event_env \<Rightarrow> sync_target \<Rightarrow> sync_target \<Rightarrow> string list" where
  "workload_updateSyncTarget E old new =
     (if \<not> ev_DeepEqual E (without_heartbeat old) (without_heartbeat new) then workload_enqueueSyncTarget E (Known new) else [])"




text \<open>The type assertion for the log message comes after the list and before the loop.\<close>

definition type_assertion :: "'a event_object \<Rightarrow> 'b \<Rightarrow> go_error + 'b" where
  "type_assertion obj r = (case obj of Known _ \<Rightarrow> Inr r | _ \<Rightarrow> Inl (Panic ''interface conversion''))"

definition workload_enqueueAPIBinding :: "event_env \<Rightarrow> 'a object_meta_scheme event_object \<Rightarrow> go_error + string list" where
  "workload_enqueueAPIBinding E obj =
     (case event_cluster E obj of
        Inl _ \<Rightarrow> Inr []
      | Inr clusterName \<Rightarrow>
          (case ev_Placements E clusterName of Inl _ \<Rightarrow> Inr [] | Inr placements \<Rightarrow> type_assertion obj (keys_of E placements)))"

section \<open>Namespace controller\<close>

definition namespace_blocklist :: "event_env \<Rightarrow> string list" where
  "namespace_blocklist E = [''kube-system'', ''kube-public'', ''kube-node-lease'', ev_IdentityNamespace E]"

definition namespace_event :: "event_env \<Rightarrow> namespace event_object \<Rightarrow> string list" where
  "namespace_event E obj = (if namespace_filter (namespace_blocklist E) obj then enqueue_key E obj else [])"

definition namespace_enqueuePlacement :: "event_env \<Rightarrow> placement event_object \<Rightarrow> go_error + string list" where
  "namespace_enqueuePlacement E obj =
     (case event_cluster E obj of
        Inl _ \<Rightarrow> Inr []
      | Inr clusterName \<Rightarrow>
          (case ev_Namespaces E clusterName of Inl _ \<Rightarrow> Inr [] | Inr namespaces \<Rightarrow> type_assertion obj (keys_of E namespaces)))"

section \<open>Indexes\<close>

text \<open>
  The caches of a controller with the placements \<open>ps\<close>: every object has a key, and a lookup in an index returns the placements
  that the index function files under the value.
\<close>

definition event_caches :: "event_env \<Rightarrow> (object_meta \<Rightarrow> string) \<Rightarrow> placement list \<Rightarrow> bool" where
  "event_caches E key ps \<longleftrightarrow> (\<forall>m. ev_Key E m = Inr (key m))
     \<and> (\<forall>v. ev_ByLocationWorkspace E v = Inr (filter (\<lambda>p. v \<in> set (indexByLocationWorkspace p)) ps))
     \<and> (\<forall>v. ev_BySelectedPath E v = Inr (filter (\<lambda>p. v \<in> set (indexBySelectedLocationPath p)) ps))"

text \<open>The paths under which kcp finds a location: the cluster and the annotated path, if there is one.\<close>

definition location_paths :: "event_env \<Rightarrow> location \<Rightarrow> string set" where
  "location_paths E l = insert (Cluster l) ({go_str (Annotations l) (ev_PathAnnotation E)} - {[]})"

lemma keys_of_total: "\<forall>m. ev_Key E m = Inr (key m) \<Longrightarrow> keys_of E xs = map (\<lambda>x. key (object_meta.truncate x)) xs"
  by (induction xs) (simp_all add: keys_of_def)

lemma placements_for_index:
  assumes "\<forall>v. byIndex v = Inr (filter (\<lambda>p. v \<in> set (indexFn p)) ps)"
  shows "\<exists>found. placements_for E byIndex l = Inr found \<and> set found = {p \<in> set ps. set (indexFn p) \<inter> location_paths E l \<noteq> {}}"
  using assms by (cases "go_str (Annotations l) (ev_PathAnnotation E)") (auto simp: placements_for_def location_paths_def Let_def)

lemma enqueue_placements_index:
  assumes "\<forall>v. byIndex v = Inr (filter (\<lambda>p. v \<in> set (indexFn p)) ps)" "\<forall>m. ev_Key E m = Inr (key m)" "final_object obj = Some l"
  shows "set (enqueue_placements_for E byIndex obj)
     = (\<lambda>p. key (object_meta.truncate p)) ` {p \<in> set ps. set (indexFn p) \<inter> location_paths E l \<noteq> {}}"
proof -
  obtain found where "placements_for E byIndex l = Inr found" "set found = {p \<in> set ps. set (indexFn p) \<inter> location_paths E l \<noteq> {}}"
    using placements_for_index [OF assms(1), of E l] by blast
  then show ?thesis using assms(3) by (simp add: enqueue_placements_for_def keys_of_total [OF assms(2)])
qed

lemma enqueued_by_location:
  assumes "event_caches E key ps" "final_object obj = Some l"
  shows "set (scheduling_enqueueLocation E obj)
      = (\<lambda>p. key (object_meta.truncate p)) ` {p \<in> set ps. set (indexByLocationWorkspace p) \<inter> location_paths E l \<noteq> {}}"
    "set (workload_enqueueLocation E obj)
      = (\<lambda>p. key (object_meta.truncate p)) ` {p \<in> set ps. set (indexBySelectedLocationPath p) \<inter> location_paths E l \<noteq> {}}"
proof -
  have K: "\<forall>m. ev_Key E m = Inr (key m)"
    and W: "\<forall>v. ev_ByLocationWorkspace E v = Inr (filter (\<lambda>p. v \<in> set (indexByLocationWorkspace p)) ps)"
    and S: "\<forall>v. ev_BySelectedPath E v = Inr (filter (\<lambda>p. v \<in> set (indexBySelectedLocationPath p)) ps)"
    using assms(1) unfolding event_caches_def by blast+
  show "set (scheduling_enqueueLocation E obj)
      = (\<lambda>p. key (object_meta.truncate p)) ` {p \<in> set ps. set (indexByLocationWorkspace p) \<inter> location_paths E l \<noteq> {}}"
    unfolding scheduling_enqueueLocation_def by (rule enqueue_placements_index [OF W K assms(2)])
  show "set (workload_enqueueLocation E obj)
      = (\<lambda>p. key (object_meta.truncate p)) ` {p \<in> set ps. set (indexBySelectedLocationPath p) \<inter> location_paths E l \<noteq> {}}"
    unfolding workload_enqueueLocation_def by (rule enqueue_placements_index [OF S K assms(2)])
qed

section \<open>Properties\<close>

text \<open>
  which placements a change of a location reaches. Let the locations of a workspace path be those with that path. A placement
  without \<open>LocationWorkspace\<close> is queued by every location that its reconciliation lists; a placement with
  another \<open>LocationWorkspace\<close> is not queued by the locations that its reconciliation lists, because
  the reconciler ignores the field and the index does not.
\<close>

theorem location_event_placements:
  assumes "event_caches E key ps" "inj_on (\<lambda>p. key (object_meta.truncate p)) (set ps)" "final_object obj = Some l" "p \<in> set ps"
    and "listLocationsByPath (Cluster p) = Inr ls" "l \<in> set ls"
    and "\<And>path ls. listLocationsByPath path = Inr ls \<Longrightarrow> \<forall>l \<in> set ls. path \<in> location_paths E l"
  shows "key (object_meta.truncate p) \<in> set (scheduling_enqueueLocation E obj)
     \<longleftrightarrow> LocationWorkspace (p_Spec p) = [] \<or> LocationWorkspace (p_Spec p) \<in> location_paths E l"
proof -
  have "Cluster p \<in> location_paths E l" using assms(5-7) by blast
  then have "set (indexByLocationWorkspace p) \<inter> location_paths E l \<noteq> {}
      \<longleftrightarrow> LocationWorkspace (p_Spec p) = [] \<or> LocationWorkspace (p_Spec p) \<in> location_paths E l"
    by (simp add: indexByLocationWorkspace_def)
  moreover have "key (object_meta.truncate p) \<in> (\<lambda>p. key (object_meta.truncate p)) ` {p \<in> set ps. set (indexByLocationWorkspace p) \<inter> location_paths E l \<noteq> {}}
      \<longleftrightarrow> set (indexByLocationWorkspace p) \<inter> location_paths E l \<noteq> {}"
    using assms(2,4) by (auto simp: inj_on_def)
  ultimately show ?thesis using enqueued_by_location(1) [OF assms(1,3)] by simp
qed



text \<open>
  A heartbeat. The workload placement controller ignores an update of a sync target that changes the heartbeat, the virtual workspaces and the
  resource version. The location controller means to ignore it too, but its comparison includes the resource
  version, which every update changes: all locations of the workspace are queued.
\<close>

theorem heartbeat_event:
  assumes "new = old\<lparr>ResourceVersion := rv, st_Status := (st_Status old)\<lparr>LastSyncerHeartbeatTime := t\<rparr>\<rparr>" "rv \<noteq> ResourceVersion old"
    and "\<And>a b. ev_SemanticEqual E a b \<Longrightarrow> ResourceVersion a = ResourceVersion b" "\<And>a. ev_DeepEqual E a a"
    and "ev_Key E (object_meta.truncate new) = Inr k" "ev_SplitCluster E k = Inr (Cluster new)" "ev_Locations E (Cluster new) = Inr ls"
    and "\<And>m. ev_Key E m = Inr (key m)"
  shows "workload_updateSyncTarget E old new = []
    \<and> set (location_updateSyncTarget E (Known old) (Known new)) = (\<lambda>l. key (object_meta.truncate l)) ` set ls"
proof -
  have "without_heartbeat old = without_heartbeat new" by (simp add: without_heartbeat_def assms(1))
  then have "workload_updateSyncTarget E old new = []" using assms(4) by (simp add: workload_updateSyncTarget_def)
  moreover have u: "keys_until_error E xs = map (\<lambda>l. key (object_meta.truncate l)) xs" for xs :: "location list"
    using assms(8) by (induction xs) simp_all
  moreover have "\<not> ev_SemanticEqual E (old\<lparr>st_Status := (st_Status old)\<lparr>LastSyncerHeartbeatTime := LastSyncerHeartbeatTime (st_Status new)\<rparr>\<rparr>) new"
    using assms(1-3) by fastforce
  ultimately show ?thesis
    using assms(5-7) by (simp add: location_updateSyncTarget_def location_enqueueSyncTarget_def event_cluster_def deletion_handling_key_def)
qed

text \<open>
  A deletion that the watch has missed is delivered as a tombstone. The namespace controller and the workload placement controller
  then panic on a placement and on an API binding, respectively, if the key can be split and the list succeeds, while the other handlers of the
  namespace controller and of the workload placement controller unwrap it.
\<close>

theorem missed_deletion_panics:
  assumes "ev_SplitCluster E k = Inr c" "ev_Namespaces E c = Inr nss" "ev_Placements E c = Inr ps"
  shows "(\<exists>m. namespace_enqueuePlacement E (DeletedFinalStateUnknown k p) = Inl (Panic m))
    \<and> (\<exists>m. workload_enqueueAPIBinding E (DeletedFinalStateUnknown k b) = Inl (Panic m))
    \<and> namespace_event E (DeletedFinalStateUnknown k n) = [k] \<and> enqueue_key E (DeletedFinalStateUnknown k p) = [k]"
  using assms
  by (simp add: namespace_enqueuePlacement_def workload_enqueueAPIBinding_def event_cluster_def deletion_handling_key_def
      type_assertion_def namespace_event_def namespace_filter_def enqueue_key_def)

section \<open>Examples\<close>

definition ex_away :: placement where
  "ex_away = (ex_placement PlacementUnbound (Some \<lparr>lref_Path = ''compute'', lref_LocationName = ''loc''\<rparr>) None)
     \<lparr>Cluster := ''compute'', p_Spec := (p_Spec (ex_placement PlacementUnbound None None))\<lparr>LocationWorkspace := ''other''\<rparr>\<rparr>"

definition ex_events :: event_env where
  "ex_events = \<lparr>ev_Key = (\<lambda>m. Inr (Name m)), ev_SplitCluster = (\<lambda>_. Inr ''compute''), ev_PathAnnotation = ''kcp.io/path'',
     ev_IdentityNamespace = ''kcp-system'', ev_Locations = (\<lambda>_. Inr [ex_location]), ev_Placements = (\<lambda>_. Inr [ex_away]), ev_Namespaces = (\<lambda>_. Inr []),
     ev_ByLocationWorkspace = (\<lambda>v. Inr (filter (\<lambda>p. v \<in> set (indexByLocationWorkspace p)) [ex_away])),
     ev_BySelectedPath = (\<lambda>v. Inr (filter (\<lambda>p. v \<in> set (indexBySelectedLocationPath p)) [ex_away])),
     ev_SemanticEqual = (=), ev_DeepEqual = (=), ev_SpecEqual = (=)\<rparr>"

lemma ex_event_caches: "event_caches ex_events Name [ex_away]"
  by (simp add: event_caches_def ex_events_def)

lemma ex_event_simps:
  "ev_Key ex_events m = Inr (Name m)" "ev_SplitCluster ex_events k = Inr ''compute''" "ev_Locations ex_events c = Inr [ex_location]"
  "ev_Placements ex_events c = Inr [ex_away]" "ev_Namespaces ex_events c = Inr []" "ev_SemanticEqual ex_events = (=)" "ev_DeepEqual ex_events = (=)"
  "ev_PathAnnotation ex_events = ''kcp.io/path''"
  by (simp_all add: ex_events_def)

lemma ex_away_simps:
  "Cluster ex_away = ''compute''" "LocationWorkspace (p_Spec ex_away) = ''other''" "object_meta.Name (object_meta.truncate ex_away) = ''pl''"
  "SelectedLocation (p_Status ex_away) = Some \<lparr>lref_Path = ''compute'', lref_LocationName = ''loc''\<rparr>"
  by (simp_all add: ex_away_def ex_object_defs)

lemma ex_location_simps: "Cluster ex_location = ''compute''" "Annotations ex_location = None" "Name ex_location = ''loc''"
    "object_meta.Name (object_meta.truncate ex_location) = ''loc''"
  by (simp_all add: ex_object_defs)

lemma ex_location_paths: "location_paths ex_events ex_location = {''compute''}"
  by (auto simp: location_paths_def ex_location_simps go_str_def)

theorem location_event_placements_witness:
  "''pl'' \<notin> set (scheduling_enqueueLocation ex_events (Known ex_location))"
proof -
  let ?list = "\<lambda>path. if path = ''compute'' then Inr [ex_location] else Inr [] :: go_error + location list"
  have "?list path = Inr ls \<Longrightarrow> \<forall>l \<in> set ls. path \<in> location_paths ex_events l" for path ls
    by (auto simp: ex_location_paths split: if_splits)
  note paths = this
  show ?thesis
    using location_event_placements [where listLocationsByPath = ?list, OF ex_event_caches _ _ _ _ _ paths,
        of "Known ex_location" ex_location ex_away "[ex_location]"]
    by (simp add: final_object_def ex_away_simps ex_location_paths)
qed



theorem heartbeat_event_witness:
  "set (location_updateSyncTarget ex_events (Known ex_target)
      (Known (ex_target\<lparr>ResourceVersion := ''2'', st_Status := (st_Status ex_target)\<lparr>LastSyncerHeartbeatTime := Some 7\<rparr>\<rparr>))) = {''loc''}
   \<and> workload_updateSyncTarget ex_events ex_target
      (ex_target\<lparr>ResourceVersion := ''2'', st_Status := (st_Status ex_target)\<lparr>LastSyncerHeartbeatTime := Some 7\<rparr>\<rparr>) = []"
proof -
  have rv: "ResourceVersion ex_target = ''1''" "Cluster ex_target = ''compute''" by (simp_all add: ex_object_defs)
  show ?thesis
    using heartbeat_event [where old = ex_target and rv = "''2''" and t = "Some 7" and E = ex_events and key = Name, OF refl]
    by (simp add: rv ex_event_simps ex_location_simps)
qed

theorem missed_deletion_panics_witness:
  "(\<exists>m. namespace_enqueuePlacement ex_events (DeletedFinalStateUnknown ''k'' ex_away) = Inl (Panic m))
   \<and> namespace_event ex_events (DeletedFinalStateUnknown ''k'' (ex_namespace None None)) = [''k'']"
  using missed_deletion_panics [of ex_events "''k''" "''compute''" "[]" "[ex_away]" ex_away ex_away "ex_namespace None None"]
  by (simp add: ex_event_simps)

end
