(* ===== verification/Default_Location.thy ===== *)
theory Default_Location
  imports Controller_Events API_Calls Work_Queue
begin

text \<open>
  \<^verbatim>\<open>src/pkg/reconciler/workload/defaultlocation\<close>: the controller that gives every workspace with a sync target a location, and
  the predicates of \<^verbatim>\<open>replicateclusterrole\<close> and \<^verbatim>\<open>replicatelogicalcluster\<close>, which two controllers outside the
  repository call. The queue holds names of logical clusters.
\<close>

section \<open>The default location\<close>

definition DefaultLocationName :: string where "DefaultLocationName = ''default''"
definition cluster_annotation :: string where "cluster_annotation = ''kcp.io/cluster''"   \<comment> \<open>\<open>logicalcluster.AnnotationKey\<close>\<close>

datatype location_call = LocationCreate string location

definition default_location :: "string \<Rightarrow> location" where
  "default_location clusterName =
     \<lparr>Name = DefaultLocationName, Namespace = [], Cluster = clusterName, UID = [], ResourceVersion = [], Labels = None,
      Annotations = Some [(cluster_annotation, clusterName)], Finalizers = [], OwnerReferences = [], DeletionTimestamp = None,
      l_Spec = \<lparr>l_Resource = \<lparr>gvr_Group = ''workload.kcp.io'', gvr_Version = ''v1alpha1'', gvr_Resource = ''synctargets''\<rparr>,
        l_Description = [], InstanceSelector = Some \<lparr>MatchLabels = None, MatchExpressions = []\<rparr>\<rparr>,
      l_Status = \<lparr>Instances = None, AvailableInstances = None\<rparr>\<rparr>"

record default_location_env =
  dl_syncTargets :: "string \<Rightarrow> go_error + sync_target list"
  dl_getLocation :: "string \<Rightarrow> string \<Rightarrow> go_error + location"
  dl_answer :: "location_call \<Rightarrow> go_error option"

definition default_location_process :: "default_location_env \<Rightarrow> string \<Rightarrow> (location_call, unit) calls" where
  "default_location_process E clusterName =
     andThen (lift_err (dl_syncTargets E clusterName)) (\<lambda>syncTargets.
     if syncTargets = [] then okay ()
     else case dl_getLocation E clusterName DefaultLocationName of
       Inl NotFound \<Rightarrow>
         andThen (attempt (dl_answer E) (LocationCreate clusterName (default_location clusterName))) (\<lambda>err.
         case err of None \<Rightarrow> okay () | Some AlreadyExists \<Rightarrow> okay () | Some e \<Rightarrow> fail e)
     | Inl e \<Rightarrow> fail e
     | Inr _ \<Rightarrow> okay ())"

text \<open>The events: additions and deletions of sync targets, and deletions of the location with the name, which a filter passes.\<close>

definition default_location_enqueue :: "event_env \<Rightarrow> 'a object_meta_scheme event_object \<Rightarrow> string list" where
  "default_location_enqueue E obj = (case event_cluster E obj of Inl _ \<Rightarrow> [] | Inr clusterName \<Rightarrow> [clusterName])"

definition default_location_filter :: "location event_object \<Rightarrow> bool" where
  "default_location_filter obj = (case obj of Known t \<Rightarrow> Name t = DefaultLocationName | _ \<Rightarrow> False)"

definition default_location_deleted :: "event_env \<Rightarrow> location event_object \<Rightarrow> string list" where
  "default_location_deleted E obj = (if default_location_filter obj then default_location_enqueue E obj else [])"

definition default_location_next :: "default_location_env \<Rightarrow> string option \<Rightarrow> bool \<times> string queue_call list \<times> go_error list" where
  "default_location_next E item =
     processNext (\<lambda>key. case snd (default_location_process E key) of Inl e \<Rightarrow> [e] | Inr _ \<Rightarrow> []) item"

section \<open>Replication\<close>

record policy_rule =
  pr_APIGroups :: "string list"
  pr_Resources :: "string list"
  pr_Verbs :: "string list"

definition workload_GroupName :: string where "workload_GroupName = ''workload.kcp.io''"

fun HasSyncRule :: "policy_rule list \<Rightarrow> bool" where
  "HasSyncRule [] = False"
| "HasSyncRule (rule # rules) =
     (if workload_GroupName \<notin> set (pr_APIGroups rule) \<and> ''*'' \<notin> set (pr_APIGroups rule) then HasSyncRule rules
      else if (''synctargets'' \<in> set (pr_Resources rule) \<or> ''*'' \<in> set (pr_Resources rule))
         \<and> (''sync'' \<in> set (pr_Verbs rule) \<or> ''*'' \<in> set (pr_Verbs rule)) then True
      else HasSyncRule rules)"

definition has_sync_targets :: "(string \<Rightarrow> go_error + string list) \<Rightarrow> string \<Rightarrow> bool" where
  "has_sync_targets keysOfCluster clusterName = (case keysOfCluster clusterName of Inl _ \<Rightarrow> False | Inr keys \<Rightarrow> keys \<noteq> [])"

text \<open>The logical cluster that is queued for a sync target; \<open>None\<close> if it is gone or cannot be read.\<close>

definition replicate_enqueueSyncTarget :: "(string \<Rightarrow> go_error + 'c) \<Rightarrow> sync_target event_object \<Rightarrow> 'c option" where
  "replicate_enqueueSyncTarget getLogicalCluster obj =
     (case final_object obj of
        None \<Rightarrow> None
      | Some syncTarget \<Rightarrow> (case getLogicalCluster (Cluster syncTarget) of Inl _ \<Rightarrow> None | Inr cluster \<Rightarrow> Some cluster))"

section \<open>Properties\<close>

text \<open>The empty selector selects every object.\<close>

definition empty_selector_law :: "selector_lib \<Rightarrow> bool" where
  "empty_selector_law sel \<longleftrightarrow> sel (Some \<lparr>MatchLabels = None, MatchExpressions = []\<rparr>) = Inr (\<lambda>_. True)"

text \<open>
  A workspace with a sync target gets exactly one default location, and this location counts all its sync targets. When the
  location does not exist, processing the workspace sends one create request, an answer that it exists already is a success,
  and the location controller finds every sync target of the workspace in the new location.
\<close>

theorem default_location_holds_all:
  assumes "dl_syncTargets E c = Inr sts" "sts \<noteq> []" "dl_getLocation E c DefaultLocationName = Inl NotFound" "empty_selector_law sel"
  shows "fst (default_location_process E c) = [LocationCreate c (default_location c)]
    \<and> (snd (default_location_process E c) = Inr ()
        \<longleftrightarrow> dl_answer E (LocationCreate c (default_location c)) \<in> {None, Some AlreadyExists})
    \<and> LocationSyncTargets sel sts (default_location c) = Inr sts"
proof -
  have "snd (default_location_process E c) = Inr ()
        \<longleftrightarrow> dl_answer E (LocationCreate c (default_location c)) \<in> {None, Some AlreadyExists}"
    using assms(1-3) by (auto simp: default_location_process_def ok_andThen split: option.splits go_error.splits)
  moreover have "fst (default_location_process E c) = [LocationCreate c (default_location c)]"
    using assms(1-3) by (auto simp: default_location_process_def fst_andThen split: option.splits go_error.splits)
  moreover have "LocationSyncTargets sel sts (default_location c) = Inr sts"
    using assms(4) by (simp add: LocationSyncTargets_def default_location_def empty_selector_law_def)
  ultimately show ?thesis by blast
qed

lemma HasSyncRule_iff:
  "HasSyncRule rules \<longleftrightarrow> (\<exists>rule \<in> set rules. (workload_GroupName \<in> set (pr_APIGroups rule) \<or> ''*'' \<in> set (pr_APIGroups rule))
     \<and> (''synctargets'' \<in> set (pr_Resources rule) \<or> ''*'' \<in> set (pr_Resources rule))
     \<and> (''sync'' \<in> set (pr_Verbs rule) \<or> ''*'' \<in> set (pr_Verbs rule)))"
  by (induction rules) auto

text \<open>A deletion of the location that reaches the controller as a tombstone is dropped by the filter.\<close>

lemma missed_location_deletion: "default_location_deleted E (DeletedFinalStateUnknown k l) = []"
  by (simp add: default_location_deleted_def default_location_filter_def)

section \<open>Examples\<close>

definition ex_default_env :: default_location_env where
  "ex_default_env = \<lparr>dl_syncTargets = (\<lambda>_. Inr [ex_target]), dl_getLocation = (\<lambda>_ _. Inl NotFound), dl_answer = (\<lambda>_. Some AlreadyExists)\<rparr>"

theorem default_location_holds_all_witness:
  "snd (default_location_process ex_default_env ''compute'') = Inr ()
   \<and> LocationSyncTargets basic_selector [ex_target] (default_location ''compute'') = Inr [ex_target]"
  using default_location_holds_all [of ex_default_env "''compute''" "[ex_target]" basic_selector]
  by (simp add: ex_default_env_def empty_selector_law_def basic_selector_def)

end
