(* ===== verification/API_Importer.thy ===== *)
theory API_Importer
  imports API_Resource Model_Instances
begin

text \<open>
  \<^verbatim>\<open>src/pkg/syncer/apiimporter.go\<close>: the poller of the syncer that offers the resource types of its physical cluster to kcp, as one
  \<open>APIResourceImport\<close> per type. \<open>ImportAPIs\<close> is one poll, \<open>polls\<close> the loop of \<open>Start\<close>. Errors that are only logged leave
  no trace; \<open>Inl\<close> of a computation is a panic.

  Parameters (record \<open>importer_env\<close>): the sync target in the cache, the CRDs that the puller makes of the types of the cluster, in one
  of their iteration orders, the indexes of the imports, the JSON of a schema, the text of a GVR, and the answers of the server.
\<close>

section \<open>State and environment\<close>

datatype importer_call = ApiUpdate api_import | ApiCreate api_import owner_reference | ApiDelete string

text \<open>The field \<open>SyncedGVRs\<close> of the importer: the types by their text.\<close>

type_synonym synced_gvrs = "gvr gomap"

record 's importer_env =
  ie_syncTargetName :: string
  ie_syncTargetUID :: string
  ie_resourcesToSync :: "string list"
  ie_getSyncTarget :: "go_error + sync_target"
  ie_PullCRDs :: "string list \<Rightarrow> go_error + (group_resource \<times> 's crd) list"
  ie_byGVR :: "string \<Rightarrow> go_error + api_import list"
  ie_byLocation :: "string \<Rightarrow> go_error + api_import list"
  ie_encode :: "'s option \<Rightarrow> go_error + string"
  ie_gvrString :: "gvr \<Rightarrow> string"
  ie_answer :: "importer_call \<Rightarrow> go_error option"

definition GetLocationIndexKey :: "string \<Rightarrow> string" where
  "GetLocationIndexKey location = location"

definition GetGVRForLocationIndexKey :: "'s importer_env \<Rightarrow> string \<Rightarrow> gvr \<Rightarrow> string" where
  "GetGVRForLocationIndexKey E location r = location @ ''$$'' @ ie_gvrString E r"

text \<open>The index functions.\<close>

definition importer_indexes :: "'s importer_env \<Rightarrow> api_import \<Rightarrow> string list \<times> string list" where
  "importer_indexes E i = ([GetGVRForLocationIndexKey E (ai_Location i) (import_GVR i)], [GetLocationIndexKey (ai_Location i)])"

text \<open>The reference also carries the flag that this is the controller.\<close>

definition clusterAsOwnerReference :: "sync_target \<Rightarrow> owner_reference" where
  "clusterAsOwnerReference obj = \<lparr>or_APIVersion = ''workload.kcp.io/v1alpha1'', or_Kind = ''SyncTarget'', or_Name = Name obj, or_UID = UID obj\<rparr>"

section \<open>One poll\<close>

definition resources_to_import :: "'s importer_env \<Rightarrow> sync_target \<Rightarrow> string list" where
  "resources_to_import E syncTarget =
     sort (fold set_insert (ie_resourcesToSync E
        @ map (\<lambda>rs. gr_Resource (rs_GroupResource rs) @ ''.'' @ gr_Group (rs_GroupResource rs)) (SyncedResources (st_Status syncTarget))) [])"

definition import_name :: "string \<Rightarrow> gvr \<Rightarrow> string" where
  "import_name location r =
     gvr_Resource r @ ''.'' @ location @ ''.'' @ gvr_Version r @ ''.'' @ (if gvr_Group r = [] then ''core'' else gvr_Group r)"

definition import_spec :: "gvr \<Rightarrow> 's crd \<Rightarrow> 's crd_version \<Rightarrow> api_spec" where
  "import_spec r c v =
     \<lparr>as_Group = gvr_Group r, as_Version = gvr_Version r, as_Scope = crd_Scope c, as_Names = crd_Names c, as_Schema = [],
      as_SubResources = subresources_ImportFromCRDVersion v [], as_Columns = columns_ImportFromCRDVersion v []\<rparr>"

definition new_import :: "string \<Rightarrow> gvr \<Rightarrow> 's crd \<Rightarrow> 's crd_version \<Rightarrow> api_import" where
  "new_import location r c v =
     \<lparr>Name = import_name location r, Namespace = [], Cluster = [], UID = [], ResourceVersion = [], Labels = None,
      Annotations = Some ((APIVersionAnnotation, APIVersion (gvr_Group r) (gvr_Version r))
        # (case go_get (Annotations c) KubeAPIApprovedAnnotation of None \<Rightarrow> [] | Some value \<Rightarrow> [(KubeAPIApprovedAnnotation, value)])),
      Finalizers = [], OwnerReferences = [], DeletionTimestamp = None,
      ai_Generation = 0, ai_Spec = import_spec r c v, ai_SchemaUpdateStrategy = UpdateUnpublished, ai_Location = location, ai_Conditions = []\<rparr>"

definition with_schema :: "'s importer_env \<Rightarrow> 's option \<Rightarrow> api_import \<Rightarrow> go_error + api_import" where
  "with_schema E s i = bindE (SetSchema (ie_encode E) s (ai_Spec i)) (\<lambda>spec. Inr (i\<lparr>ai_Spec := spec\<rparr>))"

text \<open>Set the schema and send the import; whether it was sent with success.\<close>

definition send_import ::
  "'s importer_env \<Rightarrow> 's crd_version \<Rightarrow> (api_import \<Rightarrow> importer_call) \<Rightarrow> api_import \<Rightarrow> (importer_call, bool) calls" where
  "send_import E v call i =
     andThen (lift_err (version_schema v)) (\<lambda>s.
     case with_schema E s i of
       Inl _ \<Rightarrow> okay False
     | Inr i' \<Rightarrow> andThen (attempt (ie_answer E) (call i')) (\<lambda>err. okay (err = None)))"

text \<open>The body of the loop over the pulled CRDs: the GVR is recorded if nothing went wrong.\<close>

definition import_crd ::
  "'s importer_env \<Rightarrow> sync_target \<Rightarrow> synced_gvrs \<Rightarrow> group_resource \<times> 's crd \<Rightarrow> (importer_call, synced_gvrs) calls" where
  "import_crd E syncTarget gvrsToSync entry =
     (case crd_Versions (snd entry) of
        [] \<Rightarrow> fail (Panic ''index out of range'')
      | v # _ \<Rightarrow>
          (let c = snd entry; r = \<lparr>gvr_Group = crd_Group c, gvr_Version = cv_Name v, gvr_Resource = gr_Resource (fst entry)\<rparr> in
           case ie_byGVR E (GetGVRForLocationIndexKey E (ie_syncTargetName E) r) of
             Inl _ \<Rightarrow> okay gvrsToSync
           | Inr objs \<Rightarrow>
               if length objs > 1 then okay gvrsToSync
               else andThen (case objs of
                   i # _ \<Rightarrow> send_import E v ApiUpdate i
                 | [] \<Rightarrow> send_import E v (\<lambda>i. ApiCreate i (clusterAsOwnerReference syncTarget)) (new_import (ie_syncTargetName E) r c v)) (\<lambda>sent.
                 okay (if sent then Some (go_put (ie_gvrString E r) r (entries gvrsToSync)) else gvrsToSync))))"

text \<open>The loop over the types that are no longer offered.\<close>

definition remove_import :: "'s importer_env \<Rightarrow> gvr \<Rightarrow> (importer_call, unit) calls" where
  "remove_import E r =
     (case ie_byGVR E (GetGVRForLocationIndexKey E (ie_syncTargetName E) r) of
        Inr [i] \<Rightarrow> andThen (attempt (ie_answer E) (ApiDelete (Name i))) (\<lambda>_. okay ())
      | _ \<Rightarrow> okay ())"

text \<open>One poll and the field \<open>SyncedGVRs\<close> after it.\<close>

definition ImportAPIs :: "'s importer_env \<Rightarrow> synced_gvrs \<Rightarrow> (importer_call, synced_gvrs) calls" where
  "ImportAPIs E syncedGVRs =
     (case ie_getSyncTarget E of
        Inl _ \<Rightarrow> okay syncedGVRs
      | Inr syncTarget \<Rightarrow>
          if UID syncTarget \<noteq> ie_syncTargetUID E then okay syncedGVRs
          else if resources_to_import E syncTarget = [] then okay syncedGVRs
          else
            (case ie_PullCRDs E (resources_to_import E syncTarget) of
               Inl _ \<Rightarrow> okay syncedGVRs
             | Inr crds \<Rightarrow>
                 andThen (fold_calls (import_crd E syncTarget) (Some []) crds) (\<lambda>gvrsToSync.
                 andThen (for_each (\<lambda>(k, r). remove_import E r) (filter (\<lambda>(k, r). \<not> go_has gvrsToSync k) (entries syncedGVRs))) (\<lambda>_.
                 okay syncedGVRs))))"

text \<open>The loop of \<open>Start\<close>: one poll after the other, each in its own environment. A new importer has no map.\<close>

fun polls :: "'s importer_env list \<Rightarrow> synced_gvrs \<Rightarrow> (importer_call, synced_gvrs) calls" where
  "polls [] syncedGVRs = okay syncedGVRs"
| "polls (E # Es) syncedGVRs = andThen (ImportAPIs E syncedGVRs) (polls Es)"

definition Stop_importer :: "'s importer_env \<Rightarrow> (importer_call, unit) calls" where
  "Stop_importer E =
     (let objs = (case ie_byLocation E (GetLocationIndexKey (ie_syncTargetName E)) of Inl _ \<Rightarrow> [] | Inr objs \<Rightarrow> objs) in
      for_each (\<lambda>i. andThen (attempt (ie_answer E) (ApiDelete (Name i))) (\<lambda>_. okay ())) objs)"

section \<open>Properties\<close>

definition no_delete :: "importer_call \<Rightarrow> bool" where
  "no_delete c \<longleftrightarrow> (\<forall>n. c \<noteq> ApiDelete n)"

lemma send_import_sends: "(\<And>i. no_delete (call i)) \<Longrightarrow> sends no_delete (send_import E v call i)"
  by (auto simp: send_import_def intro!: sends_andThen split: sum.split)

lemma import_crd_sends: "sends no_delete (import_crd E t g entry)"
  unfolding import_crd_def Let_def
  by (auto intro!: sends_andThen send_import_sends simp: no_delete_def split: list.split sum.split)

lemma ImportAPIs_state: "snd (ImportAPIs E g) = Inr g' \<Longrightarrow> g' = g"
  by (auto simp: ImportAPIs_def ok_andThen split: sum.splits if_splits)

lemma ImportAPIs_sends: "sends no_delete (ImportAPIs E None)"
  unfolding ImportAPIs_def
  by (auto intro!: sends_andThen sends_fold_calls import_crd_sends split: sum.split)

text \<open>
  The importer never removes an import while it runs. The list of the types of the last poll, on which the removal of the types that are no longer offered
  depends, is never written, so over any sequence of polls, with whatever the cluster offers in each, no delete request is
  sent; what a poll has created stays until the syncer stops.
\<close>

theorem stale_imports_kept:
  "ApiDelete name \<notin> set (fst (polls Es None))"
proof -
  have "sends no_delete (polls Es None)"
  proof (induction Es)
    case (Cons E Es)
    show ?case
      using Cons ImportAPIs_state [of E None] by (auto intro!: sends_andThen ImportAPIs_sends)
  qed simp
  then show ?thesis by (auto simp: sends_def no_delete_def)
qed

lemma send_import_spec:
  assumes "cv_Schema v = Some s"
  shows "send_import E v call i =
     (case ie_encode E s of
        Inl _ \<Rightarrow> ([], Inr False)
      | Inr json \<Rightarrow> ([call (i\<lparr>ai_Spec := (ai_Spec i)\<lparr>as_Schema := json\<rparr>\<rparr>)],
          Inr (ie_answer E (call (i\<lparr>ai_Spec := (ai_Spec i)\<lparr>as_Schema := json\<rparr>\<rparr>)) = None)))"
  by (cases "ie_encode E s")
    (simp_all add: send_import_def version_schema_def assms with_schema_def SetSchema_def okay_def andThen_def attempt_def lift_err_def)

text \<open>
  What one pulled CRD causes. Without an import of the type at this location one is created: named after the type and the location, owned by the sync
  target, with the schema, the subresources and the columns of the first version; with one import, it is sent with the schema of the first version and
  nothing else changed; with more than one, or if the schema cannot be encoded, nothing is sent.
\<close>

lemma import_crd_calls:
  assumes "crd_Versions c = v # vs" "cv_Schema v = Some s"
    and "ie_byGVR E (GetGVRForLocationIndexKey E (ie_syncTargetName E) r) = Inr objs"
    and "r = \<lparr>gvr_Group = crd_Group c, gvr_Version = cv_Name v, gvr_Resource = gr_Resource gr\<rparr>"
  shows "fst (import_crd E t g (gr, c)) =
     (case (ie_encode E s, objs) of
        (Inr json, []) \<Rightarrow>
          [ApiCreate ((new_import (ie_syncTargetName E) r c v)\<lparr>ai_Spec := (import_spec r c v)\<lparr>as_Schema := json\<rparr>\<rparr>) (clusterAsOwnerReference t)]
      | (Inr json, [i]) \<Rightarrow> [ApiUpdate (i\<lparr>ai_Spec := (ai_Spec i)\<lparr>as_Schema := json\<rparr>\<rparr>)]
      | _ \<Rightarrow> [])
    \<and> (\<exists>g'. snd (import_crd E t g (gr, c)) = Inr g')"
proof -
  have spec: "ai_Spec (new_import l r c v) = import_spec r c v" for l by (simp add: new_import_def)
  have run: "import_crd E t g (gr, c) =
     (if length objs > 1 then okay g
      else andThen (case objs of
          i # _ \<Rightarrow> send_import E v ApiUpdate i
        | [] \<Rightarrow> send_import E v (\<lambda>i. ApiCreate i (clusterAsOwnerReference t)) (new_import (ie_syncTargetName E) r c v)) (\<lambda>sent.
        okay (if sent then Some (go_put (ie_gvrString E r) r (entries g)) else g)))"
    using assms(1,3) by (simp add: import_crd_def flip: assms(4))
  consider "objs = []" | i where "objs = [i]" | i j rest where "objs = i # j # rest" by (metis neq_Nil_conv)
  then show ?thesis
    by cases (cases "ie_encode E s"; simp add: run send_import_spec [OF assms(2)] spec fst_andThen snd_andThen)+
qed

lemma created_import_found:
  assumes "nm_Plural (crd_Names c) = gvr_Resource r"
  shows "importer_indexes E ((new_import location r c v)\<lparr>ai_Spec := (import_spec r c v)\<lparr>as_Schema := json\<rparr>\<rparr>)
     = ([GetGVRForLocationIndexKey E location r], [GetLocationIndexKey location])"
  using assms by (cases r) (simp add: importer_indexes_def new_import_def import_spec_def import_GVR_def spec_GVR_def)

text \<open>An importer whose index is over the imports \<open>cache\<close>.\<close>

definition with_cache :: "api_import list \<Rightarrow> 's importer_env \<Rightarrow> 's importer_env" where
  "with_cache cache E = E\<lparr>ie_byGVR := \<lambda>key. Inr (filter (\<lambda>i. key \<in> set (fst (importer_indexes E i))) cache)\<rparr>"

lemma with_cache_simps [simp]:
  "ie_syncTargetName (with_cache cache E) = ie_syncTargetName E" "ie_encode (with_cache cache E) = ie_encode E"
  "GetGVRForLocationIndexKey (with_cache cache E) = GetGVRForLocationIndexKey E"
  "ie_byGVR (with_cache cache E) key = Inr (filter (\<lambda>i. key \<in> set (fst (importer_indexes E i))) cache)"
  by (simp_all add: with_cache_def fun_eq_iff GetGVRForLocationIndexKey_def)

text \<open>
  The import that a poll creates is found by the next poll. For a type that has no import at this location the poll sends one create request, and
  once the cache has the created import, a poll of the same CRD updates it and creates no second one.
\<close>

theorem import_created_once:
  assumes "crd_Versions c = v # vs" "cv_Schema v = Some s" "ie_encode E s = Inr json"
    and "r = \<lparr>gvr_Group = crd_Group c, gvr_Version = cv_Name v, gvr_Resource = gr_Resource gr\<rparr>" "nm_Plural (crd_Names c) = gr_Resource gr"
    and "\<forall>i \<in> set cache. GetGVRForLocationIndexKey E (ie_syncTargetName E) r \<notin> set (fst (importer_indexes E i))"
  shows "\<exists>created. fst (import_crd (with_cache cache E) t g (gr, c)) = [ApiCreate created (clusterAsOwnerReference t)]
     \<and> import_GVR created = r \<and> ai_Location created = ie_syncTargetName E \<and> as_Schema (ai_Spec created) = json
     \<and> fst (import_crd (with_cache (created # cache) E) t g' (gr, c)) = [ApiUpdate created]"
proof (intro exI conjI)
  let ?created = "(new_import (ie_syncTargetName E) r c v)\<lparr>ai_Spec := (import_spec r c v)\<lparr>as_Schema := json\<rparr>\<rparr>"
  let ?key = "GetGVRForLocationIndexKey E (ie_syncTargetName E) r"
  have idx: "fst (importer_indexes E ?created) = [?key]"
    using created_import_found [where c = c and r = r and E = E and location = "ie_syncTargetName E" and v = v and json = json] assms(4,5) by simp
  have none: "filter (\<lambda>i. ?key \<in> set (fst (importer_indexes E i))) cache = []" using assms(6) by (simp add: filter_empty_conv)
  show "fst (import_crd (with_cache cache E) t g (gr, c)) = [ApiCreate ?created (clusterAsOwnerReference t)]"
    using import_crd_calls [OF assms(1,2) _ assms(4), of "with_cache cache E" "[]" t g] assms(3) none by simp
  show "fst (import_crd (with_cache (?created # cache) E) t g' (gr, c)) = [ApiUpdate ?created]"
    using import_crd_calls [OF assms(1,2) _ assms(4), of "with_cache (?created # cache) E" "[?created]" t g'] assms(3) none idx by simp
qed (use assms(4,5) in \<open>simp_all add: new_import_def import_spec_def import_GVR_def spec_GVR_def\<close>)

section \<open>Examples\<close>

definition ex_offered :: "nat crd" where
  "ex_offered = \<lparr>Name = ''deployments.apps'', Namespace = [], Cluster = [], UID = [], ResourceVersion = [], Labels = None, Annotations = None,
     Finalizers = [], OwnerReferences = [], DeletionTimestamp = None, crd_Generation = 1, crd_Owners = [], crd_Group = ''apps'',
     crd_Names = \<lparr>nm_Plural = ''deployments'', nm_Singular = [], nm_ShortNames = [], nm_Kind = ''Deployment'', nm_ListKind = [], nm_Categories = []\<rparr>,
     crd_Scope = ''Namespaced'', crd_Versions = [\<lparr>cv_Name = ''v1'', cv_Served = True, cv_Storage = True, cv_Schema = Some (Some 7),
       cv_Subresources = None, cv_Columns = []\<rparr>], crd_Conditions = []\<rparr>"

definition ex_importer :: "nat importer_env" where
  "ex_importer = \<lparr>ie_syncTargetName = ''east'', ie_syncTargetUID = ''uid'', ie_resourcesToSync = [''deployments.apps''], ie_getSyncTarget = Inl NotFound,
     ie_PullCRDs = (\<lambda>_. Inl NotFound), ie_byGVR = (\<lambda>_. Inr []), ie_byLocation = (\<lambda>_. Inr []), ie_encode = (\<lambda>_. Inr ''{}''),
     ie_gvrString = gvr_Resource, ie_answer = (\<lambda>_. None)\<rparr>"

theorem import_created_once_witness:
  "\<exists>created. fst (import_crd (with_cache [] ex_importer) ex_target None (\<lparr>gr_Group = ''apps'', gr_Resource = ''deployments''\<rparr>, ex_offered))
        = [ApiCreate created (clusterAsOwnerReference ex_target)]
     \<and> fst (import_crd (with_cache [created] ex_importer) ex_target None (\<lparr>gr_Group = ''apps'', gr_Resource = ''deployments''\<rparr>, ex_offered)) = [ApiUpdate created]"
  using import_created_once [OF _ _ _ refl, of ex_offered _ "[]" "Some 7" ex_importer "''{}''" "\<lparr>gr_Group = ''apps'', gr_Resource = ''deployments''\<rparr>" "[]" ex_target None None]
  by (auto simp: ex_offered_def ex_importer_def)

end
