(* ===== verification/DNS_Plugin.thy ===== *)
theory DNS_Plugin
  imports Downstream_Cleaner
begin

text \<open>
  \<^verbatim>\<open>src/pkg/dns/plugin/nsmap\<close> and \<^verbatim>\<open>src/third_party/coredns/name.go\<close>: the plugin of the DNS server of a workspace. It replaces the
  logical namespace of a name by the physical one, by the table that the syncer keeps in a ConfigMap
  (\<open>Downstream_Cleaner\<close>), and takes the replacement back in the records of the response.

  The DNS server is the caller: the name of a request is in lower case, and \<open>state.Name()\<close> returns it also after the
  question has been replaced, since the library caches it.
\<close>

section \<open>The table\<close>

text \<open>
  \<open>updateFromConfigmap\<close> and the handlers of the watcher. A deleted ConfigMap is handed over as nil, and its data are read all the
  same.
\<close>

datatype map_event = MapAdded "smap" | MapUpdated "smap" | MapDeleted

definition updateFromConfigmap :: "smap option \<Rightarrow> go_error + smap" where
  "updateFromConfigmap cm = (case cm of None \<Rightarrow> Inl (Panic ''nil pointer dereference'') | Some data \<Rightarrow> Inr data)"

definition map_watcher :: "map_event \<Rightarrow> go_error + smap" where
  "map_watcher ev = updateFromConfigmap (case ev of MapAdded data \<Rightarrow> Some data | MapUpdated data \<Rightarrow> Some data | MapDeleted \<Rightarrow> None)"

section \<open>Rewriting a request\<close>

text \<open>A rule for the response: the name to look for and its replacement.\<close>

type_synonym remap = "string \<times> string"

definition rewriteString :: "remap \<Rightarrow> string \<Rightarrow> string" where
  "rewriteString r src = (if src = fst r then snd r else src)"

text \<open>
  \<open>Rewrite\<close>: no change, or the new name of the question and the remapping of the response. With two parts the third one is read
  out of range.
\<close>

definition ns_Rewrite :: "smap \<Rightarrow> string \<Rightarrow> go_error + (string \<times> remap) option" where
  "ns_Rewrite Namespaces name =
     (let parts = splitN (CHR ''.'') 3 name in
      if length parts < 2 then Inr None
      else if length parts = 3 \<and> \<not> has_prefix (parts ! 2) ''svc'' then Inr None
      else
        (let targetNs = go_str Namespaces (parts ! 1) in
         if targetNs = [] then Inr None
         else if length parts < 3 then Inl (Panic ''index out of range'')
         else
           (let replacement = parts ! 0 @ ''.'' @ targetNs @ ''.'' @ parts ! 2 in
            Inr (Some (replacement, (replacement, name))))))"

section \<open>Rewriting the response\<close>

text \<open>The records whose value is a name, and the others.\<close>

datatype rr_value = SRV string | MX string | CNAME string | NS string | DNAME string | NAPTR string | SOA string | OtherRR

record dns_rr =
  rr_Name :: string
  rr_Value :: rr_value

fun getRecordValueForRewrite :: "rr_value \<Rightarrow> string" where
  "getRecordValueForRewrite (SRV n) = n" | "getRecordValueForRewrite (MX n) = n" | "getRecordValueForRewrite (CNAME n) = n"
| "getRecordValueForRewrite (NS n) = n" | "getRecordValueForRewrite (DNAME n) = n" | "getRecordValueForRewrite (NAPTR n) = n"
| "getRecordValueForRewrite (SOA n) = n" | "getRecordValueForRewrite OtherRR = []"

fun setRewrittenRecordValue :: "string \<Rightarrow> rr_value \<Rightarrow> rr_value" where
  "setRewrittenRecordValue v (SRV n) = SRV v" | "setRewrittenRecordValue v (MX n) = MX v" | "setRewrittenRecordValue v (CNAME n) = CNAME v"
| "setRewrittenRecordValue v (NS n) = NS v" | "setRewrittenRecordValue v (DNAME n) = DNAME v" | "setRewrittenRecordValue v (NAPTR n) = NAPTR v"
| "setRewrittenRecordValue v (SOA n) = SOA v" | "setRewrittenRecordValue v OtherRR = OtherRR"

definition NameRewriterResponseRule :: "remap \<Rightarrow> dns_rr \<Rightarrow> dns_rr" where
  "NameRewriterResponseRule r rr = rr\<lparr>rr_Name := rewriteString r (rr_Name rr)\<rparr>"

definition ValueRewriterResponseRule :: "remap \<Rightarrow> dns_rr \<Rightarrow> dns_rr" where
  "ValueRewriterResponseRule r rr =
     (let v = getRecordValueForRewrite (rr_Value rr) in
      if v \<noteq> [] then
        (let new = rewriteString r v in
         if new \<noteq> v then rr\<lparr>rr_Value := setRewrittenRecordValue new (rr_Value rr)\<rparr> else rr)
      else rr)"

text \<open>
  \<open>ServeDNS\<close>: the next plugin answers the rewritten question, and the rules are applied to the records it returns, in
  order. \<open>next\<close> is that plugin, from the name of the question to the records.
\<close>

definition ServeDNS :: "smap \<Rightarrow> (string \<Rightarrow> dns_rr list) \<Rightarrow> string \<Rightarrow> go_error + dns_rr list" where
  "ServeDNS Namespaces next_plugin name =
     bindE (ns_Rewrite Namespaces name) (\<lambda>r.
       case r of
         None \<Rightarrow> Inr (next_plugin name)
       | Some (replacement, rule) \<Rightarrow>
           Inr (map (\<lambda>rr. ValueRewriterResponseRule rule (NameRewriterResponseRule rule rr)) (next_plugin replacement)))"

section \<open>Names with three parts\<close>

lemma split_three:
  assumes "CHR ''.'' \<notin> set a" "CHR ''.'' \<notin> set b"
  shows "splitN (CHR ''.'') 3 (a @ ''.'' @ b @ ''.'' @ c) = [a, b, c]"
  using splitN_step [OF assms(1), of 1 "b @ ''.'' @ c"] splitN_step [OF assms(2), of 0 c]
  by (simp add: numeral_3_eq_3)

lemma splitN_none:
  assumes "sep \<notin> set t"
  shows "splitN sep (Suc (Suc n)) t = [t]"
proof -
  have d: "dropWhile (\<lambda>c. c \<noteq> sep) t = []" using assms by (auto simp: dropWhile_eq_Nil_conv)
  show ?thesis by (simp only: splitN.simps d list.case)
qed

lemma splitN_three_cases:
  "splitN (CHR ''.'') 3 s = [s] \<and> CHR ''.'' \<notin> set s
   \<or> (\<exists>a b. s = a @ ''.'' @ b \<and> CHR ''.'' \<notin> set a \<and> CHR ''.'' \<notin> set b \<and> splitN (CHR ''.'') 3 s = [a, b])
   \<or> (\<exists>a b c. s = a @ ''.'' @ b @ ''.'' @ c \<and> CHR ''.'' \<notin> set a \<and> CHR ''.'' \<notin> set b \<and> splitN (CHR ''.'') 3 s = [a, b, c])"
proof -
  have cut: "CHR ''.'' \<notin> set t \<or> (\<exists>a b. t = a @ ''.'' @ b \<and> CHR ''.'' \<notin> set a)" for t
    by (metis append_Cons append_Nil split_list_first)
  note one = splitN_none
  show ?thesis
  proof (cases "CHR ''.'' \<in> set s")
    case False
    with one [of _ s 1] show ?thesis by (simp add: numeral_3_eq_3 del: splitN.simps)
  next
    case True
    with cut [of s] obtain a t where s: "s = a @ ''.'' @ t" "CHR ''.'' \<notin> set a" by blast
    show ?thesis
    proof (cases "CHR ''.'' \<in> set t")
      case False
      with s one [of _ t 0] splitN_step [OF s(2), of 1 t] show ?thesis by (force simp: numeral_3_eq_3 simp del: splitN.simps)
    next
      case True
      with cut [of t] obtain b c where t: "t = b @ ''.'' @ c" "CHR ''.'' \<notin> set b" by blast
      with s split_three [OF s(2) t(2), of c] show ?thesis by blast
    qed
  qed
qed

section \<open>Properties\<close>

lemma has_target:
  "ns_Rewrite table name = Inr (Some (replacement, rule)) \<longleftrightarrow>
     (\<exists>a n rest. name = a @ ''.'' @ n @ ''.'' @ rest \<and> CHR ''.'' \<notin> set a \<and> CHR ''.'' \<notin> set n \<and> has_prefix rest ''svc''
        \<and> go_str table n \<noteq> [] \<and> replacement = a @ ''.'' @ go_str table n @ ''.'' @ rest \<and> rule = (replacement, name))"
    (is "?l \<longleftrightarrow> ?r")
proof
  assume l: ?l
  from splitN_three_cases [of name] show ?r
  proof (elim disjE exE conjE)
    fix a n rest
    assume s: "name = a @ ''.'' @ n @ ''.'' @ rest" "CHR ''.'' \<notin> set a" "CHR ''.'' \<notin> set n" "splitN (CHR ''.'') 3 name = [a, n, rest]"
    with l have "has_prefix rest ''svc'' \<and> go_str table n \<noteq> [] \<and> replacement = a @ ''.'' @ go_str table n @ ''.'' @ rest \<and> rule = (replacement, name)"
      by (auto simp: ns_Rewrite_def Let_def split: if_splits)
    with s(1-3) show ?r by blast
  qed (use l in \<open>auto simp: ns_Rewrite_def Let_def split: if_splits\<close>)
next
  assume ?r
  then obtain a n rest where "name = a @ ''.'' @ n @ ''.'' @ rest" "CHR ''.'' \<notin> set a" "CHR ''.'' \<notin> set n" "has_prefix rest ''svc''"
    "go_str table n \<noteq> []" "replacement = a @ ''.'' @ go_str table n @ ''.'' @ rest" "rule = (replacement, name)" by blast
  with split_three [of a n rest] show ?l by (simp add: ns_Rewrite_def Let_def)
qed

text \<open>
  C33: the plugin is transparent. If the next plugin answers the physical name \<open>replacement\<close> with records whose names and values do not mention the
  logical name, then the client gets these records with the logical name in place of the
  physical one, both as owner and as value, and all else unchanged.
\<close>

theorem dns_answer_restored:
  assumes "ns_Rewrite table name = Inr (Some (replacement, rule))"
  shows "ServeDNS table next_plugin name = Inr (map (\<lambda>rr.
      \<lparr>rr_Name = (if rr_Name rr = replacement then name else rr_Name rr),
       rr_Value = (if getRecordValueForRewrite (rr_Value rr) = replacement then setRewrittenRecordValue name (rr_Value rr) else rr_Value rr)\<rparr>)
      (next_plugin replacement))"
proof -
  from assms obtain rest where r: "rule = (replacement, name)" "replacement \<noteq> []" by (auto simp: has_target)
  have "ValueRewriterResponseRule rule (NameRewriterResponseRule rule rr)
      = \<lparr>rr_Name = (if rr_Name rr = replacement then name else rr_Name rr),
         rr_Value = (if getRecordValueForRewrite (rr_Value rr) = replacement then setRewrittenRecordValue name (rr_Value rr) else rr_Value rr)\<rparr>" for rr
    using r by (cases rr; cases "rr_Value rr")
      (auto simp: ValueRewriterResponseRule_def NameRewriterResponseRule_def rewriteString_def Let_def)
  with assms show ?thesis by (simp add: ServeDNS_def)
qed

text \<open>
  A lookup stays in its workspace. Let the DNS server of a workspace have the table that the syncer has written for this workspace. Whenever
  the server rewrites a name, the new namespace is a downstream namespace whose locator names this workspace and the
  namespace of the original name.
\<close>

theorem lookup_stays_in_workspace:
  assumes "CMUpdate cm \<in> set (fst (updateDNSConfigMap C workspace))" "map_watcher (MapUpdated (Some (cm_Data cm))) = Inr table"
    and "ns_Rewrite table name = Inr (Some (replacement, rule))"
  shows "\<exists>a n rest nss ns l. name = a @ ''.'' @ n @ ''.'' @ rest \<and> replacement = a @ ''.'' @ Name (ns :: unstr) @ ''.'' @ rest
     \<and> de_listNamespaces C = Inr nss \<and> ns \<in> set nss
     \<and> LocatorFromAnnotations (de_json C) (Annotations ns) = Inr (Some l) \<and> nl_ClusterName l = workspace \<and> nl_Namespace l = n"
proof -
  obtain nss where nss: "de_listNamespaces C = Inr nss" "cm_Data cm = fold (dns_entry (de_json C) workspace) nss []"
    using updateDNSConfigMap_calls [OF assms(1)] by auto
  from assms(2) have t: "table = Some (cm_Data cm)" by (simp add: map_watcher_def updateFromConfigmap_def)
  from assms(3) obtain a n rest where r: "name = a @ ''.'' @ n @ ''.'' @ rest" "go_str table n \<noteq> []"
      "replacement = a @ ''.'' @ go_str table n @ ''.'' @ rest"
    by (auto simp: has_target)
  from r(2) t nss(2) have "map_of (fold (dns_entry (de_json C) workspace) nss []) n = Some (go_str table n)"
    by (auto simp: go_str_def go_get_def split: option.splits)
  from dns_table_sound [OF this] obtain ns l where "ns \<in> set nss" "Name ns = go_str table n"
      "LocatorFromAnnotations (de_json C) (Annotations ns) = Inr (Some l)" "nl_ClusterName l = workspace" "nl_Namespace l = n"
    by auto
  with nss(1) r(1,3) show ?thesis by metis
qed

text \<open>
  when the plugin panics. A name with exactly one dot whose second part is a key of the table makes \<open>Rewrite\<close> read a third part that
  does not exist; no other name does. A name that ends with a dot, as every question does, only panics for
  an empty namespace.
\<close>

theorem rewrite_panics_iff:
  "(\<exists>e. ns_Rewrite table name = Inl e) \<longleftrightarrow>
     (\<exists>a n. name = a @ ''.'' @ n \<and> CHR ''.'' \<notin> set a \<and> CHR ''.'' \<notin> set n \<and> go_str table n \<noteq> [])"
    (is "?l \<longleftrightarrow> ?r")
proof
  assume l: ?l
  from splitN_three_cases [of name] show ?r
  proof (elim disjE exE conjE)
    fix a n
    assume s: "name = a @ ''.'' @ n" "CHR ''.'' \<notin> set a" "CHR ''.'' \<notin> set n" "splitN (CHR ''.'') 3 name = [a, n]"
    with l have "go_str table n \<noteq> []" by (auto simp: ns_Rewrite_def Let_def split: if_splits)
    with s(1-3) show ?r by blast
  qed (use l in \<open>auto simp: ns_Rewrite_def Let_def split: if_splits\<close>)
next
  assume ?r
  then obtain a n where r: "name = a @ ''.'' @ n" "CHR ''.'' \<notin> set a" "CHR ''.'' \<notin> set n" "go_str table n \<noteq> []" by blast
  have "splitN (CHR ''.'') (Suc (Suc 0)) n = [n]" by (rule splitN_none [OF r(3)])
  with splitN_step [OF r(2), of 1 n] r(1) have "splitN (CHR ''.'') 3 name = [a, n]" by (simp add: numeral_3_eq_3 del: splitN.simps)
  with r(4) show ?l by (simp add: ns_Rewrite_def Let_def)
qed

section \<open>Examples\<close>

theorem dns_answer_restored_witness:
  "ServeDNS (Some [(''shop'', ''kcp-1'')]) (\<lambda>q. [\<lparr>rr_Name = q, rr_Value = OtherRR\<rparr>, \<lparr>rr_Name = ''x.'', rr_Value = CNAME q\<rparr>]) ''cart.shop.svc.''
     = Inr [\<lparr>rr_Name = ''cart.shop.svc.'', rr_Value = OtherRR\<rparr>, \<lparr>rr_Name = ''x.'', rr_Value = CNAME ''cart.shop.svc.''\<rparr>]"
proof -
  have "ns_Rewrite (Some [(''shop'', ''kcp-1'')]) ''cart.shop.svc.'' = Inr (Some (''cart.kcp-1.svc.'', (''cart.kcp-1.svc.'', ''cart.shop.svc.'')))"
    by (simp add: ns_Rewrite_def numeral_3_eq_3 has_prefix_def go_str_def go_get_def Let_def)
  from dns_answer_restored [OF this] show ?thesis by simp
qed

theorem lookup_stays_in_workspace_witness:
  "\<exists>nss ns l. de_listNamespaces ex_downstream_env = Inr nss \<and> ns \<in> set nss
     \<and> LocatorFromAnnotations (de_json ex_downstream_env) (Annotations ns) = Inr (Some l) \<and> nl_ClusterName l = ''user''"
proof -
  have cm: "CMUpdate ex_dns_table \<in> set (fst (updateDNSConfigMap ex_downstream_env ''user''))"
    by (simp add: ex_downstream_defs updateDNSConfigMap_def dns_entry_def LocatorFromAnnotations_def
      NewNamespaceLocator_def GetDNSID_def send_call_def andThen_def lift_err_def go_str_def go_get_def go_put_def Let_def)
  have w: "map_watcher (MapUpdated (Some (cm_Data ex_dns_table))) = Inr (Some [(''shop'', ''kcp-1'')])"
    by (simp add: map_watcher_def updateFromConfigmap_def ex_dns_table_def)
  have r: "ns_Rewrite (Some [(''shop'', ''kcp-1'')]) ''cart.shop.svc.'' = Inr (Some (''cart.kcp-1.svc.'', (''cart.kcp-1.svc.'', ''cart.shop.svc.'')))"
    by (simp add: ns_Rewrite_def numeral_3_eq_3 has_prefix_def go_str_def go_get_def Let_def)
  from lookup_stays_in_workspace [OF cm w r] show ?thesis by blast
qed

end
