(* ===== verification/Admin_Commands.thy ===== *)
theory Admin_Commands
  imports Workload_Placement API_Calls
begin

text \<open>
  The commands with which an administrator takes a sync target out of use and into use again (\<^verbatim>\<open>cordon\<close>, \<^verbatim>\<open>uncordon\<close> and
  \<^verbatim>\<open>drain\<close> of \<^verbatim>\<open>src/pkg/cliplugins/workload/plugin/workload.go\<close>), and the command that binds a workspace to the compute
  service (\<^verbatim>\<open>src/pkg/cliplugins/bind/plugin/bind_compute.go\<close>). Flags, text output and waiting are left out.

  Parameters: the layout of times, the answers of the server, paths of logical clusters, and the messages of conditions.
\<close>

section \<open>Cordon and drain\<close>

text \<open>The operations of the JSON patches that the commands send.\<close>

datatype target_patch_op = ReplaceUnschedulable bool | ReplaceEvictAfter string | RemoveEvictAfter

datatype target_call = TargetPatch string "target_patch_op list"

record target_server =
  ts_get :: "string \<Rightarrow> go_error + sync_target"
  ts_answer :: "target_call \<Rightarrow> go_error option"

definition validate_target :: "string \<Rightarrow> go_error option" where
  "validate_target syncTarget = (if syncTarget = [] then Some (Failure ''sync target name is required'') else None)"

definition CordonOptions_Run :: "target_server \<Rightarrow> bool \<Rightarrow> string \<Rightarrow> (target_call, unit) calls" where
  "CordonOptions_Run S cordon name =
     andThen (lift_err (ts_get S name)) (\<lambda>syncTarget.
     if cordon \<and> Unschedulable (st_Spec syncTarget) then okay ()
     else if \<not> cordon \<and> \<not> Unschedulable (st_Spec syncTarget) then okay ()
     else send_call (ts_answer S) (TargetPatch name
       (if cordon then [ReplaceUnschedulable True]
        else ReplaceUnschedulable False # (if EvictAfter (st_Spec syncTarget) \<noteq> None then [RemoveEvictAfter] else []))))"

definition DrainOptions_Run :: "rfc3339 \<Rightarrow> target_server \<Rightarrow> time \<Rightarrow> string \<Rightarrow> (target_call, unit) calls" where
  "DrainOptions_Run R S now name =
     andThen (lift_err (ts_get S name)) (\<lambda>syncTarget.
     if EvictAfter (st_Spec syncTarget) \<noteq> None \<and> Unschedulable (st_Spec syncTarget) then okay ()
     else send_call (ts_answer S) (TargetPatch name [ReplaceUnschedulable True, ReplaceEvictAfter (fmt_time R now)]))"

text \<open>The effect of an accepted patch.\<close>

definition patch_op_effect :: "rfc3339 \<Rightarrow> target_patch_op \<Rightarrow> sync_target \<Rightarrow> sync_target" where
  "patch_op_effect R op st = st\<lparr>st_Spec :=
     (case op of
        ReplaceUnschedulable b \<Rightarrow> (st_Spec st)\<lparr>Unschedulable := b\<rparr>
      | ReplaceEvictAfter s \<Rightarrow> (st_Spec st)\<lparr>EvictAfter := Some (parsed_or_zero R s)\<rparr>
      | RemoveEvictAfter \<Rightarrow> (st_Spec st)\<lparr>EvictAfter := None\<rparr>)\<rparr>"

definition target_call_effect :: "rfc3339 \<Rightarrow> target_call \<Rightarrow> sync_target \<Rightarrow> sync_target" where
  "target_call_effect R c st = (case c of TargetPatch name ops \<Rightarrow> if name = Name st then fold (patch_op_effect R) ops st else st)"

text \<open>One command of an administrator, or a change of the labels or the status by somebody else.\<close>

definition serves :: "target_server \<Rightarrow> sync_target \<Rightarrow> bool" where
  "serves S st \<longleftrightarrow> ts_get S (Name st) = Inr st"

inductive admin_step :: "rfc3339 \<Rightarrow> sync_target \<Rightarrow> sync_target \<Rightarrow> bool" for R where
  Cordon: "serves S st \<Longrightarrow> snd (CordonOptions_Run S cordon (Name st)) = Inr () \<Longrightarrow>
     admin_step R st (fold (target_call_effect R) (fst (CordonOptions_Run S cordon (Name st))) st)"
| Drain: "serves S st \<Longrightarrow> snd (DrainOptions_Run R S now (Name st)) = Inr () \<Longrightarrow>
     admin_step R st (fold (target_call_effect R) (fst (DrainOptions_Run R S now (Name st))) st)"
| Other: "admin_step R st (st\<lparr>Labels := labels, ResourceVersion := rv, st_Status := status\<rparr>)"

abbreviation admin_reachable :: "rfc3339 \<Rightarrow> sync_target \<Rightarrow> sync_target \<Rightarrow> bool" where
  "admin_reachable R \<equiv> (admin_step R)\<^sup>*\<^sup>*"

inductive_cases admin_stepE: "admin_step R st st'"

section \<open>Binding to compute\<close>

record bound_api = object_meta +
  ba_Export :: "(string \<times> string) option"      \<comment> \<open>path and name; \<open>None\<close> is the nil pointer\<close>
  ba_Phase :: string
  ba_Conditions :: conditions

record bind_lib =
  bl_Join :: "string \<Rightarrow> string \<Rightarrow> string"
  bl_Split :: "string \<Rightarrow> string \<times> string"
  bl_RequestPath :: "string \<Rightarrow> string"
  bl_hash36 :: "string \<Rightarrow> string"                      \<comment> \<open>base 36 of SHA-224, in lower case\<close>
  bl_GetMessage :: "conditions \<Rightarrow> string \<Rightarrow> string"
  bl_PathAnnotation :: string
  bl_diff_order :: "string list \<Rightarrow> string list"

definition placementReadyAndScheduled :: "cond_lib \<Rightarrow> bind_lib \<Rightarrow> placement \<Rightarrow> bool \<times> string" where
  "placementReadyAndScheduled cl B p =
     (let cs = p_Conditions (p_Status p);
          because = (\<lambda>prefix t. let msg = bl_GetMessage B cs t in if msg \<noteq> [] then prefix @ '': '' @ msg else prefix) in
      if \<not> IsTrue cl cs PlacementScheduled then (False, because ''placement is not scheduled'' PlacementScheduled)
      else if \<not> IsTrue cl cs PlacementReady then (False, because ''placement is not ready'' PlacementReady)
      else (True, []))"

text \<open>The first binding that is not bound decides; its reference is dereferenced for the message.\<close>

fun bindingsReady :: "cond_lib \<Rightarrow> bind_lib \<Rightarrow> bound_api list \<Rightarrow> go_error + (bool \<times> string)" where
  "bindingsReady cl B [] = Inr (True, [])"
| "bindingsReady cl B (b # bs) =
     (if ba_Phase b = ''Bound'' then bindingsReady cl B bs
      else
        (let msg = (if IsFalse cl (ba_Conditions b) ''InitialBindingCompleted'' then bl_GetMessage B (ba_Conditions b) ''InitialBindingCompleted''
            else if IsFalse cl (ba_Conditions b) ''APIExportValid'' then bl_GetMessage B (ba_Conditions b) ''APIExportValid''
            else ''unknown reason'') in
         case ba_Export b of
           None \<Rightarrow> Inl (Panic ''nil pointer dereference'')
         | Some (path, name) \<Rightarrow>
             Inr (False, ''APIBinding '' @ Name b @ '' is not bound to APIExport ''
               @ (if path = [] then ''local APIExport '' @ name else ''APIExport '' @ bl_Join B path name) @ '' yet: '' @ msg)))"

definition maxBindingNamePrefixLength :: nat where "maxBindingNamePrefixLength = 253 - 1 - 8"

definition apiBindingName :: "bind_lib \<Rightarrow> string \<Rightarrow> string \<Rightarrow> go_error + string" where
  "apiBindingName B clusterName apiExportName =
     (let prefix = take (min (length apiExportName) maxBindingNamePrefixLength) apiExportName;
          h = bl_hash36 B (bl_RequestPath B clusterName) in
      if length h < 8 then Inl (Panic ''slice bounds out of range'') else Inr (prefix @ ''-'' @ take 8 h))"

definition placement_name :: "bind_lib \<Rightarrow> string \<Rightarrow> string list \<Rightarrow> string \<Rightarrow> go_error + string" where
  "placement_name B namespaceSelector locationSelectors locationWorkspace =
     (let h = bl_hash36 B (namespaceSelector @ join '','' locationSelectors @ locationWorkspace) in
      if length h < 8 then Inl (Panic ''slice bounds out of range'') else Inr (''placement-'' @ take 8 h))"

datatype bind_call = BindingsList | LogicalClusterGet | BindingCreate string string string | PlacementCreate placement

record bind_server =
  bs_bindings :: "go_error + bound_api list"
  bs_logicalCluster :: "go_error + object_meta"
  bs_answer :: "bind_call \<Rightarrow> go_error option"
  bs_returned :: "bind_call \<Rightarrow> bound_api"             \<comment> \<open>the object that \<open>Create\<close> returns, also next to an error\<close>

text \<open>The variables of the loop over the bindings: the local cluster, its path, and the exports that are bound.\<close>

type_synonym bind_scan = "string \<times> string \<times> string list"

definition scan_binding :: "bind_lib \<Rightarrow> bind_server \<Rightarrow> bind_scan \<Rightarrow> bound_api \<Rightarrow> (bind_call, bind_scan) calls" where
  "scan_binding B S acc b =
     (case acc of (localCluster, localPath, existing) \<Rightarrow>
      case ba_Export b of
        None \<Rightarrow> okay acc
      | Some (exportPath, name) \<Rightarrow>
          (let path = (if exportPath = [] then Cluster b else exportPath);
               existing1 = set_insert (bl_Join B path name) existing in
           andThen (if localPath = []
             then andThen (emit LogicalClusterGet) (\<lambda>_. andThen (lift_err (bs_logicalCluster S)) (\<lambda>c. okay (go_str (Annotations c) (bl_PathAnnotation B))))
             else okay localPath) (\<lambda>localPath'.
           okay (Cluster b, localPath', if localPath' \<noteq> [] then set_insert (bl_Join B localPath' name) existing1 else existing1))))"

definition desired_exports :: "bind_lib \<Rightarrow> string \<Rightarrow> string list \<Rightarrow> string list" where
  "desired_exports B localCluster desired =
     (if localCluster = [] then fold set_insert desired []
      else fold (\<lambda>e acc. case bl_Split B e of (path, name) \<Rightarrow> set_insert (bl_Join B (if path = [] then localCluster else path) name) acc) desired [])"

text \<open>One missing export: the errors so far and the bindings so far.\<close>

definition create_binding ::
  "bind_lib \<Rightarrow> bind_server \<Rightarrow> string \<Rightarrow> bound_api list \<times> go_error list \<Rightarrow> string \<Rightarrow> (bind_call, bound_api list \<times> go_error list) calls" where
  "create_binding B S localCluster acc e =
     (case bl_Split B e of (exportPath, name) \<Rightarrow>
      let path = (if exportPath = localCluster then [] else exportPath) in
      andThen (lift_err (apiBindingName B path name)) (\<lambda>bindingName.
      let c = BindingCreate bindingName path name in
      andThen (attempt (bs_answer S) c) (\<lambda>err.
      if err \<noteq> None \<and> err \<noteq> Some AlreadyExists then okay (fst acc, snd acc @ [the err])
      else okay (fst acc @ [bs_returned S c], snd acc))))"

definition applyAPIBinding :: "bind_lib \<Rightarrow> bind_server \<Rightarrow> string list \<Rightarrow> (bind_call, bound_api list \<times> go_error list) calls" where
  "applyAPIBinding B S desired =
     andThen (emit BindingsList) (\<lambda>_. andThen (lift_err (bs_bindings S)) (\<lambda>items.
     andThen (fold_calls (scan_binding B S) ([], [], []) items) (\<lambda>(localCluster, _, existing).
     fold_calls (create_binding B S localCluster) ([], [])
       (bl_diff_order B (filter (\<lambda>e. e \<notin> set existing) (desired_exports B localCluster desired))))))"

definition applyPlacement :: "bind_server \<Rightarrow> placement \<Rightarrow> (bind_call, unit) calls" where
  "applyPlacement S p =
     andThen (attempt (bs_answer S) (PlacementCreate p)) (\<lambda>err.
     if err = None \<or> err = Some AlreadyExists then okay () else fail (the err))"

section \<open>Lemmas on cordon and drain\<close>

lemma cordon_calls:
  assumes "serves S st"
  shows "fst (CordonOptions_Run S cordon (Name st)) =
    (if cordon = Unschedulable (st_Spec st) then []
     else [TargetPatch (Name st) (if cordon then [ReplaceUnschedulable True]
       else ReplaceUnschedulable False # (if EvictAfter (st_Spec st) \<noteq> None then [RemoveEvictAfter] else []))])"
  using assms by (auto simp: CordonOptions_Run_def serves_def)

lemma drain_calls:
  assumes "serves S st"
  shows "fst (DrainOptions_Run R S now (Name st)) =
    (if EvictAfter (st_Spec st) \<noteq> None \<and> Unschedulable (st_Spec st) then []
     else [TargetPatch (Name st) [ReplaceUnschedulable True, ReplaceEvictAfter (fmt_time R now)]])"
  using assms by (auto simp: DrainOptions_Run_def serves_def)

lemma cordon_effect:
  assumes "serves S st"
  shows "st_Spec (fold (target_call_effect R) (fst (CordonOptions_Run S cordon (Name st))) st) =
    (st_Spec st)\<lparr>Unschedulable := cordon,
       EvictAfter := (if \<not> cordon \<and> Unschedulable (st_Spec st) then None else EvictAfter (st_Spec st))\<rparr>"
  by (auto simp: cordon_calls [OF assms] target_call_effect_def patch_op_effect_def)

lemma drain_effect:
  assumes "serves S st"
  shows "st_Spec (fold (target_call_effect R) (fst (DrainOptions_Run R S now (Name st))) st) =
    (if EvictAfter (st_Spec st) \<noteq> None \<and> Unschedulable (st_Spec st) then st_Spec st
     else (st_Spec st)\<lparr>Unschedulable := True, EvictAfter := Some (parsed_or_zero R (fmt_time R now))\<rparr>)"
  by (auto simp: drain_calls [OF assms] target_call_effect_def patch_op_effect_def)

lemma effect_meta [simp]:
  "Name (patch_op_effect R op st) = Name st" "Name (fold (patch_op_effect R) ops st) = Name st"
proof -
  show one: "Name (patch_op_effect R op st) = Name st" for op st by (simp add: patch_op_effect_def)
  show "Name (fold (patch_op_effect R) ops st) = Name st" by (induction ops arbitrary: st) (simp_all add: one)
qed

lemma call_effect_meta [simp]:
  "Name (target_call_effect R c st) = Name st" "Name (fold (target_call_effect R) cs st) = Name st"
proof -
  show one: "Name (target_call_effect R c st) = Name st" for c st by (cases c) (simp add: target_call_effect_def)
  show "Name (fold (target_call_effect R) cs st) = Name st" by (induction cs arbitrary: st) (simp_all add: one)
qed

section \<open>Properties of cordon and drain\<close>

text \<open>
  A target that an accepted \<open>drain\<close> named at time \<open>t\<close>, and that nobody was evicting before, is out of use from then on: it is
  no candidate for new placements at any time, and from \<open>t\<close> on it is one that namespaces are moved away from. In particular
  no target of a location's valid ones is the drained one.
\<close>

theorem drained_target_not_used:
  assumes laws: "rfc3339_laws R" and t: "0 \<le> t" "t < year_10000" and srv: "serves S st" "EvictAfter (st_Spec st) = None"
    and st': "st' = fold (target_call_effect R) (fst (DrainOptions_Run R S t (Name st))) st" and now: "t \<le> now"
  shows "\<not> is_ready cl st' \<and> \<not> non_evicting now st' \<and> st' \<notin> set (FilterReady cl sts) \<and> st' \<notin> set (FilterNonEvicting now sts)"
proof -
  have spec: "Unschedulable (st_Spec st')" "EvictAfter (st_Spec st') = Some (second * (t div second))"
    using srv laws t by (auto simp: st' drain_effect parsed_or_zero_def rfc3339_laws_def)
  have "second * (t div second) \<le> t" by (simp add: second_def) 
  with spec now have "\<not> is_ready cl st'" "\<not> non_evicting now st'" by (auto simp: is_ready_def non_evicting_def)
  then show ?thesis by (simp add: ready.set_flt nonevict.set_flt)
qed

text \<open>
  From a target that nobody evicts, whatever cordons, uncordons and drains are accepted in whatever order, with labels and
  status changing in between: a target is only ever evicting while it is also unschedulable, so that no placement is given a target that is
  being emptied.
\<close>

theorem evicting_targets_cordoned:
  assumes "admin_reachable R st st'" "EvictAfter (st_Spec st) = None"
  shows "EvictAfter (st_Spec st') \<noteq> None \<longrightarrow> Unschedulable (st_Spec st')"
  using assms(1)
proof (induction rule: rtranclp_induct)
  case base
  with assms(2) show ?case by simp
next
  case (step y z)
  from step.hyps(2) step.IH show ?case
    by (elim admin_stepE) (auto simp: cordon_effect drain_effect)
qed

text \<open>
  The commands are idempotent: when a \<open>cordon\<close>, an \<open>uncordon\<close> or a \<open>drain\<close> is repeated on the target as the first one left it, it
  reports success and sends nothing, even when the server would refuse; and \<open>uncordon\<close> takes back both changes of a \<open>drain\<close>.
\<close>

theorem admin_commands_idempotent:
  assumes "serves S st" "serves S1 st1" "serves S2 st2" "serves S3 st1"
    and "st1 = fold (target_call_effect R) (fst (CordonOptions_Run S cordon (Name st))) st"
    and "st2 = fold (target_call_effect R) (fst (DrainOptions_Run R S now (Name st))) st"
    and "st3 = fold (target_call_effect R) (fst (CordonOptions_Run S2 False (Name st2))) st2"
  shows "CordonOptions_Run S1 cordon (Name st) = okay () \<and> DrainOptions_Run R S2 now' (Name st) = okay ()
    \<and> \<not> Unschedulable (st_Spec st3) \<and> EvictAfter (st_Spec st3) = None"
proof -
  have n: "Name st1 = Name st" "Name st2 = Name st" by (simp_all add: assms(5,6))
  have 1: "Unschedulable (st_Spec st1) = cordon" using assms(1) by (simp add: assms(5) cordon_effect)
  have 2: "Unschedulable (st_Spec st2)" "EvictAfter (st_Spec st2) \<noteq> None"
    using assms(1) by (auto simp: assms(6) drain_effect)
  have 3: "\<not> Unschedulable (st_Spec st3)" "EvictAfter (st_Spec st3) = None"
    using 2 assms(3) by (simp_all add: assms(7) cordon_effect)
  from 1 2 3 assms(2,3) n show ?thesis
    by (auto simp: CordonOptions_Run_def DrainOptions_Run_def serves_def)
qed

definition ex_admin :: "sync_target \<Rightarrow> target_server" where
  "ex_admin st = \<lparr>ts_get = (\<lambda>n. if n = Name st then Inr st else Inl NotFound), ts_answer = (\<lambda>_. None)\<rparr>"

lemma ex_admin_serves [simp]: "serves (ex_admin st) st"
  by (simp add: serves_def ex_admin_def)

definition ex_drained :: sync_target where
  "ex_drained = fold (target_call_effect basic_rfc3339) (fst (DrainOptions_Run basic_rfc3339 (ex_admin ex_target) (5 * second) (Name ex_target))) ex_target"

lemma ex_target_fresh [simp]: "EvictAfter (st_Spec ex_target) = None" "\<not> Unschedulable (st_Spec ex_target)"
  by (simp_all add: ex_target_def object_meta.defs)

theorem drained_target_not_used_witness:
  "is_ready basic_conditions ex_target \<and> non_evicting (5 * second) ex_target
   \<and> FilterReady basic_conditions [ex_target, ex_drained] = [ex_target]
   \<and> FilterNonEvicting (5 * second) [ex_target, ex_drained] = [ex_target]"
proof -
  have "\<not> is_ready basic_conditions ex_drained \<and> \<not> non_evicting (5 * second) ex_drained"
    using drained_target_not_used [OF basic_rfc3339_laws _ _ ex_admin_serves ex_target_fresh(1) refl, of "5 * second" "5 * second" basic_conditions "[]"]
    by (simp add: ex_drained_def second_def year_10000_def)
  moreover have "is_ready basic_conditions ex_target" "non_evicting (5 * second) ex_target"
    by (simp_all add: is_ready_def non_evicting_def has_status_def instance_defs ex_object_defs)
  ultimately show ?thesis by simp
qed

theorem evicting_targets_cordoned_witness:
  "\<exists>st' :: sync_target. EvictAfter (st_Spec st') = Some (5 * second) \<and> Unschedulable (st_Spec st')
     \<and> admin_step basic_rfc3339 ex_target st'"
proof -
  have "snd (DrainOptions_Run basic_rfc3339 (ex_admin ex_target) (5 * second) (Name ex_target)) = Inr ()"
    by (simp add: DrainOptions_Run_def ex_admin_def snd_andThen)
  from admin_step.Drain [OF ex_admin_serves this] have s: "admin_step basic_rfc3339 ex_target ex_drained"
    by (simp add: ex_drained_def)
  have e: "EvictAfter (st_Spec ex_drained) = Some (5 * second)"
    by (simp add: ex_drained_def drain_effect parsed_or_zero_def basic_rfc3339_def second_def)
  from evicting_targets_cordoned [OF r_into_rtranclp [of "admin_step basic_rfc3339", OF s] ex_target_fresh(1)] e s show ?thesis by auto
qed

theorem admin_commands_idempotent_witness:
  "DrainOptions_Run basic_rfc3339 (ex_admin ex_drained) 0 (Name ex_target) = okay ()"
  using admin_commands_idempotent [OF ex_admin_serves ex_admin_serves ex_admin_serves ex_admin_serves refl refl refl,
      of basic_rfc3339 ex_target True "5 * second" 0]
  by (simp add: ex_drained_def)

section \<open>Lemmas on binding\<close>

definition binding_of :: "bind_lib \<Rightarrow> string \<Rightarrow> string \<Rightarrow> bind_call \<Rightarrow> bool" where
  "binding_of B lc e c \<longleftrightarrow>
     (\<exists>x. c = BindingCreate x (if fst (bl_Split B e) = lc then [] else fst (bl_Split B e)) (snd (bl_Split B e)))"

lemma create_binding_sends: "sends (binding_of B lc e) (create_binding B S lc acc e)"
  by (auto simp: create_binding_def Let_def binding_of_def split: prod.splits if_splits intro!: sends_andThen)

lemma creates_calls:
  assumes "c \<in> set (fst (fold_calls (create_binding B S lc) acc es))"
  shows "\<exists>e \<in> set es. binding_of B lc e c"
proof -
  have "sends (\<lambda>c. \<exists>e \<in> set es. binding_of B lc e c) (fold_calls (create_binding B S lc) acc es)"
    by (rule sends_fold_calls) (use create_binding_sends in \<open>fastforce simp: sends_def\<close>)
  then show ?thesis using assms by (rule sendsD)
qed

lemma scan_no_creates: "BindingCreate x p n \<notin> set (fst (fold_calls (scan_binding B S) acc bs))"
  by (induction bs arbitrary: acc)
     (auto simp: in_andThen scan_binding_def Let_def split: prod.splits option.splits if_splits)

lemma scan_keeps:
  assumes "snd (scan_binding B S (lc, lp, ex) b) = Inr (lc', lp', ex')"
  shows "set ex \<subseteq> set ex'" "lp \<noteq> [] \<Longrightarrow> lp' = lp"
  using assms by (auto simp: scan_binding_def Let_def snd_andThen split: option.splits if_splits sum.splits)

lemma scans_keep:
  assumes "snd (fold_calls (scan_binding B S) (lc, lp, ex) bs) = Inr (lc', lp', ex')"
  shows "set ex \<subseteq> set ex'"
  using assms
proof (induction bs arbitrary: lc lp ex)
  case (Cons b bs)
  then obtain lc1 lp1 ex1 where 1: "snd (scan_binding B S (lc, lp, ex) b) = Inr (lc1, lp1, ex1)"
    "snd (fold_calls (scan_binding B S) (lc1, lp1, ex1) bs) = Inr (lc', lp', ex')"
    by (auto simp: ok_andThen)
  with scan_keeps(1) [OF 1(1)] Cons.IH [OF 1(2)] show ?case by blast
qed simp

lemma scan_marks:
  assumes "snd (scan_binding B S (lc, lp, ex) b) = Inr (lc', lp', ex')" "ba_Export b = Some (p, n)"
    and "bs_logicalCluster S = Inr c" "go_str (Annotations c) (bl_PathAnnotation B) = home" "home \<noteq> []" "lp = [] \<or> lp = home"
  shows "bl_Join B (if p = [] then Cluster b else p) n \<in> set ex'" "bl_Join B home n \<in> set ex'"
  using assms by (auto simp: scan_binding_def Let_def snd_andThen split: if_splits)

lemma scan_path:
  assumes "snd (scan_binding B S (lc, lp, ex) b) = Inr (lc', lp', ex')" "bs_logicalCluster S = Inr c"
    "go_str (Annotations c) (bl_PathAnnotation B) = home" "lp = [] \<or> lp = home"
  shows "lp' = [] \<or> lp' = home"
  using assms by (auto simp: scan_binding_def Let_def snd_andThen split: option.splits if_splits)

lemma scans_mark:
  assumes "snd (fold_calls (scan_binding B S) (lc, lp, ex) bs) = Inr (lc', lp', ex')" "b \<in> set bs" "ba_Export b = Some (p, n)"
    and "bs_logicalCluster S = Inr c" "go_str (Annotations c) (bl_PathAnnotation B) = home" "home \<noteq> []" "lp = [] \<or> lp = home"
  shows "bl_Join B (if p = [] then Cluster b else p) n \<in> set ex' \<and> bl_Join B home n \<in> set ex'"
  using assms(1,2,7)
proof (induction bs arbitrary: lc lp ex)
  case (Cons a bs)
  from Cons.prems(1) obtain lc1 lp1 ex1 where 1: "snd (scan_binding B S (lc, lp, ex) a) = Inr (lc1, lp1, ex1)"
    "snd (fold_calls (scan_binding B S) (lc1, lp1, ex1) bs) = Inr (lc', lp', ex')"
    by (auto simp: ok_andThen)
  from scan_path [OF 1(1) assms(4,5) Cons.prems(3)] have lp1: "lp1 = [] \<or> lp1 = home" .
  show ?case
  proof (cases "a = b")
    case True
    with scan_marks [OF 1(1) _ assms(4-6) Cons.prems(3)] assms(3) scans_keep [OF 1(2)] show ?thesis by blast
  next
    case False
    with Cons.IH [OF 1(2) _ lp1] Cons.prems(2) show ?thesis by simp
  qed
qed simp

lemma applyAPIBinding_create:
  assumes "BindingCreate x path name \<in> set (fst (applyAPIBinding B S desired))"
  obtains items lc lp existing e where "bs_bindings S = Inr items"
    "snd (fold_calls (scan_binding B S) ([], [], []) items) = Inr (lc, lp, existing)"
    "e \<in> set (bl_diff_order B (filter (\<lambda>e. e \<notin> set existing) (desired_exports B lc desired)))"
    "name = snd (bl_Split B e)" "path = (if fst (bl_Split B e) = lc then [] else fst (bl_Split B e))"
  using assms
  by (auto simp: applyAPIBinding_def in_andThen scan_no_creates binding_of_def split: prod.splits dest!: creates_calls)

definition bind_laws :: "bind_lib \<Rightarrow> bool" where
  "bind_laws B \<longleftrightarrow> (\<forall>e. bl_Join B (fst (bl_Split B e)) (snd (bl_Split B e)) = e) \<and> (\<forall>es. set (bl_diff_order B es) = set es)"

section \<open>Properties of binding to compute\<close>

text \<open>
  Every name that \<open>apiBindingName\<close> returns is one the API server takes: at most 253 characters, whatever the length of the
  export's name, and it ends in the eight digits of the workspace's hash, so that bindings to exports of one name in workspaces of different
  hashes have different names.
\<close>

theorem binding_name_bounds:
  assumes "apiBindingName B c n = Inr s" "apiBindingName B c' n = Inr s'"
  shows "length s \<le> 253 \<and> (s = s' \<longleftrightarrow> take 8 (bl_hash36 B (bl_RequestPath B c)) = take 8 (bl_hash36 B (bl_RequestPath B c')))"
  using assms by (auto simp: apiBindingName_def Let_def maxBindingNamePrefixLength_def split: if_splits)

text \<open>
  \<open>bind compute\<close> binds nothing twice: it creates no binding to an export, named by its path, that a binding of the workspace already refers to
  with that path. But it also takes every bound name for a local one: next to a binding to the export
  \<open>n\<close> of any other workspace, no binding to the export \<open>n\<close> of the workspace's own path is created, though nothing is bound to it.
\<close>

theorem bound_name_shadows_local_export:
  assumes laws: "bind_laws B" and items: "bs_bindings S = Inr items" "b \<in> set items" "ba_Export b = Some (p, n)" "p \<noteq> []"
    and home: "bs_logicalCluster S = Inr c" "go_str (Annotations c) (bl_PathAnnotation B) = home" "home \<noteq> []"
    and call: "BindingCreate x path name \<in> set (fst (applyAPIBinding B S desired))" "path \<noteq> []"
  shows "(path, name) \<noteq> (p, n) \<and> (path, name) \<noteq> (home, n)"
proof -
  from call(1) obtain lc lp existing e where
    s: "snd (fold_calls (scan_binding B S) ([], [], []) items) = Inr (lc, lp, existing)"
    and e: "e \<in> set (bl_diff_order B (filter (\<lambda>e. e \<notin> set existing) (desired_exports B lc desired)))"
    "name = snd (bl_Split B e)" "path = (if fst (bl_Split B e) = lc then [] else fst (bl_Split B e))"
    using items(1) by (auto elim: applyAPIBinding_create)
  from e(1) laws have "e \<notin> set existing" by (auto simp: bind_laws_def)
  moreover from e(2,3) call(2) laws have "bl_Join B path name = e" by (auto simp: bind_laws_def split: if_splits)
  ultimately show ?thesis
    using scans_mark [OF s items(2,3) home] items(4) by auto
qed

lemma bindingsReady_panics:
  assumes "bs \<noteq> []" "\<And>b. b \<in> set bs \<Longrightarrow> ba_Phase b \<noteq> ''Bound'' \<and> ba_Export b = None"
  shows "bindingsReady cl B bs = Inl (Panic ''nil pointer dereference'')"
  using assms by (cases bs) (simp_all add: Let_def)

text \<open>The objects of refused creations.\<close>

lemma create_binding_returned:
  assumes "snd (create_binding B S lc acc e) = Inr acc'" "\<And>d. P (bs_returned S d)" "\<forall>b \<in> set (fst acc). P b"
  shows "\<forall>b \<in> set (fst acc'). P b"
  using assms by (auto simp: create_binding_def Let_def snd_andThen split: prod.splits sum.splits if_splits)

lemma creates_returned:
  assumes "snd (fold_calls (create_binding B S lc) acc es) = Inr acc'" "\<And>d. P (bs_returned S d)" "\<forall>b \<in> set (fst acc). P b"
  shows "\<forall>b \<in> set (fst acc'). P b"
  using assms(1,3)
proof (induction es arbitrary: acc)
  case (Cons e es)
  from Cons.prems(1) obtain acc1 where 1: "snd (create_binding B S lc acc e) = Inr acc1"
    "snd (fold_calls (create_binding B S lc) acc1 es) = Inr acc'" by (auto simp: ok_andThen)
  from create_binding_returned [of B S lc acc e acc1 P, OF 1(1) assms(2) Cons.prems(2)] Cons.IH [OF 1(2)] show ?case by blast
qed simp

text \<open>
  When every binding that \<open>bind compute\<close> wants to create exists already, the client returns an empty object with the error, and the
  command keeps that object instead of reading the existing one: the test whether the bindings are ready then
  dereferences the reference of the empty object and panics.
\<close>

theorem existing_binding_panics:
  assumes "snd (applyAPIBinding B S desired) = Inr (bindings, errs)" "bindings \<noteq> []"
    and exist: "\<And>d. bs_answer S d = Some AlreadyExists"
    and client: "\<And>d. bs_answer S d \<noteq> None \<Longrightarrow> ba_Phase (bs_returned S d) = [] \<and> ba_Export (bs_returned S d) = None"
  shows "bindingsReady cl B bindings = Inl (Panic ''nil pointer dereference'')"
proof (rule bindingsReady_panics [OF assms(2)])
  from assms(1) obtain lc existing where
    f: "snd (fold_calls (create_binding B S lc) ([], [])
       (bl_diff_order B (filter (\<lambda>e. e \<notin> set existing) (desired_exports B lc desired)))) = Inr (bindings, errs)"
    by (auto simp: applyAPIBinding_def ok_andThen split: prod.splits)
  show "ba_Phase b \<noteq> ''Bound'' \<and> ba_Export b = None" if "b \<in> set bindings" for b
    using creates_returned [OF f, where P = "\<lambda>b. ba_Phase b \<noteq> ''Bound'' \<and> ba_Export b = None"] exist client that by simp
qed

definition ex_binding :: "string \<Rightarrow> (string \<times> string) option \<Rightarrow> bound_api" where
  "ex_binding n r = object_meta.extend (meta_named ''user'' n) \<lparr>ba_Export = r, ba_Phase = ''Bound'', ba_Conditions = []\<rparr>"

definition ex_no_binding :: bound_api where
  "ex_no_binding = object_meta.extend empty_meta \<lparr>ba_Export = None, ba_Phase = [], ba_Conditions = []\<rparr>"

text \<open>Paths of one element; the colon is kept with the name so that joining is appending.\<close>

definition split_path :: "string \<Rightarrow> string \<times> string" where
  "split_path e = (takeWhile (\<lambda>c. c \<noteq> CHR '':'') e, dropWhile (\<lambda>c. c \<noteq> CHR '':'') e)"

definition ex_bind :: bind_lib where
  "ex_bind = \<lparr>bl_Join = (\<lambda>p n. p @ n), bl_Split = split_path, bl_RequestPath = (\<lambda>p. p), bl_hash36 = (\<lambda>s. ''01234567'' @ s),
     bl_GetMessage = (\<lambda>_ _. []), bl_PathAnnotation = ''kcp.io/path'', bl_diff_order = (\<lambda>es. es)\<rparr>"

lemma ex_bind_laws [simp]: "bind_laws ex_bind"
  by (simp add: bind_laws_def ex_bind_def split_path_def)

definition ex_bind_server :: "bound_api list \<Rightarrow> go_error option \<Rightarrow> bind_server" where
  "ex_bind_server bs err = \<lparr>bs_bindings = Inr bs,
     bs_logicalCluster = Inr ((meta_named ''user'' ''cluster'')\<lparr>Annotations := Some [(''kcp.io/path'', ''home'')]\<rparr>),
     bs_answer = (\<lambda>_. err), bs_returned = (\<lambda>_. ex_no_binding)\<rparr>"

lemmas ex_bind_eval = applyAPIBinding_def scan_binding_def desired_exports_def create_binding_def apiBindingName_def Let_def
  ex_bind_def split_path_def ex_bind_server_def ex_binding_def ex_no_binding_def ex_object_defs maxBindingNamePrefixLength_def
  set_insert_def andThen_def okay_def emit_def attempt_def lift_err_def go_str_def go_get_def

theorem bound_name_shadows_local_export_witness:
  "fst (applyAPIBinding ex_bind (ex_bind_server [ex_binding ''k'' (Some (''root'', '':compute''))] None) [''home:compute'', ''org:apps''])
     = [BindingsList, LogicalClusterGet, BindingCreate '':apps-01234567'' ''org'' '':apps'']
   \<and> (''org'', '':apps'') \<noteq> (''root'', '':compute'')"
proof -
  let ?S = "ex_bind_server [ex_binding ''k'' (Some (''root'', '':compute''))] None"
  have r: "fst (applyAPIBinding ex_bind ?S [''home:compute'', ''org:apps''])
     = [BindingsList, LogicalClusterGet, BindingCreate '':apps-01234567'' ''org'' '':apps'']"
    by (simp add: ex_bind_eval)
  with bound_name_shadows_local_export [OF ex_bind_laws, of ?S "[ex_binding ''k'' (Some (''root'', '':compute''))]" "ex_binding ''k'' (Some (''root'', '':compute''))"
      "''root''" "'':compute''" _ "''home''" "'':apps-01234567''" "''org''" "'':apps''" "[''home:compute'', ''org:apps'']"]
  show ?thesis by (simp add: ex_bind_server_def ex_binding_def ex_bind_def go_str_def go_get_def object_meta.defs)
qed

theorem existing_binding_panics_witness:
  "bindingsReady basic_conditions ex_bind [ex_no_binding] = Inl (Panic ''nil pointer dereference'')
   \<and> snd (applyAPIBinding ex_bind (ex_bind_server [] (Some AlreadyExists)) [''org:apps'']) = Inr ([ex_no_binding], [])"
proof -
  have r: "snd (applyAPIBinding ex_bind (ex_bind_server [] (Some AlreadyExists)) [''org:apps'']) = Inr ([ex_no_binding], [])"
    by (simp add: ex_bind_eval)
  with existing_binding_panics [OF r, of basic_conditions] show ?thesis
    by (simp add: ex_bind_server_def ex_no_binding_def object_meta.defs)
qed

theorem binding_name_bounds_witness:
  "length (replicate 244 CHR ''a'' @ ''-01234567'') \<le> 253
   \<and> apiBindingName ex_bind [] (replicate 300 CHR ''a'') = Inr (replicate 244 CHR ''a'' @ ''-01234567'')"
proof -
  have r: "apiBindingName ex_bind [] (replicate 300 CHR ''a'') = Inr (replicate 244 CHR ''a'' @ ''-01234567'')"
    by (simp add: apiBindingName_def ex_bind_def maxBindingNamePrefixLength_def)
  with binding_name_bounds [OF r r] show ?thesis by simp
qed

end
