(* ===== verification/Sync_Command.thy ===== *)
theory Sync_Command
  imports Syncer_Shared Exported_Schemas Default_Location
begin

text \<open>
  The command that registers a physical cluster (\<^verbatim>\<open>src/pkg/cliplugins/workload/plugin/sync.go\<close>): the checks of its options, the sync target
  and the export that it applies in the workspace, the account, role and binding of the syncer, and the arguments of the manifest for the
  physical cluster, with the rules that it grants there. The rest of the manifest, flags and output are left out.

  Parameters: the answers of the server and the objects it returns, paths of logical clusters, group resources, the digests of
  \<open>json_lib\<close>, the order of a map, and \<open>sort.Slice\<close>. A polling wait makes a bounded number of attempts.
\<close>

section \<open>Options\<close>

definition DNSIDPrefix :: string where "DNSIDPrefix = ''kcp-dns-''"
definition MaxSyncTargetNameLength :: nat where "MaxSyncTargetNameLength = 253 - (9 + length SyncerIDPrefix)"

record sync_options =
  so_ResourcesToSync :: "string list"
  so_APIExports :: "string list"
  so_SyncerImage :: string
  so_Replicas :: int
  so_OutputFile :: string
  so_DownstreamNamespace :: string
  so_KCPNamespace :: string
  so_SyncTargetName :: string
  so_SyncTargetLabels :: "string list"

record sync_lib =
  sl_base_Validate :: "go_error option"
  sl_Split :: "string \<Rightarrow> string \<times> string"                    \<comment> \<open>\<open>logicalcluster.NewPath(s).Split()\<close>\<close>
  sl_grString :: "group_resource \<Rightarrow> string"
  sl_ParseGroupResource :: "string \<Rightarrow> group_resource"
  sl_json :: json_lib
  sl_map_order :: "(string \<times> string list) list \<Rightarrow> (string \<times> string list) list"
  sl_sort_Slice :: "(string \<times> string list \<Rightarrow> string \<times> string list \<Rightarrow> bool) \<Rightarrow> (string \<times> string list) list \<Rightarrow> (string \<times> string list) list"

text \<open>The errors in the order of the checks; the aggregate of no error is nil.\<close>

definition label_errors :: "string list \<Rightarrow> go_error list" where
  "label_errors labels = map (\<lambda>l. Failure (''label '' @ l @ '' is not in the format of key=value''))
     (filter (\<lambda>l. length (splitOn (CHR ''='') l) \<noteq> 2) labels)"

definition SyncOptions_Validate :: "sync_lib \<Rightarrow> sync_options \<Rightarrow> go_error list" where
  "SyncOptions_Validate L opts =
     (case sl_base_Validate L of None \<Rightarrow> [] | Some e \<Rightarrow> [e])
     @ (if so_SyncerImage opts = [] then [Failure ''--syncer-image is required''] else [])
     @ (if so_KCPNamespace opts = [] then [Failure ''--kcp-namespace is required''] else [])
     @ (if so_Replicas opts < 0 then [Failure ''--replicas cannot be negative''] else [])
     @ (if 1 < so_Replicas opts then [Failure ''only 0 and 1 are valid values for --replicas''] else [])
     @ (if so_OutputFile opts = [] then [Failure ''--output-file is required''] else [])
     @ (if 254 < length (so_SyncTargetName opts) + length DNSIDPrefix + 8 + 8 + 2
        then [Failure ''the maximum length of the sync-target-name is 233''] else [])
     @ label_errors (so_SyncTargetLabels opts)
     @ map (\<lambda>_. Failure ''imported-apis is a reserved APIExport name and should not be set'')
         (filter (\<lambda>e. snd (sl_Split L e) = ImportedAPISExportName) (so_APIExports opts))"

definition label_step :: "string \<Rightarrow> (string \<times> string) list \<Rightarrow> (string \<times> string) list" where
  "label_step l labels =
     (case splitOn (CHR ''='') l of [k, v] \<Rightarrow> go_put k v labels | _ \<Rightarrow> labels)"

definition sync_labels :: "string list \<Rightarrow> (string \<times> string) list" where
  "sync_labels ls = fold label_step ls []"

definition getSyncerID :: "json_lib \<Rightarrow> sync_target \<Rightarrow> go_error + string" where
  "getSyncerID J st =
     (let base36hash = base36_lower J (sum224 J (UID st)) in
      if length base36hash < 8 then Inl (Panic ''slice bounds out of range'')
      else Inr (''kcp-syncer-'' @ Name st @ ''-'' @ take 8 base36hash))"

section \<open>Merging\<close>

definition placeholder_name :: "sync_lib \<Rightarrow> group_resource \<Rightarrow> string" where
  "placeholder_name L gr = ''rev-0.'' @ sl_grString L gr"

definition requested_group :: "sync_lib \<Rightarrow> string \<Rightarrow> group_resource" where
  "requested_group L r = (let gr = sl_ParseGroupResource L r in gr\<lparr>gr_Group := core_group (gr_Group gr)\<rparr>)"

text \<open>The groups that the export lists when the loop starts; the loop does not extend them.\<close>

definition desired_groups :: "sync_lib \<Rightarrow> string list \<Rightarrow> string list" where
  "desired_groups L schemas = fold (\<lambda>s acc. case ParseAPIResourceSchemaName s of None \<Rightarrow> acc | Some gr \<Rightarrow> set_insert (sl_grString L gr) acc) schemas []"

fun merge_schemas :: "sync_lib \<Rightarrow> string list \<Rightarrow> string list \<Rightarrow> string list \<times> bool \<Rightarrow> string list \<times> bool" where
  "merge_schemas L desired [] acc = acc"
| "merge_schemas L desired (r # rs) acc =
     (let gr = requested_group L r in
      merge_schemas L desired rs
        (if sl_grString L gr \<notin> set desired then (fst acc @ [placeholder_name L gr], True) else acc))"

definition mergeLatestResourceSchema :: "sync_lib \<Rightarrow> api_export \<Rightarrow> string list \<Rightarrow> api_export \<times> bool" where
  "mergeLatestResourceSchema L apiExport resourceToSync =
     (let (schemas, modified) = merge_schemas L (desired_groups L (LatestResourceSchemas apiExport)) resourceToSync
        (LatestResourceSchemas apiExport, False) in
      (apiExport\<lparr>LatestResourceSchemas := schemas\<rparr>, modified))"

fun mergeOwnerReference :: "owner_reference list \<Rightarrow> owner_reference list \<Rightarrow> owner_reference list" where
  "mergeOwnerReference merged [] = merged"
| "mergeOwnerReference merged (r # rs) =
     (if \<exists>m \<in> set merged. or_UID m = or_UID r then mergeOwnerReference merged rs else mergeOwnerReference (merged @ [r]) rs)"

section \<open>Calls\<close>

text \<open>A document that a merge patch is computed from: the UID and the version are preconditions when they are not empty.\<close>

record 'a merge_doc =
  md_UID :: string
  md_ResourceVersion :: string
  md_Body :: 'a

record account = object_meta +
  sa_Owners :: "owner_reference list"
  sa_Secrets :: "string list"

record cluster_rule = policy_rule +
  cr_ResourceNames :: "string list"
  cr_NonResourceURLs :: "string list"

record cluster_role = object_meta +
  cl_Owners :: "owner_reference list"
  cl_Rules :: "cluster_rule list"

type_synonym target_body = "smap \<times> export_reference list"

datatype sync_call =
    ExportGet | ExportCreate api_export | ExportPut api_export
  | TargetGet string | TargetCreate sync_target | TargetMerge string "target_body merge_doc" "target_body merge_doc"
  | AccountGet string string | AccountCreate string string "owner_reference list"
  | AccountMerge string string "owner_reference list merge_doc" "owner_reference list merge_doc"
  | RoleGet string | RoleCreate string "owner_reference list" "cluster_rule list"
  | RoleMerge string "(owner_reference list \<times> cluster_rule list) merge_doc" "(owner_reference list \<times> cluster_rule list) merge_doc"
  | BindingGet string | BindingDelete string | RoleBindingCreate string "owner_reference list" "string \<times> string" string
  | SecretGet string string

record sync_server =
  sv_answer :: "sync_call \<Rightarrow> go_error option"
  sv_export :: api_export
  sv_target :: "sync_call \<Rightarrow> sync_target"          \<comment> \<open>the objects that the client returns, also next to an error\<close>
  sv_account :: "sync_call \<Rightarrow> account"
  sv_role :: cluster_role
  sv_secret :: smap
  sv_attempts :: nat
  sv_later_target :: "nat \<Rightarrow> go_error + sync_target"
  sv_later_account :: "nat \<Rightarrow> string \<Rightarrow> go_error + account"

section \<open>The sync target\<close>

definition supportedAPIExports :: "sync_lib \<Rightarrow> sync_options \<Rightarrow> export_reference list" where
  "supportedAPIExports L opts =
     map (\<lambda>e. case sl_Split L e of (lclusterName, name) \<Rightarrow> \<lparr>er_Path = lclusterName, er_Export = name\<rparr>) (so_APIExports opts)
     @ (if so_ResourcesToSync opts \<noteq> [] \<and> ImportedAPISExportName \<notin> set (so_APIExports opts)
        then [\<lparr>er_Path = [], er_Export = ImportedAPISExportName\<rparr>] else [])"

definition imported_export :: api_export where
  "imported_export = object_meta.extend (empty_meta\<lparr>Name := ImportedAPISExportName, Annotations := Some [(ComputeAPIExportAnnotationKey, ''true'')]\<rparr>)
     \<lparr>LatestResourceSchemas = [], ae_IdentityHash = []\<rparr>"

definition apply_export :: "sync_lib \<Rightarrow> sync_server \<Rightarrow> sync_options \<Rightarrow> (sync_call, unit) calls" where
  "apply_export L S opts =
     (if so_ResourcesToSync opts = [] then okay ()
      else andThen (attempt (sv_answer S) ExportGet) (\<lambda>err.
        case err of
          Some NotFound \<Rightarrow>
            andThen (attempt (sv_answer S) (ExportCreate (fst (mergeLatestResourceSchema L imported_export (so_ResourcesToSync opts))))) (\<lambda>err.
            check (if err = Some AlreadyExists then None else err))
        | Some e \<Rightarrow> fail e
        | None \<Rightarrow>
            (case mergeLatestResourceSchema L (sv_export S) (so_ResourcesToSync opts) of (apiExport, modified) \<Rightarrow>
             if modified then send_call (sv_answer S) (ExportPut apiExport) else okay ())))"

definition new_target :: "string \<Rightarrow> (string \<times> string) list \<Rightarrow> export_reference list \<Rightarrow> sync_target" where
  "new_target name labels exports = object_meta.extend (empty_meta\<lparr>Name := name, Labels := Some labels\<rparr>)
     \<lparr>st_Spec = \<lparr>Unschedulable = False, EvictAfter = None, SupportedAPIExports = exports, Cells = None\<rparr>,
      st_Status = \<lparr>st_Conditions = [], SyncedResources = [], LastSyncerHeartbeatTime = None, VirtualWorkspaces = [], TunnelWorkspaces = []\<rparr>\<rparr>"

text \<open>The end of \<open>applySyncTarget\<close>, from the comparison on.\<close>

definition update_target :: "sync_server \<Rightarrow> string \<Rightarrow> (string \<times> string) list \<Rightarrow> export_reference list \<Rightarrow> sync_target \<Rightarrow> (sync_call, sync_target) calls" where
  "update_target S name labels exports st =
     (if map_equal labels (entries (Labels st)) \<and> exports = SupportedAPIExports (st_Spec st) then okay st
      else
        (let c = TargetMerge name \<lparr>md_UID = [], md_ResourceVersion = [], md_Body = (Labels st, SupportedAPIExports (st_Spec st))\<rparr>
               \<lparr>md_UID = UID st, md_ResourceVersion = ResourceVersion st, md_Body = (Some labels, exports)\<rparr> in
         andThen (send_call (sv_answer S) c) (\<lambda>_. okay (sv_target S c))))"

definition applySyncTarget :: "sync_lib \<Rightarrow> sync_server \<Rightarrow> sync_options \<Rightarrow> string \<Rightarrow> (string \<times> string) list \<Rightarrow> (sync_call, sync_target) calls" where
  "applySyncTarget L S opts name labels =
     andThen (apply_export L S opts) (\<lambda>_.
     let exports = supportedAPIExports L opts in
     andThen (attempt (sv_answer S) (TargetGet name)) (\<lambda>err.
     case err of
       Some NotFound \<Rightarrow>
         (let c = TargetCreate (new_target name labels exports) in
          andThen (attempt (sv_answer S) c) (\<lambda>err.
          case err of
            None \<Rightarrow> okay (sv_target S c)
          | Some AlreadyExists \<Rightarrow> update_target S name labels exports (sv_target S c)
          | Some e \<Rightarrow> fail e))
     | Some e \<Rightarrow> fail e
     | None \<Rightarrow> update_target S name labels exports (sv_target S (TargetGet name))))"

section \<open>The account of the syncer\<close>

definition target_owner :: "sync_target \<Rightarrow> owner_reference" where
  "target_owner st = \<lparr>or_APIVersion = ''workload.kcp.io/v1alpha1'', or_Kind = ''SyncTarget'', or_Name = Name st, or_UID = UID st\<rparr>"

definition workload_rule :: "string list \<Rightarrow> string list \<Rightarrow> string \<Rightarrow> cluster_rule" where
  "workload_rule verbs resources syncTargetName =
     \<lparr>pr_APIGroups = [workload_GroupName], pr_Resources = resources, pr_Verbs = verbs,
      cr_ResourceNames = [syncTargetName], cr_NonResourceURLs = []\<rparr>"

definition syncer_rules :: "string \<Rightarrow> cluster_rule list" where
  "syncer_rules syncTargetName =
     [workload_rule [''sync''] [''synctargets''] syncTargetName,
      workload_rule [''get''] [''synctargets/tunnel''] syncTargetName,
      workload_rule [''get'', ''list'', ''watch''] [''synctargets''] syncTargetName,
      workload_rule [''update'', ''patch''] [''synctargets'', ''synctargets/status''] syncTargetName,
      \<lparr>pr_APIGroups = [''apiresource.kcp.io''], pr_Resources = [''apiresourceimports''],
       pr_Verbs = [''get'', ''create'', ''update'', ''delete'', ''list'', ''watch''], cr_ResourceNames = [], cr_NonResourceURLs = []\<rparr>,
      \<lparr>pr_APIGroups = [], pr_Resources = [], pr_Verbs = [''access''], cr_ResourceNames = [], cr_NonResourceURLs = [''/'']\<rparr>]"

definition apply_account :: "sync_server \<Rightarrow> string \<Rightarrow> string \<Rightarrow> owner_reference list \<Rightarrow> (sync_call, account) calls" where
  "apply_account S namespace syncerID owners =
     andThen (attempt (sv_answer S) (AccountGet namespace syncerID)) (\<lambda>err.
     case err of
       Some NotFound \<Rightarrow>
         (let c = AccountCreate namespace syncerID owners in
          andThen (attempt (sv_answer S) c) (\<lambda>err.
          if err = None \<or> err = Some AlreadyExists then okay (sv_account S c) else fail (the err)))
     | None \<Rightarrow>
         (let sa = sv_account S (AccountGet namespace syncerID);
              c = AccountMerge namespace (Name sa) \<lparr>md_UID = [], md_ResourceVersion = [], md_Body = sa_Owners sa\<rparr>
                \<lparr>md_UID = UID sa, md_ResourceVersion = ResourceVersion sa, md_Body = mergeOwnerReference (sa_Owners sa) owners\<rparr> in
          andThen (send_call (sv_answer S) c) (\<lambda>_. okay (sv_account S c)))
     | Some e \<Rightarrow> fail e)"

definition apply_role :: "sync_server \<Rightarrow> string \<Rightarrow> owner_reference list \<Rightarrow> cluster_rule list \<Rightarrow> (sync_call, unit) calls" where
  "apply_role S syncerID owners rules =
     andThen (attempt (sv_answer S) (RoleGet syncerID)) (\<lambda>err.
     case err of
       Some NotFound \<Rightarrow>
         andThen (attempt (sv_answer S) (RoleCreate syncerID owners rules)) (\<lambda>err. check (if err = Some AlreadyExists then None else err))
     | None \<Rightarrow>
         (let cr = sv_role S in
          send_call (sv_answer S) (RoleMerge (Name cr) \<lparr>md_UID = [], md_ResourceVersion = [], md_Body = (cl_Owners cr, cl_Rules cr)\<rparr>
            \<lparr>md_UID = UID cr, md_ResourceVersion = ResourceVersion cr, md_Body = (mergeOwnerReference (cl_Owners cr) owners, rules)\<rparr>))
     | Some e \<Rightarrow> fail e)"

text \<open>The binding is deleted and created anew, because the role of a binding cannot be changed.\<close>

definition apply_binding :: "sync_server \<Rightarrow> string \<Rightarrow> string \<Rightarrow> owner_reference list \<Rightarrow> (sync_call, unit) calls" where
  "apply_binding S namespace syncerID owners =
     andThen (attempt (sv_answer S) (BindingGet syncerID)) (\<lambda>err.
     andThen (if err = None then send_call (sv_answer S) (BindingDelete syncerID)
              else if err = Some NotFound then okay () else fail (the err)) (\<lambda>_.
     andThen (attempt (sv_answer S) (RoleBindingCreate syncerID owners (syncerID, namespace) syncerID)) (\<lambda>err.
     check (if err = Some AlreadyExists then None else err))))"

text \<open>A polling wait: the attempts from the \<open>i\<close>-th on, \<open>n\<close> at most; \<open>None\<close> is the timeout.\<close>

fun poll :: "(nat \<Rightarrow> 'a option) \<Rightarrow> nat \<Rightarrow> nat \<Rightarrow> 'a option" where
  "poll f 0 i = None"
| "poll f (Suc n) i = (case f i of Some x \<Rightarrow> Some x | None \<Rightarrow> poll f n (Suc i))"

definition token_secret :: "sync_server \<Rightarrow> string \<Rightarrow> nat \<Rightarrow> string option" where
  "token_secret S name i =
     (case sv_later_account S i name of Inl _ \<Rightarrow> None
      | Inr a \<Rightarrow> (case sa_Secrets a of [] \<Rightarrow> None | x # _ \<Rightarrow> Some x))"

definition enableSyncerForWorkspace ::
  "sync_lib \<Rightarrow> sync_server \<Rightarrow> sync_options \<Rightarrow> string \<Rightarrow> string \<Rightarrow> (string \<times> string) list \<Rightarrow> (sync_call, string \<times> string \<times> sync_target) calls" where
  "enableSyncerForWorkspace L S opts syncTargetName namespace labels =
     andThen (applySyncTarget L S opts syncTargetName labels) (\<lambda>st.
     andThen (lift_err (getSyncerID (sl_json L) st)) (\<lambda>syncerID.
     andThen (apply_account S namespace syncerID [target_owner st]) (\<lambda>sa.
     andThen (apply_role S syncerID [target_owner st] (syncer_rules syncTargetName)) (\<lambda>_.
     andThen (apply_binding S namespace syncerID [target_owner st]) (\<lambda>_.
     case poll (token_secret S (Name sa)) (sv_attempts S) 0 of
       None \<Rightarrow> fail (Failure ''timed out waiting for token secret name'')
     | Some secret \<Rightarrow>
         andThen (send_call (sv_answer S) (SecretGet namespace secret)) (\<lambda>_.
         if go_str (sv_secret S) ''token'' = [] then fail (Failure ''token secret is missing a value for token'')
         else okay (go_str (sv_secret S) ''token'', syncerID, st)))))))"

section \<open>The role on the physical cluster\<close>

definition permission_attempt :: "string list \<Rightarrow> (nat \<Rightarrow> go_error + sync_target) \<Rightarrow> nat \<Rightarrow> string list option" where
  "permission_attempt expected later i =
     (case later i of
        Inl _ \<Rightarrow> None
      | Inr st \<Rightarrow>
          (let exports = SupportedAPIExports (st_Spec st); synced = SyncedResources (st_Status st) in
           if exports = [] then Some expected
           else if length exports = 1 \<and> er_Export (exports ! 0) = ImportedAPISExportName then Some expected
           else if synced = [] then None
           else Some (fold (\<lambda>rs. set_insert (gr_Resource (rs_GroupResource rs) @ ''.'' @ gr_Group (rs_GroupResource rs))) synced expected)))"

definition getResourcesForPermission :: "sync_server \<Rightarrow> sync_options \<Rightarrow> go_error + string list" where
  "getResourcesForPermission S opts =
     (let expected = fold set_insert (so_ResourcesToSync opts @ [''secrets'', ''configmaps'']) [] in
      case poll (permission_attempt expected (sv_later_target S)) (sv_attempts S) 0 of
        None \<Rightarrow> Inl (Failure ''error waiting for getting resources to sync in syncTarget'')
      | Some r \<Rightarrow> Inr r)"

definition podSubresources :: "string list" where
  "podSubresources = [''pods/log'', ''pods/exec'', ''pods/attach'', ''pods/binding'', ''pods/portforward'', ''pods/proxy'', ''pods/ephemeralcontainers'']"

definition group_and_name :: "string \<Rightarrow> string \<times> string" where
  "group_and_name resource =
     (let nameParts = splitN (CHR ''.'') 2 resource in (if 1 < length nameParts then nameParts ! 1 else [], nameParts ! 0))"

definition add_resource :: "string \<Rightarrow> (string \<times> string list) list \<Rightarrow> (string \<times> string list) list" where
  "add_resource resource groupMap =
     (case group_and_name resource of (apiGroup, name) \<Rightarrow>
      let m1 = (case map_of groupMap apiGroup of
                  None \<Rightarrow> AList.update apiGroup [name] groupMap
                | Some rs \<Rightarrow> AList.update apiGroup (rs @ [name]) groupMap) in
      if apiGroup = [] \<and> name = ''pods''
      then AList.update apiGroup ((case map_of m1 apiGroup of None \<Rightarrow> [] | Some rs \<Rightarrow> rs) @ podSubresources) m1 else m1)"

definition mapping_less :: "string \<times> string list \<Rightarrow> string \<times> string list \<Rightarrow> bool" where
  "mapping_less a b = (if fst a = fst b then join '','' (snd a) < join '','' (snd b) else fst a < fst b)"

definition sortGroupMappings :: "sync_lib \<Rightarrow> (string \<times> string list) list \<Rightarrow> (string \<times> string list) list" where
  "sortGroupMappings L groupMappings = sl_sort_Slice L mapping_less groupMappings"

definition getGroupMappings :: "sync_lib \<Rightarrow> string list \<Rightarrow> (string \<times> string list) list" where
  "getGroupMappings L resourcesToSync = sortGroupMappings L (sl_map_order L (fold add_resource resourcesToSync []))"

text \<open>\<open>strings.Replace(s, old, new, 1)\<close>.\<close>

fun replace_first :: "string \<Rightarrow> string \<Rightarrow> string \<Rightarrow> string" where
  "replace_first old new [] = (if old = [] then new else [])"
| "replace_first old new (c # cs) =
     (if has_prefix (c # cs) old then new @ drop (length old) (c # cs) else c # replace_first old new cs)"

text \<open>The arguments of the manifest that name its objects and the permissions of the syncer.\<close>

record template_args =
  ta_Namespace :: string
  ta_Token :: string
  ta_ServiceAccount :: string
  ta_ClusterRole :: string
  ta_ClusterRoleBinding :: string
  ta_DNSRole :: string
  ta_DNSRoleBinding :: string
  ta_GroupMappings :: "(string \<times> string list) list"
  ta_Secret :: string
  ta_Deployment :: string
  ta_ServerURL :: string
  ta_SyncTarget :: string
  ta_SyncTargetUID :: string
  ta_ResourcesToSync :: "string list"

definition template_arguments :: "sync_lib \<Rightarrow> sync_options \<Rightarrow> string \<Rightarrow> string \<Rightarrow> string \<Rightarrow> sync_target \<Rightarrow> string \<Rightarrow> string list \<Rightarrow> template_args" where
  "template_arguments L opts namespace serverURL token st syncerID resourceForPermission =
     (let dnsSyncerID = replace_first ''syncer'' ''dns'' syncerID in
      \<lparr>ta_Namespace = namespace, ta_Token = token, ta_ServiceAccount = syncerID, ta_ClusterRole = syncerID, ta_ClusterRoleBinding = syncerID,
       ta_DNSRole = dnsSyncerID, ta_DNSRoleBinding = dnsSyncerID, ta_GroupMappings = getGroupMappings L resourceForPermission,
       ta_Secret = syncerID, ta_Deployment = syncerID, ta_ServerURL = serverURL,
       ta_SyncTarget = so_SyncTargetName opts, ta_SyncTargetUID = UID st, ta_ResourcesToSync = so_ResourcesToSync opts\<rparr>)"

text \<open>The port of the server: the answer of \<open>net.SplitHostPort\<close> is a parameter.\<close>

datatype host_port = HasPort | MissingPort | InvalidHost

definition server_url :: "(string \<Rightarrow> host_port) \<Rightarrow> (string \<Rightarrow> string \<Rightarrow> string) \<Rightarrow> string \<Rightarrow> string \<Rightarrow> go_error + string" where
  "server_url SplitHostPort JoinHostPort scheme host =
     (case SplitHostPort host of
        HasPort \<Rightarrow> Inr (scheme @ ''://'' @ host)
      | MissingPort \<Rightarrow> Inr (scheme @ ''://'' @ JoinHostPort host (if scheme = ''https'' then ''443'' else ''80''))
      | InvalidHost \<Rightarrow> Inl (Failure ''failed to parse host''))"

definition SyncOptions_Run ::
  "sync_lib \<Rightarrow> sync_server \<Rightarrow> (string \<Rightarrow> host_port) \<Rightarrow> (string \<Rightarrow> string \<Rightarrow> string) \<Rightarrow> go_error + (string \<times> string) \<Rightarrow> sync_options \<Rightarrow> (sync_call, template_args) calls" where
  "SyncOptions_Run L S SplitHostPort JoinHostPort ParseClusterURL opts =
     andThen (enableSyncerForWorkspace L S opts (so_SyncTargetName opts) (so_KCPNamespace opts) (sync_labels (so_SyncTargetLabels opts))) (\<lambda>(token, syncerID, st).
     andThen (lift_err (getResourcesForPermission S opts)) (\<lambda>expected.
     andThen (lift_err ParseClusterURL) (\<lambda>(scheme, host).
     andThen (lift_err (server_url SplitHostPort JoinHostPort scheme host)) (\<lambda>serverURL.
     okay (template_arguments L opts (if so_DownstreamNamespace opts = [] then syncerID else so_DownstreamNamespace opts)
       serverURL token st syncerID (set_list expected))))))"

text \<open>
  The rules that the template of the manifest (\<^verbatim>\<open>syncer.yaml\<close>) gives the account of the syncer on the physical cluster: the fixed rules of the
  cluster role with one rule for each group mapping, and the role in the namespace of the syncer, for the DNS server.
\<close>

definition manifest_cluster_role :: "template_args \<Rightarrow> policy_rule list" where
  "manifest_cluster_role args =
     [\<lparr>pr_APIGroups = [[]], pr_Resources = [''namespaces''], pr_Verbs = [''create'', ''get'', ''list'', ''watch'', ''delete'']\<rparr>,
      \<lparr>pr_APIGroups = [[]], pr_Resources = [''endpoints''], pr_Verbs = [''get'']\<rparr>,
      \<lparr>pr_APIGroups = [''apiextensions.k8s.io''], pr_Resources = [''customresourcedefinitions''], pr_Verbs = [''get'', ''watch'', ''list'']\<rparr>,
      \<lparr>pr_APIGroups = [''networking.k8s.io''], pr_Resources = [''networkpolicies''], pr_Verbs = [''create'', ''list'', ''watch'']\<rparr>,
      \<lparr>pr_APIGroups = [''apiresource.kcp.io''], pr_Resources = [''apiresourceimports''], pr_Verbs = [''create'', ''update'', ''list'', ''watch'']\<rparr>]
     @ map (\<lambda>(g, rs). \<lparr>pr_APIGroups = [g], pr_Resources = rs, pr_Verbs = [''*'']\<rparr>) (ta_GroupMappings args)"

definition manifest_dns_role :: "policy_rule list" where
  "manifest_dns_role =
     [\<lparr>pr_APIGroups = [[]], pr_Resources = [''serviceaccounts'', ''services''],
       pr_Verbs = [''create'', ''get'', ''list'', ''update'', ''delete'', ''watch'']\<rparr>,
      \<lparr>pr_APIGroups = [[]], pr_Resources = [''endpoints''], pr_Verbs = [''get'', ''list'', ''watch'']\<rparr>,
      \<lparr>pr_APIGroups = [''apps''], pr_Resources = [''deployments''],
       pr_Verbs = [''create'', ''get'', ''list'', ''update'', ''delete'', ''watch'']\<rparr>,
      \<lparr>pr_APIGroups = [''rbac.authorization.k8s.io''], pr_Resources = [''roles'', ''rolebindings''],
       pr_Verbs = [''create'', ''get'', ''list'', ''update'', ''delete'', ''watch'']\<rparr>]"

end
