(* ===== verification/Sync_Registration.thy ===== *)
theory Sync_Registration
  imports Sync_Command
begin

text \<open>
  What the command of \<^verbatim>\<open>src/pkg/cliplugins/workload/plugin/sync.go\<close> guarantees: the groups of the role on the physical cluster are a
  reference definition, whatever the order of maps and sorting; the export covers the requested resources; a run on an existing target converges;
  the role in the workspace is confined to the target; and how the command fails when an object appears between a read and a creation.
\<close>

section \<open>Lemmas on the groups\<close>

definition granted :: "string \<Rightarrow> string list" where
  "granted resource = (case group_and_name resource of (g, n) \<Rightarrow> n # (if g = [] \<and> n = ''pods'' then podSubresources else []))"

definition resource_group :: "string \<Rightarrow> string" where
  "resource_group resource = fst (group_and_name resource)"

definition group_resources :: "string list \<Rightarrow> string \<Rightarrow> string list" where
  "group_resources rs g = concat (map granted (filter (\<lambda>r. resource_group r = g) rs))"

lemma map_of_add_resource:
  "map_of (add_resource r m) g =
     (if g = resource_group r then Some ((case map_of m g of None \<Rightarrow> [] | Some l \<Rightarrow> l) @ granted r) else map_of m g)"
  by (auto simp: add_resource_def granted_def resource_group_def Let_def update_conv' split: prod.splits option.splits)

lemma distinct_add_resource: "distinct (map fst m) \<Longrightarrow> distinct (map fst (add_resource r m))"
  by (auto simp: add_resource_def Let_def distinct_update split: prod.splits option.splits)

lemma group_resources_Cons: "group_resources (r # rs) g = (if g = resource_group r then granted r else []) @ group_resources rs g"
  by (simp add: group_resources_def)

lemma group_resources_empty: "g \<notin> resource_group ` set rs \<Longrightarrow> group_resources rs g = []"
  by (auto simp: group_resources_def filter_empty_conv)

lemma map_of_resources:
  "map_of (fold add_resource rs m) g =
     (if g \<in> resource_group ` set rs then Some ((case map_of m g of None \<Rightarrow> [] | Some l \<Rightarrow> l) @ group_resources rs g) else map_of m g)"
proof (induction rs arbitrary: m)
  case (Cons r rs)
  then show ?case by (cases "g = resource_group r"; cases "g \<in> resource_group ` set rs")
      (simp_all add: map_of_add_resource group_resources_Cons group_resources_empty)
qed simp

lemma distinct_resources: "distinct (map fst m) \<Longrightarrow> distinct (map fst (fold add_resource rs m))"
  by (induction rs arbitrary: m) (simp_all add: distinct_add_resource)

definition strict_weak :: "('a \<Rightarrow> 'a \<Rightarrow> bool) \<Rightarrow> bool" where
  "strict_weak lt \<longleftrightarrow> (\<forall>a b c. \<not> lt a a \<and> (lt a b \<longrightarrow> lt b c \<longrightarrow> lt a c) \<and> (\<not> lt a b \<longrightarrow> \<not> lt b c \<longrightarrow> \<not> lt a c))"

definition sort_laws :: "sync_lib \<Rightarrow> bool" where
  "sort_laws L \<longleftrightarrow> (\<forall>m. mset (sl_map_order L m) = mset m)
     \<and> (\<forall>lt m. mset (sl_sort_Slice L lt m) = mset m)
     \<and> (\<forall>lt m. strict_weak lt \<longrightarrow> sorted_wrt (\<lambda>a b. \<not> lt b a) (sl_sort_Slice L lt m))"

lemma mapping_less_weak: "strict_weak mapping_less"
  unfolding strict_weak_def mapping_less_def
  by (smt (verit, best) less_trans not_less order.strict_trans1 order.order_iff_strict order.trans)

text \<open>A list of pairs that is sorted by a comparison on distinct keys is determined by its map.\<close>

lemma sorted_pairs_unique:
  assumes "sorted_wrt (\<lambda>a b. \<not> mapping_less b a) m" "distinct (map fst m)"
  shows "m = map (\<lambda>k. (k, the (map_of m k))) (sort (map fst m))"
proof -
  have "sorted (map fst m)" using assms
  proof (induction m)
    case (Cons a m)
    have "fst a \<le> fst b" if "b \<in> set m" for b
      using Cons.prems that by (cases "fst a = fst b") (auto simp: mapping_less_def not_less)
    with Cons show ?case by auto
  qed simp
  then have "sort (map fst m) = map fst m" by (rule sorted_sort_id)
  moreover have "map (\<lambda>k. (k, the (map_of m k))) (map fst m) = m"
    using assms(2) by (auto intro!: map_idI)
  ultimately show ?thesis by simp
qed

lemma group_mappings_eq:
  assumes "sort_laws L"
  shows "getGroupMappings L rs = map (\<lambda>g. (g, group_resources rs g)) (sort (remdups (map resource_group rs)))"
proof -
  define m where "m = fold add_resource rs []"
  define s where "s = getGroupMappings L rs"
  have m: "distinct (map fst m)" "map_of m = (\<lambda>g. if g \<in> resource_group ` set rs then Some (group_resources rs g) else None)"
    by (auto simp: m_def distinct_resources map_of_resources)
  have s: "mset s = mset m" "sorted_wrt (\<lambda>a b. \<not> mapping_less b a) s"
    using assms mapping_less_weak by (simp_all add: s_def getGroupMappings_def sortGroupMappings_def m_def sort_laws_def)
  then have d: "distinct (map fst s)" "set (map fst s) = set (map fst m)"
    using m(1) by (metis mset_eq_imp_distinct_iff mset_map, metis mset_eq_setD mset_map)
  have "set s = set m" using s(1) by (rule mset_eq_setD)
  then have ms: "map_of s = map_of m" using d(1) m(1) by (simp add: map_of_inject_set)
  have "set (map fst m) = resource_group ` set rs"
  proof -
    have "set (map fst m) = dom (map_of m)" by (simp add: dom_map_of_conv_image_fst)
    also have "\<dots> = resource_group ` set rs" unfolding m(2) by (auto split: if_splits)
    finally show ?thesis .
  qed
  with d have "set (map fst s) = set (remdups (map resource_group rs))" by simp
  with d(1) have srt: "sort (map fst s) = sort (remdups (map resource_group rs))"
    by (intro sorted_distinct_set_unique) simp_all
  have "s = map (\<lambda>k. (k, the (map_of s k))) (sort (map fst s))" by (rule sorted_pairs_unique [OF s(2) d(1)])
  also have "\<dots> = map (\<lambda>g. (g, group_resources rs g)) (sort (remdups (map resource_group rs)))"
    unfolding srt ms m(2) by (rule map_cong) auto
  finally show ?thesis by (simp add: s_def)
qed

text \<open>
  C20: The groups of the role on the physical cluster do not depend on the order of the map or of the sorting: they are the reference definition,
  one entry for every group of a resource, in the order of the groups, with the resources of the group in the order in which they are given and the
  subresources of pods after the pods of the core group.
\<close>

theorem group_mappings_reference:
  assumes "sort_laws L"
  shows "getGroupMappings L rs = map (\<lambda>g. (g, group_resources rs g)) (sort (remdups (map resource_group rs)))"
  using assms by (rule group_mappings_eq)

section \<open>Lemmas on the export\<close>

definition group_text_laws :: "sync_lib \<Rightarrow> bool" where
  "group_text_laws L \<longleftrightarrow>
     (\<forall>gr. CHR ''.'' \<notin> set (gr_Resource gr) \<longrightarrow> sl_ParseGroupResource L (sl_grString L gr) = gr)
     \<and> (\<forall>gr. gr_Group gr \<noteq> [] \<longrightarrow> sl_grString L gr = gr_Resource gr @ ''.'' @ gr_Group gr)
     \<and> (\<forall>s. CHR ''.'' \<notin> set (gr_Resource (sl_ParseGroupResource L s)))"

lemma parse_placeholder:
  assumes "group_text_laws L"
  shows "ParseAPIResourceSchemaName (placeholder_name L (requested_group L r)) = Some (requested_group L r)"
proof -
  let ?g = "requested_group L r"
  have "gr_Group ?g \<noteq> []" "CHR ''.'' \<notin> set (gr_Resource ?g)"
    using assms by (auto simp: requested_group_def Let_def core_group_def group_text_laws_def)
  then have "placeholder_name L ?g = ''rev-0'' @ ''.'' @ gr_Resource ?g @ ''.'' @ gr_Group ?g"
    using assms by (simp add: placeholder_name_def group_text_laws_def)
  then show ?thesis using parse_name_iff [of "''rev-0''" "gr_Resource ?g" "gr_Group ?g"] \<open>CHR ''.'' \<notin> set (gr_Resource ?g)\<close> by simp
qed

lemma set_desired_groups:
  "set (desired_groups L schemas) = {sl_grString L gr |gr. \<exists>s \<in> set schemas. ParseAPIResourceSchemaName s = Some gr}"
proof -
  have "set (fold (\<lambda>s acc. case ParseAPIResourceSchemaName s of None \<Rightarrow> acc | Some gr \<Rightarrow> set_insert (sl_grString L gr) acc) schemas acc)
     = set acc \<union> {sl_grString L gr |gr. \<exists>s \<in> set schemas. ParseAPIResourceSchemaName s = Some gr}" for acc
    by (induction schemas arbitrary: acc) (auto split: option.splits)
  then show ?thesis by (simp add: desired_groups_def)
qed

lemma listed_iff_desired:
  assumes "group_text_laws L" "CHR ''.'' \<notin> set (gr_Resource gr)"
  shows "sl_grString L gr \<in> set (desired_groups L schemas) \<longleftrightarrow> gr \<in> listed_groups schemas"
proof
  assume "sl_grString L gr \<in> set (desired_groups L schemas)"
  then obtain gr' s where g: "sl_grString L gr = sl_grString L gr'" "s \<in> set schemas" "ParseAPIResourceSchemaName s = Some gr'"
    by (auto simp: set_desired_groups)
  with assms parsed_resource_no_dot have "gr = gr'" by (metis group_text_laws_def)
  with g show "gr \<in> listed_groups schemas" by (auto simp: listed_groups_def)
qed (auto simp: set_desired_groups listed_groups_def)

lemma merge_schemas_append:
  "merge_schemas L d rs acc =
     (fst acc @ map (placeholder_name L) (filter (\<lambda>g. sl_grString L g \<notin> set d) (map (requested_group L) rs)),
      snd acc \<or> filter (\<lambda>g. sl_grString L g \<notin> set d) (map (requested_group L) rs) \<noteq> [])"
  by (induction rs arbitrary: acc) (auto simp: Let_def)

lemma requested_dotless: "group_text_laws L \<Longrightarrow> CHR ''.'' \<notin> set (gr_Resource (requested_group L r))"
  by (simp add: requested_group_def Let_def group_text_laws_def)

lemma mergeLatest_eq:
  assumes "group_text_laws L"
  shows "mergeLatestResourceSchema L e rs =
    (let new = filter (\<lambda>g. g \<notin> listed_groups (LatestResourceSchemas e)) (map (requested_group L) rs) in
     (e\<lparr>LatestResourceSchemas := LatestResourceSchemas e @ map (placeholder_name L) new\<rparr>, new \<noteq> []))"
proof -
  have "filter (\<lambda>g. sl_grString L g \<notin> set (desired_groups L (LatestResourceSchemas e))) (map (requested_group L) rs)
      = filter (\<lambda>g. g \<notin> listed_groups (LatestResourceSchemas e)) (map (requested_group L) rs)"
    by (rule filter_cong) (auto simp: listed_iff_desired [OF assms] requested_dotless [OF assms])
  then show ?thesis
    by (simp only: mergeLatestResourceSchema_def merge_schemas_append Let_def prod.case fst_conv snd_conv simp_thms)
qed

lemma listed_append: "listed_groups (xs @ ys) = listed_groups xs \<union> listed_groups ys"
  by (auto simp: listed_groups_def)

lemma listed_placeholders:
  assumes "group_text_laws L" "set gs \<subseteq> range (requested_group L)"
  shows "listed_groups (map (placeholder_name L) gs) = set gs"
  using assms(2)
proof (induction gs)
  case (Cons g gs)
  then obtain r where "g = requested_group L r" by auto
  with Cons parse_placeholder [OF assms(1), of r] show ?case by (auto simp: listed_groups_def)
qed (simp add: listed_groups_def)

lemma listed_merged:
  assumes "group_text_laws L"
  shows "listed_groups (LatestResourceSchemas (fst (mergeLatestResourceSchema L e rs)))
    = listed_groups (LatestResourceSchemas e) \<union> requested_group L ` set rs"
proof -
  have "set (filter (\<lambda>g. g \<notin> listed_groups (LatestResourceSchemas e)) (map (requested_group L) rs)) \<subseteq> range (requested_group L)" by auto
  from listed_placeholders [OF assms this] show ?thesis
    by (auto simp: mergeLatest_eq [OF assms] Let_def listed_append)
qed

text \<open>
  The export and the requested resources: the command adds a placeholder for exactly the requested resources that no schema
  of the export stands for, behind the schemas that are there, and the name of a placeholder reads back as the resource it was made for. So
  afterwards the export stands for the old resources and the requested ones, and the same command again changes nothing.
\<close>

theorem requested_resources_exported:
  assumes "group_text_laws L" "mergeLatestResourceSchema L e rs = (e', modified)"
  shows "listed_groups (LatestResourceSchemas e') = listed_groups (LatestResourceSchemas e) \<union> requested_group L ` set rs
    \<and> take (length (LatestResourceSchemas e)) (LatestResourceSchemas e') = LatestResourceSchemas e
    \<and> (modified \<longleftrightarrow> LatestResourceSchemas e' \<noteq> LatestResourceSchemas e)
    \<and> mergeLatestResourceSchema L e' rs = (e', False)"
proof -
  have l: "listed_groups (LatestResourceSchemas e') = listed_groups (LatestResourceSchemas e) \<union> requested_group L ` set rs"
    using listed_merged [OF assms(1), of e rs] assms(2) by simp
  then have "filter (\<lambda>g. g \<notin> listed_groups (LatestResourceSchemas e')) (map (requested_group L) rs) = []"
    by (auto simp: filter_empty_conv)
  then have "mergeLatestResourceSchema L e' rs = (e', False)" by (simp add: mergeLatest_eq [OF assms(1)])
  with l assms show ?thesis by (auto simp: mergeLatest_eq Let_def)
qed

section \<open>Lemmas on the target\<close>

text \<open>The server: a merge patch changes what differs between the two documents, if the preconditions hold.\<close>

definition label_diff :: "smap \<Rightarrow> smap \<Rightarrow> map_patch" where
  "label_diff old new = map (\<lambda>(k, v). (k, Some v)) (filter (\<lambda>(k, v). go_get old k \<noteq> Some v) (entries new))
     @ map (\<lambda>(k, v). (k, None)) (filter (\<lambda>(k, v). \<not> go_has new k) (entries old))"

definition precondition :: "'a merge_doc \<Rightarrow> ('b) object_meta_scheme \<Rightarrow> bool" where
  "precondition d obj \<longleftrightarrow> (md_UID d = [] \<or> md_UID d = UID obj) \<and> (md_ResourceVersion d = [] \<or> md_ResourceVersion d = ResourceVersion obj)"

definition merged_target :: "target_body merge_doc \<Rightarrow> target_body merge_doc \<Rightarrow> sync_target \<Rightarrow> sync_target" where
  "merged_target old new st = st\<lparr>Labels := apply_map_patch (label_diff (fst (md_Body old)) (fst (md_Body new))) (Labels st),
     st_Spec := (if snd (md_Body old) = snd (md_Body new) then st_Spec st else (st_Spec st)\<lparr>SupportedAPIExports := snd (md_Body new)\<rparr>)\<rparr>"

lemma map_of_filtered:
  "distinct (map fst l) \<Longrightarrow> map_of (filter P l) k = (case map_of l k of None \<Rightarrow> None | Some v \<Rightarrow> if P (k, v) then Some v else None)"
  by (induction l) (auto simp: map_of_eq_None_iff split: option.splits)

lemma map_of_removals: "map_of (map (\<lambda>(k, v). (k, None)) (filter (\<lambda>(k, v). P k) l)) k = (if P k \<and> map_of l k \<noteq> None then Some None else None)"
  by (induction l) auto

lemma merged_labels:
  assumes "wf_map (Some new)"
  shows "go_get (apply_map_patch (label_diff old (Some new)) old) k = map_of new k"
proof -
  have "map_of (label_diff old (Some new)) k =
     (case map_of new k of Some v \<Rightarrow> if go_get old k = Some v then None else Some (Some v)
      | None \<Rightarrow> if go_get old k \<noteq> None then Some None else None)"
  proof -
    have "map_of (map (\<lambda>(k, v). (k, Some v)) (filter (\<lambda>(k, v). go_get old k \<noteq> Some v) new)) k =
       (case map_of new k of None \<Rightarrow> None | Some v \<Rightarrow> if go_get old k \<noteq> Some v then Some (Some v) else None)"
      using assms by (simp add: wf_map_def map_of_map map_of_filtered split: option.splits)
    then show ?thesis
      unfolding label_diff_def map_of_append map_add_def entries_simps map_of_removals [of "\<lambda>k. \<not> go_has (Some new) k"]
      by (auto simp: go_has_def go_get_def split: option.splits)
  qed
  then show ?thesis by (auto simp: go_get_apply_patch split: option.splits)
qed

definition serves_target :: "sync_server \<Rightarrow> string \<Rightarrow> sync_target \<Rightarrow> bool" where
  "serves_target S name st \<longleftrightarrow> sv_answer S (TargetGet name) = None \<and> sv_target S (TargetGet name) = st
     \<and> (\<forall>old new. sv_answer S (TargetMerge name old new) = None \<longrightarrow>
          precondition new st \<and> sv_target S (TargetMerge name old new) = merged_target old new st)"

lemma applySyncTarget_served:
  assumes "serves_target S name st"
  shows "snd (applySyncTarget L S opts name labels) = Inr st' \<longleftrightarrow>
      snd (apply_export L S opts) = Inr () \<and> snd (update_target S name labels (supportedAPIExports L opts) st) = Inr st'"
    and "TargetMerge n old new \<in> set (fst (applySyncTarget L S opts name labels)) \<longleftrightarrow>
      snd (apply_export L S opts) = Inr () \<and> TargetMerge n old new \<in> set (fst (update_target S name labels (supportedAPIExports L opts) st))"
proof -
  have e: "TargetMerge n old new \<notin> set (fst (apply_export L S opts))"
    by (auto simp: apply_export_def in_andThen split: option.splits go_error.splits if_splits prod.splits)
  from assms show "snd (applySyncTarget L S opts name labels) = Inr st' \<longleftrightarrow>
      snd (apply_export L S opts) = Inr () \<and> snd (update_target S name labels (supportedAPIExports L opts) st) = Inr st'"
    "TargetMerge n old new \<in> set (fst (applySyncTarget L S opts name labels)) \<longleftrightarrow>
      snd (apply_export L S opts) = Inr () \<and> TargetMerge n old new \<in> set (fst (update_target S name labels (supportedAPIExports L opts) st))"
    by (simp_all add: applySyncTarget_def ok_andThen in_andThen e serves_target_def Let_def)
qed

lemma update_target_result:
  assumes "serves_target S name st" "wf_map (Some labels)" "snd (update_target S name labels exports st) = Inr st'"
  shows "go_get (Labels st') k = map_of labels k \<and> SupportedAPIExports (st_Spec st') = exports \<and> UID st' = UID st
    \<and> Unschedulable (st_Spec st') = Unschedulable (st_Spec st) \<and> EvictAfter (st_Spec st') = EvictAfter (st_Spec st)"
proof (cases "map_equal labels (entries (Labels st)) \<and> exports = SupportedAPIExports (st_Spec st)")
  case True
  with assms(3) show ?thesis by (auto simp: update_target_def go_get_def map_equal_iff)
next
  case False
  define old where "old = \<lparr>md_UID = [], md_ResourceVersion = [], md_Body = (Labels st, SupportedAPIExports (st_Spec st))\<rparr>"
  define new where "new = \<lparr>md_UID = UID st, md_ResourceVersion = ResourceVersion st, md_Body = (Some labels, exports)\<rparr>"
  from False assms(3) have "sv_answer S (TargetMerge name old new) = None" "st' = sv_target S (TargetMerge name old new)"
    by (auto simp: update_target_def old_def new_def Let_def ok_andThen)
  with assms(1) have "st' = merged_target old new st" by (simp add: serves_target_def)
  with merged_labels [OF assms(2)] show ?thesis by (simp add: merged_target_def old_def new_def)
qed

section \<open>Properties of the sync target\<close>

text \<open>
  C22: A run on an existing target that succeeds leaves exactly the labels and exports of the options on it, keeps its identity and whether it is cordoned
  or evicting, and the same run again patches nothing.
\<close>

theorem sync_target_applied:
  assumes "serves_target S name st" "wf_map (Some labels)" "snd (applySyncTarget L S opts name labels) = Inr st'"
    and "serves_target S2 name st'"
  shows "go_get (Labels st') k = map_of labels k \<and> SupportedAPIExports (st_Spec st') = supportedAPIExports L opts
    \<and> UID st' = UID st \<and> Unschedulable (st_Spec st') = Unschedulable (st_Spec st) \<and> EvictAfter (st_Spec st') = EvictAfter (st_Spec st)
    \<and> TargetMerge n old new \<notin> set (fst (applySyncTarget L S2 opts name labels))"
proof -
  from assms(1,3) have u: "snd (update_target S name labels (supportedAPIExports L opts) st) = Inr st'"
    by (simp add: applySyncTarget_served)
  note r = update_target_result [OF assms(1,2) u]
  then have "map_equal labels (entries (Labels st'))" by (auto simp: map_equal_iff go_get_def)
  with r have "TargetMerge n old new \<notin> set (fst (update_target S2 name labels (supportedAPIExports L opts) st'))"
    by (simp add: update_target_def)
  with r assms(4) show ?thesis by (simp add: applySyncTarget_served)
qed

text \<open>
  When somebody else creates the target between the read and the creation, the client returns an empty object with the error, and the command
  computes its patch from that: the patch carries no precondition, so it is accepted whatever the other target is, although
  the UID and the version are put into the patch to be preconditions.
\<close>

theorem lost_creation_patches_blindly:
  assumes "snd (apply_export L S opts) = Inr ()" "sv_answer S (TargetGet name) = Some NotFound"
    and c: "c = TargetCreate (new_target name labels (supportedAPIExports L opts))" "sv_answer S c = Some AlreadyExists"
    and client: "UID (sv_target S c) = [] \<and> ResourceVersion (sv_target S c) = [] \<and> Labels (sv_target S c) = None \<and> SupportedAPIExports (st_Spec (sv_target S c)) = []"
    and "supportedAPIExports L opts \<noteq> []"
  shows "\<exists>old new. TargetMerge name old new \<in> set (fst (applySyncTarget L S opts name labels)) \<and> precondition new (other :: sync_target)"
proof -
  let ?new = "\<lparr>md_UID = [], md_ResourceVersion = [], md_Body = (Some labels, supportedAPIExports L opts)\<rparr>"
  let ?old = "\<lparr>md_UID = [], md_ResourceVersion = [], md_Body = (None, [])\<rparr>"
  have "TargetMerge name ?old ?new \<in> set (fst (update_target S name labels (supportedAPIExports L opts) (sv_target S c)))"
    using assms by (simp add: update_target_def Let_def in_andThen)
  with assms have "TargetMerge name ?old ?new \<in> set (fst (applySyncTarget L S opts name labels))"
    by (simp add: applySyncTarget_def in_andThen Let_def)
  moreover have "precondition ?new other" by (simp add: precondition_def)
  ultimately show ?thesis by blast
qed

section \<open>Properties of the account\<close>

lemma poll_none: "(\<And>i. f i = None) \<Longrightarrow> poll f n i = None"
  by (induction n arbitrary: i) auto

lemma poll_some: "poll f n i = Some x \<Longrightarrow> \<exists>j \<ge> i. j < i + n \<and> f j = Some x"
proof (induction n arbitrary: i)
  case (Suc n)
  show ?case
  proof (cases "f i")
    case None
    with Suc.prems have "poll f n (Suc i) = Some x" by simp
    from Suc.IH [OF this] obtain j where "Suc i \<le> j" "j < Suc i + n" "f j = Some x" by blast
    then show ?thesis by (intro exI [of _ j]) simp
  qed (use Suc.prems in auto)
qed simp

text \<open>
  When the service account appears between the read and the creation, the command goes on with the empty object that the client returns with
  the error: it waits for the token of an account without a name until the timeout, and fails, though account, role and binding are in place.
\<close>

theorem lost_account_creation_fails:
  assumes "\<And>n. sv_answer S (AccountGet namespace n) = Some NotFound" "\<And>n rs. sv_answer S (AccountCreate namespace n rs) = Some AlreadyExists"
    and client: "\<And>c. sv_answer S c \<noteq> None \<Longrightarrow> Name (sv_account S c) = []" "\<And>i. \<exists>e. sv_later_account S i [] = Inl e"
  shows "snd (enableSyncerForWorkspace L S opts name namespace labels) \<noteq> Inr r"
proof
  assume "snd (enableSyncerForWorkspace L S opts name namespace labels) = Inr r"
  then obtain syncerID owners sa secret where sa: "snd (apply_account S namespace syncerID owners) = Inr sa"
    and p: "poll (token_secret S (Name sa)) (sv_attempts S) 0 = Some secret"
    by (auto simp: enableSyncerForWorkspace_def ok_andThen split: option.splits)
  from sa assms(1,2) have "sa = sv_account S (AccountCreate namespace syncerID owners)"
    by (auto simp: apply_account_def ok_andThen Let_def)
  with assms(2) client(1) have "Name sa = []" by simp
  then have "token_secret S (Name sa) i = None" for i using client(2) [of i] by (auto simp: token_secret_def)
  with p show False by (simp add: poll_none)
qed

fun call_rules :: "sync_call \<Rightarrow> cluster_rule list option" where
  "call_rules (RoleCreate _ _ rules) = Some rules"
| "call_rules (RoleMerge _ _ new) = Some (snd (md_Body new))"
| "call_rules _ = None"

lemma no_rules_target: "sends (\<lambda>c. call_rules c = None) (applySyncTarget L S opts name labels)"
proof -
  have e: "sends (\<lambda>c. call_rules c = None) (apply_export L S opts)"
    by (auto simp: apply_export_def split: option.splits go_error.splits prod.splits intro!: sends_andThen)
  have u: "sends (\<lambda>c. call_rules c = None) (update_target S name labels exports st)" for exports st
    by (auto simp: update_target_def Let_def intro!: sends_andThen)
  show ?thesis unfolding applySyncTarget_def Let_def
    by (intro sends_andThen e) (auto simp: u split: option.splits go_error.splits intro!: sends_andThen)
qed

lemma no_rules_account: "sends (\<lambda>c. call_rules c = None) (apply_account S namespace syncerID owners)"
  unfolding apply_account_def Let_def
  by (intro sends_andThen) (auto split: option.splits go_error.splits intro!: sends_andThen)

lemma no_rules_binding: "sends (\<lambda>c. call_rules c = None) (apply_binding S namespace syncerID owners)"
  unfolding apply_binding_def by (intro sends_andThen) auto

lemmas other_calls_no_rules = no_rules_target no_rules_account no_rules_binding

lemma role_calls:
  "sends (\<lambda>c. call_rules c = None \<or> call_rules c = Some rules) (apply_role S syncerID owners rules)"
  by (auto simp: apply_role_def Let_def split: option.splits go_error.splits intro!: sends_andThen)

lemma sends_mono: "sends P m \<Longrightarrow> (\<And>c. P c \<Longrightarrow> Q c) \<Longrightarrow> sends Q m"
  by (auto simp: sends_def)

lemma enable_rules:
  "sends (\<lambda>c. call_rules c = None \<or> call_rules c = Some (syncer_rules name)) (enableSyncerForWorkspace L S opts name namespace labels)"
  unfolding enableSyncerForWorkspace_def
  by (intro sends_andThen)
     (auto intro: sends_mono [OF other_calls_no_rules(1)] sends_mono [OF other_calls_no_rules(2)] sends_mono [OF other_calls_no_rules(3)] role_calls
       split: option.splits intro!: sends_andThen)

text \<open>
  The role of the syncer, whether it is created or patched over an older one: in the workload group it names the one sync target of the
  command in every rule, so it gives no access to another target; and it has the rule \<open>sync\<close> by which the controller that replicates roles
  recognises the roles it has to copy to the shards.
\<close>

theorem syncer_role_confined:
  assumes "c \<in> set (fst (enableSyncerForWorkspace L S opts name namespace labels))" "call_rules c = Some rules" "rule \<in> set rules"
    and "workload_GroupName \<in> set (pr_APIGroups rule) \<or> ''*'' \<in> set (pr_APIGroups rule)"
  shows "cr_ResourceNames rule = [name] \<and> ''*'' \<notin> set (pr_Resources rule) \<and> ''*'' \<notin> set (pr_Verbs rule)
    \<and> HasSyncRule (map policy_rule.truncate rules)"
proof -
  from sendsD [OF enable_rules assms(1)] assms(2) have r: "rules = syncer_rules name" by auto
  with assms(3,4) show ?thesis
    by (auto simp: syncer_rules_def workload_rule_def workload_GroupName_def policy_rule.defs)
qed

section \<open>Properties of the names\<close>

lemma validated_name:
  assumes "SyncOptions_Validate L opts = []"
  shows "length (so_SyncTargetName opts) \<le> 228"
  using assms by (simp add: SyncOptions_Validate_def DNSIDPrefix_def split: if_splits)

text \<open>
  C39: The length check of the options. The names of the account, the role, the deployment and, by default, the namespace have 20 characters more
  than the name of the target, so a validated name gives at most 248. But the check compares with 254: of the names that it accepts, the ones of 228
  characters give the resolver a name that is longer than the 253 characters of a DNS subdomain.
\<close>

theorem validated_name_bounds:
  assumes "SyncOptions_Validate L opts = []" "Name st = so_SyncTargetName opts"
    and "getSyncerID J st = Inr syncerID" "GetDNSID J' cluster (UID st) (Name st) = Inr dnsID"
  shows "length syncerID = length (Name st) + 20 \<and> length syncerID \<le> 248 \<and> (length dnsID \<le> 253 \<longleftrightarrow> length (Name st) \<le> 227)"
  using validated_name [OF assms(1)] assms(2-4)
  by (auto simp: getSyncerID_def GetDNSID_def Let_def split: if_splits)

lemma replace_syncer: "replace_first ''syncer'' ''dns'' (''kcp-syncer-'' @ s) = ''kcp-dns-'' @ s"
  by (simp add: has_prefix_def)

text \<open>
  The names that the command puts into the manifest and the ones that the syncer computes later agree: the role for the resolver is named by
  the prefix of the name under which the syncer creates the resolver of a workspace, the rest is the hash of the workspace.
\<close>

theorem dns_names_agree:
  assumes "getSyncerID J st = Inr syncerID" "GetDNSID J cluster (UID st) (Name st) = Inr dnsID"
  shows "dnsID = replace_first ''syncer'' ''dns'' syncerID @ ''-'' @ take 8 (base36_lower J (sum224 J cluster))
    \<and> ta_DNSRole (template_arguments L opts namespace url token st syncerID rs) @ ''-'' @ take 8 (base36_lower J (sum224 J cluster)) = dnsID"
proof -
  from assms(1) have s: "syncerID = ''kcp-syncer-'' @ Name st @ ''-'' @ take 8 (base36_lower J (sum224 J (UID st)))"
    by (auto simp: getSyncerID_def Let_def split: if_splits)
  have r: "replace_first ''syncer'' ''dns'' syncerID = ''kcp-dns-'' @ Name st @ ''-'' @ take 8 (base36_lower J (sum224 J (UID st)))"
    unfolding s by (rule replace_syncer)
  from assms(2) have "dnsID = replace_first ''syncer'' ''dns'' syncerID @ ''-'' @ take 8 (base36_lower J (sum224 J cluster))"
    unfolding r by (auto simp: GetDNSID_def Let_def split: if_splits)
  then show ?thesis by (simp add: template_arguments_def Let_def)
qed

section \<open>Permissions on the physical cluster\<close>

definition synced_names :: "sync_target \<Rightarrow> string set" where
  "synced_names st =
     (if SupportedAPIExports (st_Spec st) = [] \<or> map er_Export (SupportedAPIExports (st_Spec st)) = [ImportedAPISExportName] then {}
      else (\<lambda>rs. gr_Resource (rs_GroupResource rs) @ ''.'' @ gr_Group (rs_GroupResource rs)) ` set (SyncedResources (st_Status st)))"

lemma set_fold_insert: "set (fold set_insert xs acc) = set acc \<union> set xs"
  by (induction xs arbitrary: acc) auto

lemma set_fold_insert_image: "set (fold (\<lambda>x. set_insert (f x)) xs acc) = set acc \<union> f ` set xs"
  by (induction xs arbitrary: acc) auto

lemma permission_attempt_set:
  assumes "permission_attempt expected later i = Some rs"
  obtains st where "later i = Inr st" "set rs = set expected \<union> synced_names st"
proof -
  from assms obtain st where st: "later i = Inr st" by (auto simp: permission_attempt_def split: sum.splits)
  have "map er_Export xs = [e] \<longleftrightarrow> length xs = 1 \<and> er_Export (xs ! 0) = e" for xs e
    by (cases xs) auto
  with assms st have "set rs = set expected \<union> synced_names st"
    by (auto simp: permission_attempt_def synced_names_def Let_def set_fold_insert_image split: if_splits)
  with st show ?thesis by (rule that)
qed

lemma poll_some_bounded: "poll f n i = Some x \<Longrightarrow> \<exists>j. i \<le> j \<and> j < i + n \<and> f j = Some x"
proof (induction f n i rule: poll.induct)
  case (2 f n i)
  show ?case
  proof (cases "f i")
    case None
    with 2 obtain j where "Suc i \<le> j" "j < Suc i + n" "f j = Some x" by auto
    then show ?thesis by (intro exI [of _ j]) simp
  next
    case (Some y)
    with 2 show ?thesis by (intro exI [of _ i]) simp
  qed
qed simp

lemma permissions_set:
  assumes "getResourcesForPermission S opts = Inr rs"
  obtains i st where "i < sv_attempts S" "sv_later_target S i = Inr st"
    "set rs = set (so_ResourcesToSync opts) \<union> {''secrets'', ''configmaps''} \<union> synced_names st"
proof -
  let ?e = "fold set_insert (so_ResourcesToSync opts @ [''secrets'', ''configmaps'']) []"
  from assms have "poll (permission_attempt ?e (sv_later_target S)) (sv_attempts S) 0 = Some rs"
    by (simp add: getResourcesForPermission_def Let_def split: option.splits)
  from poll_some_bounded [OF this] obtain i where i: "i < sv_attempts S" "permission_attempt ?e (sv_later_target S) i = Some rs" by auto
  from i(2) obtain st where "sv_later_target S i = Inr st" "set rs = set ?e \<union> synced_names st" by (rule permission_attempt_set)
  moreover have "set ?e = set (so_ResourcesToSync opts) \<union> {''secrets'', ''configmaps''}" unfolding set_fold_insert by auto
  ultimately show ?thesis using that i(1) by blast
qed

lemma granted_pairs:
  assumes "sort_laws L"
  shows "(\<exists>rs. (g, rs) \<in> set (getGroupMappings L xs) \<and> r \<in> set rs) \<longleftrightarrow> (\<exists>x \<in> set xs. resource_group x = g \<and> r \<in> set (granted x))"
proof -
  have "set (getGroupMappings L xs) = (\<lambda>g. (g, group_resources xs g)) ` resource_group ` set xs"
    by (simp add: group_mappings_eq [OF assms])
  then have "(\<exists>rs. (g, rs) \<in> set (getGroupMappings L xs) \<and> r \<in> set rs) \<longleftrightarrow> g \<in> resource_group ` set xs \<and> r \<in> set (group_resources xs g)"
    by auto
  also have "\<dots> \<longleftrightarrow> (\<exists>x \<in> set xs. resource_group x = g \<and> r \<in> set (granted x))"
    by (auto simp: group_resources_def)
  finally show ?thesis .
qed

text \<open>The triples of group, resource and verb that rules list, and the ones that every syncer gets whatever it syncs.\<close>

definition rule_listing :: "policy_rule list \<Rightarrow> (string \<times> string \<times> string) set" where
  "rule_listing rules = (\<Union>rule \<in> set rules. set (pr_APIGroups rule) \<times> set (pr_Resources rule) \<times> set (pr_Verbs rule))"

definition basic_permissions :: "(string \<times> string \<times> string) set" where
  "basic_permissions =
     {[]} \<times> {''namespaces''} \<times> {''create'', ''get'', ''list'', ''watch'', ''delete''} \<union> {([], ''endpoints'', ''get'')}
   \<union> {''apiextensions.k8s.io''} \<times> {''customresourcedefinitions''} \<times> {''get'', ''list'', ''watch''}
   \<union> {''networking.k8s.io''} \<times> {''networkpolicies''} \<times> {''create'', ''list'', ''watch''}
   \<union> {''apiresource.kcp.io''} \<times> {''apiresourceimports''} \<times> {''create'', ''update'', ''list'', ''watch''}"

lemma rule_listing_append: "rule_listing (xs @ ys) = rule_listing xs \<union> rule_listing ys"
  by (simp add: rule_listing_def)

lemma rule_listing_mappings:
  "rule_listing (map (\<lambda>(g, rs). \<lparr>pr_APIGroups = [g], pr_Resources = rs, pr_Verbs = [''*'']\<rparr>) ms)
     = {(g, r, v). v = ''*'' \<and> (\<exists>rs. (g, rs) \<in> set ms \<and> r \<in> set rs)}"
proof (induction ms)
  case (Cons m ms)
  obtain g rs where "m = (g, rs)" by (cases m)
  then have "rule_listing (map (\<lambda>(g, rs). \<lparr>pr_APIGroups = [g], pr_Resources = rs, pr_Verbs = [''*'']\<rparr>) (m # ms))
      = {g} \<times> set rs \<times> {''*''} \<union> rule_listing (map (\<lambda>(g, rs). \<lparr>pr_APIGroups = [g], pr_Resources = rs, pr_Verbs = [''*'']\<rparr>) ms)"
    by (simp add: rule_listing_def)
  then show ?case unfolding Cons.IH using \<open>m = (g, rs)\<close> by auto
qed (simp add: rule_listing_def)

lemma rule_listing_manifest:
  "rule_listing (manifest_cluster_role args) = basic_permissions
     \<union> {(g, r, v). v = ''*'' \<and> (\<exists>rs. (g, rs) \<in> set (ta_GroupMappings args) \<and> r \<in> set rs)}"
  unfolding manifest_cluster_role_def rule_listing_append rule_listing_mappings
  by (rule arg_cong [where f = "\<lambda>s. s \<union> _"]) (auto simp: rule_listing_def basic_permissions_def)

text \<open>
  C21: What the cluster role of the manifest that a run writes lists for the syncer on the physical cluster: the basic permissions of every
  syncer (for namespaces, endpoints, definitions, network policies and imports), and all verbs on exactly the resources of the options,
  secrets and configmaps, and the resources that the status of the target lists at one of the polls of the run, each under its own group, with
  the subresources of pods; the listed resources count only when the target supports another export than the imported one. (The role for the DNS
  server in the namespace of the syncer is the same for every run and not part of this.)
\<close>

theorem downstream_permissions_exact:
  assumes "snd (SyncOptions_Run L S SplitHostPort JoinHostPort ParseClusterURL opts) = Inr args" "sort_laws L"
  shows "\<exists>i st. i < sv_attempts S \<and> sv_later_target S i = Inr st \<and>
    rule_listing (manifest_cluster_role args) = basic_permissions \<union>
      (\<Union>x \<in> set (so_ResourcesToSync opts) \<union> {''secrets'', ''configmaps''} \<union> synced_names st.
         {resource_group x} \<times> set (granted x) \<times> {''*''})"
proof -
  from assms(1) obtain rs where rs: "getResourcesForPermission S opts = Inr rs" "ta_GroupMappings args = getGroupMappings L (set_list rs)"
    by (auto simp: SyncOptions_Run_def ok_andThen template_arguments_def Let_def okay_def)
  from permissions_set [OF rs(1)] obtain i st where st: "i < sv_attempts S" "sv_later_target S i = Inr st"
    "set rs = set (so_ResourcesToSync opts) \<union> {''secrets'', ''configmaps''} \<union> synced_names st" .
  have pairs: "(\<exists>rs. (g, rs) \<in> set (ta_GroupMappings args) \<and> r \<in> set rs) \<longleftrightarrow>
       (\<exists>x \<in> set (so_ResourcesToSync opts) \<union> {''secrets'', ''configmaps''} \<union> synced_names st. resource_group x = g \<and> r \<in> set (granted x))" for g r
    unfolding rs(2) granted_pairs [OF assms(2)] set_ops(3) st(3) ..
  have "rule_listing (manifest_cluster_role args) = basic_permissions \<union>
      (\<Union>x \<in> set (so_ResourcesToSync opts) \<union> {''secrets'', ''configmaps''} \<union> synced_names st.
         {resource_group x} \<times> set (granted x) \<times> {''*''})"
    unfolding rule_listing_manifest pairs by auto
  with st(1,2) show ?thesis by blast
qed

section \<open>Witnesses\<close>

fun sorted_insert :: "('a \<Rightarrow> 'a \<Rightarrow> bool) \<Rightarrow> 'a \<Rightarrow> 'a list \<Rightarrow> 'a list" where
  "sorted_insert lt x [] = [x]"
| "sorted_insert lt x (y # ys) = (if lt y x then y # sorted_insert lt x ys else x # y # ys)"

definition insertion_sort :: "('a \<Rightarrow> 'a \<Rightarrow> bool) \<Rightarrow> 'a list \<Rightarrow> 'a list" where
  "insertion_sort lt xs = foldr (sorted_insert lt) xs []"

lemma mset_sorted_insert: "mset (sorted_insert lt x ys) = add_mset x (mset ys)"
  by (induction ys) auto

lemma strict_weakD:
  assumes "strict_weak lt"
  shows "\<not> lt a a" "lt a b \<Longrightarrow> \<not> lt b a" "\<not> lt a b \<Longrightarrow> \<not> lt b c \<Longrightarrow> \<not> lt a c"
  using assms unfolding strict_weak_def by blast+

lemma sorted_sorted_insert:
  assumes "strict_weak lt" "sorted_wrt (\<lambda>a b. \<not> lt b a) ys"
  shows "sorted_wrt (\<lambda>a b. \<not> lt b a) (sorted_insert lt x ys)"
  using assms(2)
proof (induction ys)
  case (Cons y ys)
  have S: "set (sorted_insert lt x ys) = insert x (set ys)" by (metis mset_sorted_insert set_mset_add_mset_insert set_mset_mset)
  show ?case
  proof (cases "lt y x")
    case True
    then have "\<not> lt x y" by (rule strict_weakD(2) [OF assms(1)])
    with Cons True S show ?thesis by auto
  next
    case False
    have "\<not> lt z x" if "z \<in> set ys" for z
      using Cons.prems that by (intro strict_weakD(3) [OF assms(1) _ False]) simp
    with Cons.prems False show ?thesis by auto
  qed
qed simp

lemma insertion_sort_laws: "mset (insertion_sort lt xs) = mset xs" "strict_weak lt \<Longrightarrow> sorted_wrt (\<lambda>a b. \<not> lt b a) (insertion_sort lt xs)"
  by (induction xs) (auto simp: insertion_sort_def mset_sorted_insert sorted_sorted_insert)

definition ex_sync :: sync_lib where
  "ex_sync = \<lparr>sl_base_Validate = None, sl_Split = (\<lambda>e. (takeWhile (\<lambda>c. c \<noteq> CHR '':'') e, tl (dropWhile (\<lambda>c. c \<noteq> CHR '':'') e))),
     sl_grString = ex_string, sl_ParseGroupResource = ex_parse, sl_json = basic_json, sl_map_order = rev, sl_sort_Slice = insertion_sort\<rparr>"

lemma ex_parse_dotless: "CHR ''.'' \<notin> set (gr_Resource (ex_parse s))"
  by (auto simp: ex_parse_def dest: set_takeWhileD)

lemma ex_sync_laws [simp]: "sort_laws ex_sync" "group_text_laws ex_sync"
  by (simp_all add: sort_laws_def group_text_laws_def ex_sync_def insertion_sort_laws ex_parse_string ex_parse_dotless)
     (simp add: ex_string_def)

definition ex_opts :: sync_options where
  "ex_opts = \<lparr>so_ResourcesToSync = [''deployments.apps''], so_APIExports = [''root:kubernetes''], so_SyncerImage = ''syncer'', so_Replicas = 1,
     so_OutputFile = ''-'', so_DownstreamNamespace = [], so_KCPNamespace = ''default'', so_SyncTargetName = ''east'', so_SyncTargetLabels = [''a=b'']\<rparr>"

theorem group_mappings_reference_witness:
  "getGroupMappings ex_sync [''services'', ''deployments.apps'', ''secrets''] = [([], [''services'', ''secrets'']), (''apps'', [''deployments''])]"
proof -
  have g: "group_and_name ''services'' = ([], ''services'')" "group_and_name ''secrets'' = ([], ''secrets'')"
    "group_and_name ''deployments.apps'' = (''apps'', ''deployments'')"
    by (simp_all add: group_and_name_def numeral_2_eq_2)
  have "sort [''apps'', []] = [[], ''apps'']" by simp
  then show ?thesis
    using group_mappings_reference [OF ex_sync_laws(1), of "[''services'', ''deployments.apps'', ''secrets'']"]
    by (simp add: resource_group_def group_resources_def granted_def g)
qed

theorem requested_resources_exported_witness:
  "mergeLatestResourceSchema ex_sync (ex_export ''rev-7.deployments.apps'') [''deployments.apps'', ''services'']
     = ((ex_export [])\<lparr>LatestResourceSchemas := [''rev-7.deployments.apps'', ''rev-0.services.core'']\<rparr>, True)
   \<and> mergeLatestResourceSchema ex_sync ((ex_export [])\<lparr>LatestResourceSchemas := [''rev-7.deployments.apps'', ''rev-0.services.core'']\<rparr>)
       [''deployments.apps'', ''services''] = ((ex_export [])\<lparr>LatestResourceSchemas := [''rev-7.deployments.apps'', ''rev-0.services.core'']\<rparr>, False)"
proof -
  have m: "mergeLatestResourceSchema ex_sync (ex_export ''rev-7.deployments.apps'') [''deployments.apps'', ''services'']
     = ((ex_export [])\<lparr>LatestResourceSchemas := [''rev-7.deployments.apps'', ''rev-0.services.core'']\<rparr>, True)"
    by (simp add: mergeLatestResourceSchema_def desired_groups_def ParseAPIResourceSchemaName_def numeral_3_eq_3 requested_group_def ex_sync_def
        ex_parse_def ex_string_def core_group_def placeholder_name_def ex_export_def set_insert_def)
  with requested_resources_exported [OF ex_sync_laws(2) m] show ?thesis by simp
qed

text \<open>A server with one target and no account; creations are answered with an error when \<open>raced\<close>.\<close>

definition ex_account :: "string \<Rightarrow> account" where
  "ex_account n = object_meta.extend (meta_named ''user'' n) \<lparr>sa_Owners = [], sa_Secrets = [''token-1'']\<rparr>"

definition ex_role :: cluster_role where
  "ex_role = object_meta.extend (meta_named ''user'' ''role'') \<lparr>cl_Owners = [], cl_Rules = []\<rparr>"

definition ex_void :: sync_target where
  "ex_void = object_meta.extend empty_meta \<lparr>st_Spec = \<lparr>Unschedulable = False, EvictAfter = None, SupportedAPIExports = [], Cells = None\<rparr>,
     st_Status = \<lparr>st_Conditions = [], SyncedResources = [], LastSyncerHeartbeatTime = None, VirtualWorkspaces = [], TunnelWorkspaces = []\<rparr>\<rparr>"

fun ex_missing :: "bool \<Rightarrow> sync_call \<Rightarrow> go_error option" where
  "ex_missing raced ExportGet = Some NotFound"
| "ex_missing raced (TargetGet _) = (if raced then Some NotFound else None)"
| "ex_missing raced (AccountGet _ _) = Some NotFound"
| "ex_missing raced (RoleGet _) = Some NotFound"
| "ex_missing raced (BindingGet _) = Some NotFound"
| "ex_missing raced (TargetCreate _) = (if raced then Some AlreadyExists else None)"
| "ex_missing raced (AccountCreate _ _ _) = (if raced then Some AlreadyExists else None)"
| "ex_missing raced _ = None"

definition ex_sync_server :: "bool \<Rightarrow> sync_target \<Rightarrow> sync_server" where
  "ex_sync_server raced st = \<lparr>sv_answer = (\<lambda>c. case c of TargetMerge n old new \<Rightarrow> if raced \<or> precondition new st then None else Some Conflict | _ \<Rightarrow> ex_missing raced c), sv_export = imported_export,
     sv_target = (\<lambda>c. if raced then ex_void else case c of TargetMerge n old new \<Rightarrow> merged_target old new st | _ \<Rightarrow> st),
     sv_account = (\<lambda>c. ex_account (if raced then [] else ''sa'')), sv_role = ex_role, sv_secret = Some [(''token'', ''t'')], sv_attempts = 3,
     sv_later_target = (\<lambda>_. Inr st), sv_later_account = (\<lambda>_ n. if n = [] then Inl (Failure ''empty name'') else Inr (ex_account n))\<rparr>"

lemma ex_server_simps [simp]:
  "sv_answer (ex_sync_server raced st) ExportGet = Some NotFound" "sv_answer (ex_sync_server raced st) (ExportCreate e) = None"
  "sv_answer (ex_sync_server raced st) (TargetGet n) = (if raced then Some NotFound else None)"
  "sv_answer (ex_sync_server raced st) (TargetCreate t) = (if raced then Some AlreadyExists else None)"
  "sv_answer (ex_sync_server raced st) (TargetMerge n old new) = (if raced \<or> precondition new st then None else Some Conflict)"
  "sv_answer (ex_sync_server raced st) (AccountGet ns n) = Some NotFound"
  "sv_answer (ex_sync_server raced st) (AccountCreate ns n os) = (if raced then Some AlreadyExists else None)"
  "sv_answer (ex_sync_server raced st) (RoleGet n) = Some NotFound" "sv_answer (ex_sync_server raced st) (RoleCreate n os rules) = None"
  "sv_answer (ex_sync_server raced st) (BindingGet n) = Some NotFound" "sv_answer (ex_sync_server raced st) (RoleBindingCreate n os s r) = None"
  "sv_answer (ex_sync_server raced st) (SecretGet ns n) = None"
  "sv_target (ex_sync_server True st) c = ex_void" "sv_target (ex_sync_server False st) (TargetGet n) = st"
  "sv_target (ex_sync_server False st) (TargetMerge n old new) = merged_target old new st"
  "sv_account (ex_sync_server raced st) c = ex_account (if raced then [] else ''sa'')" "sv_attempts (ex_sync_server raced st) = 3"
  "sv_later_target (ex_sync_server raced st) i = Inr st" "sv_secret (ex_sync_server raced st) = Some [(''token'', ''t'')]"
  "sv_later_account (ex_sync_server raced st) i n = (if n = [] then Inl (Failure ''empty name'') else Inr (ex_account n))"
  by (simp_all add: ex_sync_server_def)

lemma ex_serves: "serves_target (ex_sync_server False st) name st"
  by (simp add: serves_target_def)

lemma ex_opts_simps [simp]:
  "so_ResourcesToSync ex_opts = [''deployments.apps'']" "so_SyncTargetName ex_opts = ''east''" "so_KCPNamespace ex_opts = ''default''"
  "so_DownstreamNamespace ex_opts = []" "so_SyncTargetLabels ex_opts = [''a=b'']"
  by (simp_all add: ex_opts_def)

lemma ex_exports: "supportedAPIExports ex_sync ex_opts = [\<lparr>er_Path = ''root'', er_Export = ''kubernetes''\<rparr>, \<lparr>er_Path = [], er_Export = ImportedAPISExportName\<rparr>]"
  by (simp add: supportedAPIExports_def ex_opts_def ex_sync_def ImportedAPISExportName_def)

lemma ex_export_applied: "snd (apply_export ex_sync (ex_sync_server raced st) ex_opts) = Inr ()"
  by (simp add: apply_export_def ok_andThen)

lemma ex_void_simps [simp]: "UID ex_void = []" "ResourceVersion ex_void = []" "Labels ex_void = None" "SupportedAPIExports (st_Spec ex_void) = []"
  by (simp_all add: ex_void_def empty_meta_def object_meta.defs)

lemma ex_applied: "\<exists>st'. snd (applySyncTarget ex_sync (ex_sync_server False st) ex_opts ''east'' [(''a'', ''b'')]) = Inr st' \<and> Name st' = Name st"
proof -
  let ?new = "\<lparr>md_UID = UID st, md_ResourceVersion = ResourceVersion st, md_Body = (Some [(''a'', ''b'')], supportedAPIExports ex_sync ex_opts)\<rparr>"
  have "precondition ?new st" by (simp add: precondition_def)
  then show ?thesis
    by (auto simp: applySyncTarget_served [OF ex_serves] ex_export_applied update_target_def Let_def ok_andThen merged_target_def)
qed

theorem sync_target_applied_witness:
  "\<exists>st' :: sync_target. snd (applySyncTarget ex_sync (ex_sync_server False ex_target) ex_opts ''east'' [(''a'', ''b'')]) = Inr st'
     \<and> go_get (Labels st') ''a'' = Some ''b'' \<and> length (SupportedAPIExports (st_Spec st')) = 2"
proof -
  obtain st' where r: "snd (applySyncTarget ex_sync (ex_sync_server False ex_target) ex_opts ''east'' [(''a'', ''b'')]) = Inr st'"
    using ex_applied by blast
  have "wf_map (Some [(''a'', ''b'')])" by (simp add: wf_map_def)
  from sync_target_applied [OF ex_serves this r ex_serves, of "''a''"] r show ?thesis by (auto simp: ex_exports)
qed

theorem lost_creation_patches_blindly_witness:
  "\<exists>old new. TargetMerge ''east'' old new \<in> set (fst (applySyncTarget ex_sync (ex_sync_server True ex_target) ex_opts ''east'' [])) \<and> precondition new ex_target"
  using lost_creation_patches_blindly [OF ex_export_applied _ refl, of True ex_target "''east''" "[]" ex_target]
  by (simp add: ex_exports)

theorem lost_account_creation_fails_witness:
  "snd (enableSyncerForWorkspace ex_sync (ex_sync_server True ex_target) ex_opts ''east'' ''default'' []) \<noteq> Inr (''t'', ''id'', ex_target)
   \<and> (\<exists>st' :: sync_target. snd (applySyncTarget ex_sync (ex_sync_server True ex_target) ex_opts ''east'' []) = Inr st')"
proof
  show "snd (enableSyncerForWorkspace ex_sync (ex_sync_server True ex_target) ex_opts ''east'' ''default'' []) \<noteq> Inr (''t'', ''id'', ex_target)"
    by (rule lost_account_creation_fails) (simp_all add: ex_account_def meta_named_def object_meta.defs)
  show "\<exists>st' :: sync_target. snd (applySyncTarget ex_sync (ex_sync_server True ex_target) ex_opts ''east'' []) = Inr st'"
    by (simp add: applySyncTarget_def ok_andThen ex_export_applied Let_def update_target_def ex_exports)
qed

lemma ex_account_simps [simp]: "Name (ex_account n) = n" "sa_Secrets (ex_account n) = [''token-1'']"
  by (simp_all add: ex_account_def meta_named_def object_meta.defs)

lemma ex_steps [simp]:
  "snd (apply_account (ex_sync_server False st) namespace syncerID owners) = Inr (ex_account ''sa'')"
  "snd (apply_role (ex_sync_server False st) syncerID owners rules) = Inr ()"
  "snd (apply_binding (ex_sync_server False st) namespace syncerID owners) = Inr ()"
  by (simp_all add: apply_account_def apply_role_def apply_binding_def ok_andThen Let_def)

lemma ex_poll: "poll (token_secret (ex_sync_server False st) ''sa'') 3 0 = Some ''token-1''"
  by (simp add: numeral_3_eq_3 token_secret_def)

definition ex_id :: string where "ex_id = ''kcp-syncer-east-00000000''"

lemma ex_syncer_id: "Name st = ''east'' \<Longrightarrow> getSyncerID basic_json st = Inr ex_id"
  by (simp add: getSyncerID_def basic_json_def ex_id_def numeral_eq_Suc)

lemma ex_sync_json [simp]: "sl_json ex_sync = basic_json"
  by (simp add: ex_sync_def)

lemma ex_enabled:
  assumes "snd (applySyncTarget ex_sync (ex_sync_server False st) ex_opts ''east'' labels) = Inr st'" "Name st' = ''east''"
  shows "snd (enableSyncerForWorkspace ex_sync (ex_sync_server False st) ex_opts ''east'' ''default'' labels) = Inr (''t'', ex_id, st')"
  using assms by (simp add: enableSyncerForWorkspace_def snd_andThen ex_syncer_id ex_poll go_str_def go_get_def send_call_def)

definition ex_synced :: sync_target where
  "ex_synced = ex_target\<lparr>st_Spec := (st_Spec ex_target)\<lparr>SupportedAPIExports := [\<lparr>er_Path = ''root'', er_Export = ''kubernetes''\<rparr>]\<rparr>,
     st_Status := (st_Status ex_target)\<lparr>SyncedResources := [\<lparr>rs_GroupResource = \<lparr>gr_Group = ''networking.k8s.io'', gr_Resource = ''ingresses''\<rparr>,
       rs_Versions = [''v1''], rs_IdentityHash = [], rs_State = ''Accepted''\<rparr>]\<rparr>\<rparr>"

lemma ex_synced_simps [simp]: "Name ex_synced = ''east''"
  by (simp add: ex_synced_def ex_target_def meta_named_def object_meta.defs)

lemma ex_permissions:
  "getResourcesForPermission (ex_sync_server False ex_synced) ex_opts = Inr [''deployments.apps'', ''secrets'', ''configmaps'', ''ingresses.networking.k8s.io'']"
  by (simp add: getResourcesForPermission_def numeral_3_eq_3 permission_attempt_def ex_synced_def ImportedAPISExportName_def set_insert_def Let_def)

lemma ex_labels: "sync_labels [''a=b''] = [(''a'', ''b'')]"
  by (simp add: sync_labels_def label_step_def go_put_def)

lemma ex_registration_run:
  "\<exists>args. snd (SyncOptions_Run ex_sync (ex_sync_server False ex_synced) (\<lambda>_. HasPort) (\<lambda>h p. h) (Inr (''https'', ''kcp:6443'')) ex_opts) = Inr args
     \<and> ta_GroupMappings args = getGroupMappings ex_sync [''configmaps'', ''deployments.apps'', ''ingresses.networking.k8s.io'', ''secrets'']"
proof -
  obtain st' where st: "snd (applySyncTarget ex_sync (ex_sync_server False ex_synced) ex_opts ''east'' [(''a'', ''b'')]) = Inr st'" "Name st' = ''east''"
    using ex_applied [of ex_synced] by auto
  have l: "set_list [''deployments.apps'', ''secrets'', ''configmaps'', ''ingresses.networking.k8s.io''] =
      [''configmaps'', ''deployments.apps'', ''ingresses.networking.k8s.io'', ''secrets'']"
    by (simp add: set_list_def)
  show ?thesis
    by (simp add: SyncOptions_Run_def snd_andThen ex_labels ex_enabled [OF st] ex_permissions server_url_def template_arguments_def Let_def l)
qed

theorem downstream_permissions_exact_witness:
  "\<exists>args. snd (SyncOptions_Run ex_sync (ex_sync_server False ex_synced) (\<lambda>_. HasPort) (\<lambda>h p. h) (Inr (''https'', ''kcp:6443'')) ex_opts) = Inr args
     \<and> (''networking.k8s.io'', ''ingresses'', ''*'') \<in> rule_listing (manifest_cluster_role args)"
proof -
  from ex_registration_run obtain args where r: "snd (SyncOptions_Run ex_sync (ex_sync_server False ex_synced) (\<lambda>_. HasPort) (\<lambda>h p. h) (Inr (''https'', ''kcp:6443'')) ex_opts) = Inr args"
    by blast
  have "sv_later_target (ex_sync_server False ex_synced) i = Inr st \<Longrightarrow> st = ex_synced" for i st by simp
  moreover have s: "''ingresses.networking.k8s.io'' \<in> synced_names ex_synced"
    by (simp add: synced_names_def ex_synced_def ImportedAPISExportName_def)
  moreover have g: "resource_group ''ingresses.networking.k8s.io'' = ''networking.k8s.io''" "''ingresses'' \<in> set (granted ''ingresses.networking.k8s.io'')"
    by (simp_all add: resource_group_def granted_def group_and_name_def numeral_2_eq_2)
  ultimately have "(''networking.k8s.io'', ''ingresses'', ''*'') \<in> rule_listing (manifest_cluster_role args)"
    using downstream_permissions_exact [OF r ex_sync_laws(1)] by fastforce
  with r show ?thesis by blast
qed

lemma ex_role_created:
  "\<exists>owners. RoleCreate ex_id owners (syncer_rules ''east'') \<in>
       set (fst (enableSyncerForWorkspace ex_sync (ex_sync_server False ex_target) ex_opts ''east'' ''default'' [(''a'', ''b'')]))"
proof -
  have "Name ex_target = ''east''" by (simp add: ex_target_def meta_named_def object_meta.defs)
  then obtain st' where st: "snd (applySyncTarget ex_sync (ex_sync_server False ex_target) ex_opts ''east'' [(''a'', ''b'')]) = Inr st'" "Name st' = ''east''"
    using ex_applied [of ex_target] by auto
  have "RoleCreate ex_id [target_owner st'] (syncer_rules ''east'') \<in>
      set (fst (apply_role (ex_sync_server False ex_target) ex_id [target_owner st'] (syncer_rules ''east'')))"
    by (simp add: apply_role_def in_andThen)
  with st show ?thesis by (auto simp: enableSyncerForWorkspace_def in_andThen ex_syncer_id)
qed

theorem syncer_role_confined_witness:
  "\<exists>owners. RoleCreate ex_id owners (syncer_rules ''east'') \<in>
       set (fst (enableSyncerForWorkspace ex_sync (ex_sync_server False ex_target) ex_opts ''east'' ''default'' [(''a'', ''b'')]))
   \<and> HasSyncRule (map policy_rule.truncate (syncer_rules ''east''))"
proof -
  obtain owners where c: "RoleCreate ex_id owners (syncer_rules ''east'') \<in>
       set (fst (enableSyncerForWorkspace ex_sync (ex_sync_server False ex_target) ex_opts ''east'' ''default'' [(''a'', ''b'')]))"
    using ex_role_created by blast
  have "workload_rule [''sync''] [''synctargets''] ''east'' \<in> set (syncer_rules ''east'')"
    "workload_GroupName \<in> set (pr_APIGroups (workload_rule [''sync''] [''synctargets''] ''east''))"
    by (simp_all add: syncer_rules_def workload_rule_def)
  from syncer_role_confined [OF c _ this(1)] this(2) c show ?thesis by auto
qed

lemma basic_base36: "base36_lower basic_json h = replicate 44 CHR ''0''"
  by (simp add: basic_json_def)

theorem dns_names_agree_witness:
  "replace_first ''syncer'' ''dns'' ex_id = ''kcp-dns-east-00000000''"
proof -
  have n: "Name ex_target = ''east''" by (simp add: ex_target_def meta_named_def object_meta.defs)
  then have g: "GetDNSID basic_json ''user'' (UID ex_target) (Name ex_target) = Inr (''kcp-dns-east-00000000'' @ ''-'' @ replicate 8 CHR ''0'')"
    by (simp add: GetDNSID_def basic_base36 numeral_eq_Suc)
  from dns_names_agree [OF ex_syncer_id [OF n] g, THEN conjunct1]
  have "''kcp-dns-east-00000000'' @ ''-'' @ replicate 8 CHR ''0'' = replace_first ''syncer'' ''dns'' ex_id @ ''-'' @ replicate 8 CHR ''0''"
    by (simp only: basic_base36 take_replicate) simp
  then show ?thesis by (simp only: append_same_eq)
qed

definition ex_long :: string where "ex_long = replicate 228 CHR ''a''"

theorem validated_name_bounds_witness:
  "SyncOptions_Validate ex_sync (ex_opts\<lparr>so_SyncTargetName := ex_long\<rparr>) = []
   \<and> (\<exists>d. GetDNSID basic_json ''user'' ''uid'' ex_long = Inr d \<and> 253 < length d)"
proof
  show v: "SyncOptions_Validate ex_sync (ex_opts\<lparr>so_SyncTargetName := ex_long\<rparr>) = []"
    by (simp add: SyncOptions_Validate_def ex_opts_def ex_long_def DNSIDPrefix_def label_errors_def ex_sync_def ImportedAPISExportName_def)
  let ?st = "ex_target\<lparr>Name := ex_long, UID := ''uid''\<rparr>"
  obtain i d where "getSyncerID basic_json ?st = Inr i" and d: "GetDNSID basic_json ''user'' ''uid'' ex_long = Inr d"
    by (simp add: getSyncerID_def GetDNSID_def basic_json_def)
  moreover have "length ex_long = 228" by (simp add: ex_long_def)
  ultimately have "253 < length d" using validated_name_bounds [OF v, of ?st basic_json i basic_json "''user''" d] by simp
  with d show "\<exists>d. GetDNSID basic_json ''user'' ''uid'' ex_long = Inr d \<and> 253 < length d" by blast
qed

end
