(* ===== verification/Tunnel.thy ===== *)
theory Tunnel
  imports Syncer_Shared
begin

text \<open>
  The tunnel by which kcp reaches the pods of a physical cluster (\<^verbatim>\<open>src/pkg/tunneler\<close>, \<^verbatim>\<open>src/pkg/syncer/tunneler.go\<close>) and the remaining
  index functions (\<^verbatim>\<open>src/pkg/indexers\<close>, \<^verbatim>\<open>src/pkg/syncer/indexers\<close>): the pool of dialers, the handler that registers the connections of a
  syncer, the handler that sends requests for subresources of pods into the tunnel, the check that the syncer makes of each
  such request, and the queue of connections of the syncer's listener.

  Parameters: the decoding of requests, paths of URLs, the caches, and the digests of \<open>json_lib\<close> and \<open>hash_lib\<close>. The bytes that go over the
  connections are not modelled; a connection is a number.
\<close>

section \<open>Index functions\<close>

definition IndexSyncTargetsBySyncTargetKey :: "hash_lib \<Rightarrow> sync_target \<Rightarrow> string list" where
  "IndexSyncTargetsBySyncTargetKey H st = [ToSyncTargetKey H (Cluster st) (Name st)]"

definition IndexByNamespaceLocator :: "json_lib \<Rightarrow> 'a object_meta_scheme \<Rightarrow> go_error + string list" where
  "IndexByNamespaceLocator J obj =
     (case LocatorFromAnnotations J (Annotations obj) of
        Inl e \<Rightarrow> Inl (Failure ''failed to get locator from annotations'')
      | Inr None \<Rightarrow> Inr []
      | Inr (Some loc) \<Rightarrow> (case marshal_locator J loc of Inl e \<Rightarrow> Inl (Failure ''failed to marshal locator'') | Inr bs \<Rightarrow> Inr [bs]))"

text \<open>\<open>Append\<close> of sets of index functions, with the names in the order of the iteration; and adding those that are not present.\<close>

fun append_indexers :: "(string \<times> 'f) list \<Rightarrow> (string \<times> 'f) list \<Rightarrow> go_error + (string \<times> 'f) list" where
  "append_indexers ret [] = Inr ret"
| "append_indexers ret ((k, v) # rest) =
     (if map_of ret k \<noteq> None then Inl (Failure (''duplicate indexer: '' @ k)) else append_indexers (ret @ [(k, v)]) rest)"

definition indexers_Append :: "(string \<times> 'f) list list \<Rightarrow> go_error + (string \<times> 'f) list" where
  "indexers_Append indexers = append_indexers [] (concat indexers)"

definition AppendOrDie :: "(string \<times> 'f) list list \<Rightarrow> go_error + (string \<times> 'f) list" where
  "AppendOrDie indexers = (case indexers_Append indexers of Inl e \<Rightarrow> Inl (Panic (error_text e)) | Inr ret \<Rightarrow> Inr ret)"

definition AddIfNotPresentOrDie :: "((string \<times> 'f) list \<Rightarrow> go_error + (string \<times> 'f) list) \<Rightarrow> (string \<times> 'f) list \<Rightarrow> (string \<times> 'f) list \<Rightarrow> go_error + (string \<times> 'f) list" where
  "AddIfNotPresentOrDie AddIndexers existing toAdd =
     (case AddIndexers (filter (\<lambda>(k, _). map_of existing k = None) toAdd) of
        Inl e \<Rightarrow> Inl (Panic ''error adding indexers'') | Inr r \<Rightarrow> Inr r)"

section \<open>The pool of dialers\<close>

text \<open>A dialer is named by the connection that it was made for.\<close>

type_synonym conn = nat
type_synonym tunnel_key = "string \<times> string"
type_synonym dialer_pool = "(tunnel_key \<times> conn) list"

definition getDialer :: "dialer_pool \<Rightarrow> tunnel_key \<Rightarrow> conn option" where
  "getDialer pool key = map_of pool key"

definition createDialer :: "dialer_pool \<Rightarrow> tunnel_key \<Rightarrow> conn \<Rightarrow> dialer_pool \<times> conn" where
  "createDialer pool key c = (case map_of pool key of Some d \<Rightarrow> (pool, d) | None \<Rightarrow> (AList.update key c pool, c))"

definition deleteDialer :: "dialer_pool \<Rightarrow> tunnel_key \<Rightarrow> dialer_pool" where
  "deleteDialer pool key = AList.delete key pool"

definition SyncerTunnelURL :: "(string \<Rightarrow> go_error + (string \<times> string \<times> string)) \<Rightarrow> (string \<Rightarrow> string list \<Rightarrow> go_error + string) \<Rightarrow> string \<Rightarrow> string \<Rightarrow> string \<Rightarrow> go_error + string" where
  "SyncerTunnelURL parse JoinPath host ws target =
     (if target = [] \<or> ws = [] then Inl (Failure ''target or ws can not be empty'')
      else (case parse host of
         Inl e \<Rightarrow> Inl (Failure ''wrong url format'')
       | Inr (scheme, hostport, text) \<Rightarrow>
           if scheme \<noteq> ''https'' \<or> hostport = [] then Inl (Failure ''wrong url format'')
           else JoinPath text [''clusters'', ws, ''apis'', ''workload.kcp.io/v1alpha1'', ''synctargets'', target]))"

section \<open>Requests\<close>

record request_info =
  ri_IsResourceRequest :: bool
  ri_APIGroup :: string
  ri_APIVersion :: string
  ri_Resource :: string
  ri_Subresource :: string
  ri_Namespace :: string
  ri_Name :: string

text \<open>What a handler does: hand the request to the next handler, answer with an error code, or forward it.\<close>

datatype 'p outcome = NextHandler | HttpError nat | Forward 'p

definition is_tunnel_request :: "request_info \<Rightarrow> bool" where
  "is_tunnel_request ri \<longleftrightarrow> ri_IsResourceRequest ri \<and> ri_Resource ri = ''synctargets'' \<and> ri_Subresource ri = ''tunnel''
     \<and> ri_APIGroup ri = ''workload.kcp.io'' \<and> ri_APIVersion ri = ''v1alpha1'' \<and> ri_Name ri \<noteq> []"

text \<open>The key under which a connection is registered; \<open>None\<close> is the next handler.\<close>

definition tunnel_request_key :: "request_info option \<Rightarrow> string option \<Rightarrow> tunnel_key option" where
  "tunnel_request_key info cluster =
     (case (info, cluster) of (Some ri, Some c) \<Rightarrow> if is_tunnel_request ri then Some (c, ri_Name ri) else None | _ \<Rightarrow> None)"

section \<open>kcp: requests for pods\<close>

record proxy_env =
  pe_json :: json_lib
  pe_pod :: "string \<Rightarrow> string \<Rightarrow> string \<Rightarrow> go_error + smap"                   \<comment> \<open>the labels of a pod\<close>
  pe_targets :: "string \<Rightarrow> go_error + sync_target list"                   \<comment> \<open>the index by sync target key\<close>
  pe_JoinPath :: "string list \<Rightarrow> go_error + string"

definition getSyncTargetBySynctargetKey :: "proxy_env \<Rightarrow> string \<Rightarrow> go_error + sync_target" where
  "getSyncTargetBySynctargetKey E k =
     bindE (pe_targets E k) (\<lambda>sts. case sts of [st] \<Rightarrow> Inr st | _ \<Rightarrow> Inl (Failure ''expected 1 synctarget for key''))"

text \<open>The first label of the iteration that says \<open>Upsync\<close>; an empty key counts as none.\<close>

definition upsync_key :: "smap \<Rightarrow> string" where
  "upsync_key labels =
     (case find (\<lambda>(k, v). has_prefix k ClusterResourceStateLabelPrefix \<and> v = ResourceStateUpsync) (entries labels) of
        None \<Rightarrow> [] | Some (k, v) \<Rightarrow> trim_prefix k ClusterResourceStateLabelPrefix)"

definition pod_subresources :: "string list" where
  "pod_subresources = [''exec'', ''log'', ''portforward'', ''proxy'', ''attach'', ''ephemeralcontainers'']"

definition podSubresourceURL :: "proxy_env \<Rightarrow> string \<Rightarrow> string \<Rightarrow> string \<Rightarrow> go_error + string" where
  "podSubresourceURL E ns podName subresource =
     (if ns = [] \<or> podName = [] \<or> subresource = [] then Inl (Failure ''invalid tunnel path'')
      else pe_JoinPath E [''/api/v1/namespaces'', ns, ''pods'', podName, subresource])"

definition downstream_locator :: "sync_target \<Rightarrow> string \<Rightarrow> string \<Rightarrow> namespace_locator" where
  "downstream_locator st cluster ns =
     \<lparr>nl_SyncTarget = \<lparr>stl_ClusterName = Cluster st, stl_DeprecatedPath = [], stl_Name = Name st, stl_UID = UID st\<rparr>,
      nl_ClusterName = cluster, nl_Namespace = ns\<rparr>"

text \<open>The end of \<open>ServeHTTP\<close>, once the sync target is known: the key of the tunnel and the new path.\<close>

definition proxy_to :: "proxy_env \<Rightarrow> string \<Rightarrow> request_info \<Rightarrow> sync_target \<Rightarrow> (tunnel_key \<times> string) outcome" where
  "proxy_to E cluster ri st =
     (case PhysicalClusterNamespaceName (pe_json E) (downstream_locator st cluster (ri_Namespace ri)) of
        Inl _ \<Rightarrow> HttpError 500
      | Inr ns \<Rightarrow>
          (case podSubresourceURL E ns (ri_Name ri) (ri_Subresource ri) of
             Inl _ \<Rightarrow> HttpError 500
           | Inr path \<Rightarrow> Forward ((Cluster st, Name st), path)))"

definition proxy_pod :: "proxy_env \<Rightarrow> string \<Rightarrow> request_info \<Rightarrow> (tunnel_key \<times> string) outcome" where
  "proxy_pod E cluster ri =
     (case pe_pod E cluster (ri_Namespace ri) (ri_Name ri) of
        Inl NotFound \<Rightarrow> HttpError 404
      | Inl _ \<Rightarrow> HttpError 500
      | Inr labels \<Rightarrow>
          if upsync_key labels = [] then HttpError 400
          else (case getSyncTargetBySynctargetKey E (upsync_key labels) of
             Inl NotFound \<Rightarrow> HttpError 503
           | Inl _ \<Rightarrow> HttpError 500
           | Inr st \<Rightarrow> proxy_to E cluster ri st))"

definition pod_ServeHTTP :: "proxy_env \<Rightarrow> request_info option \<Rightarrow> string \<Rightarrow> (tunnel_key \<times> string) outcome" where
  "pod_ServeHTTP E info cluster =
     (case info of
        None \<Rightarrow> NextHandler
      | Some ri \<Rightarrow>
          if \<not> ri_IsResourceRequest ri then NextHandler
          else if cluster = [] then NextHandler
          else if ri_Resource ri \<noteq> ''pods'' \<or> ri_Subresource ri = [] then NextHandler
          else if ri_Namespace ri = [] \<or> ri_Name ri = [] \<or> ri_Subresource ri = [] then NextHandler
          else if ri_Subresource ri \<notin> set pod_subresources then HttpError 400
          else proxy_pod E cluster ri)"

text \<open>\<open>Proxy\<close>: the dialer of the tunnel, if it is there and not closed.\<close>

definition Proxy :: "dialer_pool \<Rightarrow> conn list \<Rightarrow> tunnel_key \<Rightarrow> conn outcome" where
  "Proxy pool closed key =
     (case getDialer pool key of None \<Rightarrow> HttpError 503 | Some d \<Rightarrow> if d \<in> set closed then HttpError 503 else Forward d)"

section \<open>The syncer: the check of a request\<close>

record access_env =
  ac_json :: json_lib
  ac_hash :: hash_lib
  ac_resolve :: "string \<Rightarrow> go_error + request_info"                       \<comment> \<open>\<open>NewRequestInfo\<close>\<close>
  ac_nsLister :: "go_error + (string \<Rightarrow> go_error + unstr option)"          \<comment> \<open>\<open>None\<close>: an object of another type\<close>
  ac_podLister :: "go_error + (string \<Rightarrow> string \<Rightarrow> go_error + unstr option)"
  ac_cluster :: string
  ac_name :: string
  ac_uid :: string

definition owned_locator :: "access_env \<Rightarrow> namespace_locator \<Rightarrow> bool" where
  "owned_locator A l \<longleftrightarrow> stl_Name (nl_SyncTarget l) = ac_name A \<and> stl_UID (nl_SyncTarget l) = ac_uid A
     \<and> stl_ClusterName (nl_SyncTarget l) = ac_cluster A"

definition check_pod :: "access_env \<Rightarrow> request_info \<Rightarrow> unit outcome" where
  "check_pod A ri =
     (case ac_podLister A of
        Inl _ \<Rightarrow> HttpError 500
      | Inr pods \<Rightarrow>
          (case pods (ri_Namespace ri) (ri_Name ri) of
             Inl _ \<Rightarrow> HttpError 403
           | Inr None \<Rightarrow> HttpError 500
           | Inr (Some pod) \<Rightarrow>
               if go_str (Labels pod) (ClusterResourceStateLabelPrefix @ ToSyncTargetKey (ac_hash A) (ac_cluster A) (ac_name A)) \<noteq> ResourceStateUpsync
               then HttpError 403 else Forward ()))"

definition check_namespace :: "access_env \<Rightarrow> request_info \<Rightarrow> unit outcome" where
  "check_namespace A ri =
     (case ac_nsLister A of
        Inl _ \<Rightarrow> HttpError 500
      | Inr namespaces \<Rightarrow>
          (case namespaces (ri_Namespace ri) of
             Inl _ \<Rightarrow> HttpError 403
           | Inr None \<Rightarrow> HttpError 500
           | Inr (Some ns) \<Rightarrow>
               (case LocatorFromAnnotations (ac_json A) (Annotations ns) of
                  Inr (Some locator) \<Rightarrow> if owned_locator A locator then check_pod A ri else HttpError 403
                | _ \<Rightarrow> HttpError 403)))"

definition withPodAccessCheck :: "access_env \<Rightarrow> string \<Rightarrow> unit outcome" where
  "withPodAccessCheck A path =
     (case ac_resolve A path of
        Inl _ \<Rightarrow> HttpError 500
      | Inr ri \<Rightarrow>
          if ri_Resource ri \<noteq> ''pods'' \<or> ri_Subresource ri = [] \<or> ri_Name ri = [] \<or> ri_Namespace ri = [] then HttpError 403
          else check_namespace A ri)"

section \<open>The tunnel handlers as processes\<close>

text \<open>
  A handler holds the connection of one request. It reads the pool; if there is no open dialer, it deletes the entry, creates a dialer, and
  waits for the end of its connection; otherwise it hands its connection to the dialer it read. If that dialer is closed in the meantime, the
  handler refuses the request, unless one of the dials still waiting for a connection takes it first.
\<close>

datatype tunnel_phase = Arrived | Missing | Cleared | ControlWait | Handing conn | DataWait | Refused | Ended

record tunnel_state =
  tu_pool :: dialer_pool
  tu_closed :: "conn list"                                 \<comment> \<open>dialers whose \<open>donec\<close> is closed\<close>
  tu_phase :: "(conn \<times> tunnel_key \<times> tunnel_phase) list"    \<comment> \<open>the running handlers\<close>
  tu_dialers :: "(conn \<times> tunnel_key) list"                 \<comment> \<open>the dialers that were started, with their keys\<close>
  tu_handed :: "(conn \<times> conn) list"                        \<comment> \<open>history: a dialer, and a data connection that one of its dials has received\<close>

definition tunnel_lookup :: "tunnel_state \<Rightarrow> conn \<Rightarrow> (tunnel_key \<times> tunnel_phase) option" where
  "tunnel_lookup s c = map_of (tu_phase s) c"

definition at_phase :: "conn \<Rightarrow> tunnel_key \<Rightarrow> tunnel_phase \<Rightarrow> tunnel_state \<Rightarrow> tunnel_state" where
  "at_phase c key p s = s\<lparr>tu_phase := AList.update c (key, p) (tu_phase s)\<rparr>"

inductive tunnel_step :: "tunnel_state \<Rightarrow> tunnel_state \<Rightarrow> bool" where
  Request: "tunnel_lookup s c = None \<Longrightarrow> tunnel_step s (at_phase c key Arrived s)"
| Read: "tunnel_lookup s c = Some (key, Arrived) \<Longrightarrow>
     tunnel_step s (at_phase c key (case getDialer (tu_pool s) key of
        None \<Rightarrow> Missing | Some d \<Rightarrow> if d \<in> set (tu_closed s) then Missing else Handing d) s)"
| Delete: "tunnel_lookup s c = Some (key, Missing) \<Longrightarrow>
     tunnel_step s (at_phase c key Cleared (s\<lparr>tu_pool := deleteDialer (tu_pool s) key\<rparr>))"
| Create: "tunnel_lookup s c = Some (key, Cleared) \<Longrightarrow>
     tunnel_step s (at_phase c key ControlWait (s\<lparr>tu_pool := fst (createDialer (tu_pool s) key c),
       tu_dialers := (if snd (createDialer (tu_pool s) key c) = c then (c, key) # tu_dialers s else tu_dialers s)\<rparr>))"
| Hand: "tunnel_lookup s c = Some (key, Handing d) \<Longrightarrow>
     tunnel_step s (at_phase c key DataWait (s\<lparr>tu_handed := (d, c) # tu_handed s\<rparr>))"
| Refuse: "tunnel_lookup s c = Some (key, Handing d) \<Longrightarrow> d \<in> set (tu_closed s) \<Longrightarrow> tunnel_step s (at_phase c key Refused s)"
| Finish: "tunnel_lookup s c = Some (key, p) \<Longrightarrow> p \<in> {ControlWait, DataWait} \<Longrightarrow>
     tunnel_step s (at_phase c key Ended (s\<lparr>tu_closed := c # tu_closed s\<rparr>))"

definition no_tunnels :: tunnel_state where
  "no_tunnels = \<lparr>tu_pool = [], tu_closed = [], tu_phase = [], tu_dialers = [], tu_handed = []\<rparr>"

abbreviation tunnel_reachable :: "tunnel_state \<Rightarrow> bool" where
  "tunnel_reachable s \<equiv> tunnel_step\<^sup>*\<^sup>* no_tunnels s"

inductive_cases tunnel_stepE: "tunnel_step s s'"

section \<open>The dialer of kcp\<close>

text \<open>
  A \<open>Dial\<close> announces itself to \<open>serve\<close>, which sends \<open>conn-ready\<close> to the syncer; then it waits for a connection or the error of a failed pickup, or gives
  up with its context. The syncer answers each message by a new connection, whose handler offers it to whatever dial waits, or by \<open>pickup-failed\<close>,
  which the reader of the control connection passes on in the same way. The channels have no room, so an offer stays with its sender.
\<close>

record dialer_state =
  di_announced :: nat                       \<comment> \<open>\<open>conn-ready\<close> messages without an answer\<close>
  di_waiting :: nat                         \<comment> \<open>dials in their second select\<close>
  di_offered :: "conn list"                 \<comment> \<open>handlers in their send to \<open>incomingConn\<close>\<close>
  di_failing :: nat                         \<comment> \<open>failures in the send to \<open>pickupFailed\<close>\<close>
  di_picked :: "conn list"
  di_abandoned :: nat                       \<comment> \<open>dials that have given up after the announcement\<close>
  di_closed :: bool

inductive dialer_step :: "dialer_state \<Rightarrow> dialer_state \<Rightarrow> bool" where
  Announce: "\<not> di_closed s \<Longrightarrow> dialer_step s (s\<lparr>di_announced := Suc (di_announced s), di_waiting := Suc (di_waiting s)\<rparr>)"
| Arrive: "di_announced s = Suc n \<Longrightarrow> \<not> di_closed s \<Longrightarrow> dialer_step s (s\<lparr>di_announced := n, di_offered := c # di_offered s\<rparr>)"
| Failed: "di_announced s = Suc n \<Longrightarrow> \<not> di_closed s \<Longrightarrow> di_failing s = 0 \<Longrightarrow> dialer_step s (s\<lparr>di_announced := n, di_failing := 1\<rparr>)"
| Pick: "di_waiting s = Suc n \<Longrightarrow> c \<in> set (di_offered s) \<Longrightarrow>
     dialer_step s (s\<lparr>di_waiting := n, di_offered := remove1 c (di_offered s), di_picked := c # di_picked s\<rparr>)"
| Pick_failure: "di_waiting s = Suc n \<Longrightarrow> di_failing s = Suc k \<Longrightarrow> dialer_step s (s\<lparr>di_waiting := n, di_failing := k\<rparr>)"
| Give_up: "di_waiting s = Suc n \<Longrightarrow> dialer_step s (s\<lparr>di_waiting := n, di_abandoned := Suc (di_abandoned s)\<rparr>)"
| Close: "dialer_step s (s\<lparr>di_closed := True\<rparr>)"
| Refuse: "di_closed s \<Longrightarrow> dialer_step s (s\<lparr>di_offered := [], di_failing := 0, di_waiting := 0\<rparr>)"

definition new_dialer :: dialer_state where
  "new_dialer = \<lparr>di_announced = 0, di_waiting = 0, di_offered = [], di_failing = 0, di_picked = [], di_abandoned = 0, di_closed = False\<rparr>"

inductive_cases dialer_stepE: "dialer_step s s'"

section \<open>The listener of the syncer\<close>

text \<open>
  \<open>connc\<close> is a channel with room for four connections. A \<open>grabConn\<close> goroutine with a connection tests \<open>donec\<close> and then sends; \<open>Close\<close>
  closes \<open>connc\<close> and then \<open>donec\<close>. A send on a closed channel panics.
\<close>

record listener_state =
  ls_queue :: "conn list"
  ls_conncClosed :: bool
  ls_donecClosed :: bool
  ls_closed :: bool
  ls_grabbed :: "conn list"                 \<comment> \<open>goroutines before the test\<close>
  ls_sending :: "conn list"                 \<comment> \<open>goroutines in the inner select\<close>
  ls_accepted :: "conn list"
  ls_panic :: bool

inductive listener_step :: "listener_state \<Rightarrow> listener_state \<Rightarrow> bool" where
  Dial: "listener_step s (s\<lparr>ls_grabbed := c # ls_grabbed s\<rparr>)"
| Give_up: "c \<in> set (ls_grabbed s) \<Longrightarrow> ls_donecClosed s \<Longrightarrow> listener_step s (s\<lparr>ls_grabbed := remove1 c (ls_grabbed s)\<rparr>)"
| Test: "c \<in> set (ls_grabbed s) \<Longrightarrow> \<not> ls_donecClosed s \<Longrightarrow>
     listener_step s (s\<lparr>ls_grabbed := remove1 c (ls_grabbed s), ls_sending := c # ls_sending s\<rparr>)"
| Send: "c \<in> set (ls_sending s) \<Longrightarrow> \<not> ls_conncClosed s \<Longrightarrow> length (ls_queue s) < 4 \<Longrightarrow>
     listener_step s (s\<lparr>ls_sending := remove1 c (ls_sending s), ls_queue := ls_queue s @ [c]\<rparr>)"
| Send_closed: "c \<in> set (ls_sending s) \<Longrightarrow> ls_conncClosed s \<Longrightarrow> listener_step s (s\<lparr>ls_panic := True\<rparr>)"
| Leave: "c \<in> set (ls_sending s) \<Longrightarrow> ls_donecClosed s \<Longrightarrow> listener_step s (s\<lparr>ls_sending := remove1 c (ls_sending s)\<rparr>)"
| Accept: "ls_queue s = c # cs \<Longrightarrow> listener_step s (s\<lparr>ls_queue := cs, ls_accepted := ls_accepted s @ [c]\<rparr>)"
| Close: "\<not> ls_closed s \<Longrightarrow> listener_step s (s\<lparr>ls_closed := True, ls_conncClosed := True\<rparr>)"
| Close_done: "ls_conncClosed s \<Longrightarrow> \<not> ls_donecClosed s \<Longrightarrow> listener_step s (s\<lparr>ls_donecClosed := True\<rparr>)"

definition new_listener :: listener_state where
  "new_listener = \<lparr>ls_queue = [], ls_conncClosed = False, ls_donecClosed = False, ls_closed = False, ls_grabbed = [], ls_sending = [],
     ls_accepted = [], ls_panic = False\<rparr>"

inductive_cases listener_stepE: "listener_step s s'"

text \<open>\<open>NewListener\<close>: up to five attempts to connect, with the growing pauses; the error of the last one is returned.\<close>

fun connect_attempts :: "(nat \<Rightarrow> go_error + conn) \<Rightarrow> (nat \<Rightarrow> duration) \<Rightarrow> nat \<Rightarrow> nat \<Rightarrow> duration \<Rightarrow> (go_error + conn) \<Rightarrow> (go_error + conn) \<times> duration list" where
  "connect_attempts dial jitter 0 i pause latest = (latest, [])"
| "connect_attempts dial jitter (Suc n) i pause latest =
     (case dial i of
        Inr c \<Rightarrow> (Inr c, [])
      | Inl e \<Rightarrow>
          (let pause' = 2 * pause + (jitter i mod pause) div 2;
               (r, ps) = connect_attempts dial jitter n (Suc i) pause' (Inl e) in
           (r, pause' # ps)))"

definition NewListener :: "(nat \<Rightarrow> go_error + conn) \<Rightarrow> (nat \<Rightarrow> duration) \<Rightarrow> (go_error + conn) \<times> duration list" where
  "NewListener dial jitter = connect_attempts dial jitter 5 0 second (Inl (Failure ''no attempt''))"

end
