(* ===== verification/Tunnel_Access.thy ===== *)
theory Tunnel_Access
  imports Tunnel
begin

text \<open>
  What the two ends of the tunnel guarantee: which requests kcp sends into it, which of them the syncer serves, that tunnels of different
  targets are not mixed under any interleaving of handlers, and that connecting ends; with the two races of the code.
\<close>

section \<open>Lemmas\<close>

lemma locator_annotation:
  assumes "json_laws J" "marshal_locator J l = Inr s" "go_get a NamespaceLocatorAnnotation = Some s" "stl_ClusterName (nl_SyncTarget l) \<noteq> []" "stl_DeprecatedPath (nl_SyncTarget l) = []"
  shows "LocatorFromAnnotations J a = Inr (Some l)"
proof -
  from assms(1,2) have "unmarshal_locator J s = Inr l" by (metis json_laws_def sum.inject(2))
  with assms(3-5) show ?thesis by (cases l) (simp add: LocatorFromAnnotations_def Let_def)
qed

lemma locator_indexed:
  assumes "json_laws J" "marshal_locator J l = Inr s" "go_get (Annotations obj) NamespaceLocatorAnnotation = Some s"
    "stl_ClusterName (nl_SyncTarget l) \<noteq> []" "stl_DeprecatedPath (nl_SyncTarget l) = []"
  shows "IndexByNamespaceLocator J obj = Inr [s]"
  using locator_annotation [OF assms(1,2) assms(3-5)] assms(2) by (simp add: IndexByNamespaceLocator_def)

lemma pod_ServeHTTP_forward:
  assumes "pod_ServeHTTP E info cluster = Forward (key, path)"
  obtains ri labels st where "info = Some ri" "ri_Resource ri = ''pods''" "ri_Subresource ri \<in> set pod_subresources"
    "ri_Name ri \<noteq> []" "ri_Namespace ri \<noteq> []"
    "pe_pod E cluster (ri_Namespace ri) (ri_Name ri) = Inr labels" "upsync_key labels \<noteq> []"
    "pe_targets E (upsync_key labels) = Inr [st]" "proxy_to E cluster ri st = Forward (key, path)"
  using assms
  by (auto simp: pod_ServeHTTP_def proxy_pod_def getSyncTargetBySynctargetKey_def bindE_Inr
      split: option.splits sum.splits if_splits go_error.splits list.splits)

lemma proxy_to_forward:
  assumes "proxy_to E cluster ri st = Forward (key, path)"
  obtains ns where "PhysicalClusterNamespaceName (pe_json E) (downstream_locator st cluster (ri_Namespace ri)) = Inr ns"
    "key = (Cluster st, Name st)" "ns \<noteq> []" "pe_JoinPath E [''/api/v1/namespaces'', ns, ''pods'', ri_Name ri, ri_Subresource ri] = Inr path"
  using assms by (auto simp: proxy_to_def podSubresourceURL_def split: sum.splits if_splits)

lemma upsync_key_label:
  assumes "upsync_key labels = k" "k \<noteq> []"
  shows "(ClusterResourceStateLabelPrefix @ k, ResourceStateUpsync) \<in> set (entries labels)"
proof -
  from assms obtain key v where f: "find (\<lambda>(k, v). has_prefix k ClusterResourceStateLabelPrefix \<and> v = ResourceStateUpsync) (entries labels) = Some (key, v)"
    "k = trim_prefix key ClusterResourceStateLabelPrefix"
    by (auto simp: upsync_key_def split: option.splits)
  with find_SomeD [OF f(1)] show ?thesis by (auto simp: has_prefix_trim)
qed

lemma access_check_iff:
  "withPodAccessCheck A path = Forward () \<longleftrightarrow>
     (\<exists>ri namespaces ns locator pods pod. ac_resolve A path = Inr ri
        \<and> ri_Resource ri = ''pods'' \<and> ri_Subresource ri \<noteq> [] \<and> ri_Name ri \<noteq> [] \<and> ri_Namespace ri \<noteq> []
        \<and> ac_nsLister A = Inr namespaces \<and> namespaces (ri_Namespace ri) = Inr (Some ns)
        \<and> LocatorFromAnnotations (ac_json A) (Annotations ns) = Inr (Some locator) \<and> owned_locator A locator
        \<and> ac_podLister A = Inr pods \<and> pods (ri_Namespace ri) (ri_Name ri) = Inr (Some pod)
        \<and> go_str (Labels pod) (ClusterResourceStateLabelPrefix @ ToSyncTargetKey (ac_hash A) (ac_cluster A) (ac_name A)) = ResourceStateUpsync)"
  by (auto simp: withPodAccessCheck_def check_namespace_def check_pod_def split: sum.splits option.splits if_splits)

section \<open>Requests for pods\<close>

text \<open>
  kcp sends a request into a tunnel only if it is for a known subresource of a pod that the workspace has and that carries the label \<open>Upsync\<close> of
  a key; the tunnel is that of the one sync target with the key, and the path names the pod in the namespace that
  stands for the workspace and the namespace of the request on that target.
\<close>

theorem proxied_requests_upsynced:
  assumes "pod_ServeHTTP E (Some ri) cluster = Forward (key, path)"
  shows "\<exists>labels st ns. pe_pod E cluster (ri_Namespace ri) (ri_Name ri) = Inr labels
    \<and> (ClusterResourceStateLabelPrefix @ upsync_key labels, ResourceStateUpsync) \<in> set (entries labels)
    \<and> pe_targets E (upsync_key labels) = Inr [st] \<and> key = (Cluster st, Name st) \<and> ri_Subresource ri \<in> set pod_subresources
    \<and> PhysicalClusterNamespaceName (pe_json E) (NewNamespaceLocator cluster (Cluster st) (UID st) (Name st) (ri_Namespace ri)) = Inr ns
    \<and> pe_JoinPath E [''/api/v1/namespaces'', ns, ''pods'', ri_Name ri, ri_Subresource ri] = Inr path"
proof -
  from assms obtain labels st where r: "ri_Subresource ri \<in> set pod_subresources" "pe_pod E cluster (ri_Namespace ri) (ri_Name ri) = Inr labels"
    "upsync_key labels \<noteq> []" "pe_targets E (upsync_key labels) = Inr [st]" "proxy_to E cluster ri st = Forward (key, path)"
    by (auto elim: pod_ServeHTTP_forward)
  from r(5) obtain ns where n: "PhysicalClusterNamespaceName (pe_json E) (downstream_locator st cluster (ri_Namespace ri)) = Inr ns"
    "key = (Cluster st, Name st)" "pe_JoinPath E [''/api/v1/namespaces'', ns, ''pods'', ri_Name ri, ri_Subresource ri] = Inr path"
    by (auto elim: proxy_to_forward)
  have l: "downstream_locator st cluster (ri_Namespace ri) = NewNamespaceLocator cluster (Cluster st) (UID st) (Name st) (ri_Namespace ri)"
    by (simp add: downstream_locator_def NewNamespaceLocator_def)
  show ?thesis
    by (intro exI [of _ labels] exI [of _ st] exI [of _ ns] conjI r(1,2,4) n(2,3) n(1) [unfolded l] upsync_key_label [OF refl r(3)])
qed

text \<open>The caches of the syncer next to the one of kcp, for the target \<open>st\<close>: paths are read back, and namespaces carry their locators.\<close>

definition tunnel_laws :: "proxy_env \<Rightarrow> access_env \<Rightarrow> sync_target \<Rightarrow> bool" where
  "tunnel_laws E A st \<longleftrightarrow> json_laws (ac_json A) \<and> pe_json E = ac_json A
     \<and> ac_cluster A = Cluster st \<and> ac_name A = Name st \<and> ac_uid A = UID st \<and> Cluster st \<noteq> []
     \<and> (\<forall>ns pod sub path. ns \<noteq> [] \<longrightarrow> pod \<noteq> [] \<longrightarrow> CHR ''/'' \<notin> set ns \<union> set pod \<longrightarrow> sub \<in> set pod_subresources \<longrightarrow> pe_JoinPath E [''/api/v1/namespaces'', ns, ''pods'', pod, sub] = Inr path \<longrightarrow>
          (\<exists>ri. ac_resolve A path = Inr ri \<and> ri_Resource ri = ''pods'' \<and> ri_Namespace ri = ns \<and> ri_Name ri = pod \<and> ri_Subresource ri = sub))"

text \<open>
  C18: The two ends of the tunnel agree. When kcp forwards a request into the tunnel of a target, and the syncer of this target has made the namespace
  for the workspace and namespace of the request, then the syncer serves the request exactly if its copy of the pod carries the
  label \<open>Upsync\<close> of this target; otherwise it refuses.
\<close>

theorem tunnel_ends_agree:
  assumes fwd: "pod_ServeHTTP E (Some ri) cluster = Forward ((Cluster st, Name st), path)" "pe_targets E k = Inr [st]"
    "pe_pod E cluster (ri_Namespace ri) (ri_Name ri) = Inr labels" "upsync_key labels = k"
    and laws: "tunnel_laws E A st"
    and made: "PhysicalClusterNamespaceName (pe_json E) (NewNamespaceLocator cluster (Cluster st) (UID st) (Name st) (ri_Namespace ri)) = Inr n"
    "marshal_locator (ac_json A) (NewNamespaceLocator cluster (Cluster st) (UID st) (Name st) (ri_Namespace ri)) = Inr s"
    "ac_nsLister A = Inr namespaces" "namespaces n = Inr (Some ns)" "go_get (Annotations ns) NamespaceLocatorAnnotation = Some s"
    and slash: "CHR ''/'' \<notin> set n \<union> set (ri_Name ri)"
    and pod: "ac_podLister A = Inr pods" "pods n (ri_Name ri) = Inr (Some pod)"
  shows "withPodAccessCheck A path =
    (if go_str (Labels pod) (ClusterResourceStateLabelPrefix @ ToSyncTargetKey (ac_hash A) (Cluster st) (Name st)) = ResourceStateUpsync
     then Forward () else HttpError 403)"
proof -
  let ?l = "NewNamespaceLocator cluster (Cluster st) (UID st) (Name st) (ri_Namespace ri)"
  from fwd have r: "ri_Subresource ri \<in> set pod_subresources" "ri_Name ri \<noteq> []" "proxy_to E cluster ri st = Forward ((Cluster st, Name st), path)"
    by (auto elim!: pod_ServeHTTP_forward)
  from r(3) made(1) have j: "n \<noteq> []" "pe_JoinPath E [''/api/v1/namespaces'', n, ''pods'', ri_Name ri, ri_Subresource ri] = Inr path"
    by (auto elim!: proxy_to_forward simp: downstream_locator_def NewNamespaceLocator_def)
  from laws r(1,2) j slash obtain ri' where ri': "ac_resolve A path = Inr ri'" "ri_Resource ri' = ''pods''" "ri_Namespace ri' = n" "ri_Name ri' = ri_Name ri"
    "ri_Subresource ri' = ri_Subresource ri" unfolding tunnel_laws_def by blast
  have loc: "LocatorFromAnnotations (ac_json A) (Annotations ns) = Inr (Some ?l)"
    by (rule locator_annotation [OF _ made(2,5)]) (use laws in \<open>simp_all add: tunnel_laws_def NewNamespaceLocator_def\<close>)
  have own: "owned_locator A ?l" using laws by (simp add: owned_locator_def tunnel_laws_def NewNamespaceLocator_def)
  have sub: "ri_Subresource ri \<noteq> []" using r(1) by (auto simp: pod_subresources_def)
  show ?thesis using laws ri' j(1) r(2) sub made(3,4) loc own pod
    by (simp add: withPodAccessCheck_def check_namespace_def check_pod_def tunnel_laws_def)
qed

text \<open>
  C17: The syncer passes a request of the tunnel to the API server of its cluster only if it is for a subresource of a pod whose namespace has
  a locator of its own target (cluster, name and UID) and whose label says that this target upsyncs it.
\<close>

theorem access_check_sound:
  assumes "withPodAccessCheck A path = Forward ()"
  shows "\<exists>ri ns pod locator. ac_resolve A path = Inr ri \<and> ri_Resource ri = ''pods'' \<and> ri_Subresource ri \<noteq> []
    \<and> projr (ac_nsLister A) (ri_Namespace ri) = Inr (Some ns)
    \<and> LocatorFromAnnotations (ac_json A) (Annotations ns) = Inr (Some locator) \<and> owned_locator A locator
    \<and> projr (ac_podLister A) (ri_Namespace ri) (ri_Name ri) = Inr (Some pod)
    \<and> go_str (Labels pod) (ClusterResourceStateLabelPrefix @ ToSyncTargetKey (ac_hash A) (ac_cluster A) (ac_name A)) = ResourceStateUpsync"
  using assms unfolding access_check_iff by auto

section \<open>The pool\<close>

lemma lookup_at_phase [simp]:
  "tunnel_lookup (at_phase c key p s) d = (if d = c then Some (key, p) else tunnel_lookup s d)"
  "tu_pool (at_phase c key p s) = tu_pool s" "tu_closed (at_phase c key p s) = tu_closed s" "tu_dialers (at_phase c key p s) = tu_dialers s"
  by (auto simp: tunnel_lookup_def at_phase_def update_conv')

lemma lookup_fields [simp]:
  "tunnel_lookup (s\<lparr>tu_pool := p\<rparr>) d = tunnel_lookup s d" "tunnel_lookup (s\<lparr>tu_closed := cl\<rparr>) d = tunnel_lookup s d"
  "tunnel_lookup (s\<lparr>tu_pool := p, tu_dialers := ds\<rparr>) d = tunnel_lookup s d" "tunnel_lookup (s\<lparr>tu_handed := hs\<rparr>) d = tunnel_lookup s d"
  by (simp_all add: tunnel_lookup_def)

lemma createDialer_lookup:
  "map_of (fst (createDialer pool key c)) k = (if k = key \<and> map_of pool key = None then Some c else map_of pool k)"
  "snd (createDialer pool key c) = (case map_of pool key of None \<Rightarrow> c | Some d \<Rightarrow> d)"
  by (auto simp: createDialer_def update_conv' split: option.splits)

lemma deleteDialer_lookup: "map_of (deleteDialer pool key) k = (if k = key then None else map_of pool k)"
  by (simp add: deleteDialer_def delete_conv')

definition pool_owned :: "tunnel_state \<Rightarrow> bool" where
  "pool_owned s \<longleftrightarrow> (\<forall>key d. map_of (tu_pool s) key = Some d \<longrightarrow> (\<exists>p \<in> {ControlWait, Ended}. tunnel_lookup s d = Some (key, p)))"

lemma pool_ownedD: "pool_owned s \<Longrightarrow> map_of (tu_pool s) key = Some d \<Longrightarrow> tunnel_lookup s d = Some (key, ControlWait) \<or> tunnel_lookup s d = Some (key, Ended)"
  unfolding pool_owned_def by blast

lemma pool_ownedI:
  "(\<And>key d. map_of (tu_pool s) key = Some d \<Longrightarrow> tunnel_lookup s d = Some (key, ControlWait) \<or> tunnel_lookup s d = Some (key, Ended)) \<Longrightarrow> pool_owned s"
  unfolding pool_owned_def by blast

lemma pool_owned_step:
  assumes "tunnel_step s s'" "pool_owned s"
  shows "pool_owned s'"
  using assms(1)
proof cases
  case (Create c key)
  show ?thesis unfolding Create(1)
  proof (rule pool_ownedI)
    fix k d
    assume "map_of (tu_pool (at_phase c key ControlWait (s\<lparr>tu_pool := fst (createDialer (tu_pool s) key c),
      tu_dialers := if snd (createDialer (tu_pool s) key c) = c then (c, key) # tu_dialers s else tu_dialers s\<rparr>))) k = Some d"
    then have "d = c \<and> k = key \<and> map_of (tu_pool s) key = None \<or> map_of (tu_pool s) k = Some d"
      by (auto simp: createDialer_lookup split: if_splits)
    with pool_ownedD [OF assms(2), of k d] Create(2)
    show "tunnel_lookup (at_phase c key ControlWait (s\<lparr>tu_pool := fst (createDialer (tu_pool s) key c),
      tu_dialers := if snd (createDialer (tu_pool s) key c) = c then (c, key) # tu_dialers s else tu_dialers s\<rparr>)) d = Some (k, ControlWait)
      \<or> tunnel_lookup (at_phase c key ControlWait (s\<lparr>tu_pool := fst (createDialer (tu_pool s) key c),
      tu_dialers := if snd (createDialer (tu_pool s) key c) = c then (c, key) # tu_dialers s else tu_dialers s\<rparr>)) d = Some (k, Ended)"
      by auto
  qed
qed (auto intro!: pool_ownedI dest!: pool_ownedD [OF assms(2)] simp: deleteDialer_lookup split: if_splits)

lemma pool_owned_reachable: "tunnel_reachable s \<Longrightarrow> pool_owned s"
proof (induction rule: rtranclp_induct)
  case base
  show ?case by (rule pool_ownedI) (simp add: no_tunnels_def)
qed (rule pool_owned_step)

text \<open>A data connection is handed, or about to be handed, only to a dialer of its own key.\<close>

definition control_of :: "tunnel_state \<Rightarrow> tunnel_key \<Rightarrow> conn \<Rightarrow> bool" where
  "control_of s key d \<longleftrightarrow> tunnel_lookup s d = Some (key, ControlWait) \<or> tunnel_lookup s d = Some (key, Ended)"

definition data_of :: "tunnel_state \<Rightarrow> tunnel_key \<Rightarrow> conn \<Rightarrow> bool" where
  "data_of s key c \<longleftrightarrow> tunnel_lookup s c = Some (key, DataWait) \<or> tunnel_lookup s c = Some (key, Ended)"

lemma connections_keep_key:
  assumes "tunnel_step s s'"
  shows "control_of s key d \<Longrightarrow> control_of s' key d" "data_of s key d \<Longrightarrow> data_of s' key d"
  using assms by (cases; auto simp: control_of_def data_of_def)+

definition handing_owned :: "tunnel_state \<Rightarrow> bool" where
  "handing_owned s \<longleftrightarrow> (\<forall>c key d. tunnel_lookup s c = Some (key, Handing d) \<longrightarrow> control_of s key d)
     \<and> (\<forall>(d, c) \<in> set (tu_handed s). \<exists>key. control_of s key d \<and> data_of s key c)"

lemma handing_step:
  assumes step: "tunnel_step s s'" and inv: "handing_owned s" "pool_owned s"
  shows "handing_owned s'"
proof -
  have read: "tunnel_lookup s' c = Some (key, Handing d) \<Longrightarrow> tunnel_lookup s c = Some (key, Handing d) \<or> map_of (tu_pool s) key = Some d" for c key d
    using step by cases (auto simp: getDialer_def split: if_splits option.splits)
  have hand: "(d, c) \<in> set (tu_handed s') \<Longrightarrow> (d, c) \<in> set (tu_handed s)
      \<or> (\<exists>key. tunnel_lookup s c = Some (key, Handing d) \<and> tunnel_lookup s' c = Some (key, DataWait))" for c d
    using step by cases (auto simp: at_phase_def tunnel_lookup_def update_conv')
  have "control_of s' key d" if "tunnel_lookup s' c = Some (key, Handing d)" for c key d
  proof -
    have "control_of s key d" using read [OF that]
    proof
      assume "map_of (tu_pool s) key = Some d"
      from pool_ownedD [OF inv(2) this] show ?thesis by (simp add: control_of_def)
    qed (use inv(1) in \<open>unfold handing_owned_def, blast\<close>)
    then show ?thesis by (rule connections_keep_key(1) [OF step])
  qed
  moreover have "\<exists>key. control_of s' key d \<and> data_of s' key c" if "(d, c) \<in> set (tu_handed s')" for d c
    using hand [OF that]
  proof
    assume "(d, c) \<in> set (tu_handed s)"
    with inv(1) connections_keep_key [OF step] show ?thesis unfolding handing_owned_def by blast
  next
    assume "\<exists>key. tunnel_lookup s c = Some (key, Handing d) \<and> tunnel_lookup s' c = Some (key, DataWait)"
    with inv(1) connections_keep_key(1) [OF step] show ?thesis unfolding handing_owned_def data_of_def by blast
  qed
  ultimately show ?thesis unfolding handing_owned_def by blast
qed

lemma handing_owned_reachable: "tunnel_reachable s \<Longrightarrow> handing_owned s"
proof (induction rule: rtranclp_induct)
  case base
  show ?case by (simp add: handing_owned_def no_tunnels_def tunnel_lookup_def)
next
  case (step s s')
  show ?case by (rule handing_step [OF step.hyps(2) step.IH pool_owned_reachable [OF step.hyps(1)]])
qed

text \<open>
  C16: Under any interleaving of the handlers, the dialer that \<open>Proxy\<close> uses for a target is that of a control connection
  that was opened, through the tunnel subresource, for exactly this cluster and target; and every data connection
  that a dial of this dialer has received was opened for the same cluster and target. So a request never
  reaches the syncer of another target.
\<close>

theorem tunnels_not_mixed:
  assumes "tunnel_reachable s" "Proxy (tu_pool s) (tu_closed s) key = Forward d"
  shows "tunnel_lookup s d \<in> {Some (key, ControlWait), Some (key, Ended)}
    \<and> (\<forall>c. (d, c) \<in> set (tu_handed s) \<longrightarrow> tunnel_lookup s c \<in> {Some (key, DataWait), Some (key, Ended)})"
proof -
  have d: "tunnel_lookup s d = Some (key, ControlWait) \<or> tunnel_lookup s d = Some (key, Ended)"
    using assms(2) pool_ownedD [OF pool_owned_reachable [OF assms(1)], of key d]
    by (auto simp: Proxy_def getDialer_def split: option.splits if_splits)
  moreover have "tunnel_lookup s c \<in> {Some (key, DataWait), Some (key, Ended)}" if "(d, c) \<in> set (tu_handed s)" for c
    using handing_owned_reachable [OF assms(1)] that d by (fastforce simp: handing_owned_def control_of_def data_of_def)
  ultimately show ?thesis by blast
qed

text \<open>
  Reading the pool, deleting the entry and creating a dialer are three separate steps under the lock. When two connections of a target arrive
  together, one of them can end up waiting as a control connection for which no dialer was started: nobody sends over it, and it
  stays open.
\<close>

theorem control_connection_lost:
  "\<exists>s key. tunnel_reachable s \<and> tunnel_lookup s 2 = Some (key, ControlWait) \<and> (2, key) \<notin> set (tu_dialers s) \<and> getDialer (tu_pool s) key = Some 1"
proof -
  let ?k = "(''compute'', ''east'')"
  define s1 where "s1 = at_phase 1 ?k Arrived no_tunnels"
  define s2 where "s2 = at_phase 2 ?k Arrived s1"
  define s3 where "s3 = at_phase 1 ?k Missing s2"
  define s4 where "s4 = at_phase 2 ?k Missing s3"
  define s5 where "s5 = at_phase 1 ?k Cleared (s4\<lparr>tu_pool := deleteDialer (tu_pool s4) ?k\<rparr>)"
  define s6 where "s6 = at_phase 2 ?k Cleared (s5\<lparr>tu_pool := deleteDialer (tu_pool s5) ?k\<rparr>)"
  define s7 where "s7 = at_phase 1 ?k ControlWait (s6\<lparr>tu_pool := fst (createDialer (tu_pool s6) ?k 1),
    tu_dialers := (if snd (createDialer (tu_pool s6) ?k 1) = 1 then (1, ?k) # tu_dialers s6 else tu_dialers s6)\<rparr>)"
  define s8 where "s8 = at_phase 2 ?k ControlWait (s7\<lparr>tu_pool := fst (createDialer (tu_pool s7) ?k 2),
    tu_dialers := (if snd (createDialer (tu_pool s7) ?k 2) = 2 then (2, ?k) # tu_dialers s7 else tu_dialers s7)\<rparr>)"
  have p: "tu_pool no_tunnels = []" "tu_closed no_tunnels = []" "tu_dialers no_tunnels = []" "tunnel_lookup no_tunnels c = None" for c
    by (simp_all add: no_tunnels_def tunnel_lookup_def)
  have "tunnel_step no_tunnels s1" unfolding s1_def by (rule tunnel_step.Request) (simp add: p)
  moreover have "tunnel_step s1 s2" unfolding s2_def by (rule tunnel_step.Request) (simp add: s1_def p)
  moreover have "tunnel_step s2 s3" using tunnel_step.Read [of s2 1 ?k] by (simp add: s3_def s2_def s1_def p getDialer_def)
  moreover have "tunnel_step s3 s4" using tunnel_step.Read [of s3 2 ?k] by (simp add: s4_def s3_def s2_def s1_def p getDialer_def)
  moreover have "tunnel_step s4 s5" unfolding s5_def by (rule tunnel_step.Delete) (simp add: s4_def s3_def)
  moreover have "tunnel_step s5 s6" unfolding s6_def by (rule tunnel_step.Delete) (simp add: s5_def s4_def)
  moreover have "tunnel_step s6 s7" unfolding s7_def by (rule tunnel_step.Create) (simp add: s6_def s5_def)
  moreover have "tunnel_step s7 s8" unfolding s8_def by (rule tunnel_step.Create) (simp add: s7_def s6_def)
  ultimately have r: "tunnel_reachable s8" by (meson rtranclp.rtrancl_into_rtrancl rtranclp.rtrancl_refl)
  have "map_of (tu_pool s7) ?k = Some 1" "tu_dialers s7 = [(1, ?k)]"
    by (simp_all add: s7_def createDialer_lookup s6_def deleteDialer_lookup s5_def s4_def s3_def s2_def s1_def p)
  then have "tunnel_lookup s8 2 = Some (?k, ControlWait)" "(2, ?k) \<notin> set (tu_dialers s8)" "getDialer (tu_pool s8) ?k = Some 1"
    by (simp_all add: s8_def createDialer_lookup getDialer_def)
  with r show ?thesis by blast
qed

section \<open>The listener\<close>


lemma listener_queue: "listener_step s s' \<Longrightarrow> length (ls_queue s) \<le> 4 \<Longrightarrow> length (ls_queue s') \<le> 4"
  by (auto elim!: listener_stepE)

text \<open>
  The queue of the listener never holds more than four connections. But closing the listener while a connection is being handed over can crash the
  syncer: \<open>Close\<close> closes the channel of connections before the one that says so, and a goroutine that has made the test in between sends on a
  closed channel, which panics.
\<close>

theorem closing_listener_panics:
  "(\<exists>s. listener_step\<^sup>*\<^sup>* new_listener s \<and> ls_panic s \<and> ls_closed s) \<and> \<not> (\<exists>s. listener_step\<^sup>*\<^sup>* new_listener s \<and> length (ls_queue s) > 4)"
proof
  define s1 where "s1 = new_listener\<lparr>ls_grabbed := [7]\<rparr>"
  define s2 where "s2 = s1\<lparr>ls_grabbed := [], ls_sending := [7]\<rparr>"
  define s3 where "s3 = s2\<lparr>ls_closed := True, ls_conncClosed := True\<rparr>"
  have "listener_step new_listener s1" using listener_step.Dial [of new_listener 7] by (simp add: s1_def new_listener_def)
  moreover have "listener_step s1 s2" using listener_step.Test [of 7 s1] by (simp add: s2_def s1_def new_listener_def)
  moreover have "listener_step s2 s3" using listener_step.Close [of s2] by (simp add: s3_def s2_def s1_def new_listener_def)
  moreover have "listener_step s3 (s3\<lparr>ls_panic := True\<rparr>)" using listener_step.Send_closed [of 7 s3] by (simp add: s3_def s2_def)
  ultimately have "listener_step\<^sup>*\<^sup>* new_listener (s3\<lparr>ls_panic := True\<rparr>)" by (meson rtranclp.rtrancl_into_rtrancl rtranclp.rtrancl_refl)
  moreover have "ls_panic (s3\<lparr>ls_panic := True\<rparr>) \<and> ls_closed (s3\<lparr>ls_panic := True\<rparr>)" by (simp add: s3_def)
  ultimately show "\<exists>s. listener_step\<^sup>*\<^sup>* new_listener s \<and> ls_panic s \<and> ls_closed s" by blast
  have "length (ls_queue s) \<le> 4" if "listener_step\<^sup>*\<^sup>* new_listener s" for s
    using that by (induction rule: rtranclp_induct) (auto simp: new_listener_def intro: listener_queue)
  then show "\<not> (\<exists>s. listener_step\<^sup>*\<^sup>* new_listener s \<and> length (ls_queue s) > 4)" by (auto simp: not_less)
qed

text \<open>
  Nothing of an answer is lost, and nothing is taken back: as long as the dialer is open, the unanswered announcements and the answers that
  nobody has taken are as many as the dials that wait and those that have given up. So once all announcements are answered and no dial waits, the
  connections and failures of the abandoned dials are still there, each with a blocked goroutine, and the next dial gets one of
  them: its connection or its error belongs to a request that is gone.
\<close>

theorem abandoned_dials_remain:
  assumes "dialer_step\<^sup>*\<^sup>* new_dialer s" "\<not> di_closed s"
  shows "di_announced s + length (di_offered s) + di_failing s = di_waiting s + di_abandoned s"
  using assms
proof (induction rule: rtranclp_induct)
  case (step s s')
  from step.hyps(2) step.IH step.prems show ?case
  proof cases
    case (Pick n c)
    then have "length (di_offered s) = Suc (length (remove1 c (di_offered s)))" using length_pos_if_in_set [of c "di_offered s"] by (simp add: length_remove1)
    with Pick step.IH step.prems show ?thesis by simp
  qed auto
qed (simp add: new_dialer_def)

theorem abandoned_dials_remain_witness:
  "\<exists>s. dialer_step\<^sup>*\<^sup>* new_dialer s \<and> di_waiting s = 0 \<and> di_announced s = 0 \<and> di_failing s = 1 \<and> di_abandoned s = 1"
proof -
  define s1 where "s1 = new_dialer\<lparr>di_announced := 1, di_waiting := 1\<rparr>"
  define s2 where "s2 = s1\<lparr>di_waiting := 0, di_abandoned := 1\<rparr>"
  define s3 where "s3 = s2\<lparr>di_announced := 0, di_failing := 1\<rparr>"
  have "dialer_step new_dialer s1" using dialer_step.Announce [of new_dialer] by (simp add: s1_def new_dialer_def)
  moreover have "dialer_step s1 s2" using dialer_step.Give_up [of s1 0] by (simp add: s2_def s1_def new_dialer_def)
  moreover have "dialer_step s2 s3" using dialer_step.Failed [of s2 0] by (simp add: s3_def s2_def s1_def new_dialer_def)
  ultimately have r: "dialer_step\<^sup>*\<^sup>* new_dialer s3" by (meson rtranclp.rtrancl_into_rtrancl rtranclp.rtrancl_refl)
  have "di_announced s3 + length (di_offered s3) + di_failing s3 = di_waiting s3 + di_abandoned s3"
    by (rule abandoned_dials_remain [OF r]) (simp add: s3_def s2_def s1_def new_dialer_def)
  then show ?thesis using r by (intro exI [of _ s3]) (simp add: s3_def s2_def s1_def new_dialer_def)
qed

lemma attempts_result:
  "fst (connect_attempts dial jitter n i pause latest) =
     (case find (\<lambda>j. \<not> isl (dial j)) [i..<i + n] of Some j \<Rightarrow> dial j | None \<Rightarrow> if n = 0 then latest else dial (i + n - 1))"
proof (induction n arbitrary: i pause latest)
  case (Suc n)
  show ?case
  proof (cases "dial i")
    case (Inl e)
    have u: "[i..<i + Suc n] = i # [Suc i..<Suc i + n]" by (simp add: upt_conv_Cons del: upt_Suc)
    from Inl have "fst (connect_attempts dial jitter (Suc n) i pause latest) =
        fst (connect_attempts dial jitter n (Suc i) (2 * pause + (jitter i mod pause) div 2) (Inl e))"
      by (simp add: Let_def split: prod.splits)
    then show ?thesis unfolding Suc.IH u using Inl by (auto split: option.splits)
  qed (simp add: upt_conv_Cons del: upt_Suc)
qed simp

lemma attempts_pauses:
  assumes "0 < pause" "connect_attempts dial jitter n i pause latest = (r, ps)"
  shows "length ps \<le> n \<and> 3 * 2 ^ n * sum_list ps \<le> 5 * (5 ^ n - 2 ^ n) * pause"
  using assms
proof (induction n arbitrary: i pause latest r ps)
  case (Suc n)
  show ?case
  proof (cases "dial i")
    case (Inl e)
    define m where "m = jitter i mod pause"
    define q where "q = m div 2"
    define p where "p = 2 * pause + q"
    have m: "0 \<le> m" "m < pause" using Suc.prems(1) by (simp_all add: m_def)
    have q: "0 \<le> q" "2 * q \<le> m" using m(1) by (simp_all add: q_def)
    have p: "0 < p" "2 * p \<le> 5 * pause" using m q Suc.prems(1) by (simp_all add: p_def)
    from Suc.prems(2) Inl obtain ps' where ps: "connect_attempts dial jitter n (Suc i) p (Inl e) = (r, ps')" "ps = p # ps'"
      by (auto simp: p_def q_def m_def Let_def split: prod.splits)
    from Suc.IH [OF p(1) ps(1)] have ih: "length ps' \<le> n" "3 * 2 ^ n * sum_list ps' \<le> 5 * (5 ^ n - 2 ^ n) * p" by auto
    have pos: "(0::int) \<le> 5 * 5 ^ n - 2 * 2 ^ n"
    proof -
      have "(2::int) ^ n \<le> 5 ^ n" by (rule power_mono) auto
      moreover have "(0::int) \<le> 5 ^ n" by simp
      ultimately show ?thesis by linarith
    qed
    have "3 * 2 ^ Suc n * sum_list ps = 6 * 2 ^ n * p + 2 * (3 * 2 ^ n * sum_list ps')" by (simp add: ps(2) algebra_simps)
    also have "\<dots> \<le> 6 * 2 ^ n * p + 2 * (5 * (5 ^ n - 2 ^ n) * p)" using ih(2) by linarith
    also have "\<dots> = (5 * 5 ^ n - 2 * 2 ^ n) * (2 * p)" by (simp add: algebra_simps)
    also have "\<dots> \<le> (5 * 5 ^ n - 2 * 2 ^ n) * (5 * pause)" by (rule mult_left_mono [OF p(2) pos])
    also have "\<dots> = 5 * (5 ^ Suc n - 2 ^ Suc n) * pause" by (simp add: algebra_simps)
    finally show ?thesis using ih(1) by (simp add: ps(2))
  next
    case (Inr c)
    with Suc.prems have "ps = []" by simp
    moreover have "(2::int) ^ Suc n \<le> 5 ^ Suc n" by (rule power_mono) auto
    ultimately show ?thesis using Suc.prems(1) by simp
  qed
qed simp

text \<open>
  Connecting ends: after at most five attempts and, whatever the random part of the pauses, less than 162 seconds of pauses, \<open>NewListener\<close>
  returns the first connection that was made, or the error of the fifth attempt if there was none.
\<close>

theorem connecting_ends:
  "fst (NewListener dial jitter) = (case find (\<lambda>j. \<not> isl (dial j)) [0..<5] of Some j \<Rightarrow> dial j | None \<Rightarrow> dial 4)
    \<and> length (snd (NewListener dial jitter)) \<le> 5 \<and> sum_list (snd (NewListener dial jitter)) < 162 * second"
proof -
  obtain r ps where r: "NewListener dial jitter = (r, ps)" by fastforce
  have "length ps \<le> 5 \<and> 3 * 2 ^ 5 * sum_list ps \<le> 5 * (5 ^ 5 - 2 ^ 5) * second"
    by (rule attempts_pauses [OF _ r [unfolded NewListener_def]]) (simp add: second_def)
  then have "length ps \<le> 5" "sum_list ps < 162 * second" by (simp_all add: second_def)
  moreover have "fst (NewListener dial jitter) = (case find (\<lambda>j. \<not> isl (dial j)) [0..<5] of Some j \<Rightarrow> dial j | None \<Rightarrow> dial 4)"
    unfolding NewListener_def attempts_result by (simp cong: option.case_cong)
  ultimately show ?thesis by (simp add: r)
qed

section \<open>Witnesses\<close>

definition ex_proxy :: proxy_env where
  "ex_proxy = \<lparr>pe_json = basic_json, pe_pod = (\<lambda>_ _ _. Inr (Some [(ClusterResourceStateLabelPrefix @ ToSyncTargetKey basic_hash ''compute'' ''east'', ResourceStateUpsync)])),
     pe_targets = (\<lambda>_. Inr [ex_target]), pe_JoinPath = (\<lambda>xs. Inr (join ''/'' xs))\<rparr>"

definition ex_exec :: request_info where
  "ex_exec = \<lparr>ri_IsResourceRequest = True, ri_APIGroup = [], ri_APIVersion = ''v1'', ri_Resource = ''pods'', ri_Subresource = ''exec'',
     ri_Namespace = ''shop'', ri_Name = ''web''\<rparr>"

text \<open>Request paths are read back by cutting them at the slashes.\<close>

definition ex_resolve :: "string \<Rightarrow> go_error + request_info" where
  "ex_resolve path = (case splitOn (CHR ''/'') path of
     [_, _, _, _, ns, r, n, sub] \<Rightarrow> Inr \<lparr>ri_IsResourceRequest = True, ri_APIGroup = [], ri_APIVersion = ''v1'', ri_Resource = r, ri_Subresource = sub,
        ri_Namespace = ns, ri_Name = n\<rparr>
   | _ \<Rightarrow> Inl (Failure ''path''))"

definition ex_ns_object :: unstr where
  "ex_ns_object = ex_secret\<lparr>Annotations := Some [(NamespaceLocatorAnnotation,
     projr (marshal_locator basic_json (NewNamespaceLocator ''user'' ''compute'' ''east'' ''east'' ''shop'')))]\<rparr>"

definition ex_pod_object :: unstr where
  "ex_pod_object = ex_secret\<lparr>Labels := Some [(ClusterResourceStateLabelPrefix @ ToSyncTargetKey basic_hash ''compute'' ''east'', ResourceStateUpsync)]\<rparr>"

definition ex_access :: access_env where
  "ex_access = \<lparr>ac_json = basic_json, ac_hash = basic_hash, ac_resolve = ex_resolve, ac_nsLister = Inr (\<lambda>_. Inr (Some ex_ns_object)),
     ac_podLister = Inr (\<lambda>_ _. Inr (Some ex_pod_object)), ac_cluster = ''compute'', ac_name = ''east'', ac_uid = ''east''\<rparr>"

lemma ex_target_meta [simp]: "Cluster ex_target = ''compute''" "Name ex_target = ''east''" "UID ex_target = ''east''"
  by (simp_all add: ex_target_def meta_named_def object_meta.defs)

definition ex_pod_ns :: string where "ex_pod_ns = ''kcp-000000000000''"

lemma ex_physical: "PhysicalClusterNamespaceName basic_json l = Inr ex_pod_ns"
  by (simp add: PhysicalClusterNamespaceName_def basic_json_def bindE_def ex_pod_ns_def numeral_eq_Suc)

lemma key_not_empty: "ToSyncTargetKey H c n \<noteq> []"
  by (simp add: ToSyncTargetKey_def toBase62_def text62_nonempty)

definition ex_path :: string where "ex_path = ''/api/v1/namespaces/kcp-000000000000/pods/web/exec''"

lemma ex_upsync_key:
  "upsync_key (Some [(ClusterResourceStateLabelPrefix @ ToSyncTargetKey basic_hash ''compute'' ''east'', ResourceStateUpsync)]) = ToSyncTargetKey basic_hash ''compute'' ''east''"
  by (simp add: upsync_key_def)

lemma ex_forward: "pod_ServeHTTP ex_proxy (Some ex_exec) ''user'' = Forward ((''compute'', ''east''), ex_path)"
  using key_not_empty ex_physical ex_upsync_key
    by (simp add: pod_ServeHTTP_def proxy_pod_def proxy_to_def getSyncTargetBySynctargetKey_def podSubresourceURL_def ex_proxy_def ex_exec_def
        pod_subresources_def ex_path_def ex_pod_ns_def)

lemma splitOn_single: "sep \<notin> set a \<Longrightarrow> splitOn sep a = [a]"
  by (induction a) auto

lemma splitOn_append: "sep \<notin> set a \<Longrightarrow> splitOn sep (a @ sep # b) = a # splitOn sep b"
  by (induction a) auto

lemma ex_resolve_path:
  assumes "CHR ''/'' \<notin> set ns \<union> set pod" "sub \<in> set pod_subresources"
  shows "ex_resolve (join ''/'' [''/api/v1/namespaces'', ns, ''pods'', pod, sub]) = Inr \<lparr>ri_IsResourceRequest = True, ri_APIGroup = [], ri_APIVersion = ''v1'',
    ri_Resource = ''pods'', ri_Subresource = sub, ri_Namespace = ns, ri_Name = pod\<rparr>"
proof -
  have sub: "CHR ''/'' \<notin> set sub" using assms(2) by (auto simp: pod_subresources_def)
  have "splitOn (CHR ''/'') (''/api/v1/namespaces/'' @ ns @ CHR ''/'' # ''pods'' @ CHR ''/'' # pod @ CHR ''/'' # sub) = [[], ''api'', ''v1'', ''namespaces'', ns, ''pods'', pod, sub]"
    using assms(1) sub splitOn_append [of "CHR ''/''" "''pods''" "pod @ CHR ''/'' # sub"] by (simp add: splitOn_append splitOn_single)
  then show ?thesis by (simp add: ex_resolve_def)
qed

lemma ex_tunnel_laws: "tunnel_laws ex_proxy ex_access ex_target"
  using ex_resolve_path by (auto simp: tunnel_laws_def ex_proxy_def ex_access_def)

theorem tunnel_ends_agree_witness:
  "withPodAccessCheck ex_access ex_path = Forward ()"
proof -
  obtain s where s: "marshal_locator basic_json (NewNamespaceLocator ''user'' ''compute'' ''east'' ''east'' ''shop'') = Inr s"
    by (simp add: basic_json_def)
  have "withPodAccessCheck ex_access ex_path = (if go_str (Labels ex_pod_object) (ClusterResourceStateLabelPrefix @ ToSyncTargetKey (ac_hash ex_access) (Cluster ex_target) (Name ex_target)) = ResourceStateUpsync
     then Forward () else HttpError 403)"
  proof (rule tunnel_ends_agree [where E = ex_proxy and ri = ex_exec and cluster = "''user''" and st = ex_target and k = "ToSyncTargetKey basic_hash ''compute'' ''east''"
      and n = ex_pod_ns and ns = ex_ns_object and s = s])
    show "CHR ''/'' \<notin> set ex_pod_ns \<union> set (ri_Name ex_exec)" by (simp add: ex_pod_ns_def ex_exec_def)
  qed (use ex_forward ex_physical ex_tunnel_laws s ex_upsync_key in \<open>simp_all add: ex_proxy_def ex_access_def ex_exec_def ex_ns_object_def go_get_def\<close>)
  then show ?thesis by (simp add: ex_access_def ex_pod_object_def go_str_def go_get_def)
qed

theorem proxied_requests_upsynced_witness:
  "\<exists>ns. PhysicalClusterNamespaceName basic_json (NewNamespaceLocator ''user'' ''compute'' ''east'' ''east'' ''shop'') = Inr ns
     \<and> ex_path = join ''/'' [''/api/v1/namespaces'', ns, ''pods'', ''web'', ''exec'']"
  using proxied_requests_upsynced [OF ex_forward] by (auto simp: ex_proxy_def ex_exec_def)

theorem access_check_sound_witness:
  "\<exists>locator. LocatorFromAnnotations basic_json (Annotations ex_ns_object) = Inr (Some locator) \<and> stl_UID (nl_SyncTarget locator) = ''east''"
proof -
  have "ex_resolve ex_path = Inr \<lparr>ri_IsResourceRequest = True, ri_APIGroup = [], ri_APIVersion = ''v1'',
    ri_Resource = ''pods'', ri_Subresource = ''exec'', ri_Namespace = ex_pod_ns, ri_Name = ''web''\<rparr>"
    using ex_resolve_path [of ex_pod_ns "''web''" "''exec''"] by (simp add: ex_pod_ns_def ex_path_def pod_subresources_def)
  moreover obtain s where "marshal_locator basic_json (NewNamespaceLocator ''user'' ''compute'' ''east'' ''east'' ''shop'') = Inr s"
    by (simp add: basic_json_def)
  then have "LocatorFromAnnotations basic_json (Annotations ex_ns_object) = Inr (Some (NewNamespaceLocator ''user'' ''compute'' ''east'' ''east'' ''shop''))"
    by (intro locator_annotation [OF basic_json_laws]) (auto simp: ex_ns_object_def go_get_def NewNamespaceLocator_def)
  ultimately have "withPodAccessCheck ex_access ex_path = Forward ()"
    by (simp add: withPodAccessCheck_def check_namespace_def check_pod_def ex_access_def owned_locator_def NewNamespaceLocator_def ex_pod_object_def go_str_def go_get_def ex_pod_ns_def)
  from access_check_sound [OF this] show ?thesis by (auto simp: ex_access_def owned_locator_def)
qed

theorem tunnels_not_mixed_witness:
  "\<exists>s. tunnel_reachable s \<and> Proxy (tu_pool s) (tu_closed s) (''compute'', ''east'') = Forward 1 \<and> (1, 2) \<in> set (tu_handed s)
     \<and> tunnel_lookup s 2 \<in> {Some ((''compute'', ''east''), DataWait), Some ((''compute'', ''east''), Ended)}"
proof -
  let ?k = "(''compute'', ''east'')"
  define s1 where "s1 = at_phase 1 ?k Arrived no_tunnels"
  define s2 where "s2 = at_phase 1 ?k Missing s1"
  define s3 where "s3 = at_phase 1 ?k Cleared (s2\<lparr>tu_pool := deleteDialer (tu_pool s2) ?k\<rparr>)"
  define s4 where "s4 = at_phase 1 ?k ControlWait (s3\<lparr>tu_pool := fst (createDialer (tu_pool s3) ?k 1),
    tu_dialers := (if snd (createDialer (tu_pool s3) ?k 1) = 1 then (1, ?k) # tu_dialers s3 else tu_dialers s3)\<rparr>)"
  define s5 where "s5 = at_phase 2 ?k Arrived s4"
  define s6 where "s6 = at_phase 2 ?k (Handing 1) s5"
  define s7 where "s7 = at_phase 2 ?k DataWait (s6\<lparr>tu_handed := (1, 2) # tu_handed s6\<rparr>)"
  have p: "tu_pool no_tunnels = []" "tu_closed no_tunnels = []" "tunnel_lookup no_tunnels c = None" for c
    by (simp_all add: no_tunnels_def tunnel_lookup_def)
  have m: "map_of (tu_pool s4) ?k = Some 1" "tu_closed s4 = []" "tunnel_lookup s4 2 = None"
    by (simp_all add: s4_def createDialer_lookup s3_def deleteDialer_lookup s2_def s1_def p)
  have "tunnel_step no_tunnels s1" unfolding s1_def by (rule tunnel_step.Request) (simp add: p)
  moreover have "tunnel_step s1 s2" using tunnel_step.Read [of s1 1 ?k] by (simp add: s2_def s1_def p getDialer_def)
  moreover have "tunnel_step s2 s3" unfolding s3_def by (rule tunnel_step.Delete) (simp add: s2_def)
  moreover have "tunnel_step s3 s4" unfolding s4_def by (rule tunnel_step.Create) (simp add: s3_def)
  moreover have "tunnel_step s4 s5" unfolding s5_def by (rule tunnel_step.Request) (rule m(3))
  moreover have "tunnel_step s5 s6" using tunnel_step.Read [of s5 2 ?k] by (simp add: s6_def s5_def m getDialer_def)
  moreover have "tunnel_step s6 s7" unfolding s7_def by (rule tunnel_step.Hand) (simp add: s6_def)
  ultimately have r: "tunnel_reachable s7" by (meson rtranclp.rtrancl_into_rtrancl rtranclp.rtrancl_refl)
  have f: "Proxy (tu_pool s7) (tu_closed s7) ?k = Forward 1"
    by (simp add: Proxy_def getDialer_def s7_def s6_def s5_def at_phase_def m)
  have h: "(1, 2) \<in> set (tu_handed s7)" by (simp add: s7_def at_phase_def)
  from tunnels_not_mixed [OF r f] r f h show ?thesis by blast
qed

end
