(* ===== verification/Generated_Names.thy ===== *)
theory Generated_Names
  imports Sync_Command
begin

text \<open>
  The names that the code generates, against the types of names that Kubernetes has: a namespace, a service or the value of a label takes at most
  63 characters. \<^verbatim>\<open>src/pkg/syncer/shared/namespace.go\<close>, \<^verbatim>\<open>src/pkg/syncer/shared/helpers.go\<close> and
  \<^verbatim>\<open>src/pkg/cliplugins/workload/plugin/sync.go\<close>.
\<close>

section \<open>Types of names\<close>

definition dns_alnum :: string where
  "dns_alnum = ''abcdefghijklmnopqrstuvwxyz0123456789''"

definition dns_label :: "string \<Rightarrow> bool" where
  "dns_label s \<longleftrightarrow> s \<noteq> [] \<and> length s \<le> 63 \<and> set s \<subseteq> set dns_alnum \<union> {CHR ''-''} \<and> hd s \<in> set dns_alnum \<and> last s \<in> set dns_alnum"

definition label_value :: "string \<Rightarrow> bool" where
  "label_value s \<longleftrightarrow> s \<noteq> [] \<and> length s \<le> 63 \<and> set s \<subseteq> set digits62"

text \<open>Base 36 in lower case, and a digest of 28 bytes.\<close>

definition digest_laws :: "json_lib \<Rightarrow> bool" where
  "digest_laws J \<longleftrightarrow> (\<forall>h. set (base36_lower J h) \<subseteq> set dns_alnum) \<and> (\<forall>s. length (sum224 J s) = 28)"

lemma dns_prefixes: "set ''kcp-'' \<union> set ''kcp-dns-'' \<union> set ''kcp-syncer-'' \<subseteq> set dns_alnum \<union> {CHR ''-''}" "CHR ''k'' \<in> set dns_alnum"
  by (simp_all add: dns_alnum_def)

lemma dns_labelI:
  assumes "p = CHR ''k'' # p'" "set p \<subseteq> set dns_alnum \<union> {CHR ''-''}" "set m \<subseteq> set dns_alnum \<union> {CHR ''-''}"
    and "t \<noteq> []" "set t \<subseteq> set dns_alnum"
  shows "dns_label (p @ m @ t) \<longleftrightarrow> length p + length m + length t \<le> 63"
proof -
  have "last (p @ m @ t) \<in> set dns_alnum" using assms(4,5) last_in_set [of t] by auto
  then show ?thesis using assms dns_prefixes(2) by (auto simp: dns_label_def)
qed

lemma digest_part:
  assumes "digest_laws J" "length (base36_lower J h) \<ge> k" "0 < k"
  shows "take k (base36_lower J h) \<noteq> []" "set (take k (base36_lower J h)) \<subseteq> set dns_alnum" "length (take k (base36_lower J h)) = k"
  using assms set_take_subset [of k "base36_lower J h"] by (auto simp: digest_laws_def)

lemma tenant_id_value:
  assumes "digest_laws J" "GetTenantID J l = Inr t"
  shows "label_value t"
proof -
  from assms(2) obtain b where t: "t = text62 (set_bytes (sum224 J b))" by (auto simp: GetTenantID_def bindE_Inr)
  have "set_bytes (sum224 J b) < 256 ^ 28" using set_bytes_bound [of "sum224 J b"] assms(1) by (simp add: digest_laws_def)
  also have "\<dots> < (62::nat) ^ 38" by simp
  finally have "length t \<le> 38" unfolding t by (rule text62_length) simp
  then show ?thesis using text62_chars [of "set_bytes (sum224 J b)"] text62_nonempty by (simp add: label_value_def t)
qed

section \<open>Properties\<close>

text \<open>
  C40: Every name has the type of its use: a downstream namespace is a DNS label of 16 characters and a tenant a label value, whatever the
  locator. The names made from a sync target's name are DNS labels only for short targets: the resolver, which is also a service, for at most 37
  characters, and the syncer, whose name is also the default of its namespace, for at most 43, while the comments of both functions call
  the results valid segments for every name.
\<close>

theorem generated_names_typed:
  assumes laws: "digest_laws J" and name: "set (Name st) \<subseteq> set dns_alnum \<union> {CHR ''-''}"
    and "PhysicalClusterNamespaceName J l = Inr ns" "GetTenantID J l = Inr tenant"
    and "GetDNSID J cluster (UID st) (Name st) = Inr dnsID" "getSyncerID J st = Inr syncerID"
  shows "dns_label ns \<and> length ns = 16 \<and> label_value tenant
    \<and> (dns_label dnsID \<longleftrightarrow> length (Name st) \<le> 37) \<and> (dns_label syncerID \<longleftrightarrow> length (Name st) \<le> 43)"
proof (intro conjI)
  from assms(3) obtain b where m: "\<not> length (base36_lower J (sum224 J b)) < 12" "ns = ''kcp-'' @ take 12 (base36_lower J (sum224 J b))"
    unfolding PhysicalClusterNamespaceName_def Let_def bindE_Inr by (auto split: if_splits)
  then have b: "length (base36_lower J (sum224 J b)) \<ge> 12" "ns = ''kcp-'' @ [] @ take 12 (base36_lower J (sum224 J b))" by simp_all
  note p = digest_part [OF laws b(1)]
  show "length ns = 16" using p(3) by (simp add: b(2))
  have "dns_label (''kcp-'' @ [] @ take 12 (base36_lower J (sum224 J b))) \<longleftrightarrow>
      length ''kcp-'' + length ([] :: string) + length (take 12 (base36_lower J (sum224 J b))) \<le> 63"
    using p dns_prefixes(1) by (intro dns_labelI) auto
  then show "dns_label ns" using p(3) by (simp add: b(2))
  show "label_value tenant" by (rule tenant_id_value [OF laws assms(4)])
  let ?u = "base36_lower J (sum224 J (UID st))" and ?w = "base36_lower J (sum224 J cluster)"
  from assms(5) have d: "length ?u \<ge> 8" "length ?w \<ge> 8" "dnsID = ''kcp-dns-'' @ (Name st @ ''-'' @ take 8 ?u @ ''-'') @ take 8 ?w"
    by (auto simp: GetDNSID_def Let_def split: if_splits)
  have "dns_label (''kcp-dns-'' @ (Name st @ ''-'' @ take 8 ?u @ ''-'') @ take 8 ?w) \<longleftrightarrow>
      length ''kcp-dns-'' + length (Name st @ ''-'' @ take 8 ?u @ ''-'') + length (take 8 ?w) \<le> 63"
    using digest_part [OF laws d(1)] digest_part [OF laws d(2)] dns_prefixes(1) name by (intro dns_labelI) auto
  then show "dns_label dnsID \<longleftrightarrow> length (Name st) \<le> 37" using d(1,2) by (simp add: d(3))
  from assms(6) have s: "syncerID = ''kcp-syncer-'' @ (Name st @ ''-'') @ take 8 ?u"
    by (auto simp: getSyncerID_def Let_def split: if_splits)
  have "dns_label (''kcp-syncer-'' @ (Name st @ ''-'') @ take 8 ?u) \<longleftrightarrow>
      length ''kcp-syncer-'' + length (Name st @ ''-'') + length (take 8 ?u) \<le> 63"
    using digest_part [OF laws d(1)] dns_prefixes(1) name by (intro dns_labelI) auto
  then show "dns_label syncerID \<longleftrightarrow> length (Name st) \<le> 43" using d(1) by (simp add: s)
qed

theorem generated_names_typed_witness:
  "dns_label (projr (GetDNSID basic_json ''user'' ''east'' ''east'')) \<and> \<not> dns_label (projr (GetDNSID basic_json ''user'' ''east'' (replicate 38 CHR ''a'')))"
proof -
  have laws: "digest_laws basic_json" by (simp add: digest_laws_def basic_json_def dns_alnum_def)
  let ?l = "NewNamespaceLocator [] [] [] [] []"
  have ex: "dns_label (projr (GetDNSID basic_json ''user'' (UID st) (Name st))) \<longleftrightarrow> length (Name st) \<le> 37"
    if "set (Name st) \<subseteq> set dns_alnum \<union> {CHR ''-''}" for st :: sync_target
  proof -
    obtain ns where ns: "PhysicalClusterNamespaceName basic_json ?l = Inr ns" by (simp add: PhysicalClusterNamespaceName_def basic_json_def bindE_def)
    obtain t where t: "GetTenantID basic_json ?l = Inr t" by (simp add: GetTenantID_def basic_json_def bindE_def)
    obtain d where d: "GetDNSID basic_json ''user'' (UID st) (Name st) = Inr d" by (simp add: GetDNSID_def basic_json_def)
    obtain i where i: "getSyncerID basic_json st = Inr i" by (simp add: getSyncerID_def basic_json_def)
    from generated_names_typed [OF laws that ns t d i] show ?thesis by (simp add: d)
  qed
  have "Name ex_target = ''east''" "UID ex_target = ''east''" by (simp_all add: ex_target_def meta_named_def object_meta.defs)
  with ex [of ex_target] ex [of "ex_target\<lparr>Name := replicate 38 CHR ''a''\<rparr>"] show ?thesis by (simp add: dns_alnum_def)
qed

end
