(* ===== verification/Polling.thy ===== *)
theory Polling
  imports TMC_Prelude
begin

text \<open>
  \<^verbatim>\<open>wait.PollImmediateInfinite\<close>, the loop of the callers that wait for a condition without a bound. The loop may run forever, so it is a partial
  function; \<open>poll_returns\<close> says when it returns, and with what. \<open>WaitForCacheSync\<close> is such a poll that also ends when its stop channel is closed.
\<close>

text \<open>The condition at its attempts: an error ends the poll, a value ends it, \<open>Inr None\<close> is another attempt after the interval.\<close>

partial_function (option) PollImmediateInfinite :: "(nat \<Rightarrow> go_error + 'a option) \<Rightarrow> nat \<Rightarrow> (go_error + 'a) option" where
  "PollImmediateInfinite condition i =
     (case condition i of
        Inl e \<Rightarrow> Some (Inl e)
      | Inr (Some a) \<Rightarrow> Some (Inr a)
      | Inr None \<Rightarrow> PollImmediateInfinite condition (Suc i))"

declare PollImmediateInfinite.simps [code]

definition ends :: "go_error + 'a option \<Rightarrow> bool" where
  "ends r \<longleftrightarrow> r \<noteq> Inr None"

lemma poll_at:
  assumes "ends (condition (i + n))" "\<And>j. j < n \<Longrightarrow> \<not> ends (condition (i + j))"
  shows "PollImmediateInfinite condition i = Some (case condition (i + n) of Inl e \<Rightarrow> Inl e | Inr a \<Rightarrow> Inr (the a))"
  using assms
proof (induction n arbitrary: i)
  case 0
  then show ?case by (subst PollImmediateInfinite.simps) (auto simp: ends_def split: sum.splits option.splits)
next
  case (Suc n)
  have "condition i = Inr None" using Suc.prems(2) [of 0] by (simp add: ends_def)
  moreover have "PollImmediateInfinite condition (Suc i) = Some (case condition (Suc i + n) of Inl e \<Rightarrow> Inl e | Inr a \<Rightarrow> Inr (the a))"
  proof (rule Suc.IH)
    show "ends (condition (Suc i + n))" using Suc.prems(1) by simp
    show "\<not> ends (condition (Suc i + j))" if "j < n" for j using Suc.prems(2) [of "Suc j"] that by simp
  qed
  ultimately show ?case by (subst PollImmediateInfinite.simps) simp
qed

lemma poll_ends_only:
  assumes "PollImmediateInfinite condition i = Some r"
  shows "\<exists>n. ends (condition (i + n))"
proof (rule PollImmediateInfinite.raw_induct [OF _ assms])
  fix f :: "(nat \<Rightarrow> go_error + 'a option) \<Rightarrow> nat \<Rightarrow> (go_error + 'a) option" and condition i r
  assume IH: "\<And>c k y. f c k = Some y \<Longrightarrow> \<exists>n. ends (c (k + n))"
    and step: "(case condition i of Inl e \<Rightarrow> Some (Inl e) | Inr None \<Rightarrow> f condition (Suc i) | Inr (Some a) \<Rightarrow> Some (Inr a)) = Some r"
  show "\<exists>n. ends (condition (i + n))"
  proof (cases "condition i = Inr None")
    case True
    with step obtain n where "ends (condition (Suc i + n))" using IH [of condition "Suc i"] by auto
    then have "ends (condition (i + Suc n))" by simp
    then show ?thesis by blast
  next
    case False
    then have "ends (condition (i + 0))" by (simp add: ends_def)
    then show ?thesis by blast
  qed
qed

text \<open>A poll returns exactly if some attempt ends it, with the outcome of the first one that does.\<close>

lemma poll_returns:
  "PollImmediateInfinite condition 0 = Some r \<longleftrightarrow>
     (\<exists>n. ends (condition n) \<and> (\<forall>j < n. \<not> ends (condition j)) \<and> r = (case condition n of Inl e \<Rightarrow> Inl e | Inr a \<Rightarrow> Inr (the a)))"
proof
  assume r: "PollImmediateInfinite condition 0 = Some r"
  then have "\<exists>n. ends (condition n)" using poll_ends_only [OF r] by simp
  then obtain n where n: "ends (condition n)" "\<forall>j < n. \<not> ends (condition j)" unfolding exists_least_iff [of "\<lambda>n. ends (condition n)"] by blast
  have "PollImmediateInfinite condition 0 = Some (case condition n of Inl e \<Rightarrow> Inl e | Inr a \<Rightarrow> Inr (the a))"
    using poll_at [of condition 0 n] n unfolding add_0 by blast
  then show "\<exists>n. ends (condition n) \<and> (\<forall>j < n. \<not> ends (condition j)) \<and> r = (case condition n of Inl e \<Rightarrow> Inl e | Inr a \<Rightarrow> Inr (the a))"
    using n r by (intro exI [of _ n] conjI) simp_all
next
  assume "\<exists>n. ends (condition n) \<and> (\<forall>j < n. \<not> ends (condition j)) \<and> r = (case condition n of Inl e \<Rightarrow> Inl e | Inr a \<Rightarrow> Inr (the a))"
  then obtain n where n: "ends (condition n)" "\<forall>j < n. \<not> ends (condition j)" "r = (case condition n of Inl e \<Rightarrow> Inl e | Inr a \<Rightarrow> Inr (the a))" by blast
  then show "PollImmediateInfinite condition 0 = Some r" using poll_at [of condition 0 n] unfolding add_0 by blast
qed

text \<open>
  \<open>cache.WaitForCacheSync\<close> at its polls: are the caches synced, is the stop channel closed. The result says whether the caches are synced.
\<close>

definition WaitForCacheSync :: "(nat \<Rightarrow> bool) \<Rightarrow> (nat \<Rightarrow> bool) \<Rightarrow> bool option" where
  "WaitForCacheSync hasSynced stopped =
     map_option (\<lambda>r. \<not> isl r)
       (PollImmediateInfinite (\<lambda>i. if hasSynced i then Inr (Some ()) else if stopped i then Inl (Failure ''timed out waiting for the condition'') else Inr None) 0)"

lemma wait_ends: "WaitForCacheSync hasSynced stopped \<noteq> None \<longleftrightarrow> (\<exists>i. hasSynced i \<or> stopped i)"
proof -
  let ?c = "\<lambda>i. if hasSynced i then Inr (Some ()) else if stopped i then Inl (Failure ''timed out waiting for the condition'') else Inr None"
  have e: "ends (?c i) \<longleftrightarrow> hasSynced i \<or> stopped i" for i by (simp add: ends_def)
  have "(\<exists>r. PollImmediateInfinite ?c 0 = Some r) \<longleftrightarrow> (\<exists>i. ends (?c i))"
    unfolding poll_returns using exists_least_iff [of "\<lambda>i. ends (?c i)"] by blast
  then show ?thesis unfolding e WaitForCacheSync_def by simp
qed

lemma wait_now [simp]: "hasSynced 0 \<Longrightarrow> WaitForCacheSync hasSynced stopped = Some True"
  by (simp add: WaitForCacheSync_def PollImmediateInfinite.simps)

end
