(* ===== verification/Syncer_Start.thy ===== *)
theory Syncer_Start
  imports API_Importer Heartbeat Syncer_Target Polling
begin

text \<open>
  \<^verbatim>\<open>src/pkg/syncer/syncer.go\<close>: how a syncer is put together and started. It reads its sync target once, builds its clients, informers and
  controllers, starts them, and sends heartbeats. The clients and controllers themselves are in the other theories; here are the order of the steps,
  the conditions under which they happen, the informers that are shared and the filters of the resource types.

  Parameters: the outcome of every constructor, the answers of the server and the clock.
\<close>

section \<open>The configuration and the sync target\<close>

record syncer_config =
  cfg_ResourcesToSync :: "string list"
  cfg_SyncTargetName :: string
  cfg_SyncTargetUID :: string

definition read_sync_target :: "syncer_config \<Rightarrow> go_error + sync_target \<Rightarrow> go_error + sync_target option" where
  "read_sync_target cfg answer =
     bindE answer (\<lambda>st.
       if cfg_SyncTargetUID cfg \<noteq> [] \<and> cfg_SyncTargetUID cfg \<noteq> UID st then Inl (Failure ''unexpected SyncTarget UID, refusing to sync'')
       else Inr (Some st))"

definition initial_target :: "syncer_config \<Rightarrow> (nat \<Rightarrow> go_error + sync_target) \<Rightarrow> (go_error + sync_target) option" where
  "initial_target cfg answers = PollImmediateInfinite (\<lambda>i. read_sync_target cfg (answers i)) 0"

definition AdvancedSchedulingFeatureAnnotation :: string where
  "AdvancedSchedulingFeatureAnnotation = ''featuregates.experimental.workload.kcp.io/advancedscheduling''"

definition advancedSchedulingEnabled :: "sync_target \<Rightarrow> bool" where
  "advancedSchedulingEnabled st \<longleftrightarrow> go_str (Annotations st) AdvancedSchedulingFeatureAnnotation = ''true''"

section \<open>Filters and delegates\<close>

type_synonym gvr_table = "(gvr \<times> partial_metadata) list"

definition filtered_GVRs :: "(gvr \<Rightarrow> bool) \<Rightarrow> gvr_table \<Rightarrow> gvr_table" where
  "filtered_GVRs keepGVR gvrs = filter (\<lambda>(g, _). keepGVR g) gvrs"

definition downstream_types :: "gvr \<Rightarrow> bool" where
  "downstream_types g \<longleftrightarrow> gvr_Group g \<noteq> ''core.kcp.io''"

definition syncer_types :: "gvr \<Rightarrow> bool" where
  "syncer_types g = (if gvr_Group g = [] \<and> gvr_Resource g = ''pods'' then False else True)"

definition upsyncer_types :: "gvr \<Rightarrow> bool" where
  "upsyncer_types g \<longleftrightarrow> gvr_Group g = []
     \<and> (gvr_Resource g = ''persistentvolumes'' \<or> gvr_Resource g = ''pods'' \<or> gvr_Resource g = ''endpoints'')"

text \<open>The cleaner that the spec syncers get, before and after the namespace controller exists; \<open>'s\<close> is the state of that controller.\<close>

definition delegated_PlanCleaning :: "(string \<Rightarrow> 's \<Rightarrow> 's) option \<Rightarrow> string \<Rightarrow> 's \<Rightarrow> 's" where
  "delegated_PlanCleaning delegate k s = (case delegate of None \<Rightarrow> s | Some plan \<Rightarrow> plan k s)"

definition delegated_CancelCleaning :: "(string \<Rightarrow> 's \<Rightarrow> 's) option \<Rightarrow> string \<Rightarrow> 's \<Rightarrow> 's" where
  "delegated_CancelCleaning delegate k s = (case delegate of None \<Rightarrow> s | Some cancel \<Rightarrow> cancel k s)"

text \<open>The lister that the access check of the tunnel gets: one of the synced downstream informers.\<close>

definition getDownstreamLister :: "(gvr \<times> 'l) list \<Rightarrow> gvr \<Rightarrow> go_error + 'l" where
  "getDownstreamLister informers g = (case map_of informers g of None \<Rightarrow> Inl (Failure ''failed to get informer for gvr'') | Some l \<Rightarrow> Inr l)"

section \<open>Heartbeats\<close>

text \<open>The JSON patch: a test of the UID and the replacement of the time.\<close>

datatype heartbeat_op = TestUID string | ReplaceHeartbeat string

definition heartbeat_patch :: "rfc3339 \<Rightarrow> string \<Rightarrow> time \<Rightarrow> heartbeat_op list" where
  "heartbeat_patch R syncTargetUID now = [TestUID syncTargetUID, ReplaceHeartbeat (fmt_time R now)]"

text \<open>One attempt: an error is logged and the next attempt follows; the returned object is read without a nil check.\<close>

definition heartbeat_attempt :: "(heartbeat_op list \<Rightarrow> go_error + sync_target) \<Rightarrow> rfc3339 \<Rightarrow> string \<Rightarrow> time \<Rightarrow> go_error + time option" where
  "heartbeat_attempt server R syncTargetUID now =
     (case server (heartbeat_patch R syncTargetUID now) of
        Inl _ \<Rightarrow> Inr None
      | Inr st \<Rightarrow> (case LastSyncerHeartbeatTime (st_Status st) of None \<Rightarrow> Inl (Panic ''nil pointer dereference'') | Some t \<Rightarrow> Inr (Some t)))"

definition heartbeatInterval :: duration where "heartbeatInterval = 20 * second"

text \<open>
  One round: \<open>clock i\<close> is what the clock says at attempt \<open>i\<close>, \<open>server i\<close> is the server at that attempt. An attempt may take any time, and the next one
  follows at the next tick of a second after it.
\<close>

definition heartbeat_round ::
  "(nat \<Rightarrow> heartbeat_op list \<Rightarrow> go_error + sync_target) \<Rightarrow> rfc3339 \<Rightarrow> string \<Rightarrow> (nat \<Rightarrow> time) \<Rightarrow> (go_error + time) option" where
  "heartbeat_round server R syncTargetUID clock =
     PollImmediateInfinite (\<lambda>i. heartbeat_attempt (server i) R syncTargetUID (clock i)) 0"

text \<open>
  What a server does with the patch of a heartbeat: the operations are applied in order, and a test that fails refuses the patch.
\<close>

fun apply_heartbeat :: "rfc3339 \<Rightarrow> sync_target \<Rightarrow> heartbeat_op list \<Rightarrow> go_error + sync_target" where
  "apply_heartbeat R st [] = Inr st"
| "apply_heartbeat R st (TestUID u # ops) = (if UID st = u then apply_heartbeat R st ops else Inl (Failure ''testing value failed''))"
| "apply_heartbeat R st (ReplaceHeartbeat s # ops) =
     bindE (parse_time R s) (\<lambda>t. apply_heartbeat R (st\<lparr>st_Status := (st_Status st)\<lparr>LastSyncerHeartbeatTime := Some t\<rparr>\<rparr>) ops)"

section \<open>The start\<close>

datatype start_part = KcpClient | TmcClient | Importer | DynamicClient | KubeClient | DownstreamInformers | TargetController
  | NamespaceController | DownstreamSpecSyncer | StatusSyncer | ResourceUpsyncer | RequiredInformer gvr

datatype start_event = StartInformers string | Go string | Heartbeats string string

text \<open>
  \<open>sn_synced\<close> and \<open>sn_stopped\<close> are what the polls of the wait for the named caches see: the caches are synced, the context has ended.
\<close>

record start_env =
  sn_make :: "start_part \<Rightarrow> go_error option"
  sn_target :: "nat \<Rightarrow> go_error + sync_target"
  sn_synced :: "string \<Rightarrow> nat \<Rightarrow> bool"
  sn_stopped :: "string \<Rightarrow> nat \<Rightarrow> bool"

definition alwaysRequiredGVRs :: "gvr list" where
  "alwaysRequiredGVRs = [\<lparr>gvr_Group = [], gvr_Version = ''v1'', gvr_Resource = ''secrets''\<rparr>,
     \<lparr>gvr_Group = [], gvr_Version = ''v1'', gvr_Resource = ''namespaces''\<rparr>]"

definition build :: "start_env \<Rightarrow> start_part list \<Rightarrow> (start_event, unit) calls" where
  "build E = for_each (\<lambda>part. check (sn_make E part))"

text \<open>A run that may block: \<open>None\<close> if it never returns.\<close>

definition andThenBlock :: "('c, 'a) calls \<Rightarrow> ('a \<Rightarrow> ('c, 'b) calls option) \<Rightarrow> ('c, 'b) calls option" where
  "andThenBlock m f =
     (case m of (cs, Inl e) \<Rightarrow> Some (cs, Inl e) | (cs, Inr x) \<Rightarrow> map_option (\<lambda>(cs', r). (cs @ cs', r)) (f x))"

text \<open>A wait blocks until the caches are synced or the context ends. Which of the two it was is not looked at.\<close>

definition await_caches :: "start_env \<Rightarrow> string \<Rightarrow> ('c, unit) calls option" where
  "await_caches E name = map_option (\<lambda>_. okay ()) (WaitForCacheSync (sn_synced E name) (sn_stopped E name))"

definition start_all :: "start_env \<Rightarrow> syncer_config \<Rightarrow> (start_event, unit) calls option" where
  "start_all E cfg =
     andThenBlock (for_each emit [StartInformers ''downstream'', StartInformers ''synctarget'', StartInformers ''syncer namespace'']) (\<lambda>_.
     Option.bind (await_caches E ''synctarget'') (\<lambda>w1.
     Option.bind (await_caches E ''syncer namespace'') (\<lambda>w2.
     Option.bind (await_caches E ''downstream'') (\<lambda>w3.
     Some (andThen w1 (\<lambda>_. andThen w2 (\<lambda>_. andThen w3 (\<lambda>_.
       for_each emit [Go ''downstream informers'', Go ''api importer'', Go ''spec syncer'', Go ''status syncer'', Go ''upsyncer'', Go ''namespace controller'',
         Go ''synctarget controller'', Go ''downstream controller manager'', Heartbeats (cfg_SyncTargetName cfg) (cfg_SyncTargetUID cfg)]))))))))"

definition start_with :: "start_env \<Rightarrow> syncer_config \<Rightarrow> sync_target \<Rightarrow> (start_event, unit) calls option" where
  "start_with E cfg syncTarget =
     andThenBlock (build E [Importer]) (\<lambda>_.
     andThenBlock (for_each emit [StartInformers ''kcp importer'', StartInformers ''tmc importer'']) (\<lambda>_.
     andThenBlock (build E ([DynamicClient, KubeClient, DownstreamInformers, TargetController, NamespaceController, DownstreamSpecSyncer, StatusSyncer,
       ResourceUpsyncer] @ map RequiredInformer alwaysRequiredGVRs)) (\<lambda>_.
     start_all E cfg)))"

definition StartSyncer :: "start_env \<Rightarrow> syncer_config \<Rightarrow> (start_event, unit) calls option" where
  "StartSyncer E cfg =
     andThenBlock (build E [KcpClient, TmcClient]) (\<lambda>_.
     Option.bind (initial_target cfg (sn_target E)) (\<lambda>res.
     andThenBlock (lift_err res) (start_with E cfg)))"

text \<open>The controllers of one shard, and the function that starts them.\<close>

datatype shard_part = SyncerClient | UpsyncerClient | SyncerInformers | UpsyncerInformers | SpecSyncer | UpsyncerCleaner | ShardInformer gvr

definition newShardControllers :: "(virtual_workspace \<Rightarrow> shard_part \<Rightarrow> go_error option) \<Rightarrow> virtual_workspace \<Rightarrow> go_error + virtual_workspace" where
  "newShardControllers outcomes urls =
     bindE (snd (for_each (\<lambda>part. check (outcomes urls part)) ([SyncerClient, UpsyncerClient, SyncerInformers, UpsyncerInformers, SpecSyncer, UpsyncerCleaner]
       @ map ShardInformer alwaysRequiredGVRs) :: (start_event, unit) calls)) (\<lambda>_. Inr urls)"

definition start_shard :: "(nat \<Rightarrow> bool) \<Rightarrow> (nat \<Rightarrow> bool) \<Rightarrow> (start_event, unit) calls option" where
  "start_shard hasSynced stopped =
     andThenBlock (for_each emit [StartInformers ''upstream syncer'', StartInformers ''upstream upsyncer'']) (\<lambda>_.
     Option.bind (WaitForCacheSync hasSynced stopped) (\<lambda>ok.
     Some (if \<not> ok then fail (Failure ''unable to sync watch caches for virtual workspace'')
       else for_each emit [Go ''upstream syncer informers'', Go ''upstream upsyncer informers'', Go ''spec syncer'', Go ''upsyncer cleanup'',
         Go ''upstream syncer controller manager'', Go ''upstream upsyncer controller manager''])))"

section \<open>The importer's informer\<close>

text \<open>
  The factory for the sync target has a field selector for its name. \<open>StartSyncer\<close> gives the importer the informer for imports of this
  factory, so the selector holds for the imports too.
\<close>

definition factory_selects :: "syncer_config \<Rightarrow> 'a object_meta_scheme \<Rightarrow> bool" where
  "factory_selects cfg obj \<longleftrightarrow> Name obj = cfg_SyncTargetName cfg"

definition with_informer :: "syncer_config \<Rightarrow> api_import list \<Rightarrow> 's importer_env \<Rightarrow> 's importer_env" where
  "with_informer cfg items E =
     (let cache = filter (factory_selects cfg) items in
      E\<lparr>ie_syncTargetName := cfg_SyncTargetName cfg, ie_resourcesToSync := cfg_ResourcesToSync cfg,
        ie_byGVR := \<lambda>key. Inr (filter (\<lambda>i. key \<in> set (fst (importer_indexes E i))) cache),
        ie_byLocation := \<lambda>key. Inr (filter (\<lambda>i. key \<in> set (snd (importer_indexes E i))) cache)\<rparr>)"

section \<open>Lemmas\<close>

lemma read_sync_target_ends: "ends (read_sync_target cfg answer)"
  by (auto simp: read_sync_target_def ends_def bindE_Inr)

lemma initial_target_read:
  "initial_target cfg answers = Some (case read_sync_target cfg (answers 0) of Inl e \<Rightarrow> Inl e | Inr a \<Rightarrow> Inr (the a))"
  using poll_at [of "\<lambda>i. read_sync_target cfg (answers i)" 0 0] read_sync_target_ends by (simp add: initial_target_def)

lemma build_calls [simp]: "fst (build E parts) = []"
  by (induction parts) (auto simp: build_def for_each_def fst_andThen check_def split: option.splits sum.splits)

lemma build_ok: "snd (build E parts) = Inr () \<longleftrightarrow> (\<forall>part \<in> set parts. sn_make E part = None)"
  by (induction parts) (auto simp: build_def for_each_def snd_andThen check_def split: option.splits sum.splits)

lemma emit_all: "for_each emit es = (es, Inr ())"
  by (induction es) (auto simp: for_each_def andThen_def okay_def emit_def)

lemma block_None: "andThenBlock m f = None \<longleftrightarrow> (\<exists>x. snd m = Inr x \<and> f x = None)"
  by (cases m) (auto simp: andThenBlock_def split: sum.splits)

lemma block_Some:
  "andThenBlock m f = Some run \<longleftrightarrow> (case snd m of Inl e \<Rightarrow> run = (fst m, Inl e) | Inr x \<Rightarrow> (\<exists>r. f x = Some r \<and> run = (fst m @ fst r, snd r)))"
  by (cases m) (auto simp: andThenBlock_def split: sum.splits)

lemma StartSyncer_run:
  "StartSyncer E cfg = andThenBlock (build E [KcpClient, TmcClient]) (\<lambda>_.
     andThenBlock (lift_err (case read_sync_target cfg (sn_target E 0) of Inl e \<Rightarrow> Inl e | Inr a \<Rightarrow> Inr (the a))) (start_with E cfg))"
  by (simp add: StartSyncer_def initial_target_read)

definition caches :: "string list" where
  "caches = [''synctarget'', ''syncer namespace'', ''downstream'']"

lemma start_all_run:
  "start_all E cfg = (if \<forall>name \<in> set caches. \<exists>i. sn_synced E name i \<or> sn_stopped E name i
     then Some ([StartInformers ''downstream'', StartInformers ''synctarget'', StartInformers ''syncer namespace'',
       Go ''downstream informers'', Go ''api importer'', Go ''spec syncer'', Go ''status syncer'', Go ''upsyncer'', Go ''namespace controller'',
       Go ''synctarget controller'', Go ''downstream controller manager'', Heartbeats (cfg_SyncTargetName cfg) (cfg_SyncTargetUID cfg)], Inr ())
     else None)"
proof -
  have w: "await_caches E name = (if \<exists>i. sn_synced E name i \<or> sn_stopped E name i then Some (okay ()) else None)" for name
    using wait_ends [of "sn_synced E name" "sn_stopped E name"] by (auto simp: await_caches_def)
  show ?thesis
    by (simp add: start_all_def w emit_all andThenBlock_def andThen_def okay_def caches_def del: for_each_simps)
qed

definition works :: "start_event \<Rightarrow> bool" where
  "works e \<longleftrightarrow> (\<exists>n. e = Go n) \<or> (\<exists>n uid. e = Heartbeats n uid)"

text \<open>What it takes to start: the target is the expected one and every client, informer and controller can be built.\<close>

definition startable :: "start_env \<Rightarrow> syncer_config \<Rightarrow> bool" where
  "startable E cfg \<longleftrightarrow> (\<exists>st. sn_target E 0 = Inr st \<and> (cfg_SyncTargetUID cfg = [] \<or> UID st = cfg_SyncTargetUID cfg))
     \<and> (\<forall>part. part \<notin> range RequiredInformer - RequiredInformer ` set alwaysRequiredGVRs \<longrightarrow> sn_make E part = None)"

definition later_parts :: "start_part list" where
  "later_parts = [DynamicClient, KubeClient, DownstreamInformers, TargetController, NamespaceController, DownstreamSpecSyncer, StatusSyncer,
     ResourceUpsyncer] @ map RequiredInformer alwaysRequiredGVRs"

lemma all_parts: "set ([KcpClient, TmcClient] @ [Importer] @ later_parts) = - (range RequiredInformer - RequiredInformer ` set alwaysRequiredGVRs)"
proof -
  have "part \<in> set ([KcpClient, TmcClient] @ [Importer] @ later_parts) \<or> part \<in> range RequiredInformer" for part
    by (cases part) (simp_all add: later_parts_def)
  then show ?thesis by (auto simp: later_parts_def)
qed

lemma startable_parts:
  "startable E cfg \<longleftrightarrow> snd (build E [KcpClient, TmcClient]) = Inr () \<and> (\<exists>st. read_sync_target cfg (sn_target E 0) = Inr (Some st))
     \<and> snd (build E [Importer]) = Inr () \<and> snd (build E later_parts) = Inr ()"
proof -
  have "(\<forall>part. part \<notin> range RequiredInformer - RequiredInformer ` set alwaysRequiredGVRs \<longrightarrow> sn_make E part = None)
      \<longleftrightarrow> (\<forall>part \<in> set ([KcpClient, TmcClient] @ [Importer] @ later_parts). sn_make E part = None)"
    unfolding all_parts Ball_def Compl_iff ..
  then have parts: "(\<forall>part. part \<notin> range RequiredInformer - RequiredInformer ` set alwaysRequiredGVRs \<longrightarrow> sn_make E part = None)
      \<longleftrightarrow> snd (build E [KcpClient, TmcClient]) = Inr () \<and> snd (build E [Importer]) = Inr () \<and> snd (build E later_parts) = Inr ()"
    by (simp only: set_append ball_Un build_ok)
  have target: "(\<exists>st. sn_target E 0 = Inr st \<and> (cfg_SyncTargetUID cfg = [] \<or> UID st = cfg_SyncTargetUID cfg))
      \<longleftrightarrow> (\<exists>st. read_sync_target cfg (sn_target E 0) = Inr (Some st))"
    by (cases "sn_target E 0") (auto simp: read_sync_target_def)
  show ?thesis unfolding startable_def parts target by blast
qed

lemma build_run:
  "snd (build E ps) = r \<Longrightarrow> build E ps = ([], r)"
  using build_calls [of E ps] by (simp add: prod_eq_iff)

lemma StartSyncer_outcome:
  shows "startable E cfg \<Longrightarrow> StartSyncer E cfg = map_option (\<lambda>(cs, r). ([StartInformers ''kcp importer'', StartInformers ''tmc importer''] @ cs, r)) (start_all E cfg)"
    and "\<not> startable E cfg \<Longrightarrow> \<exists>cs err. StartSyncer E cfg = Some (cs, Inl err) \<and> set cs \<subseteq> range StartInformers"
proof -
  let ?read = "case read_sync_target cfg (sn_target E 0) of Inl e \<Rightarrow> Inl e | Inr a \<Rightarrow> Inr (the a)"
  let ?run = "andThenBlock (build E [KcpClient, TmcClient]) (\<lambda>_. andThenBlock (lift_err ?read) (\<lambda>st.
      andThenBlock (build E [Importer]) (\<lambda>_.
      andThenBlock ([StartInformers ''kcp importer'', StartInformers ''tmc importer''], Inr ()) (\<lambda>_.
      andThenBlock (build E later_parts) (\<lambda>_. start_all E cfg)))))"
  have run: "StartSyncer E cfg = ?run"
    unfolding StartSyncer_run start_with_def emit_all later_parts_def ..
  have unread: "read_sync_target cfg (sn_target E 0) \<noteq> Inr None" using read_sync_target_ends by (simp add: ends_def)
  show "StartSyncer E cfg = map_option (\<lambda>(cs, r). ([StartInformers ''kcp importer'', StartInformers ''tmc importer''] @ cs, r)) (start_all E cfg)"
    if "startable E cfg"
  proof -
    from that [unfolded startable_parts] obtain st where "read_sync_target cfg (sn_target E 0) = Inr (Some st)"
      and p: "snd (build E [KcpClient, TmcClient]) = Inr ()" "snd (build E [Importer]) = Inr ()" "snd (build E later_parts) = Inr ()" by blast
    then show ?thesis
      unfolding run build_run [OF p(1)] build_run [OF p(2)] build_run [OF p(3)]
      by (cases "start_all E cfg") (auto simp: andThenBlock_def lift_err_def)
  qed
  show "\<exists>cs err. StartSyncer E cfg = Some (cs, Inl err) \<and> set cs \<subseteq> range StartInformers" if "\<not> startable E cfg"
  proof (cases "snd (build E [KcpClient, TmcClient])")
    case (Inl err)
    then show ?thesis unfolding run by (simp add: andThenBlock_def build_run [OF Inl])
  next
    case A: (Inr u)
    show ?thesis
    proof (cases "read_sync_target cfg (sn_target E 0)")
      case (Inl err)
      then show ?thesis unfolding run build_run [OF A] by (simp add: andThenBlock_def lift_err_def)
    next
      case R: (Inr st)
      with unread obtain st' where st': "st = Some st'" by auto
      show ?thesis
      proof (cases "snd (build E [Importer])")
        case (Inl err)
        with R show ?thesis unfolding run build_run [OF A] build_run [OF Inl] by (simp add: andThenBlock_def lift_err_def)
      next
        case I: (Inr v)
        from that A R st' I obtain err where L: "snd (build E later_parts) = Inl err"
          unfolding startable_parts by (cases "snd (build E later_parts)") auto
        from R show ?thesis unfolding run build_run [OF A] build_run [OF I] build_run [OF L] by (simp add: andThenBlock_def lift_err_def)
      qed
    qed
  qed
qed

text \<open>The informers of the syncer and of the importer have nothing for other names.\<close>

lemma selected_at_own_location:
  assumes "Name i = import_name (ai_Location i) (import_GVR i)" "factory_selects cfg i" "CHR ''$'' \<notin> set (cfg_SyncTargetName cfg)"
  shows "ai_Location i \<noteq> cfg_SyncTargetName cfg \<and> GetGVRForLocationIndexKey E (cfg_SyncTargetName cfg) r \<notin> set (fst (importer_indexes E i))"
proof -
  have n: "cfg_SyncTargetName cfg = import_name (ai_Location i) (import_GVR i)" using assms(1,2) by (simp add: factory_selects_def)
  then have len: "length (ai_Location i) < length (cfg_SyncTargetName cfg)" by (simp add: import_name_def)
  have "CHR ''$'' \<notin> set (ai_Location i)" using assms(3) unfolding n by (simp add: import_name_def)
  then have "takeWhile (\<lambda>c. c \<noteq> CHR ''$'') (ai_Location i @ ''$$'' @ rest) = ai_Location i"
    and "takeWhile (\<lambda>c. c \<noteq> CHR ''$'') (cfg_SyncTargetName cfg @ ''$$'' @ rest) = cfg_SyncTargetName cfg" for rest
    using assms(3) by (auto simp: takeWhile_append2 takeWhile_append)
  then have "cfg_SyncTargetName cfg @ ''$$'' @ x \<noteq> ai_Location i @ ''$$'' @ y" for x y using len by (metis less_irrefl)
  then show ?thesis using len by (auto simp: importer_indexes_def GetGVRForLocationIndexKey_def)
qed

lemma with_informer_simps [simp]:
  "ie_syncTargetName (with_informer cfg items E) = cfg_SyncTargetName cfg"
  "GetGVRForLocationIndexKey (with_informer cfg items E) = GetGVRForLocationIndexKey E"
  "GetLocationIndexKey = (\<lambda>l. l)"
  by (simp_all add: with_informer_def Let_def fun_eq_iff GetGVRForLocationIndexKey_def GetLocationIndexKey_def)

definition creates :: "importer_call \<Rightarrow> bool" where
  "creates c \<longleftrightarrow> (\<exists>i owner. c = ApiCreate i owner)"

lemma blind_import_crd:
  assumes "\<And>r. ie_byGVR E (GetGVRForLocationIndexKey E (ie_syncTargetName E) r) = Inr []"
  shows "sends creates (import_crd E t g entry)"
proof -
  have "sends creates (send_import E v (\<lambda>i. ApiCreate i owner) i)" for v owner i
    by (auto simp: send_import_def creates_def intro!: sends_andThen split: sum.split)
  then show ?thesis
    by (auto simp: import_crd_def Let_def assms intro!: sends_andThen split: list.split)
qed

lemma blind_ImportAPIs:
  assumes "\<And>r. ie_byGVR E (GetGVRForLocationIndexKey E (ie_syncTargetName E) r) = Inr []"
  shows "sends creates (ImportAPIs E g)"
proof -
  have "sends creates (remove_import E r)" for r by (simp add: remove_import_def assms)
  then show ?thesis unfolding ImportAPIs_def
    by (auto intro!: sends_andThen sends_fold_calls sends_for_each blind_import_crd assms split: sum.split prod.split)
qed

lemma apply_heartbeat_patch:
  assumes "rfc3339_laws R" "0 \<le> now" "now < year_10000"
  shows "apply_heartbeat R st (heartbeat_patch R uid now) =
    (if UID st = uid then Inr (st\<lparr>st_Status := (st_Status st)\<lparr>LastSyncerHeartbeatTime := Some (second * (now div second))\<rparr>\<rparr>)
     else Inl (Failure ''testing value failed''))"
  using assms by (simp add: heartbeat_patch_def rfc3339_laws_def)

lemma floor_second: "second * (t div second) \<le> t" "t < second * (t div second) + second"
  unfolding second_def by presburger+

lemma fresh_heartbeat:
  assumes "cond_laws cl" "summary_laws cl" "latest_heartbeat st = second * (t div second)" "second \<le> t" "t \<le> now" "now + second \<le> t + thr"
    and "thr \<le> max_duration"
  shows "IsTrue cl (st_Conditions (st_Status (fst (heartbeat_reconcile cl timeString thr now wall st)))) HeartbeatHealthy"
proof -
  have "0 < t div second" using assms(4) by (simp add: second_def pos_imp_zdiv_pos_iff)
  then have "latest_heartbeat st \<noteq> 0" using assms(3) by (simp add: second_def)
  moreover have "now - latest_heartbeat st \<le> thr" using assms(3,6) floor_second(2) [of t] by linarith
  then have "time_sub now (latest_heartbeat st) \<le> thr" using assms(3-7) floor_second(1) [of t] by (simp add: time_sub_def max_duration_def)
  ultimately show ?thesis
    using heartbeat_healthy(1) [OF assms(1,2), of st now thr timeString wall] by (cases "heartbeat_reconcile cl timeString thr now wall st") simp
qed

section \<open>Properties\<close>

text \<open>
  C38: When the start ends. The poll for the sync target, which looks as if it could go on forever, makes one attempt: an error of the read ends it as well as
  another UID than the expected one, and later reads do not matter. So \<open>StartSyncer\<close> returns an error exactly if the target cannot be read or is another one, or
  a client, informer or controller cannot be built; otherwise it blocks forever exactly if one of the three waits for caches sees neither synced caches nor the end
  of the context at any poll, and else returns without an error.
\<close>

theorem start_returns:
  "(case StartSyncer E cfg of
      None \<Rightarrow> startable E cfg \<and> (\<exists>name \<in> set caches. \<forall>i. \<not> sn_synced E name i \<and> \<not> sn_stopped E name i)
    | Some run \<Rightarrow> (if startable E cfg then snd run = Inr () \<and> (\<forall>name \<in> set caches. \<exists>i. sn_synced E name i \<or> sn_stopped E name i) else isl (snd run)))
   \<and> StartSyncer (E\<lparr>sn_target := later(0 := sn_target E 0)\<rparr>) cfg = StartSyncer E cfg"
proof
  show "case StartSyncer E cfg of
      None \<Rightarrow> startable E cfg \<and> (\<exists>name \<in> set caches. \<forall>i. \<not> sn_synced E name i \<and> \<not> sn_stopped E name i)
    | Some run \<Rightarrow> (if startable E cfg then snd run = Inr () \<and> (\<forall>name \<in> set caches. \<exists>i. sn_synced E name i \<or> sn_stopped E name i) else isl (snd run))"
  proof (cases "startable E cfg")
    case True
    then show ?thesis by (auto simp: StartSyncer_outcome(1) start_all_run)
  next
    case False
    from StartSyncer_outcome(2) [OF this] obtain cs err where "StartSyncer E cfg = Some (cs, Inl err)" by blast
    with False show ?thesis by simp
  qed
  let ?E = "E\<lparr>sn_target := later(0 := sn_target E 0)\<rparr>"
  have "build ?E = build E" "start_with ?E = start_with E"
    by (simp_all add: build_def start_with_def start_all_def await_caches_def fun_eq_iff)
  then show "StartSyncer ?E cfg = StartSyncer E cfg" by (simp add: StartSyncer_run)
qed

text \<open>
  A syncer works only for the target that it was told to work for. Before the first controller runs and the first heartbeat is sent, the sync
  target was read and had the expected UID, all clients and controllers were built, and the waits for the caches have ended; the heartbeats are
  for the configured name and UID, and there is exactly one stream of them.
\<close>

theorem syncer_starts_for_its_target:
  assumes "StartSyncer E cfg = Some run" "e \<in> set (fst run)" "works e"
  shows "startable E cfg \<and> (\<forall>name \<in> set caches. \<exists>i. sn_synced E name i \<or> sn_stopped E name i)
    \<and> snd run = Inr () \<and> filter (\<lambda>e. \<exists>n uid. e = Heartbeats n uid) (fst run) = [Heartbeats (cfg_SyncTargetName cfg) (cfg_SyncTargetUID cfg)]
    \<and> dropWhile (\<lambda>e. \<not> works e) (fst run) = filter works (fst run)"
proof -
  have s: "startable E cfg"
  proof (rule ccontr)
    assume "\<not> startable E cfg"
    from StartSyncer_outcome(2) [OF this] assms show False by (auto simp: works_def)
  qed
  from StartSyncer_outcome(1) [OF s] assms(1) start_all_run [of E cfg] show ?thesis
    using s by (auto simp: works_def split: if_splits)
qed

text \<open>
  The importer is blind. It looks for existing imports in an informer that has only the objects named like the sync target, and an import is
  never named like its own target. So it never updates an import, however its type changes on the physical cluster: it tries to create it at
  every poll; and when the syncer stops it removes none.
\<close>

theorem importer_never_updates:
  assumes "\<And>i. i \<in> set items \<Longrightarrow> Name i = import_name (ai_Location i) (import_GVR i)" "CHR ''$'' \<notin> set (cfg_SyncTargetName cfg)"
  shows "ApiUpdate i \<notin> set (fst (ImportAPIs (with_informer cfg items E) g)) \<and> fst (Stop_importer (with_informer cfg items E)) = []"
proof -
  let ?E = "with_informer cfg items E"
  have own: "ai_Location i \<noteq> cfg_SyncTargetName cfg" "GetGVRForLocationIndexKey E (cfg_SyncTargetName cfg) r \<notin> set (fst (importer_indexes E i))"
    if "i \<in> set items" "factory_selects cfg i" for i r
    using selected_at_own_location [OF assms(1) [OF that(1)] that(2) assms(2)] by blast+
  have "ie_byGVR ?E (GetGVRForLocationIndexKey E (cfg_SyncTargetName cfg) r) = Inr []" for r
    using own by (auto simp: with_informer_def Let_def filter_empty_conv)
  then have "sends creates (ImportAPIs ?E g)" by (intro blind_ImportAPIs) simp
  moreover have "ie_byLocation ?E (cfg_SyncTargetName cfg) = Inr []"
    unfolding with_informer_def Let_def by (simp add: filter_empty_conv importer_indexes_def) (metis own(1))
  ultimately show ?thesis by (auto simp: sends_def creates_def Stop_importer_def)
qed

text \<open>
  C36: Heartbeats keep a sync target healthy, with the default interval of 20 seconds and the default threshold of a minute. Let the attempt of the last accepted
  heartbeat have been made at \<open>t\<close> and its round have ended at \<open>ended\<close>, so that the next round begins an interval later. If the time that the last answer took and
  the time that the failing attempts of the next round take, whatever their number, are together at most 39 seconds, the controller sees the target as healthy at every pass until the
  attempt that is accepted, and the round returns the time of this attempt, which is stored as the new heartbeat.
\<close>

theorem heartbeats_keep_target_healthy:
  assumes laws: "cond_laws cl" "summary_laws cl" "rfc3339_laws R"
    and before: "second \<le> t" "latest_heartbeat st = second * (t div second)" "UID st = uid" "t \<le> ended"
    and starts: "clock 0 = ended + heartbeatInterval" "clock 0 \<le> clock n"
    and fails: "\<And>i. i < n \<Longrightarrow> isl (server i (heartbeat_patch R uid (clock i)))"
    and accepts: "server n = apply_heartbeat R st" "clock n < year_10000"
    and within: "(ended - t) + (clock n - clock 0) \<le> 39 * second"
    and now: "t \<le> now" "now \<le> clock n"
  shows "IsTrue cl (st_Conditions (st_Status (fst (heartbeat_reconcile cl timeString (HeartbeatThreshold NewOptions) now wall st)))) HeartbeatHealthy
    \<and> (\<exists>st'. apply_heartbeat R st (heartbeat_patch R uid (clock n)) = Inr st'
        \<and> heartbeat_round server R uid clock = Some (Inr (latest_heartbeat st'))
        \<and> latest_heartbeat st' = second * (clock n div second))"
proof
  have thr: "HeartbeatThreshold NewOptions = 60 * second" "60 * second \<le> max_duration"
    by (simp_all add: NewOptions_def second_def max_duration_def)
  have "now + second \<le> t + 60 * second" using now(2) within starts(1) by (simp add: heartbeatInterval_def)
  from fresh_heartbeat [OF laws(1,2) before(2,1) now(1) this thr(2)]
  show "IsTrue cl (st_Conditions (st_Status (fst (heartbeat_reconcile cl timeString (HeartbeatThreshold NewOptions) now wall st)))) HeartbeatHealthy"
    unfolding thr(1) .
  let ?st' = "st\<lparr>st_Status := (st_Status st)\<lparr>LastSyncerHeartbeatTime := Some (second * (clock n div second))\<rparr>\<rparr>"
  have "0 \<le> clock n" using before(1,4) starts by (simp add: heartbeatInterval_def second_def)
  then have applied: "apply_heartbeat R st (heartbeat_patch R uid (clock n)) = Inr ?st'"
    using apply_heartbeat_patch [OF laws(3) _ accepts(2), of st uid] before(3) by simp
  have "heartbeat_attempt (server n) R uid (clock n) = Inr (Some (second * (clock n div second)))"
    by (simp add: heartbeat_attempt_def accepts(1) applied)
  moreover have "heartbeat_attempt (server i) R uid (clock i) = Inr None" if "i < n" for i
    using fails [OF that] by (auto simp: heartbeat_attempt_def split: sum.splits)
  ultimately have "heartbeat_round server R uid clock = Some (Inr (second * (clock n div second)))"
    unfolding heartbeat_round_def poll_returns by (intro exI [of _ n]) (simp add: ends_def)
  then show "\<exists>st'. apply_heartbeat R st (heartbeat_patch R uid (clock n)) = Inr st'
        \<and> heartbeat_round server R uid clock = Some (Inr (latest_heartbeat st')) \<and> latest_heartbeat st' = second * (clock n div second)"
    by (intro exI [of _ ?st']) (simp add: applied latest_heartbeat_def)
qed

text \<open>
  A round of heartbeats returns exactly if the server accepts one of its attempts, after any number of errors, and otherwise goes on forever. It
  never returns if the sync target was replaced by another one of the same name.
\<close>

theorem heartbeat_round_returns:
  assumes "UID st \<noteq> uid"
  shows "(heartbeat_round server R uid clock \<noteq> None \<longleftrightarrow> (\<exists>i st'. server i (heartbeat_patch R uid (clock i)) = Inr st'))
    \<and> heartbeat_round (\<lambda>_. apply_heartbeat R st) R uid clock = None"
proof -
  have e: "ends (heartbeat_attempt s R uid now) \<longleftrightarrow> (\<exists>st'. s (heartbeat_patch R uid now) = Inr st')" for s now
    by (auto simp: ends_def heartbeat_attempt_def split: sum.splits option.splits)
  have *: "heartbeat_round s R uid clock \<noteq> None \<longleftrightarrow> (\<exists>i st'. s i (heartbeat_patch R uid (clock i)) = Inr st')" for s
    unfolding heartbeat_round_def not_None_eq poll_returns e [symmetric]
    using exists_least_iff [of "\<lambda>i. ends (heartbeat_attempt (s i) R uid (clock i))"] by blast
  have "heartbeat_round (\<lambda>_. apply_heartbeat R st) R uid clock = None"
    using * [of "\<lambda>_. apply_heartbeat R st"] assms by (auto simp: heartbeat_patch_def)
  then show ?thesis using * [of server] by blast
qed

section \<open>Examples\<close>

definition ex_config :: syncer_config where
  "ex_config = \<lparr>cfg_ResourcesToSync = [''deployments.apps''], cfg_SyncTargetName = ''east'', cfg_SyncTargetUID = ''u1''\<rparr>"

definition ex_running_target :: sync_target where
  "ex_running_target = ex_target\<lparr>UID := ''u1'', st_Status := (st_Status ex_target)\<lparr>LastSyncerHeartbeatTime := Some (70 * second)\<rparr>\<rparr>"

definition ex_start :: start_env where
  "ex_start = \<lparr>sn_make = (\<lambda>_. None), sn_target = (\<lambda>_. Inr ex_running_target), sn_synced = (\<lambda>_ i. 2 \<le> i), sn_stopped = (\<lambda>_ _. False)\<rparr>"

lemma ex_startable: "startable ex_start ex_config" "startable (ex_start\<lparr>sn_synced := f\<rparr>) ex_config"
  by (simp_all add: startable_def ex_start_def ex_config_def ex_running_target_def)

theorem start_returns_witness:
  "(\<exists>run. StartSyncer ex_start ex_config = Some run \<and> snd run = Inr ())
   \<and> StartSyncer (ex_start\<lparr>sn_synced := (\<lambda>name _. name \<noteq> ''downstream'')\<rparr>) ex_config = None
   \<and> (\<exists>run. StartSyncer (ex_start\<lparr>sn_target := (\<lambda>_. Inr ex_target)\<rparr>) ex_config = Some run \<and> isl (snd run))"
proof -
  have syncs: "\<exists>i. sn_synced ex_start name i \<or> sn_stopped ex_start name i" for name by (auto simp: ex_start_def)
  have blocks: "\<exists>name \<in> set caches. \<nexists>i. sn_synced (ex_start\<lparr>sn_synced := (\<lambda>name _. name \<noteq> ''downstream'')\<rparr>) name i
      \<or> sn_stopped (ex_start\<lparr>sn_synced := (\<lambda>name _. name \<noteq> ''downstream'')\<rparr>) name i"
    by (simp add: caches_def ex_start_def)
  have other: "\<not> startable (ex_start\<lparr>sn_target := (\<lambda>_. Inr ex_target)\<rparr>) ex_config"
    by (simp add: startable_def ex_start_def ex_config_def ex_target_def object_meta.defs meta_named_def)
  note T = conjunct1 [OF start_returns]
  have "\<exists>run. StartSyncer ex_start ex_config = Some run \<and> snd run = Inr ()"
    using T [of ex_start ex_config] ex_startable(1) syncs by (auto split: option.splits)
  moreover have "StartSyncer (ex_start\<lparr>sn_synced := (\<lambda>name _. name \<noteq> ''downstream'')\<rparr>) ex_config = None"
    using T [of "ex_start\<lparr>sn_synced := (\<lambda>name _. name \<noteq> ''downstream'')\<rparr>" ex_config] ex_startable(2) blocks
    by (auto split: option.splits)
  moreover have "\<exists>run. StartSyncer (ex_start\<lparr>sn_target := (\<lambda>_. Inr ex_target)\<rparr>) ex_config = Some run \<and> isl (snd run)"
    using T [of "ex_start\<lparr>sn_target := (\<lambda>_. Inr ex_target)\<rparr>" ex_config] other by (auto split: option.splits)
  ultimately show ?thesis by blast
qed

theorem syncer_starts_for_its_target_witness:
  "\<exists>run. StartSyncer ex_start ex_config = Some run \<and> snd run = Inr ()
     \<and> filter (\<lambda>e. \<exists>n uid. e = Heartbeats n uid) (fst run) = [Heartbeats ''east'' ''u1'']"
proof -
  have "\<forall>name \<in> set caches. \<exists>i. sn_synced ex_start name i \<or> sn_stopped ex_start name i" by (auto simp: ex_start_def)
  then obtain run where r: "StartSyncer ex_start ex_config = Some run" "Go ''api importer'' \<in> set (fst run)"
    using StartSyncer_outcome(1) [OF ex_startable(1)] by (auto simp: start_all_run)
  from syncer_starts_for_its_target [OF r] r(1) show ?thesis by (simp add: works_def ex_config_def)
qed

theorem heartbeats_keep_target_healthy_witness:
  "IsTrue basic_conditions (st_Conditions (st_Status (fst (heartbeat_reconcile basic_conditions (\<lambda>_. []) (60 * second) (129 * second) 0 ex_running_target)))) HeartbeatHealthy
   \<and> heartbeat_round (\<lambda>i. if i < 39 then (\<lambda>_. Inl NotFound) else apply_heartbeat basic_rfc3339 ex_running_target) basic_rfc3339 ''u1''
       (\<lambda>i. 90 * second + int i * second) = Some (Inr (129 * second))"
proof -
  have "latest_heartbeat ex_running_target = second * (70 * second div second)" "UID ex_running_target = ''u1''"
    by (simp_all add: latest_heartbeat_def ex_running_target_def second_def)
  from heartbeats_keep_target_healthy [OF basic_conditions_laws(1) basic_conditions_laws(2) basic_rfc3339_laws _ this,
      of "70 * second" "\<lambda>i. 90 * second + int i * second" 39 "\<lambda>i. if i < 39 then (\<lambda>_. Inl NotFound) else apply_heartbeat basic_rfc3339 ex_running_target"
        "129 * second" "\<lambda>_. []" 0]
  show ?thesis by (auto simp: second_def heartbeatInterval_def year_10000_def max_duration_def NewOptions_def)
qed

theorem heartbeat_round_returns_witness:
  "heartbeat_round (\<lambda>_. apply_heartbeat basic_rfc3339 ex_running_target) basic_rfc3339 ''u2'' (\<lambda>_. 0) = None
   \<and> heartbeat_round (\<lambda>i. if i = 2 then (\<lambda>_. Inr ex_running_target) else (\<lambda>_. Inl NotFound)) basic_rfc3339 ''u2'' (\<lambda>_. 0) \<noteq> None"
  using heartbeat_round_returns [of ex_running_target "''u2''" "\<lambda>i. if i = 2 then (\<lambda>_. Inr ex_running_target) else (\<lambda>_. Inl NotFound)" basic_rfc3339 "\<lambda>_. 0"]
  by (auto simp: ex_running_target_def)

definition ex_stored_import :: api_import where
  "ex_stored_import = new_import ''east'' \<lparr>gvr_Group = ''apps'', gvr_Version = ''v1'', gvr_Resource = ''deployments''\<rparr> ex_offered (hd (crd_Versions ex_offered))"

theorem importer_never_updates_witness:
  "fst (ImportAPIs (with_informer ex_config [ex_stored_import] (ex_importer\<lparr>ie_syncTargetUID := ''u1'', ie_getSyncTarget := Inr ex_running_target,
       ie_PullCRDs := \<lambda>_. Inr [(\<lparr>gr_Group = ''apps'', gr_Resource = ''deployments''\<rparr>, ex_offered)]\<rparr>)) None) \<noteq> []
   \<and> fst (Stop_importer (with_informer ex_config [ex_stored_import] ex_importer)) = []"
proof -
  have stored: "Name ex_stored_import = import_name (ai_Location ex_stored_import) (import_GVR ex_stored_import)"
    by (simp add: ex_stored_import_def new_import_def import_GVR_def spec_GVR_def import_spec_def ex_offered_def)
  have "fst (Stop_importer (with_informer ex_config [ex_stored_import] ex_importer)) = []"
    using importer_never_updates [of "[ex_stored_import]" ex_config undefined ex_importer None] stored by (simp add: ex_config_def)
  then show ?thesis
    by (simp add: ImportAPIs_def with_informer_def Let_def ex_config_def ex_importer_def ex_running_target_def resources_to_import_def set_insert_def
      import_crd_def ex_offered_def factory_selects_def ex_stored_import_def new_import_def import_name_def ex_target_def object_meta.defs meta_named_def
      send_import_def version_schema_def with_schema_def SetSchema_def fst_andThen attempt_def)
qed

end
