(* ===== verification/CRD_Bootstrap.thy ===== *)
theory CRD_Bootstrap
  imports API_Resource API_Calls Polling
begin

text \<open>
  \<^verbatim>\<open>src/config/crds/bootstrap.go\<close> and \<^verbatim>\<open>src/tmc/server/bootstrap/bootstrap.go\<close>: the definitions of the project's own types are created when a server
  starts. \<open>CreateSingle\<close> creates or updates one and waits for it; \<open>CreateFromFS\<close> does so for several, with a bounded number of attempts each;
  \<open>Bootstrap\<close> does so for the cache server, in rounds, until all are there; it runs in a start hook that all controllers wait for.

  Parameters: the answers of the server, one for each request of a run, the decoding of the embedded files, which errors are retried, and the
  condition of a definition. A wrapped error keeps its kind.
\<close>

section \<open>One definition\<close>

datatype 's crd_call = CrdGet string | CrdCreate "'s crd" | CrdUpdate "'s crd"

record 's crd_server =
  cs_first :: "go_error + 's crd"
  cs_create :: "'s crd \<Rightarrow> go_error + 's crd"
  cs_again :: "go_error + 's crd"                       \<comment> \<open>the read after a lost creation\<close>
  cs_update :: "'s crd \<Rightarrow> go_error option"
  cs_wait :: "nat \<Rightarrow> go_error + 's crd"              \<comment> \<open>the reads of the wait\<close>
  cs_isEstablished :: "'s crd \<Rightarrow> bool"

text \<open>The stored definition, and whether it has to be updated.\<close>

definition locate_crd :: "'s crd_server \<Rightarrow> 's crd \<Rightarrow> ('s crd_call, 's crd \<times> bool) calls" where
  "locate_crd S rawCRD =
     andThen ([CrdGet (Name rawCRD)], Inr (cs_first S)) (\<lambda>found.
     case found of
       Inr c \<Rightarrow> okay (c, True)
     | Inl NotFound \<Rightarrow>
         andThen ([CrdCreate rawCRD], Inr (cs_create S rawCRD)) (\<lambda>created.
         case created of
           Inr c \<Rightarrow> okay (c, False)
         | Inl AlreadyExists \<Rightarrow> andThen ([CrdGet (Name rawCRD)], cs_again S) (\<lambda>c. okay (c, True))
         | Inl e \<Rightarrow> fail e)
     | Inl e \<Rightarrow> fail e)"

definition established_wait :: "'s crd_server \<Rightarrow> (go_error + unit) option" where
  "established_wait S = PollImmediateInfinite (\<lambda>i.
     case cs_wait S i of
       Inl NotFound \<Rightarrow> Inl (Failure ''CRD was deleted before being established'')
     | Inl e \<Rightarrow> Inl e
     | Inr c \<Rightarrow> Inr (if cs_isEstablished S c then Some () else None)) 0"

text \<open>
  The requests before the wait, the definition as the function leaves it (its resource version is overwritten), and the outcome; \<open>None\<close> is a wait
  that does not end.
\<close>

definition CreateSingle :: "'s crd_server \<Rightarrow> 's crd \<Rightarrow> 's crd_call list \<times> 's crd \<times> (go_error + unit) option" where
  "CreateSingle S rawCRD =
     (case locate_crd S rawCRD of
        (sent, Inl e) \<Rightarrow> (sent, rawCRD, Some (Inl e))
      | (sent, Inr (c, updateNeeded)) \<Rightarrow>
          if updateNeeded then
            (let raw = rawCRD\<lparr>ResourceVersion := ResourceVersion c\<rparr> in
             (sent @ [CrdUpdate raw], raw, case cs_update S raw of Some e \<Rightarrow> Some (Inl e) | None \<Rightarrow> established_wait S))
          else (sent, rawCRD, established_wait S))"

section \<open>Several definitions\<close>

text \<open>\<open>retry.OnError\<close> with the default backoff makes four attempts; \<open>run i\<close> is the outcome of attempt \<open>i\<close>.\<close>

fun retry_OnError :: "(go_error \<Rightarrow> bool) \<Rightarrow> (nat \<Rightarrow> (go_error + unit) option) \<Rightarrow> nat \<Rightarrow> nat \<Rightarrow> (go_error + unit) option" where
  "retry_OnError retriable run 0 i = run i"
| "retry_OnError retriable run (Suc n) i =
     (case run i of
        Some (Inl e) \<Rightarrow> if retriable e then retry_OnError retriable run n (Suc i) else Some (Inl e)
      | r \<Rightarrow> r)"

definition retryRetryableErrors :: "(go_error \<Rightarrow> bool) \<Rightarrow> (nat \<Rightarrow> (go_error + unit) option) \<Rightarrow> (go_error + unit) option" where
  "retryRetryableErrors retriable run = retry_OnError retriable run 3 0"

text \<open>Each attempt decodes the file again, so it begins with the definition as it is in the file.\<close>

definition createSingleFromFS :: "(group_resource \<Rightarrow> go_error + 's crd) \<Rightarrow> 's crd_server \<Rightarrow> group_resource \<Rightarrow> (go_error + unit) option" where
  "createSingleFromFS fs S gr = (case fs gr of Inl e \<Rightarrow> Some (Inl e) | Inr rawCRD \<Rightarrow> snd (snd (CreateSingle S rawCRD)))"

text \<open>All at once: the function returns when the goroutines of all of them have. \<open>ctxErr\<close> is the error of the context at the end of each.\<close>

definition CreateFromFS ::
  "(go_error \<Rightarrow> bool) \<Rightarrow> (group_resource \<Rightarrow> go_error option) \<Rightarrow> (group_resource \<Rightarrow> go_error + 's crd) \<Rightarrow> (group_resource \<Rightarrow> nat \<Rightarrow> 's crd_server)
     \<Rightarrow> group_resource list \<Rightarrow> (go_error + unit) option" where
  "CreateFromFS retriable ctxErr fs servers grs =
     (let results = map (\<lambda>gr. map_option (\<lambda>r. case ctxErr gr of Some e \<Rightarrow> Inl e | None \<Rightarrow> r)
            (retryRetryableErrors retriable (\<lambda>i. createSingleFromFS fs (servers gr i) gr))) grs in
      if None \<in> set results then None
      else if \<forall>r \<in> set results. r = Some (Inr ()) then Some (Inr ())
      else Some (Inl (Failure ''could not bootstrap CRDs'')))"

section \<open>The cache server\<close>

text \<open>The definitions without validation and without subresources; \<open>any\<close> is the schema of any object.\<close>

definition wiped :: "'s \<Rightarrow> 's crd \<Rightarrow> 's crd" where
  "wiped any c = c\<lparr>crd_Versions := map (\<lambda>v. v\<lparr>cv_Schema := Some (Some any), cv_Subresources := None\<rparr>) (crd_Versions c)\<rparr>"

text \<open>One round: the first error ends it, and the definitions stay as \<open>CreateSingle\<close> has left them.\<close>

fun bootstrap_round :: "(nat \<Rightarrow> 's crd_server) \<Rightarrow> nat \<Rightarrow> 's crd list \<Rightarrow> ('s crd list \<times> bool) option" where
  "bootstrap_round servers k [] = Some ([], True)"
| "bootstrap_round servers k (c # cs) =
     (case CreateSingle (servers k) c of
        (_, c', None) \<Rightarrow> None
      | (_, c', Some (Inl _)) \<Rightarrow> Some (c' # cs, False)
      | (_, c', Some (Inr _)) \<Rightarrow> map_option (\<lambda>(cs', done). (c' # cs', done)) (bootstrap_round servers (Suc k) cs))"

text \<open>The rounds; \<open>servers i k\<close> is the server that answers for the definition \<open>k\<close> in round \<open>i\<close>.\<close>

partial_function (option) bootstrap_rounds :: "(nat \<Rightarrow> nat \<Rightarrow> 's crd_server) \<Rightarrow> nat \<Rightarrow> 's crd list \<Rightarrow> 's crd list option" where
  "bootstrap_rounds servers i cs =
     (case bootstrap_round (servers i) 0 cs of
        None \<Rightarrow> None
      | Some (cs', done) \<Rightarrow> if done then Some cs' else bootstrap_rounds servers (Suc i) cs')"

declare bootstrap_rounds.simps [code]

definition Bootstrap :: "'s \<Rightarrow> (nat \<Rightarrow> nat \<Rightarrow> 's crd_server) \<Rightarrow> 's crd list \<Rightarrow> 's crd list option" where
  "Bootstrap any servers cs = bootstrap_rounds servers 0 (map (wiped any) cs)"

section \<open>Lemmas\<close>

lemma established_wait_returns:
  "established_wait S = Some (Inr ()) \<longleftrightarrow> (\<exists>n c. cs_wait S n = Inr c \<and> cs_isEstablished S c
     \<and> (\<forall>j < n. \<exists>d. cs_wait S j = Inr d \<and> \<not> cs_isEstablished S d))"
proof -
  let ?f = "\<lambda>i. case cs_wait S i of
       Inl NotFound \<Rightarrow> Inl (Failure ''CRD was deleted before being established'')
     | Inl e \<Rightarrow> Inl e
     | Inr c \<Rightarrow> Inr (if cs_isEstablished S c then Some () else None)"
  have on: "\<not> ends (?f j) \<longleftrightarrow> (\<exists>d. cs_wait S j = Inr d \<and> \<not> cs_isEstablished S d)" for j
    by (auto simp: ends_def split: sum.splits go_error.splits)
  have val: "ends (?f j) \<and> Inr () = (case ?f j of Inl e \<Rightarrow> Inl e | Inr a \<Rightarrow> Inr (the a)) \<longleftrightarrow> (\<exists>c. cs_wait S j = Inr c \<and> cs_isEstablished S c)" for j
    by (auto simp: ends_def split: sum.splits go_error.splits)
  show ?thesis unfolding established_wait_def poll_returns on [symmetric] using val by blast
qed

lemma retry_last:
  "\<exists>k \<le> n. retry_OnError retriable run n i = run (i + k) \<and> (\<forall>j < k. \<exists>e. run (i + j) = Some (Inl e) \<and> retriable e)
     \<and> (k < n \<longrightarrow> (\<forall>e. run (i + k) = Some (Inl e) \<longrightarrow> \<not> retriable e))"
proof (induction n arbitrary: i)
  case (Suc n)
  show ?case
  proof (cases "\<exists>e. run i = Some (Inl e) \<and> retriable e")
    case True
    then have run: "retry_OnError retriable run (Suc n) i = retry_OnError retriable run n (Suc i)" by auto
    from Suc.IH [of "Suc i"] obtain k where k: "k \<le> n" "retry_OnError retriable run n (Suc i) = run (Suc i + k)"
      "\<forall>j < k. \<exists>e. run (Suc i + j) = Some (Inl e) \<and> retriable e" "k < n \<longrightarrow> (\<forall>e. run (Suc i + k) = Some (Inl e) \<longrightarrow> \<not> retriable e)" by blast
    have "\<forall>j < Suc k. \<exists>e. run (i + j) = Some (Inl e) \<and> retriable e" using k(3) True by (auto simp: less_Suc_eq_0_disj)
    then show ?thesis unfolding run using k by (intro exI [of _ "Suc k"]) simp
  next
    case False
    then have "retry_OnError retriable run (Suc n) i = run i" by (auto split: option.splits sum.splits)
    then show ?thesis using False by (intro exI [of _ 0]) auto
  qed
qed auto

lemma create_blocked:
  assumes "cs_first S = Inl NotFound" "\<And>d x. cs_create S d = Inr x \<Longrightarrow> ResourceVersion d = []" "\<And>d. cs_create S d \<noteq> Inl AlreadyExists"
    and "ResourceVersion raw \<noteq> []"
  shows "\<exists>e sent. CreateSingle S raw = (sent, raw, Some (Inl e))"
proof -
  obtain e where "cs_create S raw = Inl e" "e \<noteq> AlreadyExists" using assms(2-4) by (metis sum.exhaust)
  then have "\<exists>sent. locate_crd S raw = (sent, Inl e)"
    using assms(1) by (cases e) (simp_all add: locate_crd_def andThen_def fail_def)
  then show ?thesis by (auto simp: CreateSingle_def)
qed

section \<open>Properties\<close>

text \<open>
  A definition that \<open>CreateSingle\<close> reports as there was seen as established, and it was written by exactly one accepted request: created as it is in the file, if the
  server had none, or updated at the resource version that was read last; a creation that another server has won is followed by a new read and an update,
  so no write is blind.
\<close>

theorem bootstrapped_crd_established:
  assumes "CreateSingle S raw = (sent, raw', Some (Inr ()))"
  shows "(\<exists>n c. cs_wait S n = Inr c \<and> cs_isEstablished S c)
    \<and> (sent = [CrdGet (Name raw), CrdCreate raw] \<and> raw' = raw \<and> cs_first S = Inl NotFound \<and> \<not> isl (cs_create S raw)
       \<or> (\<exists>c. raw' = raw\<lparr>ResourceVersion := ResourceVersion c\<rparr> \<and> cs_update S raw' = None
           \<and> (sent = [CrdGet (Name raw), CrdUpdate raw'] \<and> cs_first S = Inr c
              \<or> sent = [CrdGet (Name raw), CrdCreate raw, CrdGet (Name raw), CrdUpdate raw'] \<and> cs_first S = Inl NotFound
                \<and> cs_create S raw = Inl AlreadyExists \<and> cs_again S = Inr c)))"
proof -
  obtain sent0 c upd where l: "locate_crd S raw = (sent0, Inr (c, upd))"
    using assms by (cases "locate_crd S raw") (auto simp: CreateSingle_def split: sum.splits)
  have w: "established_wait S = Some (Inr ())" using assms l by (auto simp: CreateSingle_def Let_def split: if_splits option.splits)
  have cases: "sent0 = [CrdGet (Name raw)] \<and> cs_first S = Inr c \<and> upd
      \<or> sent0 = [CrdGet (Name raw), CrdCreate raw] \<and> cs_first S = Inl NotFound \<and> cs_create S raw = Inr c \<and> \<not> upd
      \<or> sent0 = [CrdGet (Name raw), CrdCreate raw, CrdGet (Name raw)] \<and> cs_first S = Inl NotFound \<and> cs_create S raw = Inl AlreadyExists
        \<and> cs_again S = Inr c \<and> upd"
    using l by (auto simp: locate_crd_def andThen_def okay_def fail_def split: sum.splits go_error.splits)
  have run: "sent = (if upd then sent0 @ [CrdUpdate raw'] else sent0)" "raw' = (if upd then raw\<lparr>ResourceVersion := ResourceVersion c\<rparr> else raw)"
    "upd \<Longrightarrow> cs_update S raw' = None"
    using assms l by (auto simp: CreateSingle_def Let_def split: if_splits option.splits)
  show ?thesis using w cases run unfolding established_wait_returns by auto
qed

text \<open>
  A definition that disappears blocks the start of the server for good. \<open>CreateSingle\<close> writes the resource version it has read into the definition
  that it was given, and the rounds use the same definitions again. If one was there in the first round, which failed later, and is
  gone afterwards, every further round tries to create it with a resource version; a server refuses such a request, and the rounds never end.
\<close>

theorem deleted_crd_blocks_bootstrap:
  fixes c :: "'s crd"
  assumes first: "cs_first (servers 0 0) = Inr old" "ResourceVersion old \<noteq> []" "snd (snd (CreateSingle (servers 0 0) (wiped any c))) = Some (Inl e)"
    and gone: "\<And>i. cs_first (servers (Suc i) 0) = Inl NotFound"
    and refuses: "\<And>i d x. cs_create (servers (Suc i) 0) d = Inr x \<Longrightarrow> ResourceVersion d = []" "\<And>i d. cs_create (servers (Suc i) 0) d \<noteq> Inl AlreadyExists"
  shows "Bootstrap any servers (c # cs) = None"
proof -
  have blocked: "\<exists>e sent. CreateSingle (servers i 0) d = (sent, d, Some (Inl e))" if "ResourceVersion d \<noteq> []" "0 < i" for i d
  proof -
    from that(2) obtain k where k: "i = Suc k" using gr0_conv_Suc by blast
    show ?thesis unfolding k by (rule create_blocked [OF gone refuses that(1)])
  qed
  have later: "cs \<noteq> [] \<and> ResourceVersion (hd cs) \<noteq> [] \<and> 0 < i \<longrightarrow> sv \<noteq> servers"
    if run: "bootstrap_rounds sv i cs = Some r" for sv i r and cs :: "'s crd list"
  proof (rule bootstrap_rounds.raw_induct [OF _ run])
    fix f :: "(nat \<Rightarrow> nat \<Rightarrow> 's crd_server) \<Rightarrow> nat \<Rightarrow> 's crd list \<Rightarrow> 's crd list option" and sv i cs r
    assume IH: "\<And>sv i cs r. f sv i cs = Some r \<Longrightarrow> cs \<noteq> [] \<and> ResourceVersion (hd cs) \<noteq> [] \<and> 0 < i \<longrightarrow> sv \<noteq> servers"
      and step: "(case bootstrap_round (sv i) 0 cs of None \<Rightarrow> None | Some (cs', done) \<Rightarrow> if done then Some cs' else f sv (Suc i) cs') = Some r"
    show "cs \<noteq> [] \<and> ResourceVersion (hd cs) \<noteq> [] \<and> 0 < i \<longrightarrow> sv \<noteq> servers"
    proof (intro impI notI, elim conjE)
      assume a: "cs \<noteq> []" "ResourceVersion (hd cs) \<noteq> []" "0 < i" "sv = servers"
      then obtain d ds where cs: "cs = d # ds" by (cases cs) auto
      obtain e sent where "CreateSingle (servers i 0) d = (sent, d, Some (Inl e))" using blocked [of d i] a cs by auto
      then have "f servers (Suc i) cs = Some r" using step a(4) cs by simp
      from IH [OF this] a(1,2) show False by simp
    qed
  qed
  obtain sent d where d: "CreateSingle (servers 0 0) (wiped any c) = (sent, d, Some (Inl e))" using first(3) by (metis prod.collapse)
  have "ResourceVersion d \<noteq> []"
    using d first(1,2) by (auto simp: CreateSingle_def locate_crd_def andThen_def okay_def Let_def)
  moreover have "bootstrap_rounds servers 0 (wiped any c # map (wiped any) cs) = bootstrap_rounds servers (Suc 0) (d # map (wiped any) cs)"
    by (subst bootstrap_rounds.simps) (simp add: d)
  ultimately show ?thesis
    using later [of servers "Suc 0" "d # map (wiped any) cs"] by (cases "bootstrap_rounds servers (Suc 0) (d # map (wiped any) cs)") (auto simp: Bootstrap_def)
qed

section \<open>Examples\<close>

definition ex_own_crd :: "string \<Rightarrow> unit crd" where
  "ex_own_crd rv = \<lparr>Name = ''locations.scheduling.kcp.io'', Namespace = [], Cluster = [], UID = [], ResourceVersion = rv, Labels = None, Annotations = None,
     Finalizers = [], OwnerReferences = [], DeletionTimestamp = None, crd_Generation = 1, crd_Owners = [], crd_Group = ''scheduling.kcp.io'',
     crd_Names = \<lparr>nm_Plural = ''locations'', nm_Singular = [], nm_ShortNames = [], nm_Kind = ''Location'', nm_ListKind = [], nm_Categories = []\<rparr>,
     crd_Scope = ''Cluster'', crd_Versions = [], crd_Conditions = []\<rparr>"

definition ex_crd_server :: "unit crd_server" where
  "ex_crd_server = \<lparr>cs_first = Inl NotFound, cs_create = (\<lambda>c. if ResourceVersion c = [] then Inl AlreadyExists else Inl (Failure ''invalid'')),
     cs_again = Inr (ex_own_crd ''7''), cs_update = (\<lambda>_. None), cs_wait = (\<lambda>_. Inr (ex_own_crd ''8'')), cs_isEstablished = (\<lambda>c. ResourceVersion c = ''8'')\<rparr>"

theorem bootstrapped_crd_established_witness:
  "fst (CreateSingle ex_crd_server (ex_own_crd [])) = [CrdGet ''locations.scheduling.kcp.io'', CrdCreate (ex_own_crd []), CrdGet ''locations.scheduling.kcp.io'',
     CrdUpdate (ex_own_crd ''7'')]"
proof -
  obtain sent raw' where r: "CreateSingle ex_crd_server (ex_own_crd []) = (sent, raw', Some (Inr ()))"
    by (auto simp: CreateSingle_def locate_crd_def andThen_def okay_def Let_def ex_crd_server_def ex_own_crd_def established_wait_def PollImmediateInfinite.simps)
  from bootstrapped_crd_established [OF r] r show ?thesis
    by (auto simp: ex_crd_server_def) (simp_all add: ex_own_crd_def)
qed

theorem deleted_crd_blocks_bootstrap_witness:
  "Bootstrap () (\<lambda>i k. if i = 0 then ex_crd_server\<lparr>cs_first := Inr (ex_own_crd ''7''), cs_update := \<lambda>_. Some Conflict\<rparr>
      else ex_crd_server\<lparr>cs_create := \<lambda>c. if ResourceVersion c = [] then Inr c else Inl (Failure ''invalid'')\<rparr>) [ex_own_crd []] = None"
proof (rule deleted_crd_blocks_bootstrap [of _ "ex_own_crd ''7''" _ _ Conflict])
qed (auto simp: ex_crd_server_def ex_own_crd_def CreateSingle_def locate_crd_def andThen_def okay_def wiped_def Let_def split: if_splits)

end
