(* ===== verification/Server_Start.thy ===== *)
theory Server_Start
  imports CRD_Bootstrap
begin

text \<open>
  \<^verbatim>\<open>src/tmc/server/server.go\<close> and \<^verbatim>\<open>src/tmc/server/controllers.go\<close>: the server builds its controllers and registers a start hook for each. The hooks run
  at the same time, as soon as the server listens, and order themselves by two channels: the first is closed when the project's own definitions are there,
  the second when its informers have synced.

  Parameters: the outcome of every constructor, the answers of the server to the bootstrap, and whether the bootstrap of the root
  workspaces (a helper of kcp, which returns when it is done or when its context ends) is ever done. The context of the server and the stop channel of its hooks
  end together.
\<close>

section \<open>Which controllers there are\<close>

datatype server_controller =
    ApiResourceController | SyncTargetHeartbeatController | SyncTargetController | SchedulingLocationStatusController
  | WorkloadResourceScheduler | WorkloadSyncTargetExportController | WorkloadReplicateClusterRoleControllers
  | WorkloadReplicateClusterRoleBindingControllers | WorkloadReplicateLogicalClusterControllers | WorkloadNamespaceScheduler
  | WorkloadPlacementScheduler | SchedulingPlacementController | WorkloadAPIExportController | WorkloadDefaultLocationController

datatype server_client = KcpClusterClient | CrdClusterClient | TmcClusterClient | DynamicClusterClient | KubeClusterClient

datatype hook_work = PopulateCacheServer | StartTmcInformers | BootstrapRoot | StartController server_controller | BootstrapCompute

text \<open>A client is made with the name of its user agent.\<close>

datatype server_call = MakeClient string server_client | MakeController server_controller | AddPostStartHook string hook_work

definition postStartHookName :: "string \<Rightarrow> string" where
  "postStartHookName controllerName = ''tmc-start-'' @ controllerName"

definition install :: "(server_call \<Rightarrow> go_error option) \<Rightarrow> string \<Rightarrow> server_client list \<Rightarrow> bool \<Rightarrow> server_controller \<Rightarrow> string \<Rightarrow> (server_call, unit) calls" where
  "install answer userAgent clients fallible c hook =
     andThen (for_each (\<lambda>k. send_call answer (MakeClient userAgent k)) clients) (\<lambda>_.
     andThen (if fallible then send_call answer (MakeController c) else emit (MakeController c)) (\<lambda>_.
     send_call answer (AddPostStartHook hook (StartController c))))"

definition installWorkloadResourceScheduler :: "(server_call \<Rightarrow> go_error option) \<Rightarrow> (server_call, unit) calls" where
  "installWorkloadResourceScheduler answer =
     (let name = ''tmc-workload-resource-scheduler'' in
      install answer name [DynamicClusterClient] True WorkloadResourceScheduler (postStartHookName name))"

definition installApiResourceController :: "(server_call \<Rightarrow> go_error option) \<Rightarrow> (server_call, unit) calls" where
  "installApiResourceController answer =
     install answer ''tmc-synctarget-heartbeat'' [KcpClusterClient, CrdClusterClient, TmcClusterClient] True ApiResourceController
       (postStartHookName ''tmc-apiresource'')"

definition installSyncTargetHeartbeatController :: "(server_call \<Rightarrow> go_error option) \<Rightarrow> (server_call, unit) calls" where
  "installSyncTargetHeartbeatController answer =
     (let name = ''tmc-synctarget-heartbeat'' in
      install answer name [KcpClusterClient, TmcClusterClient] True SyncTargetHeartbeatController (postStartHookName name))"

definition installSyncTargetController :: "(server_call \<Rightarrow> go_error option) \<Rightarrow> (server_call, unit) calls" where
  "installSyncTargetController answer =
     (let name = ''tmc-synctarget-controller'' in
      install answer name [KcpClusterClient, TmcClusterClient] False SyncTargetController (postStartHookName name))"

definition installSchedulingLocationStatusController :: "(server_call \<Rightarrow> go_error option) \<Rightarrow> (server_call, unit) calls" where
  "installSchedulingLocationStatusController answer =
     (let controllerName = ''tmc-scheduling-location-status-controller'' in
      install answer controllerName [KcpClusterClient, TmcClusterClient] True SchedulingLocationStatusController (postStartHookName controllerName))"

text \<open>Its hook has the plain name of the controller.\<close>

definition installWorkloadSyncTargetExportController :: "(server_call \<Rightarrow> go_error option) \<Rightarrow> (server_call, unit) calls" where
  "installWorkloadSyncTargetExportController answer =
     install answer ''tmc-synctarget-heartbeat'' [KcpClusterClient, TmcClusterClient] True WorkloadSyncTargetExportController
       ''tmc-synctarget-export-controller''"

definition installWorkloadReplicateClusterRoleControllers :: "(server_call \<Rightarrow> go_error option) \<Rightarrow> (server_call, unit) calls" where
  "installWorkloadReplicateClusterRoleControllers answer =
     (let name = ''tmc-workloads-replicate-clusterrole'' in
      install answer name [KubeClusterClient] False WorkloadReplicateClusterRoleControllers (postStartHookName name))"

definition installWorkloadReplicateClusterRoleBindingControllers :: "(server_call \<Rightarrow> go_error option) \<Rightarrow> (server_call, unit) calls" where
  "installWorkloadReplicateClusterRoleBindingControllers answer =
     (let name = ''tmc-workloads-replicate-clusterrolebinding'' in
      install answer name [KubeClusterClient] False WorkloadReplicateClusterRoleBindingControllers (postStartHookName name))"

definition installWorkloadReplicateLogicalClusterControllers :: "(server_call \<Rightarrow> go_error option) \<Rightarrow> (server_call, unit) calls" where
  "installWorkloadReplicateLogicalClusterControllers answer =
     (let name = ''tmc-workload-replicate-logicalcluster'' in
      install answer name [KcpClusterClient] False WorkloadReplicateLogicalClusterControllers (postStartHookName name))"

definition installWorkloadNamespaceScheduler :: "(server_call \<Rightarrow> go_error option) \<Rightarrow> (server_call, unit) calls" where
  "installWorkloadNamespaceScheduler answer =
     (let name = ''tmc-namespace-scheduling-placement'' in
      install answer name [KubeClusterClient] True WorkloadNamespaceScheduler (postStartHookName name))"

definition installWorkloadPlacementScheduler :: "(server_call \<Rightarrow> go_error option) \<Rightarrow> (server_call, unit) calls" where
  "installWorkloadPlacementScheduler answer =
     (let name = ''tmc-workload-placement'' in
      install answer name [KcpClusterClient, TmcClusterClient] True WorkloadPlacementScheduler (postStartHookName name))"

definition installSchedulingPlacementController :: "(server_call \<Rightarrow> go_error option) \<Rightarrow> (server_call, unit) calls" where
  "installSchedulingPlacementController answer =
     (let name = ''tmc-scheduling-placement'' in
      install answer name [KcpClusterClient, TmcClusterClient] True SchedulingPlacementController (postStartHookName name))"

definition installWorkloadAPIExportController :: "(server_call \<Rightarrow> go_error option) \<Rightarrow> (server_call, unit) calls" where
  "installWorkloadAPIExportController answer =
     (let name = ''tmc-workload-apiexport'' in
      install answer name [KcpClusterClient] True WorkloadAPIExportController (postStartHookName name))"

definition installWorkloadDefaultLocationController :: "(server_call \<Rightarrow> go_error option) \<Rightarrow> (server_call, unit) calls" where
  "installWorkloadDefaultLocationController answer =
     (let name = ''tmc-workload-default-location'' in
      install answer name [KcpClusterClient, TmcClusterClient] True WorkloadDefaultLocationController (postStartHookName name))"

text \<open>\<open>Run\<close>, up to the run of the underlying server: the first error ends it.\<close>

definition Server_Run :: "(server_call \<Rightarrow> go_error option) \<Rightarrow> (server_call, unit) calls" where
  "Server_Run answer = for_each (\<lambda>registration. registration)
     [send_call answer (AddPostStartHook ''tmc-populate-cache-server'' PopulateCacheServer),
      send_call answer (AddPostStartHook ''tmc-start-informers'' StartTmcInformers),
      send_call answer (AddPostStartHook ''tmcBootstrap'' BootstrapRoot),
      installApiResourceController answer,
      installSyncTargetHeartbeatController answer,
      installSyncTargetController answer,
      installSchedulingLocationStatusController answer,
      installWorkloadResourceScheduler answer,
      installWorkloadSyncTargetExportController answer,
      installWorkloadReplicateClusterRoleControllers answer,
      installWorkloadReplicateClusterRoleBindingControllers answer,
      installWorkloadReplicateLogicalClusterControllers answer,
      installWorkloadNamespaceScheduler answer,
      installWorkloadPlacementScheduler answer,
      installSchedulingPlacementController answer,
      installWorkloadAPIExportController answer,
      installWorkloadDefaultLocationController answer,
      send_call answer (AddPostStartHook ''rootComputeBootstrap'' BootstrapCompute)]"

text \<open>The informers of the project's own types that a controller takes from the factory; the factory starts those that were taken.\<close>

fun tmc_informers :: "server_controller \<Rightarrow> string list" where
  "tmc_informers ApiResourceController = [''negotiatedapiresources'', ''apiresourceimports'']"
| "tmc_informers SyncTargetHeartbeatController = [''synctargets'']"
| "tmc_informers SyncTargetController = [''synctargets'']"
| "tmc_informers SchedulingLocationStatusController = [''locations'', ''synctargets'']"
| "tmc_informers WorkloadResourceScheduler = [''synctargets'', ''placements'']"
| "tmc_informers WorkloadSyncTargetExportController = [''synctargets'', ''apiresourceimports'']"
| "tmc_informers WorkloadReplicateClusterRoleControllers = []"
| "tmc_informers WorkloadReplicateClusterRoleBindingControllers = []"
| "tmc_informers WorkloadReplicateLogicalClusterControllers = [''synctargets'']"
| "tmc_informers WorkloadNamespaceScheduler = [''placements'']"
| "tmc_informers WorkloadPlacementScheduler = [''locations'', ''synctargets'', ''placements'']"
| "tmc_informers SchedulingPlacementController = [''locations'', ''placements'']"
| "tmc_informers WorkloadAPIExportController = [''negotiatedapiresources'', ''synctargets'']"
| "tmc_informers WorkloadDefaultLocationController = [''synctargets'', ''locations'']"

fun hooks_of :: "server_call list \<Rightarrow> (string \<times> hook_work) list" where
  "hooks_of [] = []"
| "hooks_of (AddPostStartHook n w # cs) = (n, w) # hooks_of cs"
| "hooks_of (_ # cs) = hooks_of cs"

fun informers_of :: "server_call list \<Rightarrow> string list" where
  "informers_of [] = []"
| "informers_of (MakeController c # cs) = tmc_informers c @ informers_of cs"
| "informers_of (_ # cs) = informers_of cs"

section \<open>The hooks\<close>

datatype hook_pc = Waiting | Working | Halfway | Returned "go_error option"

record tmc_state =
  ts_stopped :: bool
  ts_core :: bool                       \<comment> \<open>the informers of kcp have synced\<close>
  ts_phase1 :: bool                     \<comment> \<open>\<open>syncedPhase1Ch\<close> is closed\<close>
  ts_phase2 :: bool
  ts_synced :: "string list"            \<comment> \<open>the informers of the own types that have synced\<close>
  ts_crds :: bool                       \<comment> \<open>the own informer of the API resource controller has synced\<close>
  ts_hooks :: "(hook_work \<times> hook_pc) list"
  ts_started :: "server_controller list"
  ts_panicked :: bool

record 's tmc_env =
  te_any :: 's
  te_servers :: "nat \<Rightarrow> nat \<Rightarrow> 's crd_server"
  te_crds :: "'s crd list"
  te_rootShard :: bool
  te_tmcAssets :: bool
  te_rootRbac :: bool
  te_compute :: bool

definition WaitFor :: "bool \<Rightarrow> bool \<Rightarrow> 'a \<Rightarrow> 'a \<Rightarrow> 'a list" where
  "WaitFor stop ready failed next = (if stop then [failed] else []) @ (if ready then [next] else [])"

definition close_phase1 :: "tmc_state \<Rightarrow> tmc_state" where
  "close_phase1 s = (if ts_phase1 s then s\<lparr>ts_panicked := True\<rparr> else s\<lparr>ts_phase1 := True\<rparr>)"

definition close_phase2 :: "tmc_state \<Rightarrow> tmc_state" where
  "close_phase2 s = (if ts_phase2 s then s\<lparr>ts_panicked := True\<rparr> else s\<lparr>ts_phase2 := True\<rparr>)"

definition start_controller :: "server_controller \<Rightarrow> tmc_state \<Rightarrow> tmc_state" where
  "start_controller c s = s\<lparr>ts_started := ts_started s @ [c]\<rparr>"

text \<open>What a hook may do next: its new position and the new state. A \<open>select\<close> with two ready channels takes either.\<close>

fun populate_cache_server :: "'s tmc_env \<Rightarrow> tmc_state \<Rightarrow> hook_pc \<Rightarrow> (hook_pc \<times> tmc_state) list" where
  "populate_cache_server E s Waiting = WaitFor (ts_stopped s) (ts_core s) (Returned None, s) (Working, s)"
| "populate_cache_server E s Working =
     WaitFor (ts_stopped s) (Bootstrap (te_any E) (te_servers E) (te_crds E) \<noteq> None) (Returned None, s) (Returned None, close_phase1 s)"
| "populate_cache_server E s _ = []"

fun start_tmc_informers :: "string list \<Rightarrow> tmc_state \<Rightarrow> hook_pc \<Rightarrow> (hook_pc \<times> tmc_state) list" where
  "start_tmc_informers informers s Waiting =
     WaitFor (ts_stopped s) (ts_phase1 s) (Returned (Some (Failure ''timed out waiting for core resources to sync'')), s) (Working, s)"
| "start_tmc_informers informers s Working =
     (if set informers \<subseteq> set (ts_synced s) then [(Returned None, close_phase2 s)]
      else if ts_stopped s then [(Returned (Some (Failure ''failed to sync informer'')), s)] else [])"
| "start_tmc_informers informers s _ = []"

fun bootstrap_root :: "'s tmc_env \<Rightarrow> tmc_state \<Rightarrow> hook_pc \<Rightarrow> (hook_pc \<times> tmc_state) list" where
  "bootstrap_root E s Waiting = WaitFor (ts_stopped s) (ts_phase1 s) (Returned None, s) (if te_rootShard E then Working else Returned None, s)"
| "bootstrap_root E s Working = WaitFor (ts_stopped s) (te_tmcAssets E) (Returned None, s) (Halfway, s)"
| "bootstrap_root E s Halfway = WaitFor (ts_stopped s) (te_rootRbac E) (Returned None, s) (Returned None, s)"
| "bootstrap_root E s _ = []"

text \<open>Only the API resource controller has an informer of its own, for which its hook waits; the outcome of that wait is not looked at.\<close>

fun start_hook :: "server_controller \<Rightarrow> tmc_state \<Rightarrow> hook_pc \<Rightarrow> (hook_pc \<times> tmc_state) list" where
  "start_hook c s Waiting =
     WaitFor (ts_stopped s) (ts_phase2 s) (Returned None, s)
       (if c = ApiResourceController then (Working, s) else (Returned None, start_controller c s))"
| "start_hook c s Working = (if ts_crds s \<or> ts_stopped s then [(Returned None, start_controller c s)] else [])"
| "start_hook c s _ = []"

fun bootstrap_compute :: "'s tmc_env \<Rightarrow> tmc_state \<Rightarrow> hook_pc \<Rightarrow> (hook_pc \<times> tmc_state) list" where
  "bootstrap_compute E s Waiting = WaitFor (ts_stopped s) (ts_core s) (Returned None, s) (if te_rootShard E then Working else Returned None, s)"
| "bootstrap_compute E s Working = WaitFor (ts_stopped s) (te_compute E) (Returned None, s) (Returned None, s)"
| "bootstrap_compute E s _ = []"

fun run_hook :: "'s tmc_env \<Rightarrow> string list \<Rightarrow> tmc_state \<Rightarrow> hook_work \<Rightarrow> hook_pc \<Rightarrow> (hook_pc \<times> tmc_state) list" where
  "run_hook E informers s PopulateCacheServer pc = populate_cache_server E s pc"
| "run_hook E informers s StartTmcInformers pc = start_tmc_informers informers s pc"
| "run_hook E informers s BootstrapRoot pc = bootstrap_root E s pc"
| "run_hook E informers s (StartController c) pc = start_hook c s pc"
| "run_hook E informers s BootstrapCompute pc = bootstrap_compute E s pc"

definition tmc_init :: "(server_call \<Rightarrow> go_error option) \<Rightarrow> tmc_state" where
  "tmc_init answer = \<lparr>ts_stopped = False, ts_core = False, ts_phase1 = False, ts_phase2 = False, ts_synced = [], ts_crds = False,
     ts_hooks = map (\<lambda>(n, w). (w, Waiting)) (hooks_of (fst (Server_Run answer))), ts_started = [], ts_panicked = False\<rparr>"

text \<open>The hooks take turns in any order; the informers sync at any time after they were started, and the process may be stopped at any time.\<close>

inductive server_step :: "'s tmc_env \<Rightarrow> string list \<Rightarrow> tmc_state \<Rightarrow> tmc_state \<Rightarrow> bool" for E informers where
  Hook: "i < length (ts_hooks s) \<Longrightarrow> ts_hooks s ! i = (w, pc) \<Longrightarrow> (pc', s') \<in> set (run_hook E informers s w pc)
    \<Longrightarrow> server_step E informers s (s'\<lparr>ts_hooks := (ts_hooks s)[i := (w, pc')]\<rparr>)"
| CoreSynced: "\<not> ts_core s \<Longrightarrow> server_step E informers s (s\<lparr>ts_core := True\<rparr>)"
| InformerSynced: "(StartTmcInformers, Working) \<in> set (ts_hooks s) \<Longrightarrow> j \<in> set informers \<Longrightarrow> j \<notin> set (ts_synced s)
    \<Longrightarrow> server_step E informers s (s\<lparr>ts_synced := j # ts_synced s\<rparr>)"
| CrdsSynced: "(StartController ApiResourceController, Working) \<in> set (ts_hooks s) \<Longrightarrow> \<not> ts_crds s
    \<Longrightarrow> server_step E informers s (s\<lparr>ts_crds := True\<rparr>)"
| StopServer: "\<not> ts_stopped s \<Longrightarrow> server_step E informers s (s\<lparr>ts_stopped := True\<rparr>)"

inductive_cases server_stepE: "server_step E informers s s'"

section \<open>What is registered\<close>

definition all_controllers :: "server_controller list" where
  "all_controllers =
     [ApiResourceController, SyncTargetHeartbeatController, SyncTargetController, SchedulingLocationStatusController,
      WorkloadResourceScheduler, WorkloadSyncTargetExportController, WorkloadReplicateClusterRoleControllers,
      WorkloadReplicateClusterRoleBindingControllers, WorkloadReplicateLogicalClusterControllers, WorkloadNamespaceScheduler,
      WorkloadPlacementScheduler, SchedulingPlacementController, WorkloadAPIExportController, WorkloadDefaultLocationController]"

lemma all_controllers: "c \<in> set all_controllers" "distinct all_controllers"
  by (cases c) (simp_all add: all_controllers_def)

lemma hooks_of_append [simp]: "hooks_of (cs @ ds) = hooks_of cs @ hooks_of ds"
  by (induction cs rule: hooks_of.induct) simp_all

lemma informers_of_append [simp]: "informers_of (cs @ ds) = informers_of cs @ informers_of ds"
  by (induction cs rule: informers_of.induct) simp_all

lemma clients_only [simp]: "hooks_of (map (MakeClient a) ks) = []" "informers_of (map (MakeClient a) ks) = []"
  by (induction ks) simp_all

lemma send_calls: "snd (for_each (\<lambda>k. send_call answer (f k)) ks) = Inr () \<Longrightarrow> fst (for_each (\<lambda>k. send_call answer (f k)) ks) = map f ks"
  by (induction ks) (auto simp: ok_andThen andThen_calls okay_def)

lemma install_calls:
  assumes "snd (install answer a ks fl c hook) = Inr ()"
  shows "fst (install answer a ks fl c hook) = map (MakeClient a) ks @ [MakeController c, AddPostStartHook hook (StartController c)]"
  using assms by (auto simp: install_def ok_andThen andThen_calls send_calls emit_def split: if_splits)

lemmas install_defs = installWorkloadResourceScheduler_def installApiResourceController_def installSyncTargetHeartbeatController_def
  installSyncTargetController_def installSchedulingLocationStatusController_def installWorkloadSyncTargetExportController_def
  installWorkloadReplicateClusterRoleControllers_def installWorkloadReplicateClusterRoleBindingControllers_def
  installWorkloadReplicateLogicalClusterControllers_def installWorkloadNamespaceScheduler_def installWorkloadPlacementScheduler_def
  installSchedulingPlacementController_def installWorkloadAPIExportController_def installWorkloadDefaultLocationController_def

lemma run_registers:
  assumes "snd (Server_Run answer) = Inr ()"
  shows "map snd (hooks_of (fst (Server_Run answer))) = [PopulateCacheServer, StartTmcInformers, BootstrapRoot] @ map StartController all_controllers @ [BootstrapCompute]"
    and "set (informers_of (fst (Server_Run answer))) = {''synctargets'', ''locations'', ''placements'', ''negotiatedapiresources'', ''apiresourceimports''}"
    and "distinct (map fst (hooks_of (fst (Server_Run answer))))"
proof -
  let ?M = "(\<lambda>(a, ks, c, hook). map (MakeClient a) ks @ [MakeController c, AddPostStartHook hook (StartController c)])"
  have calls: "fst (Server_Run answer) =
    AddPostStartHook ''tmc-populate-cache-server'' PopulateCacheServer # AddPostStartHook ''tmc-start-informers'' StartTmcInformers
    # AddPostStartHook ''tmcBootstrap'' BootstrapRoot # concat (map ?M
     [(''tmc-synctarget-heartbeat'', [KcpClusterClient, CrdClusterClient, TmcClusterClient], ApiResourceController, ''tmc-start-tmc-apiresource''),
      (''tmc-synctarget-heartbeat'', [KcpClusterClient, TmcClusterClient], SyncTargetHeartbeatController, ''tmc-start-tmc-synctarget-heartbeat''),
      (''tmc-synctarget-controller'', [KcpClusterClient, TmcClusterClient], SyncTargetController, ''tmc-start-tmc-synctarget-controller''),
      (''tmc-scheduling-location-status-controller'', [KcpClusterClient, TmcClusterClient], SchedulingLocationStatusController,
       ''tmc-start-tmc-scheduling-location-status-controller''),
      (''tmc-workload-resource-scheduler'', [DynamicClusterClient], WorkloadResourceScheduler, ''tmc-start-tmc-workload-resource-scheduler''),
      (''tmc-synctarget-heartbeat'', [KcpClusterClient, TmcClusterClient], WorkloadSyncTargetExportController, ''tmc-synctarget-export-controller''),
      (''tmc-workloads-replicate-clusterrole'', [KubeClusterClient], WorkloadReplicateClusterRoleControllers,
       ''tmc-start-tmc-workloads-replicate-clusterrole''),
      (''tmc-workloads-replicate-clusterrolebinding'', [KubeClusterClient], WorkloadReplicateClusterRoleBindingControllers,
       ''tmc-start-tmc-workloads-replicate-clusterrolebinding''),
      (''tmc-workload-replicate-logicalcluster'', [KcpClusterClient], WorkloadReplicateLogicalClusterControllers,
       ''tmc-start-tmc-workload-replicate-logicalcluster''),
      (''tmc-namespace-scheduling-placement'', [KubeClusterClient], WorkloadNamespaceScheduler, ''tmc-start-tmc-namespace-scheduling-placement''),
      (''tmc-workload-placement'', [KcpClusterClient, TmcClusterClient], WorkloadPlacementScheduler, ''tmc-start-tmc-workload-placement''),
      (''tmc-scheduling-placement'', [KcpClusterClient, TmcClusterClient], SchedulingPlacementController, ''tmc-start-tmc-scheduling-placement''),
      (''tmc-workload-apiexport'', [KcpClusterClient], WorkloadAPIExportController, ''tmc-start-tmc-workload-apiexport''),
      (''tmc-workload-default-location'', [KcpClusterClient, TmcClusterClient], WorkloadDefaultLocationController,
       ''tmc-start-tmc-workload-default-location'')])
    @ [AddPostStartHook ''rootComputeBootstrap'' BootstrapCompute]"
    using assms unfolding Server_Run_def install_defs Let_def postStartHookName_def append_Cons append_Nil
    by (simp add: ok_andThen andThen_calls install_calls)
  show "map snd (hooks_of (fst (Server_Run answer))) = [PopulateCacheServer, StartTmcInformers, BootstrapRoot] @ map StartController all_controllers @ [BootstrapCompute]"
    unfolding calls by (simp add: all_controllers_def)
  show "set (informers_of (fst (Server_Run answer))) = {''synctargets'', ''locations'', ''placements'', ''negotiatedapiresources'', ''apiresourceimports''}"
    unfolding calls by auto
  show "distinct (map fst (hooks_of (fst (Server_Run answer))))" unfolding calls by simp
qed

section \<open>The order of the hooks\<close>

fun is_returned :: "hook_pc \<Rightarrow> bool" where
  "is_returned (Returned e) = True" | "is_returned _ = False"

fun hook_ok :: "tmc_state \<Rightarrow> hook_work \<times> hook_pc \<Rightarrow> bool" where
  "hook_ok s (PopulateCacheServer, pc) \<longleftrightarrow> pc \<noteq> Halfway \<and> (pc = Working \<longrightarrow> ts_core s) \<and> (ts_phase1 s \<longrightarrow> is_returned pc)
     \<and> (is_returned pc \<longrightarrow> ts_phase1 s \<or> ts_stopped s)"
| "hook_ok s (StartTmcInformers, pc) \<longleftrightarrow> pc \<noteq> Halfway \<and> (pc = Working \<longrightarrow> ts_phase1 s) \<and> (ts_phase2 s \<longrightarrow> is_returned pc)
     \<and> (is_returned pc \<longrightarrow> ts_phase2 s \<or> ts_stopped s)"
| "hook_ok s (StartController c, pc) \<longleftrightarrow> pc \<noteq> Halfway \<and> (pc = Working \<longrightarrow> ts_phase2 s \<and> c = ApiResourceController)
     \<and> (c \<in> set (ts_started s) \<longrightarrow> is_returned pc) \<and> (is_returned pc \<longrightarrow> c \<in> set (ts_started s) \<or> ts_stopped s)"
| "hook_ok s (_, pc) \<longleftrightarrow> True"

definition server_ok :: "'s tmc_env \<Rightarrow> string list \<Rightarrow> hook_work list \<Rightarrow> tmc_state \<Rightarrow> bool" where
  "server_ok E informers works s \<longleftrightarrow>
     (ts_phase1 s \<longrightarrow> ts_core s \<and> Bootstrap (te_any E) (te_servers E) (te_crds E) \<noteq> None)
     \<and> (ts_phase2 s \<longrightarrow> ts_phase1 s \<and> set informers \<subseteq> set (ts_synced s))
     \<and> (ts_started s \<noteq> [] \<longrightarrow> ts_phase2 s) \<and> distinct (ts_started s) \<and> \<not> ts_panicked s
     \<and> (ApiResourceController \<in> set (ts_started s) \<longrightarrow> ts_crds s \<or> ts_stopped s)
     \<and> map fst (ts_hooks s) = works \<and> (\<forall>h \<in> set (ts_hooks s). hook_ok s h)"

lemmas run_hook_defs = WaitFor_def close_phase1_def close_phase2_def start_controller_def

text \<open>A step of one hook keeps what is known of it and of the others, and the global facts.\<close>

lemma run_hook_ok:
  assumes ok: "server_ok E informers works s" and h: "(w, pc) \<in> set (ts_hooks s)" and r: "(pc', s') \<in> set (run_hook E informers s w pc)"
  shows "hook_ok s' (w, pc')" "\<And>v q. v \<noteq> w \<Longrightarrow> hook_ok s (v, q) \<Longrightarrow> hook_ok s' (v, q)" "ts_hooks s' = ts_hooks s"
    "(ts_phase1 s' \<longrightarrow> ts_core s' \<and> Bootstrap (te_any E) (te_servers E) (te_crds E) \<noteq> None)
     \<and> (ts_phase2 s' \<longrightarrow> ts_phase1 s' \<and> set informers \<subseteq> set (ts_synced s'))
     \<and> (ts_started s' \<noteq> [] \<longrightarrow> ts_phase2 s') \<and> distinct (ts_started s') \<and> \<not> ts_panicked s'
     \<and> (ApiResourceController \<in> set (ts_started s') \<longrightarrow> ts_crds s' \<or> ts_stopped s')"
proof -
  have now: "hook_ok s (w, pc)" using ok h unfolding server_ok_def by blast
  show "hook_ok s' (w, pc')"
    using now r by (cases w; cases pc) (auto simp: run_hook_defs split: if_splits)
  show "ts_hooks s' = ts_hooks s"
    using r by (cases w; cases pc) (auto simp: run_hook_defs split: if_splits)
  show "hook_ok s' (v, q)" if "v \<noteq> w" "hook_ok s (v, q)" for v q
    using r that by (cases w; cases pc; cases v) (auto simp: run_hook_defs split: if_splits)
  show "(ts_phase1 s' \<longrightarrow> ts_core s' \<and> Bootstrap (te_any E) (te_servers E) (te_crds E) \<noteq> None)
     \<and> (ts_phase2 s' \<longrightarrow> ts_phase1 s' \<and> set informers \<subseteq> set (ts_synced s'))
     \<and> (ts_started s' \<noteq> [] \<longrightarrow> ts_phase2 s') \<and> distinct (ts_started s') \<and> \<not> ts_panicked s'
     \<and> (ApiResourceController \<in> set (ts_started s') \<longrightarrow> ts_crds s' \<or> ts_stopped s')"
    using ok now r unfolding server_ok_def by (cases w; cases pc) (auto simp: run_hook_defs split: if_splits)
qed

lemma hook_ok_env:
  "hook_ok s h \<Longrightarrow> hook_ok (s\<lparr>ts_core := True\<rparr>) h" "hook_ok s h \<Longrightarrow> hook_ok (s\<lparr>ts_synced := xs\<rparr>) h"
  "hook_ok s h \<Longrightarrow> hook_ok (s\<lparr>ts_crds := b\<rparr>) h" "hook_ok s h \<Longrightarrow> hook_ok (s\<lparr>ts_stopped := True\<rparr>) h" "hook_ok (s\<lparr>ts_hooks := hs\<rparr>) h = hook_ok s h"
  by (cases "(s, h)" rule: hook_ok.cases; auto)+

lemma server_step_ok:
  assumes "server_step E informers s s'" "server_ok E informers works s" "distinct works"
  shows "server_ok E informers works s'"
  using assms(1)
proof cases
  case (Hook i w pc pc' t)
  then have mem: "(w, pc) \<in> set (ts_hooks s)" by (metis nth_mem)
  note r = run_hook_ok [OF assms(2) mem Hook(4)]
  have works: "map fst (ts_hooks s) = works" "\<forall>h \<in> set (ts_hooks s). hook_ok s h" using assms(2) unfolding server_ok_def by blast+
  have "map fst ((ts_hooks s)[i := (w, pc')]) = works" using Hook(2,3) works(1) by (simp add: map_update) (metis fst_conv list_update_id nth_map)
  moreover have "hook_ok t h" if h: "h \<in> set ((ts_hooks s)[i := (w, pc')])" for h
  proof -
    from h obtain j where j: "j < length (ts_hooks s)" "h = (ts_hooks s)[i := (w, pc')] ! j" by (metis in_set_conv_nth length_list_update)
    show ?thesis
    proof (cases "j = i")
      case False
      then have hj: "h = ts_hooks s ! j" using j by simp
      have "fst h \<noteq> w" using False j(1) Hook(2,3) hj assms(3) works(1) by (metis distinct_conv_nth fst_conv length_map nth_map)
      then show ?thesis using r(2) [of "fst h" "snd h"] works(2) j(1) hj by auto
    qed (use r(1) j Hook(2) in simp)
  qed
  ultimately show ?thesis using r(4) Hook(1) unfolding server_ok_def by (simp add: hook_ok_env)
qed (use assms(2) in \<open>auto simp: server_ok_def intro: hook_ok_env\<close>)

lemma server_reachable_ok:
  assumes "snd (Server_Run answer) = Inr ()" "(server_step E (informers_of (fst (Server_Run answer))))\<^sup>*\<^sup>* (tmc_init answer) s"
  shows "server_ok E (informers_of (fst (Server_Run answer))) (map snd (hooks_of (fst (Server_Run answer)))) s"
  using assms(2)
proof induction
  case base
  have waiting: "hook_ok (tmc_init answer) (w, Waiting)" for w by (cases w) (simp_all add: tmc_init_def)
  have "hook_ok (tmc_init answer) h" if "h \<in> set (ts_hooks (tmc_init answer))" for h
    using waiting that unfolding tmc_init_def by fastforce
  then show ?case unfolding server_ok_def by (simp add: tmc_init_def comp_def case_prod_unfold)
next
  case (step t u)
  have "distinct (map snd (hooks_of (fst (Server_Run answer))))"
    unfolding run_registers(1) [OF assms(1)] using all_controllers(2) by (auto simp: distinct_map inj_on_def)
  then show ?case using server_step_ok step by blast
qed

lemma installed_informers:
  assumes "snd (Server_Run answer) = Inr ()"
  shows "set (tmc_informers c) \<subseteq> set (informers_of (fst (Server_Run answer)))"
  unfolding run_registers(2) [OF assms] by (cases c) simp_all

text \<open>When the bootstrap is done, every definition was seen as established in its last round.\<close>

lemma bootstrap_round_done:
  "bootstrap_round servers n cs = Some (cs', True) \<Longrightarrow> j < length cs \<Longrightarrow> \<exists>sent raw'. CreateSingle (servers (n + j)) (cs ! j) = (sent, raw', Some (Inr ()))"
proof (induction servers n cs arbitrary: cs' j rule: bootstrap_round.induct)
  case (2 servers n c cs)
  then obtain sent c' cs'' where c: "CreateSingle (servers n) c = (sent, c', Some (Inr ()))" "bootstrap_round servers (Suc n) cs = Some (cs'', True)"
    by (auto split: option.splits sum.splits prod.splits)
  show ?case
  proof (cases j)
    case (Suc k)
    show ?thesis using "2.IH" [OF c(1) [symmetric] refl refl refl c(2), of k] "2.prems"(2) Suc by simp
  qed (use c in simp)
qed simp

lemma bootstrap_round_names: "bootstrap_round servers n cs = Some (cs', d) \<Longrightarrow> map Name cs' = map Name cs"
proof (induction servers n cs arbitrary: cs' d rule: bootstrap_round.induct)
  case (2 servers n c cs)
  have "Name (fst (snd (CreateSingle (servers n) c))) = Name c"
    by (auto simp: CreateSingle_def Let_def split: prod.splits sum.splits)
  then show ?case using 2 by (auto split: option.splits sum.splits prod.splits)
qed simp

lemma bootstrap_rounds_done:
  assumes "bootstrap_rounds sv i cs = Some r"
  shows "\<exists>n. \<forall>j < length cs. \<exists>raw sent raw'. Name raw = Name (cs ! j) \<and> CreateSingle (sv n j) raw = (sent, raw', Some (Inr ()))"
proof (rule bootstrap_rounds.raw_induct [OF _ assms])
  fix f :: "(nat \<Rightarrow> nat \<Rightarrow> 'a crd_server) \<Rightarrow> nat \<Rightarrow> 'a crd list \<Rightarrow> 'a crd list option" and sv i cs r
  assume IH: "\<And>sv i cs r. f sv i cs = Some r
      \<Longrightarrow> \<exists>n. \<forall>j < length cs. \<exists>raw sent raw'. Name raw = Name (cs ! j) \<and> CreateSingle (sv n j) raw = (sent, raw', Some (Inr ()))"
    and run: "(case bootstrap_round (sv i) 0 cs of None \<Rightarrow> None | Some (cs', done) \<Rightarrow> if done then Some cs' else f sv (Suc i) cs') = Some r"
  obtain cs' d where b: "bootstrap_round (sv i) 0 cs = Some (cs', d)" using run by (auto split: option.splits)
  show "\<exists>n. \<forall>j < length cs. \<exists>raw sent raw'. Name raw = Name (cs ! j) \<and> CreateSingle (sv n j) raw = (sent, raw', Some (Inr ()))"
  proof (cases d)
    case True
    then show ?thesis using bootstrap_round_done [of "sv i" 0 cs cs'] b by (intro exI [of _ i]) fastforce
  next
    case False
    have names: "length cs' = length cs" "\<And>j. j < length cs \<Longrightarrow> Name (cs' ! j) = Name (cs ! j)"
      using bootstrap_round_names [OF b] by (metis length_map, metis length_map nth_map)
    have "f sv (Suc i) cs' = Some r" using run b False by simp
    from IH [OF this] show ?thesis using names by fastforce
  qed
qed

section \<open>Properties\<close>

text \<open>
  C37: No controller starts on an unprepared server. However the hooks interleave with each other, with the synchronisation of the informers and with a stop, a
  controller that runs was started once, after every definition of the project was seen as established in one and the same round of the bootstrap, and after
  all informers of the own types that this controller reads had synced. The controller of API resources, which also has an informer of definitions of its own, was
  started after that one had synced or after a stop: the outcome of that wait is not looked at.
\<close>

theorem controllers_start_after_bootstrap:
  assumes registered: "snd (Server_Run answer) = Inr ()"
    and reach: "(server_step E (informers_of (fst (Server_Run answer))))\<^sup>*\<^sup>* (tmc_init answer) s"
    and started: "c \<in> set (ts_started s)"
  shows "distinct (ts_started s) \<and> ts_core s \<and> set (tmc_informers c) \<subseteq> set (ts_synced s)
    \<and> (c = ApiResourceController \<longrightarrow> ts_crds s \<or> ts_stopped s)
    \<and> (\<exists>n. \<forall>j < length (te_crds E). \<exists>raw sent raw' k d. Name raw = Name (te_crds E ! j)
          \<and> CreateSingle (te_servers E n j) raw = (sent, raw', Some (Inr ()))
          \<and> cs_wait (te_servers E n j) k = Inr d \<and> cs_isEstablished (te_servers E n j) d)"
proof -
  let ?infs = "informers_of (fst (Server_Run answer))"
  have ok: "server_ok E ?infs (map snd (hooks_of (fst (Server_Run answer)))) s" using server_reachable_ok [OF registered reach] .
  then have p: "ts_phase2 s" "ts_core s" "set ?infs \<subseteq> set (ts_synced s)" "distinct (ts_started s)"
    "Bootstrap (te_any E) (te_servers E) (te_crds E) \<noteq> None" "c = ApiResourceController \<longrightarrow> ts_crds s \<or> ts_stopped s"
    using started unfolding server_ok_def by auto
  then obtain r where "bootstrap_rounds (te_servers E) 0 (map (wiped (te_any E)) (te_crds E)) = Some r" by (auto simp: Bootstrap_def)
  from bootstrap_rounds_done [OF this] obtain n where n: "\<forall>j < length (te_crds E). \<exists>raw sent raw'. Name raw = Name (te_crds E ! j)
      \<and> CreateSingle (te_servers E n j) raw = (sent, raw', Some (Inr ()))" by (auto simp: wiped_def)
  have "\<exists>raw sent raw' k d. Name raw = Name (te_crds E ! j) \<and> CreateSingle (te_servers E n j) raw = (sent, raw', Some (Inr ()))
      \<and> cs_wait (te_servers E n j) k = Inr d \<and> cs_isEstablished (te_servers E n j) d" if "j < length (te_crds E)" for j
    using n that bootstrapped_crd_established [THEN conjunct1] by meson
  then show ?thesis using p started installed_informers [OF registered, of c] by blast
qed

definition pc_weight :: "hook_pc \<Rightarrow> nat" where
  "pc_weight pc = (case pc of Waiting \<Rightarrow> 3 | Working \<Rightarrow> 2 | Halfway \<Rightarrow> 1 | Returned _ \<Rightarrow> 0)"

definition server_weight :: "string list \<Rightarrow> tmc_state \<Rightarrow> nat" where
  "server_weight informers s = (\<Sum>h \<leftarrow> ts_hooks s. pc_weight (snd h)) + card (set informers - set (ts_synced s))
     + of_bool (\<not> ts_core s) + of_bool (\<not> ts_crds s) + of_bool (\<not> ts_stopped s)"

lemma run_hook_weight:
  assumes "(pc', s') \<in> set (run_hook E informers s w pc)"
  shows "pc_weight pc' < pc_weight pc" "ts_synced s' = ts_synced s" "ts_core s' = ts_core s" "ts_crds s' = ts_crds s" "ts_stopped s' = ts_stopped s"
  using assms by (cases w; cases pc; auto simp: run_hook_defs pc_weight_def split: if_splits)+

lemma sum_list_update_less:
  "i < length xs \<Longrightarrow> f y < (f (xs ! i) :: nat) \<Longrightarrow> (\<Sum>x \<leftarrow> xs[i := y]. f x) < (\<Sum>x \<leftarrow> xs. f x)"
proof (induction xs arbitrary: i)
  case (Cons x xs)
  then show ?case by (cases i) simp_all
qed simp

lemma server_step_weight:
  assumes "server_step E informers s s'"
  shows "server_weight informers s' < server_weight informers s"
  using assms
proof cases
  case (Hook i w pc pc' t)
  have "(\<Sum>h \<leftarrow> (ts_hooks s)[i := (w, pc')]. pc_weight (snd h)) < (\<Sum>h \<leftarrow> ts_hooks s. pc_weight (snd h))"
    using sum_list_update_less [of i "ts_hooks s" "\<lambda>h. pc_weight (snd h)" "(w, pc')"] Hook(2,3) run_hook_weight(1) [OF Hook(4)] by simp
  then show ?thesis using run_hook_weight(2-) [OF Hook(4)] by (simp add: Hook(1) server_weight_def)
next
  case (InformerSynced j)
  have "card (set informers - set (j # ts_synced s)) < card (set informers - set (ts_synced s))"
    using InformerSynced by (intro psubset_card_mono) auto
  then show ?thesis by (simp add: InformerSynced(1) server_weight_def)
qed (simp_all add: server_weight_def)

lemma run_bounded: "(server_step E informers ^^ n) s s' \<Longrightarrow> n + server_weight informers s' \<le> server_weight informers s"
proof (induction n arbitrary: s')
  case (Suc n)
  then obtain t where "(server_step E informers ^^ n) s t" "server_step E informers t s'" by auto
  then show ?case using Suc.IH [of t] server_step_weight [of E informers t s'] by linarith
qed simp

lemma hook_stuck:
  assumes "\<And>t. server_step E informers s t \<Longrightarrow> ts_stopped t" "\<not> ts_stopped s" "(w, pc) \<in> set (ts_hooks s)"
  shows "run_hook E informers s w pc = []"
proof (rule ccontr)
  assume "run_hook E informers s w pc \<noteq> []"
  then obtain pc' t where t: "(pc', t) \<in> set (run_hook E informers s w pc)" by (metis list.set_intros(1) neq_Nil_conv prod.collapse)
  obtain i where "i < length (ts_hooks s)" "ts_hooks s ! i = (w, pc)" using assms(3) by (metis in_set_conv_nth)
  from assms(1) [OF server_step.Hook [OF this t]] show False using run_hook_weight(5) [OF t] assms(2) by simp
qed

text \<open>
  The start comes to an end, and to the right one. No run of the hooks is longer than a fixed number of steps; and one that goes on as far as it can, without a
  stop, on a server whose bootstrap ends, has started all controllers, each once, without a panic by closing a channel twice.
\<close>

theorem all_controllers_start:
  assumes registered: "snd (Server_Run answer) = Inr ()"
    and run: "(server_step E (informers_of (fst (Server_Run answer))) ^^ n) (tmc_init answer) s"
  shows "n \<le> 62 \<and> \<not> ts_panicked s
    \<and> (\<not> ts_stopped s \<and> Bootstrap (te_any E) (te_servers E) (te_crds E) \<noteq> None
        \<and> (\<forall>t. server_step E (informers_of (fst (Server_Run answer))) s t \<longrightarrow> ts_stopped t)
       \<longrightarrow> mset (ts_started s) = mset all_controllers)"
proof (intro conjI impI; (elim conjE)?)
  let ?infs = "informers_of (fst (Server_Run answer))"
  let ?works = "map snd (hooks_of (fst (Server_Run answer)))"
  have works: "?works = [PopulateCacheServer, StartTmcInformers, BootstrapRoot] @ map StartController all_controllers @ [BootstrapCompute]"
    using run_registers(1) [OF registered] .
  have "server_weight ?infs (tmc_init answer) = 3 * length ?works + card (set ?infs) + 3"
    by (simp add: server_weight_def tmc_init_def pc_weight_def comp_def case_prod_unfold sum_list_triv)
  also have "\<dots> = 62" unfolding works run_registers(2) [OF registered] by (simp add: all_controllers_def)
  finally show "n \<le> 62" using run_bounded [OF run] by linarith
  have "(server_step E ?infs)\<^sup>*\<^sup>* (tmc_init answer) s" using run by (rule relpowp_imp_rtranclp)
  from server_reachable_ok [OF registered this] have ok: "server_ok E ?infs ?works s" .
  then show "\<not> ts_panicked s" unfolding server_ok_def by blast
  assume live: "\<not> ts_stopped s" "Bootstrap (te_any E) (te_servers E) (te_crds E) \<noteq> None" "\<forall>t. server_step E ?infs s t \<longrightarrow> ts_stopped t"
  have stuck: "run_hook E ?infs s w pc = []" if "(w, pc) \<in> set (ts_hooks s)" for w pc
    using hook_stuck [of E ?infs s] live(1,3) that by blast
  have present: "\<exists>pc. (w, pc) \<in> set (ts_hooks s) \<and> hook_ok s (w, pc)" if "w \<in> set ?works" for w
    using ok that unfolding server_ok_def by (metis (no_types, lifting) image_iff list.set_map prod.collapse)
  have core: "ts_core s" using server_step.CoreSynced [of s E ?infs] live(1,3) by fastforce
  obtain p where p: "(PopulateCacheServer, p) \<in> set (ts_hooks s)" "hook_ok s (PopulateCacheServer, p)"
    using present [of PopulateCacheServer] works by auto
  have phase1: "ts_phase1 s" using stuck [OF p(1)] p(2) core live(1,2) by (cases p) (auto simp: WaitFor_def)
  obtain q where q: "(StartTmcInformers, q) \<in> set (ts_hooks s)" "hook_ok s (StartTmcInformers, q)"
    using present [of StartTmcInformers] works by auto
  have "q = Working \<Longrightarrow> set ?infs \<subseteq> set (ts_synced s)"
    using q(1) server_step.InformerSynced [of s _ ?infs E] live(1,3) by fastforce
  then have phase2: "ts_phase2 s" using stuck [OF q(1)] q(2) phase1 live(1) by (cases q) (auto simp: WaitFor_def)
  have "c \<in> set (ts_started s)" for c
  proof -
    obtain r where r: "(StartController c, r) \<in> set (ts_hooks s)" "hook_ok s (StartController c, r)"
      using present [of "StartController c"] works all_controllers(1) by auto
    have "r = Working \<Longrightarrow> ts_crds s"
      using r server_step.CrdsSynced [of s E ?infs] live(1,3) by fastforce
    then show ?thesis using stuck [OF r(1)] r(2) phase2 live(1) by (cases r) (auto simp: WaitFor_def split: if_splits)
  qed
  then have "set (ts_started s) = set all_controllers" using all_controllers(1) by blast
  moreover have "distinct (ts_started s)" using ok unfolding server_ok_def by blast
  ultimately show "mset (ts_started s) = mset all_controllers" using all_controllers(2) by (simp add: set_eq_iff_mset_eq_distinct)
qed

text \<open>A bootstrap that never ends, as after the deletion of a definition (\<open>deleted_crd_blocks_bootstrap\<close>), leaves the server without a controller.\<close>

lemma blocked_bootstrap_starts_nothing:
  assumes "snd (Server_Run answer) = Inr ()" "Bootstrap (te_any E) (te_servers E) (te_crds E) = None"
    "(server_step E (informers_of (fst (Server_Run answer))))\<^sup>*\<^sup>* (tmc_init answer) s"
  shows "ts_started s = []"
  using server_reachable_ok [OF assms(1,3)] assms(2) unfolding server_ok_def by blast

text \<open>
  A stop before the definitions are there makes the hook of the informers return an error, on which the API server ends the process as after a fault. The other
  hooks return none in this case, with a comment that says so.
\<close>

lemma early_stop_is_an_error:
  "server_step E informers (s\<lparr>ts_stopped := True, ts_hooks := [(StartTmcInformers, Waiting)]\<rparr>)
     (s\<lparr>ts_stopped := True, ts_hooks := [(StartTmcInformers, Returned (Some (Failure ''timed out waiting for core resources to sync'')))]\<rparr>)"
  using server_step.Hook [of 0 "s\<lparr>ts_stopped := True, ts_hooks := [(StartTmcInformers, Waiting)]\<rparr>" StartTmcInformers Waiting
      "Returned (Some (Failure ''timed out waiting for core resources to sync''))" "s\<lparr>ts_stopped := True, ts_hooks := [(StartTmcInformers, Waiting)]\<rparr>" E informers]
  by (simp add: WaitFor_def)

section \<open>Examples\<close>

text \<open>A run is given by the moves it makes; \<open>perform\<close> makes them, if they are possible.\<close>

datatype move = MoveHook nat nat | MoveCore | MoveInformer string | MoveCrds

fun perform :: "'s tmc_env \<Rightarrow> string list \<Rightarrow> tmc_state \<Rightarrow> move list \<Rightarrow> tmc_state option" where
  "perform E informers s [] = Some s"
| "perform E informers s (MoveHook i k # ms) =
     (if i < length (ts_hooks s) \<and> k < length (run_hook E informers s (fst (ts_hooks s ! i)) (snd (ts_hooks s ! i)))
      then (case run_hook E informers s (fst (ts_hooks s ! i)) (snd (ts_hooks s ! i)) ! k of (pc', s') \<Rightarrow>
              perform E informers (s'\<lparr>ts_hooks := (ts_hooks s)[i := (fst (ts_hooks s ! i), pc')]\<rparr>) ms)
      else None)"
| "perform E informers s (MoveCore # ms) = (if ts_core s then None else perform E informers (s\<lparr>ts_core := True\<rparr>) ms)"
| "perform E informers s (MoveInformer j # ms) =
     (if (StartTmcInformers, Working) \<in> set (ts_hooks s) \<and> j \<in> set informers \<and> j \<notin> set (ts_synced s)
      then perform E informers (s\<lparr>ts_synced := j # ts_synced s\<rparr>) ms else None)"
| "perform E informers s (MoveCrds # ms) =
     (if (StartController ApiResourceController, Working) \<in> set (ts_hooks s) \<and> \<not> ts_crds s then perform E informers (s\<lparr>ts_crds := True\<rparr>) ms else None)"

lemma perform_steps: "perform E informers s ms = Some t \<Longrightarrow> (server_step E informers ^^ length ms) s t"
proof (induction E informers s ms rule: perform.induct)
  case (2 E informers s i k ms)
  obtain pc' s' where r: "run_hook E informers s (fst (ts_hooks s ! i)) (snd (ts_hooks s ! i)) ! k = (pc', s')" by (metis surj_pair)
  then have "server_step E informers s (s'\<lparr>ts_hooks := (ts_hooks s)[i := (fst (ts_hooks s ! i), pc')]\<rparr>)"
    using "2.prems" by (intro server_step.Hook [of i s "fst (ts_hooks s ! i)" "snd (ts_hooks s ! i)"]) (auto split: if_splits simp: in_set_conv_nth)
  moreover have "(server_step E informers ^^ length ms) (s'\<lparr>ts_hooks := (ts_hooks s)[i := (fst (ts_hooks s ! i), pc')]\<rparr>) t"
    using "2.IH" [OF _ r [symmetric]] "2.prems" r by (auto split: if_splits)
  ultimately show ?case unfolding length_Cons by (rule relpowp_Suc_I2)
next
  case (3 E informers s ms)
  then show ?case unfolding length_Cons by (intro relpowp_Suc_I2) (auto split: if_splits intro: server_step.CoreSynced)
next
  case (4 E informers s j ms)
  then show ?case unfolding length_Cons by (intro relpowp_Suc_I2) (auto split: if_splits intro: server_step.InformerSynced)
next
  case (5 E informers s ms)
  then show ?case unfolding length_Cons by (intro relpowp_Suc_I2) (auto split: if_splits intro: server_step.CrdsSynced)
qed simp

definition ex_tmc_env :: "unit tmc_env" where
  "ex_tmc_env = \<lparr>te_any = (), te_servers = (\<lambda>i k. ex_crd_server), te_crds = [ex_own_crd []], te_rootShard = False, te_tmcAssets = False,
     te_rootRbac = False, te_compute = False\<rparr>"

definition ex_informers :: "string list" where
  "ex_informers = informers_of (fst (Server_Run (\<lambda>_. None)))"

definition ex_hook_moves :: "move list" where
  "ex_hook_moves = [MoveCore, MoveHook 0 0, MoveHook 0 0, MoveHook 1 0] @ map MoveInformer [''synctargets'', ''locations'', ''placements'', ''negotiatedapiresources'',
     ''apiresourceimports''] @ [MoveHook 1 0, MoveHook 2 0, MoveHook 3 0, MoveCrds] @ map (\<lambda>i. MoveHook i 0) [3..<18]"

definition ex_server_finished :: "tmc_state \<Rightarrow> bool" where
  "ex_server_finished s \<longleftrightarrow> \<not> ts_stopped s \<and> ts_core s \<and> (\<forall>h \<in> set (ts_hooks s). is_returned (snd h)) \<and> length (ts_started s) = 14
     \<and> SyncTargetHeartbeatController \<in> set (ts_started s)"

lemma ex_server_bootstrap: "Bootstrap (te_any ex_tmc_env) (te_servers ex_tmc_env) (te_crds ex_tmc_env) \<noteq> None"
  by (simp add: Bootstrap_def ex_tmc_env_def bootstrap_rounds.simps CreateSingle_def locate_crd_def andThen_def okay_def Let_def ex_crd_server_def
      ex_own_crd_def established_wait_def PollImmediateInfinite.simps wiped_def)

lemma ex_registered: "snd (Server_Run (\<lambda>_. None)) = Inr ()"
  by code_simp

lemma ex_server_run: "\<exists>t. perform ex_tmc_env ex_informers (tmc_init (\<lambda>_. None)) ex_hook_moves = Some t \<and> ex_server_finished t"
proof -
  have "case perform ex_tmc_env ex_informers (tmc_init (\<lambda>_. None)) ex_hook_moves of None \<Rightarrow> False | Some t \<Rightarrow> ex_server_finished t"
    by code_simp
  then show ?thesis by (auto split: option.splits)
qed

lemma ex_quiet:
  assumes "ex_server_finished s" "server_step E informers s t"
  shows "ts_stopped t"
  using assms(2)
proof cases
  case (Hook i w pc pc' u)
  then have "is_returned pc" using assms(1) unfolding ex_server_finished_def by (metis nth_mem snd_conv)
  then show ?thesis using Hook(4) by (cases w; cases pc) auto
qed (use assms(1) in \<open>auto simp: ex_server_finished_def\<close>)

theorem controllers_start_after_bootstrap_witness:
  "\<exists>s. (server_step ex_tmc_env ex_informers)\<^sup>*\<^sup>* (tmc_init (\<lambda>_. None)) s \<and> SyncTargetHeartbeatController \<in> set (ts_started s) \<and> ''synctargets'' \<in> set (ts_synced s)"
proof -
  obtain t where t: "perform ex_tmc_env ex_informers (tmc_init (\<lambda>_. None)) ex_hook_moves = Some t" "ex_server_finished t" using ex_server_run by blast
  then have reach: "(server_step ex_tmc_env ex_informers)\<^sup>*\<^sup>* (tmc_init (\<lambda>_. None)) t" "SyncTargetHeartbeatController \<in> set (ts_started t)"
    by (auto simp: ex_server_finished_def intro: relpowp_imp_rtranclp perform_steps)
  from controllers_start_after_bootstrap [OF ex_registered, of ex_tmc_env t SyncTargetHeartbeatController] reach show ?thesis
    unfolding ex_informers_def by auto
qed

theorem all_controllers_start_witness:
  "\<exists>s. (server_step ex_tmc_env ex_informers ^^ length ex_hook_moves) (tmc_init (\<lambda>_. None)) s \<and> mset (ts_started s) = mset all_controllers"
proof -
  obtain t where t: "perform ex_tmc_env ex_informers (tmc_init (\<lambda>_. None)) ex_hook_moves = Some t" "ex_server_finished t" using ex_server_run by blast
  then have run: "(server_step ex_tmc_env ex_informers ^^ length ex_hook_moves) (tmc_init (\<lambda>_. None)) t" using perform_steps by blast
  from all_controllers_start [OF ex_registered, where E = ex_tmc_env and n = "length ex_hook_moves" and s = t] run ex_quiet [OF t(2)] ex_server_bootstrap t(2) show ?thesis
    unfolding ex_informers_def ex_server_finished_def by blast
qed

end
