(* ===== verification/Bind_Commands.thy ===== *)
theory Bind_Commands
  imports Admin_Commands
begin

text \<open>
  The commands that bind a workspace to the APIs of others: \<^verbatim>\<open>bind compute\<close> as a whole (\<^verbatim>\<open>src/pkg/cliplugins/bind/plugin/bind_compute.go\<close>; its parts are in
  \<open>Admin_Commands\<close>), and the plain \<^verbatim>\<open>bind apiexport\<close> (\<^verbatim>\<open>bind.go\<close>). Both send their requests and wait for the outcome.

  Parameters: the configuration, the parsing of paths and selectors, and the answers of the server, one for each attempt of a wait. A wait
  makes a bounded number of attempts, its timeout over its interval.
\<close>

section \<open>Binding to compute, the whole command\<close>

datatype bind_run_call = BindCall bind_call | BindingGet string | PlacementGet string

record bind_options =
  bo_PlacementName :: string
  bo_APIExports :: "string list"
  bo_NamespaceSelectorString :: string
  bo_LocationSelectorsStrings :: "string list"
  bo_namespaceSelector :: "label_selector option"
  bo_locationSelectors :: "label_selector list"
  bo_LocationWorkspace :: string

record bind_parser =
  bp_validated :: "string \<Rightarrow> bool"                                \<comment> \<open>\<open>NewValidatedPath\<close>\<close>
  bp_IsValid :: "string \<Rightarrow> bool"
  bp_selector :: "string \<Rightarrow> go_error + label_selector"            \<comment> \<open>\<open>ParseToLabelSelector\<close>\<close>

fun parse_selectors :: "bind_parser \<Rightarrow> string list \<Rightarrow> go_error + label_selector list" where
  "parse_selectors P [] = Inr []"
| "parse_selectors P (s # ss) = bindE (bp_selector P s) (\<lambda>x. bindE (parse_selectors P ss) (\<lambda>xs. Inr (x # xs)))"

definition BindComputeOptions_Complete :: "bind_lib \<Rightarrow> bind_parser \<Rightarrow> bind_options \<Rightarrow> string list \<Rightarrow> go_error + bind_options" where
  "BindComputeOptions_Complete B P opts args =
     (if length args \<noteq> 1 then Inl (Failure ''a location workspace should be specified'')
      else if \<not> bp_validated P (args ! 0) then Inl (Failure ''location workspace type is incorrect'')
      else
        bindE (bp_selector P (bo_NamespaceSelectorString opts)) (\<lambda>nss.
        bindE (parse_selectors P (bo_LocationSelectorsStrings opts)) (\<lambda>lss.
        bindE (if bo_PlacementName opts = []
               then placement_name B (bo_NamespaceSelectorString opts) (bo_LocationSelectorsStrings opts) (args ! 0)
               else Inr (bo_PlacementName opts)) (\<lambda>name.
        Inr (opts\<lparr>bo_LocationWorkspace := args ! 0, bo_namespaceSelector := Some nss,
               bo_locationSelectors := bo_locationSelectors opts @ lss, bo_PlacementName := name\<rparr>)))))"

text \<open>The placement that the command creates; the server fills in the rest.\<close>

definition desired_placement :: "bind_options \<Rightarrow> placement" where
  "desired_placement opts = object_meta.extend (empty_meta\<lparr>Name := bo_PlacementName opts\<rparr>)
     \<lparr>p_Spec = \<lparr>LocationSelectors = bo_locationSelectors opts,
        LocationResource = \<lparr>gvr_Group = ''workload.kcp.io'', gvr_Version = ''v1alpha1'', gvr_Resource = ''synctargets''\<rparr>,
        NamespaceSelector = bo_namespaceSelector opts, LocationWorkspace = bo_LocationWorkspace opts\<rparr>,
      p_Status = \<lparr>Phase = OtherPhase [], SelectedLocation = None, p_Conditions = []\<rparr>\<rparr>"

record bind_answers =
  bw_client :: "go_error option"
  bw_binding :: "nat \<Rightarrow> string \<Rightarrow> go_error + bound_api"         \<comment> \<open>the read of a binding at an attempt\<close>
  bw_placement :: "nat \<Rightarrow> go_error + placement"
  bw_attempts :: nat

definition of_binding :: "(bind_call, 'a) calls \<Rightarrow> (bind_run_call, 'a) calls" where
  "of_binding m = (map BindCall (fst m), snd m)"

definition read_bindings :: "(string \<Rightarrow> go_error + bound_api) \<Rightarrow> bound_api list \<Rightarrow> (bind_run_call, bound_api list) calls" where
  "read_bindings read bs =
     fold_calls (\<lambda>updated b. andThen (emit (BindingGet (Name b))) (\<lambda>_. andThen (lift_err (read (Name b))) (\<lambda>b'. okay (updated @ [b'])))) [] bs"

fun await_bindings :: "cond_lib \<Rightarrow> bind_lib \<Rightarrow> bind_answers \<Rightarrow> nat \<Rightarrow> nat \<Rightarrow> bound_api list \<Rightarrow> (bind_run_call, bound_api list) calls" where
  "await_bindings cl B W 0 i bs = fail (Failure ''APIBindings not ready'')"
| "await_bindings cl B W (Suc n) i bs =
     andThen (lift_err (bindingsReady cl B bs)) (\<lambda>(ready, message).
     if ready then okay bs
     else andThen (read_bindings (bw_binding W i) bs) (\<lambda>updated. await_bindings cl B W n (Suc i) updated))"

fun await_placement :: "cond_lib \<Rightarrow> bind_lib \<Rightarrow> bind_answers \<Rightarrow> string \<Rightarrow> nat \<Rightarrow> nat \<Rightarrow> (bind_run_call, placement) calls" where
  "await_placement cl B W name 0 i = fail (Failure ''placement not ready'')"
| "await_placement cl B W name (Suc n) i =
     andThen (emit (PlacementGet name)) (\<lambda>_. andThen (lift_err (bw_placement W i)) (\<lambda>p.
     if fst (placementReadyAndScheduled cl B p) then okay p else await_placement cl B W name n (Suc i)))"

definition BindComputeOptions_Run :: "cond_lib \<Rightarrow> bind_lib \<Rightarrow> bind_server \<Rightarrow> bind_answers \<Rightarrow> bind_options \<Rightarrow> (bind_run_call, placement) calls" where
  "BindComputeOptions_Run cl B S W opts =
     andThen (check (bw_client W)) (\<lambda>_.
     andThen (of_binding (applyAPIBinding B S (bo_APIExports opts))) (\<lambda>(bindings, errs).
     if errs \<noteq> [] then fail (hd errs)
     else
       andThen (await_bindings cl B W (bw_attempts W) 0 bindings) (\<lambda>_.
       andThen (of_binding (applyPlacement S (desired_placement opts))) (\<lambda>_.
       await_placement cl B W (bo_PlacementName opts) (bw_attempts W) 0))))"

section \<open>Binding to one export\<close>

definition BindOptions_Validate :: "bind_lib \<Rightarrow> bind_parser \<Rightarrow> string \<Rightarrow> go_error option" where
  "BindOptions_Validate B P APIExportRef =
     (if APIExportRef = [] then Some (Failure ''reference to bind is required as an argument'')
      else if \<not> bp_IsValid P (fst (bl_Split B APIExportRef)) then Some (Failure ''fully qualified reference to workspace where APIExport exists is required'')
      else None)"

fun await_bound :: "bind_answers \<Rightarrow> string \<Rightarrow> nat \<Rightarrow> nat \<Rightarrow> (bind_run_call, unit) calls" where
  "await_bound W name 0 i = fail (Failure ''could not bind'')"
| "await_bound W name (Suc n) i =
     andThen (emit (BindingGet name)) (\<lambda>_. andThen (lift_err (bw_binding W i name)) (\<lambda>b.
     if ba_Phase b = ''Bound'' then okay () else await_bound W name n (Suc i)))"

definition BindOptions_Run :: "bind_lib \<Rightarrow> bind_server \<Rightarrow> bind_answers \<Rightarrow> string \<Rightarrow> string \<Rightarrow> (bind_run_call, unit) calls" where
  "BindOptions_Run B S W APIExportRef APIBindingName =
     (case bl_Split B APIExportRef of (path, apiExportName) \<Rightarrow>
      let apiBindingName = (if APIBindingName = [] then apiExportName else APIBindingName);
          c = BindingCreate apiBindingName path apiExportName in
      andThen (check (bw_client W)) (\<lambda>_.
      andThen (of_binding (send_call (bs_answer S) c)) (\<lambda>_.
      if ba_Phase (bs_returned S c) \<noteq> ''Bound'' then await_bound W apiBindingName (bw_attempts W) 0 else okay ())))"

section \<open>Lemmas\<close>

lemma of_binding_simps [simp]: "fst (of_binding m) = map BindCall (fst m)" "snd (of_binding m) = snd m"
  by (simp_all add: of_binding_def)

lemma bindings_ready: "bindingsReady cl B bs = Inr (True, m) \<Longrightarrow> b \<in> set bs \<Longrightarrow> ba_Phase b = ''Bound''"
  by (induction bs) (auto simp: Let_def split: if_splits option.splits)

text \<open>A server answers a read with the object of that name.\<close>

definition reads_by_name :: "bind_answers \<Rightarrow> bool" where
  "reads_by_name W \<longleftrightarrow> (\<forall>i n b. bw_binding W i n = Inr b \<longrightarrow> Name b = n)"

lemma read_bindings_names:
  assumes "snd (read_bindings read bs) = Inr bs'" "\<And>n b. read n = Inr b \<Longrightarrow> Name b = n"
  shows "map Name bs' = map Name bs"
proof -
  have "map Name bs' = map Name acc @ map Name bs"
    if "snd (fold_calls (\<lambda>updated b. andThen (emit (BindingGet (Name b))) (\<lambda>_. andThen (lift_err (read (Name b))) (\<lambda>b'. okay (updated @ [b'])))) acc bs) = Inr bs'"
    for acc
    using that
  proof (induction bs arbitrary: acc)
    case (Cons b bs)
    then obtain b' where "read (Name b) = Inr b'" by (auto simp: ok_andThen)
    then show ?case using Cons assms(2) by (auto simp: ok_andThen dest!: Cons.IH)
  qed simp
  from this [of "[]"] assms(1) show ?thesis by (simp add: read_bindings_def)
qed

lemma read_bindings_read:
  assumes "snd (read_bindings read bs) = Inr bs'" "b \<in> set bs'"
  shows "\<exists>n. read n = Inr b"
proof -
  have "\<forall>b \<in> set bs' - set acc. \<exists>n. read n = Inr b"
    if "snd (fold_calls (\<lambda>updated b. andThen (emit (BindingGet (Name b))) (\<lambda>_. andThen (lift_err (read (Name b))) (\<lambda>b'. okay (updated @ [b'])))) acc bs) = Inr bs'"
    for acc
    using that
  proof (induction bs arbitrary: acc)
    case (Cons b bs)
    then obtain b' where b': "read (Name b) = Inr b'" by (auto simp: ok_andThen)
    with Cons.prems have "\<forall>c \<in> set bs' - set (acc @ [b']). \<exists>n. read n = Inr c" by (intro Cons.IH) (auto simp: ok_andThen)
    then show ?case using b' by auto
  qed simp
  from this [of "[]"] assms show ?thesis by (simp add: read_bindings_def)
qed

lemma await_bindings_bound:
  assumes "snd (await_bindings cl B W n i bs) = Inr bs'" "reads_by_name W"
  shows "map Name bs' = map Name bs \<and> (\<forall>b \<in> set bs'. ba_Phase b = ''Bound'') \<and> (bs' = bs \<or> (\<forall>b \<in> set bs'. \<exists>i n. bw_binding W i n = Inr b))"
  using assms(1)
proof (induction n arbitrary: i bs)
  case (Suc n)
  then obtain ready m where r: "bindingsReady cl B bs = Inr (ready, m)" by (auto simp: ok_andThen)
  show ?case
  proof (cases ready)
    case False
    with Suc.prems r obtain bs1 where "snd (read_bindings (bw_binding W i) bs) = Inr bs1" "snd (await_bindings cl B W n (Suc i) bs1) = Inr bs'"
      by (auto simp: ok_andThen)
    then show ?thesis using Suc.IH [of "Suc i" bs1] read_bindings_names [of "bw_binding W i" bs bs1] assms(2)
        read_bindings_read [of "bw_binding W i" bs bs1] unfolding reads_by_name_def by metis
  qed (use Suc.prems r bindings_ready in auto)
qed simp

lemma await_placement_ready:
  "snd (await_placement cl B W name n i) = Inr p \<Longrightarrow> fst (placementReadyAndScheduled cl B p) \<and> (\<exists>j. i \<le> j \<and> j < i + n \<and> bw_placement W j = Inr p)"
proof (induction n arbitrary: i)
  case (Suc n)
  then obtain q where q: "bw_placement W i = Inr q" by (auto simp: ok_andThen)
  show ?case
  proof (cases "fst (placementReadyAndScheduled cl B q)")
    case True
    then show ?thesis using Suc.prems q by (auto simp: ok_andThen)
  next
    case False
    then have "snd (await_placement cl B W name n (Suc i)) = Inr p" using Suc.prems q by (auto simp: ok_andThen)
    from Suc.IH [OF this] show ?thesis by (metis Suc_leD add_Suc_right add_Suc_shift)
  qed
qed simp

lemma await_sends:
  "sends (\<lambda>c. \<exists>n. c = BindingGet n) (await_bindings cl B W n i bs)" "sends (\<lambda>c. c = PlacementGet name) (await_placement cl B W name n i)"
  "sends (\<lambda>c. c = BindingGet name) (await_bound W name n i)"
proof -
  have "sends (\<lambda>c. \<exists>n. c = BindingGet n) (read_bindings read bs)" for read bs
    unfolding read_bindings_def by (intro sends_fold_calls sends_andThen) auto
  then show "sends (\<lambda>c. \<exists>n. c = BindingGet n) (await_bindings cl B W n i bs)"
    by (induction n arbitrary: i bs) (auto intro!: sends_andThen split: prod.splits)
  show "sends (\<lambda>c. c = PlacementGet name) (await_placement cl B W name n i)"
    by (induction n arbitrary: i) (auto intro!: sends_andThen)
  show "sends (\<lambda>c. c = BindingGet name) (await_bound W name n i)"
    by (induction n arbitrary: i) (auto intro!: sends_andThen)
qed

text \<open>The exports that the command has to bind: asked for, and named by no binding of the workspace.\<close>

definition export_to_bind :: "bind_lib \<Rightarrow> bind_server \<Rightarrow> string list \<Rightarrow> string \<Rightarrow> string \<Rightarrow> bool" where
  "export_to_bind B S desired path name \<longleftrightarrow> (\<exists>items lc lp existing e. bs_bindings S = Inr items
     \<and> snd (fold_calls (scan_binding B S) ([], [], []) items) = Inr (lc, lp, existing)
     \<and> e \<in> set (desired_exports B lc desired) \<and> e \<notin> set existing
     \<and> name = snd (bl_Split B e) \<and> path = (if fst (bl_Split B e) = lc then [] else fst (bl_Split B e)))"

lemma create_binding_ok:
  assumes "snd (create_binding B S lc acc e) = Inr (bs, [])"
  obtains x where "snd acc = []" "apiBindingName B (if fst (bl_Split B e) = lc then [] else fst (bl_Split B e)) (snd (bl_Split B e)) = Inr x"
    "bs = fst acc @ [bs_returned S (BindingCreate x (if fst (bl_Split B e) = lc then [] else fst (bl_Split B e)) (snd (bl_Split B e)))]"
  using assms by (cases "bl_Split B e") (auto simp: create_binding_def Let_def ok_andThen split: if_splits)

text \<open>The bindings that \<open>applyAPIBinding\<close> returns without an error: one for each of them.\<close>

lemma creates_all:
  assumes "snd (fold_calls (create_binding B S lc) acc es) = Inr (bs, [])"
  shows "snd acc = [] \<and> set (fst acc) \<subseteq> set bs
    \<and> (\<forall>e \<in> set es. \<exists>x. apiBindingName B (if fst (bl_Split B e) = lc then [] else fst (bl_Split B e)) (snd (bl_Split B e)) = Inr x
      \<and> bs_returned S (BindingCreate x (if fst (bl_Split B e) = lc then [] else fst (bl_Split B e)) (snd (bl_Split B e))) \<in> set bs)"
  using assms
proof (induction es arbitrary: acc)
  case (Cons e es)
  then obtain bs1 errs where a: "snd (create_binding B S lc acc e) = Inr (bs1, errs)" "snd (fold_calls (create_binding B S lc) (bs1, errs) es) = Inr (bs, [])"
    by (auto simp: ok_andThen)
  note ih = Cons.IH [OF a(2)]
  then have "errs = []" by simp
  with a(1) obtain x where "snd acc = []" "apiBindingName B (if fst (bl_Split B e) = lc then [] else fst (bl_Split B e)) (snd (bl_Split B e)) = Inr x"
    "bs1 = fst acc @ [bs_returned S (BindingCreate x (if fst (bl_Split B e) = lc then [] else fst (bl_Split B e)) (snd (bl_Split B e)))]"
    using create_binding_ok by metis
  then show ?case using ih by auto
qed simp

lemma applied_bindings:
  assumes "snd (applyAPIBinding B S desired) = Inr (bs, [])" "bind_laws B" "export_to_bind B S desired path name"
  shows "\<exists>x. apiBindingName B path name = Inr x \<and> bs_returned S (BindingCreate x path name) \<in> set bs"
proof -
  obtain items lc lp existing e where e: "bs_bindings S = Inr items" "snd (fold_calls (scan_binding B S) ([], [], []) items) = Inr (lc, lp, existing)"
    "e \<in> set (desired_exports B lc desired)" "e \<notin> set existing"
    "name = snd (bl_Split B e)" "path = (if fst (bl_Split B e) = lc then [] else fst (bl_Split B e))"
    using assms(3) unfolding export_to_bind_def by blast
  then have "snd (fold_calls (create_binding B S lc) ([], []) (bl_diff_order B (filter (\<lambda>e. e \<notin> set existing) (desired_exports B lc desired)))) = Inr (bs, [])"
    using assms(1) by (auto simp: applyAPIBinding_def ok_andThen)
  from creates_all [OF this] show ?thesis using e assms(2) by (auto simp: bind_laws_def)
qed

lemma scan_placement: "PlacementCreate q \<notin> set (fst (fold_calls (scan_binding B S) acc bs))"
proof -
  have "sends (\<lambda>c. c \<noteq> PlacementCreate q) (fold_calls (scan_binding B S) acc bs)"
    by (intro sends_fold_calls) (auto simp: scan_binding_def Let_def split: prod.splits option.splits intro!: sends_andThen)
  then show ?thesis using sendsD by fastforce
qed

lemma create_placement: "PlacementCreate q \<notin> set (fst (fold_calls (create_binding B S lc) acc es))"
  using creates_calls [of "PlacementCreate q" B S lc acc es] by (auto simp: binding_of_def)

section \<open>Properties\<close>

text \<open>
  \<^verbatim>\<open>bind compute\<close> creates the placement last. When it sends the creation, every export that it has to bind has a binding, under the name that the creation
  has returned, that was seen in the phase \<open>Bound\<close>; and the placement has the selectors and the workspace of the options. If the
  command then succeeds, it has read a placement that is scheduled and ready.
\<close>

theorem placement_after_bindings:
  assumes reads: "reads_by_name W"
    and laws: "bind_laws B"
    and sent: "BindCall (PlacementCreate q) \<in> set (fst (BindComputeOptions_Run cl B S W opts))"
  shows "q = desired_placement opts
    \<and> (\<forall>path name. export_to_bind B S (bo_APIExports opts) path name
         \<longrightarrow> (\<exists>x b. apiBindingName B path name = Inr x \<and> Name b = Name (bs_returned S (BindingCreate x path name)) \<and> ba_Phase b = ''Bound''
              \<and> (b = bs_returned S (BindingCreate x path name) \<or> (\<exists>i n. bw_binding W i n = Inr b))))
    \<and> (\<forall>p. snd (BindComputeOptions_Run cl B S W opts) = Inr p \<longrightarrow> (\<exists>i. bw_placement W i = Inr p)
         \<and> IsTrue cl (p_Conditions (p_Status p)) PlacementScheduled \<and> IsTrue cl (p_Conditions (p_Status p)) PlacementReady)"
proof (intro conjI allI impI)
  have no: "PlacementCreate q \<notin> set (fst (applyAPIBinding B S (bo_APIExports opts)))"
    by (auto simp: applyAPIBinding_def in_andThen scan_placement create_placement split: prod.splits)
  have "BindCall (PlacementCreate q) \<notin> set (fst (await_bindings cl B W n 0 bs))" "BindCall (PlacementCreate q) \<notin> set (fst (await_placement cl B W nm n 0))" for n bs nm
    using sendsD [OF await_sends(1), of "BindCall (PlacementCreate q)"] sendsD [OF await_sends(2), of "BindCall (PlacementCreate q)"] by auto
  note others = this
  obtain bs errs where a: "snd (applyAPIBinding B S (bo_APIExports opts)) = Inr (bs, errs)"
    using sent no by (cases "snd (applyAPIBinding B S (bo_APIExports opts))") (auto simp: BindComputeOptions_Run_def fst_andThen split: sum.splits)
  then have rest: "BindCall (PlacementCreate q) \<in> set (fst (if errs \<noteq> [] then fail (hd errs) else
      andThen (await_bindings cl B W (bw_attempts W) 0 bs) (\<lambda>_. andThen (of_binding (applyPlacement S (desired_placement opts))) (\<lambda>_.
      await_placement cl B W (bo_PlacementName opts) (bw_attempts W) 0))))"
    using sent no by (auto simp: BindComputeOptions_Run_def fst_andThen split: sum.splits split del: if_split)
  have errs: "errs = []" using rest by (cases "errs = []") simp_all
  obtain bs' where b: "snd (applyAPIBinding B S (bo_APIExports opts)) = Inr (bs, [])" "snd (await_bindings cl B W (bw_attempts W) 0 bs) = Inr bs'"
    and q: "PlacementCreate q \<in> set (fst (applyPlacement S (desired_placement opts)))"
    using rest others a unfolding errs by (auto simp: in_andThen)
  show "q = desired_placement opts" using q by (auto simp: applyPlacement_def in_andThen split: if_splits)
  note seen = await_bindings_bound [OF b(2) reads]
  fix path name
  assume "export_to_bind B S (bo_APIExports opts) path name"
  from applied_bindings [OF b(1) laws this] obtain x where n: "apiBindingName B path name = Inr x" "bs_returned S (BindingCreate x path name) \<in> set bs" by blast
  from n(2) obtain k where x: "k < length bs" "bs ! k = bs_returned S (BindingCreate x path name)" unfolding in_set_conv_nth by blast
  note names = seen [THEN conjunct1]
  have len: "length bs' = length bs" using arg_cong [OF names, of length] by simp
  then have "Name (bs' ! k) = Name (bs ! k)" using arg_cong [OF names, of "\<lambda>l. l ! k"] x(1) by simp
  moreover have "ba_Phase (bs' ! k) = ''Bound''" "bs' ! k = bs ! k \<or> (\<exists>i n. bw_binding W i n = Inr (bs' ! k))" using seen x(1) len by auto
  ultimately show "\<exists>x b. apiBindingName B path name = Inr x \<and> Name b = Name (bs_returned S (BindingCreate x path name)) \<and> ba_Phase b = ''Bound''
      \<and> (b = bs_returned S (BindingCreate x path name) \<or> (\<exists>i n. bw_binding W i n = Inr b))"
    using n(1) x(2) by (intro exI [of _ x] exI [of _ "bs' ! k"]) simp
next
  fix p assume "snd (BindComputeOptions_Run cl B S W opts) = Inr p"
  then have "snd (await_placement cl B W (bo_PlacementName opts) (bw_attempts W) 0) = Inr p"
    by (auto simp: BindComputeOptions_Run_def ok_andThen split: if_splits)
  from await_placement_ready [OF this]
  show "\<exists>i. bw_placement W i = Inr p" "IsTrue cl (p_Conditions (p_Status p)) PlacementScheduled" "IsTrue cl (p_Conditions (p_Status p)) PlacementReady"
    by (auto simp: placementReadyAndScheduled_def Let_def split: if_splits)
qed

text \<open>The plain command: when it succeeds, the binding was created under the chosen name and is in the phase \<open>Bound\<close>.\<close>

theorem export_bound:
  assumes "snd (BindOptions_Run B S W ref name) = Inr ()"
  shows "\<exists>c. fst (BindOptions_Run B S W ref name) \<noteq> [] \<and> hd (fst (BindOptions_Run B S W ref name)) = BindCall c
    \<and> c = BindingCreate (if name = [] then snd (bl_Split B ref) else name) (fst (bl_Split B ref)) (snd (bl_Split B ref))
    \<and> bs_answer S c = None
    \<and> (ba_Phase (bs_returned S c) = ''Bound'' \<or> (\<exists>i < bw_attempts W. \<exists>b. bw_binding W i (if name = [] then snd (bl_Split B ref) else name) = Inr b \<and> ba_Phase b = ''Bound''))"
proof -
  have wait: "snd (await_bound W nm n i) = Inr () \<Longrightarrow> \<exists>j < i + n. \<exists>b. bw_binding W j nm = Inr b \<and> ba_Phase b = ''Bound''" for nm n i
  proof (induction n arbitrary: i)
    case (Suc n)
    then obtain b where b: "bw_binding W i nm = Inr b" by (auto simp: ok_andThen)
    show ?case
    proof (cases "ba_Phase b = ''Bound''")
      case False
      then have "snd (await_bound W nm n (Suc i)) = Inr ()" using Suc.prems b by (auto simp: ok_andThen)
      then show ?thesis using Suc.IH [of "Suc i"] by simp
    qed (use b in \<open>auto intro: exI [of _ i]\<close>)
  qed simp
  let ?n = "if name = [] then snd (bl_Split B ref) else name"
  let ?c = "BindingCreate ?n (fst (bl_Split B ref)) (snd (bl_Split B ref))"
  have run: "BindOptions_Run B S W ref name = andThen (check (bw_client W)) (\<lambda>_. andThen (of_binding (send_call (bs_answer S) ?c)) (\<lambda>_.
      if ba_Phase (bs_returned S ?c) \<noteq> ''Bound'' then await_bound W ?n (bw_attempts W) 0 else okay ()))"
    by (simp add: BindOptions_Run_def Let_def case_prod_unfold)
  have ok: "snd (check (bw_client W)) = Inr ()" "bs_answer S ?c = None"
    "ba_Phase (bs_returned S ?c) \<noteq> ''Bound'' \<Longrightarrow> snd (await_bound W ?n (bw_attempts W) 0) = Inr ()"
    using assms unfolding run by (simp_all only: ok_andThen of_binding_simps send_ok) auto
  have "fst (BindOptions_Run B S W ref name) \<noteq> [] \<and> hd (fst (BindOptions_Run B S W ref name)) = BindCall ?c"
  proof -
    have "bw_client W = None" using ok(1) by simp
    then show ?thesis unfolding run using ok(2) by (simp add: fst_andThen check_def)
  qed
  moreover have "ba_Phase (bs_returned S ?c) = ''Bound'' \<or> (\<exists>i < bw_attempts W. \<exists>b. bw_binding W i ?n = Inr b \<and> ba_Phase b = ''Bound'')"
    using ok(3) wait [of ?n "bw_attempts W" 0] by (metis add_0)
  ultimately show ?thesis using ok(2) by blast
qed

section \<open>Examples\<close>

definition ex_bound_binding :: "string \<Rightarrow> bound_api" where
  "ex_bound_binding n = ex_binding n (Some (''org'', '':apps''))"

definition ex_waiting_binding :: "string \<Rightarrow> bound_api" where
  "ex_waiting_binding n = (ex_bound_binding n)\<lparr>ba_Phase := ''Binding''\<rparr>"

definition ex_compute_options :: bind_options where
  "ex_compute_options = \<lparr>bo_PlacementName = ''pl'', bo_APIExports = [''org:apps''], bo_NamespaceSelectorString = [], bo_LocationSelectorsStrings = [],
     bo_namespaceSelector = Some any_label, bo_locationSelectors = [any_label], bo_LocationWorkspace = ''root''\<rparr>"

definition ex_ready_placement :: placement where
  "ex_ready_placement = (ex_placement PlacementBound None None)\<lparr>p_Status := \<lparr>Phase = PlacementBound, SelectedLocation = None,
     p_Conditions = map (\<lambda>t. mk_condition t ''True'' [] [] []) [PlacementScheduled, PlacementReady]\<rparr>\<rparr>"

definition ex_compute_server :: bind_server where
  "ex_compute_server = (ex_bind_server [] None)\<lparr>bs_returned := \<lambda>c. case c of BindingCreate x p n \<Rightarrow> ex_waiting_binding x | _ \<Rightarrow> ex_no_binding\<rparr>"

definition ex_bind_answers :: bind_answers where
  "ex_bind_answers = \<lparr>bw_client = None, bw_binding = (\<lambda>i n. Inr (if i = 0 then ex_waiting_binding n else ex_bound_binding n)),
     bw_placement = (\<lambda>_. Inr ex_ready_placement), bw_attempts = 3\<rparr>"

lemma ex_bind_names: "reads_by_name ex_bind_answers"
  by (auto simp: reads_by_name_def ex_bind_answers_def ex_waiting_binding_def ex_bound_binding_def ex_binding_def ex_object_defs)

lemma ex_compute_run:
  "BindComputeOptions_Run basic_conditions ex_bind ex_compute_server ex_bind_answers ex_compute_options =
     ([BindCall BindingsList, BindCall (BindingCreate '':apps-01234567'' ''org'' '':apps''), BindingGet '':apps-01234567'', BindingGet '':apps-01234567'',
       BindCall (PlacementCreate (desired_placement ex_compute_options)), PlacementGet ''pl''], Inr ex_ready_placement)"
proof -
  have a: "applyAPIBinding ex_bind ex_compute_server [''org:apps''] = ([BindingsList, BindingCreate '':apps-01234567'' ''org'' '':apps''], Inr ([ex_waiting_binding '':apps-01234567''], []))"
    by (simp add: ex_compute_server_def ex_bind_eval)
  have b: "\<exists>m. bindingsReady basic_conditions ex_bind [ex_waiting_binding n] = Inr (False, m)" "bindingsReady basic_conditions ex_bind [ex_bound_binding n] = Inr (True, [])" for n
    by (simp_all add: ex_waiting_binding_def ex_bound_binding_def ex_binding_def Let_def object_meta.defs)
  obtain m where m: "bindingsReady basic_conditions ex_bind [ex_waiting_binding n] = Inr (False, m n)" for n using b(1) by metis
  have n: "Name (ex_waiting_binding n) = n" "Name (ex_bound_binding n) = n" for n by (simp_all add: ex_waiting_binding_def ex_bound_binding_def ex_binding_def ex_object_defs)
  have r: "fst (placementReadyAndScheduled basic_conditions ex_bind ex_ready_placement)"
    by (simp add: placementReadyAndScheduled_def Let_def ex_ready_placement_def basic_conditions_def has_status_def mk_condition_def
        PlacementScheduled_def PlacementReady_def)
  have p: "bs_answer ex_compute_server c = None" "bw_client ex_bind_answers = None" "bw_binding ex_bind_answers i n = Inr (if i = 0 then ex_waiting_binding n else ex_bound_binding n)"
    "bw_placement ex_bind_answers i = Inr ex_ready_placement" "bw_attempts ex_bind_answers = Suc (Suc (Suc 0))" "bo_APIExports ex_compute_options = [''org:apps'']"
    "bo_PlacementName ex_compute_options = ''pl''" for c i n
    by (simp_all add: ex_compute_server_def ex_bind_server_def ex_bind_answers_def ex_compute_options_def)
  have "applyPlacement ex_compute_server q = ([PlacementCreate q], Inr ())" for q
    by (simp add: applyPlacement_def p andThen_def attempt_def okay_def)
  then show ?thesis
    by (simp add: BindComputeOptions_Run_def a m b(2) n r p read_bindings_def of_binding_def andThen_def okay_def emit_def lift_err_def check_def
        del: bindingsReady.simps)
qed

theorem placement_after_bindings_witness:
  "(\<exists>x. \<exists>b :: bound_api. apiBindingName ex_bind ''org'' '':apps'' = Inr x \<and> Name b = x \<and> ba_Phase b = ''Bound'')
   \<and> IsTrue basic_conditions (p_Conditions (p_Status ex_ready_placement)) PlacementReady"
proof -
  have missing: "export_to_bind ex_bind ex_compute_server (bo_APIExports ex_compute_options) ''org'' '':apps''"
    unfolding export_to_bind_def
    by (rule exI [of _ "[]"], rule exI [of _ "[]"], rule exI [of _ "[]"], rule exI [of _ "[]"], rule exI [of _ "''org:apps''"])
      (simp add: ex_compute_server_def ex_compute_options_def ex_bind_eval)
  have sent: "BindCall (PlacementCreate (desired_placement ex_compute_options))
      \<in> set (fst (BindComputeOptions_Run basic_conditions ex_bind ex_compute_server ex_bind_answers ex_compute_options))"
    by (simp add: ex_compute_run)
  note all = placement_after_bindings [OF ex_bind_names ex_bind_laws sent]
  obtain x and b :: bound_api where "apiBindingName ex_bind ''org'' '':apps'' = Inr x" "Name b = Name (bs_returned ex_compute_server (BindingCreate x ''org'' '':apps''))" "ba_Phase b = ''Bound''"
    using all [THEN conjunct2, THEN conjunct1, rule_format, OF missing] by blast
  moreover have "IsTrue basic_conditions (p_Conditions (p_Status ex_ready_placement)) PlacementReady"
    using all [THEN conjunct2, THEN conjunct2] by (simp add: ex_compute_run)
  ultimately show ?thesis by (auto simp: ex_compute_server_def ex_waiting_binding_def ex_bound_binding_def ex_binding_def object_meta.defs meta_named_def)
qed

theorem export_bound_witness:
  "bs_answer ex_compute_server (BindingCreate '':apps'' ''org'' '':apps'') = None
   \<and> fst (BindOptions_Run ex_bind ex_compute_server ex_bind_answers ''org:apps'' []) = [BindCall (BindingCreate '':apps'' ''org'' '':apps''), BindingGet '':apps'', BindingGet '':apps'']"
proof -
  have run: "BindOptions_Run ex_bind ex_compute_server ex_bind_answers ''org:apps'' []
      = ([BindCall (BindingCreate '':apps'' ''org'' '':apps''), BindingGet '':apps'', BindingGet '':apps''], Inr ())"
    by code_simp
  with export_bound [of ex_bind ex_compute_server ex_bind_answers "''org:apps''" "[]"] show ?thesis by auto
qed

end
