(* ===== verification/Spec2Isabelle.thy ===== *)
theory Spec2Isabelle
  imports Workload_Placement Resource_Events SyncTarget_Exports Upsyncer Coordination Virtual_Workspace Mutators Endpoints Syncer_Target Negotiated_CRDs Exported_Schemas Default_Location API_Importer DNS_Plugin Admin_Commands Sync_Registration Tunnel_Access Generated_Names Syncer_Start Server_Start Bind_Commands
begin

text \<open>
  TMC, transparent multi cluster. Users create namespaces, placements and workloads in kcp workspaces; TMC schedules them onto the
  physical clusters of compute workspaces and keeps the two sides equal. This library models the controllers that decide, the syncer that
  runs next to every physical cluster, what kcp serves to it, and the commands that set all of it up. It is translated from the Go code
  under \<^verbatim>\<open>src/\<close>; function names are those of the code.

  \<^bold>\<open>How the parts interact.\<close> A \<^verbatim>\<open>SyncTarget\<close> stands for a physical cluster. Its syncer sends heartbeats and offers its resource types as
  \<^verbatim>\<open>APIResourceImport\<close>s; these are negotiated into one schema per type, published as a CRD and exported by an \<^verbatim>\<open>APIExport\<close>. A \<^verbatim>\<open>Location\<close>
  selects sync targets, a \<^verbatim>\<open>Placement\<close> selects a location and, with the user's APIs, one sync target. The namespace controller labels
  a namespace with a state per sync target (pending, \<^verbatim>\<open>Sync\<close>, then removing with a grace period), the resource controller copies the states to the resources. A
  virtual workspace shows a syncer the resources that are labelled for it; the syncer applies them downstream, reports their status, syncs some
  types upwards, and deletes a downstream namespace when it has been empty for a while. A tunnel lets kcp reach pods through the syncer.

  \<^bold>\<open>Shared theories.\<close>
  \<^item> \<open>TMC_Prelude\<close>: errors and panics, maps with a nil value, instants, the locales below. \<open>Merge_Patch\<close>: JSON merge patches. \<open>API_Calls\<close>: the
    writer of API calls, with the error of each call as an input. \<open>Work_Queue\<close>: the worker loop, once for all controllers. \<open>Polling\<close>: the endless
    poll. \<open>Committer\<close>: \<^verbatim>\<open>pkg/reconciler/committer\<close>.
  \<^item> \<open>API_Types\<close>, \<open>API_Resource\<close>, \<open>Sync_Target_Key\<close>: \<^verbatim>\<open>apis\<close>, the objects as records with the fields that the modelled code reads, labels,
    annotations, conditions, the base 62 key of a sync target. \<open>Model_Instances\<close>: concrete functions for the parameters.

  \<^bold>\<open>Scheduling\<close> (\<^verbatim>\<open>pkg/reconciler/scheduling\<close>, \<^verbatim>\<open>pkg/reconciler/workload\<close>).
  \<^item> \<open>Location_Status\<close>, \<open>Scheduling_Placement\<close>, \<open>Workload_Placement\<close>: the instances of a location and its counts, the choice of a location and the
    phases of a placement (\<open>placement_step\<close>), the choice of a sync target.
  \<^item> \<open>Namespace_Scheduler\<close>: binding, scheduling and status of a namespace. \<open>Resource_Scheduler\<close>: \<open>computePlacement\<close> and \<open>reconcileResource\<close> with
    its patches. Both are refined by one state machine per sync target.
  \<^item> \<open>Controller_Events\<close>, \<open>Resource_Events\<close>, \<open>Default_Location\<close>: which keys an event queues; the default location of a workspace.
  \<^item> \<open>Heartbeat\<close>, \<open>SyncTarget_Controller\<close>, \<open>SyncTarget_Exports\<close>: the condition of the heartbeat with its default threshold, the URLs of the virtual workspaces, the list of
    synced resources with their compatibility.

  \<^bold>\<open>APIs.\<close> \<open>Negotiation\<close> is \<^verbatim>\<open>pkg/reconciler/apiresource\<close>, every branch of \<^verbatim>\<open>process\<close>; \<open>Negotiated_Schemas\<close> has the invariant of its loop,
  \<open>Negotiated_CRDs\<close> what it does to CRDs. \<open>API_Exports\<close> is \<^verbatim>\<open>workload/apiexport\<close>, \<open>Exported_Schemas\<close> what its run leaves behind. \<open>CRD_Bootstrap\<close>
  creates the project's own definitions.

  \<^bold>\<open>The syncer\<close> (\<^verbatim>\<open>pkg/syncer\<close>).
  \<^item> \<open>Syncer_Shared\<close>: locators, names and finalizers. \<open>Spec_Syncer\<close>, \<open>Spec_Events\<close>: upstream to downstream. \<open>Mutators\<close>: the rewriting of pod templates and
    secrets. \<open>DNS_Processor\<close>: the name server of a workspace. \<open>Status_Syncer\<close>: downstream to upstream, and which of its writes the spec syncer queues. \<open>Upsyncer\<close>, \<open>Endpoints\<close>: upsyncing.
    \<open>Downstream_Cleaner\<close>: delayed deletion of namespaces, any number of workers.
  \<^item> \<open>Syncer_Target\<close>: the watched types, the controllers of every shard with the goroutines that start them (\<open>shard_step\<close>), the controller manager.
    \<open>API_Importer\<close>, \<open>Syncer_Start\<close>: the imports, the start of the process with its blocking waits, the heartbeats at arbitrary times.

  \<^bold>\<open>What kcp serves\<close> (\<^verbatim>\<open>tmc\<close>, \<^verbatim>\<open>pkg/tunneler\<close>, \<^verbatim>\<open>pkg/dns\<close>). \<open>Syncer_View\<close>: the transformation of an object for a syncer and back.
  \<open>Virtual_Workspace\<close>: paths, authorization, storage, the served APIs. \<open>Coordination\<close>: replicas of a deployment spread over targets, and the summary of
  their status. \<open>Tunnel\<close>: dialers, the handlers (\<open>tunnel_step\<close> with control and data connections, \<open>dialer_step\<close>, \<open>listener_step\<close>), the proxy of pod subresources; \<open>Tunnel_Access\<close> has its
  properties. \<open>DNS_Plugin\<close>: the rewriting of names. \<open>Server_Start\<close>: which controllers the server runs, and the hooks that start them.

  \<^bold>\<open>Commands\<close> (\<^verbatim>\<open>pkg/cliplugins\<close>). \<open>Sync_Command\<close> and \<open>Sync_Registration\<close>: the registration of a physical cluster, down to the rules of its roles. \<open>Admin_Commands\<close>: cordon, uncordon,
  drain, the parts of bind compute; \<open>Bind_Commands\<close>: the bind commands with their waits. \<open>Generated_Names\<close>: the lengths of all generated names.

  \<^bold>\<open>State and effects.\<close> An object is a record; a handler takes the objects and answers it reads (a lister or a server is a function) and returns the new
  object, or the list of requests that it sends with its result. Errors are \<open>go_error\<close> in a sum, a panic is the value \<open>Panic\<close>. What runs concurrently is a
  step relation, and its theorems are about all reachable states.

  \<^bold>\<open>The lemmas\<close> give, per theory: the behaviour of each operation on every branch; its frame (what it never touches); the invariant where there
  is one; what is queued; and the theorem on the component. Findings about the code are lemmas too, each on a concrete input. In this theory
  components are composed: the role that the sync command applies, the authorizer, the path and the label of the virtual workspace confine a syncer to its own target.

  \<^bold>\<open>Interfaces.\<close> \<open>go_store\<close> (lookup after assignment; maps, conditions), \<open>key_codec\<close> (keys with a prefix; labels, annotations,
  finalizers), \<open>stable_filter\<close> (the filters of sync targets and placements), \<open>one_sided_reconciler\<close> (a reconciler that changes metadata and spec or status, never
  both, so that the committer does not panic; all controllers with a committer), \<open>worker\<close> (three kinds of work queues), \<open>cleaner\<close>.

  \<^bold>\<open>Parameters\<close> are code outside the repository: hashes, JSON, time formats, label selectors, condition helpers, the comparison of schemas, listers and
  servers, and the order in which Go iterates over a map. What is used of them is a named predicate (\<open>hash_laws\<close>, \<open>json_laws\<close>, \<open>rfc3339_laws\<close>, \<open>cond_laws\<close>,
  \<open>sort_laws\<close>, \<open>schema_laws\<close>, \<open>view_laws\<close> and others), and every witness has concrete functions for them.

  \<^bold>\<open>Loops and bounds.\<close> Loops over lists are structural. The polls without a bound (\<open>PollImmediateInfinite\<close>, \<open>WaitForCacheSync\<close>, \<open>bootstrap_rounds\<close>) are partial functions, whose
  value is \<open>None\<close> if they do not return, and theorems say when they do; so is what waits for them (\<open>StartSyncer\<close>, the hooks of the server are steps). Bounded loops have the bound of the code: the attempts of the polls of the sync
  command (its timeout over its interval), four attempts of \<open>retryRetryableErrors\<close>, five of \<open>NewListener\<close>. Step relations are unbounded. Integers that can overflow
  are words (replicas); names are lists of characters.

  \<^bold>\<open>Not modelled.\<close> Generated code (\<^verbatim>\<open>client\<close>, \<^verbatim>\<open>openapi\<close>, deep copies, list types); flags, text output and the YAML template of the sync command
  apart from the rules of its two roles; the \<^verbatim>\<open>main\<close> functions, options apart from those of the heartbeat controller, and feature gates; the construction of clients; REST storage and the built-in schemas of the virtual workspaces, which
  delegate to the API server; HTTP/2 and the bytes in the tunnel; the application of embedded YAML, a helper of kcp; CoreDNS apart from the
  rewriting of names; tests. Go's memory model is not modelled: a step of a process is atomic where the code holds a lock or uses a channel, and the
  races that are known to matter are separate steps.
\<close>

section \<open>The syncer and its virtual workspaces\<close>

text \<open>The filters of the syncer's informers are those of the two workspaces, so every type with an informer is one that the workspace may serve.\<close>

lemma informer_types_served:
  "syncer_types g = syncer_allowed (gvr_Group g, gvr_Resource g)" "upsyncer_types g = upsyncer_allowed (gvr_Group g, gvr_Resource g)"
  by (simp_all add: syncer_types_def syncer_allowed_def upsyncer_types_def upsyncer_allowed_def)

text \<open>The operations behind the requests of the syncer, and those that the storage of the workspaces has.\<close>

fun spec_verb :: "spec_call \<Rightarrow> (string \<times> storage_verb) option" where
  "spec_verb (UpUpdate _ _) = Some ([], UpdateVerb)" | "spec_verb _ = None"

fun status_verb :: "status_call \<Rightarrow> string \<times> storage_verb" where
  "status_verb (StUpdate _ _) = ([], UpdateVerb)" | "status_verb (StUpdateStatus _ _) = (''status'', UpdateVerb)"

fun upsync_verb :: "upsync_call \<Rightarrow> string \<times> storage_verb" where
  "upsync_verb (UsCreate _ _) = ([], CreateVerb)" | "upsync_verb (UsUpdate _ _) = ([], UpdateVerb)" | "upsync_verb (UsUpdateStatus _ _) = (''status'', UpdateVerb)"
| "upsync_verb (UsGet _ _ _) = ([], GetVerb)" | "upsync_verb (UsDelete _ _ _) = ([], DeleteVerb)"

lemma requests_served:
  "spec_verb c = Some (sub, v) \<Longrightarrow> v \<in> set (syncer_storage True sub)"
  "status_verb d = (sub, v) \<Longrightarrow> v \<in> set (syncer_storage True sub)"
  "upsync_verb e = (sub, v) \<Longrightarrow> v \<in> set (upsyncer_storage True sub)"
  subgoal by (cases c) (auto simp: syncer_storage_def)
  subgoal by (cases d) (auto simp: syncer_storage_def)
  subgoal by (cases e) (auto simp: upsyncer_storage_def)
  done

text \<open>Which requests a rule of a role allows: the documented matching of the API server, where an empty list of names stands for all.\<close>

definition rule_allows :: "cluster_rule \<Rightarrow> authz_attributes \<Rightarrow> bool" where
  "rule_allows rule a \<longleftrightarrow> (az_Verb a \<in> set (pr_Verbs rule) \<or> ''*'' \<in> set (pr_Verbs rule))
     \<and> (az_APIGroup a \<in> set (pr_APIGroups rule) \<or> ''*'' \<in> set (pr_APIGroups rule))
     \<and> (az_Resource a \<in> set (pr_Resources rule) \<or> ''*'' \<in> set (pr_Resources rule))
     \<and> (cr_ResourceNames rule = [] \<or> az_Name a \<in> set (cr_ResourceNames rule))"

lemma sync_rule_own_target:
  "(\<exists>rule \<in> set (syncer_rules name). rule_allows rule (sync_attributes user other)) \<longleftrightarrow> other = name"
  by (auto simp: syncer_rules_def workload_rule_def workload_GroupName_def rule_allows_def sync_attributes_def)

text \<open>
  C5: A syncer reaches only its own sync target. Let the authorizer allow a user what the role allows that the sync command has applied for the target
  \<open>name\<close>, in the workspace of that target only. Then every request that a virtual workspace accepts and authorizes for this user is one for this target: the
  request carries its key, and so sees only objects with its state label, and its path names the UID that the target has.
\<close>

theorem syncer_reaches_own_target_only:
  assumes role: "c \<in> set (fst (enableSyncerForWorkspace L S opts name namespace labels))" "call_rules c = Some rules"
    and rbac: "\<And>ws authz a. newAuthorizer ws = Inr authz \<Longrightarrow> authz a = Inr DecisionAllow \<Longrightarrow> az_User a = user
      \<Longrightarrow> ws = home \<and> (\<exists>rule \<in> set rules. rule_allows rule a)"
    and keys: "\<And>p c n. pl_Name (tp_lib t) p = Some c \<Longrightarrow> splitKey (pl_ToClusterAwareKey (tp_lib t) c n) = Inr (c, n)"
    and req: "resolveRootPath t urlPath = Some (prefix, rc)" "authorize splitKey newAuthorizer (rq_apiDomainKey rc) user = Inr DecisionAllow"
  shows "storage_requirement (pl_hash (tp_lib t)) home name state = (ClusterResourceStateLabelPrefix @ rq_syncTargetKey rc, state)
    \<and> (\<exists>st. tp_getSyncTarget t home name = Inr st
        \<and> UID st = splitN (CHR ''/'') 4 (trim_prefix urlPath (tp_rootPathPrefix t @ tp_virtualWorkspaceName t @ ''/'')) ! 2)"
proof -
  obtain p cluster n st where r: "pl_Name (tp_lib t) p = Some cluster" "tp_getSyncTarget t cluster n = Inr st"
    "rq_syncTargetKey rc = ToSyncTargetKey (pl_hash (tp_lib t)) cluster n" "rq_apiDomainKey rc = pl_ToClusterAwareKey (tp_lib t) cluster n"
    "UID st = splitN (CHR ''/'') 4 (trim_prefix urlPath (tp_rootPathPrefix t @ tp_virtualWorkspaceName t @ ''/'')) ! 2"
    using resolve_accepted [OF req(1)] by blast
  obtain authz where a: "newAuthorizer cluster = Inr authz" "authz (sync_attributes user n) = Inr DecisionAllow"
    using req(2) keys [OF r(1), of n] r(4) by (cases "newAuthorizer cluster") (auto simp: authorize_def)
  have "cluster = home \<and> (\<exists>rule \<in> set rules. rule_allows rule (sync_attributes user n))"
    using rbac [OF a] by (simp add: sync_attributes_def)
  moreover have "rules = syncer_rules name" using sendsD [OF enable_rules role(1)] role(2) by auto
  ultimately have "cluster = home" "n = name" using sync_rule_own_target by simp_all
  then show ?thesis using r(2,3,5) by (simp add: storage_requirement_def)
qed

theorem syncer_reaches_own_target_only_witness:
  "\<exists>rc. resolveRootPath ex_template ''/services/syncer/compute/east/u1/clusters/*/api/v1/pods'' = Some (''/services/syncer/compute/east/u1/clusters/*'', rc)
     \<and> storage_requirement basic_hash ''compute'' ''east'' ResourceStateSync = (ClusterResourceStateLabelPrefix @ rq_syncTargetKey rc, ResourceStateSync)"
proof -
  let ?path = "''/services/syncer/compute/east/u1/clusters/*/api/v1/pods''"
  let ?t = "ex_template\<lparr>tp_lib := ex_path_lib\<lparr>pl_Name := \<lambda>p. if p = ''compute'' then Some p else None\<rparr>\<rparr>"
  let ?split = "\<lambda>k. if take 8 k = ''compute|'' then Inr (''compute'', drop 8 k) else Inl NotFound :: go_error + (string \<times> string)"
  let ?authz = "\<lambda>ws. if ws = ''compute'' then Inr (\<lambda>a. if az_User a = ''sa'' \<and> (\<exists>rule \<in> set (syncer_rules ''east''). rule_allows rule a)
    then Inr DecisionAllow else Inr DecisionNoOpinion) else Inl NotFound :: go_error + (authz_attributes \<Rightarrow> go_error + decision)"
  obtain owners where c: "RoleCreate ex_id owners (syncer_rules ''east'') \<in>
       set (fst (enableSyncerForWorkspace ex_sync (ex_sync_server False ex_target) ex_opts ''east'' ''default'' [(''a'', ''b'')]))"
    using ex_role_created by blast
  have keys: "?split (pl_ToClusterAwareKey (tp_lib ?t) cl n) = Inr (cl, n)" if "pl_Name (tp_lib ?t) p = Some cl" for p cl n
    using that by (auto simp: ex_path_lib_def split: if_splits)
  have rbac: "ws = ''compute'' \<and> (\<exists>rule \<in> set (syncer_rules ''east''). rule_allows rule a)"
    if "?authz ws = Inr authz" "authz a = Inr DecisionAllow" "az_User a = ''sa''" for ws authz a
    using that by (auto split: if_splits)
  obtain rc where rc: "resolveRootPath ?t ?path = Some (''/services/syncer/compute/east/u1/clusters/*'', rc)" "rq_apiDomainKey rc = ''compute|east''"
    "resolveRootPath ex_template ?path = resolveRootPath ?t ?path"
    using resolve_segments [of "''compute''" "''east''" "''u1''" "''*''" ?t "''api/v1/pods''"]
      resolve_segments [of "''compute''" "''east''" "''u1''" "''*''" ex_template "''api/v1/pods''"]
    by (simp add: ex_template_def ex_path_lib_def ex_uid_target_def segment_def parse_cluster_def)
  have "authorize ?split ?authz ''compute|east'' ''sa'' = Inr DecisionAllow"
    using sync_rule_own_target [of "''east''" "''sa''" "''east''"] by (simp add: authorize_def sync_attributes_def)
  then have auth: "authorize ?split ?authz (rq_apiDomainKey rc) ''sa'' = Inr DecisionAllow" unfolding rc(2) .
  have cr: "call_rules (RoleCreate ex_id owners (syncer_rules ''east'')) = Some (syncer_rules ''east'')" by simp
  from conjunct1 [OF syncer_reaches_own_target_only [where newAuthorizer = ?authz and user = "''sa''" and home = "''compute''" and splitKey = ?split and t = ?t
      and state = ResourceStateSync, OF c cr rbac keys rc(1) auth]]
  have "storage_requirement (pl_hash (tp_lib ?t)) ''compute'' ''east'' ResourceStateSync = (ClusterResourceStateLabelPrefix @ rq_syncTargetKey rc, ResourceStateSync)" .
  moreover have "pl_hash (tp_lib ?t) = basic_hash" by (simp add: ex_path_lib_def)
  ultimately have "storage_requirement basic_hash ''compute'' ''east'' ResourceStateSync = (ClusterResourceStateLabelPrefix @ rq_syncTargetKey rc, ResourceStateSync)"
    by (simp only:)
  then show ?thesis by (intro exI [of _ rc] conjI trans [OF rc(3,1)])
qed

end
